(* ===== verification/Nemu_Prelude.thy ===== *)
theory Nemu_Prelude
  imports Main "HOL-Library.Word"
begin

text \<open>
  Shared ground of the development: the machine integer types of \<^verbatim>\<open>include/common.h\<close>,
  the outcome type that every fallible piece of the emulator returns, C bit-fields as slices of a
  32-bit word, little-endian byte access, and the generic lemmas on them that the component
  theories use through the collections declared here.
\<close>

unbundle bit_operations_syntax

named_theorems bf_simps \<open>reading bit-fields back after bit-field writes\<close>
named_theorems res_simps \<open>sequencing of outcomes\<close>

type_synonym u8 = "8 word"
type_synonym u16 = "16 word"
type_synonym u32 = "32 word"
type_synonym u64 = "64 word"

lemma unat_u32_less: "unat (w :: u32) < 2 ^ 32"
proof -
  have "unat w < 2 ^ LENGTH(32)" by (rule unsigned_less)
  then show ?thesis by simp
qed

lemma word_unat_eqI: "unat v = unat w \<Longrightarrow> v = w"
  by (rule unsigned_word_eqI)

lemma unat_of_nat_u32: "n < 2 ^ 32 \<Longrightarrow> unat (of_nat n :: u32) = n"
  by (simp add: unsigned_of_nat take_bit_nat_eq_self)

lemma take_bit_u32_small: "unat (w :: u32) < 2 ^ n \<Longrightarrow> take_bit n w = w"
  by (rule word_unat_eqI) (simp add: unsigned_take_bit_eq take_bit_nat_eq_self)

lemma and_mask_u32: "w AND 0xFFFF = take_bit 16 (w :: u32)" "w AND 0xFFF = take_bit 12 (w :: u32)"
    "w AND 0x1FFFFFFF = take_bit 29 (w :: u32)" "w AND 3 = take_bit 2 (w :: u32)"
  by (simp_all add: take_bit_eq_mask mask_eq_exp_minus_1)

section \<open>Outcomes\<close>

text \<open>
  How a computation of the emulator can end other than by returning: \<^verbatim>\<open>panic\<close> and
  \<^verbatim>\<open>Assert\<close> end the process with \<^verbatim>\<open>exit(-1)\<close>, the C library's
  \<^verbatim>\<open>assert\<close> aborts it, \<^verbatim>\<open>CPUAssert\<close> jumps back to
  \<^verbatim>\<open>cpu_exec\<close> in GDB mode and aborts otherwise, \<^verbatim>\<open>nemu_exit\<close> is a regular
  exit, a loop over a host file may wait forever, and an operation that C leaves undefined (a
  division by zero, a shift by the width of the operand, an index outside an array) has no meaning
  at all.
\<close>

datatype fault =
    Panic
  | AssertFail
  | CPUAbort
  | NemuExit
  | Hang
  | UndefinedBehaviour

text \<open>
  An outcome is a fault together with the state it left behind (the \<^verbatim>\<open>longjmp\<close> of
  \<^verbatim>\<open>CPUAbort\<close> keeps the globals), or a value with the state after it.
\<close>

type_synonym ('a, 's) outcome = "(fault \<times> 's) + ('a \<times> 's)"

definition bind_r :: "('a, 's) outcome \<Rightarrow> ('a \<Rightarrow> 's \<Rightarrow> ('b, 's) outcome) \<Rightarrow> ('b, 's) outcome" where
  "bind_r r f = (case r of Inl e \<Rightarrow> Inl e | Inr (x, s) \<Rightarrow> f x s)"

lemma bind_r_Inl [simp, res_simps]: "bind_r (Inl e) f = Inl e"
  by (simp add: bind_r_def)

lemma bind_r_Inr [simp, res_simps]: "bind_r (Inr (x, s)) f = f x s"
  by (simp add: bind_r_def)

lemma bind_r_eq_Inr:
  "bind_r r f = Inr y \<longleftrightarrow> (\<exists>x s. r = Inr (x, s) \<and> f x s = Inr y)"
  by (cases r) (auto simp: bind_r_def split: prod.splits)

lemma bind_r_InrE:
  assumes "bind_r r f = Inr (y, t)"
  obtains x s where "r = Inr (x, s)" and "f x s = Inr (y, t)"
  using assms by (auto simp: bind_r_eq_Inr)

lemma bind_r_assoc: "bind_r (bind_r r f) g = bind_r r (\<lambda>x s. bind_r (f x s) g)"
  by (cases r) (auto simp: bind_r_def split: prod.splits)

lemma bind_r_return: "bind_r r (\<lambda>x s. Inr (x, s)) = r"
  by (cases r) (auto simp: bind_r_def split: prod.splits)

text \<open>\<open>keeps P r\<close>: whatever way the computation ended, the state it ended in satisfies \<open>P\<close>.\<close>

definition keeps :: "('s \<Rightarrow> bool) \<Rightarrow> ('a, 's) outcome \<Rightarrow> bool" where
  "keeps P r = (case r of Inl (_, s) \<Rightarrow> P s | Inr (_, s) \<Rightarrow> P s)"

lemma keeps_Inl [simp]: "keeps P (Inl (e, s)) = P s"
  by (simp add: keeps_def)

lemma keeps_Inr [simp]: "keeps P (Inr (x, s)) = P s"
  by (simp add: keeps_def)

lemma keeps_bind:
  assumes "keeps P r" and "\<And>x s. P s \<Longrightarrow> keeps Q (f x s)" and "\<And>s. P s \<Longrightarrow> Q s"
  shows "keeps Q (bind_r r f)"
  using assms by (cases r) auto

lemma keeps_mono: "keeps P r \<Longrightarrow> (\<And>s. P s \<Longrightarrow> Q s) \<Longrightarrow> keeps Q r"
  by (cases r) (auto simp: keeps_def)

section \<open>C bit-fields\<close>

text \<open>
  GCC on a little-endian host allocates bit-fields from the least significant bit. A field of
  \<open>n\<close> bits that starts at bit \<open>k\<close> is read by \<open>bf_get k n\<close>; storing a value into it keeps
  the low \<open>n\<close> bits of the value and leaves the rest of the word alone.
\<close>

definition bf_get :: "nat \<Rightarrow> nat \<Rightarrow> u32 \<Rightarrow> u32" where
  "bf_get k n w = take_bit n (drop_bit k w)"

definition bf_set :: "nat \<Rightarrow> nat \<Rightarrow> u32 \<Rightarrow> u32 \<Rightarrow> u32" where
  "bf_set k n v w = (w AND NOT (push_bit k (mask n))) OR push_bit k (take_bit n v)"

lemma bit_bf_get: "bit (bf_get k n w) i \<longleftrightarrow> i < n \<and> bit w (k + i)"
  by (auto simp: bf_get_def bit_simps)

lemma bit_bf_set:
  "bit (bf_set k n v w) i \<longleftrightarrow>
     i < 32 \<and> (if k \<le> i \<and> i < k + n then bit v (i - k) else bit w i)"
  by (auto simp: bf_set_def bit_simps dest: bit_imp_le_length)

lemma bf_get_set_same [bf_simps]:
  "k + n \<le> 32 \<Longrightarrow> bf_get k n (bf_set k n v w) = take_bit n v"
  by (rule bit_eqI) (auto simp: bit_bf_get bit_bf_set bit_simps)

lemma bf_get_set_disjoint [bf_simps]:
  "k + n \<le> k' \<or> k' + n' \<le> k \<Longrightarrow> bf_get k n (bf_set k' n' v w) = bf_get k n w"
  by (rule bit_eqI) (auto simp: bit_bf_get bit_bf_set bit_simps dest: bit_imp_le_length)

lemma bf_set_get_id: "bf_set k n (bf_get k n w) w = w"
  by (rule bit_eqI) (auto simp: bit_bf_get bit_bf_set)

lemma bf_set_set_same: "bf_set k n v (bf_set k n v' w) = bf_set k n v w"
  by (rule bit_eqI) (auto simp: bit_bf_set)

lemma bf_get_le_mask: "bf_get k n w \<le> mask n"
  by (simp add: bf_get_def take_bit_eq_mask word_and_le1 word_and_le2)

lemma unat_bf_get_less: "n < 32 \<Longrightarrow> unat (bf_get k n w) < 2 ^ n"
  by (simp add: bf_get_def unsigned_take_bit_eq take_bit_nat_less_exp)

lemma take_bit_bf_get [bf_simps]: "n \<le> m \<Longrightarrow> take_bit m (bf_get k n w) = bf_get k n w"
  by (simp add: bf_get_def min_def)

lemma bf_get_1: "bf_get k (Suc 0) w = of_bool (bit w k)"
  by (rule bit_eqI) (auto simp: bit_bf_get bit_1_iff)

lemma bf_get_1_cases: "bf_get k (Suc 0) w = 0 \<or> bf_get k (Suc 0) w = 1"
  by (simp add: bf_get_1)

text \<open>Field-wise equality of a word: a word is determined by fields that cover it.\<close>

lemma bf_get_whole: "bf_get 0 32 w = w"
  by (simp add: bf_get_def take_bit_word_eq_self)

section \<open>Little-endian bytes\<close>

definition byte_of :: "u32 \<Rightarrow> nat \<Rightarrow> u8" where
  "byte_of w k = ucast (drop_bit (8 * k) w)"

definition le32 :: "u8 \<Rightarrow> u8 \<Rightarrow> u8 \<Rightarrow> u8 \<Rightarrow> u32" where
  "le32 b0 b1 b2 b3 = ucast b0 OR push_bit 8 (ucast b1) OR push_bit 16 (ucast b2) OR push_bit 24 (ucast b3)"

lemma bit_byte_of [bit_simps]: "bit (byte_of w k) i \<longleftrightarrow> i < 8 \<and> bit w (8 * k + i)"
  by (auto simp: byte_of_def bit_simps)

lemma bit_le32:
  "bit (le32 b0 b1 b2 b3) i \<longleftrightarrow>
     (if i < 8 then bit b0 i else if i < 16 then bit b1 (i - 8)
      else if i < 24 then bit b2 (i - 16) else i < 32 \<and> bit b3 (i - 24))"
  by (auto simp: le32_def bit_simps dest: bit_imp_le_length)

lemma le32_bytes: "le32 (byte_of w 0) (byte_of w 1) (byte_of w 2) (byte_of w 3) = w"
  by (rule bit_eqI) (auto simp: bit_le32 bit_byte_of)

lemma byte_of_le32:
  "byte_of (le32 b0 b1 b2 b3) 0 = b0" "byte_of (le32 b0 b1 b2 b3) 1 = b1"
  "byte_of (le32 b0 b1 b2 b3) 2 = b2" "byte_of (le32 b0 b1 b2 b3) 3 = b3"
  by (rule bit_eqI; auto simp: bit_le32 bit_byte_of dest: bit_imp_le_length)+

end
