(* ===== verification/Fifo.thy ===== *)
theory Fifo
  imports Nemu_Prelude
begin

text \<open>
  The ring buffer of \<^verbatim>\<open>include/utils/fifo.h\<close>, used by the UART, the keyboard and
  the SPI controller. \<^verbatim>\<open>head\<close> and \<^verbatim>\<open>size\<close> are C \<^verbatim>\<open>unsigned\<close>s, the
  array has a fixed length. The locale states the bounded FIFO queue that its clients rely on; it is
  interpreted on the ring buffer.
\<close>

record 'a fifo =
  head :: u32
  fsize :: u32
  elems :: "'a list"

definition fifo_capacity :: "'a fifo \<Rightarrow> nat" where
  "fifo_capacity q = length (elems q)"

definition fifo_reset :: "'a fifo \<Rightarrow> 'a fifo" where
  "fifo_reset q = q\<lparr>head := 0, fsize := 0\<rparr>"

definition fifo_push :: "'a \<Rightarrow> 'a fifo \<Rightarrow> 'a fifo" where
  "fifo_push ch q =
     (let next = unat (head q + fsize q) mod fifo_capacity q
      in if unat (fsize q) < fifo_capacity q
         then q\<lparr>elems := (elems q)[next := ch], fsize := fsize q + 1\<rparr>
         else q)"

definition fifo_top :: "'a fifo \<Rightarrow> 'a" where
  "fifo_top q = elems q ! unat (head q)"

definition fifo_pop :: "'a fifo \<Rightarrow> 'a \<times> 'a fifo" where
  "fifo_pop q =
     (let old_h = head q;
          q' = (if fsize q > 0
                then q\<lparr>head := of_nat (unat (head q + 1) mod fifo_capacity q), fsize := fsize q - 1\<rparr>
                else q)
      in (elems q' ! unat old_h, q'))"

definition fifo_is_full :: "'a fifo \<Rightarrow> bool" where
  "fifo_is_full q = (unat (fsize q) = fifo_capacity q)"

definition fifo_is_empty :: "'a fifo \<Rightarrow> bool" where
  "fifo_is_empty q = (fsize q = 0)"

text \<open>
  The invariant: the array is not empty and small enough for \<^verbatim>\<open>unsigned\<close> arithmetic
  on its indices, \<^verbatim>\<open>head\<close> points into it, and it holds no more than its capacity. The
  queue it stands for is read off the array from \<^verbatim>\<open>head\<close>, modulo the capacity.
\<close>

definition fifo_wf :: "'a fifo \<Rightarrow> bool" where
  "fifo_wf q \<longleftrightarrow> 0 < fifo_capacity q \<and> fifo_capacity q < 2 ^ 31
      \<and> unat (head q) < fifo_capacity q \<and> unat (fsize q) \<le> fifo_capacity q"

definition fifo_list :: "'a fifo \<Rightarrow> 'a list" where
  "fifo_list q = map (\<lambda>i. elems q ! ((unat (head q) + i) mod fifo_capacity q)) [0..<unat (fsize q)]"

lemma unat_add_small: "unat (a :: u32) + unat b < 2 ^ 32 \<Longrightarrow> unat (a + b) = unat a + unat b"
  by (simp add: unat_word_ariths)

lemma unat_Suc_small: "unat (a :: u32) < 2 ^ 32 - 1 \<Longrightarrow> unat (a + 1) = Suc (unat a)"
  by (simp add: unat_word_ariths)

lemma ring_index_inj:
  assumes "i < n" and "j < n" and "(h + i) mod n = (h + j) mod (n :: nat)"
  shows "i = j"
proof -
  have "a = b" if "a \<le> b" "b < n" "(h + a) mod n = (h + b) mod n" for a b
  proof -
    have "n dvd (h + b) - (h + a)"
      using that mod_eq_dvd_iff_nat [of "h + a" "h + b" n] by simp
    then show ?thesis using that by (auto dest: dvd_imp_le)
  qed
  from this [of i j] this [of j i] show ?thesis using assms by (cases "i \<le> j") auto
qed

section \<open>The bounded FIFO queue\<close>

text \<open>
  What the devices rely on: pushing appends while there is room and drops the element otherwise,
  popping removes the oldest element, and on an empty queue it changes nothing.
\<close>

locale bounded_queue =
  fixes push :: "'a \<Rightarrow> 'q \<Rightarrow> 'q"
    and pop :: "'q \<Rightarrow> 'a \<times> 'q"
    and reset :: "'q \<Rightarrow> 'q"
    and is_empty :: "'q \<Rightarrow> bool"
    and is_full :: "'q \<Rightarrow> bool"
    and capacity :: "'q \<Rightarrow> nat"
    and contents :: "'q \<Rightarrow> 'a list"
    and wf :: "'q \<Rightarrow> bool"
  assumes wf_push: "wf q \<Longrightarrow> wf (push x q)"
    and wf_pop: "wf q \<Longrightarrow> wf (snd (pop q))"
    and wf_reset: "wf q \<Longrightarrow> wf (reset q)"
    and contents_push: "wf q \<Longrightarrow> contents (push x q) =
          (if length (contents q) < capacity q then contents q @ [x] else contents q)"
    and contents_pop: "wf q \<Longrightarrow> contents (snd (pop q)) = tl (contents q)"
    and value_pop: "wf q \<Longrightarrow> contents q \<noteq> [] \<Longrightarrow> fst (pop q) = hd (contents q)"
    and contents_reset: "wf q \<Longrightarrow> contents (reset q) = []"
    and empty_iff: "wf q \<Longrightarrow> is_empty q \<longleftrightarrow> contents q = []"
    and full_iff: "wf q \<Longrightarrow> is_full q \<longleftrightarrow> length (contents q) = capacity q"
    and capacity_push: "capacity (push x q) = capacity q"
    and capacity_pop: "capacity (snd (pop q)) = capacity q"
    and contents_bound: "wf q \<Longrightarrow> length (contents q) \<le> capacity q"
begin

lemma fold_push:
  "wf q \<Longrightarrow> wf (fold push xs q) \<and> capacity (fold push xs q) = capacity q
     \<and> contents (fold push xs q) = take (capacity q) (contents q @ xs)"
proof (induction xs arbitrary: q)
  case Nil
  then show ?case using contents_bound by simp
next
  case (Cons x xs)
  note q = Cons.prems
  have IH: "contents (fold push xs (push x q)) = take (capacity q) (contents (push x q) @ xs)"
    "wf (fold push xs (push x q))" "capacity (fold push xs (push x q)) = capacity q"
    using Cons.IH [OF wf_push [OF q, of x]] by (auto simp: capacity_push)
  show ?case
    using IH contents_push [OF q, of x] contents_bound [OF q] by (auto simp: take_Cons')
qed

primrec drain :: "nat \<Rightarrow> 'q \<Rightarrow> 'a list \<times> 'q" where
  "drain 0 q = ([], q)"
| "drain (Suc n) q = (let (x, q') = pop q; (xs, q'') = drain n q' in (x # xs, q''))"

lemma drain_contents:
  "wf q \<Longrightarrow> n \<le> length (contents q) \<Longrightarrow>
     fst (drain n q) = take n (contents q) \<and> contents (snd (drain n q)) = drop n (contents q)
     \<and> wf (snd (drain n q))"
proof (induction n arbitrary: q)
  case 0
  then show ?case by simp
next
  case (Suc n)
  obtain x q' where p: "pop q = (x, q')" by (cases "pop q")
  have ne: "contents q \<noteq> []" using Suc.prems by auto
  have x: "x = hd (contents q)" and q': "contents q' = tl (contents q)" and w: "wf q'"
    using value_pop [OF Suc.prems(1) ne] contents_pop [OF Suc.prems(1)] wf_pop [OF Suc.prems(1)] p
    by simp_all
  have "n \<le> length (contents q')" using Suc.prems q' by simp
  from Suc.IH [OF w this] show ?case
    using p x q' ne by (auto simp: Let_def take_Suc drop_Suc split: prod.splits)
qed

text \<open>What was pushed comes out in the order it went in, as long as there was room for it.\<close>

lemma push_drain:
  assumes "wf q" and "contents q = []" and "length xs \<le> capacity q"
  shows "fst (drain (length xs) (fold push xs q)) = xs"
proof -
  have "contents (fold push xs q) = xs" and "wf (fold push xs q)"
    using fold_push [OF assms(1), of xs] assms(2,3) by auto
  then show ?thesis using drain_contents [of "fold push xs q" "length xs"] by simp
qed

end

section \<open>The ring buffer is a bounded FIFO queue\<close>

lemma length_fifo_list [simp]: "length (fifo_list q) = unat (fsize q)"
  by (simp add: fifo_list_def)

lemma fifo_push_frame [simp]:
  "fifo_capacity (fifo_push x q) = fifo_capacity q" "head (fifo_push x q) = head q"
  by (simp_all add: fifo_push_def fifo_capacity_def Let_def)

lemma fifo_pop_frame [simp]:
  "fifo_capacity (snd (fifo_pop q)) = fifo_capacity q" "elems (snd (fifo_pop q)) = elems q"
  by (simp_all add: fifo_pop_def fifo_capacity_def Let_def)

lemma fifo_wf_less: "fifo_wf q \<Longrightarrow> unat (fsize q) < 2 ^ 32 - 1"
  by (simp add: fifo_wf_def)

lemma fifo_wf_push: "fifo_wf q \<Longrightarrow> fifo_wf (fifo_push x q)"
  using fifo_wf_less [of q]
  by (auto simp: fifo_wf_def fifo_push_def fifo_capacity_def Let_def unat_Suc_small)

lemma unat_pred: "(0 :: u32) < w \<Longrightarrow> unat (w - 1) = unat w - 1"
  by (simp add: unat_minus_one word_neq_0_conv)

lemma unat_ring_next:
  assumes "fifo_wf q"
  shows "unat (of_nat (unat (head q + 1) mod fifo_capacity q) :: u32) = (unat (head q) + 1) mod fifo_capacity q"
proof -
  have h: "unat (head q + 1) = unat (head q) + 1"
    using assms unat_Suc_small [of "head q"] by (simp add: fifo_wf_def)
  have "(unat (head q) + 1) mod fifo_capacity q < 2 ^ 32"
    using assms by (auto simp: fifo_wf_def intro: less_trans [OF mod_less_divisor])
  then show ?thesis by (simp add: h unat_of_nat take_bit_nat_eq_self)
qed

lemma fifo_wf_pop: "fifo_wf q \<Longrightarrow> fifo_wf (snd (fifo_pop q))"
  using unat_ring_next [of q] unat_pred [of "fsize q"]
  by (auto simp: fifo_wf_def fifo_pop_def fifo_capacity_def Let_def)

lemma fifo_list_push:
  assumes "fifo_wf q"
  shows "fifo_list (fifo_push x q) =
           (if unat (fsize q) < fifo_capacity q then fifo_list q @ [x] else fifo_list q)"
proof (cases "unat (fsize q) < fifo_capacity q")
  case True
  let ?n = "fifo_capacity q" and ?h = "unat (head q)" and ?s = "unat (fsize q)"
  have nxt: "unat (head q + fsize q) = ?h + ?s"
    using assms by (intro unat_add_small) (simp add: fifo_wf_def)
  have Suc: "unat (fsize q + 1) = Suc ?s"
    using fifo_wf_less [OF assms] by (rule unat_Suc_small)
  have old: "(elems q)[(?h + ?s) mod ?n := x] ! ((?h + i) mod ?n) = elems q ! ((?h + i) mod ?n)"
    if "i < ?s" for i
  proof -
    have "(?h + ?s) mod ?n \<noteq> (?h + i) mod ?n"
      using ring_index_inj [of i ?n ?s ?h] that True by auto
    then show ?thesis by (rule nth_list_update_neq)
  qed
  have new: "(elems q)[(?h + ?s) mod ?n := x] ! ((?h + ?s) mod ?n) = x"
    using assms by (simp add: fifo_wf_def fifo_capacity_def)
  show ?thesis
    using True old new by (simp add: fifo_list_def fifo_push_def fifo_capacity_def Let_def nxt Suc)
qed (simp add: fifo_push_def)

lemma fifo_list_pop:
  assumes "fifo_wf q"
  shows "fifo_list (snd (fifo_pop q)) = tl (fifo_list q)"
proof (cases "fsize q > 0")
  case True
  let ?n = "fifo_capacity q" and ?h = "unat (head q)" and ?s = "unat (fsize q)"
  have "((?h + 1) mod ?n + i) mod ?n = (?h + Suc i) mod ?n" for i
    by (simp add: mod_add_left_eq)
  moreover have "?s = Suc (?s - 1)" using True by (simp add: word_gt_0 unat_gt_0)
  then have "[0..<?s] = 0 # map Suc [0..<?s - 1]"
    by (metis map_Suc_upt upt_conv_Cons zero_less_Suc)
  ultimately show ?thesis
    using True unat_ring_next [OF assms] unat_pred [OF True]
    by (simp add: fifo_list_def fifo_pop_def fifo_capacity_def Let_def)
next
  case False
  then show ?thesis by (simp add: fifo_list_def fifo_pop_def Let_def word_gt_0)
qed

lemma fifo_pop_value:
  assumes "fifo_wf q" and "fifo_list q \<noteq> []"
  shows "fst (fifo_pop q) = hd (fifo_list q)"
proof -
  have "0 < unat (fsize q)" using assms(2) length_fifo_list [of q] by (metis length_greater_0_conv)
  then show ?thesis
    using assms(1) by (simp add: fifo_list_def fifo_pop_def Let_def hd_map fifo_wf_def)
qed

interpretation ring: bounded_queue fifo_push fifo_pop fifo_reset fifo_is_empty fifo_is_full
  fifo_capacity fifo_list fifo_wf
proof unfold_locales
  fix q :: "'a fifo" and x :: 'a
  assume wf: "fifo_wf q"
  show "fifo_wf (fifo_reset q)" using wf by (simp add: fifo_wf_def fifo_reset_def fifo_capacity_def)
  show "fifo_list (fifo_push x q) =
      (if length (fifo_list q) < fifo_capacity q then fifo_list q @ [x] else fifo_list q)"
    using fifo_list_push [OF wf] by simp
  show "fifo_is_empty q = (fifo_list q = [])"
    by (simp add: fifo_is_empty_def fifo_list_def unat_eq_zero)
  show "fifo_list (fifo_reset q) = []" by (simp add: fifo_list_def fifo_reset_def)
  show "length (fifo_list q) \<le> fifo_capacity q" using wf by (simp add: fifo_wf_def)
qed (simp_all add: fifo_wf_push fifo_wf_pop fifo_list_pop fifo_pop_value fifo_is_full_def)

section \<open>Properties\<close>

text \<open>
  C18: the ring buffer is a bounded queue. Pushing a sequence of elements appends to the queue it
  stands for as many of them as fit, in order, whatever the position of the head in the array;
  popping removes the oldest element and returns it; both keep the buffer well-formed.
\<close>

theorem fifo_refines_queue:
  assumes "fifo_wf q"
  shows "fifo_wf (fold fifo_push xs q) \<and>
     fifo_list (fold fifo_push xs q) = take (fifo_capacity q) (fifo_list q @ xs) \<and>
     fifo_wf (snd (fifo_pop q)) \<and> fifo_list (snd (fifo_pop q)) = tl (fifo_list q) \<and>
     (fifo_list q \<noteq> [] \<longrightarrow> fst (fifo_pop q) = hd (fifo_list q))"
  using ring.fold_push [OF assms, of xs] ring.wf_pop [OF assms] ring.contents_pop [OF assms]
    ring.value_pop [OF assms] by blast

text \<open>The head in the last cell of three, one element inside: the next pushes wrap around.\<close>

theorem fifo_refines_queue_witness:
  "fifo_list (fold fifo_push [1, 2, 3 :: u32] \<lparr>head = 2, fsize = 1, elems = [10, 20, 30]\<rparr>) = [30, 1, 2]"
proof -
  let ?q = "\<lparr>head = 2, fsize = 1, elems = [10, 20, 30 :: u32]\<rparr>"
  have "fifo_wf ?q" "fifo_list ?q = [30]" "fifo_capacity ?q = 3"
    by (simp_all add: fifo_wf_def fifo_list_def fifo_capacity_def)
  then show ?thesis using fifo_refines_queue [of ?q "[1, 2, 3]"] by simp
qed

end
