(* ===== verification/Flash.thy ===== *)
theory Flash
  imports Nemu_Prelude
begin

text \<open>
  The serial flash memory behind the SPI controller, \<^verbatim>\<open>src/dev/flash.c\<close>: a state machine
  that is fed one byte at a time, decodes commands, collects their arguments, and programs, erases
  or reads an array of bytes. The debugging prints are left out.
\<close>

section \<open>Parts\<close>

abbreviation (input) ER_4K :: u16 where "ER_4K \<equiv> 1"
abbreviation (input) ER_32K :: u16 where "ER_32K \<equiv> 2"
abbreviation (input) EEPROM :: u16 where "EEPROM \<equiv> 0x100"
abbreviation (input) MAX_3BYTES_SIZE :: u32 where "MAX_3BYTES_SIZE \<equiv> 0x1000000"

record FlashPartInfo =
  pi_part_name :: string
  pi_id :: "u8 list"
  pi_id_len :: nat
  pi_sector_size :: u32
  pi_n_sectors :: u32
  pi_page_size :: u32
  pi_flags :: u16
  pi_die_cnt :: nat

definition INFO_STACKED :: "string \<Rightarrow> u32 \<Rightarrow> u32 \<Rightarrow> u32 \<Rightarrow> u32 \<Rightarrow> u16 \<Rightarrow> nat \<Rightarrow> FlashPartInfo" where
  "INFO_STACKED part_name jedec_id ext_id sector_size n_sectors flags die_cnt = \<lparr>
     pi_part_name = part_name,
     pi_id = [ucast (drop_bit 16 jedec_id), ucast (drop_bit 8 jedec_id), ucast jedec_id,
              ucast (drop_bit 8 ext_id), ucast ext_id, 0],
     pi_id_len = (if jedec_id = 0 then 0 else 3 + (if ext_id \<noteq> 0 then 2 else 0)),
     pi_sector_size = sector_size, pi_n_sectors = n_sectors, pi_page_size = 256,
     pi_flags = flags, pi_die_cnt = die_cnt\<rparr>"

definition INFO :: "string \<Rightarrow> u32 \<Rightarrow> u32 \<Rightarrow> u32 \<Rightarrow> u32 \<Rightarrow> u16 \<Rightarrow> FlashPartInfo" where
  "INFO part_name jedec_id ext_id sector_size n_sectors flags =
     INFO_STACKED part_name jedec_id ext_id sector_size n_sectors flags 0"

definition INFO6 :: "string \<Rightarrow> u32 \<Rightarrow> u32 \<Rightarrow> u32 \<Rightarrow> u32 \<Rightarrow> u16 \<Rightarrow> FlashPartInfo" where
  "INFO6 part_name jedec_id ext_id sector_size n_sectors flags = \<lparr>
     pi_part_name = part_name,
     pi_id = [ucast (drop_bit 16 jedec_id), ucast (drop_bit 8 jedec_id), ucast jedec_id,
              ucast (drop_bit 16 ext_id), ucast (drop_bit 8 ext_id), ucast ext_id],
     pi_id_len = 6,
     pi_sector_size = sector_size, pi_n_sectors = n_sectors, pi_page_size = 256,
     pi_flags = flags, pi_die_cnt = 0\<rparr>"

definition known_devices :: "FlashPartInfo list" where
  "known_devices = [
     INFO ''nemu512M'' 0x20bb23 0 0x10000 8192 ER_4K,
     INFO ''nemu1G'' 0x20bb24 0 0x10000 16384 ER_4K,
     INFO ''nemu2G'' 0x20bb25 0 0x10000 32768 ER_4K,
     INFO ''at25fs010'' 0x1f6601 0 0x8000 4 ER_4K,
     INFO ''at25fs040'' 0x1f6604 0 0x10000 8 ER_4K,
     INFO ''at25df041a'' 0x1f4401 0 0x10000 8 ER_4K,
     INFO ''at25df321a'' 0x1f4701 0 0x10000 64 ER_4K,
     INFO ''at25df641'' 0x1f4800 0 0x10000 128 ER_4K,
     INFO ''at26f004'' 0x1f0400 0 0x10000 8 ER_4K,
     INFO ''at26df081a'' 0x1f4501 0 0x10000 16 ER_4K,
     INFO ''at26df161a'' 0x1f4601 0 0x10000 32 ER_4K,
     INFO ''at26df321'' 0x1f4700 0 0x10000 64 ER_4K,
     INFO ''at45db081d'' 0x1f2500 0 0x10000 16 ER_4K,
     INFO ''at25128a-nonjedec'' 0 0 1 131072 EEPROM,
     INFO ''at25256a-nonjedec'' 0 0 1 262144 EEPROM,
     INFO ''en25f32'' 0x1c3116 0 0x10000 64 ER_4K,
     INFO ''en25p32'' 0x1c2016 0 0x10000 64 0,
     INFO ''en25q32b'' 0x1c3016 0 0x10000 64 0,
     INFO ''en25p64'' 0x1c2017 0 0x10000 128 0,
     INFO ''en25q64'' 0x1c3017 0 0x10000 128 ER_4K,
     INFO ''gd25q32'' 0xc84016 0 0x10000 64 ER_4K,
     INFO ''gd25q64'' 0xc84017 0 0x10000 128 ER_4K,
     INFO ''160s33b'' 0x898911 0 0x10000 32 0,
     INFO ''320s33b'' 0x898912 0 0x10000 64 0,
     INFO ''640s33b'' 0x898913 0 0x10000 128 0,
     INFO ''n25q064'' 0x20ba17 0 0x10000 128 0,
     INFO ''mx25l2005a'' 0xc22012 0 0x10000 4 ER_4K,
     INFO ''mx25l4005a'' 0xc22013 0 0x10000 8 ER_4K,
     INFO ''mx25l8005'' 0xc22014 0 0x10000 16 0,
     INFO ''mx25l1606e'' 0xc22015 0 0x10000 32 ER_4K,
     INFO ''mx25l3205d'' 0xc22016 0 0x10000 64 0,
     INFO ''mx25l6405d'' 0xc22017 0 0x10000 128 0,
     INFO ''mx25l12805d'' 0xc22018 0 0x10000 256 0,
     INFO ''mx25l12855e'' 0xc22618 0 0x10000 256 0,
     INFO ''mx25l25635e'' 0xc22019 0 0x10000 512 0,
     INFO ''mx25l25655e'' 0xc22619 0 0x10000 512 0,
     INFO ''mx66u51235f'' 0xc2253a 0 0x10000 1024 (ER_4K OR ER_32K),
     INFO ''mx66u1g45g'' 0xc2253b 0 0x10000 2048 (ER_4K OR ER_32K),
     INFO ''mx66l1g45g'' 0xc2201b 0 0x10000 2048 (ER_4K OR ER_32K),
     INFO ''n25q032a11'' 0x20bb16 0 0x10000 64 ER_4K,
     INFO ''n25q032a13'' 0x20ba16 0 0x10000 64 ER_4K,
     INFO ''n25q064a11'' 0x20bb17 0 0x10000 128 ER_4K,
     INFO ''n25q064a13'' 0x20ba17 0 0x10000 128 ER_4K,
     INFO ''n25q128a11'' 0x20bb18 0 0x10000 256 ER_4K,
     INFO ''n25q128a13'' 0x20ba18 0 0x10000 256 ER_4K,
     INFO ''n25q256a11'' 0x20bb19 0 0x10000 512 ER_4K,
     INFO ''n25q256a13'' 0x20ba19 0 0x10000 512 ER_4K,
     INFO ''n25q512a11'' 0x20bb20 0 0x10000 1024 ER_4K,
     INFO ''n25q512a13'' 0x20ba20 0 0x10000 1024 ER_4K,
     INFO ''n25q128'' 0x20ba18 0 0x10000 256 0,
     INFO ''n25q256a'' 0x20ba19 0 0x10000 512 ER_4K,
     INFO ''n25q512a'' 0x20ba20 0 0x10000 1024 ER_4K,
     INFO_STACKED ''n25q00'' 0x20ba21 0x1000 0x10000 2048 ER_4K 4,
     INFO_STACKED ''n25q00a'' 0x20bb21 0x1000 0x10000 2048 ER_4K 4,
     INFO_STACKED ''mt25ql01g'' 0x20ba21 0x1040 0x10000 2048 ER_4K 2,
     INFO_STACKED ''mt25qu01g'' 0x20bb21 0x1040 0x10000 2048 ER_4K 2,
     INFO ''s25sl032p'' 0x010215 0x4d00 0x10000 64 ER_4K,
     INFO ''s25sl064p'' 0x010216 0x4d00 0x10000 128 ER_4K,
     INFO ''s25fl256s0'' 0x010219 0x4d00 0x40000 128 0,
     INFO ''s25fl256s1'' 0x010219 0x4d01 0x10000 512 0,
     INFO6 ''s25fl512s'' 0x010220 0x4d0080 0x40000 256 0,
     INFO6 ''s70fl01gs'' 0x010221 0x4d0080 0x40000 512 0,
     INFO ''s25sl12800'' 0x012018 0x0300 0x40000 64 0,
     INFO ''s25sl12801'' 0x012018 0x0301 0x10000 256 0,
     INFO ''s25fl129p0'' 0x012018 0x4d00 0x40000 64 0,
     INFO ''s25fl129p1'' 0x012018 0x4d01 0x10000 256 0,
     INFO ''s25sl004a'' 0x010212 0 0x10000 8 0,
     INFO ''s25sl008a'' 0x010213 0 0x10000 16 0,
     INFO ''s25sl016a'' 0x010214 0 0x10000 32 0,
     INFO ''s25sl032a'' 0x010215 0 0x10000 64 0,
     INFO ''s25sl064a'' 0x010216 0 0x10000 128 0,
     INFO ''s25fl016k'' 0xef4015 0 0x10000 32 (ER_4K OR ER_32K),
     INFO ''s25fl064k'' 0xef4017 0 0x10000 128 (ER_4K OR ER_32K),
     INFO6 ''s25fs512s'' 0x010220 0x4d0081 0x40000 256 0,
     INFO6 ''s70fs01gs'' 0x010221 0x4d0081 0x40000 512 0,
     INFO ''sst25vf040b'' 0xbf258d 0 0x10000 8 ER_4K,
     INFO ''sst25vf080b'' 0xbf258e 0 0x10000 16 ER_4K,
     INFO ''sst25vf016b'' 0xbf2541 0 0x10000 32 ER_4K,
     INFO ''sst25vf032b'' 0xbf254a 0 0x10000 64 ER_4K,
     INFO ''sst25wf512'' 0xbf2501 0 0x10000 1 ER_4K,
     INFO ''sst25wf010'' 0xbf2502 0 0x10000 2 ER_4K,
     INFO ''sst25wf020'' 0xbf2503 0 0x10000 4 ER_4K,
     INFO ''sst25wf040'' 0xbf2504 0 0x10000 8 ER_4K,
     INFO ''sst25wf080'' 0xbf2505 0 0x10000 16 ER_4K,
     INFO ''m25p05'' 0x202010 0 0x8000 2 0,
     INFO ''m25p10'' 0x202011 0 0x8000 4 0,
     INFO ''m25p20'' 0x202012 0 0x10000 4 0,
     INFO ''m25p40'' 0x202013 0 0x10000 8 0,
     INFO ''m25p80'' 0x202014 0 0x10000 16 0,
     INFO ''m25p16'' 0x202015 0 0x10000 32 0,
     INFO ''m25p32'' 0x202016 0 0x10000 64 0,
     INFO ''m25p64'' 0x202017 0 0x10000 128 0,
     INFO ''m25p128'' 0x202018 0 0x40000 64 0,
     INFO ''n25q032'' 0x20ba16 0 0x10000 64 0,
     INFO ''m45pe10'' 0x204011 0 0x10000 2 0,
     INFO ''m45pe80'' 0x204014 0 0x10000 16 0,
     INFO ''m45pe16'' 0x204015 0 0x10000 32 0,
     INFO ''m25pe20'' 0x208012 0 0x10000 4 0,
     INFO ''m25pe80'' 0x208014 0 0x10000 16 0,
     INFO ''m25pe16'' 0x208015 0 0x10000 32 ER_4K,
     INFO ''m25px32'' 0x207116 0 0x10000 64 ER_4K,
     INFO ''m25px32-s0'' 0x207316 0 0x10000 64 ER_4K,
     INFO ''m25px32-s1'' 0x206316 0 0x10000 64 ER_4K,
     INFO ''m25px64'' 0x207117 0 0x10000 128 0,
     INFO ''w25x10'' 0xef3011 0 0x10000 2 ER_4K,
     INFO ''w25x20'' 0xef3012 0 0x10000 4 ER_4K,
     INFO ''w25x40'' 0xef3013 0 0x10000 8 ER_4K,
     INFO ''w25x80'' 0xef3014 0 0x10000 16 ER_4K,
     INFO ''w25x16'' 0xef3015 0 0x10000 32 ER_4K,
     INFO ''w25x32'' 0xef3016 0 0x10000 64 ER_4K,
     INFO ''w25q32'' 0xef4016 0 0x10000 64 ER_4K,
     INFO ''w25q32dw'' 0xef6016 0 0x10000 64 ER_4K,
     INFO ''w25x64'' 0xef3017 0 0x10000 128 ER_4K,
     INFO ''w25q64'' 0xef4017 0 0x10000 128 ER_4K,
     INFO ''w25q80'' 0xef5014 0 0x10000 16 ER_4K,
     INFO ''w25q80bl'' 0xef4014 0 0x10000 16 ER_4K,
     INFO ''w25q256'' 0xef4019 0 0x10000 512 ER_4K]"

section \<open>Commands and state\<close>

text \<open>\<^verbatim>\<open>FlashCMD\<close>\<close>

abbreviation (input) NOP :: u8 where "NOP \<equiv> 0"
abbreviation (input) WRSR :: u8 where "WRSR \<equiv> 0x1"
abbreviation (input) WRDI :: u8 where "WRDI \<equiv> 0x4"
abbreviation (input) RDSR :: u8 where "RDSR \<equiv> 0x5"
abbreviation (input) WREN :: u8 where "WREN \<equiv> 0x6"
abbreviation (input) BRRD :: u8 where "BRRD \<equiv> 0x16"
abbreviation (input) BRWR :: u8 where "BRWR \<equiv> 0x17"
abbreviation (input) JEDEC_READ :: u8 where "JEDEC_READ \<equiv> 0x9f"
abbreviation (input) BULK_ERASE_60 :: u8 where "BULK_ERASE_60 \<equiv> 0x60"
abbreviation (input) BULK_ERASE :: u8 where "BULK_ERASE \<equiv> 0xc7"
abbreviation (input) READ_FSR :: u8 where "READ_FSR \<equiv> 0x70"
abbreviation (input) RDCR :: u8 where "RDCR \<equiv> 0x15"
abbreviation (input) READ :: u8 where "READ \<equiv> 0x03"
abbreviation (input) READ4 :: u8 where "READ4 \<equiv> 0x13"
abbreviation (input) FAST_READ :: u8 where "FAST_READ \<equiv> 0x0b"
abbreviation (input) FAST_READ4 :: u8 where "FAST_READ4 \<equiv> 0x0c"
abbreviation (input) DOR :: u8 where "DOR \<equiv> 0x3b"
abbreviation (input) DOR4 :: u8 where "DOR4 \<equiv> 0x3c"
abbreviation (input) QOR :: u8 where "QOR \<equiv> 0x6b"
abbreviation (input) QOR4 :: u8 where "QOR4 \<equiv> 0x6c"
abbreviation (input) DIOR :: u8 where "DIOR \<equiv> 0xbb"
abbreviation (input) DIOR4 :: u8 where "DIOR4 \<equiv> 0xbc"
abbreviation (input) QIOR :: u8 where "QIOR \<equiv> 0xeb"
abbreviation (input) QIOR4 :: u8 where "QIOR4 \<equiv> 0xec"
abbreviation (input) PP :: u8 where "PP \<equiv> 0x02"
abbreviation (input) PP4 :: u8 where "PP4 \<equiv> 0x12"
abbreviation (input) PP4_4 :: u8 where "PP4_4 \<equiv> 0x3e"
abbreviation (input) DPP :: u8 where "DPP \<equiv> 0xa2"
abbreviation (input) QPP :: u8 where "QPP \<equiv> 0x32"
abbreviation (input) QPP_4 :: u8 where "QPP_4 \<equiv> 0x34"
abbreviation (input) RDID_90 :: u8 where "RDID_90 \<equiv> 0x90"
abbreviation (input) RDID_AB :: u8 where "RDID_AB \<equiv> 0xab"
abbreviation (input) ERASE_4K :: u8 where "ERASE_4K \<equiv> 0x20"
abbreviation (input) ERASE4_4K :: u8 where "ERASE4_4K \<equiv> 0x21"
abbreviation (input) ERASE_32K :: u8 where "ERASE_32K \<equiv> 0x52"
abbreviation (input) ERASE4_32K :: u8 where "ERASE4_32K \<equiv> 0x5c"
abbreviation (input) ERASE_SECTOR :: u8 where "ERASE_SECTOR \<equiv> 0xd8"
abbreviation (input) ERASE4_SECTOR :: u8 where "ERASE4_SECTOR \<equiv> 0xdc"
abbreviation (input) EN_4BYTE_ADDR :: u8 where "EN_4BYTE_ADDR \<equiv> 0xb7"
abbreviation (input) EX_4BYTE_ADDR :: u8 where "EX_4BYTE_ADDR \<equiv> 0xe9"
abbreviation (input) EXTEND_ADDR_READ :: u8 where "EXTEND_ADDR_READ \<equiv> 0xc8"
abbreviation (input) EXTEND_ADDR_WRITE :: u8 where "EXTEND_ADDR_WRITE \<equiv> 0xc5"
abbreviation (input) RESET_ENABLE :: u8 where "RESET_ENABLE \<equiv> 0x66"
abbreviation (input) RESET_MEMORY :: u8 where "RESET_MEMORY \<equiv> 0x99"
abbreviation (input) RDCR_EQIO :: u8 where "RDCR_EQIO \<equiv> 0x35"
abbreviation (input) RSTQIO :: u8 where "RSTQIO \<equiv> 0xf5"
abbreviation (input) RNVCR :: u8 where "RNVCR \<equiv> 0xb5"
abbreviation (input) WNVCR :: u8 where "WNVCR \<equiv> 0xb1"
abbreviation (input) RVCR :: u8 where "RVCR \<equiv> 0x85"
abbreviation (input) WVCR :: u8 where "WVCR \<equiv> 0x81"
abbreviation (input) REVCR :: u8 where "REVCR \<equiv> 0x65"
abbreviation (input) WEVCR :: u8 where "WEVCR \<equiv> 0x61"
abbreviation (input) DIE_ERASE :: u8 where "DIE_ERASE \<equiv> 0xc4"

datatype CMDState =
    STATE_IDLE
  | STATE_PAGE_PROGRAM
  | STATE_READ
  | STATE_COLLECTING_DATA
  | STATE_COLLECTING_VAR_LEN_DATA
  | STATE_READING_DATA

datatype Manufacturer =
    MAN_SPANSION
  | MAN_MACRONIX
  | MAN_NUMONYX
  | MAN_WINBOND
  | MAN_SST
  | MAN_GENERIC

text \<open>
  The backing file on the host: none was given, the name that was given does not exist, or its
  contents.
\<close>

datatype blkio = No_file | Missing | Contents "u8 list"

abbreviation (input) M25P80_INTERNAL_DATA_BUFFER_SZ :: nat where "M25P80_INTERNAL_DATA_BUFFER_SZ \<equiv> 16"

text \<open>
  The array \<^verbatim>\<open>storage\<close> has \<open>fl_size\<close> bytes; an access outside it is undefined. The field
  \<^verbatim>\<open>page_size\<close> is never used. \<^verbatim>\<open>blkio_file\<close> stands for the file with that name.
\<close>

record Flash =
  fl_storage :: "nat \<Rightarrow> u8"
  fl_size :: u32
  fl_state :: CMDState
  fl_data :: "u8 list"
  fl_len :: u32
  fl_pos :: u32
  fl_data_read_loop :: bool
  fl_needed_bytes :: u8
  fl_cmd_in_progress :: u8
  fl_cur_addr :: u32
  fl_nonvolatile_cfg :: u32
  fl_volatile_cfg :: u32
  fl_enh_volatile_cfg :: u32
  fl_spansion_cr1nv :: u8
  fl_spansion_cr2nv :: u8
  fl_spansion_cr3nv :: u8
  fl_spansion_cr4nv :: u8
  fl_spansion_cr1v :: u8
  fl_spansion_cr2v :: u8
  fl_spansion_cr3v :: u8
  fl_spansion_cr4v :: u8
  fl_write_enable :: bool
  fl_four_bytes_address_mode :: bool
  fl_reset_enable :: bool
  fl_quad_enable :: bool
  fl_ear :: u8
  fl_dirty_page :: int
  fl_blkio_file :: blkio
  fl_pi :: FlashPartInfo

type_synonym 'a fres = "('a, Flash) outcome"

definition get_man :: "Flash \<Rightarrow> Manufacturer" where
  "get_man s =
     (let id0 = pi_id (fl_pi s) ! 0
      in if id0 = 0x20 then MAN_NUMONYX else if id0 = 0xEF then MAN_WINBOND
         else if id0 = 0x01 then MAN_SPANSION else if id0 = 0xC2 then MAN_MACRONIX
         else if id0 = 0xBF then MAN_SST else MAN_GENERIC)"

text \<open>The arguments of these two are constants that satisfy the assertion.\<close>

definition deposit32 :: "u32 \<Rightarrow> nat \<Rightarrow> nat \<Rightarrow> u32 \<Rightarrow> u32" where
  "deposit32 val start ln fieldval =
     (let msk = push_bit start (drop_bit (32 - ln) (- 1))
      in (val AND NOT msk) OR (push_bit start fieldval AND msk))"

definition extract32 :: "u32 \<Rightarrow> nat \<Rightarrow> nat \<Rightarrow> u32" where
  "extract32 val start ln = drop_bit start val AND drop_bit (32 - ln) (- 1)"

section \<open>The backing file\<close>

text \<open>Seeking to an offset and writing there; a gap behind the end reads as zero.\<close>

definition file_write :: "nat \<Rightarrow> u8 list \<Rightarrow> u8 list \<Rightarrow> u8 list" where
  "file_write off bs c = take off (c @ replicate (off - length c) 0) @ bs @ drop (off + length bs) c"

fun blkio_write :: "nat \<Rightarrow> u8 list \<Rightarrow> blkio \<Rightarrow> blkio" where
  "blkio_write off bs No_file = No_file"
| "blkio_write off bs Missing = Contents (file_write off bs [])"
| "blkio_write off bs (Contents c) = Contents (file_write off bs c)"

definition flash_sync_area :: "nat \<Rightarrow> nat \<Rightarrow> Flash \<Rightarrow> Flash" where
  "flash_sync_area off ln s =
     s\<lparr>fl_blkio_file := blkio_write off (map (fl_storage s) [off ..< off + ln]) (fl_blkio_file s)\<rparr>"

definition flash_sync_page :: "nat \<Rightarrow> Flash \<Rightarrow> Flash" where
  "flash_sync_page page s =
     (let off = page * unat (pi_page_size (fl_pi s)) in flash_sync_area off (unat (pi_page_size (fl_pi s))) s)"

definition flash_sync_dirty :: "int \<Rightarrow> Flash \<Rightarrow> Flash" where
  "flash_sync_dirty newpage s =
     (if fl_dirty_page s \<ge> 0 \<and> fl_dirty_page s \<noteq> newpage
      then (flash_sync_page (nat (fl_dirty_page s)) s)\<lparr>fl_dirty_page := newpage\<rparr> else s)"

section \<open>Erasing and programming\<close>

text \<open>The range that an erase command clears: its length, and the offset, rounded for a die.\<close>

definition erase_range :: "u32 \<Rightarrow> u8 \<Rightarrow> Flash \<Rightarrow> (u32 \<times> u32) option" where
  "erase_range offset cmd s =
     (if cmd \<in> {ERASE_4K, ERASE4_4K} then Some (offset, 4 * 1024)
      else if cmd \<in> {ERASE_32K, ERASE4_32K} then Some (offset, 32 * 1024)
      else if cmd \<in> {ERASE_SECTOR, ERASE4_SECTOR} then Some (offset, pi_sector_size (fl_pi s))
      else if cmd = BULK_ERASE then Some (offset, fl_size s)
      else if cmd = DIE_ERASE \<and> pi_die_cnt (fl_pi s) \<noteq> 0
      then (let ln = fl_size s div of_nat (pi_die_cnt (fl_pi s)) in Some (offset AND NOT (ln - 1), ln))
      else None)"

definition memset_storage :: "nat \<Rightarrow> u8 \<Rightarrow> nat \<Rightarrow> Flash \<Rightarrow> unit fres" where
  "memset_storage off b ln s =
     (if off + ln \<le> unat (fl_size s)
      then Inr ((), s\<lparr>fl_storage := (\<lambda>a. if off \<le> a \<and> a < off + ln then b else fl_storage s a)\<rparr>)
      else Inl (UndefinedBehaviour, s))"

definition flash_erase :: "u32 \<Rightarrow> u8 \<Rightarrow> Flash \<Rightarrow> unit fres" where
  "flash_erase offset cmd s =
     (case erase_range offset cmd s of
        None \<Rightarrow> if cmd = DIE_ERASE then Inr ((), s) else Inl (AssertFail, s)
      | Some (off, ln) \<Rightarrow>
          if \<not> fl_write_enable s then Inr ((), s)
          else bind_r (memset_storage (unat off) 0xff (unat ln) s)
                 (\<lambda>_ s. Inr ((), flash_sync_area (unat off) (unat ln) s)))"

definition flash_write8 :: "u32 \<Rightarrow> u8 \<Rightarrow> Flash \<Rightarrow> unit fres" where
  "flash_write8 addr dat s =
     (let page = addr div pi_page_size (fl_pi s); a = unat (fl_cur_addr s)
      in if a < unat (fl_size s)
         then (let prev = fl_storage s a;
                   s = s\<lparr>fl_storage := (fl_storage s)(a :=
                          if pi_flags (fl_pi s) AND EEPROM \<noteq> 0 then dat else prev AND dat)\<rparr>
               in Inr ((), (flash_sync_dirty (uint page) s)\<lparr>fl_dirty_page := uint page\<rparr>))
         else Inl (UndefinedBehaviour, s))"

section \<open>Commands\<close>

definition get_addr_length :: "Flash \<Rightarrow> nat" where
  "get_addr_length s =
     (if pi_flags (fl_pi s) = EEPROM then 2
      else if fl_cmd_in_progress s \<in> {PP4, PP4_4, QPP_4, READ4, QIOR4, ERASE4_4K, ERASE4_32K,
                                      ERASE4_SECTOR, FAST_READ4, DOR4, QOR4, DIOR4} then 4
      else if fl_four_bytes_address_mode s then 4 else 3)"

definition collected_addr :: "Flash \<Rightarrow> u32" where
  "collected_addr s =
     (let n = get_addr_length s
      in foldl (\<lambda>a b. push_bit 8 a OR ucast b) (if n = 3 then ucast (fl_ear s) else 0) (take n (fl_data s))
         AND (fl_size s - 1))"

definition write_status :: "Flash \<Rightarrow> Flash" where
  "write_status s =
     (let s = (case get_man s of
                 MAN_SPANSION \<Rightarrow> s\<lparr>fl_quad_enable := fl_data s ! 1 AND 2 \<noteq> 0\<rparr>
               | MAN_MACRONIX \<Rightarrow>
                   (let s = s\<lparr>fl_quad_enable := extract32 (ucast (fl_data s ! 0)) 6 1 \<noteq> 0\<rparr>
                    in if fl_len s > 1
                       then s\<lparr>fl_volatile_cfg := ucast (fl_data s ! 1),
                              fl_four_bytes_address_mode := extract32 (ucast (fl_data s ! 1)) 5 1 \<noteq> 0\<rparr>
                       else s)
               | _ \<Rightarrow> s)
      in if fl_write_enable s then s\<lparr>fl_write_enable := False\<rparr> else s)"

definition read_id_sst :: "Flash \<Rightarrow> Flash" where
  "read_id_sst s =
     (if get_man s = MAN_SST \<and> fl_cur_addr s \<le> 1
      then (let ids = pi_id (fl_pi s);
                (d0, d1) = (if fl_cur_addr s \<noteq> 0 then (ids ! 2, ids ! 0) else (ids ! 0, ids ! 2))
            in s\<lparr>fl_data := (fl_data s)[0 := d0, 1 := d1], fl_pos := 0, fl_len := 2,
                 fl_data_read_loop := True, fl_state := STATE_READING_DATA\<rparr>)
      else s)"

definition complete_collecting_data :: "Flash \<Rightarrow> unit fres" where
  "complete_collecting_data s =
     (let s = s\<lparr>fl_cur_addr := collected_addr s, fl_state := STATE_IDLE\<rparr>;
          cmd = fl_cmd_in_progress s
      in if cmd \<in> {DPP, QPP, QPP_4, PP, PP4, PP4_4} then Inr ((), s\<lparr>fl_state := STATE_PAGE_PROGRAM\<rparr>)
         else if cmd \<in> {READ, READ4, FAST_READ, FAST_READ4, DOR, DOR4, QOR, QOR4, DIOR, DIOR4, QIOR, QIOR4}
         then Inr ((), s\<lparr>fl_state := STATE_READ\<rparr>)
         else if cmd \<in> {ERASE_4K, ERASE4_4K, ERASE_32K, ERASE4_32K, ERASE_SECTOR, ERASE4_SECTOR, DIE_ERASE}
         then flash_erase (fl_cur_addr s) cmd s
         else if cmd = WRSR then Inr ((), write_status s)
         else if cmd \<in> {BRWR, EXTEND_ADDR_WRITE} then Inr ((), s\<lparr>fl_ear := fl_data s ! 0\<rparr>)
         else if cmd = WNVCR
         then Inr ((), s\<lparr>fl_nonvolatile_cfg := ucast (fl_data s ! 0) OR push_bit 8 (ucast (fl_data s ! 1))\<rparr>)
         else if cmd = WVCR then Inr ((), s\<lparr>fl_volatile_cfg := ucast (fl_data s ! 0)\<rparr>)
         else if cmd = WEVCR then Inr ((), s\<lparr>fl_enh_volatile_cfg := ucast (fl_data s ! 0)\<rparr>)
         else if cmd \<in> {RDID_90, RDID_AB} then Inr ((), read_id_sst s)
         else Inr ((), s))"

definition reset_memory :: "Flash \<Rightarrow> Flash" where
  "reset_memory s =
     (let s = s\<lparr>fl_cmd_in_progress := NOP, fl_cur_addr := 0, fl_ear := 0, fl_four_bytes_address_mode := False,
                fl_len := 0, fl_needed_bytes := 0, fl_pos := 0, fl_state := STATE_IDLE,
                fl_write_enable := False, fl_reset_enable := False, fl_quad_enable := False\<rparr>
      in case get_man s of
           MAN_NUMONYX \<Rightarrow>
             (let nv = fl_nonvolatile_cfg s;
                  v = 0x1 OR 0x2 OR (if nv AND push_bit 9 7 \<noteq> push_bit 9 7 then push_bit 3 1 else 0);
                  v = v OR deposit32 v 4 4 (extract32 nv 12 4);
                  e = 7 OR push_bit 3 1 OR push_bit 4 1
                      OR (if nv AND push_bit 2 1 \<noteq> 0 then push_bit 6 1 else 0)
                      OR (if nv AND push_bit 3 1 \<noteq> 0 then push_bit 7 1 else 0);
                  s = s\<lparr>fl_volatile_cfg := v, fl_enh_volatile_cfg := e\<rparr>;
                  s = (if nv AND 1 = 0 then s\<lparr>fl_four_bytes_address_mode := True\<rparr> else s)
              in if nv AND 2 = 0 then s\<lparr>fl_ear := ucast (fl_size s div MAX_3BYTES_SIZE - 1)\<rparr> else s)
         | MAN_MACRONIX \<Rightarrow> s\<lparr>fl_volatile_cfg := 0x7\<rparr>
         | MAN_SPANSION \<Rightarrow>
             s\<lparr>fl_spansion_cr1v := fl_spansion_cr1nv s, fl_spansion_cr2v := fl_spansion_cr2nv s,
               fl_spansion_cr3v := fl_spansion_cr3nv s, fl_spansion_cr4v := fl_spansion_cr4nv s,
               fl_quad_enable := extract32 (ucast (fl_spansion_cr1nv s)) 0 1 \<noteq> 0,
               fl_four_bytes_address_mode := extract32 (ucast (fl_spansion_cr2nv s)) 7 1 \<noteq> 0\<rparr>
         | _ \<Rightarrow> s)"

text \<open>A command that collects \<open>n\<close> bytes of arguments, and one that presents bytes to be read.\<close>

definition collect :: "u8 \<Rightarrow> Flash \<Rightarrow> Flash" where
  "collect n s = s\<lparr>fl_needed_bytes := n, fl_pos := 0, fl_len := 0, fl_state := STATE_COLLECTING_DATA\<rparr>"

definition present1 :: "u8 \<Rightarrow> Flash \<Rightarrow> Flash" where
  "present1 b s = s\<lparr>fl_data := (fl_data s)[0 := b], fl_pos := 0, fl_len := 1, fl_state := STATE_READING_DATA\<rparr>"

abbreviation addr_bytes :: "Flash \<Rightarrow> u8" where "addr_bytes s \<equiv> of_nat (get_addr_length s)"

definition decode_fast_read_cmd :: "Flash \<Rightarrow> Flash" where
  "decode_fast_read_cmd s =
     collect (addr_bytes s +
       (case get_man s of
          MAN_WINBOND \<Rightarrow> 8
        | MAN_NUMONYX \<Rightarrow> ucast (extract32 (fl_volatile_cfg s) 4 4)
        | MAN_MACRONIX \<Rightarrow> if extract32 (fl_volatile_cfg s) 6 2 = 1 then 6 else 8
        | MAN_SPANSION \<Rightarrow> ucast (extract32 (ucast (fl_spansion_cr2v s)) 0 4)
        | _ \<Rightarrow> 0)) s"

definition decode_dio_read_cmd :: "Flash \<Rightarrow> Flash" where
  "decode_dio_read_cmd s =
     collect (addr_bytes s +
       (case get_man s of
          MAN_WINBOND \<Rightarrow> 1
        | MAN_SPANSION \<Rightarrow> 1 + ucast (extract32 (ucast (fl_spansion_cr2v s)) 0 4)
        | MAN_NUMONYX \<Rightarrow> ucast (extract32 (fl_volatile_cfg s) 4 4)
        | MAN_MACRONIX \<Rightarrow>
            (let w = extract32 (fl_volatile_cfg s) 6 2 in if w = 1 then 6 else if w = 2 then 8 else 4)
        | _ \<Rightarrow> 0)) s"

definition decode_qio_read_cmd :: "Flash \<Rightarrow> Flash" where
  "decode_qio_read_cmd s =
     collect (addr_bytes s +
       (case get_man s of
          MAN_WINBOND \<Rightarrow> 1 + 4
        | MAN_SPANSION \<Rightarrow> 1 + ucast (extract32 (ucast (fl_spansion_cr2v s)) 0 4)
        | MAN_NUMONYX \<Rightarrow> ucast (extract32 (fl_volatile_cfg s) 4 4)
        | MAN_MACRONIX \<Rightarrow>
            (let w = extract32 (fl_volatile_cfg s) 6 2 in if w = 1 then 4 else if w = 2 then 8 else 6)
        | _ \<Rightarrow> 0)) s"

definition decode_wrsr :: "Flash \<Rightarrow> Flash" where
  "decode_wrsr s =
     (if fl_write_enable s
      then (case get_man s of
              MAN_SPANSION \<Rightarrow> s\<lparr>fl_needed_bytes := 2, fl_state := STATE_COLLECTING_DATA\<rparr>
            | MAN_MACRONIX \<Rightarrow> s\<lparr>fl_needed_bytes := 2, fl_state := STATE_COLLECTING_VAR_LEN_DATA\<rparr>
            | _ \<Rightarrow> s\<lparr>fl_needed_bytes := 1, fl_state := STATE_COLLECTING_DATA\<rparr>)\<lparr>fl_pos := 0\<rparr>
      else s)"

definition jedec_read :: "Flash \<Rightarrow> Flash" where
  "jedec_read s =
     s\<lparr>fl_data := take (pi_id_len (fl_pi s)) (pi_id (fl_pi s)) @ drop (pi_id_len (fl_pi s)) (fl_data s),
       fl_len := of_nat (pi_id_len (fl_pi s)), fl_pos := 0, fl_state := STATE_READING_DATA\<rparr>"

definition start_cmd :: "u8 \<Rightarrow> Flash \<Rightarrow> Flash" where
  "start_cmd cmd s =
     (let s = s\<lparr>fl_cmd_in_progress := cmd\<rparr>
      in if cmd \<noteq> RESET_MEMORY then s\<lparr>fl_reset_enable := False\<rparr> else s)"

definition decode_new_cmd :: "u8 \<Rightarrow> Flash \<Rightarrow> unit fres" where
  "decode_new_cmd cmd s =
     (let s = start_cmd cmd s
      in if cmd \<in> {ERASE_4K, ERASE4_4K, ERASE_32K, ERASE4_32K, ERASE_SECTOR, ERASE4_SECTOR, READ, READ4,
                   DPP, QPP, QPP_4, PP, PP4, PP4_4, DIE_ERASE, RDID_90, RDID_AB}
         then Inr ((), collect (addr_bytes s) s)
         else if cmd \<in> {FAST_READ, FAST_READ4, DOR, DOR4, QOR, QOR4} then Inr ((), decode_fast_read_cmd s)
         else if cmd \<in> {DIOR, DIOR4} then Inr ((), decode_dio_read_cmd s)
         else if cmd \<in> {QIOR, QIOR4} then Inr ((), decode_qio_read_cmd s)
         else if cmd = WRSR then Inr ((), decode_wrsr s)
         else if cmd = WRDI then Inr ((), s\<lparr>fl_write_enable := False\<rparr>)
         else if cmd = WREN then Inr ((), s\<lparr>fl_write_enable := True\<rparr>)
         else if cmd = RDSR
         then Inr ((), (present1 ((if fl_write_enable s then 2 else 0)
                OR (if get_man s = MAN_MACRONIX \<and> fl_quad_enable s then 0x40 else 0)) s)\<lparr>fl_data_read_loop := True\<rparr>)
         else if cmd = READ_FSR
         then Inr ((), (present1 (0x80 OR (if fl_four_bytes_address_mode s then 1 else 0)) s)\<lparr>fl_data_read_loop := True\<rparr>)
         else if cmd = JEDEC_READ then Inr ((), jedec_read s)
         else if cmd = RDCR
         then Inr ((), present1 (ucast (fl_volatile_cfg s) OR (if fl_four_bytes_address_mode s then 0x20 else 0)) s)
         else if cmd \<in> {BULK_ERASE_60, BULK_ERASE}
         then (if fl_write_enable s then flash_erase 0 BULK_ERASE s else Inr ((), s))
         else if cmd = NOP then Inr ((), s)
         else if cmd = EN_4BYTE_ADDR then Inr ((), s\<lparr>fl_four_bytes_address_mode := True\<rparr>)
         else if cmd = EX_4BYTE_ADDR then Inr ((), s\<lparr>fl_four_bytes_address_mode := False\<rparr>)
         else if cmd \<in> {BRRD, EXTEND_ADDR_READ} then Inr ((), present1 (fl_ear s) s)
         else if cmd \<in> {BRWR, EXTEND_ADDR_WRITE, WVCR, WEVCR}
         then Inr ((), if fl_write_enable s then collect 1 s else s)
         else if cmd = RNVCR
         then Inr ((), s\<lparr>fl_data := (fl_data s)[0 := ucast (fl_nonvolatile_cfg s),
                            1 := ucast (drop_bit 8 (fl_nonvolatile_cfg s))],
                         fl_pos := 0, fl_len := 2, fl_state := STATE_READING_DATA\<rparr>)
         else if cmd = WNVCR
         then Inr ((), if fl_write_enable s \<and> get_man s = MAN_NUMONYX then collect 2 s else s)
         else if cmd = RVCR then Inr ((), present1 (ucast (fl_volatile_cfg s)) s)
         else if cmd = REVCR then Inr ((), present1 (ucast (fl_enh_volatile_cfg s)) s)
         else if cmd = RESET_ENABLE then Inr ((), s\<lparr>fl_reset_enable := True\<rparr>)
         else if cmd = RESET_MEMORY then Inr ((), if fl_reset_enable s then reset_memory s else s)
         else if cmd = RDCR_EQIO
         then Inr ((), case get_man s of
                MAN_SPANSION \<Rightarrow> present1 (if fl_quad_enable s then 2 else 0) s
              | MAN_MACRONIX \<Rightarrow> s\<lparr>fl_quad_enable := True\<rparr>
              | _ \<Rightarrow> s)
         else if cmd = RSTQIO then Inr ((), s\<lparr>fl_quad_enable := False\<rparr>)
         else Inr ((), s))"

section \<open>The interface to the controller\<close>

definition m25p80_cs :: "bool \<Rightarrow> Flash \<Rightarrow> unit fres" where
  "m25p80_cs select s =
     (if select
      then bind_r (if fl_state s = STATE_COLLECTING_VAR_LEN_DATA then complete_collecting_data s else Inr ((), s))
             (\<lambda>_ s. Inr ((), (flash_sync_dirty (- 1) (s\<lparr>fl_len := 0, fl_pos := 0, fl_state := STATE_IDLE\<rparr>))
                               \<lparr>fl_data_read_loop := False\<rparr>))
      else Inr ((), s))"

definition m25p80_transfer8 :: "u32 \<Rightarrow> Flash \<Rightarrow> u32 fres" where
  "m25p80_transfer8 tx s =
     (case fl_state s of
        STATE_PAGE_PROGRAM \<Rightarrow>
          bind_r (flash_write8 (fl_cur_addr s) (ucast tx) s)
            (\<lambda>_ s. Inr (0, s\<lparr>fl_cur_addr := (fl_cur_addr s + 1) AND (fl_size s - 1)\<rparr>))
      | STATE_READ \<Rightarrow>
          (if unat (fl_cur_addr s) < unat (fl_size s)
           then Inr (ucast (fl_storage s (unat (fl_cur_addr s))),
                     s\<lparr>fl_cur_addr := (fl_cur_addr s + 1) AND (fl_size s - 1)\<rparr>)
           else Inl (UndefinedBehaviour, s))
      | STATE_READING_DATA \<Rightarrow>
          (if unat (fl_pos s) \<ge> M25P80_INTERNAL_DATA_BUFFER_SZ
           then Inr (0, s\<lparr>fl_len := 0, fl_pos := 0, fl_state := STATE_IDLE\<rparr>)
           else (let r = ucast (fl_data s ! unat (fl_pos s));
                     s = s\<lparr>fl_pos := fl_pos s + 1\<rparr>
                 in Inr (r, if fl_pos s = fl_len s
                            then (let s = s\<lparr>fl_pos := 0\<rparr>
                                  in if \<not> fl_data_read_loop s then s\<lparr>fl_state := STATE_IDLE\<rparr> else s)
                            else s)))
      | STATE_IDLE \<Rightarrow> bind_r (decode_new_cmd (ucast tx) s) (\<lambda>_ s. Inr (0, s))
      | _ \<Rightarrow>
          (if unat (fl_len s) \<ge> M25P80_INTERNAL_DATA_BUFFER_SZ
           then Inr (0, s\<lparr>fl_len := 0, fl_pos := 0, fl_state := STATE_IDLE\<rparr>)
           else (let s = s\<lparr>fl_data := (fl_data s)[unat (fl_len s) := ucast tx], fl_len := fl_len s + 1\<rparr>
                 in if fl_len s = ucast (fl_needed_bytes s)
                    then bind_r (complete_collecting_data s) (\<lambda>_ s. Inr (0, s))
                    else Inr (0, s))))"

section \<open>Initialisation\<close>

text \<open>
  The global before \<^verbatim>\<open>flash_init\<close>: C sets it to zero, and the pointer to the part is not
  followed before it is set.
\<close>

definition zero_flash :: Flash where
  "zero_flash = \<lparr>fl_storage = (\<lambda>_. 0), fl_size = 0, fl_state = STATE_IDLE, fl_data = replicate 16 0, fl_len = 0,
     fl_pos = 0, fl_data_read_loop = False, fl_needed_bytes = 0, fl_cmd_in_progress = 0, fl_cur_addr = 0,
     fl_nonvolatile_cfg = 0, fl_volatile_cfg = 0, fl_enh_volatile_cfg = 0, fl_spansion_cr1nv = 0,
     fl_spansion_cr2nv = 0, fl_spansion_cr3nv = 0, fl_spansion_cr4nv = 0, fl_spansion_cr1v = 0,
     fl_spansion_cr2v = 0, fl_spansion_cr3v = 0, fl_spansion_cr4v = 0, fl_write_enable = False,
     fl_four_bytes_address_mode = False, fl_reset_enable = False, fl_quad_enable = False, fl_ear = 0,
     fl_dirty_page = 0, fl_blkio_file = No_file, fl_pi = INFO [] 0 0 0 0 0\<rparr>"

definition flash_set_blkio_file :: "blkio \<Rightarrow> Flash \<Rightarrow> Flash" where
  "flash_set_blkio_file file s = (if file = No_file then s else s\<lparr>fl_blkio_file := file\<rparr>)"

definition part_size :: "FlashPartInfo \<Rightarrow> u32" where
  "part_size p = pi_sector_size p * pi_n_sectors p"

text \<open>
  The size of the file goes through an \<^verbatim>\<open>int\<close>: for a file of two gigabytes it becomes negative,
  and \<^verbatim>\<open>read_s\<close> then waits for more bytes than the file has, forever.
\<close>

definition flash_init :: "Flash \<Rightarrow> unit fres" where
  "flash_init s =
     (let s = s\<lparr>fl_dirty_page := - 1\<rparr>
      in if fl_blkio_file s = Missing then Inl (Panic, s)
         else let c = (case fl_blkio_file s of Contents c \<Rightarrow> c | _ \<Rightarrow> [])
              in case find (\<lambda>p. unat (part_size p) \<ge> length c) known_devices of
                   None \<Rightarrow> Inl (Panic, s\<lparr>fl_pi := last known_devices, fl_size := part_size (last known_devices)\<rparr>)
                 | Some p \<Rightarrow>
                     if length c \<ge> 2 ^ 31 then Inl (Hang, s\<lparr>fl_pi := p, fl_size := part_size p\<rparr>)
                     else Inr ((), s\<lparr>fl_pi := p, fl_size := part_size p,
                                     fl_storage := (\<lambda>a. if a < length c then c ! a else 0xFF)\<rparr>))"

end
