(* ===== verification/Nemu_State.thy ===== *)
theory Nemu_State
  imports Fifo Flash
begin

text \<open>
  The state of the emulator: the build configuration of \<^verbatim>\<open>Kconfig\<close>, the processor state
  of \<^verbatim>\<open>include/cpu/reg.h\<close>, the TLB of \<^verbatim>\<open>include/cpu/mmu.h\<close>, the cached
  translations of \<^verbatim>\<open>src/cpu/mmu-cache.h\<close>, the devices' memories and registers, and the
  run state of \<^verbatim>\<open>include/monitor.h\<close>. All of them are C globals; the model keeps them in
  one record that every operation takes and returns.
\<close>

section \<open>Build configuration\<close>

text \<open>
  The \<^verbatim>\<open>CONFIG_\<close> macros that change what the compiled program computes. An unset
  option is \<open>False\<close>. The base addresses are only looked at when the device is configured in.
\<close>

record config =
  CONFIG_MARCH_NOOP :: bool
  CONFIG_DELAYSLOT :: bool
  CONFIG_PAGING :: bool
  CONFIG_INTR :: bool
  CONFIG_EXCEPTION :: bool
  CONFIG_MMU_CACHE :: bool
  CONFIG_DIFF_WITH_QEMU :: bool
  CONFIG_KERNEL_DEBUG_SERIAL :: bool
  CONFIG_CMDLINE_ADDR :: u32
  CONFIG_BRAM :: bool
  CONFIG_BRAM_BASE :: u32
  CONFIG_DDR :: bool
  CONFIG_DDR_BASE :: u32
  CONFIG_NEMU_TRAP :: bool
  CONFIG_NEMU_TRAP_BASE :: u32
  CONFIG_NEMU_PMU :: bool
  CONFIG_NEMU_PMU_BASE :: u32
  CONFIG_NEMU_CLOCK :: bool
  CONFIG_NEMU_CLOCK_BASE :: u32
  CONFIG_XLNX_ULITE :: bool
  CONFIG_XLNX_ULITE_BASE :: u32
  CONFIG_XLNX_SPI :: bool
  CONFIG_XLNX_SPI_BASE :: u32

text \<open>\<^verbatim>\<open>configs/mips32r1_defconfig\<close>\<close>

definition mips32r1_defconfig :: config where
  "mips32r1_defconfig = \<lparr>
     CONFIG_MARCH_NOOP = False, CONFIG_DELAYSLOT = True, CONFIG_PAGING = True, CONFIG_INTR = True,
     CONFIG_EXCEPTION = True, CONFIG_MMU_CACHE = False, CONFIG_DIFF_WITH_QEMU = False,
     CONFIG_KERNEL_DEBUG_SERIAL = True, CONFIG_CMDLINE_ADDR = 0xbfc10000,
     CONFIG_BRAM = True, CONFIG_BRAM_BASE = 0x1fc00000,
     CONFIG_DDR = True, CONFIG_DDR_BASE = 0,
     CONFIG_NEMU_TRAP = True, CONFIG_NEMU_TRAP_BASE = 0x10000000,
     CONFIG_NEMU_PMU = True, CONFIG_NEMU_PMU_BASE = 0x1fe95000,
     CONFIG_NEMU_CLOCK = True, CONFIG_NEMU_CLOCK_BASE = 0x10002000,
     CONFIG_XLNX_ULITE = True, CONFIG_XLNX_ULITE_BASE = 0x1fe50000,
     CONFIG_XLNX_SPI = True, CONFIG_XLNX_SPI_BASE = 0x1fe80000\<rparr>"

lemma defconfig_ddr_base [simp]: "CONFIG_DDR_BASE mips32r1_defconfig = 0"
  by (simp add: mips32r1_defconfig_def)

lemma defconfig_flags [simp]:
  "\<not> CONFIG_MMU_CACHE mips32r1_defconfig" "\<not> CONFIG_MARCH_NOOP mips32r1_defconfig" "CONFIG_EXCEPTION mips32r1_defconfig"
  "CONFIG_DELAYSLOT mips32r1_defconfig" "CONFIG_INTR mips32r1_defconfig" "CONFIG_PAGING mips32r1_defconfig"
  by (simp_all add: mips32r1_defconfig_def)

section \<open>Processor state\<close>

text \<open>
  The register arrays are functions of the index; every index the code uses is a bit-field of the
  instruction, so it is in range. The union \<^verbatim>\<open>cp0_t\<close> is its word view
  \<^verbatim>\<open>cpr[32][8]\<close>, with the named registers as slices of these words. The double
  precision registers \<^verbatim>\<open>fpr64i\<close> overlay pairs of \<^verbatim>\<open>fpr32i\<close>.
\<close>

record CPU_state =
  gpr :: "nat \<Rightarrow> u32"
  hi :: u32
  lo :: u32
  cp0 :: "nat \<times> nat \<Rightarrow> u32"
  pc :: u32
  br_target :: u32
  is_delayslot :: bool
  has_exception :: bool
  fpr32i :: "nat \<Rightarrow> u32"
  fcsr :: u32

text \<open>A bit-field of coprocessor 0: the register and its select, the first bit and the width.\<close>

type_synonym cp0_fld = "(nat \<times> nat) \<times> nat \<times> nat"

fun cp0_get :: "cp0_fld \<Rightarrow> CPU_state \<Rightarrow> u32" where
  "cp0_get (r, k, n) c = bf_get k n (cp0 c r)"

fun cp0_set :: "cp0_fld \<Rightarrow> u32 \<Rightarrow> CPU_state \<Rightarrow> CPU_state" where
  "cp0_set (r, k, n) v c = c\<lparr>cp0 := (cp0 c)(r := bf_set k n v (cp0 c r))\<rparr>"

text \<open>\<^verbatim>\<open>cp0_index_t\<close>\<close>

abbreviation (input) index_idx :: cp0_fld where "index_idx \<equiv> ((0, 0), 0, 5)"
abbreviation (input) index_p :: cp0_fld where "index_p \<equiv> ((0, 0), 31, Suc 0)"

text \<open>\<^verbatim>\<open>cp0_entry_lo_t\<close>\<close>

abbreviation (input) entry_lo0_g :: cp0_fld where "entry_lo0_g \<equiv> ((2, 0), 0, Suc 0)"
abbreviation (input) entry_lo0_v :: cp0_fld where "entry_lo0_v \<equiv> ((2, 0), Suc 0, Suc 0)"
abbreviation (input) entry_lo0_d :: cp0_fld where "entry_lo0_d \<equiv> ((2, 0), 2, Suc 0)"
abbreviation (input) entry_lo0_c :: cp0_fld where "entry_lo0_c \<equiv> ((2, 0), 3, 3)"
abbreviation (input) entry_lo0_pfn :: cp0_fld where "entry_lo0_pfn \<equiv> ((2, 0), 6, 20)"
abbreviation (input) entry_lo1_g :: cp0_fld where "entry_lo1_g \<equiv> ((3, 0), 0, Suc 0)"
abbreviation (input) entry_lo1_v :: cp0_fld where "entry_lo1_v \<equiv> ((3, 0), Suc 0, Suc 0)"
abbreviation (input) entry_lo1_d :: cp0_fld where "entry_lo1_d \<equiv> ((3, 0), 2, Suc 0)"
abbreviation (input) entry_lo1_c :: cp0_fld where "entry_lo1_c \<equiv> ((3, 0), 3, 3)"
abbreviation (input) entry_lo1_pfn :: cp0_fld where "entry_lo1_pfn \<equiv> ((3, 0), 6, 20)"

text \<open>\<^verbatim>\<open>cp0_context_t\<close>\<close>

abbreviation (input) context_BadVPN2 :: cp0_fld where "context_BadVPN2 \<equiv> ((4, 0), 4, 19)"
abbreviation (input) context_PTEBase :: cp0_fld where "context_PTEBase \<equiv> ((4, 0), 23, 9)"

text \<open>\<^verbatim>\<open>cp0_pagemask_t\<close>\<close>

abbreviation (input) pagemask_mask :: cp0_fld where "pagemask_mask \<equiv> ((5, 0), 13, 16)"

text \<open>\<^verbatim>\<open>cp0_entry_hi_t\<close>\<close>

abbreviation (input) entry_hi_asid :: cp0_fld where "entry_hi_asid \<equiv> ((10, 0), 0, 8)"
abbreviation (input) entry_hi_vpn :: cp0_fld where "entry_hi_vpn \<equiv> ((10, 0), 13, 19)"

text \<open>\<^verbatim>\<open>cp0_status_t\<close>\<close>

abbreviation (input) status_IE :: cp0_fld where "status_IE \<equiv> ((12, 0), 0, Suc 0)"
abbreviation (input) status_EXL :: cp0_fld where "status_EXL \<equiv> ((12, 0), Suc 0, Suc 0)"
abbreviation (input) status_ERL :: cp0_fld where "status_ERL \<equiv> ((12, 0), 2, Suc 0)"
abbreviation (input) status_R0 :: cp0_fld where "status_R0 \<equiv> ((12, 0), 3, Suc 0)"
abbreviation (input) status_UM :: cp0_fld where "status_UM \<equiv> ((12, 0), 4, Suc 0)"
abbreviation (input) status_UX :: cp0_fld where "status_UX \<equiv> ((12, 0), 5, Suc 0)"
abbreviation (input) status_SX :: cp0_fld where "status_SX \<equiv> ((12, 0), 6, Suc 0)"
abbreviation (input) status_KX :: cp0_fld where "status_KX \<equiv> ((12, 0), 7, Suc 0)"
abbreviation (input) status_IM :: cp0_fld where "status_IM \<equiv> ((12, 0), 8, 8)"
abbreviation (input) status_Impl :: cp0_fld where "status_Impl \<equiv> ((12, 0), 16, 2)"
abbreviation (input) status_NMI :: cp0_fld where "status_NMI \<equiv> ((12, 0), 19, Suc 0)"
abbreviation (input) status_SR :: cp0_fld where "status_SR \<equiv> ((12, 0), 20, Suc 0)"
abbreviation (input) status_TS :: cp0_fld where "status_TS \<equiv> ((12, 0), 21, Suc 0)"
abbreviation (input) status_BEV :: cp0_fld where "status_BEV \<equiv> ((12, 0), 22, Suc 0)"
abbreviation (input) status_PX :: cp0_fld where "status_PX \<equiv> ((12, 0), 23, Suc 0)"
abbreviation (input) status_MX :: cp0_fld where "status_MX \<equiv> ((12, 0), 24, Suc 0)"
abbreviation (input) status_RE :: cp0_fld where "status_RE \<equiv> ((12, 0), 25, Suc 0)"
abbreviation (input) status_FR :: cp0_fld where "status_FR \<equiv> ((12, 0), 26, Suc 0)"
abbreviation (input) status_RP :: cp0_fld where "status_RP \<equiv> ((12, 0), 27, Suc 0)"
abbreviation (input) status_CU :: cp0_fld where "status_CU \<equiv> ((12, 0), 28, 4)"

text \<open>\<^verbatim>\<open>cp0_cause_t\<close>\<close>

abbreviation (input) cause_ExcCode :: cp0_fld where "cause_ExcCode \<equiv> ((13, 0), 2, 5)"
abbreviation (input) cause_IP :: cp0_fld where "cause_IP \<equiv> ((13, 0), 8, 8)"
abbreviation (input) cause_WP :: cp0_fld where "cause_WP \<equiv> ((13, 0), 22, Suc 0)"
abbreviation (input) cause_IV :: cp0_fld where "cause_IV \<equiv> ((13, 0), 23, Suc 0)"
abbreviation (input) cause_PCI :: cp0_fld where "cause_PCI \<equiv> ((13, 0), 26, Suc 0)"
abbreviation (input) cause_DC :: cp0_fld where "cause_DC \<equiv> ((13, 0), 27, Suc 0)"
abbreviation (input) cause_CE :: cp0_fld where "cause_CE \<equiv> ((13, 0), 28, 2)"
abbreviation (input) cause_TI :: cp0_fld where "cause_TI \<equiv> ((13, 0), 30, Suc 0)"
abbreviation (input) cause_BD :: cp0_fld where "cause_BD \<equiv> ((13, 0), 31, Suc 0)"

text \<open>\<^verbatim>\<open>cp0_config_t\<close>\<close>

abbreviation (input) config_K0 :: cp0_fld where "config_K0 \<equiv> ((16, 0), 0, 3)"
abbreviation (input) config_MT :: cp0_fld where "config_MT \<equiv> ((16, 0), 7, 3)"
abbreviation (input) config_AR :: cp0_fld where "config_AR \<equiv> ((16, 0), 10, 3)"
abbreviation (input) config_AT :: cp0_fld where "config_AT \<equiv> ((16, 0), 13, 2)"
abbreviation (input) config_BE :: cp0_fld where "config_BE \<equiv> ((16, 0), 15, Suc 0)"
abbreviation (input) config_Impl :: cp0_fld where "config_Impl \<equiv> ((16, 0), 16, 15)"
abbreviation (input) config_M :: cp0_fld where "config_M \<equiv> ((16, 0), 31, Suc 0)"

text \<open>\<^verbatim>\<open>cp0_config1_t\<close>\<close>

abbreviation (input) config1_FP :: cp0_fld where "config1_FP \<equiv> ((16, Suc 0), 0, Suc 0)"
abbreviation (input) config1_EP :: cp0_fld where "config1_EP \<equiv> ((16, Suc 0), Suc 0, Suc 0)"
abbreviation (input) config1_CA :: cp0_fld where "config1_CA \<equiv> ((16, Suc 0), 2, Suc 0)"
abbreviation (input) config1_WR :: cp0_fld where "config1_WR \<equiv> ((16, Suc 0), 3, Suc 0)"
abbreviation (input) config1_PC :: cp0_fld where "config1_PC \<equiv> ((16, Suc 0), 4, Suc 0)"
abbreviation (input) config1_MD :: cp0_fld where "config1_MD \<equiv> ((16, Suc 0), 5, Suc 0)"
abbreviation (input) config1_C2 :: cp0_fld where "config1_C2 \<equiv> ((16, Suc 0), 6, Suc 0)"
abbreviation (input) config1_DA :: cp0_fld where "config1_DA \<equiv> ((16, Suc 0), 7, 3)"
abbreviation (input) config1_DL :: cp0_fld where "config1_DL \<equiv> ((16, Suc 0), 10, 3)"
abbreviation (input) config1_DS :: cp0_fld where "config1_DS \<equiv> ((16, Suc 0), 13, 3)"
abbreviation (input) config1_IA :: cp0_fld where "config1_IA \<equiv> ((16, Suc 0), 16, 3)"
abbreviation (input) config1_IL :: cp0_fld where "config1_IL \<equiv> ((16, Suc 0), 19, 3)"
abbreviation (input) config1_IS :: cp0_fld where "config1_IS \<equiv> ((16, Suc 0), 22, 3)"
abbreviation (input) config1_MMU_size :: cp0_fld where "config1_MMU_size \<equiv> ((16, Suc 0), 25, 6)"
abbreviation (input) config1_M :: cp0_fld where "config1_M \<equiv> ((16, Suc 0), 31, Suc 0)"

text \<open>The registers of coprocessor 0 that the code uses as whole words.\<close>

abbreviation (input) cp0_random :: "nat \<times> nat" where "cp0_random \<equiv> (1, 0)"
abbreviation (input) cp0_badvaddr :: "nat \<times> nat" where "cp0_badvaddr \<equiv> (8, 0)"
abbreviation (input) cp0_count :: "nat \<times> nat" where "cp0_count \<equiv> (9, 0)"
abbreviation (input) cp0_compare :: "nat \<times> nat" where "cp0_compare \<equiv> (11, 0)"
abbreviation (input) cp0_epc :: "nat \<times> nat" where "cp0_epc \<equiv> (14, 0)"
abbreviation (input) cp0_prid :: "nat \<times> nat" where "cp0_prid \<equiv> (15, 0)"
abbreviation (input) cp0_ebase :: "nat \<times> nat" where "cp0_ebase \<equiv> (15, Suc 0)"
abbreviation (input) cp0_ErrorEPC :: "nat \<times> nat" where "cp0_ErrorEPC \<equiv> (30, 0)"

definition cpr_set :: "nat \<times> nat \<Rightarrow> u32 \<Rightarrow> CPU_state \<Rightarrow> CPU_state" where
  "cpr_set r v c = c\<lparr>cp0 := (cp0 c)(r := v)\<rparr>"

subsection \<open>Exception codes\<close>

abbreviation (input) EXC_INTR :: u32 where "EXC_INTR \<equiv> 0"
abbreviation (input) EXC_TLBM :: u32 where "EXC_TLBM \<equiv> 1"
abbreviation (input) EXC_TLBL :: u32 where "EXC_TLBL \<equiv> 2"
abbreviation (input) EXC_TLBS :: u32 where "EXC_TLBS \<equiv> 3"
abbreviation (input) EXC_AdEL :: u32 where "EXC_AdEL \<equiv> 4"
abbreviation (input) EXC_AdES :: u32 where "EXC_AdES \<equiv> 5"
abbreviation (input) EXC_SYSCALL :: u32 where "EXC_SYSCALL \<equiv> 8"
abbreviation (input) EXC_BP :: u32 where "EXC_BP \<equiv> 9"
abbreviation (input) EXC_RI :: u32 where "EXC_RI \<equiv> 10"
abbreviation (input) EXC_OV :: u32 where "EXC_OV \<equiv> 12"
abbreviation (input) EXC_TRAP :: u32 where "EXC_TRAP \<equiv> 13"
abbreviation (input) EX_TLB_REFILL :: u32 where "EX_TLB_REFILL \<equiv> 7"
abbreviation (input) EX_TLB_INVALID :: u32 where "EX_TLB_INVALID \<equiv> 8"
abbreviation (input) EX_TLB_MODIFIED :: u32 where "EX_TLB_MODIFIED \<equiv> 9"

definition MAKE_EX :: "u32 \<Rightarrow> u32 \<Rightarrow> u32" where
  "MAKE_EX ex code = push_bit 16 ex OR code"

section \<open>Translation lookaside buffer\<close>

record tlb_phyn_t =
  phyn_pfn :: "24 word"
  phyn_c :: "3 word"
  phyn_d :: bool
  phyn_v :: bool

record tlb_entry_t =
  te_pagemask :: u16
  te_vpn :: "19 word"
  te_g :: bool
  te_asid :: u8
  te_p0 :: tlb_phyn_t
  te_p1 :: tlb_phyn_t

abbreviation (input) NR_TLB_ENTRY :: nat where "NR_TLB_ENTRY \<equiv> 32"

datatype mmu_rw = MMU_LOAD | MMU_STORE

record mmu_attr_t =
  rwbit :: mmu_rw
  exbit :: bool
  dirty :: bool
  miss :: bool

section \<open>Devices\<close>

text \<open>
  A device structure is identified by its C variable. A pointer that a device's
  \<^verbatim>\<open>map\<close> returns points into one of the two memory arrays, at an offset.
\<close>

datatype device =
    ddr_dev
  | bram_dev
  | blackhole_dev
  | nemu_trap_dev
  | nemu_clock_dev
  | nemu_pmu_dev
  | xlnx_ulite_dev
  | xlnx_spi_dev

datatype ram = Ram_ddr | Ram_bram

type_synonym host_ptr = "ram \<times> nat"

text \<open>The UART: its receive queue, its two flags, and the string that stops the processor.\<close>

record ulite_t =
  ulite_q :: "u32 fifo"
  ulite_intr_enabled :: u32
  ulite_tx_fifo_empty :: u32
  ulite_stop_string :: "u8 list option"
  ulite_stop_string_ptr :: "u8 list option"

text \<open>The SPI controller: its registers, its two queues, and the flash memory behind it.\<close>

record spi_t =
  xlnx_spi_regs :: "nat \<Rightarrow> u32"
  spi_tx_fifo :: "u8 fifo"
  spi_rx_fifo :: "u8 fifo"
  flash :: Flash

record mmu_cache_t =
  mc_id :: u32
  mc_ptr :: "host_ptr option"
  mc_can_write :: bool

section \<open>The whole emulator\<close>

datatype nemu_state_t = NEMU_STOP | NEMU_RUNNING | NEMU_END

datatype work_mode_t = MODE_GDB | MODE_BATCH | MODE_DIFF | MODE_LOG | MODE_DIFF_LOG

text \<open>
  The values that a mode takes: the constants of \<^verbatim>\<open>work_mode_t\<close> and the union of the last two.
  \<^verbatim>\<open>work_mode & MODE_BATCH\<close> is set in all but the first.
\<close>

fun mode_is_batch :: "work_mode_t \<Rightarrow> bool" where
  "mode_is_batch MODE_GDB = False"
| "mode_is_batch _ = True"

text \<open>
  The last fields are the host: the values that \<^verbatim>\<open>rand()\<close> returns in turn and how many
  were taken, the time of day in microseconds, and the bytes that the guest program wrote to
  standard output. Messages that the emulator prints on its own account are not recorded.
\<close>

record nemu =
  cpu :: CPU_state
  tlb :: "tlb_entry_t list"
  mmu_cache :: "nat \<Rightarrow> mmu_cache_t"
  memory_regions :: "nat \<Rightarrow> device option"
  ddr :: "nat \<Rightarrow> u8"
  bram :: "nat \<Rightarrow> u8"
  ulite :: ulite_t
  spi :: spi_t
  nemu_state :: nemu_state_t
  work_mode :: work_mode_t
  host_rand :: "nat \<Rightarrow> nat"
  rand_taken :: nat
  host_time :: u64
  stdout :: "u8 list"

type_synonym 'a res = "('a, nemu) outcome"

text \<open>The globals of the program before \<^verbatim>\<open>main\<close>: C sets them to zero.\<close>

definition zero_phyn :: tlb_phyn_t where
  "zero_phyn = \<lparr>phyn_pfn = 0, phyn_c = 0, phyn_d = False, phyn_v = False\<rparr>"

definition zero_tlb_entry :: tlb_entry_t where
  "zero_tlb_entry = \<lparr>te_pagemask = 0, te_vpn = 0, te_g = False, te_asid = 0, te_p0 = zero_phyn, te_p1 = zero_phyn\<rparr>"

definition zero_cpu :: CPU_state where
  "zero_cpu = \<lparr>gpr = (\<lambda>_. 0), hi = 0, lo = 0, cp0 = (\<lambda>_. 0), pc = 0, br_target = 0, is_delayslot = False,
     has_exception = False, fpr32i = (\<lambda>_. 0), fcsr = 0\<rparr>"

definition zero_spi :: spi_t where
  "zero_spi = \<lparr>xlnx_spi_regs = (\<lambda>_. 0), spi_tx_fifo = \<lparr>head = 0, fsize = 0, elems = replicate 1024 0\<rparr>,
     spi_rx_fifo = \<lparr>head = 0, fsize = 0, elems = replicate 1024 0\<rparr>, flash = zero_flash\<rparr>"

definition nemu_globals :: "work_mode_t \<Rightarrow> (nat \<Rightarrow> nat) \<Rightarrow> u64 \<Rightarrow> nemu" where
  "nemu_globals mode rnd time = \<lparr>
     cpu = zero_cpu, tlb = replicate NR_TLB_ENTRY zero_tlb_entry,
     mmu_cache = (\<lambda>_. \<lparr>mc_id = 0, mc_ptr = None, mc_can_write = False\<rparr>), memory_regions = (\<lambda>_. None),
     ddr = (\<lambda>_. 0), bram = (\<lambda>_. 0),
     ulite = \<lparr>ulite_q = \<lparr>head = 0, fsize = 0, elems = replicate 1024 0\<rparr>, ulite_intr_enabled = 0,
       ulite_tx_fifo_empty = 0, ulite_stop_string = None, ulite_stop_string_ptr = None\<rparr>,
     spi = zero_spi,
     nemu_state = NEMU_STOP, work_mode = mode, host_rand = rnd, rand_taken = 0, host_time = time, stdout = []\<rparr>"

definition on_cpu :: "(CPU_state \<Rightarrow> CPU_state) \<Rightarrow> nemu \<Rightarrow> nemu" where
  "on_cpu f s = s\<lparr>cpu := f (cpu s)\<rparr>"

definition set_gpr :: "nat \<Rightarrow> u32 \<Rightarrow> nemu \<Rightarrow> nemu" where
  "set_gpr r v = on_cpu (\<lambda>c. c\<lparr>gpr := (gpr c)(r := v)\<rparr>)"

definition set_fpr :: "nat \<Rightarrow> u32 \<Rightarrow> nemu \<Rightarrow> nemu" where
  "set_fpr r v = on_cpu (\<lambda>c. c\<lparr>fpr32i := (fpr32i c)(r := v)\<rparr>)"

section \<open>Reading state back\<close>

lemma cpu_on_cpu [simp]: "cpu (on_cpu f s) = f (cpu s)"
  by (simp add: on_cpu_def)

lemma on_cpu_frame [simp]:
  "tlb (on_cpu f s) = tlb s" "mmu_cache (on_cpu f s) = mmu_cache s"
  "memory_regions (on_cpu f s) = memory_regions s" "ddr (on_cpu f s) = ddr s"
  "bram (on_cpu f s) = bram s" "ulite (on_cpu f s) = ulite s" "spi (on_cpu f s) = spi s"
  "nemu_state (on_cpu f s) = nemu_state s" "work_mode (on_cpu f s) = work_mode s"
  "host_rand (on_cpu f s) = host_rand s" "rand_taken (on_cpu f s) = rand_taken s"
  "host_time (on_cpu f s) = host_time s" "stdout (on_cpu f s) = stdout s"
  by (simp_all add: on_cpu_def)

lemma on_cpu_on_cpu [simp]: "on_cpu f (on_cpu g s) = on_cpu (\<lambda>c. f (g c)) s"
  by (simp add: on_cpu_def)

lemma on_cpu_id: "(\<And>c. c = cpu s \<Longrightarrow> f c = c) \<Longrightarrow> on_cpu f s = s"
  by (simp add: on_cpu_def)

lemma cp0_get_cpr_set [simp]:
  "cp0_get f (cpr_set r v c) = (if fst f = r then bf_get (fst (snd f)) (snd (snd f)) v else cp0_get f c)"
  by (cases f) (simp add: cpr_set_def)

lemma cp0_cpr_set [simp]: "cp0 (cpr_set r v c) = (cp0 c)(r := v)"
  by (simp add: cpr_set_def)

lemma cpr_set_frame [simp]:
  "gpr (cpr_set r v c) = gpr c" "hi (cpr_set r v c) = hi c" "lo (cpr_set r v c) = lo c"
  "pc (cpr_set r v c) = pc c" "br_target (cpr_set r v c) = br_target c"
  "is_delayslot (cpr_set r v c) = is_delayslot c" "has_exception (cpr_set r v c) = has_exception c"
  "fpr32i (cpr_set r v c) = fpr32i c" "fcsr (cpr_set r v c) = fcsr c"
  by (simp_all add: cpr_set_def)

lemma cp0_set_frame [simp]:
  "gpr (cp0_set f v c) = gpr c" "hi (cp0_set f v c) = hi c" "lo (cp0_set f v c) = lo c"
  "pc (cp0_set f v c) = pc c" "br_target (cp0_set f v c) = br_target c"
  "is_delayslot (cp0_set f v c) = is_delayslot c" "has_exception (cp0_set f v c) = has_exception c"
  "fpr32i (cp0_set f v c) = fpr32i c" "fcsr (cp0_set f v c) = fcsr c"
  by (cases f; simp)+

text \<open>
  Two fields are independent when they are in different registers or occupy disjoint bits; then a
  store into one is not seen by a load of the other. This is decided by arithmetic for every pair
  of the fields above.
\<close>

definition fld_disjoint :: "cp0_fld \<Rightarrow> cp0_fld \<Rightarrow> bool" where
  "fld_disjoint f g \<longleftrightarrow> fst f \<noteq> fst g \<or> fst (snd f) + snd (snd f) \<le> fst (snd g)
      \<or> fst (snd g) + snd (snd g) \<le> fst (snd f)"

lemma cp0_get_set_same [simp]:
  "fst (snd f) + snd (snd f) \<le> 32 \<Longrightarrow> cp0_get f (cp0_set f v c) = take_bit (snd (snd f)) v"
  by (cases f) (simp add: bf_simps)

lemma cp0_get_set_disjoint [simp]:
  "fld_disjoint f g \<Longrightarrow> cp0_get f (cp0_set g v c) = cp0_get f c"
  by (cases f; cases g) (auto simp: fld_disjoint_def bf_simps)

declare cp0_get.simps [simp del] cp0_set.simps [simp del]

lemma cp0_set_other [simp]: "fst f \<noteq> r \<Longrightarrow> cp0 (cp0_set f v c) r = cp0 c r"
  by (cases f) (simp add: cp0_set.simps)

lemma unat_cp0_get_less: "snd (snd f) < 32 \<Longrightarrow> unat (cp0_get f c) < 2 ^ snd (snd f)"
  by (cases f) (simp add: cp0_get.simps unat_bf_get_less)

lemma cp0_get_upd [simp]:
  "cp0_get f (c\<lparr>gpr := a\<rparr>) = cp0_get f c" "cp0_get f (c\<lparr>hi := w\<rparr>) = cp0_get f c"
  "cp0_get f (c\<lparr>lo := w\<rparr>) = cp0_get f c" "cp0_get f (c\<lparr>pc := w\<rparr>) = cp0_get f c"
  "cp0_get f (c\<lparr>br_target := w\<rparr>) = cp0_get f c" "cp0_get f (c\<lparr>is_delayslot := b\<rparr>) = cp0_get f c"
  "cp0_get f (c\<lparr>has_exception := b\<rparr>) = cp0_get f c" "cp0_get f (c\<lparr>fpr32i := a\<rparr>) = cp0_get f c"
  "cp0_get f (c\<lparr>fcsr := w\<rparr>) = cp0_get f c"
  by (cases f; simp add: cp0_get.simps)+

end
