(* ===== verification/Cpu_Exception.thy ===== *)
theory Cpu_Exception
  imports Nemu_State
begin

text \<open>
  Exception entry and interrupts: \<^verbatim>\<open>raise_exception\<close>, \<^verbatim>\<open>nemu_set_irq\<close> and
  \<^verbatim>\<open>check_intrs\<close> of \<^verbatim>\<open>src/cpu/cpu.c\<close>, and \<^verbatim>\<open>clear_mmu_cache\<close> of
  \<^verbatim>\<open>src/cpu/mmu-cache.h\<close>. Printing and the instruction log are left out; the decode cache
  is not part of this configuration, so clearing it does nothing.
\<close>

section \<open>Clearing the cached translations\<close>

abbreviation (input) MMU_BITS :: nat where "MMU_BITS \<equiv> 12"

definition clear_mmu_cache :: "nemu \<Rightarrow> nemu" where
  "clear_mmu_cache s = s\<lparr>mmu_cache :=
     (\<lambda>i. if i < 2 ^ MMU_BITS then (mmu_cache s i)\<lparr>mc_id := 0xFFFFFFFF, mc_ptr := None\<rparr>
          else mmu_cache s i)\<rparr>"

lemma clear_mmu_cache_frame [simp]:
  "cpu (clear_mmu_cache s) = cpu s" "tlb (clear_mmu_cache s) = tlb s"
  "memory_regions (clear_mmu_cache s) = memory_regions s" "ddr (clear_mmu_cache s) = ddr s"
  "bram (clear_mmu_cache s) = bram s" "ulite (clear_mmu_cache s) = ulite s" "spi (clear_mmu_cache s) = spi s"
  "nemu_state (clear_mmu_cache s) = nemu_state s" "work_mode (clear_mmu_cache s) = work_mode s"
  "host_rand (clear_mmu_cache s) = host_rand s" "rand_taken (clear_mmu_cache s) = rand_taken s"
  "host_time (clear_mmu_cache s) = host_time s" "stdout (clear_mmu_cache s) = stdout s"
  by (simp_all add: clear_mmu_cache_def)

lemma clear_mmu_cache_on_cpu: "clear_mmu_cache (on_cpu f s) = on_cpu f (clear_mmu_cache s)"
  by (simp add: clear_mmu_cache_def on_cpu_def cong: if_cong)

section \<open>Exception entry\<close>

text \<open>Lines 157 to 189: what happens to the processor registers.\<close>

definition enter_exception :: "config \<Rightarrow> u32 \<Rightarrow> u32 \<Rightarrow> CPU_state \<Rightarrow> CPU_state" where
  "enter_exception cfg code extra c0 =
     (let c1 = c0\<lparr>has_exception := True\<rparr>;
          (c2, vecOff) =
            (if CONFIG_MARCH_NOOP cfg \<or> cp0_get status_EXL c1 = 0
             then (let c = (if CONFIG_DELAYSLOT cfg \<and> is_delayslot c1
                            then cp0_set cause_BD 1 (cpr_set cp0_epc (pc c1 - 4) (c1\<lparr>is_delayslot := False\<rparr>))
                            else cp0_set cause_BD 0 (cpr_set cp0_epc (pc c1) c1))
                   in (c, if extra = EX_TLB_REFILL then 0
                          else if code = EXC_INTR \<and> cp0_get cause_IV c = 1 then 0x200
                          else 0x180))
             else (c1, 0x180));
          c3 = cp0_set status_EXL 1 (cp0_set cause_ExcCode code c2)
      in if cp0_get status_BEV c3 = 1 then c3\<lparr>br_target := 0xbfc00200 + vecOff\<rparr>
         else c3\<lparr>br_target := 0x80000000 + vecOff\<rparr>)"

definition raise_exception :: "config \<Rightarrow> u32 \<Rightarrow> nemu \<Rightarrow> unit res" where
  "raise_exception cfg exception s =
     (let code = exception AND 0xFFFF; extra = drop_bit 16 exception
      in if code = EXC_TRAP then Inl (Panic, s)
         else Inr ((), clear_mmu_cache (on_cpu (enter_exception cfg code extra) s)))"

text \<open>The address an exception handler is entered at, from the registers before the exception.\<close>

definition vector_of :: "config \<Rightarrow> u32 \<Rightarrow> u32 \<Rightarrow> CPU_state \<Rightarrow> u32" where
  "vector_of cfg code extra c =
     (if cp0_get status_BEV c = 1 then 0xbfc00200 else 0x80000000) +
     (if CONFIG_MARCH_NOOP cfg \<or> cp0_get status_EXL c = 0
      then (if extra = EX_TLB_REFILL then 0
            else if code = EXC_INTR \<and> cp0_get cause_IV c = 1 then 0x200 else 0x180)
      else 0x180)"

text \<open>The instruction to come back to: the branch, when the exception is in its delay slot.\<close>

definition restart_pc :: "config \<Rightarrow> CPU_state \<Rightarrow> u32" where
  "restart_pc cfg c = (if CONFIG_DELAYSLOT cfg \<and> is_delayslot c then pc c - 4 else pc c)"

lemma fld_disjoint_code [simp]:
  "fld_disjoint (r, k, n) (r', k', n') \<longleftrightarrow> r \<noteq> r' \<or> k + n \<le> k' \<or> k' + n' \<le> k"
  by (simp add: fld_disjoint_def)

lemma enter_exception_regs [simp]:
  "has_exception (enter_exception cfg code extra c)"
  "br_target (enter_exception cfg code extra c) = vector_of cfg code extra c"
  "pc (enter_exception cfg code extra c) = pc c"
  "gpr (enter_exception cfg code extra c) = gpr c"
  "hi (enter_exception cfg code extra c) = hi c"
  "lo (enter_exception cfg code extra c) = lo c"
  "fpr32i (enter_exception cfg code extra c) = fpr32i c"
  "fcsr (enter_exception cfg code extra c) = fcsr c"
  by (simp_all add: enter_exception_def vector_of_def Let_def)

lemma enter_exception_is_delayslot:
  "is_delayslot (enter_exception cfg code extra c) \<longleftrightarrow>
     is_delayslot c \<and> \<not> (CONFIG_DELAYSLOT cfg \<and> (CONFIG_MARCH_NOOP cfg \<or> cp0_get status_EXL c = 0))"
  by (auto simp: enter_exception_def Let_def)

lemma enter_exception_EXL [simp]: "cp0_get status_EXL (enter_exception cfg code extra c) = 1"
  by (simp add: enter_exception_def Let_def)

lemma enter_exception_ExcCode [simp]:
  "cp0_get cause_ExcCode (enter_exception cfg code extra c) = take_bit 5 code"
  by (simp add: enter_exception_def Let_def)

lemma enter_exception_epc:
  "cp0 (enter_exception cfg code extra c) cp0_epc =
     (if CONFIG_MARCH_NOOP cfg \<or> cp0_get status_EXL c = 0 then restart_pc cfg c else cp0 c cp0_epc)"
  by (auto simp: enter_exception_def Let_def restart_pc_def)

lemma enter_exception_BD:
  "cp0_get cause_BD (enter_exception cfg code extra c) =
     (if CONFIG_MARCH_NOOP cfg \<or> cp0_get status_EXL c = 0
      then of_bool (CONFIG_DELAYSLOT cfg \<and> is_delayslot c) else cp0_get cause_BD c)"
  by (auto simp: enter_exception_def Let_def)

lemma enter_exception_fld [simp]:
  assumes "fld_disjoint f status_EXL" and "fld_disjoint f cause_ExcCode" and "fld_disjoint f cause_BD"
    and "fst f \<noteq> cp0_epc"
  shows "cp0_get f (enter_exception cfg code extra c) = cp0_get f c"
  using assms by (cases f) (auto simp: enter_exception_def Let_def)

lemma enter_exception_cpr [simp]:
  assumes "r \<noteq> (12, 0)" and "r \<noteq> (13, 0)" and "r \<noteq> cp0_epc"
  shows "cp0 (enter_exception cfg code extra c) r = cp0 c r"
  using assms by (auto simp: enter_exception_def Let_def)

lemma raise_exception_ok:
  assumes "ex AND 0xFFFF \<noteq> EXC_TRAP"
  shows "raise_exception cfg ex s =
     Inr ((), clear_mmu_cache (on_cpu (enter_exception cfg (ex AND 0xFFFF) (drop_bit 16 ex)) s))"
  using assms by (simp add: raise_exception_def)

lemma raise_exception_MAKE_EX:
  assumes "ex < 0x10000" and "code < 0x10000" and "code \<noteq> EXC_TRAP"
  shows "raise_exception cfg (MAKE_EX ex code) s =
     Inr ((), clear_mmu_cache (on_cpu (enter_exception cfg code ex) s))"
proof -
  have c: "take_bit 16 code = code" and e: "take_bit 16 ex = ex"
    using assms by (auto intro!: take_bit_u32_small simp: word_less_nat_alt)
  have "take_bit 16 (push_bit 16 ex) = 0" by (rule bit_eqI) (auto simp: bit_simps)
  then have lo: "MAKE_EX ex code AND 0xFFFF = code"
    by (simp add: MAKE_EX_def and_mask_u32 c)
  have "drop_bit 16 (push_bit 16 ex) = take_bit 16 ex" by (rule bit_eqI) (auto simp: bit_simps)
  moreover have "drop_bit 16 (take_bit 16 code) = 0" by (simp add: drop_bit_take_bit)
  ultimately have "drop_bit 16 (MAKE_EX ex code) = ex"
    using c e by (simp add: MAKE_EX_def)
  with lo show ?thesis using assms by (simp add: raise_exception_def)
qed

section \<open>Interrupts\<close>

definition nemu_set_irq :: "int \<Rightarrow> bool \<Rightarrow> nemu \<Rightarrow> unit res" where
  "nemu_set_irq irqno val s =
     (if \<not> (0 \<le> irqno \<and> irqno < 8) then Inl (AssertFail, s)
      else let b = push_bit (nat irqno) 1
           in Inr ((), on_cpu (\<lambda>c. cp0_set cause_IP
                (if val then cp0_get cause_IP c OR b else cp0_get cause_IP c AND NOT b) c) s))"

definition check_intrs :: "config \<Rightarrow> nemu \<Rightarrow> unit res" where
  "check_intrs cfg s =
     bind_r
       (if CONFIG_INTR cfg
        then (let s = on_cpu (\<lambda>c. cpr_set cp0_count (cp0 c cp0_count + 1) c) s
              in if cp0 (cpu s) cp0_count = cp0 (cpu s) cp0_compare then nemu_set_irq 7 True s
                 else Inr ((), s))
        else Inr ((), s))
       (\<lambda>_ s. let c = cpu s;
                  ie = cp0_get status_ERL c = 0 \<and> cp0_get status_EXL c = 0 \<and> cp0_get status_IE c \<noteq> 0
              in if ie \<and> cp0_get status_IM c AND cp0_get cause_IP c \<noteq> 0
                 then raise_exception cfg EXC_INTR s
                 else Inr ((), s))"

text \<open>Line \<open>n\<close> of the processor's interrupt lines is raised.\<close>

definition irq_pending :: "nat \<Rightarrow> CPU_state \<Rightarrow> bool" where
  "irq_pending n c = bit (cp0_get cause_IP c) n"

lemma bit_cp0_get: "bit (cp0_get (r, k, n) c) i \<longleftrightarrow> i < n \<and> bit (cp0 c r) (k + i)"
  by (simp add: cp0_get.simps bit_bf_get)

lemma nemu_set_irq_cases:
  "nemu_set_irq n v s = Inl (AssertFail, s) \<and> \<not> (0 \<le> n \<and> n < 8) \<or>
   (\<exists>f. nemu_set_irq n v s = Inr ((), on_cpu (cp0_set cause_IP f) s)) \<and> 0 \<le> n \<and> n < 8"
  by (auto simp: nemu_set_irq_def Let_def on_cpu_def)

lemma irq_pending_set_IP:
  "irq_pending k (cp0_set cause_IP v c) \<longleftrightarrow> k < 8 \<and> bit v k"
  by (auto simp: irq_pending_def bit_simps)

lemma irq_pending_cpr [simp]: "r \<noteq> (13, 0) \<Longrightarrow> irq_pending k (cpr_set r v c) = irq_pending k c"
  by (simp add: irq_pending_def)

lemma irq_pending_bound: "irq_pending k c \<Longrightarrow> k < 8"
  by (simp add: irq_pending_def bit_cp0_get)

lemma nemu_set_irq_pending:
  assumes "n < 8"
  shows "\<exists>s'. nemu_set_irq (int n) v s = Inr ((), s') \<and>
     (\<forall>k. irq_pending k (cpu s') \<longleftrightarrow> (if k = n then v else irq_pending k (cpu s)))"
  using assms
  by (auto simp: nemu_set_irq_def Let_def irq_pending_set_IP bit_simps irq_pending_def [symmetric]
      dest: irq_pending_bound)

lemma raise_intr: "raise_exception cfg EXC_INTR s = Inr ((), clear_mmu_cache (on_cpu (enter_exception cfg EXC_INTR 0) s))"
  by (simp add: raise_exception_def)

text \<open>When interrupts are let through: enabled, and not at exception or error level.\<close>

definition intr_enabled :: "CPU_state \<Rightarrow> bool" where
  "intr_enabled c \<longleftrightarrow> cp0_get status_ERL c = 0 \<and> cp0_get status_EXL c = 0 \<and> cp0_get status_IE c = 1"

definition intr_unmasked :: "CPU_state \<Rightarrow> bool" where
  "intr_unmasked c \<longleftrightarrow> (\<exists>k < 8. irq_pending k c \<and> bit (cp0_get status_IM c) k)"

lemma intr_unmasked_iff: "intr_unmasked c \<longleftrightarrow> cp0_get status_IM c AND cp0_get cause_IP c \<noteq> 0"
  by (force simp: intr_unmasked_def irq_pending_def bit_eq_iff bit_simps bit_cp0_get)

lemma status_IE_cases: "cp0_get status_IE c \<noteq> 0 \<longleftrightarrow> cp0_get status_IE c = 1"
  using bf_get_1_cases [of 0 "cp0 c (12, 0)"] by (auto simp: cp0_get.simps)

text \<open>The timer: the counter is advanced and line 7 is raised when it reaches the compare value.\<close>

definition tick :: "config \<Rightarrow> CPU_state \<Rightarrow> CPU_state" where
  "tick cfg c =
     (if CONFIG_INTR cfg
      then (let c = cpr_set cp0_count (cp0 c cp0_count + 1) c
            in if cp0 c cp0_count = cp0 c cp0_compare
               then cp0_set cause_IP (cp0_get cause_IP c OR 128) c else c)
      else c)"

lemma check_intrs_eq:
  "check_intrs cfg s =
     (if intr_enabled (tick cfg (cpu s)) \<and> intr_unmasked (tick cfg (cpu s))
      then Inr ((), clear_mmu_cache (on_cpu (\<lambda>c. enter_exception cfg EXC_INTR 0 (tick cfg c)) s))
      else Inr ((), on_cpu (tick cfg) s))"
  by (auto simp: check_intrs_def tick_def nemu_set_irq_def Let_def raise_intr intr_enabled_def
      intr_unmasked_iff status_IE_cases on_cpu_def push_bit_eq_mult)

section \<open>Properties\<close>

text \<open>
  C4: what an exception does. Outside an exception it records where to resume (the branch, for an
  instruction in a delay slot) and whether that is a branch, and picks the vector: the start of the
  bank for a TLB refill, offset 0x200 for an interrupt with a separate vector, 0x180 otherwise. Inside
  an exception EPC and the branch flag are kept and the vector is the general one. Either way the bank
  is chosen by the bootstrap flag, cause and exception level are set, the general registers stay, and
  no translation stays cached.
\<close>

theorem exception_entry:
  assumes "\<not> CONFIG_MARCH_NOOP cfg" and "ex < 0x10000" and "code < 32" and "code \<noteq> EXC_TRAP"
  shows "\<exists>t. raise_exception cfg (MAKE_EX ex code) s = Inr ((), t) \<and> has_exception (cpu t) \<and>
     (let slot = CONFIG_DELAYSLOT cfg \<and> is_delayslot (cpu s);
          base = (if cp0_get status_BEV (cpu s) = 1 then 0xbfc00200 else 0x80000000) in
      if cp0_get status_EXL (cpu s) = 0
      then cp0 (cpu t) cp0_epc = (if slot then pc (cpu s) - 4 else pc (cpu s)) \<and>
           cp0_get cause_BD (cpu t) = of_bool slot \<and>
           br_target (cpu t) = base + (if ex = EX_TLB_REFILL then 0
             else if code = EXC_INTR \<and> cp0_get cause_IV (cpu s) = 1 then 0x200 else 0x180)
      else cp0 (cpu t) cp0_epc = cp0 (cpu s) cp0_epc \<and> cp0_get cause_BD (cpu t) = cp0_get cause_BD (cpu s) \<and>
           br_target (cpu t) = base + 0x180) \<and>
     cp0_get cause_ExcCode (cpu t) = code \<and> cp0_get status_EXL (cpu t) = 1 \<and> gpr (cpu t) = gpr (cpu s) \<and>
     (\<forall>i < 2 ^ 12. mc_id (mmu_cache t i) = 0xFFFFFFFF \<and> mc_ptr (mmu_cache t i) = None)"
proof -
  have "unat code < 2 ^ 5" "code < 0x10000" using assms(3) by (simp_all add: word_less_nat_alt)
  then have code: "take_bit 5 code = code" and r: "raise_exception cfg (MAKE_EX ex code) s =
      Inr ((), clear_mmu_cache (on_cpu (enter_exception cfg code ex) s))" (is "_ = Inr ((), ?t)")
    using assms by (simp_all add: take_bit_u32_small raise_exception_MAKE_EX)
  have "\<forall>i < 2 ^ 12. mc_id (mmu_cache ?t i) = 0xFFFFFFFF \<and> mc_ptr (mmu_cache ?t i) = None"
    by (simp add: clear_mmu_cache_def)
  with r show ?thesis
    using assms(1) code by (auto simp: Let_def enter_exception_epc enter_exception_BD vector_of_def restart_pc_def)
qed

theorem exception_entry_witness:
  "\<exists>t. raise_exception mips32r1_defconfig (MAKE_EX EX_TLB_REFILL EXC_TLBL)
        (on_cpu (\<lambda>c. c\<lparr>pc := 0x80001004, is_delayslot := True\<rparr>) (nemu_globals MODE_BATCH (\<lambda>_. 0) 0)) = Inr ((), t) \<and>
     cp0 (cpu t) cp0_epc = 0x80001000 \<and> cp0_get cause_BD (cpu t) = 1 \<and> br_target (cpu t) = 0x80000000"
  using exception_entry [of mips32r1_defconfig EX_TLB_REFILL EXC_TLBL
      "on_cpu (\<lambda>c. c\<lparr>pc := 0x80001004, is_delayslot := True\<rparr>) (nemu_globals MODE_BATCH (\<lambda>_. 0) 0)"]
  by (auto simp: Let_def nemu_globals_def zero_cpu_def cp0_get.simps bf_get_def)

end
