(* ===== verification/Ram.thy ===== *)
theory Ram
  imports Nemu_State
begin

text \<open>
  The two memories, \<^verbatim>\<open>src/dev/ddr.c\<close> and \<^verbatim>\<open>src/dev/bram.c\<close>, with the range
  check of \<^verbatim>\<open>include/device.h\<close>. The locale is what the rest of the emulator relies on:
  a read returns the little-endian value of the addressed bytes and a write changes just these
  bytes. Both memories are shown to provide it.
\<close>

section \<open>Range check\<close>

definition check_ioaddr :: "u32 \<Rightarrow> u32 \<Rightarrow> u32 \<Rightarrow> 's \<Rightarrow> (unit, 's) outcome" where
  "check_ioaddr addr len sz s =
     (if addr \<le> sz \<and> len \<le> sz \<and> addr + len \<le> sz then Inr ((), s) else Inl (CPUAbort, s))"

lemma check_ioaddr_ok:
  assumes "unat addr + unat len \<le> unat sz"
  shows "check_ioaddr addr len sz s = Inr ((), s)"
proof -
  have "unat addr + unat len < 2 ^ 32"
    using assms unat_u32_less [of sz] by simp
  then have "unat (addr + len) = unat addr + unat len" by (rule unat_add_small)
  then show ?thesis using assms by (simp add: check_ioaddr_def word_le_nat_alt)
qed

lemma check_ioaddr_cases:
  "check_ioaddr addr len sz s = Inr ((), s) \<or> check_ioaddr addr len sz s = Inl (CPUAbort, s)"
  by (simp add: check_ioaddr_def)

text \<open>The sum of address and length cannot wrap around below a sz of two gigabytes.\<close>

lemma check_ioaddr_iff:
  assumes "unat sz < 2 ^ 31"
  shows "check_ioaddr addr len sz s = Inr ((), s) \<longleftrightarrow> unat addr + unat len \<le> unat sz"
proof
  assume "check_ioaddr addr len sz s = Inr ((), s)"
  then have le: "addr \<le> sz" "len \<le> sz" "addr + len \<le> sz"
    by (simp_all add: check_ioaddr_def split: if_splits)
  then have "unat addr + unat len < 2 ^ 32"
    using assms by (simp add: word_le_nat_alt)
  then have "unat (addr + len) = unat addr + unat len" by (rule unat_add_small)
  with le(3) show "unat addr + unat len \<le> unat sz" by (simp add: word_le_nat_alt)
qed (rule check_ioaddr_ok)

section \<open>Byte arrays\<close>

text \<open>
  \<^verbatim>\<open>*((uint32_t *)(p + addr)) & (~0u >> ((4 - len) << 3))\<close>: four bytes are always
  loaded and the surplus is masked off. \<^verbatim>\<open>memcpy(p + addr, &data, len)\<close> stores the low
  bytes of the data.
\<close>

definition mem_read32 :: "(nat \<Rightarrow> u8) \<Rightarrow> nat \<Rightarrow> u32" where
  "mem_read32 m a = le32 (m a) (m (a + 1)) (m (a + 2)) (m (a + 3))"

definition len_mask :: "nat \<Rightarrow> u32" where
  "len_mask len = drop_bit ((4 - len) * 8) (- 1)"

definition mem_read :: "(nat \<Rightarrow> u8) \<Rightarrow> nat \<Rightarrow> nat \<Rightarrow> u32" where
  "mem_read m a len = mem_read32 m a AND len_mask len"

definition mem_write :: "(nat \<Rightarrow> u8) \<Rightarrow> nat \<Rightarrow> nat \<Rightarrow> u32 \<Rightarrow> nat \<Rightarrow> u8" where
  "mem_write m a len data = (\<lambda>x. if a \<le> x \<and> x < a + len then byte_of data (x - a) else m x)"

definition mem_write_block :: "(nat \<Rightarrow> u8) \<Rightarrow> nat \<Rightarrow> u8 list \<Rightarrow> nat \<Rightarrow> u8" where
  "mem_write_block m a bs = (\<lambda>x. if a \<le> x \<and> x < a + length bs then bs ! (x - a) else m x)"

lemma mem_write_block_Nil [simp]: "mem_write_block m a [] = m"
  by (rule ext) (auto simp: mem_write_block_def)

lemma mem_write_block_append:
  "mem_write_block (mem_write_block m a xs) (a + length xs) ys = mem_write_block m a (xs @ ys)"
  by (rule ext) (auto simp: mem_write_block_def nth_append)

lemma mem_read32_word: "mem_read32 m a = mem_read m a 4"
  by (simp add: mem_read_def len_mask_def)

lemma len_mask_eq: "1 \<le> len \<Longrightarrow> len \<le> 4 \<Longrightarrow> len_mask len = mask (8 * len)"
  by (rule bit_eqI) (auto simp: len_mask_def bit_simps)

lemma bit_mem_read32: "bit (mem_read32 m a) i \<longleftrightarrow> i < 32 \<and> bit (m (a + i div 8)) (i mod 8)"
proof -
  consider "i < 8" | "8 \<le> i" "i < 16" | "16 \<le> i" "i < 24" | "24 \<le> i" "i < 32" | "32 \<le> i"
    by linarith
  then show ?thesis
  proof cases
    case 2
    then have "i div 8 = 1" "i mod 8 = i - 8" by (auto simp: mod_if)
    then show ?thesis using 2 by (simp add: mem_read32_def bit_le32)
  next
    case 3
    then have "i div 8 = 2" "i mod 8 = i - 16" by (auto simp: mod_if)
    then show ?thesis using 3 by (simp add: mem_read32_def bit_le32)
  next
    case 4
    then have "i div 8 = 3" "i mod 8 = i - 24" by (auto simp: mod_if)
    then show ?thesis using 4 by (simp add: mem_read32_def bit_le32)
  qed (auto simp: mem_read32_def bit_le32)
qed

lemma bit_mem_read:
  "1 \<le> len \<Longrightarrow> len \<le> 4 \<Longrightarrow>
     bit (mem_read m a len) i \<longleftrightarrow> i < 8 * len \<and> bit (m (a + i div 8)) (i mod 8)"
  by (auto simp: mem_read_def len_mask_eq bit_simps bit_mem_read32)

lemma mem_read_cong:
  assumes "1 \<le> len" and "len \<le> 4" and "\<And>k. k < len \<Longrightarrow> m (a + k) = m' (a' + k)"
  shows "mem_read m a len = mem_read m' a' len"
proof (rule bit_eqI)
  fix i
  show "bit (mem_read m a len) i = bit (mem_read m' a' len) i"
    using assms(3) [of "i div 8"] by (auto simp: bit_mem_read [OF assms(1,2)])
qed

lemma mem_read_write_same:
  assumes "1 \<le> len" and "len \<le> 4"
  shows "mem_read (mem_write m a len d) a len = take_bit (8 * len) d"
proof (rule bit_eqI)
  fix i :: nat
  have "8 * (i div 8) + i mod 8 = i" by simp
  then show "bit (mem_read (mem_write m a len d) a len) i = bit (take_bit (8 * len) d) i"
    by (auto simp: bit_mem_read [OF assms] mem_write_def bit_byte_of bit_take_bit_iff)
qed

lemma mem_read_write_other:
  assumes "1 \<le> len" and "len \<le> 4" and "a + len \<le> b \<or> b + n \<le> a"
  shows "mem_read (mem_write m b n d) a len = mem_read m a len"
  by (rule mem_read_cong) (use assms in \<open>auto simp: mem_write_def\<close>)

section \<open>DDR and block RAM\<close>

abbreviation (input) DDR_SIZE :: u32 where "DDR_SIZE \<equiv> 0x10000000"
abbreviation (input) BRAM_SIZE :: u32 where "BRAM_SIZE \<equiv> 0x100000"

text \<open>
  Lengths other than one to four are never passed; a shift by the width or a copy beyond the data
  word would be undefined.
\<close>

definition ddr_map :: "u32 \<Rightarrow> u32 \<Rightarrow> nemu \<Rightarrow> host_ptr res" where
  "ddr_map addr len s =
     bind_r (check_ioaddr addr len DDR_SIZE s) (\<lambda>_ s. Inr ((Ram_ddr, unat addr), s))"

definition ddr_read :: "u32 \<Rightarrow> nat \<Rightarrow> nemu \<Rightarrow> u32 res" where
  "ddr_read addr len s =
     bind_r (check_ioaddr addr (of_nat len) DDR_SIZE s)
       (\<lambda>_ s. if 1 \<le> len \<and> len \<le> 4 then Inr (mem_read (ddr s) (unat addr) len, s)
              else Inl (UndefinedBehaviour, s))"

definition ddr_write :: "u32 \<Rightarrow> nat \<Rightarrow> u32 \<Rightarrow> nemu \<Rightarrow> unit res" where
  "ddr_write addr len data s =
     bind_r (check_ioaddr addr (of_nat len) DDR_SIZE s)
       (\<lambda>_ s. if len \<le> 4 then Inr ((), s\<lparr>ddr := mem_write (ddr s) (unat addr) len data\<rparr>)
              else Inl (UndefinedBehaviour, s))"

definition ddr_set_block_data :: "u32 \<Rightarrow> u8 list \<Rightarrow> nemu \<Rightarrow> unit res" where
  "ddr_set_block_data addr bs s =
     bind_r (check_ioaddr addr (of_nat (length bs)) DDR_SIZE s)
       (\<lambda>_ s. Inr ((), s\<lparr>ddr := mem_write_block (ddr s) (unat addr) bs\<rparr>))"

definition bram_map :: "u32 \<Rightarrow> u32 \<Rightarrow> nemu \<Rightarrow> host_ptr res" where
  "bram_map addr len s =
     bind_r (check_ioaddr addr len BRAM_SIZE s) (\<lambda>_ s. Inr ((Ram_bram, unat addr), s))"

definition bram_read :: "u32 \<Rightarrow> nat \<Rightarrow> nemu \<Rightarrow> u32 res" where
  "bram_read addr len s =
     bind_r (check_ioaddr addr (of_nat len) BRAM_SIZE s)
       (\<lambda>_ s. if 1 \<le> len \<and> len \<le> 4 then Inr (mem_read (bram s) (unat addr) len, s)
              else Inl (UndefinedBehaviour, s))"

definition bram_write :: "u32 \<Rightarrow> nat \<Rightarrow> u32 \<Rightarrow> nemu \<Rightarrow> unit res" where
  "bram_write addr len data s =
     bind_r (check_ioaddr addr (of_nat len) BRAM_SIZE s)
       (\<lambda>_ s. if len \<le> 4 then Inr ((), s\<lparr>bram := mem_write (bram s) (unat addr) len data\<rparr>)
              else Inl (UndefinedBehaviour, s))"

definition bram_set_block_data :: "u32 \<Rightarrow> u8 list \<Rightarrow> nemu \<Rightarrow> unit res" where
  "bram_set_block_data addr bs s =
     bind_r (check_ioaddr addr (of_nat (length bs)) BRAM_SIZE s)
       (\<lambda>_ s. Inr ((), s\<lparr>bram := mem_write_block (bram s) (unat addr) bs\<rparr>))"

section \<open>The memory interface\<close>

locale byte_memory =
  fixes rd :: "u32 \<Rightarrow> nat \<Rightarrow> nemu \<Rightarrow> u32 res"
    and wr :: "u32 \<Rightarrow> nat \<Rightarrow> u32 \<Rightarrow> nemu \<Rightarrow> unit res"
    and bytes :: "nemu \<Rightarrow> nat \<Rightarrow> u8"
    and put :: "(nat \<Rightarrow> u8) \<Rightarrow> nemu \<Rightarrow> nemu"
    and sz :: nat
  assumes size_small: "sz < 2 ^ 31"
    and bytes_put: "bytes (put m s) = m"
    and put_put: "put m (put m' s) = put m s"
    and rd_in: "1 \<le> len \<Longrightarrow> len \<le> 4 \<Longrightarrow> unat a + len \<le> sz \<Longrightarrow>
          rd a len s = Inr (mem_read (bytes s) (unat a) len, s)"
    and wr_in: "1 \<le> len \<Longrightarrow> len \<le> 4 \<Longrightarrow> unat a + len \<le> sz \<Longrightarrow>
          wr a len d s = Inr ((), put (mem_write (bytes s) (unat a) len d) s)"
    and rd_out: "1 \<le> len \<Longrightarrow> len \<le> 4 \<Longrightarrow> sz < unat a + len \<Longrightarrow> rd a len s = Inl (CPUAbort, s)"
    and wr_out: "1 \<le> len \<Longrightarrow> len \<le> 4 \<Longrightarrow> sz < unat a + len \<Longrightarrow> wr a len d s = Inl (CPUAbort, s)"
begin

text \<open>A read after a write to the same place returns the bytes written.\<close>

lemma read_after_write:
  assumes "1 \<le> len" and "len \<le> 4" and "wr a len d s = Inr ((), s')"
  shows "rd a len s' = Inr (take_bit (8 * len) d, s')"
proof -
  have range: "unat a + len \<le> sz"
    using assms wr_out [of len a d s] by (cases "unat a + len \<le> sz") auto
  then have "s' = put (mem_write (bytes s) (unat a) len d) s"
    using assms wr_in [of len a d s] by simp
  then show ?thesis
    using rd_in [OF assms(1,2) range, of s'] mem_read_write_same [OF assms(1,2)] by (simp add: bytes_put)
qed

text \<open>A write is not seen by reads of other bytes.\<close>

lemma read_after_other_write:
  assumes "1 \<le> len" and "len \<le> 4" and "1 \<le> n" and "n \<le> 4" and "wr b n d s = Inr ((), s')"
    and "unat a + len \<le> unat b \<or> unat b + n \<le> unat a"
    and "rd a len s = Inr (v, s)"
  shows "rd a len s' = Inr (v, s')"
proof -
  have rb: "unat b + n \<le> sz"
    using assms wr_out [of n b d s] by (cases "unat b + n \<le> sz") auto
  have ra: "unat a + len \<le> sz"
    using assms rd_out [of len a s] by (cases "unat a + len \<le> sz") auto
  have s': "s' = put (mem_write (bytes s) (unat b) n d) s"
    using assms(3,4,5) wr_in [OF _ _ rb] by simp
  have "v = mem_read (bytes s) (unat a) len" using assms(1,2,7) rd_in [OF _ _ ra] by simp
  then show ?thesis
    using rd_in [OF assms(1,2) ra, of s'] mem_read_write_other [OF assms(1,2,6)] s'
    by (simp add: bytes_put)
qed

text \<open>A word is the little-endian composition of its four bytes.\<close>

lemma read_word_bytes:
  assumes "unat a + 4 \<le> sz"
  shows "rd a 4 s = Inr (le32 (bytes s (unat a)) (bytes s (unat a + 1)) (bytes s (unat a + 2))
                            (bytes s (unat a + 3)), s)"
  using rd_in [of 4 a s] assms by (simp add: mem_read_def mem_read32_def len_mask_def)

lemma outcome_total:
  "1 \<le> len \<Longrightarrow> len \<le> 4 \<Longrightarrow> (\<exists>v. rd a len s = Inr (v, s)) \<or> rd a len s = Inl (CPUAbort, s)"
  using rd_in [of len a s] rd_out [of len a s] by (cases "unat a + len \<le> sz") auto

end

lemma check_len:
  assumes "len \<le> 4" and "unat sz < 2 ^ 31"
  shows "check_ioaddr a (of_nat len) sz s =
           (if unat a + len \<le> unat sz then Inr ((), s) else Inl (CPUAbort, s))"
proof -
  have "unat (of_nat len :: u32) = len" using assms(1) by (simp add: unat_of_nat take_bit_nat_eq_self)
  then show ?thesis
    using check_ioaddr_iff [OF assms(2), of a "of_nat len" s] check_ioaddr_cases [of a "of_nat len" sz s]
    by auto
qed

interpretation ddr_mem: byte_memory ddr_read ddr_write ddr "\<lambda>m s. s\<lparr>ddr := m\<rparr>" "0x10000000"
  by unfold_locales (simp_all add: ddr_read_def ddr_write_def check_len)

interpretation bram_mem: byte_memory bram_read bram_write bram "\<lambda>m s. s\<lparr>bram := m\<rparr>" "0x100000"
  by unfold_locales (simp_all add: bram_read_def bram_write_def check_len)

end
