(* ===== verification/Uart.thy ===== *)
theory Uart
  imports Cpu_Exception Ram
begin

text \<open>
  The serial port, \<^verbatim>\<open>src/dev/xlnx-ulite.c\<close>: a receive queue on the ring buffer of
  \<^verbatim>\<open>fifo.h\<close>, a transmit register that writes to standard output, a status and a control
  register, interrupt line 4, and the string that stops the processor when it has been sent.
\<close>

section \<open>Operations\<close>

abbreviation (input) ulite_Rx :: u32 where "ulite_Rx \<equiv> 0"
abbreviation (input) ulite_Tx :: u32 where "ulite_Tx \<equiv> 4"
abbreviation (input) ulite_STAT :: u32 where "ulite_STAT \<equiv> 8"
abbreviation (input) ulite_CTRL :: u32 where "ulite_CTRL \<equiv> 0xC"
abbreviation (input) XLNX_ULITE_SIZE :: u32 where "XLNX_ULITE_SIZE \<equiv> 0x10"
abbreviation (input) XLNX_ULITE_IRQ_NO :: int where "XLNX_ULITE_IRQ_NO \<equiv> 4"
abbreviation (input) SR_CTRL_INTR_BIT :: u32 where "SR_CTRL_INTR_BIT \<equiv> 0x10"
abbreviation (input) SR_TX_FIFO_EMPTY :: u32 where "SR_TX_FIFO_EMPTY \<equiv> 4"
abbreviation (input) SR_RX_FIFO_VALID_DATA :: u32 where "SR_RX_FIFO_VALID_DATA \<equiv> 1"

definition on_ulite :: "(ulite_t \<Rightarrow> ulite_t) \<Rightarrow> nemu \<Rightarrow> nemu" where
  "on_ulite f s = s\<lparr>ulite := f (ulite s)\<rparr>"

definition xlnx_ulite_enqueue :: "u32 \<Rightarrow> nemu \<Rightarrow> nemu" where
  "xlnx_ulite_enqueue ch = on_ulite (\<lambda>u. u\<lparr>ulite_q := fifo_push ch (ulite_q u)\<rparr>)"

definition xlnx_ulite_set_irq :: "nemu \<Rightarrow> unit res" where
  "xlnx_ulite_set_irq s =
     (if ulite_intr_enabled (ulite s) \<noteq> 0 then nemu_set_irq XLNX_ULITE_IRQ_NO True s else Inr ((), s))"

definition stop_cpu_when_ulite_send :: "u8 list \<Rightarrow> nemu \<Rightarrow> nemu" where
  "stop_cpu_when_ulite_send str =
     on_ulite (\<lambda>u. u\<lparr>ulite_stop_string := Some str, ulite_stop_string_ptr := Some str\<rparr>)"

text \<open>
  A pointer into the string is the rest of the string from there. At the terminating zero the rest
  is empty; moving on from it leaves the string, and reading through the pointer then is undefined.
\<close>

definition stop_cpu_check :: "u8 \<Rightarrow> nemu \<Rightarrow> unit res" where
  "stop_cpu_check ch s =
     (case ulite_stop_string_ptr (ulite s) of
        None \<Rightarrow> Inr ((), s)
      | Some [] \<Rightarrow>
          if ch = 0 then Inl (UndefinedBehaviour, s)
          else Inr ((), on_ulite (\<lambda>u. u\<lparr>ulite_stop_string_ptr := ulite_stop_string u\<rparr>) s)
      | Some (c # cs) \<Rightarrow>
          if c = ch
          then (let s = on_ulite (\<lambda>u. u\<lparr>ulite_stop_string_ptr := Some cs\<rparr>) s
                in Inr ((), if cs = [] then s\<lparr>nemu_state := NEMU_STOP\<rparr> else s))
          else Inr ((), on_ulite (\<lambda>u. u\<lparr>ulite_stop_string_ptr := ulite_stop_string u\<rparr>) s))"

definition xlnx_ulite_peek :: "u32 \<Rightarrow> nat \<Rightarrow> nemu \<Rightarrow> u32 res" where
  "xlnx_ulite_peek addr len s =
     (let u = ulite s
      in if addr = ulite_Rx then Inr (fifo_top (ulite_q u), s)
         else if addr = ulite_STAT then
           (let status = 0;
                status = (if \<not> fifo_is_empty (ulite_q u) then status OR SR_RX_FIFO_VALID_DATA else status);
                status = (if ulite_intr_enabled u \<noteq> 0 then status OR SR_CTRL_INTR_BIT else status);
                status = (if ulite_tx_fifo_empty u \<noteq> 0 then status OR SR_TX_FIFO_EMPTY else status)
            in Inr (status, s))
         else if addr = ulite_CTRL then Inr (0, s)
         else Inl (CPUAbort, s))"

definition xlnx_ulite_read :: "u32 \<Rightarrow> nat \<Rightarrow> nemu \<Rightarrow> u32 res" where
  "xlnx_ulite_read addr len s =
     bind_r (check_ioaddr addr (of_nat len) XLNX_ULITE_SIZE s)
       (\<lambda>_ s. if addr = ulite_Rx then
                bind_r (nemu_set_irq XLNX_ULITE_IRQ_NO False s)
                  (\<lambda>_ s. let (ch, q) = fifo_pop (ulite_q (ulite s))
                         in Inr (ch, on_ulite (\<lambda>u. u\<lparr>ulite_q := q\<rparr>) s))
              else xlnx_ulite_peek addr len s)"

definition xlnx_ulite_write :: "u32 \<Rightarrow> nat \<Rightarrow> u32 \<Rightarrow> nemu \<Rightarrow> unit res" where
  "xlnx_ulite_write addr len data s =
     bind_r (check_ioaddr addr (of_nat len) XLNX_ULITE_SIZE s)
       (\<lambda>_ s.
          if addr = ulite_Tx then
            (let ch = ucast data :: u8
             in bind_r (stop_cpu_check ch (s\<lparr>stdout := stdout s @ [ch]\<rparr>))
                  (\<lambda>_ s. Inr ((),
                     if ch = 10
                     then on_ulite (\<lambda>u. u\<lparr>ulite_tx_fifo_empty := ulite_tx_fifo_empty u OR SR_TX_FIFO_EMPTY\<rparr>) s
                     else s)))
          else if addr = ulite_CTRL then
            (let en = data AND SR_CTRL_INTR_BIT;
                 s = on_ulite (\<lambda>u. u\<lparr>ulite_intr_enabled := en\<rparr>) s
             in if en = 0
                then nemu_set_irq XLNX_ULITE_IRQ_NO False (on_ulite (\<lambda>u. u\<lparr>ulite_tx_fifo_empty := 0\<rparr>) s)
                else Inr ((), s))
          else Inl (CPUAbort, s))"

text \<open>
  \<^verbatim>\<open>getchar\<close> takes the next of the characters typed at the prompt; at the end of the
  input it returns \<^verbatim>\<open>EOF\<close>, which is not \<open>'q'\<close>.
\<close>

definition check_ctrl_x_commands :: "u8 \<Rightarrow> u8 list \<Rightarrow> nemu \<Rightarrow> u8 list res" where
  "check_ctrl_x_commands ch typed s =
     (if ch = 0x18
      then (case typed of
              [] \<Rightarrow> Inr ([], s)
            | c # cs \<Rightarrow> if c = 113 then Inl (NemuExit, s) else Inr (cs, s))
      else Inr (typed, s))"

fun ulite_receive :: "u8 list \<Rightarrow> u8 list \<Rightarrow> nemu \<Rightarrow> unit res" where
  "ulite_receive [] typed s = Inr ((), s)"
| "ulite_receive (ch # data) typed s =
     bind_r (check_ctrl_x_commands ch typed s)
       (\<lambda>typed s. ulite_receive data typed (xlnx_ulite_enqueue (scast ch) s))"

definition xlnx_ulite_update_irq :: "u8 list \<Rightarrow> u8 list \<Rightarrow> nemu \<Rightarrow> bool res" where
  "xlnx_ulite_update_irq data typed s =
     (if data = [] then Inr (False, s)
      else bind_r (ulite_receive data typed s)
             (\<lambda>_ s. bind_r (xlnx_ulite_set_irq s) (\<lambda>_ s. Inr (True, s))))"

definition xlnx_ulite_set_fifo_data :: "u8 list \<Rightarrow> nemu \<Rightarrow> nemu" where
  "xlnx_ulite_set_fifo_data data s = fold (\<lambda>ch. xlnx_ulite_enqueue (scast ch)) data s"

abbreviation (input) SIGINT :: int where "SIGINT \<equiv> 2"
abbreviation (input) SIGTSTP :: int where "SIGTSTP \<equiv> 20"

definition ulite_ctrl_code_handler :: "int \<Rightarrow> nemu \<Rightarrow> unit res" where
  "ulite_ctrl_code_handler no s =
     (if no = SIGINT then xlnx_ulite_set_irq (xlnx_ulite_enqueue 0x03 s)
      else if no = SIGTSTP then xlnx_ulite_set_irq (xlnx_ulite_enqueue 0x1a s)
      else Inr ((), s))"

text \<open>\<^verbatim>\<open>fifo_init\<close> is empty, and installing signal handlers is left to the host.\<close>

definition xlnx_ulite_init :: "nemu \<Rightarrow> nemu" where
  "xlnx_ulite_init s = s"

section \<open>Frames\<close>

lemma on_ulite_frame [simp]:
  "cpu (on_ulite f s) = cpu s" "tlb (on_ulite f s) = tlb s" "mmu_cache (on_ulite f s) = mmu_cache s"
  "memory_regions (on_ulite f s) = memory_regions s" "ddr (on_ulite f s) = ddr s"
  "bram (on_ulite f s) = bram s" "nemu_state (on_ulite f s) = nemu_state s"
  "work_mode (on_ulite f s) = work_mode s" "stdout (on_ulite f s) = stdout s"
  "host_rand (on_ulite f s) = host_rand s" "rand_taken (on_ulite f s) = rand_taken s"
  "host_time (on_ulite f s) = host_time s" "spi (on_ulite f s) = spi s"
  by (simp_all add: on_ulite_def)

lemma ulite_on_ulite [simp]: "ulite (on_ulite f s) = f (ulite s)"
  by (simp add: on_ulite_def)

lemma on_ulite_on_ulite [simp]: "on_ulite f (on_ulite g s) = on_ulite (\<lambda>u. f (g u)) s"
  by (simp add: on_ulite_def)

lemma on_ulite_on_cpu: "on_ulite f (on_cpu g s) = on_cpu g (on_ulite f s)"
  by (simp add: on_ulite_def on_cpu_def)

section \<open>Receiving\<close>

abbreviation rx_queue :: "nemu \<Rightarrow> u32 fifo" where "rx_queue s \<equiv> ulite_q (ulite s)"

lemma rx_queue_enqueue [simp]: "rx_queue (xlnx_ulite_enqueue ch s) = fifo_push ch (rx_queue s)"
  by (simp add: xlnx_ulite_enqueue_def)

lemma rx_queue_set_fifo_data:
  "rx_queue (xlnx_ulite_set_fifo_data data s) = fold fifo_push (map scast data) (rx_queue s)"
  unfolding xlnx_ulite_set_fifo_data_def by (induction data arbitrary: s) simp_all

text \<open>The characters arrive in order, as many as the queue has room for.\<close>

lemma set_fifo_data_queue:
  assumes "fifo_wf (rx_queue s)"
    and "length (fifo_list (rx_queue s)) + length data \<le> fifo_capacity (rx_queue s)"
  shows "fifo_list (rx_queue (xlnx_ulite_set_fifo_data data s)) = fifo_list (rx_queue s) @ map scast data"
  using ring.fold_push [of "rx_queue s" "map scast data"] assms by (simp add: rx_queue_set_fifo_data)

text \<open>Reading the receive register takes the oldest character and drops the interrupt.\<close>

lemma ulite_read_Rx:
  assumes "1 \<le> len" and "len \<le> 4"
  shows "xlnx_ulite_read ulite_Rx len s =
     Inr (fst (fifo_pop (rx_queue s)),
          on_ulite (\<lambda>u. u\<lparr>ulite_q := snd (fifo_pop (ulite_q u))\<rparr>)
            (on_cpu (\<lambda>c. cp0_set cause_IP (cp0_get cause_IP c AND NOT 16) c) s))"
  using assms by (simp add: xlnx_ulite_read_def check_len nemu_set_irq_def Let_def split_beta
      on_ulite_def on_cpu_def push_bit_eq_mult)

text \<open>Repeated reads of the receive register, and the bytes of a string sent one by one.\<close>

primrec ulite_reads :: "nat \<Rightarrow> nemu \<Rightarrow> u32 list res" where
  "ulite_reads 0 s = Inr ([], s)"
| "ulite_reads (Suc n) s =
     bind_r (xlnx_ulite_read ulite_Rx 4 s) (\<lambda>x s. bind_r (ulite_reads n s) (\<lambda>xs s. Inr (x # xs, s)))"

primrec ulite_sends :: "u8 list \<Rightarrow> nemu \<Rightarrow> unit res" where
  "ulite_sends [] s = Inr ((), s)"
| "ulite_sends (b # bs) s = bind_r (xlnx_ulite_write ulite_Tx 1 (ucast b) s) (\<lambda>_ s. ulite_sends bs s)"

lemma ulite_reads_take:
  assumes "fifo_wf (rx_queue s)" and "n \<le> length (fifo_list (rx_queue s))"
  shows "\<exists>s'. ulite_reads n s = Inr (take n (fifo_list (rx_queue s)), s')"
  using assms
proof (induction n arbitrary: s)
  case 0
  then show ?case by simp
next
  case (Suc n)
  let ?q = "rx_queue s"
  have ne: "fifo_list ?q \<noteq> []" using Suc.prems(2) by (metis list.size(3) not_less_eq_eq zero_le)
  obtain s1 where s1: "xlnx_ulite_read ulite_Rx 4 s = Inr (hd (fifo_list ?q), s1)"
    and q1: "rx_queue s1 = snd (fifo_pop ?q)"
    using ulite_read_Rx [of 4 s] ring.value_pop [OF Suc.prems(1) ne] by simp
  have "fifo_wf (rx_queue s1)" "n \<le> length (fifo_list (rx_queue s1))"
    using q1 ring.wf_pop [OF Suc.prems(1)] ring.contents_pop [OF Suc.prems(1)] Suc.prems(2) by auto
  from Suc.IH [OF this] obtain s2 where "ulite_reads n s1 = Inr (take n (tl (fifo_list ?q)), s2)"
    using q1 ring.contents_pop [OF Suc.prems(1)] by auto
  then show ?case using s1 ne by (cases "fifo_list ?q") auto
qed

section \<open>Sending\<close>

lemma ucast_u8_u32: "ucast (ucast w :: u32) = (w :: u8)"
  by (rule bit_eqI) (auto simp: bit_simps)

lemma ulite_write_Tx:
  assumes "ulite_stop_string_ptr (ulite s) = Some (b # rest)"
  obtains s' where "xlnx_ulite_write ulite_Tx 1 (ucast b) s = Inr ((), s')"
    and "ulite_stop_string_ptr (ulite s') = Some rest" and "stdout s' = stdout s @ [b]"
    and "nemu_state s' = (if rest = [] then NEMU_STOP else nemu_state s)"
  using assms
  by (simp add: xlnx_ulite_write_def check_ioaddr_def stop_cpu_check_def ucast_u8_u32 Let_def)

text \<open>Sending the stop string stops the processor.\<close>

lemma ulite_sends_stop:
  assumes "ulite_stop_string_ptr (ulite s) = Some bs"
  shows "\<exists>s'. ulite_sends bs s = Inr ((), s') \<and> stdout s' = stdout s @ bs \<and>
     nemu_state s' = (if bs = [] then nemu_state s else NEMU_STOP)"
  using assms
proof (induction bs arbitrary: s)
  case Nil
  then show ?case by simp
next
  case (Cons b bs)
  from ulite_write_Tx [OF Cons.prems] obtain s1 where
    s1: "xlnx_ulite_write ulite_Tx 1 (ucast b) s = Inr ((), s1)"
    and r: "ulite_stop_string_ptr (ulite s1) = Some bs" "stdout s1 = stdout s @ [b]"
      "nemu_state s1 = (if bs = [] then NEMU_STOP else nemu_state s)" by blast
  from Cons.IH [OF r(1)] show ?case using s1 r by auto
qed

section \<open>Properties\<close>

text \<open>
  Characters given to an empty receive queue that has room for them come out of the receive
  register in the order they went in, one per read, each sign-extended from a byte.
\<close>

theorem ulite_receive_in_order:
  assumes "fifo_wf (rx_queue s)" and "fifo_list (rx_queue s) = []" and "length data \<le> fifo_capacity (rx_queue s)"
  shows "\<exists>t. ulite_reads (length data) (xlnx_ulite_set_fifo_data data s) = Inr (map scast data, t)"
proof -
  let ?s = "xlnx_ulite_set_fifo_data data s"
  have "fifo_list (rx_queue ?s) = map scast data" using set_fifo_data_queue [OF assms(1)] assms(2,3) by simp
  moreover have "fifo_wf (rx_queue ?s)"
    using ring.fold_push [OF assms(1), of "map scast data"] by (simp add: rx_queue_set_fifo_data)
  ultimately show ?thesis
    using ulite_reads_take [of ?s "length data"] by (metis length_map order_refl take_all_iff)
qed

lemma globals_rx_queue:
  "fifo_wf (rx_queue (nemu_globals m r t))" "fifo_list (rx_queue (nemu_globals m r t)) = []"
  "fifo_capacity (rx_queue (nemu_globals m r t)) = 1024"
  by (simp_all add: nemu_globals_def fifo_wf_def fifo_list_def fifo_capacity_def)

theorem ulite_receive_in_order_witness:
  "\<exists>t. ulite_reads 3 (xlnx_ulite_set_fifo_data [0x6c, 0x73, 0x8a] (nemu_globals MODE_BATCH (\<lambda>_. 0) 0)) =
     Inr ([0x6c, 0x73, - 0x76], t)"
  using ulite_receive_in_order [OF globals_rx_queue(1,2), of "[0x6c, 0x73, 0x8a]" MODE_BATCH "\<lambda>_. 0" 0]
  by (simp add: globals_rx_queue numeral_3_eq_3 signed_take_bit_eq_take_bit_minus)

text \<open>
  When the monitor asks for the processor to stop at a string, sending the characters of the
  string one after the other through the transmit register prints them and stops the processor.
\<close>

theorem ulite_stop_string_stops:
  "\<exists>t. ulite_sends str (stop_cpu_when_ulite_send str s) = Inr ((), t) \<and> stdout t = stdout s @ str \<and>
     nemu_state t = (if str = [] then nemu_state s else NEMU_STOP)"
  using ulite_sends_stop [of "stop_cpu_when_ulite_send str s" str]
  by (cases "str = []") (simp_all add: stop_cpu_when_ulite_send_def)

text \<open>
  The matching does not fall back to a shorter prefix: in \<open>aaab\<close> the stop string \<open>aab\<close> is missed.
\<close>

lemma ulite_stop_string_missed:
  "\<exists>t. ulite_sends [97, 97, 97, 98] (stop_cpu_when_ulite_send [97, 97, 98] s) = Inr ((), t) \<and>
     nemu_state t = nemu_state s"
  by (simp add: stop_cpu_when_ulite_send_def xlnx_ulite_write_def check_ioaddr_def stop_cpu_check_def Let_def)

end
