(* ===== verification/Flash_Correct.thy ===== *)
theory Flash_Correct
  imports Flash Fifo
begin

text \<open>
  What the flash memory promises: it stays well formed whatever bytes it is sent, programming and
  reading through the command interface act on the array as they should, and the backing file
  carries the array over a restart.
\<close>

section \<open>Invariant\<close>

lemma unat_pow2: "k < 32 \<Longrightarrow> unat (2 ^ k :: u32) = 2 ^ k"
proof -
  assume "k < 32"
  then have "(2 :: nat) ^ k < 2 ^ 32" by (intro power_strict_increasing) simp_all
  then show ?thesis using unat_of_nat [of "2 ^ k", where 'a = 32] by (simp only: take_bit_nat_eq_self of_nat_power of_nat_numeral len_num1 len_bit0) (simp add: take_bit_nat_eq_self)
qed

lemma unat_and_pow2: "k < 32 \<Longrightarrow> unat (w AND (2 ^ k - 1) :: u32) = unat w mod 2 ^ k"
  by (simp add: take_bit_eq_mod unat_mod_distrib unat_pow2 flip: mask_eq_exp_minus_1 take_bit_eq_mask)

text \<open>
  The data buffer is as long as declared and the two indices stay inside it, the size is a power of
  two, the current address is in the array, and the variable-length collection only serves
  \<^verbatim>\<open>WRSR\<close>.
\<close>

definition flash_wf :: "Flash \<Rightarrow> bool" where
  "flash_wf s \<longleftrightarrow> length (fl_data s) = 16 \<and> unat (fl_len s) \<le> 16 \<and> unat (fl_pos s) \<le> 16 \<and>
     (\<exists>k < 32. fl_size s = 2 ^ k) \<and> unat (fl_cur_addr s) < unat (fl_size s) \<and>
     length (pi_id (fl_pi s)) = 6 \<and> pi_id_len (fl_pi s) \<le> 6 \<and>
     (fl_state s = STATE_COLLECTING_VAR_LEN_DATA \<longrightarrow> fl_cmd_in_progress s = WRSR)"

lemma wrap_less: "\<exists>k < 32. n = 2 ^ k \<Longrightarrow> unat ((w :: u32) AND (n - 1)) < unat n"
  by (auto simp: unat_and_pow2 unat_pow2)

lemma wrap_mod: "\<exists>k < 32. n = 2 ^ k \<Longrightarrow> unat ((w :: u32) AND (n - 1)) = unat w mod unat n"
  by (auto simp: unat_and_pow2 unat_pow2)

lemma wrap_Suc:
  assumes "\<exists>k < 32. n = 2 ^ k"
  shows "unat ((w + 1 :: u32) AND (n - 1)) = Suc (unat w) mod unat n"
proof -
  obtain k where k: "k < 32" "n = 2 ^ k" using assms by blast
  have "unat (w + 1) mod 2 ^ k = Suc (unat w) mod 2 ^ 32 mod 2 ^ k" by (simp add: unat_word_ariths)
  also have "\<dots> = Suc (unat w) mod 2 ^ k" using k(1) by (intro mod_mod_cancel le_imp_power_dvd) simp
  finally show ?thesis using k by (simp add: unat_and_pow2 unat_pow2)
qed

lemma flash_sync_shape: "\<exists>d f. flash_sync_dirty p s = s\<lparr>fl_blkio_file := f, fl_dirty_page := d\<rparr>"
proof (cases "fl_dirty_page s \<ge> 0 \<and> fl_dirty_page s \<noteq> p")
  case True
  then show ?thesis by (simp add: flash_sync_dirty_def flash_sync_page_def flash_sync_area_def Let_def) blast
next
  case False
  then have "flash_sync_dirty p s = s\<lparr>fl_blkio_file := fl_blkio_file s, fl_dirty_page := fl_dirty_page s\<rparr>"
    by (auto simp: flash_sync_dirty_def)
  then show ?thesis by blast
qed

lemma flash_wf_upd [simp]:
  "flash_wf (s\<lparr>fl_storage := m\<rparr>) = flash_wf s" "flash_wf (s\<lparr>fl_dirty_page := d\<rparr>) = flash_wf s"
  "flash_wf (s\<lparr>fl_blkio_file := f\<rparr>) = flash_wf s" "flash_wf (s\<lparr>fl_data_read_loop := b\<rparr>) = flash_wf s"
  "flash_wf (s\<lparr>fl_needed_bytes := n\<rparr>) = flash_wf s" "flash_wf (s\<lparr>fl_write_enable := b\<rparr>) = flash_wf s"
  "flash_wf (s\<lparr>fl_four_bytes_address_mode := b\<rparr>) = flash_wf s" "flash_wf (s\<lparr>fl_reset_enable := b\<rparr>) = flash_wf s"
  "flash_wf (s\<lparr>fl_quad_enable := b\<rparr>) = flash_wf s" "flash_wf (s\<lparr>fl_ear := e\<rparr>) = flash_wf s"
  "flash_wf (s\<lparr>fl_volatile_cfg := v\<rparr>) = flash_wf s" "flash_wf (s\<lparr>fl_nonvolatile_cfg := v\<rparr>) = flash_wf s"
  "flash_wf (s\<lparr>fl_enh_volatile_cfg := v\<rparr>) = flash_wf s"
  by (simp_all add: flash_wf_def)

lemma flash_wf_sync [simp]: "flash_wf (flash_sync_dirty p s) = flash_wf s"
  using flash_sync_shape [of p s] by auto

lemma flash_wf_sync_area [simp]: "flash_wf (flash_sync_area off ln s) = flash_wf s"
  by (simp add: flash_sync_area_def)

text \<open>What an erase does: nothing, the intended range, or a range that leaves the array.\<close>

definition erase_overruns :: "u32 \<Rightarrow> u8 \<Rightarrow> Flash \<Rightarrow> bool" where
  "erase_overruns offset cmd s \<longleftrightarrow> fl_write_enable s \<and>
     (\<exists>off ln. erase_range offset cmd s = Some (off, ln) \<and> unat off + unat ln > unat (fl_size s))"

lemma flash_erase_cases:
  assumes "flash_wf s" and "cmd \<in> {ERASE_4K, ERASE4_4K, ERASE_32K, ERASE4_32K, ERASE_SECTOR, ERASE4_SECTOR, DIE_ERASE, BULK_ERASE}"
  shows "(\<exists>t. flash_erase offset cmd s = Inr ((), t) \<and> flash_wf t \<and> fl_state t = fl_state s) \<or>
     flash_erase offset cmd s = Inl (UndefinedBehaviour, s) \<and> erase_overruns offset cmd s"
proof (cases "erase_range offset cmd s")
  case None
  then have "cmd = DIE_ERASE" using assms(2) by (auto simp: erase_range_def)
  then show ?thesis using None assms(1) by (simp add: flash_erase_def)
next
  case (Some p)
  then show ?thesis using assms(1)
    by (cases p) (auto simp: flash_erase_def memset_storage_def erase_overruns_def flash_sync_area_def)
qed

lemma collect_wf [simp]: "flash_wf s \<Longrightarrow> flash_wf (collect n s)"
  by (simp add: flash_wf_def collect_def)

lemma present1_wf [simp]: "flash_wf s \<Longrightarrow> flash_wf (present1 b s)"
  by (simp add: flash_wf_def present1_def)

lemma reset_memory_wf [simp]:
  assumes "flash_wf s"
  shows "flash_wf (reset_memory s)"
proof -
  have "0 < unat (fl_size s)" using assms by (auto simp: flash_wf_def)
  then show ?thesis using assms
    by (cases "get_man s") (simp_all add: reset_memory_def get_man_def Let_def flash_wf_def)
qed

lemma jedec_read_wf [simp]: "flash_wf s \<Longrightarrow> flash_wf (jedec_read s)"
  by (simp add: flash_wf_def jedec_read_def unat_of_nat take_bit_nat_eq_self)

lemma decode_wrsr_wf [simp]: "flash_wf s \<Longrightarrow> fl_cmd_in_progress s = WRSR \<Longrightarrow> flash_wf (decode_wrsr s)"
  by (simp add: flash_wf_def decode_wrsr_def split: Manufacturer.splits)

lemma write_status_wf [simp]: "flash_wf s \<Longrightarrow> flash_wf (write_status s)"
  by (cases "get_man s") (simp_all add: write_status_def Let_def)

lemma read_id_sst_wf [simp]: "flash_wf s \<Longrightarrow> flash_wf (read_id_sst s)"
  by (simp add: flash_wf_def read_id_sst_def Let_def)

lemma collected_addr_less: "flash_wf s \<Longrightarrow> unat (collected_addr s) < unat (fl_size s)"
  unfolding collected_addr_def Let_def by (rule wrap_less) (simp add: flash_wf_def)

lemma flash_wf_addr [simp]:
  "flash_wf s \<Longrightarrow> st \<noteq> STATE_COLLECTING_VAR_LEN_DATA \<Longrightarrow> flash_wf (s\<lparr>fl_cur_addr := collected_addr s, fl_state := st\<rparr>)"
  using collected_addr_less [of s] by (simp add: flash_wf_def)

lemma flash_wf_state [simp]:
  "flash_wf s \<Longrightarrow> st \<noteq> STATE_COLLECTING_VAR_LEN_DATA \<Longrightarrow> flash_wf (s\<lparr>fl_state := st\<rparr>)"
  by (simp add: flash_wf_def)

text \<open>Every command ends well, unless it erases beyond the end of the array.\<close>

lemma complete_collecting_data_cases:
  assumes "flash_wf s"
  shows "(\<exists>t. complete_collecting_data s = Inr ((), t) \<and> flash_wf t) \<or>
     (\<exists>t. complete_collecting_data s = Inl (UndefinedBehaviour, t) \<and> flash_wf t \<and>
        erase_overruns (collected_addr s) (fl_cmd_in_progress s) s)"
proof -
  let ?t = "s\<lparr>fl_cur_addr := collected_addr s, fl_state := STATE_IDLE\<rparr>"
  have wf: "flash_wf ?t" using assms by simp
  have er: "erase_overruns a c ?t = erase_overruns a c s" for a c
    by (simp add: erase_overruns_def erase_range_def)
  show ?thesis
  proof (cases "fl_cmd_in_progress s \<in> {ERASE_4K, ERASE4_4K, ERASE_32K, ERASE4_32K, ERASE_SECTOR, ERASE4_SECTOR, DIE_ERASE}")
    case True
    then have "complete_collecting_data s = flash_erase (collected_addr s) (fl_cmd_in_progress s) ?t"
      by (auto simp: complete_collecting_data_def Let_def)
    then show ?thesis
      using flash_erase_cases [OF wf, of "fl_cmd_in_progress s" "collected_addr s"] True er wf by auto
  next
    case False
    then have "\<exists>t. complete_collecting_data s = Inr ((), t) \<and> flash_wf t"
      using assms wf by (simp add: complete_collecting_data_def Let_def)
    then show ?thesis by blast
  qed
qed

lemma bulk_erase_wf: "flash_wf s \<Longrightarrow> \<exists>t. flash_erase 0 BULK_ERASE s = Inr ((), t) \<and> flash_wf t"
  by (simp add: flash_erase_def erase_range_def memset_storage_def)

definition flash_ok :: "unit fres \<Rightarrow> bool" where
  "flash_ok r \<longleftrightarrow> (\<exists>t. r = Inr ((), t) \<and> flash_wf t)"

lemma flash_ok_Inr [intro!]: "flash_wf t \<Longrightarrow> flash_ok (Inr ((), t))"
  and flash_ok_if [intro!]: "(b \<Longrightarrow> flash_ok x) \<Longrightarrow> (\<not> b \<Longrightarrow> flash_ok y) \<Longrightarrow> flash_ok (if b then x else y)"
  by (simp_all add: flash_ok_def)

lemma read_cmds_wf [simp]:
  assumes "flash_wf s"
  shows "flash_wf (decode_fast_read_cmd s)" "flash_wf (decode_dio_read_cmd s)" "flash_wf (decode_qio_read_cmd s)"
  using assms by (simp_all add: decode_fast_read_cmd_def decode_dio_read_cmd_def decode_qio_read_cmd_def)

lemma decode_new_cmd_wf:
  assumes "flash_wf s" and "fl_state s = STATE_IDLE"
  shows "flash_ok (decode_new_cmd cmd s)"
proof -
  define t where "t = start_cmd cmd s"
  have t: "flash_wf t" "fl_cmd_in_progress t = cmd" "length (fl_data t) = 16"
    using assms by (simp_all add: t_def start_cmd_def flash_wf_def Let_def)
  have er: "flash_ok (flash_erase 0 BULK_ERASE t)"
    using bulk_erase_wf [OF t(1)] by (simp add: flash_ok_def)
  have nv: "flash_wf (t\<lparr>fl_data := (fl_data t)[0 := x, Suc 0 := y], fl_pos := 0, fl_len := 2, fl_state := STATE_READING_DATA\<rparr>)" for x y
    using t by (simp add: flash_wf_def)
  show ?thesis
    unfolding decode_new_cmd_def Let_def t_def [symmetric]
    by (intro flash_ok_if flash_ok_Inr er) (simp_all add: t nv split: Manufacturer.split)
qed


text \<open>The byte that completes the arguments of an erase command whose range leaves the array.\<close>

definition take_byte :: "u8 \<Rightarrow> Flash \<Rightarrow> Flash" where
  "take_byte b s = s\<lparr>fl_data := (fl_data s)[unat (fl_len s) := b], fl_len := fl_len s + 1\<rparr>"

lemma take_byte_wf: "flash_wf s \<Longrightarrow> unat (fl_len s) < 16 \<Longrightarrow> flash_wf (take_byte b s)"
  by (simp add: flash_wf_def take_byte_def unat_word_ariths)

definition erases_beyond_end :: "u8 \<Rightarrow> Flash \<Rightarrow> bool" where
  "erases_beyond_end b s \<longleftrightarrow> fl_state s = STATE_COLLECTING_DATA \<and>
     (let s = take_byte b s in erase_overruns (collected_addr s) (fl_cmd_in_progress s) s)"

lemma flash_write8_wf:
  assumes "flash_wf s"
  shows "\<exists>t. flash_write8 a d s = Inr ((), t) \<and> flash_wf t"
  using assms by (simp add: flash_write8_def flash_wf_def [of s] Let_def)

lemma next_addr_wf: "flash_wf s \<Longrightarrow> flash_wf (s\<lparr>fl_cur_addr := (fl_cur_addr s + 1) AND (fl_size s - 1)\<rparr>)"
  using wrap_less [of "fl_size s" "fl_cur_addr s + 1"] by (simp add: flash_wf_def)

lemma idle_wf: "flash_wf s \<Longrightarrow> flash_wf (s\<lparr>fl_len := 0, fl_pos := 0, fl_state := STATE_IDLE\<rparr>)"
  by (simp add: flash_wf_def)

lemma var_len_no_erase:
  "flash_wf s \<Longrightarrow> fl_state s = STATE_COLLECTING_VAR_LEN_DATA \<Longrightarrow> \<not> erase_overruns a (fl_cmd_in_progress s) s"
  by (simp add: flash_wf_def erase_overruns_def erase_range_def)

lemma take_byte_frame [simp]:
  "fl_state (take_byte b s) = fl_state s" "fl_cmd_in_progress (take_byte b s) = fl_cmd_in_progress s"
  by (simp_all add: take_byte_def)

lemma collect_byte_cases:
  assumes "flash_wf s" and "fl_state s \<in> {STATE_COLLECTING_DATA, STATE_COLLECTING_VAR_LEN_DATA}"
  shows "(\<exists>r t. m25p80_transfer8 tx s = Inr (r, t) \<and> flash_wf t) \<or>
     (\<exists>t. m25p80_transfer8 tx s = Inl (UndefinedBehaviour, t) \<and> flash_wf t \<and> erases_beyond_end (ucast tx) s)"
proof (cases "unat (fl_len s) < 16")
  case False
  then show ?thesis using assms idle_wf [OF assms(1)] by (auto simp: m25p80_transfer8_def)
next
  case True
  let ?t = "take_byte (ucast tx) s"
  have wf: "flash_wf ?t" using take_byte_wf [OF assms(1) True] .
  have eq: "m25p80_transfer8 tx s =
      (if fl_len ?t = ucast (fl_needed_bytes ?t) then bind_r (complete_collecting_data ?t) (\<lambda>_ s. Inr (0, s))
       else Inr (0, ?t))"
    using True assms(2) by (auto simp: m25p80_transfer8_def take_byte_def Let_def)
  have "fl_state s = STATE_COLLECTING_DATA" if "erase_overruns a (fl_cmd_in_progress ?t) ?t" for a
    using that assms(2) var_len_no_erase [OF wf] by auto
  then show ?thesis
    using complete_collecting_data_cases [OF wf] wf unfolding eq erases_beyond_end_def Let_def by auto
qed

lemma read_data_wf:
  assumes "flash_wf s" and "fl_state s = STATE_READING_DATA"
  shows "\<exists>r t. m25p80_transfer8 tx s = Inr (r, t) \<and> flash_wf t"
proof (cases "unat (fl_pos s) < 16")
  case False
  then show ?thesis using assms idle_wf [OF assms(1)] by (simp add: m25p80_transfer8_def)
next
  case True
  then have "unat (fl_pos s + 1) \<le> 16" by (simp add: unat_word_ariths)
  then show ?thesis using True assms by (simp add: m25p80_transfer8_def Let_def flash_wf_def)
qed

lemma transfer8_cases:
  assumes "flash_wf s"
  shows "(\<exists>r t. m25p80_transfer8 tx s = Inr (r, t) \<and> flash_wf t) \<or>
     (\<exists>t. m25p80_transfer8 tx s = Inl (UndefinedBehaviour, t) \<and> flash_wf t \<and> erases_beyond_end (ucast tx) s)"
proof (cases "fl_state s")
  case STATE_IDLE
  then show ?thesis
    using decode_new_cmd_wf [OF assms, of "ucast tx"] by (auto simp: m25p80_transfer8_def flash_ok_def)
next
  case STATE_PAGE_PROGRAM
  then show ?thesis
    using flash_write8_wf [OF assms, of "fl_cur_addr s" "ucast tx"]
    by (auto simp: m25p80_transfer8_def intro: next_addr_wf)
next
  case STATE_READ
  then show ?thesis using assms next_addr_wf [OF assms] by (simp add: m25p80_transfer8_def flash_wf_def [of s])
qed (use assms collect_byte_cases read_data_wf in blast)+

lemma m25p80_cs_cases:
  assumes "flash_wf s"
  shows "\<exists>t. m25p80_cs select s = Inr ((), t) \<and> flash_wf t"
proof (cases "select \<and> fl_state s = STATE_COLLECTING_VAR_LEN_DATA")
  case True
  then obtain t where "complete_collecting_data s = Inr ((), t)" "flash_wf t"
    using complete_collecting_data_cases [OF assms] var_len_no_erase [OF assms] by auto
  then show ?thesis using True idle_wf by (simp add: m25p80_cs_def)
next
  case False
  then show ?thesis using assms idle_wf [OF assms] by (auto simp: m25p80_cs_def)
qed

section \<open>Sessions\<close>

text \<open>The bytes that one selection of the chip exchanges.\<close>

fun flash_send :: "u8 list \<Rightarrow> Flash \<Rightarrow> u8 list fres" where
  "flash_send [] s = Inr ([], s)"
| "flash_send (b # bs) s =
     bind_r (m25p80_transfer8 (ucast b) s) (\<lambda>r s. bind_r (flash_send bs s) (\<lambda>rs s. Inr (ucast r # rs, s)))"

lemma flash_send_append:
  "flash_send (xs @ ys) s =
     bind_r (flash_send xs s) (\<lambda>rs s. bind_r (flash_send ys s) (\<lambda>rs' s. Inr (rs @ rs', s)))"
  by (induction xs arbitrary: s) (simp_all add: bind_r_assoc bind_r_return)

text \<open>Programming clears bits, byte after byte, and wraps around at the end of the array.\<close>

fun program_bytes :: "nat \<Rightarrow> nat \<Rightarrow> u8 list \<Rightarrow> (nat \<Rightarrow> u8) \<Rightarrow> (nat \<Rightarrow> u8)" where
  "program_bytes n a [] m = m"
| "program_bytes n a (d # ds) m = program_bytes n (Suc a mod n) ds (m(a := m a AND d))"

lemma Suc_mod_add: "0 < k \<Longrightarrow> (Suc a mod n + (k - 1)) mod n = (a + k) mod n"
  using mod_add_left_eq [of "Suc a" n "k - 1"] by simp

lemma program_bytes_other:
  "a < n \<Longrightarrow> length ds \<le> k \<Longrightarrow> k < n \<Longrightarrow> program_bytes n a ds m ((a + k) mod n) = m ((a + k) mod n)"
proof (induction ds arbitrary: a k m)
  case (Cons d ds)
  have ne: "(a + k) mod n \<noteq> a" using ring_index_inj [of k n 0 a] Cons.prems by fastforce
  have "(Suc a mod n + (k - 1)) mod n = (a + k) mod n" using Cons.prems by (intro Suc_mod_add) simp
  then show ?case using Cons.IH [of "Suc a mod n" "k - 1" "m(a := m a AND d)"] Cons.prems ne by (simp add: fun_upd_def)
qed simp

lemma program_bytes_at:
  "a < n \<Longrightarrow> length ds \<le> n \<Longrightarrow> k < length ds \<Longrightarrow>
     program_bytes n a ds m ((a + k) mod n) = m ((a + k) mod n) AND ds ! k"
proof (induction ds arbitrary: a k m)
  case (Cons d ds)
  let ?m = "m(a := m a AND d)"
  show ?case
  proof (cases k)
    case 0
    have "(Suc a mod n + (n - 1)) mod n = a" using Suc_mod_add [of n a n] Cons.prems by simp
    then have "program_bytes n (Suc a mod n) ds ?m a = ?m a"
      using program_bytes_other [of "Suc a mod n" n ds "n - 1" ?m] Cons.prems by simp
    then show ?thesis using 0 Cons.prems by simp
  next
    case (Suc j)
    have ne: "(a + k) mod n \<noteq> a" using ring_index_inj [of k n 0 a] Cons.prems Suc by fastforce
    have "(Suc a mod n + j) mod n = (a + k) mod n" using Suc by (simp add: mod_add_left_eq)
    then show ?thesis using Cons.IH [of "Suc a mod n" j ?m] Cons.prems Suc ne by (simp add: fun_upd_def)
  qed
qed simp

lemma sync_dirty_frame [simp]:
  "fl_storage (flash_sync_dirty p s) = fl_storage s" "fl_size (flash_sync_dirty p s) = fl_size s"
  "fl_state (flash_sync_dirty p s) = fl_state s" "fl_cur_addr (flash_sync_dirty p s) = fl_cur_addr s"
  "fl_pi (flash_sync_dirty p s) = fl_pi s" "fl_ear (flash_sync_dirty p s) = fl_ear s"
  "fl_four_bytes_address_mode (flash_sync_dirty p s) = fl_four_bytes_address_mode s"
  using flash_sync_shape [of p s] by auto

lemma unat_next_addr:
  "flash_wf s \<Longrightarrow> unat ((fl_cur_addr s + 1) AND (fl_size s - 1)) = Suc (unat (fl_cur_addr s)) mod unat (fl_size s)"
  by (simp add: flash_wf_def wrap_Suc)

lemma ucast_ucast_u8 [simp]: "ucast (ucast (b :: u8) :: u32) = b"
  by (rule bit_eqI) (auto simp: bit_simps)

text \<open>What programming and reading keep: everything that decides how a command is understood.\<close>

definition same_mode :: "Flash \<Rightarrow> Flash \<Rightarrow> bool" where
  "same_mode s t \<longleftrightarrow> fl_size t = fl_size s \<and> fl_pi t = fl_pi s \<and> fl_ear t = fl_ear s \<and>
     fl_four_bytes_address_mode t = fl_four_bytes_address_mode s"

lemma flash_send_program:
  assumes "flash_wf s" and "fl_state s = STATE_PAGE_PROGRAM" and "pi_flags (fl_pi s) AND EEPROM = 0"
  shows "\<exists>t. flash_send ds s = Inr (replicate (length ds) 0, t) \<and> flash_wf t \<and> same_mode s t \<and>
     fl_state t = STATE_PAGE_PROGRAM \<and>
     fl_storage t = program_bytes (unat (fl_size s)) (unat (fl_cur_addr s)) ds (fl_storage s)"
  using assms
proof (induction ds arbitrary: s)
  case Nil
  then show ?case by (simp add: same_mode_def)
next
  case (Cons d ds)
  obtain u where u: "m25p80_transfer8 (ucast d) s = Inr (0, u)" "fl_state u = STATE_PAGE_PROGRAM" "same_mode s u"
     "fl_storage u = (fl_storage s)(unat (fl_cur_addr s) := fl_storage s (unat (fl_cur_addr s)) AND d)"
     "unat (fl_cur_addr u) = Suc (unat (fl_cur_addr s)) mod unat (fl_size s)"
    using Cons.prems unat_next_addr [OF Cons.prems(1)]
    by (auto simp: m25p80_transfer8_def flash_write8_def Let_def flash_wf_def [of s] same_mode_def)
  have "flash_wf u" using transfer8_cases [OF Cons.prems(1), of "ucast d"] u(1) by auto
  then show ?case
    using Cons.IH [of u] u Cons.prems by (auto simp: same_mode_def fun_upd_def)
qed

lemma flash_send_read:
  assumes "flash_wf s" and "fl_state s = STATE_READ"
  shows "\<exists>t. flash_send xs s = Inr (map (\<lambda>k. fl_storage s ((unat (fl_cur_addr s) + k) mod unat (fl_size s))) [0..<length xs], t)
     \<and> fl_storage t = fl_storage s"
  using assms
proof (induction xs arbitrary: s)
  case (Cons x xs)
  obtain u where u: "m25p80_transfer8 (ucast x) s = Inr (ucast (fl_storage s (unat (fl_cur_addr s))), u)" "fl_state u = STATE_READ"
     "fl_storage u = fl_storage s" "fl_size u = fl_size s"
     "unat (fl_cur_addr u) = Suc (unat (fl_cur_addr s)) mod unat (fl_size s)"
    using Cons.prems unat_next_addr [OF Cons.prems(1)]
    by (simp add: m25p80_transfer8_def flash_wf_def [of s])
  have "flash_wf u" using transfer8_cases [OF Cons.prems(1), of "ucast x"] u(1) by auto
  moreover have "unat (fl_cur_addr s) mod unat (fl_size s) = unat (fl_cur_addr s)"
    using Cons.prems by (simp add: flash_wf_def)
  ultimately show ?case
    using Cons.IH [of u] u
    by (auto simp: upt_conv_Cons map_Suc_upt [symmetric] comp_def mod_add_left_eq simp del: upt_Suc)
qed simp

text \<open>A command with a three-byte address.\<close>

definition addr3 :: "Flash \<Rightarrow> u8 \<Rightarrow> u8 \<Rightarrow> u8 \<Rightarrow> nat" where
  "addr3 s b2 b1 b0 = unat (le32 b0 b1 b2 (fl_ear s)) mod unat (fl_size s)"

lemma list16: "length xs = 16 \<Longrightarrow> take 3 (xs[0 := a, Suc 0 := b, 2 := c]) = [a, b, c]"
  by (auto simp: numeral_eq_Suc length_Suc_conv)

lemma collected_addr3:
  assumes "flash_wf s" and "get_addr_length s = 3" and "take 3 (fl_data s) = [b2, b1, b0]"
  shows "unat (collected_addr s) = addr3 s b2 b1 b0"
proof -
  have "push_bit 8 (push_bit 8 (push_bit 8 (ucast (fl_ear s)) OR ucast b2) OR ucast b1) OR ucast b0
      = le32 b0 b1 b2 (fl_ear s)"
    by (rule bit_eqI) (auto simp: bit_le32 bit_simps dest: bit_imp_le_length)
  then show ?thesis
    using assms wrap_mod [of "fl_size s"] by (simp add: collected_addr_def addr3_def flash_wf_def)
qed

lemma decode_new_cmd_collect:
  assumes "cmd \<in> {ERASE_4K, ERASE4_4K, ERASE_32K, ERASE4_32K, ERASE_SECTOR, ERASE4_SECTOR, READ, READ4,
     DPP, QPP, QPP_4, PP, PP4, PP4_4, DIE_ERASE, RDID_90, RDID_AB}"
  shows "decode_new_cmd cmd s = Inr ((), collect (addr_bytes (start_cmd cmd s)) (start_cmd cmd s))"
  unfolding decode_new_cmd_def Let_def using assms by (rule if_P)

lemma flash_send_cmd3:
  assumes "flash_wf s" and "fl_state s = STATE_IDLE" and "pi_flags (fl_pi s) \<noteq> EEPROM"
    and "\<not> fl_four_bytes_address_mode s" and "cmd \<in> {PP, READ, ERASE_4K, ERASE_SECTOR}"
  shows "\<exists>t. flash_send [cmd, b2, b1, b0] s = bind_r (complete_collecting_data t) (\<lambda>_ s. Inr ([0, 0, 0, 0], s)) \<and>
     flash_wf t \<and> same_mode s t \<and> fl_storage t = fl_storage s \<and> fl_cmd_in_progress t = cmd \<and>
     fl_write_enable t = fl_write_enable s \<and> unat (collected_addr t) = addr3 s b2 b1 b0"
proof -
  have gl: "get_addr_length (start_cmd cmd s) = 3" "fl_data (start_cmd cmd s) = fl_data s" 
    using assms(3-5) by (auto simp: get_addr_length_def start_cmd_def Let_def)
  define u where "u = collect 3 (start_cmd cmd s)"
  have first: "m25p80_transfer8 (ucast cmd) s = Inr (0, u)"
    using assms(2) decode_new_cmd_collect [of cmd s] assms(5) gl by (auto simp: u_def m25p80_transfer8_def)
  have u: "flash_send [cmd, b2, b1, b0] s = bind_r (flash_send [b2, b1, b0] u) (\<lambda>rs s. Inr (0 # rs, s))"
    by (subst flash_send.simps) (simp only: first bind_r_Inr ucast_0)
  have f: "fl_state u = STATE_COLLECTING_DATA" "fl_len u = 0" "fl_needed_bytes u = 3" "fl_data u = fl_data s"
    by (simp_all add: u_def collect_def gl)
  let ?t = "u\<lparr>fl_data := (fl_data s)[0 := b2, Suc 0 := b1, 2 := b0], fl_len := 3\<rparr>"
  have "m25p80_transfer8 (ucast b2) u = Inr (0, u\<lparr>fl_data := (fl_data s)[0 := b2], fl_len := 1\<rparr>)"
    "m25p80_transfer8 (ucast b1) (u\<lparr>fl_data := (fl_data s)[0 := b2], fl_len := 1\<rparr>) =
       Inr (0, u\<lparr>fl_data := (fl_data s)[0 := b2, Suc 0 := b1], fl_len := 2\<rparr>)"
    "m25p80_transfer8 (ucast b0) (u\<lparr>fl_data := (fl_data s)[0 := b2, Suc 0 := b1], fl_len := 2\<rparr>) =
       bind_r (complete_collecting_data ?t) (\<lambda>_ s. Inr (0, s))"
    using f by (simp_all add: m25p80_transfer8_def)
  then have "flash_send [b2, b1, b0] u = bind_r (complete_collecting_data ?t) (\<lambda>_ s. Inr ([0, 0, 0], s))"
    by (simp add: bind_r_assoc)
  moreover have "flash_wf ?t" using assms(1) by (auto simp: u_def flash_wf_def collect_def start_cmd_def Let_def)
  moreover have "get_addr_length ?t = get_addr_length (start_cmd cmd s)"
    by (simp add: u_def collect_def get_addr_length_def)
  then have "unat (collected_addr ?t) = addr3 ?t b2 b1 b0"
    using assms(1) gl(1) by (intro collected_addr3 [OF \<open>flash_wf ?t\<close>]) (simp_all add: list16 flash_wf_def)
  ultimately show ?thesis unfolding u
    by (intro exI [of _ ?t]) (auto simp: u_def bind_r_assoc same_mode_def collect_def start_cmd_def addr3_def Let_def)
qed


text \<open>What the last byte of an address does for a program, a read and an erase command.\<close>

lemma complete_program_read:
  assumes "flash_wf t"
  shows "fl_cmd_in_progress t = PP \<Longrightarrow> complete_collecting_data t =
       Inr ((), t\<lparr>fl_cur_addr := collected_addr t, fl_state := STATE_PAGE_PROGRAM\<rparr>)"
    and "fl_cmd_in_progress t = READ \<Longrightarrow> complete_collecting_data t =
       Inr ((), t\<lparr>fl_cur_addr := collected_addr t, fl_state := STATE_READ\<rparr>)"
    and "fl_cmd_in_progress t = ERASE_SECTOR \<Longrightarrow> complete_collecting_data t =
       flash_erase (collected_addr t) ERASE_SECTOR (t\<lparr>fl_cur_addr := collected_addr t, fl_state := STATE_IDLE\<rparr>)"
  by (simp_all add: complete_collecting_data_def)

lemma cs_idle:
  assumes "flash_wf s" and "fl_state s \<noteq> STATE_COLLECTING_VAR_LEN_DATA"
  shows "\<exists>t. m25p80_cs True s = Inr ((), t) \<and> flash_wf t \<and> same_mode s t \<and> fl_state t = STATE_IDLE \<and>
     fl_storage t = fl_storage s"
  using assms idle_wf [OF assms(1)] by (simp add: m25p80_cs_def same_mode_def)

text \<open>A chip that waits for a command and takes three-byte addresses.\<close>

definition ready3 :: "Flash \<Rightarrow> bool" where
  "ready3 s \<longleftrightarrow> flash_wf s \<and> fl_state s = STATE_IDLE \<and> pi_flags (fl_pi s) AND EEPROM = 0 \<and>
     \<not> fl_four_bytes_address_mode s"

lemma ready3_not_eeprom: "ready3 s \<Longrightarrow> pi_flags (fl_pi s) \<noteq> EEPROM"
  by (auto simp: ready3_def)

lemma page_program:
  assumes "ready3 s"
  shows "\<exists>t. bind_r (flash_send ([PP, b2, b1, b0] @ ds) s) (\<lambda>_. m25p80_cs True) = Inr ((), t) \<and>
     ready3 t \<and> same_mode s t \<and>
     fl_storage t = program_bytes (unat (fl_size s)) (addr3 s b2 b1 b0) ds (fl_storage s)"
proof -
  obtain u where u: "flash_send [PP, b2, b1, b0] s = bind_r (complete_collecting_data u) (\<lambda>_ s. Inr ([0, 0, 0, 0], s))"
    "flash_wf u" "same_mode s u" "fl_storage u = fl_storage s" "fl_cmd_in_progress u = PP"
    "unat (collected_addr u) = addr3 s b2 b1 b0"
    using flash_send_cmd3 [of s PP b2 b1 b0] assms ready3_not_eeprom by (auto simp: ready3_def)
  let ?v = "u\<lparr>fl_cur_addr := collected_addr u, fl_state := STATE_PAGE_PROGRAM\<rparr>"
  have v: "flash_wf ?v" "same_mode s ?v" using u(2,3) by (simp_all add: same_mode_def)
  obtain w where w: "flash_send ds ?v = Inr (replicate (length ds) 0, w)" "flash_wf w" "same_mode ?v w"
    "fl_state w = STATE_PAGE_PROGRAM"
    "fl_storage w = program_bytes (unat (fl_size s)) (addr3 s b2 b1 b0) ds (fl_storage s)"
    using flash_send_program [OF v(1), of ds] u assms v(2) by (auto simp: same_mode_def ready3_def)
  obtain t where "m25p80_cs True w = Inr ((), t)" "flash_wf t" "same_mode w t" "fl_state t = STATE_IDLE"
    "fl_storage t = fl_storage w"
    using cs_idle [OF w(2)] w(4) by auto
  then show ?thesis
    using w complete_program_read(1) [OF u(2) u(5)] v(2) assms
    unfolding flash_send_append u(1) by (simp add: same_mode_def ready3_def)
qed

lemma array_read:
  assumes "ready3 s"
  shows "\<exists>t. flash_send ([READ, b2, b1, b0] @ xs) s =
     Inr ([0, 0, 0, 0] @ map (\<lambda>k. fl_storage s ((addr3 s b2 b1 b0 + k) mod unat (fl_size s))) [0..<length xs], t)"
proof -
  obtain u where u: "flash_send [READ, b2, b1, b0] s = bind_r (complete_collecting_data u) (\<lambda>_ s. Inr ([0, 0, 0, 0], s))"
    "flash_wf u" "same_mode s u" "fl_storage u = fl_storage s" "fl_cmd_in_progress u = READ"
    "unat (collected_addr u) = addr3 s b2 b1 b0"
    using flash_send_cmd3 [of s READ b2 b1 b0] assms ready3_not_eeprom by (auto simp: ready3_def)
  let ?v = "u\<lparr>fl_cur_addr := collected_addr u, fl_state := STATE_READ\<rparr>"
  show ?thesis
    using u(2-6) flash_send_read [of ?v xs] complete_program_read(2) [OF u(2) u(5)]
    unfolding flash_send_append u(1) by (auto simp: same_mode_def)
qed

lemma wren:
  assumes "ready3 s"
  shows "\<exists>t. flash_send [WREN] s = Inr ([0], t) \<and> ready3 t \<and> same_mode s t \<and> fl_storage t = fl_storage s \<and>
     fl_write_enable t"
  using assms
  by (simp add: ready3_def m25p80_transfer8_def decode_new_cmd_def start_cmd_def same_mode_def flash_wf_def Let_def)

lemma erase_sector:
  assumes "ready3 s"
  shows "flash_send [ERASE_SECTOR, b2, b1, b0] s \<in>
     (if \<not> fl_write_enable s then {Inr ([0, 0, 0, 0], t) | t. fl_storage t = fl_storage s}
      else if addr3 s b2 b1 b0 + unat (pi_sector_size (fl_pi s)) \<le> unat (fl_size s)
      then {Inr ([0, 0, 0, 0], t) | t. fl_storage t = (\<lambda>x. if addr3 s b2 b1 b0 \<le> x \<and>
              x < addr3 s b2 b1 b0 + unat (pi_sector_size (fl_pi s)) then 0xFF else fl_storage s x)}
      else {Inl (UndefinedBehaviour, t) | t. True})"
proof -
  obtain u where u: "flash_send [ERASE_SECTOR, b2, b1, b0] s = bind_r (complete_collecting_data u) (\<lambda>_ s. Inr ([0, 0, 0, 0], s))"
    "flash_wf u" "same_mode s u" "fl_storage u = fl_storage s" "fl_cmd_in_progress u = ERASE_SECTOR"
    "fl_write_enable u = fl_write_enable s" "unat (collected_addr u) = addr3 s b2 b1 b0"
    using flash_send_cmd3 [of s ERASE_SECTOR b2 b1 b0] assms ready3_not_eeprom by (auto simp: ready3_def)
  show ?thesis
    using u(2-7) complete_program_read(3) [OF u(2) u(5)]
    unfolding u(1) by (auto simp: flash_erase_def erase_range_def memset_storage_def same_mode_def flash_sync_area_def)
qed

section \<open>The backing file\<close>

text \<open>
  A file as large as the array agrees with it outside the page that waits to be written back.
\<close>

definition flash_synced :: "Flash \<Rightarrow> bool" where
  "flash_synced s \<longleftrightarrow> pi_page_size (fl_pi s) = 256 \<and> 256 dvd unat (fl_size s) \<and>
     256 * fl_dirty_page s < uint (fl_size s) \<and>
     (\<exists>c. fl_blkio_file s = Contents c \<and> length c = unat (fl_size s) \<and>
        (\<forall>x < length c. int (x div 256) \<noteq> fl_dirty_page s \<longrightarrow> c ! x = fl_storage s x))"

definition mem_of :: "Flash \<Rightarrow> (nat \<Rightarrow> u8) \<times> blkio \<times> int \<times> u32 \<times> FlashPartInfo" where
  "mem_of s = (fl_storage s, fl_blkio_file s, fl_dirty_page s, fl_size s, fl_pi s)"

lemma synced_cong: "mem_of t = mem_of s \<Longrightarrow> flash_synced t = flash_synced s"
  by (simp add: mem_of_def flash_synced_def)

lemma mem_of_upd [simp]:
  "mem_of (s\<lparr>fl_state := a\<rparr>) = mem_of s" "mem_of (s\<lparr>fl_data := b\<rparr>) = mem_of s" "mem_of (s\<lparr>fl_len := c\<rparr>) = mem_of s"
  "mem_of (s\<lparr>fl_pos := c\<rparr>) = mem_of s" "mem_of (s\<lparr>fl_data_read_loop := d\<rparr>) = mem_of s"
  "mem_of (s\<lparr>fl_needed_bytes := e\<rparr>) = mem_of s" "mem_of (s\<lparr>fl_cmd_in_progress := e\<rparr>) = mem_of s"
  "mem_of (s\<lparr>fl_cur_addr := c\<rparr>) = mem_of s" "mem_of (s\<lparr>fl_nonvolatile_cfg := c\<rparr>) = mem_of s"
  "mem_of (s\<lparr>fl_volatile_cfg := c\<rparr>) = mem_of s" "mem_of (s\<lparr>fl_enh_volatile_cfg := c\<rparr>) = mem_of s"
  "mem_of (s\<lparr>fl_spansion_cr1v := e\<rparr>) = mem_of s" "mem_of (s\<lparr>fl_spansion_cr2v := e\<rparr>) = mem_of s"
  "mem_of (s\<lparr>fl_spansion_cr3v := e\<rparr>) = mem_of s" "mem_of (s\<lparr>fl_spansion_cr4v := e\<rparr>) = mem_of s"
  "mem_of (s\<lparr>fl_write_enable := d\<rparr>) = mem_of s" "mem_of (s\<lparr>fl_four_bytes_address_mode := d\<rparr>) = mem_of s"
  "mem_of (s\<lparr>fl_reset_enable := d\<rparr>) = mem_of s" "mem_of (s\<lparr>fl_quad_enable := d\<rparr>) = mem_of s"
  "mem_of (s\<lparr>fl_ear := e\<rparr>) = mem_of s"
  by (simp_all add: mem_of_def)

lemma mem_of_cmds [simp]:
  "mem_of (start_cmd cmd s) = mem_of s" "mem_of (collect n s) = mem_of s" "mem_of (present1 b s) = mem_of s"
  "mem_of (decode_fast_read_cmd s) = mem_of s" "mem_of (decode_dio_read_cmd s) = mem_of s"
  "mem_of (decode_qio_read_cmd s) = mem_of s" "mem_of (jedec_read s) = mem_of s" "mem_of (decode_wrsr s) = mem_of s"
  "mem_of (reset_memory s) = mem_of s" "mem_of (write_status s) = mem_of s" "mem_of (read_id_sst s) = mem_of s"
  by (simp_all add: start_cmd_def collect_def present1_def decode_fast_read_cmd_def decode_dio_read_cmd_def
      decode_qio_read_cmd_def jedec_read_def decode_wrsr_def reset_memory_def write_status_def read_id_sst_def Let_def
      split: Manufacturer.split)

lemmas synced_upd [simp] = mem_of_upd [THEN synced_cong] mem_of_cmds [THEN synced_cong]

lemma file_write_nth:
  assumes "off + length bs \<le> length c"
  shows "length (file_write off bs c) = length c"
    and "x < length c \<Longrightarrow> file_write off bs c ! x = (if off \<le> x \<and> x < off + length bs then bs ! (x - off) else c ! x)"
  using assms by (auto simp: file_write_def nth_append)

lemma sync_area_synced:
  assumes "fl_blkio_file s = Contents c" and "length c = unat (fl_size s)" and "off + ln \<le> unat (fl_size s)"
  obtains c' where "flash_sync_area off ln s = s\<lparr>fl_blkio_file := Contents c'\<rparr>" and "length c' = length c"
    and "\<And>x. x < length c \<Longrightarrow> c' ! x = (if off \<le> x \<and> x < off + ln then fl_storage s x else c ! x)"
proof
  let ?c = "file_write off (map (fl_storage s) [off ..< off + ln]) c"
  show "flash_sync_area off ln s = s\<lparr>fl_blkio_file := Contents ?c\<rparr>"
    using assms(1) by (simp add: flash_sync_area_def)
  show "length ?c = length c" using assms by (intro file_write_nth) simp
  show "?c ! x = (if off \<le> x \<and> x < off + ln then fl_storage s x else c ! x)" if "x < length c" for x
    using file_write_nth(2) [of off "map (fl_storage s) [off ..< off + ln]" c x] assms that by auto
qed

lemma page_mem: "x div 256 = p \<longleftrightarrow> 256 * p \<le> x \<and> x < 256 * p + (256 :: nat)"
  by linarith

lemma synced_sync_dirty:
  assumes "flash_synced (s\<lparr>fl_storage := m\<rparr>)" and "256 * p < uint (fl_size s)"
    and "\<And>x. x < unat (fl_size s) \<Longrightarrow> int (x div 256) \<noteq> p \<Longrightarrow> fl_storage s x = m x"
  shows "flash_synced ((flash_sync_dirty p s)\<lparr>fl_dirty_page := p\<rparr>)"
proof -
  let ?q = "nat (fl_dirty_page s)"
  obtain c where c: "fl_blkio_file s = Contents c" "length c = unat (fl_size s)"
    "\<And>x. x < length c \<Longrightarrow> int (x div 256) \<noteq> fl_dirty_page s \<Longrightarrow> c ! x = m x"
    and pg: "pi_page_size (fl_pi s) = 256" "256 dvd unat (fl_size s)" "256 * fl_dirty_page s < uint (fl_size s)"
    using assms(1) by (auto simp: flash_synced_def)
  show ?thesis
  proof (cases "fl_dirty_page s \<ge> 0 \<and> fl_dirty_page s \<noteq> p")
    case False
    then have "c ! x = fl_storage s x" if "x < length c" "int (x div 256) \<noteq> p" for x
      using that c(2) c(3) [of x] assms(3) [of x] by (cases "fl_dirty_page s < 0") auto
    moreover have "flash_sync_dirty p s = s" using False by (auto simp: flash_sync_dirty_def)
    ultimately show ?thesis using c(1,2) pg assms(2) by (simp add: flash_synced_def)
  next
    case True
    moreover have "uint (fl_size s) = int (unat (fl_size s))" by simp
    ultimately have "256 * ?q < unat (fl_size s)" using pg(3) by linarith
    then have fit: "?q * 256 + 256 \<le> unat (fl_size s)" using pg(2) by (auto elim!: dvdE)
    obtain c' where c': "flash_sync_area (?q * 256) 256 s = s\<lparr>fl_blkio_file := Contents c'\<rparr>" "length c' = length c"
      "\<And>x. x < length c \<Longrightarrow> c' ! x = (if ?q * 256 \<le> x \<and> x < ?q * 256 + 256 then fl_storage s x else c ! x)"
      using sync_area_synced [OF c(1,2) fit] by blast
    have "c' ! x = fl_storage s x" if "x < length c" "int (x div 256) \<noteq> p" for x
      using that c(3) [of x] c'(3) [of x] assms(3) [of x] c(2) True page_mem [of x ?q] by (cases "x div 256 = ?q") (auto simp: mult.commute)
    then show ?thesis
      using True c(1,2) c' pg assms(2) by (simp add: flash_sync_dirty_def flash_sync_page_def flash_synced_def Let_def)
  qed
qed

lemma write8_synced:
  assumes "flash_synced s" and "flash_wf s"
  shows "\<exists>t. flash_write8 (fl_cur_addr s) d s = Inr ((), t) \<and> flash_synced t"
proof -
  let ?a = "unat (fl_cur_addr s)" and ?p = "uint (fl_cur_addr s div 256)"
  let ?s = "s\<lparr>fl_storage := (fl_storage s)(?a := if pi_flags (fl_pi s) AND EEPROM \<noteq> 0 then d else fl_storage s ?a AND d)\<rparr>"
  have a: "?a < unat (fl_size s)" using assms(2) by (simp add: flash_wf_def)
  have p: "?p = int (?a div 256)" by (simp add: uint_div_distrib zdiv_int)
  have "flash_synced ((flash_sync_dirty ?p ?s)\<lparr>fl_dirty_page := ?p\<rparr>)"
  proof (rule synced_sync_dirty [where m = "fl_storage s"])
    have "256 * int (?a div 256) < int (unat (fl_size s))" using a by linarith
    then show "256 * ?p < uint (fl_size ?s)" unfolding p by simp
  qed (use assms(1) in \<open>auto simp: p\<close>)
  then show ?thesis using a assms(1) by (simp add: flash_write8_def flash_synced_def [of s] Let_def)
qed


lemma erase_synced:
  assumes "flash_synced s" and "flash_erase off cmd s = Inr ((), t)"
  shows "flash_synced t"
proof (cases "erase_range off cmd s")
  case None
  then show ?thesis using assms by (simp add: flash_erase_def split: if_splits)
next
  case (Some r)
  obtain o' ln where r: "r = (o', ln)" by (cases r)
  show ?thesis
  proof (cases "fl_write_enable s \<and> unat o' + unat ln \<le> unat (fl_size s)")
    case False
    then show ?thesis
      using assms Some r by (auto simp: flash_erase_def memset_storage_def split: if_splits)
  next
    case True
    let ?s = "s\<lparr>fl_storage := (\<lambda>a. if unat o' \<le> a \<and> a < unat o' + unat ln then 0xff else fl_storage s a)\<rparr>"
    obtain c where c: "fl_blkio_file s = Contents c" "length c = unat (fl_size s)"
      "\<And>x. x < length c \<Longrightarrow> int (x div 256) \<noteq> fl_dirty_page s \<Longrightarrow> c ! x = fl_storage s x"
      using assms(1) by (auto simp: flash_synced_def)
    obtain c' where c': "flash_sync_area (unat o') (unat ln) ?s = ?s\<lparr>fl_blkio_file := Contents c'\<rparr>" "length c' = length c"
      "\<And>x. x < length c \<Longrightarrow> c' ! x = (if unat o' \<le> x \<and> x < unat o' + unat ln then fl_storage ?s x else c ! x)"
      using sync_area_synced [of ?s c "unat o'" "unat ln"] c(1,2) True by auto
    have "t = ?s\<lparr>fl_blkio_file := Contents c'\<rparr>"
      using assms(2) Some r True c'(1) by (simp add: flash_erase_def memset_storage_def)
    then show ?thesis using assms(1) c c' by (simp add: flash_synced_def)
  qed
qed

definition sync_ok :: "unit fres \<Rightarrow> bool" where
  "sync_ok r \<longleftrightarrow> (\<forall>t. r = Inr ((), t) \<longrightarrow> flash_synced t)"

lemma sync_ok_intros:
  "flash_synced t \<Longrightarrow> sync_ok (Inr ((), t))"
  "sync_ok x \<Longrightarrow> sync_ok y \<Longrightarrow> sync_ok (if b then x else y)"
  "flash_synced s \<Longrightarrow> sync_ok (flash_erase off cmd s)"
  using erase_synced by (auto simp: sync_ok_def)

lemma complete_synced:
  assumes "flash_synced s"
  shows "sync_ok (complete_collecting_data s)"
  unfolding complete_collecting_data_def Let_def
  by (intro sync_ok_intros) (simp_all add: assms)

lemma decode_new_cmd_synced:
  assumes "flash_synced s"
  shows "sync_ok (decode_new_cmd cmd s)"
  unfolding decode_new_cmd_def Let_def
  by (intro sync_ok_intros) (simp_all add: assms split: Manufacturer.split)

lemma transfer8_synced:
  assumes "flash_synced s" and "flash_wf s" and "m25p80_transfer8 tx s = Inr (r, t)"
  shows "flash_synced t"
proof (cases "fl_state s")
  case STATE_IDLE
  then show ?thesis using assms decode_new_cmd_synced [OF assms(1), of "ucast tx"]
    by (auto simp: m25p80_transfer8_def sync_ok_def bind_r_eq_Inr)
next
  case STATE_PAGE_PROGRAM
  then show ?thesis using assms write8_synced [OF assms(1,2), of "ucast tx"]
    by (auto simp: m25p80_transfer8_def)
next
  case STATE_READ
  then show ?thesis using assms by (auto simp: m25p80_transfer8_def split: if_splits)
next
  case STATE_READING_DATA
  then show ?thesis using assms by (auto simp: m25p80_transfer8_def Let_def split: if_splits)
qed (use assms complete_synced [of "take_byte (ucast tx) s"] in
      \<open>auto simp: m25p80_transfer8_def Let_def take_byte_def sync_ok_def bind_r_eq_Inr split: if_splits\<close>)

lemma flash_send_synced:
  "flash_synced s \<Longrightarrow> flash_wf s \<Longrightarrow> flash_send bs s = Inr (rs, t) \<Longrightarrow> flash_synced t \<and> flash_wf t"
proof (induction bs arbitrary: s rs)
  case (Cons b bs)
  then obtain r u rs' where u: "m25p80_transfer8 (ucast b) s = Inr (r, u)" "flash_send bs u = Inr (rs', t)"
    by (auto simp: bind_r_eq_Inr)
  moreover have "flash_wf u" using transfer8_cases [OF Cons.prems(2), of "ucast b"] u(1) by auto
  ultimately show ?case using Cons.IH [of u rs'] transfer8_synced [OF Cons.prems(1,2)] by blast
qed simp

lemma cs_synced:
  assumes "flash_synced s" and "m25p80_cs True s = Inr ((), t)"
  shows "flash_synced t \<and> fl_dirty_page t < 0"
proof -
  obtain u where u: "flash_synced u"
      "t = (flash_sync_dirty (- 1) (u\<lparr>fl_len := 0, fl_pos := 0, fl_state := STATE_IDLE\<rparr>))\<lparr>fl_data_read_loop := False\<rparr>"
    using assms complete_synced [OF assms(1)]
    by (auto simp: m25p80_cs_def bind_r_eq_Inr sync_ok_def split: if_splits)
  let ?v = "u\<lparr>fl_len := 0, fl_pos := 0, fl_state := STATE_IDLE\<rparr>"
  have neg: "- 256 < uint (fl_size u)" by (rule order.strict_trans2 [OF _ uint_ge_0]) simp
  have v: "flash_synced ?v" using u(1) by simp
  have "flash_synced ((flash_sync_dirty (- 1) ?v)\<lparr>fl_dirty_page := - 1\<rparr>)"
    by (rule synced_sync_dirty [where m = "fl_storage ?v"]) (use v neg in simp_all)
  then have "flash_synced (flash_sync_dirty (- 1) ?v) \<and> fl_dirty_page (flash_sync_dirty (- 1) ?v) < 0"
    using v by (cases "fl_dirty_page u < 0") (simp_all add: flash_sync_dirty_def)
  then show ?thesis unfolding u(2) by simp
qed


lemma sync_area_size [simp]: "fl_size (flash_sync_area off ln s) = fl_size s"
  by (simp add: flash_sync_area_def)

definition size_ok :: "u32 \<Rightarrow> unit fres \<Rightarrow> bool" where
  "size_ok n r \<longleftrightarrow> (\<forall>t. r = Inr ((), t) \<longrightarrow> fl_size t = n)"

lemma mem_of_size: "mem_of t = mem_of s \<Longrightarrow> fl_size t = fl_size s"
  by (simp add: mem_of_def)

lemmas cmd_size [simp] = mem_of_cmds [THEN mem_of_size]

lemma size_ok_intros:
  "fl_size t = n \<Longrightarrow> size_ok n (Inr ((), t))"
  "size_ok n x \<Longrightarrow> size_ok n y \<Longrightarrow> size_ok n (if b then x else y)"
  "fl_size s = n \<Longrightarrow> size_ok n (flash_erase off cmd s)"
  by (auto simp: size_ok_def flash_erase_def memset_storage_def split: option.splits if_splits)

lemma complete_size: "size_ok (fl_size s) (complete_collecting_data s)"
  unfolding complete_collecting_data_def Let_def by (intro size_ok_intros) simp_all

lemma decode_size: "size_ok (fl_size s) (decode_new_cmd cmd s)"
  unfolding decode_new_cmd_def Let_def by (intro size_ok_intros) (simp_all split: Manufacturer.split)

lemma transfer8_size: "m25p80_transfer8 tx s = Inr (r, t) \<Longrightarrow> fl_size t = fl_size s"
  using decode_size [of s "ucast tx"] complete_size [of "take_byte (ucast tx) s"]
  by (cases "fl_state s")
     (auto simp: m25p80_transfer8_def Let_def take_byte_def size_ok_def bind_r_eq_Inr flash_write8_def split: if_splits)

lemma flash_send_size: "flash_send bs s = Inr (rs, t) \<Longrightarrow> fl_size t = fl_size s"
  by (induction bs arbitrary: s rs) (fastforce simp: bind_r_eq_Inr dest: transfer8_size)+

lemma cs_size: "m25p80_cs b s = Inr ((), t) \<Longrightarrow> fl_size t = fl_size s"
  using complete_size [of s] by (auto simp: m25p80_cs_def bind_r_eq_Inr size_ok_def split: if_splits)

section \<open>Start\<close>

definition nemu_part :: "nat \<Rightarrow> FlashPartInfo" where
  "nemu_part n = (if n \<le> 2 ^ 29 then known_devices ! 0 else if n \<le> 2 ^ 30 then known_devices ! 1 else known_devices ! 2)"

lemma known_sizes: "list_all (\<lambda>p. part_size p \<le> 0x80000000) known_devices"
  by code_simp

lemma known_nemu:
  "find P known_devices =
     (if P (known_devices ! 0) then Some (known_devices ! 0) else if P (known_devices ! Suc 0) then Some (known_devices ! Suc 0)
      else if P (known_devices ! 2) then Some (known_devices ! 2) else find P (drop 3 known_devices))"
  "known_devices ! 0 = INFO ''nemu512M'' 0x20bb23 0 0x10000 8192 ER_4K"
  "known_devices ! Suc 0 = INFO ''nemu1G'' 0x20bb24 0 0x10000 16384 ER_4K"
  "known_devices ! 2 = INFO ''nemu2G'' 0x20bb25 0 0x10000 32768 ER_4K"
proof -
  obtain ps where k: "known_devices = INFO ''nemu512M'' 0x20bb23 0 0x10000 8192 ER_4K #
     INFO ''nemu1G'' 0x20bb24 0 0x10000 16384 ER_4K # INFO ''nemu2G'' 0x20bb25 0 0x10000 32768 ER_4K # ps"
    unfolding known_devices_def by blast
  show "find P known_devices =
     (if P (known_devices ! 0) then Some (known_devices ! 0) else if P (known_devices ! Suc 0) then Some (known_devices ! Suc 0)
      else if P (known_devices ! 2) then Some (known_devices ! 2) else find P (drop 3 known_devices))"
    "known_devices ! 0 = INFO ''nemu512M'' 0x20bb23 0 0x10000 8192 ER_4K"
    "known_devices ! Suc 0 = INFO ''nemu1G'' 0x20bb24 0 0x10000 16384 ER_4K"
    "known_devices ! 2 = INFO ''nemu2G'' 0x20bb25 0 0x10000 32768 ER_4K"
    by (simp_all add: k)
qed

lemma find_part:
  "n \<le> 2 ^ 31 \<Longrightarrow> find (\<lambda>p. n \<le> unat (part_size p)) known_devices = Some (nemu_part n)"
  "n > 2 ^ 31 \<Longrightarrow> find (\<lambda>p. n \<le> unat (part_size p)) known_devices = None"
proof -
  have "\<forall>p \<in> set known_devices. unat (part_size p) \<le> 2 ^ 31"
    using known_sizes by (simp add: list_all_iff word_le_nat_alt)
  then show "n > 2 ^ 31 \<Longrightarrow> find (\<lambda>p. n \<le> unat (part_size p)) known_devices = None"
    by (fastforce simp: find_None_iff)
  show "n \<le> 2 ^ 31 \<Longrightarrow> find (\<lambda>p. n \<le> unat (part_size p)) known_devices = Some (nemu_part n)"
    by (simp add: nemu_part_def part_size_def INFO_def INFO_STACKED_def known_nemu)
qed

lemma nemu_part_facts:
  "part_size (nemu_part n) = (if n \<le> 2 ^ 29 then 2 ^ 29 else if n \<le> 2 ^ 30 then 2 ^ 30 else 2 ^ 31)"
  "pi_page_size (nemu_part n) = 256" "pi_sector_size (nemu_part n) = 0x10000" "pi_flags (nemu_part n) = ER_4K"
  "length (pi_id (nemu_part n)) = 6" "pi_id_len (nemu_part n) = 3"
  by (simp_all add: nemu_part_def part_size_def INFO_def INFO_STACKED_def known_nemu)

text \<open>The chip right after \<^verbatim>\<open>flash_init\<close>, for a file with the given contents.\<close>

definition fresh_flash :: "blkio \<Rightarrow> u8 list \<Rightarrow> Flash" where
  "fresh_flash file c = zero_flash\<lparr>fl_blkio_file := file, fl_dirty_page := - 1, fl_pi := nemu_part (length c),
     fl_size := part_size (nemu_part (length c)), fl_storage := (\<lambda>a. if a < length c then c ! a else 0xFF)\<rparr>"

lemma flash_init_found:
  assumes "fl_blkio_file s \<noteq> Missing" and "c = (case fl_blkio_file s of Contents c \<Rightarrow> c | _ \<Rightarrow> [])" and "length c < 2 ^ 31"
  shows "flash_init s = Inr ((), s\<lparr>fl_dirty_page := - 1, fl_pi := nemu_part (length c),
     fl_size := part_size (nemu_part (length c)), fl_storage := (\<lambda>a. if a < length c then c ! a else 0xFF)\<rparr>)"
  using assms(1,3) find_part(1) [of "length c"] by (simp add: flash_init_def flip: assms(2))

lemma flash_init_fresh:
  "flash_init zero_flash = Inr ((), fresh_flash No_file [])"
  "length c < 2 ^ 31 \<Longrightarrow>
     flash_init (flash_set_blkio_file (Contents c) zero_flash) = Inr ((), fresh_flash (Contents c) c)"
  using flash_init_found [of zero_flash "[]"] flash_init_found [of "flash_set_blkio_file (Contents c) zero_flash" c]
  by (simp_all add: zero_flash_def fresh_flash_def flash_set_blkio_file_def)

lemma fresh_flash_ready: "ready3 (fresh_flash file c)"
  unfolding ready3_def flash_wf_def
  by (simp add: fresh_flash_def zero_flash_def nemu_part_facts)
     (auto intro: exI [of _ 29] exI [of _ 30] exI [of _ 31])

section \<open>Properties\<close>

text \<open>
  C25: no sequence of bytes breaks the flash memory. From a well-formed state, each byte the
  controller sends and each selection of the chip leads to a well-formed state (the data buffer and
  the array are accessed in range), with one exception: the last address byte of an erase command
  whose range runs past the end of the array, which the code does not check.
\<close>

theorem flash_transfer_safe:
  assumes "flash_wf s"
  shows "((\<exists>r t. m25p80_transfer8 tx s = Inr (r, t) \<and> flash_wf t) \<or>
      m25p80_transfer8 tx s \<in> {Inl (UndefinedBehaviour, t) | t. flash_wf t} \<and> erases_beyond_end (ucast tx) s) \<and>
    (\<exists>t. m25p80_cs select s = Inr ((), t) \<and> flash_wf t)"
  using transfer8_cases [OF assms, of tx] m25p80_cs_cases [OF assms, of select] by blast

text \<open>
  C24: programming and reading back. A page program command with a three-byte address and up to as
  many bytes as the array has, the end of the selection, and a read command at the same address
  return every byte as the conjunction of what the array held and what was sent, also when the
  addresses wrap around at the end of the array; and nothing else of the array has changed.
\<close>

theorem flash_program_then_read:
  assumes "ready3 s" and "length ds \<le> unat (fl_size s)" and "length xs = length ds"
  shows "\<exists>t u. bind_r (flash_send ([PP, b2, b1, b0] @ ds) s) (\<lambda>_. m25p80_cs True) = Inr ((), t) \<and>
     (let at = (\<lambda>k. (addr3 s b2 b1 b0 + k) mod unat (fl_size s))
      in flash_send ([READ, b2, b1, b0] @ xs) t =
           Inr ([0, 0, 0, 0] @ map (\<lambda>k. fl_storage s (at k) AND ds ! k) [0..<length ds], u) \<and>
         (\<forall>k < unat (fl_size s). length ds \<le> k \<longrightarrow> fl_storage t (at k) = fl_storage s (at k)))"
proof -
  obtain t where t: "bind_r (flash_send ([PP, b2, b1, b0] @ ds) s) (\<lambda>_. m25p80_cs True) = Inr ((), t)"
    "ready3 t" "same_mode s t"
    "fl_storage t = program_bytes (unat (fl_size s)) (addr3 s b2 b1 b0) ds (fl_storage s)"
    using page_program [OF assms(1)] by blast
  have a: "addr3 s b2 b1 b0 < unat (fl_size s)" "addr3 t b2 b1 b0 = addr3 s b2 b1 b0"
    using assms(1) t(3) by (auto simp: addr3_def ready3_def flash_wf_def same_mode_def)
  obtain u where "flash_send ([READ, b2, b1, b0] @ xs) t =
      Inr ([0, 0, 0, 0] @ map (\<lambda>k. fl_storage t ((addr3 s b2 b1 b0 + k) mod unat (fl_size s))) [0..<length ds], u)"
    using array_read [OF t(2), of b2 b1 b0 xs] a(2) t(3) assms(3) by (auto simp: same_mode_def)
  moreover have "map (\<lambda>k. fl_storage t ((addr3 s b2 b1 b0 + k) mod unat (fl_size s))) [0..<length ds] =
      map (\<lambda>k. fl_storage s ((addr3 s b2 b1 b0 + k) mod unat (fl_size s)) AND ds ! k) [0..<length ds]"
    using program_bytes_at [OF a(1) assms(2)] t(4) by simp
  ultimately show ?thesis using t program_bytes_other [OF a(1)] by (auto simp: Let_def)
qed



lemma fresh_flash_wf: "flash_wf (fresh_flash file c)"
  using fresh_flash_ready by (simp add: ready3_def)

lemma fresh_mod: "addr3 (fresh_flash No_file []) 0 1 0 = 256" "unat (fl_size (fresh_flash No_file [])) = 2 ^ 29"
  "fl_storage (fresh_flash No_file []) = (\<lambda>_. 0xFF)"
  by (simp_all add: addr3_def fresh_flash_def nemu_part_facts zero_flash_def le32_def)

theorem flash_transfer_safe_witness:
  "\<exists>r t. m25p80_transfer8 0x06 (fresh_flash No_file []) = Inr (r, t) \<and> flash_wf t"
proof -
  have "\<not> erases_beyond_end b (fresh_flash No_file [])" for b
    by (simp add: erases_beyond_end_def fresh_flash_def zero_flash_def)
  then show ?thesis using flash_transfer_safe [OF fresh_flash_wf, of "0x06" No_file "[]" False] by blast
qed

theorem flash_program_then_read_witness:
  "\<exists>t u. bind_r (flash_send [PP, 0, 1, 0, 0x5A, 0xC3] (fresh_flash No_file [])) (\<lambda>_. m25p80_cs True) = Inr ((), t) \<and>
     flash_send [READ, 0, 1, 0, 0, 0] t = Inr ([0, 0, 0, 0, 0x5A, 0xC3], u)"
  using flash_program_then_read [OF fresh_flash_ready, of "[0x5A, 0xC3]" No_file "[]" "[0, 0]" 0 1 0]
  by (simp add: fresh_mod Let_def upt_rec) blast

text \<open>
  Erasing. After a write enable command, a sector erase sets exactly the bytes from the address to
  the address plus the sector size to \<open>0xFF\<close>; the address is not rounded down to the start of the
  sector, and where the range leaves the array the behaviour is undefined. Without write enable the
  command changes no byte.
\<close>

theorem flash_erase_sector:
  assumes "ready3 s"
  shows "(\<exists>t. flash_send [WREN] s = Inr ([0], t) \<and>
       (let a = addr3 s b2 b1 b0; e = a + unat (pi_sector_size (fl_pi s))
        in if e \<le> unat (fl_size s)
           then (\<exists>u. flash_send [ERASE_SECTOR, b2, b1, b0] t = Inr ([0, 0, 0, 0], u) \<and>
                   fl_storage u = (\<lambda>x. if a \<le> x \<and> x < e then 0xFF else fl_storage s x))
           else (\<exists>u. flash_send [ERASE_SECTOR, b2, b1, b0] t = Inl (UndefinedBehaviour, u)))) \<and>
     (\<not> fl_write_enable s \<longrightarrow>
       (\<exists>u. flash_send [ERASE_SECTOR, b2, b1, b0] s = Inr ([0, 0, 0, 0], u) \<and> fl_storage u = fl_storage s))"
proof -
  obtain t where t: "flash_send [WREN] s = Inr ([0], t)" "ready3 t" "same_mode s t" "fl_storage t = fl_storage s"
    "fl_write_enable t"
    using wren [OF assms] by blast
  have m: "addr3 t b2 b1 b0 = addr3 s b2 b1 b0" "fl_pi t = fl_pi s" "fl_size t = fl_size s"
    using t(3) by (simp_all add: same_mode_def addr3_def)
  then show ?thesis
    using t(1,5) erase_sector [OF assms, of b2 b1 b0] erase_sector [OF t(2), of b2 b1 b0, unfolded m t(4)]
    by (auto simp: Let_def simp del: flash_send.simps)
qed

theorem flash_erase_sector_witness:
  "\<exists>t. flash_send [WREN] (fresh_flash No_file []) = Inr ([0], t) \<and>
     (\<exists>u. flash_send [ERASE_SECTOR, 0, 1, 0] t = Inr ([0, 0, 0, 0], u) \<and> fl_storage u 256 = 0xFF)"
  using flash_erase_sector [OF fresh_flash_ready, of No_file "[]" 0 1 0]
  by (simp add: fresh_mod Let_def del: flash_send.simps) (auto simp: fresh_flash_def nemu_part_facts fresh_mod)

text \<open>
  C27: the backing file carries the array over a restart. When the file is as large as the array and
  agrees with it, then after any bytes the chip was sent and the end of the selection, a new
  \<^verbatim>\<open>flash_init\<close> on the file finds a part of the same size and restores every byte.
\<close>

theorem flash_power_cycle:
  assumes "flash_wf s" and "flash_synced s" and "fl_size s \<in> {2 ^ 29, 2 ^ 30}"
    and "flash_send bs s = Inr (rs, t)"
  shows "\<exists>u v. m25p80_cs True t = Inr ((), u) \<and>
     flash_init (flash_set_blkio_file (fl_blkio_file u) zero_flash) = Inr ((), v) \<and> fl_size v = fl_size s \<and>
     (\<forall>x < unat (fl_size v). fl_storage v x = fl_storage u x)"
proof -
  have t: "flash_synced t" "flash_wf t" using flash_send_synced [OF assms(2,1,4)] by simp_all
  obtain u where u: "m25p80_cs True t = Inr ((), u)" using m25p80_cs_cases [OF t(2)] by blast
  then have "flash_synced u" "fl_dirty_page u < 0" using cs_synced [OF t(1)] by auto
  then obtain c where c: "fl_blkio_file u = Contents c" "length c = unat (fl_size u)"
    "\<And>x. x < length c \<Longrightarrow> c ! x = fl_storage u x"
    by (auto simp: flash_synced_def)
  have size: "fl_size u = fl_size s" using assms(4) u flash_send_size cs_size by metis
  then have "part_size (nemu_part (length c)) = fl_size s" "length c < 2 ^ 31"
    using assms(3) c(2) by (auto simp: nemu_part_facts)
  then show ?thesis
    using u c size flash_init_fresh(2) [of c] by (auto simp: fresh_flash_def)
qed


lemma fresh_synced:
  assumes "length c \<in> {2 ^ 29, 2 ^ 30}"
  shows "flash_synced (fresh_flash (Contents c) c)" "fl_size (fresh_flash (Contents c) c) \<in> {2 ^ 29, 2 ^ 30}"
  using assms by (auto simp: flash_synced_def fresh_flash_def nemu_part_facts)

theorem flash_power_cycle_witness:
  "\<exists>rs t u v. flash_send [PP, 0, 0, 3, 0x1F] (fresh_flash (Contents (replicate (2 ^ 29) 0x7F)) (replicate (2 ^ 29) 0x7F))
       = Inr (rs, t) \<and> m25p80_cs True t = Inr ((), u) \<and>
     flash_init (flash_set_blkio_file (fl_blkio_file u) zero_flash) = Inr ((), v) \<and> fl_storage v 3 = 0x1F"
proof -
  let ?c = "replicate (2 ^ 29) (0x7F :: u8)"
  let ?s = "fresh_flash (Contents ?c) ?c"
  have s: "flash_synced ?s" "fl_size ?s \<in> {2 ^ 29, 2 ^ 30}" using fresh_synced [of ?c] by simp_all
  obtain w where w: "bind_r (flash_send ([PP, 0, 0, 3] @ [0x1F]) ?s) (\<lambda>_. m25p80_cs True) = Inr ((), w)"
    "fl_storage w = program_bytes (unat (fl_size ?s)) (addr3 ?s 0 0 3) [0x1F] (fl_storage ?s)"
    using page_program [OF fresh_flash_ready] by blast
  have v: "unat (fl_size ?s) = 2 ^ 29" "addr3 ?s 0 0 3 = 3" "fl_storage ?s 3 = 0x7F"
    by (simp_all add: fresh_flash_def nemu_part_facts addr3_def zero_flash_def le32_def)
  then have "fl_storage w 3 = 0x1F" using w(2) by simp
  then show ?thesis
    using w(1) flash_power_cycle [OF fresh_flash_wf s] v(1)
    by (simp only: bind_r_eq_Inr append.simps) fastforce
qed

end
