(* ===== verification/Spi.thy ===== *)
theory Spi
  imports Cpu_Exception Flash_Correct
begin

text \<open>
  The SPI controller, \<^verbatim>\<open>src/dev/xlnx-spi.c\<close>: registers, a transmit and a receive queue on the
  ring buffer of \<^verbatim>\<open>fifo.h\<close>, interrupt line 5, and the flash memory as its only slave.
\<close>

section \<open>Registers\<close>

abbreviation (input) R_DGIER :: nat where "R_DGIER \<equiv> 7"
abbreviation (input) R_DGIER_IE :: u32 where "R_DGIER_IE \<equiv> 0x80000000"
abbreviation (input) R_IPISR :: nat where "R_IPISR \<equiv> 8"
abbreviation (input) IRQ_DRR_NOT_EMPTY :: u32 where "IRQ_DRR_NOT_EMPTY \<equiv> 0x100"
abbreviation (input) IRQ_DRR_OVERRUN :: u32 where "IRQ_DRR_OVERRUN \<equiv> 0x20"
abbreviation (input) IRQ_DRR_FULL :: u32 where "IRQ_DRR_FULL \<equiv> 0x10"
abbreviation (input) IRQ_DTR_EMPTY :: u32 where "IRQ_DTR_EMPTY \<equiv> 4"
abbreviation (input) XLNX_SPI_IRQ_NO :: int where "XLNX_SPI_IRQ_NO \<equiv> 5"
abbreviation (input) R_IPIER :: nat where "R_IPIER \<equiv> 10"
abbreviation (input) R_SRR :: nat where "R_SRR \<equiv> 16"
abbreviation (input) R_SPICR :: nat where "R_SPICR \<equiv> 24"
abbreviation (input) R_SPICR_TXFF_RST :: u32 where "R_SPICR_TXFF_RST \<equiv> 0x20"
abbreviation (input) R_SPICR_RXFF_RST :: u32 where "R_SPICR_RXFF_RST \<equiv> 0x40"
abbreviation (input) R_SPICR_MTI :: u32 where "R_SPICR_MTI \<equiv> 0x100"
abbreviation (input) R_SPISR :: nat where "R_SPISR \<equiv> 25"
abbreviation (input) SR_SLAVE_MODE_SELECT :: u32 where "SR_SLAVE_MODE_SELECT \<equiv> 0x20"
abbreviation (input) SR_TX_FULL :: u32 where "SR_TX_FULL \<equiv> 8"
abbreviation (input) SR_TX_EMPTY :: u32 where "SR_TX_EMPTY \<equiv> 4"
abbreviation (input) SR_RX_FULL :: u32 where "SR_RX_FULL \<equiv> 2"
abbreviation (input) SR_RX_EMPTY :: u32 where "SR_RX_EMPTY \<equiv> 1"
abbreviation (input) R_SPIDTR :: nat where "R_SPIDTR \<equiv> 26"
abbreviation (input) R_SPIDRR :: nat where "R_SPIDRR \<equiv> 27"
abbreviation (input) R_SPISSR :: nat where "R_SPISSR \<equiv> 28"
abbreviation (input) R_MAX :: nat where "R_MAX \<equiv> 31"
abbreviation (input) SPI_SIZE :: u32 where "SPI_SIZE \<equiv> 0x7C"

definition on_spi :: "(spi_t \<Rightarrow> spi_t) \<Rightarrow> nemu \<Rightarrow> nemu" where
  "on_spi f s = s\<lparr>spi := f (spi s)\<rparr>"

definition upd_reg :: "nat \<Rightarrow> (u32 \<Rightarrow> u32) \<Rightarrow> spi_t \<Rightarrow> spi_t" where
  "upd_reg r f p = p\<lparr>xlnx_spi_regs := (xlnx_spi_regs p)(r := f (xlnx_spi_regs p r))\<rparr>"

text \<open>An operation on the flash memory, and one on the controller, as operations of the emulator.\<close>

definition on_flash :: "(Flash \<Rightarrow> ('a, Flash) outcome) \<Rightarrow> spi_t \<Rightarrow> ('a, spi_t) outcome" where
  "on_flash f p = (case f (flash p) of Inl (e, m) \<Rightarrow> Inl (e, p\<lparr>flash := m\<rparr>) | Inr (x, m) \<Rightarrow> Inr (x, p\<lparr>flash := m\<rparr>))"

definition lift_spi :: "(spi_t \<Rightarrow> ('a, spi_t) outcome) \<Rightarrow> nemu \<Rightarrow> 'a res" where
  "lift_spi f s = (case f (spi s) of Inl (e, p) \<Rightarrow> Inl (e, s\<lparr>spi := p\<rparr>) | Inr (x, p) \<Rightarrow> Inr (x, s\<lparr>spi := p\<rparr>))"

section \<open>Operations\<close>

definition txfifo_reset :: "spi_t \<Rightarrow> spi_t" where
  "txfifo_reset p = upd_reg R_SPISR (\<lambda>w. (w AND NOT SR_TX_FULL) OR SR_TX_EMPTY)
     (p\<lparr>spi_tx_fifo := fifo_reset (spi_tx_fifo p)\<rparr>)"

definition rxfifo_reset :: "spi_t \<Rightarrow> spi_t" where
  "rxfifo_reset p = upd_reg R_SPISR (\<lambda>w. (w OR SR_RX_EMPTY) AND NOT SR_RX_FULL)
     (p\<lparr>spi_rx_fifo := fifo_reset (spi_rx_fifo p)\<rparr>)"

definition xlnx_spi_update_cs :: "spi_t \<Rightarrow> (unit, spi_t) outcome" where
  "xlnx_spi_update_cs = on_flash (m25p80_cs True)"

definition rx_status :: "spi_t \<Rightarrow> u32" where
  "rx_status p = (if \<not> fifo_is_empty (spi_rx_fifo p) then IRQ_DRR_NOT_EMPTY else 0)
     OR (if fifo_is_full (spi_rx_fifo p) then IRQ_DRR_FULL else 0)"

definition xlnx_spi_update_irq :: "nemu \<Rightarrow> bool res" where
  "xlnx_spi_update_irq s =
     bind_r (nemu_set_irq XLNX_SPI_IRQ_NO False s)
       (\<lambda>_ s. let s = on_spi (\<lambda>p. upd_reg R_IPISR (\<lambda>w. w OR rx_status p) p) s;
                  regs = xlnx_spi_regs (spi s);
                  pending = regs R_IPISR AND regs R_IPIER \<noteq> 0 \<and> regs R_DGIER AND R_DGIER_IE \<noteq> 0
              in bind_r (if pending then nemu_set_irq XLNX_SPI_IRQ_NO True s else Inr ((), s))
                   (\<lambda>_ s. Inr (pending, s)))"

definition xlnx_spi_do_reset :: "nemu \<Rightarrow> unit res" where
  "xlnx_spi_do_reset s =
     (let s = on_spi (\<lambda>p. p\<lparr>xlnx_spi_regs := (\<lambda>r. if r < R_MAX then 0 else xlnx_spi_regs p r)\<rparr>) s;
          s = on_spi (\<lambda>p. txfifo_reset (rxfifo_reset p)) s;
          s = on_spi (\<lambda>p. upd_reg R_SPISSR (\<lambda>_. NOT 0)
                (upd_reg R_SPISR (\<lambda>w. w OR SR_SLAVE_MODE_SELECT) (upd_reg R_SPICR (\<lambda>w. w OR 0x180) p))) s
      in bind_r (xlnx_spi_update_irq s) (\<lambda>_. lift_spi xlnx_spi_update_cs))"

definition spi_master_enabled :: "spi_t \<Rightarrow> bool" where
  "spi_master_enabled p \<longleftrightarrow> xlnx_spi_regs p R_SPICR AND R_SPICR_MTI = 0"

text \<open>One round of the loop, and the loop: it ends because each round takes a byte from the queue.\<close>

definition spi_flush_byte :: "spi_t \<Rightarrow> (unit, spi_t) outcome" where
  "spi_flush_byte p =
     (let (tx, q) = fifo_pop (spi_tx_fifo p); p = p\<lparr>spi_tx_fifo := q\<rparr>
      in bind_r (if xlnx_spi_regs p R_SPISSR AND 1 = 0 then on_flash (m25p80_transfer8 (ucast tx)) p else Inr (0, p))
           (\<lambda>rx p.
              let p = (if fifo_is_full (spi_rx_fifo p) then upd_reg R_IPISR (\<lambda>w. w OR IRQ_DRR_OVERRUN) p
                       else let p = p\<lparr>spi_rx_fifo := fifo_push (ucast rx) (spi_rx_fifo p)\<rparr>
                            in if fifo_is_full (spi_rx_fifo p)
                               then upd_reg R_IPISR (\<lambda>w. w OR IRQ_DRR_FULL) (upd_reg R_SPISR (\<lambda>w. w OR SR_RX_FULL) p)
                               else p);
                  p = upd_reg R_SPISR (\<lambda>w. ((w AND NOT SR_RX_EMPTY) AND NOT SR_TX_FULL) OR SR_TX_EMPTY) p
              in Inr ((), upd_reg R_IPISR (\<lambda>w. (w OR IRQ_DTR_EMPTY) OR IRQ_DRR_NOT_EMPTY) p)))"

lemma upd_reg_frame [simp]:
  "spi_tx_fifo (upd_reg r f p) = spi_tx_fifo p" "spi_rx_fifo (upd_reg r f p) = spi_rx_fifo p"
  "flash (upd_reg r f p) = flash p" "xlnx_spi_regs (upd_reg r f p) = (xlnx_spi_regs p)(r := f (xlnx_spi_regs p r))"
  by (simp_all add: upd_reg_def)

lemma on_flash_Inr: "on_flash f p = Inr (x, p') \<Longrightarrow> \<exists>m. p' = p\<lparr>flash := m\<rparr>"
  by (auto simp: on_flash_def split: sum.splits)

lemma spi_flush_byte_tx:
  "spi_flush_byte p = Inr (u, p') \<Longrightarrow> spi_tx_fifo p' = snd (fifo_pop (spi_tx_fifo p))"
  by (auto simp: spi_flush_byte_def Let_def case_prod_unfold bind_r_eq_Inr dest!: on_flash_Inr split: if_splits)

function spi_flush_txfifo :: "spi_t \<Rightarrow> (unit, spi_t) outcome" where
  "spi_flush_txfifo p =
     (if fifo_is_empty (spi_tx_fifo p) then Inr ((), p)
      else case spi_flush_byte p of Inl e \<Rightarrow> Inl e | Inr (_, p') \<Rightarrow> spi_flush_txfifo p')"
  by pat_completeness auto

termination
proof (relation "measure (\<lambda>p. unat (fsize (spi_tx_fifo p)))")
  fix p :: spi_t and r u p'
  assume "\<not> fifo_is_empty (spi_tx_fifo p)" and "spi_flush_byte p = Inr r" and "(u, p') = r"
  then show "(p', p) \<in> measure (\<lambda>p. unat (fsize (spi_tx_fifo p)))"
    using spi_flush_byte_tx [of p u p'] unat_pred [of "fsize (spi_tx_fifo p)"]
    by (auto simp: fifo_is_empty_def fifo_pop_def Let_def word_neq_0_conv unat_gt_0)
qed simp

declare spi_flush_txfifo.simps [simp del]

definition spi_read_drr :: "spi_t \<Rightarrow> u32 \<times> spi_t" where
  "spi_read_drr p =
     (let p = upd_reg R_SPISR (\<lambda>w. w AND NOT SR_RX_FULL) p;
          (b, q) = fifo_pop (spi_rx_fifo p);
          p = p\<lparr>spi_rx_fifo := q\<rparr>
      in (ucast b, if fifo_is_empty (spi_rx_fifo p) then upd_reg R_SPISR (\<lambda>w. w OR SR_RX_EMPTY) p else p))"

definition xlnx_spi_read :: "u32 \<Rightarrow> nat \<Rightarrow> nemu \<Rightarrow> u32 res" where
  "xlnx_spi_read addr len s =
     (let r = unat (drop_bit 2 addr)
      in if r = R_SPIDRR \<and> fifo_is_empty (spi_rx_fifo (spi s)) then Inr (0xdeadbeef, s)
         else let (v, p) = (if r = R_SPIDRR then spi_read_drr (spi s)
                            else (if r < R_MAX then xlnx_spi_regs (spi s) r else 0, spi s))
              in bind_r (xlnx_spi_update_irq (s\<lparr>spi := p\<rparr>)) (\<lambda>_ s. Inr (v, s)))"

definition spi_write_dtr :: "u32 \<Rightarrow> spi_t \<Rightarrow> (unit, spi_t) outcome" where
  "spi_write_dtr data p =
     (let p = upd_reg R_SPISR (\<lambda>w. w AND NOT SR_TX_EMPTY) p;
          p = p\<lparr>spi_tx_fifo := fifo_push (ucast data) (spi_tx_fifo p)\<rparr>;
          p = (if fifo_is_full (spi_tx_fifo p) then upd_reg R_SPISR (\<lambda>w. w OR SR_TX_FULL) p else p)
      in if spi_master_enabled p then spi_flush_txfifo p else Inr ((), p))"

definition spi_write_cr :: "u32 \<Rightarrow> spi_t \<Rightarrow> (unit, spi_t) outcome" where
  "spi_write_cr data p =
     (let p = (if data AND R_SPICR_RXFF_RST \<noteq> 0 then rxfifo_reset p else p);
          p = (if data AND R_SPICR_TXFF_RST \<noteq> 0 then txfifo_reset p else p);
          data = data AND NOT (R_SPICR_RXFF_RST OR R_SPICR_TXFF_RST);
          p = upd_reg R_SPICR (\<lambda>_. data) p
      in if data AND R_SPICR_MTI = 0 then spi_flush_txfifo p else Inr ((), p))"

definition xlnx_spi_write :: "u32 \<Rightarrow> nat \<Rightarrow> u32 \<Rightarrow> nemu \<Rightarrow> unit res" where
  "xlnx_spi_write addr len data s =
     (let r = unat (drop_bit 2 addr)
      in bind_r
           (if r = R_SRR then (if data = 0xa then xlnx_spi_do_reset s else Inr ((), s))
            else if r = R_SPIDTR then lift_spi (spi_write_dtr data) s
            else if r = R_SPISR then Inr ((), s)
            else if r = R_IPISR then Inr ((), on_spi (upd_reg r (\<lambda>w. w XOR data)) s)
            else if r = R_SPISSR then lift_spi (\<lambda>p. xlnx_spi_update_cs (upd_reg r (\<lambda>_. data) p)) s
            else if r = R_SPICR then lift_spi (spi_write_cr data) s
            else if r < R_MAX then Inr ((), on_spi (upd_reg r (\<lambda>_. data)) s)
            else Inr ((), s))
           (\<lambda>_ s. bind_r (xlnx_spi_update_irq s) (\<lambda>_ s. Inr ((), s))))"

definition xlnx_spi_init :: "nemu \<Rightarrow> unit res" where
  "xlnx_spi_init s = bind_r (lift_spi (on_flash flash_init) s) (\<lambda>_. xlnx_spi_do_reset)"

definition xlnx_spi_set_blkio_file :: "blkio \<Rightarrow> nemu \<Rightarrow> nemu" where
  "xlnx_spi_set_blkio_file file = on_spi (\<lambda>p. p\<lparr>flash := flash_set_blkio_file file (flash p)\<rparr>)"

section \<open>Invariant\<close>

definition spi_wf :: "spi_t \<Rightarrow> bool" where
  "spi_wf p \<longleftrightarrow> fifo_wf (spi_tx_fifo p) \<and> fifo_capacity (spi_tx_fifo p) = 1024 \<and>
     fifo_wf (spi_rx_fifo p) \<and> fifo_capacity (spi_rx_fifo p) = 1024 \<and> flash_wf (flash p)"

lemma spi_wf_upd_reg [simp]: "spi_wf (upd_reg r f p) = spi_wf p"
  by (simp add: spi_wf_def)

lemma spi_wf_regs [simp]: "spi_wf (p\<lparr>xlnx_spi_regs := g\<rparr>) = spi_wf p"
  by (simp add: spi_wf_def)

lemma fifo_reset_capacity [simp]: "fifo_capacity (fifo_reset q) = fifo_capacity q"
  by (simp add: fifo_reset_def fifo_capacity_def)

lemma spi_wf_resets [simp]: "spi_wf p \<Longrightarrow> spi_wf (txfifo_reset p)" "spi_wf p \<Longrightarrow> spi_wf (rxfifo_reset p)"
  by (simp_all add: txfifo_reset_def rxfifo_reset_def) (simp_all add: spi_wf_def ring.wf_reset)

lemma spi_wf_fifos:
  "spi_wf p \<Longrightarrow> spi_wf (p\<lparr>spi_tx_fifo := snd (fifo_pop (spi_tx_fifo p))\<rparr>)"
  "spi_wf p \<Longrightarrow> spi_wf (p\<lparr>spi_tx_fifo := fifo_push b (spi_tx_fifo p)\<rparr>)"
  "spi_wf p \<Longrightarrow> spi_wf (p\<lparr>spi_rx_fifo := snd (fifo_pop (spi_rx_fifo p))\<rparr>)"
  "spi_wf p \<Longrightarrow> spi_wf (p\<lparr>spi_rx_fifo := fifo_push b (spi_rx_fifo p)\<rparr>)"
  by (simp_all add: spi_wf_def ring.wf_push ring.wf_pop ring.capacity_push ring.capacity_pop)

lemma spi_wf_push_tx [simp]:
  "spi_wf p \<Longrightarrow> spi_wf ((upd_reg r f p)\<lparr>spi_tx_fifo := fifo_push b (spi_tx_fifo p)\<rparr>)"
  "spi_wf p \<Longrightarrow> spi_wf ((upd_reg r f p)\<lparr>spi_rx_fifo := snd (fifo_pop (spi_rx_fifo p))\<rparr>)"
  using spi_wf_fifos(2,3) [of "upd_reg r f p"] by simp_all

lemma spi_read_drr_wf: "spi_wf p \<Longrightarrow> spi_wf (snd (spi_read_drr p))"
  by (simp add: spi_read_drr_def Let_def case_prod_unfold)

lemma keeps_on_flash:
  assumes "spi_wf p" and "flash_wf (flash p) \<Longrightarrow> keeps flash_wf (f (flash p))"
  shows "keeps spi_wf (on_flash f p)"
proof -
  have "keeps flash_wf (f (flash p))" using assms by (simp add: spi_wf_def)
  then show ?thesis using assms(1) by (auto simp: on_flash_def keeps_def spi_wf_def split: sum.splits)
qed

lemma transfer8_keeps: "flash_wf m \<Longrightarrow> keeps flash_wf (m25p80_transfer8 tx m)"
  using transfer8_cases [of m tx] by (auto simp: keeps_def)

lemma cs_keeps: "flash_wf m \<Longrightarrow> keeps flash_wf (m25p80_cs b m)"
  using m25p80_cs_cases [of m b] by (auto simp: keeps_def)

lemma update_cs_keeps: "spi_wf p \<Longrightarrow> keeps spi_wf (xlnx_spi_update_cs p)"
  unfolding xlnx_spi_update_cs_def by (intro keeps_on_flash cs_keeps)

lemma flush_byte_keeps:
  assumes "spi_wf p"
  shows "keeps spi_wf (spi_flush_byte p)"
proof -
  let ?p = "p\<lparr>spi_tx_fifo := snd (fifo_pop (spi_tx_fifo p))\<rparr>"
  have "keeps spi_wf (if xlnx_spi_regs ?p R_SPISSR AND 1 = 0
      then on_flash (m25p80_transfer8 (ucast (fst (fifo_pop (spi_tx_fifo p))))) ?p else Inr (0, ?p))"
    using spi_wf_fifos(1) [OF assms] by (auto intro!: keeps_on_flash transfer8_keeps)
  then show ?thesis
    unfolding spi_flush_byte_def Let_def case_prod_unfold
    by (rule keeps_bind) (simp_all add: spi_wf_fifos)
qed

lemma flush_txfifo_keeps: "spi_wf p \<Longrightarrow> keeps spi_wf (spi_flush_txfifo p)"
proof (induction p rule: spi_flush_txfifo.induct)
  case (1 p)
  show ?case
  proof (cases "spi_flush_byte p")
    case (Inl e)
    then show ?thesis
      using flush_byte_keeps [OF "1.prems"] "1.prems" by (cases e) (simp add: spi_flush_txfifo.simps)
  next
    case (Inr r)
    obtain u p' where r: "r = (u, p')" by (cases r)
    then have "spi_wf p'" using flush_byte_keeps [OF "1.prems"] Inr by simp
    then show ?thesis
      using "1.IH" [OF _ Inr r [symmetric]] "1.prems" Inr r by (subst spi_flush_txfifo.simps) simp
  qed
qed

lemma spi_write_keeps:
  assumes "spi_wf p"
  shows "keeps spi_wf (spi_write_dtr d p)" "keeps spi_wf (spi_write_cr d p)"
  using assms by (simp_all add: spi_write_dtr_def spi_write_cr_def Let_def flush_txfifo_keeps)

section \<open>Draining the transmit queue\<close>

text \<open>What a round does to the queues and the flash memory, when the chip is selected.\<close>

lemma on_flash_simps [simp]:
  "f (flash p) = Inr (x, m) \<Longrightarrow> on_flash f p = Inr (x, p\<lparr>flash := m\<rparr>)"
  "f (flash p) = Inl (e, m) \<Longrightarrow> on_flash f p = Inl (e, p\<lparr>flash := m\<rparr>)"
  by (simp_all add: on_flash_def)

abbreviation selected :: "spi_t \<Rightarrow> bool" where
  "selected p \<equiv> xlnx_spi_regs p R_SPISSR AND 1 = 0"

lemma flush_byte_sends:
  assumes "spi_wf p" and "fifo_list (spi_tx_fifo p) = b # bs" and "selected p"
    and "m25p80_transfer8 (ucast b) (flash p) = Inr (r, m)"
  shows "\<exists>p'. spi_flush_byte p = Inr ((), p') \<and> flash p' = m \<and> fifo_list (spi_tx_fifo p') = bs \<and> selected p' \<and>
     fifo_list (spi_rx_fifo p') = take 1024 (fifo_list (spi_rx_fifo p) @ [ucast r])"
proof -
  let ?q = "spi_rx_fifo p"
  have b: "fst (fifo_pop (spi_tx_fifo p)) = b" "fifo_list (snd (fifo_pop (spi_tx_fifo p))) = bs"
    using assms(1,2) by (simp_all add: spi_wf_def ring.value_pop ring.contents_pop)
  have q: "fifo_wf ?q" "fifo_capacity ?q = 1024" "length (fifo_list ?q) \<le> 1024"
    using assms(1) ring.contents_bound [of ?q] by (simp_all add: spi_wf_def)
  have full: "fifo_is_full ?q \<longleftrightarrow> length (fifo_list ?q) = 1024" using q by (simp add: ring.full_iff)
  have push: "fifo_list (fifo_push (ucast r) ?q) = take 1024 (fifo_list ?q @ [ucast r])"
    using ring.contents_push [OF q(1), of "ucast r"] q(2,3) by auto
  show ?thesis
    using assms(3,4) b full push q(3)
    by (simp add: spi_flush_byte_def Let_def case_prod_unfold del: length_fifo_list)
qed

lemma flush_byte_fails:
  assumes "spi_wf p" and "fifo_list (spi_tx_fifo p) = b # bs" and "selected p"
    and "m25p80_transfer8 (ucast b) (flash p) = Inl (e, m)"
  shows "\<exists>p'. spi_flush_byte p = Inl (e, p') \<and> flash p' = m"
proof -
  have "fst (fifo_pop (spi_tx_fifo p)) = b" using assms(1,2) by (simp add: spi_wf_def ring.value_pop)
  then show ?thesis using assms(3,4) by (simp add: spi_flush_byte_def Let_def case_prod_unfold)
qed

lemma take_take_append: "take n (take n xs @ ys) = take n (xs @ ys)"
  by (simp add: min_def)

lemma flush_sends:
  assumes "spi_wf p" and "fifo_list (spi_tx_fifo p) = bs" and "selected p"
  shows "case flash_send bs (flash p) of
       Inr (rs, m) \<Rightarrow> \<exists>p'. spi_flush_txfifo p = Inr ((), p') \<and> flash p' = m \<and> fifo_list (spi_tx_fifo p') = [] \<and>
         fifo_list (spi_rx_fifo p') = take 1024 (fifo_list (spi_rx_fifo p) @ rs)
     | Inl (e, m) \<Rightarrow> \<exists>p'. spi_flush_txfifo p = Inl (e, p') \<and> flash p' = m"
  using assms
proof (induction bs arbitrary: p)
  case Nil
  then have "fifo_is_empty (spi_tx_fifo p)" "length (fifo_list (spi_rx_fifo p)) \<le> 1024"
    using ring.contents_bound [of "spi_rx_fifo p"] by (simp_all add: spi_wf_def ring.empty_iff del: length_fifo_list)
  then show ?case using Nil by (simp add: spi_flush_txfifo.simps del: length_fifo_list)
next
  case (Cons b bs)
  have ne: "\<not> fifo_is_empty (spi_tx_fifo p)" using Cons.prems by (simp add: spi_wf_def ring.empty_iff)
  show ?case
  proof (cases "m25p80_transfer8 (ucast b) (flash p)")
    case (Inl e)
    then show ?thesis
      using flush_byte_fails [OF Cons.prems, of "fst e" "snd e"] ne by (cases e) (auto simp: spi_flush_txfifo.simps)
  next
    case (Inr rm)
    obtain r m where rm: "rm = (r, m)" by (cases rm)
    obtain p' where p': "spi_flush_byte p = Inr ((), p')" "flash p' = m" "fifo_list (spi_tx_fifo p') = bs" "selected p'"
      "fifo_list (spi_rx_fifo p') = take 1024 (fifo_list (spi_rx_fifo p) @ [ucast r])"
      using flush_byte_sends [OF Cons.prems, of r m] Inr rm by blast
    have "spi_wf p'" using flush_byte_keeps [OF Cons.prems(1)] p'(1) by simp
    moreover have "spi_flush_txfifo p = spi_flush_txfifo p'" using ne p'(1) by (subst spi_flush_txfifo.simps) simp
    ultimately show ?thesis
      using Cons.IH [of p'] p' Inr rm
      by (cases "flash_send bs m") (auto simp: take_take_append simp del: take_append)
  qed
qed


section \<open>Start\<close>

definition file_bytes :: "blkio \<Rightarrow> u8 list" where
  "file_bytes file = (case file of Contents c \<Rightarrow> c | _ \<Rightarrow> [])"

text \<open>The controller as C initialises it, with a file that exists and is not too large.\<close>

definition spi_loadable :: "spi_t \<Rightarrow> bool" where
  "spi_loadable p \<longleftrightarrow> (\<exists>file. p = zero_spi\<lparr>flash := zero_flash\<lparr>fl_blkio_file := file\<rparr>\<rparr> \<and>
     file \<noteq> Missing \<and> length (file_bytes file) < 2 ^ 31)"

definition spi_started :: "blkio \<Rightarrow> spi_t" where
  "spi_started file = zero_spi\<lparr>flash := fresh_flash file (file_bytes file),
     xlnx_spi_regs := (\<lambda>_. 0)(R_SPICR := 0x180, R_SPISR := 0x25, R_SPISSR := 0xFFFFFFFF)\<rparr>"

definition spi_irq_off :: "CPU_state \<Rightarrow> CPU_state" where
  "spi_irq_off c = cp0_set cause_IP (cp0_get cause_IP c AND NOT (push_bit 5 1)) c"

definition spi_up :: "nemu \<Rightarrow> nemu" where
  "spi_up s = on_cpu spi_irq_off (s\<lparr>spi := spi_started (fl_blkio_file (flash (spi s)))\<rparr>)"

lemma spi_started_wf: "spi_wf (spi_started file)"
  by (simp add: spi_wf_def spi_started_def zero_spi_def fresh_flash_wf fifo_wf_def fifo_capacity_def)

lemma set_irq_off: "nemu_set_irq XLNX_SPI_IRQ_NO False s = Inr ((), on_cpu spi_irq_off s)"
  by (simp add: nemu_set_irq_def Let_def) (simp add: on_cpu_def spi_irq_off_def)

lemma on_spi_frame [simp]: "spi (on_spi f s) = f (spi s)" "on_spi f (on_cpu g s) = on_cpu g (on_spi f s)"
  by (simp_all add: on_spi_def on_cpu_def)

lemma fresh_cs: "m25p80_cs True (fresh_flash file c) = Inr ((), fresh_flash file c)"
  by (simp add: m25p80_cs_def fresh_flash_def zero_flash_def flash_sync_dirty_def)

lemma started_regs [simp]:
  "xlnx_spi_regs (spi_started file) = (\<lambda>_. 0)(R_SPICR := 0x180, R_SPISR := 0x25, R_SPISSR := 0xFFFFFFFF)"
  "flash (spi_started file) = fresh_flash file (file_bytes file)"
  by (simp_all add: spi_started_def)

lemma started_irq: "xlnx_spi_update_irq (s\<lparr>spi := spi_started file\<rparr>) = Inr (False, on_cpu spi_irq_off (s\<lparr>spi := spi_started file\<rparr>))"
proof -
  have "rx_status (spi_started file) = 0"
    by (simp add: rx_status_def spi_started_def zero_spi_def fifo_is_empty_def fifo_is_full_def fifo_capacity_def)
  then have "upd_reg R_IPISR (\<lambda>w. w OR rx_status (spi_started file)) (spi_started file) = spi_started file"
    by (simp add: upd_reg_def fun_upd_idem)
  then show ?thesis unfolding xlnx_spi_update_irq_def set_irq_off by (simp add: on_spi_def on_cpu_def)
qed

lemma do_reset_started:
  assumes "spi s = zero_spi\<lparr>flash := fresh_flash file (file_bytes file)\<rparr>"
  shows "xlnx_spi_do_reset s = Inr ((), on_cpu spi_irq_off (s\<lparr>spi := spi_started file\<rparr>))"
proof -
  let ?reset = "\<lambda>p. upd_reg R_SPISSR (\<lambda>_. NOT 0)
     (upd_reg R_SPISR (\<lambda>w. w OR SR_SLAVE_MODE_SELECT) (upd_reg R_SPICR (\<lambda>w. w OR 0x180)
       (txfifo_reset (rxfifo_reset (p\<lparr>xlnx_spi_regs := (\<lambda>r. if r < R_MAX then 0 else xlnx_spi_regs p r)\<rparr>)))))"
  have "?reset (spi s) = spi_started file"
    by (simp add: assms txfifo_reset_def rxfifo_reset_def upd_reg_def spi_started_def zero_spi_def fifo_reset_def fun_eq_iff)
  then have "xlnx_spi_do_reset s = bind_r (xlnx_spi_update_irq (s\<lparr>spi := spi_started file\<rparr>)) (\<lambda>_. lift_spi xlnx_spi_update_cs)"
    by (simp add: xlnx_spi_do_reset_def Let_def) (simp add: on_spi_def)
  moreover have "lift_spi xlnx_spi_update_cs (on_cpu spi_irq_off (s\<lparr>spi := spi_started file\<rparr>)) =
      Inr ((), on_cpu spi_irq_off (s\<lparr>spi := spi_started file\<rparr>))"
    by (simp add: lift_spi_def xlnx_spi_update_cs_def fresh_cs on_cpu_def)
  ultimately show ?thesis by (simp add: started_irq)
qed

lemma xlnx_spi_init_up:
  assumes "spi_loadable (spi s)"
  shows "xlnx_spi_init s = Inr ((), spi_up s)"
proof -
  obtain f where p: "spi s = zero_spi\<lparr>flash := zero_flash\<lparr>fl_blkio_file := f\<rparr>\<rparr>" and
    ok: "f \<noteq> Missing" "length (file_bytes f) < 2 ^ 31"
    using assms by (auto simp: spi_loadable_def)
  have "flash_init (zero_flash\<lparr>fl_blkio_file := f\<rparr>) = Inr ((), fresh_flash f (file_bytes f))"
    using flash_init_found [of "zero_flash\<lparr>fl_blkio_file := f\<rparr>" "file_bytes f"] ok
    by (simp add: fresh_flash_def zero_flash_def flip: file_bytes_def)
  then show ?thesis
    using do_reset_started [of "s\<lparr>spi := zero_spi\<lparr>flash := fresh_flash f (file_bytes f)\<rparr>\<rparr>" f] p
    by (simp add: xlnx_spi_init_def lift_spi_def spi_up_def)
qed

lemma globals_loadable: "spi_loadable zero_spi"
  by (auto simp: spi_loadable_def zero_spi_def zero_flash_def file_bytes_def intro!: exI [of _ No_file])

section \<open>Properties\<close>

text \<open>
  C26: the controller is a faithful channel to the flash memory. Draining the transmit queue with the
  chip selected always ends: the bytes of the queue reach the flash memory in order, exactly once,
  the queue is then empty, and the answers are appended to the receive queue in order, as many as fit
  into its 1024 entries. A failure of the flash memory is the only way to fail.
\<close>

theorem spi_flush_refines:
  assumes "spi_wf p" and "xlnx_spi_regs p R_SPISSR AND 1 = 0"
  shows "case flash_send (fifo_list (spi_tx_fifo p)) (flash p) of
       Inr (rs, m) \<Rightarrow> \<exists>p'. spi_flush_txfifo p = Inr ((), p') \<and> flash p' = m \<and> fifo_list (spi_tx_fifo p') = [] \<and>
         fifo_list (spi_rx_fifo p') = take 1024 (fifo_list (spi_rx_fifo p) @ rs)
     | Inl (e, m) \<Rightarrow> \<exists>p'. spi_flush_txfifo p = Inl (e, p') \<and> flash p' = m"
  using flush_sends [OF assms(1) refl assms(2)] .

theorem spi_flush_refines_witness:
  "\<exists>p'. spi_flush_txfifo ((spi_started No_file)\<lparr>xlnx_spi_regs := (\<lambda>_. 0),
       spi_tx_fifo := fifo_push READ (spi_tx_fifo zero_spi)\<rparr>) = Inr ((), p') \<and> fifo_list (spi_rx_fifo p') = [0]"
proof -
  let ?p = "(spi_started No_file)\<lparr>xlnx_spi_regs := (\<lambda>_. 0), spi_tx_fifo := fifo_push READ (spi_tx_fifo zero_spi)\<rparr>"
  have z: "fifo_wf (spi_tx_fifo zero_spi)" "fifo_list (spi_tx_fifo zero_spi) = []" "fifo_capacity (spi_tx_fifo zero_spi) = 1024"
    "fifo_list (spi_rx_fifo ?p) = []"
    by (simp_all add: zero_spi_def fifo_wf_def fifo_capacity_def fifo_list_def spi_started_def)
  have "spi_wf ?p" using spi_started_wf [of No_file] z by (simp add: spi_wf_def ring.wf_push ring.capacity_push)
  moreover have "fifo_list (spi_tx_fifo ?p) = [READ]" using ring.contents_push [OF z(1), of READ] z(2,3) by simp
  moreover have "\<exists>m. flash_send [READ] (fresh_flash No_file []) = Inr ([0], m)"
    by (simp add: m25p80_transfer8_def fresh_flash_def zero_flash_def decode_new_cmd_def Let_def)
  ultimately show ?thesis
    using spi_flush_refines [of ?p] z(4) by (auto simp: file_bytes_def simp del: flash_send.simps)
qed

end
