(* ===== verification/Tlb.thy ===== *)
theory Tlb
  imports Cpu_Exception
begin

text \<open>
  The memory management unit of \<^verbatim>\<open>src/cpu/mmu.c\<close>: probing, reading and writing TLB
  entries, and the translation of a mapped address with its three exceptions.
\<close>

section \<open>Operations\<close>

text \<open>The conditions of the loops of \<^verbatim>\<open>tlb_present\<close> and \<^verbatim>\<open>page_translate\<close>.\<close>

definition pagemask_ok :: "tlb_entry_t \<Rightarrow> bool" where
  "pagemask_ok t = (let mask = ucast (te_pagemask t) :: u32 in mask = 0 \<or> (mask OR (mask + 1)) = 0)"

definition tlb_match :: "u32 \<Rightarrow> u32 \<Rightarrow> tlb_entry_t \<Rightarrow> bool" where
  "tlb_match vpn asid t =
     (let mask = ucast (te_pagemask t) :: u32
      in (ucast (te_vpn t) AND NOT mask) = (vpn AND NOT mask) \<and> (te_g t \<or> ucast (te_asid t) = asid))"

text \<open>
  Both loops walk the entries in order, check the page mask of each, and leave at the first entry
  that matches. The result is its index and the entry, or nothing when the loop runs out.
\<close>

fun tlb_scan :: "u32 \<Rightarrow> u32 \<Rightarrow> nat \<Rightarrow> tlb_entry_t list \<Rightarrow> fault + (nat \<times> tlb_entry_t) option" where
  "tlb_scan vpn asid i [] = Inr None"
| "tlb_scan vpn asid i (t # ts) =
     (if \<not> pagemask_ok t then Inl AssertFail
      else if tlb_match vpn asid t then Inr (Some (i, t))
      else tlb_scan vpn asid (Suc i) ts)"

definition tlb_present :: "nemu \<Rightarrow> unit res" where
  "tlb_present s =
     (case tlb_scan (cp0_get entry_hi_vpn (cpu s)) (cp0_get entry_hi_asid (cpu s)) 0 (tlb s) of
        Inl f \<Rightarrow> Inl (f, s)
      | Inr (Some (i, _)) \<Rightarrow> Inr ((), on_cpu (\<lambda>c. cp0_set index_idx (of_nat i) (cp0_set index_p 0 c)) s)
      | Inr None \<Rightarrow> Inr ((), on_cpu (cp0_set index_p 1) s))"

definition tlb_read :: "nat \<Rightarrow> nemu \<Rightarrow> unit res" where
  "tlb_read i s =
     (if \<not> i < length (tlb s) then Inl (UndefinedBehaviour, s)
      else let t = tlb s ! i; nmask = NOT (ucast (te_pagemask t)) :: u32
           in Inr ((), on_cpu (\<lambda>c.
                cp0_set entry_lo1_g (of_bool (te_g t))
               (cp0_set entry_lo1_v (of_bool (phyn_v (te_p1 t)))
               (cp0_set entry_lo1_d (of_bool (phyn_d (te_p1 t)))
               (cp0_set entry_lo1_c (ucast (phyn_c (te_p1 t)))
               (cp0_set entry_lo1_pfn (ucast (phyn_pfn (te_p1 t)) AND nmask)
               (cp0_set entry_lo0_g (of_bool (te_g t))
               (cp0_set entry_lo0_v (of_bool (phyn_v (te_p0 t)))
               (cp0_set entry_lo0_d (of_bool (phyn_d (te_p0 t)))
               (cp0_set entry_lo0_c (ucast (phyn_c (te_p0 t)))
               (cp0_set entry_lo0_pfn (ucast (phyn_pfn (te_p0 t)) AND nmask)
               (cp0_set entry_hi_asid (ucast (te_asid t))
               (cp0_set entry_hi_vpn (ucast (te_vpn t) AND nmask)
               (cp0_set pagemask_mask (ucast (te_pagemask t)) c))))))))))))) s))"

text \<open>The entry that \<^verbatim>\<open>tlb_write\<close> builds from the coprocessor registers.\<close>

definition tlb_entry_of :: "CPU_state \<Rightarrow> tlb_entry_t" where
  "tlb_entry_of c =
     (let nmask = NOT (cp0_get pagemask_mask c)
      in \<lparr>te_pagemask = ucast (cp0_get pagemask_mask c),
          te_vpn = ucast (cp0_get entry_hi_vpn c AND nmask),
          te_g = (cp0_get entry_lo0_g c AND cp0_get entry_lo1_g c) \<noteq> 0,
          te_asid = ucast (cp0_get entry_hi_asid c),
          te_p0 = \<lparr>phyn_pfn = ucast (cp0_get entry_lo0_pfn c AND nmask),
                   phyn_c = ucast (cp0_get entry_lo0_c c),
                   phyn_d = cp0_get entry_lo0_d c \<noteq> 0, phyn_v = cp0_get entry_lo0_v c \<noteq> 0\<rparr>,
          te_p1 = \<lparr>phyn_pfn = ucast (cp0_get entry_lo1_pfn c AND nmask),
                   phyn_c = ucast (cp0_get entry_lo1_c c),
                   phyn_d = cp0_get entry_lo1_d c \<noteq> 0, phyn_v = cp0_get entry_lo1_v c \<noteq> 0\<rparr>\<rparr>)"

definition tlb_write :: "nat \<Rightarrow> nemu \<Rightarrow> unit res" where
  "tlb_write i s =
     (if \<not> i < length (tlb s) then Inl (UndefinedBehaviour, s)
      else Inr ((), s\<lparr>tlb := (tlb s)[i := tlb_entry_of (cpu s)]\<rparr>))"

definition tlb_exception :: "config \<Rightarrow> u32 \<Rightarrow> u32 \<Rightarrow> u32 \<Rightarrow> u32 \<Rightarrow> nemu \<Rightarrow> unit res" where
  "tlb_exception cfg ex code vaddr asid s =
     raise_exception cfg (MAKE_EX ex code)
       (on_cpu (\<lambda>c.
          cp0_set entry_hi_asid asid
         (cp0_set entry_hi_vpn (drop_bit 13 vaddr)
         (cp0_set context_BadVPN2 (drop_bit 13 vaddr)
         (cpr_set cp0_badvaddr vaddr c)))) s)"

abbreviation (input) BLACKHOLE_ADDR :: u32 where "BLACKHOLE_ADDR \<equiv> 0x1fe96000"

definition page_translate :: "config \<Rightarrow> u32 \<Rightarrow> mmu_attr_t \<Rightarrow> nemu \<Rightarrow> (u32 \<times> mmu_attr_t) res" where
  "page_translate cfg vaddr attr s =
     (let exccode = (if rwbit attr = MMU_LOAD then EXC_TLBL else EXC_TLBS);
          va_31_13 = drop_bit 13 (vaddr AND NOT 0x1FFF)
      in case tlb_scan va_31_13 (cp0_get entry_hi_asid (cpu s)) 0 (tlb s) of
           Inl f \<Rightarrow> Inl (f, s)
         | Inr (Some (i, t)) \<Rightarrow>
             (let mask = ucast (te_pagemask t) :: u32;
                  EvenOddBit = (vaddr AND push_bit 12 (mask + 1)) \<noteq> 0;
                  phyn = (if EvenOddBit then te_p1 t else te_p0 t)
              in if \<not> phyn_v phyn then
                   bind_r (if exbit attr then tlb_exception cfg EX_TLB_INVALID exccode vaddr (ucast (te_asid t)) s
                           else Inr ((), s))
                     (\<lambda>_ s. Inr ((BLACKHOLE_ADDR, attr), s))
                 else if \<not> phyn_d phyn \<and> rwbit attr = MMU_STORE then
                   bind_r (if exbit attr then tlb_exception cfg EX_TLB_MODIFIED EXC_TLBM vaddr (ucast (te_asid t)) s
                           else Inr ((), s))
                     (\<lambda>_ s. Inr ((BLACKHOLE_ADDR, attr\<lparr>dirty := phyn_d phyn\<rparr>), s))
                 else
                   (let highbits = push_bit 12 (ucast (phyn_pfn phyn) AND NOT mask);
                        lowbits = vaddr AND (push_bit 12 (mask + 1) - 1)
                    in Inr ((highbits OR lowbits, attr\<lparr>dirty := phyn_d phyn\<rparr>), s)))
         | Inr None \<Rightarrow>
             bind_r (if exbit attr then tlb_exception cfg EX_TLB_REFILL exccode vaddr (cp0_get entry_hi_asid (cpu s)) s
                     else Inr ((), s))
               (\<lambda>_ s. Inr ((BLACKHOLE_ADDR, attr\<lparr>miss := True\<rparr>), s)))"

section \<open>The scan\<close>

lemma ucast_u16_u32: "ucast (ucast w :: u32) = (w :: u16)"
  by (rule bit_eqI) (auto simp: bit_simps)

lemma or_eq_zero_u32: "(a :: u32) OR b = 0 \<longleftrightarrow> a = 0 \<and> b = 0"
  by (metis or.left_idem or.left_neutral or.right_neutral or_eq_0_iff)

text \<open>
  The check of the page mask is a disjunction where a conjunction of bits was meant: it lets
  nothing but the zero mask pass, which stands for 4 KB pages.
\<close>

lemma pagemask_ok_iff: "pagemask_ok t \<longleftrightarrow> te_pagemask t = 0"
proof -
  have "(ucast (te_pagemask t) :: u32) = 0 \<longleftrightarrow> te_pagemask t = 0"
    using ucast_u16_u32 [of "te_pagemask t"] by auto
  then show ?thesis by (auto simp: pagemask_ok_def Let_def or_eq_zero_u32)
qed

text \<open>Matching with the zero mask: the page pair number, and the address space or the global bit.\<close>

definition tlb_hits :: "u32 \<Rightarrow> u32 \<Rightarrow> tlb_entry_t \<Rightarrow> bool" where
  "tlb_hits vpn asid t \<longleftrightarrow> ucast (te_vpn t) = vpn \<and> (te_g t \<or> ucast (te_asid t) = asid)"

lemma tlb_match_hits: "te_pagemask t = 0 \<Longrightarrow> tlb_match vpn asid t = tlb_hits vpn asid t"
  by (simp add: tlb_match_def tlb_hits_def)

lemma tlb_scan_None:
  "tlb_scan vpn asid i ts = Inr None \<longleftrightarrow>
     (\<forall>t \<in> set ts. te_pagemask t = 0 \<and> \<not> tlb_hits vpn asid t)"
  by (induction ts arbitrary: i) (auto simp: pagemask_ok_iff tlb_match_hits)

lemma tlb_scan_Some:
  "tlb_scan vpn asid i ts = Inr (Some (j, t)) \<longleftrightarrow>
     (\<exists>k < length ts. j = i + k \<and> t = ts ! k \<and> tlb_hits vpn asid t \<and> te_pagemask t = 0
        \<and> (\<forall>l < k. te_pagemask (ts ! l) = 0 \<and> \<not> tlb_hits vpn asid (ts ! l)))"
proof (induction ts arbitrary: i)
  case Nil
  then show ?case by simp
next
  case (Cons u us)
  show ?case
  proof (cases "te_pagemask u = 0 \<and> \<not> tlb_hits vpn asid u")
    case True
    then have "tlb_scan vpn asid i (u # us) = tlb_scan vpn asid (Suc i) us"
      by (simp add: pagemask_ok_iff tlb_match_hits)
    then show ?thesis
      using True by (simp only: Cons.IH length_Cons Ex_less_Suc2 All_less_Suc2 nth_Cons_0 nth_Cons_Suc) auto
  next
    case False
    then show ?thesis
      by (auto simp: pagemask_ok_iff tlb_match_hits intro!: exI [of _ 0])
         (metis nth_Cons_0 not_gr_zero)+
  qed
qed

lemma tlb_scan_Inl:
  "tlb_scan vpn asid i ts = Inl f \<Longrightarrow> f = AssertFail \<and> (\<exists>t \<in> set ts. te_pagemask t \<noteq> 0)"
  by (induction ts arbitrary: i) (auto simp: pagemask_ok_iff split: if_splits)

lemma tlb_scan_first:
  assumes "k < length ts" and "tlb_hits vpn asid (ts ! k)"
    and "\<And>l. l \<le> k \<Longrightarrow> te_pagemask (ts ! l) = 0"
    and "\<And>l. l < k \<Longrightarrow> \<not> tlb_hits vpn asid (ts ! l)"
  shows "tlb_scan vpn asid i ts = Inr (Some (i + k, ts ! k))"
  unfolding tlb_scan_Some using assms by (auto intro!: exI [of _ k])

lemma tlb_scan_masked:
  assumes "k < length ts" and "te_pagemask (ts ! k) \<noteq> 0"
    and "\<And>l. l < k \<Longrightarrow> te_pagemask (ts ! l) = 0 \<and> \<not> tlb_hits vpn asid (ts ! l)"
  shows "tlb_scan vpn asid i ts = Inl AssertFail"
  using assms
proof (induction ts arbitrary: i k)
  case (Cons u us)
  show ?case
  proof (cases k)
    case 0
    then show ?thesis using Cons.prems(2) by (simp add: pagemask_ok_iff)
  next
    case (Suc j)
    then have "tlb_scan vpn asid (Suc i) us = Inl AssertFail"
      using Cons.prems by (intro Cons.IH [of j]) fastforce+
    then show ?thesis using Cons.prems(3) [of 0] Suc by (simp add: pagemask_ok_iff tlb_match_hits)
  qed
qed simp

section \<open>Translation of mapped addresses\<close>

lemma va_31_13_eq: "drop_bit 13 (vaddr AND NOT 0x1FFF) = drop_bit 13 (vaddr :: u32)"
proof -
  have m: "(0x1FFF :: u32) = mask 13" by (simp add: mask_eq_exp_minus_1)
  show ?thesis
    unfolding m by (rule bit_eqI) (auto simp only: bit_drop_bit_eq bit_and_iff bit_not_iff bit_mask_iff o_def
        dest: bit_imp_possible_bit)
qed

text \<open>The half of the pair an address falls into.\<close>

definition phyn_for :: "u32 \<Rightarrow> tlb_entry_t \<Rightarrow> tlb_phyn_t" where
  "phyn_for vaddr t = (if bit vaddr 12 then te_p1 t else te_p0 t)"

definition frame_addr :: "tlb_phyn_t \<Rightarrow> u32 \<Rightarrow> u32" where
  "frame_addr p vaddr = push_bit 12 (ucast (phyn_pfn p)) OR take_bit 12 vaddr"

lemma and_bit_12: "vaddr AND 0x1000 \<noteq> 0 \<longleftrightarrow> bit (vaddr :: u32) 12"
proof -
  have m: "(0x1000 :: u32) = push_bit 12 1" by simp
  have "bit (vaddr AND 0x1000) n \<longleftrightarrow> bit vaddr 12 \<and> n = 12" for n
    unfolding m using bit_imp_possible_bit [of vaddr 12]
    by (auto simp only: bit_and_iff bit_push_bit_iff bit_1_iff) (metis diff_is_0_eq le_antisym)
  then show ?thesis by (auto simp: bit_eq_iff [of "vaddr AND 0x1000"] simp del: bit_and_iff)
qed

lemma page_translate_eq:
  "page_translate cfg vaddr attr s =
     (case tlb_scan (drop_bit 13 vaddr) (cp0_get entry_hi_asid (cpu s)) 0 (tlb s) of
        Inl f \<Rightarrow> Inl (f, s)
      | Inr (Some (i, t)) \<Rightarrow>
          (let p = phyn_for vaddr t
           in if \<not> phyn_v p then
                bind_r (if exbit attr
                        then tlb_exception cfg EX_TLB_INVALID (if rwbit attr = MMU_LOAD then EXC_TLBL else EXC_TLBS)
                               vaddr (ucast (te_asid t)) s
                        else Inr ((), s))
                  (\<lambda>_ s. Inr ((BLACKHOLE_ADDR, attr), s))
              else if \<not> phyn_d p \<and> rwbit attr = MMU_STORE then
                bind_r (if exbit attr then tlb_exception cfg EX_TLB_MODIFIED EXC_TLBM vaddr (ucast (te_asid t)) s
                        else Inr ((), s))
                  (\<lambda>_ s. Inr ((BLACKHOLE_ADDR, attr\<lparr>dirty := phyn_d p\<rparr>), s))
              else Inr ((frame_addr p vaddr, attr\<lparr>dirty := phyn_d p\<rparr>), s))
      | Inr None \<Rightarrow>
          bind_r (if exbit attr
                  then tlb_exception cfg EX_TLB_REFILL (if rwbit attr = MMU_LOAD then EXC_TLBL else EXC_TLBS)
                         vaddr (cp0_get entry_hi_asid (cpu s)) s
                  else Inr ((), s))
            (\<lambda>_ s. Inr ((BLACKHOLE_ADDR, attr\<lparr>miss := True\<rparr>), s)))"
proof (cases "tlb_scan (drop_bit 13 vaddr) (cp0_get entry_hi_asid (cpu s)) 0 (tlb s)")
  case (Inl f)
  then show ?thesis unfolding page_translate_def va_31_13_eq Let_def by simp
next
  case (Inr r)
  show ?thesis
  proof (cases r)
    case None
    with Inr show ?thesis unfolding page_translate_def va_31_13_eq Let_def by simp
  next
    case (Some it)
    obtain i t where it: "it = (i, t)" by (cases it)
    have "te_pagemask t = 0" using Inr Some it by (auto simp: tlb_scan_Some)
    then show ?thesis
      using Inr Some it unfolding page_translate_def va_31_13_eq Let_def
      by (simp add: phyn_for_def frame_addr_def and_bit_12
          and_mask_u32 Let_def)
  qed
qed

text \<open>The store of a translation fault: what the refill handler finds in the coprocessor.\<close>

definition tlb_fault_regs :: "u32 \<Rightarrow> u32 \<Rightarrow> CPU_state \<Rightarrow> CPU_state" where
  "tlb_fault_regs vaddr asid c =
     cp0_set entry_hi_asid asid (cp0_set entry_hi_vpn (drop_bit 13 vaddr)
       (cp0_set context_BadVPN2 (drop_bit 13 vaddr) (cpr_set cp0_badvaddr vaddr c)))"

lemma tlb_exception_eq:
  assumes "ex < 0x10000" and "code < 0x10000" and "code \<noteq> EXC_TRAP"
  shows "tlb_exception cfg ex code vaddr asid s =
     Inr ((), clear_mmu_cache (on_cpu (\<lambda>c. enter_exception cfg code ex (tlb_fault_regs vaddr asid c)) s))"
  using assms by (simp add: tlb_exception_def raise_exception_MAKE_EX tlb_fault_regs_def)

lemma take_bit_19_drop_13: "take_bit 19 (drop_bit 13 (w :: u32)) = drop_bit 13 w"
  by (rule bit_eqI) (auto simp: bit_simps dest: bit_imp_le_length)

lemma tlb_fault_regs_simps [simp]:
  "cp0 (tlb_fault_regs vaddr asid c) cp0_badvaddr = vaddr"
  "cp0_get entry_hi_vpn (tlb_fault_regs vaddr asid c) = drop_bit 13 vaddr"
  "cp0_get entry_hi_asid (tlb_fault_regs vaddr asid c) = take_bit 8 asid"
  "cp0_get context_BadVPN2 (tlb_fault_regs vaddr asid c) = drop_bit 13 vaddr"
  "pc (tlb_fault_regs vaddr asid c) = pc c"
  "gpr (tlb_fault_regs vaddr asid c) = gpr c"
  "is_delayslot (tlb_fault_regs vaddr asid c) = is_delayslot c"
  "cp0 (tlb_fault_regs vaddr asid c) cp0_epc = cp0 c cp0_epc"
  by (simp_all add: tlb_fault_regs_def take_bit_19_drop_13)

lemma tlb_fault_regs_other [simp]:
  "fst f \<noteq> (10, 0) \<Longrightarrow> fst f \<noteq> (4, 0) \<Longrightarrow> fst f \<noteq> (8, 0) \<Longrightarrow>
     cp0_get f (tlb_fault_regs vaddr asid c) = cp0_get f c"
  by (cases f) (simp add: tlb_fault_regs_def)

text \<open>An address with no entry in a table of 4 KB pages.\<close>

lemma page_translate_miss:
  assumes "\<forall>t \<in> set (tlb s). te_pagemask t = 0 \<and> \<not> tlb_hits (drop_bit 13 vaddr) (cp0_get entry_hi_asid (cpu s)) t"
    and "exbit attr"
  shows "page_translate cfg vaddr attr s =
     Inr ((BLACKHOLE_ADDR, attr\<lparr>miss := True\<rparr>),
       clear_mmu_cache (on_cpu (\<lambda>c.
         enter_exception cfg (if rwbit attr = MMU_LOAD then EXC_TLBL else EXC_TLBS) EX_TLB_REFILL
           (tlb_fault_regs vaddr (cp0_get entry_hi_asid c) c)) s))"
  using assms by (simp add: page_translate_eq tlb_scan_None [THEN iffD2] tlb_exception_eq on_cpu_def)

lemma page_translate_hit:
  assumes "k < length (tlb s)" and "tlb_hits (drop_bit 13 vaddr) (cp0_get entry_hi_asid (cpu s)) (tlb s ! k)"
    and "\<And>l. l \<le> k \<Longrightarrow> te_pagemask (tlb s ! l) = 0"
    and "\<And>l. l < k \<Longrightarrow> \<not> tlb_hits (drop_bit 13 vaddr) (cp0_get entry_hi_asid (cpu s)) (tlb s ! l)"
    and "phyn_v (phyn_for vaddr (tlb s ! k))"
    and "phyn_d (phyn_for vaddr (tlb s ! k)) \<or> rwbit attr = MMU_LOAD"
  shows "page_translate cfg vaddr attr s =
     Inr ((frame_addr (phyn_for vaddr (tlb s ! k)) vaddr, attr\<lparr>dirty := phyn_d (phyn_for vaddr (tlb s ! k))\<rparr>), s)"
  using tlb_scan_first [OF assms(1-4), of 0] assms(5,6) by (auto simp: page_translate_eq Let_def)

text \<open>The page offset is kept and the frame number replaces the page number.\<close>

lemma frame_addr_offset: "take_bit 12 (frame_addr p vaddr) = take_bit 12 vaddr"
  by (rule bit_eqI) (auto simp: frame_addr_def bit_simps)

lemma frame_addr_frame: "drop_bit 12 (frame_addr p vaddr) = take_bit 20 (ucast (phyn_pfn p))"
  by (rule bit_eqI) (auto simp: frame_addr_def bit_simps add.commute dest: bit_imp_le_length)

section \<open>Writing, probing and reading entries\<close>

text \<open>Field values survive the trip through the narrower fields of a TLB entry.\<close>

lemma ucast_cp0_get_8: "(ucast (ucast (cp0_get (r, k, 8) c) :: u8) :: u32) = cp0_get (r, k, 8) c"
  by (rule bit_eqI) (auto simp: bit_simps cp0_get.simps bit_bf_get)

lemma ucast_cp0_get_19: "(ucast (ucast (cp0_get (r, k, 19) c) :: 19 word) :: u32) = cp0_get (r, k, 19) c"
  by (rule bit_eqI) (auto simp: bit_simps cp0_get.simps bit_bf_get)

lemma ucast_cp0_get_20: "(ucast (ucast (cp0_get (r, k, 20) c) :: 24 word) :: u32) = cp0_get (r, k, 20) c"
  by (rule bit_eqI) (auto simp: bit_simps cp0_get.simps bit_bf_get)

lemma ucast_cp0_get_3: "(ucast (ucast (cp0_get (r, k, 3) c) :: 3 word) :: u32) = cp0_get (r, k, 3) c"
  by (rule bit_eqI) (auto simp: bit_simps cp0_get.simps bit_bf_get)

lemma of_bool_cp0_get_1: "of_bool (cp0_get (r, k, Suc 0) c \<noteq> 0) = cp0_get (r, k, Suc 0) c"
  using bf_get_1_cases [of k "cp0 c r"] by (auto simp: cp0_get.simps)

lemma take_bit_cp0_get: "take_bit n (cp0_get (r, k, n) c) = cp0_get (r, k, n) c"
  by (simp add: cp0_get.simps bf_get_def)

lemma mod_2_cp0_get: "cp0_get (r, k, Suc 0) c mod 2 = cp0_get (r, k, Suc 0) c"
  using bf_get_1_cases [of k "cp0 c r"] by (auto simp: cp0_get.simps)

lemma and_cp0_get_1:
  "of_bool (cp0_get (r, k, Suc 0) c AND cp0_get (r', k', Suc 0) c \<noteq> 0) =
     cp0_get (r, k, Suc 0) c AND cp0_get (r', k', Suc 0) c"
  using bf_get_1_cases [of k "cp0 c r"] bf_get_1_cases [of k' "cp0 c r'"] by (auto simp: cp0_get.simps)

lemma and_mod_2_cp0_get:
  "(cp0_get (r, k, Suc 0) c AND cp0_get (r', k', Suc 0) c) mod 2 =
     cp0_get (r, k, Suc 0) c AND cp0_get (r', k', Suc 0) c"
  using bf_get_1_cases [of k "cp0 c r"] bf_get_1_cases [of k' "cp0 c r'"] by (auto simp: cp0_get.simps)

lemmas entry_casts = take_bit_cp0_get mod_2_cp0_get and_cp0_get_1 and_mod_2_cp0_get ucast_cp0_get_8 ucast_cp0_get_19 ucast_cp0_get_20 ucast_cp0_get_3 of_bool_cp0_get_1

lemma tlb_entry_of_hits:
  assumes "cp0_get pagemask_mask c = 0"
  shows "tlb_hits vpn asid (tlb_entry_of c) \<longleftrightarrow>
     vpn = cp0_get entry_hi_vpn c \<and>
     (cp0_get entry_lo0_g c = 1 \<and> cp0_get entry_lo1_g c = 1 \<or> asid = cp0_get entry_hi_asid c)"
  using assms bf_get_1_cases [of 0 "cp0 c (2, 0)"] bf_get_1_cases [of 0 "cp0 c (3, 0)"]
  by (auto simp: tlb_hits_def tlb_entry_of_def Let_def entry_casts cp0_get.simps [of _ 0 "Suc 0"])

lemma tlb_entry_of_pagemask: "cp0_get pagemask_mask c = 0 \<Longrightarrow> te_pagemask (tlb_entry_of c) = 0"
  by (simp add: tlb_entry_of_def Let_def)

text \<open>
  Probing after a write finds the written index, if no entry before it answers to the same page.
\<close>

lemma tlb_write_present:
  assumes "i < length (tlb s)" and "i < 32" and "cp0_get pagemask_mask (cpu s) = 0"
    and "\<And>l. l < i \<Longrightarrow> te_pagemask (tlb s ! l) = 0 \<and>
          \<not> tlb_hits (cp0_get entry_hi_vpn (cpu s)) (cp0_get entry_hi_asid (cpu s)) (tlb s ! l)"
  shows "\<exists>s'. bind_r (tlb_write i s) (\<lambda>_. tlb_present) = Inr ((), s') \<and>
     cp0_get index_p (cpu s') = 0 \<and> cp0_get index_idx (cpu s') = of_nat i \<and> tlb s' ! i = tlb_entry_of (cpu s)"
proof -
  let ?ts = "(tlb s)[i := tlb_entry_of (cpu s)]"
  have "tlb_scan (cp0_get entry_hi_vpn (cpu s)) (cp0_get entry_hi_asid (cpu s)) 0 ?ts =
          Inr (Some (0 + i, ?ts ! i))"
    using assms by (intro tlb_scan_first) (auto simp: nth_list_update tlb_entry_of_hits tlb_entry_of_pagemask)
  moreover have "take_bit 5 (of_nat i :: u32) = of_nat i"
    using assms(2) by (intro take_bit_u32_small) (simp add: unat_of_nat take_bit_nat_eq_self)
  ultimately show ?thesis using assms(1) by (simp add: tlb_write_def tlb_present_def)
qed

text \<open>
  Reading a written entry back restores the fields: the page and frame numbers without the bits of
  the page mask, and the conjunction of the global bits.
\<close>

lemma ucast_cp0_get_16: "(ucast (ucast (cp0_get (r, k, 16) c) :: u16) :: u32) = cp0_get (r, k, 16) c"
  by (rule bit_eqI) (auto simp: bit_simps cp0_get.simps bit_bf_get)

lemma masked_casts:
  "take_bit 19 (ucast (ucast (cp0_get (r, k, 19) c AND m) :: 19 word) :: u32) = cp0_get (r, k, 19) c AND m"
  "take_bit 20 (ucast (ucast (cp0_get (r, k, 20) c AND m) :: 24 word) :: u32) = cp0_get (r, k, 20) c AND m"
  "take_bit 16 (ucast (ucast (cp0_get (r, k, 16) c) :: u16) :: u32) = cp0_get (r, k, 16) c"
  by (rule bit_eqI; auto simp: bit_simps cp0_get.simps bit_bf_get)+

lemma masked_twice:
  "(cp0_get (r, k, n) c AND NOT m) AND take_bit n (NOT m) = cp0_get (r, k, n) c AND NOT m"
  by (rule bit_eqI) (auto simp: bit_simps cp0_get.simps bit_bf_get)

lemma tlb_write_read:
  assumes "i < length (tlb s)"
  shows "\<exists>t. bind_r (tlb_write i s) (\<lambda>_ t. tlb_read i (on_cpu g t)) = Inr ((), t) \<and>
     (\<forall>f \<in> {entry_hi_asid, pagemask_mask, entry_lo0_c, entry_lo0_d, entry_lo0_v, entry_lo1_c, entry_lo1_d, entry_lo1_v}.
        cp0_get f (cpu t) = cp0_get f (cpu s)) \<and>
     (\<forall>f \<in> {entry_hi_vpn, entry_lo0_pfn, entry_lo1_pfn}.
        cp0_get f (cpu t) = cp0_get f (cpu s) AND NOT (cp0_get pagemask_mask (cpu s))) \<and>
     (\<forall>f \<in> {entry_lo0_g, entry_lo1_g}.
        cp0_get f (cpu t) = (cp0_get entry_lo0_g (cpu s) AND cp0_get entry_lo1_g (cpu s)))"
  using assms
  by (simp add: tlb_write_def tlb_read_def tlb_entry_of_def Let_def entry_casts masked_casts ucast_cp0_get_16 masked_twice)

text \<open>An entry with a page mask stops the probe, which asserts that the mask is zero.\<close>

lemma tlb_write_present_masked:
  assumes "i < length (tlb s)" and "cp0_get pagemask_mask (cpu s) \<noteq> 0"
    and "\<And>l. l < i \<Longrightarrow> te_pagemask (tlb s ! l) = 0 \<and>
          \<not> tlb_hits (cp0_get entry_hi_vpn (cpu s)) (cp0_get entry_hi_asid (cpu s)) (tlb s ! l)"
  shows "\<exists>t. bind_r (tlb_write i s) (\<lambda>_. tlb_present) = Inl (AssertFail, t)"
proof -
  have "te_pagemask (tlb_entry_of (cpu s)) \<noteq> 0"
    using assms(2) ucast_cp0_get_16 [of "(5, 0)" 13 "cpu s"] by (auto simp: tlb_entry_of_def Let_def)
  then have "tlb_scan (cp0_get entry_hi_vpn (cpu s)) (cp0_get entry_hi_asid (cpu s)) 0 ((tlb s)[i := tlb_entry_of (cpu s)]) = Inl AssertFail"
    using assms(1,3) by (intro tlb_scan_masked [of i]) (auto simp: nth_list_update)
  then show ?thesis using assms(1) by (simp add: tlb_write_def tlb_present_def)
qed

section \<open>Properties\<close>

text \<open>The part of the pair EntryLo0/EntryLo1 that an address selects.\<close>

definition lo_pfn :: "u32 \<Rightarrow> CPU_state \<Rightarrow> u32" where
  "lo_pfn vaddr c = (if bit vaddr 12 then cp0_get entry_lo1_pfn c else cp0_get entry_lo0_pfn c)"

definition lo_valid :: "u32 \<Rightarrow> CPU_state \<Rightarrow> bool" where
  "lo_valid vaddr c = (if bit vaddr 12 then cp0_get entry_lo1_v c = 1 else cp0_get entry_lo0_v c = 1)"

definition lo_dirty :: "u32 \<Rightarrow> CPU_state \<Rightarrow> bool" where
  "lo_dirty vaddr c = (if bit vaddr 12 then cp0_get entry_lo1_d c = 1 else cp0_get entry_lo0_d c = 1)"

lemma phyn_for_entry:
  assumes "cp0_get pagemask_mask c = 0"
  shows "frame_addr (phyn_for vaddr (tlb_entry_of c)) vaddr = push_bit 12 (lo_pfn vaddr c) OR take_bit 12 vaddr"
    and "lo_valid vaddr c \<Longrightarrow> phyn_v (phyn_for vaddr (tlb_entry_of c))"
    and "lo_dirty vaddr c \<Longrightarrow> phyn_d (phyn_for vaddr (tlb_entry_of c))"
  using assms
  by (auto simp: frame_addr_def phyn_for_def tlb_entry_of_def lo_pfn_def lo_valid_def lo_dirty_def Let_def entry_casts)

text \<open>The retry after an entry was written: no other entry answers, so the new one does.\<close>

lemma tlb_write_then_hit:
  assumes "\<forall>e \<in> set (tlb u). te_pagemask e = 0 \<and> \<not> tlb_hits (drop_bit 13 vaddr) (cp0_get entry_hi_asid (cpu u)) e"
    and "cp0_get entry_hi_vpn (cpu u) = drop_bit 13 vaddr" and "cp0_get pagemask_mask (cpu u) = 0"
    and "lo_valid vaddr (cpu u)" and "lo_dirty vaddr (cpu u)" and "k < length (tlb u)"
  shows "bind_r (tlb_write k u) (\<lambda>_. page_translate cfg vaddr attr') =
     Inr ((push_bit 12 (lo_pfn vaddr (cpu u)) OR take_bit 12 vaddr, attr'\<lparr>dirty := True\<rparr>),
          u\<lparr>tlb := (tlb u)[k := tlb_entry_of (cpu u)]\<rparr>)"
proof -
  let ?w = "u\<lparr>tlb := (tlb u)[k := tlb_entry_of (cpu u)]\<rparr>"
  have k: "k < length (tlb ?w)" using assms(6) by simp
  have hit: "tlb_hits (drop_bit 13 vaddr) (cp0_get entry_hi_asid (cpu ?w)) (tlb ?w ! k)"
    using k tlb_entry_of_hits [OF assms(3)] assms(2) by simp
  have masks: "te_pagemask (tlb ?w ! l) = 0" if "l \<le> k" for l
    using that k assms(1) tlb_entry_of_pagemask [OF assms(3)] by (simp add: nth_list_update)
  have miss: "\<not> tlb_hits (drop_bit 13 vaddr) (cp0_get entry_hi_asid (cpu ?w)) (tlb ?w ! l)" if "l < k" for l
    using that k assms(1) by (simp add: nth_list_update)
  have "page_translate cfg vaddr attr' ?w =
      Inr ((push_bit 12 (lo_pfn vaddr (cpu u)) OR take_bit 12 vaddr, attr'\<lparr>dirty := True\<rparr>), ?w)"
    using page_translate_hit [OF k hit masks miss, of attr' cfg] phyn_for_entry [OF assms(3), of vaddr]
      assms(4,5) k by simp
  then show ?thesis using assms(6) by (simp add: tlb_write_def)
qed

text \<open>
  C3: a TLB refill repairs the translation. An access to an address without a TLB entry raises the
  refill exception: the handler is entered at the start of the bank of vectors (at its general vector
  inside another exception), with the cause of a load or a store, the address to resume at in EPC, the faulting address in
  BadVAddr, its page in EntryHi beside the address space, and an unchanged TLB. If the handler, in whatever state it
  reaches, still has this EntryHi, the same TLB and a zero PageMask, and writes any TLB entry from EntryLo
  registers whose half for the address is valid and writable, then the retried access (load or
  store) is translated to the frame given there, with the offset of the address.
\<close>

theorem tlb_refill_then_hit:
  assumes "\<forall>e \<in> set (tlb s). te_pagemask e = 0 \<and> \<not> tlb_hits (drop_bit 13 vaddr) (cp0_get entry_hi_asid (cpu s)) e"
    and "exbit attr"
  shows "\<exists>t. page_translate cfg vaddr attr s = Inr ((BLACKHOLE_ADDR, attr\<lparr>miss := True\<rparr>), t) \<and> has_exception (cpu t) \<and>
     (let outside = CONFIG_MARCH_NOOP cfg \<or> cp0_get status_EXL (cpu s) = 0 in
        br_target (cpu t) = (if cp0_get status_BEV (cpu s) = 1 then 0xbfc00200 else 0x80000000) + (if outside then 0 else 0x180) \<and>
        cp0 (cpu t) cp0_epc = (if \<not> outside then cp0 (cpu s) cp0_epc
          else if CONFIG_DELAYSLOT cfg \<and> is_delayslot (cpu s) then pc (cpu s) - 4 else pc (cpu s))) \<and>
     cp0_get cause_ExcCode (cpu t) = (if rwbit attr = MMU_LOAD then 2 else 3) \<and> cp0_get status_EXL (cpu t) = 1 \<and>
     cp0 (cpu t) cp0_badvaddr = vaddr \<and> cp0_get entry_hi_vpn (cpu t) = drop_bit 13 vaddr \<and>
     cp0_get entry_hi_asid (cpu t) = cp0_get entry_hi_asid (cpu s) \<and> tlb t = tlb s \<and>
     (\<forall>u k attr'. tlb u = tlb t \<and> cp0_get entry_hi_vpn (cpu u) = cp0_get entry_hi_vpn (cpu t) \<and>
        cp0_get entry_hi_asid (cpu u) = cp0_get entry_hi_asid (cpu t) \<and> cp0_get pagemask_mask (cpu u) = 0 \<and>
        lo_valid vaddr (cpu u) \<and> lo_dirty vaddr (cpu u) \<and> k < length (tlb u) \<longrightarrow>
        bind_r (tlb_write k u) (\<lambda>_. page_translate cfg vaddr attr') =
          Inr ((push_bit 12 (lo_pfn vaddr (cpu u)) OR take_bit 12 vaddr, attr'\<lparr>dirty := True\<rparr>),
               u\<lparr>tlb := (tlb u)[k := tlb_entry_of (cpu u)]\<rparr>))"
proof -
  define t where "t = clear_mmu_cache (on_cpu (\<lambda>c. enter_exception cfg (if rwbit attr = MMU_LOAD then EXC_TLBL else EXC_TLBS)
      EX_TLB_REFILL (tlb_fault_regs vaddr (cp0_get entry_hi_asid c) c)) s)"
  have t: "page_translate cfg vaddr attr s = Inr ((BLACKHOLE_ADDR, attr\<lparr>miss := True\<rparr>), t)"
    unfolding t_def by (rule page_translate_miss [OF assms])
  have regs: "cp0_get entry_hi_vpn (cpu t) = drop_bit 13 vaddr" "cp0_get entry_hi_asid (cpu t) = cp0_get entry_hi_asid (cpu s)"
    "tlb t = tlb s" "cp0 (cpu t) cp0_badvaddr = vaddr"
    by (simp_all add: t_def take_bit_cp0_get)
  have entry: "has_exception (cpu t)" "cp0_get cause_ExcCode (cpu t) = (if rwbit attr = MMU_LOAD then 2 else 3)"
    "cp0_get status_EXL (cpu t) = 1"
    by (simp_all add: t_def take_bit_eq_mod)
  have vector: "let outside = CONFIG_MARCH_NOOP cfg \<or> cp0_get status_EXL (cpu s) = 0 in
      br_target (cpu t) = (if cp0_get status_BEV (cpu s) = 1 then 0xbfc00200 else 0x80000000) + (if outside then 0 else 0x180) \<and>
      cp0 (cpu t) cp0_epc = (if \<not> outside then cp0 (cpu s) cp0_epc
        else if CONFIG_DELAYSLOT cfg \<and> is_delayslot (cpu s) then pc (cpu s) - 4 else pc (cpu s))"
    by (simp add: t_def Let_def vector_of_def enter_exception_epc restart_pc_def)
  have retry: "bind_r (tlb_write k u) (\<lambda>_. page_translate cfg vaddr attr') =
      Inr ((push_bit 12 (lo_pfn vaddr (cpu u)) OR take_bit 12 vaddr, attr'\<lparr>dirty := True\<rparr>),
           u\<lparr>tlb := (tlb u)[k := tlb_entry_of (cpu u)]\<rparr>)"
    if "tlb u = tlb t" "cp0_get entry_hi_vpn (cpu u) = cp0_get entry_hi_vpn (cpu t)"
      "cp0_get entry_hi_asid (cpu u) = cp0_get entry_hi_asid (cpu t)" "cp0_get pagemask_mask (cpu u) = 0"
      "lo_valid vaddr (cpu u)" "lo_dirty vaddr (cpu u)" "k < length (tlb u)" for u k attr'
    using that regs assms(1) by (intro tlb_write_then_hit) simp_all
  show ?thesis by (intro exI [of _ t] conjI t regs entry vector allI impI retry) auto
qed

text \<open>The attributes of a load, and the reset state, where no page but page pair 0 is in the TLB.\<close>

abbreviation load_attr :: mmu_attr_t where
  "load_attr \<equiv> \<lparr>rwbit = MMU_LOAD, exbit = True, dirty = False, miss = False\<rparr>"

abbreviation reset_state :: nemu where "reset_state \<equiv> nemu_globals MODE_BATCH (\<lambda>_. 0) 0"

lemma reset_state_tlb:
  "tlb reset_state = replicate 32 zero_tlb_entry" "cp0_get f (cpu reset_state) = 0"
  by (cases f; simp add: nemu_globals_def zero_cpu_def cp0_get.simps bf_get_def)+

theorem tlb_refill_then_hit_witness:
  "\<exists>t w. page_translate mips32r1_defconfig 0x00401234 load_attr reset_state = Inr ((BLACKHOLE_ADDR, load_attr\<lparr>miss := True\<rparr>), t) \<and>
     br_target (cpu t) = 0x80000000 \<and> cp0_get cause_ExcCode (cpu t) = 2 \<and>
     bind_r (tlb_write 3 (on_cpu (\<lambda>c. cpr_set (2, 0) 0x146 (cpr_set (3, 0) 0x48C6 c)) t))
        (\<lambda>_. page_translate mips32r1_defconfig 0x00401234 load_attr) =
       Inr ((0x00123234, load_attr\<lparr>dirty := True\<rparr>), w)"
proof -
  let ?s = reset_state and ?h = "\<lambda>c. cpr_set (2, 0) 0x146 (cpr_set (3, 0) 0x48C6 c)"
  have miss: "\<forall>e \<in> set (tlb ?s). te_pagemask e = 0 \<and>
      \<not> tlb_hits (drop_bit 13 0x00401234) (cp0_get entry_hi_asid (cpu ?s)) e"
    by (simp add: reset_state_tlb zero_tlb_entry_def tlb_hits_def)
  have mask: "cp0_get pagemask_mask (cpu t) = 0" if "page_translate mips32r1_defconfig 0x00401234 load_attr ?s = Inr (r, t)" for r t
    using that page_translate_miss [OF miss, of load_attr mips32r1_defconfig] by (auto simp: reset_state_tlb)
  have lo: "lo_valid 0x00401234 (cpu (on_cpu ?h t))" "lo_dirty 0x00401234 (cpu (on_cpu ?h t))" "lo_pfn 0x00401234 (cpu (on_cpu ?h t)) = 0x123" for t
    by (simp_all add: lo_valid_def lo_dirty_def lo_pfn_def bf_get_def)
  obtain t where t: "page_translate mips32r1_defconfig 0x00401234 load_attr ?s = Inr ((BLACKHOLE_ADDR, load_attr\<lparr>miss := True\<rparr>), t)"
    "br_target (cpu t) = 0x80000000" "cp0_get cause_ExcCode (cpu t) = 2" "tlb t = tlb ?s"
    and retry: "\<forall>u k attr'. tlb u = tlb t \<and> cp0_get entry_hi_vpn (cpu u) = cp0_get entry_hi_vpn (cpu t) \<and>
        cp0_get entry_hi_asid (cpu u) = cp0_get entry_hi_asid (cpu t) \<and> cp0_get pagemask_mask (cpu u) = 0 \<and>
        lo_valid 0x00401234 (cpu u) \<and> lo_dirty 0x00401234 (cpu u) \<and> k < length (tlb u) \<longrightarrow>
        bind_r (tlb_write k u) (\<lambda>_. page_translate mips32r1_defconfig 0x00401234 attr') =
          Inr ((push_bit 12 (lo_pfn 0x00401234 (cpu u)) OR take_bit 12 0x00401234, attr'\<lparr>dirty := True\<rparr>),
               u\<lparr>tlb := (tlb u)[k := tlb_entry_of (cpu u)]\<rparr>)"
    using tlb_refill_then_hit [OF miss, of load_attr mips32r1_defconfig] by (auto simp: reset_state_tlb)
  have "\<exists>w. bind_r (tlb_write 3 (on_cpu ?h t)) (\<lambda>_. page_translate mips32r1_defconfig 0x00401234 load_attr) =
      Inr ((0x00123234, load_attr\<lparr>dirty := True\<rparr>), w)"
    using t(4) retry [rule_format, of "on_cpu ?h t" 3 load_attr] lo [of t] mask [OF t(1)] by (simp add: reset_state_tlb)
  then show ?thesis using t(1-3) by blast
qed



text \<open>
  Pages larger than 4 KB do not work: once the first TLB entry has a page mask, every access to
  a mapped address ends the emulator with a failed assertion, whether the entry matches or not.
\<close>

theorem page_mask_aborts:
  assumes "tlb s = e # es" and "te_pagemask e \<noteq> 0"
  shows "page_translate cfg vaddr attr s = Inl (AssertFail, s)"
  using assms by (simp add: page_translate_eq pagemask_ok_iff)

theorem page_mask_aborts_witness:
  "page_translate mips32r1_defconfig 0x00401234 load_attr
     (reset_state\<lparr>tlb := (tlb reset_state)[0 := zero_tlb_entry\<lparr>te_pagemask := 3\<rparr>]\<rparr>) =
   Inl (AssertFail, reset_state\<lparr>tlb := (tlb reset_state)[0 := zero_tlb_entry\<lparr>te_pagemask := 3\<rparr>]\<rparr>)"
proof -
  have "(tlb reset_state)[0 := zero_tlb_entry\<lparr>te_pagemask := 3\<rparr>] =
      zero_tlb_entry\<lparr>te_pagemask := 3\<rparr> # replicate 31 zero_tlb_entry"
    by (simp add: reset_state_tlb numeral_eq_Suc)
  moreover have "te_pagemask (zero_tlb_entry\<lparr>te_pagemask := 3\<rparr>) \<noteq> 0" by simp
  ultimately show ?thesis by (intro page_mask_aborts) auto
qed

end
