(* ===== verification/Bus.thy ===== *)
theory Bus
  imports Uart Spi Tlb
begin

text \<open>
  The physical address space: the small devices of \<^verbatim>\<open>src/dev\<close>, the device structures with
  their function pointers (\<^verbatim>\<open>include/device.h\<close>), the list of registered devices
  (\<^verbatim>\<open>src/dev/register.c\<close>), and the table of 4 KB regions that
  \<^verbatim>\<open>init_mmio\<close> of \<^verbatim>\<open>src/cpu/memory.c\<close> fills from it.
\<close>

section \<open>Small devices\<close>

abbreviation (input) BLACKHOLE_SIZE :: u32 where "BLACKHOLE_SIZE \<equiv> 0x1000"
abbreviation (input) NEMU_TRAP_SIZE :: u32 where "NEMU_TRAP_SIZE \<equiv> 0x1000"
abbreviation (input) NEMU_CLOCK_SIZE :: u32 where "NEMU_CLOCK_SIZE \<equiv> 4"
abbreviation (input) NEMU_PMU_SIZE :: u32 where "NEMU_PMU_SIZE \<equiv> 0x1000"

definition blackhole_read :: "u32 \<Rightarrow> nat \<Rightarrow> nemu \<Rightarrow> u32 res" where
  "blackhole_read addr len s = Inr (0, s)"

definition blackhole_write :: "u32 \<Rightarrow> nat \<Rightarrow> u32 \<Rightarrow> nemu \<Rightarrow> unit res" where
  "blackhole_write addr len data s = Inr ((), s)"

definition nemu_trap_write :: "u32 \<Rightarrow> nat \<Rightarrow> u32 \<Rightarrow> nemu \<Rightarrow> unit res" where
  "nemu_trap_write addr len data s =
     bind_r (check_ioaddr addr (of_nat len) 4 s)
       (\<lambda>_ s. let s = s\<lparr>nemu_state := NEMU_END\<rparr>
              in if mode_is_batch (work_mode s) then Inl (NemuExit, s) else Inr ((), s))"

text \<open>\<^verbatim>\<open>get_current_time\<close> is the field \<open>host_time\<close>; the result is cut to 32 bits.\<close>

definition nemu_clock_read :: "u32 \<Rightarrow> nat \<Rightarrow> nemu \<Rightarrow> u32 res" where
  "nemu_clock_read addr len s =
     bind_r (check_ioaddr addr (of_nat len) NEMU_CLOCK_SIZE s)
       (\<lambda>_ s. Inr (ucast (host_time s div 1000), s))"

section \<open>Device structures\<close>

text \<open>\<^verbatim>\<open>None\<close> is a function pointer that the initialiser leaves \<^verbatim>\<open>NULL\<close>.\<close>

fun dev_start :: "config \<Rightarrow> device \<Rightarrow> u32" where
  "dev_start cfg ddr_dev = CONFIG_DDR_BASE cfg"
| "dev_start cfg bram_dev = CONFIG_BRAM_BASE cfg"
| "dev_start cfg blackhole_dev = BLACKHOLE_ADDR"
| "dev_start cfg nemu_trap_dev = CONFIG_NEMU_TRAP_BASE cfg"
| "dev_start cfg nemu_clock_dev = CONFIG_NEMU_CLOCK_BASE cfg"
| "dev_start cfg nemu_pmu_dev = CONFIG_NEMU_PMU_BASE cfg"
| "dev_start cfg xlnx_ulite_dev = CONFIG_XLNX_ULITE_BASE cfg"
| "dev_start cfg xlnx_spi_dev = CONFIG_XLNX_SPI_BASE cfg"

fun dev_size :: "device \<Rightarrow> u32" where
  "dev_size ddr_dev = DDR_SIZE"
| "dev_size bram_dev = BRAM_SIZE"
| "dev_size blackhole_dev = BLACKHOLE_SIZE"
| "dev_size nemu_trap_dev = NEMU_TRAP_SIZE"
| "dev_size nemu_clock_dev = NEMU_CLOCK_SIZE"
| "dev_size nemu_pmu_dev = NEMU_PMU_SIZE"
| "dev_size xlnx_ulite_dev = XLNX_ULITE_SIZE"
| "dev_size xlnx_spi_dev = SPI_SIZE"

fun dev_init :: "device \<Rightarrow> (nemu \<Rightarrow> unit res) option" where
  "dev_init xlnx_ulite_dev = Some (\<lambda>s. Inr ((), xlnx_ulite_init s))"
| "dev_init xlnx_spi_dev = Some xlnx_spi_init"
| "dev_init _ = None"

fun dev_read :: "device \<Rightarrow> (u32 \<Rightarrow> nat \<Rightarrow> nemu \<Rightarrow> u32 res) option" where
  "dev_read ddr_dev = Some ddr_read"
| "dev_read bram_dev = Some bram_read"
| "dev_read blackhole_dev = Some blackhole_read"
| "dev_read nemu_trap_dev = None"
| "dev_read nemu_clock_dev = Some nemu_clock_read"
| "dev_read nemu_pmu_dev = None"
| "dev_read xlnx_ulite_dev = Some xlnx_ulite_read"
| "dev_read xlnx_spi_dev = Some xlnx_spi_read"

fun dev_write :: "device \<Rightarrow> (u32 \<Rightarrow> nat \<Rightarrow> u32 \<Rightarrow> nemu \<Rightarrow> unit res) option" where
  "dev_write ddr_dev = Some ddr_write"
| "dev_write bram_dev = Some bram_write"
| "dev_write blackhole_dev = Some blackhole_write"
| "dev_write nemu_trap_dev = Some nemu_trap_write"
| "dev_write nemu_clock_dev = None"
| "dev_write nemu_pmu_dev = None"
| "dev_write xlnx_ulite_dev = Some xlnx_ulite_write"
| "dev_write xlnx_spi_dev = Some xlnx_spi_write"

fun dev_map :: "device \<Rightarrow> (u32 \<Rightarrow> u32 \<Rightarrow> nemu \<Rightarrow> host_ptr res) option" where
  "dev_map ddr_dev = Some ddr_map"
| "dev_map bram_dev = Some bram_map"
| "dev_map _ = None"

fun dev_peek :: "device \<Rightarrow> (u32 \<Rightarrow> nat \<Rightarrow> nemu \<Rightarrow> u32 res) option" where
  "dev_peek ddr_dev = Some ddr_read"
| "dev_peek bram_dev = Some bram_read"
| "dev_peek nemu_clock_dev = Some nemu_clock_read"
| "dev_peek xlnx_ulite_dev = Some xlnx_ulite_peek"
| "dev_peek _ = None"

text \<open>
  The list of devices: each constructor function puts its device in front. The order in which the
  constructors run is the linker's; the results below hold for every order.
\<close>

definition register_device :: "device \<Rightarrow> device list \<Rightarrow> device list" where
  "register_device dev device_list_head = dev # device_list_head"

text \<open>The devices of a build (\<^verbatim>\<open>cfiles-$(CONFIG_...)\<close> of the \<^verbatim>\<open>Makefile\<close>).\<close>

fun dev_configured :: "config \<Rightarrow> device \<Rightarrow> bool" where
  "dev_configured cfg ddr_dev = CONFIG_DDR cfg"
| "dev_configured cfg bram_dev = CONFIG_BRAM cfg"
| "dev_configured cfg blackhole_dev = True"
| "dev_configured cfg nemu_trap_dev = CONFIG_NEMU_TRAP cfg"
| "dev_configured cfg nemu_clock_dev = CONFIG_NEMU_CLOCK cfg"
| "dev_configured cfg nemu_pmu_dev = CONFIG_NEMU_PMU cfg"
| "dev_configured cfg xlnx_ulite_dev = CONFIG_XLNX_ULITE cfg"
| "dev_configured cfg xlnx_spi_dev = CONFIG_XLNX_SPI cfg"

section \<open>The table of regions\<close>

definition mr_index :: "u32 \<Rightarrow> nat" where
  "mr_index addr = unat (addr div (4 * 1024))"

definition ioremap :: "u32 \<Rightarrow> u32" where
  "ioremap vaddr = vaddr AND 0x1FFFFFFF"

definition find_device :: "u32 \<Rightarrow> nemu \<Rightarrow> device option" where
  "find_device addr s = memory_regions s (mr_index (ioremap addr))"

text \<open>
  The loop of \<^verbatim>\<open>realize_device\<close> counts in \<^verbatim>\<open>uint32_t\<close>. It ends even when the
  counter wraps around, because every round takes a free entry of the table or fails.
\<close>

lemma mr_index_eq: "mr_index a = unat a div 4096"
  by (simp add: mr_index_def unat_div_distrib)

lemma mr_index_less: "mr_index a < 1048576"
  using unat_u32_less [of a] by (simp add: mr_index_eq)

definition free_regions :: "nemu \<Rightarrow> nat set" where
  "free_regions s = {k. k < 1024 * 1024 \<and> memory_regions s k = None}"

function realize_loop :: "device \<Rightarrow> u32 \<Rightarrow> u32 \<Rightarrow> nemu \<Rightarrow> unit res" where
  "realize_loop dev e i s =
     (if i < e then
        (if memory_regions s (mr_index i) \<noteq> None then Inl (AssertFail, s)
         else realize_loop dev e (i + 4 * 1024)
                (s\<lparr>memory_regions := (memory_regions s)(mr_index i := Some dev)\<rparr>))
      else Inr ((), s))"
  by pat_completeness auto

termination
proof (relation "measure (\<lambda>(dev, e, i, s). card (free_regions s))")
  fix dev :: device and e i :: u32 and s :: nemu
  assume "\<not> memory_regions s (mr_index i) \<noteq> None"
  then have "mr_index i \<in> free_regions s" by (simp add: free_regions_def mr_index_less)
  moreover have "free_regions (s\<lparr>memory_regions := (memory_regions s)(mr_index i := Some dev)\<rparr>)
      = free_regions s - {mr_index i}"
    by (auto simp: free_regions_def)
  moreover have "finite (free_regions s)" by (simp add: free_regions_def)
  ultimately show "((dev, e, i + 4 * 1024, s\<lparr>memory_regions := (memory_regions s)(mr_index i := Some dev)\<rparr>),
      (dev, e, i, s)) \<in> measure (\<lambda>(dev, e, i, s). card (free_regions s))"
    using card_Diff1_less [of "free_regions s" "mr_index i"] by (simp del: card_Diff_insert card_Diff_singleton)
qed simp

declare realize_loop.simps [simp del]

definition realize_device :: "config \<Rightarrow> device \<Rightarrow> nemu \<Rightarrow> unit res" where
  "realize_device cfg dev s =
     (if dev_start cfg dev AND 0xFFF \<noteq> 0 then Inl (AssertFail, s)
      else bind_r (realize_loop dev (dev_start cfg dev + dev_size dev) (dev_start cfg dev) s)
             (\<lambda>_ s. case dev_init dev of Some init \<Rightarrow> init s | None \<Rightarrow> Inr ((), s)))"

fun init_mmio :: "config \<Rightarrow> device list \<Rightarrow> nemu \<Rightarrow> unit res" where
  "init_mmio cfg [] s = Inr ((), s)"
| "init_mmio cfg (dev # devs) s = bind_r (realize_device cfg dev s) (\<lambda>_ s. init_mmio cfg devs s)"

definition is_unmapped :: "u32 \<Rightarrow> bool" where
  "is_unmapped addr \<longleftrightarrow> 0x80000000 \<le> addr \<and> addr < 0xC0000000"

definition is_uncached :: "u32 \<Rightarrow> bool" where
  "is_uncached addr \<longleftrightarrow> 0xA0000000 \<le> addr \<and> addr < 0xC0000000"

definition vaddr_map :: "config \<Rightarrow> u32 \<Rightarrow> u32 \<Rightarrow> nemu \<Rightarrow> host_ptr res" where
  "vaddr_map cfg addr len s =
     (if \<not> is_unmapped addr then Inl (Panic, s)
      else let addr = ioremap addr
           in case find_device addr s of
                None \<Rightarrow> Inl (Panic, s)
              | Some dev \<Rightarrow>
                  (case dev_map dev of
                     None \<Rightarrow> Inl (Panic, s)
                   | Some mp \<Rightarrow> mp (addr - dev_start cfg dev) len s))"

definition paddr_peek :: "config \<Rightarrow> u32 \<Rightarrow> nat \<Rightarrow> nemu \<Rightarrow> u32 res" where
  "paddr_peek cfg addr len s =
     (case find_device addr s of
        None \<Rightarrow> Inl (CPUAbort, s)
      | Some dev \<Rightarrow>
          (case dev_peek dev of
             None \<Rightarrow> Inl (CPUAbort, s)
           | Some pk \<Rightarrow> pk (addr - dev_start cfg dev) len s))"

section \<open>What the table holds after initialisation\<close>

text \<open>The 4 KB regions that a device occupies.\<close>

definition dev_pages :: "config \<Rightarrow> device \<Rightarrow> nat set" where
  "dev_pages cfg dev =
     {k. unat (dev_start cfg dev) div 4096 \<le> k \<and> 4096 * k < unat (dev_start cfg dev) + unat (dev_size dev)}"

definition fill_regions :: "nat set \<Rightarrow> device \<Rightarrow> nemu \<Rightarrow> nemu" where
  "fill_regions ks dev s = s\<lparr>memory_regions := (\<lambda>k. if k \<in> ks then Some dev else memory_regions s k)\<rparr>"

lemma fill_regions_Un: "fill_regions A dev (fill_regions B dev s) = fill_regions (A \<union> B) dev s"
  by (auto simp: fill_regions_def fun_eq_iff)

lemma fill_regions_empty: "fill_regions {} dev s = s"
  by (simp add: fill_regions_def)

lemma unat_next_page: "unat (i :: u32) < 2 ^ 32 - 4096 \<Longrightarrow> unat (i + 4096) = unat i + 4096"
  using unat_add_small [of i 4096] by simp

lemma realize_loop_fill:
  assumes "4096 dvd unat i" and "unat e \<le> 2 ^ 32 - 4096"
    and "\<And>k. unat i div 4096 \<le> k \<Longrightarrow> 4096 * k < unat e \<Longrightarrow> memory_regions s k = None"
  shows "realize_loop dev e i s =
     Inr ((), fill_regions {k. unat i div 4096 \<le> k \<and> 4096 * k < unat e} dev s)"
  using assms
proof (induction dev e i s rule: realize_loop.induct)
  case (1 dev e i s)
  show ?case
  proof (cases "i < e")
    case False
    then have "{k. unat i div 4096 \<le> k \<and> 4096 * k < unat e} = {}"
      using 1(2) by (auto simp: word_less_nat_alt)
    then show ?thesis using False by (simp add: realize_loop.simps fill_regions_empty del: Collect_empty_eq)
  next
    case True
    then have lt: "unat i < unat e" by (simp add: word_less_nat_alt)
    then have ni: "unat (i + 4096) = unat i + 4096" using 1(3) by (intro unat_next_page) simp
    let ?s = "s\<lparr>memory_regions := (memory_regions s)(mr_index i := Some dev)\<rparr>"
    have free: "memory_regions s (mr_index i) = None"
      using 1(4) [of "mr_index i"] 1(2) lt by (simp add: mr_index_eq)
    have "realize_loop dev e (i + 4096) ?s =
        Inr ((), fill_regions {k. unat (i + 4096) div 4096 \<le> k \<and> 4096 * k < unat e} dev ?s)"
      using 1(1) [OF True] free 1(2,3,4) ni by (simp add: mr_index_eq)
    moreover have "?s = fill_regions {mr_index i} dev s" by (simp add: fill_regions_def fun_upd_def)
    moreover have "{k. unat (i + 4096) div 4096 \<le> k \<and> 4096 * k < unat e} \<union> {mr_index i} =
        {k. unat i div 4096 \<le> k \<and> 4096 * k < unat e}"
      using 1(2) lt ni by (auto simp: mr_index_eq)
    ultimately show ?thesis
      using True free by (subst realize_loop.simps) (simp add: fill_regions_Un)
  qed
qed

text \<open>A device can be placed where it is aligned and ends before the last page of the address space.\<close>

definition dev_placed :: "config \<Rightarrow> device \<Rightarrow> bool" where
  "dev_placed cfg dev \<longleftrightarrow> 4096 dvd unat (dev_start cfg dev) \<and>
     unat (dev_start cfg dev) + unat (dev_size dev) \<le> 2 ^ 32 - 4096"

lemma aligned_page: "4096 dvd unat (w :: u32) \<longleftrightarrow> w AND 0xFFF = 0"
proof -
  have "unat (take_bit 12 w) = unat w mod 4096" 
    by (simp only: unsigned_take_bit_eq) (simp add: take_bit_eq_mod)
  then show ?thesis unfolding and_mask_u32 by (metis mod_0_imp_dvd mod_eq_0_iff_dvd unat_0 unat_eq_zero)
qed

text \<open>What initialising a device does: only the SPI controller changes something.\<close>

definition dev_up :: "device \<Rightarrow> nemu \<Rightarrow> nemu" where
  "dev_up dev s = (if dev = xlnx_spi_dev then spi_up s else s)"

lemma dev_init_up:
  "spi_loadable (spi s) \<Longrightarrow> (case dev_init dev of Some init \<Rightarrow> init s | None \<Rightarrow> Inr ((), s)) = Inr ((), dev_up dev s)"
  by (cases dev) (simp_all add: dev_up_def xlnx_spi_init_up xlnx_ulite_init_def)

lemma dev_up_regions [simp]: "memory_regions (dev_up dev s) = memory_regions s"
  by (simp add: dev_up_def spi_up_def)

lemma realize_device_fill:
  assumes "dev_placed cfg dev" and "dev = xlnx_spi_dev \<Longrightarrow> spi_loadable (spi s)"
    and "\<And>k. k \<in> dev_pages cfg dev \<Longrightarrow> memory_regions s k = None"
  shows "realize_device cfg dev s = Inr ((), dev_up dev (fill_regions (dev_pages cfg dev) dev s))"
proof -
  have "unat (dev_start cfg dev + dev_size dev) = unat (dev_start cfg dev) + unat (dev_size dev)"
    using assms(1) by (intro unat_add_small) (simp add: dev_placed_def)
  then have "realize_loop dev (dev_start cfg dev + dev_size dev) (dev_start cfg dev) s =
      Inr ((), fill_regions (dev_pages cfg dev) dev s)"
    using realize_loop_fill [of "dev_start cfg dev" "dev_start cfg dev + dev_size dev" s dev] assms
    by (simp add: dev_placed_def dev_pages_def)
  then show ?thesis
    using assms(1,2) dev_init_up [of "fill_regions (dev_pages cfg dev) dev s" dev]
    by (cases dev) (simp_all add: realize_device_def dev_placed_def aligned_page dev_up_def xlnx_ulite_init_def fill_regions_def)
qed

definition devs_disjoint :: "config \<Rightarrow> device list \<Rightarrow> bool" where
  "devs_disjoint cfg devs \<longleftrightarrow> distinct devs \<and>
     (\<forall>d \<in> set devs. \<forall>e \<in> set devs. d \<noteq> e \<longrightarrow> dev_pages cfg d \<inter> dev_pages cfg e = {})"

definition devs_up :: "device list \<Rightarrow> nemu \<Rightarrow> nemu" where
  "devs_up devs s = (if xlnx_spi_dev \<in> set devs then spi_up s else s)"

lemma devs_up_Cons:
  "distinct (d # ds) \<Longrightarrow> devs_up ds (dev_up d (fill_regions ks d s))\<lparr>memory_regions := m\<rparr> = (devs_up (d # ds) s)\<lparr>memory_regions := m\<rparr>"
  by (auto simp: devs_up_def dev_up_def spi_up_def fill_regions_def on_cpu_def)

lemma dev_up_loadable: "d \<noteq> xlnx_spi_dev \<Longrightarrow> spi (dev_up d (fill_regions ks d s)) = spi s"
  by (simp add: dev_up_def fill_regions_def)

lemma init_mmio_fill:
  assumes "\<forall>d \<in> set devs. dev_placed cfg d" and "devs_disjoint cfg devs"
    and "\<And>d k. d \<in> set devs \<Longrightarrow> k \<in> dev_pages cfg d \<Longrightarrow> memory_regions s k = None"
    and "xlnx_spi_dev \<in> set devs \<Longrightarrow> spi_loadable (spi s)"
  shows "\<exists>m. init_mmio cfg devs s = Inr ((), (devs_up devs s)\<lparr>memory_regions := m\<rparr>) \<and>
     (\<forall>k. m k = (case find (\<lambda>d. k \<in> dev_pages cfg d) devs of Some d \<Rightarrow> Some d | None \<Rightarrow> memory_regions s k))"
  using assms
proof (induction devs arbitrary: s)
  case Nil
  then show ?case by (auto simp: devs_up_def intro: exI [of _ "memory_regions s"])
next
  case (Cons d ds)
  let ?s = "dev_up d (fill_regions (dev_pages cfg d) d s)"
  have disj: "\<And>e. e \<in> set ds \<Longrightarrow> dev_pages cfg d \<inter> dev_pages cfg e = {}"
    using Cons.prems(2) by (auto simp: devs_disjoint_def)
  have dist: "distinct (d # ds)" using Cons.prems(2) by (simp add: devs_disjoint_def)
  have "devs_disjoint cfg ds" using Cons.prems(2) by (auto simp: devs_disjoint_def)
  moreover have "memory_regions ?s k = None" if "e \<in> set ds" "k \<in> dev_pages cfg e" for e k
    using that disj [of e] Cons.prems(3) [of e k] by (auto simp: fill_regions_def)
  moreover have "spi_loadable (spi ?s)" if "xlnx_spi_dev \<in> set ds"
    using that dist Cons.prems(4) by (cases "d = xlnx_spi_dev") (auto simp: dev_up_loadable)
  ultimately obtain m where s': "init_mmio cfg ds ?s = Inr ((), (devs_up ds ?s)\<lparr>memory_regions := m\<rparr>)"
    and m: "\<And>k. m k = (case find (\<lambda>d. k \<in> dev_pages cfg d) ds of Some d \<Rightarrow> Some d | None \<Rightarrow> memory_regions ?s k)"
    using Cons.IH [of ?s] Cons.prems(1) by auto
  have "find (\<lambda>d. k \<in> dev_pages cfg d) ds = None" if "k \<in> dev_pages cfg d" for k
    using that disj by (auto simp: find_None_iff)
  then have "m k = (case find (\<lambda>d. k \<in> dev_pages cfg d) (d # ds) of
      Some d \<Rightarrow> Some d | None \<Rightarrow> memory_regions s k)" for k
    using m [of k] by (auto simp: fill_regions_def split: option.splits)
  moreover have "init_mmio cfg (d # ds) s = Inr ((), (devs_up (d # ds) s)\<lparr>memory_regions := m\<rparr>)"
    using s' realize_device_fill [of cfg d s] Cons.prems(1,4) Cons.prems(3) [of d] devs_up_Cons [OF dist] by auto
  ultimately show ?case by blast
qed

text \<open>The default configuration places its devices apart, whatever the order they registered in.\<close>

lemma defconfig_placed: "dev_placed mips32r1_defconfig d"
  by (cases d) (simp_all add: dev_placed_def mips32r1_defconfig_def)

lemma defconfig_pages:
  "dev_pages mips32r1_defconfig ddr_dev = {0..<0x10000}"
  "dev_pages mips32r1_defconfig nemu_trap_dev = {0x10000}"
  "dev_pages mips32r1_defconfig nemu_clock_dev = {0x10002}"
  "dev_pages mips32r1_defconfig bram_dev = {0x1fc00..<0x1fd00}"
  "dev_pages mips32r1_defconfig xlnx_ulite_dev = {0x1fe50}"
  "dev_pages mips32r1_defconfig xlnx_spi_dev = {0x1fe80}"
  "dev_pages mips32r1_defconfig nemu_pmu_dev = {0x1fe95}"
  "dev_pages mips32r1_defconfig blackhole_dev = {0x1fe96}"
  by (auto simp: dev_pages_def mips32r1_defconfig_def)

lemma defconfig_disjoint: "distinct devs \<Longrightarrow> devs_disjoint mips32r1_defconfig devs"
  unfolding devs_disjoint_def
proof (intro conjI ballI impI)
  fix d e :: device
  assume "d \<noteq> e"
  then show "dev_pages mips32r1_defconfig d \<inter> dev_pages mips32r1_defconfig e = {}"
    by (cases d; cases e) (simp_all add: defconfig_pages)
qed

lemma find_device_page: "find_device a s = memory_regions s (unat (ioremap a) div 4096)"
  by (simp add: find_device_def mr_index_eq)

text \<open>The device that a physical address of the default configuration belongs to.\<close>

definition defconfig_device :: "u32 \<Rightarrow> device option" where
  "defconfig_device a =
     (if a < 0x10000000 then Some ddr_dev
      else if 0x10000000 \<le> a \<and> a < 0x10001000 then Some nemu_trap_dev
      else if 0x10002000 \<le> a \<and> a < 0x10003000 then Some nemu_clock_dev
      else if 0x1fc00000 \<le> a \<and> a < 0x1fd00000 then Some bram_dev
      else if 0x1fe50000 \<le> a \<and> a < 0x1fe51000 then Some xlnx_ulite_dev
      else if 0x1fe80000 \<le> a \<and> a < 0x1fe81000 then Some xlnx_spi_dev
      else if 0x1fe95000 \<le> a \<and> a < 0x1fe96000 then Some nemu_pmu_dev
      else if 0x1fe96000 \<le> a \<and> a < 0x1fe97000 then Some blackhole_dev
      else None)"

lemma defconfig_device_iff:
  "defconfig_device a = Some d \<longleftrightarrow> unat a div 4096 \<in> dev_pages mips32r1_defconfig d"
proof -
  have div: "n \<le> unat a div 4096 \<longleftrightarrow> 4096 * n \<le> unat a" "unat a div 4096 < n \<longleftrightarrow> unat a < 4096 * n"
    "unat a div 4096 = n \<longleftrightarrow> 4096 * n \<le> unat a \<and> unat a < 4096 * n + 4096" for n
    by linarith+
  show ?thesis
    by (cases d) (auto simp: defconfig_device_def defconfig_pages div word_less_nat_alt word_le_nat_alt)
qed

lemma case_option_id: "(case x of None \<Rightarrow> None | Some y \<Rightarrow> Some y) = x"
  by (cases x) simp_all

lemma find_unique:
  assumes "x \<in> set xs" and "P x" and "\<And>y. y \<in> set xs \<Longrightarrow> P y \<Longrightarrow> y = x"
  shows "find P xs = Some x"
proof -
  obtain y where "find P xs = Some y" using assms(1,2) by (cases "find P xs") (auto simp: find_None_iff)
  then show ?thesis using assms(3) [of y] by (auto simp: find_Some_iff)
qed

lemma init_mmio_defconfig:
  assumes "distinct devs" and "set devs = {d. dev_configured mips32r1_defconfig d}"
    and "\<And>k. memory_regions s k = None" and "spi_loadable (spi s)"
  shows "\<exists>m. init_mmio mips32r1_defconfig devs s = Inr ((), (spi_up s)\<lparr>memory_regions := m\<rparr>) \<and>
     (\<forall>a. find_device a ((spi_up s)\<lparr>memory_regions := m\<rparr>) = defconfig_device (ioremap a))"
proof -
  let ?cfg = mips32r1_defconfig
  have all: "d \<in> set devs" for d
    using assms(2) by (cases d) (simp_all add: mips32r1_defconfig_def)
  obtain m where m: "init_mmio ?cfg devs s = Inr ((), (devs_up devs s)\<lparr>memory_regions := m\<rparr>)"
    "\<And>k. m k = find (\<lambda>d. k \<in> dev_pages ?cfg d) devs"
    using init_mmio_fill [OF _ defconfig_disjoint [OF assms(1)], of s] assms(4)
    by (simp add: defconfig_placed assms(3) case_option_id cong: option.case_cong) blast
  have "m (unat (ioremap a) div 4096) = defconfig_device (ioremap a)" for a
  proof (cases "defconfig_device (ioremap a)")
    case None
    then have "find (\<lambda>d. unat (ioremap a) div 4096 \<in> dev_pages ?cfg d) devs = None"
      using defconfig_device_iff [of "ioremap a"] by (auto simp: find_None_iff)
    then show ?thesis using None m(2) by simp
  next
    case (Some d)
    then have "find (\<lambda>d. unat (ioremap a) div 4096 \<in> dev_pages ?cfg d) devs = Some d"
      using all by (intro find_unique) (simp_all flip: defconfig_device_iff)
    then show ?thesis using Some m(2) by simp
  qed
  then show ?thesis using m(1) all by (auto simp: devs_up_def find_device_page)
qed

section \<open>Properties\<close>

text \<open>
  The address space of the default configuration. Whatever order the devices registered in,
  \<^verbatim>\<open>init_mmio\<close> terminates without a conflict when the flash memory's file can be loaded. It
  changes nothing but the table of regions, the SPI controller, which is then reset with the flash
  memory loaded, and interrupt line 5, which is dropped; afterwards every physical address is served by
  the device whose range contains its page, and by none outside these ranges.
\<close>

theorem init_mmio_device_map:
  assumes "distinct devs" and "set devs = {d. dev_configured mips32r1_defconfig d}"
    and "\<forall>k. memory_regions s k = None" and "spi_loadable (spi s)"
  shows "\<exists>m t. init_mmio mips32r1_defconfig devs s = Inr ((), t) \<and>
     t = on_cpu spi_irq_off (s\<lparr>memory_regions := m, spi := spi_started (fl_blkio_file (flash (spi s)))\<rparr>) \<and>
     spi_wf (spi t) \<and> (\<forall>a. find_device a t = defconfig_device (ioremap a))"
proof -
  obtain m where "init_mmio mips32r1_defconfig devs s = Inr ((), (spi_up s)\<lparr>memory_regions := m\<rparr>)"
    "\<forall>a. find_device a ((spi_up s)\<lparr>memory_regions := m\<rparr>) = defconfig_device (ioremap a)"
    using init_mmio_defconfig [OF assms(1,2) _ assms(4)] assms(3) by blast
  moreover have "(spi_up s)\<lparr>memory_regions := m\<rparr> =
      on_cpu spi_irq_off (s\<lparr>memory_regions := m, spi := spi_started (fl_blkio_file (flash (spi s)))\<rparr>)"
    by (simp add: spi_up_def on_cpu_def)
  ultimately show ?thesis using spi_started_wf by auto
qed

definition defconfig_devs :: "device list" where
  "defconfig_devs = [xlnx_spi_dev, xlnx_ulite_dev, nemu_pmu_dev, nemu_clock_dev, nemu_trap_dev, ddr_dev, bram_dev, blackhole_dev]"

lemma defconfig_devs: "distinct defconfig_devs" "set defconfig_devs = {d. dev_configured mips32r1_defconfig d}"
proof -
  have "d \<in> set defconfig_devs \<and> dev_configured mips32r1_defconfig d" for d
    by (cases d) (simp_all add: defconfig_devs_def mips32r1_defconfig_def)
  then show "set defconfig_devs = {d. dev_configured mips32r1_defconfig d}" by blast
qed (simp add: defconfig_devs_def)

lemma globals_regions: "memory_regions (nemu_globals m r t) k = None" "spi_loadable (spi (nemu_globals m r t))"
  by (simp_all add: nemu_globals_def globals_loadable)

theorem init_mmio_device_map_witness:
  "\<exists>t. init_mmio mips32r1_defconfig defconfig_devs (nemu_globals MODE_BATCH (\<lambda>_. 0) 0) = Inr ((), t) \<and>
     find_device 0xbfc00000 t = Some bram_dev \<and> find_device 0x80001000 t = Some ddr_dev \<and>
     find_device 0xbfe80060 t = Some xlnx_spi_dev \<and> find_device 0xb1000000 t = None"
proof -
  obtain t where t: "init_mmio mips32r1_defconfig defconfig_devs (nemu_globals MODE_BATCH (\<lambda>_. 0) 0) = Inr ((), t)"
    "\<And>a. find_device a t = defconfig_device (ioremap a)"
    using init_mmio_device_map [OF defconfig_devs _ globals_regions(2), of MODE_BATCH "\<lambda>_. 0" 0] globals_regions(1) by blast
  then show ?thesis by (simp add: defconfig_device_def ioremap_def)
qed

end
