(* ===== verification/Vmem.thy ===== *)
theory Vmem
  imports Bus
begin

text \<open>
  Virtual memory accesses: the segments of \<^verbatim>\<open>include/cpu/memory.h\<close>, the cached
  translations of \<^verbatim>\<open>src/cpu/mmu-cache.h\<close>, \<^verbatim>\<open>vaddr_read\<close> and
  \<^verbatim>\<open>vaddr_write\<close> of \<^verbatim>\<open>src/cpu/cpu.c\<close>, and the debugger's accesses of
  \<^verbatim>\<open>src/cpu/memory.c\<close>.
\<close>

section \<open>Operations\<close>

definition translate_ioremap :: "config \<Rightarrow> u32 \<Rightarrow> mmu_attr_t \<Rightarrow> nemu \<Rightarrow> (u32 \<times> mmu_attr_t) res" where
  "translate_ioremap cfg addr attr s =
     bind_r (page_translate cfg addr attr s) (\<lambda>(paddr, attr) s. Inr ((ioremap paddr, attr), s))"

definition prot_addr_with_attr :: "config \<Rightarrow> u32 \<Rightarrow> mmu_attr_t \<Rightarrow> nemu \<Rightarrow> (u32 \<times> mmu_attr_t) res" where
  "prot_addr_with_attr cfg addr attr s =
     (let seg = drop_bit 29 addr AND 7
      in if seg = 4 \<or> seg = 5 then Inr ((ioremap addr, attr), s)
         else if seg = 7 then Inl (Panic, s)
         else if seg = 6 then
           (if \<not> CONFIG_PAGING cfg then Inr ((addr, attr), s) else translate_ioremap cfg addr attr s)
         else
           (if \<not> CONFIG_PAGING cfg \<or> cp0_get status_ERL (cpu s) \<noteq> 0 then Inr ((addr, attr), s)
            else translate_ioremap cfg addr attr s))"

definition prot_addr :: "config \<Rightarrow> u32 \<Rightarrow> mmu_rw \<Rightarrow> nemu \<Rightarrow> u32 res" where
  "prot_addr cfg addr rw s =
     bind_r (prot_addr_with_attr cfg addr \<lparr>rwbit = rw, exbit = True, dirty = False, miss = False\<rparr> s)
       (\<lambda>(paddr, _) s. Inr (paddr, s))"

definition mmu_cache_index :: "u32 \<Rightarrow> nat" where
  "mmu_cache_index vaddr = unat (drop_bit 12 vaddr AND (push_bit MMU_BITS 1 - 1))"

definition mmu_cache_id :: "u32 \<Rightarrow> u32" where
  "mmu_cache_id vaddr = drop_bit (12 + MMU_BITS) vaddr"

definition update_mmu_cache :: "config \<Rightarrow> u32 \<Rightarrow> u32 \<Rightarrow> device \<Rightarrow> bool \<Rightarrow> nemu \<Rightarrow> unit res" where
  "update_mmu_cache cfg vaddr paddr dev can_write s =
     (if has_exception (cpu s) then Inr ((), s)
      else case dev_map dev of
             None \<Rightarrow> Inr ((), s)
           | Some mp \<Rightarrow>
               (let idx = mmu_cache_index vaddr;
                    s = s\<lparr>mmu_cache := (mmu_cache s)(idx := (mmu_cache s idx)\<lparr>mc_id := mmu_cache_id vaddr\<rparr>)\<rparr>
                in bind_r (mp ((paddr AND NOT 0xFFF) - dev_start cfg dev) 0 s)
                     (\<lambda>ptr s. Inr ((), s\<lparr>mmu_cache := (mmu_cache s)(idx :=
                        (mmu_cache s idx)\<lparr>mc_ptr := Some ptr, mc_can_write := can_write\<rparr>)\<rparr>))))"

text \<open>Access through a host pointer into one of the memories.\<close>

fun ram_bytes :: "ram \<Rightarrow> nemu \<Rightarrow> nat \<Rightarrow> u8" where
  "ram_bytes Ram_ddr s = ddr s"
| "ram_bytes Ram_bram s = bram s"

fun ram_put :: "ram \<Rightarrow> (nat \<Rightarrow> u8) \<Rightarrow> nemu \<Rightarrow> nemu" where
  "ram_put Ram_ddr m s = s\<lparr>ddr := m\<rparr>"
| "ram_put Ram_bram m s = s\<lparr>bram := m\<rparr>"

fun host_read :: "host_ptr option \<Rightarrow> u32 \<Rightarrow> nat \<Rightarrow> nemu \<Rightarrow> u32 res" where
  "host_read None off len s = Inl (UndefinedBehaviour, s)"
| "host_read (Some (r, a)) off len s =
     (if 1 \<le> len \<and> len \<le> 4 then Inr (mem_read (ram_bytes r s) (a + unat off) len, s)
      else Inl (UndefinedBehaviour, s))"

fun host_write :: "host_ptr option \<Rightarrow> u32 \<Rightarrow> nat \<Rightarrow> u32 \<Rightarrow> nemu \<Rightarrow> unit res" where
  "host_write None off len data s = Inl (UndefinedBehaviour, s)"
| "host_write (Some (r, a)) off len data s =
     (if len \<le> 4 then Inr ((), ram_put r (mem_write (ram_bytes r s) (a + unat off) len data) s)
      else Inl (UndefinedBehaviour, s))"

definition vaddr_read :: "config \<Rightarrow> u32 \<Rightarrow> nat \<Rightarrow> nemu \<Rightarrow> u32 res" where
  "vaddr_read cfg addr len s =
     (let idx = mmu_cache_index addr
      in if CONFIG_MMU_CACHE cfg \<and> mc_id (mmu_cache s idx) = mmu_cache_id addr
         then host_read (mc_ptr (mmu_cache s idx)) (addr AND 0xFFF) len s
         else bind_r (prot_addr_with_attr cfg addr
                        \<lparr>rwbit = MMU_LOAD, exbit = True, dirty = False, miss = False\<rparr> s)
           (\<lambda>(paddr, attr) s.
              case find_device paddr s of
                None \<Rightarrow> Inl (CPUAbort, s)
              | Some dev \<Rightarrow>
                  (case dev_read dev of
                     None \<Rightarrow> Inl (CPUAbort, s)
                   | Some rd \<Rightarrow>
                       bind_r (update_mmu_cache cfg addr paddr dev (dirty attr) s)
                         (\<lambda>_ s. rd (paddr - dev_start cfg dev) len s))))"

definition vaddr_write :: "config \<Rightarrow> u32 \<Rightarrow> nat \<Rightarrow> u32 \<Rightarrow> nemu \<Rightarrow> unit res" where
  "vaddr_write cfg addr len data s =
     (let idx = mmu_cache_index addr
      in if CONFIG_MMU_CACHE cfg \<and> mc_id (mmu_cache s idx) = mmu_cache_id addr
            \<and> mc_can_write (mmu_cache s idx)
         then host_write (mc_ptr (mmu_cache s idx)) (addr AND 0xFFF) len data s
         else bind_r (prot_addr cfg addr MMU_STORE s)
           (\<lambda>paddr s.
              case find_device paddr s of
                None \<Rightarrow> Inl (CPUAbort, s)
              | Some dev \<Rightarrow>
                  (case dev_write dev of
                     None \<Rightarrow> Inl (CPUAbort, s)
                   | Some wr \<Rightarrow>
                       bind_r (update_mmu_cache cfg addr paddr dev True s)
                         (\<lambda>_ s. wr (paddr - dev_start cfg dev) len data s))))"

definition dbg_vaddr_read :: "config \<Rightarrow> u32 \<Rightarrow> nat \<Rightarrow> nemu \<Rightarrow> u32 res" where
  "dbg_vaddr_read cfg addr len s =
     bind_r (prot_addr_with_attr cfg addr \<lparr>rwbit = MMU_LOAD, exbit = False, dirty = False, miss = False\<rparr> s)
       (\<lambda>(addr, _) s.
          case find_device addr s of
            None \<Rightarrow> Inr (0, s)
          | Some dev \<Rightarrow>
              (case dev_read dev of
                 None \<Rightarrow> Inr (0, s)
               | Some rd \<Rightarrow> rd (addr - dev_start cfg dev) len s))"

definition dbg_vaddr_write :: "config \<Rightarrow> u32 \<Rightarrow> nat \<Rightarrow> u32 \<Rightarrow> nemu \<Rightarrow> unit res" where
  "dbg_vaddr_write cfg addr len data s =
     bind_r (prot_addr_with_attr cfg addr \<lparr>rwbit = MMU_STORE, exbit = False, dirty = False, miss = False\<rparr> s)
       (\<lambda>(addr, _) s.
          case find_device addr s of
            None \<Rightarrow> Inr ((), s)
          | Some dev \<Rightarrow>
              (case dev_write dev of
                 None \<Rightarrow> Inr ((), s)
               | Some wr \<Rightarrow> wr (addr - dev_start cfg dev) len data s))"

section \<open>Segments\<close>

lemma unat_seg: "unat (drop_bit 29 (a :: u32) AND 7) = unat a div 2 ^ 29"
proof -
  have "drop_bit 29 a AND 7 = take_bit 3 (drop_bit 29 a)"
    by (simp add: take_bit_eq_mask mask_eq_exp_minus_1)
  also have "\<dots> = drop_bit 29 a" by (rule bit_eqI) (auto simp: bit_simps dest: bit_imp_le_length)
  finally show ?thesis by (simp add: drop_bit_eq_div unat_div_distrib)
qed

lemma seg_eq: "drop_bit 29 (a :: u32) AND 7 = w \<longleftrightarrow> unat a div 2 ^ 29 = unat w"
  by (metis unat_seg word_unat_eqI)

lemma seg_unmapped: "drop_bit 29 (a :: u32) AND 7 = 4 \<or> drop_bit 29 a AND 7 = 5 \<longleftrightarrow> is_unmapped a"
proof -
  have "unat a div 2 ^ 29 = 4 \<or> unat a div 2 ^ 29 = 5 \<longleftrightarrow> 0x80000000 \<le> unat a \<and> unat a < 0xC0000000"
    by (simp, linarith)
  then show ?thesis by (simp add: seg_eq is_unmapped_def word_le_nat_alt word_less_nat_alt)
qed

lemma prot_addr_unmapped:
  "is_unmapped addr \<Longrightarrow> prot_addr_with_attr cfg addr attr s = Inr ((ioremap addr, attr), s)"
  using seg_unmapped [of addr] by (simp add: prot_addr_with_attr_def Let_def)

text \<open>User addresses and the supervisor segment go through the TLB.\<close>

definition is_mapped :: "u32 \<Rightarrow> bool" where
  "is_mapped addr \<longleftrightarrow> addr < 0x80000000 \<or> 0xC0000000 \<le> addr \<and> addr < 0xE0000000"

lemma prot_addr_mapped:
  assumes "is_mapped addr" and "CONFIG_PAGING cfg" and "cp0_get status_ERL (cpu s) = 0"
  shows "prot_addr_with_attr cfg addr attr s = translate_ioremap cfg addr attr s"
proof -
  have "unat addr div 2 ^ 29 \<noteq> 4 \<and> unat addr div 2 ^ 29 \<noteq> 5 \<and> unat addr div 2 ^ 29 \<noteq> 7"
    using assms(1) by (auto simp: is_mapped_def word_le_nat_alt word_less_nat_alt)
  then show ?thesis using assms(2,3) by (simp add: prot_addr_with_attr_def Let_def seg_eq)
qed

lemma ioremap_take_bit: "ioremap a = take_bit 29 a"
  by (simp add: ioremap_def and_mask_u32)

lemma ioremap_idem [simp]: "ioremap (ioremap a) = ioremap a"
  by (simp add: ioremap_take_bit)

lemma find_device_ioremap [simp]: "find_device (ioremap a) s = find_device a s"
  by (simp add: find_device_def)

section \<open>Memories behind the bus\<close>

text \<open>
  A device that is a byte memory and can be mapped: its function pointers are the operations of the
  memory, and a mapped pointer reaches the same bytes.
\<close>

locale ram_device = byte_memory rd wr "ram_bytes r" "ram_put r" sz
  for rd wr r sz +
  fixes d :: device
    and mp :: "u32 \<Rightarrow> u32 \<Rightarrow> nemu \<Rightarrow> host_ptr res"
  assumes d_read: "dev_read d = Some rd"
    and d_write: "dev_write d = Some wr"
    and d_map: "dev_map d = Some mp"
    and mp_in: "unat a + unat n \<le> sz \<Longrightarrow> mp a n s = Inr ((r, unat a), s)"
begin

text \<open>A cached pointer to a page is as good as the device itself.\<close>

lemma host_read_device:
  assumes "unat a + unat off + len \<le> sz" and "1 \<le> len" and "len \<le> 4"
  shows "host_read (Some (r, unat a)) off len s = rd (a + off) len s"
proof -
  have "unat (a + off) = unat a + unat off"
    using assms(1) size_small by (intro unat_add_small) simp
  then show ?thesis using assms rd_in [of len "a + off" s] by simp
qed

lemma host_write_device:
  assumes "unat a + unat off + len \<le> sz" and "1 \<le> len" and "len \<le> 4"
  shows "host_write (Some (r, unat a)) off len data s = wr (a + off) len data s"
proof -
  have "unat (a + off) = unat a + unat off"
    using assms(1) size_small by (intro unat_add_small) simp
  then show ?thesis using assms wr_in [of len "a + off" data s] by simp
qed

text \<open>Entering a page into the cache changes nothing else.\<close>

lemma update_mmu_cache_ram:
  assumes "unat ((p AND NOT 0xFFF) - dev_start cfg d) \<le> sz"
  shows "\<exists>m. update_mmu_cache cfg v p d w s = Inr ((), s\<lparr>mmu_cache := m\<rparr>)"
proof (cases "has_exception (cpu s)")
  case True
  then show ?thesis by (auto simp: update_mmu_cache_def intro: exI [of _ "mmu_cache s"])
next
  case False
  then show ?thesis using assms by (simp add: update_mmu_cache_def d_map Let_def mp_in) blast
qed

end

interpretation ddr_ram: ram_device ddr_read ddr_write Ram_ddr "0x10000000" ddr_dev ddr_map
proof -
  have eq: "ram_bytes Ram_ddr = ddr" "ram_put Ram_ddr = (\<lambda>m s. s\<lparr>ddr := m\<rparr>)" by (simp_all add: fun_eq_iff)
  show "ram_device ddr_read ddr_write Ram_ddr 0x10000000 ddr_dev ddr_map"
    unfolding ram_device_def ram_device_axioms_def eq
    by (auto simp: ddr_map_def check_ioaddr_ok intro: ddr_mem.byte_memory_axioms)
qed

interpretation bram_ram: ram_device bram_read bram_write Ram_bram "0x100000" bram_dev bram_map
proof -
  have eq: "ram_bytes Ram_bram = bram" "ram_put Ram_bram = (\<lambda>m s. s\<lparr>bram := m\<rparr>)" by (simp_all add: fun_eq_iff)
  show "ram_device bram_read bram_write Ram_bram 0x100000 bram_dev bram_map"
    unfolding ram_device_def ram_device_axioms_def eq
    by (auto simp: bram_map_def check_ioaddr_ok intro: bram_mem.byte_memory_axioms)
qed

text \<open>The page of an address, relative to an aligned device.\<close>

lemma and_not_page: "w AND NOT 0xFFF = w - take_bit 12 (w :: u32)"
proof -
  have "w - take_bit 12 w = w AND NOT (take_bit 12 w)"
    by (rule disjunctive_diff_eq_and_not) (auto simp: bit_eq_iff bit_simps)
  also have "\<dots> = w AND NOT 0xFFF"
    unfolding and_mask_u32(2) [symmetric] by (auto simp only: bit_eq_iff bit_and_iff bit_not_iff)
  finally show ?thesis by simp
qed

lemma page_minus_start:
  assumes "4096 dvd unat (b :: u32)"
  shows "(p AND NOT 0xFFF) - b = (p - b) AND NOT 0xFFF"
proof -
  have b: "take_bit 12 b = 0" using assms aligned_page and_mask_u32(2) by metis
  have "uint (take_bit 12 (p - b)) = take_bit 12 (take_bit 12 (uint p) - take_bit 12 (uint b))"
    by (simp add: unsigned_take_bit_eq uint_word_arith_bintrs take_bit_diff)
  also have "\<dots> = uint (take_bit 12 p)"
    using b by (simp add: unsigned_take_bit_eq flip: unsigned_take_bit_eq [of 12 b])
  finally have "take_bit 12 (p - b) = take_bit 12 p" by (rule unsigned_word_eqI)
  then show ?thesis unfolding and_not_page by simp
qed

lemma unat_page_le: "unat (w AND NOT 0xFFF) \<le> unat (w :: u32)"
  by (simp add: word_le_nat_alt [symmetric] word_and_le1 word_and_le2)


section \<open>Reading back what was written\<close>

text \<open>
  An address that the processor can use as memory: its translation does not fault, and it lies in a
  memory device at offset \<open>off\<close>.
\<close>

definition translates :: "config \<Rightarrow> u32 \<Rightarrow> mmu_rw \<Rightarrow> u32 \<Rightarrow> nemu \<Rightarrow> bool" where
  "translates cfg v rw p s \<longleftrightarrow>
     (\<exists>a. prot_addr_with_attr cfg v \<lparr>rwbit = rw, exbit = True, dirty = False, miss = False\<rparr> s = Inr ((p, a), s))"

lemma translates_unmapped: "is_unmapped v \<Longrightarrow> translates cfg v rw (ioremap v) s"
  by (simp add: translates_def prot_addr_unmapped)

context ram_device
begin

lemma vaddr_read_uncached:
  assumes "\<not> CONFIG_MMU_CACHE cfg" and "translates cfg v MMU_LOAD p s" and "find_device p s = Some d"
    and "4096 dvd unat (dev_start cfg d)" and "1 \<le> len" and "len \<le> 4"
    and "unat (p - dev_start cfg d) + len \<le> sz"
  shows "\<exists>m. vaddr_read cfg v len s =
     Inr (mem_read (ram_bytes r s) (unat (p - dev_start cfg d)) len, s\<lparr>mmu_cache := m\<rparr>)"
proof -
  from assms(2) obtain a where
    a: "prot_addr_with_attr cfg v \<lparr>rwbit = MMU_LOAD, exbit = True, dirty = False, miss = False\<rparr> s = Inr ((p, a), s)"
    by (auto simp: translates_def)
  have "unat ((p AND NOT 0xFFF) - dev_start cfg d) \<le> sz"
    unfolding page_minus_start [OF assms(4)]
    using unat_page_le [of "p - dev_start cfg d"] assms(7) by linarith
  from update_mmu_cache_ram [OF this] obtain m where
    "update_mmu_cache cfg v p d (dirty a) s = Inr ((), s\<lparr>mmu_cache := m\<rparr>)" by blast
  moreover have "ram_bytes r (s\<lparr>mmu_cache := m\<rparr>) = ram_bytes r s" by (cases r) simp_all
  ultimately show ?thesis
    using assms a rd_in [of len "p - dev_start cfg d"]
    by (auto simp: vaddr_read_def Let_def d_read intro: exI [of _ m])
qed

lemma vaddr_write_uncached:
  assumes "\<not> CONFIG_MMU_CACHE cfg" and "translates cfg v MMU_STORE p s" and "find_device p s = Some d"
    and "4096 dvd unat (dev_start cfg d)" and "1 \<le> len" and "len \<le> 4"
    and "unat (p - dev_start cfg d) + len \<le> sz"
  shows "\<exists>m. vaddr_write cfg v len data s =
     Inr ((), ram_put r (mem_write (ram_bytes r s) (unat (p - dev_start cfg d)) len data) (s\<lparr>mmu_cache := m\<rparr>))"
proof -
  from assms(2) obtain a where
    a: "prot_addr_with_attr cfg v \<lparr>rwbit = MMU_STORE, exbit = True, dirty = False, miss = False\<rparr> s = Inr ((p, a), s)"
    by (auto simp: translates_def)
  have "unat ((p AND NOT 0xFFF) - dev_start cfg d) \<le> sz"
    unfolding page_minus_start [OF assms(4)]
    using unat_page_le [of "p - dev_start cfg d"] assms(7) by linarith
  from update_mmu_cache_ram [OF this] obtain m where
    "update_mmu_cache cfg v p d True s = Inr ((), s\<lparr>mmu_cache := m\<rparr>)" by blast
  moreover have "ram_bytes r (s\<lparr>mmu_cache := m\<rparr>) = ram_bytes r s" by (cases r) simp_all
  ultimately show ?thesis
    using assms a wr_in [of len "p - dev_start cfg d" data]
    by (auto simp: vaddr_write_def prot_addr_def Let_def d_write intro: exI [of _ m])
qed

end

end
