(* ===== verification/Exec_Common.thy ===== *)
theory Exec_Common
  imports Vmem
begin

text \<open>
  What the instruction handlers share: the fields of an instruction word (the union
  \<^verbatim>\<open>Inst\<close> of \<^verbatim>\<open>include/cpu/reg.h\<close>) and the macros of
  \<^verbatim>\<open>src/cpu/exec/exec-macros.h\<close>. The model follows the build without the decode cache, where
  \<^verbatim>\<open>ops\<close> is the instruction itself.
\<close>

section \<open>Instruction fields\<close>

definition inst_op :: "u32 \<Rightarrow> nat" where "inst_op i = unat (bf_get 26 6 i)"
definition inst_rs :: "u32 \<Rightarrow> nat" where "inst_rs i = unat (bf_get 21 5 i)"
definition inst_rt :: "u32 \<Rightarrow> nat" where "inst_rt i = unat (bf_get 16 5 i)"
definition inst_rd :: "u32 \<Rightarrow> nat" where "inst_rd i = unat (bf_get 11 5 i)"
definition inst_shamt :: "u32 \<Rightarrow> nat" where "inst_shamt i = unat (bf_get 6 5 i)"
definition inst_func :: "u32 \<Rightarrow> nat" where "inst_func i = unat (bf_get 0 6 i)"
definition inst_uimm :: "u32 \<Rightarrow> u32" where "inst_uimm i = bf_get 0 16 i"
definition inst_simm :: "u32 \<Rightarrow> u32" where "inst_simm i = signed_take_bit 15 i"
definition inst_addr :: "u32 \<Rightarrow> u32" where "inst_addr i = bf_get 0 26 i"
definition inst_sel :: "u32 \<Rightarrow> nat" where "inst_sel i = unat (bf_get 0 3 i)"
definition inst_fd :: "u32 \<Rightarrow> nat" where "inst_fd i = unat (bf_get 6 5 i)"
definition inst_fs :: "u32 \<Rightarrow> nat" where "inst_fs i = unat (bf_get 11 5 i)"
definition inst_ft :: "u32 \<Rightarrow> nat" where "inst_ft i = unat (bf_get 16 5 i)"
definition inst_fd64 :: "u32 \<Rightarrow> nat" where "inst_fd64 i = unat (bf_get 7 4 i)"
definition inst_fs64 :: "u32 \<Rightarrow> nat" where "inst_fs64 i = unat (bf_get 12 4 i)"
definition inst_ft64 :: "u32 \<Rightarrow> nat" where "inst_ft64 i = unat (bf_get 17 4 i)"
definition inst_cc1 :: "u32 \<Rightarrow> nat" where "inst_cc1 i = unat (bf_get 8 3 i)"
definition inst_tf :: "u32 \<Rightarrow> nat" where "inst_tf i = unat (bf_get 16 (Suc 0) i)"
definition inst_nd :: "u32 \<Rightarrow> nat" where "inst_nd i = unat (bf_get 17 (Suc 0) i)"
definition inst_cc2 :: "u32 \<Rightarrow> nat" where "inst_cc2 i = unat (bf_get 18 3 i)"

lemma unat_bf_get_5: "unat (bf_get k 5 w) < 32" and unat_bf_get_6: "unat (bf_get k 6 w) < 64"
  using unat_bf_get_less [of 5 k w] unat_bf_get_less [of 6 k w] by simp_all

lemma inst_field_bounds:
  "inst_rs i < 32" "inst_rt i < 32" "inst_rd i < 32" "inst_shamt i < 32"
  "inst_op i < 64" "inst_func i < 64"
  by (simp_all add: inst_rs_def inst_rt_def inst_rd_def inst_shamt_def inst_op_def inst_func_def
      unat_bf_get_5 unat_bf_get_6)

section \<open>Control flow of a handler\<close>

text \<open>
  A handler runs off its end, which is a jump to \<^verbatim>\<open>inst_end\<close>, or jumps to
  \<^verbatim>\<open>exit\<close> and so skips the advance of the program counter.
\<close>

datatype flow = To_inst_end | To_exit

type_synonym handler = "config \<Rightarrow> u32 \<Rightarrow> nemu \<Rightarrow> flow res"

definition fin :: "nemu \<Rightarrow> flow res" where
  "fin s = Inr (To_inst_end, s)"

definition InstAssert :: "config \<Rightarrow> bool \<Rightarrow> nemu \<Rightarrow> (nemu \<Rightarrow> flow res) \<Rightarrow> flow res" where
  "InstAssert cfg cond s k =
     (if cond then k s
      else if CONFIG_EXCEPTION cfg then
        bind_r (raise_exception cfg EXC_RI (on_cpu (\<lambda>c. cpr_set cp0_badvaddr (pc c) c) s))
          (\<lambda>_ s. Inr (To_exit, s))
      else Inl (AssertFail, s))"

definition CHECK_ALIGNED_ADDR :: "config \<Rightarrow> u32 \<Rightarrow> u32 \<Rightarrow> u32 \<Rightarrow> nemu \<Rightarrow> (nemu \<Rightarrow> flow res) \<Rightarrow> flow res" where
  "CHECK_ALIGNED_ADDR cfg AdEX align addr s k =
     (if addr AND (align - 1) = 0 then k s
      else if CONFIG_EXCEPTION cfg then
        bind_r (raise_exception cfg AdEX (on_cpu (cpr_set cp0_badvaddr addr) s))
          (\<lambda>_ s. Inr (To_exit, s))
      else Inl (CPUAbort, s))"

definition prepare_delayslot :: "config \<Rightarrow> nemu \<Rightarrow> flow res" where
  "prepare_delayslot cfg s =
     Inr (To_exit, if CONFIG_DELAYSLOT cfg then on_cpu (\<lambda>c. c\<lparr>is_delayslot := True, pc := pc c + 4\<rparr>) s else s)"

text \<open>A handler whose last statement raises an exception runs to \<^verbatim>\<open>inst_end\<close>.\<close>

definition raise_end :: "config \<Rightarrow> u32 \<Rightarrow> nemu \<Rightarrow> flow res" where
  "raise_end cfg ex s = bind_r (raise_exception cfg ex s) (\<lambda>_. fin)"

abbreviation (input) GR_SV :: "u32 \<Rightarrow> nemu \<Rightarrow> u32" where "GR_SV i s \<equiv> gpr (cpu s) (inst_rs i)"
abbreviation (input) GR_TV :: "u32 \<Rightarrow> nemu \<Rightarrow> u32" where "GR_TV i s \<equiv> gpr (cpu s) (inst_rt i)"

definition set_GR_DV :: "u32 \<Rightarrow> u32 \<Rightarrow> nemu \<Rightarrow> nemu" where "set_GR_DV i v s = set_gpr (inst_rd i) v s"
definition set_GR_TV :: "u32 \<Rightarrow> u32 \<Rightarrow> nemu \<Rightarrow> nemu" where "set_GR_TV i v s = set_gpr (inst_rt i) v s"

section \<open>Shared lemmas\<close>

lemma fin_inject [simp]: "fin s = fin t \<longleftrightarrow> s = t"
  by (simp add: fin_def)

named_theorems exec_simps \<open>unfolding of the handler macros\<close>

lemma InstAssert_True [simp, exec_simps]: "cond \<Longrightarrow> InstAssert cfg cond s k = k s"
  by (simp add: InstAssert_def)

lemma InstAssert_False:
  assumes "\<not> cond" and "CONFIG_EXCEPTION cfg"
  shows "InstAssert cfg cond s k =
     Inr (To_exit, clear_mmu_cache (on_cpu (\<lambda>c. enter_exception cfg EXC_RI 0 (cpr_set cp0_badvaddr (pc c) c)) s))"
  using assms by (simp add: InstAssert_def raise_exception_def)

lemma CHECK_ALIGNED_True [simp, exec_simps]: "addr AND (align - 1) = 0 \<Longrightarrow> CHECK_ALIGNED_ADDR cfg ex align addr s k = k s"
  by (simp add: CHECK_ALIGNED_ADDR_def)

lemma raise_end_eq:
  assumes "ex AND 0xFFFF \<noteq> EXC_TRAP"
  shows "raise_end cfg ex s =
     Inr (To_inst_end, clear_mmu_cache (on_cpu (enter_exception cfg (ex AND 0xFFFF) (drop_bit 16 ex)) s))"
  using assms by (simp add: raise_end_def raise_exception_ok fin_def)

lemma raise_end_OV: "raise_end cfg EXC_OV s = Inr (To_inst_end, clear_mmu_cache (on_cpu (enter_exception cfg EXC_OV 0) s))"
  by (simp add: raise_end_eq)

lemma set_gpr_simps [simp]:
  "gpr (cpu (set_gpr r v s)) = (gpr (cpu s))(r := v)" "pc (cpu (set_gpr r v s)) = pc (cpu s)"
  "hi (cpu (set_gpr r v s)) = hi (cpu s)" "lo (cpu (set_gpr r v s)) = lo (cpu s)"
  "cp0 (cpu (set_gpr r v s)) = cp0 (cpu s)" "has_exception (cpu (set_gpr r v s)) = has_exception (cpu s)"
  "is_delayslot (cpu (set_gpr r v s)) = is_delayslot (cpu s)" "br_target (cpu (set_gpr r v s)) = br_target (cpu s)"
  by (simp_all add: set_gpr_def)

end
