(* ===== verification/Exec_Arith.thy ===== *)
theory Exec_Arith
  imports Exec_Common
begin

text \<open>
  The integer instructions of \<^verbatim>\<open>src/cpu/exec/arith.h\<close>, \<^verbatim>\<open>arith-ex.h\<close>,
  \<^verbatim>\<open>setcc.h\<close> and \<^verbatim>\<open>shift.h\<close>.
\<close>

section \<open>arith-ex.h\<close>

text \<open>The bits of a word from the most significant one, and the GCC builtin on a nonzero word.\<close>

definition bits_msb_first :: "u32 \<Rightarrow> bool list" where
  "bits_msb_first w = map (bit w) (rev [0..<32])"

definition builtin_clz :: "u32 \<Rightarrow> nat" where
  "builtin_clz w = length (takeWhile Not (bits_msb_first w))"

definition exec_clz :: handler where
  "exec_clz cfg i s =
     (if GR_SV i s = 0 then fin (set_GR_DV i 32 s)
      else fin (set_GR_DV i (of_nat (builtin_clz (GR_SV i s))) s))"

function clo_loop :: "u32 \<Rightarrow> u32 \<Rightarrow> u32 \<Rightarrow> u32" where
  "clo_loop x b cnt = (if x AND b \<noteq> 0 then clo_loop x (drop_bit 1 b) (cnt + 1) else cnt)"
  by pat_completeness auto

termination
proof (relation "measure (\<lambda>(x, b, cnt). unat b)")
  fix x b cnt :: u32
  assume "x AND b \<noteq> 0"
  then have "b \<noteq> 0" by auto
  then have "0 < unat b" using unat_eq_zero [of b] by blast
  then have "unat b div 2 < unat b" by simp
  then show "((x, drop_bit 1 b, cnt + 1), x, b, cnt) \<in> measure (\<lambda>(x, b, cnt). unat b)"
    by (simp add: drop_bit_eq_div unat_div_distrib)
qed simp

declare clo_loop.simps [simp del]

definition exec_clo :: handler where
  "exec_clo cfg i s = fin (set_GR_DV i (clo_loop (GR_SV i s) 0x80000000 0) s)"

definition exec_seb :: handler where
  "exec_seb cfg i s = fin (set_GR_DV i (signed_take_bit 7 (GR_TV i s)) s)"

definition exec_seh :: handler where
  "exec_seh cfg i s = fin (set_GR_DV i (signed_take_bit 15 (GR_TV i s)) s)"

definition wsbh_val :: "u32 \<Rightarrow> u32" where
  "wsbh_val v =
     push_bit 8 (v AND 0x00FF0000) OR drop_bit 8 (v AND 0xFF000000) OR
     push_bit 8 (v AND 0x000000FF) OR drop_bit 8 (v AND 0x0000FF00)"

definition exec_wsbh :: handler where
  "exec_wsbh cfg i s = fin (set_GR_DV i (wsbh_val (GR_TV i s)) s)"

definition field_mask :: "nat \<Rightarrow> u32" where
  "field_mask n = ucast ((push_bit n 1 :: u64) - 1)"

definition ins_val :: "nat \<Rightarrow> nat \<Rightarrow> u32 \<Rightarrow> u32 \<Rightarrow> u32" where
  "ins_val lsb msb rs_val rt_val =
     (let m = field_mask (msb - lsb + 1)
      in (rt_val AND NOT (push_bit lsb m)) OR push_bit lsb (rs_val AND m))"

definition exec_ins :: handler where
  "exec_ins cfg i s =
     (let lsb = inst_shamt i; msb = inst_rd i
      in if \<not> lsb \<le> msb then Inl (AssertFail, s)
         else fin (set_GR_TV i (ins_val lsb msb (GR_SV i s) (GR_TV i s)) s))"

definition ext_val :: "nat \<Rightarrow> nat \<Rightarrow> u32 \<Rightarrow> u32" where
  "ext_val lsb msbd rs_val = drop_bit lsb (rs_val AND push_bit lsb (field_mask (msbd + 1)))"

definition exec_ext :: handler where
  "exec_ext cfg i s = fin (set_GR_TV i (ext_val (inst_shamt i) (inst_rd i) (GR_SV i s)) s)"

section \<open>arith.h\<close>

definition R_SIMPLE :: "(u32 \<Rightarrow> u32 \<Rightarrow> u32) \<Rightarrow> handler" where
  "R_SIMPLE oper cfg i s =
     InstAssert cfg (inst_shamt i = 0) s (\<lambda>s. fin (set_GR_DV i (oper (GR_SV i s) (GR_TV i s)) s))"

definition exec_or :: handler where "exec_or = R_SIMPLE (OR)"
definition exec_xor :: handler where "exec_xor = R_SIMPLE (XOR)"
definition exec_and :: handler where "exec_and = R_SIMPLE (AND)"
definition exec_addu :: handler where "exec_addu = R_SIMPLE (+)"
definition exec_subu :: handler where "exec_subu = R_SIMPLE (-)"
definition exec_mul :: handler where "exec_mul = R_SIMPLE (*)"

definition exec_lui :: handler where
  "exec_lui cfg i s =
     InstAssert cfg (inst_rs i = 0) s (\<lambda>s. fin (set_GR_TV i (push_bit 16 (inst_uimm i)) s))"

text \<open>The two halves of \<^verbatim>\<open>L64_t\<close> and the comparison that detects an overflow.\<close>

definition L64_lo :: "u64 \<Rightarrow> u32" where "L64_lo v = ucast v"
definition L64_hi :: "u64 \<Rightarrow> u32" where "L64_hi v = ucast (drop_bit 32 v)"

definition ov_check :: "u64 \<Rightarrow> bool" where
  "ov_check v \<longleftrightarrow> L64_hi v AND 1 \<noteq> drop_bit 31 (L64_lo v) AND 1"

definition overflow_end :: "config \<Rightarrow> nemu \<Rightarrow> flow res" where
  "overflow_end cfg s = (if CONFIG_EXCEPTION cfg then raise_end cfg EXC_OV s else Inl (CPUAbort, s))"

definition exec_addi :: handler where
  "exec_addi cfg i s =
     (let ret = scast (GR_SV i s) + scast (inst_simm i) :: u64
      in if ov_check ret then overflow_end cfg s else fin (set_GR_TV i (L64_lo ret) s))"

definition exec_addiu :: handler where
  "exec_addiu cfg i s = fin (set_GR_TV i (GR_SV i s + inst_simm i) s)"

definition exec_andi :: handler where
  "exec_andi cfg i s = fin (set_GR_TV i (GR_SV i s AND inst_uimm i) s)"

definition exec_ori :: handler where
  "exec_ori cfg i s = fin (set_GR_TV i (GR_SV i s OR inst_uimm i) s)"

definition exec_xori :: handler where
  "exec_xori cfg i s = fin (set_GR_TV i (GR_SV i s XOR inst_uimm i) s)"

definition exec_add :: handler where
  "exec_add cfg i s =
     InstAssert cfg (inst_shamt i = 0) s
       (\<lambda>s. let ret = scast (GR_SV i s) + scast (GR_TV i s) :: u64
            in if ov_check ret then overflow_end cfg s else fin (set_GR_DV i (L64_lo ret) s))"

definition exec_sub :: handler where
  "exec_sub cfg i s =
     InstAssert cfg (inst_shamt i = 0) s
       (\<lambda>s. let ret = scast (GR_SV i s) - scast (GR_TV i s) :: u64
            in if ov_check ret then overflow_end cfg s else fin (set_GR_DV i (L64_lo ret) s))"

definition exec_nor :: handler where
  "exec_nor cfg i s =
     InstAssert cfg (inst_shamt i = 0) s (\<lambda>s. fin (set_GR_DV i (NOT (GR_SV i s OR GR_TV i s)) s))"

section \<open>setcc.h\<close>

definition exec_sltiu :: handler where
  "exec_sltiu cfg i s = fin (set_GR_TV i (of_bool (GR_SV i s < inst_simm i)) s)"

definition exec_slti :: handler where
  "exec_slti cfg i s = fin (set_GR_TV i (of_bool (GR_SV i s <s inst_simm i)) s)"

definition exec_slt :: handler where
  "exec_slt cfg i s =
     InstAssert cfg (inst_shamt i = 0) s (\<lambda>s. fin (set_GR_DV i (of_bool (GR_SV i s <s GR_TV i s)) s))"

definition exec_sltu :: handler where
  "exec_sltu cfg i s =
     InstAssert cfg (inst_shamt i = 0) s (\<lambda>s. fin (set_GR_DV i (of_bool (GR_SV i s < GR_TV i s)) s))"

definition exec_movn :: handler where
  "exec_movn cfg i s =
     InstAssert cfg (inst_shamt i = 0) s
       (\<lambda>s. fin (if GR_TV i s \<noteq> 0 then set_GR_DV i (GR_SV i s) s else s))"

definition exec_movz :: handler where
  "exec_movz cfg i s =
     InstAssert cfg (inst_shamt i = 0) s
       (\<lambda>s. fin (if GR_TV i s = 0 then set_GR_DV i (GR_SV i s) s else s))"

section \<open>shift.h\<close>

definition shift_amount :: "u32 \<Rightarrow> nat" where
  "shift_amount v = unat (v AND 0x1f)"

definition exec_sll :: handler where
  "exec_sll cfg i s =
     InstAssert cfg (inst_rs i = 0) s (\<lambda>s. fin (set_GR_DV i (push_bit (inst_shamt i) (GR_TV i s)) s))"

definition exec_sllv :: handler where
  "exec_sllv cfg i s =
     InstAssert cfg (inst_shamt i = 0) s
       (\<lambda>s. fin (set_GR_DV i (push_bit (shift_amount (GR_SV i s)) (GR_TV i s)) s))"

definition exec_sra :: handler where
  "exec_sra cfg i s =
     InstAssert cfg (inst_rs i = 0) s
       (\<lambda>s. fin (set_GR_DV i (signed_drop_bit (inst_shamt i) (GR_TV i s)) s))"

definition exec_srav :: handler where
  "exec_srav cfg i s =
     InstAssert cfg (inst_shamt i = 0) s
       (\<lambda>s. fin (set_GR_DV i (signed_drop_bit (shift_amount (GR_SV i s)) (GR_TV i s)) s))"

text \<open>
  The rotations shift left by \<open>32 - sa\<close>, which C does not define when \<open>sa\<close> is zero.
\<close>

definition rotr_c :: "nat \<Rightarrow> u32 \<Rightarrow> u32 option" where
  "rotr_c sa v = (if 32 - sa < 32 then Some (drop_bit sa v OR push_bit (32 - sa) v) else None)"

definition rotate_end :: "u32 \<Rightarrow> nat \<Rightarrow> nemu \<Rightarrow> flow res" where
  "rotate_end i sa s =
     (case rotr_c sa (GR_TV i s) of
        Some v \<Rightarrow> fin (set_GR_DV i v s)
      | None \<Rightarrow> Inl (UndefinedBehaviour, s))"

definition exec_srl :: handler where
  "exec_srl cfg i s =
     (if odd (inst_rs i) then rotate_end i (inst_shamt i) s
      else InstAssert cfg (inst_rs i = 0) s
             (\<lambda>s. fin (set_GR_DV i (drop_bit (inst_shamt i) (GR_TV i s)) s)))"

definition exec_srlv :: handler where
  "exec_srlv cfg i s =
     (if odd (inst_shamt i) then rotate_end i (shift_amount (GR_SV i s)) s
      else InstAssert cfg (inst_shamt i = 0) s
             (\<lambda>s. fin (set_GR_DV i (drop_bit (shift_amount (GR_SV i s)) (GR_TV i s)) s)))"

section \<open>Counting leading bits\<close>

lemma and_top_bit: "x AND push_bit k 1 \<noteq> 0 \<longleftrightarrow> bit x k" if "k < 32" for x :: u32
proof -
  have "bit (x AND push_bit k 1) n \<longleftrightarrow> bit x k \<and> n = k" for n
    using that by (auto simp: bit_simps)
  then show ?thesis using that unfolding bit_eq_iff [of "x AND push_bit k 1" 0] by simp
qed

text \<open>The loop of \<^verbatim>\<open>clo\<close> with the tested bit at position \<open>k - 1\<close>.\<close>

lemma clo_loop_step:
  "k \<le> 32 \<Longrightarrow> clo_loop x (if k = 0 then 0 else push_bit (k - 1) 1) cnt =
     cnt + of_nat (length (takeWhile id (map (bit x) (rev [0..<k]))))"
proof (induction k arbitrary: cnt)
  case 0
  then show ?case by (simp add: clo_loop.simps)
next
  case (Suc k)
  have half: "drop_bit 1 (push_bit k 1 :: u32) = (if k = 0 then 0 else push_bit (k - 1) 1)"
    using Suc.prems by (cases k; intro bit_eqI) (auto simp: bit_simps)
  have test: "x AND push_bit k 1 \<noteq> 0 \<longleftrightarrow> bit x k" using Suc.prems by (intro and_top_bit) simp
  have "clo_loop x (push_bit k 1) cnt =
      (if bit x k then clo_loop x (if k = 0 then 0 else push_bit (k - 1) 1) (cnt + 1) else cnt)"
    by (subst clo_loop.simps) (simp only: test half if_cancel)
  then show ?case using Suc.IH [of "cnt + 1"] Suc.prems by (simp add: algebra_simps)
qed

lemma clo_loop_eq: "clo_loop x 0x80000000 0 = of_nat (length (takeWhile id (bits_msb_first x)))"
  using clo_loop_step [of 32 x 0] by (simp add: bits_msb_first_def)

section \<open>Overflow of signed additions\<close>

text \<open>The value range of a signed 32-bit integer.\<close>

definition int32_range :: "int \<Rightarrow> bool" where
  "int32_range z \<longleftrightarrow> - (2 ^ 31) \<le> z \<and> z < 2 ^ 31"

lemma sint_u32_range: "int32_range (sint (w :: u32))"
  using sint_ge [of w] sint_lt [of w] by (simp add: int32_range_def)

lemma bit_ov_bits:
  fixes z :: int
  assumes "- (2 ^ 32) \<le> z" and "z < 2 ^ 32"
  shows "bit z 32 \<noteq> bit z 31 \<longleftrightarrow> \<not> int32_range z"
proof -
  have "z div 2 ^ 32 = (if z < 0 then - 1 else 0)" using assms by (simp; linarith)
  moreover have "z div 2 ^ 31 = (if z < - (2 ^ 31) then - 2 else if z < 0 then - 1 else if z < 2 ^ 31 then 0 else 1)"
    using assms by (simp; linarith)
  ultimately show ?thesis by (auto simp: bit_iff_odd int32_range_def)
qed

lemma ov_check_word_of_int:
  assumes "- (2 ^ 32) \<le> z" and "z < 2 ^ 32"
  shows "ov_check (word_of_int z) \<longleftrightarrow> \<not> int32_range z"
proof -
  have "L64_hi (word_of_int z) AND 1 = of_bool (bit z 32)"
    and "drop_bit 31 (L64_lo (word_of_int z)) AND 1 = of_bool (bit z 31)"
    by (auto simp: L64_hi_def L64_lo_def and_one_eq mod_2_eq_odd bit_simps simp flip: bit_0)
  then show ?thesis using bit_ov_bits [OF assms] by (auto simp: ov_check_def)
qed

lemma scast_word_of_int: "(scast (a :: u32) :: u64) = word_of_int (sint a)"
  by simp

lemma L64_lo_of_int: "L64_lo (word_of_int z) = word_of_int z"
  by (rule bit_eqI) (auto simp: L64_lo_def bit_simps)

lemma ov_check_add:
  "ov_check (scast a + scast b) \<longleftrightarrow> \<not> int32_range (sint (a :: u32) + sint (b :: u32))"
  "L64_lo (scast a + scast b) = a + b"
proof -
  have eq: "(scast a + scast b :: u64) = word_of_int (sint a + sint b)" by simp
  show "ov_check (scast a + scast b) \<longleftrightarrow> \<not> int32_range (sint a + sint b)"
    unfolding eq using sint_u32_range [of a] sint_u32_range [of b]
    by (intro ov_check_word_of_int) (auto simp: int32_range_def)
  show "L64_lo (scast a + scast b) = a + b" unfolding eq L64_lo_of_int by simp
qed

lemma ov_check_sub:
  "ov_check (scast a - scast b) \<longleftrightarrow> \<not> int32_range (sint (a :: u32) - sint (b :: u32))"
  "L64_lo (scast a - scast b) = a - b"
proof -
  have eq: "(scast a - scast b :: u64) = word_of_int (sint a - sint b)" by simp
  show "ov_check (scast a - scast b) \<longleftrightarrow> \<not> int32_range (sint a - sint b)"
    unfolding eq using sint_u32_range [of a] sint_u32_range [of b]
    by (intro ov_check_word_of_int) (auto simp: int32_range_def)
  show "L64_lo (scast a - scast b) = a - b" unfolding eq L64_lo_of_int by simp
qed

lemma sint_word_of_int_u32: "int32_range z \<Longrightarrow> sint (word_of_int z :: u32) = z"
  by (simp add: int32_range_def sint_sbintrunc' signed_take_bit_int_eq_self)

lemma sint_add_u32: "int32_range (sint a + sint b) \<Longrightarrow> sint (a + b :: u32) = sint a + sint b"
  using sint_word_of_int_u32 [of "sint a + sint b"] by simp

lemma sint_sub_u32: "int32_range (sint a - sint b) \<Longrightarrow> sint (a - b :: u32) = sint a - sint b"
  using sint_word_of_int_u32 [of "sint a - sint b"] by simp

section \<open>Bit-field instructions\<close>

lemma bit_field_mask: "n \<le> 32 \<Longrightarrow> bit (field_mask n) k \<longleftrightarrow> k < n"
proof -
  assume n: "n \<le> 32"
  have "(push_bit n 1 :: u64) - 1 = mask n" by (simp add: mask_eq_exp_minus_1)
  then show ?thesis using n by (auto simp: field_mask_def bit_simps)
qed

lemma bit_ins_val:
  assumes "lsb \<le> msb" and "msb < 32"
  shows "bit (ins_val lsb msb rs rt) k \<longleftrightarrow> (if lsb \<le> k \<and> k \<le> msb then bit rs (k - lsb) else bit rt k)"
  using assms by (auto simp: ins_val_def Let_def bit_simps bit_field_mask dest: bit_imp_le_length)

lemma bit_ext_val:
  assumes "msbd < 32"
  shows "bit (ext_val lsb msbd rs) k \<longleftrightarrow> k \<le> msbd \<and> bit rs (lsb + k)"
  using assms by (auto simp: ext_val_def bit_simps bit_field_mask dest: bit_imp_le_length)

text \<open>Extracting an inserted field gives the inserted bits.\<close>

lemma ext_ins:
  assumes "lsb \<le> msb" and "msb < 32"
  shows "ext_val lsb (msb - lsb) (ins_val lsb msb rs rt) = take_bit (msb - lsb + 1) rs"
  using assms by (intro bit_eqI) (auto simp: bit_ins_val bit_ext_val bit_take_bit_iff)

lemma byte_masks:
  "(0xFF :: u32) = push_bit 0 (mask 8)" "(0xFF00 :: u32) = push_bit 8 (mask 8)"
  "(0xFF0000 :: u32) = push_bit 16 (mask 8)" "(0xFF000000 :: u32) = push_bit 24 (mask 8)"
  by (simp_all add: mask_eq_exp_minus_1)

lemma bit_and_byte_mask:
  "k \<le> 24 \<Longrightarrow> bit (w AND push_bit k (mask 8) :: u32) n \<longleftrightarrow> bit w n \<and> k \<le> n \<and> n < k + 8"
  by (auto simp: bit_simps)

text \<open>\<^verbatim>\<open>wsbh\<close> swaps the bytes of each half.\<close>

lemma wsbh_bytes: "wsbh_val v = le32 (byte_of v 1) (byte_of v 0) (byte_of v 3) (byte_of v 2)"
proof (rule bit_eqI)
  fix n :: nat
  assume "possible_bit TYPE(u32) n"
  then have n: "n < 32" by simp
  have "bit (wsbh_val v) n \<longleftrightarrow>
      (if n < 8 then bit v (n + 8) else if n < 16 then bit v (n - 8)
       else if n < 24 then bit v (n + 8) else bit v (n - 8))"
    unfolding wsbh_val_def byte_masks bit_or_iff bit_push_bit_iff bit_drop_bit_eq o_def
    using n by (simp add: bit_and_byte_mask del: push_bit_numeral) (auto simp: add.commute bit_simps)
  also have "\<dots> \<longleftrightarrow> bit (le32 (byte_of v 1) (byte_of v 0) (byte_of v 3) (byte_of v 2)) n"
    using n by (auto simp: bit_le32 bit_byte_of add.commute)
  finally show "bit (wsbh_val v) n \<longleftrightarrow> bit (le32 (byte_of v 1) (byte_of v 0) (byte_of v 3) (byte_of v 2)) n" .
qed

lemma wsbh_involution: "wsbh_val (wsbh_val v) = v"
  by (simp add: wsbh_bytes byte_of_le32 [simplified] le32_bytes [simplified])

section \<open>Rotations\<close>

lemma rotr_c_eq:
  assumes "0 < sa" and "sa < 32"
  shows "rotr_c sa v = Some (word_rotr sa v)"
proof -
  have "drop_bit sa v OR push_bit (32 - sa) v = word_rotr sa v"
  proof (rule bit_eqI)
    fix n :: nat
    assume "possible_bit TYPE(u32) n"
    then have "(n + sa) mod 32 = (if n + sa < 32 then n + sa else n + sa - 32)" using assms by (simp add: mod_if)
    then show "bit (drop_bit sa v OR push_bit (32 - sa) v) n \<longleftrightarrow> bit (word_rotr sa v) n"
      using assms bit_imp_le_length [of v "sa + n"]
      by (auto simp: bit_simps bit_word_rotr_iff add.commute)
  qed
  then show ?thesis using assms by (simp add: rotr_c_def)
qed

section \<open>Properties\<close>

text \<open>An arithmetic overflow: the exception is entered and no register is written.\<close>

definition overflows :: "config \<Rightarrow> nemu \<Rightarrow> flow res" where
  "overflows cfg s = Inr (To_inst_end, clear_mmu_cache (on_cpu (enter_exception cfg EXC_OV 0) s))"

lemma overflow_end_eq: "CONFIG_EXCEPTION cfg \<Longrightarrow> overflow_end cfg s = overflows cfg s"
  by (simp add: overflow_end_def overflows_def raise_end_OV)

text \<open>
  C19: the trapping additions are exact. \<^verbatim>\<open>add\<close>, \<^verbatim>\<open>sub\<close> and \<^verbatim>\<open>addi\<close> write the
  wrapped result when the signed sum or difference of the operands fits in 32 bits, and that result
  is then the mathematical one; otherwise they raise the overflow exception and leave the
  destination alone.
\<close>

theorem trapping_add_sub:
  assumes "CONFIG_EXCEPTION cfg" and "inst_shamt i = 0"
    and "a = GR_SV i s" and "b = GR_TV i s" and "m = inst_simm i"
  shows "exec_add cfg i s = (if int32_range (sint a + sint b) then fin (set_GR_DV i (a + b) s) else overflows cfg s) \<and>
     exec_sub cfg i s = (if int32_range (sint a - sint b) then fin (set_GR_DV i (a - b) s) else overflows cfg s) \<and>
     exec_addi cfg i s = (if int32_range (sint a + sint m) then fin (set_GR_TV i (a + m) s) else overflows cfg s) \<and>
     (int32_range (sint a + sint b) \<longrightarrow> sint (a + b) = sint a + sint b) \<and>
     (int32_range (sint a - sint b) \<longrightarrow> sint (a - b) = sint a - sint b)"
  using assms
  by (simp add: exec_add_def exec_sub_def exec_addi_def Let_def ov_check_add ov_check_sub overflow_end_eq
      sint_add_u32 sint_sub_u32)

text \<open>Register 9 plus register 10 into register 8, with the largest integer and one.\<close>

definition regs_9_10 :: "u32 \<Rightarrow> u32 \<Rightarrow> nemu" where
  "regs_9_10 a b = set_gpr 9 a (set_gpr 10 b (nemu_globals MODE_BATCH (\<lambda>_. 0) 0))"

lemma regs_9_10 [simp]: "gpr (cpu (regs_9_10 a b)) 9 = a" "gpr (cpu (regs_9_10 a b)) 10 = b"
  by (simp_all add: regs_9_10_def)

lemma add_8_9_10_fields:
  "inst_rs 0x012A4020 = 9" "inst_rt 0x012A4020 = 10" "inst_rd 0x012A4020 = 8" "inst_shamt 0x012A4020 = 0"
  by (simp_all add: inst_rs_def inst_rt_def inst_rd_def inst_shamt_def bf_get_def)

theorem trapping_add_sub_witness:
  "exec_add mips32r1_defconfig 0x012A4020 (regs_9_10 0x7fffffff 1) = overflows mips32r1_defconfig (regs_9_10 0x7fffffff 1) \<and>
   exec_add mips32r1_defconfig 0x012A4020 (regs_9_10 0x7ffffffe 1) = fin (set_gpr 8 0x7fffffff (regs_9_10 0x7ffffffe 1))"
  using trapping_add_sub [OF defconfig_flags(3) add_8_9_10_fields(4) refl refl refl, of "regs_9_10 0x7fffffff 1"]
    trapping_add_sub [OF defconfig_flags(3) add_8_9_10_fields(4) refl refl refl, of "regs_9_10 0x7ffffffe 1"]
  by (simp add: add_8_9_10_fields int32_range_def set_GR_DV_def)

lemma length_bits_msb_first: "length (bits_msb_first w) = 32"
  by (simp add: bits_msb_first_def)

text \<open>
  The leading bit counts. The loop of \<^verbatim>\<open>clo\<close> ends after at most 32 rounds and yields the
  number of one bits before the first zero bit from the top; \<^verbatim>\<open>clz\<close> yields the number of zero
  bits before the first one bit, 32 for zero.
\<close>

theorem leading_bit_counts:
  "exec_clo cfg i s = fin (set_GR_DV i (of_nat (length (takeWhile id (bits_msb_first (GR_SV i s))))) s) \<and>
   exec_clz cfg i s = fin (set_GR_DV i (of_nat (length (takeWhile Not (bits_msb_first (GR_SV i s))))) s)"
proof -
  have "takeWhile Not (bits_msb_first 0) = bits_msb_first 0"
    by (auto simp: bits_msb_first_def takeWhile_eq_all_conv)
  then have "length (takeWhile Not (bits_msb_first 0)) = 32" by (simp only: length_bits_msb_first)
  then show ?thesis by (simp add: exec_clo_def clo_loop_eq exec_clz_def builtin_clz_def)
qed

text \<open>
  \<^verbatim>\<open>ins\<close> and \<^verbatim>\<open>ext\<close>. With the field in range, \<^verbatim>\<open>ins\<close> replaces the bits of the
  target from the first to the last bit of the field by the low bits of the source and keeps the
  others, and \<^verbatim>\<open>ext\<close> of the same field gives the inserted bits back; with the bounds of the
  field exchanged, \<^verbatim>\<open>ins\<close> ends the emulator by a failed assertion.
\<close>

theorem insert_extract_field:
  assumes "lsb = inst_shamt i" and "msb = inst_rd i"
  shows "exec_ins cfg i s = (if msb < lsb then Inl (AssertFail, s)
       else fin (set_GR_TV i (ins_val lsb msb (GR_SV i s) (GR_TV i s)) s)) \<and>
     (lsb \<le> msb \<longrightarrow>
       (\<forall>k. bit (ins_val lsb msb v w) k \<longleftrightarrow> (if lsb \<le> k \<and> k \<le> msb then bit v (k - lsb) else bit w k)) \<and>
       ext_val lsb (msb - lsb) (ins_val lsb msb v w) = take_bit (msb - lsb + 1) v)"
proof -
  have "msb < 32" using assms(2) inst_field_bounds(3) [of i] by simp
  then show ?thesis using assms by (auto simp: exec_ins_def Let_def bit_ins_val ext_ins)
qed

theorem insert_extract_field_witness:
  "exec_ins mips32r1_defconfig 0x7D2A7A04 (regs_9_10 0x12345678 0xffffffff) =
     fin (set_GR_TV 0x7D2A7A04 (ins_val 8 15 0x12345678 0xffffffff) (regs_9_10 0x12345678 0xffffffff)) \<and>
   ext_val 8 7 (ins_val 8 15 0x12345678 0xffffffff) = 0x78"
proof -
  have f: "inst_rs 0x7D2A7A04 = 9" "inst_rt 0x7D2A7A04 = 10" "inst_rd 0x7D2A7A04 = 15" "inst_shamt 0x7D2A7A04 = 8"
    by (simp_all add: inst_rs_def inst_rt_def inst_rd_def inst_shamt_def bf_get_def)
  show ?thesis
    using insert_extract_field [OF f(4) [symmetric] f(3) [symmetric], of mips32r1_defconfig
      "regs_9_10 0x12345678 0xffffffff"] by (simp add: f)
qed

text \<open>
  The rotations. For an amount from 1 to 31, \<^verbatim>\<open>rotr\<close> (the variant of \<^verbatim>\<open>srl\<close>)
  rotates the register to the right; for the amount 0 the C code shifts by the width of the operand,
  which is undefined.
\<close>

theorem rotate_right:
  assumes "odd (inst_rs i)"
  shows "exec_srl cfg i s = (if inst_shamt i = 0 then Inl (UndefinedBehaviour, s)
     else fin (set_GR_DV i (word_rotr (inst_shamt i) (GR_TV i s)) s))"
proof (cases "inst_shamt i = 0")
  case False
  then show ?thesis
    using assms rotr_c_eq [of "inst_shamt i" "GR_TV i s"] inst_field_bounds(4) [of i]
    by (simp add: exec_srl_def rotate_end_def)
qed (use assms in \<open>simp add: exec_srl_def rotate_end_def rotr_c_def\<close>)

theorem rotate_right_witness:
  "exec_srl mips32r1_defconfig 0x002A4102 (regs_9_10 0 0x12345678) =
     fin (set_gpr 8 0x81234567 (regs_9_10 0 0x12345678)) \<and>
   exec_srl mips32r1_defconfig 0x002A4002 (regs_9_10 0 0x12345678) =
     Inl (UndefinedBehaviour, regs_9_10 0 0x12345678)"
proof -
  have f: "inst_rs 0x002A4102 = 1" "inst_rt 0x002A4102 = 10" "inst_rd 0x002A4102 = 8" "inst_shamt 0x002A4102 = 4"
    "inst_rs 0x002A4002 = 1" "inst_shamt 0x002A4002 = 0"
    by (simp_all add: inst_rs_def inst_rt_def inst_rd_def inst_shamt_def bf_get_def)
  have "word_rotr 4 (0x12345678 :: u32) = 0x81234567" 
    using rotr_c_eq [of 4 "0x12345678"] by (simp add: rotr_c_def)
  then show ?thesis
    using rotate_right [of "0x002A4102" mips32r1_defconfig "regs_9_10 0 0x12345678"]
      rotate_right [of "0x002A4002" mips32r1_defconfig "regs_9_10 0 0x12345678"]
    by (simp add: f set_GR_DV_def)
qed

end
