(* ===== verification/Exec_Mdu.thy ===== *)
theory Exec_Mdu
  imports Exec_Arith "HOL-Library.Signed_Division"
begin

text \<open>
  The multiply and divide unit, \<^verbatim>\<open>src/cpu/exec/mdu.h\<close>. Signed arithmetic that leaves
  the range of \<^verbatim>\<open>int64_t\<close>, a division by zero and the quotient of the least integer by
  minus one are undefined in C.
\<close>

section \<open>Operations\<close>

definition L64_make :: "u32 \<Rightarrow> u32 \<Rightarrow> u64" where
  "L64_make h l = push_bit 32 (ucast h) OR ucast l"

definition set_hilo :: "u64 \<Rightarrow> nemu \<Rightarrow> nemu" where
  "set_hilo v = on_cpu (\<lambda>c. c\<lparr>hi := L64_hi v, lo := L64_lo v\<rparr>)"

abbreviation (input) hilo :: "nemu \<Rightarrow> u64" where "hilo s \<equiv> L64_make (hi (cpu s)) (lo (cpu s))"

definition int64_range :: "int \<Rightarrow> bool" where
  "int64_range z \<longleftrightarrow> - (2 ^ 63) \<le> z \<and> z < 2 ^ 63"

definition signed_hilo :: "int \<Rightarrow> nemu \<Rightarrow> flow res" where
  "signed_hilo z s = (if int64_range z then fin (set_hilo (word_of_int z) s) else Inl (UndefinedBehaviour, s))"

definition exec_madd :: handler where
  "exec_madd cfg i s =
     InstAssert cfg (inst_rd i = 0 \<and> inst_shamt i = 0) s
       (\<lambda>s. signed_hilo (sint (hilo s) + sint (GR_SV i s) * sint (GR_TV i s)) s)"

definition exec_maddu :: handler where
  "exec_maddu cfg i s =
     InstAssert cfg (inst_rd i = 0 \<and> inst_shamt i = 0) s
       (\<lambda>s. fin (set_hilo (hilo s + ucast (GR_SV i s) * ucast (GR_TV i s)) s))"

definition exec_msub :: handler where
  "exec_msub cfg i s =
     InstAssert cfg (inst_rd i = 0 \<and> inst_shamt i = 0) s
       (\<lambda>s. signed_hilo (sint (hilo s) - sint (GR_SV i s) * sint (GR_TV i s)) s)"

definition exec_msubu :: handler where
  "exec_msubu cfg i s =
     InstAssert cfg (inst_rd i = 0 \<and> inst_shamt i = 0) s
       (\<lambda>s. fin (set_hilo (hilo s - ucast (GR_SV i s) * ucast (GR_TV i s)) s))"

definition exec_mult :: handler where
  "exec_mult cfg i s =
     InstAssert cfg (inst_rd i = 0 \<and> inst_shamt i = 0) s
       (\<lambda>s. let prod = scast (GR_SV i s) * scast (GR_TV i s) :: u64
            in fin (on_cpu (\<lambda>c. c\<lparr>lo := ucast prod, hi := ucast (signed_drop_bit 32 prod)\<rparr>) s))"

definition exec_multu :: handler where
  "exec_multu cfg i s =
     InstAssert cfg (inst_rd i = 0 \<and> inst_shamt i = 0) s
       (\<lambda>s. let prod = ucast (GR_SV i s) * ucast (GR_TV i s) :: u64
            in fin (on_cpu (\<lambda>c. c\<lparr>lo := ucast prod, hi := ucast (drop_bit 32 prod)\<rparr>) s))"

definition exec_divide :: handler where
  "exec_divide cfg i s =
     InstAssert cfg (inst_rd i = 0 \<and> inst_shamt i = 0) s
       (\<lambda>s. let a = sint (GR_SV i s); b = sint (GR_TV i s)
            in if b = 0 \<or> \<not> int32_range (a sdiv b) then Inl (UndefinedBehaviour, s)
               else fin (on_cpu (\<lambda>c. c\<lparr>lo := word_of_int (a sdiv b), hi := word_of_int (a smod b)\<rparr>) s))"

definition exec_divu :: handler where
  "exec_divu cfg i s =
     InstAssert cfg (inst_rd i = 0 \<and> inst_shamt i = 0) s
       (\<lambda>s. let a = GR_SV i s; b = GR_TV i s
            in if b = 0 then Inl (UndefinedBehaviour, s)
               else fin (on_cpu (\<lambda>c. c\<lparr>lo := a div b, hi := a mod b\<rparr>) s))"

definition exec_mfhi :: handler where
  "exec_mfhi cfg i s =
     InstAssert cfg (inst_rs i = 0 \<and> inst_rt i = 0 \<and> inst_shamt i = 0) s
       (\<lambda>s. fin (set_GR_DV i (hi (cpu s)) s))"

definition exec_mthi :: handler where
  "exec_mthi cfg i s =
     InstAssert cfg (inst_rt i = 0 \<and> inst_rd i = 0 \<and> inst_shamt i = 0) s
       (\<lambda>s. fin (on_cpu (\<lambda>c. c\<lparr>hi := gpr c (inst_rs i)\<rparr>) s))"

definition exec_mflo :: handler where
  "exec_mflo cfg i s =
     InstAssert cfg (inst_rs i = 0 \<and> inst_rt i = 0 \<and> inst_shamt i = 0) s
       (\<lambda>s. fin (set_GR_DV i (lo (cpu s)) s))"

definition exec_mtlo :: handler where
  "exec_mtlo cfg i s =
     InstAssert cfg (inst_rt i = 0 \<and> inst_rd i = 0 \<and> inst_shamt i = 0) s
       (\<lambda>s. fin (on_cpu (\<lambda>c. c\<lparr>lo := gpr c (inst_rs i)\<rparr>) s))"

section \<open>The pair HI:LO\<close>

lemma L64_make_parts [simp]: "L64_hi (L64_make h l) = h" "L64_lo (L64_make h l) = l"
  by (rule bit_eqI; auto simp: L64_hi_def L64_lo_def L64_make_def bit_simps dest: bit_imp_le_length)+

lemma L64_parts_make [simp]: "L64_make (L64_hi v) (L64_lo v) = v"
  by (rule bit_eqI) (auto simp: L64_hi_def L64_lo_def L64_make_def bit_simps dest: bit_imp_le_length)

lemma hilo_set_hilo [simp]: "hilo (set_hilo v s) = v"
  by (simp add: set_hilo_def)

text \<open>Both halves of a signed product: the pair holds it exactly.\<close>

lemma mult_hilo:
  "L64_make (ucast (signed_drop_bit 32 (v :: u64))) (ucast v) = v"
proof -
  have "(ucast (signed_drop_bit 32 v) :: u32) = L64_hi v"
    by (rule bit_eqI) (auto simp: L64_hi_def bit_simps)
  then show ?thesis by (simp flip: L64_lo_def)
qed

lemma sint_prod_range:
  assumes "int32_range x" and "int32_range y"
  shows "int64_range (x * y)"
proof -
  have "\<bar>x\<bar> \<le> 2 ^ 31" "\<bar>y\<bar> \<le> 2 ^ 31" using assms by (auto simp: int32_range_def)
  then have "\<bar>x * y\<bar> \<le> 2 ^ 31 * 2 ^ 31" unfolding abs_mult by (intro mult_mono) auto
  then show ?thesis by (auto simp: int64_range_def)
qed

lemma sint_word_of_int_u64: "int64_range z \<Longrightarrow> sint (word_of_int z :: u64) = z"
  by (simp add: int64_range_def sint_sbintrunc' signed_take_bit_int_eq_self)

lemma sint_prod_u64: "sint (scast a * scast b :: u64) = sint (a :: u32) * sint (b :: u32)"
  using sint_word_of_int_u64 [OF sint_prod_range [OF sint_u32_range [of a] sint_u32_range [of b]]] by simp

lemma uint_prod_u64: "uint (ucast a * ucast b :: u64) = uint (a :: u32) * uint (b :: u32)"
proof -
  have "uint a * uint b < 2 ^ 32 * 2 ^ 32"
    using uint_lt2p [of a] uint_lt2p [of b] by (intro mult_strict_mono) auto
  moreover have "take_bit 64 (uint w) = uint w" for w :: u32
    using uint_lt2p [of w] by (intro take_bit_int_eq_self) auto
  ultimately show ?thesis by (simp add: uint_word_ariths unsigned_ucast_eq)
qed

lemma uint_add_u64: "uint (x + y :: u64) = (uint x + uint y) mod 2 ^ 64"
  and uint_sub_u64: "uint (x - y :: u64) = (uint x - uint y) mod 2 ^ 64"
  by (simp_all add: uint_word_ariths)

text \<open>Division: quotient and remainder recompose the dividend, the remainder has its sign.\<close>

lemma sdiv_range_u32:
  assumes "b \<noteq> 0" and "\<not> (a = - (2 ^ 31) \<and> b = - 1)" and "int32_range a"
  shows "int32_range (a sdiv b)"
proof -
  have le: "\<bar>a\<bar> div \<bar>b\<bar> \<le> \<bar>a\<bar>" 
    using zdiv_mono2 [of "\<bar>a\<bar>" 1 "\<bar>b\<bar>"] assms(1) by simp
  have nn: "0 \<le> \<bar>a\<bar> div \<bar>b\<bar>" using assms(1) by (simp add: pos_imp_zdiv_nonneg_iff)
  show ?thesis
  proof (cases "a = - (2 ^ 31) \<and> b < 0")
    case True
    then have "\<bar>a\<bar> div \<bar>b\<bar> \<le> \<bar>a\<bar> div 2" using assms(2) by (intro zdiv_mono2) auto
    then show ?thesis using True nn by (simp add: int32_range_def signed_divide_int_def)
  next
    case False
    then show ?thesis
      using assms(1,3) le nn by (auto simp: int32_range_def signed_divide_int_def sgn_if)
  qed
qed

section \<open>Properties\<close>

text \<open>
  The products. \<^verbatim>\<open>mult\<close> and \<^verbatim>\<open>multu\<close> leave in HI:LO the exact 64-bit product of the
  operands, read as signed and as unsigned integers, and \<^verbatim>\<open>maddu\<close> and \<^verbatim>\<open>msubu\<close> add it to
  and subtract it from HI:LO modulo \<open>2^64\<close>.
\<close>

theorem multiply_exact:
  assumes "inst_rd i = 0" and "inst_shamt i = 0" and "a = GR_SV i s" and "b = GR_TV i s"
  shows "(\<exists>t. exec_mult cfg i s = fin t \<and> sint (hilo t) = sint a * sint b) \<and>
     (\<exists>t. exec_multu cfg i s = fin t \<and> uint (hilo t) = uint a * uint b) \<and>
     (\<exists>t. exec_maddu cfg i s = fin t \<and> uint (hilo t) = (uint (hilo s) + uint a * uint b) mod 2 ^ 64) \<and>
     (\<exists>t. exec_msubu cfg i s = fin t \<and> uint (hilo t) = (uint (hilo s) - uint a * uint b) mod 2 ^ 64)"
proof -
  have "L64_make (ucast (drop_bit 32 v)) (ucast v) = v" for v :: u64
    using L64_parts_make [of v] by (simp add: L64_hi_def L64_lo_def)
  then show ?thesis
    using assms by (simp add: exec_mult_def exec_multu_def exec_maddu_def exec_msubu_def Let_def mult_hilo
        sint_prod_u64 uint_prod_u64 uint_add_u64 uint_sub_u64)
qed

theorem multiply_exact_witness:
  "\<exists>t. exec_mult mips32r1_defconfig 0x012A0018 (regs_9_10 0xfffffffe 3) = fin t \<and> sint (hilo t) = - 6"
proof -
  have f: "inst_rs 0x012A0018 = 9" "inst_rt 0x012A0018 = 10" "inst_rd 0x012A0018 = 0" "inst_shamt 0x012A0018 = 0"
    by (simp_all add: inst_rs_def inst_rt_def inst_rd_def inst_shamt_def bf_get_def)
  show ?thesis
    using multiply_exact [OF f(3,4) refl refl, of mips32r1_defconfig "regs_9_10 0xfffffffe 3"] by (simp add: f)
qed

text \<open>
  C20: the signed division. It is undefined for a zero divisor and for the least integer divided by
  minus one, and in no other case; otherwise LO and HI are the quotient rounded to zero and the
  remainder: they recompose the dividend, the remainder is smaller than the divisor in absolute
  value, and it is zero or has the sign of the dividend.
\<close>

theorem divide_exact:
  assumes "inst_rd i = 0" and "inst_shamt i = 0" and "a = sint (GR_SV i s)" and "b = sint (GR_TV i s)"
  shows "if b = 0 \<or> a = - (2 ^ 31) \<and> b = - 1 then exec_divide cfg i s = Inl (UndefinedBehaviour, s)
     else \<exists>t. exec_divide cfg i s = fin t \<and> a = sint (lo (cpu t)) * b + sint (hi (cpu t)) \<and>
            \<bar>sint (hi (cpu t))\<bar> < \<bar>b\<bar> \<and> (sint (hi (cpu t)) = 0 \<or> sgn (sint (hi (cpu t))) = sgn a)"
proof (cases "b = 0 \<or> a = - (2 ^ 31) \<and> b = - 1")
  case True
  then show ?thesis
    using assms by (auto simp: exec_divide_def Let_def int32_range_def signed_divide_int_def)
next
  case False
  have ra: "int32_range a" and rb: "int32_range b" using assms(3,4) sint_u32_range by simp_all
  have q: "int32_range (a sdiv b)" using False ra by (intro sdiv_range_u32) auto
  have pos: "\<bar>a\<bar> mod \<bar>b\<bar> = 0 \<or> sgn (\<bar>a\<bar> mod \<bar>b\<bar>) = 1"
    using False pos_mod_sign [of "\<bar>b\<bar>" "\<bar>a\<bar>"] unfolding sgn_1_pos by linarith
  have small: "\<bar>a smod b\<bar> < \<bar>b\<bar>" using False by (simp add: signed_modulo_int_def abs_mult)
  have sgn: "a smod b = 0 \<or> sgn (a smod b) = sgn a" using pos by (auto simp: signed_modulo_int_def sgn_mult)
  have r: "int32_range (a smod b)" using rb small by (auto simp: int32_range_def)
  let ?t = "on_cpu (\<lambda>c. c\<lparr>lo := word_of_int (a sdiv b), hi := word_of_int (a smod b)\<rparr>) s"
  have "exec_divide cfg i s = fin ?t" using False assms q by (simp add: exec_divide_def Let_def)
  moreover have "sint (lo (cpu ?t)) = a sdiv b" "sint (hi (cpu ?t)) = a smod b"
    using sint_word_of_int_u32 [OF q] sint_word_of_int_u32 [OF r] by simp_all
  moreover have "a = a sdiv b * b + a smod b" by (simp add: sdiv_mult_smod_eq)
  ultimately show ?thesis using False small sgn by auto
qed

theorem divide_exact_witness:
  "(\<exists>t. exec_divide mips32r1_defconfig 0x012A001A (regs_9_10 0xfffffff9 2) = fin t \<and>
      - 7 = sint (lo (cpu t)) * 2 + sint (hi (cpu t))) \<and>
   exec_divide mips32r1_defconfig 0x012A001A (regs_9_10 5 0) = Inl (UndefinedBehaviour, regs_9_10 5 0)"
proof -
  have f: "inst_rs 0x012A001A = 9" "inst_rt 0x012A001A = 10" "inst_rd 0x012A001A = 0" "inst_shamt 0x012A001A = 0"
    by (simp_all add: inst_rs_def inst_rt_def inst_rd_def inst_shamt_def bf_get_def)
  show ?thesis
    using divide_exact [OF f(3,4) refl refl, of "regs_9_10 0xfffffff9 2" mips32r1_defconfig]
      divide_exact [OF f(3,4) refl refl, of "regs_9_10 5 0" mips32r1_defconfig] by (auto simp: f)
qed

end
