(* ===== verification/Exec_Branch.thy ===== *)
theory Exec_Branch
  imports Exec_Common
begin

text \<open>
  Branches and jumps, \<^verbatim>\<open>src/cpu/exec/branch.h\<close>, and the conditional traps,
  \<^verbatim>\<open>src/cpu/exec/trap.h\<close>. Function tracing is a log and is left out.
\<close>

section \<open>branch.h\<close>

definition set_br_target :: "u32 \<Rightarrow> nemu \<Rightarrow> nemu" where
  "set_br_target a = on_cpu (\<lambda>c. c\<lparr>br_target := a\<rparr>)"

abbreviation (input) cpu_pc :: "nemu \<Rightarrow> u32" where "cpu_pc s \<equiv> pc (cpu s)"

definition branch_dest :: "u32 \<Rightarrow> nemu \<Rightarrow> u32" where
  "branch_dest i s = cpu_pc s + push_bit 2 (inst_simm i) + 4"

text \<open>The body shared by the branches, and by the likely branches, of the file.\<close>

definition branch_if :: "bool \<Rightarrow> handler" where
  "branch_if cond cfg i s =
     prepare_delayslot cfg (set_br_target (if cond then branch_dest i s else cpu_pc s + 8) s)"

definition branch_likely_if :: "bool \<Rightarrow> handler" where
  "branch_likely_if cond cfg i s =
     (if cond then prepare_delayslot cfg (set_br_target (branch_dest i s) s)
      else fin (on_cpu (\<lambda>c. c\<lparr>pc := pc c + 4\<rparr>) (set_br_target (cpu_pc s + 8) s)))"

definition link_r31 :: "nemu \<Rightarrow> nemu" where
  "link_r31 s = set_gpr 31 (cpu_pc s + 8) s"

definition exec_beq :: handler where "exec_beq cfg i s = branch_if (GR_SV i s = GR_TV i s) cfg i s"
definition exec_bne :: handler where "exec_bne cfg i s = branch_if (GR_SV i s \<noteq> GR_TV i s) cfg i s"

definition exec_blez :: handler where
  "exec_blez cfg i s = InstAssert cfg (inst_rt i = 0) s (\<lambda>s. branch_if (GR_SV i s \<le>s 0) cfg i s)"

definition exec_bgtz :: handler where "exec_bgtz cfg i s = branch_if (0 <s GR_SV i s) cfg i s"
definition exec_bltz :: handler where "exec_bltz cfg i s = branch_if (GR_SV i s <s 0) cfg i s"
definition exec_bgez :: handler where "exec_bgez cfg i s = branch_if (0 \<le>s GR_SV i s) cfg i s"

text \<open>The link register is written before the condition is read.\<close>

definition exec_bgezal :: handler where
  "exec_bgezal cfg i s = (let s = link_r31 s in branch_if (0 \<le>s GR_SV i s) cfg i s)"

definition exec_bltzal :: handler where
  "exec_bltzal cfg i s = (let s = link_r31 s in branch_if (GR_SV i s <s 0) cfg i s)"

definition jump_dest :: "u32 \<Rightarrow> nemu \<Rightarrow> u32" where
  "jump_dest i s = (cpu_pc s AND 0xf0000000) OR push_bit 2 (inst_addr i)"

definition exec_jal :: handler where
  "exec_jal cfg i s =
     (let s = link_r31 s in prepare_delayslot cfg (set_br_target (jump_dest i s) s))"

definition exec_jalr :: handler where
  "exec_jalr cfg i s =
     InstAssert cfg (inst_rt i = 0 \<and> inst_shamt i = 0) s
       (\<lambda>s. let s = set_GR_DV i (cpu_pc s + 8) s
            in prepare_delayslot cfg (set_br_target (GR_SV i s) s))"

definition exec_j :: handler where
  "exec_j cfg i s = prepare_delayslot cfg (set_br_target (jump_dest i s) s)"

definition exec_jr :: handler where
  "exec_jr cfg i s =
     InstAssert cfg (inst_rt i = 0 \<and> inst_rd i = 0) s
       (\<lambda>s. prepare_delayslot cfg (set_br_target (GR_SV i s) s))"

definition exec_beql :: handler where "exec_beql cfg i s = branch_likely_if (GR_SV i s = GR_TV i s) cfg i s"
definition exec_bnel :: handler where "exec_bnel cfg i s = branch_likely_if (GR_SV i s \<noteq> GR_TV i s) cfg i s"

definition exec_blezl :: handler where
  "exec_blezl cfg i s = InstAssert cfg (inst_rt i = 0) s (\<lambda>s. branch_likely_if (GR_SV i s \<le>s 0) cfg i s)"

definition exec_bgtzl :: handler where "exec_bgtzl cfg i s = branch_likely_if (0 <s GR_SV i s) cfg i s"
definition exec_bltzl :: handler where "exec_bltzl cfg i s = branch_likely_if (GR_SV i s <s 0) cfg i s"
definition exec_bgezl :: handler where "exec_bgezl cfg i s = branch_likely_if (0 \<le>s GR_SV i s) cfg i s"

definition exec_bgezall :: handler where
  "exec_bgezall cfg i s = (let s = link_r31 s in branch_likely_if (0 \<le>s GR_SV i s) cfg i s)"

definition exec_bltzall :: handler where
  "exec_bltzall cfg i s = (let s = link_r31 s in branch_likely_if (GR_SV i s <s 0) cfg i s)"

section \<open>trap.h\<close>

definition trap_if :: "bool \<Rightarrow> handler" where
  "trap_if cond cfg i s = (if cond then raise_end cfg EXC_TRAP s else fin s)"

definition exec_teq :: handler where "exec_teq cfg i s = trap_if (sint (GR_SV i s) = sint (GR_TV i s)) cfg i s"
definition exec_teqi :: handler where "exec_teqi cfg i s = trap_if (sint (GR_SV i s) = sint (inst_simm i)) cfg i s"
definition exec_tge :: handler where "exec_tge cfg i s = trap_if (GR_TV i s \<le>s GR_SV i s) cfg i s"
definition exec_tgei :: handler where "exec_tgei cfg i s = trap_if (inst_simm i \<le>s GR_SV i s) cfg i s"
definition exec_tgeiu :: handler where "exec_tgeiu cfg i s = trap_if (inst_simm i \<le> GR_SV i s) cfg i s"
definition exec_tgeu :: handler where "exec_tgeu cfg i s = trap_if (GR_TV i s \<le> GR_SV i s) cfg i s"
definition exec_tlt :: handler where "exec_tlt cfg i s = trap_if (GR_SV i s <s GR_TV i s) cfg i s"
definition exec_tlti :: handler where "exec_tlti cfg i s = trap_if (GR_SV i s <s inst_simm i) cfg i s"
definition exec_tltiu :: handler where "exec_tltiu cfg i s = trap_if (GR_SV i s < inst_simm i) cfg i s"
definition exec_tltu :: handler where "exec_tltu cfg i s = trap_if (GR_SV i s < GR_TV i s) cfg i s"
definition exec_tne :: handler where "exec_tne cfg i s = trap_if (sint (GR_SV i s) \<noteq> sint (GR_TV i s)) cfg i s"

text \<open>
  \<^verbatim>\<open>tnei\<close> is the last handler of the list: no other handler's macro follows it, so without
  delay slots it falls into \<^verbatim>\<open>exit\<close> and the program counter is not advanced.
\<close>

definition exec_tnei :: handler where
  "exec_tnei cfg i s =
     (if sint (GR_SV i s) \<noteq> sint (inst_simm i)
      then bind_r (raise_exception cfg EXC_TRAP s)
             (\<lambda>_ s. Inr (if CONFIG_DELAYSLOT cfg then To_inst_end else To_exit, s))
      else Inr (if CONFIG_DELAYSLOT cfg then To_inst_end else To_exit, s))"

section \<open>Properties\<close>

lemma set_br_target_frame [simp]:
  "pc (cpu (set_br_target a s)) = pc (cpu s)" "br_target (cpu (set_br_target a s)) = a"
  "gpr (cpu (set_br_target a s)) = gpr (cpu s)" "is_delayslot (cpu (set_br_target a s)) = is_delayslot (cpu s)"
  "has_exception (cpu (set_br_target a s)) = has_exception (cpu s)" "cp0 (cpu (set_br_target a s)) = cp0 (cpu s)"
  by (simp_all add: set_br_target_def)

lemma branch_if_delay:
  assumes "CONFIG_DELAYSLOT cfg"
  shows "branch_if cond cfg i s =
     Inr (To_exit, on_cpu (\<lambda>c. c\<lparr>br_target := (if cond then branch_dest i s else pc c + 8),
                              is_delayslot := True, pc := pc c + 4\<rparr>) s)"
  using assms by (simp add: branch_if_def prepare_delayslot_def set_br_target_def on_cpu_def)

text \<open>Every trap whose condition holds ends the emulator.\<close>

lemma trap_if_panics: "trap_if True cfg i s = Inl (Panic, s)"
  by (simp add: trap_if_def raise_end_def raise_exception_def)

end
