(* ===== verification/Exec_Memory.thy ===== *)
theory Exec_Memory
  imports Exec_Common
begin

text \<open>
  Loads and stores, \<^verbatim>\<open>src/cpu/exec/memory.h\<close>: aligned accesses, the unaligned pairs
  \<^verbatim>\<open>lwl\<close>/\<^verbatim>\<open>lwr\<close> and \<^verbatim>\<open>swl\<close>/\<^verbatim>\<open>swr\<close>, and
  \<^verbatim>\<open>ll\<close>/\<^verbatim>\<open>sc\<close>.
\<close>

section \<open>Operations\<close>

definition mem_addr :: "u32 \<Rightarrow> nemu \<Rightarrow> u32" where
  "mem_addr i s = GR_SV i s + inst_simm i"

text \<open>
  The aligned loads differ in length and in the conversion of the value read; the aligned stores in
  length.
\<close>

definition load :: "nat \<Rightarrow> (u32 \<Rightarrow> u32) \<Rightarrow> handler" where
  "load len conv cfg i s =
     (let a = mem_addr i s
      in CHECK_ALIGNED_ADDR cfg EXC_AdEL (of_nat len) a s
           (\<lambda>s. bind_r (vaddr_read cfg a len s)
              (\<lambda>rdata s. fin (if \<not> has_exception (cpu s) then set_GR_TV i (conv rdata) s else s))))"

definition store :: "nat \<Rightarrow> handler" where
  "store len cfg i s =
     (let a = mem_addr i s
      in CHECK_ALIGNED_ADDR cfg EXC_AdES (of_nat len) a s
           (\<lambda>s. bind_r (vaddr_write cfg a len (GR_TV i s) s) (\<lambda>_. fin)))"

definition exec_lw :: handler where "exec_lw = load 4 (\<lambda>v. v)"
definition exec_lb :: handler where "exec_lb = load 1 (signed_take_bit 7)"
definition exec_lbu :: handler where "exec_lbu = load 1 (\<lambda>v. v)"
definition exec_lh :: handler where "exec_lh = load 2 (signed_take_bit 15)"
definition exec_lhu :: handler where "exec_lhu = load 2 (\<lambda>v. v)"
definition exec_sw :: handler where "exec_sw = store 4"
definition exec_sh :: handler where "exec_sh = store 2"
definition exec_sb :: handler where "exec_sb = store 1"

definition exec_swl :: handler where
  "exec_swl cfg i s =
     (let waddr = mem_addr i s;
          idx = unat (waddr AND 3);
          len = idx + 1;
          wdata = drop_bit ((3 - idx) * 8) (GR_TV i s)
      in bind_r (vaddr_write cfg (push_bit 2 (drop_bit 2 waddr)) len wdata s)
           (\<lambda>_ s. fin (if has_exception (cpu s) then on_cpu (cpr_set cp0_badvaddr waddr) s else s)))"

definition exec_swr :: handler where
  "exec_swr cfg i s =
     (let waddr = mem_addr i s;
          len = 4 - unat (waddr AND 3);
          wdata = GR_TV i s
      in bind_r (vaddr_write cfg waddr len wdata s) (\<lambda>_. fin))"

definition lwl_val :: "nat \<Rightarrow> u32 \<Rightarrow> u32 \<Rightarrow> u32" where
  "lwl_val len rdata rt =
     (if len < 4 then push_bit ((4 - len) * 8) rdata OR drop_bit (len * 8) (push_bit (len * 8) rt)
      else rdata)"

definition exec_lwl :: handler where
  "exec_lwl cfg i s =
     (let raddr = mem_addr i s;
          len = unat (raddr AND 3) + 1
      in bind_r (vaddr_read cfg (push_bit 2 (drop_bit 2 raddr)) len s)
           (\<lambda>rdata s. fin (if \<not> has_exception (cpu s) then set_GR_TV i (lwl_val len rdata (GR_TV i s)) s
                           else on_cpu (cpr_set cp0_badvaddr raddr) s)))"

definition lwr_val :: "nat \<Rightarrow> u32 \<Rightarrow> u32 \<Rightarrow> u32" where
  "lwr_val idx rdata rt =
     (let len = 4 - idx
      in if len < 4
         then drop_bit (idx * 8) (push_bit (idx * 8) rdata) OR push_bit (len * 8) (drop_bit (len * 8) rt)
         else drop_bit (idx * 8) (push_bit (idx * 8) rdata))"

definition exec_lwr :: handler where
  "exec_lwr cfg i s =
     (let raddr = mem_addr i s;
          idx = unat (raddr AND 3);
          len = 4 - idx
      in bind_r (vaddr_read cfg raddr len s)
           (\<lambda>rdata s. fin (if \<not> has_exception (cpu s) then set_GR_TV i (lwr_val idx rdata (GR_TV i s)) s else s)))"

definition exec_pref :: handler where "exec_pref cfg i s = fin s"

definition exec_ll :: handler where
  "exec_ll cfg i s =
     (let a = mem_addr i s
      in CHECK_ALIGNED_ADDR cfg EXC_AdEL 4 a s
           (\<lambda>s. bind_r (vaddr_read cfg a 4 s) (\<lambda>rdata s. fin (set_GR_TV i rdata s))))"

definition exec_sc :: handler where
  "exec_sc cfg i s =
     (let a = mem_addr i s
      in CHECK_ALIGNED_ADDR cfg EXC_AdES 4 a s
           (\<lambda>s. bind_r (vaddr_write cfg a 4 (GR_TV i s) s)
              (\<lambda>_ s. fin (if \<not> has_exception (cpu s) then set_GR_TV i 1 s else s))))"

section \<open>The unaligned pair\<close>

text \<open>
  \<^verbatim>\<open>lwr\<close> at an address that is \<open>idx\<close> bytes into its word takes the low \<open>4 - idx\<close>
  bytes of the target from there; \<^verbatim>\<open>lwl\<close> at the last byte takes the other \<open>idx\<close> bytes.
\<close>

lemma bit_lwr_val:
  "0 < idx \<Longrightarrow> idx < 4 \<Longrightarrow>
     bit (lwr_val idx rdata rt) k \<longleftrightarrow> (if k < 8 * (4 - idx) then bit rdata k else bit rt k)"
  by (auto simp: lwr_val_def Let_def bit_simps dest: bit_imp_le_length)

lemma bit_lwl_val:
  "0 < len \<Longrightarrow> len < 4 \<Longrightarrow>
     bit (lwl_val len rdata rt) k \<longleftrightarrow>
       (if k < 8 * (4 - len) then bit rt k else k < 32 \<and> bit rdata (k - 8 * (4 - len)))"
  by (auto simp: lwl_val_def bit_simps mult.commute dest: bit_imp_le_length)

lemma lwl_lwr_word:
  assumes "0 < idx" and "idx < 4"
  shows "lwl_val idx (mem_read m (a + (4 - idx)) idx) (lwr_val idx (mem_read m a (4 - idx)) rt) = mem_read32 m a"
proof (rule bit_eqI)
  fix k :: nat
  assume "possible_bit TYPE(u32) k"
  then have k: "k < 32" by simp
  show "bit (lwl_val idx (mem_read m (a + (4 - idx)) idx) (lwr_val idx (mem_read m a (4 - idx)) rt)) k
      \<longleftrightarrow> bit (mem_read32 m a) k"
  proof (cases "k < 8 * (4 - idx)")
    case True
    then show ?thesis
      using assms k by (simp add: bit_lwl_val bit_lwr_val bit_mem_read bit_mem_read32)
  next
    case False
    then obtain j where j: "k = 8 * (4 - idx) + j" by (metis le_Suc_ex not_less)
    then have "j < 8 * idx" using k assms by simp
    then show ?thesis
      using assms k j by (simp add: bit_lwl_val bit_mem_read bit_mem_read32 add.assoc)
  qed
qed

end
