(* ===== verification/Exec_System.thy ===== *)
theory Exec_System
  imports Exec_Common
begin

text \<open>
  Privileged instructions, \<^verbatim>\<open>src/cpu/exec/system.h\<close>, and the handlers of
  \<^verbatim>\<open>src/cpu/exec/special.h\<close>. The decode cache is not part of this build, so clearing it
  does nothing; \<^verbatim>\<open>usleep\<close> has no effect on the state.
\<close>

section \<open>special.h\<close>

text \<open>
  The seven handlers \<^verbatim>\<open>exec_special\<close> to \<^verbatim>\<open>exec_cop1\<close> have the same body.
\<close>

definition exec_unreachable :: handler where
  "exec_unreachable cfg i s = Inl (Panic, s)"

definition exec_inv :: handler where
  "exec_inv cfg i s =
     (if CONFIG_EXCEPTION cfg then raise_end cfg EXC_RI s
      else bind_r (vaddr_read cfg (pc (cpu s)) 4 s) (\<lambda>_ s. fin (s\<lparr>nemu_state := NEMU_END\<rparr>)))"

section \<open>system.h\<close>

definition exec_cache :: handler where "exec_cache cfg i s = fin s"
definition exec_sync :: handler where "exec_sync cfg i s = fin s"
definition exec_synci :: handler where "exec_synci cfg i s = fin s"

definition exec_tlbp :: handler where
  "exec_tlbp cfg i s = bind_r (tlb_present s) (\<lambda>_. fin)"

definition exec_tlbr :: handler where
  "exec_tlbr cfg i s =
     (let idx = unat (cp0_get index_idx (cpu s))
      in if \<not> idx < NR_TLB_ENTRY then Inl (CPUAbort, s) else bind_r (tlb_read idx s) (\<lambda>_. fin))"

definition exec_tlbwi :: handler where
  "exec_tlbwi cfg i s =
     (let idx = unat (cp0_get index_idx (cpu s))
      in if \<not> idx < NR_TLB_ENTRY then Inl (CPUAbort, s)
         else bind_r (tlb_write idx s) (\<lambda>_ s. fin (clear_mmu_cache s)))"

definition exec_tlbwr :: handler where
  "exec_tlbwr cfg i s =
     bind_r
       (if CONFIG_MARCH_NOOP cfg
        then bind_r (tlb_write (unat (cp0 (cpu s) cp0_random)) s)
               (\<lambda>_ s. Inr ((), on_cpu (\<lambda>c. cpr_set cp0_random ((cp0 c cp0_random + 1) mod of_nat NR_TLB_ENTRY) c) s))
        else (let r = host_rand s (rand_taken s) mod NR_TLB_ENTRY;
                  s = on_cpu (cpr_set cp0_random (of_nat r)) (s\<lparr>rand_taken := rand_taken s + 1\<rparr>)
              in tlb_write (unat (cp0 (cpu s) cp0_random)) s))
       (\<lambda>_ s. fin (clear_mmu_cache s))"

definition exec_syscall :: handler where "exec_syscall cfg i s = raise_end cfg EXC_SYSCALL s"

definition exec_breakpoint :: handler where
  "exec_breakpoint cfg i s =
     (if work_mode s = MODE_GDB then fin (s\<lparr>nemu_state := NEMU_STOP\<rparr>) else raise_end cfg EXC_BP s)"

definition exec_wait :: handler where "exec_wait cfg i s = fin s"

definition leave_exception :: "CPU_state \<Rightarrow> CPU_state" where
  "leave_exception c =
     (let c = c\<lparr>has_exception := True\<rparr>
      in if cp0_get status_ERL c = 1
         then cp0_set status_ERL 0 (c\<lparr>br_target := cp0 c cp0_ErrorEPC\<rparr>)
         else cp0_set status_EXL 0 (c\<lparr>br_target := cp0 c cp0_epc\<rparr>))"

definition exec_eret :: handler where
  "exec_eret cfg i s = fin (clear_mmu_cache (on_cpu leave_exception s))"

abbreviation (input) CP0_INDEX :: nat where "CP0_INDEX \<equiv> 0"
abbreviation (input) CP0_ENTRY_LO0 :: nat where "CP0_ENTRY_LO0 \<equiv> 2"
abbreviation (input) CP0_ENTRY_LO1 :: nat where "CP0_ENTRY_LO1 \<equiv> 3"
abbreviation (input) CP0_CONTEXT :: nat where "CP0_CONTEXT \<equiv> 4"
abbreviation (input) CP0_PAGEMASK :: nat where "CP0_PAGEMASK \<equiv> 5"
abbreviation (input) CP0_RESERVED :: nat where "CP0_RESERVED \<equiv> 7"
abbreviation (input) CP0_BADVADDR :: nat where "CP0_BADVADDR \<equiv> 8"
abbreviation (input) CP0_COUNT :: nat where "CP0_COUNT \<equiv> 9"
abbreviation (input) CP0_ENTRY_HI :: nat where "CP0_ENTRY_HI \<equiv> 10"
abbreviation (input) CP0_COMPARE :: nat where "CP0_COMPARE \<equiv> 11"
abbreviation (input) CP0_STATUS :: nat where "CP0_STATUS \<equiv> 12"
abbreviation (input) CP0_CAUSE :: nat where "CP0_CAUSE \<equiv> 13"
abbreviation (input) CP0_EPC :: nat where "CP0_EPC \<equiv> 14"
abbreviation (input) CP0_EBASE :: nat where "CP0_EBASE \<equiv> 15"
abbreviation (input) CP0_CONFIG :: nat where "CP0_CONFIG \<equiv> 16"
abbreviation (input) CP0_RESERVED_SERIAL :: nat where "CP0_RESERVED_SERIAL \<equiv> 1"
abbreviation (input) CP0_RESERVED_HIT_TRAP :: nat where "CP0_RESERVED_HIT_TRAP \<equiv> 6"

definition exec_mfc0 :: handler where
  "exec_mfc0 cfg i s =
     (if inst_rd i = CP0_COUNT then fin (set_GR_TV i (cp0 (cpu s) cp0_count) s)
      else fin (set_GR_TV i (cp0 (cpu s) (inst_rd i, inst_sel i)) s))"

text \<open>A field of a register is copied from the same bits of the new value.\<close>

definition copy_fld :: "cp0_fld \<Rightarrow> u32 \<Rightarrow> CPU_state \<Rightarrow> CPU_state" where
  "copy_fld f v = cp0_set f (bf_get (fst (snd f)) (snd (snd f)) v)"

definition mtc0_status :: "u32 \<Rightarrow> CPU_state \<Rightarrow> CPU_state" where
  "mtc0_status v c =
     copy_fld status_IE v (copy_fld status_EXL v (copy_fld status_ERL v (copy_fld status_UM v
    (copy_fld status_IM v (copy_fld status_NMI v (copy_fld status_SR v (copy_fld status_TS v
    (copy_fld status_BEV v (copy_fld status_RE v (copy_fld status_RP v
    (cp0_set status_CU (bf_get 28 4 v AND 0x3) c)))))))))))"

definition mtc0_entry_lo0 :: "u32 \<Rightarrow> CPU_state \<Rightarrow> CPU_state" where
  "mtc0_entry_lo0 v c =
     copy_fld entry_lo0_pfn v (copy_fld entry_lo0_c v (copy_fld entry_lo0_d v
    (copy_fld entry_lo0_v v (copy_fld entry_lo0_g v c))))"

definition mtc0_entry_lo1 :: "u32 \<Rightarrow> CPU_state \<Rightarrow> CPU_state" where
  "mtc0_entry_lo1 v c =
     copy_fld entry_lo1_pfn v (copy_fld entry_lo1_c v (copy_fld entry_lo1_d v
    (copy_fld entry_lo1_v v (copy_fld entry_lo1_g v c))))"

definition mtc0_cause :: "u32 \<Rightarrow> nemu \<Rightarrow> unit res" where
  "mtc0_cause v s =
     bind_r (nemu_set_irq 0 (bit (bf_get 8 8 v) 0)
               (on_cpu (\<lambda>c. copy_fld cause_WP v (copy_fld cause_IV v c)) s))
       (\<lambda>_ s. nemu_set_irq 1 (bit (bf_get 8 8 v) 1) s)"

definition exec_mtc0 :: handler where
  "exec_mtc0 cfg i s =
     (let v = GR_TV i s; rs = (inst_rd i, inst_sel i)
      in if rs = (CP0_EBASE, 1) \<or> rs = (CP0_COUNT, 0) \<or> rs = (CP0_EPC, 0) then fin (on_cpu (cpr_set rs v) s)
         else if rs = (CP0_BADVADDR, 0) then fin s
         else if rs = (CP0_CONTEXT, 0) then fin (on_cpu (copy_fld context_PTEBase v) s)
         else if rs = (CP0_CONFIG, 0) then fin (on_cpu (copy_fld config_K0 v) s)
         else if rs = (CP0_STATUS, 0) then
           fin (on_cpu (mtc0_status v)
                  (if cp0_get status_ERL (cpu s) \<noteq> bf_get 2 (Suc 0) v then clear_mmu_cache s else s))
         else if rs = (CP0_COMPARE, 0) then
           bind_r (nemu_set_irq 7 False (on_cpu (cpr_set cp0_compare v) s)) (\<lambda>_. fin)
         else if rs = (CP0_CAUSE, 0) then bind_r (mtc0_cause v s) (\<lambda>_. fin)
         else if rs = (CP0_PAGEMASK, 0) then fin (on_cpu (copy_fld pagemask_mask v) s)
         else if rs = (CP0_ENTRY_LO0, 0) then fin (on_cpu (mtc0_entry_lo0 v) s)
         else if rs = (CP0_ENTRY_LO1, 0) then fin (on_cpu (mtc0_entry_lo1 v) s)
         else if rs = (CP0_ENTRY_HI, 0) then
           fin (clear_mmu_cache (on_cpu (\<lambda>c. copy_fld entry_hi_vpn v (copy_fld entry_hi_asid v c)) s))
         else if rs = (CP0_INDEX, 0) then fin (on_cpu (cp0_set index_idx v) s)
         else if rs = (CP0_RESERVED, CP0_RESERVED_SERIAL) then
           fin (if CONFIG_KERNEL_DEBUG_SERIAL cfg then s\<lparr>stdout := stdout s @ [ucast v]\<rparr> else s)
         else if rs = (CP0_RESERVED, CP0_RESERVED_HIT_TRAP) then Inl (NemuExit, s)
         else fin s)"

section \<open>Properties\<close>

text \<open>
  A handler that was entered by an exception and executes \<^verbatim>\<open>eret\<close> comes back to the
  restart address with the exception level cleared.
\<close>

lemma leave_enter_exception:
  assumes "cp0_get status_ERL c = 0" and "cp0_get status_EXL c = 0"
  shows "br_target (leave_exception (enter_exception cfg code extra c)) = restart_pc cfg c"
    and "cp0_get status_EXL (leave_exception (enter_exception cfg code extra c)) = 0"
  using assms by (simp_all add: leave_exception_def Let_def enter_exception_epc)

text \<open>
  \<^verbatim>\<open>mtc0\<close> to the status register and back: the writable fields take the new value, the
  other bits keep the old one.
\<close>

lemma bit_copy_fld:
  "bit (cp0 (copy_fld (r, k, n) v c) r') i \<longleftrightarrow>
     (if r' = r \<and> k \<le> i \<and> i < k + n \<and> i < 32 then bit v i else bit (cp0 c r') i)"
  by (auto simp: copy_fld_def cp0_set.simps bit_bf_set bit_bf_get dest: bit_imp_le_length)

definition status_writable :: "nat set" where
  "status_writable = {0, 1, 2, 4} \<union> {8..15} \<union> {19, 20, 21, 22, 25, 27, 28, 29}"

lemma set_upt_32:
  "set [0..<32] = {0, 1, 2, 3, 4, 5, 6, 7} \<union> {8, 9, 10, 11, 12, 13, 14, 15} \<union>
     {16, 17, 18, 19, 20, 21, 22, 23} \<union> {24, 25, 26, 27, 28, 29, 30, 31 :: nat}"
  by (rule set_eqI) (simp, presburger)

lemma mtc0_status_bits:
  "bit (cp0 (mtc0_status v c) (12, 0)) i \<longleftrightarrow>
     (if i \<in> status_writable then bit v i else i \<notin> {30, 31} \<and> bit (cp0 c (12, 0)) i)"
proof -
  have cu: "bit (cp0 (cp0_set status_CU (bf_get 28 4 v AND 0x3) c) (12, 0)) i \<longleftrightarrow>
      (if i = 28 \<or> i = 29 then bit v i else i \<notin> {30, 31} \<and> bit (cp0 c (12, 0)) i)"
  proof (cases "28 \<le> i \<and> i < 32")
    case True
    then have "i = 28 \<or> i = 29 \<or> i = 30 \<or> i = 31" by linarith
    then show ?thesis
      unfolding and_mask_u32
      by (elim disjE) (simp_all add: cp0_set.simps bit_bf_set bit_bf_get bit_take_bit_iff)
  next
    case False
    then show ?thesis by (auto simp: cp0_set.simps bit_bf_set dest: bit_imp_le_length)
  qed
  show ?thesis
  proof (cases "i < 32")
    case False
    then show ?thesis by (auto simp: status_writable_def dest: bit_imp_le_length)
  next
    case True
    then have "i \<in> set [0..<32]" by simp
    then show ?thesis
      unfolding mtc0_status_def bit_copy_fld cu status_writable_def set_upt_32
      by (elim UnE insertE emptyE disjE) simp_all
  qed
qed

text \<open>
  A write of the status register by \<^verbatim>\<open>mtc0\<close> changes just the writable bits (interrupt
  enable, exception and error level, user mode, the interrupt mask, NMI, SR, TS, BEV, RE, RP and the
  two low coprocessor bits); the two high coprocessor bits are cleared, every other bit is kept; the
  cached translations are dropped when the error level changes.
\<close>

theorem mtc0_status_write:
  assumes "inst_rd i = CP0_STATUS" and "inst_sel i = 0"
  shows "\<exists>t. exec_mtc0 cfg i s = fin t \<and>
     (\<forall>k. bit (cp0 (cpu t) (12, 0)) k \<longleftrightarrow>
        (if k \<in> status_writable then bit (GR_TV i s) k else k \<notin> {30, 31} \<and> bit (cp0 (cpu s) (12, 0)) k)) \<and>
     mmu_cache t = mmu_cache (if bit (GR_TV i s) 2 = bit (cp0 (cpu s) (12, 0)) 2 then s else clear_mmu_cache s)"
proof -
  have "cp0_get status_ERL (cpu s) \<noteq> bf_get 2 (Suc 0) (GR_TV i s) \<longleftrightarrow>
      bit (GR_TV i s) 2 \<noteq> bit (cp0 (cpu s) (12, 0)) 2"
    by (auto simp: cp0_get.simps bf_get_1)
  then show ?thesis using assms by (simp add: exec_mtc0_def Let_def mtc0_status_bits)
qed

theorem mtc0_status_write_witness:
  "\<exists>t. exec_mtc0 mips32r1_defconfig 0x40896000 (set_gpr 9 0xffffffff (nemu_globals MODE_BATCH (\<lambda>_. 0) 0)) = fin t \<and>
     bit (cp0 (cpu t) (12, 0)) 22 \<and> \<not> bit (cp0 (cpu t) (12, 0)) 31"
proof -
  have f: "inst_rt 0x40896000 = 9" "inst_rd 0x40896000 = 12" "inst_sel 0x40896000 = 0"
    by (simp_all add: inst_rt_def inst_rd_def inst_sel_def bf_get_def)
  show ?thesis
    using mtc0_status_write [OF f(2,3), of mips32r1_defconfig "set_gpr 9 0xffffffff (nemu_globals MODE_BATCH (\<lambda>_. 0) 0)"]
    by (auto simp: f status_writable_def)
qed

end
