(* ===== verification/Softfloat.thy ===== *)
theory Softfloat
  imports Nemu_Prelude
begin

text \<open>
  The floating point routines of \<^verbatim>\<open>utils/softfloat.c\<close> that the handlers of the floating point
  unit call, with \<^verbatim>\<open>include/softfloat/softfloat-macros.h\<close> and
  \<^verbatim>\<open>include/softfloat/softfloat-specialize.h\<close>. No source or build file defines
  \<^verbatim>\<open>TARGET_MIPS\<close>, so the target-specific choices are those of the last branches: the highest
  bit of the fraction marks a quiet NaN, and NaNs are chosen as the x87 does.

  Bit patterns are words, a \<^verbatim>\<open>flag\<close> is a truth value, and exponents
  (\<^verbatim>\<open>int_fast16_t\<close>, 64 bits wide on the hosts) are integers: they stay far
  within their range. A routine takes the status record and returns it with its result. Four loops of
  corrections have no termination that is evident from their arguments; they are partial functions, and a call that does not
  return is the fault \<open>Hang\<close>. A division by zero and an undefined negation are the fault \<open>UndefinedBehaviour\<close>.
\<close>

section \<open>Status\<close>

datatype rounding_mode =
    float_round_nearest_even
  | float_round_down
  | float_round_up
  | float_round_to_zero
  | float_round_ties_away

record float_status =
  float_tininess_before :: bool
  float_rounding_mode :: rounding_mode
  float_exception_flags :: u8
  flush_to_zero :: bool
  flush_inputs_to_zero :: bool
  default_nan_mode :: bool

abbreviation (input) float_flag_invalid :: u8 where "float_flag_invalid \<equiv> 1"
abbreviation (input) float_flag_divbyzero :: u8 where "float_flag_divbyzero \<equiv> 4"
abbreviation (input) float_flag_overflow :: u8 where "float_flag_overflow \<equiv> 8"
abbreviation (input) float_flag_underflow :: u8 where "float_flag_underflow \<equiv> 16"
abbreviation (input) float_flag_inexact :: u8 where "float_flag_inexact \<equiv> 32"
abbreviation (input) float_flag_input_denormal :: u8 where "float_flag_input_denormal \<equiv> 64"
abbreviation (input) float_flag_output_denormal :: u8 where "float_flag_output_denormal \<equiv> 128"

text \<open>\<^verbatim>\<open>float_status status = {}\<close>, with which every handler calls.\<close>

definition zero_status :: float_status where
  "zero_status =
     \<lparr>float_tininess_before = False, float_rounding_mode = float_round_nearest_even, float_exception_flags = 0,
      flush_to_zero = False, flush_inputs_to_zero = False, default_nan_mode = False\<rparr>"

definition float_raise :: "u8 \<Rightarrow> float_status \<Rightarrow> float_status" where
  "float_raise flags st = st\<lparr>float_exception_flags := float_exception_flags st OR flags\<rparr>"

text \<open>The \<^verbatim>\<open>switch\<close> on the rounding mode that the three rounding routines share.\<close>

definition round_increment :: "'a :: len word \<Rightarrow> 'a word \<Rightarrow> bool \<Rightarrow> rounding_mode \<Rightarrow> 'a word" where
  "round_increment half ones zSign md =
     (case md of
        float_round_nearest_even \<Rightarrow> half
      | float_round_ties_away \<Rightarrow> half
      | float_round_to_zero \<Rightarrow> 0
      | float_round_up \<Rightarrow> (if zSign then 0 else ones)
      | float_round_down \<Rightarrow> (if zSign then ones else 0))"

section \<open>Shifts and multi-word arithmetic\<close>

definition shift32RightJamming :: "u32 \<Rightarrow> int \<Rightarrow> u32" where
  "shift32RightJamming a count =
     (if count = 0 then a
      else if count < 32 then drop_bit (nat count) a OR of_bool (push_bit (nat (- count mod 32)) a \<noteq> 0)
      else of_bool (a \<noteq> 0))"

definition shift64RightJamming :: "u64 \<Rightarrow> int \<Rightarrow> u64" where
  "shift64RightJamming a count =
     (if count = 0 then a
      else if count < 64 then drop_bit (nat count) a OR of_bool (push_bit (nat (- count mod 64)) a \<noteq> 0)
      else of_bool (a \<noteq> 0))"

definition add128 :: "u64 \<Rightarrow> u64 \<Rightarrow> u64 \<Rightarrow> u64 \<Rightarrow> u64 \<times> u64" where
  "add128 a0 a1 b0 b1 = (let z1 = a1 + b1 in (a0 + b0 + of_bool (z1 < a1), z1))"

definition sub128 :: "u64 \<Rightarrow> u64 \<Rightarrow> u64 \<Rightarrow> u64 \<Rightarrow> u64 \<times> u64" where
  "sub128 a0 a1 b0 b1 = (a0 - b0 - of_bool (a1 < b1), a1 - b1)"

definition mul64To128 :: "u64 \<Rightarrow> u64 \<Rightarrow> u64 \<times> u64" where
  "mul64To128 a b =
     (let aLow = ucast a :: u32; aHigh = ucast (drop_bit 32 a) :: u32;
          bLow = ucast b :: u32; bHigh = ucast (drop_bit 32 b) :: u32;
          z1 = ucast aLow * ucast bLow :: u64;
          zMiddleA = ucast aLow * ucast bHigh :: u64;
          zMiddleB = ucast aHigh * ucast bLow :: u64;
          z0 = ucast aHigh * ucast bHigh :: u64;
          zMiddleA = zMiddleA + zMiddleB;
          z0 = z0 + (push_bit 32 (of_bool (zMiddleA < zMiddleB)) + drop_bit 32 zMiddleA);
          zMiddleA = push_bit 32 zMiddleA;
          z1 = z1 + zMiddleA;
          z0 = z0 + of_bool (z1 < zMiddleA)
      in (z0, z1))"

text \<open>The loop corrects an estimate of the upper half of the quotient that is too large.\<close>

partial_function (option) estimateDiv_loop :: "u64 \<Rightarrow> u64 \<Rightarrow> u64 \<Rightarrow> u64 \<times> u64 \<Rightarrow> (u64 \<times> u64 \<times> u64) option" where
  "estimateDiv_loop b b0 z r =
     (if sint (fst r) < 0
      then estimateDiv_loop b b0 (z - 0x100000000) (add128 (fst r) (snd r) b0 (push_bit 32 b))
      else Some (z, r))"

declare estimateDiv_loop.simps [code]

definition estimateDiv128To64 :: "u64 \<Rightarrow> u64 \<Rightarrow> u64 \<Rightarrow> fault + u64" where
  "estimateDiv128To64 a0 a1 b =
     (if b \<le> a0 then Inr 0xFFFFFFFFFFFFFFFF
      else let b0 = drop_bit 32 b
      in if b0 = 0 \<and> \<not> push_bit 32 b0 \<le> a0 then Inl UndefinedBehaviour
         else let z = (if push_bit 32 b0 \<le> a0 then 0xFFFFFFFF00000000 else push_bit 32 (a0 div b0));
                  term = mul64To128 b z
         in case estimateDiv_loop b b0 z (sub128 a0 a1 (fst term) (snd term)) of
              None \<Rightarrow> Inl Hang
            | Some (z, rem0, rem1) \<Rightarrow>
                (let rem0 = push_bit 32 rem0 OR drop_bit 32 rem1
                 in if b0 = 0 \<and> \<not> push_bit 32 b0 \<le> rem0 then Inl UndefinedBehaviour
                    else Inr (z OR (if push_bit 32 b0 \<le> rem0 then 0xFFFFFFFF else rem0 div b0))))"

definition sqrtOddAdjustments :: "u32 list" where
  "sqrtOddAdjustments =
     [0x0004, 0x0022, 0x005D, 0x00B1, 0x011D, 0x019F, 0x0236, 0x02E0,
      0x039C, 0x0468, 0x0545, 0x0631, 0x072B, 0x0832, 0x0946, 0x0A67]"

definition sqrtEvenAdjustments :: "u32 list" where
  "sqrtEvenAdjustments =
     [0x0A2D, 0x08AF, 0x075A, 0x0629, 0x051A, 0x0429, 0x0356, 0x029E,
      0x0200, 0x0179, 0x0109, 0x00AF, 0x0068, 0x0034, 0x0012, 0x0002]"

definition udiv32 :: "u32 \<Rightarrow> u32 \<Rightarrow> fault + u32" where
  "udiv32 a b = (if b = 0 then Inl UndefinedBehaviour else Inr (a div b))"

definition estimateSqrt32 :: "int \<Rightarrow> u32 \<Rightarrow> fault + u32" where
  "estimateSqrt32 aExp a =
     (let index = unat (drop_bit 27 a AND 15);
          finish = (\<lambda>a z. if z = 0 then Inl UndefinedBehaviour
                          else Inr (ucast (push_bit 31 (ucast a :: u64) div ucast z) + drop_bit 1 z))
      in if aExp AND 1 \<noteq> 0 then
           (let z = 0x4000 + drop_bit 17 a - sqrtOddAdjustments ! index
            in case udiv32 a z of
                 Inl e \<Rightarrow> Inl e
               | Inr q \<Rightarrow> finish (drop_bit 1 a) (push_bit 14 q + push_bit 15 z))
         else
           (let z = 0x8000 + drop_bit 17 a - sqrtEvenAdjustments ! index
            in case udiv32 a z of
                 Inl e \<Rightarrow> Inl e
               | Inr q \<Rightarrow>
                   (let z = q + z;
                        z = (if 0x20000 \<le> z then 0xFFFF8000 else push_bit 15 z)
                    in if z \<le> a then Inr (signed_drop_bit 1 a) else finish a z)))"

text \<open>\<^verbatim>\<open>countLeadingZeros32\<close> and \<^verbatim>\<open>countLeadingZeros64\<close> are the compiler's builtins.\<close>

definition builtin_clz_word :: "'a :: len word \<Rightarrow> nat" where
  "builtin_clz_word a = length (takeWhile (\<lambda>i. \<not> bit a i) (rev [0 ..< LENGTH('a)]))"

definition countLeadingZeros32 :: "u32 \<Rightarrow> int" where
  "countLeadingZeros32 a = (if a \<noteq> 0 then int (builtin_clz_word a) else 32)"

definition countLeadingZeros64 :: "u64 \<Rightarrow> int" where
  "countLeadingZeros64 a = (if a \<noteq> 0 then int (builtin_clz_word a) else 64)"

section \<open>Rounding to integers\<close>

text \<open>
  The negation of \<^verbatim>\<open>int32_t z\<close> is undefined for the smallest integer; the build does not ask for
  wrapping arithmetic.
\<close>

definition roundAndPackInt32 :: "bool \<Rightarrow> u64 \<Rightarrow> float_status \<Rightarrow> fault + u32 \<times> float_status" where
  "roundAndPackInt32 zSign absZ st =
     (let roundNearestEven = (float_rounding_mode st = float_round_nearest_even);
          roundIncrement = round_increment 0x40 0x7f zSign (float_rounding_mode st);
          roundBits = absZ AND 0x7F;
          absZ = drop_bit 7 (absZ + roundIncrement);
          absZ = absZ AND NOT (of_bool (roundBits XOR 0x40 = 0 \<and> roundNearestEven));
          z = ucast absZ :: u32
      in if zSign \<and> z = 0x80000000 then Inl UndefinedBehaviour
         else let z = (if zSign then - z else z)
              in if drop_bit 32 absZ \<noteq> 0 \<or> z \<noteq> 0 \<and> (sint z < 0) \<noteq> zSign
                 then Inr (if zSign then 0x80000000 else 0x7FFFFFFF, float_raise float_flag_invalid st)
                 else Inr (z, if roundBits \<noteq> 0 then float_raise float_flag_inexact st else st))"

section \<open>NaNs\<close>

text \<open>The rules of the x87, the last branch of the preprocessor's choice.\<close>

definition pickNaN :: "bool \<Rightarrow> bool \<Rightarrow> bool \<Rightarrow> bool \<Rightarrow> bool \<Rightarrow> bool" where
  "pickNaN aIsQNaN aIsSNaN bIsQNaN bIsSNaN aIsLargerSignificand =
     (if aIsSNaN then
        (if bIsSNaN then \<not> aIsLargerSignificand else bIsQNaN)
      else if aIsQNaN then
        (if bIsSNaN \<or> \<not> bIsQNaN then False else \<not> aIsLargerSignificand)
      else True)"

section \<open>Single precision\<close>

definition float32_is_quiet_nan :: "u32 \<Rightarrow> bool" where
  "float32_is_quiet_nan a \<longleftrightarrow> 0xFF800000 \<le> push_bit 1 a"

definition float32_is_signaling_nan :: "u32 \<Rightarrow> bool" where
  "float32_is_signaling_nan a \<longleftrightarrow> drop_bit 22 a AND 0x1FF = 0x1FE \<and> a AND 0x003FFFFF \<noteq> 0"

definition float32_default_nan :: u32 where
  "float32_default_nan = 0xFFC00000"

definition float32_maybe_silence_nan :: "u32 \<Rightarrow> u32" where
  "float32_maybe_silence_nan a = (if float32_is_signaling_nan a then a OR push_bit 22 1 else a)"

definition propagateFloat32NaN :: "u32 \<Rightarrow> u32 \<Rightarrow> float_status \<Rightarrow> u32 \<times> float_status" where
  "propagateFloat32NaN a b st =
     (let aIsQuietNaN = float32_is_quiet_nan a; aIsSignalingNaN = float32_is_signaling_nan a;
          bIsQuietNaN = float32_is_quiet_nan b; bIsSignalingNaN = float32_is_signaling_nan b;
          st = (if aIsSignalingNaN \<or> bIsSignalingNaN then float_raise float_flag_invalid st else st)
      in if default_nan_mode st then (float32_default_nan, st)
         else let aIsLargerSignificand =
                    (if push_bit 1 a < push_bit 1 b then False
                     else if push_bit 1 b < push_bit 1 a then True
                     else a < b)
              in if pickNaN aIsQuietNaN aIsSignalingNaN bIsQuietNaN bIsSignalingNaN aIsLargerSignificand
                 then (float32_maybe_silence_nan b, st)
                 else (float32_maybe_silence_nan a, st))"

definition extractFloat32Frac :: "u32 \<Rightarrow> u32" where
  "extractFloat32Frac a = a AND 0x007FFFFF"

definition extractFloat32Exp :: "u32 \<Rightarrow> int" where
  "extractFloat32Exp a = uint (drop_bit 23 a AND 0xFF)"

definition extractFloat32Sign :: "u32 \<Rightarrow> bool" where
  "extractFloat32Sign a \<longleftrightarrow> drop_bit 31 a \<noteq> 0"

definition float32_squash_input_denormal :: "u32 \<Rightarrow> float_status \<Rightarrow> u32 \<times> float_status" where
  "float32_squash_input_denormal a st =
     (if flush_inputs_to_zero st \<and> extractFloat32Exp a = 0 \<and> extractFloat32Frac a \<noteq> 0
      then (a AND 0x80000000, float_raise float_flag_input_denormal st)
      else (a, st))"

definition normalizeFloat32Subnormal :: "u32 \<Rightarrow> int \<times> u32" where
  "normalizeFloat32Subnormal aSig =
     (let shiftCount = countLeadingZeros32 aSig - 8
      in (1 - shiftCount, push_bit (nat shiftCount) aSig))"

definition packFloat32 :: "bool \<Rightarrow> int \<Rightarrow> u32 \<Rightarrow> u32" where
  "packFloat32 zSign zExp zSig = push_bit 31 (of_bool zSign) + push_bit 23 (of_int zExp) + zSig"

definition roundAndPackFloat32 :: "bool \<Rightarrow> int \<Rightarrow> u32 \<Rightarrow> float_status \<Rightarrow> u32 \<times> float_status" where
  "roundAndPackFloat32 zSign zExp zSig st =
     (let roundNearestEven = (float_rounding_mode st = float_round_nearest_even);
          roundIncrement = round_increment 0x40 0x7F zSign (float_rounding_mode st);
          edge = (0xFD \<le> zExp mod 0x10000)
      in if edge \<and> (0xFD < zExp \<or> zExp = 0xFD \<and> sint (zSig + roundIncrement) < 0)
         then (packFloat32 zSign 0xFF (- of_bool (roundIncrement = 0)),
               float_raise (float_flag_overflow OR float_flag_inexact) st)
         else if edge \<and> zExp < 0 \<and> flush_to_zero st
         then (packFloat32 zSign 0 0, float_raise float_flag_output_denormal st)
         else
           let tiny = edge \<and> zExp < 0;
               isTiny = (float_tininess_before st \<or> zExp < - 1 \<or> zSig + roundIncrement < 0x80000000);
               zSig = (if tiny then shift32RightJamming zSig (- zExp) else zSig);
               zExp = (if tiny then 0 else zExp);
               roundBits = zSig AND 0x7F;
               st = (if tiny \<and> isTiny \<and> roundBits \<noteq> 0 then float_raise float_flag_underflow st else st);
               st = (if roundBits \<noteq> 0 then float_raise float_flag_inexact st else st);
               zSig = drop_bit 7 (zSig + roundIncrement);
               zSig = zSig AND NOT (of_bool (roundBits XOR 0x40 = 0 \<and> roundNearestEven));
               zExp = (if zSig = 0 then 0 else zExp)
           in (packFloat32 zSign zExp zSig, st))"

definition normalizeRoundAndPackFloat32 :: "bool \<Rightarrow> int \<Rightarrow> u32 \<Rightarrow> float_status \<Rightarrow> u32 \<times> float_status" where
  "normalizeRoundAndPackFloat32 zSign zExp zSig st =
     (let shiftCount = countLeadingZeros32 zSig - 1
      in roundAndPackFloat32 zSign (zExp - shiftCount) (push_bit (nat shiftCount) zSig) st)"

text \<open>The end of the addition, after the smaller operand was aligned.\<close>

definition addFloat32_finish :: "bool \<Rightarrow> int \<Rightarrow> u32 \<Rightarrow> u32 \<Rightarrow> float_status \<Rightarrow> u32 \<times> float_status" where
  "addFloat32_finish zSign zExp aSig bSig st =
     (let aSig = aSig OR 0x20000000;
          zSig = push_bit 1 (aSig + bSig);
          zExp = zExp - 1
      in if sint zSig < 0 then roundAndPackFloat32 zSign (zExp + 1) (aSig + bSig) st
         else roundAndPackFloat32 zSign zExp zSig st)"

definition addFloat32Sigs :: "u32 \<Rightarrow> u32 \<Rightarrow> bool \<Rightarrow> float_status \<Rightarrow> u32 \<times> float_status" where
  "addFloat32Sigs a b zSign st =
     (let aSig = extractFloat32Frac a; aExp = extractFloat32Exp a;
          bSig = extractFloat32Frac b; bExp = extractFloat32Exp b;
          expDiff = aExp - bExp;
          aSig = push_bit 6 aSig; bSig = push_bit 6 bSig
      in if 0 < expDiff then
           (if aExp = 0xFF then (if aSig \<noteq> 0 then propagateFloat32NaN a b st else (a, st))
            else let bSig = shift32RightJamming (if bExp = 0 then bSig else bSig OR 0x20000000)
                              (if bExp = 0 then expDiff - 1 else expDiff)
                 in addFloat32_finish zSign aExp aSig bSig st)
         else if expDiff < 0 then
           (if bExp = 0xFF then (if bSig \<noteq> 0 then propagateFloat32NaN a b st else (packFloat32 zSign 0xFF 0, st))
            else let aSig = shift32RightJamming (if aExp = 0 then aSig else aSig OR 0x20000000)
                              (- (if aExp = 0 then expDiff + 1 else expDiff))
                 in addFloat32_finish zSign bExp aSig bSig st)
         else if aExp = 0xFF then (if aSig OR bSig \<noteq> 0 then propagateFloat32NaN a b st else (a, st))
         else if aExp = 0 then
           (if flush_to_zero st
            then (packFloat32 zSign 0 0,
                  if aSig OR bSig \<noteq> 0 then float_raise float_flag_output_denormal st else st)
            else (packFloat32 zSign 0 (drop_bit 6 (aSig + bSig)), st))
         else roundAndPackFloat32 zSign aExp (0x40000000 + aSig + bSig) st)"

definition subFloat32Sigs :: "u32 \<Rightarrow> u32 \<Rightarrow> bool \<Rightarrow> float_status \<Rightarrow> u32 \<times> float_status" where
  "subFloat32Sigs a b zSign st =
     (let aSig = extractFloat32Frac a; aExp = extractFloat32Exp a;
          bSig = extractFloat32Frac b; bExp = extractFloat32Exp b;
          expDiff = aExp - bExp;
          aSig = push_bit 7 aSig; bSig = push_bit 7 bSig;
          aBigger = (\<lambda>aExp aSig bSig. normalizeRoundAndPackFloat32 zSign (aExp - 1) (aSig - bSig) st);
          bBigger = (\<lambda>bExp aSig bSig. normalizeRoundAndPackFloat32 (\<not> zSign) (bExp - 1) (bSig - aSig) st)
      in if 0 < expDiff then
           (if aExp = 0xFF then (if aSig \<noteq> 0 then propagateFloat32NaN a b st else (a, st))
            else let bSig = shift32RightJamming (if bExp = 0 then bSig else bSig OR 0x40000000)
                              (if bExp = 0 then expDiff - 1 else expDiff)
                 in aBigger aExp (aSig OR 0x40000000) bSig)
         else if expDiff < 0 then
           (if bExp = 0xFF then
              (if bSig \<noteq> 0 then propagateFloat32NaN a b st else (packFloat32 (\<not> zSign) 0xFF 0, st))
            else let aSig = shift32RightJamming (if aExp = 0 then aSig else aSig OR 0x40000000)
                              (- (if aExp = 0 then expDiff + 1 else expDiff))
                 in bBigger bExp aSig (bSig OR 0x40000000))
         else if aExp = 0xFF then
           (if aSig OR bSig \<noteq> 0 then propagateFloat32NaN a b st
            else (float32_default_nan, float_raise float_flag_invalid st))
         else let aExp = (if aExp = 0 then 1 else aExp); bExp = (if bExp = 0 then 1 else bExp)
         in if bSig < aSig then aBigger aExp aSig bSig
            else if aSig < bSig then bBigger bExp aSig bSig
            else (packFloat32 (float_rounding_mode st = float_round_down) 0 0, st))"

definition float32_add :: "u32 \<Rightarrow> u32 \<Rightarrow> float_status \<Rightarrow> u32 \<times> float_status" where
  "float32_add a b st =
     (case float32_squash_input_denormal a st of (a, st) \<Rightarrow>
      case float32_squash_input_denormal b st of (b, st) \<Rightarrow>
        (let aSign = extractFloat32Sign a; bSign = extractFloat32Sign b
         in if aSign = bSign then addFloat32Sigs a b aSign st else subFloat32Sigs a b aSign st))"

definition float32_sub :: "u32 \<Rightarrow> u32 \<Rightarrow> float_status \<Rightarrow> u32 \<times> float_status" where
  "float32_sub a b st =
     (case float32_squash_input_denormal a st of (a, st) \<Rightarrow>
      case float32_squash_input_denormal b st of (b, st) \<Rightarrow>
        (let aSign = extractFloat32Sign a; bSign = extractFloat32Sign b
         in if aSign = bSign then subFloat32Sigs a b aSign st else addFloat32Sigs a b aSign st))"

text \<open>An operand of exponent 0 is normalized before a multiplication, a division or a root.\<close>

definition normal32 :: "int \<Rightarrow> u32 \<Rightarrow> int \<times> u32" where
  "normal32 aExp aSig = (if aExp = 0 then normalizeFloat32Subnormal aSig else (aExp, aSig))"

definition mulFloat32Sigs :: "bool \<Rightarrow> int \<Rightarrow> u32 \<Rightarrow> int \<Rightarrow> u32 \<Rightarrow> float_status \<Rightarrow> u32 \<times> float_status" where
  "mulFloat32Sigs zSign aExp aSig bExp bSig st =
     (let zExp = aExp + bExp - 0x7F;
          aSig = push_bit 7 (aSig OR 0x00800000);
          bSig = push_bit 8 (bSig OR 0x00800000);
          zSig = ucast (shift64RightJamming (ucast aSig * ucast bSig) 32) :: u32
      in if 0 \<le> sint (push_bit 1 zSig)
         then roundAndPackFloat32 zSign (zExp - 1) (push_bit 1 zSig) st
         else roundAndPackFloat32 zSign zExp zSig st)"

definition float32_mul :: "u32 \<Rightarrow> u32 \<Rightarrow> float_status \<Rightarrow> u32 \<times> float_status" where
  "float32_mul a b st =
     (case float32_squash_input_denormal a st of (a, st) \<Rightarrow>
      case float32_squash_input_denormal b st of (b, st) \<Rightarrow>
        (let aSig = extractFloat32Frac a; aExp = extractFloat32Exp a; aSign = extractFloat32Sign a;
             bSig = extractFloat32Frac b; bExp = extractFloat32Exp b; bSign = extractFloat32Sign b;
             zSign = (aSign \<noteq> bSign);
             invalid = (float32_default_nan, float_raise float_flag_invalid st)
         in if aExp = 0xFF then
              (if aSig \<noteq> 0 \<or> bExp = 0xFF \<and> bSig \<noteq> 0 then propagateFloat32NaN a b st
               else if bExp = 0 \<and> bSig = 0 then invalid
               else (packFloat32 zSign 0xFF 0, st))
            else if bExp = 0xFF then
              (if bSig \<noteq> 0 then propagateFloat32NaN a b st
               else if aExp = 0 \<and> aSig = 0 then invalid
               else (packFloat32 zSign 0xFF 0, st))
            else if aExp = 0 \<and> aSig = 0 \<or> bExp = 0 \<and> bSig = 0 then (packFloat32 zSign 0 0, st)
            else case normal32 aExp aSig of (aExp, aSig) \<Rightarrow>
                 case normal32 bExp bSig of (bExp, bSig) \<Rightarrow> mulFloat32Sigs zSign aExp aSig bExp bSig st))"

definition divFloat32Sigs :: "bool \<Rightarrow> int \<Rightarrow> u32 \<Rightarrow> int \<Rightarrow> u32 \<Rightarrow> float_status \<Rightarrow> u32 \<times> float_status" where
  "divFloat32Sigs zSign aExp aSig bExp bSig st =
     (let zExp = aExp - bExp + 0x7D;
          aSig = push_bit 7 (aSig OR 0x00800000);
          bSig = push_bit 8 (bSig OR 0x00800000);
          shorter = (bSig \<le> aSig + aSig);
          aSig = (if shorter then drop_bit 1 aSig else aSig);
          zExp = (if shorter then zExp + 1 else zExp);
          zSig = ucast (push_bit 32 (ucast aSig :: u64) div ucast bSig) :: u32;
          zSig = (if zSig AND 0x3F = 0
                  then zSig OR of_bool (ucast bSig * ucast zSig \<noteq> push_bit 32 (ucast aSig :: u64))
                  else zSig)
      in roundAndPackFloat32 zSign zExp zSig st)"

definition float32_div :: "u32 \<Rightarrow> u32 \<Rightarrow> float_status \<Rightarrow> u32 \<times> float_status" where
  "float32_div a b st =
     (case float32_squash_input_denormal a st of (a, st) \<Rightarrow>
      case float32_squash_input_denormal b st of (b, st) \<Rightarrow>
        (let aSig = extractFloat32Frac a; aExp = extractFloat32Exp a; aSign = extractFloat32Sign a;
             bSig = extractFloat32Frac b; bExp = extractFloat32Exp b; bSign = extractFloat32Sign b;
             zSign = (aSign \<noteq> bSign);
             invalid = (float32_default_nan, float_raise float_flag_invalid st)
         in if aExp = 0xFF then
              (if aSig \<noteq> 0 then (propagateFloat32NaN a b st)
               else if bExp = 0xFF then (if bSig \<noteq> 0 then (propagateFloat32NaN a b st) else invalid)
               else (packFloat32 zSign 0xFF 0, st))
            else if bExp = 0xFF then
              (if bSig \<noteq> 0 then (propagateFloat32NaN a b st) else (packFloat32 zSign 0 0, st))
            else if bExp = 0 \<and> bSig = 0 then
              (if aExp = 0 \<and> aSig = 0 then invalid
               else (packFloat32 zSign 0xFF 0, float_raise float_flag_divbyzero st))
            else if aExp = 0 \<and> aSig = 0 then (packFloat32 zSign 0 0, st)
            else case normal32 bExp bSig of (bExp, bSig) \<Rightarrow>
                 case normal32 aExp aSig of (aExp, aSig) \<Rightarrow> divFloat32Sigs zSign aExp aSig bExp bSig st))"

partial_function (option) sqrt32_loop :: "u32 \<Rightarrow> u64 \<Rightarrow> (u32 \<times> u64) option" where
  "sqrt32_loop zSig rem =
     (if sint rem < 0 then sqrt32_loop (zSig - 1) (rem + (push_bit 1 (ucast (zSig - 1)) OR 1))
      else Some (zSig, rem))"

declare sqrt32_loop.simps [code]

definition sqrtFloat32Sig :: "int \<Rightarrow> u32 \<Rightarrow> float_status \<Rightarrow> fault + u32 \<times> float_status" where
  "sqrtFloat32Sig aExp aSig st =
     (let zExp = (aExp - 0x7F) div 2 + 0x7E;
          aSig = push_bit 8 (aSig OR 0x00800000)
      in case estimateSqrt32 aExp aSig of
           Inl e \<Rightarrow> Inl e
         | Inr est \<Rightarrow>
             (let zSig = est + 2
              in if zSig AND 0x7F \<le> 5 then
                   (if zSig < 2 then Inr (roundAndPackFloat32 False zExp 0x7FFFFFFF st)
                    else let aSig = drop_bit (nat (aExp AND 1)) aSig;
                             rem = push_bit 32 (ucast aSig :: u64) - ucast zSig * ucast zSig
                         in case sqrt32_loop zSig rem of
                              None \<Rightarrow> Inl Hang
                            | Some (zSig, rem) \<Rightarrow>
                                Inr (roundAndPackFloat32 False zExp (shift32RightJamming (zSig OR of_bool (rem \<noteq> 0)) 1) st))
                 else Inr (roundAndPackFloat32 False zExp (shift32RightJamming zSig 1) st)))"

definition float32_sqrt :: "u32 \<Rightarrow> float_status \<Rightarrow> fault + u32 \<times> float_status" where
  "float32_sqrt a st =
     (case float32_squash_input_denormal a st of (a, st) \<Rightarrow>
        (let aSig = extractFloat32Frac a; aExp = extractFloat32Exp a; aSign = extractFloat32Sign a;
             invalid = Inr (float32_default_nan, float_raise float_flag_invalid st)
         in if aExp = 0xFF then
              (if aSig \<noteq> 0 then Inr (propagateFloat32NaN a 0 st)
               else if \<not> aSign then Inr (a, st)
               else invalid)
            else if aSign then (if aExp = 0 \<and> aSig = 0 then Inr (a, st) else invalid)
            else if aExp = 0 \<and> aSig = 0 then Inr (0, st)
            else case normal32 aExp aSig of (aExp, aSig) \<Rightarrow> sqrtFloat32Sig aExp aSig st))"

definition float32_to_int32 :: "u32 \<Rightarrow> float_status \<Rightarrow> fault + u32 \<times> float_status" where
  "float32_to_int32 a st =
     (case float32_squash_input_denormal a st of (a, st) \<Rightarrow>
        (let aSig = extractFloat32Frac a; aExp = extractFloat32Exp a; aSign = extractFloat32Sign a;
             aSign = (if aExp = 0xFF \<and> aSig \<noteq> 0 then False else aSign);
             aSig = (if aExp \<noteq> 0 then aSig OR 0x00800000 else aSig);
             shiftCount = 0xAF - aExp;
             aSig = push_bit 32 (ucast aSig) :: u64;
             aSig = (if 0 < shiftCount then shift64RightJamming aSig shiftCount else aSig)
         in roundAndPackInt32 aSign aSig st))"

section \<open>Double precision\<close>

definition float64_is_quiet_nan :: "u64 \<Rightarrow> bool" where
  "float64_is_quiet_nan a \<longleftrightarrow> 0xFFF0000000000000 \<le> push_bit 1 a"

definition float64_is_signaling_nan :: "u64 \<Rightarrow> bool" where
  "float64_is_signaling_nan a \<longleftrightarrow> drop_bit 51 a AND 0xFFF = 0xFFE \<and> a AND 0x0007FFFFFFFFFFFF \<noteq> 0"

definition float64_default_nan :: u64 where
  "float64_default_nan = 0xFFF8000000000000"

definition float64_maybe_silence_nan :: "u64 \<Rightarrow> u64" where
  "float64_maybe_silence_nan a = (if float64_is_signaling_nan a then a OR 0x0008000000000000 else a)"

definition propagateFloat64NaN :: "u64 \<Rightarrow> u64 \<Rightarrow> float_status \<Rightarrow> u64 \<times> float_status" where
  "propagateFloat64NaN a b st =
     (let aIsQuietNaN = float64_is_quiet_nan a; aIsSignalingNaN = float64_is_signaling_nan a;
          bIsQuietNaN = float64_is_quiet_nan b; bIsSignalingNaN = float64_is_signaling_nan b;
          st = (if aIsSignalingNaN \<or> bIsSignalingNaN then float_raise float_flag_invalid st else st)
      in if default_nan_mode st then (float64_default_nan, st)
         else let aIsLargerSignificand =
                    (if push_bit 1 a < push_bit 1 b then False
                     else if push_bit 1 b < push_bit 1 a then True
                     else a < b)
              in if pickNaN aIsQuietNaN aIsSignalingNaN bIsQuietNaN bIsSignalingNaN aIsLargerSignificand
                 then (float64_maybe_silence_nan b, st)
                 else (float64_maybe_silence_nan a, st))"

definition extractFloat64Frac :: "u64 \<Rightarrow> u64" where
  "extractFloat64Frac a = a AND 0x000FFFFFFFFFFFFF"

definition extractFloat64Exp :: "u64 \<Rightarrow> int" where
  "extractFloat64Exp a = uint (drop_bit 52 a AND 0x7FF)"

definition extractFloat64Sign :: "u64 \<Rightarrow> bool" where
  "extractFloat64Sign a \<longleftrightarrow> drop_bit 63 a \<noteq> 0"

definition float64_squash_input_denormal :: "u64 \<Rightarrow> float_status \<Rightarrow> u64 \<times> float_status" where
  "float64_squash_input_denormal a st =
     (if flush_inputs_to_zero st \<and> extractFloat64Exp a = 0 \<and> extractFloat64Frac a \<noteq> 0
      then (a AND 0x8000000000000000, float_raise float_flag_input_denormal st)
      else (a, st))"

definition normalizeFloat64Subnormal :: "u64 \<Rightarrow> int \<times> u64" where
  "normalizeFloat64Subnormal aSig =
     (let shiftCount = countLeadingZeros64 aSig - 11
      in (1 - shiftCount, push_bit (nat shiftCount) aSig))"

definition packFloat64 :: "bool \<Rightarrow> int \<Rightarrow> u64 \<Rightarrow> u64" where
  "packFloat64 zSign zExp zSig = push_bit 63 (of_bool zSign) + push_bit 52 (of_int zExp) + zSig"

definition roundAndPackFloat64 :: "bool \<Rightarrow> int \<Rightarrow> u64 \<Rightarrow> float_status \<Rightarrow> u64 \<times> float_status" where
  "roundAndPackFloat64 zSign zExp zSig st =
     (let roundNearestEven = (float_rounding_mode st = float_round_nearest_even);
          roundIncrement = round_increment 0x200 0x3FF zSign (float_rounding_mode st);
          edge = (0x7FD \<le> zExp mod 0x10000)
      in if edge \<and> (0x7FD < zExp \<or> zExp = 0x7FD \<and> sint (zSig + roundIncrement) < 0)
         then (packFloat64 zSign 0x7FF (- of_bool (roundIncrement = 0)),
               float_raise (float_flag_overflow OR float_flag_inexact) st)
         else if edge \<and> zExp < 0 \<and> flush_to_zero st
         then (packFloat64 zSign 0 0, float_raise float_flag_output_denormal st)
         else
           let tiny = edge \<and> zExp < 0;
               isTiny = (float_tininess_before st \<or> zExp < - 1 \<or> zSig + roundIncrement < 0x8000000000000000);
               zSig = (if tiny then shift64RightJamming zSig (- zExp) else zSig);
               zExp = (if tiny then 0 else zExp);
               roundBits = zSig AND 0x3FF;
               st = (if tiny \<and> isTiny \<and> roundBits \<noteq> 0 then float_raise float_flag_underflow st else st);
               st = (if roundBits \<noteq> 0 then float_raise float_flag_inexact st else st);
               zSig = drop_bit 10 (zSig + roundIncrement);
               zSig = zSig AND NOT (of_bool (roundBits XOR 0x200 = 0 \<and> roundNearestEven));
               zExp = (if zSig = 0 then 0 else zExp)
           in (packFloat64 zSign zExp zSig, st))"

definition normalizeRoundAndPackFloat64 :: "bool \<Rightarrow> int \<Rightarrow> u64 \<Rightarrow> float_status \<Rightarrow> u64 \<times> float_status" where
  "normalizeRoundAndPackFloat64 zSign zExp zSig st =
     (let shiftCount = countLeadingZeros64 zSig - 1
      in roundAndPackFloat64 zSign (zExp - shiftCount) (push_bit (nat shiftCount) zSig) st)"

text \<open>The end of the addition, after the smaller operand was aligned.\<close>

definition addFloat64_finish :: "bool \<Rightarrow> int \<Rightarrow> u64 \<Rightarrow> u64 \<Rightarrow> float_status \<Rightarrow> u64 \<times> float_status" where
  "addFloat64_finish zSign zExp aSig bSig st =
     (let aSig = aSig OR 0x2000000000000000;
          zSig = push_bit 1 (aSig + bSig);
          zExp = zExp - 1
      in if sint zSig < 0 then roundAndPackFloat64 zSign (zExp + 1) (aSig + bSig) st
         else roundAndPackFloat64 zSign zExp zSig st)"

definition addFloat64Sigs :: "u64 \<Rightarrow> u64 \<Rightarrow> bool \<Rightarrow> float_status \<Rightarrow> u64 \<times> float_status" where
  "addFloat64Sigs a b zSign st =
     (let aSig = extractFloat64Frac a; aExp = extractFloat64Exp a;
          bSig = extractFloat64Frac b; bExp = extractFloat64Exp b;
          expDiff = aExp - bExp;
          aSig = push_bit 9 aSig; bSig = push_bit 9 bSig
      in if 0 < expDiff then
           (if aExp = 0x7FF then (if aSig \<noteq> 0 then propagateFloat64NaN a b st else (a, st))
            else let bSig = shift64RightJamming (if bExp = 0 then bSig else bSig OR 0x2000000000000000)
                              (if bExp = 0 then expDiff - 1 else expDiff)
                 in addFloat64_finish zSign aExp aSig bSig st)
         else if expDiff < 0 then
           (if bExp = 0x7FF then (if bSig \<noteq> 0 then propagateFloat64NaN a b st else (packFloat64 zSign 0x7FF 0, st))
            else let aSig = shift64RightJamming (if aExp = 0 then aSig else aSig OR 0x2000000000000000)
                              (- (if aExp = 0 then expDiff + 1 else expDiff))
                 in addFloat64_finish zSign bExp aSig bSig st)
         else if aExp = 0x7FF then (if aSig OR bSig \<noteq> 0 then propagateFloat64NaN a b st else (a, st))
         else if aExp = 0 then
           (if flush_to_zero st
            then (packFloat64 zSign 0 0,
                  if aSig OR bSig \<noteq> 0 then float_raise float_flag_output_denormal st else st)
            else (packFloat64 zSign 0 (drop_bit 9 (aSig + bSig)), st))
         else roundAndPackFloat64 zSign aExp (0x4000000000000000 + aSig + bSig) st)"

definition subFloat64Sigs :: "u64 \<Rightarrow> u64 \<Rightarrow> bool \<Rightarrow> float_status \<Rightarrow> u64 \<times> float_status" where
  "subFloat64Sigs a b zSign st =
     (let aSig = extractFloat64Frac a; aExp = extractFloat64Exp a;
          bSig = extractFloat64Frac b; bExp = extractFloat64Exp b;
          expDiff = aExp - bExp;
          aSig = push_bit 10 aSig; bSig = push_bit 10 bSig;
          aBigger = (\<lambda>aExp aSig bSig. normalizeRoundAndPackFloat64 zSign (aExp - 1) (aSig - bSig) st);
          bBigger = (\<lambda>bExp aSig bSig. normalizeRoundAndPackFloat64 (\<not> zSign) (bExp - 1) (bSig - aSig) st)
      in if 0 < expDiff then
           (if aExp = 0x7FF then (if aSig \<noteq> 0 then propagateFloat64NaN a b st else (a, st))
            else let bSig = shift64RightJamming (if bExp = 0 then bSig else bSig OR 0x4000000000000000)
                              (if bExp = 0 then expDiff - 1 else expDiff)
                 in aBigger aExp (aSig OR 0x4000000000000000) bSig)
         else if expDiff < 0 then
           (if bExp = 0x7FF then
              (if bSig \<noteq> 0 then propagateFloat64NaN a b st else (packFloat64 (\<not> zSign) 0x7FF 0, st))
            else let aSig = shift64RightJamming (if aExp = 0 then aSig else aSig OR 0x4000000000000000)
                              (- (if aExp = 0 then expDiff + 1 else expDiff))
                 in bBigger bExp aSig (bSig OR 0x4000000000000000))
         else if aExp = 0x7FF then
           (if aSig OR bSig \<noteq> 0 then propagateFloat64NaN a b st
            else (float64_default_nan, float_raise float_flag_invalid st))
         else let aExp = (if aExp = 0 then 1 else aExp); bExp = (if bExp = 0 then 1 else bExp)
         in if bSig < aSig then aBigger aExp aSig bSig
            else if aSig < bSig then bBigger bExp aSig bSig
            else (packFloat64 (float_rounding_mode st = float_round_down) 0 0, st))"

definition float64_add :: "u64 \<Rightarrow> u64 \<Rightarrow> float_status \<Rightarrow> u64 \<times> float_status" where
  "float64_add a b st =
     (case float64_squash_input_denormal a st of (a, st) \<Rightarrow>
      case float64_squash_input_denormal b st of (b, st) \<Rightarrow>
        (let aSign = extractFloat64Sign a; bSign = extractFloat64Sign b
         in if aSign = bSign then addFloat64Sigs a b aSign st else subFloat64Sigs a b aSign st))"

definition float64_sub :: "u64 \<Rightarrow> u64 \<Rightarrow> float_status \<Rightarrow> u64 \<times> float_status" where
  "float64_sub a b st =
     (case float64_squash_input_denormal a st of (a, st) \<Rightarrow>
      case float64_squash_input_denormal b st of (b, st) \<Rightarrow>
        (let aSign = extractFloat64Sign a; bSign = extractFloat64Sign b
         in if aSign = bSign then subFloat64Sigs a b aSign st else addFloat64Sigs a b aSign st))"

text \<open>An operand of exponent 0 is normalized before a multiplication, a division or a root.\<close>

definition normal64 :: "int \<Rightarrow> u64 \<Rightarrow> int \<times> u64" where
  "normal64 aExp aSig = (if aExp = 0 then normalizeFloat64Subnormal aSig else (aExp, aSig))"

definition mulFloat64Sigs :: "bool \<Rightarrow> int \<Rightarrow> u64 \<Rightarrow> int \<Rightarrow> u64 \<Rightarrow> float_status \<Rightarrow> u64 \<times> float_status" where
  "mulFloat64Sigs zSign aExp aSig bExp bSig st =
     (let zExp = aExp + bExp - 0x3FF;
          aSig = push_bit 10 (aSig OR 0x0010000000000000);
          bSig = push_bit 11 (bSig OR 0x0010000000000000)
      in case mul64To128 aSig bSig of (zSig0, zSig1) \<Rightarrow>
           (let zSig0 = zSig0 OR of_bool (zSig1 \<noteq> 0)
            in if 0 \<le> sint (push_bit 1 zSig0)
               then roundAndPackFloat64 zSign (zExp - 1) (push_bit 1 zSig0) st
               else roundAndPackFloat64 zSign zExp zSig0 st))"

definition float64_mul :: "u64 \<Rightarrow> u64 \<Rightarrow> float_status \<Rightarrow> u64 \<times> float_status" where
  "float64_mul a b st =
     (case float64_squash_input_denormal a st of (a, st) \<Rightarrow>
      case float64_squash_input_denormal b st of (b, st) \<Rightarrow>
        (let aSig = extractFloat64Frac a; aExp = extractFloat64Exp a; aSign = extractFloat64Sign a;
             bSig = extractFloat64Frac b; bExp = extractFloat64Exp b; bSign = extractFloat64Sign b;
             zSign = (aSign \<noteq> bSign);
             invalid = (float64_default_nan, float_raise float_flag_invalid st)
         in if aExp = 0x7FF then
              (if aSig \<noteq> 0 \<or> bExp = 0x7FF \<and> bSig \<noteq> 0 then propagateFloat64NaN a b st
               else if bExp = 0 \<and> bSig = 0 then invalid
               else (packFloat64 zSign 0x7FF 0, st))
            else if bExp = 0x7FF then
              (if bSig \<noteq> 0 then propagateFloat64NaN a b st
               else if aExp = 0 \<and> aSig = 0 then invalid
               else (packFloat64 zSign 0x7FF 0, st))
            else if aExp = 0 \<and> aSig = 0 \<or> bExp = 0 \<and> bSig = 0 then (packFloat64 zSign 0 0, st)
            else case normal64 aExp aSig of (aExp, aSig) \<Rightarrow>
                 case normal64 bExp bSig of (bExp, bSig) \<Rightarrow> mulFloat64Sigs zSign aExp aSig bExp bSig st))"

partial_function (option) div64_loop :: "u64 \<Rightarrow> u64 \<Rightarrow> u64 \<times> u64 \<Rightarrow> (u64 \<times> u64 \<times> u64) option" where
  "div64_loop bSig zSig r =
     (if sint (fst r) < 0 then div64_loop bSig (zSig - 1) (add128 (fst r) (snd r) 0 bSig)
      else Some (zSig, r))"

declare div64_loop.simps [code]

definition divFloat64Sigs :: "bool \<Rightarrow> int \<Rightarrow> u64 \<Rightarrow> int \<Rightarrow> u64 \<Rightarrow> float_status \<Rightarrow> fault + u64 \<times> float_status" where
  "divFloat64Sigs zSign aExp aSig bExp bSig st =
     (let zExp = aExp - bExp + 0x3FD;
          aSig = push_bit 10 (aSig OR 0x0010000000000000);
          bSig = push_bit 11 (bSig OR 0x0010000000000000);
          shorter = (bSig \<le> aSig + aSig);
          aSig = (if shorter then drop_bit 1 aSig else aSig);
          zExp = (if shorter then zExp + 1 else zExp)
      in case estimateDiv128To64 aSig 0 bSig of
           Inl e \<Rightarrow> Inl e
         | Inr zSig \<Rightarrow>
             (if zSig AND 0x1FF \<le> 2
              then let term = mul64To128 bSig zSig
                   in case div64_loop bSig zSig (sub128 aSig 0 (fst term) (snd term)) of
                        None \<Rightarrow> Inl Hang
                      | Some (zSig, rem0, rem1) \<Rightarrow>
                          Inr (roundAndPackFloat64 zSign zExp (zSig OR of_bool (rem1 \<noteq> 0)) st)
              else Inr (roundAndPackFloat64 zSign zExp zSig st)))"

definition float64_div :: "u64 \<Rightarrow> u64 \<Rightarrow> float_status \<Rightarrow> fault + u64 \<times> float_status" where
  "float64_div a b st =
     (case float64_squash_input_denormal a st of (a, st) \<Rightarrow>
      case float64_squash_input_denormal b st of (b, st) \<Rightarrow>
        (let aSig = extractFloat64Frac a; aExp = extractFloat64Exp a; aSign = extractFloat64Sign a;
             bSig = extractFloat64Frac b; bExp = extractFloat64Exp b; bSign = extractFloat64Sign b;
             zSign = (aSign \<noteq> bSign);
             invalid = Inr (float64_default_nan, float_raise float_flag_invalid st)
         in if aExp = 0x7FF then
              (if aSig \<noteq> 0 then Inr (propagateFloat64NaN a b st)
               else if bExp = 0x7FF then (if bSig \<noteq> 0 then Inr (propagateFloat64NaN a b st) else invalid)
               else Inr (packFloat64 zSign 0x7FF 0, st))
            else if bExp = 0x7FF then
              (if bSig \<noteq> 0 then Inr (propagateFloat64NaN a b st) else Inr (packFloat64 zSign 0 0, st))
            else if bExp = 0 \<and> bSig = 0 then
              (if aExp = 0 \<and> aSig = 0 then invalid
               else Inr (packFloat64 zSign 0x7FF 0, float_raise float_flag_divbyzero st))
            else if aExp = 0 \<and> aSig = 0 then Inr (packFloat64 zSign 0 0, st)
            else case normal64 bExp bSig of (bExp, bSig) \<Rightarrow>
                 case normal64 aExp aSig of (aExp, aSig) \<Rightarrow> divFloat64Sigs zSign aExp aSig bExp bSig st))"

partial_function (option) sqrt64_loop :: "u64 \<Rightarrow> u64 \<Rightarrow> u64 \<times> u64 \<Rightarrow> (u64 \<times> u64 \<times> u64) option" where
  "sqrt64_loop zSig doubleZSig r =
     (if sint (fst r) < 0
      then sqrt64_loop (zSig - 1) (doubleZSig - 2)
             (add128 (fst r) (snd r) (drop_bit 63 (zSig - 1)) ((doubleZSig - 2) OR 1))
      else Some (zSig, r))"

declare sqrt64_loop.simps [code]

definition sqrtFloat64Sig :: "int \<Rightarrow> u64 \<Rightarrow> float_status \<Rightarrow> fault + u64 \<times> float_status" where
  "sqrtFloat64Sig aExp aSig st =
     (let zExp = (aExp - 0x3FF) div 2 + 0x3FE;
          aSig = aSig OR 0x0010000000000000
      in case estimateSqrt32 aExp (ucast (drop_bit 21 aSig)) of
           Inl e \<Rightarrow> Inl e
         | Inr est \<Rightarrow>
             (let zSig = ucast est :: u64;
                  aSig = push_bit (nat (9 - (aExp AND 1))) aSig
              in case estimateDiv128To64 aSig 0 (push_bit 32 zSig) of
                   Inl e \<Rightarrow> Inl e
                 | Inr q \<Rightarrow>
                     (let zSig = q + push_bit 30 zSig
                      in if zSig AND 0x1FF \<le> 5 then
                           (let term = mul64To128 zSig zSig
                            in case sqrt64_loop zSig (push_bit 1 zSig) (sub128 aSig 0 (fst term) (snd term)) of
                                 None \<Rightarrow> Inl Hang
                               | Some (zSig, rem0, rem1) \<Rightarrow>
                                   Inr (roundAndPackFloat64 False zExp (zSig OR of_bool (rem0 OR rem1 \<noteq> 0)) st))
                         else Inr (roundAndPackFloat64 False zExp zSig st))))"

definition float64_sqrt :: "u64 \<Rightarrow> float_status \<Rightarrow> fault + u64 \<times> float_status" where
  "float64_sqrt a st =
     (case float64_squash_input_denormal a st of (a, st) \<Rightarrow>
        (let aSig = extractFloat64Frac a; aExp = extractFloat64Exp a; aSign = extractFloat64Sign a;
             invalid = Inr (float64_default_nan, float_raise float_flag_invalid st)
         in if aExp = 0x7FF then
              (if aSig \<noteq> 0 then Inr (propagateFloat64NaN a a st)
               else if \<not> aSign then Inr (a, st)
               else invalid)
            else if aSign then (if aExp = 0 \<and> aSig = 0 then Inr (a, st) else invalid)
            else if aExp = 0 \<and> aSig = 0 then Inr (0, st)
            else case normal64 aExp aSig of (aExp, aSig) \<Rightarrow> sqrtFloat64Sig aExp aSig st))"

definition float64_to_int32 :: "u64 \<Rightarrow> float_status \<Rightarrow> fault + u32 \<times> float_status" where
  "float64_to_int32 a st =
     (case float64_squash_input_denormal a st of (a, st) \<Rightarrow>
        (let aSig = extractFloat64Frac a; aExp = extractFloat64Exp a; aSign = extractFloat64Sign a;
             aSign = (if aExp = 0x7FF \<and> aSig \<noteq> 0 then False else aSign);
             aSig = (if aExp \<noteq> 0 then aSig OR 0x0010000000000000 else aSig);
             shiftCount = 0x42C - aExp;
             aSig = (if 0 < shiftCount then shift64RightJamming aSig shiftCount else aSig)
         in roundAndPackInt32 aSign aSig st))"

end
