(* ===== verification/Exec_Float.thy ===== *)
theory Exec_Float
  imports Exec_Mdu Exec_Branch Softfloat
begin

text \<open>
  The floating point unit, \<^verbatim>\<open>src/cpu/exec/float.h\<close>, with the control register and the
  condition codes of \<^verbatim>\<open>include/cpu/reg.h\<close>. Arithmetic is done by the
  routines of \<open>Softfloat\<close>, which start from a cleared status. The conversions that round, between the formats and from
  integers, are done by the host's floating point unit: functions on bit patterns that the handlers take as an argument.
  The conversions to integers and the comparisons are those of C on IEEE 754 values.
\<close>

section \<open>Registers\<close>

record float_ops =
  host_f32_f64 :: "u32 \<Rightarrow> u64"
  host_f64_f32 :: "u64 \<Rightarrow> u32"
  host_i32_f32 :: "u32 \<Rightarrow> u32"
  host_i32_f64 :: "u32 \<Rightarrow> u64"

type_synonym fhandler = "float_ops \<Rightarrow> handler"

text \<open>\<^verbatim>\<open>fpr64i\<close> overlays \<^verbatim>\<open>fpr32i\<close>: the even register is the low half.\<close>

definition fpr64i :: "CPU_state \<Rightarrow> nat \<Rightarrow> u64" where
  "fpr64i c k = L64_make (fpr32i c (2 * k + 1)) (fpr32i c (2 * k))"

definition set_fpr64 :: "nat \<Rightarrow> u64 \<Rightarrow> nemu \<Rightarrow> nemu" where
  "set_fpr64 k v s = set_fpr (2 * k + 1) (L64_hi v) (set_fpr (2 * k) (L64_lo v) s)"

text \<open>The fields of \<^verbatim>\<open>fcsr_t\<close>.\<close>

abbreviation (input) fcsr_RM :: "nat \<times> nat" where "fcsr_RM \<equiv> (0, 2)"
abbreviation (input) fcsr_flags :: "nat \<times> nat" where "fcsr_flags \<equiv> (2, 5)"
abbreviation (input) fcsr_enables :: "nat \<times> nat" where "fcsr_enables \<equiv> (7, 5)"
abbreviation (input) fcsr_causes :: "nat \<times> nat" where "fcsr_causes \<equiv> (12, 6)"
abbreviation (input) fcsr_fcc0 :: "nat \<times> nat" where "fcsr_fcc0 \<equiv> (23, Suc 0)"
abbreviation (input) fcsr_fs :: "nat \<times> nat" where "fcsr_fs \<equiv> (24, Suc 0)"
abbreviation (input) fcsr_fcc1_7 :: "nat \<times> nat" where "fcsr_fcc1_7 \<equiv> (25, 7)"

definition fget :: "nat \<times> nat \<Rightarrow> u32 \<Rightarrow> u32" where "fget f w = bf_get (fst f) (snd f) w"
definition fset :: "nat \<times> nat \<Rightarrow> u32 \<Rightarrow> u32 \<Rightarrow> u32" where "fset f v w = bf_set (fst f) (snd f) v w"

definition getFPCondCode :: "nat \<Rightarrow> CPU_state \<Rightarrow> bool" where
  "getFPCondCode cc c =
     (if cc = 0 then fget fcsr_fcc0 (fcsr c) \<noteq> 0
      else drop_bit (cc - 1) (fget fcsr_fcc1_7 (fcsr c)) AND 1 \<noteq> 0)"

definition setFPCondCode :: "nat \<Rightarrow> bool \<Rightarrow> CPU_state \<Rightarrow> CPU_state" where
  "setFPCondCode cc v c =
     (if cc = 0 then c\<lparr>fcsr := fset fcsr_fcc0 (of_bool v) (fcsr c)\<rparr>
      else if cc < 8 then
        (let mask = ucast (NOT (push_bit (cc - 1) 1 :: u8)) :: u32
         in c\<lparr>fcsr := fset fcsr_fcc1_7
               ((fget fcsr_fcc1_7 (fcsr c) AND mask) OR push_bit (cc - 1) (of_bool v)) (fcsr c)\<rparr>)
      else c)"

section \<open>Moves and control registers\<close>

definition exec_mfc1 :: handler where
  "exec_mfc1 cfg i s = fin (set_GR_TV i (fpr32i (cpu s) (inst_fs i)) s)"

definition exec_cfc1 :: handler where
  "exec_cfc1 cfg i s =
     (let f = fcsr (cpu s); fs = inst_fs i; s = set_GR_TV i 0 s
      in if fs = 0 then InstAssert cfg False s fin
         else if fs = 25 then fin (set_GR_TV i (fset fcsr_fcc0 (fget fcsr_fcc0 f) (fset fcsr_fcc1_7 (fget fcsr_fcc1_7 f) 0)) s)
         else if fs = 26 then fin (set_GR_TV i (fset fcsr_causes (fget fcsr_causes f) (fset fcsr_flags (fget fcsr_flags f) 0)) s)
         else if fs = 28 then
           (let v = fset fcsr_RM (fget fcsr_RM f) 0;
                v = fset fcsr_flags (fget fcsr_flags v OR fget fcsr_fcc0 f) v;
                v = fset fcsr_enables (fget fcsr_enables f) v
            in fin (set_GR_TV i v s))
         else if fs = 31 then fin (set_GR_TV i f s)
         else fin s)"

definition exec_mfhc1 :: handler where
  "exec_mfhc1 cfg i s = fin (set_GR_TV i (fpr32i (cpu s) (inst_fs i OR 1)) s)"

definition exec_mtc1 :: handler where
  "exec_mtc1 cfg i s = fin (set_fpr (inst_fs i) (GR_TV i s) s)"

definition exec_ctc1 :: handler where
  "exec_ctc1 cfg i s =
     (let fs = inst_fs i; v = GR_TV i s; upd = (\<lambda>g. on_cpu (\<lambda>c. c\<lparr>fcsr := g (fcsr c)\<rparr>) s)
      in if fs = 25 then fin (upd (\<lambda>f. fset fcsr_fcc1_7 (drop_bit 1 v AND 0x7F) (fset fcsr_fcc0 (v AND 1) f)))
         else if fs = 26 then fin (upd (\<lambda>f. fset fcsr_causes (fget fcsr_causes v) (fset fcsr_flags (fget fcsr_flags v) f)))
         else if fs = 28 then
           fin (upd (\<lambda>f. fset fcsr_fs (drop_bit 2 (v AND 4))
                          (fset fcsr_enables (fget fcsr_enables v) (fset fcsr_RM (fget fcsr_RM v) f))))
         else if fs = 31 then fin (upd (\<lambda>_. v))
         else fin s)"

definition exec_mthc1 :: handler where
  "exec_mthc1 cfg i s = fin (set_fpr (inst_fs i OR 1) (GR_TV i s) s)"

definition exec_bc1 :: handler where
  "exec_bc1 cfg i s =
     InstAssert cfg (inst_nd i = 0) s
       (\<lambda>s. if inst_tf i = 0 then branch_if (\<not> getFPCondCode (inst_cc2 i) (cpu s)) cfg i s
            else branch_if (getFPCondCode (inst_cc2 i) (cpu s)) cfg i s)"

section \<open>Arithmetic\<close>

definition fp_s1 :: "(u32 \<Rightarrow> u32) \<Rightarrow> handler" where
  "fp_s1 f cfg i s = fin (set_fpr (inst_fd i) (f (fpr32i (cpu s) (inst_fs i))) s)"

definition fp_s2 :: "(u32 \<Rightarrow> u32 \<Rightarrow> u32) \<Rightarrow> handler" where
  "fp_s2 f cfg i s = fin (set_fpr (inst_fd i) (f (fpr32i (cpu s) (inst_fs i)) (fpr32i (cpu s) (inst_ft i))) s)"

definition fp_d1 :: "(u64 \<Rightarrow> u64) \<Rightarrow> handler" where
  "fp_d1 f cfg i s = fin (set_fpr64 (inst_fd i div 2) (f (fpr64i (cpu s) (inst_fs i div 2))) s)"

definition fp_d2 :: "(u64 \<Rightarrow> u64 \<Rightarrow> u64) \<Rightarrow> handler" where
  "fp_d2 f cfg i s =
     fin (set_fpr64 (inst_fd i div 2) (f (fpr64i (cpu s) (inst_fs i div 2)) (fpr64i (cpu s) (inst_ft i div 2))) s)"

text \<open>
  A routine may stop with a fault: a division by zero, a loop of corrections that does not end, or an undefined negation.
\<close>

definition fp_result :: "fault + 'a \<times> float_status \<Rightarrow> ('a \<Rightarrow> nemu \<Rightarrow> nemu) \<Rightarrow> nemu \<Rightarrow> flow res" where
  "fp_result r put s = (case r of Inl f \<Rightarrow> Inl (f, s) | Inr (v, st) \<Rightarrow> fin (put v s))"

definition exec_add_s :: handler where "exec_add_s = fp_s2 (\<lambda>a b. fst (float32_add a b zero_status))"
definition exec_add_d :: handler where "exec_add_d = fp_d2 (\<lambda>a b. fst (float64_add a b zero_status))"
definition exec_sub_s :: handler where "exec_sub_s = fp_s2 (\<lambda>a b. fst (float32_sub a b zero_status))"
definition exec_sub_d :: handler where "exec_sub_d = fp_d2 (\<lambda>a b. fst (float64_sub a b zero_status))"
definition exec_mul_s :: handler where "exec_mul_s = fp_s2 (\<lambda>a b. fst (float32_mul a b zero_status))"
definition exec_mul_d :: handler where "exec_mul_d = fp_d2 (\<lambda>a b. fst (float64_mul a b zero_status))"
definition exec_div_s :: handler where "exec_div_s = fp_s2 (\<lambda>a b. fst (float32_div a b zero_status))"

definition exec_div_d :: handler where
  "exec_div_d cfg i s =
     fp_result (float64_div (fpr64i (cpu s) (inst_fs i div 2)) (fpr64i (cpu s) (inst_ft i div 2)) zero_status)
       (set_fpr64 (inst_fd i div 2)) s"

definition exec_sqrt_s :: handler where
  "exec_sqrt_s cfg i s = fp_result (float32_sqrt (fpr32i (cpu s) (inst_fs i)) zero_status) (set_fpr (inst_fd i)) s"

definition exec_sqrt_d :: handler where
  "exec_sqrt_d cfg i s =
     fp_result (float64_sqrt (fpr64i (cpu s) (inst_fs i div 2)) zero_status) (set_fpr64 (inst_fd i div 2)) s"

text \<open>\<^verbatim>\<open>float32_abs\<close> and \<^verbatim>\<open>float64_abs\<close> clear the sign bit.\<close>

definition exec_abs_s :: handler where "exec_abs_s = fp_s1 (\<lambda>a. a AND 0x7fffffff)"
definition exec_abs_d :: handler where "exec_abs_d = fp_d1 (\<lambda>a. a AND 0x7fffffffffffffff)"
definition exec_mov_s :: handler where "exec_mov_s = fp_s1 (\<lambda>a. a)"
definition exec_mov_d :: handler where "exec_mov_d = fp_d1 (\<lambda>a. a)"
definition exec_neg_s :: handler where "exec_neg_s = fp_s1 (\<lambda>a. a XOR push_bit 31 1)"
definition exec_neg_d :: handler where "exec_neg_d = fp_d1 (\<lambda>a. a XOR push_bit 63 1)"

definition exec_trunc_w_s :: handler where
  "exec_trunc_w_s cfg i s = fp_result (float32_to_int32 (fpr32i (cpu s) (inst_fs i)) zero_status) (set_fpr (inst_fd i)) s"

definition exec_trunc_w_d :: handler where
  "exec_trunc_w_d cfg i s =
     fp_result (float64_to_int32 (fpr64i (cpu s) (inst_fs i div 2)) zero_status) (set_fpr (inst_fd i)) s"

section \<open>Conditional moves\<close>

definition exec_movci :: handler where
  "exec_movci cfg i s =
     (if inst_tf i = 0 then fin (if \<not> getFPCondCode (inst_cc2 i) (cpu s) then set_GR_DV i (GR_SV i s) s else s)
      else fin (if getFPCondCode (inst_cc2 i) (cpu s) then set_GR_DV i (GR_SV i s) s else s))"

definition exec_movcf_s :: handler where
  "exec_movcf_s cfg i s = (if \<not> getFPCondCode (inst_cc2 i) (cpu s) then exec_mov_s cfg i s else fin s)"

definition exec_movcf_d :: handler where
  "exec_movcf_d cfg i s =
     fin (if \<not> getFPCondCode (inst_cc2 i) (cpu s)
          then set_fpr64 (inst_fd64 i) (ucast (fpr32i (cpu s) (inst_fs64 i))) s else s)"

definition exec_movz_s :: handler where
  "exec_movz_s cfg i s = (if GR_TV i s = 0 then exec_mov_s cfg i s else fin s)"

definition exec_movz_d :: handler where
  "exec_movz_d cfg i s =
     fin (if GR_TV i s = 0 then set_fpr64 (inst_fd64 i) (fpr64i (cpu s) (inst_fs64 i)) s else s)"

definition exec_movn_s :: handler where
  "exec_movn_s cfg i s = (if GR_TV i s \<noteq> 0 then exec_mov_s cfg i s else fin s)"

definition exec_movn_d :: handler where
  "exec_movn_d cfg i s = (if GR_TV i s \<noteq> 0 then exec_mov_d cfg i s else fin s)"

section \<open>Conversions\<close>

definition exec_cvt_d_s :: fhandler where
  "exec_cvt_d_s fo cfg i s = fin (set_fpr64 (inst_fd i div 2) (host_f32_f64 fo (fpr32i (cpu s) (inst_fs i))) s)"

text \<open>
  C's conversion of a floating point value to \<^verbatim>\<open>int32_t\<close> drops the fraction; it is undefined
  for infinities, for values that are not numbers and when the integral part does not fit. A magnitude is an integer \<open>m\<close> over \<open>2 ^ q\<close>.
\<close>

definition trunc_i32 :: "bool \<Rightarrow> nat \<Rightarrow> nat \<Rightarrow> fault + u32" where
  "trunc_i32 neg m q =
     (let k = int (m div 2 ^ q); v = (if neg then - k else k)
      in if - (2 ^ 31) \<le> v \<and> v < 2 ^ 31 then Inr (word_of_int v) else Inl UndefinedBehaviour)"

definition f32_cast_i32 :: "u32 \<Rightarrow> fault + u32" where
  "f32_cast_i32 a =
     (let e = extractFloat32Exp a; f = unat (extractFloat32Frac a)
      in if e = 0xFF then Inl UndefinedBehaviour
         else if e = 0 then trunc_i32 (extractFloat32Sign a) f 149
         else trunc_i32 (extractFloat32Sign a) ((2 ^ 23 + f) * 2 ^ nat (e - 1)) 149)"

definition f64_cast_i32 :: "u64 \<Rightarrow> fault + u32" where
  "f64_cast_i32 a =
     (let e = extractFloat64Exp a; f = unat (extractFloat64Frac a)
      in if e = 0x7FF then Inl UndefinedBehaviour
         else if e = 0 then trunc_i32 (extractFloat64Sign a) f 1074
         else trunc_i32 (extractFloat64Sign a) ((2 ^ 52 + f) * 2 ^ nat (e - 1)) 1074)"

definition exec_cvt_w_s :: handler where
  "exec_cvt_w_s cfg i s = (case f32_cast_i32 (fpr32i (cpu s) (inst_fs i)) of
     Inl f \<Rightarrow> Inl (f, s) | Inr v \<Rightarrow> fin (set_fpr (inst_fd i) v s))"

definition exec_cvt_s_d :: fhandler where
  "exec_cvt_s_d fo cfg i s = fin (set_fpr (inst_fd i) (host_f64_f32 fo (fpr64i (cpu s) (inst_fs i div 2))) s)"

definition exec_cvt_w_d :: handler where
  "exec_cvt_w_d cfg i s = (case f64_cast_i32 (fpr64i (cpu s) (inst_fs i div 2)) of
     Inl f \<Rightarrow> Inl (f, s) | Inr v \<Rightarrow> fin (set_fpr (inst_fd i) v s))"

definition exec_cvt_s_w :: fhandler where "exec_cvt_s_w fo = fp_s1 (host_i32_f32 fo)"

definition exec_cvt_d_w :: fhandler where
  "exec_cvt_d_w fo cfg i s = fin (set_fpr64 (inst_fd i div 2) (host_i32_f64 fo (fpr32i (cpu s) (inst_fs i))) s)"

section \<open>Comparisons\<close>

text \<open>
  C's \<^verbatim>\<open>==\<close>, \<^verbatim>\<open><\<close> and \<^verbatim>\<open><=\<close> on \<^verbatim>\<open>float\<close> and
  \<^verbatim>\<open>double\<close>: false when an operand is not a number; otherwise the order of the
  sign-magnitude patterns, in which the two zeros are equal.
\<close>

definition f32_nan :: "u32 \<Rightarrow> bool" where "f32_nan a \<longleftrightarrow> a AND 0x7fffffff > 0x7f800000"
definition f64_nan :: "u64 \<Rightarrow> bool" where "f64_nan a \<longleftrightarrow> a AND 0x7fffffffffffffff > 0x7ff0000000000000"

definition f32_key :: "u32 \<Rightarrow> int" where
  "f32_key a = (if bit a 31 then - uint (a AND 0x7fffffff) else uint (a AND 0x7fffffff))"
definition f64_key :: "u64 \<Rightarrow> int" where
  "f64_key a = (if bit a 63 then - uint (a AND 0x7fffffffffffffff) else uint (a AND 0x7fffffffffffffff))"

definition f32_cmp :: "(int \<Rightarrow> int \<Rightarrow> bool) \<Rightarrow> u32 \<Rightarrow> u32 \<Rightarrow> bool" where
  "f32_cmp r a b \<longleftrightarrow> \<not> f32_nan a \<and> \<not> f32_nan b \<and> r (f32_key a) (f32_key b)"
definition f64_cmp :: "(int \<Rightarrow> int \<Rightarrow> bool) \<Rightarrow> u64 \<Rightarrow> u64 \<Rightarrow> bool" where
  "f64_cmp r a b \<longleftrightarrow> \<not> f64_nan a \<and> \<not> f64_nan b \<and> r (f64_key a) (f64_key b)"

definition c_cond_s :: "(int \<Rightarrow> int \<Rightarrow> bool) \<Rightarrow> handler" where
  "c_cond_s r cfg i s =
     fin (on_cpu (\<lambda>c. setFPCondCode (inst_cc1 i) (f32_cmp r (fpr32i c (inst_fs i)) (fpr32i c (inst_ft i))) c) s)"

definition c_cond_d :: "(int \<Rightarrow> int \<Rightarrow> bool) \<Rightarrow> handler" where
  "c_cond_d r cfg i s =
     fin (on_cpu (\<lambda>c. setFPCondCode (inst_cc1 i) (f64_cmp r (fpr64i c (inst_fs64 i)) (fpr64i c (inst_ft64 i))) c) s)"

definition exec_c_un_s :: handler where
  "exec_c_un_s cfg i s = fin (on_cpu (setFPCondCode (inst_cc1 i) False) s)"
definition exec_c_un_d :: handler where
  "exec_c_un_d cfg i s = fin (on_cpu (setFPCondCode (inst_cc1 i) False) s)"
definition exec_c_eq_s :: handler where "exec_c_eq_s = c_cond_s (=)"
definition exec_c_eq_d :: handler where "exec_c_eq_d = c_cond_d (=)"
definition exec_c_ueq_s :: handler where "exec_c_ueq_s = c_cond_s (=)"
definition exec_c_ueq_d :: handler where "exec_c_ueq_d = c_cond_d (=)"
definition exec_c_olt_s :: handler where "exec_c_olt_s = c_cond_s (<)"
definition exec_c_olt_d :: handler where "exec_c_olt_d = c_cond_d (<)"
definition exec_c_ult_s :: handler where "exec_c_ult_s = c_cond_s (<)"
definition exec_c_ult_d :: handler where "exec_c_ult_d = c_cond_d (<)"
definition exec_c_ole_s :: handler where "exec_c_ole_s = c_cond_s (\<le>)"
definition exec_c_ole_d :: handler where "exec_c_ole_d = c_cond_d (\<le>)"
definition exec_c_ule_s :: handler where "exec_c_ule_s = c_cond_s (\<le>)"
definition exec_c_ule_d :: handler where "exec_c_ule_d = c_cond_d (\<le>)"
definition exec_c_lt_s :: handler where "exec_c_lt_s = c_cond_s (<)"
definition exec_c_lt_d :: handler where "exec_c_lt_d = c_cond_d (<)"
definition exec_c_le_s :: handler where "exec_c_le_s = c_cond_s (\<le>)"
definition exec_c_le_d :: handler where "exec_c_le_d = c_cond_d (\<le>)"

section \<open>Loads and stores\<close>

definition exec_lwc1 :: handler where
  "exec_lwc1 cfg i s =
     (let a = GR_SV i s + inst_simm i
      in CHECK_ALIGNED_ADDR cfg EXC_AdEL 4 a s
           (\<lambda>s. bind_r (vaddr_read cfg a 4 s)
              (\<lambda>rdata s. fin (if \<not> has_exception (cpu s) then set_fpr (inst_rt i) rdata s else s))))"

definition exec_swc1 :: handler where
  "exec_swc1 cfg i s =
     (let waddr = GR_SV i s + inst_simm i
      in bind_r (vaddr_write cfg waddr 4 (fpr32i (cpu s) (inst_ft i)) s) (\<lambda>_. fin))"

definition even_reg :: "nat \<Rightarrow> nat" where "even_reg r = 2 * (r div 2)"

definition exec_ldc1 :: handler where
  "exec_ldc1 cfg i s =
     (let raddr = GR_SV i s + inst_simm i
      in CHECK_ALIGNED_ADDR cfg EXC_AdEL 8 raddr s
           (\<lambda>s. bind_r (vaddr_read cfg raddr 4 s)
              (\<lambda>rdata_l s. bind_r (vaddr_read cfg (raddr + 4) 4 s)
                 (\<lambda>rdata_h s. fin (if \<not> has_exception (cpu s)
                    then set_fpr (inst_rt i OR 1) rdata_h (set_fpr (even_reg (inst_rt i)) rdata_l s) else s)))))"

definition exec_sdc1 :: handler where
  "exec_sdc1 cfg i s =
     (let waddr = GR_SV i s + inst_simm i
      in CHECK_ALIGNED_ADDR cfg EXC_AdES 8 waddr s
           (\<lambda>s. bind_r (vaddr_write cfg waddr 4 (fpr32i (cpu s) (even_reg (inst_ft i))) s)
              (\<lambda>_ s. bind_r (vaddr_write cfg (waddr + 4) 4 (fpr32i (cpu s) (inst_ft i OR 1)) s) (\<lambda>_. fin))))"

section \<open>Condition codes\<close>

text \<open>Setting a condition code is read back, and leaves the seven others alone.\<close>

lemma getFPCondCode_bit:
  "cc < 8 \<Longrightarrow> getFPCondCode cc c \<longleftrightarrow> bit (fcsr c) (if cc = 0 then 23 else 24 + cc)"
proof (cases cc)
  case (Suc k)
  moreover assume "cc < 8"
  moreover have "w AND 1 \<noteq> 0 \<longleftrightarrow> bit w 0" for w :: u32
    by (simp add: and_one_eq mod_2_eq_odd bit_0)
  ultimately show ?thesis by (simp add: getFPCondCode_def fget_def bit_drop_bit_eq bit_bf_get add.commute)
qed (simp add: getFPCondCode_def fget_def bf_get_1)

lemma bit_setFPCondCode:
  assumes "cc < 8"
  shows "bit (fcsr (setFPCondCode cc v c)) n \<longleftrightarrow>
     (if n = (if cc = 0 then 23 else 24 + cc) then v else bit (fcsr c) n)"
proof (cases cc)
  case 0
  then show ?thesis
    by (auto simp: setFPCondCode_def fset_def bit_bf_set bit_1_iff dest: bit_imp_le_length)
next
  case (Suc k)
  then have "bit (fcsr (setFPCondCode cc v c)) n \<longleftrightarrow>
      n < 32 \<and> (if 25 \<le> n \<and> n < 32 then (if n - 25 = k then v else bit (fcsr c) n) else bit (fcsr c) n)"
    using assms by (auto simp: setFPCondCode_def fset_def fget_def bit_bf_set bit_bf_get Let_def bit_simps)
  then show ?thesis using Suc assms by (auto dest: bit_imp_le_length)
qed

lemma getFPCondCode_set:
  "cc < 8 \<Longrightarrow> cc' < 8 \<Longrightarrow> getFPCondCode cc' (setFPCondCode cc v c) = (if cc' = cc then v else getFPCondCode cc' c)"
  by (auto simp: getFPCondCode_bit bit_setFPCondCode)

section \<open>Properties\<close>

text \<open>
  A comparison steers the branch that follows it. After \<^verbatim>\<open>c.lt.s\<close> on a condition code,
  \<^verbatim>\<open>bc1t\<close> on the same code branches exactly when the first operand is less than the second
  (never when one is not a number) and \<^verbatim>\<open>bc1f\<close> in the other case; the other seven condition
  codes keep their values.
\<close>

theorem fp_compare_then_branch:
  assumes "CONFIG_DELAYSLOT cfg" and "inst_nd j = 0" and "inst_cc2 j = inst_cc1 i"
    and "lt = f32_cmp (<) (fpr32i (cpu s) (inst_fs i)) (fpr32i (cpu s) (inst_ft i))"
  shows "\<exists>t. bind_r (exec_c_lt_s cfg i s) (\<lambda>_. exec_bc1 cfg j) = Inr (To_exit, t) \<and>
     br_target (cpu t) = (if lt = (inst_tf j \<noteq> 0) then branch_dest j s else pc (cpu s) + 8) \<and>
     (\<forall>cc < 8. getFPCondCode cc (cpu t) = (if cc = inst_cc1 i then lt else getFPCondCode cc (cpu s)))"
proof -
  have cc: "inst_cc1 i < 8" using unat_bf_get_less [of 3 8 i] by (simp add: inst_cc1_def)
  let ?t = "on_cpu (\<lambda>c. setFPCondCode (inst_cc1 i) (f32_cmp (<) (fpr32i c (inst_fs i)) (fpr32i c (inst_ft i))) c) s"
  have pc: "pc (setFPCondCode k v c) = pc c" for k v c by (simp add: setFPCondCode_def Let_def)
  have "getFPCondCode k (c\<lparr>br_target := a, is_delayslot := b, pc := w\<rparr>) = getFPCondCode k c" for k c a b w
    by (simp add: getFPCondCode_def)
  then show ?thesis
    using assms cc
    by (auto simp: exec_c_lt_s_def c_cond_s_def fin_def exec_bc1_def branch_if_delay getFPCondCode_set branch_dest_def pc)
qed

theorem fp_compare_then_branch_witness:
  "\<exists>t. bind_r (exec_c_lt_s mips32r1_defconfig 0x4602003c (set_fpr 2 0x3f800000 (nemu_globals MODE_BATCH (\<lambda>_. 0) 0)))
       (\<lambda>_. exec_bc1 mips32r1_defconfig 0x45010010) = Inr (To_exit, t) \<and> br_target (cpu t) = 0x44"
proof -
  have f: "inst_nd 0x45010010 = 0" "inst_cc2 0x45010010 = inst_cc1 0x4602003c" "inst_tf 0x45010010 = 1"
    "inst_fs 0x4602003c = 0" "inst_ft 0x4602003c = 2" "inst_simm 0x45010010 = 16"
    by (simp_all add: inst_nd_def inst_cc2_def inst_cc1_def inst_tf_def inst_fs_def inst_ft_def inst_simm_def bf_get_def)
  have z: "fpr32i (cpu (set_fpr 2 0x3f800000 (nemu_globals MODE_BATCH (\<lambda>_. 0) 0))) = (\<lambda>_. 0)(2 := 0x3f800000)"
    "pc (cpu (set_fpr 2 0x3f800000 (nemu_globals MODE_BATCH (\<lambda>_. 0) 0))) = 0"
    by (simp_all add: set_fpr_def nemu_globals_def zero_cpu_def)
  have "f32_cmp (<) 0 0x3f800000" by (simp add: f32_cmp_def f32_nan_def f32_key_def)
  then show ?thesis
    using fp_compare_then_branch [OF defconfig_flags(4) f(1,2) refl, of "set_fpr 2 0x3f800000 (nemu_globals MODE_BATCH (\<lambda>_. 0) 0)"]
    by (auto simp: f z branch_dest_def)
qed

end
