(* ===== verification/Decode.thy ===== *)
theory Decode
  imports Exec_Arith Exec_Mdu Exec_Branch Exec_Memory Exec_System Exec_Float
begin

text \<open>
  Decoding: the labels of the handlers, the tables of \<^verbatim>\<open>src/cpu/exec/exec-handlers.h\<close> and
  \<^verbatim>\<open>decoder_get_handler\<close> of \<^verbatim>\<open>src/cpu/cpu.c\<close>. A label is a value of a data type, with one
  type per file of handlers; \<open>goto_handler\<close> is the jump to it.
\<close>

section \<open>Labels\<close>

datatype lbl_arith_ex =
    L_clz | L_clo | L_seb | L_seh | L_wsbh | L_ins | L_ext

datatype lbl_arith =
    L_or | L_xor | L_and | L_addu | L_subu | L_mul | L_lui | L_addi | L_addiu | L_andi | L_ori
    | L_xori | L_add | L_sub | L_nor

datatype lbl_branch =
    L_beq | L_bne | L_blez | L_bgtz | L_bltz | L_bgez | L_bgezal | L_bltzal | L_jal | L_jalr | L_j
    | L_jr | L_beql | L_bnel | L_blezl | L_bgtzl | L_bltzl | L_bgezl | L_bgezall | L_bltzall

datatype lbl_float_move =
    L_mfc1 | L_cfc1 | L_mfhc1 | L_mtc1 | L_ctc1 | L_mthc1 | L_bc1 | L_lwc1 | L_swc1 | L_ldc1
    | L_sdc1 | L_movci | L_movcf_s | L_movcf_d | L_movz_s | L_movz_d | L_movn_s | L_movn_d

datatype lbl_float_arith =
    L_add_s | L_add_d | L_sub_s | L_sub_d | L_mul_s | L_mul_d | L_div_s | L_div_d | L_sqrt_s
    | L_sqrt_d | L_abs_s | L_abs_d | L_mov_s | L_mov_d | L_neg_s | L_neg_d | L_trunc_w_s
    | L_trunc_w_d | L_cvt_d_s | L_cvt_w_s | L_cvt_s_d | L_cvt_w_d | L_cvt_s_w | L_cvt_d_w

datatype lbl_float_cmp =
    L_c_un_s | L_c_un_d | L_c_eq_s | L_c_eq_d | L_c_ueq_s | L_c_ueq_d | L_c_olt_s | L_c_olt_d
    | L_c_ult_s | L_c_ult_d | L_c_ole_s | L_c_ole_d | L_c_ule_s | L_c_ule_d | L_c_lt_s | L_c_lt_d
    | L_c_le_s | L_c_le_d

datatype lbl_mdu =
    L_madd | L_maddu | L_msub | L_msubu | L_mult | L_multu | L_divide | L_divu | L_mfhi | L_mthi
    | L_mflo | L_mtlo

datatype lbl_memory =
    L_lw | L_lb | L_lbu | L_lh | L_lhu | L_sw | L_sh | L_sb | L_swl | L_swr | L_lwl | L_lwr | L_pref
    | L_ll | L_sc

datatype lbl_setcc =
    L_sltiu | L_slti | L_slt | L_sltu | L_movn | L_movz

datatype lbl_shift =
    L_sll | L_sllv | L_sra | L_srav | L_srl | L_srlv

datatype lbl_special =
    L_exec_special | L_exec_special2 | L_exec_special3 | L_exec_bshfl | L_exec_regimm | L_exec_cop0
    | L_exec_cop1 | L_inv

datatype lbl_system =
    L_cache | L_sync | L_synci | L_tlbp | L_tlbr | L_tlbwi | L_tlbwr | L_syscall | L_breakpoint
    | L_wait | L_eret | L_mfc0 | L_mtc0

datatype lbl_trap =
    L_teq | L_teqi | L_tge | L_tgei | L_tgeiu | L_tgeu | L_tlt | L_tlti | L_tltiu | L_tltu | L_tne
    | L_tnei

datatype label =
    In_arith_ex lbl_arith_ex | In_arith lbl_arith | In_branch lbl_branch
    | In_float_move lbl_float_move | In_float_arith lbl_float_arith | In_float_cmp lbl_float_cmp
    | In_mdu lbl_mdu | In_memory lbl_memory | In_setcc lbl_setcc | In_shift lbl_shift
    | In_special lbl_special | In_system lbl_system | In_trap lbl_trap

abbreviation (input) inv :: label where "inv \<equiv> In_special L_inv"

section \<open>Tables\<close>

text \<open>Entries that an initialiser leaves out are \<^verbatim>\<open>NULL\<close>.\<close>

definition table_get :: "label list \<Rightarrow> nat \<Rightarrow> label option" where
  "table_get t n = (if n < length t then Some (t ! n) else None)"

definition special_table :: "label list" where
  "special_table = [
      In_shift L_sll, In_float_move L_movci, In_shift L_srl, In_shift L_sra,
      In_shift L_sllv, inv, In_shift L_srlv, In_shift L_srav,
      In_branch L_jr, In_branch L_jalr, In_setcc L_movz, In_setcc L_movn,
      In_system L_syscall, In_system L_breakpoint, inv, In_system L_sync,
      In_mdu L_mfhi, In_mdu L_mthi, In_mdu L_mflo, In_mdu L_mtlo,
      inv, inv, inv, inv,
      In_mdu L_mult, In_mdu L_multu, In_mdu L_divide, In_mdu L_divu,
      inv, inv, inv, inv,
      In_arith L_add, In_arith L_addu, In_arith L_sub, In_arith L_subu,
      In_arith L_and, In_arith L_or, In_arith L_xor, In_arith L_nor,
      inv, inv, In_setcc L_slt, In_setcc L_sltu,
      inv, inv, inv, inv,
      In_trap L_tge, In_trap L_tgeu, In_trap L_tlt, In_trap L_tltu,
      In_trap L_teq, inv, In_trap L_tne, inv,
      inv, inv, inv, inv,
      inv, inv, inv, inv]"

definition special2_table :: "label list" where
  "special2_table = [
      In_mdu L_madd, In_mdu L_maddu, In_arith L_mul, inv,
      In_mdu L_msub, In_mdu L_msubu, inv, inv,
      inv, inv, inv, inv,
      inv, inv, inv, inv,
      inv, inv, inv, inv,
      inv, inv, inv, inv,
      inv, inv, inv, inv,
      inv, inv, inv, inv,
      In_arith_ex L_clz, In_arith_ex L_clo, inv, inv,
      inv, inv, inv, inv,
      inv, inv, inv, inv,
      inv, inv, inv, inv,
      inv, inv, inv, inv,
      inv, inv, inv, inv,
      inv, inv, inv, inv,
      inv, inv, inv, inv]"

definition special3_table :: "label list" where
  "special3_table = [
      In_arith_ex L_ext, inv, In_arith L_mul, inv,
      In_arith_ex L_ins, inv, inv, inv,
      inv, inv, inv, inv,
      inv, inv, inv, inv,
      inv, inv, inv, inv,
      inv, inv, inv, inv,
      inv, inv, inv, inv,
      inv, inv, inv, inv,
      In_special L_exec_bshfl, inv, inv, inv,
      inv, inv, inv, inv,
      inv, inv, inv, inv,
      inv, inv, inv, inv,
      inv, inv, inv, inv,
      inv, inv, inv, inv,
      inv, inv, inv, inv,
      inv, inv, inv, inv]"

definition bshfl_table :: "label list" where
  "bshfl_table = [
      inv, inv, In_arith_ex L_wsbh, inv,
      inv, inv, inv, inv,
      inv, inv, inv, inv,
      inv, inv, inv, inv,
      In_arith_ex L_seb, inv, inv, inv,
      inv, inv, inv, inv,
      In_arith_ex L_seh, inv, inv, inv,
      inv, inv, inv, inv]"

definition regimm_table :: "label list" where
  "regimm_table = [
      In_branch L_bltz, In_branch L_bgez, In_branch L_bltzl, In_branch L_bgezl,
      inv, inv, inv, inv,
      In_trap L_tgei, In_trap L_tgeiu, In_trap L_tlti, In_trap L_tltiu,
      In_trap L_teqi, inv, In_trap L_tnei, inv,
      In_branch L_bltzal, In_branch L_bgezal, In_branch L_bltzall, In_branch L_bgezall,
      inv, inv, inv, inv,
      inv, inv, inv, inv,
      inv, inv, inv, In_system L_synci]"

definition cop0_table_rs :: "label list" where
  "cop0_table_rs = [
      In_system L_mfc0, inv, inv, inv,
      In_system L_mtc0, inv, inv, inv,
      inv, inv, inv, inv,
      inv, inv, inv, inv,
      inv, inv, inv, inv,
      inv, inv, inv, inv,
      inv, inv, inv, inv,
      inv, inv, inv, inv]"

definition cop0_table_func :: "label list" where
  "cop0_table_func = [
      inv, In_system L_tlbr, In_system L_tlbwi, inv,
      inv, inv, In_system L_tlbwr, inv,
      In_system L_tlbp, inv, inv, inv,
      inv, inv, inv, inv,
      inv, inv, inv, inv,
      inv, inv, inv, inv,
      In_system L_eret, inv, inv, inv,
      inv, inv, inv, inv,
      In_system L_wait, inv, inv, inv,
      inv, inv, inv, inv,
      inv, inv, inv, inv,
      inv, inv, inv, inv,
      inv, inv, inv, inv,
      inv, inv, inv, inv,
      inv, inv, inv, inv,
      inv, inv, inv, inv]"

definition cop1_table_rs :: "label list" where
  "cop1_table_rs = [
      In_float_move L_mfc1, inv, In_float_move L_cfc1, In_float_move L_mfhc1,
      In_float_move L_mtc1, inv, In_float_move L_ctc1, In_float_move L_mthc1,
      In_float_move L_bc1, inv, inv, inv,
      inv, inv, inv, inv,
      inv, inv, inv, inv,
      inv, inv, inv, inv,
      inv, inv, inv, inv,
      inv, inv, inv, inv]"

definition cop1_table_rs_S :: "label list" where
  "cop1_table_rs_S = [
      In_float_arith L_add_s, In_float_arith L_sub_s, In_float_arith L_mul_s, In_float_arith L_div_s,
      In_float_arith L_sqrt_s, In_float_arith L_abs_s, In_float_arith L_mov_s, In_float_arith L_neg_s,
      inv, inv, inv, inv,
      inv, In_float_arith L_trunc_w_s, inv, inv,
      inv, In_float_move L_movcf_s, In_float_move L_movz_s, In_float_move L_movn_s,
      inv, inv, inv, inv,
      inv, inv, inv, inv,
      inv, inv, inv, inv,
      inv, In_float_arith L_cvt_d_s, inv, inv,
      inv, In_float_arith L_cvt_w_s, inv, inv,
      inv, inv, inv, inv,
      inv, inv, inv, inv,
      inv, In_float_cmp L_c_un_s, In_float_cmp L_c_eq_s, In_float_cmp L_c_ueq_s,
      In_float_cmp L_c_olt_s, In_float_cmp L_c_ult_s, In_float_cmp L_c_ole_s, In_float_cmp L_c_ule_s,
      inv, inv, inv, inv,
      In_float_cmp L_c_lt_s, inv, In_float_cmp L_c_le_s, inv]"

definition cop1_table_rs_D :: "label list" where
  "cop1_table_rs_D = [
      In_float_arith L_add_d, In_float_arith L_sub_d, In_float_arith L_mul_d, In_float_arith L_div_d,
      In_float_arith L_sqrt_d, In_float_arith L_abs_d, In_float_arith L_mov_d, In_float_arith L_neg_d,
      inv, inv, inv, inv,
      inv, In_float_arith L_trunc_w_d, inv, inv,
      inv, In_float_move L_movcf_d, In_float_move L_movz_d, In_float_move L_movn_d,
      inv, inv, inv, inv,
      inv, inv, inv, inv,
      inv, inv, inv, inv,
      In_float_arith L_cvt_s_d, inv, inv, inv,
      inv, In_float_arith L_cvt_w_d, inv, inv,
      inv, inv, inv, inv,
      inv, inv, inv, inv,
      inv, In_float_cmp L_c_un_d, In_float_cmp L_c_eq_d, In_float_cmp L_c_ueq_d,
      In_float_cmp L_c_olt_d, In_float_cmp L_c_ult_d, In_float_cmp L_c_ole_d, In_float_cmp L_c_ule_d,
      inv, inv, inv, inv,
      In_float_cmp L_c_lt_d, inv, In_float_cmp L_c_le_d, inv]"

definition cop1_table_rs_W :: "label list" where
  "cop1_table_rs_W = [
      inv, inv, inv, inv,
      inv, inv, inv, inv,
      inv, inv, inv, inv,
      inv, inv, inv, inv,
      inv, inv, inv, inv,
      inv, inv, inv, inv,
      inv, inv, inv, inv,
      inv, inv, inv, inv,
      In_float_arith L_cvt_s_w, In_float_arith L_cvt_d_w, inv, inv,
      inv, inv, inv, inv,
      inv, inv, inv, inv,
      inv, inv, inv, inv,
      inv, inv, inv, inv,
      inv, inv, inv, inv,
      inv, inv, inv, inv,
      inv, inv, inv, inv]"

definition opcode_table :: "label list" where
  "opcode_table = [
      In_special L_exec_special, In_special L_exec_regimm, In_branch L_j, In_branch L_jal,
      In_branch L_beq, In_branch L_bne, In_branch L_blez, In_branch L_bgtz,
      In_arith L_addi, In_arith L_addiu, In_setcc L_slti, In_setcc L_sltiu,
      In_arith L_andi, In_arith L_ori, In_arith L_xori, In_arith L_lui,
      In_special L_exec_cop0, In_special L_exec_cop1, inv, inv,
      In_branch L_beql, In_branch L_bnel, In_branch L_blezl, In_branch L_bgtzl,
      inv, inv, inv, inv,
      In_special L_exec_special2, inv, inv, In_special L_exec_special3,
      In_memory L_lb, In_memory L_lh, In_memory L_lwl, In_memory L_lw,
      In_memory L_lbu, In_memory L_lhu, In_memory L_lwr, inv,
      In_memory L_sb, In_memory L_sh, In_memory L_swl, In_memory L_sw,
      inv, inv, In_memory L_swr, In_system L_cache,
      In_memory L_ll, In_float_move L_lwc1, inv, In_memory L_pref,
      inv, In_float_move L_ldc1, inv, inv,
      In_memory L_sc, In_float_move L_swc1, inv, inv,
      inv, In_float_move L_sdc1, inv, inv]"

text \<open>
  \<^verbatim>\<open>FPU_FMT_S\<close>, \<^verbatim>\<open>FPU_FMT_D\<close> and \<^verbatim>\<open>FPU_FMT_W\<close> are 16, 17 and 20.
\<close>

definition decoder_get_handler :: "u32 \<Rightarrow> label option" where
  "decoder_get_handler i =
     (let opc = inst_op i
      in if opc = 0x00 then table_get special_table (inst_func i)
         else if opc = 0x01 then table_get regimm_table (inst_rt i)
         else if opc = 0x10 then
           (if inst_rs i AND 0x10 \<noteq> 0 then table_get cop0_table_func (inst_func i)
            else table_get cop0_table_rs (inst_rs i))
         else if opc = 0x11 then
           (if inst_rs i = 16 then table_get cop1_table_rs_S (inst_func i)
            else if inst_rs i = 17 then table_get cop1_table_rs_D (inst_func i)
            else if inst_rs i = 20 then table_get cop1_table_rs_W (inst_func i)
            else table_get cop1_table_rs (inst_rs i))
         else if opc = 0x1c then table_get special2_table (inst_func i)
         else if opc = 0x1f then
           (if inst_func i = 0x20 then table_get bshfl_table (inst_shamt i)
            else table_get special3_table (inst_func i))
         else table_get opcode_table opc)"

section \<open>The jump to a handler\<close>

fun goto_arith_ex :: "lbl_arith_ex \<Rightarrow> handler" where
  "goto_arith_ex L_clz = exec_clz"
| "goto_arith_ex L_clo = exec_clo"
| "goto_arith_ex L_seb = exec_seb"
| "goto_arith_ex L_seh = exec_seh"
| "goto_arith_ex L_wsbh = exec_wsbh"
| "goto_arith_ex L_ins = exec_ins"
| "goto_arith_ex L_ext = exec_ext"

fun goto_arith :: "lbl_arith \<Rightarrow> handler" where
  "goto_arith L_or = exec_or"
| "goto_arith L_xor = exec_xor"
| "goto_arith L_and = exec_and"
| "goto_arith L_addu = exec_addu"
| "goto_arith L_subu = exec_subu"
| "goto_arith L_mul = exec_mul"
| "goto_arith L_lui = exec_lui"
| "goto_arith L_addi = exec_addi"
| "goto_arith L_addiu = exec_addiu"
| "goto_arith L_andi = exec_andi"
| "goto_arith L_ori = exec_ori"
| "goto_arith L_xori = exec_xori"
| "goto_arith L_add = exec_add"
| "goto_arith L_sub = exec_sub"
| "goto_arith L_nor = exec_nor"

fun goto_branch :: "lbl_branch \<Rightarrow> handler" where
  "goto_branch L_beq = exec_beq"
| "goto_branch L_bne = exec_bne"
| "goto_branch L_blez = exec_blez"
| "goto_branch L_bgtz = exec_bgtz"
| "goto_branch L_bltz = exec_bltz"
| "goto_branch L_bgez = exec_bgez"
| "goto_branch L_bgezal = exec_bgezal"
| "goto_branch L_bltzal = exec_bltzal"
| "goto_branch L_jal = exec_jal"
| "goto_branch L_jalr = exec_jalr"
| "goto_branch L_j = exec_j"
| "goto_branch L_jr = exec_jr"
| "goto_branch L_beql = exec_beql"
| "goto_branch L_bnel = exec_bnel"
| "goto_branch L_blezl = exec_blezl"
| "goto_branch L_bgtzl = exec_bgtzl"
| "goto_branch L_bltzl = exec_bltzl"
| "goto_branch L_bgezl = exec_bgezl"
| "goto_branch L_bgezall = exec_bgezall"
| "goto_branch L_bltzall = exec_bltzall"

fun goto_float_move :: "lbl_float_move \<Rightarrow> handler" where
  "goto_float_move L_mfc1 = exec_mfc1"
| "goto_float_move L_cfc1 = exec_cfc1"
| "goto_float_move L_mfhc1 = exec_mfhc1"
| "goto_float_move L_mtc1 = exec_mtc1"
| "goto_float_move L_ctc1 = exec_ctc1"
| "goto_float_move L_mthc1 = exec_mthc1"
| "goto_float_move L_bc1 = exec_bc1"
| "goto_float_move L_lwc1 = exec_lwc1"
| "goto_float_move L_swc1 = exec_swc1"
| "goto_float_move L_ldc1 = exec_ldc1"
| "goto_float_move L_sdc1 = exec_sdc1"
| "goto_float_move L_movci = exec_movci"
| "goto_float_move L_movcf_s = exec_movcf_s"
| "goto_float_move L_movcf_d = exec_movcf_d"
| "goto_float_move L_movz_s = exec_movz_s"
| "goto_float_move L_movz_d = exec_movz_d"
| "goto_float_move L_movn_s = exec_movn_s"
| "goto_float_move L_movn_d = exec_movn_d"

fun goto_float_arith :: "float_ops \<Rightarrow> lbl_float_arith \<Rightarrow> handler" where
  "goto_float_arith fo L_add_s = exec_add_s"
| "goto_float_arith fo L_add_d = exec_add_d"
| "goto_float_arith fo L_sub_s = exec_sub_s"
| "goto_float_arith fo L_sub_d = exec_sub_d"
| "goto_float_arith fo L_mul_s = exec_mul_s"
| "goto_float_arith fo L_mul_d = exec_mul_d"
| "goto_float_arith fo L_div_s = exec_div_s"
| "goto_float_arith fo L_div_d = exec_div_d"
| "goto_float_arith fo L_sqrt_s = exec_sqrt_s"
| "goto_float_arith fo L_sqrt_d = exec_sqrt_d"
| "goto_float_arith fo L_abs_s = exec_abs_s"
| "goto_float_arith fo L_abs_d = exec_abs_d"
| "goto_float_arith fo L_mov_s = exec_mov_s"
| "goto_float_arith fo L_mov_d = exec_mov_d"
| "goto_float_arith fo L_neg_s = exec_neg_s"
| "goto_float_arith fo L_neg_d = exec_neg_d"
| "goto_float_arith fo L_trunc_w_s = exec_trunc_w_s"
| "goto_float_arith fo L_trunc_w_d = exec_trunc_w_d"
| "goto_float_arith fo L_cvt_d_s = exec_cvt_d_s fo"
| "goto_float_arith fo L_cvt_w_s = exec_cvt_w_s"
| "goto_float_arith fo L_cvt_s_d = exec_cvt_s_d fo"
| "goto_float_arith fo L_cvt_w_d = exec_cvt_w_d"
| "goto_float_arith fo L_cvt_s_w = exec_cvt_s_w fo"
| "goto_float_arith fo L_cvt_d_w = exec_cvt_d_w fo"

fun goto_float_cmp :: "lbl_float_cmp \<Rightarrow> handler" where
  "goto_float_cmp L_c_un_s = exec_c_un_s"
| "goto_float_cmp L_c_un_d = exec_c_un_d"
| "goto_float_cmp L_c_eq_s = exec_c_eq_s"
| "goto_float_cmp L_c_eq_d = exec_c_eq_d"
| "goto_float_cmp L_c_ueq_s = exec_c_ueq_s"
| "goto_float_cmp L_c_ueq_d = exec_c_ueq_d"
| "goto_float_cmp L_c_olt_s = exec_c_olt_s"
| "goto_float_cmp L_c_olt_d = exec_c_olt_d"
| "goto_float_cmp L_c_ult_s = exec_c_ult_s"
| "goto_float_cmp L_c_ult_d = exec_c_ult_d"
| "goto_float_cmp L_c_ole_s = exec_c_ole_s"
| "goto_float_cmp L_c_ole_d = exec_c_ole_d"
| "goto_float_cmp L_c_ule_s = exec_c_ule_s"
| "goto_float_cmp L_c_ule_d = exec_c_ule_d"
| "goto_float_cmp L_c_lt_s = exec_c_lt_s"
| "goto_float_cmp L_c_lt_d = exec_c_lt_d"
| "goto_float_cmp L_c_le_s = exec_c_le_s"
| "goto_float_cmp L_c_le_d = exec_c_le_d"

fun goto_mdu :: "lbl_mdu \<Rightarrow> handler" where
  "goto_mdu L_madd = exec_madd"
| "goto_mdu L_maddu = exec_maddu"
| "goto_mdu L_msub = exec_msub"
| "goto_mdu L_msubu = exec_msubu"
| "goto_mdu L_mult = exec_mult"
| "goto_mdu L_multu = exec_multu"
| "goto_mdu L_divide = exec_divide"
| "goto_mdu L_divu = exec_divu"
| "goto_mdu L_mfhi = exec_mfhi"
| "goto_mdu L_mthi = exec_mthi"
| "goto_mdu L_mflo = exec_mflo"
| "goto_mdu L_mtlo = exec_mtlo"

fun goto_memory :: "lbl_memory \<Rightarrow> handler" where
  "goto_memory L_lw = exec_lw"
| "goto_memory L_lb = exec_lb"
| "goto_memory L_lbu = exec_lbu"
| "goto_memory L_lh = exec_lh"
| "goto_memory L_lhu = exec_lhu"
| "goto_memory L_sw = exec_sw"
| "goto_memory L_sh = exec_sh"
| "goto_memory L_sb = exec_sb"
| "goto_memory L_swl = exec_swl"
| "goto_memory L_swr = exec_swr"
| "goto_memory L_lwl = exec_lwl"
| "goto_memory L_lwr = exec_lwr"
| "goto_memory L_pref = exec_pref"
| "goto_memory L_ll = exec_ll"
| "goto_memory L_sc = exec_sc"

fun goto_setcc :: "lbl_setcc \<Rightarrow> handler" where
  "goto_setcc L_sltiu = exec_sltiu"
| "goto_setcc L_slti = exec_slti"
| "goto_setcc L_slt = exec_slt"
| "goto_setcc L_sltu = exec_sltu"
| "goto_setcc L_movn = exec_movn"
| "goto_setcc L_movz = exec_movz"

fun goto_shift :: "lbl_shift \<Rightarrow> handler" where
  "goto_shift L_sll = exec_sll"
| "goto_shift L_sllv = exec_sllv"
| "goto_shift L_sra = exec_sra"
| "goto_shift L_srav = exec_srav"
| "goto_shift L_srl = exec_srl"
| "goto_shift L_srlv = exec_srlv"

fun goto_special :: "lbl_special \<Rightarrow> handler" where
  "goto_special L_exec_special = exec_unreachable"
| "goto_special L_exec_special2 = exec_unreachable"
| "goto_special L_exec_special3 = exec_unreachable"
| "goto_special L_exec_bshfl = exec_unreachable"
| "goto_special L_exec_regimm = exec_unreachable"
| "goto_special L_exec_cop0 = exec_unreachable"
| "goto_special L_exec_cop1 = exec_unreachable"
| "goto_special L_inv = exec_inv"

fun goto_system :: "lbl_system \<Rightarrow> handler" where
  "goto_system L_cache = exec_cache"
| "goto_system L_sync = exec_sync"
| "goto_system L_synci = exec_synci"
| "goto_system L_tlbp = exec_tlbp"
| "goto_system L_tlbr = exec_tlbr"
| "goto_system L_tlbwi = exec_tlbwi"
| "goto_system L_tlbwr = exec_tlbwr"
| "goto_system L_syscall = exec_syscall"
| "goto_system L_breakpoint = exec_breakpoint"
| "goto_system L_wait = exec_wait"
| "goto_system L_eret = exec_eret"
| "goto_system L_mfc0 = exec_mfc0"
| "goto_system L_mtc0 = exec_mtc0"

fun goto_trap :: "lbl_trap \<Rightarrow> handler" where
  "goto_trap L_teq = exec_teq"
| "goto_trap L_teqi = exec_teqi"
| "goto_trap L_tge = exec_tge"
| "goto_trap L_tgei = exec_tgei"
| "goto_trap L_tgeiu = exec_tgeiu"
| "goto_trap L_tgeu = exec_tgeu"
| "goto_trap L_tlt = exec_tlt"
| "goto_trap L_tlti = exec_tlti"
| "goto_trap L_tltiu = exec_tltiu"
| "goto_trap L_tltu = exec_tltu"
| "goto_trap L_tne = exec_tne"
| "goto_trap L_tnei = exec_tnei"

fun goto_handler :: "float_ops \<Rightarrow> label \<Rightarrow> handler" where
  "goto_handler fo (In_arith_ex l) = goto_arith_ex l"
| "goto_handler fo (In_arith l) = goto_arith l"
| "goto_handler fo (In_branch l) = goto_branch l"
| "goto_handler fo (In_float_move l) = goto_float_move l"
| "goto_handler fo (In_float_arith l) = goto_float_arith fo l"
| "goto_handler fo (In_float_cmp l) = goto_float_cmp l"
| "goto_handler fo (In_mdu l) = goto_mdu l"
| "goto_handler fo (In_memory l) = goto_memory l"
| "goto_handler fo (In_setcc l) = goto_setcc l"
| "goto_handler fo (In_shift l) = goto_shift l"
| "goto_handler fo (In_special l) = goto_special l"
| "goto_handler fo (In_system l) = goto_system l"
| "goto_handler fo (In_trap l) = goto_trap l"

section \<open>Totality\<close>

lemma table_lengths:
  "length special_table = 64" "length special2_table = 64" "length special3_table = 64"
  "length bshfl_table = 32" "length regimm_table = 32" "length cop0_table_rs = 32"
  "length cop0_table_func = 64" "length cop1_table_rs = 32" "length cop1_table_rs_S = 64"
  "length cop1_table_rs_D = 64" "length cop1_table_rs_W = 64" "length opcode_table = 64"
  by (simp_all add: special_table_def special2_table_def special3_table_def bshfl_table_def
      regimm_table_def cop0_table_rs_def cop0_table_func_def cop1_table_rs_def cop1_table_rs_S_def
      cop1_table_rs_D_def cop1_table_rs_W_def opcode_table_def)

text \<open>No instruction word is decoded to a null pointer.\<close>

lemma decoder_total: "\<exists>l. decoder_get_handler i = Some l"
  using inst_field_bounds [of i]
  by (simp add: decoder_get_handler_def Let_def table_get_def table_lengths)

text \<open>The handlers that must not be reached are shadowed by the cases of the decoder.\<close>

fun reachable_label :: "label \<Rightarrow> bool" where
  "reachable_label (In_special l) = (l = L_inv)"
| "reachable_label l = True"

lemma tables_reachable:
  "list_all reachable_label special_table" "list_all reachable_label special2_table"
  "list_all reachable_label bshfl_table" "list_all reachable_label regimm_table"
  "list_all reachable_label cop0_table_rs" "list_all reachable_label cop0_table_func"
  "list_all reachable_label cop1_table_rs" "list_all reachable_label cop1_table_rs_S"
  "list_all reachable_label cop1_table_rs_D" "list_all reachable_label cop1_table_rs_W"
  by (simp_all add: special_table_def special2_table_def bshfl_table_def
      regimm_table_def cop0_table_rs_def cop0_table_func_def cop1_table_rs_def cop1_table_rs_S_def
      cop1_table_rs_D_def cop1_table_rs_W_def)

lemma special3_reachable:
  "list_all (\<lambda>n. n = 0x20 \<or> reachable_label (special3_table ! n)) [0..<64]"
  by code_simp

lemma opcode_reachable:
  "list_all (\<lambda>n. n \<in> {0, 1, 0x10, 0x11, 0x1c, 0x1f} \<or> reachable_label (opcode_table ! n)) [0..<64]"
  by code_simp

lemma table_get_reachable:
  "list_all reachable_label t \<Longrightarrow> table_get t n = Some l \<Longrightarrow> reachable_label l"
  by (auto simp: table_get_def list_all_length split: if_splits)

lemma decoder_reachable:
  assumes "decoder_get_handler i = Some l"
  shows "reachable_label l"
proof -
  have s3: "reachable_label l" if "table_get special3_table (inst_func i) = Some l" "inst_func i \<noteq> 0x20"
    using that special3_reachable inst_field_bounds(6) [of i]
    by (auto simp: table_get_def list_all_iff split: if_splits)
  have op: "reachable_label l" if "table_get opcode_table (inst_op i) = Some l"
    "inst_op i \<notin> {0, 1, 0x10, 0x11, 0x1c, 0x1f}"
    using that bspec [OF opcode_reachable [unfolded list_all_iff], of "inst_op i"] inst_field_bounds(5) [of i]
    by (auto simp: table_get_def split: if_splits)
  show ?thesis
    using assms s3 op
    by (auto simp: decoder_get_handler_def Let_def split: if_splits
        intro: tables_reachable [THEN table_get_reachable])
qed

section \<open>Encodings\<close>

text \<open>Assembling the fields of an instruction word, as an assembler would.\<close>

definition mk_R :: "nat \<Rightarrow> nat \<Rightarrow> nat \<Rightarrow> nat \<Rightarrow> nat \<Rightarrow> nat \<Rightarrow> u32" where
  "mk_R opc rs rt rd shamt func =
     bf_set 26 6 (of_nat opc) (bf_set 21 5 (of_nat rs) (bf_set 16 5 (of_nat rt)
    (bf_set 11 5 (of_nat rd) (bf_set 6 5 (of_nat shamt) (bf_set 0 6 (of_nat func) 0)))))"

definition mk_I :: "nat \<Rightarrow> nat \<Rightarrow> nat \<Rightarrow> u16 \<Rightarrow> u32" where
  "mk_I opc rs rt imm =
     bf_set 26 6 (of_nat opc) (bf_set 21 5 (of_nat rs) (bf_set 16 5 (of_nat rt) (bf_set 0 16 (ucast imm) 0)))"

lemma unat_take_bit_of_nat: "n < 2 ^ k \<Longrightarrow> k < 32 \<Longrightarrow> unat (take_bit k (of_nat n :: u32)) = n"
proof -
  assume "n < 2 ^ k" "k < 32"
  then have "n < 2 ^ 32" using power_strict_increasing [of k 32 "2 :: nat"] by linarith
  then have "unat (of_nat n :: u32) = n" by (simp add: unat_of_nat take_bit_nat_eq_self)
  then show ?thesis using \<open>n < 2 ^ k\<close> by (simp only: unsigned_take_bit_eq take_bit_nat_eq_self)
qed

lemma mk_R_fields:
  assumes "opc < 64" and "rs < 32" and "rt < 32" and "rd < 32" and "shamt < 32" and "func < 64"
  shows "inst_op (mk_R opc rs rt rd shamt func) = opc" "inst_rs (mk_R opc rs rt rd shamt func) = rs"
    "inst_rt (mk_R opc rs rt rd shamt func) = rt" "inst_rd (mk_R opc rs rt rd shamt func) = rd"
    "inst_shamt (mk_R opc rs rt rd shamt func) = shamt" "inst_func (mk_R opc rs rt rd shamt func) = func"
  using assms
  by (simp_all add: inst_op_def inst_rs_def inst_rt_def inst_rd_def inst_shamt_def inst_func_def mk_R_def
      bf_get_set_same bf_get_set_disjoint unat_take_bit_of_nat)

lemma mk_I_fields:
  assumes "opc < 64" and "rs < 32" and "rt < 32"
  shows "inst_op (mk_I opc rs rt imm) = opc" "inst_rs (mk_I opc rs rt imm) = rs"
    "inst_rt (mk_I opc rs rt imm) = rt" "inst_uimm (mk_I opc rs rt imm) = ucast imm"
    "inst_simm (mk_I opc rs rt imm) = scast imm"
proof -
  show "inst_uimm (mk_I opc rs rt imm) = ucast imm"
    by (rule bit_eqI) (auto simp: inst_uimm_def mk_I_def bit_bf_get bit_bf_set bit_simps dest: bit_imp_le_length)
  show "inst_simm (mk_I opc rs rt imm) = scast imm"
    by (rule bit_eqI) (auto simp: inst_simm_def mk_I_def bit_bf_set bit_simps min_def dest: bit_imp_le_length)
qed (use assms in \<open>simp_all add: inst_op_def inst_rs_def inst_rt_def mk_I_def
      bf_get_set_same bf_get_set_disjoint unat_take_bit_of_nat\<close>)

section \<open>Properties\<close>

text \<open>
  C15: every 32-bit word is decoded to a handler, never to a null pointer, and never to one of the
  seven handlers that are marked as unreachable: their table entries are shadowed by the cases of
  the decoder.
\<close>

theorem decode_total_reachable: "\<exists>l. decoder_get_handler i = Some l \<and> reachable_label l"
  using decoder_total [of i] decoder_reachable [of i] by blast

end
