(* ===== verification/Cpu.thy ===== *)
theory Cpu
  imports Decode
begin

text \<open>
  The processor: \<^verbatim>\<open>init_cpu\<close> and \<^verbatim>\<open>cpu_exec\<close> of \<^verbatim>\<open>src/cpu/cpu.c\<close>
  with the body of \<^verbatim>\<open>src/cpu/exec/exec.h\<close>: fetch, decode, execute, the end of the
  instruction, and the check for exceptions and interrupts. The step relation interleaves
  instructions with the host's events.
\<close>

section \<open>Start-up\<close>

definition init_regs :: "config \<Rightarrow> u32 \<Rightarrow> CPU_state \<Rightarrow> CPU_state" where
  "init_regs cfg entry c =
     (let c = cpr_set cp0_compare 0xFFFFFFFF (cpr_set cp0_count 0 c);
          c = (if \<not> CONFIG_DIFF_WITH_QEMU cfg then cp0_set status_CU 1 c else c);
          c = cp0_set status_IM 0 (cp0_set status_BEV 1 (cp0_set status_ERL 0 c));
          c = cp0_set cause_IV 0 c;
          c = cpr_set cp0_prid 0x00018000 (c\<lparr>pc := entry\<rparr>);
          c = cp0_set config_M 1 (cp0_set config_BE 0 (cp0_set config_MT 1 c));
          c = cp0_set config1_DS 2 (cp0_set config1_DL 3 (cp0_set config1_DA 3 c));
          c = cp0_set config1_IS 2 (cp0_set config1_IL 3 (cp0_set config1_IA 3 c))
      in cp0_set config1_MMU_size (of_nat NR_TLB_ENTRY - 1) c)"

fun write_cmdline :: "config \<Rightarrow> u32 \<Rightarrow> u8 list \<Rightarrow> nemu \<Rightarrow> unit res" where
  "write_cmdline cfg a [] s = vaddr_write cfg a 1 0 s"
| "write_cmdline cfg a (ch # cs) s =
     bind_r (vaddr_write cfg a 1 (scast ch) s) (\<lambda>_. write_cmdline cfg (a + 1) cs)"

definition init_cpu :: "config \<Rightarrow> u8 list \<Rightarrow> u32 \<Rightarrow> nemu \<Rightarrow> unit res" where
  "init_cpu cfg boot_cmdline entry s =
     (let s = clear_mmu_cache (on_cpu (init_regs cfg entry) s);
          cmdline_st = CONFIG_CMDLINE_ADDR cfg + 8
      in if boot_cmdline = [] then Inr ((), s)
         else bind_r (vaddr_write cfg (CONFIG_CMDLINE_ADDR cfg) 4 cmdline_st s)
                (\<lambda>_ s. bind_r (vaddr_write cfg (CONFIG_CMDLINE_ADDR cfg + 4) 4 0 s)
                   (\<lambda>_ s. bind_r (write_cmdline cfg cmdline_st boot_cmdline s)
                      (\<lambda>_ s. Inr ((), set_gpr 5 (CONFIG_CMDLINE_ADDR cfg) (set_gpr 4 1 s))))))"

section \<open>One instruction\<close>

definition inst_end :: "config \<Rightarrow> CPU_state \<Rightarrow> CPU_state" where
  "inst_end cfg c =
     (if CONFIG_DELAYSLOT cfg \<and> is_delayslot c then c\<lparr>pc := br_target c, is_delayslot := False\<rparr>
      else c\<lparr>pc := pc c + 4\<rparr>)"

text \<open>The flow of a handler leads through \<^verbatim>\<open>inst_end\<close> or straight to \<^verbatim>\<open>exit\<close>.\<close>

definition finish_handler :: "config \<Rightarrow> flow \<Rightarrow> nemu \<Rightarrow> unit res" where
  "finish_handler cfg fl s =
     (case fl of To_inst_end \<Rightarrow> Inr ((), on_cpu (inst_end cfg) s) | To_exit \<Rightarrow> Inr ((), s))"

definition exec_inst :: "float_ops \<Rightarrow> config \<Rightarrow> u32 \<Rightarrow> nemu \<Rightarrow> unit res" where
  "exec_inst fo cfg inst s =
     (case decoder_get_handler inst of
        None \<Rightarrow> Inl (UndefinedBehaviour, s)
      | Some l \<Rightarrow> bind_r (goto_handler fo l cfg inst s) (finish_handler cfg))"

definition exec_entry :: "float_ops \<Rightarrow> config \<Rightarrow> nemu \<Rightarrow> unit res" where
  "exec_entry fo cfg s =
     (let s = set_gpr 0 0 s in bind_r (vaddr_read cfg (pc (cpu s)) 4 s) (exec_inst fo cfg))"

definition check_exception :: "config \<Rightarrow> nemu \<Rightarrow> unit res" where
  "check_exception cfg s =
     (if CONFIG_EXCEPTION cfg \<or> CONFIG_INTR cfg then
        bind_r (if \<not> has_exception (cpu s) then check_intrs cfg s else Inr ((), s))
          (\<lambda>_ s. Inr ((), if has_exception (cpu s)
                           then on_cpu (\<lambda>c. c\<lparr>has_exception := False, pc := br_target c\<rparr>) s else s))
      else Inr ((), s))"

definition cpu_step :: "float_ops \<Rightarrow> config \<Rightarrow> nemu \<Rightarrow> unit res" where
  "cpu_step fo cfg s =
     bind_r
       (if CONFIG_EXCEPTION cfg \<and> pc (cpu s) AND 0x3 \<noteq> 0
        then raise_exception cfg EXC_AdEL (on_cpu (\<lambda>c. cpr_set cp0_badvaddr (pc c) c) s)
        else exec_entry fo cfg s)
       (\<lambda>_. check_exception cfg)"

section \<open>The loop\<close>

fun cpu_loop :: "float_ops \<Rightarrow> config \<Rightarrow> nat \<Rightarrow> nemu \<Rightarrow> unit res" where
  "cpu_loop fo cfg 0 s = Inr ((), s)"
| "cpu_loop fo cfg (Suc n) s =
     bind_r (cpu_step fo cfg s)
       (\<lambda>_ s. if nemu_state s \<noteq> NEMU_RUNNING then Inr ((), s) else cpu_loop fo cfg n s)"

text \<open>
  In GDB mode a failed \<^verbatim>\<open>CPUAssert\<close> jumps back to the \<^verbatim>\<open>setjmp\<close> at the top, which
  ends the run; in the other modes the process is aborted.
\<close>

definition cpu_exec :: "float_ops \<Rightarrow> config \<Rightarrow> u64 \<Rightarrow> nemu \<Rightarrow> unit res" where
  "cpu_exec fo cfg n s =
     (if nemu_state s = NEMU_END then Inr ((), s)
      else case cpu_loop fo cfg (unat n) (s\<lparr>nemu_state := NEMU_RUNNING\<rparr>) of
             Inr (_, t) \<Rightarrow> Inr ((), if nemu_state t = NEMU_RUNNING then t\<lparr>nemu_state := NEMU_STOP\<rparr> else t)
           | Inl (f, t) \<Rightarrow>
               if f = CPUAbort \<and> work_mode s = MODE_GDB then Inr ((), t\<lparr>nemu_state := NEMU_END\<rparr>)
               else Inl (f, t))"

section \<open>The machine with its environment\<close>

text \<open>
  The host delivers characters to the serial port, has the devices look at their interrupt lines,
  and lets time pass between instructions.
\<close>

inductive machine_step :: "float_ops \<Rightarrow> config \<Rightarrow> nemu \<Rightarrow> nemu \<Rightarrow> bool" for fo cfg where
  instr: "cpu_step fo cfg s = Inr ((), t) \<Longrightarrow> machine_step fo cfg s t"
| input: "xlnx_ulite_update_irq data typed s = Inr (b, t) \<Longrightarrow> machine_step fo cfg s t"
| ctrl: "ulite_ctrl_code_handler sig s = Inr ((), t) \<Longrightarrow> machine_step fo cfg s t"
| spi_irq: "xlnx_spi_update_irq s = Inr (b, t) \<Longrightarrow> machine_step fo cfg s t"
| clock: "machine_step fo cfg s (s\<lparr>host_time := now\<rparr>)"

inductive reachable :: "float_ops \<Rightarrow> config \<Rightarrow> nemu \<Rightarrow> nemu \<Rightarrow> bool" for fo cfg s0 where
  start: "reachable fo cfg s0 s0"
| step: "reachable fo cfg s0 s \<Longrightarrow> machine_step fo cfg s t \<Longrightarrow> reachable fo cfg s0 t"

inductive_cases machine_stepE [consumes 1, case_names instr input ctrl spi_irq clock]: "machine_step fo cfg s t"

section \<open>Composition of runs\<close>

lemma cpu_loop_add:
  "cpu_loop fo cfg (m + n) s =
     bind_r (cpu_loop fo cfg m s)
       (\<lambda>_ t. if m = 0 \<or> nemu_state t = NEMU_RUNNING then cpu_loop fo cfg n t else Inr ((), t))"
proof (induction m arbitrary: s)
  case 0
  then show ?case by simp
next
  case (Suc m)
  show ?case
  proof (cases "cpu_step fo cfg s")
    case (Inr r)
    obtain t where r: "r = ((), t)" by (cases r) auto
    show ?thesis
    proof (cases "nemu_state t = NEMU_RUNNING")
      case True
      then show ?thesis using Inr r Suc.IH [of t] by (cases m) simp_all
    qed (use Inr r in simp)
  qed (simp add: Suc)
qed

end
