(* ===== verification/Invariants.thy ===== *)
theory Invariants
  imports Cpu
begin

text \<open>
  What no instruction and no host event changes: the sizes of the tables, the map of the address
  space, the mode of operation, and the consistency of the serial port's queue. The rules of the
  collection \<open>frame_intros\<close> follow the structure of the handlers; reachable states are covered by
  rule induction on the step relation.
\<close>

section \<open>The frame\<close>

named_theorems frame_intros \<open>what a piece of a handler keeps\<close>

definition sys_frame :: "nemu \<Rightarrow> nemu \<Rightarrow> bool" where
  "sys_frame s t \<longleftrightarrow>
     memory_regions t = memory_regions s \<and> work_mode t = work_mode s \<and> host_rand t = host_rand s \<and>
     length (tlb t) = length (tlb s) \<and> fifo_capacity (rx_queue t) = fifo_capacity (rx_queue s) \<and>
     (fifo_wf (rx_queue s) \<longrightarrow> fifo_wf (rx_queue t)) \<and> (spi_wf (spi s) \<longrightarrow> spi_wf (spi t))"

lemma sys_frame_refl [simp]: "sys_frame s s"
  by (simp add: sys_frame_def)

lemma sys_frame_trans: "sys_frame s t \<Longrightarrow> sys_frame t u \<Longrightarrow> sys_frame s u"
  by (auto simp: sys_frame_def)

lemma sys_frame_on_cpu [simp]: "sys_frame s (on_cpu f t) = sys_frame s t"
  by (simp add: sys_frame_def)

lemma sys_frame_set_gpr [simp]: "sys_frame s (set_gpr r v t) = sys_frame s t"
  by (simp add: set_gpr_def)

lemma sys_frame_set_fpr [simp]: "sys_frame s (set_fpr r v t) = sys_frame s t"
  by (simp add: set_fpr_def)

lemma sys_frame_derived [simp]:
  "sys_frame s (set_GR_DV i v t) = sys_frame s t" "sys_frame s (set_GR_TV i v t) = sys_frame s t"
  "sys_frame s (set_br_target a t) = sys_frame s t" "sys_frame s (link_r31 t) = sys_frame s t"
  "sys_frame s (set_hilo h t) = sys_frame s t" "sys_frame s (set_fpr64 k d t) = sys_frame s t"
  by (simp_all add: set_GR_DV_def set_GR_TV_def set_br_target_def link_r31_def set_hilo_def set_fpr64_def)

lemma sys_frame_clear_mmu_cache [simp]: "sys_frame s (clear_mmu_cache t) = sys_frame s t"
  by (simp add: sys_frame_def)

lemma sys_frame_upd [simp]:
  "sys_frame s (t\<lparr>mmu_cache := m\<rparr>) = sys_frame s t" "sys_frame s (t\<lparr>ddr := b\<rparr>) = sys_frame s t"
  "sys_frame s (t\<lparr>bram := b\<rparr>) = sys_frame s t" "sys_frame s (t\<lparr>nemu_state := n\<rparr>) = sys_frame s t"
  "sys_frame s (t\<lparr>stdout := out\<rparr>) = sys_frame s t" "sys_frame s (t\<lparr>rand_taken := k\<rparr>) = sys_frame s t"
  "sys_frame s (t\<lparr>host_time := w\<rparr>) = sys_frame s t"
  by (simp_all add: sys_frame_def)

lemma sys_frame_on_ulite [simp]:
  "(\<And>u. ulite_q (f u) = ulite_q u) \<Longrightarrow> sys_frame s (on_ulite f t) = sys_frame s t"
  by (simp add: sys_frame_def)

section \<open>Structure of handlers\<close>

lemma frame_Inr [frame_intros]: "sys_frame s t \<Longrightarrow> keeps (sys_frame s) (Inr (x, t))"
  and frame_Inl [frame_intros]: "sys_frame s t \<Longrightarrow> keeps (sys_frame s) (Inl (f, t))"
  and frame_fin [frame_intros]: "sys_frame s t \<Longrightarrow> keeps (sys_frame s) (fin t)"
  by (simp_all add: fin_def)

lemma frame_bind [frame_intros]:
  assumes "keeps (sys_frame s) r" and "\<And>x t. sys_frame s t \<Longrightarrow> keeps (sys_frame s) (f x t)"
  shows "keeps (sys_frame s) (bind_r r f)"
  using assms by (intro keeps_bind) auto

lemma frame_if [frame_intros]:
  "(b \<Longrightarrow> keeps P x) \<Longrightarrow> (\<not> b \<Longrightarrow> keeps P y) \<Longrightarrow> keeps P (if b then x else y)"
  by simp

lemma frame_if_state [frame_intros]:
  "(b \<Longrightarrow> sys_frame s x) \<Longrightarrow> (\<not> b \<Longrightarrow> sys_frame s y) \<Longrightarrow> sys_frame s (if b then x else y)"
  by simp

lemma frame_case_option [frame_intros]:
  "(x = None \<Longrightarrow> keeps P f) \<Longrightarrow> (\<And>y. x = Some y \<Longrightarrow> keeps P (g y)) \<Longrightarrow>
     keeps P (case x of None \<Rightarrow> f | Some y \<Rightarrow> g y)"
  by (cases x) simp_all

lemma frame_case_prod [frame_intros]:
  "(\<And>a b. p = (a, b) \<Longrightarrow> keeps P (f a b)) \<Longrightarrow> keeps P (case p of (a, b) \<Rightarrow> f a b)"
  by (cases p) simp

lemma frame_case_prod_app [frame_intros]:
  "(\<And>a b. p = (a, b) \<Longrightarrow> keeps P (f a b t)) \<Longrightarrow> keeps P ((case p of (a, b) \<Rightarrow> f a b) t)"
  by (cases p) simp

lemma frame_case_sum [frame_intros]:
  "(\<And>a. x = Inl a \<Longrightarrow> keeps P (f a)) \<Longrightarrow> (\<And>b. x = Inr b \<Longrightarrow> keeps P (g b)) \<Longrightarrow>
     keeps P (case x of Inl a \<Rightarrow> f a | Inr b \<Rightarrow> g b)"
  by (cases x) simp_all

section \<open>Components\<close>

lemma frame_raise_exception [frame_intros]:
  "sys_frame s t \<Longrightarrow> keeps (sys_frame s) (raise_exception cfg ex t)"
  by (simp add: raise_exception_def Let_def)

lemma frame_nemu_set_irq [frame_intros]: "sys_frame s t \<Longrightarrow> keeps (sys_frame s) (nemu_set_irq n v t)"
  by (simp add: nemu_set_irq_def Let_def)

lemma frame_check_intrs [frame_intros]: "sys_frame s t \<Longrightarrow> keeps (sys_frame s) (check_intrs cfg t)"
  by (simp add: check_intrs_eq)

lemma frame_check_ioaddr [frame_intros]: "sys_frame s t \<Longrightarrow> keeps (sys_frame s) (check_ioaddr a n sz t)"
  by (simp add: check_ioaddr_def)

lemma frame_ram [frame_intros]:
  "sys_frame s t \<Longrightarrow> keeps (sys_frame s) (ddr_map a n t)"
  "sys_frame s t \<Longrightarrow> keeps (sys_frame s) (ddr_read a len t)"
  "sys_frame s t \<Longrightarrow> keeps (sys_frame s) (ddr_write a len d t)"
  "sys_frame s t \<Longrightarrow> keeps (sys_frame s) (bram_map a n t)"
  "sys_frame s t \<Longrightarrow> keeps (sys_frame s) (bram_read a len t)"
  "sys_frame s t \<Longrightarrow> keeps (sys_frame s) (bram_write a len d t)"
  unfolding ddr_map_def ddr_read_def ddr_write_def bram_map_def bram_read_def bram_write_def
  by (intro frame_intros; simp)+

lemma sys_frame_pop [simp]:
  "sys_frame s t \<Longrightarrow> sys_frame s (on_ulite (\<lambda>u. u\<lparr>ulite_q := snd (fifo_pop (rx_queue t))\<rparr>) t)"
  by (auto simp: sys_frame_def ring.wf_pop ring.capacity_pop)

lemma sys_frame_enqueue [simp]: "sys_frame s t \<Longrightarrow> sys_frame s (xlnx_ulite_enqueue ch t)"
  by (auto simp: sys_frame_def ring.wf_push ring.capacity_push xlnx_ulite_enqueue_def)

lemma frame_stop_cpu_check [frame_intros]: "sys_frame s t \<Longrightarrow> keeps (sys_frame s) (stop_cpu_check ch t)"
  by (auto simp: stop_cpu_check_def Let_def split: option.splits list.splits)

lemma frame_ulite_peek [frame_intros]: "sys_frame s t \<Longrightarrow> keeps (sys_frame s) (xlnx_ulite_peek a len t)"
  by (simp add: xlnx_ulite_peek_def Let_def)

lemma frame_ulite_read [frame_intros]: "sys_frame s t \<Longrightarrow> keeps (sys_frame s) (xlnx_ulite_read a len t)"
  unfolding xlnx_ulite_read_def Let_def case_prod_unfold
  by (intro frame_intros) simp_all

lemma frame_ulite_write [frame_intros]: "sys_frame s t \<Longrightarrow> keeps (sys_frame s) (xlnx_ulite_write a len d t)"
  unfolding xlnx_ulite_write_def Let_def by (intro frame_intros) simp_all

lemma frame_on_spi [frame_intros]:
  assumes "sys_frame s t" and "spi_wf (spi t) \<Longrightarrow> spi_wf (f (spi t))"
  shows "sys_frame s (on_spi f t)"
  using assms by (auto simp: sys_frame_def on_spi_def)

lemma frame_lift_spi:
  assumes "sys_frame s t" and "\<And>p. spi_wf p \<Longrightarrow> keeps spi_wf (f p)"
  shows "keeps (sys_frame s) (lift_spi f t)"
proof -
  have "spi_wf (spi t) \<Longrightarrow> keeps spi_wf (f (spi t))" by (rule assms(2))
  then show ?thesis using assms(1) by (auto simp: lift_spi_def keeps_def sys_frame_def split: sum.splits)
qed

lemma frame_spi_update_irq [frame_intros]: "sys_frame s t \<Longrightarrow> keeps (sys_frame s) (xlnx_spi_update_irq t)"
  unfolding xlnx_spi_update_irq_def Let_def by (intro frame_intros) simp_all

lemma frame_spi_reset [frame_intros]: "sys_frame s t \<Longrightarrow> keeps (sys_frame s) (xlnx_spi_do_reset t)"
  unfolding xlnx_spi_do_reset_def Let_def by (intro frame_intros frame_lift_spi) (simp_all add: update_cs_keeps)

lemma sys_frame_spi: "sys_frame s t \<Longrightarrow> (spi_wf (spi t) \<Longrightarrow> spi_wf p) \<Longrightarrow> sys_frame s (t\<lparr>spi := p\<rparr>)"
  by (auto simp: sys_frame_def)

lemma frame_spi_read [frame_intros]: "sys_frame s t \<Longrightarrow> keeps (sys_frame s) (xlnx_spi_read a len t)"
  unfolding xlnx_spi_read_def Let_def case_prod_unfold
  by (intro frame_intros sys_frame_spi) (simp_all add: spi_read_drr_wf split: if_splits)

lemma frame_spi_write [frame_intros]: "sys_frame s t \<Longrightarrow> keeps (sys_frame s) (xlnx_spi_write a len d t)"
  unfolding xlnx_spi_write_def Let_def
  by (intro frame_intros frame_lift_spi) (simp_all add: spi_write_keeps update_cs_keeps)

lemma frame_small_devices [frame_intros]:
  "sys_frame s t \<Longrightarrow> keeps (sys_frame s) (blackhole_read a len t)"
  "sys_frame s t \<Longrightarrow> keeps (sys_frame s) (blackhole_write a len d t)"
  "sys_frame s t \<Longrightarrow> keeps (sys_frame s) (nemu_trap_write a len d t)"
  "sys_frame s t \<Longrightarrow> keeps (sys_frame s) (nemu_clock_read a len t)"
  unfolding blackhole_read_def blackhole_write_def nemu_trap_write_def nemu_clock_read_def Let_def
  by (intro frame_intros; simp)+

lemma frame_dev:
  "dev_read d = Some rd \<Longrightarrow> sys_frame s t \<Longrightarrow> keeps (sys_frame s) (rd a len t)"
  "dev_write d = Some wr \<Longrightarrow> sys_frame s t \<Longrightarrow> keeps (sys_frame s) (wr a len v t)"
  "dev_map d = Some mp \<Longrightarrow> sys_frame s t \<Longrightarrow> keeps (sys_frame s) (mp a n t)"
  by (cases d; auto intro: frame_intros)+

section \<open>Memory accesses\<close>

lemma frame_tlb [frame_intros]:
  "sys_frame s t \<Longrightarrow> keeps (sys_frame s) (tlb_present t)"
  "sys_frame s t \<Longrightarrow> keeps (sys_frame s) (tlb_read k t)"
  "sys_frame s t \<Longrightarrow> keeps (sys_frame s) (tlb_write k t)"
  "sys_frame s t \<Longrightarrow> keeps (sys_frame s) (tlb_exception cfg ex code v asid t)"
  subgoal by (auto simp: tlb_present_def split: sum.splits option.splits)
  subgoal by (simp add: tlb_read_def Let_def)
  subgoal by (simp add: tlb_write_def sys_frame_def)
  subgoal by (simp add: tlb_exception_def frame_raise_exception)
  done

lemma frame_page_translate [frame_intros]:
  "sys_frame s t \<Longrightarrow> keeps (sys_frame s) (page_translate cfg v attr t)"
  unfolding page_translate_def Let_def by (intro frame_intros) simp_all

lemma frame_prot_addr [frame_intros]:
  "sys_frame s t \<Longrightarrow> keeps (sys_frame s) (prot_addr_with_attr cfg v attr t)"
  unfolding prot_addr_with_attr_def translate_ioremap_def Let_def by (intro frame_intros) simp_all

lemma frame_update_mmu_cache [frame_intros]:
  "sys_frame s t \<Longrightarrow> keeps (sys_frame s) (update_mmu_cache cfg v p d w t)"
  unfolding update_mmu_cache_def Let_def by (intro frame_intros) (auto intro: frame_dev(3))

lemma frame_host [frame_intros]:
  "sys_frame s t \<Longrightarrow> keeps (sys_frame s) (host_read p off len t)"
  "sys_frame s t \<Longrightarrow> keeps (sys_frame s) (host_write p off len v t)"
  subgoal by (cases p) auto
  subgoal by (cases "(p, off, len, v, t)" rule: host_write.cases; cases "fst (the p)") auto
  done

lemma frame_vaddr [frame_intros]:
  "sys_frame s t \<Longrightarrow> keeps (sys_frame s) (vaddr_read cfg a len t)"
  "sys_frame s t \<Longrightarrow> keeps (sys_frame s) (vaddr_write cfg a len v t)"
  subgoal unfolding vaddr_read_def Let_def by (intro frame_intros) (auto intro: frame_dev(1))
  subgoal unfolding vaddr_write_def prot_addr_def Let_def by (intro frame_intros) (auto intro: frame_dev(2))
  done

section \<open>Handlers\<close>

lemma frame_InstAssert [frame_intros]:
  assumes "sys_frame s t" and "\<And>u. sys_frame s u \<Longrightarrow> keeps (sys_frame s) (k u)"
  shows "keeps (sys_frame s) (InstAssert cfg c t k)"
  unfolding InstAssert_def using assms by (intro frame_intros) simp_all

lemma frame_CHECK_ALIGNED [frame_intros]:
  assumes "sys_frame s t" and "\<And>u. sys_frame s u \<Longrightarrow> keeps (sys_frame s) (k u)"
  shows "keeps (sys_frame s) (CHECK_ALIGNED_ADDR cfg ex n a t k)"
  unfolding CHECK_ALIGNED_ADDR_def using assms by (intro frame_intros) simp_all

lemma frame_handler_ends [frame_intros]:
  "sys_frame s t \<Longrightarrow> keeps (sys_frame s) (prepare_delayslot cfg t)"
  "sys_frame s t \<Longrightarrow> keeps (sys_frame s) (raise_end cfg ex t)"
  subgoal by (simp add: prepare_delayslot_def)
  subgoal unfolding raise_end_def by (intro frame_intros) simp_all
  done

lemmas arith_ex_defs =
    exec_clz_def exec_clo_def exec_seb_def exec_seh_def exec_wsbh_def exec_ins_def exec_ext_def

lemmas arith_defs =
    exec_or_def exec_xor_def exec_and_def exec_addu_def exec_subu_def exec_mul_def exec_lui_def
    exec_addi_def exec_addiu_def exec_andi_def exec_ori_def exec_xori_def exec_add_def exec_sub_def
    exec_nor_def R_SIMPLE_def overflow_end_def

lemmas branch_defs =
    exec_beq_def exec_bne_def exec_blez_def exec_bgtz_def exec_bltz_def exec_bgez_def
    exec_bgezal_def exec_bltzal_def exec_jal_def exec_jalr_def exec_j_def exec_jr_def exec_beql_def
    exec_bnel_def exec_blezl_def exec_bgtzl_def exec_bltzl_def exec_bgezl_def exec_bgezall_def
    exec_bltzall_def branch_if_def branch_likely_if_def

lemmas float_move_defs =
    exec_mfc1_def exec_cfc1_def exec_mfhc1_def exec_mtc1_def exec_ctc1_def exec_mthc1_def
    exec_bc1_def exec_lwc1_def exec_swc1_def exec_ldc1_def exec_sdc1_def exec_movci_def
    exec_movcf_s_def exec_movcf_d_def exec_movz_s_def exec_movz_d_def exec_movn_s_def
    exec_movn_d_def branch_if_def exec_mov_s_def exec_mov_d_def fp_s1_def fp_d1_def

lemmas float_arith_defs =
    exec_add_s_def exec_add_d_def exec_sub_s_def exec_sub_d_def exec_mul_s_def exec_mul_d_def
    exec_div_s_def exec_div_d_def exec_sqrt_s_def exec_sqrt_d_def exec_abs_s_def exec_abs_d_def
    exec_mov_s_def exec_mov_d_def exec_neg_s_def exec_neg_d_def exec_trunc_w_s_def
    exec_trunc_w_d_def exec_cvt_d_s_def exec_cvt_w_s_def exec_cvt_s_d_def exec_cvt_w_d_def
    exec_cvt_s_w_def exec_cvt_d_w_def fp_s1_def fp_s2_def fp_d1_def fp_d2_def fp_result_def

lemmas float_cmp_defs =
    exec_c_un_s_def exec_c_un_d_def exec_c_eq_s_def exec_c_eq_d_def exec_c_ueq_s_def
    exec_c_ueq_d_def exec_c_olt_s_def exec_c_olt_d_def exec_c_ult_s_def exec_c_ult_d_def
    exec_c_ole_s_def exec_c_ole_d_def exec_c_ule_s_def exec_c_ule_d_def exec_c_lt_s_def
    exec_c_lt_d_def exec_c_le_s_def exec_c_le_d_def c_cond_s_def c_cond_d_def

lemmas mdu_defs =
    exec_madd_def exec_maddu_def exec_msub_def exec_msubu_def exec_mult_def exec_multu_def
    exec_divide_def exec_divu_def exec_mfhi_def exec_mthi_def exec_mflo_def exec_mtlo_def
    signed_hilo_def

lemmas memory_defs =
    exec_lw_def exec_lb_def exec_lbu_def exec_lh_def exec_lhu_def exec_sw_def exec_sh_def
    exec_sb_def exec_swl_def exec_swr_def exec_lwl_def exec_lwr_def exec_pref_def exec_ll_def
    exec_sc_def load_def store_def

lemmas setcc_defs =
    exec_sltiu_def exec_slti_def exec_slt_def exec_sltu_def exec_movn_def exec_movz_def

lemmas shift_defs =
    exec_sll_def exec_sllv_def exec_sra_def exec_srav_def exec_srl_def exec_srlv_def rotate_end_def

lemmas special_defs =
    exec_inv_def exec_unreachable_def

lemmas system_defs =
    exec_cache_def exec_sync_def exec_synci_def exec_tlbp_def exec_tlbr_def exec_tlbwi_def
    exec_tlbwr_def exec_syscall_def exec_breakpoint_def exec_wait_def exec_eret_def exec_mfc0_def
    exec_mtc0_def mtc0_cause_def

lemmas trap_defs =
    exec_teq_def exec_teqi_def exec_tge_def exec_tgei_def exec_tgeiu_def exec_tgeu_def exec_tlt_def
    exec_tlti_def exec_tltiu_def exec_tltu_def exec_tne_def exec_tnei_def trap_if_def

lemma frame_goto_arith_ex [frame_intros]:
  "sys_frame s t \<Longrightarrow> keeps (sys_frame s) (goto_arith_ex l cfg i t)"
  by (cases l; simp only: goto_arith_ex.simps arith_ex_defs Let_def; intro frame_intros; simp)

lemma frame_goto_arith [frame_intros]:
  "sys_frame s t \<Longrightarrow> keeps (sys_frame s) (goto_arith l cfg i t)"
  by (cases l; simp only: goto_arith.simps arith_defs Let_def; intro frame_intros; simp)

lemma frame_goto_branch [frame_intros]:
  "sys_frame s t \<Longrightarrow> keeps (sys_frame s) (goto_branch l cfg i t)"
  by (cases l; simp only: goto_branch.simps branch_defs Let_def; intro frame_intros; simp)

lemma frame_goto_float_move [frame_intros]:
  "sys_frame s t \<Longrightarrow> keeps (sys_frame s) (goto_float_move l cfg i t)"
  by (cases l; simp only: goto_float_move.simps float_move_defs Let_def; intro frame_intros; simp)

lemma frame_goto_float_arith [frame_intros]:
  "sys_frame s t \<Longrightarrow> keeps (sys_frame s) (goto_float_arith fo l cfg i t)"
  by (cases l; simp only: goto_float_arith.simps float_arith_defs Let_def; intro frame_intros; simp)

lemma frame_goto_float_cmp [frame_intros]:
  "sys_frame s t \<Longrightarrow> keeps (sys_frame s) (goto_float_cmp l cfg i t)"
  by (cases l; simp only: goto_float_cmp.simps float_cmp_defs Let_def; intro frame_intros; simp)

lemma frame_goto_mdu [frame_intros]:
  "sys_frame s t \<Longrightarrow> keeps (sys_frame s) (goto_mdu l cfg i t)"
  by (cases l; simp only: goto_mdu.simps mdu_defs Let_def; intro frame_intros; simp)

lemma frame_goto_memory [frame_intros]:
  "sys_frame s t \<Longrightarrow> keeps (sys_frame s) (goto_memory l cfg i t)"
  by (cases l; simp only: goto_memory.simps memory_defs Let_def; intro frame_intros; simp)

lemma frame_goto_setcc [frame_intros]:
  "sys_frame s t \<Longrightarrow> keeps (sys_frame s) (goto_setcc l cfg i t)"
  by (cases l; simp only: goto_setcc.simps setcc_defs Let_def; intro frame_intros; simp)

lemma frame_goto_shift [frame_intros]:
  "sys_frame s t \<Longrightarrow> keeps (sys_frame s) (goto_shift l cfg i t)"
  by (cases l; simp only: goto_shift.simps shift_defs Let_def; intro frame_intros; simp)

lemma frame_goto_special [frame_intros]:
  "sys_frame s t \<Longrightarrow> keeps (sys_frame s) (goto_special l cfg i t)"
  by (cases l; simp only: goto_special.simps special_defs Let_def; intro frame_intros; simp)

lemma frame_goto_system [frame_intros]:
  "sys_frame s t \<Longrightarrow> keeps (sys_frame s) (goto_system l cfg i t)"
  by (cases l; simp only: goto_system.simps system_defs Let_def; intro frame_intros; simp)

lemma frame_goto_trap [frame_intros]:
  "sys_frame s t \<Longrightarrow> keeps (sys_frame s) (goto_trap l cfg i t)"
  by (cases l; simp only: goto_trap.simps trap_defs Let_def; intro frame_intros; simp)

lemma frame_goto_handler [frame_intros]:
  "sys_frame s t \<Longrightarrow> keeps (sys_frame s) (goto_handler fo l cfg i t)"
  by (cases l; simp only: goto_handler.simps; intro frame_intros; simp)

section \<open>Steps\<close>

lemma frame_finish_handler [frame_intros]:
  "sys_frame s t \<Longrightarrow> keeps (sys_frame s) (finish_handler cfg fl t)"
  by (cases fl) (simp_all add: finish_handler_def)

lemma frame_exec_inst [frame_intros]: "sys_frame s t \<Longrightarrow> keeps (sys_frame s) (exec_inst fo cfg inst t)"
  unfolding exec_inst_def by (intro frame_intros) simp_all

lemma frame_exec_entry [frame_intros]: "sys_frame s t \<Longrightarrow> keeps (sys_frame s) (exec_entry fo cfg t)"
  unfolding exec_entry_def Let_def by (intro frame_intros) simp_all

lemma frame_check_exception [frame_intros]: "sys_frame s t \<Longrightarrow> keeps (sys_frame s) (check_exception cfg t)"
  unfolding check_exception_def by (intro frame_intros) simp_all

lemma frame_cpu_step [frame_intros]: "sys_frame s t \<Longrightarrow> keeps (sys_frame s) (cpu_step fo cfg t)"
  unfolding cpu_step_def by (intro frame_intros) simp_all

lemma frame_cpu_loop [frame_intros]: "sys_frame s t \<Longrightarrow> keeps (sys_frame s) (cpu_loop fo cfg n t)"
proof (induction n arbitrary: t)
  case (Suc n)
  then show ?case unfolding cpu_loop.simps by (intro frame_intros) simp_all
qed (simp add: frame_Inr)

lemma frame_ulite_set_irq [frame_intros]: "sys_frame s t \<Longrightarrow> keeps (sys_frame s) (xlnx_ulite_set_irq t)"
  unfolding xlnx_ulite_set_irq_def by (intro frame_intros) simp_all

lemma frame_ctrl_x [frame_intros]: "sys_frame s t \<Longrightarrow> keeps (sys_frame s) (check_ctrl_x_commands ch typed t)"
  by (auto simp: check_ctrl_x_commands_def split: list.splits)

lemma frame_ulite_receive [frame_intros]: "sys_frame s t \<Longrightarrow> keeps (sys_frame s) (ulite_receive data typed t)"
proof (induction data arbitrary: t typed)
  case (Cons ch data)
  then show ?case unfolding ulite_receive.simps by (intro frame_intros) simp_all
qed (simp add: frame_Inr)

lemma frame_update_irq [frame_intros]: "sys_frame s t \<Longrightarrow> keeps (sys_frame s) (xlnx_ulite_update_irq data typed t)"
  unfolding xlnx_ulite_update_irq_def by (intro frame_intros) simp_all

lemma frame_ctrl_code [frame_intros]: "sys_frame s t \<Longrightarrow> keeps (sys_frame s) (ulite_ctrl_code_handler no t)"
  unfolding ulite_ctrl_code_handler_def by (intro frame_intros) simp_all

lemma machine_step_frame:
  assumes "machine_step fo cfg s t"
  shows "sys_frame s t"
  using assms
proof (cases rule: machine_stepE)
  case instr
  then show ?thesis using frame_cpu_step [of s s fo cfg] by simp
next
  case (input data typed b)
  then show ?thesis using frame_update_irq [of s s data typed] by simp
next
  case (ctrl sig)
  then show ?thesis using frame_ctrl_code [of s s sig] by simp
next
  case (spi_irq b)
  then show ?thesis using frame_spi_update_irq [of s s] by simp
qed simp_all

section \<open>No exception is left pending\<close>

text \<open>
  The flag \<^verbatim>\<open>has_exception\<close> is only set during an instruction: the check at its end consumes it.
\<close>

lemma cpu_step_no_exception:
  assumes "CONFIG_EXCEPTION cfg \<or> CONFIG_INTR cfg" and "cpu_step fo cfg s = Inr ((), t)"
  shows "\<not> has_exception (cpu t)"
proof -
  from assms(2) obtain u where "check_exception cfg u = Inr ((), t)"
    by (auto simp: cpu_step_def bind_r_eq_Inr)
  then obtain v where "t = (if has_exception (cpu v)
      then on_cpu (\<lambda>c. c\<lparr>has_exception := False, pc := br_target c\<rparr>) v else v)"
    using assms(1) by (auto simp: check_exception_def bind_r_eq_Inr simp del: split_paired_Ex)
  then show ?thesis by (cases "has_exception (cpu v)") simp_all
qed

lemma nemu_set_irq_has_exception:
  "nemu_set_irq n v s = Inr ((), t) \<Longrightarrow> has_exception (cpu t) = has_exception (cpu s)"
  by (auto simp: nemu_set_irq_def Let_def split: if_splits)

lemma set_irq_has_exception:
  "xlnx_ulite_set_irq s = Inr ((), t) \<Longrightarrow> has_exception (cpu t) = has_exception (cpu s)"
  by (auto simp: xlnx_ulite_set_irq_def nemu_set_irq_has_exception split: if_splits)

lemma cpu_enqueue [simp]: "cpu (xlnx_ulite_enqueue ch s) = cpu s"
  by (simp add: xlnx_ulite_enqueue_def)

lemma ulite_receive_cpu: "ulite_receive data typed s = Inr ((), t) \<Longrightarrow> cpu t = cpu s"
proof (induction data arbitrary: typed s)
  case (Cons ch data)
  then show ?case
    by (fastforce simp: check_ctrl_x_commands_def bind_r_eq_Inr split: if_splits list.splits)
qed simp

lemma machine_step_no_exception:
  assumes "CONFIG_EXCEPTION cfg \<or> CONFIG_INTR cfg" and "machine_step fo cfg s t" and "\<not> has_exception (cpu s)"
  shows "\<not> has_exception (cpu t)"
  using assms(2)
proof (cases rule: machine_stepE)
  case instr
  then show ?thesis using cpu_step_no_exception [OF assms(1)] by blast
next
  case (input data typed b)
  then show ?thesis
    using assms(3) by (auto simp: xlnx_ulite_update_irq_def bind_r_eq_Inr set_irq_has_exception
        dest: ulite_receive_cpu split: if_splits)
next
  case (ctrl sig)
  then show ?thesis
    using assms(3) by (auto simp: ulite_ctrl_code_handler_def set_irq_has_exception split: if_splits)
next
  case (spi_irq b)
  then show ?thesis
    using assms(3) by (auto simp: xlnx_spi_update_irq_def bind_r_eq_Inr Let_def on_spi_def
        dest!: nemu_set_irq_has_exception split: if_splits)
qed (use assms(3) in simp)

section \<open>Reachable states\<close>

definition machine_wf :: "nemu \<Rightarrow> bool" where
  "machine_wf s \<longleftrightarrow> length (tlb s) = NR_TLB_ENTRY \<and> fifo_wf (rx_queue s) \<and>
     fifo_capacity (rx_queue s) = 1024 \<and> spi_wf (spi s) \<and> \<not> has_exception (cpu s)"

lemma reachable_frame: "reachable fo cfg s0 s \<Longrightarrow> sys_frame s0 s"
  by (induction rule: reachable.induct) (auto intro: sys_frame_trans machine_step_frame)

lemma reachable_wf:
  assumes "CONFIG_EXCEPTION cfg \<or> CONFIG_INTR cfg" and "reachable fo cfg s0 s" and "machine_wf s0"
  shows "machine_wf s"
proof -
  have "\<not> has_exception (cpu s)"
    using assms(2)
    by (induction rule: reachable.induct) (use assms(1,3) machine_step_no_exception in \<open>auto simp: machine_wf_def\<close>)
  then show ?thesis using reachable_frame [OF assms(2)] assms(3) by (auto simp: sys_frame_def machine_wf_def)
qed

section \<open>Properties\<close>

text \<open>
  C16: every state that the machine reaches, by instructions, by characters and signals from the
  host and by the passing of time in any order, has a TLB of 32 entries, a consistent receive queue
  of 1024 characters, an SPI controller with consistent queues and a well-formed flash memory, and no
  exception left pending, and the map of the address space and the mode of operation are those it
  started with.
\<close>

theorem reachable_invariant:
  assumes "CONFIG_EXCEPTION cfg \<or> CONFIG_INTR cfg" and "reachable fo cfg s0 s" and "machine_wf s0"
  shows "machine_wf s \<and> memory_regions s = memory_regions s0 \<and> work_mode s = work_mode s0"
  using reachable_wf [OF assms] reachable_frame [OF assms(2)] by (simp add: sys_frame_def)

lemma globals_machine_wf: "machine_wf (spi_up (nemu_globals m r t))"
  by (simp add: machine_wf_def spi_up_def globals_rx_queue spi_started_wf)
    (simp add: nemu_globals_def zero_cpu_def spi_irq_off_def)

theorem reachable_invariant_witness:
  "\<exists>t. xlnx_ulite_update_irq [0x41, 0x42] [] (spi_up (nemu_globals MODE_GDB (\<lambda>_. 0) 0)) = Inr (True, t) \<and>
     fifo_wf (rx_queue t) \<and> length (tlb t) = 32 \<and> spi_wf (spi t) \<and> work_mode t = MODE_GDB"
proof -
  let ?s = "spi_up (nemu_globals MODE_GDB (\<lambda>_. 0) 0)"
  have "ulite_intr_enabled (ulite ?s) = 0" by (simp add: nemu_globals_def spi_up_def)
  then obtain t where t: "xlnx_ulite_update_irq [0x41, 0x42] [] ?s = Inr (True, t)"
    by (simp add: xlnx_ulite_update_irq_def check_ctrl_x_commands_def xlnx_ulite_set_irq_def xlnx_ulite_enqueue_def)
  fix fo
  have "reachable fo mips32r1_defconfig ?s t"
    by (rule reachable.step [OF reachable.start machine_step.input [OF t]])
  from reachable_invariant [OF _ this globals_machine_wf] t show ?thesis
    by (auto simp: machine_wf_def nemu_globals_def spi_up_def)
qed

end
