(* ===== verification/Machine.thy ===== *)
theory Machine
  imports Invariants
begin

text \<open>
  Whole instructions: from the encoding through the decoder and the handler to the next program
  counter, and whole steps of the processor with the exception check at their end. The properties
  of the root theory are read off these lemmas.
\<close>

section \<open>From encodings to handlers\<close>

lemma exec_inst_handler:
  "decoder_get_handler i = Some l \<Longrightarrow> exec_inst fo cfg i s = bind_r (goto_handler fo l cfg i s) (finish_handler cfg)"
  by (simp add: exec_inst_def)

lemma decode_special:
  "inst_op i = 0 \<Longrightarrow> decoder_get_handler i = Some (special_table ! inst_func i)"
  using inst_field_bounds(6) [of i] by (simp add: decoder_get_handler_def table_get_def table_lengths)

lemma decode_opcode:
  "inst_op i \<notin> {0, 1, 0x10, 0x11, 0x1c, 0x1f} \<Longrightarrow> decoder_get_handler i = Some (opcode_table ! inst_op i)"
  using inst_field_bounds(5) [of i] by (simp add: decoder_get_handler_def table_get_def table_lengths)

text \<open>The instructions used below, by their encoding.\<close>

abbreviation (input) addu_w :: "nat \<Rightarrow> nat \<Rightarrow> nat \<Rightarrow> u32" where "addu_w rd rs rt \<equiv> mk_R 0 rs rt rd 0 0x21"
abbreviation (input) add_w :: "nat \<Rightarrow> nat \<Rightarrow> nat \<Rightarrow> u32" where "add_w rd rs rt \<equiv> mk_R 0 rs rt rd 0 0x20"
abbreviation (input) beq_w :: "nat \<Rightarrow> nat \<Rightarrow> u16 \<Rightarrow> u32" where "beq_w rs rt imm \<equiv> mk_I 4 rs rt imm"
abbreviation (input) beql_w :: "nat \<Rightarrow> nat \<Rightarrow> u16 \<Rightarrow> u32" where "beql_w rs rt imm \<equiv> mk_I 0x14 rs rt imm"
abbreviation (input) lw_w :: "nat \<Rightarrow> nat \<Rightarrow> u16 \<Rightarrow> u32" where "lw_w rt rs imm \<equiv> mk_I 0x23 rs rt imm"
abbreviation (input) sw_w :: "nat \<Rightarrow> nat \<Rightarrow> u16 \<Rightarrow> u32" where "sw_w rt rs imm \<equiv> mk_I 0x2b rs rt imm"
abbreviation (input) lwl_w :: "nat \<Rightarrow> nat \<Rightarrow> u16 \<Rightarrow> u32" where "lwl_w rt rs imm \<equiv> mk_I 0x22 rs rt imm"
abbreviation (input) lwr_w :: "nat \<Rightarrow> nat \<Rightarrow> u16 \<Rightarrow> u32" where "lwr_w rt rs imm \<equiv> mk_I 0x26 rs rt imm"
abbreviation (input) syscall_w :: u32 where "syscall_w \<equiv> 0x0000000c"
abbreviation (input) eret_w :: u32 where "eret_w \<equiv> 0x42000018"

lemma decode_addu: "rs < 32 \<Longrightarrow> rt < 32 \<Longrightarrow> rd < 32 \<Longrightarrow> decoder_get_handler (addu_w rd rs rt) = Some (In_arith L_addu)"
  and decode_add: "rs < 32 \<Longrightarrow> rt < 32 \<Longrightarrow> rd < 32 \<Longrightarrow> decoder_get_handler (add_w rd rs rt) = Some (In_arith L_add)"
  by (simp_all add: decode_special mk_R_fields special_table_def)

lemma decode_I:
  "rs < 32 \<Longrightarrow> rt < 32 \<Longrightarrow> decoder_get_handler (beq_w rs rt imm) = Some (In_branch L_beq)"
  "rs < 32 \<Longrightarrow> rt < 32 \<Longrightarrow> decoder_get_handler (beql_w rs rt imm) = Some (In_branch L_beql)"
  "rs < 32 \<Longrightarrow> rt < 32 \<Longrightarrow> decoder_get_handler (lw_w rt rs imm) = Some (In_memory L_lw)"
  "rs < 32 \<Longrightarrow> rt < 32 \<Longrightarrow> decoder_get_handler (sw_w rt rs imm) = Some (In_memory L_sw)"
  "rs < 32 \<Longrightarrow> rt < 32 \<Longrightarrow> decoder_get_handler (lwl_w rt rs imm) = Some (In_memory L_lwl)"
  "rs < 32 \<Longrightarrow> rt < 32 \<Longrightarrow> decoder_get_handler (lwr_w rt rs imm) = Some (In_memory L_lwr)"
  by (simp_all add: decode_opcode mk_I_fields opcode_table_def)

lemma decode_syscall: "decoder_get_handler syscall_w = Some (In_system L_syscall)"
  by (simp add: decoder_get_handler_def inst_op_def inst_func_def bf_get_def table_get_def special_table_def)

lemma decode_eret: "decoder_get_handler eret_w = Some (In_system L_eret)"
  by (simp add: decoder_get_handler_def inst_op_def inst_func_def inst_rs_def bf_get_def table_get_def
      cop0_table_func_def)

lemma exec_addu:
  assumes "rs < 32" and "rt < 32" and "rd < 32"
  shows "exec_inst fo cfg (addu_w rd rs rt) s =
     Inr ((), on_cpu (inst_end cfg) (set_gpr rd (gpr (cpu s) rs + gpr (cpu s) rt) s))"
  using assms
  by (simp add: exec_inst_handler decode_addu exec_addu_def R_SIMPLE_def mk_R_fields fin_def finish_handler_def
      set_GR_DV_def)

lemma exec_beq:
  assumes "rs < 32" and "rt < 32" and "CONFIG_DELAYSLOT cfg"
  shows "exec_inst fo cfg (beq_w rs rt imm) s =
     Inr ((), on_cpu (\<lambda>c. c\<lparr>br_target := (if gpr c rs = gpr c rt then pc c + push_bit 2 (scast imm) + 4 else pc c + 8),
                           is_delayslot := True, pc := pc c + 4\<rparr>) s)"
  using assms
  by (simp add: exec_inst_handler decode_I exec_beq_def branch_if_delay mk_I_fields finish_handler_def
      branch_dest_def on_cpu_def)

lemma exec_beql:
  assumes "rs < 32" and "rt < 32" and "CONFIG_DELAYSLOT cfg"
  shows "exec_inst fo cfg (beql_w rs rt imm) s =
     Inr ((), if gpr (cpu s) rs = gpr (cpu s) rt
              then on_cpu (\<lambda>c. c\<lparr>br_target := pc c + push_bit 2 (scast imm) + 4, is_delayslot := True, pc := pc c + 4\<rparr>) s
              else on_cpu (inst_end cfg) (on_cpu (\<lambda>c. c\<lparr>br_target := pc c + 8, pc := pc c + 4\<rparr>) s))"
  using assms
  by (simp add: exec_inst_handler decode_I exec_beql_def branch_likely_if_def prepare_delayslot_def mk_I_fields
      finish_handler_def branch_dest_def on_cpu_def set_br_target_def fin_def)

section \<open>Exceptions at the end of a step\<close>

lemma check_exception_pending:
  assumes "CONFIG_EXCEPTION cfg \<or> CONFIG_INTR cfg" and "has_exception (cpu s)"
  shows "check_exception cfg s = Inr ((), on_cpu (\<lambda>c. c\<lparr>has_exception := False, pc := br_target c\<rparr>) s)"
  using assms by (simp add: check_exception_def)

lemma check_exception_intr:
  assumes "CONFIG_EXCEPTION cfg \<or> CONFIG_INTR cfg" and "\<not> has_exception (cpu s)"
  shows "check_exception cfg s =
     (if intr_enabled (tick cfg (cpu s)) \<and> intr_unmasked (tick cfg (cpu s))
      then Inr ((), clear_mmu_cache (on_cpu (\<lambda>c. (enter_exception cfg EXC_INTR 0 (tick cfg c))
             \<lparr>has_exception := False, pc := vector_of cfg EXC_INTR 0 (tick cfg c)\<rparr>) s))
      else Inr ((), on_cpu (tick cfg) s))"
proof -
  have "has_exception (tick cfg c) = has_exception c" for c by (simp add: tick_def Let_def)
  then show ?thesis
    using assms by (simp add: check_exception_def check_intrs_eq clear_mmu_cache_on_cpu)
qed

text \<open>A step whose fetch succeeds runs the instruction with register 0 cleared.\<close>

definition fetches :: "config \<Rightarrow> nemu \<Rightarrow> u32 \<Rightarrow> nemu \<Rightarrow> bool" where
  "fetches cfg s w u \<longleftrightarrow> pc (cpu s) AND 0x3 = 0 \<and>
     vaddr_read cfg (pc (cpu s)) 4 (set_gpr 0 0 s) = Inr (w, u) \<and> cpu u = cpu (set_gpr 0 0 s)"

lemma cpu_step_fetch:
  "fetches cfg s w u \<Longrightarrow> cpu_step fo cfg s = bind_r (exec_inst fo cfg w u) (\<lambda>_. check_exception cfg)"
  by (simp add: fetches_def cpu_step_def exec_entry_def Let_def)

lemma has_exception_inst_end [simp]: "has_exception (inst_end cfg c) = has_exception c"
  by (simp add: inst_end_def)

lemma cp0_inst_end [simp]: "cp0 (inst_end cfg c) = cp0 c"
  by (simp add: inst_end_def)

lemma cpu_step_syscall:
  assumes "CONFIG_EXCEPTION cfg" and "fetches cfg s syscall_w u"
  obtains t where "cpu_step fo cfg s = Inr ((), t)"
    and "cpu t = (inst_end cfg (enter_exception cfg EXC_SYSCALL 0 (cpu (set_gpr 0 0 s))))
           \<lparr>has_exception := False,
            pc := br_target (inst_end cfg (enter_exception cfg EXC_SYSCALL 0 (cpu (set_gpr 0 0 s))))\<rparr>"
  using assms cpu_step_fetch [OF assms(2), of fo]
  by (simp add: exec_inst_handler decode_syscall exec_syscall_def raise_end_eq finish_handler_def
      check_exception_pending fetches_def)

lemma cpu_step_eret:
  assumes "CONFIG_EXCEPTION cfg" and "fetches cfg s eret_w u"
  obtains t where "cpu_step fo cfg s = Inr ((), t)"
    and "cpu t = (inst_end cfg (leave_exception (cpu (set_gpr 0 0 s))))
           \<lparr>has_exception := False, pc := br_target (inst_end cfg (leave_exception (cpu (set_gpr 0 0 s))))\<rparr>"
proof -
  have "has_exception (leave_exception c)" for c by (simp add: leave_exception_def Let_def)
  then show ?thesis
    using that assms cpu_step_fetch [OF assms(2), of fo]
    by (simp add: exec_inst_handler decode_eret exec_eret_def fin_def finish_handler_def
        check_exception_pending fetches_def)
qed

lemma br_target_inst_end [simp]: "br_target (inst_end cfg c) = br_target c"
  by (simp add: inst_end_def)

lemma set_gpr_cp0_get [simp]: "cp0_get f (cpu (set_gpr r v s)) = cp0_get f (cpu s)"
  by (simp add: set_gpr_def)

lemma restart_pc_set_gpr [simp]: "restart_pc cfg (cpu (set_gpr r v s)) = restart_pc cfg (cpu s)"
  by (simp add: restart_pc_def)

lemma vector_of_set_gpr [simp]: "vector_of cfg code extra (cpu (set_gpr r v s)) = vector_of cfg code extra (cpu s)"
  by (simp add: vector_of_def)

lemma cp0_get_inst_end [simp]: "cp0_get f (inst_end cfg c) = cp0_get f c"
  by (simp add: inst_end_def)

section \<open>Memory instructions on RAM\<close>

text \<open>Changing the cached translations, the program counter or a register does not move memory.\<close>

lemma find_device_frame [simp]:
  "find_device a (s\<lparr>mmu_cache := m\<rparr>) = find_device a s" "find_device a (on_cpu f s) = find_device a s"
  "find_device a (set_gpr r v s) = find_device a s" "find_device a (ram_put q b s) = find_device a s"
  by (simp_all add: find_device_def set_gpr_def) (cases q; simp)

lemma ram_bytes_frame [simp]:
  "ram_bytes q (s\<lparr>mmu_cache := m\<rparr>) = ram_bytes q s" "ram_bytes q (on_cpu f s) = ram_bytes q s"
  "ram_bytes q (set_gpr r v s) = ram_bytes q s" "ram_bytes q (ram_put q b s) = b"
  by (cases q; simp add: set_gpr_def)+

lemma cpu_ram_put [simp]: "cpu (ram_put q b s) = cpu s"
  by (cases q) simp_all

context ram_device
begin

text \<open>An unmapped address that lies in this memory, with room for \<open>len\<close> bytes.\<close>

definition in_ram :: "config \<Rightarrow> u32 \<Rightarrow> nat \<Rightarrow> nemu \<Rightarrow> bool" where
  "in_ram cfg a len s \<longleftrightarrow> is_unmapped a \<and> find_device a s = Some d \<and> 4096 dvd unat (dev_start cfg d) \<and>
     unat (ioremap a - dev_start cfg d) + len \<le> sz"

abbreviation offset :: "config \<Rightarrow> u32 \<Rightarrow> nat" where
  "offset cfg a \<equiv> unat (ioremap a - dev_start cfg d)"

lemma in_ram_frame [simp]:
  "in_ram cfg a len (s\<lparr>mmu_cache := m\<rparr>) = in_ram cfg a len s" "in_ram cfg a len (on_cpu f s) = in_ram cfg a len s"
  "in_ram cfg a len (set_gpr n v s) = in_ram cfg a len s" "in_ram cfg a len (ram_put q b s) = in_ram cfg a len s"
  by (simp_all add: in_ram_def)

lemma vaddr_read_in_ram:
  assumes "\<not> CONFIG_MMU_CACHE cfg" and "in_ram cfg a len s" and "1 \<le> len" and "len \<le> 4"
  shows "\<exists>m. vaddr_read cfg a len s = Inr (mem_read (ram_bytes r s) (offset cfg a) len, s\<lparr>mmu_cache := m\<rparr>)"
  using vaddr_read_uncached [OF assms(1) translates_unmapped] assms(2-) by (simp add: in_ram_def)

lemma vaddr_write_in_ram:
  assumes "\<not> CONFIG_MMU_CACHE cfg" and "in_ram cfg a len s" and "1 \<le> len" and "len \<le> 4"
  shows "\<exists>m. vaddr_write cfg a len v s =
     Inr ((), ram_put r (mem_write (ram_bytes r s) (offset cfg a) len v) (s\<lparr>mmu_cache := m\<rparr>))"
  using vaddr_write_uncached [OF assms(1) translates_unmapped] assms(2-) by (simp add: in_ram_def)

text \<open>The word load and the word store, as instructions.\<close>

lemma exec_lw_ram:
  assumes "\<not> CONFIG_MMU_CACHE cfg" and "rs < 32" and "rt < 32" and "\<not> has_exception (cpu s)"
    and "a = gpr (cpu s) rs + scast imm" and "a AND 3 = 0" and "in_ram cfg a 4 s"
  shows "\<exists>m. exec_inst fo cfg (lw_w rt rs imm) s =
     Inr ((), on_cpu (inst_end cfg) (set_gpr rt (mem_read (ram_bytes r s) (offset cfg a) 4) (s\<lparr>mmu_cache := m\<rparr>)))"
proof -
  obtain m where "vaddr_read cfg a 4 s = Inr (mem_read (ram_bytes r s) (offset cfg a) 4, s\<lparr>mmu_cache := m\<rparr>)"
    using vaddr_read_in_ram [OF assms(1,7)] by auto
  then show ?thesis
    using assms by (auto simp: exec_inst_handler decode_I exec_lw_def load_def mem_addr_def mk_I_fields Let_def
        fin_def finish_handler_def set_GR_TV_def)
qed

lemma exec_sw_ram:
  assumes "\<not> CONFIG_MMU_CACHE cfg" and "rs < 32" and "rt < 32"
    and "a = gpr (cpu s) rs + scast imm" and "a AND 3 = 0" and "in_ram cfg a 4 s"
  shows "\<exists>m. exec_inst fo cfg (sw_w rt rs imm) s =
     Inr ((), on_cpu (inst_end cfg)
       (ram_put r (mem_write (ram_bytes r s) (offset cfg a) 4 (gpr (cpu s) rt)) (s\<lparr>mmu_cache := m\<rparr>)))"
proof -
  obtain m where "vaddr_write cfg a 4 (gpr (cpu s) rt) s =
      Inr ((), ram_put r (mem_write (ram_bytes r s) (offset cfg a) 4 (gpr (cpu s) rt)) (s\<lparr>mmu_cache := m\<rparr>))"
    using vaddr_write_in_ram [OF assms(1,6)] by auto
  then show ?thesis
    using assms by (auto simp: exec_inst_handler decode_I exec_sw_def store_def mem_addr_def mk_I_fields Let_def
        fin_def finish_handler_def)
qed

text \<open>
  A word stored through one address is loaded through any address of the same physical word, so
  the cached and the uncached segment show the same memory.
\<close>

lemma sw_then_lw:
  assumes "\<not> CONFIG_MMU_CACHE cfg" and "rs < 32" and "rt < 32" and "rs' < 32" and "rt' < 32"
    and "\<not> has_exception (cpu s)"
    and "a = gpr (cpu s) rs + scast imm" and "a AND 3 = 0" and "in_ram cfg a 4 s"
    and "b = gpr (cpu s) rs' + scast imm'" and "b AND 3 = 0" and "in_ram cfg b 4 s"
    and "ioremap a = ioremap b"
  shows "\<exists>t. bind_r (exec_inst fo cfg (sw_w rt rs imm) s) (\<lambda>_. exec_inst fo cfg (lw_w rt' rs' imm')) = Inr ((), t) \<and>
     gpr (cpu t) rt' = gpr (cpu s) rt"
proof -
  obtain m where m: "exec_inst fo cfg (sw_w rt rs imm) s = Inr ((), on_cpu (inst_end cfg)
       (ram_put r (mem_write (ram_bytes r s) (offset cfg a) 4 (gpr (cpu s) rt)) (s\<lparr>mmu_cache := m\<rparr>)))"
    (is "_ = Inr ((), ?t)")
    using exec_sw_ram [OF assms(1-3,7-9)] by blast
  have cpu: "cpu ?t = inst_end cfg (cpu s)" by simp
  have gpr: "gpr (inst_end cfg c) = gpr c" for c by (simp add: inst_end_def)
  obtain n where "exec_inst fo cfg (lw_w rt' rs' imm') ?t = Inr ((), on_cpu (inst_end cfg)
      (set_gpr rt' (mem_read (ram_bytes r ?t) (offset cfg b) 4) (?t\<lparr>mmu_cache := n\<rparr>)))"
    using exec_lw_ram [OF assms(1,4,5), of ?t b imm'] assms(6,10,11,12) cpu gpr by auto
  moreover have "mem_read (ram_bytes r ?t) (offset cfg b) 4 = gpr (cpu s) rt"
    using mem_read_write_same [of 4 "ram_bytes r s" "offset cfg b" "gpr (cpu s) rt"] assms(13)
    by (simp add: take_bit_word_eq_self)
  ultimately show ?thesis using m gpr by simp
qed

end

section \<open>Unaligned words\<close>

lemma unat_and_3: "unat (v AND 3 :: u32) = unat v mod 4"
proof -
  have "unat (take_bit 2 v) = take_bit 2 (unat v)" by (rule unsigned_take_bit_eq)
  then show ?thesis unfolding and_mask_u32 by (simp add: take_bit_eq_mod)
qed

lemma unat_align_down: "unat (push_bit 2 (drop_bit 2 (v :: u32))) = 4 * (unat v div 4)"
proof -
  have "4 * (unat v div 4) < 2 ^ 32" using unat_u32_less [of v] by linarith
  then show ?thesis
    unfolding unsigned_push_bit_eq unsigned_drop_bit_eq
    by (simp add: drop_bit_eq_div push_bit_eq_mult take_bit_nat_eq_self)
qed

lemma unat_ioremap: "unat (ioremap a) = unat a mod 2 ^ 29"
proof -
  have "unat (take_bit 29 a) = take_bit 29 (unat a)" by (rule unsigned_take_bit_eq)
  then show ?thesis unfolding ioremap_take_bit by (simp add: take_bit_eq_mod)
qed

lemma unmapped_bounds: "is_unmapped a \<longleftrightarrow> 4 * 2 ^ 29 \<le> unat a \<and> unat a < 6 * 2 ^ 29"
  by (simp add: is_unmapped_def word_le_nat_alt word_less_nat_alt)

text \<open>The board of the default configuration: memory at physical address 0, seen through both segments.\<close>

definition board :: "nemu \<Rightarrow> bool" where
  "board s \<longleftrightarrow> (\<forall>a. find_device a s = defconfig_device (ioremap a))"

definition ddr_word :: "u32 \<Rightarrow> bool" where
  "ddr_word a \<longleftrightarrow> is_unmapped a \<and> unat (ioremap a) + 4 \<le> 0x10000000"

lemma in_ddr:
  assumes "board s" and "is_unmapped a" and "1 \<le> len" and "unat (ioremap a) + len \<le> 0x10000000"
  shows "ddr_ram.in_ram mips32r1_defconfig a len s"
  using assms
  by (simp add: ddr_ram.in_ram_def board_def defconfig_device_def mips32r1_defconfig_def word_less_nat_alt)

lemma power_29: "(2 :: nat) ^ 29 = 0x20000000"
  by simp

lemma ddr_word_shift:
  assumes "ddr_word a" and "unat b = unat a + k" and "k < 4"
  shows "is_unmapped b" and "unat (ioremap b) = unat (ioremap a) + k"
proof -
  have *: "unat a mod 2 ^ 29 + 4 \<le> 2 ^ 28" "4 * 2 ^ 29 \<le> unat a" "unat a < 6 * 2 ^ 29"
    using assms(1) by (auto simp: ddr_word_def unat_ioremap unmapped_bounds)
  then have "(unat a + k) mod 2 ^ 29 = unat a mod 2 ^ 29 + k"
    using assms(3) by (simp add: mod_add_left_eq [symmetric, of "unat a"] del: mod_add_left_eq)
  then show "unat (ioremap b) = unat (ioremap a) + k" by (simp add: unat_ioremap assms(2))
  obtain q r where qr: "unat a = q * 0x20000000 + r" "unat a mod 2 ^ 29 = r"
    using div_mult_mod_eq [of "unat a" "0x20000000"] by (metis power_29)
  then have "q \<le> 5" "r + 4 \<le> 0x10000000" using * by simp_all
  then have "unat a + k < 6 * 2 ^ 29" using qr(1) assms(3) by simp
  then show "is_unmapped b" using * by (simp add: unmapped_bounds assms(2))
qed

lemma vaddr_read_ddr:
  assumes "board s" and "is_unmapped a" and "1 \<le> len" and "len \<le> 4" and "unat (ioremap a) + len \<le> 0x10000000"
  shows "\<exists>m. vaddr_read mips32r1_defconfig a len s =
     Inr (mem_read (ddr s) (unat (ioremap a)) len, s\<lparr>mmu_cache := m\<rparr>)"
  using ddr_ram.vaddr_read_in_ram [OF _ in_ddr] assms by simp

lemma vaddr_write_ddr:
  assumes "board s" and "is_unmapped a" and "1 \<le> len" and "len \<le> 4" and "unat (ioremap a) + len \<le> 0x10000000"
  shows "\<exists>m. vaddr_write mips32r1_defconfig a len v s =
     Inr ((), s\<lparr>mmu_cache := m, ddr := mem_write (ddr s) (unat (ioremap a)) len v\<rparr>)"
  using ddr_ram.vaddr_write_in_ram [OF _ in_ddr] assms by simp

lemma exec_lwr_ddr:
  assumes "board s" and "ddr_word a" and "rs < 32" and "rt < 32" and "\<not> has_exception (cpu s)"
    and "a = gpr (cpu s) rs + scast imm"
  shows "\<exists>m. exec_inst fo mips32r1_defconfig (lwr_w rt rs imm) s =
     Inr ((), on_cpu (inst_end mips32r1_defconfig) (set_gpr rt
       (lwr_val (unat a mod 4) (mem_read (ddr s) (unat (ioremap a)) (4 - unat a mod 4)) (gpr (cpu s) rt))
       (s\<lparr>mmu_cache := m\<rparr>)))"
proof -
  let ?len = "4 - unat a mod 4"
  have "1 \<le> ?len" using mod_less_divisor [of 4 "unat a"] by linarith
  moreover have "unat (ioremap a) + ?len \<le> 0x10000000" using assms(2) unfolding ddr_word_def by linarith
  ultimately obtain m where "vaddr_read mips32r1_defconfig a ?len s =
      Inr (mem_read (ddr s) (unat (ioremap a)) ?len, s\<lparr>mmu_cache := m\<rparr>)"
    using vaddr_read_ddr [of s a ?len] assms(1,2) by (auto simp: ddr_word_def simp del: One_nat_def)
  then show ?thesis
    using assms by (auto simp: exec_inst_handler decode_I exec_lwr_def mem_addr_def mk_I_fields Let_def
        unat_and_3 fin_def finish_handler_def set_GR_TV_def)
qed

lemma exec_lwl_ddr:
  assumes "board s" and "rs < 32" and "rt < 32" and "\<not> has_exception (cpu s)"
    and "b = gpr (cpu s) rs + scast imm" and "w = push_bit 2 (drop_bit 2 b)"
    and "is_unmapped w" and "unat (ioremap w) + (unat b mod 4 + 1) \<le> 0x10000000"
  shows "\<exists>m. exec_inst fo mips32r1_defconfig (lwl_w rt rs imm) s =
     Inr ((), on_cpu (inst_end mips32r1_defconfig) (set_gpr rt
       (lwl_val (unat b mod 4 + 1) (mem_read (ddr s) (unat (ioremap w)) (unat b mod 4 + 1)) (gpr (cpu s) rt))
       (s\<lparr>mmu_cache := m\<rparr>)))"
proof -
  let ?len = "unat b mod 4 + 1"
  have "?len \<le> 4" using mod_less_divisor [of 4 "unat b"] by linarith
  then obtain m where "vaddr_read mips32r1_defconfig w ?len s =
      Inr (mem_read (ddr s) (unat (ioremap w)) ?len, s\<lparr>mmu_cache := m\<rparr>)"
    using vaddr_read_ddr [of s w ?len] assms(1,7,8) by auto
  then show ?thesis
    using assms(2-6) by (auto simp: exec_inst_handler decode_I exec_lwl_def mem_addr_def mk_I_fields Let_def
        unat_and_3 fin_def finish_handler_def set_GR_TV_def)
qed

text \<open>\<^verbatim>\<open>lwr\<close> at an address and \<^verbatim>\<open>lwl\<close> three bytes further load the word that starts there.\<close>

lemma board_frame [simp]:
  "board (s\<lparr>mmu_cache := m\<rparr>) = board s" "board (on_cpu f s) = board s" "board (set_gpr r v s) = board s"
  by (simp_all add: board_def)

lemma mem_read_4: "mem_read m a 4 = mem_read32 m a"
  by (simp add: mem_read_def len_mask_def)

lemma round_up_4: "4 * ((x + 3) div 4) = x + (if x mod 4 = 0 then 0 else 4 - x mod 4)" for x :: nat
proof -
  obtain q r where x: "x = 4 * q + r" "r < 4" "x mod 4 = r"
    using mod_less_divisor [of 4 x] mult_div_mod_eq [of 4 x] by (metis zero_less_numeral)
  then have "r = 0 \<or> r = 1 \<or> r = 2 \<or> r = 3" by linarith
  then show ?thesis using x by auto
qed

lemma last_byte_4: "(x + 3) mod 4 + 1 = (if x mod 4 = 0 then 4 else x mod 4)" for x :: nat
proof -
  obtain q r where x: "x = 4 * q + r" "r < 4" "x mod 4 = r"
    using mod_less_divisor [of 4 x] mult_div_mod_eq [of 4 x] by (metis zero_less_numeral)
  then have "r = 0 \<or> r = 1 \<or> r = 2 \<or> r = 3" by linarith
  then show ?thesis using x by auto
qed

lemma lwl_address:
  assumes "ddr_word a" and "unat b = unat a + 3" and "w = push_bit 2 (drop_bit 2 b)"
  shows "is_unmapped w"
    and "unat (ioremap w) = unat (ioremap a) + (if unat a mod 4 = 0 then 0 else 4 - unat a mod 4)"
    and "unat b mod 4 + 1 = (if unat a mod 4 = 0 then 4 else unat a mod 4)"
proof -
  have m: "unat a mod 4 < 4" by simp
  have "unat w = unat a + (if unat a mod 4 = 0 then 0 else 4 - unat a mod 4)"
    unfolding assms(3) unat_align_down assms(2) by (rule round_up_4)
  moreover have "(if unat a mod 4 = 0 then 0 else 4 - unat a mod 4) < 4" by simp
  ultimately show "is_unmapped w"
    "unat (ioremap w) = unat (ioremap a) + (if unat a mod 4 = 0 then 0 else 4 - unat a mod 4)"
    using ddr_word_shift [OF assms(1)] by blast+
  show "unat b mod 4 + 1 = (if unat a mod 4 = 0 then 4 else unat a mod 4)"
    unfolding assms(2) by (rule last_byte_4)
qed

lemma lwr_then_lwl:
  assumes "board s" and "ddr_word a" and "rs < 32" and "rt < 32" and "rs \<noteq> rt" and "\<not> has_exception (cpu s)"
    and "a = gpr (cpu s) rs + scast imm" and "a + 3 = gpr (cpu s) rs + scast imm'"
  shows "\<exists>t. bind_r (exec_inst fo mips32r1_defconfig (lwr_w rt rs imm) s)
       (\<lambda>_. exec_inst fo mips32r1_defconfig (lwl_w rt rs imm')) = Inr ((), t) \<and>
     gpr (cpu t) rt = mem_read32 (ddr s) (unat (ioremap a))"
proof -
  let ?cfg = mips32r1_defconfig and ?x = "unat a mod 4" and ?w = "push_bit 2 (drop_bit 2 (a + 3))"
  have b: "unat (a + 3) = unat a + 3"
    using assms(2) unat_add_small [of a 3] by (simp add: ddr_word_def unmapped_bounds)
  note w = lwl_address [OF assms(2) b refl]
  obtain m v where step1: "exec_inst fo ?cfg (lwr_w rt rs imm) s =
      Inr ((), on_cpu (inst_end ?cfg) (set_gpr rt v (s\<lparr>mmu_cache := m\<rparr>)))" (is "_ = Inr ((), ?t)")
    and v: "v = lwr_val ?x (mem_read (ddr s) (unat (ioremap a)) (4 - ?x)) (gpr (cpu s) rt)"
    using exec_lwr_ddr [OF assms(1-4,6,7)] by blast
  have g: "gpr (inst_end ?cfg c) = gpr c" for c by (simp add: inst_end_def)
  have room: "unat (ioremap ?w) + (unat (a + 3) mod 4 + 1) \<le> 0x10000000"
    using assms(2) w by (simp add: ddr_word_def split: if_splits)
  have t: "board ?t" "\<not> has_exception (cpu ?t)" "a + 3 = gpr (cpu ?t) rs + scast imm'"
    using assms(1,5,6,8) g by simp_all
  obtain n where "exec_inst fo ?cfg (lwl_w rt rs imm') ?t = Inr ((), on_cpu (inst_end ?cfg) (set_gpr rt
      (lwl_val (unat (a + 3) mod 4 + 1) (mem_read (ddr ?t) (unat (ioremap ?w)) (unat (a + 3) mod 4 + 1)) (gpr (cpu ?t) rt))
      (?t\<lparr>mmu_cache := n\<rparr>)))"
    using exec_lwl_ddr [OF t(1) assms(3,4) t(2,3) refl w(1) room] by blast
  moreover have "lwl_val (unat (a + 3) mod 4 + 1) (mem_read (ddr s) (unat (ioremap ?w)) (unat (a + 3) mod 4 + 1)) v
      = mem_read32 (ddr s) (unat (ioremap a))"
    unfolding w(2,3) v using lwl_lwr_word [of ?x "ddr s" "unat (ioremap a)" "gpr (cpu s) rt"]
    by (cases "?x = 0") (simp_all add: lwl_val_def [of 4] mem_read_4)
  ultimately show ?thesis using step1 g by (simp add: set_gpr_def)
qed

section \<open>A machine with one instruction\<close>

text \<open>The reset state with the word \<open>w\<close> at the start of the block RAM, where execution begins.\<close>

definition rom_state :: "u32 \<Rightarrow> nemu" where
  "rom_state w = reset_state\<lparr>
     memory_regions := (\<lambda>k. if k = 0x1fc00 then Some bram_dev else None),
     bram := mem_write (\<lambda>_. 0) 0 4 w,
     cpu := zero_cpu\<lparr>pc := 0xbfc00000\<rparr>\<rparr>"

lemma rom_state_simps [simp]:
  "cpu (rom_state w) = zero_cpu\<lparr>pc := 0xbfc00000\<rparr>" "bram (rom_state w) = mem_write (\<lambda>_. 0) 0 4 w"
  by (simp_all add: rom_state_def)

lemma rom_fetches:
  assumes "memory_regions s = memory_regions (rom_state w)" and "bram s = bram (rom_state w)" and "pc (cpu s) = 0xbfc00000"
  shows "bram_ram.in_ram mips32r1_defconfig 0xbfc00000 8 s" and "\<exists>u. fetches mips32r1_defconfig s w u"
proof -
  show in8: "bram_ram.in_ram mips32r1_defconfig 0xbfc00000 8 s"
    using assms(1) by (simp add: bram_ram.in_ram_def is_unmapped_def find_device_page ioremap_def)
       (simp add: rom_state_def mips32r1_defconfig_def)
  then have "bram_ram.in_ram mips32r1_defconfig 0xbfc00000 4 (set_gpr 0 0 s)" by (simp add: bram_ram.in_ram_def)
  moreover have "bram (set_gpr 0 0 s) = bram (rom_state w)" using assms(2) by (simp add: set_gpr_def)
  ultimately obtain m where "vaddr_read mips32r1_defconfig 0xbfc00000 4 (set_gpr 0 0 s) =
      Inr (mem_read (bram (rom_state w)) (bram_ram.offset mips32r1_defconfig 0xbfc00000) 4,
           (set_gpr 0 0 s)\<lparr>mmu_cache := m\<rparr>)"
    using bram_ram.vaddr_read_in_ram [of mips32r1_defconfig "0xbfc00000" 4 "set_gpr 0 0 s"] assms(2)
    by (auto simp del: rom_state_simps)
  moreover have "bram_ram.offset mips32r1_defconfig 0xbfc00000 = 0"
    by (simp add: ioremap_def mips32r1_defconfig_def)
  ultimately show "\<exists>u. fetches mips32r1_defconfig s w u"
    using mem_read_write_same [of 4 "\<lambda>_. 0" 0 w] assms(3) by (auto simp: fetches_def take_bit_word_eq_self)
qed

lemma rom_state_fetches: "\<exists>u. fetches mips32r1_defconfig (rom_state w) w u"
  by (rule rom_fetches(2)) simp_all

section \<open>Start-up\<close>

lemma board_bram:
  assumes "board s" and "is_unmapped a" and "unat (ioremap a) = 0x1fc00000 + k" and "k + len \<le> 0x100000" and "1 \<le> len"
  shows "bram_ram.in_ram mips32r1_defconfig a len s" and "bram_ram.offset mips32r1_defconfig a = k"
proof -
  have "unat (0x1fc00000 :: u32) \<le> unat (ioremap a)" using assms(3) by simp
  then have "unat (ioremap a - 0x1fc00000) = k" using assms(3) by (simp add: unat_sub word_le_nat_alt)
  then show "bram_ram.offset mips32r1_defconfig a = k" by (simp add: mips32r1_defconfig_def)
  then show "bram_ram.in_ram mips32r1_defconfig a len s"
    using assms by (simp add: bram_ram.in_ram_def board_def defconfig_device_def word_less_nat_alt word_le_nat_alt)
       (simp add: mips32r1_defconfig_def)
qed

lemma vaddr_write_bram:
  assumes "board s" and "is_unmapped a" and "unat (ioremap a) = 0x1fc00000 + k" and "k + len \<le> 0x100000"
    and "1 \<le> len" and "len \<le> 4"
  shows "\<exists>m. vaddr_write mips32r1_defconfig a len v s = Inr ((), s\<lparr>mmu_cache := m, bram := mem_write (bram s) k len v\<rparr>)"
  using bram_ram.vaddr_write_in_ram [OF _ board_bram(1) [OF assms(1-5)] assms(5,6)] board_bram(2) [OF assms(1-5)] by simp

text \<open>The address of byte \<open>k\<close> of the block RAM in the uncached segment.\<close>

definition bram_addr :: "nat \<Rightarrow> u32" where "bram_addr k = 0xbfc00000 + of_nat k"

lemma bram_addr:
  assumes "k < 0x100000"
  shows "is_unmapped (bram_addr k)" "unat (ioremap (bram_addr k)) = 0x1fc00000 + k" "bram_addr k + 1 = bram_addr (Suc k)"
proof -
  have "unat (of_nat k :: u32) = k" using assms by (simp add: unat_of_nat take_bit_nat_eq_self)
  then have u: "unat (bram_addr k) = 0xbfc00000 + k"
    using assms unat_add_small [of "0xbfc00000" "of_nat k"] by (simp add: bram_addr_def)
  then show "is_unmapped (bram_addr k)" using assms by (simp add: unmapped_bounds)
  show "unat (ioremap (bram_addr k)) = 0x1fc00000 + k"
    using assms by (simp add: unat_ioremap u mod_if)
  show "bram_addr k + 1 = bram_addr (Suc k)" by (simp add: bram_addr_def)
qed

lemma write_cmdline_bram:
  assumes "board s" and "k + length cs < 0x100000"
  shows "\<exists>m b. write_cmdline mips32r1_defconfig (bram_addr k) cs s = Inr ((), s\<lparr>mmu_cache := m, bram := b\<rparr>) \<and>
     (\<forall>j. b j = (if k \<le> j \<and> j < k + length cs then cs ! (j - k) else if j = k + length cs then 0 else bram s j))"
  using assms
proof (induction cs arbitrary: k s)
  case Nil
  obtain m where "vaddr_write mips32r1_defconfig (bram_addr k) 1 0 s =
      Inr ((), s\<lparr>mmu_cache := m, bram := mem_write (bram s) k 1 0\<rparr>)"
    using vaddr_write_bram [of s "bram_addr k" k 1 0] bram_addr [of k] Nil.prems by auto
  moreover have "mem_write (bram s) k 1 0 j = (if j = k then 0 else bram s j)" for j
    by (auto simp: mem_write_def byte_of_def)
  ultimately show ?case by (auto intro!: exI [of _ m] exI [of _ "mem_write (bram s) k 1 0"])
next
  case (Cons c cs)
  obtain m where step: "vaddr_write mips32r1_defconfig (bram_addr k) 1 (scast c) s =
      Inr ((), s\<lparr>mmu_cache := m, bram := mem_write (bram s) k 1 (scast c)\<rparr>)" (is "_ = Inr ((), ?t)")
    using vaddr_write_bram [of s "bram_addr k" k 1 "scast c"] bram_addr [of k] Cons.prems by auto
  have "board ?t" using Cons.prems(1) by (simp add: board_def find_device_def)
  then obtain m' b where rec: "write_cmdline mips32r1_defconfig (bram_addr (Suc k)) cs ?t =
      Inr ((), ?t\<lparr>mmu_cache := m', bram := b\<rparr>)"
    and b: "\<And>j. b j = (if Suc k \<le> j \<and> j < Suc k + length cs then cs ! (j - Suc k)
        else if j = Suc k + length cs then 0 else bram ?t j)"
    using Cons.IH [of ?t "Suc k"] Cons.prems(2) by auto
  have "byte_of (scast c) 0 = c" by (rule bit_eqI) (auto simp: bit_byte_of bit_simps)
  then have "b j = (if k \<le> j \<and> j < k + length (c # cs) then (c # cs) ! (j - k)
      else if j = k + length (c # cs) then 0 else bram s j)" for j
    by (auto simp: b mem_write_def nth_Cons' less_Suc_eq)
  then show ?case
    using step rec bram_addr(3) [of k] Cons.prems(2)
    by (auto intro!: exI [of _ m'] exI [of _ b])
qed

lemma mem_read32_other:
  assumes "\<And>j. j < 4 \<Longrightarrow> m (a + j) = m' (a + j)"
  shows "mem_read32 m a = mem_read32 m' a"
  using assms [of 0] assms [of 1] assms [of 2] assms [of 3] by (simp add: mem_read32_def)

lemma write_bram_word:
  assumes "board s" and "k + 4 \<le> 0x100000"
  shows "\<exists>m. vaddr_write mips32r1_defconfig (bram_addr k) 4 v s =
     Inr ((), s\<lparr>mmu_cache := m, bram := mem_write (bram s) k 4 v\<rparr>)"
  using vaddr_write_bram [OF assms(1) bram_addr(1,2) assms(2), of v] assms(2) by simp

lemma init_cpu_cmdline:
  assumes "board s" and "cs \<noteq> []" and "length cs < 0xEFFF8"
  shows "\<exists>m b. init_cpu mips32r1_defconfig cs entry s =
       Inr ((), set_gpr 5 0xbfc10000 (set_gpr 4 1 (s\<lparr>cpu := init_regs mips32r1_defconfig entry (cpu s), mmu_cache := m, bram := b\<rparr>))) \<and>
     mem_read32 b 0x10000 = 0xbfc10008 \<and> mem_read32 b 0x10004 = 0 \<and>
     (\<forall>j < length cs. b (0x10008 + j) = cs ! j) \<and> b (0x10008 + length cs) = 0 \<and> (\<forall>j < 0x10000. b j = bram s j)"
proof -
  let ?cfg = mips32r1_defconfig
  let ?s0 = "clear_mmu_cache (on_cpu (init_regs ?cfg entry) s)"
  have addr: "0xbfc10000 = bram_addr 0x10000" "0xbfc10004 = bram_addr 0x10004" "0xbfc10008 = bram_addr 0x10008"
    by (simp_all add: bram_addr_def)
  have cfg: "CONFIG_CMDLINE_ADDR ?cfg = 0xbfc10000" by (simp add: mips32r1_defconfig_def)
  have b0: "board ?s0" using assms(1) by (simp add: board_def find_device_def)
  obtain m1 where w1: "vaddr_write ?cfg 0xbfc10000 4 0xbfc10008 ?s0 =
      Inr ((), ?s0\<lparr>mmu_cache := m1, bram := mem_write (bram s) 0x10000 4 0xbfc10008\<rparr>)" (is "_ = Inr ((), ?s1)")
    using write_bram_word [OF b0, of "0x10000"] unfolding addr(1) by auto
  have b1: "board ?s1" using b0 by (simp add: board_def find_device_def)
  obtain m2 where w2: "vaddr_write ?cfg 0xbfc10004 4 0 ?s1 =
      Inr ((), ?s1\<lparr>mmu_cache := m2, bram := mem_write (bram ?s1) 0x10004 4 0\<rparr>)" (is "_ = Inr ((), ?s2)")
    using write_bram_word [OF b1, of "0x10004"] unfolding addr(2) by auto
  have b2: "board ?s2" using b1 by (simp add: board_def find_device_def)
  obtain m3 b where w3: "write_cmdline ?cfg 0xbfc10008 cs ?s2 = Inr ((), ?s2\<lparr>mmu_cache := m3, bram := b\<rparr>)"
    and b: "\<And>j. b j = (if 0x10008 \<le> j \<and> j < 0x10008 + length cs then cs ! (j - 0x10008)
        else if j = 0x10008 + length cs then 0 else bram ?s2 j)"
    using write_cmdline_bram [OF b2, of "0x10008" cs] assms(3) unfolding addr(3) by auto
  have "mem_read32 b 0x10000 = mem_read32 (bram ?s1) 0x10000" "mem_read32 b 0x10004 = mem_read32 (bram ?s2) 0x10004"
    by (rule mem_read32_other; simp add: b mem_write_def)+
  then have "mem_read32 b 0x10000 = 0xbfc10008 \<and> mem_read32 b 0x10004 = 0"
    using mem_read_write_same [of 4 "bram s" "0x10000" "0xbfc10008"]
      mem_read_write_same [of 4 "bram ?s1" "0x10004" 0]
    by (simp add: mem_read_4 [symmetric] take_bit_word_eq_self)
  moreover have "init_cpu ?cfg cs entry s =
      Inr ((), set_gpr 5 0xbfc10000 (set_gpr 4 1 (s\<lparr>cpu := init_regs ?cfg entry (cpu s), mmu_cache := m3, bram := b\<rparr>)))"
    using assms(2) w1 w2 w3 by (simp add: init_cpu_def cfg) (simp add: on_cpu_def clear_mmu_cache_def)
  moreover have "(\<forall>j < length cs. b (0x10008 + j) = cs ! j) \<and> b (0x10008 + length cs) = 0 \<and> (\<forall>j < 0x10000. b j = bram s j)"
    by (simp add: b mem_write_def)
  ultimately show ?thesis by blast
qed

lemma init_regs_boot:
  "pc (init_regs cfg entry c) = entry" "cp0_get status_BEV (init_regs cfg entry c) = 1"
  "cp0_get status_IM (init_regs cfg entry c) = 0" "gpr (init_regs cfg entry c) = gpr c"
  by (simp_all add: init_regs_def Let_def)

lemma spi_irq_off_zero: "spi_irq_off zero_cpu = zero_cpu"
  by (simp add: spi_irq_off_def zero_cpu_def cp0_set.simps cp0_get.simps bf_set_def bf_get_def fun_upd_idem)

lemma board_exists: obtains t where "board t" and "cpu t = zero_cpu"
proof -
  obtain m where "\<forall>a. find_device a ((spi_up reset_state)\<lparr>memory_regions := m\<rparr>) = defconfig_device (ioremap a)"
    using init_mmio_defconfig [OF defconfig_devs globals_regions] by blast
  then show ?thesis
    using that [of "(spi_up reset_state)\<lparr>memory_regions := m\<rparr>"]
    by (simp add: board_def spi_up_def spi_irq_off_zero nemu_globals_def)
qed

lemma board_set_gpr [simp]: "board (set_gpr r v s) = board s"
  by (simp add: board_def find_device_def set_gpr_def)

lemma ioremap_aligned:
  assumes "ioremap a = ioremap b" and "a AND 3 = 0"
  shows "b AND 3 = 0"
proof -
  have "take_bit 2 (take_bit 29 a) = take_bit 2 (take_bit 29 b)" using assms(1) by (simp add: ioremap_take_bit)
  then show ?thesis using assms(2) by (simp add: and_mask_u32)
qed

section \<open>Register 0\<close>

text \<open>The outcome of a run up to what it left in register 0.\<close>

fun forget_zero :: "unit res \<Rightarrow> unit res" where
  "forget_zero (Inr (x, s)) = Inr (x, set_gpr 0 0 s)"
| "forget_zero (Inl (f, s)) = Inl (f, set_gpr 0 0 s)"

lemma set_gpr_set_gpr [simp]: "set_gpr r v (set_gpr r w s) = set_gpr r v s"
  by (simp add: set_gpr_def)

lemma set_gpr_other [simp]:
  "nemu_state (set_gpr r v s) = nemu_state s" "bram (set_gpr r v s) = bram s" "ddr (set_gpr r v s) = ddr s" "pc (cpu (set_gpr r v s)) = pc (cpu s)"
  "set_gpr r v (s\<lparr>nemu_state := n\<rparr>) = (set_gpr r v s)\<lparr>nemu_state := n\<rparr>"
  by (simp_all add: set_gpr_def on_cpu_def)

lemma cp0_upd_gpr [simp]:
  "cpr_set r v (c\<lparr>gpr := g\<rparr>) = (cpr_set r v c)\<lparr>gpr := g\<rparr>"
  "cp0_set f v (c\<lparr>gpr := g\<rparr>) = (cp0_set f v c)\<lparr>gpr := g\<rparr>"
  by (cases f; simp add: cpr_set_def cp0_set.simps)+

lemma gpr_upd_last:
  "c\<lparr>gpr := g, has_exception := b\<rparr> = c\<lparr>has_exception := b, gpr := g\<rparr>"
  "c\<lparr>gpr := g, is_delayslot := b\<rparr> = c\<lparr>is_delayslot := b, gpr := g\<rparr>"
  "c\<lparr>gpr := g, br_target := w\<rparr> = c\<lparr>br_target := w, gpr := g\<rparr>"
  "c\<lparr>gpr := g, pc := w\<rparr> = c\<lparr>pc := w, gpr := g\<rparr>"
  by simp_all

lemma enter_exception_upd_gpr [simp]:
  "enter_exception cfg code extra (c\<lparr>gpr := g\<rparr>) = (enter_exception cfg code extra c)\<lparr>gpr := g\<rparr>"
  by (cases "CONFIG_MARCH_NOOP cfg \<or> cp0_get status_EXL c = 0"; cases "CONFIG_DELAYSLOT cfg \<and> is_delayslot c")
     (auto simp: enter_exception_def Let_def gpr_upd_last)

lemma vector_of_upd_gpr [simp]: "vector_of cfg code extra (c\<lparr>gpr := g\<rparr>) = vector_of cfg code extra c"
  by (simp add: vector_of_def)

lemma cpu_step_unaligned:
  assumes "CONFIG_EXCEPTION cfg" and "pc (cpu s) AND 0x3 \<noteq> 0"
  shows "cpu_step fo cfg s = Inr ((), clear_mmu_cache (on_cpu (\<lambda>c.
     (enter_exception cfg EXC_AdEL 0 (cpr_set cp0_badvaddr (pc c) c))
       \<lparr>has_exception := False, pc := vector_of cfg EXC_AdEL 0 (cpr_set cp0_badvaddr (pc c) c)\<rparr>) s))"
  using assms
  by (simp add: cpu_step_def raise_exception_def check_exception_def clear_mmu_cache_on_cpu)

lemma cpu_step_zero_aligned:
  "\<not> (CONFIG_EXCEPTION cfg \<and> pc (cpu s) AND 0x3 \<noteq> 0) \<Longrightarrow> cpu_step fo cfg (set_gpr 0 v s) = cpu_step fo cfg s"
  by (auto simp: cpu_step_def exec_entry_def)

lemma cpu_step_zero_unaligned:
  assumes "CONFIG_EXCEPTION cfg" and "pc (cpu s) AND 0x3 \<noteq> 0"
  shows "\<exists>t. cpu_step fo cfg s = Inr ((), t) \<and> cpu_step fo cfg (set_gpr 0 v s) = Inr ((), set_gpr 0 v t)"
  using assms by (simp add: cpu_step_unaligned) (simp add: set_gpr_def clear_mmu_cache_on_cpu)

lemma cpu_loop_zero: "forget_zero (cpu_loop fo cfg n (set_gpr 0 v s)) = forget_zero (cpu_loop fo cfg n s)"
proof (induction n arbitrary: s)
  case (Suc n)
  show ?case
  proof (cases "CONFIG_EXCEPTION cfg \<and> pc (cpu s) AND 0x3 \<noteq> 0")
    case True
    then show ?thesis using cpu_step_zero_unaligned [of cfg s fo v] Suc by auto
  qed (simp add: cpu_step_zero_aligned)
qed simp

section \<open>Runs\<close>

text \<open>The end of a run: the state it is left in, or the failure that \<^verbatim>\<open>setjmp\<close> caught.\<close>

lemma cpu_loop_work_mode:
  assumes "cpu_loop fo cfg n s = Inr ((), t)"
  shows "work_mode t = work_mode s"
  using frame_cpu_loop [of s s fo cfg n] assms by (simp add: sys_frame_def)

lemma cpu_exec_compose:
  assumes "unat m + unat n < 2 ^ 64"
    and "\<And>t. cpu_loop fo cfg (unat m) (s\<lparr>nemu_state := NEMU_RUNNING\<rparr>) = Inr ((), t) \<Longrightarrow> nemu_state t \<noteq> NEMU_STOP"
  shows "bind_r (cpu_exec fo cfg m s) (\<lambda>_. cpu_exec fo cfg n) = cpu_exec fo cfg (m + n) s"
proof (cases "nemu_state s = NEMU_END")
  case False
  have add: "unat (m + n) = unat m + unat n" using assms(1) by (simp add: unat_word_ariths)
  let ?s = "s\<lparr>nemu_state := NEMU_RUNNING\<rparr>"
  show ?thesis
  proof (cases "cpu_loop fo cfg (unat m) ?s")
    case (Inl p)
    then show ?thesis using False by (cases p) (simp add: cpu_exec_def add cpu_loop_add)
  next
    case (Inr p)
    then obtain t where t: "cpu_loop fo cfg (unat m) ?s = Inr ((), t)" by (cases p) auto
    have wm: "work_mode t = work_mode s" using cpu_loop_work_mode [OF t] by simp
    show ?thesis
    proof (cases "nemu_state t")
      case NEMU_STOP
      then show ?thesis using assms(2) [OF t] by simp
    next
      case NEMU_RUNNING
      then have eq: "t\<lparr>nemu_state := NEMU_RUNNING\<rparr> = t" by simp
      show ?thesis
        using False NEMU_RUNNING t wm
        by (cases "cpu_loop fo cfg (unat n) t") (auto simp: cpu_exec_def add cpu_loop_add eq)
    next
      case NEMU_END
      then have "m \<noteq> 0" using t by auto
      then have "unat m \<noteq> 0" by (simp add: unat_eq_0)
      then show ?thesis using False NEMU_END t by (simp add: cpu_exec_def add cpu_loop_add)
    qed
  qed
qed (simp add: cpu_exec_def)

end
