(* ===== verification/Mmu_Cache.thy ===== *)
theory Mmu_Cache
  imports Machine
begin

text \<open>
  The cached translations of \<^verbatim>\<open>src/cpu/mmu-cache.h\<close> are invisible: as long as they agree with the
  TLB and the segments, an access through them is the access without them.
\<close>

section \<open>Translation without faults\<close>

text \<open>The physical address where the translation of \<open>v\<close> raises no exception.\<close>

definition vtrans :: "config \<Rightarrow> nemu \<Rightarrow> mmu_rw \<Rightarrow> u32 \<Rightarrow> u32 option" where
  "vtrans cfg s rw v =
     (let seg = drop_bit 29 v AND 7
      in if seg = 4 \<or> seg = 5 then Some (ioremap v)
         else if seg = 7 then None
         else if \<not> CONFIG_PAGING cfg \<or> seg \<noteq> 6 \<and> cp0_get status_ERL (cpu s) \<noteq> 0 then Some v
         else case tlb_scan (drop_bit 13 v) (cp0_get entry_hi_asid (cpu s)) 0 (tlb s) of
                Inr (Some (i, t)) \<Rightarrow>
                  (let p = phyn_for v t
                   in if phyn_v p \<and> (phyn_d p \<or> rw = MMU_LOAD) then Some (ioremap (frame_addr p v)) else None)
              | _ \<Rightarrow> None)"

abbreviation (input) attr_of :: "mmu_rw \<Rightarrow> mmu_attr_t" where
  "attr_of rw \<equiv> \<lparr>rwbit = rw, exbit = True, dirty = False, miss = False\<rparr>"

lemma vtrans_ok:
  assumes "vtrans cfg s rw v = Some p"
  obtains a where "prot_addr_with_attr cfg v (attr_of rw) s = Inr ((p, a), s)"
    and "dirty a \<Longrightarrow> vtrans cfg s MMU_STORE v = Some p"
  using assms that
  by (fastforce simp: vtrans_def prot_addr_with_attr_def translate_ioremap_def page_translate_eq Let_def
      split: if_splits sum.splits option.splits prod.splits)

lemma vtrans_load: "vtrans cfg s MMU_STORE v = Some p \<Longrightarrow> vtrans cfg s MMU_LOAD v = Some p"
  by (auto simp: vtrans_def Let_def split: if_splits sum.splits option.splits)

lemma vtrans_fault:
  assumes "vtrans cfg s rw v = None" and "prot_addr_with_attr cfg v (attr_of rw) s = Inr ((p, a), t)"
  shows "has_exception (cpu t) \<and> (\<exists>u. t = clear_mmu_cache u)"
proof -
  have code: "(if rw = MMU_LOAD then EXC_TLBL else EXC_TLBS) < 0x10000"
      "(if rw = MMU_LOAD then EXC_TLBL else EXC_TLBS) \<noteq> EXC_TRAP" by simp_all
  have ex: "has_exception (enter_exception cfg c e d)" for c e d by (simp add: enter_exception_def Let_def)
  show ?thesis
    using assms ex
    by (cases rw) (auto simp: vtrans_def prot_addr_with_attr_def translate_ioremap_def page_translate_eq Let_def bind_r_eq_Inr
        tlb_exception_eq code split: if_splits sum.splits option.splits prod.splits)
qed

section \<open>Pages\<close>

definition page_of :: "u32 \<Rightarrow> u32" where
  "page_of v = v AND NOT 0xFFF"

lemma bit_page_of: "bit (page_of v) n \<longleftrightarrow> 12 \<le> n \<and> bit v n"
proof -
  have "page_of v = v AND NOT (mask 12)" by (simp add: page_of_def mask_eq_exp_minus_1)
  then show ?thesis by (auto simp: bit_simps dest: bit_imp_le_length)
qed

lemma bit_offset: "bit (v AND 0xFFF :: u32) n \<longleftrightarrow> n < 12 \<and> bit v n"
proof -
  have "v AND 0xFFF = take_bit 12 v" by (simp add: and_mask_u32)
  then show ?thesis by (auto simp: bit_simps)
qed

lemma page_offset_split: "page_of v + (v AND 0xFFF) = v"
proof -
  have "page_of v + (v AND 0xFFF) = page_of v OR (v AND 0xFFF)"
    by (rule disjunctive_add) (auto simp: bit_page_of bit_offset)
  also have "\<dots> = v" by (rule bit_eqI) (auto simp: bit_page_of bit_offset bit_or_iff)
  finally show ?thesis .
qed

text \<open>The index and the tag of an entry identify a page.\<close>

lemma bit_cache_id: "bit (mmu_cache_id v) n \<longleftrightarrow> bit v (24 + n)"
  by (simp add: mmu_cache_id_def bit_drop_bit_eq)

lemma cache_index: "mmu_cache_index v = unat (take_bit 12 (drop_bit 12 v))"
  by (simp add: mmu_cache_index_def and_mask_u32)

lemma same_entry:
  assumes "mmu_cache_index v = mmu_cache_index w" and "mmu_cache_id v = mmu_cache_id w"
  shows "page_of v = page_of w"
proof (rule bit_eqI)
  fix n
  have idx: "take_bit 12 (drop_bit 12 v) = take_bit 12 (drop_bit 12 w)"
    using assms(1) by (simp add: cache_index word_unat_eqI)
  show "bit (page_of v) n = bit (page_of w) n"
  proof (cases "n < 24")
    case True
    have "bit (take_bit 12 (drop_bit 12 v)) (n - 12) = bit (take_bit 12 (drop_bit 12 w)) (n - 12)" by (simp only: idx)
    then show ?thesis using True by (auto simp: bit_page_of bit_take_bit_iff bit_drop_bit_eq)
  next
    case False
    have "bit (mmu_cache_id v) (n - 24) = bit (mmu_cache_id w) (n - 24)" by (simp only: assms(2))
    then show ?thesis using False by (simp add: bit_page_of bit_cache_id)
  qed
qed

lemma no_entry: "mmu_cache_id v \<noteq> 0xFFFFFFFF"
proof
  assume "mmu_cache_id v = 0xFFFFFFFF"
  then have "bit (mmu_cache_id v) 31" by simp
  then show False by (auto simp: bit_cache_id dest: bit_imp_le_length)
qed

text \<open>Translation works page by page.\<close>

lemma bit_join: "bit (page_of p + (w AND 0xFFF)) n \<longleftrightarrow> (if n < 12 then bit w n else bit p n)"
proof -
  have "page_of p + (w AND 0xFFF) = page_of p OR (w AND 0xFFF)"
    by (rule disjunctive_add) (auto simp: bit_page_of bit_offset)
  then show ?thesis by (auto simp: bit_page_of bit_offset bit_or_iff)
qed

lemma page_bits:
  assumes "page_of v = page_of w" and "12 \<le> n"
  shows "bit v n = bit w n"
  using assms bit_page_of [of v n] bit_page_of [of w n] by simp

lemma page_drop:
  assumes "page_of v = page_of w" and "12 \<le> n"
  shows "drop_bit n v = drop_bit n w"
  by (rule bit_eqI) (use page_bits [OF assms(1)] assms(2) in \<open>simp add: bit_drop_bit_eq\<close>)

lemma join_ioremap:
  assumes "page_of v = page_of w"
  shows "ioremap w = page_of (ioremap v) + (w AND 0xFFF)"
  by (rule bit_eqI) (use page_bits [OF assms] in \<open>auto simp: bit_join ioremap_take_bit bit_take_bit_iff\<close>)

lemma join_frame: "ioremap (frame_addr q w) = page_of (ioremap (frame_addr q v)) + (w AND 0xFFF)"
  by (rule bit_eqI) (auto simp: bit_join ioremap_take_bit frame_addr_def bit_simps)

lemma join_self:
  assumes "page_of v = page_of w"
  shows "w = page_of v + (w AND 0xFFF)"
  unfolding assms by (rule page_offset_split [symmetric])

lemma vtrans_page:
  assumes "vtrans cfg s rw v = Some p" and "page_of v = page_of w"
  shows "vtrans cfg s rw w = Some (page_of p + (w AND 0xFFF))"
proof -
  have "drop_bit 29 w = drop_bit 29 v" "drop_bit 13 w = drop_bit 13 v" using page_drop [OF assms(2)] by simp_all
  moreover have "phyn_for w t = phyn_for v t" for t using page_bits [OF assms(2), of 12] by (simp add: phyn_for_def)
  ultimately show ?thesis
    using assms(1) join_ioremap [OF assms(2)] join_frame [of _ w v] join_self [OF assms(2)]
    by (auto simp: vtrans_def Let_def split: if_splits sum.splits option.splits)
qed

lemma page_of_join: "page_of (page_of p + (w AND 0xFFF)) = page_of p"
  by (rule bit_eqI) (simp add: bit_page_of bit_join)

lemma vtrans_offset:
  assumes "vtrans cfg s rw v = Some p"
  shows "p AND 0xFFF = v AND 0xFFF"
proof -
  have p: "p = page_of p + (v AND 0xFFF)" using vtrans_page [OF assms refl] assms by simp
  have "bit p n = bit v n" if "n < 12" for n using that bit_join [of p v n] p by simp
  then show ?thesis by (intro bit_eqI) (auto simp: bit_offset)
qed

lemma find_device_same_page:
  assumes "page_of p = page_of q"
  shows "find_device p s = find_device q s"
proof -
  have "drop_bit 12 (ioremap p) = drop_bit 12 (ioremap q)"
    by (rule bit_eqI) (use page_bits [OF assms] in \<open>simp add: bit_drop_bit_eq ioremap_take_bit bit_take_bit_iff\<close>)
  then have "unat (drop_bit 12 (ioremap p)) = unat (drop_bit 12 (ioremap q))" by simp
  then show ?thesis by (simp add: find_device_page drop_bit_eq_div unat_div_distrib)
qed

section \<open>Agreement with the TLB\<close>

fun ram_of :: "device \<Rightarrow> ram option" where
  "ram_of ddr_dev = Some Ram_ddr"
| "ram_of bram_dev = Some Ram_bram"
| "ram_of d = None"

fun ram_size :: "ram \<Rightarrow> nat" where
  "ram_size Ram_ddr = 0x10000000"
| "ram_size Ram_bram = 0x100000"

definition entry_ok :: "config \<Rightarrow> nemu \<Rightarrow> u32 \<Rightarrow> mmu_cache_t \<Rightarrow> bool" where
  "entry_ok cfg s v e \<longleftrightarrow> (\<exists>p d r. vtrans cfg s MMU_LOAD v = Some p \<and> find_device p s = Some d \<and> ram_of d = Some r \<and>
     unat (page_of p - dev_start cfg d) \<le> ram_size r \<and>
     mc_ptr e = Some (r, unat (page_of p - dev_start cfg d)) \<and>
     (mc_can_write e \<longrightarrow> vtrans cfg s MMU_STORE v = Some p))"

definition coherent :: "config \<Rightarrow> nemu \<Rightarrow> bool" where
  "coherent cfg s \<longleftrightarrow> (\<forall>v. mc_id (mmu_cache s (mmu_cache_index v)) = mmu_cache_id v \<longrightarrow>
     entry_ok cfg s v (mmu_cache s (mmu_cache_index v)))"

text \<open>The memories fill whole pages of the region table.\<close>

definition regions_ok :: "config \<Rightarrow> nemu \<Rightarrow> bool" where
  "regions_ok cfg s \<longleftrightarrow> (\<forall>p d r. find_device p s = Some d \<and> ram_of d = Some r \<and>
     unat (page_of p - dev_start cfg d) \<le> ram_size r \<longrightarrow>
     4096 dvd unat (dev_start cfg d) \<and> unat (page_of p - dev_start cfg d) + 4096 \<le> ram_size r)"

text \<open>All that the agreement depends on.\<close>

definition coh_frame :: "nemu \<Rightarrow> nemu \<Rightarrow> bool" where
  "coh_frame s t \<longleftrightarrow> tlb t = tlb s \<and> memory_regions t = memory_regions s \<and> mmu_cache t = mmu_cache s \<and>
     cp0_get status_ERL (cpu t) = cp0_get status_ERL (cpu s) \<and>
     cp0_get entry_hi_asid (cpu t) = cp0_get entry_hi_asid (cpu s)"

lemma vtrans_cong:
  assumes "tlb t = tlb s" and "cp0_get status_ERL (cpu t) = cp0_get status_ERL (cpu s)"
    and "cp0_get entry_hi_asid (cpu t) = cp0_get entry_hi_asid (cpu s)"
  shows "vtrans cfg t = vtrans cfg s"
  by (intro ext) (simp only: vtrans_def assms)

lemma coh_frame_coherent: "coh_frame s t \<Longrightarrow> coherent cfg t = coherent cfg s"
  using vtrans_cong [of t s cfg] by (simp add: coh_frame_def coherent_def entry_ok_def find_device_def)

lemma cache_index_less: "mmu_cache_index v < 4096"
proof -
  have "unat (take_bit 12 (drop_bit 12 v)) = take_bit 12 (unat (drop_bit 12 v))" by (rule unsigned_take_bit_eq)
  then show ?thesis using take_bit_nat_less_exp [of 12 "unat (drop_bit 12 v)"] by (simp add: cache_index)
qed

lemma coherent_clear: "coherent cfg (clear_mmu_cache s)"
  using no_entry cache_index_less by (simp add: coherent_def clear_mmu_cache_def)

section \<open>Devices\<close>

named_theorems coh_intros \<open>what a device keeps of the agreement\<close>

lemma coh_frame_refl [simp]: "coh_frame s s"
  by (simp add: coh_frame_def)

lemma coh_frame_upd [simp]:
  "coh_frame s (t\<lparr>ddr := m\<rparr>) = coh_frame s t" "coh_frame s (t\<lparr>bram := m\<rparr>) = coh_frame s t"
  "coh_frame s (t\<lparr>nemu_state := n\<rparr>) = coh_frame s t" "coh_frame s (t\<lparr>stdout := out\<rparr>) = coh_frame s t"
  "coh_frame s (t\<lparr>spi := p\<rparr>) = coh_frame s t" "coh_frame s (t\<lparr>host_time := w\<rparr>) = coh_frame s t"
  "coh_frame s (on_ulite f t) = coh_frame s t" "coh_frame s (on_spi g t) = coh_frame s t"
  by (simp_all add: coh_frame_def on_spi_def)

lemma coh_bind [coh_intros]:
  "keeps (coh_frame s) r \<Longrightarrow> (\<And>x t. coh_frame s t \<Longrightarrow> keeps (coh_frame s) (f x t)) \<Longrightarrow> keeps (coh_frame s) (bind_r r f)"
  by (intro keeps_bind) auto

lemma coh_ends [coh_intros]:
  "coh_frame s t \<Longrightarrow> keeps (coh_frame s) (Inr (x, t))" "coh_frame s t \<Longrightarrow> keeps (coh_frame s) (Inl (f, t))"
  by simp_all

lemmas coh_splits [coh_intros] = frame_if frame_case_option frame_case_prod

lemma coh_if_state [coh_intros]:
  "(b \<Longrightarrow> coh_frame s x) \<Longrightarrow> (\<not> b \<Longrightarrow> coh_frame s y) \<Longrightarrow> coh_frame s (if b then x else y)"
  by simp

lemma coh_set_irq [coh_intros]: "coh_frame s t \<Longrightarrow> keeps (coh_frame s) (nemu_set_irq n v t)"
  by (simp add: nemu_set_irq_def Let_def coh_frame_def)

lemma coh_lift_spi [coh_intros]: "coh_frame s t \<Longrightarrow> keeps (coh_frame s) (lift_spi f t)"
  by (auto simp: lift_spi_def keeps_def split: sum.splits)

lemma coh_check_ioaddr [coh_intros]: "coh_frame s t \<Longrightarrow> keeps (coh_frame s) (check_ioaddr a n sz t)"
  by (simp add: check_ioaddr_def)

lemma coh_ulite [coh_intros]:
  "coh_frame s t \<Longrightarrow> keeps (coh_frame s) (stop_cpu_check ch t)"
  "coh_frame s t \<Longrightarrow> keeps (coh_frame s) (xlnx_ulite_peek a len t)"
  by (auto simp: stop_cpu_check_def xlnx_ulite_peek_def Let_def split: option.splits list.splits)

lemma coh_spi [coh_intros]:
  "coh_frame s t \<Longrightarrow> keeps (coh_frame s) (xlnx_spi_update_irq t)"
  "coh_frame s t \<Longrightarrow> keeps (coh_frame s) (xlnx_spi_do_reset t)"
  subgoal unfolding xlnx_spi_update_irq_def Let_def by (intro coh_intros) simp_all
  subgoal unfolding xlnx_spi_do_reset_def xlnx_spi_update_irq_def Let_def by (intro coh_intros) simp_all
  done

lemma coh_devices [coh_intros]:
  "coh_frame s t \<Longrightarrow> keeps (coh_frame s) (ddr_read a len t)" "coh_frame s t \<Longrightarrow> keeps (coh_frame s) (ddr_write a len v t)"
  "coh_frame s t \<Longrightarrow> keeps (coh_frame s) (bram_read a len t)" "coh_frame s t \<Longrightarrow> keeps (coh_frame s) (bram_write a len v t)"
  "coh_frame s t \<Longrightarrow> keeps (coh_frame s) (blackhole_read a len t)"
  "coh_frame s t \<Longrightarrow> keeps (coh_frame s) (blackhole_write a len v t)"
  "coh_frame s t \<Longrightarrow> keeps (coh_frame s) (nemu_trap_write a len v t)"
  "coh_frame s t \<Longrightarrow> keeps (coh_frame s) (nemu_clock_read a len t)"
  "coh_frame s t \<Longrightarrow> keeps (coh_frame s) (xlnx_ulite_read a len t)"
  "coh_frame s t \<Longrightarrow> keeps (coh_frame s) (xlnx_ulite_write a len v t)"
  "coh_frame s t \<Longrightarrow> keeps (coh_frame s) (xlnx_spi_read a len t)"
  "coh_frame s t \<Longrightarrow> keeps (coh_frame s) (xlnx_spi_write a len v t)"
  unfolding ddr_read_def ddr_write_def bram_read_def bram_write_def blackhole_read_def blackhole_write_def
    nemu_trap_write_def nemu_clock_read_def xlnx_ulite_read_def xlnx_ulite_write_def xlnx_spi_read_def xlnx_spi_write_def
    Let_def case_prod_unfold
  by (intro coh_intros; simp)+

lemma coh_dev:
  "dev_read d = Some rd \<Longrightarrow> coh_frame s t \<Longrightarrow> keeps (coh_frame s) (rd a len t)"
  "dev_write d = Some wr \<Longrightarrow> coh_frame s t \<Longrightarrow> keeps (coh_frame s) (wr a len v t)"
  by (cases d; auto intro: coh_intros)+

section \<open>Accesses\<close>

lemma cache_entry_upd: "(e :: mmu_cache_t)\<lparr>mc_id := i, mc_ptr := q, mc_can_write := b\<rparr> = \<lparr>mc_id = i, mc_ptr = q, mc_can_write = b\<rparr>"
  by simp

lemma update_mmu_cache_Inr:
  assumes "update_mmu_cache cfg v p d w s = Inr ((), t)"
  shows "t = s \<or> (\<exists>r. ram_of d = Some r \<and> unat (page_of p - dev_start cfg d) \<le> ram_size r \<and>
     t = s\<lparr>mmu_cache := (mmu_cache s)(mmu_cache_index v :=
       \<lparr>mc_id = mmu_cache_id v, mc_ptr = Some (r, unat (page_of p - dev_start cfg d)), mc_can_write = w\<rparr>)\<rparr>)"
proof (cases "has_exception (cpu s)")
  case False
  then show ?thesis
    using assms
    by (cases d) (auto simp: update_mmu_cache_def Let_def ddr_map_def bram_map_def bind_r_eq_Inr check_ioaddr_def
        page_of_def word_le_nat_alt cache_entry_upd split: if_splits)
qed (use assms in \<open>simp add: update_mmu_cache_def\<close>)

lemma update_keeps_coherent:
  assumes "coherent cfg s" and "vtrans cfg s MMU_LOAD v = Some p" and "find_device p s = Some d"
    and "w \<Longrightarrow> vtrans cfg s MMU_STORE v = Some p" and "update_mmu_cache cfg v p d w s = Inr ((), t)"
  shows "coherent cfg t"
  using update_mmu_cache_Inr [OF assms(5)]
proof (elim disjE exE conjE)
  fix r
  define e where "e = \<lparr>mc_id = mmu_cache_id v, mc_ptr = Some (r, unat (page_of p - dev_start cfg d)), mc_can_write = w\<rparr>"
  assume r: "ram_of d = Some r" "unat (page_of p - dev_start cfg d) \<le> ram_size r"
    and "t = s\<lparr>mmu_cache := (mmu_cache s)(mmu_cache_index v :=
       \<lparr>mc_id = mmu_cache_id v, mc_ptr = Some (r, unat (page_of p - dev_start cfg d)), mc_can_write = w\<rparr>)\<rparr>"
  then have t: "t = s\<lparr>mmu_cache := (mmu_cache s)(mmu_cache_index v := e)\<rparr>" by (simp add: e_def)
  have same: "entry_ok cfg t x y = entry_ok cfg s x y" for x y
    using vtrans_cong [of t s cfg] by (simp add: entry_ok_def t find_device_def)
  have "entry_ok cfg s x e" if "page_of x = page_of v" for x
  proof -
    let ?q = "page_of p + (x AND 0xFFF)"
    have "vtrans cfg s MMU_LOAD x = Some ?q" "w \<longrightarrow> vtrans cfg s MMU_STORE x = Some ?q"
      using vtrans_page [OF assms(2), of x] vtrans_page [OF assms(4), of x] that by simp_all
    moreover have "find_device ?q s = Some d" "page_of ?q = page_of p"
      using find_device_same_page [of ?q p s] page_of_join [of p x] assms(3) by simp_all
    ultimately show ?thesis using r by (auto simp: entry_ok_def e_def)
  qed
  then have "entry_ok cfg s x e" if "mmu_cache_index x = mmu_cache_index v" "mc_id e = mmu_cache_id x" for x
    using that same_entry [of x v] by (simp add: e_def)
  then show "coherent cfg t"
    using assms(1) unfolding coherent_def same by (auto simp: t)
qed (use assms(1) in simp)

lemma case_option_Inr: "(case x of None \<Rightarrow> Inl e | Some y \<Rightarrow> f y) = Inr z \<longleftrightarrow> (\<exists>y. x = Some y \<and> f y = Inr z)"
  by (cases x) simp_all

lemma vaddr_read_coherent:
  assumes "coherent cfg s" and "vaddr_read cfg v len s = Inr (x, t)"
  shows "coherent cfg t"
proof (cases "CONFIG_MMU_CACHE cfg \<and> mc_id (mmu_cache s (mmu_cache_index v)) = mmu_cache_id v")
  case True
  then show ?thesis
    using assms by (cases "mc_ptr (mmu_cache s (mmu_cache_index v))") (auto simp: vaddr_read_def split: if_splits)
next
  case False
  then obtain p a u d rd u' where
    steps: "prot_addr_with_attr cfg v (attr_of MMU_LOAD) s = Inr ((p, a), u)" "find_device p u = Some d"
      "dev_read d = Some rd" "update_mmu_cache cfg v p d (dirty a) u = Inr ((), u')"
      "rd (p - dev_start cfg d) len u' = Inr (x, t)"
    using assms(2) by (auto simp: vaddr_read_def Let_def bind_r_eq_Inr case_option_Inr split: if_splits)
  have frame: "coh_frame u' t" using coh_dev(1) [OF steps(3), of u' u'] steps(5) by (metis coh_frame_refl keeps_Inr)
  have "coherent cfg u'"
  proof (cases "vtrans cfg s MMU_LOAD v")
    case None
    then have "has_exception (cpu u)" "\<exists>w. u = clear_mmu_cache w" using vtrans_fault [OF None steps(1)] by simp_all
    then show ?thesis using steps(4) coherent_clear by (auto simp: update_mmu_cache_def)
  next
    case (Some q)
    then obtain b where "prot_addr_with_attr cfg v (attr_of MMU_LOAD) s = Inr ((q, b), s)"
        "dirty b \<Longrightarrow> vtrans cfg s MMU_STORE v = Some q" by (rule vtrans_ok) blast
    then show ?thesis using update_keeps_coherent [OF assms(1) Some, of d "dirty b" u'] steps(1,2,4) by auto
  qed
  then show ?thesis using coh_frame_coherent [OF frame] by simp
qed

lemma vaddr_write_coherent:
  assumes "coherent cfg s" and "vaddr_write cfg v len y s = Inr (x, t)"
  shows "coherent cfg t"
proof (cases "CONFIG_MMU_CACHE cfg \<and> mc_id (mmu_cache s (mmu_cache_index v)) = mmu_cache_id v \<and>
    mc_can_write (mmu_cache s (mmu_cache_index v))")
  case True
  have "coh_frame s (ram_put r m s)" for r m by (cases r) simp_all
  then have "coherent cfg (ram_put r m s)" for r m using coh_frame_coherent assms(1) by blast
  then show ?thesis
    using assms(2) True
    by (cases "mc_ptr (mmu_cache s (mmu_cache_index v))") (auto simp: vaddr_write_def split: if_splits)
next
  case False
  then obtain p a u d wr u' where
    steps: "prot_addr_with_attr cfg v (attr_of MMU_STORE) s = Inr ((p, a), u)" "find_device p u = Some d"
      "dev_write d = Some wr" "update_mmu_cache cfg v p d True u = Inr ((), u')"
      "wr (p - dev_start cfg d) len y u' = Inr (x, t)"
    using assms(2) by (auto simp: vaddr_write_def prot_addr_def Let_def bind_r_eq_Inr case_option_Inr split: if_splits)
  have frame: "coh_frame u' t" using coh_dev(2) [OF steps(3), of u' u'] steps(5) by (metis coh_frame_refl keeps_Inr)
  have "coherent cfg u'"
  proof (cases "vtrans cfg s MMU_STORE v")
    case None
    then have "has_exception (cpu u)" "\<exists>w. u = clear_mmu_cache w" using vtrans_fault [OF None steps(1)] by simp_all
    then show ?thesis using steps(4) coherent_clear by (auto simp: update_mmu_cache_def)
  next
    case (Some q)
    then obtain b where "prot_addr_with_attr cfg v (attr_of MMU_STORE) s = Inr ((q, b), s)" by (rule vtrans_ok) blast
    then show ?thesis
      using update_keeps_coherent [OF assms(1) vtrans_load [OF Some], of d True u'] Some steps(1,2,4) by auto
  qed
  then show ?thesis using coh_frame_coherent [OF frame] by simp
qed

section \<open>Transparency\<close>

lemma config_irrelevant:
  "prot_addr_with_attr (cfg\<lparr>CONFIG_MMU_CACHE := b\<rparr>) = prot_addr_with_attr cfg"
  "prot_addr (cfg\<lparr>CONFIG_MMU_CACHE := b\<rparr>) = prot_addr cfg"
  "update_mmu_cache (cfg\<lparr>CONFIG_MMU_CACHE := b\<rparr>) = update_mmu_cache cfg"
  "dev_start (cfg\<lparr>CONFIG_MMU_CACHE := b\<rparr>) = dev_start cfg"
proof -
  have "enter_exception (cfg\<lparr>CONFIG_MMU_CACHE := b\<rparr>) = enter_exception cfg" "vector_of (cfg\<lparr>CONFIG_MMU_CACHE := b\<rparr>) = vector_of cfg"
    by (simp_all add: enter_exception_def vector_of_def fun_eq_iff Let_def cong: if_cong)
  then have "raise_exception (cfg\<lparr>CONFIG_MMU_CACHE := b\<rparr>) = raise_exception cfg"
    by (intro ext) (simp add: raise_exception_def Let_def cong: if_cong)
  then have te: "tlb_exception (cfg\<lparr>CONFIG_MMU_CACHE := b\<rparr>) = tlb_exception cfg"
    by (intro ext) (simp only: tlb_exception_def)
  have page: "page_translate (cfg\<lparr>CONFIG_MMU_CACHE := b\<rparr>) = page_translate cfg"
    by (intro ext) (unfold page_translate_def te, rule refl)
  show *: "prot_addr_with_attr (cfg\<lparr>CONFIG_MMU_CACHE := b\<rparr>) = prot_addr_with_attr cfg"
    unfolding fun_eq_iff prot_addr_with_attr_def translate_ioremap_def page by simp
  show "prot_addr (cfg\<lparr>CONFIG_MMU_CACHE := b\<rparr>) = prot_addr cfg" by (intro ext) (simp add: prot_addr_def *)
  show dev: "dev_start (cfg\<lparr>CONFIG_MMU_CACHE := b\<rparr>) = dev_start cfg"
  proof
    fix d
    show "dev_start (cfg\<lparr>CONFIG_MMU_CACHE := b\<rparr>) d = dev_start cfg d" by (cases d) simp_all
  qed
  show "update_mmu_cache (cfg\<lparr>CONFIG_MMU_CACHE := b\<rparr>) = update_mmu_cache cfg"
    by (intro ext) (unfold update_mmu_cache_def dev, rule refl)
qed

text \<open>An outcome up to the cached translations it leaves.\<close>

definition with_cache :: "(nat \<Rightarrow> mmu_cache_t) \<Rightarrow> 'a res \<Rightarrow> 'a res" where
  "with_cache m r =
     (case r of Inl (f, t) \<Rightarrow> Inl (f, t\<lparr>mmu_cache := m\<rparr>) | Inr (x, t) \<Rightarrow> Inr (x, t\<lparr>mmu_cache := m\<rparr>))"

lemma with_cache_self: "\<exists>m. r = with_cache m r"
proof (cases r)
  case (Inl q)
  then show ?thesis by (cases q) (auto simp: with_cache_def intro: exI [of _ "mmu_cache (snd q)"])
next
  case (Inr q)
  then show ?thesis by (cases q) (auto simp: with_cache_def intro: exI [of _ "mmu_cache (snd q)"])
qed

context ram_device
begin

text \<open>The slow path of an access to a page of this memory.\<close>

lemma page_address:
  assumes "unat (page_of p - dev_start cfg d) + 4096 \<le> sz" and "unat (p AND 0xFFF) + len \<le> 4096"
  shows "unat (p - dev_start cfg d) = unat (page_of p - dev_start cfg d) + unat (p AND 0xFFF)"
    and "unat (p - dev_start cfg d) + len \<le> sz"
proof -
  have eq: "p - dev_start cfg d = (page_of p - dev_start cfg d) + (p AND 0xFFF)"
    using page_offset_split [of p] by (metis add.commute add_diff_eq)
  have "unat (page_of p - dev_start cfg d) + unat (p AND 0xFFF) < 2 ^ 32" using assms size_small by simp
  from arg_cong [OF eq, of unat] unat_add_small [OF this]
  show *: "unat (p - dev_start cfg d) = unat (page_of p - dev_start cfg d) + unat (p AND 0xFFF)" by (rule trans)
  show "unat (p - dev_start cfg d) + len \<le> sz" using * assms by simp
qed

lemma cached_access:
  assumes "vtrans cfg s rw v = Some p" and "find_device p s = Some d" and "\<not> CONFIG_MMU_CACHE cfg"
    and "4096 dvd unat (dev_start cfg d)" and "unat (page_of p - dev_start cfg d) + 4096 \<le> sz"
    and "1 \<le> len" and "len \<le> 4" and "unat (v AND 0xFFF) + len \<le> 4096"
  shows "rw = MMU_LOAD \<Longrightarrow> \<exists>m. vaddr_read cfg v len s =
      with_cache m (host_read (Some (r, unat (page_of p - dev_start cfg d))) (v AND 0xFFF) len s)"
    and "rw = MMU_STORE \<Longrightarrow> \<exists>m. vaddr_write cfg v len y s =
      with_cache m (host_write (Some (r, unat (page_of p - dev_start cfg d))) (v AND 0xFFF) len y s)"
proof -
  have off: "p AND 0xFFF = v AND 0xFFF" by (rule vtrans_offset [OF assms(1)])
  note addr = page_address [OF assms(5), of len, unfolded off, OF assms(8)]
  have tr: "translates cfg v rw p s" by (rule vtrans_ok [OF assms(1)]) (auto simp: translates_def)
  show "\<exists>m. vaddr_read cfg v len s =
      with_cache m (host_read (Some (r, unat (page_of p - dev_start cfg d))) (v AND 0xFFF) len s)" if "rw = MMU_LOAD"
    using vaddr_read_uncached [OF assms(3) _ assms(2,4,6,7) addr(2)] tr that addr(1) assms(6,7) by (simp add: with_cache_def)
  have "ram_put r m (s\<lparr>mmu_cache := k\<rparr>) = (ram_put r m s)\<lparr>mmu_cache := k\<rparr>" for m k by (cases r) simp_all
  then show "\<exists>m. vaddr_write cfg v len y s =
      with_cache m (host_write (Some (r, unat (page_of p - dev_start cfg d))) (v AND 0xFFF) len y s)" if "rw = MMU_STORE"
    using vaddr_write_uncached [OF assms(3) _ assms(2,4,6,7) addr(2), of v y] tr that addr(1) assms(6,7) by (simp add: with_cache_def)
qed

end

lemma ram_cached_access:
  assumes "vtrans cfg s rw v = Some p" and "find_device p s = Some d" and "\<not> CONFIG_MMU_CACHE cfg"
    and "regions_ok cfg s" and "ram_of d = Some r" and "unat (page_of p - dev_start cfg d) \<le> ram_size r"
    and "1 \<le> len" and "len \<le> 4" and "unat (v AND 0xFFF) + len \<le> 4096"
  shows "rw = MMU_LOAD \<Longrightarrow> \<exists>m. vaddr_read cfg v len s =
      with_cache m (host_read (Some (r, unat (page_of p - dev_start cfg d))) (v AND 0xFFF) len s)"
    and "rw = MMU_STORE \<Longrightarrow> \<exists>m. vaddr_write cfg v len y s =
      with_cache m (host_write (Some (r, unat (page_of p - dev_start cfg d))) (v AND 0xFFF) len y s)"
proof -
  have reg: "4096 dvd unat (dev_start cfg d)" "unat (page_of p - dev_start cfg d) + 4096 \<le> ram_size r"
    using assms(2,4,5,6) unfolding regions_ok_def by blast+
  have "d = ddr_dev \<and> r = Ram_ddr \<or> d = bram_dev \<and> r = Ram_bram" using assms(5) by (cases d) simp_all
  then show "\<exists>m. vaddr_read cfg v len s =
      with_cache m (host_read (Some (r, unat (page_of p - dev_start cfg d))) (v AND 0xFFF) len s)" if "rw = MMU_LOAD"
    using ddr_ram.cached_access(1) [of cfg s rw v p len] bram_ram.cached_access(1) [of cfg s rw v p len] assms reg that by auto
  show "\<exists>m. vaddr_write cfg v len y s =
      with_cache m (host_write (Some (r, unat (page_of p - dev_start cfg d))) (v AND 0xFFF) len y s)" if "rw = MMU_STORE"
    using \<open>d = ddr_dev \<and> r = Ram_ddr \<or> d = bram_dev \<and> r = Ram_bram\<close>
      ddr_ram.cached_access(2) [of cfg s rw v p len y] bram_ram.cached_access(2) [of cfg s rw v p len y] assms reg that by auto
qed

lemma vtrans_config [simp]: "vtrans (cfg\<lparr>CONFIG_MMU_CACHE := b\<rparr>) = vtrans cfg"
proof -
  have paging: "CONFIG_PAGING (cfg\<lparr>CONFIG_MMU_CACHE := b\<rparr>) = CONFIG_PAGING cfg" by simp
  show ?thesis by (intro ext) (unfold vtrans_def paging, rule refl)
qed

lemma regions_config [simp]: "regions_ok (cfg\<lparr>CONFIG_MMU_CACHE := b\<rparr>) = regions_ok cfg"
  by (intro ext) (simp add: regions_ok_def config_irrelevant)

lemma read_transparent:
  assumes "coherent cfg s" and "regions_ok cfg s" and "1 \<le> len" and "len \<le> 4" and "unat (v AND 0xFFF) + len \<le> 4096"
  shows "\<exists>m. vaddr_read (cfg\<lparr>CONFIG_MMU_CACHE := False\<rparr>) v len s = with_cache m (vaddr_read cfg v len s)"
proof (cases "CONFIG_MMU_CACHE cfg \<and> mc_id (mmu_cache s (mmu_cache_index v)) = mmu_cache_id v")
  case True
  then have "entry_ok cfg s v (mmu_cache s (mmu_cache_index v))" using assms(1) by (simp add: coherent_def)
  then obtain p d r where p: "vtrans cfg s MMU_LOAD v = Some p" "find_device p s = Some d" "ram_of d = Some r"
      "unat (page_of p - dev_start cfg d) \<le> ram_size r"
      "mc_ptr (mmu_cache s (mmu_cache_index v)) = Some (r, unat (page_of p - dev_start cfg d))"
    by (auto simp: entry_ok_def)
  then show ?thesis
    using ram_cached_access(1) [of "cfg\<lparr>CONFIG_MMU_CACHE := False\<rparr>" s MMU_LOAD v p d r len] assms(2-5) True
    by (simp add: config_irrelevant) (simp add: vaddr_read_def)
next
  case False
  then have "vaddr_read (cfg\<lparr>CONFIG_MMU_CACHE := False\<rparr>) v len s = vaddr_read cfg v len s"
    unfolding vaddr_read_def config_irrelevant Let_def by auto
  then show ?thesis using with_cache_self by metis
qed

lemma write_transparent:
  assumes "coherent cfg s" and "regions_ok cfg s" and "1 \<le> len" and "len \<le> 4" and "unat (v AND 0xFFF) + len \<le> 4096"
  shows "\<exists>m. vaddr_write (cfg\<lparr>CONFIG_MMU_CACHE := False\<rparr>) v len y s = with_cache m (vaddr_write cfg v len y s)"
proof (cases "CONFIG_MMU_CACHE cfg \<and> mc_id (mmu_cache s (mmu_cache_index v)) = mmu_cache_id v \<and>
    mc_can_write (mmu_cache s (mmu_cache_index v))")
  case True
  then have "entry_ok cfg s v (mmu_cache s (mmu_cache_index v))" using assms(1) by (simp add: coherent_def)
  then obtain p d r where p: "vtrans cfg s MMU_STORE v = Some p" "find_device p s = Some d" "ram_of d = Some r"
      "unat (page_of p - dev_start cfg d) \<le> ram_size r"
      "mc_ptr (mmu_cache s (mmu_cache_index v)) = Some (r, unat (page_of p - dev_start cfg d))"
    using True by (auto simp: entry_ok_def)
  then show ?thesis
    using ram_cached_access(2) [of "cfg\<lparr>CONFIG_MMU_CACHE := False\<rparr>" s MMU_STORE v p d r len y] assms(2-5) True
    by (simp add: config_irrelevant) (simp add: vaddr_write_def)
next
  case False
  then have "vaddr_write (cfg\<lparr>CONFIG_MMU_CACHE := False\<rparr>) v len y s = vaddr_write cfg v len y s"
    unfolding vaddr_write_def config_irrelevant Let_def by auto
  then show ?thesis using with_cache_self by metis
qed

lemma regions_kept:
  assumes "sys_frame s t" and "regions_ok cfg s"
  shows "regions_ok cfg t"
proof -
  have fd: "find_device p t = find_device p s" for p using assms(1) by (simp add: sys_frame_def find_device_def)
  show ?thesis using assms(2) unfolding regions_ok_def fd .
qed

text \<open>The board of the default configuration.\<close>

lemma page_of_bounds:
  shows "unat (page_of p) \<le> unat p" and "unat p < unat (page_of p) + 4096" and "4096 dvd unat (page_of p)"
proof -
  have "unat (p AND 0xFFF) < 4096"
    using take_bit_nat_less_exp [of 12 "unat p"] by (simp add: and_mask_u32 unsigned_take_bit_eq)
  moreover have "unat (page_of p) \<le> unat p" unfolding page_of_def by (rule unat_page_le)
  moreover have "unat p = unat (page_of p + (p AND 0xFFF))" by (simp only: page_offset_split)
  moreover have "page_of p AND 0xFFF = 0" by (rule bit_eqI) (simp add: bit_offset bit_page_of)
  ultimately show "unat (page_of p) \<le> unat p" "unat p < unat (page_of p) + 4096" "4096 dvd unat (page_of p)"
    using unat_add_small [of "page_of p" "p AND 0xFFF"] unat_plus_if' [of "page_of p" "p AND 0xFFF"] aligned_page
    by (auto split: if_splits)
qed

lemma board_regions:
  assumes "board s"
  shows "regions_ok mips32r1_defconfig s"
  unfolding regions_ok_def
proof (intro allI impI, elim conjE)
  fix p d r
  assume fd: "find_device p s = Some d" and r: "ram_of d = Some r"
    and le: "unat (page_of p - dev_start mips32r1_defconfig d) \<le> ram_size r"
  note pb = page_of_bounds [of p]
  have dd: "defconfig_device (ioremap p) = Some d" using assms fd by (simp add: board_def)
  have "d = ddr_dev \<or> d = bram_dev" using r by (cases d) simp_all
  then show "4096 dvd unat (dev_start mips32r1_defconfig d) \<and>
      unat (page_of p - dev_start mips32r1_defconfig d) + 4096 \<le> ram_size r"
  proof
    assume d: "d = ddr_dev"
    then have "unat (page_of p) \<le> 0x10000000" using le r by (simp add: mips32r1_defconfig_def)
    then have "unat (ioremap p) = unat p" using pb(2) by (simp add: unat_ioremap)
    then have "unat p < 0x10000000" using dd d by (simp add: defconfig_device_def word_less_nat_alt split: if_splits)
    then have "unat (page_of p) < 4096 * 0x10000" using pb(1) by simp
    then have "unat (page_of p) + 4096 \<le> 0x10000000" using pb(3) by (elim dvdE) simp
    then show ?thesis using d r by (simp add: mips32r1_defconfig_def)
  next
    assume d: "d = bram_dev"
    let ?k = "page_of p - 0x1fc00000"
    have k: "unat ?k \<le> 0x100000" using le r d by (simp add: mips32r1_defconfig_def)
    have "unat (?k + 0x1fc00000) = unat ?k + 0x1fc00000" using unat_add_small [of ?k "0x1fc00000"] k by simp
    then have page: "unat (page_of p) = unat ?k + 0x1fc00000" by simp
    then have "unat (ioremap p) = unat p" using pb(2) k by (simp add: unat_ioremap)
    then have "unat p < 0x1fd00000"
      using dd d by (simp add: defconfig_device_def word_less_nat_alt word_le_nat_alt split: if_splits)
    then have "unat (page_of p) < 4096 * 0x1fd00" using pb(1) by simp
    then have "unat (page_of p) + 4096 \<le> 0x1fd00000" using pb(3) by (elim dvdE) simp
    then show ?thesis using d r page by (simp add: mips32r1_defconfig_def)
  qed
qed

section \<open>Properties\<close>

text \<open>
  C6: the cached translations are invisible. While they agree with the TLB and the segments,
  every read or write of one to four bytes within a page gives, with them, the same value, the same
  failure and the same machine state, up to the cached translations themselves, as without them; a
  successful access keeps the agreement, and \<^verbatim>\<open>clear_mmu_cache\<close> establishes it.
\<close>

theorem mmu_cache_transparent:
  assumes "coherent cfg s" and "regions_ok cfg s" and "1 \<le> len" and "len \<le> 4" and "unat (v AND 0xFFF) + len \<le> 4096"
  shows "(\<exists>m. vaddr_read (cfg\<lparr>CONFIG_MMU_CACHE := False\<rparr>) v len s = with_cache m (vaddr_read cfg v len s)) \<and>
     (\<exists>m. vaddr_write (cfg\<lparr>CONFIG_MMU_CACHE := False\<rparr>) v len y s = with_cache m (vaddr_write cfg v len y s)) \<and>
     (\<forall>x t. vaddr_read cfg v len s = Inr (x, t) \<longrightarrow> coherent cfg t \<and> regions_ok cfg t) \<and>
     (\<forall>x t. vaddr_write cfg v len y s = Inr (x, t) \<longrightarrow> coherent cfg t \<and> regions_ok cfg t) \<and>
     coherent cfg (clear_mmu_cache u)"
proof -
  have "regions_ok cfg t" if "vaddr_read cfg v len s = Inr (x, t)" for x t
    using frame_vaddr(1) [of s s cfg v len] that regions_kept [of s t cfg] assms(2) by simp
  moreover have "regions_ok cfg t" if "vaddr_write cfg v len y s = Inr (x, t)" for x t
    using frame_vaddr(2) [of s s cfg v len y] that regions_kept [of s t cfg] assms(2) by simp
  ultimately show ?thesis
    using read_transparent [OF assms] write_transparent [OF assms, of y] vaddr_read_coherent [OF assms(1), of v len]
      vaddr_write_coherent [OF assms(1), of v len y] coherent_clear by blast
qed

theorem mmu_cache_transparent_witness:
  "\<exists>s. coherent (mips32r1_defconfig\<lparr>CONFIG_MMU_CACHE := True\<rparr>) s \<and>
     (\<exists>m. vaddr_read (mips32r1_defconfig\<lparr>CONFIG_MMU_CACHE := False\<rparr>) 0x80000100 4 s =
        with_cache m (vaddr_read (mips32r1_defconfig\<lparr>CONFIG_MMU_CACHE := True\<rparr>) 0x80000100 4 s))"
proof -
  obtain t where "board t" using board_exists by blast
  then have reg: "regions_ok (mips32r1_defconfig\<lparr>CONFIG_MMU_CACHE := True\<rparr>) (clear_mmu_cache t)"
    using board_regions [of "clear_mmu_cache t"] by (simp add: clear_mmu_cache_def)
  have "\<exists>m. vaddr_read (mips32r1_defconfig\<lparr>CONFIG_MMU_CACHE := False\<rparr>) 0x80000100 4 (clear_mmu_cache t) =
      with_cache m (vaddr_read (mips32r1_defconfig\<lparr>CONFIG_MMU_CACHE := True\<rparr>) 0x80000100 4 (clear_mmu_cache t))"
    using mmu_cache_transparent [OF coherent_clear reg, of 4 "0x80000100"] by simp
  then show ?thesis using coherent_clear by blast
qed

end
