(* ===== verification/Decode_Cache.thy ===== *)
theory Decode_Cache
  imports Machine
begin

text \<open>
  The decoded instructions that are kept under \<^verbatim>\<open>CONFIG_DECODE_CACHE\<close>: the structure of
  \<^verbatim>\<open>include/cpu/decode.h\<close> with its unions, \<^verbatim>\<open>decoder_set_state\<close> of \<^verbatim>\<open>src/cpu/cpu.c\<close>,
  and the table of chains of \<^verbatim>\<open>src/cpu/decode-cache.h\<close>.
\<close>

section \<open>Decoded instructions\<close>

text \<open>
  The unions are words that are read in several ways: the first is \<^verbatim>\<open>rs\<close> or \<^verbatim>\<open>addr\<close>, the
  second \<^verbatim>\<open>rt\<close> or \<^verbatim>\<open>ft\<close>, the third \<^verbatim>\<open>rd\<close>, \<^verbatim>\<open>fs\<close> or, in its lower half, the immediate
  operand, the fourth \<^verbatim>\<open>shamt\<close> or \<^verbatim>\<open>fd\<close>; \<open>ds_misc\<close> is the union of \<^verbatim>\<open>nd\<close>, \<^verbatim>\<open>tf\<close>, the condition
  codes and the numbers of the 64-bit registers.
\<close>

record decode_state_t =
  ds_handler :: "label option"
  ds_w0 :: u32
  ds_w1 :: u32
  ds_w2 :: u32
  ds_w3 :: u32
  ds_w4 :: u32
  ds_sel :: u32
  ds_misc :: u32

definition ds_rs :: "decode_state_t \<Rightarrow> nat" where "ds_rs ds = unat (ds_w0 ds)"
definition ds_addr :: "decode_state_t \<Rightarrow> u32" where "ds_addr ds = ds_w0 ds"
definition ds_rt :: "decode_state_t \<Rightarrow> nat" where "ds_rt ds = unat (ds_w1 ds)"
definition ds_rd :: "decode_state_t \<Rightarrow> nat" where "ds_rd ds = unat (ds_w2 ds)"
definition ds_uimm :: "decode_state_t \<Rightarrow> u32" where "ds_uimm ds = bf_get 0 16 (ds_w2 ds)"
definition ds_simm :: "decode_state_t \<Rightarrow> u32" where "ds_simm ds = signed_take_bit 15 (ds_w2 ds)"
definition ds_shamt :: "decode_state_t \<Rightarrow> nat" where "ds_shamt ds = unat (ds_w3 ds)"
definition ds_func :: "decode_state_t \<Rightarrow> nat" where "ds_func ds = unat (ds_w4 ds)"

datatype inst_type = Rtype | Itype | Jtype | Cop0Type | S2type | S3type | bshflType | HandlerType

definition inst_type_of :: "u32 \<Rightarrow> inst_type" where
  "inst_type_of i =
     (let opc = inst_op i
      in if opc = 0x00 then Rtype
         else if opc = 0x01 then Itype
         else if opc = 0x02 \<or> opc = 0x03 then Jtype
         else if opc = 0x10 then (if inst_rs i AND 0x10 \<noteq> 0 then HandlerType else Cop0Type)
         else if opc = 0x1c then S2type
         else if opc = 0x1f then (if inst_func i = 0x20 then bshflType else S3type)
         else Itype)"

definition decoder_set_state :: "decode_state_t \<Rightarrow> u32 \<Rightarrow> decode_state_t" where
  "decoder_set_state ds i =
     (case inst_type_of i of
        Rtype \<Rightarrow> ds\<lparr>ds_w0 := of_nat (inst_rs i), ds_w1 := of_nat (inst_rt i), ds_w2 := of_nat (inst_rd i),
                   ds_w3 := of_nat (inst_shamt i), ds_w4 := of_nat (inst_func i)\<rparr>
      | Itype \<Rightarrow> ds\<lparr>ds_w0 := of_nat (inst_rs i), ds_w1 := of_nat (inst_rt i), ds_w2 := bf_set 0 16 (inst_uimm i) (ds_w2 ds)\<rparr>
      | Jtype \<Rightarrow> ds\<lparr>ds_w0 := inst_addr i\<rparr>
      | Cop0Type \<Rightarrow> ds\<lparr>ds_w1 := of_nat (inst_rt i), ds_w2 := of_nat (inst_rd i), ds_sel := of_nat (inst_sel i)\<rparr>
      | S2type \<Rightarrow> ds\<lparr>ds_w0 := of_nat (inst_rs i), ds_w1 := of_nat (inst_rt i), ds_w2 := of_nat (inst_rd i),
                   ds_w3 := of_nat (inst_shamt i)\<rparr>
      | S3type \<Rightarrow> ds\<lparr>ds_w0 := of_nat (inst_rs i), ds_w1 := of_nat (inst_rt i), ds_w2 := of_nat (inst_rd i),
                   ds_w3 := of_nat (inst_shamt i)\<rparr>
      | bshflType \<Rightarrow> ds\<lparr>ds_w1 := of_nat (inst_rt i), ds_w2 := of_nat (inst_rd i)\<rparr>
      | HandlerType \<Rightarrow> ds)"

section \<open>The table\<close>

text \<open>
  An entry of the table is the head of a chain: the address that the chain starts at and the
  decoded instructions that follow each other. The pointer that the processor runs along is the
  number of instructions before it in a chain.
\<close>

record decode_chain =
  dc_pc :: u32
  dc_next :: "decode_state_t list"

abbreviation (input) DECODE_CACHE_BITS :: nat where "DECODE_CACHE_BITS \<equiv> 12"

type_synonym decode_cache_t = "nat \<Rightarrow> decode_chain"

definition decode_cache_index :: "u32 \<Rightarrow> nat" where
  "decode_cache_index vaddr = unat (drop_bit 2 vaddr AND (push_bit DECODE_CACHE_BITS 1 - 1))"

definition clear_decode_cache :: "decode_cache_t \<Rightarrow> decode_cache_t" where
  "clear_decode_cache dc = (\<lambda>k. if k < 2 ^ DECODE_CACHE_BITS then (dc k)\<lparr>dc_next := []\<rparr> else dc k)"

definition decode_cache_fetch :: "u32 \<Rightarrow> decode_cache_t \<Rightarrow> decode_cache_t" where
  "decode_cache_fetch a dc =
     (let idx = decode_cache_index a
      in if dc_pc (dc idx) \<noteq> a then dc(idx := \<lparr>dc_pc = a, dc_next = []\<rparr>) else dc)"

text \<open>
  The entry of the execution, \<open>k\<close> instructions into the chain at \<open>idx\<close>: the instruction that is
  already there, or a new one decoded at the end of the chain. \<open>fresh\<close> is what \<^verbatim>\<open>malloc\<close> leaves in it.
  A fetch that raises an exception clears the table, and the new instruction is in no chain.
\<close>

definition decode_entry :: "(nemu \<Rightarrow> u32 res) \<Rightarrow> decode_state_t \<Rightarrow> nat \<Rightarrow> nat \<Rightarrow> decode_cache_t \<Rightarrow> nemu \<Rightarrow> (decode_state_t \<times> decode_cache_t) res" where
  "decode_entry fetch fresh idx k dc s =
     (if k < length (dc_next (dc idx)) then Inr ((dc_next (dc idx) ! k, dc), s)
      else bind_r (fetch s)
             (\<lambda>inst s. let ds = (decoder_set_state fresh inst)\<lparr>ds_handler := decoder_get_handler inst\<rparr>
                        in Inr ((ds, if has_exception (cpu s) then clear_decode_cache dc
                                     else dc(idx := (dc idx)\<lparr>dc_next := dc_next (dc idx) @ [ds]\<rparr>)), s)))"

section \<open>Fields read back\<close>

lemma field_words [simp]:
  "unat (of_nat (inst_rs i) :: u32) = inst_rs i" "unat (of_nat (inst_rt i) :: u32) = inst_rt i"
  "unat (of_nat (inst_rd i) :: u32) = inst_rd i" "unat (of_nat (inst_shamt i) :: u32) = inst_shamt i"
  "unat (of_nat (inst_func i) :: u32) = inst_func i"
  using inst_field_bounds [of i] by (simp_all add: unat_of_nat_u32)

lemma uimm_back: "bf_get 0 16 (bf_set 0 16 (inst_uimm i) w) = inst_uimm i"
  by (simp add: bf_get_set_same inst_uimm_def take_bit_bf_get)

lemma simm_back: "signed_take_bit 15 (bf_set 0 16 (inst_uimm i) w) = inst_simm i"
  by (rule bit_eqI) (auto simp: inst_simm_def inst_uimm_def bit_signed_take_bit_iff bit_bf_set bit_bf_get min_def)

section \<open>Operands\<close>

text \<open>
  The operands that a handler can read through \<^verbatim>\<open>ops\<close>, their values in an instruction word and those in a
  kept instruction.
\<close>

datatype operand =
    O_rs | O_rt | O_rd | O_shamt | O_uimm | O_simm | O_addr | O_sel | O_fs | O_ft | O_fd
  | O_nd | O_tf | O_cc1 | O_cc2 | O_fs64 | O_ft64 | O_fd64

fun shown :: "operand \<Rightarrow> u32 \<Rightarrow> nat" where
  "shown O_rs i = inst_rs i"
| "shown O_rt i = inst_rt i"
| "shown O_rd i = inst_rd i"
| "shown O_shamt i = inst_shamt i"
| "shown O_uimm i = unat (inst_uimm i)"
| "shown O_simm i = unat (inst_simm i)"
| "shown O_addr i = unat (inst_addr i)"
| "shown O_sel i = inst_sel i"
| "shown O_fs i = inst_fs i"
| "shown O_ft i = inst_ft i"
| "shown O_fd i = inst_fd i"
| "shown O_nd i = inst_nd i"
| "shown O_tf i = inst_tf i"
| "shown O_cc1 i = inst_cc1 i"
| "shown O_cc2 i = inst_cc2 i"
| "shown O_fs64 i = inst_fs64 i"
| "shown O_ft64 i = inst_ft64 i"
| "shown O_fd64 i = inst_fd64 i"

fun kept :: "operand \<Rightarrow> decode_state_t \<Rightarrow> nat" where
  "kept O_rs ds = ds_rs ds"
| "kept O_rt ds = ds_rt ds"
| "kept O_rd ds = ds_rd ds"
| "kept O_shamt ds = ds_shamt ds"
| "kept O_uimm ds = unat (ds_uimm ds)"
| "kept O_simm ds = unat (ds_simm ds)"
| "kept O_addr ds = unat (ds_addr ds)"
| "kept O_sel ds = unat (ds_sel ds)"
| "kept O_ft ds = unat (ds_w1 ds)"
| "kept O_fs ds = unat (ds_w2 ds)"
| "kept O_fd ds = unat (ds_w3 ds)"
| "kept _ ds = unat (ds_misc ds)"

text \<open>The operands that each handler reads, from the handlers themselves.\<close>

fun arith_ex_reads :: "lbl_arith_ex \<Rightarrow> operand list" where
  "arith_ex_reads L_clz = [O_rs, O_rd]"
| "arith_ex_reads L_clo = [O_rs, O_rd]"
| "arith_ex_reads L_ins = [O_rs, O_rt, O_rd, O_shamt]"
| "arith_ex_reads L_ext = [O_rs, O_rt, O_rd, O_shamt]"
| "arith_ex_reads _ = [O_rt, O_rd]"

fun arith_reads :: "lbl_arith \<Rightarrow> operand list" where
  "arith_reads L_lui = [O_rs, O_rt, O_uimm]"
| "arith_reads L_addi = [O_rs, O_rt, O_simm]"
| "arith_reads L_addiu = [O_rs, O_rt, O_simm]"
| "arith_reads L_andi = [O_rs, O_rt, O_uimm]"
| "arith_reads L_ori = [O_rs, O_rt, O_uimm]"
| "arith_reads L_xori = [O_rs, O_rt, O_uimm]"
| "arith_reads _ = [O_rs, O_rt, O_rd, O_shamt]"

fun branch_reads :: "lbl_branch \<Rightarrow> operand list" where
  "branch_reads L_j = [O_addr]"
| "branch_reads L_jal = [O_addr]"
| "branch_reads L_jr = [O_rs, O_rt, O_rd]"
| "branch_reads L_jalr = [O_rs, O_rt, O_rd, O_shamt]"
| "branch_reads _ = [O_rs, O_rt, O_simm]"

fun float_move_reads :: "lbl_float_move \<Rightarrow> operand list" where
  "float_move_reads L_lwc1 = [O_rs, O_rt, O_ft, O_simm]"
| "float_move_reads L_swc1 = [O_rs, O_rt, O_ft, O_simm]"
| "float_move_reads L_ldc1 = [O_rs, O_rt, O_ft, O_simm]"
| "float_move_reads L_sdc1 = [O_rs, O_rt, O_ft, O_simm]"
| "float_move_reads L_bc1 = [O_nd, O_tf, O_cc2, O_simm]"
| "float_move_reads L_movci = [O_rs, O_rd, O_tf, O_cc2]"
| "float_move_reads _ = [O_rt, O_fs, O_fd, O_cc2, O_fs64, O_fd64]"

fun setcc_reads :: "lbl_setcc \<Rightarrow> operand list" where
  "setcc_reads L_sltiu = [O_rs, O_rt, O_simm]"
| "setcc_reads L_slti = [O_rs, O_rt, O_simm]"
| "setcc_reads _ = [O_rs, O_rt, O_rd, O_shamt]"

fun system_reads :: "lbl_system \<Rightarrow> operand list" where
  "system_reads L_mfc0 = [O_rt, O_rd, O_sel]"
| "system_reads L_mtc0 = [O_rt, O_rd, O_sel]"
| "system_reads _ = []"

definition trap_reads :: "lbl_trap \<Rightarrow> operand list" where
  "trap_reads l = (if l \<in> {L_teqi, L_tgei, L_tgeiu, L_tlti, L_tltiu, L_tnei} then [O_rs, O_simm] else [O_rs, O_rt])"

fun reads :: "label \<Rightarrow> operand list" where
  "reads (In_arith_ex l) = arith_ex_reads l"
| "reads (In_arith l) = arith_reads l"
| "reads (In_branch l) = branch_reads l"
| "reads (In_float_move l) = float_move_reads l"
| "reads (In_float_arith l) = [O_fs, O_ft, O_fd]"
| "reads (In_float_cmp l) = [O_fs, O_ft, O_cc1, O_fs64, O_ft64]"
| "reads (In_mdu l) = [O_rs, O_rt, O_rd, O_shamt]"
| "reads (In_memory l) = [O_rs, O_rt, O_simm]"
| "reads (In_setcc l) = setcc_reads l"
| "reads (In_shift l) = [O_rs, O_rt, O_rd, O_shamt]"
| "reads (In_special l) = []"
| "reads (In_system l) = system_reads l"
| "reads (In_trap l) = trap_reads l"

text \<open>Nothing else of the word matters to a handler.\<close>

lemma unat_eq_u32: "unat v = unat w \<longleftrightarrow> v = (w :: u32)"
  by (simp only: word_unat_eq_iff)

lemma goto_group_reads:
  "list_all (\<lambda>f. shown f j = shown f i) (arith_ex_reads l1) \<Longrightarrow> goto_arith_ex l1 cfg j s = goto_arith_ex l1 cfg i s"
  "list_all (\<lambda>f. shown f j = shown f i) (arith_reads l2) \<Longrightarrow> goto_arith l2 cfg j s = goto_arith l2 cfg i s"
  "list_all (\<lambda>f. shown f j = shown f i) (branch_reads l3) \<Longrightarrow> goto_branch l3 cfg j s = goto_branch l3 cfg i s"
  "list_all (\<lambda>f. shown f j = shown f i) (float_move_reads l4) \<Longrightarrow> goto_float_move l4 cfg j s = goto_float_move l4 cfg i s"
  "list_all (\<lambda>f. shown f j = shown f i) (reads (In_float_arith l5)) \<Longrightarrow> goto_float_arith fo l5 cfg j s = goto_float_arith fo l5 cfg i s"
  "list_all (\<lambda>f. shown f j = shown f i) (reads (In_float_cmp l6)) \<Longrightarrow> goto_float_cmp l6 cfg j s = goto_float_cmp l6 cfg i s"
  "list_all (\<lambda>f. shown f j = shown f i) (reads (In_mdu l7)) \<Longrightarrow> goto_mdu l7 cfg j s = goto_mdu l7 cfg i s"
  "list_all (\<lambda>f. shown f j = shown f i) (reads (In_memory l8)) \<Longrightarrow> goto_memory l8 cfg j s = goto_memory l8 cfg i s"
  "list_all (\<lambda>f. shown f j = shown f i) (setcc_reads l9) \<Longrightarrow> goto_setcc l9 cfg j s = goto_setcc l9 cfg i s"
  "list_all (\<lambda>f. shown f j = shown f i) (reads (In_shift l10)) \<Longrightarrow> goto_shift l10 cfg j s = goto_shift l10 cfg i s"
  "goto_special l11 cfg j s = goto_special l11 cfg i s"
  "list_all (\<lambda>f. shown f j = shown f i) (system_reads l12) \<Longrightarrow> goto_system l12 cfg j s = goto_system l12 cfg i s"
  "list_all (\<lambda>f. shown f j = shown f i) (trap_reads l13) \<Longrightarrow> goto_trap l13 cfg j s = goto_trap l13 cfg i s"
  subgoal by (cases l1) (simp_all add: Let_def arith_ex_defs set_GR_DV_def set_GR_TV_def cong: if_cong)
  subgoal by (cases l2) (simp_all add: Let_def arith_defs set_GR_DV_def set_GR_TV_def unat_eq_u32 cong: if_cong)
  subgoal by (cases l3) (simp_all add: Let_def branch_defs branch_dest_def jump_dest_def set_GR_DV_def unat_eq_u32 cong: if_cong)
  subgoal by (cases l4) (simp_all add: Let_def float_move_defs branch_dest_def set_GR_DV_def set_GR_TV_def unat_eq_u32 cong: if_cong)
  subgoal by (cases l5) (simp_all add: Let_def float_arith_defs cong: if_cong sum.case_cong)
  subgoal by (cases l6) (simp_all add: Let_def float_cmp_defs cong: if_cong)
  subgoal by (cases l7) (simp_all add: Let_def mdu_defs set_GR_DV_def cong: if_cong)
  subgoal by (cases l8) (simp_all add: Let_def memory_defs mem_addr_def set_GR_TV_def unat_eq_u32 cong: if_cong)
  subgoal by (cases l9) (simp_all add: Let_def setcc_defs set_GR_DV_def set_GR_TV_def unat_eq_u32 cong: if_cong)
  subgoal by (cases l10) (simp_all add: Let_def shift_defs set_GR_DV_def cong: if_cong option.case_cong)
  subgoal by (cases l11) (simp_all add: Let_def special_defs cong: if_cong)
  subgoal by (cases l12) (simp_all add: Let_def system_defs set_GR_TV_def cong: if_cong)
  subgoal by (cases l13) (simp_all add: Let_def trap_defs trap_reads_def unat_eq_u32 cong: if_cong)
  done

lemma goto_reads:
  assumes "list_all (\<lambda>f. shown f j = shown f i) (reads l)"
  shows "goto_handler fo l cfg j s = goto_handler fo l cfg i s"
  using assms by (cases l; simp only: goto_handler.simps reads.simps; intro goto_group_reads; simp)

text \<open>The operands that the decoder keeps for each type of instruction.\<close>

fun type_keeps :: "inst_type \<Rightarrow> operand list" where
  "type_keeps Rtype = [O_rs, O_rt, O_rd, O_shamt]"
| "type_keeps Itype = [O_rs, O_rt, O_uimm, O_simm, O_ft]"
| "type_keeps Jtype = [O_addr]"
| "type_keeps Cop0Type = [O_rt, O_rd, O_sel]"
| "type_keeps S2type = [O_rs, O_rt, O_rd, O_shamt]"
| "type_keeps S3type = [O_rs, O_rt, O_rd, O_shamt]"
| "type_keeps bshflType = [O_rt, O_rd]"
| "type_keeps HandlerType = []"

lemma sel_word [simp]: "unat (of_nat (inst_sel i) :: u32) = inst_sel i"
  using unat_bf_get_less [of 3 0 i] by (simp add: inst_sel_def unat_of_nat_u32)

lemma decoder_keeps: "list_all (\<lambda>f. kept f (decoder_set_state ds i) = shown f i) (type_keeps (inst_type_of i))"
  by (cases "inst_type_of i")
     (simp_all add: decoder_set_state_def ds_rs_def ds_rt_def ds_rd_def ds_shamt_def ds_uimm_def ds_simm_def ds_addr_def
       uimm_back simm_back inst_ft_def inst_rt_def [symmetric])

lemma kept_handler [simp]: "kept f (ds\<lparr>ds_handler := h\<rparr>) = kept f ds"
  by (cases f) (simp_all add: ds_rs_def ds_rt_def ds_rd_def ds_shamt_def ds_uimm_def ds_simm_def ds_addr_def)

text \<open>Table by table, the handlers read nothing but what is kept, the move on a floating point condition apart.\<close>

definition covered :: "inst_type \<Rightarrow> label \<Rightarrow> bool" where
  "covered ty l \<longleftrightarrow> list_all (\<lambda>f. f \<in> set (type_keeps ty)) (reads l)"

lemma covered_tables:
  "list_all (\<lambda>l. l = In_float_move L_movci \<or> covered Rtype l) special_table"
  "list_all (covered Itype) regimm_table" "list_all (covered Cop0Type) cop0_table_rs" "list_all (covered HandlerType) cop0_table_func"
  "list_all (covered S2type) special2_table" "list_all (covered S3type) special3_table" "list_all (covered bshflType) bshfl_table"
  "list_all (\<lambda>k. covered (if k = 2 \<or> k = 3 then Jtype else Itype) (opcode_table ! k)) [0 ..< 64]"
  by code_simp+

lemma table_covered: "list_all P t \<Longrightarrow> table_get t k = Some l \<Longrightarrow> P l"
  by (auto simp: table_get_def list_all_length split: if_splits)

lemma decoder_covered:
  assumes "decoder_get_handler i = Some l" and "inst_op i \<noteq> 0x11" and "l \<noteq> In_float_move L_movci"
  shows "covered (inst_type_of i) l"
proof -
  consider "inst_op i = 0" | "inst_op i = 1" | "inst_op i = 0x10" | "inst_op i = 0x1c" | "inst_op i = 0x1f"
    | (opcode) "inst_op i \<notin> {0, 1, 0x10, 0x11, 0x1c, 0x1f}"
    using assms(2) by auto
  then show ?thesis
  proof cases
    case opcode
    then have "opcode_table ! inst_op i = l" using assms(1) decode_opcode [OF opcode] by simp
    moreover have "covered (if inst_op i = 2 \<or> inst_op i = 3 then Jtype else Itype) (opcode_table ! inst_op i)"
      using covered_tables(8) inst_field_bounds(5) [of i] by (simp only: list_all_iff set_upt Ball_def atLeastLessThan_iff) blast
    ultimately show ?thesis using opcode by (auto simp: inst_type_of_def Let_def split: if_splits)
  qed (use assms(1,3) covered_tables(1-7) [THEN table_covered] in \<open>auto simp: decoder_get_handler_def inst_type_of_def split: if_splits\<close>)
qed

text \<open>
  The floating point instructions read their registers from the words of an immediate operand:
  the number of the source register is wrong.
\<close>

lemma float_operands_wrong:
  "inst_type_of 0x46000800 = Itype \<and> inst_fs 0x46000800 = 1 \<and> inst_op 0x46000800 = 0x11 \<and>
     ds_rd (decoder_set_state ds 0x46000800) \<noteq> inst_fs 0x46000800"
proof -
  have i: "inst_type_of 0x46000800 = Itype" "inst_fs 0x46000800 = 1" "inst_op 0x46000800 = 0x11" "inst_uimm 0x46000800 = 0x800"
    by (simp_all add: inst_type_of_def inst_op_def inst_fs_def inst_uimm_def bf_get_def)
  have "bit (bf_set 0 16 0x800 (ds_w2 ds)) 11" by (simp add: bit_bf_set)
  then have "bf_set 0 16 0x800 (ds_w2 ds) \<noteq> 1" by (auto simp: bit_1_iff)
  then have "unat (bf_set 0 16 0x800 (ds_w2 ds)) \<noteq> 1" by (metis unat_1 word_unat_eqI)
  then show ?thesis using i by (simp add: decoder_set_state_def ds_rd_def)
qed

section \<open>Chains\<close>

text \<open>
  C7: an instruction that was decoded once runs from the decode cache as it runs from memory. Let the
  fetch of a word raise no exception, the word be no floating point arithmetic (opcode 0x11) and no move
  on a floating point condition, and let it be decoded at the end of a chain. The new entry has the handler of the
  word and stays in the chain: following the chain to its position again returns it without a fetch, also after jumps to the start of the chain and to addresses of other entries of the table. Every
  operand that its handler reads was kept with its value, and the handler, reading the kept operands,
  does in every state what it does for the word itself.
\<close>

theorem kept_operands_suffice:
  assumes "vaddr_read cfg a 4 s = Inr (i, t)" and "\<not> has_exception (cpu t)" and "k = length (dc_next (dc idx))"
    and "inst_op i \<noteq> 0x11" and "decoder_get_handler i \<noteq> Some (In_float_move L_movci)"
  shows "\<exists>ds dc' l. decode_entry (vaddr_read cfg a 4) fresh idx k dc s = Inr ((ds, dc'), t) \<and>
     (\<forall>fetch fresh u. decode_entry fetch fresh idx k dc' u = Inr ((ds, dc'), u)) \<and>
     (\<forall>b fetch fresh u. decode_cache_index b \<noteq> idx \<or> b = dc_pc (dc idx) \<longrightarrow>
        decode_entry fetch fresh idx k (decode_cache_fetch b dc') u = Inr ((ds, decode_cache_fetch b dc'), u)) \<and>
     decoder_get_handler i = Some l \<and> ds_handler ds = Some l \<and> (\<forall>f \<in> set (reads l). kept f ds = shown f i) \<and>
     (\<forall>j fo u. (\<forall>f \<in> set (reads l). shown f j = kept f ds) \<longrightarrow> goto_handler fo l cfg j u = goto_handler fo l cfg i u)"
proof -
  obtain l where l: "decoder_get_handler i = Some l" using decoder_total [of i] by blast
  let ?ds = "(decoder_set_state fresh i)\<lparr>ds_handler := decoder_get_handler i\<rparr>"
  let ?dc = "dc(idx := (dc idx)\<lparr>dc_next := dc_next (dc idx) @ [?ds]\<rparr>)"
  have entry: "decode_entry (vaddr_read cfg a 4) fresh idx k dc s = Inr ((?ds, ?dc), t)"
    using assms(1-3) by (simp add: decode_entry_def Let_def)
  have again: "\<forall>fetch fresh u. decode_entry fetch fresh idx k ?dc u = Inr ((?ds, ?dc), u)"
    using assms(3) by (simp add: decode_entry_def)
  have jump: "\<forall>b fetch fresh u. decode_cache_index b \<noteq> idx \<or> b = dc_pc (dc idx) \<longrightarrow>
      decode_entry fetch fresh idx k (decode_cache_fetch b ?dc) u = Inr ((?ds, decode_cache_fetch b ?dc), u)"
    using assms(3) by (auto simp: decode_entry_def decode_cache_fetch_def Let_def)
  have ops: "\<forall>f \<in> set (reads l). kept f ?ds = shown f i"
    using decoder_covered [OF l assms(4)] assms(5) l decoder_keeps [of fresh i] by (auto simp: covered_def list_all_iff)
  then have run: "\<forall>j fo u. (\<forall>f \<in> set (reads l). shown f j = kept f ?ds) \<longrightarrow> goto_handler fo l cfg j u = goto_handler fo l cfg i u"
    by (auto intro!: goto_reads simp: list_all_iff)
  have handler: "ds_handler ?ds = Some l" using l by simp
  show ?thesis by (intro exI [of _ ?ds] exI [of _ ?dc] exI [of _ l] conjI entry again jump l handler ops run)
qed

theorem kept_operands_suffice_witness:
  "\<exists>s t. \<forall>fresh. \<exists>ds dc'. decode_entry (vaddr_read mips32r1_defconfig 0xbfc00000 4) fresh 0 0
       (\<lambda>_. \<lparr>dc_pc = 0xbfc00000, dc_next = []\<rparr>) s = Inr ((ds, dc'), t) \<and>
     decode_entry (\<lambda>s. Inl (Panic, s)) fresh 0 0 dc' s = Inr ((ds, dc'), s) \<and>
     ds_handler ds = Some (In_arith L_addiu) \<and> kept O_rt ds = 8 \<and> kept O_simm ds = 5"
proof -
  let ?s = "rom_state 0x24080005"
  obtain u where "fetches mips32r1_defconfig ?s 0x24080005 u" using rom_state_fetches by blast
  then have rd: "vaddr_read mips32r1_defconfig 0xbfc00000 4 (set_gpr 0 0 ?s) = Inr (0x24080005, u)" "\<not> has_exception (cpu u)"
    by (simp_all add: fetches_def zero_cpu_def)
  have empty: "0 = length (dc_next ((\<lambda>_ :: nat. \<lparr>dc_pc = 0xbfc00000, dc_next = []\<rparr>) 0))" by simp
  have i: "inst_op 0x24080005 = 9" "inst_rt 0x24080005 = 8" "inst_simm 0x24080005 = 5"
    by (simp_all add: inst_op_def inst_rt_def inst_simm_def bf_get_def)
  then have l: "decoder_get_handler 0x24080005 = Some (In_arith L_addiu)"
    by (simp add: decoder_get_handler_def table_get_def opcode_table_def)
  then have op: "inst_op 0x24080005 \<noteq> 0x11" "decoder_get_handler 0x24080005 \<noteq> Some (In_float_move L_movci)"
    using i(1) by simp_all
  have "\<exists>ds dc'. decode_entry (vaddr_read mips32r1_defconfig 0xbfc00000 4) fresh 0 0
       (\<lambda>_. \<lparr>dc_pc = 0xbfc00000, dc_next = []\<rparr>) (set_gpr 0 0 ?s) = Inr ((ds, dc'), u) \<and>
     decode_entry (\<lambda>s. Inl (Panic, s)) fresh 0 0 dc' (set_gpr 0 0 ?s) = Inr ((ds, dc'), set_gpr 0 0 ?s) \<and>
     ds_handler ds = Some (In_arith L_addiu) \<and> kept O_rt ds = 8 \<and> kept O_simm ds = 5" for fresh
  proof -
    obtain ds dc' l where *: "decode_entry (vaddr_read mips32r1_defconfig 0xbfc00000 4) fresh 0 0
        (\<lambda>_. \<lparr>dc_pc = 0xbfc00000, dc_next = []\<rparr>) (set_gpr 0 0 ?s) = Inr ((ds, dc'), u)"
      "\<forall>fetch fresh u. decode_entry fetch fresh 0 0 dc' u = Inr ((ds, dc'), u)" "decoder_get_handler 0x24080005 = Some l"
      "ds_handler ds = Some l" "\<forall>f \<in> set (reads l). kept f ds = shown f 0x24080005"
      using kept_operands_suffice [where idx = 0 and fresh = fresh, OF rd empty op] by blast
    then have "l = In_arith L_addiu" using l by simp
    then show ?thesis using *(1,2,4,5) i by (intro exI [of _ ds] exI [of _ dc']) simp
  qed
  then show ?thesis by blast
qed

end
