(* ===== verification/Hash_Table.thy ===== *)
theory Hash_Table
  imports Nemu_Prelude
begin

text \<open>
  The chained hash table of \<^verbatim>\<open>src/utils/hash.c\<close>. Keys and values are copied buffers, so they
  are lists of bytes; the pool is a function from slots to chains. A push does not look for an older
  binding of its key, it hides it, and a deletion uncovers it again: what the clients rely on, the
  locale \<open>binding_stacks\<close>, is a stack of values for every key.
\<close>

type_synonym hash_kv_t = "u8 list"

record hash_element_t =
  he_key :: hash_kv_t
  he_value :: hash_kv_t

type_synonym hash_table_t = "nat \<Rightarrow> hash_element_t list"

abbreviation (input) HASH_SIZE :: nat where "HASH_SIZE \<equiv> 4 * 1024"

definition bkdr_hash :: "hash_kv_t \<Rightarrow> nat" where
  "bkdr_hash key = unat (foldl (\<lambda>h b. h * 131 + ucast b) (0 :: u32) key AND 0x7FFFFFFF) mod HASH_SIZE"

definition hash_init :: "hash_table_t \<Rightarrow> hash_table_t" where
  "hash_init ht = (\<lambda>_. [])"

definition hash_push :: "hash_table_t \<Rightarrow> hash_kv_t \<Rightarrow> hash_kv_t \<Rightarrow> hash_table_t" where
  "hash_push ht key val =
     (let index = bkdr_hash key in ht(index := \<lparr>he_key = key, he_value = val\<rparr> # ht index))"

fun chain_find :: "hash_kv_t \<Rightarrow> hash_element_t list \<Rightarrow> hash_element_t option" where
  "chain_find key [] = None"
| "chain_find key (he # hes) = (if he_key he = key then Some he else chain_find key hes)"

definition hash_get :: "hash_table_t \<Rightarrow> hash_kv_t \<Rightarrow> hash_element_t option" where
  "hash_get ht key = chain_find key (ht (bkdr_hash key))"

text \<open>The loop of the deletion unlinks the first element with the key.\<close>

fun chain_delete :: "hash_kv_t \<Rightarrow> hash_element_t list \<Rightarrow> hash_element_t list" where
  "chain_delete key [] = []"
| "chain_delete key (he # hes) = (if he_key he = key then hes else he # chain_delete key hes)"

definition hash_delete :: "hash_table_t \<Rightarrow> hash_kv_t \<Rightarrow> hash_table_t" where
  "hash_delete ht key = (let index = bkdr_hash key in ht(index := chain_delete key (ht index)))"

text \<open>A client writes through the pointer to the value of the element that \<open>hash_get\<close> found.\<close>

fun chain_assign :: "hash_kv_t \<Rightarrow> hash_kv_t \<Rightarrow> hash_element_t list \<Rightarrow> hash_element_t list" where
  "chain_assign key val [] = []"
| "chain_assign key val (he # hes) =
     (if he_key he = key then he\<lparr>he_value := val\<rparr> # hes else he # chain_assign key val hes)"

definition hash_assign :: "hash_table_t \<Rightarrow> hash_kv_t \<Rightarrow> hash_kv_t \<Rightarrow> hash_table_t" where
  "hash_assign ht key val = (let index = bkdr_hash key in ht(index := chain_assign key val (ht index)))"

text \<open>The slots are emptied one after the other; the memory they held is not part of the model.\<close>

fun free_slots :: "nat \<Rightarrow> hash_table_t \<Rightarrow> hash_table_t" where
  "free_slots 0 ht = ht"
| "free_slots (Suc i) ht = (free_slots i ht)(i := [])"

definition hash_free :: "hash_table_t \<Rightarrow> hash_table_t" where
  "hash_free ht = free_slots HASH_SIZE ht"

text \<open>The elements in the order of \<^verbatim>\<open>hash_foreach\<close>.\<close>

definition hash_foreach :: "hash_table_t \<Rightarrow> hash_element_t list" where
  "hash_foreach ht = concat (map ht [0..<HASH_SIZE])"

section \<open>Stacks of values\<close>

locale binding_stacks =
  fixes empty :: 't
    and push :: "'t \<Rightarrow> 'k \<Rightarrow> 'v \<Rightarrow> 't"
    and get :: "'t \<Rightarrow> 'k \<Rightarrow> 'v option"
    and del :: "'t \<Rightarrow> 'k \<Rightarrow> 't"
    and assign :: "'t \<Rightarrow> 'k \<Rightarrow> 'v \<Rightarrow> 't"
    and bindings :: "'t \<Rightarrow> ('k \<times> 'v) list"
    and stack :: "'t \<Rightarrow> 'k \<Rightarrow> 'v list"
    and wf :: "'t \<Rightarrow> bool"
  assumes wf_empty: "wf empty" and stack_empty: "stack empty k = []"
    and wf_push: "wf t \<Longrightarrow> wf (push t k v)"
    and stack_push: "wf t \<Longrightarrow> stack (push t k v) k' = (if k' = k then v # stack t k else stack t k')"
    and get_stack: "wf t \<Longrightarrow> get t k = (case stack t k of [] \<Rightarrow> None | v # _ \<Rightarrow> Some v)"
    and wf_del: "wf t \<Longrightarrow> wf (del t k)"
    and stack_del: "wf t \<Longrightarrow> stack (del t k) k' = (if k' = k then tl (stack t k) else stack t k')"
    and wf_assign: "wf t \<Longrightarrow> wf (assign t k v)"
    and stack_assign: "wf t \<Longrightarrow> stack (assign t k v) k' =
          (if k' = k then (if stack t k = [] then [] else v # tl (stack t k)) else stack t k')"
    and bindings_stack: "wf t \<Longrightarrow> map snd (filter (\<lambda>b. fst b = k) (bindings t)) = stack t k"
begin

text \<open>
  Counting with a table: the first occurrence of a key enters \<open>first\<close>, every other one replaces the
  value by its successor.
\<close>

definition bump :: "'v \<Rightarrow> ('v \<Rightarrow> 'v) \<Rightarrow> 't \<Rightarrow> 'k \<Rightarrow> 't" where
  "bump first nxt t k = (case get t k of None \<Rightarrow> push t k first | Some v \<Rightarrow> assign t k (nxt v))"

lemma wf_bump: "wf t \<Longrightarrow> wf (bump first nxt t k)"
  by (simp add: bump_def wf_push wf_assign split: option.split)

lemma stack_bump:
  "wf t \<Longrightarrow> stack (bump first nxt t k) k' =
     (if k' = k then (case stack t k of [] \<Rightarrow> [first] | v # vs \<Rightarrow> nxt v # vs) else stack t k')"
  by (auto simp: bump_def get_stack stack_push stack_assign split: list.split)

lemma wf_bumps: "wf t \<Longrightarrow> wf (foldl (bump first nxt) t ks)"
  by (induction ks arbitrary: t) (simp_all add: wf_bump)

lemma stack_bumps:
  "wf t \<Longrightarrow> stack t k = [v] \<Longrightarrow> stack (foldl (bump first nxt) t ks) k = [(nxt ^^ count_list ks k) v]"
  by (induction ks arbitrary: t v) (auto simp: wf_bump stack_bump funpow_swap1)

lemma stack_bumps_new:
  "wf t \<Longrightarrow> stack t k = [] \<Longrightarrow> stack (foldl (bump first nxt) t ks) k =
     (if k \<in> set ks then [(nxt ^^ (count_list ks k - 1)) first] else [])"
proof (induction ks arbitrary: t)
  case Nil
  then show ?case by simp
next
  case (Cons k' ks)
  show ?case
  proof (cases "k' = k")
    case True
    then show ?thesis
      using stack_bumps [OF wf_bump [OF Cons.prems(1)], where k = k and v = first] Cons.prems by (simp add: stack_bump)
  next
    case False
    then show ?thesis using Cons.IH [OF wf_bump [OF Cons.prems(1)], of first nxt k'] Cons.prems by (simp add: stack_bump)
  qed
qed

lemma bumps_get:
  "get (foldl (bump first nxt) empty ks) k =
     (if k \<in> set ks then Some ((nxt ^^ (count_list ks k - 1)) first) else None)"
  using get_stack [OF wf_bumps [OF wf_empty]] stack_bumps_new [OF wf_empty stack_empty] by simp

lemma bumps_bindings:
  "map snd (filter (\<lambda>b. fst b = k) (bindings (foldl (bump first nxt) empty ks))) =
     (if k \<in> set ks then [(nxt ^^ (count_list ks k - 1)) first] else [])"
  using bindings_stack [OF wf_bumps [OF wf_empty]] stack_bumps_new [OF wf_empty stack_empty] by simp

end

section \<open>The hash table is such a table\<close>

definition hash_wf :: "hash_table_t \<Rightarrow> bool" where
  "hash_wf ht \<longleftrightarrow> (\<forall>i he. he \<in> set (ht i) \<longrightarrow> bkdr_hash (he_key he) = i)"

definition hash_stack :: "hash_table_t \<Rightarrow> hash_kv_t \<Rightarrow> hash_kv_t list" where
  "hash_stack ht key = map he_value (filter (\<lambda>he. he_key he = key) (ht (bkdr_hash key)))"

definition hash_value :: "hash_table_t \<Rightarrow> hash_kv_t \<Rightarrow> hash_kv_t option" where
  "hash_value ht key = map_option he_value (hash_get ht key)"

definition hash_bindings :: "hash_table_t \<Rightarrow> (hash_kv_t \<times> hash_kv_t) list" where
  "hash_bindings ht = map (\<lambda>he. (he_key he, he_value he)) (hash_foreach ht)"

lemma bkdr_hash_bound: "bkdr_hash key < HASH_SIZE"
  by (simp add: bkdr_hash_def)

lemma hash_init_empty [simp]: "hash_init ht i = []"
  by (simp add: hash_init_def)

lemma chain_find_filter:
  "map_option he_value (chain_find key hes) =
     (case map he_value (filter (\<lambda>he. he_key he = key) hes) of [] \<Rightarrow> None | v # _ \<Rightarrow> Some v)"
  by (induction hes) simp_all

lemma chain_delete_filter:
  "filter (\<lambda>he. he_key he = k') (chain_delete key hes) =
     (if k' = key then tl (filter (\<lambda>he. he_key he = key) hes) else filter (\<lambda>he. he_key he = k') hes)"
  by (induction hes) auto

lemma chain_delete_subset: "set (chain_delete key hes) \<subseteq> set hes"
  by (induction hes) auto

lemma chain_assign_filter:
  "map he_value (filter (\<lambda>he. he_key he = k') (chain_assign key v hes)) =
     (if k' = key then (case filter (\<lambda>he. he_key he = key) hes of [] \<Rightarrow> [] | _ # vs \<Rightarrow> v # map he_value vs)
      else map he_value (filter (\<lambda>he. he_key he = k') hes))"
  by (induction hes) auto

lemma chain_assign_keys: "he_key ` set (chain_assign key v hes) = he_key ` set hes"
  by (induction hes) auto

lemma hash_wf_keys: "hash_wf ht \<longleftrightarrow> (\<forall>i. \<forall>k\<in>he_key ` set (ht i). bkdr_hash k = i)"
  by (auto simp: hash_wf_def)

lemma filter_foreach:
  assumes "hash_wf ht"
  shows "filter (\<lambda>he. he_key he = key) (concat (map ht [0..<n])) =
     (if bkdr_hash key < n then filter (\<lambda>he. he_key he = key) (ht (bkdr_hash key)) else [])"
proof (induction n)
  case 0
  then show ?case by simp
next
  case (Suc n)
  have "filter (\<lambda>he. he_key he = key) (ht n) = []" if "bkdr_hash key \<noteq> n"
    using assms that by (auto simp: hash_wf_def filter_empty_conv)
  then show ?case using Suc by (auto simp: less_Suc_eq)
qed

lemma free_slots_apply: "free_slots n ht i = (if i < n then [] else ht i)"
  by (induction n) (auto simp: less_Suc_eq)

lemma hash_free_init:
  assumes "hash_wf ht"
  shows "hash_free ht = hash_init ht"
proof
  fix i
  have "ht i = []" if "\<not> i < HASH_SIZE"
  proof (rule ccontr)
    assume "ht i \<noteq> []"
    then have "bkdr_hash (he_key (hd (ht i))) = i" using assms by (simp add: hash_wf_def)
    then show False using that bkdr_hash_bound [of "he_key (hd (ht i))"] by simp
  qed
  then show "hash_free ht i = hash_init ht i" by (simp add: hash_free_def free_slots_apply)
qed

interpretation hash: binding_stacks "hash_init (\<lambda>_. [])" hash_push hash_value hash_delete hash_assign
    hash_bindings hash_stack hash_wf
proof unfold_locales
  fix t :: hash_table_t and k k' v :: hash_kv_t
  show "hash_wf (hash_init (\<lambda>_. []))" "hash_stack (hash_init (\<lambda>_. [])) k = []"
    by (simp_all add: hash_wf_def hash_stack_def)
  assume wf: "hash_wf t"
  show "hash_wf (hash_push t k v)" using wf by (auto simp: hash_wf_def hash_push_def Let_def)
  show "hash_stack (hash_push t k v) k' = (if k' = k then v # hash_stack t k else hash_stack t k')"
    by (simp add: hash_stack_def hash_push_def Let_def)
  show "hash_value t k = (case hash_stack t k of [] \<Rightarrow> None | v # _ \<Rightarrow> Some v)"
    by (simp add: hash_value_def hash_get_def hash_stack_def chain_find_filter)
  show "hash_wf (hash_delete t k)"
    using wf chain_delete_subset [of k "t (bkdr_hash k)"] by (auto simp: hash_wf_def hash_delete_def Let_def)
  show "hash_stack (hash_delete t k) k' = (if k' = k then tl (hash_stack t k) else hash_stack t k')"
    by (simp add: hash_stack_def hash_delete_def Let_def chain_delete_filter map_tl)
  show "hash_wf (hash_assign t k v)"
  proof -
    have "he_key ` set (hash_assign t k v i) = he_key ` set (t i)" for i
      by (simp add: hash_assign_def Let_def chain_assign_keys)
    then show ?thesis using wf by (simp only: hash_wf_keys)
  qed
  show "hash_stack (hash_assign t k v) k' =
      (if k' = k then if hash_stack t k = [] then [] else v # tl (hash_stack t k) else hash_stack t k')"
    by (auto simp: hash_stack_def hash_assign_def Let_def chain_assign_filter split: list.split)
  show "map snd (filter (\<lambda>b. fst b = k) (hash_bindings t)) = hash_stack t k"
    using filter_foreach [OF wf, of k HASH_SIZE] bkdr_hash_bound [of k]
    by (simp add: hash_bindings_def hash_foreach_def hash_stack_def filter_map comp_def)
qed

section \<open>Sequences of operations\<close>

datatype hash_op = Push hash_kv_t hash_kv_t | Delete hash_kv_t | Assign hash_kv_t hash_kv_t

fun hash_do :: "hash_table_t \<Rightarrow> hash_op \<Rightarrow> hash_table_t" where
  "hash_do ht (Push k v) = hash_push ht k v"
| "hash_do ht (Delete k) = hash_delete ht k"
| "hash_do ht (Assign k v) = hash_assign ht k v"

fun stacks_do :: "(hash_kv_t \<Rightarrow> hash_kv_t list) \<Rightarrow> hash_op \<Rightarrow> hash_kv_t \<Rightarrow> hash_kv_t list" where
  "stacks_do f (Push k v) = f(k := v # f k)"
| "stacks_do f (Delete k) = f(k := tl (f k))"
| "stacks_do f (Assign k v) = (if f k = [] then f else f(k := v # tl (f k)))"

lemma hash_do_wf: "hash_wf ht \<Longrightarrow> hash_wf (hash_do ht x)"
  by (cases x) (simp_all add: hash.wf_push hash.wf_del hash.wf_assign)

lemma hash_do_stack: "hash_wf ht \<Longrightarrow> hash_stack (hash_do ht x) = stacks_do (hash_stack ht) x"
  by (cases x) (auto simp: hash.stack_push hash.stack_del hash.stack_assign)

lemma hash_run:
  "hash_wf ht \<Longrightarrow> hash_wf (foldl hash_do ht ops) \<and>
     hash_stack (foldl hash_do ht ops) = foldl stacks_do (hash_stack ht) ops"
  by (induction ops arbitrary: ht) (simp_all add: hash_do_wf hash_do_stack)

text \<open>
  C32: the hash table refines a stack of values for every key. After any sequence of pushes, deletions
  and assignments through a found element, a lookup gives the newest value that was pushed for the
  key and not deleted, the walk over all slots meets exactly the values of the key, newest first,
  and freeing the table leaves it as a new one.
\<close>

theorem hash_refines_stacks:
  "let ht = foldl hash_do (hash_init ht0) ops; f = foldl stacks_do (\<lambda>_. []) ops
   in map_option he_value (hash_get ht key) = (case f key of [] \<Rightarrow> None | v # _ \<Rightarrow> Some v) \<and>
      map he_value (filter (\<lambda>he. he_key he = key) (hash_foreach ht)) = f key \<and>
      hash_free ht = hash_init ht1"
proof -
  have wf: "hash_wf (hash_init ht0)" and st: "hash_stack (hash_init ht0) = (\<lambda>_. [])"
    by (auto simp: hash_wf_def hash_stack_def)
  note r = hash_run [OF wf, of ops, unfolded st]
  show ?thesis
    using r hash.get_stack [of "foldl hash_do (hash_init ht0) ops" key]
      hash.bindings_stack [of "foldl hash_do (hash_init ht0) ops" key] hash_free_init
    by (simp add: hash_value_def hash_bindings_def filter_map comp_def Let_def hash_init_def)
qed

end
