(* ===== verification/Elfsym.thy ===== *)
theory Elfsym
  imports Nemu_Prelude
begin

text \<open>
  The symbol table of \<^verbatim>\<open>src/utils/elfsym.c\<close>: loading it from an ELF file, finding the
  address of a function and the function of an address, with the cache of answers that the profiler
  turns on. The file is a list of bytes, the layouts are those of \<^verbatim>\<open><elf.h>\<close>.
\<close>

section \<open>Structures\<close>

record Elf32_Sym =
  st_name :: u32
  st_value :: u32
  st_size :: u32
  st_info :: u8
  st_other :: u8
  st_shndx :: u16

record Elf32_Shdr =
  sh_name :: u32
  sh_type :: u32
  sh_offset :: u32
  sh_size :: u32

text \<open>
  The pointers to strings that a lookup returns: \<^verbatim>\<open>NULL\<close>, the literal for an unknown
  function, or a place in the string table.
\<close>

datatype symptr = SymNull | SymUnknown | SymStr int

record elfsym_t =
  es_file :: string
  es_strtab :: "u8 list option"
  es_symtab :: "Elf32_Sym list option"
  es_nr_symtab_entry :: nat
  es_strtab_size :: int
  es_addr2sym_cache :: "(nat \<Rightarrow> symptr \<times> u32) option"

abbreviation (input) ADDR2SYM_CACHE_BITS :: nat where "ADDR2SYM_CACHE_BITS \<equiv> 12"
abbreviation (input) NR_ADDR2SYM_CACHE_ENTRIES :: nat where "NR_ADDR2SYM_CACHE_ENTRIES \<equiv> 2 ^ ADDR2SYM_CACHE_BITS"

section \<open>Loading\<close>

definition rd32 :: "u8 list \<Rightarrow> nat \<Rightarrow> u32" where
  "rd32 b k = le32 (b ! k) (b ! (k + 1)) (b ! (k + 2)) (b ! (k + 3))"

definition rd16 :: "u8 list \<Rightarrow> nat \<Rightarrow> u16" where
  "rd16 b k = ucast (b ! k) OR push_bit 8 (ucast (b ! (k + 1)))"

definition elfsym_release :: "elfsym_t \<Rightarrow> elfsym_t" where
  "elfsym_release es = es\<lparr>es_strtab := None, es_symtab := None, es_nr_symtab_entry := 0, es_strtab_size := 0\<rparr>"

text \<open>
  \<^verbatim>\<open>fseek\<close>, \<^verbatim>\<open>fread\<close> of one block, and the assertion that it was read: a block of size zero
  counts as not read.
\<close>

definition fread_at :: "u8 list \<Rightarrow> nat \<Rightarrow> nat \<Rightarrow> elfsym_t \<Rightarrow> (u8 list, elfsym_t) outcome" where
  "fread_at f off n es =
     (if n = 0 \<or> length f < off + n then Inl (AssertFail, es) else Inr (take n (drop off f), es))"

definition shdr_at :: "u8 list \<Rightarrow> nat \<Rightarrow> elfsym_t \<Rightarrow> (Elf32_Shdr, elfsym_t) outcome" where
  "shdr_at sh i es =
     (if length sh < 40 * i + 40 then Inl (UndefinedBehaviour, es)
      else Inr (\<lparr>sh_name = rd32 sh (40 * i), sh_type = rd32 sh (40 * i + 4),
                 sh_offset = rd32 sh (40 * i + 16), sh_size = rd32 sh (40 * i + 20)\<rparr>, es))"

definition sym_at :: "u8 list \<Rightarrow> nat \<Rightarrow> Elf32_Sym" where
  "sym_at b i = \<lparr>st_name = rd32 b (16 * i), st_value = rd32 b (16 * i + 4), st_size = rd32 b (16 * i + 8),
     st_info = b ! (16 * i + 12), st_other = b ! (16 * i + 13), st_shndx = rd16 b (16 * i + 14)\<rparr>"

text \<open>
  Whether \<^verbatim>\<open>strcmp\<close> finds the string that starts the first buffer equal to the second, a
  string without its terminator; None when it reads past the buffer.
\<close>

fun strcmp_eq :: "u8 list \<Rightarrow> u8 list \<Rightarrow> bool option" where
  "strcmp_eq [] cs = None"
| "strcmp_eq (a # as) [] = Some (a = 0)"
| "strcmp_eq (a # as) (c # cs) = (if a \<noteq> c then Some False else strcmp_eq as cs)"

definition str_symtab :: "u8 list" where "str_symtab = [0x2E, 0x73, 0x79, 0x6D, 0x74, 0x61, 0x62]"
definition str_strtab :: "u8 list" where "str_strtab = [0x2E, 0x73, 0x74, 0x72, 0x74, 0x61, 0x62]"

abbreviation (input) SHT_SYMTAB :: u32 where "SHT_SYMTAB \<equiv> 2"
abbreviation (input) SHT_STRTAB :: u32 where "SHT_STRTAB \<equiv> 3"
abbreviation (input) STT_FUNC :: u8 where "STT_FUNC \<equiv> 2"

definition section_is :: "u32 \<Rightarrow> u8 list \<Rightarrow> u8 list \<Rightarrow> Elf32_Shdr \<Rightarrow> elfsym_t \<Rightarrow> (bool, elfsym_t) outcome" where
  "section_is typ name shstrtab sh es =
     (if sh_type sh \<noteq> typ then Inr (False, es)
      else case strcmp_eq (drop (unat (sh_name sh)) shstrtab) name of
             None \<Rightarrow> Inl (UndefinedBehaviour, es)
           | Some eq \<Rightarrow> Inr (eq, es))"

definition load_symtab :: "u8 list \<Rightarrow> Elf32_Shdr \<Rightarrow> elfsym_t \<Rightarrow> (unit, elfsym_t) outcome" where
  "load_symtab f sh es =
     bind_r (fread_at f (unat (sh_offset sh)) (unat (sh_size sh)) es)
       (\<lambda>b es. let n = unat (sh_size sh) div 16
                in Inr ((), es\<lparr>es_symtab := Some (map (sym_at b) [0..<n]), es_nr_symtab_entry := n\<rparr>))"

definition load_strtab :: "u8 list \<Rightarrow> Elf32_Shdr \<Rightarrow> elfsym_t \<Rightarrow> (unit, elfsym_t) outcome" where
  "load_strtab f sh es =
     bind_r (fread_at f (unat (sh_offset sh)) (unat (sh_size sh)) (es\<lparr>es_strtab_size := sint (sh_size sh)\<rparr>))
       (\<lambda>b es. Inr ((), es\<lparr>es_strtab := Some b\<rparr>))"

definition load_section :: "u8 list \<Rightarrow> u8 list \<Rightarrow> Elf32_Shdr \<Rightarrow> elfsym_t \<Rightarrow> (unit, elfsym_t) outcome" where
  "load_section f shstrtab sh es =
     bind_r (section_is SHT_SYMTAB str_symtab shstrtab sh es)
       (\<lambda>is_symtab es.
          if is_symtab then load_symtab f sh es
          else bind_r (section_is SHT_STRTAB str_strtab shstrtab sh es)
                 (\<lambda>is_strtab es. if is_strtab then load_strtab f sh es else Inr ((), es)))"

fun load_sections :: "u8 list \<Rightarrow> u8 list \<Rightarrow> u8 list \<Rightarrow> nat list \<Rightarrow> elfsym_t \<Rightarrow> (unit, elfsym_t) outcome" where
  "load_sections f sh shstrtab [] es = Inr ((), es)"
| "load_sections f sh shstrtab (i # is) es =
     bind_r (shdr_at sh i es)
       (\<lambda>h es. bind_r (load_section f shstrtab h es)
          (\<lambda>_ es. load_sections f sh shstrtab is es))"

definition elfsym_load :: "string \<Rightarrow> u8 list option \<Rightarrow> elfsym_t \<Rightarrow> (unit, elfsym_t) outcome" where
  "elfsym_load elf_file contents es =
     (let es = (elfsym_release es)\<lparr>es_file := elf_file\<rparr>
      in case contents of
           None \<Rightarrow> Inl (Panic, es)
         | Some f \<Rightarrow>
             bind_r (fread_at f 0 52 es)
               (\<lambda>buf es.
                  if take 4 buf \<noteq> [0x7F, 0x45, 0x4C, 0x46] then Inl (AssertFail, es)
                  else let shnum = unat (rd16 buf 48); size = unat (rd16 buf 46) * shnum
                       in if size \<ge> 2 ^ 31 then Inl (UndefinedBehaviour, es)
                          else bind_r (fread_at f (unat (rd32 buf 32)) size es)
                            (\<lambda>sh es. bind_r (shdr_at sh (unat (rd16 buf 50)) es)
                               (\<lambda>h es. bind_r (fread_at f (unat (sh_offset h)) (unat (sh_size h)) es)
                                  (\<lambda>shstrtab es. bind_r (load_sections f sh shstrtab [0..<shnum] es)
                                     (\<lambda>_ es. if es_strtab es \<noteq> None \<and> es_symtab es \<noteq> None then Inr ((), es)
                                              else Inl (AssertFail, es)))))))"

section \<open>Looking up\<close>

definition es_syms :: "elfsym_t \<Rightarrow> Elf32_Sym list" where
  "es_syms es = (case es_symtab es of None \<Rightarrow> [] | Some syms \<Rightarrow> take (es_nr_symtab_entry es) syms)"

definition ELF32_ST_TYPE :: "u8 \<Rightarrow> u8" where
  "ELF32_ST_TYPE i = i AND 0xF"

text \<open>Comparing a name with the string at an offset of the string table.\<close>

definition strtab_is :: "elfsym_t \<Rightarrow> int \<Rightarrow> u8 list \<Rightarrow> bool option" where
  "strtab_is es off name =
     (case es_strtab es of
        Some b \<Rightarrow> if off < 0 then None else strcmp_eq (drop (nat off) b) name
      | None \<Rightarrow> None)"

fun get_addr_loop :: "elfsym_t \<Rightarrow> u8 list \<Rightarrow> Elf32_Sym list \<Rightarrow> (u32, elfsym_t) outcome" where
  "get_addr_loop es symbol [] = Inr (0, es)"
| "get_addr_loop es symbol (s # ss) =
     (if ELF32_ST_TYPE (st_info s) \<noteq> STT_FUNC then get_addr_loop es symbol ss
      else if \<not> sint (st_name s) < es_strtab_size es then Inl (AssertFail, es)
      else case strtab_is es (sint (st_name s)) symbol of
             None \<Rightarrow> Inl (UndefinedBehaviour, es)
           | Some eq \<Rightarrow> if \<not> eq then get_addr_loop es symbol ss else Inr (st_value s, es))"

definition elfsym_get_addr :: "elfsym_t \<Rightarrow> u8 list \<Rightarrow> (u32, elfsym_t) outcome" where
  "elfsym_get_addr es symbol = get_addr_loop es symbol (es_syms es)"

definition addr_in_range :: "u32 \<Rightarrow> Elf32_Sym \<Rightarrow> bool" where
  "addr_in_range a s \<longleftrightarrow> st_value s \<le> a \<and> a < st_value s + st_size s"

fun find_loop :: "elfsym_t \<Rightarrow> u32 \<Rightarrow> Elf32_Sym list \<Rightarrow> (symptr, elfsym_t) outcome" where
  "find_loop es a [] = Inr (SymUnknown, es)"
| "find_loop es a (s # ss) =
     (if \<not> addr_in_range a s then find_loop es a ss
      else if ELF32_ST_TYPE (st_info s) \<noteq> STT_FUNC then find_loop es a ss
      else if \<not> sint (st_name s) < es_strtab_size es then Inl (AssertFail, es)
      else Inr (SymStr (sint (st_name s)), es))"

definition cache_index :: "u32 \<Rightarrow> nat" where
  "cache_index a = unat (a AND (push_bit ADDR2SYM_CACHE_BITS 1 - 1))"

definition cache_store :: "u32 \<Rightarrow> symptr \<Rightarrow> elfsym_t \<Rightarrow> elfsym_t" where
  "cache_store a p es =
     (case es_addr2sym_cache es of
        None \<Rightarrow> es
      | Some c \<Rightarrow> es\<lparr>es_addr2sym_cache := Some (c(cache_index a := (p, a)))\<rparr>)"

definition elfsym_find_symbol :: "elfsym_t \<Rightarrow> u32 \<Rightarrow> (symptr, elfsym_t) outcome" where
  "elfsym_find_symbol es a =
     (let miss = bind_r (find_loop es a (es_syms es)) (\<lambda>p es. Inr (p, cache_store a p es))
      in case es_addr2sym_cache es of
           None \<Rightarrow> miss
         | Some c \<Rightarrow> if snd (c (cache_index a)) = a then Inr (fst (c (cache_index a)), es) else miss)"

definition elfsym_optimize_find_symbol :: "elfsym_t \<Rightarrow> elfsym_t" where
  "elfsym_optimize_find_symbol es = es\<lparr>es_addr2sym_cache := Some (\<lambda>_. (SymNull, 0))\<rparr>"

text \<open>The C string behind a pointer.\<close>

definition symbol_string :: "elfsym_t \<Rightarrow> symptr \<Rightarrow> u8 list option" where
  "symbol_string es p =
     (case p of
        SymNull \<Rightarrow> None
      | SymUnknown \<Rightarrow> Some [0x3F]
      | SymStr off \<Rightarrow>
          (case es_strtab es of
             None \<Rightarrow> None
           | Some b \<Rightarrow> if off < 0 \<or> 0 \<notin> set (drop (nat off) b) then None
                       else Some (takeWhile (\<lambda>c. c \<noteq> 0) (drop (nat off) b))))"

section \<open>The cache of answers\<close>

text \<open>What an outcome returns, without the state.\<close>

definition outcome_value :: "('a, 's) outcome \<Rightarrow> fault + 'a" where
  "outcome_value r = (case r of Inl (e, _) \<Rightarrow> Inl e | Inr (x, _) \<Rightarrow> Inr x)"

definition no_cache :: "elfsym_t \<Rightarrow> elfsym_t" where
  "no_cache es = es\<lparr>es_addr2sym_cache := None\<rparr>"

text \<open>
  A slot of the cache is as the allocation left it, or holds the answer of the search for an address
  of that slot.
\<close>

definition cache_ok :: "elfsym_t \<Rightarrow> bool" where
  "cache_ok es \<longleftrightarrow> (case es_addr2sym_cache es of
     None \<Rightarrow> True
   | Some c \<Rightarrow> \<forall>i. c i = (SymNull, 0) \<or> (\<exists>p a. c i = (p, a) \<and> outcome_value (find_loop es a (es_syms es)) = Inr p))"

lemma find_loop_state: "find_loop es a ss = Inr (p, es') \<Longrightarrow> es' = es"
  by (induction ss) (auto split: if_splits)

lemma find_loop_frame:
  "outcome_value (find_loop (es\<lparr>es_addr2sym_cache := c\<rparr>) a ss) = outcome_value (find_loop es a ss)"
  by (induction ss) (simp_all add: outcome_value_def)

lemma es_syms_frame [simp]: "es_syms (es\<lparr>es_addr2sym_cache := c\<rparr>) = es_syms es"
  by (simp add: es_syms_def split: option.split)

lemma find_loop_first:
  "find_loop es a ss =
     (case find (\<lambda>s. addr_in_range a s \<and> ELF32_ST_TYPE (st_info s) = STT_FUNC) ss of
        None \<Rightarrow> Inr (SymUnknown, es)
      | Some s \<Rightarrow> if sint (st_name s) < es_strtab_size es then Inr (SymStr (sint (st_name s)), es)
                  else Inl (AssertFail, es))"
  by (induction ss) simp_all

lemma find_loop_ends: "(\<exists>p. find_loop es a ss = Inr (p, es)) \<or> (\<exists>e. find_loop es a ss = Inl (e, es))"
  by (simp add: find_loop_first split: option.split)

lemma find_loop_cases:
  obtains (found) p where "find_loop es a ss = Inr (p, es)" | (failed) e where "find_loop es a ss = Inl (e, es)"
  using find_loop_ends by blast

lemma find_uncached: "elfsym_find_symbol (no_cache es) a = find_loop (no_cache es) a (es_syms es)"
  by (cases rule: find_loop_cases [of "no_cache es" a "es_syms es"])
     (simp_all add: elfsym_find_symbol_def no_cache_def cache_store_def)

lemma find_value_uncached:
  "outcome_value (elfsym_find_symbol (no_cache es) a) = outcome_value (find_loop es a (es_syms es))"
  by (simp add: find_uncached) (simp add: no_cache_def find_loop_frame)

lemma cache_store_ok:
  assumes "cache_ok es" and "outcome_value (find_loop es a (es_syms es)) = Inr p"
  shows "cache_ok (cache_store a p es)"
  using assms by (auto simp: cache_ok_def cache_store_def find_loop_frame split: option.splits)

lemma no_cache_store [simp]: "no_cache (cache_store a p es) = no_cache es"
  by (simp add: no_cache_def cache_store_def split: option.split)

lemma find_symbol_step:
  assumes "cache_ok es" and "a \<noteq> 0"
  shows "outcome_value (elfsym_find_symbol es a) = outcome_value (elfsym_find_symbol (no_cache es) a)"
    and "elfsym_find_symbol es a = Inr (p, es') \<Longrightarrow> cache_ok es' \<and> no_cache es' = no_cache es"
proof -
  have hit: "outcome_value (find_loop es a (es_syms es)) = Inr (fst (c (cache_index a)))"
    if "es_addr2sym_cache es = Some c" "snd (c (cache_index a)) = a" for c
  proof -
    have "c (cache_index a) = (SymNull, 0) \<or>
        (\<exists>p b. c (cache_index a) = (p, b) \<and> outcome_value (find_loop es b (es_syms es)) = Inr p)"
      using assms(1) that(1) by (simp add: cache_ok_def)
    then show ?thesis using that(2) assms(2) by auto
  qed
  have miss: "outcome_value (bind_r (find_loop es a (es_syms es)) (\<lambda>p es. Inr (p, cache_store a p es))) =
      outcome_value (find_loop es a (es_syms es))"
    by (cases rule: find_loop_cases [of es a "es_syms es"]) (simp_all add: outcome_value_def)
  show "outcome_value (elfsym_find_symbol es a) = outcome_value (elfsym_find_symbol (no_cache es) a)"
  proof (cases "\<exists>c. es_addr2sym_cache es = Some c \<and> snd (c (cache_index a)) = a")
    case True
    then obtain c where c: "es_addr2sym_cache es = Some c" "snd (c (cache_index a)) = a" by blast
    then have "elfsym_find_symbol es a = Inr (fst (c (cache_index a)), es)" by (simp add: elfsym_find_symbol_def)
    then show ?thesis using hit [OF c] by (simp add: find_value_uncached) (simp add: outcome_value_def)
  next
    case False
    then have "elfsym_find_symbol es a = bind_r (find_loop es a (es_syms es)) (\<lambda>p es. Inr (p, cache_store a p es))"
      by (auto simp: elfsym_find_symbol_def Let_def split: option.split)
    then show ?thesis using miss by (simp add: find_value_uncached)
  qed
  show "cache_ok es' \<and> no_cache es' = no_cache es" if "elfsym_find_symbol es a = Inr (p, es')"
    using that assms(1) cache_store_ok [OF assms(1), of a]
    by (cases rule: find_loop_cases [of es a "es_syms es"])
       (auto simp: elfsym_find_symbol_def outcome_value_def Let_def split: option.splits if_splits)
qed

fun lookups :: "elfsym_t \<Rightarrow> u32 list \<Rightarrow> (symptr list, elfsym_t) outcome" where
  "lookups es [] = Inr ([], es)"
| "lookups es (a # as) =
     bind_r (elfsym_find_symbol es a) (\<lambda>p es. bind_r (lookups es as) (\<lambda>ps es. Inr (p # ps, es)))"

lemma outcome_value_eq_Inl: "outcome_value r = Inl e \<longleftrightarrow> (\<exists>s. r = Inl (e, s))"
  by (auto simp: outcome_value_def split: sum.splits prod.splits)

lemma outcome_value_eq_Inr: "outcome_value r = Inr x \<longleftrightarrow> (\<exists>s. r = Inr (x, s))"
  by (auto simp: outcome_value_def split: sum.splits prod.splits)

lemmas outcome_value_eq = outcome_value_eq_Inl outcome_value_eq_Inr

lemma outcome_value_bind:
  "outcome_value (bind_r r f) = (case r of Inl (e, _) \<Rightarrow> Inl e | Inr (x, s) \<Rightarrow> outcome_value (f x s))"
  by (auto simp: bind_r_def outcome_value_def split: sum.splits)

lemma no_cache_find_state: "elfsym_find_symbol (no_cache es) a = Inr (p, es') \<Longrightarrow> es' = no_cache es"
  by (simp add: find_uncached find_loop_state)

lemma lookups_cached:
  "cache_ok es \<Longrightarrow> 0 \<notin> set as \<Longrightarrow> outcome_value (lookups es as) = outcome_value (lookups (no_cache es) as)"
proof (induction as arbitrary: es)
  case Nil
  then show ?case by (simp add: outcome_value_def)
next
  case (Cons a as)
  have a: "a \<noteq> 0" using Cons.prems by auto
  note st = find_symbol_step [OF Cons.prems(1) a]
  show ?case
  proof (cases "elfsym_find_symbol es a")
    case (Inl x)
    then obtain e s where "elfsym_find_symbol es a = Inl (e, s)" by (cases x) auto
    moreover from this obtain s' where "elfsym_find_symbol (no_cache es) a = Inl (e, s')"
      using st(1) by (auto simp: outcome_value_eq outcome_value_def split: sum.splits prod.splits)
    ultimately show ?thesis by (simp add: outcome_value_def)
  next
    case (Inr x)
    then obtain p es' where f: "elfsym_find_symbol es a = Inr (p, es')" by (cases x) auto
    then obtain s' where g: "elfsym_find_symbol (no_cache es) a = Inr (p, s')"
      using st(1) by (auto simp: outcome_value_eq outcome_value_def split: sum.splits prod.splits)
    have "s' = no_cache es" by (rule no_cache_find_state [OF g])
    moreover have "outcome_value (lookups es' as) = outcome_value (lookups (no_cache es) as)"
      using Cons.IH [of es'] st(2) [OF f] Cons.prems by simp
    ultimately show ?thesis using f g by (auto simp: outcome_value_def bind_r_def split: sum.splits)
  qed
qed

text \<open>
  C33: the cache of answers does not change them. From the moment the cache is allocated, any sequence
  of lookups of addresses other than zero gives the same answers as without it: the first function of
  the table whose range holds the address, or the unknown symbol. Address zero meets the freshly
  cleared slot and is answered with the null pointer.
\<close>

theorem find_symbol_cache_transparent:
  "(0 \<notin> set as \<longrightarrow> outcome_value (lookups (elfsym_optimize_find_symbol es) as) = outcome_value (lookups (no_cache es) as)) \<and>
   outcome_value (elfsym_find_symbol (no_cache es) a) =
     (case find (\<lambda>s. addr_in_range a s \<and> ELF32_ST_TYPE (st_info s) = STT_FUNC) (es_syms es) of
        None \<Rightarrow> Inr SymUnknown
      | Some s \<Rightarrow> if sint (st_name s) < es_strtab_size es then Inr (SymStr (sint (st_name s))) else Inl AssertFail) \<and>
   outcome_value (elfsym_find_symbol (elfsym_optimize_find_symbol es) 0) = Inr SymNull"
proof (intro conjI impI)
  assume "0 \<notin> set as"
  then show "outcome_value (lookups (elfsym_optimize_find_symbol es) as) = outcome_value (lookups (no_cache es) as)"
    using lookups_cached [of "elfsym_optimize_find_symbol es" as]
    by (simp add: cache_ok_def elfsym_optimize_find_symbol_def no_cache_def)
next
  show "outcome_value (elfsym_find_symbol (no_cache es) a) =
     (case find (\<lambda>s. addr_in_range a s \<and> ELF32_ST_TYPE (st_info s) = STT_FUNC) (es_syms es) of
        None \<Rightarrow> Inr SymUnknown
      | Some s \<Rightarrow> if sint (st_name s) < es_strtab_size es then Inr (SymStr (sint (st_name s))) else Inl AssertFail)"
    unfolding find_value_uncached find_loop_first by (simp add: outcome_value_def split: option.split)
  show "outcome_value (elfsym_find_symbol (elfsym_optimize_find_symbol es) 0) = Inr SymNull"
    by (simp add: outcome_value_def elfsym_find_symbol_def elfsym_optimize_find_symbol_def)
qed

theorem find_symbol_cache_transparent_witness:
  "\<exists>es. outcome_value (lookups (elfsym_optimize_find_symbol es) [0x80001004, 0x80001004, 0x90000000]) =
     Inr [SymStr 5, SymStr 5, SymUnknown]"
proof -
  let ?es = "\<lparr>es_file = ''kernel'', es_strtab = Some (replicate 9 0),
     es_symtab = Some [\<lparr>st_name = 5, st_value = 0x80001000, st_size = 16, st_info = 0x12, st_other = 0, st_shndx = 1\<rparr>],
     es_nr_symtab_entry = 1, es_strtab_size = 9, es_addr2sym_cache = None\<rparr>"
  have "outcome_value (lookups (no_cache ?es) [0x80001004, 0x80001004, 0x90000000]) = Inr [SymStr 5, SymStr 5, SymUnknown]"
    by (simp add: outcome_value_def no_cache_def elfsym_find_symbol_def es_syms_def addr_in_range_def ELF32_ST_TYPE_def
        cache_store_def)
  then show ?thesis
    using find_symbol_cache_transparent [of "[0x80001004, 0x80001004, 0x90000000]" ?es 0] by (intro exI [of _ ?es]) simp
qed

section \<open>Reading back an image\<close>

text \<open>
  An ELF file with a symbol table and its strings: the header, the four section headers (the empty
  one, \<^verbatim>\<open>.symtab\<close>, \<^verbatim>\<open>.strtab\<close>, \<^verbatim>\<open>.shstrtab\<close>), the names of the sections, the symbols, the
  strings.
\<close>

definition w32 :: "u32 \<Rightarrow> u8 list" where
  "w32 w = [byte_of w 0, byte_of w 1, byte_of w 2, byte_of w 3]"

definition w16 :: "u16 \<Rightarrow> u8 list" where
  "w16 w = [ucast w, ucast (drop_bit 8 w)]"

definition sym_bytes :: "Elf32_Sym \<Rightarrow> u8 list" where
  "sym_bytes s = w32 (st_name s) @ w32 (st_value s) @ w32 (st_size s) @ [st_info s, st_other s] @ w16 (st_shndx s)"

definition shdr_bytes :: "u32 \<Rightarrow> u32 \<Rightarrow> nat \<Rightarrow> nat \<Rightarrow> u8 list" where
  "shdr_bytes name typ off len =
     w32 name @ w32 typ @ replicate 8 0 @ w32 (of_nat off) @ w32 (of_nat len) @ replicate 16 0"

definition shstr_bytes :: "u8 list" where
  "shstr_bytes = [0] @ str_symtab @ [0] @ str_strtab @ [0, 0x2E, 0x73, 0x68, 0x73, 0x74, 0x72, 0x74, 0x61, 0x62, 0]"

definition ehdr_bytes :: "u8 list" where
  "ehdr_bytes = [0x7F, 0x45, 0x4C, 0x46] @ replicate 28 0 @ w32 52 @ replicate 10 0 @ w16 40 @ w16 4 @ w16 3"

definition elf_shdrs :: "nat \<Rightarrow> nat \<Rightarrow> u8 list" where
  "elf_shdrs nsym nstr = shdr_bytes 0 0 0 0 @ shdr_bytes 1 SHT_SYMTAB 239 (16 * nsym) @
     shdr_bytes 9 SHT_STRTAB (239 + 16 * nsym) nstr @ shdr_bytes 17 SHT_STRTAB 212 27"

definition elf_image :: "Elf32_Sym list \<Rightarrow> u8 list \<Rightarrow> u8 list" where
  "elf_image syms strs =
     ehdr_bytes @ elf_shdrs (length syms) (length strs) @ shstr_bytes @ concat (map sym_bytes syms) @ strs"

lemma length_image_parts [simp]:
  "length (w32 w) = 4" "length (w16 h) = 2" "length (sym_bytes s) = 16" "length (shdr_bytes n t a l) = 40"
  "length shstr_bytes = 27" "length ehdr_bytes = 52" "length (elf_shdrs k m) = 160"
  by (simp_all add: w32_def w16_def sym_bytes_def shdr_bytes_def shstr_bytes_def ehdr_bytes_def elf_shdrs_def
      str_symtab_def str_strtab_def)

lemma length_syms [simp]: "length (concat (map sym_bytes syms)) = 16 * length syms"
  by (induction syms) simp_all

lemma rd32_append: "length a = k \<Longrightarrow> rd32 (a @ w32 w @ c) k = w"
  by (simp add: rd32_def w32_def nth_append le32_bytes [simplified])

lemma rd16_append:
  assumes "length a = k"
  shows "rd16 (a @ w16 w @ c) k = w"
proof -
  have "ucast (ucast w :: u8) OR push_bit 8 (ucast (ucast (drop_bit 8 w) :: u8)) = w"
    by (rule bit_eqI) (auto simp: bit_simps)
  then show ?thesis using assms by (simp add: rd16_def w16_def nth_append)
qed

lemma sym_at_bytes: "length a = 16 * i \<Longrightarrow> sym_at (a @ sym_bytes s @ c) i = s"
  using rd32_append [of a "16 * i" "st_name s"]
    rd32_append [of "a @ w32 (st_name s)" "16 * i + 4" "st_value s"]
    rd32_append [of "a @ w32 (st_name s) @ w32 (st_value s)" "16 * i + 8" "st_size s"]
    rd16_append [of "a @ w32 (st_name s) @ w32 (st_value s) @ w32 (st_size s) @ [st_info s, st_other s]" "16 * i + 14" "st_shndx s" c]
  by (cases s) (simp add: sym_at_def sym_bytes_def nth_append)

lemma syms_back:
  "map (sym_at (concat (map sym_bytes syms))) [0..<length syms] = syms"
proof (rule nth_equalityI)
  fix i assume "i < length (map (sym_at (concat (map sym_bytes syms))) [0..<length syms])"
  then have i: "i < length syms" by simp
  have "concat (map sym_bytes syms) =
      concat (map sym_bytes (take i syms)) @ sym_bytes (syms ! i) @ concat (map sym_bytes (drop (Suc i) syms))"
    using arg_cong [OF id_take_nth_drop [OF i], of "\<lambda>l. concat (map sym_bytes l)"] by simp
  then show "map (sym_at (concat (map sym_bytes syms))) [0..<length syms] ! i = syms ! i"
    using i sym_at_bytes [of "concat (map sym_bytes (take i syms))" i "syms ! i"] by simp
qed simp

lemma fread_part:
  "length a = off \<Longrightarrow> length b = n \<Longrightarrow> b \<noteq> [] \<Longrightarrow> fread_at (a @ b @ c) off n es = Inr (b, es)"
  by (auto simp: fread_at_def)

lemma shdr_at_bytes:
  assumes "length a = 40 * i"
  shows "shdr_at (a @ shdr_bytes name ty off len @ c) i es =
     Inr (\<lparr>sh_name = name, sh_type = ty, sh_offset = of_nat off, sh_size = of_nat len\<rparr>, es)"
  using assms rd32_append [of a "40 * i" name]
    rd32_append [of "a @ w32 name" "40 * i + 4" ty]
    rd32_append [of "a @ w32 name @ w32 ty @ replicate 8 0" "40 * i + 16" "of_nat off"]
    rd32_append [of "a @ w32 name @ w32 ty @ replicate 8 0 @ w32 (of_nat off)" "40 * i + 20" "of_nat len"]
  by (simp add: shdr_at_def shdr_bytes_def)

lemma elf_shdrs_at:
  "shdr_at (elf_shdrs n m) 0 es = Inr (\<lparr>sh_name = 0, sh_type = 0, sh_offset = 0, sh_size = 0\<rparr>, es)"
  "shdr_at (elf_shdrs n m) 1 es = Inr (\<lparr>sh_name = 1, sh_type = SHT_SYMTAB, sh_offset = 239, sh_size = of_nat (16 * n)\<rparr>, es)"
  "shdr_at (elf_shdrs n m) 2 es = Inr (\<lparr>sh_name = 9, sh_type = SHT_STRTAB, sh_offset = of_nat (239 + 16 * n), sh_size = of_nat m\<rparr>, es)"
  "shdr_at (elf_shdrs n m) 3 es = Inr (\<lparr>sh_name = 17, sh_type = SHT_STRTAB, sh_offset = 212, sh_size = 27\<rparr>, es)"
  using shdr_at_bytes [of "[]" 0 0 0 0 0] shdr_at_bytes [of "shdr_bytes 0 0 0 0" 1 1 SHT_SYMTAB 239 "16 * n"]
    shdr_at_bytes [of "shdr_bytes 0 0 0 0 @ shdr_bytes 1 SHT_SYMTAB 239 (16 * n)" 2 9 SHT_STRTAB "239 + 16 * n" m]
    shdr_at_bytes [of "shdr_bytes 0 0 0 0 @ shdr_bytes 1 SHT_SYMTAB 239 (16 * n) @ shdr_bytes 9 SHT_STRTAB (239 + 16 * n) m" 3 17 SHT_STRTAB 212 27 "[]"]
  by (simp_all add: elf_shdrs_def)

lemma ehdr_fields: "rd32 ehdr_bytes 32 = 52" "rd16 ehdr_bytes 46 = 40" "rd16 ehdr_bytes 48 = 4" "rd16 ehdr_bytes 50 = 3"
    "take 4 ehdr_bytes = [0x7F, 0x45, 0x4C, 0x46]"
  using rd32_append [of "[0x7F, 0x45, 0x4C, 0x46] @ replicate 28 0" 32 52]
    rd16_append [of "[0x7F, 0x45, 0x4C, 0x46] @ replicate 28 0 @ w32 52 @ replicate 10 0" 46 40]
    rd16_append [of "[0x7F, 0x45, 0x4C, 0x46] @ replicate 28 0 @ w32 52 @ replicate 10 0 @ w16 40" 48 4]
    rd16_append [of "[0x7F, 0x45, 0x4C, 0x46] @ replicate 28 0 @ w32 52 @ replicate 10 0 @ w16 40 @ w16 4" 50 3 "[]"]
  by (simp_all add: ehdr_bytes_def)

lemma section_names:
  "strcmp_eq (drop 1 shstr_bytes) str_symtab = Some True" "strcmp_eq (drop 9 shstr_bytes) str_strtab = Some True"
  "strcmp_eq (drop 17 shstr_bytes) str_strtab = Some False"
  by (simp_all add: shstr_bytes_def str_symtab_def str_strtab_def)

text \<open>The two sections that are loaded.\<close>

lemma image_freads:
  assumes "syms \<noteq> []" and "strs \<noteq> []"
  shows "fread_at (elf_image syms strs) 0 52 es = Inr (ehdr_bytes, es)"
    and "fread_at (elf_image syms strs) 52 160 es = Inr (elf_shdrs (length syms) (length strs), es)"
    and "fread_at (elf_image syms strs) 212 27 es = Inr (shstr_bytes, es)"
    and "fread_at (elf_image syms strs) 239 (16 * length syms) es = Inr (concat (map sym_bytes syms), es)"
    and "fread_at (elf_image syms strs) (239 + 16 * length syms) (length strs) es = Inr (strs, es)"
proof -
  let ?h = "elf_shdrs (length syms) (length strs)" and ?s = "concat (map sym_bytes syms)"
  have ne: "ehdr_bytes \<noteq> []" "?h \<noteq> []" "shstr_bytes \<noteq> []" "?s \<noteq> []"
    using assms(1) length_image_parts length_syms [of syms] by (metis length_0_conv mult_is_0 zero_neq_numeral)+
  show "fread_at (elf_image syms strs) 0 52 es = Inr (ehdr_bytes, es)"
    using fread_part [of "[]" 0 ehdr_bytes 52] ne by (simp add: elf_image_def)
  show "fread_at (elf_image syms strs) 52 160 es = Inr (?h, es)"
    using fread_part [of ehdr_bytes 52 ?h 160] ne by (simp add: elf_image_def)
  show "fread_at (elf_image syms strs) 212 27 es = Inr (shstr_bytes, es)"
    using fread_part [of "ehdr_bytes @ ?h" 212 shstr_bytes 27] ne by (simp add: elf_image_def)
  show "fread_at (elf_image syms strs) 239 (16 * length syms) es = Inr (?s, es)"
    using fread_part [of "ehdr_bytes @ ?h @ shstr_bytes" 239 ?s "16 * length syms"] ne by (simp add: elf_image_def)
  show "fread_at (elf_image syms strs) (239 + 16 * length syms) (length strs) es = Inr (strs, es)"
    using fread_part [of "ehdr_bytes @ ?h @ shstr_bytes @ ?s" "239 + 16 * length syms" strs "length strs" "[]"] assms(2)
    by (simp add: elf_image_def)
qed

lemma image_sections:
  assumes "syms \<noteq> []" and "strs \<noteq> []" and "239 + 16 * length syms < 2 ^ 31" and "length strs < 2 ^ 31"
  shows "load_sections (elf_image syms strs) (elf_shdrs (length syms) (length strs)) shstr_bytes [0, 1, 2, 3] es =
     Inr ((), es\<lparr>es_symtab := Some syms, es_nr_symtab_entry := length syms, es_strtab_size := int (length strs), es_strtab := Some strs\<rparr>)"
proof -
  have u: "unat (of_nat (16 * length syms) :: u32) = 16 * length syms" "unat (of_nat (length strs) :: u32) = length strs"
    "unat (of_nat (239 + 16 * length syms) :: u32) = 239 + 16 * length syms"
    by (rule unat_of_nat_u32, use assms(3,4) in simp)+
  have si: "sint (of_nat (length strs) :: u32) = int (length strs)"
    using assms(4) by (simp add: signed_of_nat signed_take_bit_int_eq_self)
  note r = image_freads [OF assms(1,2)]
  have s0: "load_section f shstr_bytes \<lparr>sh_name = 0, sh_type = 0, sh_offset = 0, sh_size = 0\<rparr> e = Inr ((), e)" for f e
    by (simp add: load_section_def section_is_def)
  have s1: "load_section (elf_image syms strs) shstr_bytes \<lparr>sh_name = 1, sh_type = SHT_SYMTAB, sh_offset = 239, sh_size = of_nat (16 * length syms)\<rparr> e =
      Inr ((), e\<lparr>es_symtab := Some syms, es_nr_symtab_entry := length syms\<rparr>)" for e
    using r(4) section_names(1) by (simp add: load_section_def section_is_def load_symtab_def Let_def u(1) [simplified] syms_back)
  have s2: "load_section (elf_image syms strs) shstr_bytes \<lparr>sh_name = 9, sh_type = SHT_STRTAB, sh_offset = of_nat (239 + 16 * length syms), sh_size = of_nat (length strs)\<rparr> e =
      Inr ((), e\<lparr>es_strtab_size := int (length strs), es_strtab := Some strs\<rparr>)" for e
    using r(5) section_names(2) by (simp add: load_section_def section_is_def load_strtab_def si u(2) u(3) [simplified])
  have s3: "load_section f shstr_bytes \<lparr>sh_name = 17, sh_type = SHT_STRTAB, sh_offset = 212, sh_size = 27\<rparr> e = Inr ((), e)" for f e
    using section_names(3) by (simp add: load_section_def section_is_def)
  show ?thesis by (simp only: load_sections.simps elf_shdrs_at bind_r_Inr s0 s1 s2 s3)
qed

lemma elfsym_load_elf_image:
  assumes "syms \<noteq> []" and "strs \<noteq> []" and "239 + 16 * length syms < 2 ^ 31" and "length strs < 2 ^ 31"
  shows "elfsym_load name (Some (elf_image syms strs)) es =
     Inr ((), es\<lparr>es_file := name, es_symtab := Some syms, es_nr_symtab_entry := length syms,
                 es_strtab_size := int (length strs), es_strtab := Some strs\<rparr>)"
proof -
  have four: "[0..<4] = [0, 1, 2, 3::nat]" by (simp add: upt_rec)
  show ?thesis
    using image_freads [OF assms(1,2)] image_sections [OF assms]
    by (simp add: elfsym_load_def elfsym_release_def ehdr_fields elf_shdrs_at four)
qed

text \<open>
  Loading reads back what an ELF file holds. From a file with a symbol table and a string table,
  loading fills in exactly the symbols and the strings, whatever was loaded before; a missing file, a
  file that is too short and one without the ELF signature end the emulator.
\<close>

theorem elfsym_load_image:
  assumes "syms \<noteq> []" and "strs \<noteq> []" and "239 + 16 * length syms < 2 ^ 31" and "length strs < 2 ^ 31"
  shows "elfsym_load name (Some (elf_image syms strs)) es =
     Inr ((), es\<lparr>es_file := name, es_symtab := Some syms, es_nr_symtab_entry := length syms,
                 es_strtab_size := int (length strs), es_strtab := Some strs\<rparr>) \<and>
     es_syms (es\<lparr>es_symtab := Some syms, es_nr_symtab_entry := length syms\<rparr>) = syms \<and>
     outcome_value (elfsym_load name None es) = Inl Panic \<and>
     (length f < 52 \<or> take 4 f \<noteq> [0x7F, 0x45, 0x4C, 0x46] \<longrightarrow> outcome_value (elfsym_load name (Some f) es) = Inl AssertFail)"
proof (intro conjI impI)
  show "elfsym_load name (Some (elf_image syms strs)) es =
     Inr ((), es\<lparr>es_file := name, es_symtab := Some syms, es_nr_symtab_entry := length syms,
                 es_strtab_size := int (length strs), es_strtab := Some strs\<rparr>)"
    using assms by (rule elfsym_load_elf_image)
  show "es_syms (es\<lparr>es_symtab := Some syms, es_nr_symtab_entry := length syms\<rparr>) = syms" by (simp add: es_syms_def)
  show "outcome_value (elfsym_load name None es) = Inl Panic" by (simp add: elfsym_load_def outcome_value_def)
  assume a: "length f < 52 \<or> take 4 f \<noteq> [0x7F, 0x45, 0x4C, 0x46]"
  show "outcome_value (elfsym_load name (Some f) es) = Inl AssertFail"
    using a by (cases "length f < 52") (simp_all add: elfsym_load_def outcome_value_def fread_at_def Let_def)
qed

theorem elfsym_load_image_witness:
  "\<exists>es. elfsym_load ''kernel'' (Some (elf_image [\<lparr>st_name = 1, st_value = 0x80001000, st_size = 16, st_info = 0x12, st_other = 0, st_shndx = 1\<rparr>]
       [0, 0x66, 0])) es = Inr ((), es) \<and> es_strtab es = Some [0, 0x66, 0]"
  using elfsym_load_image [of "[\<lparr>st_name = 1, st_value = 0x80001000, st_size = 16, st_info = 0x12, st_other = 0, st_shndx = 1\<rparr>]"
      "[0, 0x66, 0]" "''kernel''" "\<lparr>es_file = ''kernel'', es_strtab = Some [0, 0x66, 0],
     es_symtab = Some [\<lparr>st_name = 1, st_value = 0x80001000, st_size = 16, st_info = 0x12, st_other = 0, st_shndx = 1\<rparr>],
     es_nr_symtab_entry = 1, es_strtab_size = 3, es_addr2sym_cache = None\<rparr>" "[]"]
  by (intro exI [of _ "\<lparr>es_file = ''kernel'', es_strtab = Some [0, 0x66, 0],
     es_symtab = Some [\<lparr>st_name = 1, st_value = 0x80001000, st_size = 16, st_info = 0x12, st_other = 0, st_shndx = 1\<rparr>],
     es_nr_symtab_entry = 1, es_strtab_size = 3, es_addr2sym_cache = None\<rparr>"]) simp

end
