(* ===== verification/Profile.thy ===== *)
theory Profile
  imports Hash_Table Elfsym
begin

text \<open>
  The two profilers, clients of the hash table: \<^verbatim>\<open>src/monitor/elfperf.c\<close> counts the
  instructions, or adds up the time, of every function, and \<^verbatim>\<open>src/monitor/instr-perf.c\<close> counts the
  executions of every handler.
\<close>

section \<open>Numbers in buffers\<close>

definition le_bytes :: "nat \<Rightarrow> 'a::len word \<Rightarrow> u8 list" where
  "le_bytes n w = map (\<lambda>i. ucast (drop_bit (8 * i) w)) [0..<n]"

primrec le_word :: "u8 list \<Rightarrow> 'a::len word" where
  "le_word [] = 0"
| "le_word (b # bs) = ucast b OR push_bit 8 (le_word bs)"

lemma bit_le_word:
  "bit (le_word bs :: 'a::len word) i \<longleftrightarrow> i < LENGTH('a) \<and> i div 8 < length bs \<and> bit (bs ! (i div 8)) (i mod 8)"
proof (induction bs arbitrary: i)
  case Nil
  then show ?case by simp
next
  case (Cons b bs)
  show ?case
  proof (cases "i < 8")
    case True
    then show ?thesis by (auto simp: bit_simps dest: bit_imp_le_length)
  next
    case False
    then have d: "i div 8 = Suc ((i - 8) div 8)" "i mod 8 = (i - 8) mod 8" by (simp_all add: div_if mod_if)
    have "\<not> bit b i" using False by (auto dest: bit_imp_le_length)
    then show ?thesis using False Cons.IH [of "i - 8"] by (auto simp: bit_simps d)
  qed
qed

lemma le_word_bytes: "LENGTH('a) = 8 * n \<Longrightarrow> le_word (le_bytes n w) = (w :: 'a::len word)"
  by (rule bit_eqI) (auto simp: bit_le_word le_bytes_def bit_simps less_mult_imp_div_less mult.commute)

section \<open>Time and instructions of functions\<close>

datatype elfperf_mode = ELF_PERF_TIME | ELF_PERF_INSTR

record elfperf_t =
  ep_last_sym :: symptr
  ep_last_sym_st :: u64
  ep_ninstr :: u64
  ep_ht :: hash_table_t
  ep_es :: elfsym_t

definition elfperf_start :: "elfperf_t \<Rightarrow> elfperf_t" where
  "elfperf_start s = s\<lparr>ep_es := elfsym_optimize_find_symbol (ep_es s)\<rparr>"

text \<open>The lookup works on the symbol table inside the state.\<close>

definition ep_find :: "u32 \<Rightarrow> elfperf_t \<Rightarrow> (symptr, elfperf_t) outcome" where
  "ep_find a s =
     (case elfsym_find_symbol (ep_es s) a of
        Inl (e, es) \<Rightarrow> Inl (e, s\<lparr>ep_es := es\<rparr>)
      | Inr (p, es) \<Rightarrow> Inr (p, s\<lparr>ep_es := es\<rparr>))"

text \<open>The entry of a symbol in the table; \<open>ms\<close> is the time.\<close>

definition elfperf_count :: "elfperf_mode \<Rightarrow> u64 \<Rightarrow> symptr \<Rightarrow> elfperf_t \<Rightarrow> (unit, elfperf_t) outcome" where
  "elfperf_count mode ms updsym s =
     (case symbol_string (ep_es s) updsym of
        None \<Rightarrow> Inl (UndefinedBehaviour, s)
      | Some name \<Rightarrow>
          (let key = name @ [0]
           in case hash_get (ep_ht s) key of
                None \<Rightarrow>
                  Inr ((), s\<lparr>ep_ht := hash_push (ep_ht s) key
                         (le_bytes 8 (if mode = ELF_PERF_INSTR then 1 else 0 :: u64))\<rparr>)
              | Some he \<Rightarrow>
                  if length (he_value he) \<noteq> 8 then Inl (AssertFail, s)
                  else if mode = ELF_PERF_TIME
                  then Inr ((), s\<lparr>ep_ht := hash_assign (ep_ht s) key
                              (le_bytes 8 (le_word (he_value he) + (ms - ep_last_sym_st s) :: u64)), ep_last_sym_st := ms\<rparr>)
                  else Inr ((), s\<lparr>ep_ht := hash_assign (ep_ht s) key (le_bytes 8 (le_word (he_value he) + 1 :: u64))\<rparr>)))"

definition elfperf_record :: "elfperf_mode \<Rightarrow> u64 \<Rightarrow> u32 \<Rightarrow> elfperf_t \<Rightarrow> (unit, elfperf_t) outcome" where
  "elfperf_record mode now a s =
     bind_r (ep_find a s)
       (\<lambda>sym s. case mode of
            ELF_PERF_TIME \<Rightarrow>
              if sym = ep_last_sym s then Inr ((), s)
              else let updsym = ep_last_sym s; s = s\<lparr>ep_last_sym := sym\<rparr>
                   in if updsym = SymNull then Inr ((), s\<lparr>ep_last_sym_st := now\<rparr>)
                      else elfperf_count mode now updsym s
          | ELF_PERF_INSTR \<Rightarrow> elfperf_count mode now sym (s\<lparr>ep_ninstr := ep_ninstr s + 1\<rparr>))"

text \<open>The names and counters in the order they are printed; then the table is freed.\<close>

definition elfperf_report :: "elfperf_t \<Rightarrow> (u8 list \<times> u64) list \<times> elfperf_t" where
  "elfperf_report s =
     (map (\<lambda>he. (he_key he, le_word (he_value he))) (hash_foreach (ep_ht s)), s\<lparr>ep_ht := hash_free (ep_ht s)\<rparr>)"

section \<open>Executions of handlers\<close>

definition instrperf_start :: "hash_table_t \<Rightarrow> hash_table_t" where
  "instrperf_start ht = hash_init ht"

definition instrperf_end :: "hash_table_t \<Rightarrow> hash_table_t" where
  "instrperf_end ht = hash_free ht"

text \<open>The counter is an \<^verbatim>\<open>int\<close>, whose overflow C leaves undefined.\<close>

definition instrperf_record :: "u8 list \<Rightarrow> hash_table_t \<Rightarrow> (unit, hash_table_t) outcome" where
  "instrperf_record instr ht =
     (case hash_get ht instr of
        Some he \<Rightarrow>
          (let c = le_word (he_value he) :: u32
           in if sint c = 2 ^ 31 - 1 then Inl (UndefinedBehaviour, ht)
              else Inr ((), hash_assign ht instr (le_bytes 4 (c + 1))))
      | None \<Rightarrow> Inr ((), hash_push ht instr (le_bytes 4 (0 :: u32))))"

text \<open>The total, and a line for each handler with its counter; the share that is printed is their quotient.\<close>

definition instrperf_report :: "hash_table_t \<Rightarrow> (int \<times> (int \<times> u8 list) list) \<times> hash_table_t" where
  "instrperf_report ht =
     (let lines = map (\<lambda>he. (sint (le_word (he_value he) :: u32), he_key he)) (hash_foreach ht)
      in ((sum_list (map fst lines), lines), hash_free ht))"

section \<open>Counters\<close>

fun elfperf_run :: "elfperf_mode \<Rightarrow> (u64 \<times> u32) list \<Rightarrow> elfperf_t \<Rightarrow> (unit, elfperf_t) outcome" where
  "elfperf_run mode [] s = Inr ((), s)"
| "elfperf_run mode ((now, a) # rs) s = bind_r (elfperf_record mode now a s) (\<lambda>_ s. elfperf_run mode rs s)"

fun instrperf_run :: "u8 list list \<Rightarrow> hash_table_t \<Rightarrow> (unit, hash_table_t) outcome" where
  "instrperf_run [] ht = Inr ((), ht)"
| "instrperf_run (k # ks) ht = bind_r (instrperf_record k ht) (\<lambda>_ ht. instrperf_run ks ht)"

definition succ64 :: "hash_kv_t \<Rightarrow> hash_kv_t" where
  "succ64 v = le_bytes 8 (le_word v + 1 :: u64)"

definition succ32 :: "hash_kv_t \<Rightarrow> hash_kv_t" where
  "succ32 v = le_bytes 4 (le_word v + 1 :: u32)"

lemma succ64_pow: "(succ64 ^^ n) (le_bytes 8 (1 :: u64)) = le_bytes 8 (of_nat (Suc n) :: u64)"
  by (induction n) (simp_all add: succ64_def le_word_bytes add.commute)

lemma succ32_pow: "(succ32 ^^ n) (le_bytes 4 (0 :: u32)) = le_bytes 4 (of_nat n :: u32)"
  by (induction n) (simp_all add: succ32_def le_word_bytes add.commute)

text \<open>The keys of the recorded addresses: the names of their functions, with the terminator.\<close>

definition symbol_key :: "elfsym_t \<Rightarrow> u32 \<Rightarrow> u8 list option" where
  "symbol_key es a =
     (case outcome_value (elfsym_find_symbol (no_cache es) a) of
        Inr p \<Rightarrow> map_option (\<lambda>n. n @ [0]) (symbol_string es p)
      | Inl _ \<Rightarrow> None)"

text \<open>The values of the table of the profiler are counters of eight bytes.\<close>

definition counters64 :: "hash_table_t \<Rightarrow> bool" where
  "counters64 ht \<longleftrightarrow> hash_wf ht \<and> (\<forall>key v. v \<in> set (hash_stack ht key) \<longrightarrow> length v = 8)"

lemma length_le_bytes [simp]: "length (le_bytes n w) = n"
  by (simp add: le_bytes_def)

lemma counters64_bump:
  "counters64 ht \<Longrightarrow> counters64 (hash.bump (le_bytes 8 (1 :: u64)) succ64 ht k)"
  by (auto simp: counters64_def hash.wf_bump hash.stack_bump succ64_def split: list.splits) (metis list.set_intros(2))

lemma hash_get_value: "hash_get ht key = Some he \<Longrightarrow> hash_value ht key = Some (he_value he)"
  by (simp add: hash_value_def)

lemma counters64_get:
  assumes "counters64 ht" and "hash_get ht key = Some he"
  shows "length (he_value he) = 8"
  using assms hash.get_stack [of ht key] hash_get_value [OF assms(2)]
  by (auto simp: counters64_def split: list.splits) (metis list.set_intros(1))

lemma symbol_string_no_cache: "symbol_string (no_cache es) p = symbol_string es p"
  by (simp add: symbol_string_def no_cache_def split: symptr.split option.split)

lemma elfperf_record_instr:
  assumes "cache_ok (ep_es s)" and "a \<noteq> 0" and "symbol_key (ep_es s) a = Some key" and "counters64 (ep_ht s)"
  shows "\<exists>es. elfperf_record ELF_PERF_INSTR now a s =
     Inr ((), s\<lparr>ep_es := es, ep_ninstr := ep_ninstr s + 1, ep_ht := hash.bump (le_bytes 8 (1 :: u64)) succ64 (ep_ht s) key\<rparr>) \<and>
     cache_ok es \<and> no_cache es = no_cache (ep_es s)"
proof -
  note st = find_symbol_step [OF assms(1,2)]
  obtain p name where p: "outcome_value (elfsym_find_symbol (ep_es s) a) = Inr p"
    and n: "symbol_string (ep_es s) p = Some name" "key = name @ [0]"
    using assms(3) st(1) by (auto simp: symbol_key_def split: sum.splits)
  then obtain es where f: "elfsym_find_symbol (ep_es s) a = Inr (p, es)" by (auto simp: outcome_value_eq)
  have es: "cache_ok es" "no_cache es = no_cache (ep_es s)" using st(2) [OF f] by auto
  have n': "symbol_string es p = Some name"
    using n(1) es(2) symbol_string_no_cache [of es p] symbol_string_no_cache [of "ep_es s" p] by simp
  have "elfperf_count ELF_PERF_INSTR now p (s\<lparr>ep_es := es, ep_ninstr := ep_ninstr s + 1\<rparr>) =
      Inr ((), s\<lparr>ep_es := es, ep_ninstr := ep_ninstr s + 1, ep_ht := hash.bump (le_bytes 8 (1 :: u64)) succ64 (ep_ht s) key\<rparr>)"
    using n' n(2) counters64_get [OF assms(4), of key]
    by (auto simp: elfperf_count_def hash.bump_def hash_value_def succ64_def Let_def split: option.split)
  then show ?thesis using f es by (intro exI [of _ es]) (simp add: elfperf_record_def ep_find_def)
qed

lemma symbol_key_no_cache: "no_cache es = no_cache es' \<Longrightarrow> symbol_key es a = symbol_key es' a"
  unfolding symbol_key_def by (metis (no_types, lifting) symbol_string_no_cache option.map_cong0 sum.case_cong)

lemma elfperf_run_instr:
  assumes "cache_ok (ep_es s)" and "0 \<notin> snd ` set rs" and "map (\<lambda>r. symbol_key (ep_es s) (snd r)) rs = map Some keys"
    and "counters64 (ep_ht s)"
  shows "\<exists>es. elfperf_run ELF_PERF_INSTR rs s = Inr ((), s\<lparr>ep_es := es, ep_ninstr := ep_ninstr s + of_nat (length rs),
     ep_ht := foldl (hash.bump (le_bytes 8 (1 :: u64)) succ64) (ep_ht s) keys\<rparr>)"
  using assms
proof (induction rs arbitrary: s keys)
  case Nil
  then show ?case by (intro exI [of _ "ep_es s"]) simp
next
  case (Cons r rs)
  obtain now a where r: "r = (now, a)" by (cases r)
  obtain key ks where k: "keys = key # ks" using Cons.prems(3) by (cases keys) auto
  have key: "symbol_key (ep_es s) a = Some key" using Cons.prems(3) r k by simp
  obtain es where es: "elfperf_record ELF_PERF_INSTR now a s =
     Inr ((), s\<lparr>ep_es := es, ep_ninstr := ep_ninstr s + 1, ep_ht := hash.bump (le_bytes 8 (1 :: u64)) succ64 (ep_ht s) key\<rparr>)"
     "cache_ok es" "no_cache es = no_cache (ep_es s)"
    using elfperf_record_instr [OF Cons.prems(1) _ key Cons.prems(4), of now] Cons.prems(2) r by auto
  let ?s = "s\<lparr>ep_es := es, ep_ninstr := ep_ninstr s + 1, ep_ht := hash.bump (le_bytes 8 (1 :: u64)) succ64 (ep_ht s) key\<rparr>"
  have "map (\<lambda>r. symbol_key (ep_es ?s) (snd r)) rs = map Some ks"
    using Cons.prems(3) k r symbol_key_no_cache [OF es(3)] by simp
  moreover have "counters64 (ep_ht ?s)" using counters64_bump [OF Cons.prems(4)] by simp
  ultimately obtain es' where "elfperf_run ELF_PERF_INSTR rs ?s = Inr ((), ?s\<lparr>ep_es := es', ep_ninstr := ep_ninstr ?s + of_nat (length rs),
     ep_ht := foldl (hash.bump (le_bytes 8 (1 :: u64)) succ64) (ep_ht ?s) ks\<rparr>)"
    using Cons.IH [of ?s ks] Cons.prems(2) es(2) by auto
  then show ?case using es(1) r k by (intro exI [of _ es']) (simp add: add.assoc)
qed

lemma instrperf_run_append:
  "instrperf_run (ks @ [k]) ht = bind_r (instrperf_run ks ht) (\<lambda>_ ht. instrperf_record k ht)"
  by (induction ks arbitrary: ht) (auto simp: bind_r_def split: sum.splits)

lemma instrperf_record_bump:
  assumes "hash_value ht k = (if n = 0 then None else Some (le_bytes 4 (of_nat (n - 1) :: u32)))" and "n < 2 ^ 31"
  shows "instrperf_record k ht = Inr ((), hash.bump (le_bytes 4 (0 :: u32)) succ32 ht k)"
proof (cases "n = 0")
  case True
  then show ?thesis using assms(1) by (simp add: instrperf_record_def hash.bump_def hash_value_def)
next
  case False
  then obtain he where he: "hash_get ht k = Some he" "he_value he = le_bytes 4 (of_nat (n - 1) :: u32)"
    using assms(1) by (auto simp: hash_value_def)
  have "sint (of_nat (n - 1) :: u32) = int (n - 1)"
    using assms(2) by (simp add: signed_of_nat signed_take_bit_int_eq_self)
  then have "sint (of_nat (n - 1) :: u32) \<noteq> 2 ^ 31 - 1" using assms(2) False by simp
  then show ?thesis
    using he by (simp add: instrperf_record_def hash.bump_def hash_value_def succ32_def Let_def le_word_bytes)
qed

lemma instrperf_run_bumps:
  "(\<And>k. count_list ks k \<le> 2 ^ 31) \<Longrightarrow> instrperf_run ks (instrperf_start ht) =
     Inr ((), foldl (hash.bump (le_bytes 4 (0 :: u32)) succ32) (hash_init (\<lambda>_. [])) ks)"
proof (induction ks rule: rev_induct)
  case Nil
  then show ?case by (simp add: instrperf_start_def hash_init_def)
next
  case (snoc k ks)
  have le: "count_list ks k' \<le> 2 ^ 31" for k' using snoc.prems [of k'] by (simp add: count_list_append split: if_splits)
  let ?ht = "foldl (hash.bump (le_bytes 4 (0 :: u32)) succ32) (hash_init (\<lambda>_. [])) ks"
  have "hash_value ?ht k = (if count_list ks k = 0 then None else Some (le_bytes 4 (of_nat (count_list ks k - 1) :: u32)))"
    using hash.bumps_get [of "le_bytes 4 (0 :: u32)" succ32 ks k] by (simp add: succ32_pow count_list_0_iff)
  moreover have "count_list ks k < 2 ^ 31" using snoc.prems [of k] by (simp add: count_list_append)
  ultimately have "instrperf_record k ?ht = Inr ((), hash.bump (le_bytes 4 (0 :: u32)) succ32 ?ht k)"
    by (rule instrperf_record_bump)
  then show ?case by (simp only: instrperf_run_append snoc.IH [OF le] bind_r_Inr foldl_append foldl_Cons foldl_Nil)
qed

text \<open>
  The profilers count. After \<open>rs\<close> recorded instructions, none of them at address zero, whose
  functions have the names \<open>keys\<close>, the report on functions has one line for each name with the number
  of instructions in it, modulo \<open>2 ^ 64\<close>. After the handlers \<open>ks\<close> ran, none of them more than
  \<open>2 ^ 31\<close> times, the report on handlers has one line for each with the number of executions less one:
  the first one is not counted.
\<close>

theorem profile_counts:
  assumes "0 \<notin> snd ` set rs" and "map (\<lambda>r. symbol_key es (snd r)) rs = map Some keys"
    and "\<And>k. count_list ks k \<le> 2 ^ 31"
  shows "(\<exists>s'. elfperf_run ELF_PERF_INSTR rs (elfperf_start \<lparr>ep_last_sym = SymNull, ep_last_sym_st = 0, ep_ninstr = 0,
        ep_ht = hash_init (\<lambda>_. []), ep_es = es\<rparr>) = Inr ((), s') \<and> ep_ninstr s' = of_nat (length rs) \<and>
      map snd (filter (\<lambda>l. fst l = key) (fst (elfperf_report s'))) =
        (if key \<in> set keys then [of_nat (count_list keys key)] else [])) \<and>
    (\<exists>ht. instrperf_run ks (instrperf_start ht0) = Inr ((), ht) \<and>
      map fst (filter (\<lambda>l. snd l = key') (snd (fst (instrperf_report ht)))) =
        (if key' \<in> set ks then [int (count_list ks key') - 1] else []))"
proof (intro conjI)
  let ?s = "elfperf_start \<lparr>ep_last_sym = SymNull, ep_last_sym_st = 0, ep_ninstr = 0, ep_ht = hash_init (\<lambda>_. []), ep_es = es\<rparr>"
  let ?ht = "foldl (hash.bump (le_bytes 8 (1 :: u64)) succ64) (hash_init (\<lambda>_. [])) keys"
  have "symbol_key (ep_es ?s) = symbol_key es"
    by (rule ext, rule symbol_key_no_cache) (simp add: elfperf_start_def no_cache_def elfsym_optimize_find_symbol_def)
  moreover have "cache_ok (ep_es ?s)" by (simp add: elfperf_start_def cache_ok_def elfsym_optimize_find_symbol_def)
  moreover have "counters64 (ep_ht ?s)"
    by (simp add: elfperf_start_def counters64_def hash.wf_empty hash.stack_empty)
  ultimately obtain es' where run: "elfperf_run ELF_PERF_INSTR rs ?s =
      Inr ((), ?s\<lparr>ep_es := es', ep_ninstr := ep_ninstr ?s + of_nat (length rs), ep_ht := ?ht\<rparr>)"
    using elfperf_run_instr [of ?s rs keys] assms(1,2) by (auto simp: elfperf_start_def)
  have "1 + of_nat (count_list keys key - Suc 0) = (of_nat (count_list keys key) :: u64)" if "key \<in> set keys"
    using that count_list_0_iff [of keys key] by (cases "count_list keys key") simp_all
  then have "map (le_word \<circ> snd) (filter (\<lambda>b. fst b = key) (hash_bindings ?ht)) =
      (if key \<in> set keys then [of_nat (count_list keys key) :: u64] else [])"
    using arg_cong [OF hash.bumps_bindings [of key "le_bytes 8 (1 :: u64)" succ64 keys], of "map (le_word :: _ \<Rightarrow> u64)"]
      count_list_0_iff [of keys key]
    by (simp add: succ64_pow le_word_bytes comp_def)
  then show "\<exists>s'. elfperf_run ELF_PERF_INSTR rs ?s = Inr ((), s') \<and> ep_ninstr s' = of_nat (length rs) \<and>
      map snd (filter (\<lambda>l. fst l = key) (fst (elfperf_report s'))) =
        (if key \<in> set keys then [of_nat (count_list keys key)] else [])"
    using run by (simp add: elfperf_report_def hash_bindings_def filter_map comp_def elfperf_start_def)
  let ?ht' = "foldl (hash.bump (le_bytes 4 (0 :: u32)) succ32) (hash_init (\<lambda>_. [])) ks"
  have "sint (of_nat (count_list ks key' - 1) :: u32) = int (count_list ks key' - 1)"
    using assms(3) [of key'] by (simp add: signed_of_nat signed_take_bit_int_eq_self)
  then have "map (\<lambda>b. sint (le_word (snd b) :: u32)) (filter (\<lambda>b. fst b = key') (hash_bindings ?ht')) =
      (if key' \<in> set ks then [int (count_list ks key') - 1] else [])"
    using arg_cong [OF hash.bumps_bindings [of key' "le_bytes 4 (0 :: u32)" succ32 ks], of "map (\<lambda>v. sint (le_word v :: u32))"]
      count_list_0_iff [of ks key']
    by (auto simp: succ32_pow le_word_bytes comp_def)
  then show "\<exists>ht. instrperf_run ks (instrperf_start ht0) = Inr ((), ht) \<and>
      map fst (filter (\<lambda>l. snd l = key') (snd (fst (instrperf_report ht)))) =
        (if key' \<in> set ks then [int (count_list ks key') - 1] else [])"
    using instrperf_run_bumps [OF assms(3)]
    by (simp add: instrperf_report_def hash_bindings_def filter_map comp_def Let_def)
qed

text \<open>A program of two functions of 16 bytes, \<^verbatim>\<open>f\<close> and \<^verbatim>\<open>g\<close>.\<close>

definition two_functions :: elfsym_t where
  "two_functions = \<lparr>es_file = ''kernel'', es_strtab = Some [0x66, 0, 0x67, 0],
     es_symtab = Some [\<lparr>st_name = 0, st_value = 0x80001000, st_size = 16, st_info = 0x12, st_other = 0, st_shndx = 1\<rparr>,
                       \<lparr>st_name = 2, st_value = 0x80001010, st_size = 16, st_info = 0x12, st_other = 0, st_shndx = 1\<rparr>],
     es_nr_symtab_entry = 2, es_strtab_size = 4, es_addr2sym_cache = None\<rparr>"

lemma two_functions_find:
  "elfsym_find_symbol two_functions 0x80001004 = Inr (SymStr 0, two_functions)"
  "elfsym_find_symbol two_functions 0x80001014 = Inr (SymStr 2, two_functions)"
  "no_cache two_functions = two_functions"
  "symbol_string two_functions (SymStr 0) = Some [0x66]" "symbol_string two_functions (SymStr 2) = Some [0x67]"
  by (simp_all add: two_functions_def elfsym_find_symbol_def es_syms_def addr_in_range_def ELF32_ST_TYPE_def cache_store_def
      no_cache_def symbol_string_def)

text \<open>
  The time of a function is not what it spent: of the intervals 0 to 10 in \<^verbatim>\<open>f\<close>, 10 to 30 in
  \<^verbatim>\<open>g\<close> and 30 to 60 in \<^verbatim>\<open>f\<close>, all 60 are added to \<^verbatim>\<open>f\<close> and none to \<^verbatim>\<open>g\<close>, because
  entering a function into the table does not move the start of the interval.
\<close>

lemma elfperf_time_misattributed:
  "\<exists>s'. elfperf_run ELF_PERF_TIME [(0, 0x80001004), (10, 0x80001014), (30, 0x80001004), (60, 0x80001014)]
       \<lparr>ep_last_sym = SymNull, ep_last_sym_st = 0, ep_ninstr = 0, ep_ht = hash_init (\<lambda>_. []), ep_es = two_functions\<rparr> = Inr ((), s') \<and>
     map_option le_word (hash_value (ep_ht s') [0x66, 0]) = Some (60 :: u64) \<and>
     map_option le_word (hash_value (ep_ht s') [0x67, 0]) = Some (0 :: u64)"
  by (simp add: elfperf_record_def ep_find_def elfperf_count_def two_functions_find hash_value_def hash_get_def hash_push_def
      hash_assign_def Let_def bkdr_hash_def le_word_bytes)

theorem profile_counts_witness:
  "\<exists>s'. elfperf_run ELF_PERF_INSTR [(0, 0x80001004), (0, 0x80001014), (0, 0x80001004)]
       (elfperf_start \<lparr>ep_last_sym = SymNull, ep_last_sym_st = 0, ep_ninstr = 0, ep_ht = hash_init (\<lambda>_. []), ep_es = two_functions\<rparr>) =
       Inr ((), s') \<and> map snd (filter (\<lambda>l. fst l = [0x66, 0]) (fst (elfperf_report s'))) = [2]"
proof -
  have k: "symbol_key two_functions 0x80001004 = Some [0x66, 0]" "symbol_key two_functions 0x80001014 = Some [0x67, 0]"
    by (simp_all add: symbol_key_def two_functions_find outcome_value_def)
  show ?thesis
    using profile_counts [of "[(0, 0x80001004), (0, 0x80001014), (0, 0x80001004)]" two_functions "[[0x66, 0], [0x67, 0], [0x66, 0]]"
        "[]" "[0x66, 0]" "hash_init (\<lambda>_. [])" "[]"] k
    by auto
qed

end
