(* ===== verification/Traces.thy ===== *)
theory Traces
  imports Elfsym
begin

text \<open>
  The traces that the emulator keeps for its reports: the last instructions of
  \<^verbatim>\<open>src/monitor/iq.c\<close> and the last calls and returns of \<^verbatim>\<open>src/monitor/frame.c\<close>. Both are
  arrays that are overwritten in a ring; the locale \<open>ring_log\<close> is what the reports rely on.
\<close>

section \<open>Walking a ring\<close>

text \<open>
  The loop of the reports, from the place that is overwritten next once around the ring: the indices
  that it visits. It ends only when it meets its start again.
\<close>

partial_function (option) ring_loop :: "nat \<Rightarrow> nat \<Rightarrow> nat \<Rightarrow> nat list option" where
  "ring_loop n stop i =
     (let j = (i + 1) mod n
      in if j = stop then Some [i] else Option.bind (ring_loop n stop j) (\<lambda>is. Some (i # is)))"

lemma ring_loop_from:
  "p < n \<Longrightarrow> k < n \<Longrightarrow> ring_loop n p ((p + k) mod n) = Some (map (\<lambda>m. (p + m) mod n) [k..<n])"
proof (induction "n - k" arbitrary: k)
  case 0
  then show ?case by simp
next
  case (Suc d)
  have j: "((p + k) mod n + 1) mod n = (p + Suc k) mod n" by (simp add: mod_simps)
  show ?case
  proof (cases "Suc k = n")
    case True
    then have "(p + Suc k) mod n = p" using Suc.prems by simp
    then show ?thesis
      using j True Suc.prems by (subst ring_loop.simps) (simp add: upt_rec)
  next
    case False
    have "(p + Suc k) mod n \<noteq> p"
    proof
      assume "(p + Suc k) mod n = p"
      then show False using Suc.prems False by (cases "p + Suc k < n") (auto simp: mod_if split: if_splits)
    qed
    moreover have "ring_loop n p ((p + Suc k) mod n) = Some (map (\<lambda>m. (p + m) mod n) [Suc k..<n])"
      using Suc.hyps(1) [of "Suc k"] Suc.hyps(2) Suc.prems False by linarith
    ultimately show ?thesis
      using j Suc.prems by (subst ring_loop.simps) (simp add: upt_conv_Cons)
  qed
qed

lemma ring_loop_all: "p < n \<Longrightarrow> ring_loop n p p = Some (map (\<lambda>m. (p + m) mod n) [0..<n])"
  using ring_loop_from [of p n 0] by simp

lemma ring_update:
  assumes "length xs = n" and "p < n"
  shows "map (\<lambda>m. xs[p := x] ! (((p + 1) mod n + m) mod n)) [0..<n] = tl (map (\<lambda>m. xs ! ((p + m) mod n)) [0..<n]) @ [x]"
proof (rule nth_equalityI)
  show "length (map (\<lambda>m. xs[p := x] ! (((p + 1) mod n + m) mod n)) [0..<n]) =
      length (tl (map (\<lambda>m. xs ! ((p + m) mod n)) [0..<n]) @ [x])"
    using assms(2) by simp
  fix k assume "k < length (map (\<lambda>m. xs[p := x] ! (((p + 1) mod n + m) mod n)) [0..<n])"
  then have k: "k < n" by simp
  have idx: "((p + 1) mod n + k) mod n = (p + Suc k) mod n" by (simp add: mod_simps)
  show "map (\<lambda>m. xs[p := x] ! (((p + 1) mod n + m) mod n)) [0..<n] ! k =
      (tl (map (\<lambda>m. xs ! ((p + m) mod n)) [0..<n]) @ [x]) ! k"
  proof (cases "Suc k = n")
    case True
    then have "(p + Suc k) mod n = p" using assms(2) by simp
    moreover have "\<not> k < n - 1" "k - (n - 1) = 0" using True by simp_all
    ultimately show ?thesis using idx assms k by (simp add: nth_append)
  next
    case False
    then have "(p + Suc k) mod n \<noteq> p"
      using k assms(2) by (cases "p + Suc k < n") (auto simp: mod_if split: if_splits)
    moreover have "k < n - 1" "Suc k < n" using False k by simp_all
    ultimately show ?thesis using idx k by (simp add: nth_append nth_tl)
  qed
qed

section \<open>Logs of fixed length\<close>

locale ring_log =
  fixes put :: "'e \<Rightarrow> 's \<Rightarrow> 's"
    and entries :: "'s \<Rightarrow> 'e list"
    and wf :: "'s \<Rightarrow> bool"
    and capacity :: nat
  assumes wf_put: "wf s \<Longrightarrow> wf (put e s)"
    and entries_put: "wf s \<Longrightarrow> entries (put e s) = tl (entries s) @ [e]"
    and length_entries: "wf s \<Longrightarrow> length (entries s) = capacity"
    and capacity_pos: "0 < capacity"
begin

lemma wf_puts: "wf s \<Longrightarrow> wf (fold put es s)"
  by (induction es arbitrary: s) (simp_all add: wf_put)

text \<open>The log holds the last entries, oldest first.\<close>

lemma entries_puts: "wf s \<Longrightarrow> entries (fold put es s) = drop (length es) (entries s @ es)"
proof (induction es arbitrary: s)
  case Nil
  then show ?case by simp
next
  case (Cons e es)
  have "entries s \<noteq> []" using length_entries [OF Cons.prems] capacity_pos by auto
  then obtain x xs where "entries s = x # xs" by (cases "entries s") simp_all
  then show ?case using Cons.IH [OF wf_put [OF Cons.prems]] entries_put [OF Cons.prems] by simp
qed

end

section \<open>The instruction queue\<close>

record iq_element_t =
  iq_pc :: u32
  iq_instr :: u32
  iq_instr_enq :: bool

record iq_state =
  iq_pc_ptr :: nat
  iq_instr_ptr :: nat
  iq_elems :: "iq_element_t list"

abbreviation (input) NR_IQ :: nat where "NR_IQ \<equiv> 20"

definition iq_start :: iq_state where
  "iq_start = \<lparr>iq_pc_ptr = 0, iq_instr_ptr = 0,
     iq_elems = replicate NR_IQ \<lparr>iq_pc = 0, iq_instr = 0, iq_instr_enq = False\<rparr>\<rparr>"

definition instr_enqueue_pc :: "u32 \<Rightarrow> iq_state \<Rightarrow> iq_state" where
  "instr_enqueue_pc a s =
     s\<lparr>iq_instr_ptr := iq_pc_ptr s,
       iq_elems := (iq_elems s)[iq_pc_ptr s := (iq_elems s ! iq_pc_ptr s)\<lparr>iq_pc := a, iq_instr_enq := False\<rparr>],
       iq_pc_ptr := (iq_pc_ptr s + 1) mod NR_IQ\<rparr>"

definition instr_enqueue_instr :: "u32 \<Rightarrow> iq_state \<Rightarrow> iq_state" where
  "instr_enqueue_instr i s =
     s\<lparr>iq_elems := (iq_elems s)[iq_instr_ptr s := (iq_elems s ! iq_instr_ptr s)\<lparr>iq_instr_enq := True, iq_instr := i\<rparr>]\<rparr>"

text \<open>The two queries fail in a build without the log.\<close>

definition get_current_pc :: "bool \<Rightarrow> iq_state \<Rightarrow> (u32, iq_state) outcome" where
  "get_current_pc CONFIG_INSTR_LOG s =
     (if \<not> CONFIG_INSTR_LOG then Inl (Panic, s) else Inr (iq_pc (iq_elems s ! iq_instr_ptr s), s))"

definition get_current_instr :: "bool \<Rightarrow> iq_state \<Rightarrow> (u32, iq_state) outcome" where
  "get_current_instr CONFIG_INSTR_LOG s =
     (if \<not> CONFIG_INSTR_LOG then Inl (Panic, s)
      else if iq_instr_enq (iq_elems s ! iq_instr_ptr s) then Inr (iq_instr (iq_elems s ! iq_instr_ptr s), s)
      else Inr (0, s))"

text \<open>
  A line of the report has the address, the instruction when it was fetched, and the symbol. The
  lookups may change the cache of the symbol table.
\<close>

fun print_each :: "('a \<Rightarrow> elfsym_t \<Rightarrow> ('l, elfsym_t) outcome) \<Rightarrow> 'a list \<Rightarrow> elfsym_t \<Rightarrow> ('l list, elfsym_t) outcome" where
  "print_each line [] es = Inr ([], es)"
| "print_each line (x # xs) es =
     bind_r (line x es) (\<lambda>l es. bind_r (print_each line xs es) (\<lambda>ls es. Inr (l # ls, es)))"

definition iq_entry :: "iq_element_t \<Rightarrow> u32 \<times> u32 option" where
  "iq_entry e = (iq_pc e, if iq_instr_enq e then Some (iq_instr e) else None)"

definition iq_line :: "u32 \<times> u32 option \<Rightarrow> elfsym_t \<Rightarrow> ((u32 \<times> u32 option) \<times> symptr, elfsym_t) outcome" where
  "iq_line e es = bind_r (elfsym_find_symbol es (fst e)) (\<lambda>p es. Inr ((e, p), es))"

definition kdbg_print_instr_queue ::
    "iq_state \<Rightarrow> elfsym_t \<Rightarrow> (((u32 \<times> u32 option) \<times> symptr) list, elfsym_t) outcome" where
  "kdbg_print_instr_queue s es =
     (case ring_loop NR_IQ (iq_pc_ptr s) (iq_pc_ptr s) of
        None \<Rightarrow> Inl (Hang, es)
      | Some is \<Rightarrow> print_each (\<lambda>i. iq_line (iq_entry (iq_elems s ! i))) is es)"

section \<open>Calls and returns\<close>

datatype frame_property = FRAME_NONE | FRAME_CALL | FRAME_RET

record frame_t =
  fr_property :: frame_property
  fr_pc :: u32
  fr_target :: u32
  fr_time :: "nat \<times> nat"

record frames_state =
  fr_pc_ptr :: nat
  fr_frames :: "frame_t list"

abbreviation (input) NR_FRAMES :: nat where "NR_FRAMES \<equiv> 400"
abbreviation (input) NR_BACKTRACE :: nat where "NR_BACKTRACE \<equiv> 100"

definition frames_start :: frames_state where
  "frames_start = \<lparr>fr_pc_ptr = 0,
     fr_frames = replicate NR_FRAMES \<lparr>fr_property = FRAME_NONE, fr_pc = 0, fr_target = 0, fr_time = (0, 0)\<rparr>\<rparr>"

definition frames_put :: "frame_t \<Rightarrow> frames_state \<Rightarrow> frames_state" where
  "frames_put f s = s\<lparr>fr_frames := (fr_frames s)[fr_pc_ptr s := f], fr_pc_ptr := (fr_pc_ptr s + 1) mod NR_FRAMES\<rparr>"

text \<open>The time of the host is an argument.\<close>

definition frames_enqueue_call :: "nat \<times> nat \<Rightarrow> u32 \<Rightarrow> u32 \<Rightarrow> frames_state \<Rightarrow> frames_state" where
  "frames_enqueue_call now a target s =
     frames_put \<lparr>fr_property = FRAME_CALL, fr_pc = a, fr_target = target, fr_time = now\<rparr> s"

definition frames_enqueue_ret :: "nat \<times> nat \<Rightarrow> u32 \<Rightarrow> u32 \<Rightarrow> frames_state \<Rightarrow> frames_state" where
  "frames_enqueue_ret now a target s =
     frames_put \<lparr>fr_property = FRAME_RET, fr_pc = a, fr_target = target, fr_time = now\<rparr> s"

definition frame_line :: "frame_t \<Rightarrow> elfsym_t \<Rightarrow> (frame_t \<times> symptr \<times> symptr, elfsym_t) outcome" where
  "frame_line f es =
     bind_r (elfsym_find_symbol es (fr_pc f))
       (\<lambda>p es. bind_r (elfsym_find_symbol es (fr_target f)) (\<lambda>q es. Inr ((f, p, q), es)))"

definition kdbg_print_frames :: "frames_state \<Rightarrow> elfsym_t \<Rightarrow> ((frame_t \<times> symptr \<times> symptr) list, elfsym_t) outcome" where
  "kdbg_print_frames s es =
     (case ring_loop NR_FRAMES (fr_pc_ptr s) (fr_pc_ptr s) of
        None \<Rightarrow> Inl (Hang, es)
      | Some is \<Rightarrow> print_each frame_line
          (filter (\<lambda>f. fr_property f \<noteq> FRAME_NONE) (map (\<lambda>i. fr_frames s ! i) is)) es)"

text \<open>
  The first loop of the backtrace collects the indices of the calls that have not returned; the array
  is its filled part. The second loop prints them.
\<close>

fun backtraces :: "frame_t list \<Rightarrow> nat list \<Rightarrow> nat list \<Rightarrow> nat list option" where
  "backtraces fs [] bt = Some bt"
| "backtraces fs (i # is) bt =
     (case fr_property (fs ! i) of
        FRAME_CALL \<Rightarrow> if length bt + 1 < NR_BACKTRACE then backtraces fs is (bt @ [i]) else None
      | FRAME_RET \<Rightarrow> backtraces fs is (if length bt > 0 then butlast bt else bt)
      | FRAME_NONE \<Rightarrow> backtraces fs is bt)"

definition kdbg_print_backtraces :: "frames_state \<Rightarrow> elfsym_t \<Rightarrow> ((frame_t \<times> symptr \<times> symptr) list, elfsym_t) outcome" where
  "kdbg_print_backtraces s es =
     (case ring_loop NR_FRAMES (fr_pc_ptr s) (fr_pc_ptr s) of
        None \<Rightarrow> Inl (Hang, es)
      | Some is \<Rightarrow>
          (case backtraces (fr_frames s) is [] of
             None \<Rightarrow> Inl (AssertFail, es)
           | Some bt \<Rightarrow> print_each (\<lambda>i. frame_line (fr_frames s ! i)) bt es))"

section \<open>Both traces are logs\<close>

definition iq_wf :: "iq_state \<Rightarrow> bool" where
  "iq_wf s \<longleftrightarrow> iq_pc_ptr s < NR_IQ \<and> length (iq_elems s) = NR_IQ"

definition iq_entries :: "iq_state \<Rightarrow> (u32 \<times> u32 option) list" where
  "iq_entries s = map (\<lambda>m. iq_entry (iq_elems s ! ((iq_pc_ptr s + m) mod NR_IQ))) [0..<NR_IQ]"

text \<open>What a step of the processor does: the address, and the instruction unless the fetch was left.\<close>

definition iq_step :: "u32 \<times> u32 option \<Rightarrow> iq_state \<Rightarrow> iq_state" where
  "iq_step e s =
     (let s = instr_enqueue_pc (fst e) s in case snd e of None \<Rightarrow> s | Some i \<Rightarrow> instr_enqueue_instr i s)"

definition frames_wf :: "frames_state \<Rightarrow> bool" where
  "frames_wf s \<longleftrightarrow> fr_pc_ptr s < NR_FRAMES \<and> length (fr_frames s) = NR_FRAMES"

definition frames_entries :: "frames_state \<Rightarrow> frame_t list" where
  "frames_entries s = map (\<lambda>m. fr_frames s ! ((fr_pc_ptr s + m) mod NR_FRAMES)) [0..<NR_FRAMES]"

lemma iq_entries_map: "iq_wf s \<Longrightarrow> iq_entries s = map (\<lambda>m. map iq_entry (iq_elems s) ! ((iq_pc_ptr s + m) mod NR_IQ)) [0..<NR_IQ]"
  by (simp add: iq_entries_def iq_wf_def)

lemma iq_step_elems:
  assumes "iq_wf s"
  shows "iq_pc_ptr (iq_step e s) = (iq_pc_ptr s + 1) mod NR_IQ"
    and "map iq_entry (iq_elems (iq_step e s)) = (map iq_entry (iq_elems s))[iq_pc_ptr s := e]"
  using assms
  by (cases e; cases "snd e"; simp add: iq_step_def instr_enqueue_pc_def instr_enqueue_instr_def iq_entry_def iq_wf_def map_update)+

lemma iq_wf_step: "iq_wf s \<Longrightarrow> iq_wf (iq_step e s)"
  by (cases "snd e") (simp_all add: iq_step_def instr_enqueue_pc_def instr_enqueue_instr_def iq_wf_def)

interpretation iq: ring_log iq_step iq_entries iq_wf NR_IQ
proof unfold_locales
  fix s e assume wf: "iq_wf s"
  show "iq_wf (iq_step e s)" using wf by (rule iq_wf_step)
  show "iq_entries (iq_step e s) = tl (iq_entries s) @ [e]"
    using ring_update [of "map iq_entry (iq_elems s)" NR_IQ "iq_pc_ptr s" e] wf
    by (simp only: iq_entries_map iq_wf_step iq_step_elems [OF wf]) (simp add: iq_wf_def)
  show "length (iq_entries s) = NR_IQ" by (simp add: iq_entries_def)
qed simp

interpretation frames: ring_log frames_put frames_entries frames_wf NR_FRAMES
proof unfold_locales
  fix s f assume wf: "frames_wf s"
  show "frames_wf (frames_put f s)" using wf by (simp add: frames_wf_def frames_put_def)
  show "frames_entries (frames_put f s) = tl (frames_entries s) @ [f]"
    using ring_update [of "fr_frames s" NR_FRAMES "fr_pc_ptr s" f] wf
    by (simp add: frames_entries_def frames_put_def frames_wf_def)
  show "length (frames_entries s) = NR_FRAMES" by (simp add: frames_entries_def)
qed simp

section \<open>What the reports print\<close>

lemma print_each_map: "print_each line (map f xs) es = print_each (\<lambda>x. line (f x)) xs es"
  by (induction xs arbitrary: es) simp_all

lemma print_instr_queue_entries:
  "iq_wf s \<Longrightarrow> kdbg_print_instr_queue s es = print_each iq_line (iq_entries s) es"
  by (simp add: kdbg_print_instr_queue_def ring_loop_all iq_wf_def iq_entries_def print_each_map)

lemma print_frames_entries:
  "frames_wf s \<Longrightarrow> kdbg_print_frames s es =
     print_each frame_line (filter (\<lambda>f. fr_property f \<noteq> FRAME_NONE) (frames_entries s)) es"
  by (simp add: kdbg_print_frames_def ring_loop_all frames_wf_def frames_entries_def comp_def)

text \<open>The backtrace on the frames themselves.\<close>

fun open_calls :: "frame_t list \<Rightarrow> frame_t list \<Rightarrow> frame_t list option" where
  "open_calls [] bt = Some bt"
| "open_calls (f # fs) bt =
     (case fr_property f of
        FRAME_CALL \<Rightarrow> if length bt + 1 < NR_BACKTRACE then open_calls fs (bt @ [f]) else None
      | FRAME_RET \<Rightarrow> open_calls fs (butlast bt)
      | FRAME_NONE \<Rightarrow> open_calls fs bt)"

lemma backtraces_open_calls:
  "map_option (map (\<lambda>i. fs ! i)) (backtraces fs is bt) = open_calls (map (\<lambda>i. fs ! i) is) (map (\<lambda>i. fs ! i) bt)"
  by (induction "is" arbitrary: bt) (simp_all add: map_butlast split: frame_property.split)

lemma print_backtraces_entries:
  assumes "frames_wf s"
  shows "kdbg_print_backtraces s es =
     (case open_calls (frames_entries s) [] of
        None \<Rightarrow> Inl (AssertFail, es) | Some bt \<Rightarrow> print_each frame_line bt es)"
proof -
  let ?is = "map (\<lambda>m. (fr_pc_ptr s + m) mod NR_FRAMES) [0..<NR_FRAMES]"
  have "open_calls (frames_entries s) [] = map_option (map (\<lambda>i. fr_frames s ! i)) (backtraces (fr_frames s) ?is [])"
    using backtraces_open_calls [of "fr_frames s" ?is "[]"] by (simp add: frames_entries_def comp_def)
  then show ?thesis
    using assms by (simp add: kdbg_print_backtraces_def ring_loop_all frames_wf_def print_each_map split: option.split)
qed

text \<open>
  A stretch of calls that all returned, of at most a given depth, and a stretch that leaves calls open.
\<close>

inductive returned :: "nat \<Rightarrow> frame_t list \<Rightarrow> bool" where
  "returned h []"
| "fr_property f = FRAME_NONE \<Longrightarrow> returned h fs \<Longrightarrow> returned h (f # fs)"
| "fr_property c = FRAME_CALL \<Longrightarrow> fr_property r = FRAME_RET \<Longrightarrow> returned h fs \<Longrightarrow> returned (Suc h) gs \<Longrightarrow>
     returned (Suc h) (c # fs @ r # gs)"

inductive leaves_open :: "nat \<Rightarrow> frame_t list \<Rightarrow> frame_t list \<Rightarrow> bool" where
  "returned h fs \<Longrightarrow> leaves_open h fs []"
| "returned (Suc h) fs \<Longrightarrow> fr_property c = FRAME_CALL \<Longrightarrow> leaves_open h gs cs \<Longrightarrow> leaves_open (Suc h) (fs @ c # gs) (c # cs)"

lemma open_calls_returned:
  "returned h fs \<Longrightarrow> length bt + h < NR_BACKTRACE \<Longrightarrow> open_calls (fs @ gs) bt = open_calls gs bt"
proof (induction arbitrary: bt gs rule: returned.induct)
  case (3 c r h fs gs')
  then show ?case using "3.IH"(1) [of "bt @ [c]" "r # gs' @ gs"] by simp
qed simp_all

lemma open_calls_leaves:
  "leaves_open h fs cs \<Longrightarrow> length bt + h < NR_BACKTRACE \<Longrightarrow> open_calls fs bt = Some (bt @ cs)"
proof (induction arbitrary: bt rule: leaves_open.induct)
  case (1 h fs)
  then show ?case using open_calls_returned [of h fs bt "[]"] by simp
next
  case (2 h fs c gs cs)
  then show ?case by (simp add: open_calls_returned)
qed

text \<open>
  The reports show what happened last. After any steps and any calls and returns, the instruction
  queue prints the last 20 steps, oldest first, with the instruction where one was fetched; the frames
  print the calls and returns among the last 400, oldest first; and when the last 400 records leave
  exactly the calls \<open>cs\<close> open, to a depth below 100, the backtrace prints these calls from the
  outermost to the innermost.
\<close>

theorem traces_report:
  assumes "leaves_open 99 (drop (length fs) (frames_entries frames_start @ fs)) cs"
  shows "kdbg_print_instr_queue (fold iq_step steps iq_start) es =
      print_each iq_line (drop (length steps) (replicate NR_IQ (0, None) @ steps)) es \<and>
    kdbg_print_frames (fold frames_put fs frames_start) es =
      print_each frame_line (filter (\<lambda>f. fr_property f \<noteq> FRAME_NONE) (drop (length fs - NR_FRAMES) fs)) es \<and>
    kdbg_print_backtraces (fold frames_put fs frames_start) es = print_each frame_line cs es"
proof (intro conjI)
  have iq: "iq_wf iq_start" "iq_entries iq_start = replicate NR_IQ (0, None)"
    by (simp_all add: iq_wf_def iq_start_def iq_entries_def iq_entry_def map_replicate_const)
  have fr: "frames_wf frames_start" by (simp add: frames_wf_def frames_start_def)
  show "kdbg_print_instr_queue (fold iq_step steps iq_start) es =
      print_each iq_line (drop (length steps) (replicate NR_IQ (0, None) @ steps)) es"
    by (simp only: print_instr_queue_entries [OF iq.wf_puts [OF iq(1)]] iq.entries_puts [OF iq(1)] iq(2))
  have "filter (\<lambda>f. fr_property f \<noteq> FRAME_NONE) (drop (length fs) (frames_entries frames_start @ fs)) =
      filter (\<lambda>f. fr_property f \<noteq> FRAME_NONE) (drop (length fs - NR_FRAMES) fs)"
    by (simp add: frames_entries_def frames_start_def map_replicate_const filter_empty_conv)
  then show "kdbg_print_frames (fold frames_put fs frames_start) es =
      print_each frame_line (filter (\<lambda>f. fr_property f \<noteq> FRAME_NONE) (drop (length fs - NR_FRAMES) fs)) es"
    by (simp add: print_frames_entries frames.wf_puts frames.entries_puts fr)
  show "kdbg_print_backtraces (fold frames_put fs frames_start) es = print_each frame_line cs es"
    using open_calls_leaves [OF assms, of "[]"]
    by (simp add: print_backtraces_entries frames.wf_puts frames.entries_puts fr)
qed

theorem traces_report_witness:
  "\<exists>es. outcome_value (kdbg_print_backtraces (frames_enqueue_call (1, 0) 0x80000040 0x80000400
       (frames_enqueue_ret (1, 0) 0x80000204 0x80000030 (frames_enqueue_call (1, 0) 0x80000020 0x80000200 frames_start))) es) =
     Inr [(\<lparr>fr_property = FRAME_CALL, fr_pc = 0x80000040, fr_target = 0x80000400, fr_time = (1, 0)\<rparr>, SymUnknown, SymUnknown)]"
proof -
  let ?c = "\<lparr>fr_property = FRAME_CALL, fr_pc = 0x80000020, fr_target = 0x80000200, fr_time = (1, 0)\<rparr>"
  let ?r = "\<lparr>fr_property = FRAME_RET, fr_pc = 0x80000204, fr_target = 0x80000030, fr_time = (1, 0)\<rparr>"
  let ?d = "\<lparr>fr_property = FRAME_CALL, fr_pc = 0x80000040, fr_target = 0x80000400, fr_time = (1, 0)\<rparr>"
  let ?n = "\<lparr>fr_property = FRAME_NONE, fr_pc = 0, fr_target = 0, fr_time = (0, 0)\<rparr>"
  let ?es = "\<lparr>es_file = [], es_strtab = None, es_symtab = None, es_nr_symtab_entry = 0, es_strtab_size = 0, es_addr2sym_cache = None\<rparr>"
  have last: "drop (length [?c, ?r, ?d]) (frames_entries frames_start @ [?c, ?r, ?d]) = (replicate 397 ?n @ [?c, ?r]) @ [?d]"
    by (simp add: frames_entries_def frames_start_def map_replicate_const)
  have "returned 99 (?c # [] @ ?r # [])"
    using returned.intros(3) [of ?c ?r 98 "[]" "[]"] by (simp add: returned.intros(1))
  then have "returned 99 (replicate k ?n @ [?c, ?r])" for k
    by (induction k) (simp_all add: returned.intros(2))
  then have "leaves_open 99 ((replicate 397 ?n @ [?c, ?r]) @ ?d # []) [?d]"
    using leaves_open.intros(2) [of 98 "replicate 397 ?n @ [?c, ?r]" ?d "[]" "[]"]
    by (simp add: leaves_open.intros(1) returned.intros(1))
  then have "kdbg_print_backtraces (fold frames_put [?c, ?r, ?d] frames_start) ?es = print_each frame_line [?d] ?es"
    using traces_report [of "[?c, ?r, ?d]" "[?d]" "[]" ?es] by (simp only: last)
  then show ?thesis
    by (intro exI [of _ ?es])
       (simp add: frames_enqueue_call_def frames_enqueue_ret_def frame_line_def elfsym_find_symbol_def es_syms_def
         cache_store_def outcome_value_def)
qed

end
