(* ===== verification/Disk.thy ===== *)
theory Disk
  imports Machine Traces
begin

text \<open>
  The disk of \<^verbatim>\<open>src/dev/nemu-disk.c\<close>: three registers describe a transfer between the guest's
  memory and a file of the host, a write to the fourth one performs it. The device works on the
  emulator, and on every write to a register it prints the backtrace of \<open>Traces\<close>.
\<close>

text \<open>
  The file is its contents; \<open>nd_named\<close> tells that a name was given, and a name without a file is a
  file that could not be opened.
\<close>

record nd_t =
  nd_named :: bool
  nd_fd :: "u8 list option"
  nd_regs :: "u32 list"

record disk_machine =
  dm_nemu :: nemu
  dm_nd :: nd_t
  dm_frames :: frames_state
  dm_elfsym :: elfsym_t

abbreviation (input) NEMUDISK_SIZE :: u32 where "NEMUDISK_SIZE \<equiv> 256 * 1024 * 1024"
abbreviation (input) ND_BUF_SR :: u32 where "ND_BUF_SR \<equiv> 0"
abbreviation (input) ND_ADDR_SR :: u32 where "ND_ADDR_SR \<equiv> 4"
abbreviation (input) ND_LEN_SR :: u32 where "ND_LEN_SR \<equiv> 8"
abbreviation (input) ND_OP_SR :: u32 where "ND_OP_SR \<equiv> 12"
abbreviation (input) ND_OP_RD :: int where "ND_OP_RD \<equiv> 0"
abbreviation (input) ND_OP_WR :: int where "ND_OP_WR \<equiv> 1"

definition nd_start :: nd_t where
  "nd_start = \<lparr>nd_named = False, nd_fd = None, nd_regs = replicate 4 0\<rparr>"

definition nemudisk_read :: "u32 \<Rightarrow> nat \<Rightarrow> disk_machine \<Rightarrow> (u32, disk_machine) outcome" where
  "nemudisk_read addr len m =
     bind_r (check_ioaddr addr (of_nat len) NEMUDISK_SIZE m)
       (\<lambda>_ m. if addr = ND_LEN_SR
               then (case nd_fd (dm_nd m) of
                       Some c \<Rightarrow> Inr (of_nat (length c), m)
                     | None \<Rightarrow> Inl (UndefinedBehaviour, m))
               else Inr (0, m))"

text \<open>The operation on the mapped buffer at \<open>a\<close>.\<close>

definition nd_transfer :: "int \<Rightarrow> ram \<Rightarrow> nat \<Rightarrow> nat \<Rightarrow> nat \<Rightarrow> u8 list \<Rightarrow> disk_machine \<Rightarrow> disk_machine" where
  "nd_transfer nd_op r a nd_addr nd_len c m =
     (if nd_op = ND_OP_RD
      then m\<lparr>dm_nemu := ram_put r (mem_write_block (ram_bytes r (dm_nemu m)) a (take nd_len (drop nd_addr c))) (dm_nemu m)\<rparr>
      else if nd_op = ND_OP_WR
      then m\<lparr>dm_nd := (dm_nd m)\<lparr>nd_fd := Some (file_write nd_addr (map (ram_bytes r (dm_nemu m)) [a ..< a + nd_len]) c)\<rparr>\<rparr>
      else m)"

definition nemudisk_write :: "config \<Rightarrow> u32 \<Rightarrow> nat \<Rightarrow> u32 \<Rightarrow> disk_machine \<Rightarrow> (unit, disk_machine) outcome" where
  "nemudisk_write cfg addr len data m =
     (if addr = ND_BUF_SR \<or> addr = ND_ADDR_SR \<or> addr = ND_LEN_SR
      then let m = m\<lparr>dm_nd := (dm_nd m)\<lparr>nd_regs := (nd_regs (dm_nd m))[unat (drop_bit 2 addr) := data]\<rparr>\<rparr>
           in case kdbg_print_backtraces (dm_frames m) (dm_elfsym m) of
                Inl (e, es) \<Rightarrow> Inl (e, m\<lparr>dm_elfsym := es\<rparr>)
              | Inr (_, es) \<Rightarrow> Inr ((), m\<lparr>dm_elfsym := es\<rparr>)
      else if addr = ND_OP_SR
      then case nd_fd (dm_nd m) of
             None \<Rightarrow> Inr ((), m)
           | Some c \<Rightarrow>
               (let nd_buf = nd_regs (dm_nd m) ! 0; nd_addr = nd_regs (dm_nd m) ! 1; nd_len = nd_regs (dm_nd m) ! 2
                in case vaddr_map cfg nd_buf nd_len (dm_nemu m) of
                     Inl (e, s) \<Rightarrow> Inl (e, m\<lparr>dm_nemu := s\<rparr>)
                   | Inr ((r, a), s) \<Rightarrow> Inr ((), nd_transfer (sint data) r a (unat nd_addr) (unat nd_len) c (m\<lparr>dm_nemu := s\<rparr>)))
      else Inr ((), m))"

definition nemudisk_set_blkio_file :: "u8 list option \<Rightarrow> nd_t \<Rightarrow> nd_t" where
  "nemudisk_set_blkio_file contents s = s\<lparr>nd_named := True, nd_fd := contents\<rparr>"

section \<open>Transfers\<close>

definition disk_cmd :: "config \<Rightarrow> u32 \<Rightarrow> u32 \<Rightarrow> u32 \<Rightarrow> u32 \<Rightarrow> disk_machine \<Rightarrow> (unit, disk_machine) outcome" where
  "disk_cmd cfg buf addr len op m =
     bind_r (nemudisk_write cfg ND_BUF_SR 4 buf m)
       (\<lambda>_ m. bind_r (nemudisk_write cfg ND_ADDR_SR 4 addr m)
          (\<lambda>_ m. bind_r (nemudisk_write cfg ND_LEN_SR 4 len m)
             (\<lambda>_ m. nemudisk_write cfg ND_OP_SR 4 op m)))"

lemma open_calls_none: "list_all (\<lambda>f. fr_property f = FRAME_NONE) fs \<Longrightarrow> open_calls fs bt = Some bt"
  by (induction fs arbitrary: bt) simp_all

lemma print_backtraces_none: "kdbg_print_backtraces frames_start es = Inr ([], es)"
proof -
  have "frames_wf frames_start" "list_all (\<lambda>f. fr_property f = FRAME_NONE) (frames_entries frames_start)"
    by (simp_all add: frames_wf_def frames_start_def frames_entries_def list_all_iff)
  then show ?thesis by (simp add: print_backtraces_entries open_calls_none)
qed

lemma vaddr_map_ddr:
  assumes "board s" and "is_unmapped b" and "unat (ioremap b) + unat n \<le> 0x10000000" and "n \<noteq> 0"
  shows "vaddr_map mips32r1_defconfig b n s = Inr ((Ram_ddr, unat (ioremap b)), s)"
proof -
  have "unat (ioremap b) < 0x10000000" using assms(3,4) by (simp add: unat_gt_0 [symmetric])
  then have "find_device (ioremap b) s = Some ddr_dev"
    using assms(1) by (simp add: board_def defconfig_device_def word_less_nat_alt ioremap_def and.assoc)
  then show ?thesis
    using assms(2) ddr_ram.mp_in [of "ioremap b" n s] assms(3)
    by (simp add: vaddr_map_def ddr_ram.d_map mips32r1_defconfig_def)
qed

lemma disk_cmd_ddr:
  assumes "board (dm_nemu m)" and "dm_frames m = frames_start" and "length (nd_regs (dm_nd m)) = 4"
    and "nd_fd (dm_nd m) = Some c" and "is_unmapped b" and "unat (ioremap b) + unat n \<le> 0x10000000" and "n \<noteq> 0"
  shows "disk_cmd mips32r1_defconfig b a n x m =
     Inr ((), nd_transfer (sint x) Ram_ddr (unat (ioremap b)) (unat a) (unat n) c
       (m\<lparr>dm_nd := (dm_nd m)\<lparr>nd_regs := [b, a, n, nd_regs (dm_nd m) ! 3]\<rparr>\<rparr>))"
proof -
  obtain w0 w1 w2 w3 where "nd_regs (dm_nd m) = [w0, w1, w2, w3]"
    using assms(3) by (auto simp: length_Suc_conv numeral_eq_Suc)
  then show ?thesis
    using assms(2,4) vaddr_map_ddr [OF assms(1,5-7)]
    by (simp add: disk_cmd_def nemudisk_write_def print_backtraces_none Let_def)
qed

lemma file_read_back: "take (length bs) (drop off (file_write off bs c)) = bs"
  by (simp add: file_write_def)

text \<open>
  C34: what is written to the disk reads back. On the default board a write command stores the bytes
  of a buffer in DDR memory into the file at the given position, growing it when needed and changing
  nothing of the emulator; a read command with any other buffer then brings exactly these bytes there
  and changes nothing else. Without a file a command does nothing.
\<close>

theorem disk_roundtrip:
  assumes "board (dm_nemu m)" and "dm_frames m = frames_start" and "length (nd_regs (dm_nd m)) = 4"
    and "nd_fd (dm_nd m) = Some c" and "n \<noteq> 0"
    and "is_unmapped b" and "unat (ioremap b) + unat n \<le> 0x10000000"
    and "is_unmapped b'" and "unat (ioremap b') + unat n \<le> 0x10000000"
  shows "\<exists>m1 m2. disk_cmd mips32r1_defconfig b a n 1 m = Inr ((), m1) \<and> disk_cmd mips32r1_defconfig b' a n 0 m1 = Inr ((), m2) \<and>
     dm_nemu m1 = dm_nemu m \<and>
     nd_fd (dm_nd m2) = Some (file_write (unat a) (map (ddr (dm_nemu m)) [unat (ioremap b) ..< unat (ioremap b) + unat n]) c) \<and>
     dm_nemu m2 = (dm_nemu m)\<lparr>ddr := mem_write_block (ddr (dm_nemu m)) (unat (ioremap b'))
       (map (ddr (dm_nemu m)) [unat (ioremap b) ..< unat (ioremap b) + unat n])\<rparr> \<and>
     disk_cmd mips32r1_defconfig b a n x (m\<lparr>dm_nd := (dm_nd m)\<lparr>nd_fd := None\<rparr>\<rparr>) =
       Inr ((), m\<lparr>dm_nd := (dm_nd m)\<lparr>nd_fd := None, nd_regs := [b, a, n, nd_regs (dm_nd m) ! 3]\<rparr>\<rparr>)"
proof -
  let ?bs = "map (ddr (dm_nemu m)) [unat (ioremap b) ..< unat (ioremap b) + unat n]"
  let ?m1 = "m\<lparr>dm_nd := (dm_nd m)\<lparr>nd_regs := [b, a, n, nd_regs (dm_nd m) ! 3], nd_fd := Some (file_write (unat a) ?bs c)\<rparr>\<rparr>"
  let ?m2 = "?m1\<lparr>dm_nd := (dm_nd ?m1)\<lparr>nd_regs := [b', a, n, nd_regs (dm_nd m) ! 3]\<rparr>,
      dm_nemu := (dm_nemu m)\<lparr>ddr := mem_write_block (ddr (dm_nemu m)) (unat (ioremap b')) ?bs\<rparr>\<rparr>"
  have c1: "disk_cmd mips32r1_defconfig b a n 1 m = Inr ((), ?m1)"
    using disk_cmd_ddr [OF assms(1-4,6,7,5), of a 1] by (simp add: nd_transfer_def)
  have rb: "take (unat n) (drop (unat a) (file_write (unat a) ?bs c)) = ?bs"
    using file_read_back [of ?bs "unat a" c] by simp
  have c2: "disk_cmd mips32r1_defconfig b' a n 0 ?m1 = Inr ((), ?m2)"
    using disk_cmd_ddr [of ?m1 "file_write (unat a) ?bs c" b' n a 0] assms rb by (simp add: nd_transfer_def)
  obtain w0 w1 w2 w3 where "nd_regs (dm_nd m) = [w0, w1, w2, w3]"
    using assms(3) by (auto simp: length_Suc_conv numeral_eq_Suc)
  then have "disk_cmd mips32r1_defconfig b a n x (m\<lparr>dm_nd := (dm_nd m)\<lparr>nd_fd := None\<rparr>\<rparr>) =
       Inr ((), m\<lparr>dm_nd := (dm_nd m)\<lparr>nd_fd := None, nd_regs := [b, a, n, nd_regs (dm_nd m) ! 3]\<rparr>\<rparr>)"
    using assms(2) by (simp add: disk_cmd_def nemudisk_write_def print_backtraces_none Let_def)
  then show ?thesis using c1 c2 by (intro exI [of _ ?m1] exI [of _ ?m2]) simp
qed

theorem disk_roundtrip_witness:
  "\<exists>m m1 m2. disk_cmd mips32r1_defconfig 0x80001000 512 512 1 m = Inr ((), m1) \<and>
     disk_cmd mips32r1_defconfig 0xA0002000 512 512 0 m1 = Inr ((), m2) \<and> nd_fd (dm_nd m) = Some []"
proof -
  obtain t where t: "board t" "cpu t = zero_cpu" by (rule board_exists)
  let ?m = "\<lparr>dm_nemu = t, dm_nd = \<lparr>nd_named = True, nd_fd = Some [], nd_regs = replicate 4 0\<rparr>, dm_frames = frames_start,
     dm_elfsym = \<lparr>es_file = [], es_strtab = None, es_symtab = None, es_nr_symtab_entry = 0, es_strtab_size = 0, es_addr2sym_cache = None\<rparr>\<rparr>"
  have "\<exists>m1 m2. disk_cmd mips32r1_defconfig 0x80001000 512 512 1 ?m = Inr ((), m1) \<and>
     disk_cmd mips32r1_defconfig 0xA0002000 512 512 0 m1 = Inr ((), m2)"
    using disk_roundtrip [of ?m "[]" 512 "0x80001000" "0xA0002000" 512 0] t(1)
    by (simp add: is_unmapped_def ioremap_def) blast
  then show ?thesis by (metis (no_types, lifting) disk_machine.select_convs(2) nd_t.select_convs(2))
qed

end
