(* ===== verification/Keyboard.thy ===== *)
theory Keyboard
  imports Ram
begin

text \<open>
  The keyboard of \<^verbatim>\<open>src/dev/nemu-kbd.c\<close>, a client of the bounded queue, with the tables of
  \<^verbatim>\<open>src/utils/sdlkey.c\<close>. The events of the window system that wait to be taken are a list.
\<close>

section \<open>Key codes\<close>

text \<open>
  The keys that the tables name, by the names of their constants, the other keys of the
  window system, and numbers outside its range.
\<close>

datatype SDLKey = SDLK string | SDLK_unnamed nat | SDLK_invalid int

datatype SDL_EventType = SDL_KEYDOWN | SDL_KEYUP

definition SDLK2scancode_map :: "(SDLKey \<times> u32 \<times> u32) list" where
  "SDLK2scancode_map =
    [(SDLK ''ESCAPE'', 0x76, 0xF076), (SDLK ''F1'', 0x05, 0xF005), (SDLK ''F2'', 0x06, 0xF006), (SDLK ''F3'', 0x04, 0xF004),
     (SDLK ''F4'', 0x0C, 0xF00C), (SDLK ''F5'', 0x03, 0xF003), (SDLK ''F6'', 0x0B, 0xF00B), (SDLK ''F7'', 0x83, 0xF083),
     (SDLK ''F8'', 0x0A, 0xF00A), (SDLK ''F9'', 0x01, 0xF001), (SDLK ''F10'', 0x09, 0xF009), (SDLK ''F11'', 0x78, 0xF078),
     (SDLK ''F12'', 0x07, 0xF007), (SDLK ''SCROLLOCK'', 0x7E, 0xF07E), (SDLK ''BACKQUOTE'', 0x0E, 0xF00E), (SDLK ''1'', 0x16, 0xF016),
     (SDLK ''2'', 0x1E, 0xF01E), (SDLK ''3'', 0x26, 0xF026), (SDLK ''4'', 0x25, 0xF025), (SDLK ''5'', 0x2E, 0xF02E),
     (SDLK ''6'', 0x36, 0xF036), (SDLK ''7'', 0x3D, 0xF03D), (SDLK ''8'', 0x3E, 0xF03E), (SDLK ''9'', 0x46, 0xF046),
     (SDLK ''0'', 0x45, 0xF045), (SDLK ''MINUS'', 0x4E, 0xF04E), (SDLK ''EQUALS'', 0x55, 0xF055), (SDLK ''BACKSPACE'', 0x66, 0xF066),
     (SDLK ''TAB'', 0x0D, 0xF00D), (SDLK ''q'', 0x15, 0xF015), (SDLK ''w'', 0x1D, 0xF01D), (SDLK ''e'', 0x24, 0xF024),
     (SDLK ''r'', 0x2D, 0xF02D), (SDLK ''t'', 0x2C, 0xF02C), (SDLK ''y'', 0x35, 0xF035), (SDLK ''u'', 0x3C, 0xF03C),
     (SDLK ''i'', 0x43, 0xF043), (SDLK ''o'', 0x44, 0xF044), (SDLK ''p'', 0x4D, 0xF04D), (SDLK ''LEFTBRACKET'', 0x54, 0xF054),
     (SDLK ''RIGHTBRACKET'', 0x5B, 0xF05B), (SDLK ''SLASH'', 0x5D, 0xF05D), (SDLK ''CAPSLOCK'', 0x58, 0xF058),
     (SDLK ''a'', 0x1C, 0xF01C), (SDLK ''s'', 0x1B, 0xF01B), (SDLK ''d'', 0x23, 0xF023), (SDLK ''f'', 0x2B, 0xF02B),
     (SDLK ''g'', 0x34, 0xF034), (SDLK ''h'', 0x33, 0xF033), (SDLK ''j'', 0x3B, 0xF03B), (SDLK ''k'', 0x42, 0xF042),
     (SDLK ''l'', 0x4B, 0xF04B), (SDLK ''SEMICOLON'', 0x4C, 0xF04C), (SDLK ''QUOTE'', 0x52, 0xF052), (SDLK ''RETURN'', 0x5A, 0xF05A),
     (SDLK ''LSHIFT'', 0x12, 0xF012), (SDLK ''z'', 0x1A, 0xF01A), (SDLK ''x'', 0x22, 0xF022), (SDLK ''c'', 0x21, 0xF021),
     (SDLK ''v'', 0x2A, 0xF02A), (SDLK ''b'', 0x32, 0xF032), (SDLK ''n'', 0x31, 0xF031), (SDLK ''m'', 0x3A, 0xF03A),
     (SDLK ''COMMA'', 0x41, 0xF041), (SDLK ''PERIOD'', 0x49, 0xF049), (SDLK ''BACKSLASH'', 0x4A, 0xF04A),
     (SDLK ''RSHIFT'', 0x59, 0xF059), (SDLK ''LCTRL'', 0x14, 0xF014), (SDLK ''LALT'', 0x11, 0xF011), (SDLK ''SPACE'', 0x29, 0xF029),
     (SDLK ''RALT'', 0xE011, 0xE0F011), (SDLK ''RCTRL'', 0xE014, 0xE0F014), (SDLK ''INSERT'', 0xE070, 0xE0F070),
     (SDLK ''HOME'', 0xE06C, 0xE0F06C), (SDLK ''PAGEUP'', 0xE07D, 0xE0F07D), (SDLK ''DELETE'', 0xE071, 0xE0F071),
     (SDLK ''END'', 0xE069, 0xE0F069), (SDLK ''PAGEDOWN'', 0xE07A, 0xE0F07A), (SDLK ''UP'', 0xE075, 0xE0F075),
     (SDLK ''LEFT'', 0xE06B, 0xE0F06B), (SDLK ''DOWN'', 0xE072, 0xE0F072), (SDLK ''RIGHT'', 0xE074, 0xE0F074),
     (SDLK ''NUMLOCK'', 0x77, 0xF077), (SDLK ''KP_DIVIDE'', 0xE04A, 0xE0F04A), (SDLK ''KP_MULTIPLY'', 0x7C, 0xF07C),
     (SDLK ''KP_MINUS'', 0x7B, 0xF07B), (SDLK ''KP_PLUS'', 0x79, 0xF079), (SDLK ''KP7'', 0x6C, 0xF06C), (SDLK ''KP8'', 0x75, 0xF075),
     (SDLK ''KP9'', 0x7D, 0xF07D), (SDLK ''KP4'', 0x6B, 0xF06B), (SDLK ''KP5'', 0x73, 0xF073), (SDLK ''KP6'', 0x74, 0xF074),
     (SDLK ''KP1'', 0x69, 0xF069), (SDLK ''KP2'', 0x72, 0xF072), (SDLK ''KP3'', 0x7A, 0xF07A), (SDLK ''KP0'', 0x70, 0xF070),
     (SDLK ''KP_EQUALS'', 0x71, 0xF071), (SDLK ''KP_ENTER'', 0xE05A, 0xE0F05A)]"

definition SDLK2ascii_map :: "(SDLKey \<times> u8 list) list" where
  "SDLK2ascii_map =
    [(SDLK ''ESCAPE'', [0x1B]), (SDLK ''F1'', [0x1B, 0x4F, 0x50]), (SDLK ''F2'', [0x1B, 0x4F, 0x51]),
     (SDLK ''F3'', [0x1B, 0x4F, 0x52]), (SDLK ''F4'', [0x1B, 0x4F, 0x53]), (SDLK ''F5'', [0x1B, 0x5B, 0x31, 0x35, 0x7E]),
     (SDLK ''F6'', [0x1B, 0x5B, 0x31, 0x37, 0x7E]), (SDLK ''F7'', [0x1B, 0x5B, 0x31, 0x38, 0x7E]),
     (SDLK ''F8'', [0x1B, 0x5B, 0x31, 0x39, 0x7E]), (SDLK ''F9'', [0x1B, 0x5B, 0x32, 0x30, 0x7E]),
     (SDLK ''F10'', [0x1B, 0x5B, 0x32, 0x31, 0x7E]), (SDLK ''F11'', [0x1B, 0x5B, 0x32, 0x32, 0x7E]),
     (SDLK ''F12'', [0x1B, 0x5B, 0x32, 0x34, 0x7E]), (SDLK ''BACKQUOTE'', [0x60]), (SDLK ''1'', [0x31]), (SDLK ''2'', [0x32]),
     (SDLK ''3'', [0x33]), (SDLK ''4'', [0x34]), (SDLK ''5'', [0x35]), (SDLK ''6'', [0x36]), (SDLK ''7'', [0x37]), (SDLK ''8'', [0x38]),
     (SDLK ''9'', [0x39]), (SDLK ''0'', [0x30]), (SDLK ''MINUS'', [0x2D]), (SDLK ''EQUALS'', [0x3D]), (SDLK ''BACKSPACE'', [0x08]),
     (SDLK ''TAB'', [0x09]), (SDLK ''q'', [0x71]), (SDLK ''w'', [0x77]), (SDLK ''e'', [0x65]), (SDLK ''r'', [0x72]), (SDLK ''t'', [0x74]),
     (SDLK ''y'', [0x79]), (SDLK ''u'', [0x75]), (SDLK ''i'', [0x69]), (SDLK ''o'', [0x6F]), (SDLK ''p'', [0x70]),
     (SDLK ''LEFTBRACKET'', [0x7B]), (SDLK ''RIGHTBRACKET'', [0x7D]), (SDLK ''SLASH'', [0x2F]), (SDLK ''a'', [0x61]),
     (SDLK ''s'', [0x73]), (SDLK ''d'', [0x64]), (SDLK ''f'', [0x66]), (SDLK ''g'', [0x67]), (SDLK ''h'', [0x68]), (SDLK ''j'', [0x6A]),
     (SDLK ''k'', [0x6B]), (SDLK ''l'', [0x6C]), (SDLK ''SEMICOLON'', [0x3B]), (SDLK ''QUOTE'', [0x27]), (SDLK ''RETURN'', [0x0A]),
     (SDLK ''LSHIFT'', []), (SDLK ''z'', [0x7A]), (SDLK ''x'', [0x78]), (SDLK ''c'', [0x63]), (SDLK ''v'', [0x76]), (SDLK ''b'', [0x62]),
     (SDLK ''n'', [0x6E]), (SDLK ''m'', [0x6D]), (SDLK ''COMMA'', [0x2C]), (SDLK ''PERIOD'', [0x2E]), (SDLK ''BACKSLASH'', [0x5C]),
     (SDLK ''RSHIFT'', []), (SDLK ''LCTRL'', [0x1B, 0x44]), (SDLK ''LALT'', []), (SDLK ''SPACE'', [0x20]), (SDLK ''RALT'', []),
     (SDLK ''RCTRL'', []), (SDLK ''INSERT'', [0x1B, 0x5B, 0x32, 0x7E]), (SDLK ''HOME'', [0x1B, 0x5B, 0x31, 0x7E]),
     (SDLK ''PAGEUP'', [0x1B, 0x5B, 0x35, 0x7E]), (SDLK ''DELETE'', [0x7F]), (SDLK ''END'', [0x1B, 0x5B, 0x34, 0x7E]),
     (SDLK ''PAGEDOWN'', [0x1B, 0x5B, 0x36, 0x7E]), (SDLK ''UP'', [0x1B, 0x5B, 0x41]), (SDLK ''LEFT'', [0x1B, 0x5B, 0x44]),
     (SDLK ''DOWN'', [0x1B, 0x5B, 0x42]), (SDLK ''RIGHT'', [0x1B, 0x5B, 0x43]), (SDLK ''KP_DIVIDE'', [0x2F]),
     (SDLK ''KP_MULTIPLY'', [0x2A]), (SDLK ''KP_MINUS'', [0x2D]), (SDLK ''KP_PLUS'', [0x2B]), (SDLK ''KP7'', [0x37]),
     (SDLK ''KP8'', [0x38]), (SDLK ''KP9'', [0x39]), (SDLK ''KP4'', [0x34]), (SDLK ''KP5'', [0x35]), (SDLK ''KP6'', [0x36]),
     (SDLK ''KP1'', [0x31]), (SDLK ''KP2'', [0x32]), (SDLK ''KP3'', [0x33]), (SDLK ''KP0'', [0x30]), (SDLK ''KP_EQUALS'', [0x3D]),
     (SDLK ''KP_ENTER'', [0x0A]), (SDLK ''KP_PERIOD'', [0x2E])]"

fun key_in_range :: "SDLKey \<Rightarrow> bool" where
  "key_in_range (SDLK_invalid _) = False"
| "key_in_range _ = True"

definition SDLKey_to_scancode :: "SDL_EventType \<Rightarrow> SDLKey \<Rightarrow> u32" where
  "SDLKey_to_scancode ty key =
     (if \<not> key_in_range key then 0
      else case map_of SDLK2scancode_map key of
             None \<Rightarrow> 0
           | Some (downcode, upcode) \<Rightarrow> if ty = SDL_KEYUP then upcode else downcode)"

text \<open>A key in range without an entry has the null pointer.\<close>

definition SDLKey_to_ascii :: "SDL_EventType \<Rightarrow> SDLKey \<Rightarrow> u8 list option" where
  "SDLKey_to_ascii ty key = (if \<not> key_in_range key then Some [] else map_of SDLK2ascii_map key)"

section \<open>The device\<close>

record kbd_t =
  nemu_kbd_queue :: "u32 fifo"
  sdl_events :: "(SDL_EventType \<times> SDLKey) list"

abbreviation (input) NEMU_KEYBOARD_CODE :: u32 where "NEMU_KEYBOARD_CODE \<equiv> 0x0"
abbreviation (input) NEMU_KEYBOARD_STAT :: u32 where "NEMU_KEYBOARD_STAT \<equiv> 0x4"
abbreviation (input) NEMU_KEYBOARD_SIZE :: u32 where "NEMU_KEYBOARD_SIZE \<equiv> 0x10"

definition nemu_keyboard_update_irq :: "kbd_t \<Rightarrow> bool \<times> kbd_t" where
  "nemu_keyboard_update_irq s =
     (case sdl_events s of
        [] \<Rightarrow> (False, s)
      | (ty, key) # evs \<Rightarrow>
          (False, s\<lparr>sdl_events := evs, nemu_kbd_queue := fifo_push (SDLKey_to_scancode ty key) (nemu_kbd_queue s)\<rparr>))"

definition nemu_keyboard_rp :: "u32 \<Rightarrow> nat \<Rightarrow> bool \<Rightarrow> kbd_t \<Rightarrow> (u32, kbd_t) outcome" where
  "nemu_keyboard_rp addr len poll_data s =
     bind_r (check_ioaddr addr (of_nat len) NEMU_KEYBOARD_SIZE s)
       (\<lambda>_ s. let s = snd (nemu_keyboard_update_irq s)
               in if addr = NEMU_KEYBOARD_STAT then Inr (of_bool (\<not> fifo_is_empty (nemu_kbd_queue s)), s)
                  else if addr = NEMU_KEYBOARD_CODE
                  then (if poll_data
                        then let (code, q) = fifo_pop (nemu_kbd_queue s) in Inr (code, s\<lparr>nemu_kbd_queue := q\<rparr>)
                        else Inr (fifo_top (nemu_kbd_queue s), s))
                  else Inl (CPUAbort, s))"

definition nemu_keyboard_peek :: "u32 \<Rightarrow> nat \<Rightarrow> kbd_t \<Rightarrow> (u32, kbd_t) outcome" where
  "nemu_keyboard_peek addr len s = nemu_keyboard_rp addr len False s"

definition nemu_keyboard_read :: "u32 \<Rightarrow> nat \<Rightarrow> kbd_t \<Rightarrow> (u32, kbd_t) outcome" where
  "nemu_keyboard_read addr len s = nemu_keyboard_rp addr len True s"

definition kbd_start :: "(SDL_EventType \<times> SDLKey) list \<Rightarrow> kbd_t" where
  "kbd_start evs = \<lparr>nemu_kbd_queue = \<lparr>head = 0, fsize = 0, elems = replicate 1024 0\<rparr>, sdl_events = evs\<rparr>"

section \<open>Codes are unambiguous\<close>

lemma scancode_keys_distinct: "distinct (map fst SDLK2scancode_map)"
  by (simp add: SDLK2scancode_map_def)

lemma scancodes_distinct: "distinct (concat (map (\<lambda>(_, dn, up). [dn, up]) SDLK2scancode_map))"
proof -
  have "distinct (map unat (concat (map (\<lambda>(_, dn, up). [dn, up]) SDLK2scancode_map)))"
    unfolding SDLK2scancode_map_def by simp
  then show ?thesis by (simp only: distinct_map)
qed

lemma listed_keys: "key \<in> fst ` set SDLK2scancode_map \<Longrightarrow> key_in_range key"
proof -
  have "list_all (\<lambda>e. key_in_range (fst e)) SDLK2scancode_map" by (simp add: SDLK2scancode_map_def)
  then show "key \<in> fst ` set SDLK2scancode_map \<Longrightarrow> key_in_range key" by (auto simp: list_all_iff)
qed

lemma listed_codes: "list_all (\<lambda>(_, dn, up). dn \<noteq> 0 \<and> up \<noteq> 0) SDLK2scancode_map"
  by (simp add: SDLK2scancode_map_def)

text \<open>Two entries of a list of pairs without repetitions that share a member are the same.\<close>

lemma distinct_pairs:
  assumes "distinct (concat (map (\<lambda>(_, d, u). [d, u]) xs))" and "(a, d, u) \<in> set xs" and "(a', d', u') \<in> set xs"
  shows "d \<noteq> u" and "d = d' \<Longrightarrow> a = a'" and "u = u' \<Longrightarrow> a = a'" and "d \<noteq> u'"
proof -
  let ?f = "\<lambda>(_, d, u). [d, u]"
  have "removeAll [] (map ?f xs) = map ?f xs" by (rule removeAll_id) auto
  then have inj: "inj_on ?f (set xs)" and dist: "\<And>l. l \<in> ?f ` set xs \<Longrightarrow> distinct l"
    and disj: "\<And>l l'. l \<in> ?f ` set xs \<Longrightarrow> l' \<in> ?f ` set xs \<Longrightarrow> l \<noteq> l' \<Longrightarrow> set l \<inter> set l' = {}"
    using assms(1) by (simp_all add: distinct_concat_iff distinct_map)
  have mem: "[d, u] \<in> ?f ` set xs" "[d', u'] \<in> ?f ` set xs" using assms(2,3) by force+
  have same: "a = a'" if "[d, u] = [d', u']" using inj_onD [OF inj, of "(a, d, u)" "(a', d', u')"] that assms(2,3) by simp
  show "d \<noteq> u" using dist [OF mem(1)] by simp
  show "d = d' \<Longrightarrow> a = a'" "u = u' \<Longrightarrow> a = a'" using disj [OF mem] same by auto
  show "d \<noteq> u'" using disj [OF mem] dist [OF mem(2)] by auto
qed

lemma scancode_listed:
  assumes "(key, dn, up) \<in> set SDLK2scancode_map"
  shows "SDLKey_to_scancode ty key = (if ty = SDL_KEYUP then up else dn)"
proof -
  have "map_of SDLK2scancode_map key = Some (dn, up)" using assms scancode_keys_distinct by simp
  moreover have "key_in_range key" using assms listed_keys by force
  ultimately show ?thesis by (simp add: SDLKey_to_scancode_def)
qed

lemma scancode_zero: "SDLKey_to_scancode ty key = 0 \<longleftrightarrow> key \<notin> fst ` set SDLK2scancode_map"
proof (cases "key \<in> fst ` set SDLK2scancode_map")
  case True
  then obtain dn up where "(key, dn, up) \<in> set SDLK2scancode_map" by force
  then show ?thesis using scancode_listed listed_codes True by (auto simp: list_all_iff)
next
  case False
  then have "map_of SDLK2scancode_map key = None" by (simp add: map_of_eq_None_iff)
  then show ?thesis using False by (simp add: SDLKey_to_scancode_def)
qed

lemma scancode_inject:
  assumes "SDLKey_to_scancode ty key = SDLKey_to_scancode ty' key'" and "SDLKey_to_scancode ty key \<noteq> 0"
  shows "ty = ty' \<and> key = key'"
proof -
  have "key \<in> fst ` set SDLK2scancode_map" "key' \<in> fst ` set SDLK2scancode_map" using assms scancode_zero [of ty key] scancode_zero [of ty' key'] by simp_all
  then obtain dn up dn' up' where e: "(key, dn, up) \<in> set SDLK2scancode_map" "(key', dn', up') \<in> set SDLK2scancode_map"
    by (elim imageE) (metis prod.collapse)
  show ?thesis
    using assms(1) distinct_pairs(2-4) [OF scancodes_distinct e] distinct_pairs(4) [OF scancodes_distinct e(2,1)]
    unfolding scancode_listed [OF e(1)] scancode_listed [OF e(2)] by (cases ty; cases ty') (simp, metis)+
qed

text \<open>
  The code of a released key is the code of the pressed key with the byte \<^verbatim>\<open>F0\<close> before its last byte.
\<close>

lemma upcode_from_downcode:
  "list_all (\<lambda>(_, dn, up). up = push_bit 16 (drop_bit 8 dn) + 0xF000 + (dn AND 0xFF)) SDLK2scancode_map"
  by (simp add: SDLK2scancode_map_def)

section \<open>Codes arrive in order\<close>

datatype kbd_op = Tick | ReadCode

fun kbd_run :: "kbd_op list \<Rightarrow> kbd_t \<Rightarrow> (u32 list, kbd_t) outcome" where
  "kbd_run [] s = Inr ([], s)"
| "kbd_run (Tick # ops) s = kbd_run ops (snd (nemu_keyboard_update_irq s))"
| "kbd_run (ReadCode # ops) s =
     bind_r (nemu_keyboard_read NEMU_KEYBOARD_CODE 1 s)
       (\<lambda>c s. bind_r (kbd_run ops s) (\<lambda>cs s. Inr (c # cs, s)))"

abbreviation kbd_codes :: "(SDL_EventType \<times> SDLKey) list \<Rightarrow> u32 list" where
  "kbd_codes evs \<equiv> map (\<lambda>(ty, key). SDLKey_to_scancode ty key) evs"

definition kbd_pending :: "kbd_t \<Rightarrow> u32 list" where
  "kbd_pending s = fifo_list (nemu_kbd_queue s) @ kbd_codes (sdl_events s)"

definition kbd_wf :: "kbd_t \<Rightarrow> bool" where
  "kbd_wf s \<longleftrightarrow> fifo_wf (nemu_kbd_queue s) \<and> fifo_capacity (nemu_kbd_queue s) = 1024"

lemma kbd_tick:
  assumes "kbd_wf s" and "length (fifo_list (nemu_kbd_queue s)) < 1024"
  shows "kbd_wf (snd (nemu_keyboard_update_irq s))" "kbd_pending (snd (nemu_keyboard_update_irq s)) = kbd_pending s"
    "length (fifo_list (nemu_kbd_queue (snd (nemu_keyboard_update_irq s)))) \<le> length (fifo_list (nemu_kbd_queue s)) + 1"
    "kbd_pending s \<noteq> [] \<Longrightarrow> fifo_list (nemu_kbd_queue (snd (nemu_keyboard_update_irq s))) \<noteq> []"
  using assms ring.contents_push [of "nemu_kbd_queue s"] ring.wf_push [of "nemu_kbd_queue s"] ring.capacity_push
  by (auto simp: nemu_keyboard_update_irq_def kbd_wf_def kbd_pending_def simp del: length_fifo_list
      split: list.splits prod.splits)

lemma kbd_read_code:
  assumes "kbd_wf s" and "length (fifo_list (nemu_kbd_queue s)) < 1024" and "kbd_pending s \<noteq> []"
  shows "\<exists>s'. nemu_keyboard_read NEMU_KEYBOARD_CODE 1 s = Inr (hd (kbd_pending s), s') \<and> kbd_wf s' \<and>
     kbd_pending s' = tl (kbd_pending s) \<and> length (fifo_list (nemu_kbd_queue s')) \<le> length (fifo_list (nemu_kbd_queue s))"
proof -
  define t where "t = snd (nemu_keyboard_update_irq s)"
  note tick = kbd_tick [OF assms(1,2), folded t_def]
  obtain c q where p: "fifo_pop (nemu_kbd_queue t) = (c, q)" by (cases "fifo_pop (nemu_kbd_queue t)")
  have wf: "fifo_wf (nemu_kbd_queue t)" using tick(1) by (simp add: kbd_wf_def)
  have ne: "fifo_list (nemu_kbd_queue t) \<noteq> []" using tick(4) assms(3) by simp
  have c: "c = hd (fifo_list (nemu_kbd_queue t))" using ring.value_pop [OF wf ne] p by simp
  have q: "fifo_list q = tl (fifo_list (nemu_kbd_queue t))" "fifo_wf q" "fifo_capacity q = fifo_capacity (nemu_kbd_queue t)"
    using ring.contents_pop [OF wf] ring.wf_pop [OF wf] ring.capacity_pop [of "nemu_kbd_queue t"] p by simp_all
  have "check_ioaddr 0 (of_nat 1) 0x10 s = Inr ((), s)" by (simp add: check_ioaddr_def)
  then have "nemu_keyboard_read NEMU_KEYBOARD_CODE 1 s = Inr (c, t\<lparr>nemu_kbd_queue := q\<rparr>)"
    using p by (simp add: nemu_keyboard_read_def nemu_keyboard_rp_def t_def [symmetric] Let_def)
  moreover have "kbd_wf (t\<lparr>nemu_kbd_queue := q\<rparr>)" using q tick(1) by (simp add: kbd_wf_def)
  moreover have "kbd_pending (t\<lparr>nemu_kbd_queue := q\<rparr>) = tl (kbd_pending s)" "c = hd (kbd_pending s)"
    using q(1) c ne unfolding tick(2) [symmetric] by (simp_all add: kbd_pending_def)
  moreover have "length (fifo_list q) \<le> length (fifo_list (nemu_kbd_queue s))"
    using tick(3) by (simp only: q(1) length_tl)
  ultimately show ?thesis by auto
qed

lemma kbd_run_order:
  "kbd_wf s \<Longrightarrow> length (fifo_list (nemu_kbd_queue s)) + count_list ops Tick < 1024 \<Longrightarrow>
     count_list ops ReadCode \<le> length (kbd_pending s) \<Longrightarrow>
     \<exists>s'. kbd_run ops s = Inr (take (count_list ops ReadCode) (kbd_pending s), s') \<and>
       kbd_pending s' = drop (count_list ops ReadCode) (kbd_pending s)"
proof (induction ops arbitrary: s)
  case Nil
  then show ?case by simp
next
  case (Cons x ops)
  have room: "length (fifo_list (nemu_kbd_queue s)) < 1024" using Cons.prems(2) by simp
  show ?case
  proof (cases x)
    case Tick
    then show ?thesis
      using Cons.IH [of "snd (nemu_keyboard_update_irq s)"] kbd_tick(1-3) [OF Cons.prems(1) room] Cons.prems(2,3)
      by (simp del: length_fifo_list)
  next
    case ReadCode
    have ne: "kbd_pending s \<noteq> []" using Cons.prems(3) ReadCode by auto
    obtain s' where s': "nemu_keyboard_read NEMU_KEYBOARD_CODE 1 s = Inr (hd (kbd_pending s), s')" "kbd_wf s'"
      "kbd_pending s' = tl (kbd_pending s)" "length (fifo_list (nemu_kbd_queue s')) \<le> length (fifo_list (nemu_kbd_queue s))"
      using kbd_read_code [OF Cons.prems(1) room ne] by blast
    obtain s'' where "kbd_run ops s' = Inr (take (count_list ops ReadCode) (tl (kbd_pending s)), s'')"
      "kbd_pending s'' = drop (count_list ops ReadCode) (tl (kbd_pending s))"
      using Cons.IH [OF s'(2)] s'(3,4) Cons.prems(2,3) ReadCode by (fastforce simp del: length_fifo_list)
    then show ?thesis using s'(1) ReadCode ne by (cases "kbd_pending s") simp_all
  qed
qed

text \<open>
  C37: key codes are read in the order of the keys. With fewer than 1024 timer ticks and no more reads than there are
  events, in any interleaving of them, reading the code register gives the codes of the events in their order
  and keeps the rest pending. A code other than 0 belongs to exactly one key and to its press or its release only;
  the keys without an entry in the table, and only they, have the code 0, for press and release alike.
\<close>

theorem keyboard_in_order:
  assumes "count_list ops Tick < 1024" and "count_list ops ReadCode \<le> length evs"
  shows "\<exists>s. kbd_run ops (kbd_start evs) = Inr (take (count_list ops ReadCode) (kbd_codes evs), s) \<and>
     kbd_pending s = drop (count_list ops ReadCode) (kbd_codes evs) \<and>
     (\<forall>ty key ty' key'. SDLKey_to_scancode ty key = SDLKey_to_scancode ty' key' \<and> SDLKey_to_scancode ty key \<noteq> 0 \<longrightarrow> ty = ty' \<and> key = key') \<and>
     (\<forall>ty key. SDLKey_to_scancode ty key = 0 \<longleftrightarrow> key \<notin> fst ` set SDLK2scancode_map)"
proof -
  have "kbd_wf (kbd_start evs)" "fifo_list (nemu_kbd_queue (kbd_start evs)) = []" "kbd_pending (kbd_start evs) = kbd_codes evs"
    by (simp_all add: kbd_wf_def kbd_start_def fifo_wf_def fifo_capacity_def fifo_list_def kbd_pending_def)
  then have "\<exists>s. kbd_run ops (kbd_start evs) = Inr (take (count_list ops ReadCode) (kbd_codes evs), s) \<and>
      kbd_pending s = drop (count_list ops ReadCode) (kbd_codes evs)"
    using kbd_run_order [of "kbd_start evs" ops] assms by simp
  then show ?thesis using scancode_inject scancode_zero by blast
qed

theorem keyboard_in_order_witness:
  "\<exists>s. kbd_run [Tick, Tick, ReadCode, ReadCode, ReadCode]
       (kbd_start [(SDL_KEYDOWN, SDLK ''a''), (SDL_KEYUP, SDLK ''a''), (SDL_KEYDOWN, SDLK ''UP'')]) =
     Inr ([0x1C, 0xF01C, 0xE075], s)"
proof -
  have "kbd_codes [(SDL_KEYDOWN, SDLK ''a''), (SDL_KEYUP, SDLK ''a''), (SDL_KEYDOWN, SDLK ''UP'')] = [0x1C, 0xF01C, 0xE075]"
    by (simp add: SDLKey_to_scancode_def SDLK2scancode_map_def)
  then show ?thesis
    using keyboard_in_order [of "[Tick, Tick, ReadCode, ReadCode, ReadCode]"
      "[(SDL_KEYDOWN, SDLK ''a''), (SDL_KEYUP, SDLK ''a''), (SDL_KEYDOWN, SDLK ''UP'')]"]
    by auto
qed

end
