(* ===== verification/Vga.thy ===== *)
theory Vga
  imports Ram
begin

text \<open>
  The screen: \<^verbatim>\<open>src/dev/nemu-vga.c\<close>, which shows every pixel of the guest as four pixels of the
  window, and its controller \<^verbatim>\<open>src/dev/nemu-vga-ctrl.c\<close>. The pixels of the window are an array
  of bytes, absent as long as there is no window.
\<close>

record vga_t =
  screen_pixels :: "(nat \<Rightarrow> u8) option"
  screen_flips :: nat

abbreviation (input) SCR_W :: nat where "SCR_W \<equiv> 400"
abbreviation (input) SCR_H :: nat where "SCR_H \<equiv> 300"
abbreviation (input) WINDOW_W :: nat where "WINDOW_W \<equiv> SCR_W * 2"
abbreviation (input) WINDOW_H :: nat where "WINDOW_H \<equiv> SCR_H * 2"
abbreviation (input) VMEM_SIZE :: u32 where "VMEM_SIZE \<equiv> 600 * 800"

definition get_x :: "nat \<Rightarrow> nat" where
  "get_x addr = (addr div 4) mod SCR_W"

definition get_y :: "nat \<Rightarrow> nat" where
  "get_y addr = (addr div 4) div SCR_W"

text \<open>The byte offset of a pixel of the window.\<close>

definition pixel_at :: "nat \<Rightarrow> nat \<Rightarrow> nat" where
  "pixel_at row col = 4 * (row * WINDOW_W + col)"

text \<open>The assertion of both accesses; it returns the pixels.\<close>

definition screen_assert :: "nat \<Rightarrow> vga_t \<Rightarrow> (nat \<Rightarrow> u8, vga_t) outcome" where
  "screen_assert addr s =
     (case screen_pixels s of
        None \<Rightarrow> Inl (AssertFail, s)
      | Some p \<Rightarrow> if get_x addr < SCR_W \<and> get_y addr < SCR_H then Inr (p, s) else Inl (AssertFail, s))"

definition nemu_vga_read :: "u32 \<Rightarrow> nat \<Rightarrow> vga_t \<Rightarrow> (u32, vga_t) outcome" where
  "nemu_vga_read addr len s =
     bind_r (check_ioaddr addr (of_nat len) VMEM_SIZE s)
       (\<lambda>_ s. let a = unat addr; off = a mod 4; x = get_x a; y = get_y a
               in bind_r (screen_assert a s)
                    (\<lambda>p s. if 1 \<le> len \<and> len \<le> 4 then Inr (mem_read p (pixel_at (2 * y) (2 * x) + off) len, s)
                            else Inl (UndefinedBehaviour, s)))"

definition nemu_vga_write :: "u32 \<Rightarrow> nat \<Rightarrow> u32 \<Rightarrow> vga_t \<Rightarrow> (unit, vga_t) outcome" where
  "nemu_vga_write addr len data s =
     bind_r (check_ioaddr addr (of_nat len) VMEM_SIZE s)
       (\<lambda>_ s. let a = unat addr; off = a mod 4; x = get_x a; y = get_y a
               in bind_r (screen_assert a s)
                    (\<lambda>p s. if len > 4 then Inl (UndefinedBehaviour, s)
                            else let p = mem_write p (pixel_at (2 * y) (2 * x) + off) len data;
                                     p = mem_write p (pixel_at (2 * y + 1) (2 * x) + off) len data;
                                     p = mem_write p (pixel_at (2 * y) (2 * x + 1) + off) len data;
                                     p = mem_write p (pixel_at (2 * y + 1) (2 * x + 1) + off) len data
                                 in Inr ((), s\<lparr>screen_pixels := Some p\<rparr>)))"

definition screen_read :: "u32 \<Rightarrow> nat \<Rightarrow> vga_t \<Rightarrow> (u32, vga_t) outcome" where
  "screen_read addr len s =
     (if addr \<noteq> 0 then Inl (AssertFail, s) else Inr (push_bit 16 (of_nat SCR_W) + of_nat SCR_H, s))"

definition screen_write :: "u32 \<Rightarrow> nat \<Rightarrow> u32 \<Rightarrow> vga_t \<Rightarrow> (unit, vga_t) outcome" where
  "screen_write addr len data s =
     (if addr \<noteq> 4 then Inl (AssertFail, s) else Inr ((), s\<lparr>screen_flips := screen_flips s + 1\<rparr>))"

section \<open>Pixels\<close>

definition window_pixel :: "vga_t \<Rightarrow> nat \<Rightarrow> nat \<Rightarrow> u32" where
  "window_pixel s row col = (case screen_pixels s of None \<Rightarrow> 0 | Some p \<Rightarrow> mem_read32 p (pixel_at row col))"

definition guest_pixel :: "nat \<Rightarrow> nat \<Rightarrow> u32" where
  "guest_pixel x y = of_nat (4 * (y * SCR_W + x))"

lemma guest_pixel_unat:
  assumes "x < SCR_W" and "y < SCR_H"
  shows "unat (guest_pixel x y) = 4 * (y * SCR_W + x)"
    and "get_x (unat (guest_pixel x y)) = x" and "get_y (unat (guest_pixel x y)) = y" and "unat (guest_pixel x y) mod 4 = 0"
proof -
  have "4 * (y * SCR_W + x) < 2 ^ 32" using assms by simp
  then show u: "unat (guest_pixel x y) = 4 * (y * SCR_W + x)"
    unfolding guest_pixel_def by (rule unat_of_nat_u32)
  show "get_x (unat (guest_pixel x y)) = x" "get_y (unat (guest_pixel x y)) = y" "unat (guest_pixel x y) mod 4 = 0"
    using assms by (simp_all add: u get_x_def get_y_def)
qed

lemma guest_pixel_in: "x < SCR_W \<Longrightarrow> y < SCR_H \<Longrightarrow> check_ioaddr (guest_pixel x y) (of_nat 4) VMEM_SIZE s = Inr ((), s)"
  by (rule check_ioaddr_ok) (simp add: guest_pixel_unat)

lemma pixel_at_inj:
  assumes "col < WINDOW_W" and "col' < WINDOW_W"
  shows "pixel_at row col + 4 \<le> pixel_at row' col' \<or> pixel_at row' col' + 4 \<le> pixel_at row col \<or> (row = row' \<and> col = col')"
proof (cases row row' rule: linorder_cases)
  case less
  then have "Suc row * 800 \<le> row' * 800" by simp
  then have "pixel_at row col + 4 \<le> pixel_at row' col'" using assms by (simp add: pixel_at_def)
  then show ?thesis ..
next
  case greater
  then have "Suc row' * 800 \<le> row * 800" by simp
  then have "pixel_at row' col' + 4 \<le> pixel_at row col" using assms by (simp add: pixel_at_def)
  then show ?thesis by simp
next
  case equal
  then show ?thesis by (cases col col' rule: linorder_cases) (simp_all add: pixel_at_def)
qed

lemma pixel_after_write:
  assumes "col < WINDOW_W" and "col' < WINDOW_W"
  shows "mem_read32 (mem_write p (pixel_at row col) 4 d) (pixel_at row' col') =
     (if row' = row \<and> col' = col then d else mem_read32 p (pixel_at row' col'))"
proof -
  show ?thesis
    using pixel_at_inj [OF assms, of row row'] mem_read_write_same [of 4 p "pixel_at row col" d]
      mem_read_write_other [of 4 "pixel_at row' col'" "pixel_at row col" 4 p d]
    by (auto simp: mem_read32_word take_bit_word_eq_self)
qed

text \<open>
  A pixel of the guest is a block of four pixels of the window. Writing the word of the pixel in
  column \<open>x\<close> and row \<open>y\<close> colours exactly the window's pixels whose halved coordinates are \<open>x\<close> and
  \<open>y\<close>; reading it back gives the colour, and every other pixel of the guest reads as before. The
  controller reports the size of the guest's screen.
\<close>

theorem vga_pixel_doubling:
  assumes "x < SCR_W" and "y < SCR_H" and "screen_pixels s = Some p"
  shows "\<exists>s'. nemu_vga_write (guest_pixel x y) 4 d s = Inr ((), s') \<and>
     (\<forall>row col. row < WINDOW_H \<longrightarrow> col < WINDOW_W \<longrightarrow>
        window_pixel s' row col = (if col div 2 = x \<and> row div 2 = y then d else window_pixel s row col)) \<and>
     (\<forall>x' y'. x' < SCR_W \<longrightarrow> y' < SCR_H \<longrightarrow>
        nemu_vga_read (guest_pixel x' y') 4 s' =
          Inr (if x' = x \<and> y' = y then d else window_pixel s (2 * y') (2 * x'), s')) \<and>
     screen_read 0 4 s' = Inr (400 * 2 ^ 16 + 300, s')"
proof -
  let ?p = "mem_write (mem_write (mem_write (mem_write p (pixel_at (2 * y) (2 * x)) 4 d) (pixel_at (2 * y + 1) (2 * x)) 4 d)
      (pixel_at (2 * y) (2 * x + 1)) 4 d) (pixel_at (2 * y + 1) (2 * x + 1)) 4 d"
  let ?s = "s\<lparr>screen_pixels := Some ?p\<rparr>"
  have wr: "nemu_vga_write (guest_pixel x y) 4 d s = Inr ((), ?s)"
    using assms
    by (simp add: nemu_vga_write_def guest_pixel_in [OF assms(1,2), simplified] screen_assert_def guest_pixel_unat(2-4) [OF assms(1,2)] Let_def)
  have half: "col div 2 = x \<longleftrightarrow> col = 2 * x \<or> col = 2 * x + 1" for col x :: nat by auto
  have px: "window_pixel ?s row col = (if col div 2 = x \<and> row div 2 = y then d else window_pixel s row col)"
    if "col < WINDOW_W" for row col
    using assms that by (auto simp: window_pixel_def pixel_after_write half)
  have rd: "nemu_vga_read (guest_pixel x' y') 4 ?s = Inr (window_pixel ?s (2 * y') (2 * x'), ?s)"
    if "x' < SCR_W" "y' < SCR_H" for x' y'
    by (simp add: nemu_vga_read_def guest_pixel_in [OF that, simplified] screen_assert_def guest_pixel_unat(2-4) [OF that] Let_def that window_pixel_def mem_read_def
        len_mask_def)
  show ?thesis
    by (rule exI [of _ ?s]) (use wr px rd in \<open>auto simp: screen_read_def\<close>)
qed

theorem vga_pixel_doubling_witness:
  "\<exists>s s'. nemu_vga_write (guest_pixel 399 299) 4 0xFFFFFF s = Inr ((), s') \<and> window_pixel s' 599 799 = 0xFFFFFF \<and>
     window_pixel s' 599 797 = 0"
proof -
  let ?s = "\<lparr>screen_pixels = Some (\<lambda>_. 0), screen_flips = 0\<rparr>"
  have z: "window_pixel ?s 599 797 = 0" by (simp add: window_pixel_def mem_read32_def le32_def)
  obtain s' where "nemu_vga_write (guest_pixel 399 299) 4 0xFFFFFF ?s = Inr ((), s')"
    "\<forall>row col. row < WINDOW_H \<longrightarrow> col < WINDOW_W \<longrightarrow>
        window_pixel s' row col = (if col div 2 = 399 \<and> row div 2 = 299 then 0xFFFFFF else window_pixel ?s row col)"
    using vga_pixel_doubling [of 399 299 ?s "\<lambda>_. 0" "0xFFFFFF"] by auto
  then show ?thesis using z by (intro exI [of _ ?s] exI [of _ s']) simp
qed

end
