(* ===== verification/Ethernet.thy ===== *)
theory Ethernet
  imports Ram
begin

text \<open>
  The Ethernet controller of \<^verbatim>\<open>src/dev/xlnx-elite.c\<close> with the host's side of the network,
  \<^verbatim>\<open>src/utils/vnet/net.c\<close> and \<^verbatim>\<open>src/utils/vnet/pcap.c\<close>. The registers are the bytes of the C
  structure; what arrives at and leaves through the tap interface, and the packet log, are lists.
\<close>

section \<open>The network of the host\<close>

record net_t =
  net_pcap :: "u8 list"
  net_tap_out :: "u8 list list"
  net_tap_in :: "u8 list list"
  net_queue :: "u8 list fifo"

definition bytes32 :: "u32 \<Rightarrow> u8 list" where
  "bytes32 w = [byte_of w 0, byte_of w 1, byte_of w 2, byte_of w 3]"

text \<open>The headers of the packet log; the time of the host is an argument.\<close>

definition pcap_open :: "u8 list" where
  "pcap_open = bytes32 0xa1b2cd34 @ [2, 0, 4, 0] @ bytes32 0 @ bytes32 0 @ bytes32 65535 @ bytes32 1"

definition pcap_write :: "u32 \<times> u32 \<Rightarrow> u8 list \<Rightarrow> u8 list \<Rightarrow> u8 list" where
  "pcap_write t data file =
     file @ bytes32 (fst t) @ bytes32 (snd t) @ bytes32 (of_nat (length data)) @ bytes32 (of_nat (length data)) @
       replicate 8 0 @ data"

definition net_pcap_write :: "u32 \<times> u32 \<Rightarrow> u8 list \<Rightarrow> net_t \<Rightarrow> net_t" where
  "net_pcap_write t data n = n\<lparr>net_pcap := pcap_write t data (net_pcap n)\<rparr>"

abbreviation (input) vnet_hdr_len :: nat where "vnet_hdr_len \<equiv> 10"

text \<open>
  One packet goes out behind an empty header; the loop around \<^verbatim>\<open>writev\<close> tests the length instead of
  the result, so it is tried once.
\<close>

definition net_send_data :: "u32 \<times> u32 \<Rightarrow> u8 list \<Rightarrow> net_t \<Rightarrow> net_t" where
  "net_send_data t data n =
     (let n = net_pcap_write t data n in n\<lparr>net_tap_out := net_tap_out n @ [replicate vnet_hdr_len 0 @ data]\<rparr>)"

text \<open>The first loop takes packets off the interface, and returns whether the last read had one.\<close>

function net_poll_read :: "u32 \<times> u32 \<Rightarrow> net_t \<Rightarrow> bool \<times> net_t" where
  "net_poll_read t n =
     (case net_tap_in n of
        [] \<Rightarrow> (False, n)
      | raw # rest \<Rightarrow>
          (let raw_buf = take 1800 raw; n = n\<lparr>net_tap_in := rest\<rparr>
           in if length raw_buf \<le> vnet_hdr_len then (raw_buf \<noteq> [], n)
              else let buf = drop vnet_hdr_len raw_buf; n = net_pcap_write t buf n
                   in net_poll_read t (n\<lparr>net_queue := fifo_push buf (net_queue n)\<rparr>)))"
  by auto
termination
  by (relation "measure (\<lambda>(t, n). length (net_tap_in n))") (auto simp: net_pcap_write_def)

text \<open>The second loop empties the queue; the call that would hand a packet to the device is disabled.\<close>

function net_drain :: "bool \<Rightarrow> net_t \<Rightarrow> bool \<times> net_t" where
  "net_drain has_packet n =
     (if fifo_is_empty (net_queue n) then (has_packet, n)
      else net_drain True (n\<lparr>net_queue := snd (fifo_pop (net_queue n))\<rparr>))"
  by auto
termination
  by (relation "measure (\<lambda>(_, n). unat (fsize (net_queue n)))")
     (auto simp: fifo_is_empty_def fifo_pop_def Let_def unat_pred word_neq_0_conv unat_gt_0)

definition net_poll_packet :: "u32 \<times> u32 \<Rightarrow> net_t \<Rightarrow> bool \<times> net_t" where
  "net_poll_packet t n = (let (has_packet, n) = net_poll_read t n in net_drain has_packet n)"

section \<open>The controller\<close>

record elite_t =
  eth_mac_addr :: "u8 list"
  elite_regs :: "nat \<Rightarrow> u8"
  phy_regs :: "nat \<Rightarrow> nat \<Rightarrow> u16"
  elite_net :: net_t

abbreviation (input) XEL_TSR_XMIT_BUSY_MASK :: u32 where "XEL_TSR_XMIT_BUSY_MASK \<equiv> 0x1"
abbreviation (input) XEL_TSR_PROGRAM_MASK :: u32 where "XEL_TSR_PROGRAM_MASK \<equiv> 0x2"
abbreviation (input) XEL_TSR_PROG_MAC_ADDR :: u32 where
  "XEL_TSR_PROG_MAC_ADDR \<equiv> XEL_TSR_XMIT_BUSY_MASK OR XEL_TSR_PROGRAM_MASK"
abbreviation (input) XEL_RSR_RECV_DONE_MASK :: u32 where "XEL_RSR_RECV_DONE_MASK \<equiv> 0x1"
abbreviation (input) XEL_MDIOCTRL_MDIOSTS_MASK :: u32 where "XEL_MDIOCTRL_MDIOSTS_MASK \<equiv> 0x1"
abbreviation (input) PHY_DETECT_REG :: nat where "PHY_DETECT_REG \<equiv> 1"
abbreviation (input) PHY_DETECT_MASK :: u16 where "PHY_DETECT_MASK \<equiv> 0x1808"

abbreviation (input) TX_PING :: nat where "TX_PING \<equiv> 0x0"
abbreviation (input) MDIO_ADDR :: nat where "MDIO_ADDR \<equiv> 0x7e4"
abbreviation (input) MDIO_WR :: nat where "MDIO_WR \<equiv> 0x7e8"
abbreviation (input) MDIO_RD :: nat where "MDIO_RD \<equiv> 0x7ec"
abbreviation (input) MDIO_CTRL :: nat where "MDIO_CTRL \<equiv> 0x7f0"
abbreviation (input) TX_PING_TPLR :: nat where "TX_PING_TPLR \<equiv> 0x7f4"
abbreviation (input) TX_PING_TSR :: nat where "TX_PING_TSR \<equiv> 0x7fc"
abbreviation (input) TX_PONG :: nat where "TX_PONG \<equiv> 0x800"
abbreviation (input) TX_PONG_TPLR :: nat where "TX_PONG_TPLR \<equiv> 0xff4"
abbreviation (input) TX_PONG_TSR :: nat where "TX_PONG_TSR \<equiv> 0xffc"
abbreviation (input) RX_PING :: nat where "RX_PING \<equiv> 0x1000"
abbreviation (input) RX_PING_RSR :: nat where "RX_PING_RSR \<equiv> 0x17fc"
abbreviation (input) RX_PONG :: nat where "RX_PONG \<equiv> 0x1800"
abbreviation (input) RX_PONG_RSR :: nat where "RX_PONG_RSR \<equiv> 0x1ffc"
abbreviation (input) TX_PING_BUF_END :: nat where "TX_PING_BUF_END \<equiv> MDIO_ADDR - 4"
abbreviation (input) TX_PONG_BUF_END :: nat where "TX_PONG_BUF_END \<equiv> TX_PONG_TPLR - 4"
abbreviation (input) RX_PING_BUF_END :: nat where "RX_PING_BUF_END \<equiv> RX_PING_RSR - 4"
abbreviation (input) RX_PONG_BUF_END :: nat where "RX_PONG_BUF_END \<equiv> RX_PONG_RSR - 4"

abbreviation (input) MII_BMCR :: nat where "MII_BMCR \<equiv> 0x00"
abbreviation (input) MII_BMSR :: nat where "MII_BMSR \<equiv> 0x01"
abbreviation (input) MII_PHYSID1 :: nat where "MII_PHYSID1 \<equiv> 0x02"
abbreviation (input) MII_PHYSID2 :: nat where "MII_PHYSID2 \<equiv> 0x03"
abbreviation (input) MII_ADVERTISE :: nat where "MII_ADVERTISE \<equiv> 0x04"
abbreviation (input) MII_LPA :: nat where "MII_LPA \<equiv> 0x05"
abbreviation (input) BMCR_FULLDPLX :: u16 where "BMCR_FULLDPLX \<equiv> 0x0100"
abbreviation (input) BMCR_ANENABLE :: u16 where "BMCR_ANENABLE \<equiv> 0x1000"
abbreviation (input) BMCR_SPEED100 :: u16 where "BMCR_SPEED100 \<equiv> 0x2000"
abbreviation (input) BMCR_RESET :: u16 where "BMCR_RESET \<equiv> 0x8000"
abbreviation (input) BMSR_ERCAP :: u16 where "BMSR_ERCAP \<equiv> 0x0001"
abbreviation (input) BMSR_LSTATUS :: u16 where "BMSR_LSTATUS \<equiv> 0x0004"
abbreviation (input) BMSR_ANEGCAPABLE :: u16 where "BMSR_ANEGCAPABLE \<equiv> 0x0008"
abbreviation (input) BMSR_ANEGCOMPLETE :: u16 where "BMSR_ANEGCOMPLETE \<equiv> 0x0020"
abbreviation (input) BMSR_10HALF :: u16 where "BMSR_10HALF \<equiv> 0x0800"
abbreviation (input) BMSR_10FULL :: u16 where "BMSR_10FULL \<equiv> 0x1000"
abbreviation (input) BMSR_100HALF :: u16 where "BMSR_100HALF \<equiv> 0x2000"
abbreviation (input) BMSR_100FULL :: u16 where "BMSR_100FULL \<equiv> 0x4000"
abbreviation (input) ADVERTISE_CSMA :: u16 where "ADVERTISE_CSMA \<equiv> 0x0001"
abbreviation (input) ADVERTISE_10HALF :: u16 where "ADVERTISE_10HALF \<equiv> 0x0020"
abbreviation (input) ADVERTISE_10FULL :: u16 where "ADVERTISE_10FULL \<equiv> 0x0040"
abbreviation (input) ADVERTISE_100HALF :: u16 where "ADVERTISE_100HALF \<equiv> 0x0080"
abbreviation (input) ADVERTISE_100FULL :: u16 where "ADVERTISE_100FULL \<equiv> 0x0100"
abbreviation (input) LPA_10HALF :: u16 where "LPA_10HALF \<equiv> 0x0020"
abbreviation (input) LPA_10FULL :: u16 where "LPA_10FULL \<equiv> 0x0040"
abbreviation (input) LPA_100HALF :: u16 where "LPA_100HALF \<equiv> 0x0080"
abbreviation (input) LPA_1000XPAUSE_ASYM :: u16 where "LPA_1000XPAUSE_ASYM \<equiv> 0x0100"
abbreviation (input) LPA_PAUSE_CAP :: u16 where "LPA_PAUSE_CAP \<equiv> 0x0400"
abbreviation (input) LPA_PAUSE_ASYM :: u16 where "LPA_PAUSE_ASYM \<equiv> 0x0800"
abbreviation (input) LPA_LPACK :: u16 where "LPA_LPACK \<equiv> 0x4000"
abbreviation (input) ACTIVE_PHY :: nat where "ACTIVE_PHY \<equiv> 1"

definition reg_get :: "nat \<Rightarrow> elite_t \<Rightarrow> u32" where
  "reg_get off s = mem_read32 (elite_regs s) off"

definition reg_set :: "nat \<Rightarrow> u32 \<Rightarrow> elite_t \<Rightarrow> elite_t" where
  "reg_set off v s = s\<lparr>elite_regs := mem_write (elite_regs s) off 4 v\<rparr>"

definition phy_set :: "nat \<Rightarrow> nat \<Rightarrow> u16 \<Rightarrow> elite_t \<Rightarrow> elite_t" where
  "phy_set phy reg v s = s\<lparr>phy_regs := (phy_regs s)(phy := (phy_regs s phy)(reg := v))\<rparr>"

definition xlnx_elite_init :: "elite_t \<Rightarrow> elite_t" where
  "xlnx_elite_init s =
     (let s = phy_set ACTIVE_PHY MII_PHYSID1 0x181 s;
          s = phy_set ACTIVE_PHY MII_PHYSID2 0xb8a0 s;
          s = phy_set ACTIVE_PHY PHY_DETECT_REG PHY_DETECT_MASK s;
          s = phy_set ACTIVE_PHY MII_BMCR (BMCR_SPEED100 OR BMCR_ANENABLE OR BMCR_FULLDPLX) s;
          s = phy_set ACTIVE_PHY MII_BMSR (BMSR_100FULL OR BMSR_100HALF OR BMSR_10FULL OR BMSR_10HALF OR
                BMSR_ANEGCAPABLE OR BMSR_ERCAP OR 0x40) s;
          s = phy_set ACTIVE_PHY MII_ADVERTISE (ADVERTISE_100FULL OR ADVERTISE_100HALF OR ADVERTISE_10FULL OR
                ADVERTISE_10HALF OR ADVERTISE_CSMA) s
      in phy_set ACTIVE_PHY MII_LPA (LPA_LPACK OR LPA_PAUSE_ASYM OR LPA_PAUSE_CAP OR LPA_1000XPAUSE_ASYM OR
           LPA_100HALF OR LPA_10FULL OR LPA_10HALF OR 0x1) s)"

text \<open>The fields of the MDIO address register.\<close>

definition mdio_regnum :: "u32 \<Rightarrow> nat" where "mdio_regnum w = unat (bf_get 0 5 w)"
definition mdio_phyaddr :: "u32 \<Rightarrow> nat" where "mdio_phyaddr w = unat (bf_get 5 5 w)"
definition mdio_op :: "u32 \<Rightarrow> u32" where "mdio_op w = bf_get 10 1 w"

definition mii_transaction :: "elite_t \<Rightarrow> (unit, elite_t) outcome" where
  "mii_transaction s =
     (let w = reg_get MDIO_ADDR s; phy = mdio_phyaddr w; reg = mdio_regnum w
      in if mdio_op w = 0
         then let data = ucast (reg_get MDIO_WR s) :: u16
              in if phy \<noteq> ACTIVE_PHY then Inr ((), s)
                 else if reg = MII_BMCR
                 then (if data AND BMCR_RESET \<noteq> 0
                       then Inr ((), phy_set phy MII_BMSR (phy_regs s phy MII_BMSR OR (BMSR_ANEGCOMPLETE OR BMSR_LSTATUS)) s)
                       else Inr ((), phy_set phy reg data s))
                 else Inl (CPUAbort, s)
         else Inr ((), reg_set MDIO_RD (ucast (phy_regs s phy reg)) s))"

text \<open>
  A frame arrives: the result is the number of bytes taken, or minus one when both buffers are taken.
\<close>

definition rx_into :: "nat \<Rightarrow> nat \<Rightarrow> nat \<Rightarrow> u8 list \<Rightarrow> elite_t \<Rightarrow> (int, elite_t) outcome" where
  "rx_into buf buf_end rsr data s =
     (let s = reg_set rsr (reg_get rsr s OR XEL_RSR_RECV_DONE_MASK) s
      in if \<not> length data \<le> buf_end - buf then Inl (AssertFail, s)
         else Inr (int (length data), s\<lparr>elite_regs := mem_write_block (elite_regs s) buf data\<rparr>))"

definition xlnx_elite_rx :: "u8 list \<Rightarrow> elite_t \<Rightarrow> (int, elite_t) outcome" where
  "xlnx_elite_rx data s =
     (if reg_get RX_PING_RSR s AND XEL_RSR_RECV_DONE_MASK = 0 then rx_into RX_PING RX_PING_BUF_END RX_PING_RSR data s
      else if reg_get RX_PONG_RSR s AND XEL_RSR_RECV_DONE_MASK = 0 then rx_into RX_PONG RX_PONG_BUF_END RX_PONG_RSR data s
      else Inr (- 1, s))"

definition xlnx_elite_read :: "u32 \<Rightarrow> nat \<Rightarrow> elite_t \<Rightarrow> (u32, elite_t) outcome" where
  "xlnx_elite_read addr len s =
     (let a = unat addr
      in if a = TX_PING_TSR \<or> a = TX_PONG_TSR then Inr (reg_get a s, s)
         else if RX_PING \<le> a \<and> a \<le> RX_PING_BUF_END then Inr (reg_get (4 * (a div 4)) s, s)
         else if RX_PONG \<le> a \<and> a \<le> RX_PONG_BUF_END then Inr (reg_get (4 * (a div 4)) s, s)
         else if a = RX_PING_RSR \<or> a = RX_PONG_RSR \<or> a = MDIO_RD \<or> a = MDIO_CTRL then Inr (reg_get a s, s)
         else Inl (CPUAbort, s))"

text \<open>
  A write to a transmit status register: a frame is sent, or the address of the station is set. The
  number of bytes is the length register; C leaves copies past the structure or the six bytes of the
  address undefined.
\<close>

definition tx_kick :: "u32 \<times> u32 \<Rightarrow> nat \<Rightarrow> nat \<Rightarrow> nat \<Rightarrow> u32 \<Rightarrow> elite_t \<Rightarrow> (unit, elite_t) outcome" where
  "tx_kick t buf tplr tsr data s =
     (let s = reg_set tsr data s; n = unat (reg_get tplr s)
      in if reg_get tsr s AND XEL_TSR_XMIT_BUSY_MASK = 0 then Inr ((), s)
         else if reg_get tsr s AND XEL_TSR_PROGRAM_MASK \<noteq> 0
         then (if n > 6 then Inl (UndefinedBehaviour, s)
               else let s = s\<lparr>eth_mac_addr := map (elite_regs s) [buf ..< buf + n] @ drop n (eth_mac_addr s)\<rparr>
                    in Inr ((), reg_set tsr (reg_get tsr s AND NOT XEL_TSR_PROG_MAC_ADDR) s))
         else (if buf + n > 0x2000 then Inl (UndefinedBehaviour, s)
               else let s = s\<lparr>elite_net := net_send_data t (map (elite_regs s) [buf ..< buf + n]) (elite_net s)\<rparr>
                    in Inr ((), reg_set tsr (reg_get tsr s AND NOT XEL_TSR_XMIT_BUSY_MASK) s)))"

definition xlnx_elite_write :: "u32 \<times> u32 \<Rightarrow> u32 \<Rightarrow> nat \<Rightarrow> u32 \<Rightarrow> elite_t \<Rightarrow> (unit, elite_t) outcome" where
  "xlnx_elite_write t addr len data s =
     (let a = unat addr
      in if a = TX_PING_TSR then tx_kick t TX_PING TX_PING_TPLR TX_PING_TSR data s
         else if a = TX_PONG_TSR then tx_kick t TX_PONG TX_PONG_TPLR TX_PONG_TSR data s
         else if a = TX_PING_TPLR \<or> a = TX_PONG_TPLR then Inr ((), reg_set a data s)
         else if a \<le> TX_PING_BUF_END then Inr ((), reg_set (4 * (a div 4)) data s)
         else if TX_PONG \<le> a \<and> a \<le> TX_PONG_BUF_END then Inr ((), reg_set (4 * (a div 4)) data s)
         else if a = RX_PING_RSR \<or> a = RX_PONG_RSR then Inr ((), reg_set a data s)
         else if a = MDIO_CTRL
         then let s = reg_set MDIO_CTRL data s
              in if reg_get MDIO_CTRL s AND XEL_MDIOCTRL_MDIOSTS_MASK \<noteq> 0
                 then bind_r (mii_transaction s)
                        (\<lambda>_ s. Inr ((), reg_set MDIO_CTRL (reg_get MDIO_CTRL s AND NOT XEL_MDIOCTRL_MDIOSTS_MASK) s))
                 else Inr ((), s)
         else if a = MDIO_ADDR \<or> a = MDIO_WR then Inr ((), reg_set a data s)
         else Inl (CPUAbort, s))"

definition elite_start :: elite_t where
  "elite_start = \<lparr>eth_mac_addr = [0x00, 0x00, 0x5E, 0x00, 0xFA, 0xCE], elite_regs = (\<lambda>_. 0), phy_regs = (\<lambda>_ _. 0),
     elite_net = \<lparr>net_pcap = pcap_open, net_tap_out = [], net_tap_in = [],
                  net_queue = \<lparr>head = 0, fsize = 0, elems = replicate 1024 []\<rparr>\<rparr>\<rparr>"

section \<open>Registers as bytes\<close>

lemma mem_read32_block:
  "4 * i + 4 \<le> length bs \<Longrightarrow> mem_read32 (mem_write_block m a bs) (a + 4 * i) =
     le32 (bs ! (4 * i)) (bs ! (4 * i + 1)) (bs ! (4 * i + 2)) (bs ! (4 * i + 3))"
  by (simp add: mem_read32_def mem_write_block_def)

lemma mem_read32_block_other:
  "b + 4 \<le> a \<or> a + length bs \<le> b \<Longrightarrow> mem_read32 (mem_write_block m a bs) b = mem_read32 m b"
  by (auto simp: mem_read32_def mem_write_block_def)

lemma mem_write_word_block: "mem_write m a 4 w = mem_write_block m a (bytes32 w)"
proof
  fix x
  have "a \<le> x \<and> x < a + 4 \<Longrightarrow> x = a \<or> x = a + 1 \<or> x = a + 2 \<or> x = a + 3" by arith
  then show "mem_write m a 4 w x = mem_write_block m a (bytes32 w) x"
    by (auto simp: mem_write_def mem_write_block_def bytes32_def)
qed

lemma length_bytes32 [simp]: "length (bytes32 w) = 4"
  by (simp add: bytes32_def)

lemma length_words [simp]: "length (concat (map bytes32 ws)) = 4 * length ws"
  by (induction ws) simp_all

lemma reg_get_set_same [simp]: "reg_get off (reg_set off v s) = v"
  using mem_read_write_same [of 4 "elite_regs s" off v]
  by (simp add: reg_get_def reg_set_def mem_read32_word take_bit_word_eq_self)

lemma reg_get_set_other: "a + 4 \<le> b \<or> b + 4 \<le> a \<Longrightarrow> reg_get a (reg_set b v s) = reg_get a s"
  using mem_read_write_other [of 4 a b 4 "elite_regs s" v] by (simp add: reg_get_def reg_set_def mem_read32_word)

lemma reg_set_bytes: "x < off \<or> off + 4 \<le> x \<Longrightarrow> elite_regs (reg_set off v s) x = elite_regs s x"
  by (auto simp: reg_set_def mem_write_def)

lemma reg_set_frame [simp]: "elite_net (reg_set off v s) = elite_net s" "eth_mac_addr (reg_set off v s) = eth_mac_addr s"
  by (simp_all add: reg_set_def)

lemma reg_get_frame [simp]:
  "reg_get off (s\<lparr>elite_net := n\<rparr>) = reg_get off s" "reg_get off (s\<lparr>eth_mac_addr := m\<rparr>) = reg_get off s"
  "reg_get off (s\<lparr>phy_regs := p\<rparr>) = reg_get off s"
  by (simp_all add: reg_get_def)

lemma reg_get_block_other:
  "b + 4 \<le> a \<or> a + length bs \<le> b \<Longrightarrow> reg_get b (s\<lparr>elite_regs := mem_write_block (elite_regs s) a bs\<rparr>) = reg_get b s"
  by (simp add: reg_get_def mem_read32_block_other)

section \<open>Sending\<close>

fun write_words :: "u32 \<times> u32 \<Rightarrow> nat \<Rightarrow> u32 list \<Rightarrow> elite_t \<Rightarrow> (unit, elite_t) outcome" where
  "write_words t a [] s = Inr ((), s)"
| "write_words t a (w # ws) s = bind_r (xlnx_elite_write t (of_nat a) 4 w s) (\<lambda>_. write_words t (a + 4) ws)"

lemma unat_of_nat_addr: "n < 0x10000 \<Longrightarrow> unat (of_nat n :: u32) = n"
  by (simp add: unat_of_nat_u32)

text \<open>The two transmit buffers: where they start, their length and status registers.\<close>

datatype tx_buffer = Ping | Pong

fun tx_buf :: "tx_buffer \<Rightarrow> nat" where "tx_buf Ping = TX_PING" | "tx_buf Pong = TX_PONG"
fun tx_end :: "tx_buffer \<Rightarrow> nat" where "tx_end Ping = TX_PING_BUF_END" | "tx_end Pong = TX_PONG_BUF_END"
fun tx_tplr :: "tx_buffer \<Rightarrow> nat" where "tx_tplr Ping = TX_PING_TPLR" | "tx_tplr Pong = TX_PONG_TPLR"
fun tx_tsr :: "tx_buffer \<Rightarrow> nat" where "tx_tsr Ping = TX_PING_TSR" | "tx_tsr Pong = TX_PONG_TSR"

lemma tx_layout: "tx_end b + 4 \<le> tx_tplr b" "tx_tplr b + 4 \<le> tx_tsr b" "tx_tsr b + 4 \<le> 0x1000" "4 dvd tx_buf b" "tx_buf b \<le> tx_end b"
  by (cases b; simp)+

lemma write_tx_word:
  assumes "tx_buf b \<le> a" and "a \<le> tx_end b" and "4 dvd a"
  shows "xlnx_elite_write t (of_nat a) 4 w s = Inr ((), s\<lparr>elite_regs := mem_write_block (elite_regs s) a (bytes32 w)\<rparr>)"
proof -
  have "a < 0x10000" using assms(2) tx_layout(1-3) [of b] by linarith
  then have u: "unat (of_nat a :: u32) = a" by (rule unat_of_nat_addr)
  show ?thesis
    using assms by (cases b) (simp_all add: xlnx_elite_write_def u Let_def reg_set_def mem_write_word_block dvd_mult_div_cancel)
qed

lemma write_tx_words:
  "tx_buf b \<le> a \<Longrightarrow> 4 dvd a \<Longrightarrow> a + 4 * length ws \<le> tx_end b + 4 \<Longrightarrow>
     write_words t a ws s = Inr ((), s\<lparr>elite_regs := mem_write_block (elite_regs s) a (concat (map bytes32 ws))\<rparr>)"
proof (induction ws arbitrary: a s)
  case Nil
  then show ?case by simp
next
  case (Cons w ws)
  have "4 dvd a + 4" using Cons.prems(2) by (simp add: dvd_add)
  then show ?case
    using Cons.IH [of "a + 4"] Cons.prems write_tx_word [of b a t w s]
      mem_write_block_append [of "elite_regs s" a "bytes32 w"] by simp
qed

definition transmit :: "u32 \<times> u32 \<Rightarrow> tx_buffer \<Rightarrow> u32 list \<Rightarrow> nat \<Rightarrow> u32 \<Rightarrow> elite_t \<Rightarrow> (unit, elite_t) outcome" where
  "transmit t b ws n cmd s =
     bind_r (write_words t (tx_buf b) ws s)
       (\<lambda>_ s. bind_r (xlnx_elite_write t (of_nat (tx_tplr b)) 4 (of_nat n) s)
          (\<lambda>_ s. xlnx_elite_write t (of_nat (tx_tsr b)) 4 cmd s))"

lemma map_block: "n \<le> length bs \<Longrightarrow> map (mem_write_block m a bs) [a ..< a + n] = take n bs"
  by (rule nth_equalityI) (auto simp: mem_write_block_def)

lemma transmit_kick:
  assumes "tx_buf b + 4 * length ws \<le> tx_end b + 4"
  shows "\<exists>u. transmit t b ws n cmd s = tx_kick t (tx_buf b) (tx_tplr b) (tx_tsr b) cmd u \<and> elite_net u = elite_net s \<and>
     eth_mac_addr u = eth_mac_addr s \<and>
     unat (reg_get (tx_tplr b) u) = n mod 2 ^ 32 \<and>
     (\<forall>k. k \<le> 4 * length ws \<longrightarrow> map (elite_regs u) [tx_buf b ..< tx_buf b + k] = take k (concat (map bytes32 ws)))"
proof -
  let ?s = "s\<lparr>elite_regs := mem_write_block (elite_regs s) (tx_buf b) (concat (map bytes32 ws))\<rparr>"
  let ?u = "reg_set (tx_tplr b) (of_nat n) ?s"
  have ws: "write_words t (tx_buf b) ws s = Inr ((), ?s)"
    using write_tx_words [of b "tx_buf b" ws t s] assms tx_layout(4) by simp
  have addr: "unat (of_nat (tx_tplr b) :: u32) = tx_tplr b" "unat (of_nat (tx_tsr b) :: u32) = tx_tsr b"
    using tx_layout(1-3) [of b] by (auto intro: unat_of_nat_addr)
  have tplr: "xlnx_elite_write t (of_nat (tx_tplr b)) 4 (of_nat n) ?s = Inr ((), ?u)"
    by (simp only: xlnx_elite_write_def addr Let_def) (cases b; simp)
  have tsr: "xlnx_elite_write t (of_nat (tx_tsr b)) 4 cmd ?u = tx_kick t (tx_buf b) (tx_tplr b) (tx_tsr b) cmd ?u"
    by (simp only: xlnx_elite_write_def addr Let_def) (cases b; simp)
  have "map (elite_regs ?u) [tx_buf b ..< tx_buf b + k] = take k (concat (map bytes32 ws))" if "k \<le> 4 * length ws" for k
  proof -
    have "tx_buf b + k \<le> tx_tplr b" using that assms tx_layout(1) [of b] by linarith
    then have "map (elite_regs ?u) [tx_buf b ..< tx_buf b + k] = map (elite_regs ?s) [tx_buf b ..< tx_buf b + k]"
      by (auto simp: reg_set_bytes)
    then show ?thesis using map_block [of k "concat (map bytes32 ws)" "elite_regs s" "tx_buf b"] that by simp
  qed
  moreover have "unat (of_nat n :: u32) = n mod 2 ^ 32" by (simp add: unsigned_of_nat take_bit_eq_mod)
  ultimately show ?thesis
    using ws tplr tsr by (intro exI [of _ ?u]) (simp add: transmit_def)
qed

text \<open>
  C35: the guest's frames go out. The words written to either transmit buffer, a length within them and
  the busy bit make exactly the frame of that length leave, once, behind the empty header of the tap
  interface and with its record in the packet log, and the status reads as idle; with the program
  bit and a length of six the bytes become the station's address instead and nothing is sent.
\<close>

theorem ethernet_transmit:
  assumes "tx_buf b + 4 * length ws \<le> tx_end b + 4" and "n \<le> 4 * length ws"
  shows "\<exists>s'. transmit t b ws n XEL_TSR_XMIT_BUSY_MASK s = Inr ((), s') \<and>
     net_tap_out (elite_net s') = net_tap_out (elite_net s) @ [replicate 10 0 @ take n (concat (map bytes32 ws))] \<and>
     net_pcap (elite_net s') = pcap_write t (take n (concat (map bytes32 ws))) (net_pcap (elite_net s)) \<and>
     eth_mac_addr s' = eth_mac_addr s \<and> xlnx_elite_read (of_nat (tx_tsr b)) 4 s' = Inr (0, s') \<and>
     (n = 6 \<longrightarrow> length (eth_mac_addr s) = 6 \<longrightarrow>
        (\<exists>s''. transmit t b ws n XEL_TSR_PROG_MAC_ADDR s = Inr ((), s'') \<and>
          eth_mac_addr s'' = take 6 (concat (map bytes32 ws)) \<and> elite_net s'' = elite_net s \<and>
          xlnx_elite_read (of_nat (tx_tsr b)) 4 s'' = Inr (0, s'')))"
proof -
  have small: "n < 2 ^ 32" "tx_buf b + n \<le> 0x2000" "tx_buf b + n \<le> tx_tsr b"
    using assms tx_layout(1-3) [of b] by simp_all
  have tsr: "unat (of_nat (tx_tsr b) :: u32) = tx_tsr b" using tx_layout(3) [of b] by (auto intro: unat_of_nat_addr)
  have rd: "xlnx_elite_read (of_nat (tx_tsr b)) 4 s' = Inr (reg_get (tx_tsr b) s', s')" for s'
    by (simp only: xlnx_elite_read_def tsr Let_def) (cases b; simp)
  have tplr: "reg_get (tx_tplr b) (reg_set (tx_tsr b) v u) = reg_get (tx_tplr b) u" for v u
    using tx_layout(2) by (simp add: reg_get_set_other)
  have bytes: "map (elite_regs (reg_set (tx_tsr b) v u)) [tx_buf b ..< tx_buf b + n] = map (elite_regs u) [tx_buf b ..< tx_buf b + n]" for v u
    using small(3) by (auto simp: reg_set_bytes)
  obtain u where u: "transmit t b ws n XEL_TSR_XMIT_BUSY_MASK s = tx_kick t (tx_buf b) (tx_tplr b) (tx_tsr b) XEL_TSR_XMIT_BUSY_MASK u"
    "elite_net u = elite_net s" "eth_mac_addr u = eth_mac_addr s" "unat (reg_get (tx_tplr b) u) = n"
    "map (elite_regs u) [tx_buf b ..< tx_buf b + n] = take n (concat (map bytes32 ws))"
    using transmit_kick [OF assms(1), of t n XEL_TSR_XMIT_BUSY_MASK s] assms(2) small(1) by auto
  obtain u' where u': "transmit t b ws n XEL_TSR_PROG_MAC_ADDR s = tx_kick t (tx_buf b) (tx_tplr b) (tx_tsr b) XEL_TSR_PROG_MAC_ADDR u'"
    "elite_net u' = elite_net s" "eth_mac_addr u' = eth_mac_addr s" "unat (reg_get (tx_tplr b) u') = n"
    "map (elite_regs u') [tx_buf b ..< tx_buf b + n] = take n (concat (map bytes32 ws))"
    using transmit_kick [OF assms(1), of t n XEL_TSR_PROG_MAC_ADDR s] assms(2) small(1) by auto
  define v where "v = reg_set (tx_tsr b) XEL_TSR_XMIT_BUSY_MASK u"
  define w where "w = v\<lparr>elite_net := net_send_data t (take n (concat (map bytes32 ws))) (elite_net s)\<rparr>"
  have send: "tx_kick t (tx_buf b) (tx_tplr b) (tx_tsr b) XEL_TSR_XMIT_BUSY_MASK u = Inr ((), reg_set (tx_tsr b) 0 w)"
    using u small(2) by (simp add: tx_kick_def Let_def tplr bytes v_def w_def)
  define v' where "v' = reg_set (tx_tsr b) XEL_TSR_PROG_MAC_ADDR u'"
  have prog: "tx_kick t (tx_buf b) (tx_tplr b) (tx_tsr b) XEL_TSR_PROG_MAC_ADDR u' =
      Inr ((), reg_set (tx_tsr b) 0 (v'\<lparr>eth_mac_addr := take 6 (concat (map bytes32 ws))\<rparr>))"
    if "n = 6" "length (eth_mac_addr s) = 6"
    using u' that by (simp add: tx_kick_def Let_def tplr bytes [unfolded that(1)] v'_def)
  show ?thesis
    using u u' send prog rd
    by (intro exI [of _ "reg_set (tx_tsr b) 0 w"])
       (auto simp: w_def v_def v'_def net_send_data_def net_pcap_write_def Let_def)
qed

theorem ethernet_transmit_witness:
  "\<exists>s'. transmit (1, 2) Pong [0xffffffff, 0x5e00ffff] 6 XEL_TSR_XMIT_BUSY_MASK elite_start = Inr ((), s') \<and>
     net_tap_out (elite_net s') = [replicate 10 0 @ [0xff, 0xff, 0xff, 0xff, 0xff, 0xff]]"
proof -
  have "take 6 (concat (map bytes32 [0xffffffff, 0x5e00ffff])) = [0xff, 0xff, 0xff, 0xff, 0xff, 0xff]"
    by (simp add: bytes32_def byte_of_def)
  then show ?thesis
    using ethernet_transmit [of Pong "[0xffffffff, 0x5e00ffff]" 6 "(1, 2)" elite_start] by (auto simp: elite_start_def)
qed

section \<open>Receiving\<close>

lemma rx_into_ok:
  assumes "length data \<le> buf_end - buf" and "buf_end + 4 \<le> rsr"
  shows "rx_into buf buf_end rsr data s = Inr (int (length data),
     (reg_set rsr (reg_get rsr s OR 1) s)\<lparr>elite_regs := mem_write_block (elite_regs (reg_set rsr (reg_get rsr s OR 1) s)) buf data\<rparr>)"
  using assms by (simp add: rx_into_def Let_def)

definition rx_word :: "u8 list \<Rightarrow> nat \<Rightarrow> u32" where
  "rx_word data i = le32 (data ! (4 * i)) (data ! (4 * i + 1)) (data ! (4 * i + 2)) (data ! (4 * i + 3))"

lemma bit0_or: "(w OR 1) AND 1 = (1 :: u32)"
  by (rule bit_eqI) (auto simp: bit_simps)

text \<open>The state after a frame in the buffer.\<close>

definition rx_state :: "nat \<Rightarrow> nat \<Rightarrow> u8 list \<Rightarrow> elite_t \<Rightarrow> elite_t" where
  "rx_state buf rsr data s = (let u = reg_set rsr (reg_get rsr s OR 1) s
     in u\<lparr>elite_regs := mem_write_block (elite_regs u) buf data\<rparr>)"

lemma rx_state_regs:
  assumes "buf + length data \<le> rsr" and "4 * i + 4 \<le> length data"
  shows "reg_get (buf + 4 * i) (rx_state buf rsr data s) = rx_word data i"
  using assms by (simp add: rx_state_def reg_get_def mem_read32_block rx_word_def Let_def)

lemma rx_state_rsr:
  assumes "buf + length data \<le> rsr"
  shows "reg_get rsr (rx_state buf rsr data s) = reg_get rsr s OR 1"
  using assms by (simp add: rx_state_def Let_def reg_get_block_other)

lemma rx_state_other:
  assumes "a + 4 \<le> buf \<or> buf + length data \<le> a" and "a + 4 \<le> rsr \<or> rsr + 4 \<le> a"
  shows "reg_get a (rx_state buf rsr data s) = reg_get a s"
  using assms by (simp add: rx_state_def Let_def reg_get_block_other reg_get_set_other)

lemma xlnx_elite_rx_ping:
  "reg_get RX_PING_RSR s AND 1 = 0 \<Longrightarrow> length data \<le> 0x7f8 \<Longrightarrow>
     xlnx_elite_rx data s = Inr (int (length data), rx_state RX_PING RX_PING_RSR data s)"
  by (simp add: xlnx_elite_rx_def rx_into_def rx_state_def Let_def)

lemma xlnx_elite_rx_pong:
  "reg_get RX_PING_RSR s AND 1 \<noteq> 0 \<Longrightarrow> reg_get RX_PONG_RSR s AND 1 = 0 \<Longrightarrow> length data \<le> 0x7f8 \<Longrightarrow>
     xlnx_elite_rx data s = Inr (int (length data), rx_state RX_PONG RX_PONG_RSR data s)"
  by (simp add: xlnx_elite_rx_def rx_into_def rx_state_def Let_def)

lemma read_rx_word:
  assumes "4 * i + 4 \<le> 0x7f8"
  shows "xlnx_elite_read (of_nat (RX_PING + 4 * i)) 4 s = Inr (reg_get (RX_PING + 4 * i) s, s)"
    and "xlnx_elite_read (of_nat (RX_PONG + 4 * i)) 4 s = Inr (reg_get (RX_PONG + 4 * i) s, s)"
proof -
  have u: "unat (of_nat (RX_PING + 4 * i) :: u32) = RX_PING + 4 * i" "unat (of_nat (RX_PONG + 4 * i) :: u32) = RX_PONG + 4 * i"
    by (rule unat_of_nat_addr, use assms in simp)+
  have d: "4 * ((RX_PING + 4 * i) div 4) = RX_PING + 4 * i" "4 * ((RX_PONG + 4 * i) div 4) = RX_PONG + 4 * i" by simp_all
  have n: "RX_PING + 4 * i \<noteq> TX_PONG_TSR" "RX_PONG + 4 * i \<noteq> TX_PONG_TSR" "RX_PING + 4 * i \<noteq> TX_PING_TSR"
    "RX_PONG + 4 * i \<noteq> TX_PING_TSR" by simp_all
  show "xlnx_elite_read (of_nat (RX_PING + 4 * i)) 4 s = Inr (reg_get (RX_PING + 4 * i) s, s)"
    unfolding xlnx_elite_read_def u Let_def d using n assms by simp
  show "xlnx_elite_read (of_nat (RX_PONG + 4 * i)) 4 s = Inr (reg_get (RX_PONG + 4 * i) s, s)"
    unfolding xlnx_elite_read_def u Let_def d using n assms by simp
qed

text \<open>
  C36: two frames are held for the guest and a third one waits. For frames of up to 0x7f8 bytes: with both buffers free the first frame
  goes to the first buffer and the second one to the second, and the guest reads from each the words
  of its frame; a third frame is refused and changes nothing, until the guest clears the status of
  the first buffer, which then takes it while the second frame stays.
\<close>

theorem ethernet_receive:
  assumes "reg_get RX_PING_RSR s AND 1 = 0" and "reg_get RX_PONG_RSR s AND 1 = 0"
    and "length d1 \<le> 0x7f8" and "length d2 \<le> 0x7f8" and "length d3 \<le> 0x7f8"
  shows "\<exists>s1 s2 s3 s4. xlnx_elite_rx d1 s = Inr (int (length d1), s1) \<and> xlnx_elite_rx d2 s1 = Inr (int (length d2), s2) \<and>
     xlnx_elite_rx d3 s2 = Inr (- 1, s2) \<and>
     (\<forall>i. 4 * i + 4 \<le> length d1 \<longrightarrow> xlnx_elite_read (of_nat (RX_PING + 4 * i)) 4 s2 = Inr (rx_word d1 i, s2)) \<and>
     (\<forall>i. 4 * i + 4 \<le> length d2 \<longrightarrow> xlnx_elite_read (of_nat (RX_PONG + 4 * i)) 4 s2 = Inr (rx_word d2 i, s2)) \<and>
     xlnx_elite_write t (of_nat RX_PING_RSR) 4 0 s2 = Inr ((), s3) \<and> xlnx_elite_rx d3 s3 = Inr (int (length d3), s4) \<and>
     (\<forall>i. 4 * i + 4 \<le> length d3 \<longrightarrow> xlnx_elite_read (of_nat (RX_PING + 4 * i)) 4 s4 = Inr (rx_word d3 i, s4)) \<and>
     (\<forall>i. 4 * i + 4 \<le> length d2 \<longrightarrow> xlnx_elite_read (of_nat (RX_PONG + 4 * i)) 4 s4 = Inr (rx_word d2 i, s4))"
proof -
  define s1 where "s1 = rx_state RX_PING RX_PING_RSR d1 s"
  define s2 where "s2 = rx_state RX_PONG RX_PONG_RSR d2 s1"
  define s3 where "s3 = reg_set RX_PING_RSR 0 s2"
  define s4 where "s4 = rx_state RX_PING RX_PING_RSR d3 s3"
  have r1: "xlnx_elite_rx d1 s = Inr (int (length d1), s1)"
    unfolding s1_def by (rule xlnx_elite_rx_ping [OF assms(1,3)])
  have st1: "reg_get RX_PING_RSR s1 AND 1 = 1" "reg_get RX_PONG_RSR s1 AND 1 = 0"
    using assms(2,3) by (simp_all add: s1_def rx_state_rsr rx_state_other bit0_or)
  have r2: "xlnx_elite_rx d2 s1 = Inr (int (length d2), s2)"
    unfolding s2_def by (rule xlnx_elite_rx_pong) (use st1 assms(4) in simp_all)
  have st2: "reg_get RX_PING_RSR s2 AND 1 = 1" "reg_get RX_PONG_RSR s2 AND 1 = 1"
    using st1 assms(4) by (simp_all add: s2_def rx_state_rsr rx_state_other bit0_or)
  have r3: "xlnx_elite_rx d3 s2 = Inr (- 1, s2)" using st2 by (simp add: xlnx_elite_rx_def)
  have ping: "reg_get (RX_PING + 4 * i) s2 = rx_word d1 i" if "4 * i + 4 \<le> length d1" for i
    using that assms(3,4) by (simp add: s2_def rx_state_other) (simp add: s1_def rx_state_regs)
  have pong: "reg_get (RX_PONG + 4 * i) s2 = rx_word d2 i" if "4 * i + 4 \<le> length d2" for i
    using that assms(4) by (simp add: s2_def rx_state_regs)
  have w: "xlnx_elite_write t (of_nat RX_PING_RSR) 4 0 s2 = Inr ((), s3)"
    by (simp add: xlnx_elite_write_def Let_def s3_def)
  have r4: "xlnx_elite_rx d3 s3 = Inr (int (length d3), s4)"
    unfolding s4_def by (rule xlnx_elite_rx_ping) (use assms(5) in \<open>simp_all add: s3_def\<close>)
  have ping4: "reg_get (RX_PING + 4 * i) s4 = rx_word d3 i" if "4 * i + 4 \<le> length d3" for i
    using that assms(5) by (simp add: s4_def rx_state_regs)
  have pong4: "reg_get (RX_PONG + 4 * i) s4 = rx_word d2 i" if "4 * i + 4 \<le> length d2" for i
    using that assms(4,5) pong [OF that] by (simp add: s4_def rx_state_other s3_def reg_get_set_other)
  show ?thesis
    using r1 r2 r3 w r4 ping pong ping4 pong4 assms(3-5)
    by (intro exI [of _ s1] exI [of _ s2] exI [of _ s3] exI [of _ s4] conjI allI impI) (auto simp only: read_rx_word)
qed

theorem ethernet_receive_witness:
  "\<exists>s1 s2. xlnx_elite_rx [1, 2, 3, 4] elite_start = Inr (4, s1) \<and> xlnx_elite_rx [5, 6, 7, 8] s1 = Inr (4, s2) \<and>
     xlnx_elite_rx [9] s2 = Inr (- 1, s2) \<and> xlnx_elite_read (of_nat (RX_PONG + 4 * 0)) 4 s2 = Inr (0x08070605, s2)"
proof -
  have z: "reg_get RX_PING_RSR elite_start AND 1 = 0" "reg_get RX_PONG_RSR elite_start AND 1 = 0"
    by (simp_all add: elite_start_def reg_get_def mem_read32_def le32_def)
  have w: "rx_word [5, 6, 7, 8] 0 = 0x08070605" by (simp add: rx_word_def le32_def)
  show ?thesis
    using ethernet_receive [OF z, of "[1, 2, 3, 4]" "[5, 6, 7, 8]" "[9]" "(0, 0)"] w
    by auto
qed

section \<open>The PHY and the poll\<close>

text \<open>A read over the management interface brings the register of the PHY, for every PHY and register.\<close>

lemma mdio_fields:
  assumes "phy < 32" and "reg < 32"
  shows "mdio_op (0x400 OR (push_bit 5 (of_nat phy) OR of_nat reg)) = 1"
    and "mdio_phyaddr (0x400 OR (push_bit 5 (of_nat phy) OR of_nat reg)) = phy"
    and "mdio_regnum (0x400 OR (push_bit 5 (of_nat phy) OR of_nat reg)) = reg"
proof -
  have r: "\<not> bit (of_nat k :: u32) i" if "k < 32" "5 \<le> i" for k i
  proof -
    have "(of_nat k :: u32) = take_bit 5 (of_nat k)"
      by (rule take_bit_u32_small [symmetric]) (use that(1) in \<open>simp add: unat_of_nat_addr\<close>)
    then have "bit (of_nat k :: u32) i = bit (take_bit 5 (of_nat k) :: u32) i" by simp
    then show ?thesis using that(2) by (simp add: bit_take_bit_iff)
  qed
  have b: "bit (0x400 :: u32) i \<longleftrightarrow> i = 10" for i
  proof -
    have "(0x400 :: u32) = 2 ^ 10" by simp
    then show ?thesis by (simp only: bit_exp_iff) auto
  qed
  have r': "i < 5" if "bit (of_nat k :: u32) i" "k < 32" for k i using r [of k i] that by (meson not_le)
  have u: "unat (of_nat k :: u32) = k" if "k < 32" for k using that by (simp add: unat_of_nat_addr)
  show "mdio_op (0x400 OR (push_bit 5 (of_nat phy) OR of_nat reg)) = 1"
    unfolding mdio_op_def by (rule bit_eqI) (auto simp: bit_bf_get b bit_or_iff bit_push_bit_iff bit_1_iff)
  have "bf_get 5 5 (0x400 OR (push_bit 5 (of_nat phy) OR of_nat reg)) = of_nat phy"
    by (rule bit_eqI) (auto simp: bit_bf_get b bit_or_iff bit_push_bit_iff r [OF assms(2)] simp del: bit_numeral_word_iff dest: r' [OF _ assms(1)])
  then show "mdio_phyaddr (0x400 OR (push_bit 5 (of_nat phy) OR of_nat reg)) = phy"
    by (simp add: mdio_phyaddr_def u assms(1))
  have "bf_get 0 5 (0x400 OR (push_bit 5 (of_nat phy) OR of_nat reg)) = of_nat reg"
    by (rule bit_eqI) (auto simp: bit_bf_get b bit_or_iff bit_push_bit_iff simp del: bit_numeral_word_iff dest: r' [OF _ assms(2)])
  then show "mdio_regnum (0x400 OR (push_bit 5 (of_nat phy) OR of_nat reg)) = reg"
    by (simp add: mdio_regnum_def u assms(2))
qed

lemma mdio_read:
  assumes "phy < 32" and "reg < 32" and "reg_get MDIO_ADDR s = 0x400 OR (push_bit 5 (of_nat phy) OR of_nat reg)"
  shows "\<exists>s'. xlnx_elite_write t (of_nat MDIO_CTRL) 4 9 s = Inr ((), s') \<and>
     xlnx_elite_read (of_nat MDIO_RD) 4 s' = Inr (ucast (phy_regs s phy reg), s') \<and>
     xlnx_elite_read (of_nat MDIO_CTRL) 4 s' = Inr (8, s')"
  using assms mdio_fields [OF assms(1,2)]
  by (simp add: xlnx_elite_write_def xlnx_elite_read_def mii_transaction_def Let_def reg_get_set_other)
     (simp add: reg_set_def)

text \<open>A poll takes everything off the interface and the queue: what arrived reaches nothing but the log.\<close>

lemma net_drain_empty: "fifo_is_empty (net_queue (snd (net_drain h n)))"
proof (induction h n rule: net_drain.induct)
  case (1 h n)
  then show ?case by (cases "fifo_is_empty (net_queue n)") (simp_all add: net_drain.simps [of h n] del: net_drain.simps)
qed

lemma net_poll_drops: "fifo_is_empty (net_queue (snd (net_poll_packet t n)))"
  by (simp add: net_poll_packet_def net_drain_empty split: prod.split del: net_drain.simps net_poll_read.simps)

end
