(* ===== verification/Gdb_Proto.thy ===== *)
theory Gdb_Proto
  imports Nemu_Prelude
begin

text \<open>
  The packets of the debugger's remote protocol, \<^verbatim>\<open>src/utils/gdbstub/gdb-proto.c\<close>: framing with a
  checksum, escapes and run lengths on the receiving side, acknowledgements and retransmission. The
  two streams of a connection are lists of bytes: what the peer will send, and what was sent to it.
  Opening and closing sockets is left out.
\<close>

section \<open>Hexadecimal digits\<close>

definition isdigit :: "u8 \<Rightarrow> bool" where
  "isdigit c \<longleftrightarrow> 0x30 \<le> c \<and> c \<le> 0x39"

definition isxdigit :: "u8 \<Rightarrow> bool" where
  "isxdigit c \<longleftrightarrow> isdigit c \<or> 0x41 \<le> c \<and> c \<le> 0x46 \<or> 0x61 \<le> c \<and> c \<le> 0x66"

definition tolower :: "u8 \<Rightarrow> u8" where
  "tolower c = (if 0x41 \<le> c \<and> c \<le> 0x5A then c + 0x20 else c)"

definition hex_nibble :: "u8 \<Rightarrow> u8" where
  "hex_nibble hex = (if isdigit hex then hex - 0x30 else tolower hex - 0x61 + 10)"

definition hex_encode :: "u8 \<Rightarrow> u8" where
  "hex_encode digit = (if digit > 9 then 0x61 + digit - 10 else 0x30 + digit)"

definition gdb_decode_hex :: "u8 \<Rightarrow> u8 \<Rightarrow> u16" where
  "gdb_decode_hex msb lsb =
     (if \<not> isxdigit msb \<or> \<not> isxdigit lsb then 0xFFFF
      else 16 * ucast (hex_nibble msb) + ucast (hex_nibble lsb))"

text \<open>A string is the list of its bytes before the terminating zero, which is no digit.\<close>

fun decode_hex_loop :: "u64 \<Rightarrow> u64 \<Rightarrow> u8 list \<Rightarrow> u64" where
  "decode_hex_loop val weight (b0 # b1 # bytes) =
     (if isxdigit b0 \<and> isxdigit b1
      then decode_hex_loop (val + weight * ucast (gdb_decode_hex b0 b1)) (weight * (16 * 16)) bytes
      else val)"
| "decode_hex_loop val weight bytes = val"

definition gdb_decode_hex_str :: "u8 list \<Rightarrow> u64" where
  "gdb_decode_hex_str bytes = decode_hex_loop 0 1 bytes"

text \<open>The conversions \<^verbatim>\<open>%02X\<close> and \<^verbatim>\<open>%02x\<close> of a byte.\<close>

definition fmt_02X :: "u8 \<Rightarrow> u8 list" where
  "fmt_02X b = map (\<lambda>d. if d > 9 then 0x41 + d - 10 else 0x30 + d) [b div 16, b mod 16]"

definition fmt_02x :: "u8 \<Rightarrow> u8 list" where
  "fmt_02x b = map (\<lambda>d. if d > 9 then 0x61 + d - 10 else 0x30 + d) [b div 16, b mod 16]"

section \<open>Connections\<close>

record gdb_conn =
  conn_in :: "u8 list"
  conn_out :: "u8 list"
  conn_ack :: bool

type_synonym 'a cres = "('a, gdb_conn) outcome"

definition put :: "u8 list \<Rightarrow> gdb_conn \<Rightarrow> gdb_conn" where
  "put bs conn = conn\<lparr>conn_out := conn_out conn @ bs\<rparr>"

definition gdb_begin_server :: "u8 list \<Rightarrow> gdb_conn" where
  "gdb_begin_server peer = \<lparr>conn_in = peer, conn_out = [], conn_ack = True\<rparr>"

definition gdb_begin :: "u8 list \<Rightarrow> gdb_conn" where
  "gdb_begin peer = put [0x2B] \<lparr>conn_in = peer, conn_out = [], conn_ack = True\<rparr>"

definition send_packet :: "u8 list \<Rightarrow> gdb_conn \<Rightarrow> gdb_conn" where
  "send_packet command conn = put (0x24 # command @ 0x23 # fmt_02X (sum_list command)) conn"

text \<open>
  When the peer has closed its side, \<^verbatim>\<open>fgetc\<close> never returns an acknowledgement, and the packet is
  sent again without end.
\<close>

function gdb_send :: "u8 list \<Rightarrow> gdb_conn \<Rightarrow> unit cres" where
  "gdb_send command conn =
     (let conn = send_packet command conn
      in if \<not> conn_ack conn then Inr ((), conn)
         else case conn_in conn of
                [] \<Rightarrow> Inl (Hang, conn)
              | c # cs \<Rightarrow>
                  (let conn = conn\<lparr>conn_in := cs\<rparr>
                   in if c = 0x2B then Inr ((), conn) else gdb_send command conn))"
  by pat_completeness auto

termination
  by (relation "measure (\<lambda>(command, conn). length (conn_in conn))") (auto simp: send_packet_def put_def)

declare gdb_send.simps [simp del]

section \<open>Receiving\<close>

text \<open>\<open>recv_loop reply sm escape input\<close>; the result is the packet, whether its checksum was right, and the rest.\<close>

fun recv_loop :: "u8 list \<Rightarrow> u8 \<Rightarrow> bool \<Rightarrow> u8 list \<Rightarrow> (u8 list \<times> bool \<times> u8 list) option" where
  "recv_loop reply sm escape [] = None"
| "recv_loop reply sm escape (c # cs) =
     (if c = 0x24 then recv_loop [] 0 False cs
      else if c = 0x23
      then (let msb = (case cs of b # _ \<Rightarrow> b | [] \<Rightarrow> 0xFF);
                lsb = (case drop 1 cs of b # _ \<Rightarrow> b | [] \<Rightarrow> 0xFF)
            in Some (reply, ucast sm = gdb_decode_hex msb lsb, drop 2 cs))
      else if c = 0x7D then recv_loop reply (sm + c) True cs
      else if c = 0x2A \<and> reply \<noteq> []
      then (case cs of
              [] \<Rightarrow> None
            | c2 # cs' \<Rightarrow>
                if c2 < 29 \<or> c2 > 126 \<or> c2 = 0x24 \<or> c2 = 0x23
                then recv_loop (reply @ [if escape then c XOR 0x20 else c]) (sm + c) False cs
                else recv_loop (reply @ replicate (unat c2 - 29) (last reply)) (sm + c + c2) escape cs')
      else recv_loop (reply @ [if escape then c XOR 0x20 else c]) (sm + c) False cs)"

definition recv_packet :: "u8 list \<Rightarrow> (u8 list \<times> bool \<times> u8 list) option" where
  "recv_packet inp = recv_loop [] 0 False (drop 1 (dropWhile (\<lambda>c. c \<noteq> 0x24) inp))"

lemma recv_loop_rest: "recv_loop reply sm escape cs = Some (r, ok, rest) \<Longrightarrow> length rest < length cs"
proof (induction cs arbitrary: reply sm escape rule: length_induct)
  case (1 cs)
  have IH: "length rest < length xs" if "recv_loop rp s e xs = Some (r, ok, rest)" "length xs < length cs" for xs rp s e
    using "1.IH" that by blast
  show ?case
  proof (cases cs)
    case (Cons c cs')
    have "length rest < length cs' \<or> length rest < length (drop 1 cs') \<or> rest = drop 2 cs'"
      using "1.prems" IH [of _ _ _ cs'] IH [of _ _ _ "drop 1 cs'"] Cons
      unfolding Cons recv_loop.simps(2) Let_def
      by (cases cs') (simp_all del: recv_loop.simps split: if_splits, blast+)
    then show ?thesis using Cons by auto
  qed (use "1.prems" in simp)
qed

lemma recv_packet_rest: "recv_packet inp = Some (r, ok, rest) \<Longrightarrow> length rest < length inp"
  using recv_loop_rest [of "[]" 0 False "drop 1 (dropWhile (\<lambda>c. c \<noteq> 0x24) inp)" r ok rest]
    length_dropWhile_le [of "\<lambda>c. c \<noteq> 0x24" inp]
  by (simp add: recv_packet_def)

function gdb_recv :: "gdb_conn \<Rightarrow> u8 list cres" where
  "gdb_recv conn =
     (case recv_packet (conn_in conn) of
        None \<Rightarrow> Inl (NemuExit, conn\<lparr>conn_in := []\<rparr>)
      | Some (reply, acked, rest) \<Rightarrow>
          (let conn = conn\<lparr>conn_in := rest\<rparr>
           in if \<not> conn_ack conn then Inr (reply, conn)
              else let conn = put [if acked then 0x2B else 0x2D] conn
                   in if acked then Inr (reply, conn) else gdb_recv conn))"
  by pat_completeness auto

termination
  by (relation "measure (\<lambda>conn. length (conn_in conn))") (auto simp: put_def dest!: recv_packet_rest)

declare gdb_recv.simps [simp del]

definition QStartNoAckMode :: "u8 list" where
  "QStartNoAckMode = map of_char ''QStartNoAckMode''"

definition gdb_start_noack :: "gdb_conn \<Rightarrow> bool cres" where
  "gdb_start_noack conn =
     bind_r (gdb_send QStartNoAckMode conn)
       (\<lambda>_ conn. bind_r (gdb_recv conn)
          (\<lambda>reply conn. let ok = reply = map of_char ''OK''
                         in Inr (ok, if ok then conn\<lparr>conn_ack := False\<rparr> else conn)))"

section \<open>The encoding\<close>

text \<open>
  What a sender may write between the markers: a plain byte, an escaped byte, or a count that
  repeats the byte before it. The meaning is the sequence of bytes it stands for.
\<close>

datatype token = Plain u8 | Escaped u8 | Repeat u8

definition special :: "u8 \<Rightarrow> bool" where
  "special c \<longleftrightarrow> c \<in> {0x24, 0x23, 0x7D, 0x2A}"

fun token_bytes :: "token \<Rightarrow> u8 list" where
  "token_bytes (Plain c) = [c]"
| "token_bytes (Escaped c) = [0x7D, c XOR 0x20]"
| "token_bytes (Repeat n) = [0x2A, n]"

fun tokens_mean :: "u8 list \<Rightarrow> token list \<Rightarrow> u8 list" where
  "tokens_mean xs [] = xs"
| "tokens_mean xs (Plain c # ts) = tokens_mean (xs @ [c]) ts"
| "tokens_mean xs (Escaped c # ts) = tokens_mean (xs @ [c]) ts"
| "tokens_mean xs (Repeat n # ts) = tokens_mean (xs @ replicate (unat n - 29) (last xs)) ts"

fun tokens_ok :: "bool \<Rightarrow> token list \<Rightarrow> bool" where
  "tokens_ok started [] = True"
| "tokens_ok started (Plain c # ts) = (\<not> special c \<and> tokens_ok True ts)"
| "tokens_ok started (Escaped c # ts) = (\<not> special (c XOR 0x20) \<and> tokens_ok True ts)"
| "tokens_ok started (Repeat n # ts) = (started \<and> 29 \<le> n \<and> n \<le> 126 \<and> n \<noteq> 0x24 \<and> n \<noteq> 0x23 \<and> tokens_ok True ts)"

definition tokens_bytes :: "token list \<Rightarrow> u8 list" where
  "tokens_bytes ts = concat (map token_bytes ts)"

lemma tokens_bytes_simps [simp]: "tokens_bytes [] = []" "tokens_bytes (t # ts) = token_bytes t @ tokens_bytes ts"
  by (simp_all add: tokens_bytes_def)

lemma xor_32_twice: "(c XOR 0x20) XOR 0x20 = (c :: u8)"
  by (simp add: xor.assoc)

lemma recv_loop_tokens:
  "tokens_ok (xs \<noteq> []) ts \<Longrightarrow>
     recv_loop xs sm False (tokens_bytes ts @ cs) = recv_loop (tokens_mean xs ts) (sm + sum_list (tokens_bytes ts)) False cs"
proof (induction ts arbitrary: xs sm)
  case (Cons t ts)
  have IH: "recv_loop ys sm False (tokens_bytes ts @ cs) =
      recv_loop (tokens_mean ys ts) (sm + sum_list (tokens_bytes ts)) False cs" if "tokens_ok True ts" "ys \<noteq> []" for ys sm
    using Cons.IH that by simp
  show ?case
    using Cons.prems
    by (cases t) (auto simp: special_def IH xor_32_twice add.assoc not_less)
qed simp

lemma word_small_cases:
  assumes "(d :: u8) < 16"
  shows "d \<in> {0, 1, 2, 3, 4, 5, 6, 7, 8, 9, 10, 11, 12, 13, 14, 15}"
proof -
  obtain n where d: "d = of_nat n" and n: "n < 16"
  proof
    show "d = of_nat (unat d)" by simp
    show "unat d < 16" using assms by (simp add: word_less_nat_alt)
  qed
  from n have "n \<in> {0, 1, 2, 3, 4, 5, 6, 7, 8, 9, 10, 11, 12, 13, 14, 15}" unfolding insert_iff empty_iff simp_thms by presburger
  then show ?thesis unfolding d by (elim insertE emptyE) simp_all
qed

lemma upper_digit:
  assumes "(d :: u8) < 16" and "c = (if d > 9 then 0x41 + d - 10 else 0x30 + d)"
  shows "isxdigit c \<and> hex_nibble c = d"
  using word_small_cases [OF assms(1)] assms(2)
  by (elim insertE emptyE) (simp_all add: isxdigit_def isdigit_def hex_nibble_def tolower_def)

lemma lower_digit:
  assumes "(d :: u8) < 16" and "c = (if d > 9 then 0x61 + d - 10 else 0x30 + d)"
  shows "isxdigit c \<and> hex_nibble c = d \<and> c \<noteq> 0 \<and> \<not> special c"
  using word_small_cases [OF assms(1)] assms(2)
  by (elim insertE emptyE) (simp_all add: isxdigit_def isdigit_def hex_nibble_def tolower_def special_def)

lemma nibbles_less: "(b :: u8) div 16 < 16" "b mod 16 < 16"
proof -
  have "unat b < 2 ^ LENGTH(8)" by (rule unsigned_less)
  then show "b div 16 < 16" "b mod 16 < 16" by (simp_all add: word_less_nat_alt unat_div_distrib unat_mod_distrib)
qed

lemma nibbles_join: "16 * ucast (b div 16) + ucast (b mod 16) = (ucast (b :: u8) :: u16)"
proof (rule word_unat_eqI)
  have "unat b < 2 ^ LENGTH(8)" by (rule unsigned_less)
  then have "unat b div 16 < 16" "unat b mod 16 < 16" "unat b < 256" by simp_all
  then show "unat (16 * ucast (b div 16) + ucast (b mod 16) :: u16) = unat (ucast b :: u16)"
    by (simp add: unat_word_ariths unat_div_distrib unat_mod_distrib unsigned_ucast_eq take_bit_nat_eq_self)
qed

lemma decode_fmt_02X:
  assumes "fmt_02X b = [x, y]"
  shows "gdb_decode_hex x y = ucast b"
  using assms upper_digit [OF nibbles_less(1) [of b]] upper_digit [OF nibbles_less(2) [of b]]
  by (auto simp: fmt_02X_def gdb_decode_hex_def nibbles_join)

lemma fmt_02X_two: obtains x y where "fmt_02X b = [x, y]"
  by (simp add: fmt_02X_def)

lemma drop_to_start: "\<forall>c \<in> set junk. c \<noteq> 0x24 \<Longrightarrow> drop 1 (dropWhile (\<lambda>c. c \<noteq> 0x24) (junk @ 0x24 # cs)) = cs"
  by (simp add: dropWhile_append3)

lemma recv_packet_tokens:
  assumes "\<forall>c \<in> set junk. c \<noteq> 0x24" and "tokens_ok False ts"
  shows "recv_packet (junk @ 0x24 # tokens_bytes ts @ 0x23 # x # y # rest) =
     Some (tokens_mean [] ts, ucast (sum_list (tokens_bytes ts)) = gdb_decode_hex x y, rest)"
  using recv_loop_tokens [of "[]" ts 0] assms
  unfolding recv_packet_def drop_to_start [OF assms(1)] by simp

definition plain :: "u8 list \<Rightarrow> bool" where
  "plain bs \<longleftrightarrow> (\<forall>c \<in> set bs. \<not> special c)"

lemma plain_tokens: "plain bs \<Longrightarrow> tokens_ok b (map Plain bs) \<and> tokens_bytes (map Plain bs) = bs \<and> tokens_mean xs (map Plain bs) = xs @ bs"
  by (induction bs arbitrary: xs b) (simp_all add: plain_def)

text \<open>A packet as \<^verbatim>\<open>send_packet\<close> writes it.\<close>

definition packet :: "u8 list \<Rightarrow> u8 list" where
  "packet command = 0x24 # command @ 0x23 # fmt_02X (sum_list command)"

lemma recv_packet_plain:
  assumes "plain command"
  shows "recv_packet (packet command @ rest) = Some (command, True, rest)"
proof -
  obtain x y where "fmt_02X (sum_list command) = [x, y]" by (rule fmt_02X_two)
  then show ?thesis
    using recv_packet_tokens [of "[]" "map Plain command" x y rest] plain_tokens [OF assms] decode_fmt_02X
    by (simp add: packet_def)
qed

text \<open>A frame that was damaged on the way: its checksum is wrong.\<close>

definition damaged :: "u8 list \<Rightarrow> bool" where
  "damaged f \<longleftrightarrow> (\<exists>bs x y. f = 0x24 # bs @ [0x23, x, y] \<and> plain bs \<and> ucast (sum_list bs) \<noteq> gdb_decode_hex x y)"

lemma recv_packet_damaged:
  assumes "damaged f"
  shows "\<exists>bs. recv_packet (f @ rest) = Some (bs, False, rest)"
proof -
  obtain bs x y where f: "f = 0x24 # bs @ [0x23, x, y]" "plain bs" "ucast (sum_list bs) \<noteq> gdb_decode_hex x y"
    using assms by (auto simp: damaged_def)
  then show ?thesis
    using recv_packet_tokens [of "[]" "map Plain bs" x y rest] plain_tokens [OF f(2)] by simp
qed

lemma gdb_recv_retry:
  assumes "conn_ack conn" and "list_all damaged fs" and "plain command"
    and "conn_in conn = concat fs @ packet command @ rest"
  shows "gdb_recv conn = Inr (command, conn\<lparr>conn_in := rest, conn_out := conn_out conn @ replicate (length fs) 0x2D @ [0x2B]\<rparr>)"
  using assms
proof (induction fs arbitrary: conn)
  case Nil
  then show ?case by (subst gdb_recv.simps) (simp add: recv_packet_plain put_def)
next
  case (Cons f fs)
  obtain bs where "recv_packet (f @ concat fs @ packet command @ rest) = Some (bs, False, concat fs @ packet command @ rest)"
    using recv_packet_damaged Cons.prems(2) by (auto simp del: append_assoc)
  then show ?case
    using Cons.IH [of "put [0x2D] (conn\<lparr>conn_in := concat fs @ packet command @ rest\<rparr>)"] Cons.prems
    by (subst gdb_recv.simps) (simp add: put_def)
qed

lemma gdb_send_retry:
  assumes "conn_ack conn" and "\<forall>c \<in> set nacks. c \<noteq> 0x2B" and "conn_in conn = nacks @ 0x2B # rest"
  shows "gdb_send command conn =
     Inr ((), conn\<lparr>conn_in := rest, conn_out := conn_out conn @ concat (replicate (Suc (length nacks)) (packet command))\<rparr>)"
  using assms
proof (induction nacks arbitrary: conn)
  case Nil
  then show ?case by (subst gdb_send.simps) (simp add: send_packet_def put_def packet_def)
next
  case (Cons c cs)
  then show ?case
    using Cons.IH [of "(send_packet command conn)\<lparr>conn_in := cs @ 0x2B # rest\<rparr>"]
    by (subst gdb_send.simps) (simp add: send_packet_def put_def packet_def)
qed

section \<open>Properties\<close>

text \<open>
  Packets are understood. Whatever plain bytes, escaped bytes and run lengths a packet is
  written with, and whatever noise without a packet start precedes it, the receiver recovers the
  bytes they stand for, accepts exactly the right checksum, and leaves the rest of the stream
  alone; a packet that \<^verbatim>\<open>send_packet\<close> writes for bytes without a special character arrives
  as it is.
\<close>

theorem gdb_packet_roundtrip:
  assumes "\<forall>c \<in> set junk. c \<noteq> 0x24" and "tokens_ok False ts" and "plain command"
  shows "recv_packet (junk @ 0x24 # tokens_bytes ts @ 0x23 # x # y # rest) =
       Some (tokens_mean [] ts, ucast (sum_list (tokens_bytes ts)) = gdb_decode_hex x y, rest) \<and>
     recv_packet (conn_out (send_packet command (gdb_begin_server peer)) @ rest) = Some (command, True, rest)"
  using recv_packet_tokens [OF assms(1,2)] recv_packet_plain [OF assms(3), of rest]
  by (simp add: send_packet_def put_def gdb_begin_server_def packet_def)

theorem gdb_packet_roundtrip_witness:
  "recv_packet ([0x2B, 0x2B] @ 0x24 # tokens_bytes [Plain 0x30, Repeat 0x20, Escaped 0x7D] @ 0x23 # 0x35 # 0x34 # [0x2B]) =
     Some ([0x30, 0x30, 0x30, 0x30, 0x7D], True, [0x2B])"
proof -
  have three: "replicate 3 x = [x, x, x]" for x :: u8 by (simp add: numeral_3_eq_3)
  have "gdb_decode_hex 0x35 0x34 = 0x54" by (simp add: gdb_decode_hex_def isxdigit_def isdigit_def hex_nibble_def)
  then show ?thesis
    using gdb_packet_roundtrip [of "[0x2B, 0x2B]" "[Plain 0x30, Repeat 0x20, Escaped 0x7D]" "[]" "0x35" "0x34" "[0x2B]" "[]"]
    by (simp add: plain_def special_def three)
qed

end
