(* ===== verification/Gdb_Server.thy ===== *)
theory Gdb_Server
  imports Machine Gdb_Proto
begin

text \<open>
  The commands of the debugger stub, \<^verbatim>\<open>src/utils/gdbstub/gdb-server.c\<close>: registers, memory,
  breakpoints, stepping and continuing, the queries with the register descriptions, and the loop
  that serves them over a connection of \<open>Gdb_Proto\<close>.
\<close>

section \<open>Strings\<close>

definition str :: "string \<Rightarrow> u8 list" where
  "str s = map of_char s"

text \<open>Of a buffer, the C string functions see what comes before the first zero byte.\<close>

definition cstr :: "u8 list \<Rightarrow> u8 list" where
  "cstr bs = takeWhile (\<lambda>c. c \<noteq> 0) bs"

definition isspace :: "u8 \<Rightarrow> bool" where
  "isspace c \<longleftrightarrow> c = 0x20 \<or> 9 \<le> c \<and> c \<le> 13"

text \<open>
  The conversion \<^verbatim>\<open>%x\<close> of \<^verbatim>\<open>sscanf\<close>, with an optional field width: white space, a sign, an
  optional prefix, and at least one digit; the number is converted as by \<^verbatim>\<open>strtoul\<close> on 64 bits
  and stored in 32.
\<close>

definition scan_hex :: "nat option \<Rightarrow> u8 list \<Rightarrow> (u32 \<times> u8 list) option" where
  "scan_hex width cs =
     (let cs = dropWhile isspace cs;
          fld = (case width of None \<Rightarrow> cs | Some n \<Rightarrow> take n cs);
          sgn = (case fld of c # _ \<Rightarrow> if c = 0x2D \<or> c = 0x2B then 1 else 0 | [] \<Rightarrow> 0);
          neg = sgn = 1 \<and> fld ! 0 = 0x2D;
          num = drop sgn fld;
          pre = (if length num \<ge> 2 \<and> num ! 0 = 0x30 \<and> (num ! 1 = 0x78 \<or> num ! 1 = 0x58) then 2 else 0);
          digits = takeWhile isxdigit (drop pre num);
          v = foldl (\<lambda>a d. 16 * a + unat (hex_nibble d)) 0 digits
      in if digits = [] then None
         else Some (if v \<ge> 2 ^ 64 then 0xFFFFFFFF else if neg then - of_nat v else of_nat v,
                    drop (sgn + pre + length digits) cs))"

text \<open>\<^verbatim>\<open>sscanf\<close> with \<open>n\<close> such conversions separated by commas: the values up to the first failure.\<close>

fun scan_x :: "nat \<Rightarrow> u8 list \<Rightarrow> u32 list" where
  "scan_x 0 cs = []"
| "scan_x (Suc n) cs =
     (case scan_hex None cs of
        None \<Rightarrow> []
      | Some (v, rest) \<Rightarrow> v # (case rest of c # r \<Rightarrow> if c = 0x2C then scan_x n r else [] | [] \<Rightarrow> []))"

text \<open>A variable that was set to zero before the call.\<close>

definition scanned :: "nat \<Rightarrow> u32 list \<Rightarrow> u32" where
  "scanned k vs = (if k < length vs then vs ! k else 0)"

definition strchr :: "u8 list \<Rightarrow> u8 \<Rightarrow> u8 list option" where
  "strchr cs c = (case dropWhile (\<lambda>d. d \<noteq> c) cs of [] \<Rightarrow> None | r \<Rightarrow> Some r)"

definition strtok :: "u8 list \<Rightarrow> (u8 list \<times> u8 list) option" where
  "strtok cs =
     (let cs = dropWhile (\<lambda>c. c = 0x3A) cs
      in if cs = [] then None
         else Some (takeWhile (\<lambda>c. c \<noteq> 0x3A) cs, drop 1 (dropWhile (\<lambda>c. c \<noteq> 0x3A) cs)))"

text \<open>The conversion \<^verbatim>\<open>%08x\<close> of \<^verbatim>\<open>htonl\<close> of a word: its bytes, the lowest first.\<close>

definition fmt_le32 :: "u32 \<Rightarrow> u8 list" where
  "fmt_le32 w = concat (map (\<lambda>k. fmt_02x (byte_of w k)) [0, 1, 2, 3])"

definition xml :: "bool \<Rightarrow> string list \<Rightarrow> u8 list" where
  "xml nl ls = str (concat (map (\<lambda>l. l @ [CHR 0x0A]) (butlast ls)) @ last ls @ (if nl then [CHR 0x0A] else []))"

section \<open>Register descriptions\<close>

definition target_xml :: "u8 list" where
  \<open>target_xml = xml False [
     ''l<?xml version="1.0"?><!DOCTYPE target SYSTEM "gdb-target.dtd"><target><architecture>mips</architecture><xi:include href="mips-32bit.xml"/></target>'']\<close>

definition mips_32bit_xml :: "u8 list" where
  \<open>mips_32bit_xml = xml False [
     ''l<?xml version="1.0"?>'',
     ''<!-- Copyright (C) 2010-2017 Free Software Foundation, Inc.'',
     [],
     ''     Copying and distribution of this file, with or without modification,'',
     ''     are permitted in any medium without royalty provided the copyright'',
     ''     notice and this notice are preserved.  -->'',
     [],
     ''<!-- MIPS32 with CP0 -->'',
     [],
     ''<!DOCTYPE target SYSTEM "gdb-target.dtd">'',
     ''<feature name="org.gnu.gdb.mips.32bit">'',
     ''  <xi:include href="mips-32bit-cpu.xml"/>'',
     ''  <xi:include href="mips-32bit-cp0.xml"/>'',
     ''</feature>'']\<close>

definition mips_32bit_cpu_xml :: "u8 list" where
  \<open>mips_32bit_cpu_xml = xml True [
     ''l<?xml version="1.0"?>'',
     ''<!-- Copyright (C) 2010-2015 Free Software Foundation, Inc.'',
     [],
     ''     Copying and distribution of this file, with or without modification,'',
     ''     are permitted in any medium without royalty provided the copyright'',
     ''     notice and this notice are preserved.  -->'',
     [],
     ''<!DOCTYPE feature SYSTEM "gdb-target.dtd">'',
     ''<feature name="org.gnu.gdb.mips.cpu">'',
     ''  <reg name="zero" bitsize="32" type="int32"/>'',
     ''  <reg name="at" bitsize="32" type="int32"/>'',
     ''  <reg name="v0" bitsize="32" type="int32"/>'',
     ''  <reg name="v1" bitsize="32" type="int32"/>'',
     ''  <reg name="a0" bitsize="32" type="int32"/>'',
     ''  <reg name="a1" bitsize="32" type="int32"/>'',
     ''  <reg name="a2" bitsize="32" type="int32"/>'',
     ''  <reg name="a3" bitsize="32" type="int32"/>'',
     ''  <reg name="t0" bitsize="32" type="int32"/>'',
     ''  <reg name="t1" bitsize="32" type="int32"/>'',
     ''  <reg name="t2" bitsize="32" type="int32"/>'',
     ''  <reg name="t3" bitsize="32" type="int32"/>'',
     ''  <reg name="t4" bitsize="32" type="int32"/>'',
     ''  <reg name="t5" bitsize="32" type="int32"/>'',
     ''  <reg name="t6" bitsize="32" type="int32"/>'',
     ''  <reg name="t7" bitsize="32" type="int32"/>'',
     ''  <reg name="s0" bitsize="32" type="int32"/>'',
     ''  <reg name="s1" bitsize="32" type="int32"/>'',
     ''  <reg name="s2" bitsize="32" type="int32"/>'',
     ''  <reg name="s3" bitsize="32" type="int32"/>'',
     ''  <reg name="s4" bitsize="32" type="int32"/>'',
     ''  <reg name="s5" bitsize="32" type="int32"/>'',
     ''  <reg name="s6" bitsize="32" type="int32"/>'',
     ''  <reg name="s7" bitsize="32" type="int32"/>'',
     ''  <reg name="t8" bitsize="32" type="int32"/>'',
     ''  <reg name="t9" bitsize="32" type="int32"/>'',
     ''  <reg name="k0" bitsize="32" type="int32"/>'',
     ''  <reg name="k1" bitsize="32" type="int32"/>'',
     ''  <reg name="gp" bitsize="32" type="data_ptr"/>'',
     ''  <reg name="sp" bitsize="32" type="data_ptr"/>'',
     ''  <reg name="fp" bitsize="32" type="data_ptr"/>'',
     ''  <reg name="ra" bitsize="32" type="int32"/>'',
     ''</feature>'']\<close>

definition mips_32bit_cp0_xml :: "u8 list" where
  \<open>mips_32bit_cp0_xml = xml True [
     ''l<?xml version="1.0"?>'',
     ''<!-- Copyright (C) 2010-2015 Free Software Foundation, Inc.'',
     [],
     ''     Copying and distribution of this file, with or without modification,'',
     ''     are permitted in any medium without royalty provided the copyright'',
     ''     notice and this notice are preserved.  -->'',
     [],
     ''<!DOCTYPE feature SYSTEM "gdb-target.dtd">'',
     ''<feature name="org.gnu.gdb.mips.cp0">'',
     ''  <reg name="sr" bitsize="32" type="int32"/>'',
     ''  <reg name="lo" bitsize="32" type="int32"/>'',
     ''  <reg name="hi" bitsize="32" type="int32"/>'',
     ''  <reg name="bad" bitsize="32" type="int32"/>'',
     ''  <reg name="cause" bitsize="32" type="int32"/>'',
     ''  <reg name="pc" bitsize="32" type="code_ptr"/>'',
     ''  <reg name="epc" bitsize="32" type="code_ptr"/>'',
     ''</feature>'']\<close>

section \<open>State\<close>

abbreviation (input) NR_BREAK_POINTS :: nat where "NR_BREAK_POINTS \<equiv> 32"

record break_point_t =
  bp_used :: bool
  bp_addr :: u32
  bp_value :: u32

text \<open>
  The emulator, the breakpoints, and the string that the last memory read left in its static
  buffer.
\<close>

record gdb_server =
  srv_nemu :: nemu
  srv_break_points :: "break_point_t list"
  srv_mem :: "u8 list"

type_synonym 'a gres = "('a, gdb_server) outcome"

type_synonym gdb_cmd_handler_t = "u8 list \<Rightarrow> gdb_server \<Rightarrow> u8 list option gres"

text \<open>
  A failed \<^verbatim>\<open>CPUAssert\<close> outside \<^verbatim>\<open>cpu_exec\<close> would jump, in GDB mode, to a function that has
  already returned.
\<close>

definition on_emu :: "(nemu \<Rightarrow> 'a res) \<Rightarrow> gdb_server \<Rightarrow> 'a gres" where
  "on_emu f g =
     (case f (srv_nemu g) of
        Inl (e, s) \<Rightarrow>
          Inl (if e = CPUAbort \<and> work_mode (srv_nemu g) = MODE_GDB then UndefinedBehaviour else e, g\<lparr>srv_nemu := s\<rparr>)
      | Inr (x, s) \<Rightarrow> Inr (x, g\<lparr>srv_nemu := s\<rparr>))"

section \<open>Commands\<close>

definition reply :: "u8 list option \<Rightarrow> gdb_cmd_handler_t" where
  "reply r args g = Inr (r, g)"

definition gdb_question :: gdb_cmd_handler_t where
  "gdb_question = reply (Some (str ''T05thread:01;''))"

text \<open>\<open>rest\<close> is what \<^verbatim>\<open>strtok(NULL, ...)\<close> goes on with.\<close>

definition xml_at :: "u8 list \<Rightarrow> u32 \<Rightarrow> gdb_server \<Rightarrow> u8 list option gres" where
  "xml_at doc offset g =
     (if 0 \<le> sint offset \<and> nat (sint offset) \<le> length doc then Inr (Some (drop (nat (sint offset)) doc), g)
      else Inl (UndefinedBehaviour, g))"

definition gdb_xfer_read :: "u8 list \<Rightarrow> gdb_server \<Rightarrow> u8 list option gres" where
  "gdb_xfer_read rest g =
     (case strtok rest of
        None \<Rightarrow> Inl (UndefinedBehaviour, g)
      | Some (f, rest) \<Rightarrow>
          (case strtok rest of
             None \<Rightarrow> Inl (UndefinedBehaviour, g)
           | Some (offset_s, _) \<Rightarrow>
               (let offset = scanned 0 (scan_x 1 offset_s)
                in if f = str ''target.xml'' then xml_at target_xml offset g
                   else if f = str ''mips-32bit.xml'' then xml_at mips_32bit_xml offset g
                   else if f = str ''mips-32bit-cpu.xml'' then xml_at mips_32bit_cpu_xml offset g
                   else if f = str ''mips-32bit-cp0.xml'' then xml_at mips_32bit_cp0_xml offset g
                   else Inr (Some [], g))))"

definition gdb_xfer_handler :: "u8 list \<Rightarrow> gdb_server \<Rightarrow> u8 list option gres" where
  "gdb_xfer_handler rest g =
     (case strtok rest of
        None \<Rightarrow> Inr (None, g)
      | Some (category, rest) \<Rightarrow>
          if category = str ''features''
          then (case strtok rest of
                  None \<Rightarrow> Inr (None, g)
                | Some (op, rest) \<Rightarrow> if op = str ''read'' then gdb_xfer_read rest g else Inr (None, g))
          else Inr (None, g))"

definition gdb_general_query :: gdb_cmd_handler_t where
  "gdb_general_query args g =
     (case strtok (cstr args) of
        None \<Rightarrow> Inl (UndefinedBehaviour, g)
      | Some (kind, rest) \<Rightarrow>
          if kind = str ''Supported'' then Inr (Some (str ''PacketSize=1000;qXfer:features:read+''), g)
          else if kind = str ''MustReplyEmpty'' then Inr (Some [], g)
          else if kind = str ''Xfer'' then gdb_xfer_handler rest g
          else if kind = str ''Attached'' then Inr (Some (str ''1''), g)
          else if kind = str ''fThreadInfo'' then Inr (Some (str ''m1''), g)
          else if kind = str ''sThreadInfo'' then Inr (Some (str ''l''), g)
          else if kind = str ''Symbol'' then Inr (Some (str ''OK''), g)
          else if kind = str ''TStatus'' then Inr (Some [], g)
          else Inr (None, g))"

definition vCont_action :: "float_ops \<Rightarrow> config \<Rightarrow> u8 \<Rightarrow> gdb_server \<Rightarrow> unit gres" where
  "vCont_action fo cfg action g =
     (if action = 0x63
      then bind_r (on_emu (\<lambda>s. dbg_vaddr_read cfg (pc (cpu s)) 4 s) g)
             (\<lambda>instr g. bind_r (on_emu (\<lambda>s. dbg_vaddr_read cfg (pc (cpu s) + 4) 4 s) g)
                (\<lambda>ninstr g.
                   if instr = 0x42000018 \<and> ninstr = 0x0005000d then on_emu (cpu_exec fo cfg 1) g
                   else bind_r (on_emu (cpu_exec fo cfg (- 1)) g)
                          (\<lambda>_ g. on_emu (\<lambda>s. Inr ((), on_cpu (\<lambda>c. c\<lparr>pc := pc c - 4\<rparr>) s)) g)))
      else if action = 0x73 then on_emu (cpu_exec fo cfg 1) g
      else Inr ((), g))"

lemma strchr_length: "strchr cs c = Some r \<Longrightarrow> length r \<le> length cs"
  using length_dropWhile_le [of "\<lambda>d. d \<noteq> c" cs]
  by (cases "dropWhile (\<lambda>d. d \<noteq> c) cs") (auto simp: strchr_def)

lemma strchr_drop: "strchr (drop (Suc 0) args) c = Some r \<Longrightarrow> length r < length args"
  using strchr_length [of "drop (Suc 0) args" c r] by (cases args) (auto simp: strchr_def)

text \<open>\<open>args\<close> is at a semicolon; an empty rest leaves \<^verbatim>\<open>action\<close> as it was.\<close>

function vCont_loop :: "float_ops \<Rightarrow> config \<Rightarrow> u8 \<Rightarrow> u8 list \<Rightarrow> gdb_server \<Rightarrow> unit gres" where
  "vCont_loop fo cfg action args g =
     (let args = drop 1 args;
          action = (case args of c # _ \<Rightarrow> c | [] \<Rightarrow> action)
      in case vCont_action fo cfg action g of
           Inl e \<Rightarrow> Inl e
         | Inr (_, g) \<Rightarrow>
             (case strchr args 0x3B of None \<Rightarrow> Inr ((), g) | Some args \<Rightarrow> vCont_loop fo cfg action args g))"
  by pat_completeness auto

termination
  by (relation "measure (\<lambda>(fo, cfg, action, args, g). length args)") (auto dest: strchr_drop)

declare vCont_loop.simps [simp del]

definition gdb_vCont_handler :: "float_ops \<Rightarrow> config \<Rightarrow> gdb_cmd_handler_t" where
  "gdb_vCont_handler fo cfg args g =
     (if args = str ''?'' then Inr (Some (str ''vCont;c;C;s;S''), g)
      else if args \<noteq> [] \<and> hd args = 0x3B
      then bind_r (vCont_loop fo cfg 0 args g) (\<lambda>_ g. Inr (Some (str ''T05thread:01;''), g))
      else Inr (None, g))"

definition gdb_extend_commands :: "float_ops \<Rightarrow> config \<Rightarrow> gdb_cmd_handler_t" where
  "gdb_extend_commands fo cfg args g =
     (let args = cstr args
      in if args = str ''MustReplyEmpty'' then Inr (Some [], g)
         else if take 4 args = str ''Cont'' then gdb_vCont_handler fo cfg (drop 4 args) g
         else if take 4 args = str ''File'' then Inr (Some [], g)
         else Inr (None, g))"

definition gdb_read_registers :: gdb_cmd_handler_t where
  "gdb_read_registers args g =
     (let c = cpu (srv_nemu g)
      in Inr (Some (concat (map (\<lambda>i. fmt_le32 (gpr c i)) [0 ..< 32]) @ fmt_le32 (cp0 c (12, 0)) @ fmt_le32 (lo c) @
           fmt_le32 (hi c) @ fmt_le32 (cp0 c cp0_badvaddr) @ fmt_le32 (cp0 c (13, 0)) @ fmt_le32 (pc c)), g))"

text \<open>
  The loop of \<^verbatim>\<open>gdb_read_memory\<close>: round \<open>i\<close> writes at offset \<open>2 * i\<close> of a buffer of 4096 bytes; behind its
  end the remaining size given to \<^verbatim>\<open>snprintf\<close> wraps around. Of no bytes at all the buffer keeps
  the string of the last read.
\<close>

fun read_memory_loop :: "config \<Rightarrow> u32 \<Rightarrow> nat \<Rightarrow> nat \<Rightarrow> gdb_server \<Rightarrow> u8 list gres" where
  "read_memory_loop cfg addr i 0 g = Inr ([], g)"
| "read_memory_loop cfg addr i (Suc n) g =
     bind_r (on_emu (dbg_vaddr_read cfg (addr + of_nat i) 1) g)
       (\<lambda>data g. if 2 * i > 4096 then Inl (UndefinedBehaviour, g)
                  else bind_r (read_memory_loop cfg addr (Suc i) n g)
                         (\<lambda>txt g. Inr (fmt_02x (ucast data) @ txt, g)))"

definition gdb_read_memory :: "config \<Rightarrow> gdb_cmd_handler_t" where
  "gdb_read_memory cfg args g =
     (let vs = scan_x 2 (cstr args); sz = unat (scanned 1 vs)
      in bind_r (read_memory_loop cfg (scanned 0 vs) 0 sz g)
           (\<lambda>txt g. let mem = (if sz = 0 then srv_mem g else txt)
                      in if 2 * sz < 4096 then Inr (Some mem, g\<lparr>srv_mem := mem\<rparr>) else Inl (AssertFail, g)))"

text \<open>The rest of the digits, or the null pointer after the last of them.\<close>

fun write_memory_loop :: "config \<Rightarrow> u32 \<Rightarrow> nat \<Rightarrow> u8 list option \<Rightarrow> gdb_server \<Rightarrow> unit gres" where
  "write_memory_loop cfg addr 0 hex g = Inr ((), g)"
| "write_memory_loop cfg addr (Suc n) None g = Inl (UndefinedBehaviour, g)"
| "write_memory_loop cfg addr (Suc n) (Some hex) g =
     bind_r (on_emu (dbg_vaddr_write cfg addr 1 (case scan_hex (Some 2) hex of None \<Rightarrow> 0 | Some (v, _) \<Rightarrow> v)) g)
       (\<lambda>_. write_memory_loop cfg (addr + 1) n (if length hex < 2 then None else Some (drop 2 hex)))"

definition gdb_write_memory :: "config \<Rightarrow> gdb_cmd_handler_t" where
  "gdb_write_memory cfg args g =
     (let vs = scan_x 2 (cstr args); hex = strchr (cstr args) 0x3A
      in bind_r (write_memory_loop cfg (scanned 0 vs) (unat (scanned 1 vs)) (map_option (drop 1) hex) g)
           (\<lambda>_ g. Inr (Some (str ''OK''), g)))"

definition gdb_read_register :: gdb_cmd_handler_t where
  "gdb_read_register args g =
     (let reg_no = sint (scanned 0 (scan_x 1 (cstr args))); c = cpu (srv_nemu g)
      in if reg_no < 0 then Inl (UndefinedBehaviour, g)
         else Inr (Some (fmt_le32
                (if reg_no < 32 then gpr c (nat reg_no)
                 else if reg_no = 0x21 then lo c
                 else if reg_no = 0x22 then hi c
                 else if reg_no = 0x23 then cp0 c cp0_badvaddr
                 else if reg_no = 0x24 then cp0 c (13, 0)
                 else if reg_no = 0x25 then pc c
                 else if reg_no = 0x26 then cp0 c cp0_epc
                 else 0)), g))"

text \<open>The bytes behind the colon, and the zero that terminates the packet; there is nothing behind it.\<close>

fun write_memory_hex_loop :: "config \<Rightarrow> u32 \<Rightarrow> nat \<Rightarrow> u8 list \<Rightarrow> gdb_server \<Rightarrow> unit gres" where
  "write_memory_hex_loop cfg addr 0 bs g = Inr ((), g)"
| "write_memory_hex_loop cfg addr (Suc n) [] g = Inl (UndefinedBehaviour, g)"
| "write_memory_hex_loop cfg addr (Suc n) (b # bs) g =
     bind_r (on_emu (dbg_vaddr_write cfg addr 1 (scast b)) g) (\<lambda>_. write_memory_hex_loop cfg (addr + 1) n bs)"

definition gdb_write_memory_hex :: "config \<Rightarrow> gdb_cmd_handler_t" where
  "gdb_write_memory_hex cfg args g =
     (let vs = scan_x 2 (cstr args)
      in case strchr (cstr args) 0x3A of
           None \<Rightarrow> Inl (UndefinedBehaviour, g)
         | Some _ \<Rightarrow>
             bind_r (write_memory_hex_loop cfg (scanned 0 vs) (unat (scanned 1 vs))
                       (drop 1 (dropWhile (\<lambda>d. d \<noteq> 0x3A) args) @ [0]) g)
               (\<lambda>_ g. Inr (Some (str ''OK''), g)))"

text \<open>The index of the first element that satisfies the test of the loop.\<close>

fun find_index :: "('a \<Rightarrow> bool) \<Rightarrow> 'a list \<Rightarrow> nat option" where
  "find_index P [] = None"
| "find_index P (x # xs) = (if P x then Some 0 else map_option Suc (find_index P xs))"

definition gdb_remove_break_point :: "config \<Rightarrow> gdb_cmd_handler_t" where
  "gdb_remove_break_point cfg args g =
     (let addr = scanned 1 (scan_x 3 (cstr args)); bps = srv_break_points g
      in case find_index (\<lambda>b. bp_used b \<and> bp_addr b = addr) bps of
           None \<Rightarrow> Inr (Some [], g)
         | Some i \<Rightarrow>
             (let g = g\<lparr>srv_break_points := bps[i := (bps ! i)\<lparr>bp_used := False\<rparr>]\<rparr>
              in bind_r (on_emu (dbg_vaddr_write cfg addr 4 (bp_value (bps ! i))) g)
                   (\<lambda>_ g. Inr (Some (str ''OK''), g))))"

definition gdb_insert_break_point :: "config \<Rightarrow> gdb_cmd_handler_t" where
  "gdb_insert_break_point cfg args g =
     (let addr = scanned 1 (scan_x 3 (cstr args))
      in case find_index (\<lambda>b. \<not> bp_used b) (srv_break_points g) of
           None \<Rightarrow> Inr (Some [], g)
         | Some i \<Rightarrow>
             bind_r (on_emu (dbg_vaddr_read cfg addr 4) g)
               (\<lambda>v g. bind_r (on_emu (dbg_vaddr_write cfg addr 4 0x0005000d) g)
                  (\<lambda>_ g. Inr (Some (str ''OK''),
                     g\<lparr>srv_break_points := (srv_break_points g)[i := \<lparr>bp_used = True, bp_addr = addr, bp_value = v\<rparr>]\<rparr>))))"

section \<open>The server\<close>

text \<open>The table of the commands by their first character.\<close>

definition handlers :: "float_ops \<Rightarrow> config \<Rightarrow> u8 \<Rightarrow> gdb_cmd_handler_t option" where
  "handlers fo cfg c =
     (if c = 0x3F then Some gdb_question
      else if c = 0x67 then Some gdb_read_registers
      else if c \<in> {0x48, 0x44} then Some (reply (Some (str ''OK'')))
      else if c = 0x6D then Some (gdb_read_memory cfg)
      else if c = 0x4D then Some (gdb_write_memory cfg)
      else if c = 0x70 then Some gdb_read_register
      else if c = 0x71 then Some gdb_general_query
      else if c \<in> {0x63, 0x47, 0x69, 0x50, 0x72, 0x52, 0x73} then Some (reply None)
      else if c = 0x76 then Some (gdb_extend_commands fo cfg)
      else if c = 0x58 then Some (gdb_write_memory_hex cfg)
      else if c = 0x7A then Some (gdb_remove_break_point cfg)
      else if c = 0x5A then Some (gdb_insert_break_point cfg)
      else None)"

record gdb_session =
  ses_conn :: gdb_conn
  ses_srv :: gdb_server

type_synonym 'a sres = "('a, gdb_session) outcome"

definition on_conn :: "(gdb_conn \<Rightarrow> 'a cres) \<Rightarrow> gdb_session \<Rightarrow> 'a sres" where
  "on_conn f z =
     (case f (ses_conn z) of
        Inl (e, c) \<Rightarrow> Inl (e, z\<lparr>ses_conn := c\<rparr>)
      | Inr (x, c) \<Rightarrow> Inr (x, z\<lparr>ses_conn := c\<rparr>))"

definition on_srv :: "(gdb_server \<Rightarrow> 'a gres) \<Rightarrow> gdb_session \<Rightarrow> 'a sres" where
  "on_srv f z =
     (case f (ses_srv z) of
        Inl (e, g) \<Rightarrow> Inl (e, z\<lparr>ses_srv := g\<rparr>)
      | Inr (x, g) \<Rightarrow> Inr (x, z\<lparr>ses_srv := g\<rparr>))"

lemma on_Inr:
  "on_conn f z = Inr (x, z') \<longleftrightarrow> (\<exists>c. f (ses_conn z) = Inr (x, c) \<and> z' = z\<lparr>ses_conn := c\<rparr>)"
  "on_srv h z = Inr (y, z') \<longleftrightarrow> (\<exists>g. h (ses_srv z) = Inr (y, g) \<and> z' = z\<lparr>ses_srv := g\<rparr>)"
  by (auto simp: on_conn_def on_srv_def split: sum.splits prod.splits)

text \<open>One request and its response; the index into the table is a signed character.\<close>

definition gdb_handle :: "float_ops \<Rightarrow> config \<Rightarrow> u8 list \<Rightarrow> gdb_server \<Rightarrow> u8 list gres" where
  "gdb_handle fo cfg data g =
     (let c = (case data of [] \<Rightarrow> 0 | c # _ \<Rightarrow> c)
      in if c \<ge> 0x80 then Inl (UndefinedBehaviour, g)
         else case handlers fo cfg c of
                None \<Rightarrow> Inr ([], g)
              | Some handler \<Rightarrow>
                  bind_r (handler (drop 1 data) g)
                    (\<lambda>resp g. Inr (case resp of None \<Rightarrow> [] | Some r \<Rightarrow> r, g)))"

definition gdb_serve :: "float_ops \<Rightarrow> config \<Rightarrow> gdb_session \<Rightarrow> unit sres" where
  "gdb_serve fo cfg z =
     bind_r (on_conn gdb_recv z)
       (\<lambda>data z. bind_r (on_srv (gdb_handle fo cfg data) z) (\<lambda>resp. on_conn (gdb_send resp)))"

text \<open>Every request takes bytes from the stream, so the loop ends, with the end of the process.\<close>

lemma gdb_recv_shorter: "gdb_recv conn = Inr (d, conn') \<Longrightarrow> length (conn_in conn') < length (conn_in conn)"
proof (induction conn rule: gdb_recv.induct)
  case (1 conn)
  obtain r ok rest where p: "recv_packet (conn_in conn) = Some (r, ok, rest)"
    using "1.prems" by (cases "recv_packet (conn_in conn)") (auto simp: gdb_recv.simps)
  then have "length rest < length (conn_in conn)" by (rule recv_packet_rest)
  then show ?case
    using "1.prems" "1.IH" [OF p refl refl refl] p
    by (subst (asm) gdb_recv.simps) (force simp: put_def Let_def split: if_splits)
qed

lemma gdb_send_shorter: "gdb_send command conn = Inr (x, conn') \<Longrightarrow> length (conn_in conn') \<le> length (conn_in conn)"
proof (induction "conn_in conn" arbitrary: conn)
  case Nil
  then show ?case
    by (subst (asm) gdb_send.simps) (auto simp: Let_def send_packet_def put_def split: if_splits)
next
  case (Cons c cs)
  let ?next = "(send_packet command conn)\<lparr>conn_in := cs\<rparr>"
  have "gdb_send command conn =
      (if \<not> conn_ack conn then Inr ((), send_packet command conn)
       else if c = 0x2B then Inr ((), ?next) else gdb_send command ?next)"
    by (subst gdb_send.simps) (simp add: Cons.hyps(2) [symmetric] send_packet_def put_def)
  then show ?case
    using Cons.hyps(1) [of ?next] Cons.prems Cons.hyps(2) [symmetric]
    by (auto simp: send_packet_def put_def split: if_splits)
qed

lemma gdb_serve_shorter:
  assumes "gdb_serve fo cfg z = Inr (x, z')"
  shows "length (conn_in (ses_conn z')) < length (conn_in (ses_conn z))"
  using assms
  by (fastforce simp: gdb_serve_def bind_r_eq_Inr on_Inr dest!: gdb_recv_shorter gdb_send_shorter)

function gdb_loop :: "float_ops \<Rightarrow> config \<Rightarrow> gdb_session \<Rightarrow> fault \<times> gdb_session" where
  "gdb_loop fo cfg z = (case gdb_serve fo cfg z of Inl e \<Rightarrow> e | Inr (_, z) \<Rightarrow> gdb_loop fo cfg z)"
  by pat_completeness auto

termination
  by (relation "measure (\<lambda>(fo, cfg, z). length (conn_in (ses_conn z)))") (auto dest: gdb_serve_shorter)

declare gdb_loop.simps [simp del]

definition gdb_server_mainloop :: "float_ops \<Rightarrow> config \<Rightarrow> u8 list \<Rightarrow> gdb_server \<Rightarrow> fault \<times> gdb_session" where
  "gdb_server_mainloop fo cfg peer g = gdb_loop fo cfg \<lparr>ses_conn = gdb_begin_server peer, ses_srv = g\<rparr>"

end
