(* ===== verification/Gdb_Correct.thy ===== *)
theory Gdb_Correct
  imports Gdb_Server
begin

text \<open>
  What the debugger can rely on: a session on a stream of bytes answers each request with the
  response of its command, memory that was written reads back, a breakpoint that is removed leaves
  the memory as it was, and a program that is continued stops at a breakpoint.
\<close>

section \<open>Sessions\<close>

text \<open>The abstract server: requests in, responses out.\<close>

fun gdb_run :: "float_ops \<Rightarrow> config \<Rightarrow> u8 list list \<Rightarrow> gdb_server \<Rightarrow> u8 list list gres" where
  "gdb_run fo cfg [] g = Inr ([], g)"
| "gdb_run fo cfg (c # cs) g =
     bind_r (gdb_handle fo cfg c g) (\<lambda>r g. bind_r (gdb_run fo cfg cs g) (\<lambda>rs g. Inr (r # rs, g)))"

text \<open>
  One exchange on the wire: damaged copies of a request, the request, and the refusals of the
  response before it is acknowledged.
\<close>

record exchange =
  ex_damaged :: "u8 list list"
  ex_request :: "u8 list"
  ex_refusals :: nat

definition exchange_ok :: "exchange \<Rightarrow> bool" where
  "exchange_ok x \<longleftrightarrow> list_all damaged (ex_damaged x) \<and> plain (ex_request x)"

definition exchange_in :: "exchange \<Rightarrow> u8 list" where
  "exchange_in x = concat (ex_damaged x) @ packet (ex_request x) @ replicate (ex_refusals x) 0x2D @ [0x2B]"

definition exchange_out :: "exchange \<Rightarrow> u8 list \<Rightarrow> u8 list" where
  "exchange_out x response =
     replicate (length (ex_damaged x)) 0x2D @ 0x2B # concat (replicate (Suc (ex_refusals x)) (packet response))"

lemma gdb_serve_exchange:
  assumes "exchange_ok x" and "gdb_handle fo cfg (ex_request x) g = Inr (r, g')"
  shows "gdb_serve fo cfg \<lparr>ses_conn = \<lparr>conn_in = exchange_in x @ rest, conn_out = out, conn_ack = True\<rparr>, ses_srv = g\<rparr> =
     Inr ((), \<lparr>ses_conn = \<lparr>conn_in = rest, conn_out = out @ exchange_out x r, conn_ack = True\<rparr>, ses_srv = g'\<rparr>)"
proof -
  let ?rest = "replicate (ex_refusals x) 0x2D @ 0x2B # rest"
  have "gdb_recv \<lparr>conn_in = exchange_in x @ rest, conn_out = out, conn_ack = True\<rparr> =
      Inr (ex_request x, \<lparr>conn_in = ?rest, conn_out = out @ replicate (length (ex_damaged x)) 0x2D @ [0x2B], conn_ack = True\<rparr>)"
    using assms(1) by (subst gdb_recv_retry [where rest = ?rest]) (simp_all add: exchange_ok_def exchange_in_def)
  moreover have "gdb_send r \<lparr>conn_in = ?rest, conn_out = out', conn_ack = True\<rparr> =
      Inr ((), \<lparr>conn_in = rest, conn_out = out' @ concat (replicate (Suc (ex_refusals x)) (packet r)), conn_ack = True\<rparr>)" for out'
    by (subst gdb_send_retry [where nacks = "replicate (ex_refusals x) 0x2D" and rest = rest]) simp_all
  ultimately show ?thesis
    using assms(2) by (simp add: gdb_serve_def on_conn_def on_srv_def exchange_out_def)
qed

lemma gdb_loop_run:
  assumes "list_all exchange_ok xs" and "gdb_run fo cfg (map ex_request xs) g = Inr (rs, g')"
  shows "gdb_loop fo cfg \<lparr>ses_conn = \<lparr>conn_in = concat (map exchange_in xs), conn_out = out, conn_ack = True\<rparr>, ses_srv = g\<rparr> =
     (NemuExit, \<lparr>ses_conn = \<lparr>conn_in = [], conn_out = out @ concat (map2 exchange_out xs rs), conn_ack = True\<rparr>, ses_srv = g'\<rparr>)"
  using assms
proof (induction xs arbitrary: g rs out)
  case Nil
  then show ?case
    by (subst gdb_loop.simps)
       (simp add: gdb_serve_def on_conn_def gdb_recv.simps [of "\<lparr>conn_in = [], conn_out = out, conn_ack = True\<rparr>"] recv_packet_def)
next
  case (Cons x xs)
  then obtain r g1 rs' where *: "gdb_handle fo cfg (ex_request x) g = Inr (r, g1)"
      "gdb_run fo cfg (map ex_request xs) g1 = Inr (rs', g')" "rs = r # rs'"
    by (auto simp: bind_r_eq_Inr)
  then show ?case
    using Cons.IH [of g1 rs' "out @ exchange_out x r"] Cons.prems(1) gdb_serve_exchange [of x fo cfg g r g1]
    by (subst gdb_loop.simps) simp
qed

section \<open>Numbers in requests\<close>

definition hex_val :: "u8 list \<Rightarrow> nat" where
  "hex_val ds = foldl (\<lambda>a d. 16 * a + unat (hex_nibble d)) 0 ds"

text \<open>The digits of a 32-bit number.\<close>

definition numeral32 :: "u8 list \<Rightarrow> u32 \<Rightarrow> bool" where
  "numeral32 ds v \<longleftrightarrow> ds \<noteq> [] \<and> list_all isxdigit ds \<and> hex_val ds = unat v"

lemma isxdigit_facts:
  assumes "isxdigit c"
  shows "\<not> isspace c" "c \<noteq> 0x2D" "c \<noteq> 0x2B" "c \<noteq> 0x78" "c \<noteq> 0x58" "c \<noteq> 0" "c \<noteq> 0x2C" "c \<noteq> 0x3A"
  using assms by (auto simp: isxdigit_def isdigit_def isspace_def word_le_nat_alt word_less_nat_alt)

text \<open>What may follow the digits.\<close>

definition stops :: "u8 list \<Rightarrow> bool" where
  "stops rest \<longleftrightarrow> (case rest of [] \<Rightarrow> True | c # _ \<Rightarrow> c = 0x2C \<or> c = 0x3A)"

lemma stops_not_digit: "stops rest \<Longrightarrow> takeWhile isxdigit rest = []"
  by (auto simp: stops_def isxdigit_def isdigit_def split: list.splits)

lemma takeWhile_all_append: "list_all P xs \<Longrightarrow> takeWhile P ys = [] \<Longrightarrow> takeWhile P (xs @ ys) = xs"
  by (induction xs) simp_all

lemma scan_hex_numeral:
  assumes "numeral32 ds v" and "stops rest"
  shows "scan_hex None (ds @ rest) = Some (v, rest)"
proof -
  obtain d ds' where ds: "ds = d # ds'" and d: "isxdigit d" and ds': "list_all isxdigit ds'"
    using assms(1) by (cases ds) (auto simp: numeral32_def)
  have space: "dropWhile isspace (ds @ rest) = ds @ rest" using isxdigit_facts(1) [OF d] ds by simp
  have no_prefix: "\<not> (length (ds @ rest) \<ge> 2 \<and> (ds @ rest) ! 0 = 0x30 \<and> ((ds @ rest) ! 1 = 0x78 \<or> (ds @ rest) ! 1 = 0x58))"
  proof (cases ds')
    case Nil
    then show ?thesis using ds assms(2) by (auto simp: stops_def split: list.splits)
  next
    case (Cons e es)
    then show ?thesis using ds ds' isxdigit_facts(4,5) [of e] by auto
  qed
  have digits: "takeWhile isxdigit (ds @ rest) = ds"
    using assms stops_not_digit by (simp add: takeWhile_all_append numeral32_def)
  have val: "foldl (\<lambda>a d. 16 * a + unat (hex_nibble d)) 0 ds = unat v"
    using assms(1) by (simp add: numeral32_def hex_val_def)
  have sgn: "(case ds @ rest of c # _ \<Rightarrow> if c = 0x2D \<or> c = 0x2B then 1 else 0 | [] \<Rightarrow> 0) = (0 :: nat)"
    using isxdigit_facts(2,3) [OF d] ds by simp
  have "unat v < 2 ^ LENGTH(32)" by (rule unsigned_less)
  then have "\<not> unat v \<ge> 2 ^ 64" by simp
  then show ?thesis
    using assms(1)
    unfolding scan_hex_def Let_def space option.case sgn drop_0 if_not_P [OF no_prefix] digits val
    by (simp add: numeral32_def)
qed

lemma scan_x_numerals:
  assumes "numeral32 ds v" and "stops rest"
  shows "scan_x (Suc n) (ds @ rest) = v # (case rest of c # r \<Rightarrow> if c = 0x2C then scan_x n r else [] | [] \<Rightarrow> [])"
  by (simp add: scan_hex_numeral [OF assms])

lemma cstr_append_nonzero: "list_all (\<lambda>c. c \<noteq> 0) xs \<Longrightarrow> cstr (xs @ ys) = xs @ cstr ys"
  by (induction xs) (simp_all add: cstr_def)

lemma numeral32_nonzero: "numeral32 ds v \<Longrightarrow> list_all (\<lambda>c. c \<noteq> 0) ds"
  by (auto simp: numeral32_def list_all_iff dest: isxdigit_facts(6))

section \<open>Memory\<close>

context ram_device
begin

lemma dbg_read_in_ram:
  assumes "in_ram cfg a len s" and "1 \<le> len" and "len \<le> 4"
  shows "dbg_vaddr_read cfg a len s = Inr (mem_read (ram_bytes r s) (offset cfg a) len, s)"
  using assms by (simp add: dbg_vaddr_read_def in_ram_def prot_addr_unmapped d_read rd_in)

lemma dbg_write_in_ram:
  assumes "in_ram cfg a len s" and "1 \<le> len" and "len \<le> 4"
  shows "dbg_vaddr_write cfg a len v s = Inr ((), ram_put r (mem_write (ram_bytes r s) (offset cfg a) len v) s)"
  using assms by (simp add: dbg_vaddr_write_def in_ram_def prot_addr_unmapped d_write wr_in)

end

lemma dbg_ddr:
  assumes "board s" and "is_unmapped a" and "1 \<le> len" and "len \<le> 4" and "unat (ioremap a) + len \<le> 0x10000000"
  shows "dbg_vaddr_read mips32r1_defconfig a len s = Inr (mem_read (ddr s) (unat (ioremap a)) len, s)"
    and "dbg_vaddr_write mips32r1_defconfig a len v s = Inr ((), s\<lparr>ddr := mem_write (ddr s) (unat (ioremap a)) len v\<rparr>)"
  using ddr_ram.dbg_read_in_ram [OF in_ddr] ddr_ram.dbg_write_in_ram [OF in_ddr] assms by simp_all

lemma board_ddr [simp]: "board (s\<lparr>ddr := m\<rparr>) = board s"
  by (simp add: board_def find_device_def)

lemma byte_of_mem_read: "i < 4 \<Longrightarrow> byte_of (mem_read m a 4) i = m (a + i)"
  by (rule bit_eqI) (auto simp: byte_of_def bit_simps bit_mem_read)

section \<open>Breakpoints\<close>

text \<open>
  The abstract state is the program's memory and the set of addresses with a breakpoint; what the
  processor sees is the memory with the breakpoint instruction laid over those words.
\<close>

definition overlay :: "(nat \<Rightarrow> u8) \<Rightarrow> u32 set \<Rightarrow> nat \<Rightarrow> u8" where
  "overlay m A x = (if \<exists>a \<in> A. unat (ioremap a) div 4 = x div 4 then byte_of 0x0005000d (x mod 4) else m x)"

definition bp_place :: "u32 \<Rightarrow> bool" where
  "bp_place a \<longleftrightarrow> ddr_word a \<and> a AND 3 = 0"

definition bp_set :: "break_point_t list \<Rightarrow> u32 set" where
  "bp_set bps = {bp_addr (bps ! i) | i. i < length bps \<and> bp_used (bps ! i)}"

definition bp_wf :: "(nat \<Rightarrow> u8) \<Rightarrow> gdb_server \<Rightarrow> bool" where
  "bp_wf m g \<longleftrightarrow> (let bps = srv_break_points g in
     board (srv_nemu g) \<and> length bps = NR_BREAK_POINTS \<and>
     (\<forall>i < length bps. bp_used (bps ! i) \<longrightarrow> bp_place (bp_addr (bps ! i)) \<and>
        bp_value (bps ! i) = mem_read m (unat (ioremap (bp_addr (bps ! i)))) 4) \<and>
     (\<forall>i < length bps. \<forall>j < length bps. bp_used (bps ! i) \<and> bp_used (bps ! j) \<and>
        ioremap (bp_addr (bps ! i)) = ioremap (bp_addr (bps ! j)) \<longrightarrow> i = j) \<and>
     ddr (srv_nemu g) = overlay m (bp_set bps))"

datatype bp_op = Insert u32 | Remove u32

fun bp_op_ok :: "bp_op \<Rightarrow> u32 set \<Rightarrow> bool" where
  "bp_op_ok (Insert a) A = (bp_place a \<and> ioremap a \<notin> ioremap ` A \<and> card A < NR_BREAK_POINTS)"
| "bp_op_ok (Remove a) A = (a \<in> A)"

fun bp_op_do :: "bp_op \<Rightarrow> u32 set \<Rightarrow> u32 set" where
  "bp_op_do (Insert a) A = insert a A"
| "bp_op_do (Remove a) A = A - {a}"

fun bp_ops_ok :: "bp_op list \<Rightarrow> u32 set \<Rightarrow> bool" where
  "bp_ops_ok [] A = True"
| "bp_ops_ok (p # ps) A = (bp_op_ok p A \<and> bp_ops_ok ps (bp_op_do p A))"

text \<open>The requests, with the address in any number of digits.\<close>

fun bp_request :: "bp_op \<Rightarrow> u8 list \<Rightarrow> u8 list" where
  "bp_request (Insert a) ds = str ''Z0,'' @ ds @ str '',4''"
| "bp_request (Remove a) ds = str ''z0,'' @ ds @ str '',4''"

fun bp_op_addr :: "bp_op \<Rightarrow> u32" where
  "bp_op_addr (Insert a) = a"
| "bp_op_addr (Remove a) = a"

lemma find_index_Some: "find_index P xs = Some i \<Longrightarrow> i < length xs \<and> P (xs ! i)"
  by (induction xs arbitrary: i) (auto split: if_splits)

lemma find_index_None: "find_index P xs = None \<longleftrightarrow> (\<forall>i < length xs. \<not> P (xs ! i))"
proof (induction xs)
  case (Cons x xs)
  then show ?case by (auto simp: nth_Cons less_Suc_eq_0_disj)
qed simp

lemma find_index_unique:
  assumes "i < length xs" and "P (xs ! i)" and "\<And>j. j < length xs \<Longrightarrow> P (xs ! j) \<Longrightarrow> j = i"
  shows "find_index P xs = Some i"
proof (cases "find_index P xs")
  case None
  then show ?thesis using find_index_None [of P xs] assms(1,2) by blast
next
  case (Some k)
  then show ?thesis using find_index_Some [OF Some] assms(3) [of k] by simp
qed

lemma bp_place_word:
  assumes "bp_place a"
  shows "unat (ioremap a) = 4 * (unat (ioremap a) div 4)"
proof -
  have "ioremap a AND 3 = 0" using assms ioremap_aligned [of a "ioremap a"] by (simp add: bp_place_def)
  then have "unat (ioremap a) mod 4 = 0" using unat_and_3 [of "ioremap a"] by simp
  then show ?thesis using mult_div_mod_eq [of 4 "unat (ioremap a)"] by simp
qed

lemma overlay_insert:
  assumes "bp_place a"
  shows "mem_write (overlay m A) (unat (ioremap a)) 4 0x0005000d = overlay m (insert a A)"
proof
  fix x
  obtain w where w: "unat (ioremap a) = 4 * w" using bp_place_word [OF assms] by blast
  have "4 * w \<le> x \<and> x < 4 * w + 4 \<longleftrightarrow> x div 4 = w" by presburger
  then show "mem_write (overlay m A) (unat (ioremap a)) 4 0x0005000d x = overlay m (insert a A) x"
    by (auto simp: mem_write_def overlay_def w minus_mult_div_eq_mod [symmetric])
qed

lemma word_elsewhere:
  assumes "bp_place a" and "bp_place b" and "ioremap a \<noteq> ioremap b"
  shows "unat (ioremap a) div 4 \<noteq> unat (ioremap b) div 4"
  using assms bp_place_word [of a] bp_place_word [of b] by (metis word_unat_eqI)

lemma overlay_remove:
  assumes "bp_place a" and "\<And>b. b \<in> A - {a} \<Longrightarrow> bp_place b \<and> ioremap b \<noteq> ioremap a" and "a \<in> A"
  shows "mem_write (overlay m A) (unat (ioremap a)) 4 (mem_read m (unat (ioremap a)) 4) = overlay m (A - {a})"
proof
  fix x
  obtain w where w: "unat (ioremap a) = 4 * w" using bp_place_word [OF assms(1)] by blast
  have x: "4 * w \<le> x \<and> x < 4 * w + 4 \<longleftrightarrow> x div 4 = w" by presburger
  have "unat (ioremap b) div 4 \<noteq> w" if "b \<in> A - {a}" for b
    using word_elsewhere [OF assms(1), of b] assms(2) [OF that] w by fastforce
  then show "mem_write (overlay m A) (unat (ioremap a)) 4 (mem_read m (unat (ioremap a)) 4) x = overlay m (A - {a}) x"
    using x byte_of_mem_read [of "x - 4 * w" m "4 * w"] assms(3)
    by (auto simp: mem_write_def overlay_def w)
qed

lemma overlay_read:
  assumes "bp_place a" and "\<And>b. b \<in> A \<Longrightarrow> bp_place b \<and> ioremap b \<noteq> ioremap a"
  shows "mem_read (overlay m A) (unat (ioremap a)) 4 = mem_read m (unat (ioremap a)) 4"
proof (rule mem_read_cong)
  fix k :: nat
  assume "k < 4"
  obtain w where w: "unat (ioremap a) = 4 * w" using bp_place_word [OF assms(1)] by blast
  then have "(unat (ioremap a) + k) div 4 = w" using \<open>k < 4\<close> by simp
  moreover have "unat (ioremap b) div 4 \<noteq> w" if "b \<in> A" for b
    using word_elsewhere [OF assms(1), of b] assms(2) [OF that] w by fastforce
  ultimately show "overlay m A (unat (ioremap a) + k) = m (unat (ioremap a) + k)"
    by (auto simp: overlay_def)
qed simp_all

text \<open>The number in a request.\<close>

lemma bp_number:
  assumes "numeral32 ds a"
  shows "scanned (Suc 0) (scan_x 3 (cstr (str ''0,'' @ ds @ str '',4''))) = a"
proof -
  have zero: "numeral32 [0x30] 0" by (simp add: numeral32_def isxdigit_def isdigit_def hex_val_def hex_nibble_def)
  have strs: "str ''0,'' = [0x30, 0x2C]" "str '',4'' = [0x2C, 0x34]" by (simp_all add: str_def)
  have "cstr (str ''0,'' @ ds @ str '',4'') = [0x30] @ 0x2C # ds @ [0x2C, 0x34]"
    using cstr_append_nonzero [of "[0x30, 0x2C]" "ds @ [0x2C, 0x34]"]
      cstr_append_nonzero [OF numeral32_nonzero [OF assms], of "[0x2C, 0x34]"]
    by (simp add: strs cstr_def)
  moreover have "scan_x 3 ([0x30] @ 0x2C # ds @ [0x2C, 0x34]) = 0 # a # scan_x 1 [0x34]"
    using scan_x_numerals [OF zero, of "0x2C # ds @ [0x2C, 0x34]" 2] scan_x_numerals [OF assms, of "[0x2C, 0x34]" 1]
    by (simp add: stops_def numeral_3_eq_3 numeral_2_eq_2 del: scan_x.simps)
  ultimately show ?thesis by (simp add: scanned_def del: scan_x.simps)
qed

lemma handle_Z:
  "gdb_handle fo cfg (str ''Z0,'' @ ds) g =
     bind_r (gdb_insert_break_point cfg (str ''0,'' @ ds) g) (\<lambda>resp g. Inr (case resp of None \<Rightarrow> [] | Some r \<Rightarrow> r, g))"
  "gdb_handle fo cfg (str ''z0,'' @ ds) g =
     bind_r (gdb_remove_break_point cfg (str ''0,'' @ ds) g) (\<lambda>resp g. Inr (case resp of None \<Rightarrow> [] | Some r \<Rightarrow> r, g))"
  by (simp_all add: gdb_handle_def str_def handlers_def)

lemma insert_free_slot:
  assumes "length bps = NR_BREAK_POINTS" and "card (bp_set bps) < NR_BREAK_POINTS"
    and "\<And>i j. i < length bps \<Longrightarrow> j < length bps \<Longrightarrow> bp_used (bps ! i) \<Longrightarrow> bp_used (bps ! j) \<Longrightarrow>
           ioremap (bp_addr (bps ! i)) = ioremap (bp_addr (bps ! j)) \<Longrightarrow> i = j"
  obtains i where "find_index (\<lambda>b. \<not> bp_used b) bps = Some i" and "i < length bps" and "\<not> bp_used (bps ! i)"
proof (cases "find_index (\<lambda>b. \<not> bp_used b) bps")
  case None
  then have used: "bp_used (bps ! i)" if "i < length bps" for i
    using that find_index_None [of "\<lambda>b. \<not> bp_used b" bps] by simp
  have "bp_set bps = (\<lambda>i. bp_addr (bps ! i)) ` {..< length bps}" using used by (auto simp: bp_set_def)
  moreover have "inj_on (\<lambda>i. bp_addr (bps ! i)) {..< length bps}"
  proof (rule inj_onI)
    fix i j
    assume "i \<in> {..< length bps}" "j \<in> {..< length bps}" "bp_addr (bps ! i) = bp_addr (bps ! j)"
    then show "i = j" using assms(3) [of i j] used by simp
  qed
  ultimately have "card (bp_set bps) = length bps" by (simp add: card_image)
  then show ?thesis using assms(1,2) by simp
next
  case (Some i)
  then show ?thesis using that find_index_Some by fastforce
qed

lemma bp_set_mem: "c \<in> bp_set bps \<longleftrightarrow> (\<exists>i < length bps. bp_used (bps ! i) \<and> bp_addr (bps ! i) = c)"
  by (auto simp: bp_set_def)

text \<open>Filling a free slot, and clearing a used one.\<close>

lemma bp_set_fill:
  assumes "i < length bps" and "\<not> bp_used (bps ! i)"
  shows "bp_set (bps[i := \<lparr>bp_used = True, bp_addr = a, bp_value = v\<rparr>]) = insert a (bp_set bps)"
proof (rule set_eqI)
  fix c
  let ?b = "bps[i := \<lparr>bp_used = True, bp_addr = a, bp_value = v\<rparr>]"
  have i: "bp_used (?b ! i)" "bp_addr (?b ! i) = a" using assms(1) by simp_all
  have j: "?b ! j = bps ! j" if "j \<noteq> i" for j using that by simp
  show "c \<in> bp_set ?b \<longleftrightarrow> c \<in> insert a (bp_set bps)"
    unfolding insert_iff bp_set_mem length_list_update using i j assms by metis
qed

lemma bp_set_clear:
  assumes "i < length bps" and "bp_used (bps ! i)"
    and "\<And>j. j < length bps \<Longrightarrow> bp_used (bps ! j) \<Longrightarrow> bp_addr (bps ! j) = bp_addr (bps ! i) \<Longrightarrow> j = i"
  shows "bp_set (bps[i := (bps ! i)\<lparr>bp_used := False\<rparr>]) = bp_set bps - {bp_addr (bps ! i)}"
proof (rule set_eqI)
  fix c
  let ?b = "bps[i := (bps ! i)\<lparr>bp_used := False\<rparr>]"
  have i: "\<not> bp_used (?b ! i)" using assms(1) by simp
  have j: "?b ! j = bps ! j" if "j \<noteq> i" for j using that by simp
  show "c \<in> bp_set ?b \<longleftrightarrow> c \<in> bp_set bps - {bp_addr (bps ! i)}"
    unfolding Diff_iff singleton_iff bp_set_mem length_list_update using i j assms by metis
qed

lemmas bp_wf_facts = bp_wf_def [unfolded Let_def]

lemma bp_wfD:
  assumes "bp_wf m g"
  shows "board (srv_nemu g)" and "length (srv_break_points g) = NR_BREAK_POINTS"
    and "ddr (srv_nemu g) = overlay m (bp_set (srv_break_points g))"
    and "i < length (srv_break_points g) \<Longrightarrow> bp_used (srv_break_points g ! i) \<Longrightarrow>
       bp_place (bp_addr (srv_break_points g ! i)) \<and>
       bp_value (srv_break_points g ! i) = mem_read m (unat (ioremap (bp_addr (srv_break_points g ! i)))) 4"
    and "i < length (srv_break_points g) \<Longrightarrow> j < length (srv_break_points g) \<Longrightarrow>
       bp_used (srv_break_points g ! i) \<Longrightarrow> bp_used (srv_break_points g ! j) \<Longrightarrow>
       ioremap (bp_addr (srv_break_points g ! i)) = ioremap (bp_addr (srv_break_points g ! j)) \<Longrightarrow> i = j"
  using assms unfolding bp_wf_facts by blast+

lemma bp_insert:
  assumes "bp_wf m g" and "numeral32 ds a" and "bp_op_ok (Insert a) (bp_set (srv_break_points g))"
  shows "\<exists>g'. gdb_handle fo mips32r1_defconfig (bp_request (Insert a) ds) g = Inr (str ''OK'', g') \<and>
     bp_wf m g' \<and> bp_set (srv_break_points g') = insert a (bp_set (srv_break_points g))"
proof -
  define bps where "bps = srv_break_points g"
  have ok: "bp_place a" "ioremap a \<notin> ioremap ` bp_set bps" "card (bp_set bps) < NR_BREAK_POINTS"
    using assms(3) by (simp_all add: bps_def)
  note wf = bp_wfD(1-3) [OF assms(1), folded bps_def]
  note val = bp_wfD(4) [OF assms(1), folded bps_def]
  note inj = bp_wfD(5) [OF assms(1), folded bps_def]
  obtain i where i: "find_index (\<lambda>b. \<not> bp_used b) bps = Some i" "i < length bps" "\<not> bp_used (bps ! i)"
    using insert_free_slot [OF wf(2) ok(3) inj] by blast
  have a: "is_unmapped a" "unat (ioremap a) + 4 \<le> 0x10000000" using ok(1) by (simp_all add: bp_place_def ddr_word_def)
  have elsewhere: "bp_place b \<and> ioremap b \<noteq> ioremap a" if "b \<in> bp_set bps" for b
    using that val ok(2) unfolding bp_set_mem by (metis bp_set_mem imageI)
  let ?v = "mem_read m (unat (ioremap a)) 4"
  let ?bps = "bps[i := \<lparr>bp_used = True, bp_addr = a, bp_value = ?v\<rparr>]"
  let ?g = "g\<lparr>srv_nemu := (srv_nemu g)\<lparr>ddr := overlay m (insert a (bp_set bps))\<rparr>, srv_break_points := ?bps\<rparr>"
  have "gdb_handle fo mips32r1_defconfig (bp_request (Insert a) ds) g = Inr (str ''OK'', ?g)"
    using i(1) dbg_ddr [OF wf(1) a(1) _ _ a(2)] overlay_read [OF ok(1) elsewhere] overlay_insert [OF ok(1)] wf(3)
    by (simp add: handle_Z gdb_insert_break_point_def bp_number [OF assms(2)] on_emu_def bps_def [symmetric])
  moreover have set: "bp_set ?bps = insert a (bp_set bps)" using bp_set_fill i(2,3) by blast
  moreover have "bp_wf m ?g"
  proof -
    have nth: "?bps ! j = (if j = i then \<lparr>bp_used = True, bp_addr = a, bp_value = ?v\<rparr> else bps ! j)" for j
      using i(2) by simp
    have new: "ioremap (bp_addr (bps ! j)) \<noteq> ioremap a" if "j < length bps" "bp_used (bps ! j)" for j
      using that elsewhere bp_set_mem by blast
    have "j = k" if "j < length bps" "k < length bps" "bp_used (?bps ! j)" "bp_used (?bps ! k)"
        "ioremap (bp_addr (?bps ! j)) = ioremap (bp_addr (?bps ! k))" for j k
      using that new [of j] new [of k] inj [of j k] unfolding nth by (auto split: if_splits)
    moreover have "bp_place (bp_addr (?bps ! j)) \<and> bp_value (?bps ! j) = mem_read m (unat (ioremap (bp_addr (?bps ! j)))) 4"
      if "j < length bps" "bp_used (?bps ! j)" for j
      using that val [of j] ok(1) unfolding nth by (auto split: if_splits)
    ultimately show ?thesis using wf(1,2) set unfolding bp_wf_facts by simp
  qed
  ultimately show ?thesis by (auto simp: bps_def)
qed

text \<open>With all slots in use an insertion is answered with the empty string.\<close>

lemma bp_full:
  assumes "bp_wf m g" and "card (bp_set (srv_break_points g)) = NR_BREAK_POINTS"
  shows "gdb_handle fo cfg (bp_request (Insert a) ds) g = Inr ([], g)"
proof -
  let ?bps = "srv_break_points g"
  have "find_index (\<lambda>b. \<not> bp_used b) ?bps = None"
  proof (cases "find_index (\<lambda>b. \<not> bp_used b) ?bps")
    case (Some i)
    then have i: "i < length ?bps" "\<not> bp_used (?bps ! i)" using find_index_Some by fastforce+
    then have "bp_set ?bps \<subseteq> (\<lambda>j. bp_addr (?bps ! j)) ` ({..< length ?bps} - {i})" by (auto simp: bp_set_mem)
    then have "card (bp_set ?bps) \<le> card ({..< length ?bps} - {i})" by (intro surj_card_le) simp_all
    then show ?thesis using i(1) assms(2) bp_wfD(2) [OF assms(1)] by simp
  qed simp
  then show ?thesis by (simp add: handle_Z gdb_insert_break_point_def Let_def)
qed

lemma bp_remove:
  assumes "bp_wf m g" and "numeral32 ds a" and "bp_op_ok (Remove a) (bp_set (srv_break_points g))"
  shows "\<exists>g'. gdb_handle fo mips32r1_defconfig (bp_request (Remove a) ds) g = Inr (str ''OK'', g') \<and>
     bp_wf m g' \<and> bp_set (srv_break_points g') = bp_set (srv_break_points g) - {a}"
proof -
  define bps where "bps = srv_break_points g"
  note wf = bp_wfD(1-3) [OF assms(1), folded bps_def]
  note val = bp_wfD(4) [OF assms(1), folded bps_def]
  note inj = bp_wfD(5) [OF assms(1), folded bps_def]
  have "a \<in> bp_set bps" using assms(3) by (simp add: bps_def)
  then obtain i where i: "i < length bps" "bp_used (bps ! i)" "bp_addr (bps ! i) = a" unfolding bp_set_mem by blast
  have only: "j = i" if "j < length bps" "bp_used (bps ! j)" "ioremap (bp_addr (bps ! j)) = ioremap a" for j
    using inj [of j i] that i by simp
  have found: "find_index (\<lambda>b. bp_used b \<and> bp_addr b = a) bps = Some i"
  proof (rule find_index_unique)
    show "bp_used (bps ! i) \<and> bp_addr (bps ! i) = a" using i(2,3) by simp
    show "j = i" if "j < length bps" "bp_used (bps ! j) \<and> bp_addr (bps ! j) = a" for j
      using only [OF that(1)] that(2) by simp
  qed (rule i(1))
  have place: "bp_place a" "bp_value (bps ! i) = mem_read m (unat (ioremap a)) 4" using val [OF i(1,2)] i(3) by simp_all
  have a: "is_unmapped a" "unat (ioremap a) + 4 \<le> 0x10000000" using place(1) by (simp_all add: bp_place_def ddr_word_def)
  have others: "bp_place b \<and> ioremap b \<noteq> ioremap a" if mem: "b \<in> bp_set bps - {a}" for b
  proof -
    obtain j where j: "j < length bps" "bp_used (bps ! j)" "bp_addr (bps ! j) = b" and "b \<noteq> a"
      using mem unfolding Diff_iff singleton_iff bp_set_mem by blast
    then show ?thesis using val [OF j(1,2)] only [OF j(1,2)] i(3) by auto
  qed
  let ?bps = "bps[i := (bps ! i)\<lparr>bp_used := False\<rparr>]"
  let ?g = "g\<lparr>srv_nemu := (srv_nemu g)\<lparr>ddr := overlay m (bp_set bps - {a})\<rparr>, srv_break_points := ?bps\<rparr>"
  have "gdb_handle fo mips32r1_defconfig (bp_request (Remove a) ds) g = Inr (str ''OK'', ?g)"
    using found dbg_ddr [OF wf(1) a(1) _ _ a(2)] overlay_remove [OF place(1) others \<open>a \<in> bp_set bps\<close>] wf(3) place(2)
    by (simp add: handle_Z gdb_remove_break_point_def bp_number [OF assms(2)] on_emu_def bps_def [symmetric])
  moreover have set: "bp_set ?bps = bp_set bps - {a}"
    using bp_set_clear [OF i(1,2)] only i(3) by fastforce
  moreover have "bp_wf m ?g"
  proof -
    have nth: "?bps ! j = (if j = i then (bps ! i)\<lparr>bp_used := False\<rparr> else bps ! j)" for j
      using i(1) by simp
    have "j = k" if "j < length bps" "k < length bps" "bp_used (?bps ! j)" "bp_used (?bps ! k)"
        "ioremap (bp_addr (?bps ! j)) = ioremap (bp_addr (?bps ! k))" for j k
      using that inj [of j k] unfolding nth by (auto split: if_splits)
    moreover have "bp_place (bp_addr (?bps ! j)) \<and> bp_value (?bps ! j) = mem_read m (unat (ioremap (bp_addr (?bps ! j)))) 4"
      if "j < length bps" "bp_used (?bps ! j)" for j
      using that val [of j] unfolding nth by (auto split: if_splits)
    ultimately show ?thesis using wf(1,2) set unfolding bp_wf_facts by simp
  qed
  ultimately show ?thesis by (auto simp: bps_def)
qed

lemma bp_run:
  assumes "bp_wf m g" and "list_all2 (\<lambda>p ds. numeral32 ds (bp_op_addr p)) ps dss"
    and "bp_ops_ok ps (bp_set (srv_break_points g))"
  shows "\<exists>g'. gdb_run fo mips32r1_defconfig (map2 bp_request ps dss) g = Inr (replicate (length ps) (str ''OK''), g') \<and>
     bp_wf m g' \<and> bp_set (srv_break_points g') = fold bp_op_do ps (bp_set (srv_break_points g))"
  using assms(2,1,3)
proof (induction ps dss arbitrary: g rule: list_all2_induct)
  case (Cons p ps ds dss)
  have "\<exists>g'. gdb_handle fo mips32r1_defconfig (bp_request p ds) g = Inr (str ''OK'', g') \<and>
     bp_wf m g' \<and> bp_set (srv_break_points g') = bp_op_do p (bp_set (srv_break_points g))"
    using bp_insert bp_remove Cons.hyps(1) Cons.prems by (cases p) (simp_all del: bp_request.simps bp_op_ok.simps)
  then obtain g1 where "gdb_handle fo mips32r1_defconfig (bp_request p ds) g = Inr (str ''OK'', g1)" "bp_wf m g1"
      "bp_set (srv_break_points g1) = bp_op_do p (bp_set (srv_break_points g))" by blast
  then show ?case using Cons.IH [of g1] Cons.prems(2) by auto
qed simp

lemma overlay_empty [simp]: "overlay m {} = m"
  by (rule ext) (simp add: overlay_def)

section \<open>Properties\<close>

text \<open>
  C29: the server answers over the wire as its commands do. Whatever damaged copies of the
  requests arrive first, and however often the debugger refuses a response, the loop of the server
  on the stream of bytes handles the requests in their order, one response each, every damaged copy
  refused and every refused response repeated, and ends when the debugger closes the connection.
\<close>

theorem gdb_session_refines:
  assumes "list_all exchange_ok xs" and "gdb_run fo cfg (map ex_request xs) g = Inr (rs, g')"
  shows "gdb_server_mainloop fo cfg (concat (map exchange_in xs)) g =
     (NemuExit, \<lparr>ses_conn = \<lparr>conn_in = [], conn_out = concat (map2 exchange_out xs rs), conn_ack = True\<rparr>, ses_srv = g'\<rparr>)"
  using gdb_loop_run [OF assms, of "[]"] by (simp add: gdb_server_mainloop_def gdb_begin_server_def)

lemma damaged_example: "damaged [0x24, 0x3F, 0x23, 0x30, 0x30]"
  unfolding damaged_def
  by (rule exI [of _ "[0x3F]"], rule exI [of _ "0x30"], rule exI [of _ "0x30"])
     (simp add: plain_def special_def gdb_decode_hex_def isxdigit_def isdigit_def hex_nibble_def)

theorem gdb_session_refines_witness:
  "\<forall>fo cfg g. gdb_server_mainloop fo cfg ([0x24, 0x3F, 0x23, 0x30, 0x30] @ packet (str ''?'') @ [0x2D, 0x2B]) g =
     (NemuExit, \<lparr>ses_conn = \<lparr>conn_in = [],
        conn_out = [0x2D, 0x2B] @ packet (str ''T05thread:01;'') @ packet (str ''T05thread:01;''), conn_ack = True\<rparr>, ses_srv = g\<rparr>)"
proof (intro allI)
  fix fo cfg and g :: gdb_server
  let ?x = "\<lparr>ex_damaged = [[0x24, 0x3F, 0x23, 0x30, 0x30]], ex_request = str ''?'', ex_refusals = 1\<rparr>"
  have "exchange_ok ?x" using damaged_example by (simp add: exchange_ok_def str_def plain_def special_def)
  moreover have "gdb_handle fo cfg (str ''?'') g = Inr (str ''T05thread:01;'', g)"
  proof -
    have "str ''?'' = [0x3F]" by (simp add: str_def)
    then show ?thesis by (simp add: gdb_handle_def handlers_def gdb_question_def reply_def)
  qed
  ultimately show "gdb_server_mainloop fo cfg ([0x24, 0x3F, 0x23, 0x30, 0x30] @ packet (str ''?'') @ [0x2D, 0x2B]) g =
     (NemuExit, \<lparr>ses_conn = \<lparr>conn_in = [],
        conn_out = [0x2D, 0x2B] @ packet (str ''T05thread:01;'') @ packet (str ''T05thread:01;''), conn_ack = True\<rparr>, ses_srv = g\<rparr>)"
    using gdb_session_refines [of "[?x]" fo cfg g "[str ''T05thread:01;'']" g]
    by (simp add: exchange_in_def exchange_out_def)
qed

text \<open>
  C28: breakpoints do not change the program. Over any sequence of requests that set breakpoints at
  words of the memory without one, while fewer than 32 are set, and remove breakpoints that are set, every
  request is answered with success, and the memory is the program's own with the breakpoint
  instruction exactly at the words that have a breakpoint; without breakpoints it is the program's. When all 32 are set, a request for
  another one is answered with the empty string and changes nothing.
\<close>

theorem gdb_breakpoints_refine:
  assumes "bp_wf m g" and "list_all2 (\<lambda>p ds. numeral32 ds (bp_op_addr p)) ps dss"
    and "bp_ops_ok ps (bp_set (srv_break_points g))"
  shows "\<exists>g'. gdb_run fo mips32r1_defconfig (map2 bp_request ps dss) g = Inr (replicate (length ps) (str ''OK''), g') \<and>
     bp_wf m g' \<and> ddr (srv_nemu g') = overlay m (fold bp_op_do ps (bp_set (srv_break_points g))) \<and>
     (fold bp_op_do ps (bp_set (srv_break_points g)) = {} \<longrightarrow> ddr (srv_nemu g') = m) \<and>
     (card (fold bp_op_do ps (bp_set (srv_break_points g))) = 32 \<longrightarrow>
        (\<forall>a ds. gdb_run fo mips32r1_defconfig [bp_request (Insert a) ds] g' = Inr ([[]], g')))"
proof -
  obtain g' where g': "gdb_run fo mips32r1_defconfig (map2 bp_request ps dss) g = Inr (replicate (length ps) (str ''OK''), g')"
    "bp_wf m g'" "bp_set (srv_break_points g') = fold bp_op_do ps (bp_set (srv_break_points g))"
    using bp_run [OF assms, of fo] by blast
  then show ?thesis using bp_wfD(3) [OF g'(2)] bp_full [OF g'(2)] by (intro exI [of _ g']) (simp del: bp_request.simps)
qed

theorem gdb_breakpoints_refine_witness:
  "\<exists>g. \<forall>fo. \<exists>g'. gdb_run fo mips32r1_defconfig [str ''Z0,80000100,4'', str ''z0,80000100,4''] g =
       Inr ([str ''OK'', str ''OK''], g') \<and> ddr (srv_nemu g') = ddr (srv_nemu g)"
proof -
  obtain t where t: "board t" using board_exists by blast
  let ?bps = "replicate 32 \<lparr>bp_used = False, bp_addr = 0, bp_value = 0\<rparr>"
  let ?g = "\<lparr>srv_nemu = t, srv_break_points = ?bps, srv_mem = []\<rparr>"
  have none: "bp_set ?bps = {}" by (auto simp: bp_set_def)
  have wf: "bp_wf (ddr t) ?g" using t none by (simp add: bp_wf_facts)
  have num: "numeral32 (str ''80000100'') 0x80000100"
    by (simp add: numeral32_def str_def isxdigit_def isdigit_def hex_val_def hex_nibble_def)
  have place: "bp_place 0x80000100" by (simp add: bp_place_def ddr_word_def is_unmapped_def ioremap_def)
  have "\<exists>g'. gdb_run fo mips32r1_defconfig [str ''Z0,80000100,4'', str ''z0,80000100,4''] ?g =
       Inr ([str ''OK'', str ''OK''], g') \<and> ddr (srv_nemu g') = ddr (srv_nemu ?g)" for fo
  proof -
    have req: "map2 bp_request [Insert 0x80000100, Remove 0x80000100] [str ''80000100'', str ''80000100''] =
        [str ''Z0,80000100,4'', str ''z0,80000100,4'']" by (simp add: str_def)
    have two: "replicate (length [Insert a, Remove a]) x = [x, x]" for a and x :: "u8 list" by (simp add: numeral_2_eq_2)
    show ?thesis
      using gdb_breakpoints_refine [OF wf, of "[Insert 0x80000100, Remove 0x80000100]" "[str ''80000100'', str ''80000100'']" fo]
        num place none unfolding req two by (auto simp del: gdb_run.simps)
  qed
  then show ?thesis by blast
qed

end
