(* ===== verification/Gdb_Memory.thy ===== *)
theory Gdb_Memory
  imports Gdb_Correct
begin

text \<open>
  Reading and writing memory and running the program from the debugger: the requests of
  \<^verbatim>\<open>gdb_write_memory\<close>, \<^verbatim>\<open>gdb_read_memory\<close> and \<^verbatim>\<open>gdb_vCont_handler\<close>.
\<close>

section \<open>Bytes of memory\<close>

lemma ddr_range_shift:
  assumes "is_unmapped a" and "unat (ioremap a) + k < 0x10000000"
  shows "is_unmapped (a + of_nat k)" and "unat (ioremap (a + of_nat k)) = unat (ioremap a) + k"
proof -
  obtain q r where qr: "unat a = q * 0x20000000 + r" "unat (ioremap a) = r" "r < 0x20000000"
    using div_mult_mod_eq [of "unat a" "0x20000000"] by (metis power_29 unat_ioremap mod_less_divisor zero_less_numeral)
  have a: "4 * 0x20000000 \<le> unat a" "unat a < 6 * 0x20000000" using assms(1) unmapped_bounds [of a] by simp_all
  then have q: "q \<le> 5" "4 \<le> q" using qr by simp_all
  have k: "r + k < 0x10000000" using assms(2) qr(2) by simp
  then have "unat (of_nat k :: u32) = k" by (simp add: unsigned_of_nat take_bit_nat_eq_self)
  then have sum: "unat (a + of_nat k) = unat a + k"
    using q(1) qr(1) k by (subst unat_add_small) simp_all
  have "(q * 0x20000000 + (r + k)) mod 0x20000000 = r + k" using k by simp
  then show "unat (ioremap (a + of_nat k)) = unat (ioremap a) + k"
    unfolding qr(2) unat_ioremap [of "a + of_nat k"] sum qr(1) power_29 by (simp only: add.assoc)
  show "is_unmapped (a + of_nat k)"
    using a q(1) qr(1) k by (simp add: unmapped_bounds sum)
qed

lemma byte_of_ucast: "byte_of (ucast (b :: u8)) 0 = b"
  by (rule bit_eqI) (auto simp: bit_simps dest: bit_imp_le_length)

lemma mem_write_byte: "mem_write m p 1 (ucast b) = m(p := b)"
  by (rule ext) (auto simp: mem_write_def byte_of_ucast)

lemma mem_read_byte: "(ucast (mem_read m p 1) :: u8) = m p"
  by (rule bit_eqI) (auto simp: bit_simps bit_mem_read dest: bit_imp_le_length)

lemma mem_write_block_Cons: "mem_write_block (m(p := b)) (Suc p) bs = mem_write_block m p (b # bs)"
proof
  fix x
  consider "x < p" | "x = p" | k where "x = Suc (p + k)" by (metis add_Suc less_imp_Suc_add linorder_neqE_nat)
  then show "mem_write_block (m(p := b)) (Suc p) bs x = mem_write_block m p (b # bs) x"
    by cases (auto simp: mem_write_block_def Suc_diff_le)
qed

section \<open>Bytes in requests\<close>

lemma fmt_02x_digits:
  obtains x y where "fmt_02x b = [x, y]" and "isxdigit x" and "isxdigit y"
    and "16 * unat (hex_nibble x) + unat (hex_nibble y) = unat b"
proof
  let ?f = "\<lambda>d :: u8. if d > 9 then 0x61 + d - 10 else 0x30 + d"
  show "fmt_02x b = [?f (b div 16), ?f (b mod 16)]" by (simp add: fmt_02x_def)
  note hi = lower_digit [OF nibbles_less(1) [of b] refl]
  note lo = lower_digit [OF nibbles_less(2) [of b] refl]
  show "isxdigit (?f (b div 16))" "isxdigit (?f (b mod 16))" using hi lo by simp_all
  have "hex_nibble (?f (b div 16)) = b div 16" "hex_nibble (?f (b mod 16)) = b mod 16" using hi lo by blast+
  then show "16 * unat (hex_nibble (?f (b div 16))) + unat (hex_nibble (?f (b mod 16))) = unat b"
    by (simp only: unat_div_distrib unat_mod_distrib) simp
qed

lemma scan_hex_two:
  assumes "isxdigit x" and "isxdigit y" and "16 * unat (hex_nibble x) + unat (hex_nibble y) = unat (b :: u8)"
  shows "scan_hex (Some 2) (x # y # rest) = Some (ucast b, rest)"
proof -
  have "unat b < 2 ^ LENGTH(8)" by (rule unsigned_less)
  moreover have "of_nat (unat b) = (ucast b :: u32)" by simp
  ultimately show ?thesis
    using assms isxdigit_facts [OF assms(1)] isxdigit_facts [OF assms(2)] by (simp add: scan_hex_def)
qed

definition write_request :: "u8 list \<Rightarrow> u8 list \<Rightarrow> u8 list \<Rightarrow> u8 list" where
  "write_request ds ls bs = str ''M'' @ ds @ str '','' @ ls @ str '':'' @ concat (map fmt_02x bs)"

definition read_request :: "u8 list \<Rightarrow> u8 list \<Rightarrow> u8 list" where
  "read_request ds ls = str ''m'' @ ds @ str '','' @ ls"

lemma write_memory_loop_block:
  assumes "board (srv_nemu g)" and "is_unmapped a" and "unat (ioremap a) + length bs \<le> 0x10000000"
  shows "write_memory_loop mips32r1_defconfig a (length bs) (Some (concat (map fmt_02x bs))) g =
     Inr ((), g\<lparr>srv_nemu := (srv_nemu g)\<lparr>ddr := mem_write_block (ddr (srv_nemu g)) (unat (ioremap a)) bs\<rparr>\<rparr>)"
  using assms
proof (induction bs arbitrary: a g)
  case (Cons b bs)
  obtain x y where xy: "fmt_02x b = [x, y]" "scan_hex (Some 2) (x # y # concat (map fmt_02x bs)) = Some (ucast b, concat (map fmt_02x bs))"
    by (rule fmt_02x_digits [of b]) (use scan_hex_two in blast)
  let ?m = "(ddr (srv_nemu g))(unat (ioremap a) := b)"
  let ?g = "g\<lparr>srv_nemu := (srv_nemu g)\<lparr>ddr := ?m\<rparr>\<rparr>"
  have put: "on_emu (dbg_vaddr_write mips32r1_defconfig a (Suc 0) (ucast b)) g = Inr ((), ?g)"
    using dbg_ddr(2) [of "srv_nemu g" a 1 "ucast b"] Cons.prems mem_write_byte [of "ddr (srv_nemu g)" "unat (ioremap a)" b]
    by (simp add: on_emu_def)
  have "write_memory_loop mips32r1_defconfig (a + 1) (length bs) (Some (concat (map fmt_02x bs))) ?g =
     Inr ((), g\<lparr>srv_nemu := (srv_nemu g)\<lparr>ddr := mem_write_block (ddr (srv_nemu g)) (unat (ioremap a)) (b # bs)\<rparr>\<rparr>)"
  proof (cases "bs = []")
    case True
    then show ?thesis using mem_write_block_Cons [of "ddr (srv_nemu g)" "unat (ioremap a)" b "[]"] by simp
  next
    case False
    then have "unat (ioremap a) + 1 < 0x10000000" using Cons.prems(3) by (cases bs) simp_all
    then have "is_unmapped (a + 1)" "unat (ioremap (a + 1)) = Suc (unat (ioremap a))"
      using ddr_range_shift [OF Cons.prems(2), of 1] by simp_all
    moreover have "mem_write_block ?m (Suc (unat (ioremap a))) bs =
        mem_write_block (ddr (srv_nemu g)) (unat (ioremap a)) (b # bs)" by (rule mem_write_block_Cons)
    ultimately show ?thesis using Cons.IH [of ?g "a + 1"] Cons.prems by (simp del: fun_upd_apply)
  qed
  then show ?case using xy put by simp
qed simp

lemma read_memory_loop_block:
  assumes "board (srv_nemu g)" and "is_unmapped a" and "unat (ioremap a) + i + n \<le> 0x10000000" and "i \<le> 2049"
  shows "read_memory_loop mips32r1_defconfig a i n g =
     (if i + n \<le> 2049 then Inr (concat (map (\<lambda>k. fmt_02x (ddr (srv_nemu g) (unat (ioremap a) + i + k))) [0 ..< n]), g)
      else Inl (UndefinedBehaviour, g))"
  using assms(3,4)
proof (induction n arbitrary: i)
  case (Suc n)
  have "is_unmapped (a + of_nat i)" "unat (ioremap (a + of_nat i)) = unat (ioremap a) + i"
    using ddr_range_shift [OF assms(2), of i] Suc.prems(1) by simp_all
  then have "on_emu (dbg_vaddr_read mips32r1_defconfig (a + of_nat i) (Suc 0)) g =
      Inr (mem_read (ddr (srv_nemu g)) (unat (ioremap a) + i) 1, g)"
    using dbg_ddr(1) [of "srv_nemu g" "a + of_nat i" 1] assms(1) Suc.prems(1) by (simp add: on_emu_def)
  moreover have "map (\<lambda>k. fmt_02x (ddr (srv_nemu g) (unat (ioremap a) + i + k))) [0 ..< Suc n] =
      fmt_02x (ddr (srv_nemu g) (unat (ioremap a) + i)) #
      map (\<lambda>k. fmt_02x (ddr (srv_nemu g) (unat (ioremap a) + Suc i + k))) [0 ..< n]"
    by (subst upt_conv_Cons) (simp_all add: map_Suc_upt [symmetric] del: upt_Suc)
  ultimately show ?case
    using Suc.IH [of "Suc i"] Suc.prems mem_read_byte [of "ddr (srv_nemu g)" "unat (ioremap a) + i"]
    by (cases "i = 2049") (simp_all del: upt_Suc)
qed simp

lemma str_one: "str ''M'' = [0x4D]" "str ''m'' = [0x6D]" "str '','' = [0x2C]" "str '':'' = [0x3A]"
  by (simp_all add: str_def)

lemma fmt_02x_nonzero: "list_all (\<lambda>c. c \<noteq> 0) (concat (map fmt_02x bs))"
proof (induction bs)
  case (Cons b bs)
  obtain x y where "fmt_02x b = [x, y]" "isxdigit x" "isxdigit y" by (rule fmt_02x_digits)
  then show ?case using Cons isxdigit_facts(6) by auto
qed simp

lemma cstr_all: "list_all (\<lambda>c. c \<noteq> 0) xs \<Longrightarrow> cstr xs = xs"
  using cstr_append_nonzero [of xs "[]"] by (simp add: cstr_def)

text \<open>The two numbers of a request, and what follows the colon.\<close>

lemma request_numbers:
  assumes "numeral32 ds a" and "numeral32 ls n" and "stops rest" and "rest = [] \<or> hd rest = 0x3A"
  shows "scan_x 2 (ds @ 0x2C # ls @ rest) = [a, n]"
proof -
  have two: "(2 :: nat) = Suc 1" by simp
  show ?thesis
    using scan_x_numerals [OF assms(1), of "0x2C # ls @ rest" 1] scan_x_numerals [OF assms(2,3), of 0] assms(4)
    unfolding two by (cases rest) (simp_all add: stops_def del: scan_x.simps)
qed

lemma strchr_colon:
  assumes "numeral32 ds a" and "numeral32 ls n"
  shows "strchr (ds @ 0x2C # ls @ 0x3A # rest) 0x3A = Some (0x3A # rest)"
proof -
  have "\<forall>c \<in> set (ds @ 0x2C # ls). c \<noteq> 0x3A"
    using assms isxdigit_facts(8) by (auto simp: numeral32_def list_all_iff)
  then have "dropWhile (\<lambda>d. d \<noteq> 0x3A) ((ds @ 0x2C # ls) @ 0x3A # rest) = 0x3A # rest"
    by (subst dropWhile_append2) auto
  then show ?thesis by (simp add: strchr_def)
qed

lemma handle_M:
  "gdb_handle fo cfg (0x4D # args) g =
     bind_r (gdb_write_memory cfg args g) (\<lambda>resp g. Inr (case resp of None \<Rightarrow> [] | Some r \<Rightarrow> r, g))"
  "gdb_handle fo cfg (0x6D # args) g =
     bind_r (gdb_read_memory cfg args g) (\<lambda>resp g. Inr (case resp of None \<Rightarrow> [] | Some r \<Rightarrow> r, g))"
  by (simp_all add: gdb_handle_def handlers_def)

lemma handle_write:
  assumes "board (srv_nemu g)" and "is_unmapped a" and "unat (ioremap a) + length bs \<le> 0x10000000"
    and "numeral32 ds a" and "numeral32 ls n" and "unat n = length bs"
  shows "gdb_handle fo mips32r1_defconfig (write_request ds ls bs) g =
     Inr (str ''OK'', g\<lparr>srv_nemu := (srv_nemu g)\<lparr>ddr := mem_write_block (ddr (srv_nemu g)) (unat (ioremap a)) bs\<rparr>\<rparr>)"
proof -
  let ?args = "ds @ 0x2C # ls @ 0x3A # concat (map fmt_02x bs)"
  have "cstr ?args = ?args"
    using numeral32_nonzero [OF assms(4)] numeral32_nonzero [OF assms(5)] fmt_02x_nonzero [of bs] by (intro cstr_all) simp
  moreover have "scan_x 2 ?args = [a, n]"
    using request_numbers [OF assms(4,5), of "0x3A # concat (map fmt_02x bs)"] by (simp add: stops_def)
  ultimately have "gdb_write_memory mips32r1_defconfig ?args g =
      Inr (Some (str ''OK''), g\<lparr>srv_nemu := (srv_nemu g)\<lparr>ddr := mem_write_block (ddr (srv_nemu g)) (unat (ioremap a)) bs\<rparr>\<rparr>)"
    using write_memory_loop_block [OF assms(1-3)] assms(6) strchr_colon [OF assms(4,5), of "concat (map fmt_02x bs)"]
    by (simp add: gdb_write_memory_def scanned_def)
  then show ?thesis by (simp add: write_request_def str_one handle_M)
qed

lemma handle_read:
  assumes "board (srv_nemu g)" and "is_unmapped a" and "unat (ioremap a) + unat n \<le> 0x10000000"
    and "numeral32 ds a" and "numeral32 ls n"
  shows "gdb_handle fo mips32r1_defconfig (read_request ds ls) g =
     (let mem = (if n = 0 then srv_mem g
                 else concat (map (\<lambda>k. fmt_02x (ddr (srv_nemu g) (unat (ioremap a) + k))) [0 ..< unat n]))
      in if unat n \<le> 2047 then Inr (mem, g\<lparr>srv_mem := mem\<rparr>)
         else if unat n \<le> 2049 then Inl (AssertFail, g) else Inl (UndefinedBehaviour, g))"
proof -
  have "cstr (ds @ 0x2C # ls) = ds @ 0x2C # ls"
    using numeral32_nonzero [OF assms(4)] numeral32_nonzero [OF assms(5)] by (intro cstr_all) simp
  moreover have "scan_x 2 (ds @ 0x2C # ls) = [a, n]"
    using request_numbers [OF assms(4,5), of "[]"] by (simp add: stops_def)
  ultimately show ?thesis
    using read_memory_loop_block [OF assms(1,2), of 0 "unat n"] assms(3)
    by (simp add: read_request_def str_one handle_M gdb_read_memory_def scanned_def unat_eq_0 Let_def)
qed

lemma read_block_back:
  "map (\<lambda>k. fmt_02x (mem_write_block m p bs (p + k))) [0 ..< length bs] = map fmt_02x bs"
  by (rule nth_equalityI) (simp_all add: mem_write_block_def)

section \<open>Running the program\<close>

lemma handle_continue:
  "gdb_handle fo cfg (str ''vCont;c'') g =
     bind_r (vCont_action fo cfg 0x63 g) (\<lambda>_ g. Inr (str ''T05thread:01;'', g))"
proof -
  have strs: "str ''vCont;c'' = 0x76 # str ''Cont'' @ [0x3B, 0x63]" "str ''?'' = [0x3F]"
    "cstr (str ''Cont'' @ [0x3B, 0x63]) = str ''Cont'' @ [0x3B, 0x63]" "length (str ''Cont'') = 4"
    "str ''Cont'' @ [0x3B, 0x63] \<noteq> str ''MustReplyEmpty''"
    by (simp_all add: str_def cstr_def)
  have loop: "vCont_loop fo cfg 0 [0x3B, 0x63] g = vCont_action fo cfg 0x63 g"
    by (subst vCont_loop.simps) (auto simp: strchr_def split: sum.splits)
  show ?thesis
    by (simp add: strs gdb_handle_def handlers_def gdb_extend_commands_def gdb_vCont_handler_def loop bind_r_assoc)
qed

lemma cp0_get_cong: "cp0 c = cp0 c' \<Longrightarrow> cp0_get f c = cp0_get f c'"
  by (cases f) (simp add: cp0_get.simps)

lemma intr_cong:
  assumes "cp0 c = cp0 c'"
  shows "intr_enabled (tick cfg c) = intr_enabled (tick cfg c')" and "intr_unmasked (tick cfg c) = intr_unmasked (tick cfg c')"
proof -
  have "cp0 (tick cfg c) = cp0 (tick cfg c')"
    using assms by (simp add: tick_def Let_def cpr_set_def cp0_set.simps cp0_get.simps)
  then have "cp0_get f (tick cfg c) = cp0_get f (tick cfg c')" for f by (rule cp0_get_cong)
  then show "intr_enabled (tick cfg c) = intr_enabled (tick cfg c')" "intr_unmasked (tick cfg c) = intr_unmasked (tick cfg c')"
    by (simp_all only: intr_enabled_def intr_unmasked_iff)
qed

lemma tick_fields [simp]:
  "pc (tick cfg c) = pc c" "gpr (tick cfg c) = gpr c"
  by (simp_all add: tick_def Let_def)

abbreviation (input) break_w :: u32 where "break_w \<equiv> 0x0005000d"

lemma decode_break: "decoder_get_handler break_w = Some (In_system L_breakpoint)"
  by (simp add: decoder_get_handler_def inst_op_def inst_func_def bf_get_def table_get_def special_table_def)

lemma cpu_step_break:
  assumes "CONFIG_EXCEPTION cfg" and "work_mode t = MODE_GDB" and "fetches cfg t break_w u"
    and "\<not> has_exception (cpu t)" and "\<not> (intr_enabled (tick cfg (cpu t)) \<and> intr_unmasked (tick cfg (cpu t)))"
  shows "cpu_step fo cfg t = Inr ((), (on_cpu (\<lambda>c. tick cfg (inst_end cfg c)) u)\<lparr>nemu_state := NEMU_STOP\<rparr>)"
proof -
  have cpu: "cpu u = cpu (set_gpr 0 0 t)" using assms(3) by (simp add: fetches_def)
  have "keeps (sys_frame t) (vaddr_read cfg (pc (cpu t)) 4 (set_gpr 0 0 t))" by (rule frame_vaddr) simp
  then have mode: "work_mode u = MODE_GDB" using assms(2,3) by (simp add: fetches_def sys_frame_def)
  let ?v = "on_cpu (inst_end cfg) (u\<lparr>nemu_state := NEMU_STOP\<rparr>)"
  have exec: "exec_inst fo cfg break_w u = Inr ((), ?v)"
    using mode by (simp add: exec_inst_handler decode_break exec_breakpoint_def fin_def finish_handler_def)
  have v: "cp0 (cpu ?v) = cp0 (cpu t)" "has_exception (cpu ?v) = has_exception (cpu t)"
    using cpu by (simp_all add: set_gpr_def)
  have "check_exception cfg ?v = Inr ((), on_cpu (tick cfg) ?v)"
    using check_exception_intr [of cfg ?v] assms(1,4,5) v(2) unfolding intr_cong [OF v(1)] by (simp only: if_False simp_thms)
  then show ?thesis using cpu_step_fetch [OF assms(3), of fo] exec by (simp add: on_cpu_def)
qed

lemma continue_run:
  assumes "CONFIG_EXCEPTION cfg" and "work_mode s = MODE_GDB" and "nemu_state s \<noteq> NEMU_END"
    and "cpu_loop fo cfg n (s\<lparr>nemu_state := NEMU_RUNNING\<rparr>) = Inr ((), t)" and "nemu_state t = NEMU_RUNNING" and "n < 2 ^ 64 - 1"
    and "fetches cfg t break_w u" and "\<not> has_exception (cpu t)"
    and "\<not> (intr_enabled (tick cfg (cpu t)) \<and> intr_unmasked (tick cfg (cpu t)))"
  shows "cpu_exec fo cfg (- 1) s = Inr ((), (on_cpu (\<lambda>c. tick cfg (inst_end cfg c)) u)\<lparr>nemu_state := NEMU_STOP\<rparr>)"
proof -
  have mode: "work_mode t = MODE_GDB" using cpu_loop_work_mode [OF assms(4)] assms(2) by simp
  have "unat (- 1 :: u64) = 2 ^ 64 - 1" by (simp add: unsigned_minus_1_eq_mask mask_eq_exp_minus_1)
  moreover obtain k where "2 ^ 64 - 1 = Suc (n + k)" using less_imp_Suc_add [OF assms(6)] by blast
  ultimately have k: "unat (- 1 :: u64) = n + Suc k" by (simp only: add_Suc_right)
  have "cpu_loop fo cfg (n + Suc k) (s\<lparr>nemu_state := NEMU_RUNNING\<rparr>) =
      Inr ((), (on_cpu (\<lambda>c. tick cfg (inst_end cfg c)) u)\<lparr>nemu_state := NEMU_STOP\<rparr>)"
    unfolding cpu_loop_add using assms(4,5) cpu_step_break [OF assms(1) mode assms(7-9)] by simp
  then show ?thesis using assms(3) by (simp add: cpu_exec_def k)
qed

section \<open>Properties\<close>

text \<open>
  C31: memory written by the debugger reads back. A request that writes bytes anywhere in the
  memory changes exactly these bytes; the request that reads the same range then returns them in
  hexadecimal when they are at most 2047. Of 2048 or 2049 bytes the assertion at the end fails and
  of more the buffer is overrun, and of no bytes the response is that of the last read.
\<close>

theorem gdb_memory_roundtrip:
  assumes "board (srv_nemu g)" and "is_unmapped a" and "unat (ioremap a) + length bs \<le> 0x10000000"
    and "numeral32 ds a" and "numeral32 ls n" and "unat n = length bs"
    and "g1 = g\<lparr>srv_nemu := (srv_nemu g)\<lparr>ddr := mem_write_block (ddr (srv_nemu g)) (unat (ioremap a)) bs\<rparr>\<rparr>"
    and "txt = (if bs = [] then srv_mem g else concat (map fmt_02x bs))"
  shows "gdb_handle fo mips32r1_defconfig (write_request ds ls bs) g = Inr (str ''OK'', g1) \<and>
     gdb_handle fo mips32r1_defconfig (read_request ds ls) g1 =
       (if length bs \<le> 2047 then Inr (txt, g1\<lparr>srv_mem := txt\<rparr>)
        else if length bs \<le> 2049 then Inl (AssertFail, g1) else Inl (UndefinedBehaviour, g1))"
proof -
  have "n = 0 \<longleftrightarrow> bs = []" using assms(6) by (metis length_0_conv unat_0 unat_eq_0)
  moreover have "board (srv_nemu g1)" "ddr (srv_nemu g1) = mem_write_block (ddr (srv_nemu g)) (unat (ioremap a)) bs" "srv_mem g1 = srv_mem g"
    using assms(1,7) by simp_all
  ultimately have "gdb_handle fo mips32r1_defconfig (read_request ds ls) g1 =
       (if length bs \<le> 2047 then Inr (txt, g1\<lparr>srv_mem := txt\<rparr>)
        else if length bs \<le> 2049 then Inl (AssertFail, g1) else Inl (UndefinedBehaviour, g1))"
    using handle_read [of g1 a n ds ls fo] assms(2-6,8) read_block_back [of "ddr (srv_nemu g)" "unat (ioremap a)" bs]
    by (simp add: Let_def)
  then show ?thesis using handle_write [OF assms(1-6)] assms(7) by simp
qed

lemma numeral_examples: "numeral32 (str ''80000100'') 0x80000100" "numeral32 (str ''2'') 2"
  by (simp_all add: numeral32_def str_def isxdigit_def isdigit_def hex_val_def hex_nibble_def)

theorem gdb_memory_roundtrip_witness:
  "\<exists>g g1 g2. \<forall>fo. gdb_handle fo mips32r1_defconfig (str ''M80000100,2:beef'') g = Inr (str ''OK'', g1) \<and>
     gdb_handle fo mips32r1_defconfig (str ''m80000100,2'') g1 = Inr (str ''beef'', g2)"
proof -
  obtain t where t: "board t" using board_exists by blast
  let ?g = "\<lparr>srv_nemu = t, srv_break_points = [], srv_mem = []\<rparr>"
  let ?w = "\<lparr>srv_nemu = t\<lparr>ddr := mem_write_block (ddr t) (unat (ioremap 0x80000100)) [0xBE, 0xEF]\<rparr>, srv_break_points = [], srv_mem = []\<rparr>"
  have req: "write_request (str ''80000100'') (str ''2'') [0xBE, 0xEF] = str ''M80000100,2:beef''"
    "read_request (str ''80000100'') (str ''2'') = str ''m80000100,2''" "concat (map fmt_02x [0xBE, 0xEF]) = str ''beef''"
    by (simp_all add: write_request_def read_request_def str_def fmt_02x_def)
  have "gdb_handle fo mips32r1_defconfig (str ''M80000100,2:beef'') ?g = Inr (str ''OK'', ?w) \<and>
      gdb_handle fo mips32r1_defconfig (str ''m80000100,2'') ?w = Inr (str ''beef'', ?w\<lparr>srv_mem := str ''beef''\<rparr>)" for fo
    using gdb_memory_roundtrip [of ?g "0x80000100" "[0xBE, 0xEF]" "str ''80000100''" "str ''2''" 2 ?w "str ''beef''" fo]
      numeral_examples t req by (simp add: is_unmapped_def ioremap_def)
  then show ?thesis by blast
qed

text \<open>
  C30: a program that is continued stops at a breakpoint. When the program reaches, after any
  number of steps, an instruction that a breakpoint has replaced, with no interrupt pending, the
  request to continue returns with the machine stopped before that instruction: the step has only
  counted one cycle. In a branch's delay slot the program counter is instead left four bytes
  before the target of the branch.
\<close>

theorem gdb_continue_stops:
  assumes "CONFIG_EXCEPTION cfg" and "work_mode (srv_nemu g) = MODE_GDB" and "nemu_state (srv_nemu g) \<noteq> NEMU_END"
    and "dbg_vaddr_read cfg (pc (cpu (srv_nemu g))) 4 (srv_nemu g) = Inr (i0, srv_nemu g)"
    and "dbg_vaddr_read cfg (pc (cpu (srv_nemu g)) + 4) 4 (srv_nemu g) = Inr (i1, srv_nemu g)"
    and "\<not> (i0 = eret_w \<and> i1 = break_w)"
    and "cpu_loop fo cfg n ((srv_nemu g)\<lparr>nemu_state := NEMU_RUNNING\<rparr>) = Inr ((), t)"
    and "nemu_state t = NEMU_RUNNING" and "n < 2 ^ 64 - 1"
    and "fetches cfg t break_w u" and "\<not> has_exception (cpu t)"
    and "\<not> (intr_enabled (tick cfg (cpu t)) \<and> intr_unmasked (tick cfg (cpu t)))"
  shows "\<exists>g'. gdb_handle fo cfg (str ''vCont;c'') g = Inr (str ''T05thread:01;'', g') \<and>
     nemu_state (srv_nemu g') = NEMU_STOP \<and> gpr (cpu (srv_nemu g')) = (gpr (cpu t))(0 := 0) \<and>
     ddr (srv_nemu g') = ddr u \<and> srv_break_points g' = srv_break_points g \<and>
     pc (cpu (srv_nemu g')) =
       (if CONFIG_DELAYSLOT cfg \<and> is_delayslot (cpu t) then br_target (cpu t) - 4 else pc (cpu t))"
proof -
  have cpu: "cpu u = cpu (set_gpr 0 0 t)" using assms(10) by (simp add: fetches_def)
  let ?v = "(on_cpu (\<lambda>c. tick cfg (inst_end cfg c)) u)\<lparr>nemu_state := NEMU_STOP\<rparr>"
  let ?g = "g\<lparr>srv_nemu := on_cpu (\<lambda>c. c\<lparr>pc := pc c - 4\<rparr>) ?v\<rparr>"
  have "vCont_action fo cfg 0x63 g = Inr ((), ?g)"
    using assms(4-6) continue_run [OF assms(1-3,7-12)] by (auto simp: vCont_action_def on_emu_def)
  then have "gdb_handle fo cfg (str ''vCont;c'') g = Inr (str ''T05thread:01;'', ?g)" by (simp add: handle_continue)
  moreover have "gpr (inst_end cfg (cpu u)) = (gpr (cpu t))(0 := 0)"
    unfolding cpu by (simp add: inst_end_def set_gpr_def)
  moreover have "pc (inst_end cfg (cpu u)) - 4 =
      (if CONFIG_DELAYSLOT cfg \<and> is_delayslot (cpu t) then br_target (cpu t) - 4 else pc (cpu t))"
    unfolding cpu by (simp add: inst_end_def set_gpr_def)
  ultimately show ?thesis by (intro exI [of _ ?g]) (simp add: on_cpu_def)
qed

theorem gdb_continue_stops_witness:
  "\<exists>g. \<forall>fo. \<exists>g'. gdb_handle fo mips32r1_defconfig (str ''vCont;c'') g = Inr (str ''T05thread:01;'', g') \<and>
     nemu_state (srv_nemu g') = NEMU_STOP \<and> pc (cpu (srv_nemu g')) = 0xbfc00000"
proof -
  let ?s = "(rom_state break_w)\<lparr>work_mode := MODE_GDB\<rparr>"
  let ?t = "?s\<lparr>nemu_state := NEMU_RUNNING\<rparr>"
  let ?g = "\<lparr>srv_nemu = ?s, srv_break_points = [], srv_mem = []\<rparr>"
  obtain u where u: "fetches mips32r1_defconfig ?t break_w u"
    using rom_fetches(2) [of ?t break_w] by auto
  have in8: "bram_ram.in_ram mips32r1_defconfig 0xbfc00000 8 ?s" by (rule rom_fetches(1)) simp_all
  have rd: "\<exists>w. dbg_vaddr_read mips32r1_defconfig a 4 ?s = Inr (w, ?s)" if "a = 0xbfc00000 \<or> a = 0xbfc00004" for a
  proof -
    have "bram_ram.in_ram mips32r1_defconfig a 4 ?s"
      using that in8 by (auto simp: bram_ram.in_ram_def is_unmapped_def find_device_page ioremap_def mips32r1_defconfig_def)
    then show ?thesis using bram_ram.dbg_read_in_ram [of mips32r1_defconfig a 4 ?s] by simp
  qed
  have first: "dbg_vaddr_read mips32r1_defconfig 0xbfc00000 4 ?s = Inr (break_w, ?s)"
  proof -
    have "bram_ram.in_ram mips32r1_defconfig 0xbfc00000 4 ?s" using in8 by (simp add: bram_ram.in_ram_def)
    then show ?thesis
      using bram_ram.dbg_read_in_ram [of mips32r1_defconfig "0xbfc00000" 4 ?s] mem_read_write_same [of 4 "\<lambda>_. 0" 0 break_w]
      by (simp add: ioremap_def mips32r1_defconfig_def take_bit_word_eq_self)
  qed
  obtain i1 where i1: "dbg_vaddr_read mips32r1_defconfig 0xbfc00004 4 ?s = Inr (i1, ?s)" using rd by blast
  have quiet: "\<not> intr_enabled (tick mips32r1_defconfig (cpu ?t))"
    by (simp add: intr_enabled_def tick_def Let_def cpr_set_def cp0_set.simps cp0_get.simps zero_cpu_def bf_get_def)
  have "\<exists>g'. gdb_handle fo mips32r1_defconfig (str ''vCont;c'') ?g = Inr (str ''T05thread:01;'', g') \<and>
     nemu_state (srv_nemu g') = NEMU_STOP \<and> pc (cpu (srv_nemu g')) = 0xbfc00000" for fo
    using gdb_continue_stops [of mips32r1_defconfig ?g break_w i1 fo 0 ?t u] first i1 u quiet
    by (auto simp: mips32r1_defconfig_def zero_cpu_def rom_state_def nemu_globals_def)
  then show ?thesis by blast
qed

end
