(* ===== verification/Host_File.thy ===== *)
theory Host_File
  imports Nemu_Prelude
begin

text \<open>
  The files of the host, \<^verbatim>\<open>src/utils/file.c\<close>: the size of a file, reading a whole file into a
  fresh buffer, and the loops around \<^verbatim>\<open>read\<close> and \<^verbatim>\<open>write\<close> that the devices use. The
  operating system is a parameter, what its calls answer one after the other. A loop that never
  returns is the value \<open>None\<close>.
\<close>

section \<open>The operating system\<close>

text \<open>
  \<open>os_lstat\<close> is what the structure holds after the call: whether it is a symbolic link, and its size;
  for a path that does not exist these are whatever the stack held. \<open>os_read f k p n\<close> is the answer to
  the \<open>k\<close>-th \<^verbatim>\<open>read\<close> of at most \<open>n\<close> bytes from a descriptor of \<open>f\<close> at position \<open>p\<close>, \<open>None\<close>
  for \<open>-1\<close>; \<open>os_malloc n\<close> is what a fresh block of \<open>n\<close> bytes happens to contain, and
  \<open>os_file f\<close> is the contents of the file at \<open>f\<close> for those who open it as a stream.
\<close>

type_synonym reader = "nat \<Rightarrow> nat \<Rightarrow> nat \<Rightarrow> u8 list option"
type_synonym writer = "nat \<Rightarrow> nat \<Rightarrow> nat option"

record host_os =
  os_lstat :: "string \<Rightarrow> bool \<times> nat"
  os_readlink :: "string \<Rightarrow> string"
  os_open :: "string \<Rightarrow> bool"
  os_read :: "string \<Rightarrow> reader"
  os_malloc :: "nat \<Rightarrow> u8 list"
  os_file :: "string \<Rightarrow> u8 list option"

section \<open>Operations\<close>

partial_function (option) get_file_size :: "host_os \<Rightarrow> string \<Rightarrow> nat option" where
  "get_file_size os img_file =
     (if fst (os_lstat os img_file)
      then get_file_size os (take (snd (os_lstat os img_file)) (os_readlink os img_file))
      else Some (snd (os_lstat os img_file)))"

text \<open>
  \<^verbatim>\<open>len\<close> is an \<^verbatim>\<open>int\<close> that the comparison converts to \<^verbatim>\<open>size_t\<close>: a negative
  one ends the loop. Every call of \<^verbatim>\<open>read\<close> stores at the start of the buffer; \<open>p\<close> is the
  descriptor's position.
\<close>

definition size_of_int :: "u32 \<Rightarrow> nat" where
  "size_of_int len = unat (scast len :: u64)"

partial_function (option) read_file_loop :: "reader \<Rightarrow> nat \<Rightarrow> nat \<Rightarrow> nat \<Rightarrow> u32 \<Rightarrow> u8 list \<Rightarrow> u8 list option" where
  "read_file_loop rd sz k p len buf =
     (if size_of_int len < sz
      then case rd k p (sz - size_of_int len) of
             Some bs \<Rightarrow> read_file_loop rd sz (Suc k) (p + length bs) (len + of_nat (length bs)) (bs @ drop (length bs) buf)
           | None \<Rightarrow> read_file_loop rd sz (Suc k) p (len - 1) buf
      else Some buf)"

text \<open>The outer option is whether the function returns, the inner one whether it returns a buffer.\<close>

definition read_file :: "host_os \<Rightarrow> string \<Rightarrow> u8 list option option" where
  "read_file os filename =
     Option.bind (get_file_size os filename)
       (\<lambda>sz. if \<not> os_open os filename then Some None
             else Option.bind (read_file_loop (os_read os filename) sz 0 0 0 (os_malloc os sz)) (\<lambda>buf. Some (Some buf)))"

text \<open>
  The result of \<^verbatim>\<open>write_s\<close> with the bytes that went out: \<open>wr k n\<close> is how many of the \<open>n\<close> bytes
  offered the \<open>k\<close>-th \<^verbatim>\<open>write\<close> takes, \<open>None\<close> for an error.
\<close>

partial_function (option) write_s_loop :: "writer \<Rightarrow> u8 list \<Rightarrow> nat \<Rightarrow> nat \<Rightarrow> u8 list \<Rightarrow> (int \<times> u8 list) option" where
  "write_s_loop wr buf k off out =
     (if off < length buf
      then case wr k (length buf - off) of
             None \<Rightarrow> Some (-1, out)
           | Some ret \<Rightarrow> write_s_loop wr buf (Suc k) (off + ret) (out @ take ret (drop off buf))
      else Some (int (length buf), out))"

definition write_s :: "writer \<Rightarrow> u8 list \<Rightarrow> (int \<times> u8 list) option" where
  "write_s wr buf = write_s_loop wr buf 0 0 []"

text \<open>The descriptor is at position \<open>p\<close> when \<^verbatim>\<open>read_s\<close> is called.\<close>

partial_function (option) read_s_loop :: "reader \<Rightarrow> nat \<Rightarrow> nat \<Rightarrow> nat \<Rightarrow> nat \<Rightarrow> u8 list \<Rightarrow> (int \<times> u8 list) option" where
  "read_s_loop rd cnt k p off buf =
     (if off < cnt
      then case rd k (p + off) (cnt - off) of
             None \<Rightarrow> Some (-1, buf)
           | Some bs \<Rightarrow> read_s_loop rd cnt (Suc k) p (off + length bs) (take off buf @ bs @ drop (off + length bs) buf)
      else Some (int cnt, buf))"

definition read_s :: "reader \<Rightarrow> nat \<Rightarrow> nat \<Rightarrow> u8 list \<Rightarrow> (int \<times> u8 list) option" where
  "read_s rd p cnt buf = read_s_loop rd cnt 0 p 0 buf"

section \<open>The loops return\<close>

text \<open>
  What \<^verbatim>\<open>write\<close> and \<^verbatim>\<open>read\<close> document for a file with contents \<open>c\<close> that is ready: some
  progress, never too much, and nothing at its end.
\<close>

definition takes_some :: "writer \<Rightarrow> bool" where
  "takes_some wr \<longleftrightarrow> (\<forall>k n. 0 < n \<longrightarrow> (\<exists>r. wr k n = Some r \<and> 0 < r \<and> r \<le> n))"

definition reads_from :: "u8 list \<Rightarrow> reader \<Rightarrow> bool" where
  "reads_from c rd \<longleftrightarrow> (\<forall>k p n. 0 < n \<longrightarrow>
     (\<exists>m. rd k p n = Some (take m (drop p c)) \<and> m \<le> n \<and> (p < length c \<longrightarrow> 0 < m)))"

lemma reads_fromE:
  assumes "reads_from c rd" and "0 < n" and "p < length c"
  obtains m where "rd k p n = Some (take m (drop p c))" "0 < m" "m \<le> n" "p + m \<le> length c"
proof -
  obtain m where m: "rd k p n = Some (take m (drop p c))" "m \<le> n" "0 < m"
    using assms unfolding reads_from_def by blast
  have "take m (drop p c) = take (min m (length c - p)) (drop p c)" by (simp add: min_def)
  then show ?thesis using that [of "min m (length c - p)"] m assms(3) by simp
qed

lemma write_s_loop_all:
  assumes "takes_some wr" and "off \<le> length buf"
  shows "write_s_loop wr buf k off out = Some (int (length buf), out @ drop off buf)"
  using assms(2)
proof (induction "length buf - off" arbitrary: k off out rule: less_induct)
  case less
  show ?case
  proof (cases "off < length buf")
    case True
    then obtain r where r: "wr k (length buf - off) = Some r" "0 < r" "r \<le> length buf - off"
      using assms(1) unfolding takes_some_def by (metis zero_less_diff)
    then have "write_s_loop wr buf (Suc k) (off + r) (out @ take r (drop off buf)) =
        Some (int (length buf), (out @ take r (drop off buf)) @ drop (off + r) buf)"
      using less.hyps [of "off + r"] True by simp
    moreover have "take r (drop off buf) @ drop (off + r) buf = drop off buf"
      by (metis append_take_drop_id drop_drop add.commute)
    ultimately show ?thesis using True r(1) by (subst write_s_loop.simps) simp
  next
    case False
    then show ?thesis using less.prems by (subst write_s_loop.simps) simp
  qed
qed

lemma read_s_loop_all:
  assumes "reads_from c rd" and "p + cnt \<le> length c" and "length buf = cnt" and "off \<le> cnt"
    and "take off buf = take off (drop p c)"
  shows "read_s_loop rd cnt k p off buf = Some (int cnt, take cnt (drop p c))"
  using assms(3-)
proof (induction "cnt - off" arbitrary: k off buf rule: less_induct)
  case less
  show ?case
  proof (cases "off < cnt")
    case True
    then obtain m where m: "rd k (p + off) (cnt - off) = Some (take m (drop (p + off) c))" "0 < m"
      "m \<le> cnt - off" "p + off + m \<le> length c"
      using reads_fromE [OF assms(1), of "cnt - off" "p + off" k] assms(2) by auto
    let ?bs = "take m (drop (p + off) c)"
    let ?buf = "take off buf @ ?bs @ drop (off + m) buf"
    have len: "length ?bs = m" using m(4) by simp
    have "take off buf @ ?bs = take (off + m) (drop p c)"
      unfolding take_add less.prems(3) by (simp add: add.commute)
    moreover have "take (off + m) ?buf = take off buf @ ?bs"
      using len less.prems(1) True by simp
    ultimately have "read_s_loop rd cnt (Suc k) p (off + m) ?buf = Some (int cnt, take cnt (drop p c))"
      using less.hyps [of "off + m" ?buf "Suc k"] m less.prems(1) True by simp
    then show ?thesis using True m(1) len by (subst read_s_loop.simps) simp
  next
    case False
    then show ?thesis using less.prems by (subst read_s_loop.simps) simp
  qed
qed

text \<open>At the end of the file \<^verbatim>\<open>read\<close> keeps returning 0, and the loop goes on.\<close>

lemma read_s_loop_eof:
  assumes "read_s_loop rd cnt k p off buf = Some r" and "reads_from c rd" and "length c < p + cnt" and "off < cnt"
  shows False
  using assms
proof (induction arbitrary: rule: read_s_loop.raw_induct [rotated 1, consumes 1])
  case (1 loop rd cnt k p off buf r)
  then obtain m where m: "rd k (p + off) (cnt - off) = Some (take m (drop (p + off) c))"
    unfolding reads_from_def by (metis zero_less_diff)
  let ?bs = "take m (drop (p + off) c)"
  have "off + length ?bs < cnt" using 1(4,5) by auto
  moreover have "loop rd cnt (Suc k) p (off + length ?bs) (take off buf @ ?bs @ drop (off + length ?bs) buf) = Some r"
    using 1(2,5) m by simp
  ultimately show ?case using 1(1,3,4) by blast
qed

section \<open>Reading a whole file\<close>

lemma size_of_int_nat:
  assumes "n < 2 ^ 31"
  shows "size_of_int (of_nat n) = n"
proof -
  have "sint (of_nat n :: u32) = int n"
    using assms by (simp add: signed_of_nat signed_take_bit_int_eq_self)
  then have "scast (of_nat n :: u32) = (of_nat n :: u64)" by (metis of_int_of_nat_eq of_int_sint)
  then show ?thesis using assms by (simp add: size_of_int_def unsigned_of_nat take_bit_nat_eq_self)
qed

lemma get_file_size_regular: "\<not> fst (os_lstat os f) \<Longrightarrow> get_file_size os f = Some (snd (os_lstat os f))"
  by (subst get_file_size.simps) simp


text \<open>A reader that gives everything it is asked for in one call, as Linux does for a file on disk.\<close>

definition reads_whole :: "u8 list \<Rightarrow> reader \<Rightarrow> bool" where
  "reads_whole c rd \<longleftrightarrow> (\<forall>k p n. rd k p n = Some (take n (drop p c)))"

lemma read_file_loop_end: "n < 2 ^ 31 \<Longrightarrow> read_file_loop rd n k p (of_nat n) buf = Some buf"
  by (subst read_file_loop.simps) (simp add: size_of_int_nat)

lemma read_file_whole:
  assumes "\<not> fst (os_lstat os f)" and "os_open os f" and "snd (os_lstat os f) = length c" and "length c < 2 ^ 31"
    and "reads_whole c (os_read os f)" and "\<And>n. length (os_malloc os n) = n"
  shows "get_file_size os f = Some (length c)" and "read_file os f = Some (Some c)"
proof -
  show sz: "get_file_size os f = Some (length c)" using get_file_size_regular [OF assms(1)] assms(3) by simp
  have "read_file_loop (os_read os f) (length c) 0 0 0 (os_malloc os (length c)) = Some c"
  proof (cases "c = []")
    case True
    then show ?thesis using assms(6) [of 0] read_file_loop_end [of 0] by simp
  next
    case False
    have "size_of_int 0 = 0" by (simp add: size_of_int_def)
    then show ?thesis
      using False assms(5) assms(6) [of "length c"] read_file_loop_end [OF assms(4)]
      by (subst read_file_loop.simps) (simp add: reads_whole_def)
  qed
  then show "read_file os f = Some (Some c)" using sz assms(2) by (simp add: read_file_def)
qed

text \<open>
  A file that arrives in two pieces is not read correctly: the second piece overwrites the start of
  the first one.
\<close>

theorem read_file_short_read:
  assumes "rd 0 0 (m + n) = Some xs" and "rd 1 m n = Some ys" and "length xs = m" and "length ys = n"
    and "0 < m" and "0 < n" and "m + n < 2 ^ 31" and "length buf = m + n"
  shows "read_file_loop rd (m + n) 0 0 0 buf = Some (ys @ drop n (xs @ drop m buf))"
proof -
  have z: "size_of_int 0 = 0" by (simp add: size_of_int_def)
  have "read_file_loop rd (m + n) 1 m (of_nat m) (xs @ drop m buf) = Some (ys @ drop n (xs @ drop m buf))"
    using assms read_file_loop_end [of "m + n" rd] size_of_int_nat [of m]
    by (subst read_file_loop.simps) (simp del: of_nat_add add: of_nat_add [symmetric])
  then show ?thesis using assms z by (subst read_file_loop.simps) simp
qed

section \<open>Properties\<close>

text \<open>
  What the loops around \<^verbatim>\<open>read\<close> and \<^verbatim>\<open>write\<close> are for, and where they fail. However the
  host splits the transfers, as long as each call makes progress \<^verbatim>\<open>write_s\<close> returns and has
  sent the whole buffer in order, and \<^verbatim>\<open>read_s\<close> returns with the bytes at the descriptor's
  position when the file holds that many. An error of \<^verbatim>\<open>write\<close> ends it with \<open>-1\<close>. When the file
  ends before the bytes asked for, \<^verbatim>\<open>read_s\<close> never returns.
\<close>

theorem file_loops:
  assumes "takes_some wr" and "reads_from c rd" and "length buf = cnt"
  shows "write_s wr bs = Some (int (length bs), bs) \<and>
     (wr' 0 (length bs) = None \<longrightarrow> bs \<noteq> [] \<longrightarrow> write_s wr' bs = Some (-1, [])) \<and>
     read_s rd p cnt buf = (if p + cnt \<le> length c \<or> cnt = 0 then Some (int cnt, take cnt (drop p c)) else None)"
proof (intro conjI impI)
  show "write_s wr bs = Some (int (length bs), bs)"
    using write_s_loop_all [OF assms(1), of 0 bs] by (simp add: write_s_def)
  show "write_s wr' bs = Some (-1, [])" if "wr' 0 (length bs) = None" "bs \<noteq> []"
    unfolding write_s_def using that by (subst write_s_loop.simps) simp
  have "read_s rd p cnt buf = None" if "length c < p + cnt" "0 < cnt"
    using read_s_loop_eof [OF _ assms(2) that] by (cases "read_s rd p cnt buf") (auto simp: read_s_def)
  moreover have "read_s rd p cnt buf = Some (int cnt, take cnt (drop p c))" if "p + cnt \<le> length c"
    using read_s_loop_all [OF assms(2) that assms(3), of 0 0] by (simp add: read_s_def)
  moreover have "read_s rd p 0 [] = Some (0, [])"
    unfolding read_s_def by (subst read_s_loop.simps) simp
  ultimately show "read_s rd p cnt buf =
      (if p + cnt \<le> length c \<or> cnt = 0 then Some (int cnt, take cnt (drop p c)) else None)"
    using assms(3) by (cases "cnt = 0") auto
qed

text \<open>A host that takes two bytes and delivers two bytes at a time.\<close>

theorem file_loops_witness:
  "write_s (\<lambda>k n. Some (min 2 n)) [1, 2, 3, 4, 5] = Some (5, [1, 2, 3, 4, 5]) \<and>
   read_s (\<lambda>k p n. Some (take (min 2 n) (drop p [7, 8, 9, 10]))) 1 3 [0, 0, 0] = Some (3, [8, 9, 10]) \<and>
   read_s (\<lambda>k p n. Some (take (min 2 n) (drop p [7, 8, 9, 10]))) 1 4 [0, 0, 0, 0] = None"
proof -
  let ?wr = "\<lambda>k n. Some (min 2 n)" and ?rd = "\<lambda>k p n. Some (take (min 2 n) (drop p [7, 8, 9, 10]))"
  have h: "takes_some ?wr" by (simp add: takes_some_def)
  have "\<exists>m. take (min 2 n) (drop p [7, 8, 9, 10 :: u8]) = take m (drop p [7, 8, 9, 10]) \<and> m \<le> n \<and>
      (p < length [7, 8, 9, 10 :: u8] \<longrightarrow> 0 < m)" if "0 < n" for p n :: nat
    using that by (intro exI [of _ "min 2 n"]) simp
  then have h': "reads_from [7, 8, 9, 10] ?rd" unfolding reads_from_def by simp
  show ?thesis
    using file_loops [OF h h', of "[0, 0, 0]" 3 "[1, 2, 3, 4, 5]" _ 1] file_loops [OF h h', of "[0, 0, 0, 0]" 4 "[]" _ 1]
    by simp
qed

end
