(* ===== verification/Monitor.thy ===== *)
theory Monitor
  imports Machine Elfsym Host_File
begin

text \<open>
  The monitor: \<^verbatim>\<open>src/monitor/monitor.c\<close> with the command line, the loading of an image or of an ELF
  file and the boot code that jumps to its entry point, the interface of \<^verbatim>\<open>src/monitor/napis.c\<close>, and
  \<^verbatim>\<open>src/main.c\<close>. The files of the host are those of \<open>Host_File\<close>.
\<close>

abbreviation (input) CPU_INIT_PC :: u32 where "CPU_INIT_PC \<equiv> 0xbfc00000"

text \<open>The globals of the monitor beside the emulator's; \<^verbatim>\<open>NULL\<close> is \<open>None\<close>.\<close>

record monitor =
  mon_nemu :: nemu
  mon_elfsym :: elfsym_t
  elf_file :: "string option"
  symbol_file :: "string option"
  boot_cmdline :: "u8 list"
  img_file :: "string option"
  elf_entry :: u32

text \<open>Running a piece of the emulator in the monitor, and waiting for a result of the host.\<close>

definition in_nemu :: "(nemu \<Rightarrow> 'a res) \<Rightarrow> monitor \<Rightarrow> ('a, monitor) outcome" where
  "in_nemu f m = (case f (mon_nemu m) of
     Inl (e, s) \<Rightarrow> Inl (e, m\<lparr>mon_nemu := s\<rparr>) | Inr (x, s) \<Rightarrow> Inr (x, m\<lparr>mon_nemu := s\<rparr>))"

definition in_elfsym :: "(elfsym_t \<Rightarrow> ('a, elfsym_t) outcome) \<Rightarrow> monitor \<Rightarrow> ('a, monitor) outcome" where
  "in_elfsym f m = (case f (mon_elfsym m) of
     Inl (e, s) \<Rightarrow> Inl (e, m\<lparr>mon_elfsym := s\<rparr>) | Inr (x, s) \<Rightarrow> Inr (x, m\<lparr>mon_elfsym := s\<rparr>))"

definition host_call :: "'a option \<Rightarrow> monitor \<Rightarrow> ('a, monitor) outcome" where
  "host_call r m = (case r of None \<Rightarrow> Inl (Hang, m) | Some x \<Rightarrow> Inr (x, m))"

section \<open>Loading\<close>

text \<open>A store of a byte sequence through a host pointer.\<close>

definition host_copy :: "host_ptr \<Rightarrow> u8 list \<Rightarrow> nemu \<Rightarrow> nemu" where
  "host_copy p bs s = ram_put (fst p) (mem_write_block (ram_bytes (fst p) s) (snd p) bs) s"

definition bytes_of :: "u32 \<Rightarrow> u8 list" where
  "bytes_of w = [byte_of w 0, byte_of w 1, byte_of w 2, byte_of w 3]"

definition rom_code :: "u32 \<Rightarrow> u32 list" where
  "rom_code entry = [0x3c080000 OR drop_bit 16 entry, 0x35080000 OR (entry AND 0xFFFF), 0x01000008, 0x00000000]"

definition load_rom :: "config \<Rightarrow> u32 \<Rightarrow> nemu \<Rightarrow> unit res" where
  "load_rom cfg entry s =
     bind_r (vaddr_map cfg CPU_INIT_PC 16 s)
       (\<lambda>p s. Inr ((), host_copy p (concat (map bytes_of (rom_code entry))) s))"

record Elf32_Phdr =
  p_type :: u32
  p_offset :: u32
  p_vaddr :: u32
  p_filesz :: u32
  p_memsz :: u32

abbreviation (input) PT_LOAD :: u32 where "PT_LOAD \<equiv> 1"

definition phdr_at :: "u8 list \<Rightarrow> nat \<Rightarrow> Elf32_Phdr" where
  "phdr_at b k = \<lparr>p_type = rd32 b k, p_offset = rd32 b (k + 4), p_vaddr = rd32 b (k + 8),
     p_filesz = rd32 b (k + 16), p_memsz = rd32 b (k + 20)\<rparr>"

text \<open>
  A segment is copied and the rest of its memory cleared. The pointer is good for \<^verbatim>\<open>p_memsz\<close>
  bytes; a segment that is longer in the file, or that reaches past the end of the file, is not
  caught.
\<close>

definition load_segment :: "config \<Rightarrow> u8 list \<Rightarrow> Elf32_Phdr \<Rightarrow> nemu \<Rightarrow> unit res" where
  "load_segment cfg buf ph s =
     bind_r (vaddr_map cfg (p_vaddr ph) (p_memsz ph) s)
       (\<lambda>ptr s. if p_memsz ph < p_filesz ph \<or> length buf < unat (p_offset ph) + unat (p_filesz ph)
                then Inl (UndefinedBehaviour, s)
                else let s = host_copy ptr (take (unat (p_filesz ph)) (drop (unat (p_offset ph)) buf)) s
                     in Inr ((), host_copy (fst ptr, snd ptr + unat (p_filesz ph))
                                   (replicate (unat (p_memsz ph - p_filesz ph)) 0) s))"

text \<open>
  Header \<open>i\<close> is at \<^verbatim>\<open>i * e_phentsize + e_phoff\<close>: a product of \<^verbatim>\<open>int\<close>s, an unsigned sum,
  and an \<^verbatim>\<open>int\<close> again; \<open>fsize\<close> is the \<^verbatim>\<open>int\<close> that holds the size of the file.
\<close>

definition load_phdr :: "config \<Rightarrow> u8 list \<Rightarrow> u32 \<Rightarrow> nat \<Rightarrow> nemu \<Rightarrow> unit res" where
  "load_phdr cfg buf fsz i s =
     (let e_phentsize = unat (rd16 buf 42);
          phdr_off = of_nat (i * e_phentsize) + rd32 buf 28;
          ph = phdr_at buf (unat phdr_off)
      in if 2 ^ 31 \<le> i * e_phentsize then Inl (UndefinedBehaviour, s)
         else if \<not> phdr_off <s fsz then Inl (Panic, s)
         else if phdr_off <s 0 \<or> length buf < unat phdr_off + 32 then Inl (UndefinedBehaviour, s)
         else if \<not> p_offset ph < fsz then Inl (Panic, s)
         else if p_type ph \<noteq> PT_LOAD then Inr ((), s)
         else load_segment cfg buf ph s)"

fun load_phdrs :: "config \<Rightarrow> u8 list \<Rightarrow> u32 \<Rightarrow> nat list \<Rightarrow> nemu \<Rightarrow> unit res" where
  "load_phdrs cfg buf fsz [] s = Inr ((), s)"
| "load_phdrs cfg buf fsz (i # is) s = bind_r (load_phdr cfg buf fsz i s) (\<lambda>_. load_phdrs cfg buf fsz is)"

text \<open>
  The checks of the header and the program headers of the buffer. The fields are read before the
  checks, so that a file shorter than a header is read past its end. \<^verbatim>\<open>EI_CLASS\<close> is byte 4 and
  \<^verbatim>\<open>EI_DATA\<close> byte 5 of the identification, \<^verbatim>\<open>EM_MIPS\<close> is 8.
\<close>

definition load_elf_image :: "config \<Rightarrow> u8 list \<Rightarrow> u32 \<Rightarrow> monitor \<Rightarrow> (unit, monitor) outcome" where
  "load_elf_image cfg buf fsz m =
     (if length buf < 52 then Inl (UndefinedBehaviour, m)
      else let e_entry = rd32 buf 24;
               m = m\<lparr>elf_entry := e_entry\<rparr>
           in if rd32 buf 0 \<noteq> 0x464c457f then Inl (Panic, m)
              else if buf ! 4 \<noteq> 1 then Inl (Panic, m)
              else if buf ! 5 \<noteq> 1 then Inl (Panic, m)
              else if rd16 buf 18 \<noteq> 8 then Inl (Panic, m)
              else bind_r (in_nemu (load_phdrs cfg buf fsz [0 ..< unat (rd16 buf 44)]) m)
                     (\<lambda>_ m. if e_entry \<noteq> CPU_INIT_PC then in_nemu (load_rom cfg e_entry) m else Inr ((), m)))"

definition load_elf :: "config \<Rightarrow> host_os \<Rightarrow> monitor \<Rightarrow> (unit, monitor) outcome" where
  "load_elf cfg os m =
     (case elf_file m of
        None \<Rightarrow> Inl (Panic, m)
      | Some f \<Rightarrow>
          bind_r (host_call (get_file_size os f) m)
            (\<lambda>sz m. bind_r (host_call (read_file os f) m)
               (\<lambda>r m. case r of
                        None \<Rightarrow> Inl (Panic, m)
                      | Some buf \<Rightarrow> load_elf_image cfg buf (of_nat sz) m)))"

text \<open>The size is cut to 32 bits for the mapping, not for the copy; a missing buffer is not noticed.\<close>

definition load_image :: "config \<Rightarrow> host_os \<Rightarrow> string option \<Rightarrow> u32 \<Rightarrow> monitor \<Rightarrow> (unit, monitor) outcome" where
  "load_image cfg os img vaddr m =
     (case img of
        None \<Rightarrow> Inl (Panic, m)
      | Some f \<Rightarrow>
          bind_r (host_call (get_file_size os f) m)
            (\<lambda>sz m. bind_r (host_call (read_file os f) m)
               (\<lambda>r m. bind_r (in_nemu (vaddr_map cfg vaddr (of_nat sz)) m)
                  (\<lambda>ptr m. case r of
                             None \<Rightarrow> Inl (UndefinedBehaviour, m)
                           | Some buf \<Rightarrow>
                               if sz < 2 ^ 32 then Inr ((), m\<lparr>mon_nemu := host_copy ptr (take sz buf) (mon_nemu m)\<rparr>)
                               else Inl (UndefinedBehaviour, m)))))"


definition assume_elf_file :: "monitor \<Rightarrow> (unit, monitor) outcome" where
  "assume_elf_file m =
     (case img_file m of
        None \<Rightarrow> Inl (UndefinedBehaviour, m)
      | Some f \<Rightarrow>
          if CHR ''.'' \<in> set f
          then let base = rev (tl (dropWhile (\<lambda>c. c \<noteq> CHR ''.'') (rev f)))
               in Inr ((), m\<lparr>img_file := Some base, elf_file := Some base\<rparr>)
          else Inr ((), m))"

section \<open>Options of the devices\<close>

fun dev_name :: "device \<Rightarrow> string" where
  "dev_name ddr_dev = ''ddr''"
| "dev_name bram_dev = ''block-ram''"
| "dev_name blackhole_dev = ''<nemu-tlb-hole>''"
| "dev_name nemu_trap_dev = ''nemu-trap''"
| "dev_name nemu_clock_dev = ''nemu-clock''"
| "dev_name nemu_pmu_dev = ''nemu-pmu''"
| "dev_name xlnx_ulite_dev = ''xlnx-ulite''"
| "dev_name xlnx_spi_dev = ''xlnx-spi''"

fun dev_set_fifo_data :: "device \<Rightarrow> (u8 list \<Rightarrow> nemu \<Rightarrow> unit res) option" where
  "dev_set_fifo_data xlnx_ulite_dev = Some (\<lambda>bs s. Inr ((), xlnx_ulite_set_fifo_data bs s))"
| "dev_set_fifo_data _ = None"

fun dev_set_block_data :: "device \<Rightarrow> (u32 \<Rightarrow> u8 list \<Rightarrow> nemu \<Rightarrow> unit res) option" where
  "dev_set_block_data ddr_dev = Some ddr_set_block_data"
| "dev_set_block_data bram_dev = Some bram_set_block_data"
| "dev_set_block_data _ = None"

fun dev_set_blkio_file :: "device \<Rightarrow> (blkio \<Rightarrow> nemu \<Rightarrow> nemu) option" where
  "dev_set_blkio_file xlnx_spi_dev = Some xlnx_spi_set_blkio_file"
| "dev_set_blkio_file _ = None"

text \<open>
  What follows the name of a device and a colon in an option, when the option starts with them. A
  name is compared by \<^verbatim>\<open>memcmp\<close>, which stops at the end of a shorter option because no name
  contains the terminator.
\<close>

definition after_name :: "device \<Rightarrow> string \<Rightarrow> string option" where
  "after_name dev arg =
     (if take (length (dev_name dev)) arg \<noteq> dev_name dev then None
      else case drop (length (dev_name dev)) arg of
             c # rest \<Rightarrow> if c = CHR '':'' then Some rest else None
           | [] \<Rightarrow> None)"

fun parse_fifo_data_option :: "host_os \<Rightarrow> string \<Rightarrow> device list \<Rightarrow> monitor \<Rightarrow> (unit, monitor) outcome" where
  "parse_fifo_data_option os arg [] m = Inl (Panic, m)"
| "parse_fifo_data_option os arg (dev # devs) m =
     (case (after_name dev arg, dev_set_fifo_data dev) of
        (Some f, Some set_data) \<Rightarrow>
          bind_r (host_call (get_file_size os f) m)
            (\<lambda>sz m. bind_r (host_call (read_file os f) m)
               (\<lambda>r m. case r of
                        None \<Rightarrow> Inl (UndefinedBehaviour, m)
                      | Some buf \<Rightarrow> in_nemu (set_data (take sz buf)) m))
      | _ \<Rightarrow> parse_fifo_data_option os arg devs m)"

text \<open>
  \<^verbatim>\<open>strtol\<close>: blanks, a sign, with base 16 an optional \<^verbatim>\<open>0x\<close>, then the longest run of digits,
  the value cut to the range of \<^verbatim>\<open>long\<close>. Without a digit nothing is consumed.
\<close>

definition digit_value :: "char \<Rightarrow> nat" where
  "digit_value c = (let n = of_char c :: nat
     in if 48 \<le> n \<and> n \<le> 57 then n - 48 else if 97 \<le> n \<and> n \<le> 122 then n - 87
        else if 65 \<le> n \<and> n \<le> 90 then n - 55 else 36)"

fun digits :: "nat \<Rightarrow> nat \<Rightarrow> string \<Rightarrow> nat \<times> string" where
  "digits base acc [] = (acc, [])"
| "digits base acc (c # cs) =
     (if digit_value c < base then digits base (acc * base + digit_value c) cs else (acc, c # cs))"

definition is_space :: "char \<Rightarrow> bool" where
  "is_space c \<longleftrightarrow> (let n = of_char c :: nat in n = 32 \<or> 9 \<le> n \<and> n \<le> 13)"

definition has_digit :: "nat \<Rightarrow> string \<Rightarrow> bool" where
  "has_digit base cs \<longleftrightarrow> (case cs of [] \<Rightarrow> False | c # _ \<Rightarrow> digit_value c < base)"

definition strip_0x :: "nat \<Rightarrow> string \<Rightarrow> string" where
  "strip_0x base cs =
     (case cs of
        c # x # rest \<Rightarrow> if base = 16 \<and> c = CHR ''0'' \<and> x \<in> {CHR ''x'', CHR ''X''} \<and> has_digit 16 rest then rest else cs
      | _ \<Rightarrow> cs)"

definition strtol :: "string \<Rightarrow> nat \<Rightarrow> int \<times> string" where
  "strtol nptr base =
     (let cs = dropWhile is_space nptr;
          neg = (cs \<noteq> [] \<and> hd cs = CHR ''-'');
          cs = (if cs \<noteq> [] \<and> hd cs \<in> {CHR ''-'', CHR ''+''} then tl cs else cs);
          cs = strip_0x base cs;
          (n, rest) = digits base 0 cs
      in if \<not> has_digit base cs then (0, nptr)
         else (if neg then max (- (2 ^ 63)) (- int n) else min (2 ^ 63 - 1) (int n), rest))"

definition option_base :: "string \<Rightarrow> nat" where
  "option_base addr_s =
     (case addr_s of
        c # rest \<Rightarrow> if c = CHR ''0'' then (case rest of x # _ \<Rightarrow> if x \<in> {CHR ''x'', CHR ''X''} then 16 else 8 | [] \<Rightarrow> 8) else 10
      | [] \<Rightarrow> 10)"

fun parse_block_data_option :: "host_os \<Rightarrow> string \<Rightarrow> device list \<Rightarrow> monitor \<Rightarrow> (unit, monitor) outcome" where
  "parse_block_data_option os arg [] m = Inl (Panic, m)"
| "parse_block_data_option os arg (dev # devs) m =
     (case (after_name dev arg, dev_set_block_data dev) of
        (Some addr_s, Some set_data) \<Rightarrow>
          (let (n, file_s) = strtol addr_s (option_base addr_s);
               addr = word_of_int n
           in case file_s of
                c # f \<Rightarrow>
                  if c \<noteq> CHR '':'' then Inl (Panic, m)
                  else bind_r (host_call (get_file_size os f) m)
                    (\<lambda>sz m. bind_r (host_call (read_file os f) m)
                       (\<lambda>r m. case r of
                                None \<Rightarrow> Inl (Panic, m)
                              | Some buf \<Rightarrow>
                                  if dev_size dev \<le> addr \<or> dev_size dev \<le> addr + of_nat sz then Inl (Panic, m)
                                  else in_nemu (set_data addr (take sz buf)) m))
              | [] \<Rightarrow> Inl (Panic, m))
      | _ \<Rightarrow> parse_block_data_option os arg devs m)"

fun parse_blkio_file_option :: "host_os \<Rightarrow> string \<Rightarrow> device list \<Rightarrow> monitor \<Rightarrow> (unit, monitor) outcome" where
  "parse_blkio_file_option os arg [] m = Inl (Panic, m)"
| "parse_blkio_file_option os arg (dev # devs) m =
     (case (after_name dev arg, dev_set_blkio_file dev) of
        (Some f, Some set_file) \<Rightarrow>
          Inr ((), m\<lparr>mon_nemu := set_file (case os_file os f of None \<Rightarrow> Missing | Some c \<Rightarrow> Contents c) (mon_nemu m)\<rparr>)
      | _ \<Rightarrow> parse_blkio_file_option os arg devs m)"

section \<open>The command line\<close>

text \<open>
  The codes of the options: letters for those with a short form, numbers after 128 for the others.
  \<^verbatim>\<open>getopt_long\<close> reports them one by one, each with its argument.
\<close>

abbreviation (input) OPT_BLOCK_DATA :: nat where "OPT_BLOCK_DATA \<equiv> 129"
abbreviation (input) OPT_BLKIO_FILE :: nat where "OPT_BLKIO_FILE \<equiv> 130"
abbreviation (input) OPT_FIFO_DATA :: nat where "OPT_FIFO_DATA \<equiv> 131"
abbreviation (input) OPT_DIFF_TEST :: nat where "OPT_DIFF_TEST \<equiv> 132"
abbreviation (input) OPT_BOOT_CMDLINE :: nat where "OPT_BOOT_CMDLINE \<equiv> 133"
abbreviation (input) OPT_PRINT_DEVICES :: nat where "OPT_PRINT_DEVICES \<equiv> 134"

definition long_options :: "(string \<times> bool \<times> nat) list" where
  "long_options = [(''batch'', False, of_char CHR ''b''), (''commit'', False, of_char CHR ''c''),
     (''elf'', True, of_char CHR ''e''), (''image'', True, of_char CHR ''i''), (''symbol'', True, of_char CHR ''S''),
     (''help'', False, of_char CHR ''h''), (''block-data'', True, OPT_BLOCK_DATA), (''blkio-file'', True, OPT_BLKIO_FILE),
     (''fifo-data'', True, OPT_FIFO_DATA), (''diff-test'', False, OPT_DIFF_TEST), (''cmdline'', True, OPT_BOOT_CMDLINE),
     (''print-devices'', False, OPT_PRINT_DEVICES)]"

text \<open>\<^verbatim>\<open>work_mode |= ...\<close> on the values that occur.\<close>

fun or_MODE_BATCH :: "work_mode_t \<Rightarrow> work_mode_t" where
  "or_MODE_BATCH MODE_GDB = MODE_BATCH"
| "or_MODE_BATCH w = w"

fun or_MODE_LOG :: "work_mode_t \<Rightarrow> work_mode_t" where
  "or_MODE_LOG MODE_DIFF = MODE_DIFF_LOG"
| "or_MODE_LOG MODE_DIFF_LOG = MODE_DIFF_LOG"
| "or_MODE_LOG _ = MODE_LOG"

fun or_MODE_DIFF :: "work_mode_t \<Rightarrow> work_mode_t" where
  "or_MODE_DIFF MODE_LOG = MODE_DIFF_LOG"
| "or_MODE_DIFF MODE_DIFF_LOG = MODE_DIFF_LOG"
| "or_MODE_DIFF _ = MODE_DIFF"

definition on_mode :: "(work_mode_t \<Rightarrow> work_mode_t) \<Rightarrow> monitor \<Rightarrow> monitor" where
  "on_mode f m = m\<lparr>mon_nemu := (mon_nemu m)\<lparr>work_mode := f (work_mode (mon_nemu m))\<rparr>\<rparr>"

definition parse_opt :: "config \<Rightarrow> host_os \<Rightarrow> device list \<Rightarrow> nat \<Rightarrow> string \<Rightarrow> monitor \<Rightarrow> (unit, monitor) outcome" where
  "parse_opt cfg os devs opt optarg m =
     (if opt = of_char CHR ''s'' then Inr ((), m\<lparr>symbol_file := Some optarg\<rparr>)
      else if opt = of_char CHR ''b'' then Inr ((), on_mode or_MODE_BATCH m)
      else if opt = of_char CHR ''c'' then Inr ((), on_mode or_MODE_LOG m)
      else if opt = of_char CHR ''e'' then Inr ((), if elf_file m \<noteq> None then m else m\<lparr>elf_file := Some optarg\<rparr>)
      else if opt = of_char CHR ''i'' then Inr ((), if img_file m \<noteq> None then m else m\<lparr>img_file := Some optarg\<rparr>)
      else if opt = OPT_BLOCK_DATA then parse_block_data_option os optarg devs m
      else if opt = OPT_BLKIO_FILE then parse_blkio_file_option os optarg devs m
      else if opt = OPT_FIFO_DATA then parse_fifo_data_option os optarg devs m
      else if opt = OPT_DIFF_TEST \<and> CONFIG_DIFF_WITH_QEMU cfg then Inr ((), on_mode or_MODE_DIFF m)
      else if opt = OPT_BOOT_CMDLINE then Inr ((), m\<lparr>boot_cmdline := map of_char optarg\<rparr>)
      else Inl (NemuExit, m))"

fun parse_args :: "config \<Rightarrow> host_os \<Rightarrow> device list \<Rightarrow> (nat \<times> string) list \<Rightarrow> monitor \<Rightarrow> (unit, monitor) outcome" where
  "parse_args cfg os devs [] m = Inr ((), if symbol_file m = None then m\<lparr>symbol_file := elf_file m\<rparr> else m)"
| "parse_args cfg os devs ((opt, optarg) # opts) m =
     bind_r (parse_opt cfg os devs opt optarg m) (\<lambda>_. parse_args cfg os devs opts)"

section \<open>Start-up\<close>

text \<open>
  The handler of \<^verbatim>\<open>SIGINT\<close>, which is installed outside batch mode, stops a run. Whether it is
  installed, and the profiler, are not part of this state.
\<close>

definition gdb_sigint_handler :: "monitor \<Rightarrow> monitor" where
  "gdb_sigint_handler m = m\<lparr>mon_nemu := (mon_nemu m)\<lparr>nemu_state := NEMU_STOP\<rparr>\<rparr>"

definition init_monitor :: "config \<Rightarrow> host_os \<Rightarrow> monitor \<Rightarrow> (work_mode_t, monitor) outcome" where
  "init_monitor cfg os m =
     bind_r (if elf_file m \<noteq> None then load_elf cfg os m else load_image cfg os (img_file m) CPU_INIT_PC m)
       (\<lambda>_ m. bind_r (case symbol_file m of
                         Some f \<Rightarrow> in_elfsym (elfsym_load f (os_file os f)) m
                       | None \<Rightarrow> Inr ((), m))
          (\<lambda>_ m. bind_r (in_nemu (init_cpu cfg (boot_cmdline m) CPU_INIT_PC) m)
             (\<lambda>_ m. Inr (work_mode (mon_nemu m), m))))"

text \<open>What \<^verbatim>\<open>main\<close> goes on with.\<close>

datatype main_loop = Run_difftest | Run_cpu_exec | Run_gdb_mainloop

definition main_dispatch :: "work_mode_t \<Rightarrow> main_loop" where
  "main_dispatch mode =
     (if mode_is_batch mode then (if mode = MODE_DIFF then Run_difftest else Run_cpu_exec) else Run_gdb_mainloop)"

definition nemu_main :: "config \<Rightarrow> host_os \<Rightarrow> device list \<Rightarrow> (nat \<times> string) list \<Rightarrow> monitor \<Rightarrow> (main_loop, monitor) outcome" where
  "nemu_main cfg os devs opts m =
     bind_r (parse_args cfg os devs opts m)
       (\<lambda>_ m. bind_r (in_nemu (init_mmio cfg devs) m)
          (\<lambda>_ m. bind_r (init_monitor cfg os m) (\<lambda>mode m. Inr (main_dispatch mode, m))))"

text \<open>The interface for a program that drives the emulator as a library.\<close>

definition napi_init :: "config \<Rightarrow> host_os \<Rightarrow> device list \<Rightarrow> (nat \<times> string) list \<Rightarrow> monitor \<Rightarrow> (unit, monitor) outcome" where
  "napi_init cfg os devs opts m =
     bind_r (parse_args cfg os devs opts m)
       (\<lambda>_ m. bind_r (in_nemu (init_mmio cfg devs) m)
          (\<lambda>_ m. bind_r (init_monitor cfg os m) (\<lambda>mode m. Inr ((), m))))"

definition napi_exec :: "float_ops \<Rightarrow> config \<Rightarrow> u64 \<Rightarrow> monitor \<Rightarrow> (unit, monitor) outcome" where
  "napi_exec fo cfg n = in_nemu (cpu_exec fo cfg n)"

definition napi_mmio_peek :: "config \<Rightarrow> u32 \<Rightarrow> nat \<Rightarrow> monitor \<Rightarrow> (u32, monitor) outcome" where
  "napi_mmio_peek cfg a len = in_nemu (paddr_peek cfg a len)"

fun napi_map_dev :: "string \<Rightarrow> u32 \<Rightarrow> u32 \<Rightarrow> device list \<Rightarrow> monitor \<Rightarrow> (host_ptr option, monitor) outcome" where
  "napi_map_dev name addr sz [] m = Inr (None, m)"
| "napi_map_dev name addr sz (dev # devs) m =
     (if dev_name dev = name
      then (case dev_map dev of
              None \<Rightarrow> Inl (UndefinedBehaviour, m)
            | Some mp \<Rightarrow> bind_r (in_nemu (mp addr sz) m) (\<lambda>p m. Inr (Some p, m)))
      else napi_map_dev name addr sz devs m)"

definition napi_addr_is_valid :: "u32 \<Rightarrow> monitor \<Rightarrow> bool" where
  "napi_addr_is_valid addr m \<longleftrightarrow> find_device addr (mon_nemu m) \<noteq> None"

definition napi_set_irq :: "int \<Rightarrow> bool \<Rightarrow> monitor \<Rightarrow> (unit, monitor) outcome" where
  "napi_set_irq irqno val = in_nemu (nemu_set_irq irqno val)"

definition napi_get_gpr :: "nat \<Rightarrow> monitor \<Rightarrow> u32" where
  "napi_get_gpr i m = gpr (cpu (mon_nemu m)) i"

definition napi_set_gpr :: "nat \<Rightarrow> u32 \<Rightarrow> monitor \<Rightarrow> monitor" where
  "napi_set_gpr i val m = m\<lparr>mon_nemu := set_gpr i val (mon_nemu m)\<rparr>"


section \<open>Naming a device\<close>

text \<open>An option that starts with the name of a device and a colon belongs to this device only.\<close>

lemma after_name_same: "after_name d (dev_name d @ CHR '':'' # rest) = Some rest"
  by (simp add: after_name_def)

lemma after_name_other: "d \<noteq> e \<Longrightarrow> after_name d (dev_name e @ CHR '':'' # rest) = None"
  by (cases d; cases e) (simp_all add: after_name_def)

text \<open>Hexadecimal numbers.\<close>

definition hex_value :: "string \<Rightarrow> nat" where
  "hex_value hs = foldl (\<lambda>a c. a * 16 + digit_value c) 0 hs"

definition is_hex :: "string \<Rightarrow> bool" where
  "is_hex hs \<longleftrightarrow> hs \<noteq> [] \<and> list_all (\<lambda>c. digit_value c < 16) hs"

lemma digits_colon:
  "list_all (\<lambda>c. digit_value c < base) hs \<Longrightarrow> base \<le> 36 \<Longrightarrow>
     digits base acc (hs @ CHR '':'' # rest) = (foldl (\<lambda>a c. a * base + digit_value c) acc hs, CHR '':'' # rest)"
  by (induction hs arbitrary: acc) (simp_all add: digit_value_def)

lemma strtol_hex:
  assumes "is_hex hs" and "hex_value hs < 2 ^ 63"
  shows "strtol (''0x'' @ hs @ CHR '':'' # f) (option_base (''0x'' @ hs @ CHR '':'' # f)) = (int (hex_value hs), CHR '':'' # f)"
proof -
  obtain c cs where hs: "hs = c # cs" "digit_value c < 16" using assms(1) by (cases hs) (auto simp: is_hex_def)
  have "strip_0x 16 (''0x'' @ hs @ CHR '':'' # f) = hs @ CHR '':'' # f"
    using hs by (simp add: strip_0x_def has_digit_def)
  moreover have "dropWhile is_space (''0x'' @ hs @ CHR '':'' # f) = ''0x'' @ hs @ CHR '':'' # f"
    by (simp add: is_space_def)
  moreover have "has_digit 16 (hs @ CHR '':'' # f)" using hs by (simp add: has_digit_def)
  moreover have "option_base (''0x'' @ hs @ CHR '':'' # f) = 16" by (simp add: option_base_def)
  moreover have "int (hex_value hs) \<le> 2 ^ 63 - 1"
  proof -
    have "int (hex_value hs) < int (2 ^ 63)" using assms(2) by (simp only: of_nat_less_iff)
    then show ?thesis by simp
  qed
  ultimately show ?thesis
    using digits_colon [of 16 hs 0 f] assms(1) by (simp add: strtol_def Let_def is_hex_def hex_value_def)
qed


lemma parse_block_data_found:
  assumes "d \<in> set devs" and "dev_set_block_data d \<noteq> None"
  shows "parse_block_data_option os (dev_name d @ CHR '':'' # rest) devs m =
     parse_block_data_option os (dev_name d @ CHR '':'' # rest) [d] m"
  using assms(1)
proof (induction devs)
  case (Cons e devs)
  show ?case
  proof (cases "e = d")
    case True
    then show ?thesis using assms(2) by (auto simp: after_name_same)
  next
    case False
    then show ?thesis using Cons by (simp add: after_name_other split: option.split)
  qed
qed simp

lemma set_block_data_ram:
  assumes "(d, r) \<in> {(ddr_dev, Ram_ddr), (bram_dev, Ram_bram)}" and "unat a + length bs \<le> unat (dev_size d)"
  obtains set_data where "dev_set_block_data d = Some set_data" and "set_data a bs s = Inr ((), host_copy (r, unat a) bs s)"
proof -
  have "unat (dev_size d) < 2 ^ 31" using assms(1) by auto
  then have "unat (of_nat (length bs) :: u32) = length bs" using assms(2) by (intro unat_of_nat_u32) simp
  then have "check_ioaddr a (of_nat (length bs)) (dev_size d) s = Inr ((), s)"
    using assms(2) by (intro check_ioaddr_ok) simp
  then show ?thesis
    using assms(1) that by (auto simp: ddr_set_block_data_def bram_set_block_data_def host_copy_def)
qed

section \<open>Properties\<close>

text \<open>
  Initialising memory from the command line. In an option that names one of the memories, an
  address and a file, the device is found whatever the other devices are and in whatever order they
  registered, and the contents of the file are stored at this offset of the device, nothing else
  changing. A file that does not leave at least one byte of the device free is refused.
\<close>

theorem block_data_option:
  assumes "(d, r) \<in> {(ddr_dev, Ram_ddr), (bram_dev, Ram_bram)}" and "d \<in> set devs" and "is_hex hs"
    and "get_file_size os f = Some (length buf)" and "read_file os f = Some (Some buf)"
    and "hex_value hs + length buf < 2 ^ 32"
  shows "parse_block_data_option os (dev_name d @ '':0x'' @ hs @ '':'' @ f) devs m =
     (if hex_value hs + length buf < unat (dev_size d)
      then Inr ((), m\<lparr>mon_nemu := host_copy (r, hex_value hs) buf (mon_nemu m)\<rparr>)
      else Inl (Panic, m))"
proof -
  let ?a = "word_of_int (int (hex_value hs)) :: u32"
  have a: "unat ?a = hex_value hs" "unat (of_nat (length buf) :: u32) = length buf"
    using assms(6) unat_of_nat_u32 [of "hex_value hs"] by (simp_all add: unat_of_nat_u32)
  have "unat (?a + of_nat (length buf)) = hex_value hs + length buf"
    using unat_add_small [of ?a "of_nat (length buf)"] a assms(6) by simp
  then have cond: "dev_size d \<le> ?a \<or> dev_size d \<le> ?a + of_nat (length buf) \<longleftrightarrow> \<not> hex_value hs + length buf < unat (dev_size d)"
    using a by (auto simp: word_le_nat_alt)
  have "hex_value hs < 2 ^ 63" using assms(6) by simp
  note st = strtol_hex [OF assms(3) this, of f]
  show ?thesis
  proof (cases "hex_value hs + length buf < unat (dev_size d)")
    case True
    then obtain set_data where sd: "dev_set_block_data d = Some set_data"
      "set_data ?a buf (mon_nemu m) = Inr ((), host_copy (r, hex_value hs) buf (mon_nemu m))"
      using set_block_data_ram [OF assms(1), of ?a buf] a by auto
    then show ?thesis
      using parse_block_data_found [OF assms(2), of os "''0x'' @ hs @ '':'' @ f" m] st cond True assms(4,5) after_name_same
      by (simp add: host_call_def in_nemu_def)
  next
    case False
    have "dev_set_block_data d \<noteq> None" using assms(1) by auto
    then show ?thesis
      using parse_block_data_found [OF assms(2), of os "''0x'' @ hs @ '':'' @ f" m] st cond False assms(4,5) after_name_same
      by (auto simp: host_call_def)
  qed
qed


theorem block_data_option_witness:
  "\<exists>os. \<forall>m. parse_block_data_option os ''block-ram:0x1F0:a.bin'' [xlnx_spi_dev, ddr_dev, bram_dev] m =
     Inr ((), m\<lparr>mon_nemu := host_copy (Ram_bram, 0x1F0) [1, 2, 3] (mon_nemu m)\<rparr>)"
proof -
  let ?os = "\<lparr>os_lstat = (\<lambda>f. (False, 3)), os_readlink = (\<lambda>f. f), os_open = (\<lambda>f. True),
     os_read = (\<lambda>f k p n. Some (take n (drop p [1, 2, 3]))), os_malloc = (\<lambda>n. replicate n 0), os_file = (\<lambda>f. None)\<rparr>"
  have "get_file_size ?os ''a.bin'' = Some (length [1, 2, 3 :: u8])" "read_file ?os ''a.bin'' = Some (Some [1, 2, 3])"
    using read_file_whole [of ?os "''a.bin''" "[1, 2, 3]"] by (simp_all add: reads_whole_def)
  then show ?thesis
    using block_data_option [of bram_dev Ram_bram "[xlnx_spi_dev, ddr_dev, bram_dev]" "''1F0''" ?os "''a.bin''" "[1, 2, 3]"]
    by (intro exI [of _ ?os]) (simp add: is_hex_def hex_value_def digit_value_def)
qed

text \<open>The options that only record something, and what the last and the first one of a kind gave.\<close>

definition plain_opts :: "config \<Rightarrow> (nat \<times> string) list \<Rightarrow> bool" where
  "plain_opts cfg opts \<longleftrightarrow> list_all (\<lambda>(opt, _).
     opt \<in> {of_char CHR ''s'', of_char CHR ''b'', of_char CHR ''c'', of_char CHR ''e'', of_char CHR ''i'', OPT_BOOT_CMDLINE} \<or>
     opt = OPT_DIFF_TEST \<and> CONFIG_DIFF_WITH_QEMU cfg) opts"

fun first_arg :: "nat \<Rightarrow> (nat \<times> string) list \<Rightarrow> string option \<Rightarrow> string option" where
  "first_arg k [] d = d"
| "first_arg k ((opt, arg) # opts) d = (if opt = k then Some arg else first_arg k opts d)"

definition last_arg :: "nat \<Rightarrow> (nat \<times> string) list \<Rightarrow> 'a \<Rightarrow> (string \<Rightarrow> 'a) \<Rightarrow> 'a" where
  "last_arg k opts d g = (case first_arg k (rev opts) None of None \<Rightarrow> d | Some x \<Rightarrow> g x)"

lemma first_arg_append: "first_arg k (xs @ ys) d = first_arg k xs (first_arg k ys d)"
  by (induction xs) auto

lemma first_arg_or: "first_arg k xs (Some y) = (case first_arg k xs None of None \<Rightarrow> Some y | Some x \<Rightarrow> Some x)"
  by (induction xs) auto

lemma last_arg_simps [simp]:
  "last_arg k [] d g = d"
  "last_arg k ((opt, arg) # opts) d g = last_arg k opts (if opt = k then g arg else d) g"
  by (auto simp: last_arg_def first_arg_append first_arg_or split: option.splits)

definition given :: "nat \<Rightarrow> (nat \<times> string) list \<Rightarrow> bool" where
  "given k opts \<longleftrightarrow> k \<in> fst ` set opts"

text \<open>The mode: batch, log and differential testing are each switched on by their option.\<close>

definition mode_of :: "bool \<Rightarrow> bool \<Rightarrow> bool \<Rightarrow> work_mode_t" where
  "mode_of batch log diff = (if log \<and> diff then MODE_DIFF_LOG else if log then MODE_LOG else if diff then MODE_DIFF
     else if batch then MODE_BATCH else MODE_GDB)"


lemma mode_of_or:
  "or_MODE_BATCH (mode_of b l d) = mode_of True l d" "or_MODE_LOG (mode_of b l d) = mode_of b True d"
  "or_MODE_DIFF (mode_of b l d) = mode_of b l True"
  by (simp_all add: mode_of_def)

lemma first_arg_Some: "first_arg k opts (Some x) \<noteq> None"
  by (induction opts) auto

definition with_opts :: "(nat \<times> string) list \<Rightarrow> bool \<Rightarrow> bool \<Rightarrow> bool \<Rightarrow> monitor \<Rightarrow> monitor" where
  "with_opts opts b l d m = m\<lparr>
     elf_file := (case elf_file m of None \<Rightarrow> first_arg (of_char CHR ''e'') opts None | Some f \<Rightarrow> Some f),
     img_file := (case img_file m of None \<Rightarrow> first_arg (of_char CHR ''i'') opts None | Some f \<Rightarrow> Some f),
     symbol_file := last_arg (of_char CHR ''s'') opts (symbol_file m) Some,
     boot_cmdline := last_arg OPT_BOOT_CMDLINE opts (boot_cmdline m) (map of_char),
     mon_nemu := (mon_nemu m)\<lparr>work_mode := mode_of (b \<or> given (of_char CHR ''b'') opts) (l \<or> given (of_char CHR ''c'') opts)
       (d \<or> given OPT_DIFF_TEST opts)\<rparr>\<rparr>"

lemma parse_args_plain:
  assumes "plain_opts cfg opts" and "work_mode (mon_nemu m) = mode_of b l d"
  shows "parse_args cfg os devs (opts @ rest) m = parse_args cfg os devs rest (with_opts opts b l d m)"
  using assms
proof (induction opts arbitrary: m b l d)
  case Nil
  have "with_opts [] b l d m = m"
    by (rule monitor.equality)
       (simp_all add: with_opts_def given_def Nil.prems(2) [symmetric] split: option.split)
  then show ?case by simp
next
  case (Cons p opts)
  obtain opt arg where p: "p = (opt, arg)" by (cases p)
  have plain: "plain_opts cfg opts" using Cons.prems(1) by (simp add: plain_opts_def)
  note step = Cons.IH [OF plain] p
  consider "opt = of_char CHR ''s''" | "opt = of_char CHR ''b''" | "opt = of_char CHR ''c''" | "opt = of_char CHR ''e''"
    | "opt = of_char CHR ''i''" | "opt = OPT_BOOT_CMDLINE" | "opt = OPT_DIFF_TEST" "CONFIG_DIFF_WITH_QEMU cfg"
    using Cons.prems(1) p by (auto simp: plain_opts_def)
  then show ?case
  proof cases
    case 1
    then show ?thesis
      using step(1) [of "m\<lparr>symbol_file := Some arg\<rparr>" b l d] Cons.prems(2) by (simp add: p parse_opt_def with_opts_def given_def cong: option.case_cong)
  next
    case 2
    then show ?thesis
      using step(1) [of "on_mode or_MODE_BATCH m" True l d] Cons.prems(2)
      by (simp add: p parse_opt_def on_mode_def mode_of_or with_opts_def given_def cong: option.case_cong)
  next
    case 3
    then show ?thesis
      using step(1) [of "on_mode or_MODE_LOG m" b True d] Cons.prems(2)
      by (simp add: p parse_opt_def on_mode_def mode_of_or with_opts_def given_def cong: option.case_cong)
  next
    case 4
    then show ?thesis
      using step(1) [of "if elf_file m \<noteq> None then m else m\<lparr>elf_file := Some arg\<rparr>" b l d] Cons.prems(2)
      by (cases "elf_file m") (simp_all add: p parse_opt_def with_opts_def given_def cong: option.case_cong)
  next
    case 5
    then show ?thesis
      using step(1) [of "if img_file m \<noteq> None then m else m\<lparr>img_file := Some arg\<rparr>" b l d] Cons.prems(2)
      by (cases "img_file m") (simp_all add: p parse_opt_def with_opts_def given_def cong: option.case_cong)
  next
    case 6
    then show ?thesis
      using step(1) [of "m\<lparr>boot_cmdline := map of_char arg\<rparr>" b l d] Cons.prems(2) by (simp add: p parse_opt_def with_opts_def given_def cong: option.case_cong)
  next
    case 7
    then show ?thesis
      using step(1) [of "on_mode or_MODE_DIFF m" b l True] Cons.prems(2)
      by (simp add: p parse_opt_def on_mode_def mode_of_or with_opts_def given_def cong: option.case_cong)
  qed
qed

text \<open>
  What a command line means. Of several ELF files or images the first one counts, of several
  symbol files or kernel command lines the last one; symbols come from the ELF file when no other file is
  named; the mode is the union of what the options ask for, and the rest of the emulator is left
  alone. The debugger serves when none of the modes was asked for, and differential testing runs only without
  the log. The long form of the symbol option, whatever precedes it, prints the help text and exits.
\<close>

theorem command_line:
  assumes "plain_opts cfg opts" and "work_mode (mon_nemu m) = MODE_GDB"
    and "elf_file m = None" and "img_file m = None" and "symbol_file m = None" and "boot_cmdline m = []"
  shows "\<exists>t. parse_args cfg os devs opts m = Inr ((), t) \<and>
     elf_file t = first_arg (of_char CHR ''e'') opts None \<and> img_file t = first_arg (of_char CHR ''i'') opts None \<and>
     symbol_file t = last_arg (of_char CHR ''s'') opts (elf_file t) Some \<and>
     boot_cmdline t = last_arg OPT_BOOT_CMDLINE opts [] (map of_char) \<and>
     (\<exists>w. mon_nemu t = (mon_nemu m)\<lparr>work_mode := w\<rparr> \<and> main_dispatch w =
        (if given OPT_DIFF_TEST opts \<and> \<not> given (of_char CHR ''c'') opts then Run_difftest
         else if given (of_char CHR ''b'') opts \<or> given (of_char CHR ''c'') opts then Run_cpu_exec else Run_gdb_mainloop)) \<and>
     ((''symbol'', has_arg, k) \<in> set long_options \<longrightarrow>
        (\<exists>t. parse_args cfg os devs (opts @ (k, file_arg) # rest) m = Inl (NemuExit, t)))"
proof -
  have mode: "work_mode (mon_nemu m) = mode_of False False False" using assms(2) by (simp add: mode_of_def)
  let ?t = "with_opts opts False False False m"
  note plain = parse_args_plain [OF assms(1) mode, of os devs]
  let ?u = "?t\<lparr>symbol_file := last_arg (of_char CHR ''s'') opts (elf_file ?t) Some\<rparr>"
  have sym: "symbol_file ?t = last_arg (of_char CHR ''s'') opts None Some" by (simp add: with_opts_def assms(5))
  have ok: "parse_args cfg os devs opts m = Inr ((), ?u)"
  proof (cases "last_arg (of_char CHR ''s'') opts None Some")
    case None
    then have "last_arg (of_char CHR ''s'') opts (elf_file ?t) Some = elf_file ?t" by (auto simp: last_arg_def split: option.splits)
    then show ?thesis using plain [of "[]"] sym None by simp
  next
    case (Some x)
    then have "last_arg (of_char CHR ''s'') opts (elf_file ?t) Some = symbol_file ?t"
      using sym by (auto simp: last_arg_def split: option.splits)
    then show ?thesis using plain [of "[]"] sym Some by simp
  qed
  have t: "elf_file ?u = first_arg (of_char CHR ''e'') opts None" "img_file ?u = first_arg (of_char CHR ''i'') opts None"
    "boot_cmdline ?u = last_arg OPT_BOOT_CMDLINE opts [] (map of_char)" "symbol_file ?u = last_arg (of_char CHR ''s'') opts (elf_file ?u) Some"
    "mon_nemu ?u = (mon_nemu m)\<lparr>work_mode := mode_of (given (of_char CHR ''b'') opts) (given (of_char CHR ''c'') opts) (given OPT_DIFF_TEST opts)\<rparr>"
    by (simp_all add: with_opts_def assms(3,4,6))
  have dispatch: "main_dispatch (mode_of b l d) =
      (if d \<and> \<not> l then Run_difftest else if b \<or> l then Run_cpu_exec else Run_gdb_mainloop)" for b l d
    by (simp add: mode_of_def main_dispatch_def)
  have "parse_args cfg os devs ((k, file_arg) # rest) ?t = Inl (NemuExit, ?t)" if "(''symbol'', has_arg, k) \<in> set long_options"
    using that by (simp add: long_options_def parse_opt_def)
  then have "\<exists>t. parse_args cfg os devs (opts @ (k, file_arg) # rest) m = Inl (NemuExit, t)" if "(''symbol'', has_arg, k) \<in> set long_options"
    using that plain [of "(k, file_arg) # rest"] by (simp del: parse_args.simps)
  then show ?thesis using ok t dispatch by blast
qed


definition monitor_globals :: monitor where
  "monitor_globals = \<lparr>mon_nemu = nemu_globals MODE_GDB (\<lambda>_. 0) 0, mon_elfsym = \<lparr>es_file = [], es_strtab = None, es_symtab = None,
     es_nr_symtab_entry = 0, es_strtab_size = 0, es_addr2sym_cache = None\<rparr>, elf_file = None, symbol_file = None,
     boot_cmdline = [], img_file = None, elf_entry = CPU_INIT_PC\<rparr>"

theorem command_line_witness:
  "\<forall>os. \<exists>t. parse_args mips32r1_defconfig os defconfig_devs
       [(98, []), (101, ''a.elf''), (101, ''b.elf''), (115, ''k''), (115, ''vmlinux''), (99, [])] monitor_globals = Inr ((), t) \<and>
     elf_file t = Some ''a.elf'' \<and> symbol_file t = Some ''vmlinux'' \<and> boot_cmdline t = []"
proof
  fix os
  let ?opts = "[(98, []), (101, ''a.elf''), (101, ''b.elf''), (115, ''k''), (115, ''vmlinux''), (99, [])]"
  have "plain_opts mips32r1_defconfig ?opts" by (simp add: plain_opts_def)
  then show "\<exists>t. parse_args mips32r1_defconfig os defconfig_devs ?opts monitor_globals = Inr ((), t) \<and>
     elf_file t = Some ''a.elf'' \<and> symbol_file t = Some ''vmlinux'' \<and> boot_cmdline t = []"
    using command_line [of mips32r1_defconfig ?opts monitor_globals os defconfig_devs True 0 "[]" "[]"]
    by (simp add: monitor_globals_def nemu_globals_def) blast
qed

end
