(* ===== verification/Boot.thy ===== *)
theory Boot
  imports Monitor
begin

text \<open>
  From the command line to the first instruction of a program: what \<^verbatim>\<open>load_elf\<close> leaves in
  memory, and that the code of \<^verbatim>\<open>load_rom\<close>, run by the processor from its reset address, arrives
  at the entry point.
\<close>

section \<open>The instructions of the boot code\<close>

abbreviation (input) lui_w :: "nat \<Rightarrow> u16 \<Rightarrow> u32" where "lui_w rt imm \<equiv> mk_I 0xf 0 rt imm"
abbreviation (input) ori_w :: "nat \<Rightarrow> nat \<Rightarrow> u16 \<Rightarrow> u32" where "ori_w rt rs imm \<equiv> mk_I 0xd rs rt imm"
abbreviation (input) jr_w :: "nat \<Rightarrow> u32" where "jr_w rs \<equiv> mk_R 0 rs 0 0 0 8"
abbreviation (input) nop_w :: u32 where "nop_w \<equiv> mk_R 0 0 0 0 0 0"

lemma mk_I_imm: "mk_I opc rs rt imm = mk_I opc rs rt 0 OR ucast imm"
  by (rule bit_eqI) (auto simp: mk_I_def bit_bf_set bit_simps dest: bit_imp_le_length)

lemma rom_code_words: "rom_code e = [lui_w 8 (ucast (drop_bit 16 e)), ori_w 8 8 (ucast e), jr_w 8, nop_w]"
proof -
  have zero: "mk_I 0xf 0 8 0 = 0x3c080000" "mk_I 0xd 8 8 0 = 0x35080000"
    by (simp_all add: mk_I_def bf_set_def mask_eq_exp_minus_1)
  have "ucast (ucast (drop_bit 16 e) :: u16) = drop_bit 16 e" "ucast (ucast e :: u16) = e AND 0xFFFF"
    by (rule bit_eqI; auto simp: and_mask_u32 bit_simps dest: bit_imp_le_length)+
  then have "0x3c080000 OR drop_bit 16 e = lui_w 8 (ucast (drop_bit 16 e))" "0x35080000 OR (e AND 0xFFFF) = ori_w 8 8 (ucast e)"
    using mk_I_imm [of "0xf" 0 8 "ucast (drop_bit 16 e)"] mk_I_imm [of "0xd" 8 8 "ucast e"] zero by simp_all
  moreover have "(0x01000008 :: u32) = jr_w 8" "(0 :: u32) = nop_w"
    by (simp_all add: mk_R_def bf_set_def mask_eq_exp_minus_1)
  ultimately show ?thesis by (simp add: rom_code_def)
qed

lemma exec_lui:
  "rt < 32 \<Longrightarrow> exec_inst fo cfg (lui_w rt imm) s =
     Inr ((), on_cpu (\<lambda>c. inst_end cfg (c\<lparr>gpr := (gpr c)(rt := push_bit 16 (ucast imm))\<rparr>)) s)"
  by (simp add: exec_inst_handler decode_opcode mk_I_fields opcode_table_def exec_lui_def fin_def finish_handler_def
      set_GR_TV_def set_gpr_def)

lemma exec_ori:
  "rs < 32 \<Longrightarrow> rt < 32 \<Longrightarrow> exec_inst fo cfg (ori_w rt rs imm) s =
     Inr ((), on_cpu (\<lambda>c. inst_end cfg (c\<lparr>gpr := (gpr c)(rt := gpr c rs OR ucast imm)\<rparr>)) s)"
  by (simp add: exec_inst_handler decode_opcode mk_I_fields opcode_table_def exec_ori_def fin_def finish_handler_def
      set_GR_TV_def set_gpr_def on_cpu_def)

lemma exec_jr:
  "CONFIG_DELAYSLOT cfg \<Longrightarrow> rs < 32 \<Longrightarrow> exec_inst fo cfg (jr_w rs) s =
     Inr ((), on_cpu (\<lambda>c. c\<lparr>br_target := gpr c rs, is_delayslot := True, pc := pc c + 4\<rparr>) s)"
  by (simp add: exec_inst_handler decode_special mk_R_fields special_table_def exec_jr_def finish_handler_def
      prepare_delayslot_def set_br_target_def on_cpu_def)

lemma exec_nop:
  "exec_inst fo cfg nop_w s = Inr ((), on_cpu (\<lambda>c. inst_end cfg (c\<lparr>gpr := (gpr c)(0 := gpr c 0)\<rparr>)) s)"
  by (simp add: exec_inst_handler decode_special mk_R_fields special_table_def exec_sll_def fin_def finish_handler_def
      set_GR_DV_def set_gpr_def on_cpu_def)

section \<open>Running from the block RAM with interrupts masked\<close>

lemma tick_frame [simp]:
  "pc (tick cfg c) = pc c" "gpr (tick cfg c) = gpr c" "br_target (tick cfg c) = br_target c"
  "is_delayslot (tick cfg c) = is_delayslot c" "has_exception (tick cfg c) = has_exception c"
  "cp0_get status_IM (tick cfg c) = cp0_get status_IM c"
  by (simp_all add: tick_def Let_def)

lemma masked_check:
  assumes "\<not> has_exception (cpu s)" and "cp0_get status_IM (cpu s) = 0"
  shows "check_exception mips32r1_defconfig s = Inr ((), on_cpu (tick mips32r1_defconfig) s)"
  using assms check_exception_intr [of mips32r1_defconfig s]
  by (simp add: defconfig_flags intr_unmasked_iff)

lemma bram_fetches:
  assumes "board s" and "pc (cpu s) = bram_addr k" and "bram_addr k AND 3 = 0" and "k + 4 \<le> 0x100000"
  shows "\<exists>m. fetches mips32r1_defconfig s (mem_read32 (bram s) k) ((set_gpr 0 0 s)\<lparr>mmu_cache := m\<rparr>)"
proof -
  have b: "board (set_gpr 0 0 s)" using assms(1) by simp
  have k: "k < 0x100000" using assms(4) by simp
  note loc = board_bram [OF b bram_addr(1,2) [OF k] assms(4)]
  show ?thesis
    using bram_ram.vaddr_read_in_ram [OF _ loc(1)] loc(2) assms(2,3)
    by (simp add: fetches_def mem_read32_word set_gpr_other)
qed

lemma bram_step:
  assumes "board s" and "pc (cpu s) = bram_addr k" and "bram_addr k AND 3 = 0" and "k + 4 \<le> 0x100000"
    and "mem_read32 (bram s) k = w" and "\<And>u. exec_inst fo mips32r1_defconfig w u = Inr ((), on_cpu f u)"
    and "\<not> has_exception (f ((cpu s)\<lparr>gpr := (gpr (cpu s))(0 := 0)\<rparr>))"
    and "cp0_get status_IM (f ((cpu s)\<lparr>gpr := (gpr (cpu s))(0 := 0)\<rparr>)) = 0"
  shows "\<exists>m. cpu_step fo mips32r1_defconfig s =
     Inr ((), s\<lparr>mmu_cache := m, cpu := tick mips32r1_defconfig (f ((cpu s)\<lparr>gpr := (gpr (cpu s))(0 := 0)\<rparr>))\<rparr>)"
proof -
  obtain m where "fetches mips32r1_defconfig s w ((set_gpr 0 0 s)\<lparr>mmu_cache := m\<rparr>)"
    using bram_fetches [OF assms(1-4)] assms(5) by auto
  then show ?thesis
    using cpu_step_fetch [of mips32r1_defconfig s w _ fo] assms(6-8)
      masked_check [of "on_cpu f ((set_gpr 0 0 s)\<lparr>mmu_cache := m\<rparr>)"]
    by (auto simp: set_gpr_def on_cpu_def)
qed


text \<open>Ready to run: the default board, stopped nowhere, with no exception pending and all interrupts masked.\<close>

definition quiet :: "nemu \<Rightarrow> bool" where
  "quiet s \<longleftrightarrow> board s \<and> nemu_state s = NEMU_RUNNING \<and> \<not> has_exception (cpu s) \<and> cp0_get status_IM (cpu s) = 0"

lemma quiet_step:
  assumes "quiet s" and "pc (cpu s) = bram_addr k" and "bram_addr k AND 3 = 0" and "k + 4 \<le> 0x100000"
    and "mem_read32 (bram s) k = w" and "\<And>u. exec_inst fo mips32r1_defconfig w u = Inr ((), on_cpu f u)"
    and "\<And>c. has_exception (f c) = has_exception c" and "\<And>c. cp0_get status_IM (f c) = cp0_get status_IM c"
  obtains t where "cpu_loop fo mips32r1_defconfig (Suc n) s = cpu_loop fo mips32r1_defconfig n t" and "quiet t"
    and "bram t = bram s" and "ddr t = ddr s"
    and "cpu t = tick mips32r1_defconfig (f ((cpu s)\<lparr>gpr := (gpr (cpu s))(0 := 0)\<rparr>))"
proof -
  let ?c = "(cpu s)\<lparr>gpr := (gpr (cpu s))(0 := 0)\<rparr>"
  have IM: "cp0_get status_IM ?c = cp0_get status_IM (cpu s)" by (simp add: cp0_get.simps)
  obtain m where step: "cpu_step fo mips32r1_defconfig s =
      Inr ((), s\<lparr>mmu_cache := m, cpu := tick mips32r1_defconfig (f ?c)\<rparr>)" (is "_ = Inr ((), ?t)")
    using bram_step [OF _ assms(2-6)] assms(1,7,8) IM by (auto simp: quiet_def)
  have "quiet ?t" using assms(1,7,8) IM by (simp add: quiet_def board_def find_device_def)
  then show ?thesis
    using that [of ?t] step by (simp add: quiet_def)
qed


text \<open>An instruction that only computes, and a jump through a register.\<close>

lemma quiet_alu:
  assumes "quiet s" and "pc (cpu s) = bram_addr k" and "bram_addr k AND 3 = 0" and "k + 4 \<le> 0x100000"
    and "\<And>u. exec_inst fo mips32r1_defconfig (mem_read32 (bram s) k) u =
           Inr ((), on_cpu (\<lambda>c. inst_end mips32r1_defconfig (c\<lparr>gpr := G (gpr c)\<rparr>)) u)"
  obtains t where "cpu_loop fo mips32r1_defconfig (Suc n) s = cpu_loop fo mips32r1_defconfig n t" and "quiet t"
    and "bram t = bram s" and "ddr t = ddr s" and "gpr (cpu t) = G ((gpr (cpu s))(0 := 0))"
    and "pc (cpu t) = (if is_delayslot (cpu s) then br_target (cpu s) else pc (cpu s) + 4)" and "\<not> is_delayslot (cpu t)"
proof (rule quiet_step [OF assms(1-4) refl assms(5), where n = n])
  fix t
  assume "cpu t = tick mips32r1_defconfig
      (inst_end mips32r1_defconfig ((cpu s)\<lparr>gpr := (gpr (cpu s))(0 := 0), gpr := G (gpr ((cpu s)\<lparr>gpr := (gpr (cpu s))(0 := 0)\<rparr>))\<rparr>))"
    "cpu_loop fo mips32r1_defconfig (Suc n) s = cpu_loop fo mips32r1_defconfig n t" "quiet t" "bram t = bram s" "ddr t = ddr s"
  then show ?thesis using that [of t] by (simp add: inst_end_def)
qed (simp_all add: inst_end_def cp0_get.simps)

lemma quiet_jr:
  assumes "quiet s" and "pc (cpu s) = bram_addr k" and "bram_addr k AND 3 = 0" and "k + 4 \<le> 0x100000"
    and "mem_read32 (bram s) k = jr_w r" and "0 < r" and "r < 32"
  obtains t where "cpu_loop fo mips32r1_defconfig (Suc n) s = cpu_loop fo mips32r1_defconfig n t" and "quiet t"
    and "bram t = bram s" and "ddr t = ddr s" and "gpr (cpu t) = (gpr (cpu s))(0 := 0)"
    and "pc (cpu t) = pc (cpu s) + 4" and "is_delayslot (cpu t)" and "br_target (cpu t) = gpr (cpu s) r"
proof (rule quiet_step [OF assms(1-5) exec_jr [OF defconfig_flags(4) assms(7)], where n = n and fo = fo])
  fix t
  assume "cpu t = tick mips32r1_defconfig ((cpu s)\<lparr>gpr := (gpr (cpu s))(0 := 0),
      br_target := gpr ((cpu s)\<lparr>gpr := (gpr (cpu s))(0 := 0)\<rparr>) r, is_delayslot := True, pc := pc ((cpu s)\<lparr>gpr := (gpr (cpu s))(0 := 0)\<rparr>) + 4\<rparr>)"
    "cpu_loop fo mips32r1_defconfig (Suc n) s = cpu_loop fo mips32r1_defconfig n t" "quiet t" "bram t = bram s" "ddr t = ddr s"
  then show ?thesis using that [of t] assms(6) by simp
qed (simp_all add: cp0_get.simps)

lemma boot_code_runs:
  assumes "quiet s" and "pc (cpu s) = CPU_INIT_PC" and "\<not> is_delayslot (cpu s)"
    and "\<And>i. i < 4 \<Longrightarrow> mem_read32 (bram s) (4 * i) = rom_code e ! i"
  shows "\<exists>t. cpu_loop fo mips32r1_defconfig 4 s = Inr ((), t) \<and> quiet t \<and> pc (cpu t) = e \<and> \<not> is_delayslot (cpu t) \<and>
     gpr (cpu t) = (gpr (cpu s))(0 := 0, 8 := e) \<and> bram t = bram s \<and> ddr t = ddr s"
proof -
  let ?cfg = mips32r1_defconfig and ?hi = "ucast (drop_bit 16 e) :: u16" and ?lo = "ucast e :: u16"
  have w: "mem_read32 (bram s) 0 = lui_w 8 ?hi" "mem_read32 (bram s) 4 = ori_w 8 8 ?lo"
    "mem_read32 (bram s) 8 = jr_w 8" "mem_read32 (bram s) 12 = nop_w"
    using assms(4) [of 0] assms(4) [of 1] assms(4) [of 2] assms(4) [of 3] by (simp_all add: rom_code_words numeral_eq_Suc)
  have e: "push_bit 16 (ucast ?hi) OR ucast ?lo = e"
    by (rule bit_eqI) (auto simp: bit_simps dest: bit_imp_le_length)
  obtain t1 where t1: "cpu_loop fo ?cfg (Suc 3) s = cpu_loop fo ?cfg 3 t1" "quiet t1" "bram t1 = bram s" "ddr t1 = ddr s"
    "gpr (cpu t1) = (gpr (cpu s))(0 := 0, 8 := push_bit 16 (ucast ?hi))" "pc (cpu t1) = 0xbfc00004" "\<not> is_delayslot (cpu t1)"
    by (rule quiet_alu [OF assms(1), of 0 fo "\<lambda>g. g(8 := push_bit 16 (ucast ?hi))" 3])
       (use assms(2,3) w(1) in \<open>auto simp: bram_addr_def exec_lui\<close>)
  obtain t2 where t2: "cpu_loop fo ?cfg (Suc 2) t1 = cpu_loop fo ?cfg 2 t2" "quiet t2" "bram t2 = bram s" "ddr t2 = ddr s"
    "gpr (cpu t2) = (gpr (cpu s))(0 := 0, 8 := e)" "pc (cpu t2) = 0xbfc00008" "\<not> is_delayslot (cpu t2)"
    by (rule quiet_alu [OF t1(2), of 4 fo "\<lambda>g. g(8 := g 8 OR ucast ?lo)" 2])
       (use t1 w(2) e in \<open>auto simp: bram_addr_def exec_ori fun_upd_twist\<close>)
  obtain t3 where t3: "cpu_loop fo ?cfg (Suc 1) t2 = cpu_loop fo ?cfg 1 t3" "quiet t3" "bram t3 = bram s" "ddr t3 = ddr s"
    "gpr (cpu t3) = (gpr (cpu s))(0 := 0, 8 := e)" "pc (cpu t3) = 0xbfc0000c" "is_delayslot (cpu t3)" "br_target (cpu t3) = e"
    by (rule quiet_jr [OF t2(2), of 8 8 fo 1])
       (use t2 w(3) in \<open>auto simp: bram_addr_def fun_upd_twist\<close>)
  obtain t4 where "cpu_loop fo ?cfg (Suc 0) t3 = cpu_loop fo ?cfg 0 t4" "quiet t4" "bram t4 = bram s" "ddr t4 = ddr s"
    "gpr (cpu t4) = (gpr (cpu s))(0 := 0, 8 := e)" "pc (cpu t4) = e" "\<not> is_delayslot (cpu t4)"
    by (rule quiet_alu [OF t3(2), of 12 fo "\<lambda>g. g(0 := g 0)" 0])
       (use t3 w(4) in \<open>auto simp: bram_addr_def exec_nop fun_upd_twist\<close>)
  moreover have "cpu_loop fo ?cfg 4 s = cpu_loop fo ?cfg (Suc 0) t3"
    using t1(1) t2(1) t3(1) by (simp del: cpu_loop.simps(2) add: numeral_eq_Suc)
  ultimately show ?thesis by (auto simp del: cpu_loop.simps(2))
qed


section \<open>What loading leaves in memory\<close>

lemma host_copy_frame [simp]:
  "board (host_copy p bs s) = board s" "cpu (host_copy p bs s) = cpu s" "nemu_state (host_copy p bs s) = nemu_state s"
  "work_mode (host_copy p bs s) = work_mode s"
  by (cases "fst p"; simp add: host_copy_def board_def find_device_def)+

lemma host_copy_mem [simp]:
  "host_copy (Ram_ddr, a) bs s = s\<lparr>ddr := mem_write_block (ddr s) a bs\<rparr>"
  "host_copy (Ram_bram, a) bs s = s\<lparr>bram := mem_write_block (bram s) a bs\<rparr>"
  by (simp_all add: host_copy_def)

lemma mem_read32_bytes: "take 4 (drop (4 * i) bs) = bytes_of w \<Longrightarrow> mem_read32 (mem_write_block b 0 bs) (4 * i) = w"
proof -
  assume *: "take 4 (drop (4 * i) bs) = bytes_of w"
  have "length (take 4 (drop (4 * i) bs)) = 4" unfolding * by (simp add: bytes_of_def)
  then have len: "4 * i + 4 \<le> length bs" by (simp add: min_def split: if_splits)
  have "bs ! (4 * i + j) = bytes_of w ! j" if "j < 4" for j
    using arg_cong [OF *, of "\<lambda>xs. xs ! j"] that len by simp
  from this [of 0] this [of 1] this [of 2] this [of 3] show ?thesis
    using len le32_bytes [of w] by (simp add: mem_read32_def mem_write_block_def bytes_of_def numeral_eq_Suc)
qed

lemma load_rom_board:
  assumes "board s"
  shows "load_rom mips32r1_defconfig e s = Inr ((), s\<lparr>bram := mem_write_block (bram s) 0 (concat (map bytes_of (rom_code e)))\<rparr>)"
proof -
  have "vaddr_map mips32r1_defconfig CPU_INIT_PC 16 s = Inr ((Ram_bram, 0), s)"
    using assms bram_ram.mp_in [of 0 16 s]
    by (simp add: vaddr_map_def is_unmapped_def board_def ioremap_def defconfig_device_def bram_ram.d_map mips32r1_defconfig_def)
  then show ?thesis by (simp add: load_rom_def)
qed

lemma rom_words:
  "i < 4 \<Longrightarrow> mem_read32 (mem_write_block b 0 (concat (map bytes_of (rom_code e)))) (4 * i) = rom_code e ! i"
  by (rule mem_read32_bytes) (auto simp: rom_code_def bytes_of_def less_Suc_eq numeral_eq_Suc)


text \<open>
  The program headers of a file, and the files that the loader accepts: the signature and the kind of
  file are right, the headers and the segments lie within the file, and each segment to load is no
  longer in the file than in memory and has its place in DDR memory.
\<close>

definition elf_header :: "u8 list \<Rightarrow> nat \<Rightarrow> Elf32_Phdr" where
  "elf_header buf i = phdr_at buf (i * unat (rd16 buf 42) + unat (rd32 buf 28))"

definition elf_headers :: "u8 list \<Rightarrow> Elf32_Phdr list" where
  "elf_headers buf = map (elf_header buf) [0 ..< unat (rd16 buf 44)]"

definition seg_ok :: "u8 list \<Rightarrow> Elf32_Phdr \<Rightarrow> bool" where
  "seg_ok buf ph \<longleftrightarrow> unat (p_offset ph) < length buf \<and>
     (p_type ph = PT_LOAD \<longrightarrow> p_filesz ph \<le> p_memsz ph \<and> unat (p_offset ph) + unat (p_filesz ph) \<le> length buf \<and>
        is_unmapped (p_vaddr ph) \<and> unat (ioremap (p_vaddr ph)) < 0x10000000 \<and>
        unat (ioremap (p_vaddr ph)) + unat (p_memsz ph) \<le> 0x10000000)"

definition elf_ok :: "u8 list \<Rightarrow> bool" where
  "elf_ok buf \<longleftrightarrow> 52 \<le> length buf \<and> length buf < 2 ^ 31 \<and>
     rd32 buf 0 = 0x464c457f \<and> buf ! 4 = 1 \<and> buf ! 5 = 1 \<and> rd16 buf 18 = 8 \<and>
     list_all (\<lambda>i. i * unat (rd16 buf 42) + unat (rd32 buf 28) + 32 \<le> length buf \<and> seg_ok buf (elf_header buf i))
       [0 ..< unat (rd16 buf 44)]"

text \<open>The memory of a segment, and memory with segments loaded one after the other.\<close>

definition seg_bytes :: "u8 list \<Rightarrow> Elf32_Phdr \<Rightarrow> u8 list" where
  "seg_bytes buf ph = take (unat (p_filesz ph)) (drop (unat (p_offset ph)) buf) @
     replicate (unat (p_memsz ph) - unat (p_filesz ph)) 0"

fun load_memory :: "u8 list \<Rightarrow> Elf32_Phdr list \<Rightarrow> (nat \<Rightarrow> u8) \<Rightarrow> nat \<Rightarrow> u8" where
  "load_memory buf [] b = b"
| "load_memory buf (ph # phs) b = load_memory buf phs
     (if p_type ph = PT_LOAD then mem_write_block b (unat (ioremap (p_vaddr ph))) (seg_bytes buf ph) else b)"

lemma map_ddr:
  assumes "board s" and "is_unmapped a" and "unat (ioremap a) < 0x10000000" and "unat (ioremap a) + unat n \<le> 0x10000000"
  shows "vaddr_map mips32r1_defconfig a n s = Inr ((Ram_ddr, unat (ioremap a)), s)"
proof -
  have "find_device (ioremap a) s = Some ddr_dev"
    using assms(1,3) by (simp add: board_def defconfig_device_def word_less_nat_alt ioremap_def and.assoc)
  then show ?thesis
    using assms(2) ddr_ram.mp_in [of "ioremap a" n s] assms(4)
    by (simp add: vaddr_map_def ddr_ram.d_map mips32r1_defconfig_def)
qed

lemma load_segment_ddr:
  assumes "board s" and "seg_ok buf ph" and "p_type ph = PT_LOAD"
  shows "load_segment mips32r1_defconfig buf ph s =
     Inr ((), s\<lparr>ddr := mem_write_block (ddr s) (unat (ioremap (p_vaddr ph))) (seg_bytes buf ph)\<rparr>)"
proof -
  have ok: "p_filesz ph \<le> p_memsz ph" "unat (p_offset ph) + unat (p_filesz ph) \<le> length buf" "is_unmapped (p_vaddr ph)"
    "unat (ioremap (p_vaddr ph)) < 0x10000000" "unat (ioremap (p_vaddr ph)) + unat (p_memsz ph) \<le> 0x10000000"
    using assms(2,3) by (simp_all add: seg_ok_def)
  have "unat (p_memsz ph - p_filesz ph) = unat (p_memsz ph) - unat (p_filesz ph)"
    using ok(1) by (simp add: unat_sub)
  moreover have "length (take (unat (p_filesz ph)) (drop (unat (p_offset ph)) buf)) = unat (p_filesz ph)"
    using ok(2) by simp
  ultimately show ?thesis
    using map_ddr [OF assms(1) ok(3-5)] ok(1,2)
      mem_write_block_append [of "ddr s" "unat (ioremap (p_vaddr ph))" "take (unat (p_filesz ph)) (drop (unat (p_offset ph)) buf)"]
    by (simp add: load_segment_def seg_bytes_def not_less [symmetric])
qed

lemma sless_unat:
  assumes "unat (v :: u32) < 2 ^ 31" and "unat (w :: u32) < 2 ^ 31"
  shows "v <s w \<longleftrightarrow> unat v < unat w"
proof -
  have pos: "sint x = int (unat x)" if "unat x < 2 ^ 31" for x :: u32
  proof -
    have "int (unat x) < int (2 ^ 31)" using that by (simp only: of_nat_less_iff)
    moreover have "- (2 ^ 31) \<le> uint x" by (rule order_trans [OF _ unsigned_greater_eq]) simp
    ultimately show ?thesis by (simp add: sint_uint signed_take_bit_int_eq_self_iff)
  qed
  show ?thesis unfolding word_sless_alt pos [OF assms(1)] pos [OF assms(2)] by (simp only: of_nat_less_iff)
qed

lemma load_phdr_ok:
  assumes "board s" and "length buf < 2 ^ 31" and "i * unat (rd16 buf 42) + unat (rd32 buf 28) + 32 \<le> length buf"
    and "seg_ok buf (elf_header buf i)"
  shows "load_phdr mips32r1_defconfig buf (of_nat (length buf)) i s =
     Inr ((), s\<lparr>ddr := load_memory buf [elf_header buf i] (ddr s)\<rparr>)"
proof -
  let ?k = "i * unat (rd16 buf 42)" and ?o = "of_nat (i * unat (rd16 buf 42)) + rd32 buf 28"
  have o: "unat ?o = ?k + unat (rd32 buf 28)"
    using assms(2,3) unat_add_small [of "of_nat ?k" "rd32 buf 28"] unat_of_nat_u32 [of ?k] by simp
  have f: "unat (of_nat (length buf) :: u32) = length buf" using assms(2) by (intro unat_of_nat_u32) simp
  have "?o <s of_nat (length buf)" "\<not> ?o <s 0"
    using o f assms(2,3) by (simp_all add: sless_unat del: of_nat_mult)
  moreover have "p_offset (elf_header buf i) < of_nat (length buf)"
    using assms(4) f by (simp add: seg_ok_def word_less_nat_alt)
  moreover have "phdr_at buf (unat ?o) = elf_header buf i" unfolding elf_header_def o by (rule refl)
  ultimately show ?thesis
    using load_segment_ddr [OF assms(1,4)] assms(2,3) o by (simp add: load_phdr_def Let_def del: of_nat_mult)
qed


lemma load_phdrs_ok:
  assumes "board s" and "length buf < 2 ^ 31"
    and "list_all (\<lambda>i. i * unat (rd16 buf 42) + unat (rd32 buf 28) + 32 \<le> length buf \<and> seg_ok buf (elf_header buf i)) is"
  shows "load_phdrs mips32r1_defconfig buf (of_nat (length buf)) is s =
     Inr ((), s\<lparr>ddr := load_memory buf (map (elf_header buf) is) (ddr s)\<rparr>)"
  using assms(1,3)
proof (induction "is" arbitrary: s)
  case (Cons i "is")
  have "board (s\<lparr>ddr := b\<rparr>)" for b using Cons.prems(1) by (simp add: board_def find_device_def)
  then show ?case using Cons load_phdr_ok [OF Cons.prems(1) assms(2)] by simp
qed simp

lemma load_elf_image_ok:
  assumes "board (mon_nemu m)" and "elf_ok buf"
  shows "load_elf_image mips32r1_defconfig buf (of_nat (length buf)) m =
     Inr ((), m\<lparr>elf_entry := rd32 buf 24, mon_nemu := (mon_nemu m)
       \<lparr>ddr := load_memory buf (elf_headers buf) (ddr (mon_nemu m)),
        bram := (if rd32 buf 24 = CPU_INIT_PC then bram (mon_nemu m)
          else mem_write_block (bram (mon_nemu m)) 0 (concat (map bytes_of (rom_code (rd32 buf 24)))))\<rparr>\<rparr>)"
proof -
  let ?s = "mon_nemu m" and ?b = "load_memory buf (elf_headers buf) (ddr (mon_nemu m))"
  have "load_phdrs mips32r1_defconfig buf (of_nat (length buf)) [0 ..< unat (rd16 buf 44)] ?s = Inr ((), ?s\<lparr>ddr := ?b\<rparr>)"
    using load_phdrs_ok [OF assms(1)] assms(2) by (simp add: elf_ok_def elf_headers_def)
  moreover have "board (?s\<lparr>ddr := ?b\<rparr>)" using assms(1) by (simp add: board_def find_device_def)
  ultimately show ?thesis
    using assms(2) load_rom_board by (simp add: load_elf_image_def elf_ok_def Let_def in_nemu_def)
qed

text \<open>When the segments do not overlap each of them is found in memory, followed by its zeros.\<close>

definition seg_range :: "Elf32_Phdr \<Rightarrow> nat set" where
  "seg_range ph = (if p_type ph = PT_LOAD
     then {unat (ioremap (p_vaddr ph)) ..< unat (ioremap (p_vaddr ph)) + unat (p_memsz ph)} else {})"

lemma length_seg_bytes: "seg_ok buf ph \<Longrightarrow> p_type ph = PT_LOAD \<Longrightarrow> length (seg_bytes buf ph) = unat (p_memsz ph)"
  by (auto simp: seg_ok_def seg_bytes_def word_le_nat_alt min_def)

lemma load_memory_outside:
  assumes "\<And>ph. ph \<in> set phs \<Longrightarrow> seg_ok buf ph \<and> a \<notin> seg_range ph"
  shows "load_memory buf phs b a = b a"
  using assms
proof (induction phs arbitrary: b)
  case (Cons ph phs)
  have "seg_ok buf ph" "a \<notin> seg_range ph" using Cons.prems by auto
  moreover have "load_memory buf phs c a = c a" for c using Cons.prems by (intro Cons.IH) simp
  ultimately show ?case using length_seg_bytes [of buf ph] by (auto simp: seg_range_def mem_write_block_def split: if_splits)
qed simp

lemma load_memory_segment:
  assumes "\<And>ph. ph \<in> set phs \<Longrightarrow> seg_ok buf ph" and "sorted_wrt (\<lambda>x y. seg_range x \<inter> seg_range y = {}) phs"
    and "ph \<in> set phs" and "p_type ph = PT_LOAD" and "k < unat (p_memsz ph)"
  shows "load_memory buf phs b (unat (ioremap (p_vaddr ph)) + k) = seg_bytes buf ph ! k"
  using assms(1-3)
proof (induction phs arbitrary: b)
  case (Cons x phs)
  have in_range: "unat (ioremap (p_vaddr ph)) + k \<in> seg_range ph" using assms(4,5) by (simp add: seg_range_def)
  show ?case
  proof (cases "ph \<in> set phs")
    case False
    then have x: "ph = x" using Cons.prems(3) by simp
    then have "load_memory buf phs c (unat (ioremap (p_vaddr ph)) + k) = c (unat (ioremap (p_vaddr ph)) + k)" for c
      using Cons.prems(1,2) in_range by (intro load_memory_outside) auto
    then show ?thesis
      using assms(4,5) length_seg_bytes [OF Cons.prems(1), of x] x by (simp add: mem_write_block_def)
  qed (use Cons in simp)
qed simp

lemma seg_bytes_nth:
  "seg_ok buf ph \<Longrightarrow> p_type ph = PT_LOAD \<Longrightarrow> k < unat (p_memsz ph) \<Longrightarrow>
     seg_bytes buf ph ! k = (if k < unat (p_filesz ph) then buf ! (unat (p_offset ph) + k) else 0)"
  by (auto simp: seg_ok_def seg_bytes_def nth_append)


section \<open>Starting a program\<close>

lemma init_regs_frame [simp]:
  "has_exception (init_regs cfg entry c) = has_exception c" "is_delayslot (init_regs cfg entry c) = is_delayslot c"
  by (simp_all add: init_regs_def Let_def)

text \<open>The argument count, the argument vector and its only element.\<close>

definition cmdline_at :: "u8 list \<Rightarrow> nemu \<Rightarrow> bool" where
  "cmdline_at cs s \<longleftrightarrow> gpr (cpu s) 4 = 1 \<and> gpr (cpu s) 5 = 0xbfc10000 \<and>
     mem_read32 (bram s) 0x10000 = 0xbfc10008 \<and> mem_read32 (bram s) 0x10004 = 0 \<and>
     (\<forall>j < length cs. bram s (0x10008 + j) = cs ! j) \<and> bram s (0x10008 + length cs) = 0"

lemma init_cpu_ready:
  assumes "board s" and "\<not> has_exception (cpu s)" and "length cs < 0xEFFF8"
  shows "\<exists>t. init_cpu mips32r1_defconfig cs entry s = Inr ((), t) \<and> quiet (t\<lparr>nemu_state := NEMU_RUNNING\<rparr>) \<and>
     pc (cpu t) = entry \<and> is_delayslot (cpu t) = is_delayslot (cpu s) \<and> ddr t = ddr s \<and> (\<forall>j < 0x10000. bram t j = bram s j) \<and>
     work_mode t = work_mode s \<and> (if cs = [] then gpr (cpu t) = gpr (cpu s) else cmdline_at cs t)"
proof (cases "cs = []")
  case True
  let ?t = "clear_mmu_cache (on_cpu (init_regs mips32r1_defconfig entry) s)"
  have "board (?t\<lparr>nemu_state := NEMU_RUNNING\<rparr>)" using assms(1) by (simp add: board_def find_device_def)
  then show ?thesis
    using True assms(2) by (simp add: init_cpu_def quiet_def init_regs_boot)
next
  case False
  obtain mc b where t: "init_cpu mips32r1_defconfig cs entry s = Inr ((), set_gpr 5 0xbfc10000 (set_gpr 4 1
        (s\<lparr>cpu := init_regs mips32r1_defconfig entry (cpu s), mmu_cache := mc, bram := b\<rparr>)))" (is "_ = Inr ((), ?t)")
    and b: "mem_read32 b 0x10000 = 0xbfc10008" "mem_read32 b 0x10004 = 0" "\<forall>j < length cs. b (0x10008 + j) = cs ! j"
      "b (0x10008 + length cs) = 0" "\<forall>j < 0x10000. b j = bram s j"
    using init_cpu_cmdline [OF assms(1) False assms(3), of entry] by auto
  have "board (?t\<lparr>nemu_state := NEMU_RUNNING\<rparr>)" using assms(1) by (simp add: board_def find_device_def set_gpr_def)
  then have "quiet (?t\<lparr>nemu_state := NEMU_RUNNING\<rparr>)" using assms(2) by (simp add: quiet_def init_regs_boot set_gpr_def)
  moreover have "cmdline_at cs ?t" using b by (simp add: cmdline_at_def set_gpr_def)
  ultimately show ?thesis using t b False by (simp add: set_gpr_def init_regs_boot)
qed


lemma init_mmio_board:
  assumes "distinct devs" and "set devs = {d. dev_configured mips32r1_defconfig d}"
    and "\<forall>k. memory_regions s k = None" and "spi_loadable (spi s)"
  obtains u where "init_mmio mips32r1_defconfig devs s = Inr ((), u)" and "board u" and "ddr u = ddr s"
    and "has_exception (cpu u) = has_exception (cpu s)" and "is_delayslot (cpu u) = is_delayslot (cpu s)" and "work_mode u = work_mode s"
proof -
  obtain r where "init_mmio mips32r1_defconfig devs s = Inr ((), (spi_up s)\<lparr>memory_regions := r\<rparr>)"
    "\<forall>a. find_device a ((spi_up s)\<lparr>memory_regions := r\<rparr>) = defconfig_device (ioremap a)"
    using init_mmio_defconfig [OF assms(1,2), of s] assms(3,4) by blast
  then show ?thesis
    using that [of "(spi_up s)\<lparr>memory_regions := r\<rparr>"] by (simp add: board_def spi_up_def spi_irq_off_def)
qed

lemma load_elf_ok:
  assumes "elf_file m = Some f" and "get_file_size os f = Some (length buf)" and "read_file os f = Some (Some buf)"
    and "board (mon_nemu m)" and "elf_ok buf"
  obtains t where "load_elf mips32r1_defconfig os m = Inr ((), m\<lparr>elf_entry := rd32 buf 24, mon_nemu := t\<rparr>)" and "board t"
    and "cpu t = cpu (mon_nemu m)" and "work_mode t = work_mode (mon_nemu m)" and "ddr t = load_memory buf (elf_headers buf) (ddr (mon_nemu m))"
    and "\<And>i. rd32 buf 24 \<noteq> CPU_INIT_PC \<Longrightarrow> i < 4 \<Longrightarrow> mem_read32 (bram t) (4 * i) = rom_code (rd32 buf 24) ! i"
proof -
  let ?t = "(mon_nemu m)\<lparr>ddr := load_memory buf (elf_headers buf) (ddr (mon_nemu m)),
        bram := (if rd32 buf 24 = CPU_INIT_PC then bram (mon_nemu m)
          else mem_write_block (bram (mon_nemu m)) 0 (concat (map bytes_of (rom_code (rd32 buf 24)))))\<rparr>"
  have "load_elf mips32r1_defconfig os m = Inr ((), m\<lparr>elf_entry := rd32 buf 24, mon_nemu := ?t\<rparr>)"
    using assms(1-3) load_elf_image_ok [OF assms(4,5)] by (simp add: load_elf_def host_call_def)
  moreover have "board ?t" using assms(4) by (simp add: board_def find_device_def)
  ultimately show ?thesis using that [of ?t] rom_words by simp
qed

text \<open>
  C21: from the ELF file to its first instruction. With the devices of the default configuration,
  the monitor loads an ELF file whose segments fit in DDR memory and do not overlap, loads the
  symbols and resets the processor, and returns the work mode. Then every segment is in memory,
  its bytes from the file followed by zeros, memory outside the segments is as before, and a run
  from the reset address executes the boot code and arrives, after four instructions or at once when
  the entry point is the reset address, at the entry point of the file, with memory unchanged, the
  processor in no delay slot, interrupts masked, and the command line in the registers and the block RAM.
\<close>

theorem boot_program:
  assumes "distinct devs" and "set devs = {d. dev_configured mips32r1_defconfig d}"
    and "\<forall>k. memory_regions (mon_nemu m) k = None" and "spi_loadable (spi (mon_nemu m))"
    and "\<not> has_exception (cpu (mon_nemu m))" and "\<not> is_delayslot (cpu (mon_nemu m))"
    and "elf_file m = Some f" and "get_file_size os f = Some (length buf)" and "read_file os f = Some (Some buf)"
    and "elf_ok buf" and "sorted_wrt (\<lambda>x y. seg_range x \<inter> seg_range y = {}) (elf_headers buf)"
    and "symbol_file m = Some g" and "elfsym_load g (os_file os g) (mon_elfsym m) = Inr ((), es)"
    and "length (boot_cmdline m) < 0xEFFF8"
  shows "\<exists>t u. bind_r (in_nemu (init_mmio mips32r1_defconfig devs) m) (\<lambda>_. init_monitor mips32r1_defconfig os) =
       Inr (work_mode (mon_nemu m), t) \<and> mon_elfsym t = es \<and> elf_entry t = rd32 buf 24 \<and>
     (\<forall>ph \<in> set (elf_headers buf). p_type ph = PT_LOAD \<longrightarrow> (\<forall>k < unat (p_memsz ph). ddr (mon_nemu t) (unat (ioremap (p_vaddr ph)) + k) =
        (if k < unat (p_filesz ph) then buf ! (unat (p_offset ph) + k) else 0))) \<and>
     (\<forall>a. a \<notin> (\<Union>ph \<in> set (elf_headers buf). seg_range ph) \<longrightarrow> ddr (mon_nemu t) a = ddr (mon_nemu m) a) \<and>
     cpu_loop fo mips32r1_defconfig (if rd32 buf 24 = CPU_INIT_PC then 0 else 4) ((mon_nemu t)\<lparr>nemu_state := NEMU_RUNNING\<rparr>) = Inr ((), u) \<and>
     pc (cpu u) = rd32 buf 24 \<and> \<not> is_delayslot (cpu u) \<and> quiet u \<and> ddr u = ddr (mon_nemu t) \<and>
     (boot_cmdline m \<noteq> [] \<longrightarrow> cmdline_at (boot_cmdline m) u)"
proof -
  obtain s1 where s1: "init_mmio mips32r1_defconfig devs (mon_nemu m) = Inr ((), s1)" "board s1" "ddr s1 = ddr (mon_nemu m)"
    "\<not> has_exception (cpu s1)" "\<not> is_delayslot (cpu s1)" "work_mode s1 = work_mode (mon_nemu m)"
    using init_mmio_board [OF assms(1-4)] assms(5,6) by metis
  obtain s2 where s2: "load_elf mips32r1_defconfig os (m\<lparr>mon_nemu := s1\<rparr>) = Inr ((), m\<lparr>elf_entry := rd32 buf 24, mon_nemu := s2\<rparr>)"
    "board s2" "cpu s2 = cpu s1" "work_mode s2 = work_mode s1" "ddr s2 = load_memory buf (elf_headers buf) (ddr s1)"
    "\<And>i. rd32 buf 24 \<noteq> CPU_INIT_PC \<Longrightarrow> i < 4 \<Longrightarrow> mem_read32 (bram s2) (4 * i) = rom_code (rd32 buf 24) ! i"
    using load_elf_ok [of "m\<lparr>mon_nemu := s1\<rparr>" f os buf] assms(7-10) s1(2) by auto
  obtain s3 where s3: "init_cpu mips32r1_defconfig (boot_cmdline m) CPU_INIT_PC s2 = Inr ((), s3)"
    "quiet (s3\<lparr>nemu_state := NEMU_RUNNING\<rparr>)" "pc (cpu s3) = CPU_INIT_PC" "\<not> is_delayslot (cpu s3)" "ddr s3 = ddr s2"
    "\<forall>j < 0x10000. bram s3 j = bram s2 j" "work_mode s3 = work_mode s2" "boot_cmdline m \<noteq> [] \<Longrightarrow> cmdline_at (boot_cmdline m) s3"
    using init_cpu_ready [OF s2(2) _ assms(14), of CPU_INIT_PC] s1(4,5) s2(3) by auto
  let ?t = "m\<lparr>elf_entry := rd32 buf 24, mon_nemu := s3, mon_elfsym := es\<rparr>"
  have init: "bind_r (in_nemu (init_mmio mips32r1_defconfig devs) m) (\<lambda>_. init_monitor mips32r1_defconfig os) =
      Inr (work_mode (mon_nemu m), ?t)"
    using s1(1,6) s2(1,4) s3(1,7) assms(7,12,13) by (simp add: in_nemu_def init_monitor_def in_elfsym_def)
  have segs: "seg_ok buf ph" if "ph \<in> set (elf_headers buf)" for ph
    using that assms(10) by (auto simp: elf_headers_def elf_ok_def list_all_iff)
  obtain u where u: "cpu_loop fo mips32r1_defconfig (if rd32 buf 24 = CPU_INIT_PC then 0 else 4) (s3\<lparr>nemu_state := NEMU_RUNNING\<rparr>) = Inr ((), u)"
    "pc (cpu u) = rd32 buf 24" "\<not> is_delayslot (cpu u)" "quiet u" "ddr u = ddr s3" "bram u = bram s3"
    "gpr (cpu u) 4 = gpr (cpu s3) 4" "gpr (cpu u) 5 = gpr (cpu s3) 5"
  proof (cases "rd32 buf 24 = CPU_INIT_PC")
    case False
    have "mem_read32 (bram s3) (4 * i) = rom_code (rd32 buf 24) ! i" if "i < 4" for i
      using s2(6) [OF False that] mem_read32_other [of "bram s3" "4 * i" "bram s2"] s3(6) that by simp
    then show ?thesis
      using boot_code_runs [of "s3\<lparr>nemu_state := NEMU_RUNNING\<rparr>" "rd32 buf 24" fo] s3 False that by auto
  qed (use that [of "s3\<lparr>nemu_state := NEMU_RUNNING\<rparr>"] s3 in simp)
  have "ddr s3 (unat (ioremap (p_vaddr ph)) + k) = (if k < unat (p_filesz ph) then buf ! (unat (p_offset ph) + k) else 0)"
    if "ph \<in> set (elf_headers buf)" "p_type ph = PT_LOAD" "k < unat (p_memsz ph)" for ph k
    using load_memory_segment [OF segs assms(11) that] seg_bytes_nth [OF segs that(2,3)] that(1) s2(5) s3(5) by simp
  moreover have "ddr s3 a = ddr (mon_nemu m) a" if "a \<notin> (\<Union>ph \<in> set (elf_headers buf). seg_range ph)" for a
    using load_memory_outside [of "elf_headers buf" buf a] segs that s1(3) s2(5) s3(5) by auto
  moreover have "cmdline_at (boot_cmdline m) u" if "boot_cmdline m \<noteq> []"
    using s3(8) [OF that] u(6-8) by (simp add: cmdline_at_def)
  ultimately show ?thesis using init u by (intro exI [of _ ?t] exI [of _ u]) simp
qed


text \<open>Conversions of the host for the witnesses that do not use any.\<close>

definition no_float :: float_ops where
  "no_float = \<lparr>
     host_f32_f64 = (\<lambda>_. 0), host_f64_f32 = (\<lambda>_. 0),
     host_i32_f32 = (\<lambda>_. 0), host_i32_f64 = (\<lambda>_. 0)\<rparr>"

text \<open>A program of one segment with four bytes in the file and eight in memory, and its symbols.\<close>

definition small_elf :: "u8 list" where
  "small_elf = [0x7f, 0x45, 0x4c, 0x46, 1, 1, 1, 0, 0, 0, 0, 0, 0, 0, 0, 0, 2, 0, 8, 0, 1, 0, 0, 0,
     0, 0x10, 0, 0x80, 52, 0, 0, 0, 0, 0, 0, 0, 0, 0, 0, 0, 52, 0, 32, 0, 1, 0, 0, 0, 0, 0, 0, 0,
     1, 0, 0, 0, 84, 0, 0, 0, 0, 0x10, 0, 0x80, 0, 0x10, 0, 0x80, 4, 0, 0, 0, 8, 0, 0, 0, 5, 0, 0, 0, 0, 0, 0, 0,
     0xff, 0xff, 0, 0x10]"

definition small_syms :: "Elf32_Sym list" where
  "small_syms = [\<lparr>st_name = 1, st_value = 0x80001000, st_size = 4, st_info = 0x12, st_other = 0, st_shndx = 1\<rparr>]"

definition small_os :: host_os where
  "small_os = \<lparr>os_lstat = (\<lambda>f. (False, length small_elf)), os_readlink = (\<lambda>f. f), os_open = (\<lambda>f. True),
     os_read = (\<lambda>f k p n. Some (take n (drop p small_elf))), os_malloc = (\<lambda>n. replicate n 0),
     os_file = (\<lambda>f. Some (elf_image small_syms [0, 0x6d, 0]))\<rparr>"

lemma small_elf_words:
  "length small_elf = 88" "rd32 small_elf 0 = 0x464c457f" "rd32 small_elf 24 = 0x80001000" "rd32 small_elf 28 = 52"
  "rd16 small_elf 18 = 8" "rd16 small_elf 42 = 32" "rd16 small_elf 44 = 1" "small_elf ! 4 = 1" "small_elf ! 5 = 1"
  "phdr_at small_elf 52 = \<lparr>p_type = 1, p_offset = 84, p_vaddr = 0x80001000, p_filesz = 4, p_memsz = 8\<rparr>"
  by (simp_all add: small_elf_def rd32_def rd16_def le32_def phdr_at_def push_bit_eq_mult)

lemma small_elf_headers:
  "elf_headers small_elf = [\<lparr>p_type = 1, p_offset = 84, p_vaddr = 0x80001000, p_filesz = 4, p_memsz = 8\<rparr>]"
  by (simp add: elf_headers_def elf_header_def small_elf_words)

lemma small_elf_ok: "elf_ok small_elf"
  by (simp add: elf_ok_def small_elf_words elf_header_def seg_ok_def is_unmapped_def ioremap_def)

definition small_monitor :: monitor where
  "small_monitor = monitor_globals\<lparr>mon_nemu := reset_state, elf_file := Some ''a.elf'', symbol_file := Some ''a.elf'',
     boot_cmdline := [0x68, 0x69]\<rparr>"

lemma small_monitor [simp]:
  "mon_nemu small_monitor = reset_state" "elf_file small_monitor = Some ''a.elf''" "symbol_file small_monitor = Some ''a.elf''"
  "boot_cmdline small_monitor = [0x68, 0x69]"
  by (simp_all add: small_monitor_def)

theorem boot_program_witness:
  "\<exists>t u. bind_r (in_nemu (init_mmio mips32r1_defconfig defconfig_devs) small_monitor) (\<lambda>_. init_monitor mips32r1_defconfig small_os) =
       Inr (MODE_BATCH, t) \<and> ddr (mon_nemu t) 0x1003 = 0x10 \<and> ddr (mon_nemu t) 0x1007 = 0 \<and>
     cpu_loop no_float mips32r1_defconfig 4 ((mon_nemu t)\<lparr>nemu_state := NEMU_RUNNING\<rparr>) = Inr ((), u) \<and>
     pc (cpu u) = 0x80001000 \<and> bram u 0x10009 = 0x69"
proof -
  have os: "get_file_size small_os ''a.elf'' = Some (length small_elf)" "read_file small_os ''a.elf'' = Some (Some small_elf)"
    using read_file_whole [of small_os "''a.elf''" small_elf] by (simp_all add: small_os_def reads_whole_def small_elf_words)
  obtain es where es: "elfsym_load ''a.elf'' (os_file small_os ''a.elf'') (mon_elfsym small_monitor) = Inr ((), es)"
    using elfsym_load_elf_image [of small_syms "[0, 0x6d, 0]" "''a.elf''" "mon_elfsym small_monitor"]
    by (simp add: small_os_def small_syms_def)
  have s: "\<not> has_exception (cpu reset_state)" "\<not> is_delayslot (cpu reset_state)" "work_mode reset_state = MODE_BATCH"
    by (simp_all add: nemu_globals_def zero_cpu_def)
  have dis: "sorted_wrt (\<lambda>x y. seg_range x \<inter> seg_range y = {}) (elf_headers small_elf)" by (simp add: small_elf_headers)
  note start = boot_program [OF defconfig_devs, of small_monitor, unfolded small_monitor, OF _ globals_regions(2) s(1,2) refl os small_elf_ok dis refl es,
      of no_float]
  then obtain t u where tu: "bind_r (in_nemu (init_mmio mips32r1_defconfig defconfig_devs) small_monitor) (\<lambda>_. init_monitor mips32r1_defconfig small_os) =
       Inr (MODE_BATCH, t)"
     "\<forall>ph \<in> set (elf_headers small_elf). p_type ph = PT_LOAD \<longrightarrow> (\<forall>k < unat (p_memsz ph). ddr (mon_nemu t) (unat (ioremap (p_vaddr ph)) + k) =
        (if k < unat (p_filesz ph) then small_elf ! (unat (p_offset ph) + k) else 0))"
     "cpu_loop no_float mips32r1_defconfig 4 ((mon_nemu t)\<lparr>nemu_state := NEMU_RUNNING\<rparr>) = Inr ((), u)"
     "pc (cpu u) = 0x80001000" "cmdline_at [0x68, 0x69] u"
    unfolding small_elf_words s(3) by (auto simp: globals_regions(1))
  have mem: "ddr (mon_nemu t) (0x1000 + k) = (if k < 4 then small_elf ! (84 + k) else 0)" if "k < 8" for k
    using bspec [OF tu(2), of "\<lparr>p_type = 1, p_offset = 84, p_vaddr = 0x80001000, p_filesz = 4, p_memsz = 8\<rparr>"] that
    by (simp add: small_elf_headers ioremap_def)
  have "bram u 0x10009 = 0x69" using tu(5) by (auto simp: cmdline_at_def)
  then show ?thesis
    using tu(1,3,4) mem [of 3] mem [of 7]
    by (intro exI [of _ t] exI [of _ u]) (simp add: small_elf_def)
qed

end
