(* ===== verification/Difftest.thy ===== *)
theory Difftest
  imports Gdb_Memory Boot
begin

text \<open>
  Differential testing: \<^verbatim>\<open>src/monitor/difftest.c\<close> runs the emulator and QEMU in step and compares
  their registers, talking to QEMU with the requests of \<^verbatim>\<open>src/utils/qemu.c\<close>. QEMU is a parameter:
  what it answers to a request, and the state it is in then. That a request and its answer arrive is the
  packet protocol of \<open>Gdb_Proto\<close>.
\<close>

section \<open>Instructions\<close>

definition inst_is_branch :: "u32 \<Rightarrow> bool" where
  "inst_is_branch i \<longleftrightarrow>
     (if 0x2 \<le> inst_op i \<and> inst_op i \<le> 0x7 then True
      else if 0x14 \<le> inst_op i \<and> inst_op i \<le> 0x17 then True
      else if inst_op i = 0x00 then inst_func i = 0x08 \<or> inst_func i = 0x9
      else if inst_op i = 0x01 then inst_rt i \<le> 0x03 \<or> 0x10 \<le> inst_rt i \<and> inst_rt i \<le> 0x13
      else False)"

text \<open>For the other values of \<^verbatim>\<open>rt\<close> the first case falls through to the comparison.\<close>

definition inst_branch_taken :: "u32 \<Rightarrow> nemu \<Rightarrow> bool" where
  "inst_branch_taken i s \<longleftrightarrow>
     (let rs = GR_SV i s; rt = GR_TV i s
      in if inst_op i = 0x01 then
           (if inst_rt i \<in> {0x00, 0x10, 0x02, 0x12} then rs <s 0
            else if inst_rt i \<in> {0x01, 0x11, 0x03, 0x13} then 0 \<le>s rs
            else rs = rt)
         else if inst_op i \<in> {0x04, 0x14} then rs = rt
         else if inst_op i \<in> {0x05, 0x15} then rs \<noteq> rt
         else if inst_op i \<in> {0x06, 0x16} then rs \<le>s 0
         else if inst_op i \<in> {0x07, 0x17} then 0 <s rs
         else inst_is_branch i)"

definition inst_is_mfc0 :: "u32 \<Rightarrow> bool" where
  "inst_is_mfc0 i \<longleftrightarrow> inst_op i = 0x10 \<and> inst_rs i = 0x0 \<and> inst_shamt i = 0"

definition pc_in_ex_entry :: "u32 \<Rightarrow> bool" where
  "pc_in_ex_entry a \<longleftrightarrow> a = 0xbfc00200 \<or> a = 0xbfc00380 \<or> a = 0xbfc00400 \<or> a = 0x80000000 \<or> a = 0x80000180 \<or> a = 0x80000200"

section \<open>Requests to QEMU\<close>

text \<open>
  The registers of QEMU are a union: an array of 40 words, of which the first 32 are the general
  registers.
\<close>

type_synonym qemu_regs_t = "u32 list"

abbreviation (input) qr_sr :: nat where "qr_sr \<equiv> 32"
abbreviation (input) qr_lo :: nat where "qr_lo \<equiv> 33"
abbreviation (input) qr_hi :: nat where "qr_hi \<equiv> 34"
abbreviation (input) qr_cause :: nat where "qr_cause \<equiv> 36"
abbreviation (input) qr_pc :: nat where "qr_pc \<equiv> 37"

definition inst_is_load_mmio :: "u32 \<Rightarrow> qemu_regs_t \<Rightarrow> bool" where
  "inst_is_load_mmio i regs \<longleftrightarrow>
     (if inst_op i = 0x23 then let addr = regs ! inst_rs i + inst_simm i in 0xA0000000 \<le> addr \<and> addr < 0xC0000000 else False)"

definition inst_is_store_mmio :: "u32 \<Rightarrow> qemu_regs_t \<Rightarrow> bool" where
  "inst_is_store_mmio i regs \<longleftrightarrow>
     (if inst_op i = 0x2b then let addr = regs ! inst_rs i + inst_simm i in 0xA0000000 \<le> addr \<and> addr < 0xC0000000 else False)"

definition inst_is_mmio :: "u32 \<Rightarrow> qemu_regs_t \<Rightarrow> bool" where
  "inst_is_mmio i regs \<longleftrightarrow> inst_is_load_mmio i regs \<or> inst_is_store_mmio i regs"

text \<open>\<open>ask q msg\<close> is the state of QEMU after the request \<open>msg\<close>, and its answer.\<close>

type_synonym 'q peer = "'q \<Rightarrow> u8 list \<Rightarrow> 'q \<times> u8 list"

fun hex_bytes :: "u8 list \<Rightarrow> u8 list" where
  "hex_bytes [] = []"
| "hex_bytes (b # bs) = hex_encode (drop_bit 4 b) # hex_encode (b AND 0xf) # hex_bytes bs"

text \<open>Numbers of a request: \<^verbatim>\<open>%x\<close> without leading zeros, \<^verbatim>\<open>%08x\<close> with eight digits.\<close>

definition fmt_08x :: "u32 \<Rightarrow> u8 list" where
  "fmt_08x w = concat (map (\<lambda>k. fmt_02x (byte_of w k)) [3, 2, 1, 0])"

definition fmt_x :: "u32 \<Rightarrow> u8 list" where
  "fmt_x w = (if w = 0 then [0x30] else dropWhile (\<lambda>c. c = 0x30) (fmt_08x w))"

definition memcpy_msg :: "u32 \<Rightarrow> u8 list \<Rightarrow> u8 list" where
  "memcpy_msg dest src = str ''M0x'' @ fmt_x dest @ str '','' @ fmt_x (of_nat (length src)) @ str '':'' @ hex_bytes src"

definition qemu_memcpy_to_qemu_small :: "'q peer \<Rightarrow> u32 \<Rightarrow> u8 list \<Rightarrow> 'q \<Rightarrow> bool \<times> 'q" where
  "qemu_memcpy_to_qemu_small ask dest src q = (let (q, r) = ask q (memcpy_msg dest src) in (cstr r = str ''OK'', q))"

function qemu_memcpy_to_qemu :: "'q peer \<Rightarrow> u32 \<Rightarrow> u8 list \<Rightarrow> bool \<Rightarrow> 'q \<Rightarrow> bool \<times> 'q" where
  "qemu_memcpy_to_qemu ask dest src ok q =
     (if 1500 < length src
      then let (ok', q) = qemu_memcpy_to_qemu_small ask dest (take 1500 src) q
           in qemu_memcpy_to_qemu ask (dest + 1500) (drop 1500 src) (ok \<and> ok') q
      else let (ok', q) = qemu_memcpy_to_qemu_small ask dest src q in (ok \<and> ok', q))"
  by pat_completeness auto

termination
  by (relation "measure (\<lambda>(ask, dest, src, ok, q). length src)") auto

declare qemu_memcpy_to_qemu.simps [simp del]

text \<open>Eight digits per register; the byte behind them is read and written too.\<close>

definition regs_of_reply :: "u8 list \<Rightarrow> u32 list" where
  "regs_of_reply r = map (\<lambda>i. ucast (gdb_decode_hex_str (take 8 (drop (8 * i) r)))) [0 ..< 40]"

definition qemu_getregs :: "'q peer \<Rightarrow> 'q \<Rightarrow> (u32 list, 'q) outcome" where
  "qemu_getregs ask q =
     (let (q, r) = ask q (str ''g'')
      in if length r < 320 then Inl (UndefinedBehaviour, q) else Inr (regs_of_reply r, q))"

definition setregs_msg :: "qemu_regs_t \<Rightarrow> u8 list" where
  "setregs_msg regs = str ''G'' @ hex_bytes (concat (map (\<lambda>w. map (byte_of w) [0, 1, 2, 3]) regs))"

definition qemu_setregs :: "'q peer \<Rightarrow> qemu_regs_t \<Rightarrow> 'q \<Rightarrow> bool \<times> 'q" where
  "qemu_setregs ask regs q = (let (q, r) = ask q (setregs_msg regs) in (cstr r = str ''OK'', q))"

definition qemu_single_step :: "'q peer \<Rightarrow> 'q \<Rightarrow> 'q" where
  "qemu_single_step ask q = fst (ask q (str ''vCont;s:1''))"

definition qemu_break :: "'q peer \<Rightarrow> u32 \<Rightarrow> 'q \<Rightarrow> 'q" where
  "qemu_break ask entry q = fst (ask q (str ''Z0,'' @ fmt_08x entry @ str '',4''))"

definition qemu_remove_breakpoint :: "'q peer \<Rightarrow> u32 \<Rightarrow> 'q \<Rightarrow> 'q" where
  "qemu_remove_breakpoint ask entry q = fst (ask q (str ''z0,'' @ fmt_08x entry @ str '',4''))"

definition qemu_continue :: "'q peer \<Rightarrow> 'q \<Rightarrow> 'q" where
  "qemu_continue ask q = fst (ask q (str ''vCont;c:1''))"

section \<open>The two machines in step\<close>

record 'q difftest =
  dt_nemu :: nemu
  dt_qemu :: 'q
  dt_regs :: qemu_regs_t

definition dt_run :: "(nemu \<Rightarrow> 'a res) \<Rightarrow> 'q difftest \<Rightarrow> ('a, 'q difftest) outcome" where
  "dt_run f z = (case f (dt_nemu z) of
     Inl (e, s) \<Rightarrow> Inl (e, z\<lparr>dt_nemu := s\<rparr>) | Inr (x, s) \<Rightarrow> Inr (x, z\<lparr>dt_nemu := s\<rparr>))"

definition dt_getregs :: "'q peer \<Rightarrow> 'q difftest \<Rightarrow> (unit, 'q difftest) outcome" where
  "dt_getregs ask z = (case qemu_getregs ask (dt_qemu z) of
     Inl (e, q) \<Rightarrow> Inl (e, z\<lparr>dt_qemu := q\<rparr>) | Inr (r, q) \<Rightarrow> Inr ((), z\<lparr>dt_qemu := q, dt_regs := r\<rparr>))"

definition dt_setregs :: "'q peer \<Rightarrow> qemu_regs_t \<Rightarrow> 'q difftest \<Rightarrow> 'q difftest" where
  "dt_setregs ask regs z = z\<lparr>dt_regs := regs, dt_qemu := snd (qemu_setregs ask regs (dt_qemu z))\<rparr>"

text \<open>After a mismatch QEMU is stepped twice more and the process aborted.\<close>

definition difftest_finish_qemu :: "'q peer \<Rightarrow> 'q difftest \<Rightarrow> ('a, 'q difftest) outcome" where
  "difftest_finish_qemu ask z =
     bind_r (dt_getregs ask (z\<lparr>dt_qemu := qemu_single_step ask (dt_qemu z)\<rparr>))
       (\<lambda>_ z. bind_r (dt_getregs ask (z\<lparr>dt_qemu := qemu_single_step ask (dt_qemu z)\<rparr>))
          (\<lambda>_ z. Inl (AssertFail, z)))"

definition regs_agree :: "qemu_regs_t \<Rightarrow> CPU_state \<Rightarrow> bool" where
  "regs_agree regs c \<longleftrightarrow> regs ! qr_pc = pc c \<and> list_all (\<lambda>i. regs ! i = gpr c i) [0 ..< 32] \<and> regs ! qr_hi = hi c \<and>
     regs ! qr_lo = lo c \<and> regs ! qr_sr = cp0 c (12, 0) \<and> regs ! qr_cause = cp0 c (13, 0)"

definition difftest_check_registers :: "'q peer \<Rightarrow> 'q difftest \<Rightarrow> (unit, 'q difftest) outcome" where
  "difftest_check_registers ask z =
     (if regs_agree (dt_regs z) (cpu (dt_nemu z)) then Inr ((), z) else difftest_finish_qemu ask z)"

abbreviation (input) EXC_IBE :: u32 where "EXC_IBE \<equiv> 6"
abbreviation (input) EXC_DBE :: u32 where "EXC_DBE \<equiv> 7"

definition difftest_sync_regs :: "'q peer \<Rightarrow> u32 \<Rightarrow> 'q difftest \<Rightarrow> 'q difftest" where
  "difftest_sync_regs ask i z =
     (let regs = dt_regs z; c = cpu (dt_nemu z); rt = inst_rt i
      in if inst_is_mfc0 i then
           (if inst_rd i = 15 \<or> inst_rd i = 16 then dt_setregs ask (regs[rt := gpr c rt]) z
            else if inst_rd i = 9 then z\<lparr>dt_nemu := set_gpr rt (regs ! rt) (dt_nemu z)\<rparr>
            else if inst_rd i = 13 then
              (if (bf_get 2 5 (regs ! qr_cause) = EXC_IBE \<or> bf_get 2 5 (regs ! qr_cause) = EXC_DBE) \<and>
                  (cp0_get cause_ExcCode c = EXC_AdEL \<or> cp0_get cause_ExcCode c = EXC_AdES)
               then dt_setregs ask (regs[qr_cause := bf_set 2 5 (cp0_get cause_ExcCode c) (regs ! qr_cause), rt := gpr c rt]) z
               else z)
            else z)
         else if inst_is_load_mmio i regs then dt_setregs ask (regs[qr_pc := pc c, rt := gpr c rt]) z
         else if inst_is_store_mmio i regs then dt_setregs ask (regs[qr_pc := pc c]) z
         else z)"

text \<open>One round of the loop; the result is whether it goes on.\<close>

definition difftest_compare :: "'q peer \<Rightarrow> u32 \<Rightarrow> 'q difftest \<Rightarrow> (bool, 'q difftest) outcome" where
  "difftest_compare ask i z =
     (let z = difftest_sync_regs ask i z;
          cause = dt_regs z ! qr_cause;
          z = z\<lparr>dt_nemu := on_cpu (\<lambda>c. cp0_set cause_TI (bf_get 30 (Suc 0) cause) (cp0_set cause_IP (bf_get 8 8 cause) c)) (dt_nemu z)\<rparr>
      in bind_r (difftest_check_registers ask z) (\<lambda>_ z. Inr (True, z)))"

definition difftest_round :: "'q peer \<Rightarrow> float_ops \<Rightarrow> config \<Rightarrow> 'q difftest \<Rightarrow> (bool, 'q difftest) outcome" where
  "difftest_round ask fo cfg z =
     bind_r (dt_run (\<lambda>s. dbg_vaddr_read cfg (pc (cpu s)) 4 s) z)
       (\<lambda>i z. bind_r (dt_run (cpu_exec fo cfg 1) z)
          (\<lambda>_ z. if nemu_state (dt_nemu z) = NEMU_END then Inr (False, z)
                  else let z = (if \<not> inst_is_mmio i (dt_regs z) then z\<lparr>dt_qemu := qemu_single_step ask (dt_qemu z)\<rparr> else z)
                       in bind_r (dt_getregs ask z)
                            (\<lambda>_ z. if pc (cpu (dt_nemu z)) \<noteq> dt_regs z ! qr_pc \<and>
                                       (inst_is_branch i \<or> pc_in_ex_entry (pc (cpu (dt_nemu z))))
                                    then let z = difftest_sync_regs ask i z
                                         in bind_r (dt_run (\<lambda>s. dbg_vaddr_read cfg (pc (cpu s)) 4 s) z)
                                              (\<lambda>i z. bind_r (dt_run (cpu_exec fo cfg 1) z) (\<lambda>_. difftest_compare ask i))
                                    else difftest_compare ask i z)))"

partial_function (option) difftest_loop :: "'q peer \<Rightarrow> float_ops \<Rightarrow> config \<Rightarrow> 'q difftest \<Rightarrow> (unit, 'q difftest) outcome option" where
  "difftest_loop ask fo cfg z =
     (case difftest_round ask fo cfg z of
        Inl e \<Rightarrow> Some (Inl e)
      | Inr (b, z) \<Rightarrow> if b then difftest_loop ask fo cfg z else Some (Inr ((), z)))"

definition difftest_body :: "'q peer \<Rightarrow> float_ops \<Rightarrow> config \<Rightarrow> monitor \<Rightarrow> 'q \<Rightarrow> (unit, 'q difftest) outcome option" where
  "difftest_body ask fo cfg m q =
     (let q = qemu_remove_breakpoint ask (elf_entry m) (qemu_continue ask (qemu_break ask (elf_entry m) q));
          s = on_cpu (\<lambda>c. c\<lparr>pc := elf_entry m\<rparr>) (mon_nemu m)
      in case dt_getregs ask \<lparr>dt_nemu = s, dt_qemu = q, dt_regs = replicate 40 0\<rparr> of
           Inl e \<Rightarrow> Some (Inl e)
         | Inr (_, z) \<Rightarrow>
             difftest_loop ask fo cfg
               (dt_setregs ask ((map (gpr (cpu s)) [0 ..< 32] @ drop 32 (dt_regs z))[qr_pc := elf_entry m]) z))"

section \<open>Branches\<close>

fun is_branch_label :: "label \<Rightarrow> bool" where
  "is_branch_label (In_branch _) = True"
| "is_branch_label _ = False"

lemma is_branch_label_iff: "is_branch_label l \<longleftrightarrow> (\<exists>b. l = In_branch b)"
  by (cases l) simp_all

lemma branch_tables:
  "map is_branch_label opcode_table = map (\<lambda>k. 2 \<le> k \<and> k \<le> 7 \<or> 0x14 \<le> k \<and> k \<le> 0x17) [0 ..< 64]"
  "map is_branch_label special_table = map (\<lambda>k. k = 8 \<or> k = 9) [0 ..< 64]"
  "map is_branch_label regimm_table = map (\<lambda>k. k \<le> 3 \<or> 0x10 \<le> k \<and> k \<le> 0x13) [0 ..< 32]"
  "map is_branch_label cop0_table_func = replicate 64 False" "map is_branch_label cop0_table_rs = replicate 32 False"
  "map is_branch_label cop1_table_rs_S = replicate 64 False" "map is_branch_label cop1_table_rs_D = replicate 64 False"
  "map is_branch_label cop1_table_rs_W = replicate 64 False" "map is_branch_label cop1_table_rs = replicate 32 False"
  "map is_branch_label special2_table = replicate 64 False" "map is_branch_label bshfl_table = replicate 32 False"
  "map is_branch_label special3_table = replicate 64 False"
  by code_simp+


lemma table_branch:
  assumes "map is_branch_label t = map P [0 ..< n]" and "k < n"
  shows "is_branch_label (t ! k) = P k"
proof -
  have "length t = n" using arg_cong [OF assms(1), of length] by simp
  then show ?thesis using arg_cong [OF assms(1), of "\<lambda>xs. xs ! k"] assms(2) by simp
qed

lemma table_no_branch:
  assumes "map is_branch_label t = replicate n False"
  shows "table_get t k \<noteq> Some (In_branch b)"
proof
  assume *: "table_get t k = Some (In_branch b)"
  have "length t = n" using arg_cong [OF assms, of length] by simp
  then show False using * arg_cong [OF assms, of "\<lambda>xs. xs ! k"] by (auto simp: table_get_def split: if_splits)
qed

text \<open>
  The instructions that differential testing takes for branches are exactly those that the decoder sends
  to a handler of \<^verbatim>\<open>branch.h\<close>; the branches on a floating point condition, whose handler is in
  \<^verbatim>\<open>float.h\<close>, are not among them although they have a delay slot.
\<close>

lemma branch_instructions:
  "(inst_is_branch i \<longleftrightarrow> (\<exists>b. decoder_get_handler i = Some (In_branch b))) \<and>
   decoder_get_handler 0x45000001 = Some (In_float_move L_bc1) \<and> \<not> inst_is_branch 0x45000001"
proof (intro conjI)
  note lt = inst_field_bounds [of i]
  consider (special) "inst_op i = 0" | (regimm) "inst_op i = 1" | (cop) "inst_op i \<in> {0x10, 0x11, 0x1c, 0x1f}"
    | (opcode) "inst_op i \<notin> {0, 1, 0x10, 0x11, 0x1c, 0x1f}"
    by auto
  then show "inst_is_branch i \<longleftrightarrow> (\<exists>b. decoder_get_handler i = Some (In_branch b))"
  proof cases
    case special
    then show ?thesis
      using table_branch [OF branch_tables(2) lt(6)] decode_special [OF special]
      by (simp add: inst_is_branch_def is_branch_label_iff)
  next
    case regimm
    then have "decoder_get_handler i = Some (regimm_table ! inst_rt i)"
      using lt(2) by (simp add: decoder_get_handler_def table_get_def table_lengths)
    then show ?thesis
      using table_branch [OF branch_tables(3) lt(2)] regimm by (simp add: inst_is_branch_def is_branch_label_iff)
  next
    case cop
    then have "decoder_get_handler i \<noteq> Some (In_branch b)" for b
      using branch_tables(4-12) [THEN table_no_branch, of _ b] by (auto simp: decoder_get_handler_def)
    moreover have "\<not> inst_is_branch i" using cop by (auto simp: inst_is_branch_def)
    ultimately show ?thesis by simp
  next
    case opcode
    then show ?thesis
      using table_branch [OF branch_tables(1) lt(5)] decode_opcode [OF opcode]
      by (auto simp: inst_is_branch_def is_branch_label_iff)
  qed
  show "decoder_get_handler 0x45000001 = Some (In_float_move L_bc1)" "\<not> inst_is_branch 0x45000001"
    by (simp_all add: decoder_get_handler_def inst_op_def inst_rs_def bf_get_def table_get_def cop1_table_rs_def inst_is_branch_def)
qed


section \<open>Registers sent and received\<close>

lemma nibbles: "drop_bit 4 (b :: u8) = b div 16" "b AND 0xf = b mod 16"
proof -
  show "drop_bit 4 b = b div 16" by (simp add: drop_bit_eq_div)
  have "b AND 0xf = take_bit 4 b" by (simp add: take_bit_eq_mask mask_eq_exp_minus_1)
  then show "b AND 0xf = b mod 16" by (simp add: take_bit_eq_mod)
qed

lemma hex_pair: "hex_encode (drop_bit 4 b) # hex_encode (b AND 0xf) # xs = fmt_02x b @ xs"
  by (simp add: fmt_02x_def hex_encode_def nibbles)

lemma hex_bytes_append: "hex_bytes (xs @ ys) = hex_bytes xs @ hex_bytes ys"
  by (induction xs) simp_all

lemma length_hex_bytes: "length (hex_bytes xs) = 2 * length xs"
  by (induction xs) simp_all

lemma decode_hex_bytes:
  "decode_hex_loop v wt (hex_bytes bs) = v + wt * of_nat (foldr (\<lambda>b a. unat b + 256 * a) bs 0)"
proof (induction bs arbitrary: v wt)
  case (Cons b bs)
  obtain x y where xy: "fmt_02x b = [x, y]" "isxdigit x" "isxdigit y" "16 * unat (hex_nibble x) + unat (hex_nibble y) = unat b"
    by (rule fmt_02x_digits)
  have "gdb_decode_hex x y = of_nat (16 * unat (hex_nibble x) + unat (hex_nibble y))"
    using xy(2,3) by (simp add: gdb_decode_hex_def)
  then have "gdb_decode_hex x y = ucast b" unfolding xy(4) by simp
  moreover have "ucast (ucast b :: u16) = (ucast b :: u64)" by (rule bit_eqI) (auto simp: bit_simps dest: bit_imp_le_length)
  ultimately have "(ucast (gdb_decode_hex x y) :: u64) = of_nat (unat b)" by simp
  moreover have "hex_bytes (b # bs) = x # y # hex_bytes bs" unfolding hex_bytes.simps hex_pair xy(1) by simp
  ultimately show ?case using Cons xy(2,3) by (simp add: algebra_simps)
qed simp

lemma unat_byte_of: "unat (byte_of w k) = unat w div 2 ^ (8 * k) mod 256"
  using mod_less [OF unat_u32_less [of w]]
  unfolding byte_of_def unsigned_ucast_eq unsigned_drop_bit_eq by (simp add: drop_bit_eq_div take_bit_eq_mod)

lemma bytes_of_nat:
  fixes n :: nat
  assumes "n < 2 ^ 32"
  shows "n mod 256 + 256 * (n div 2 ^ 8 mod 256 + 256 * (n div 2 ^ 16 mod 256 + 256 * (n div 2 ^ 24))) = n \<and> n div 2 ^ 24 mod 256 = n div 2 ^ 24"
proof -
  have q: "n div 2 ^ 8 = n div 256" "n div 2 ^ 16 = n div 256 div 256" "n div 2 ^ 24 = n div 256 div 256 div 256"
    by (simp_all add: div_mult2_eq [symmetric])
  have "n div 256 div 256 div 256 mod 256 = n div 256 div 256 div 256"
    using assms by (intro mod_less) (simp add: less_mult_imp_div_less)
  then show ?thesis unfolding q by (simp only: mod_mult_div_eq)
qed

lemma decode_word: "ucast (gdb_decode_hex_str (hex_bytes (map (byte_of w) [0, 1, 2, 3]))) = w"
proof -
  have "foldr (\<lambda>b a. unat b + 256 * a) (map (byte_of w) [0, 1, 2, 3]) 0 = unat w"
    using bytes_of_nat [OF unat_u32_less [of w]] unfolding list.map foldr.simps comp_apply unat_byte_of by simp
  moreover have "ucast (ucast w :: u64) = w" by (rule bit_eqI) (auto simp: bit_simps dest: bit_imp_le_length)
  ultimately show ?thesis by (simp add: gdb_decode_hex_str_def decode_hex_bytes del: hex_bytes.simps list.map)
qed


lemma chunk:
  assumes "\<And>x. length (f x) = n" and "i < length xs"
  shows "take n (drop (n * i) (concat (map f xs) @ rest)) = f (xs ! i)"
  using assms(2)
proof (induction xs arbitrary: i)
  case (Cons x xs)
  then show ?case using assms(1) by (cases i) (auto simp: assms(1))
qed simp

lemma regs_roundtrip:
  assumes "length regs = 40"
  shows "regs_of_reply (tl (setregs_msg regs) @ rest) = regs"
proof -
  let ?f = "\<lambda>w. hex_bytes (map (byte_of w) [0, 1, 2, 3])"
  have "hex_bytes (concat (map (\<lambda>w. map (byte_of w) [0, 1, 2, 3]) rs)) = concat (map ?f rs)" for rs
    by (induction rs) (simp_all add: hex_bytes_append)
  then have msg: "tl (setregs_msg regs) = concat (map ?f regs)" by (simp add: setregs_msg_def str_def)
  show ?thesis
  proof (rule nth_equalityI)
    fix i
    assume "i < length (regs_of_reply (tl (setregs_msg regs) @ rest))"
    then have i: "i < length regs" using assms by (simp add: regs_of_reply_def)
    have "take 8 (drop (8 * i) (concat (map ?f regs) @ rest)) = ?f (regs ! i)"
      by (rule chunk) (simp_all add: length_hex_bytes i del: hex_bytes.simps)
    then show "regs_of_reply (tl (setregs_msg regs) @ rest) ! i = regs ! i"
      using i assms decode_word by (simp add: regs_of_reply_def msg del: hex_bytes.simps list.map)
  qed (simp add: regs_of_reply_def assms)
qed

lemma length_setregs_msg: "length (tl (setregs_msg regs)) = 8 * length regs"
  by (simp add: setregs_msg_def str_def length_hex_bytes length_concat comp_def sum_list_triv)

text \<open>
  Registers survive the way to QEMU and back. When QEMU answers the request for its registers with the
  digits of the last request that set them, followed by whatever other registers it has, then
  reading returns what was set.
\<close>

lemma qemu_regs_roundtrip:
  assumes "length regs = 40" and "snd (ask (snd (qemu_setregs ask regs q)) (str ''g'')) = tl (setregs_msg regs) @ rest"
  shows "\<exists>q'. qemu_getregs ask (snd (qemu_setregs ask regs q)) = Inr (regs, q')"
proof -
  have "320 \<le> length (tl (setregs_msg regs) @ rest)" using assms(1) length_setregs_msg [of regs] by simp
  then show ?thesis
    using assms(2) regs_roundtrip [OF assms(1), of rest] by (auto simp: qemu_getregs_def split: prod.split)
qed

text \<open>A QEMU that always has the registers given to it, and the registers of the emulator as QEMU would report them.\<close>

definition fixed_peer :: "qemu_regs_t \<Rightarrow> unit peer" where
  "fixed_peer regs q msg = ((), if msg = str ''g'' then tl (setregs_msg regs) else str ''OK'')"

lemma fixed_peer_getregs: "length regs = 40 \<Longrightarrow> qemu_getregs (fixed_peer regs) q = Inr (regs, ())"
  using regs_roundtrip [of regs "[]"] length_setregs_msg [of regs] by (simp add: qemu_getregs_def fixed_peer_def)

definition regs_of :: "CPU_state \<Rightarrow> qemu_regs_t" where
  "regs_of c = map (gpr c) [0 ..< 32] @ [cp0 c (12, 0), lo c, hi c, cp0 c (8, 0), cp0 c (13, 0), pc c, 0, 0]"

lemma regs_of: "length (regs_of c) = 40" "regs_agree (regs_of c) c" "regs_of c ! qr_pc = pc c" "regs_of c ! qr_cause = cp0 c (13, 0)"
  by (simp_all add: regs_of_def regs_agree_def nth_append list_all_iff)

section \<open>Rounds\<close>

lemma difftest_finish_fails: "difftest_finish_qemu ask z \<noteq> Inr r"
  by (auto simp: difftest_finish_qemu_def bind_r_def split: sum.split prod.split)

lemma bind_finish: "bind_r (difftest_finish_qemu ask z) f = difftest_finish_qemu ask z"
  by (simp add: difftest_finish_qemu_def bind_r_assoc)

text \<open>
  What a comparison should find. The registers of QEMU are numbered as the GDB protocol of MIPS
  numbers them: 0 to 31 the general registers, 32 Status, 33 LO, 34 HI, 36 Cause and 37 the program
  counter. Bits 8 to 15 of Cause are the pending interrupts, bit 30 is the timer's.
\<close>

definition pending_bits :: "nat set" where
  "pending_bits = {8 .. 15} \<union> {30}"

definition agree_but_pending :: "u32 list \<Rightarrow> CPU_state \<Rightarrow> bool" where
  "agree_but_pending r c \<longleftrightarrow> r ! 37 = pc c \<and> (\<forall>g < 32. r ! g = gpr c g) \<and> r ! 34 = hi c \<and> r ! 33 = lo c \<and>
     r ! 32 = cp0 c (12, 0) \<and> (\<forall>b < 32. b \<notin> pending_bits \<longrightarrow> bit (r ! 36) b = bit (cp0 c (13, 0)) b)"

definition set_cause :: "u32 \<Rightarrow> nemu \<Rightarrow> nemu" where
  "set_cause w s = s\<lparr>cpu := (cpu s)\<lparr>cp0 := (cp0 (cpu s))((13, 0) := w)\<rparr>\<rparr>"

text \<open>
  Instructions that are exempt from the full comparison: moves from coprocessor 0, and loads and stores of words
  in the uncached segment, where the devices are.
\<close>

definition uncached_access :: "u32 \<Rightarrow> (nat \<Rightarrow> u32) \<Rightarrow> bool" where
  "uncached_access i g \<longleftrightarrow> inst_op i \<in> {0x23, 0x2b} \<and>
     0xA0000000 \<le> g (inst_rs i) + inst_simm i \<and> g (inst_rs i) + inst_simm i < 0xC0000000"

definition exempt :: "u32 \<Rightarrow> (nat \<Rightarrow> u32) \<Rightarrow> bool" where
  "exempt i g \<longleftrightarrow> inst_op i = 0x10 \<and> inst_rs i = 0 \<and> inst_shamt i = 0 \<or> uncached_access i g"

text \<open>The pending interrupts and the timer flag of the emulator are those of QEMU.\<close>

definition take_irqs :: "qemu_regs_t \<Rightarrow> nemu \<Rightarrow> nemu" where
  "take_irqs regs = on_cpu (\<lambda>c. cp0_set cause_TI (bf_get 30 (Suc 0) (regs ! qr_cause)) (cp0_set cause_IP (bf_get 8 8 (regs ! qr_cause)) c))"

lemma take_irqs_cause:
  "take_irqs r s = set_cause (cp0 (cpu (take_irqs r s)) (13, 0)) s"
  "bit (cp0 (cpu (take_irqs r s)) (13, 0)) b \<longleftrightarrow> b < 32 \<and> (if b \<in> pending_bits then bit (r ! 36) b else bit (cp0 (cpu s) (13, 0)) b)"
  by (auto simp: take_irqs_def set_cause_def on_cpu_def cp0_set.simps bit_bf_set bit_bf_get pending_bits_def dest: bit_imp_le_length)

lemma regs_agree_take_irqs:
  "regs_agree r (cpu (take_irqs r s)) \<longleftrightarrow> agree_but_pending r (cpu s)"
  "agree_but_pending r (cpu s) \<Longrightarrow> take_irqs r s = set_cause (r ! 36) s"
proof -
  have c: "cp0 (cpu (take_irqs r s)) (13, 0) = r ! 36 \<longleftrightarrow> (\<forall>b < 32. b \<notin> pending_bits \<longrightarrow> bit (r ! 36) b = bit (cp0 (cpu s) (13, 0)) b)"
    by (auto simp: bit_eq_iff take_irqs_cause(2) dest: bit_imp_le_length)
  have "pc (cpu (take_irqs r s)) = pc (cpu s)" "gpr (cpu (take_irqs r s)) = gpr (cpu s)" "hi (cpu (take_irqs r s)) = hi (cpu s)"
    "lo (cpu (take_irqs r s)) = lo (cpu s)" "cp0 (cpu (take_irqs r s)) (12, 0) = cp0 (cpu s) (12, 0)"
    by (simp_all add: take_irqs_def cp0_set.simps)
  with c show "regs_agree r (cpu (take_irqs r s)) \<longleftrightarrow> agree_but_pending r (cpu s)"
    unfolding regs_agree_def agree_but_pending_def by (auto simp: list_all_iff)
  show "agree_but_pending r (cpu s) \<Longrightarrow> take_irqs r s = set_cause (r ! 36) s"
    using c take_irqs_cause(1) [of r s] by (simp add: agree_but_pending_def)
qed

lemma difftest_compare_eq:
  "difftest_compare ask i z =
     (let z = difftest_sync_regs ask i z; z = z\<lparr>dt_nemu := take_irqs (dt_regs z) (dt_nemu z)\<rparr>
      in if regs_agree (dt_regs z) (cpu (dt_nemu z)) then Inr (True, z) else difftest_finish_qemu ask z)"
  by (simp add: difftest_compare_def difftest_check_registers_def take_irqs_def bind_finish Let_def)

text \<open>What the adjustment before a comparison leaves alone.\<close>

lemma exempt_iff:
  "uncached_access i (\<lambda>g. regs ! g) \<longleftrightarrow> inst_is_mmio i regs" "exempt i (\<lambda>g. regs ! g) \<longleftrightarrow> inst_is_mfc0 i \<or> inst_is_mmio i regs"
  by (auto simp: exempt_def uncached_access_def inst_is_mfc0_def inst_is_mmio_def inst_is_load_mmio_def inst_is_store_mmio_def Let_def)

lemma sync_plain: "\<not> exempt i (\<lambda>g. dt_regs z ! g) \<Longrightarrow> difftest_sync_regs ask i z = z"
  by (simp add: exempt_iff inst_is_mmio_def difftest_sync_regs_def Let_def)

lemma sync_keeps:
  "g < 35 \<Longrightarrow> g \<noteq> inst_rt i \<Longrightarrow> dt_regs (difftest_sync_regs ask i z) ! g = dt_regs z ! g"
  "dt_nemu (difftest_sync_regs ask i z) = dt_nemu z \<or> (\<exists>v. dt_nemu (difftest_sync_regs ask i z) = set_gpr (inst_rt i) v (dt_nemu z))"
  by (auto simp: difftest_sync_regs_def Let_def dt_setregs_def)

text \<open>
  The outcome of a comparison: the registers \<open>r\<close> that QEMU reported, the instructions \<open>is\<close> that the emulator
  executed for it, its state \<open>u\<close> then and \<open>v\<close> after the comparison. HI, LO, Status and the general registers agree, save that an
  exempt instruction excuses its register \<^verbatim>\<open>rt\<close>. Without exempt instructions the program counter and
  Cause agree too, and the emulator only takes over pending interrupts.
\<close>

definition compared :: "u32 list \<Rightarrow> u32 list \<Rightarrow> nemu \<Rightarrow> nemu \<Rightarrow> bool" where
  "compared r is u v \<longleftrightarrow> r ! 34 = hi (cpu v) \<and> r ! 33 = lo (cpu v) \<and> r ! 32 = cp0 (cpu v) (12, 0) \<and>
     (\<forall>g < 32. r ! g = gpr (cpu v) g \<or> (\<exists>i \<in> set is. exempt i (\<lambda>g. r ! g)) \<and> g \<in> inst_rt ` set is) \<and>
     ((\<forall>i \<in> set is. \<not> exempt i (\<lambda>g. r ! g)) \<longrightarrow> agree_but_pending r (cpu u) \<and> v = set_cause (r ! 36) u)"

lemma difftest_compare_Inr:
  assumes "difftest_compare ask i z = Inr (b, z')"
  obtains "b" and "dt_nemu z' = take_irqs (dt_regs z') (dt_nemu (difftest_sync_regs ask i z))"
    and "dt_regs z' = dt_regs (difftest_sync_regs ask i z)" and "regs_agree (dt_regs z') (cpu (dt_nemu z'))"
  using assms by (auto simp: difftest_compare_eq Let_def difftest_finish_fails split: if_splits)

lemma compare_agrees:
  assumes "difftest_compare ask i z = Inr (b, z')" and "\<And>g. g < 35 \<Longrightarrow> g \<notin> K \<Longrightarrow> dt_regs z ! g = r ! g" and "K \<subseteq> {..< 32}"
  shows "r ! 34 = hi (cpu (dt_nemu z'))" and "r ! 33 = lo (cpu (dt_nemu z'))" and "r ! 32 = cp0 (cpu (dt_nemu z')) (12, 0)"
    and "g < 32 \<Longrightarrow> g \<notin> insert (inst_rt i) K \<Longrightarrow> r ! g = gpr (cpu (dt_nemu z')) g"
proof -
  have r: "dt_regs z' ! g = r ! g" if "g < 35" "g \<notin> insert (inst_rt i) K" for g
    using assms(1,2) that sync_keeps(1) [of g i ask z] by (auto elim: difftest_compare_Inr)
  have "regs_agree (dt_regs z') (cpu (dt_nemu z'))" using assms(1) by (rule difftest_compare_Inr)
  moreover have "34 \<notin> insert (inst_rt i) K" "33 \<notin> insert (inst_rt i) K" "32 \<notin> insert (inst_rt i) K"
    using assms(3) inst_field_bounds(2) [of i] by auto
  ultimately show "r ! 34 = hi (cpu (dt_nemu z'))" "r ! 33 = lo (cpu (dt_nemu z'))" "r ! 32 = cp0 (cpu (dt_nemu z')) (12, 0)"
    "g < 32 \<Longrightarrow> g \<notin> insert (inst_rt i) K \<Longrightarrow> r ! g = gpr (cpu (dt_nemu z')) g"
    using r [of 34] r [of 33] r [of 32] r [of g] by (simp_all add: regs_agree_def list_all_iff)
qed

lemma compare_plain:
  assumes "difftest_compare ask i z = Inr (b, z')" and "\<not> exempt i (\<lambda>g. dt_regs z ! g)"
  shows "agree_but_pending (dt_regs z) (cpu (dt_nemu z))" and "dt_nemu z' = set_cause (dt_regs z ! 36) (dt_nemu z)"
  using assms regs_agree_take_irqs [of "dt_regs z" "dt_nemu z"]
  by (auto simp: difftest_compare_eq sync_plain Let_def difftest_finish_fails split: if_splits)

lemma comparedI:
  assumes "r ! 34 = hi (cpu v)" and "r ! 33 = lo (cpu v)" and "r ! 32 = cp0 (cpu v) (12, 0)"
    and "\<And>g. g < 32 \<Longrightarrow> g \<notin> inst_rt ` set is \<Longrightarrow> r ! g = gpr (cpu v) g" and "\<exists>i \<in> set is. exempt i (\<lambda>g. r ! g)"
  shows "compared r is u v"
  using assms unfolding compared_def by blast

lemma compared_plainI:
  assumes "agree_but_pending r (cpu u)" and "v = set_cause (r ! 36) u"
  shows "compared r is u v"
  using assms by (simp add: compared_def agree_but_pending_def set_cause_def)

lemma compared_one:
  assumes "difftest_compare ask i z = Inr (b, z')"
  shows "compared (dt_regs z) [i] (dt_nemu z) (dt_nemu z')"
proof (cases "exempt i (\<lambda>g. dt_regs z ! g)")
  case True
  then show ?thesis by (intro comparedI compare_agrees [OF assms, of "{}"]) auto
next
  case False
  show ?thesis by (intro compared_plainI compare_plain [OF assms False])
qed

lemma compared_two:
  assumes "difftest_compare ask j (difftest_sync_regs ask i z\<lparr>dt_nemu := u\<rparr>) = Inr (b, z')"
  shows "compared (dt_regs z) [i, j] u (dt_nemu z')"
proof -
  have "dt_regs (difftest_sync_regs ask i z\<lparr>dt_nemu := u\<rparr>) ! g = dt_regs z ! g" if "g < 35" "g \<notin> {inst_rt i}" for g
    using that sync_keeps(1) by simp
  note agrees = compare_agrees [OF assms this]
  show ?thesis
  proof (cases "exempt i (\<lambda>g. dt_regs z ! g) \<or> exempt j (\<lambda>g. dt_regs z ! g)")
    case True
    then show ?thesis by (intro comparedI agrees) (use inst_field_bounds(2) [of i] in auto)
  next
    case False
    then have s: "difftest_sync_regs ask i z = z" by (simp add: sync_plain)
    have "agree_but_pending (dt_regs z) (cpu u) \<and> dt_nemu z' = set_cause (dt_regs z ! 36) u"
      using compare_plain [OF assms] False unfolding s by simp
    then show ?thesis by (intro compared_plainI) simp_all
  qed
qed

text \<open>
  A round that goes on, from the state \<open>z\<close> of both machines to \<open>z'\<close>. The emulator executes the
  instruction at its program counter, QEMU takes a single step unless the instruction accesses a device, and
  reports its registers. When the program counters differ after a branch, which QEMU executes together with its
  delay slot, or at one of the six exception vectors, the emulator executes one more instruction.
\<close>

definition reported :: "'q peer \<Rightarrow> u32 \<Rightarrow> 'q difftest \<Rightarrow> u32 list" where
  "reported ask i z = regs_of_reply (snd (ask
     (if uncached_access i (\<lambda>g. dt_regs z ! g) then dt_qemu z else fst (ask (dt_qemu z) (str ''vCont;s:1''))) (str ''g'')))"

definition checked_round :: "'q peer \<Rightarrow> float_ops \<Rightarrow> config \<Rightarrow> 'q difftest \<Rightarrow> 'q difftest \<Rightarrow> bool" where
  "checked_round ask fo cfg z z' \<longleftrightarrow>
     (\<exists>i s0 s1. dbg_vaddr_read cfg (pc (cpu (dt_nemu z))) 4 (dt_nemu z) = Inr (i, s0) \<and> cpu_exec fo cfg 1 s0 = Inr ((), s1) \<and>
        nemu_state s1 \<noteq> NEMU_END \<and>
        (let r = reported ask i z
         in if pc (cpu s1) \<noteq> r ! 37 \<and> ((\<exists>b. decoder_get_handler i = Some (In_branch b)) \<or>
              pc (cpu s1) \<in> {0xbfc00200, 0xbfc00380, 0xbfc00400, 0x80000000, 0x80000180, 0x80000200})
            then \<exists>s2 j s3 u. (s2 = s1 \<or> exempt i (\<lambda>g. r ! g) \<and> (\<exists>v. s2 = set_gpr (inst_rt i) v s1)) \<and>
                   dbg_vaddr_read cfg (pc (cpu s2)) 4 s2 = Inr (j, s3) \<and> cpu_exec fo cfg 1 s3 = Inr ((), u) \<and>
                   compared r [i, j] u (dt_nemu z')
            else compared r [i] s1 (dt_nemu z')))"

lemma checked_roundI:
  assumes "dbg_vaddr_read cfg (pc (cpu (dt_nemu z))) 4 (dt_nemu z) = Inr (i, s0)" and "cpu_exec fo cfg 1 s0 = Inr ((), s1)"
    and "nemu_state s1 \<noteq> NEMU_END" and "r = reported ask i z"
    and "if pc (cpu s1) \<noteq> r ! 37 \<and> ((\<exists>b. decoder_get_handler i = Some (In_branch b)) \<or>
              pc (cpu s1) \<in> {0xbfc00200, 0xbfc00380, 0xbfc00400, 0x80000000, 0x80000180, 0x80000200})
         then \<exists>s2 j s3 u. (s2 = s1 \<or> exempt i (\<lambda>g. r ! g) \<and> (\<exists>v. s2 = set_gpr (inst_rt i) v s1)) \<and>
                dbg_vaddr_read cfg (pc (cpu s2)) 4 s2 = Inr (j, s3) \<and> cpu_exec fo cfg 1 s3 = Inr ((), u) \<and>
                compared r [i, j] u (dt_nemu z')
         else compared r [i] s1 (dt_nemu z')"
  shows "checked_round ask fo cfg z z'"
  using assms unfolding checked_round_def Let_def by blast

lemma dt_run_Inr: "dt_run f z = Inr (x, z') \<longleftrightarrow> (\<exists>s. f (dt_nemu z) = Inr (x, s) \<and> z' = z\<lparr>dt_nemu := s\<rparr>)"
  by (auto simp: dt_run_def split: sum.split prod.split)

lemma dt_getregs_Inr:
  "dt_getregs ask z = Inr (x, z') \<longleftrightarrow> (let a = ask (dt_qemu z) (str ''g'')
     in 320 \<le> length (snd a) \<and> z' = z\<lparr>dt_qemu := fst a, dt_regs := regs_of_reply (snd a)\<rparr>)"
  by (auto simp: dt_getregs_def qemu_getregs_def Let_def split: prod.split sum.split)

lemma ahead_iff:
  "inst_is_branch i \<or> pc_in_ex_entry a \<longleftrightarrow> (\<exists>b. decoder_get_handler i = Some (In_branch b)) \<or>
     a \<in> {0xbfc00200, 0xbfc00380, 0xbfc00400, 0x80000000, 0x80000180, 0x80000200}"
  using branch_instructions [of i] by (auto simp: pc_in_ex_entry_def)

lemma difftest_round_checked:
  assumes "difftest_round ask fo cfg z = Inr (True, z')"
  shows "checked_round ask fo cfg z z'"
proof -
  obtain i s0 s1 where i: "dbg_vaddr_read cfg (pc (cpu (dt_nemu z))) 4 (dt_nemu z) = Inr (i, s0)"
    "cpu_exec fo cfg 1 s0 = Inr ((), s1)" "nemu_state s1 \<noteq> NEMU_END"
    and rest: "bind_r (dt_getregs ask (if \<not> inst_is_mmio i (dt_regs z) then z\<lparr>dt_nemu := s1, dt_qemu := qemu_single_step ask (dt_qemu z)\<rparr> else z\<lparr>dt_nemu := s1\<rparr>))
       (\<lambda>_ z. if pc (cpu (dt_nemu z)) \<noteq> dt_regs z ! qr_pc \<and> (inst_is_branch i \<or> pc_in_ex_entry (pc (cpu (dt_nemu z))))
              then let z = difftest_sync_regs ask i z
                   in bind_r (dt_run (\<lambda>s. dbg_vaddr_read cfg (pc (cpu s)) 4 s) z)
                        (\<lambda>i z. bind_r (dt_run (cpu_exec fo cfg 1) z) (\<lambda>_. difftest_compare ask i))
              else difftest_compare ask i z) = Inr (True, z')"
    using assms unfolding difftest_round_def
    by (elim bind_r_InrE) (auto simp: dt_run_Inr Let_def split: if_splits)
  define r where "r = reported ask i z"
  obtain q where cmp: "(if pc (cpu s1) \<noteq> r ! 37 \<and> (inst_is_branch i \<or> pc_in_ex_entry (pc (cpu s1)))
      then let z = difftest_sync_regs ask i (z\<lparr>dt_nemu := s1, dt_qemu := q, dt_regs := r\<rparr>)
           in bind_r (dt_run (\<lambda>s. dbg_vaddr_read cfg (pc (cpu s)) 4 s) z)
                (\<lambda>i z. bind_r (dt_run (cpu_exec fo cfg 1) z) (\<lambda>_. difftest_compare ask i))
      else difftest_compare ask i (z\<lparr>dt_nemu := s1, dt_qemu := q, dt_regs := r\<rparr>)) = Inr (True, z')"
    using rest by (elim bind_r_InrE) (auto simp: dt_getregs_Inr Let_def r_def reported_def exempt_iff qemu_single_step_def split: if_splits)
  let ?z = "z\<lparr>dt_nemu := s1, dt_qemu := q, dt_regs := r\<rparr>"
  show ?thesis
  proof (cases "pc (cpu s1) \<noteq> r ! 37 \<and> (inst_is_branch i \<or> pc_in_ex_entry (pc (cpu s1)))")
    case True
    let ?y = "difftest_sync_regs ask i ?z"
    obtain j s3 u where j: "dbg_vaddr_read cfg (pc (cpu (dt_nemu ?y))) 4 (dt_nemu ?y) = Inr (j, s3)"
      "cpu_exec fo cfg 1 s3 = Inr ((), u)" "difftest_compare ask j (?y\<lparr>dt_nemu := u\<rparr>) = Inr (True, z')"
      using cmp True by (auto simp: Let_def dt_run_Inr elim!: bind_r_InrE)
    have "compared r [i, j] u (dt_nemu z')" using compared_two [OF j(3)] by simp
    moreover have "dt_nemu ?y = s1 \<or> exempt i (\<lambda>g. r ! g) \<and> (\<exists>v. dt_nemu ?y = set_gpr (inst_rt i) v s1)"
      using sync_keeps(2) [of ask i ?z] sync_plain [of i ?z ask] by (cases "exempt i (\<lambda>g. r ! g)") auto
    ultimately show ?thesis
      using j(1,2) True unfolding ahead_iff by (intro checked_roundI [OF i r_def]) (subst if_P; blast)
  next
    case False
    then have "difftest_compare ask i ?z = Inr (True, z')" using cmp unfolding if_not_P [OF False] by simp
    then have "compared r [i] s1 (dt_nemu z')" using compared_one [of ask i ?z True z'] by simp
    then show ?thesis
      using False unfolding ahead_iff by (intro checked_roundI [OF i r_def]) (simp only: if_False)
  qed
qed

lemma difftest_round_end: "difftest_round ask fo cfg z = Inr (False, z') \<Longrightarrow> nemu_state (dt_nemu z') = NEMU_END"
  unfolding difftest_round_def
  by (elim bind_r_InrE) (auto simp: Let_def bind_r_eq_Inr elim!: difftest_compare_Inr split: if_splits)

lemma difftest_loop_rounds:
  assumes "difftest_loop ask fo cfg z = Some r" and "r = Inr ((), t)"
  shows "\<exists>f n. f 0 = z \<and> difftest_round ask fo cfg (f n) = Inr (False, t) \<and>
     (\<forall>k < n. difftest_round ask fo cfg (f k) = Inr (True, f (Suc k)))"
  using assms
proof (induction arbitrary: rule: difftest_loop.raw_induct [rotated 1, consumes 1])
  case (1 loop ask fo cfg z r)
  then obtain b z' where round: "difftest_round ask fo cfg z = Inr (b, z')"
    by (auto split: sum.splits)
  show ?case
  proof (cases b)
    case False
    then have "z' = t" using 1 round by auto
    then show ?thesis using round False by (intro exI [of _ "\<lambda>_. z"] exI [of _ 0]) simp
  next
    case True
    then have "loop ask fo cfg z' = Some r" using 1(2) round by simp
    then obtain f n where f: "f 0 = z'" "difftest_round ask fo cfg (f n) = Inr (False, t)"
      "\<forall>k < n. difftest_round ask fo cfg (f k) = Inr (True, f (Suc k))"
      using 1(1,3) by blast
    then show ?thesis
      using round True
      by (intro exI [of _ "\<lambda>k. case k of 0 \<Rightarrow> z | Suc j \<Rightarrow> f j"] exI [of _ "Suc n"]) (auto split: nat.split)
  qed
qed


section \<open>Machines in step\<close>

text \<open>QEMU before its step in round \<open>k\<close> when every round steps it, and what it answers in this round.\<close>

fun qemu_at :: "'q peer \<Rightarrow> 'q \<Rightarrow> nat \<Rightarrow> 'q" where
  "qemu_at ask q 0 = q"
| "qemu_at ask q (Suc k) = fst (ask (fst (ask (qemu_at ask q k) (str ''vCont;s:1''))) (str ''g''))"

definition qemu_answer :: "'q peer \<Rightarrow> 'q \<Rightarrow> nat \<Rightarrow> u8 list" where
  "qemu_answer ask q k = snd (ask (fst (ask (qemu_at ask q k) (str ''vCont;s:1''))) (str ''g''))"

lemma round_plain:
  assumes "dbg_vaddr_read cfg (pc (cpu s)) 4 s = Inr (i, s)" and "cpu_exec fo cfg 1 s = Inr ((), s')" and "\<not> exempt i (\<lambda>g. regs ! g)"
  shows "nemu_state s' = NEMU_END \<Longrightarrow> difftest_round ask fo cfg \<lparr>dt_nemu = s, dt_qemu = q, dt_regs = regs\<rparr> = Inr (False, \<lparr>dt_nemu = s', dt_qemu = q, dt_regs = regs\<rparr>)"
    and "nemu_state s' \<noteq> NEMU_END \<Longrightarrow> 320 \<le> length (qemu_answer ask q 0) \<Longrightarrow> r = regs_of_reply (qemu_answer ask q 0) \<Longrightarrow> \<not> exempt i (\<lambda>g. r ! g) \<Longrightarrow>
       r ! 37 = pc (cpu s') \<or> \<not> (inst_is_branch i \<or> pc_in_ex_entry (pc (cpu s'))) \<Longrightarrow>
       difftest_round ask fo cfg \<lparr>dt_nemu = s, dt_qemu = q, dt_regs = regs\<rparr> =
         (let z = \<lparr>dt_nemu = take_irqs r s', dt_qemu = qemu_at ask q 1, dt_regs = r\<rparr>
          in if agree_but_pending r (cpu s') then Inr (True, z) else difftest_finish_qemu ask z)"
proof -
  have nm: "\<not> inst_is_mmio i regs" using assms(3) by (simp add: exempt_iff)
  show "nemu_state s' = NEMU_END \<Longrightarrow> difftest_round ask fo cfg \<lparr>dt_nemu = s, dt_qemu = q, dt_regs = regs\<rparr> = Inr (False, \<lparr>dt_nemu = s', dt_qemu = q, dt_regs = regs\<rparr>)"
    using assms(1,2) by (simp add: difftest_round_def dt_run_def)
  assume a: "nemu_state s' \<noteq> NEMU_END" "320 \<le> length (qemu_answer ask q 0)" "r = regs_of_reply (qemu_answer ask q 0)" "\<not> exempt i (\<lambda>g. r ! g)"
    "r ! 37 = pc (cpu s') \<or> \<not> (inst_is_branch i \<or> pc_in_ex_entry (pc (cpu s')))"
  have get: "qemu_getregs ask (qemu_single_step ask q) = Inr (r, qemu_at ask q 1)"
    using a(2,3) by (simp add: qemu_getregs_def qemu_answer_def qemu_single_step_def prod.case_eq_if)
  have "difftest_compare ask i \<lparr>dt_nemu = s', dt_qemu = qemu_at ask q 1, dt_regs = r\<rparr> =
      (let z = \<lparr>dt_nemu = take_irqs r s', dt_qemu = qemu_at ask q 1, dt_regs = r\<rparr>
       in if agree_but_pending r (cpu s') then Inr (True, z) else difftest_finish_qemu ask z)"
    using a(4) by (simp add: difftest_compare_eq sync_plain regs_agree_take_irqs Let_def)
  then show "difftest_round ask fo cfg \<lparr>dt_nemu = s, dt_qemu = q, dt_regs = regs\<rparr> =
      (let z = \<lparr>dt_nemu = take_irqs r s', dt_qemu = qemu_at ask q 1, dt_regs = r\<rparr>
       in if agree_but_pending r (cpu s') then Inr (True, z) else difftest_finish_qemu ask z)"
    using assms(1,2) a(1,5) nm get by (auto simp: difftest_round_def dt_run_def dt_getregs_def)
qed

lemma exempt_cong: "(\<And>g. g < 32 \<Longrightarrow> f g = h g) \<Longrightarrow> exempt i f = exempt i h"
  using inst_field_bounds(1) [of i] by (simp add: exempt_def uncached_access_def)

lemma qemu_at_shift: "qemu_at ask (qemu_at ask q m) 1 = qemu_at ask q (Suc m)" "qemu_answer ask (qemu_at ask q m) 0 = qemu_answer ask q m"
  by (simp_all add: qemu_answer_def)

lemma set_cause_id: "set_cause (cp0 (cpu s) (13, 0)) s = s"
  by (simp add: set_cause_def)

text \<open>Rounds in which QEMU is in step pass, one after the other.\<close>

lemma difftest_in_step:
  assumes "\<forall>k < m. dbg_vaddr_read cfg (pc (cpu (S k))) 4 (S k) = Inr (w k, S k) \<and> cpu_exec fo cfg 1 (S k) = Inr ((), S (Suc k)) \<and>
      \<not> exempt (w k) (gpr (cpu (S k)))"
    and "\<forall>k < m. nemu_state (S (Suc k)) \<noteq> NEMU_END \<and> \<not> exempt (w k) (gpr (cpu (S (Suc k)))) \<and> 320 \<le> length (qemu_answer ask q k) \<and>
      agree_but_pending (regs_of_reply (qemu_answer ask q k)) (cpu (S (Suc k))) \<and>
      regs_of_reply (qemu_answer ask q k) ! 36 = cp0 (cpu (S (Suc k))) (13, 0)"
    and "\<forall>g < 32. regs ! g = gpr (cpu (S 0)) g"
  shows "\<exists>r. (\<forall>g < 32. r ! g = gpr (cpu (S m)) g) \<and>
     difftest_loop ask fo cfg \<lparr>dt_nemu = S 0, dt_qemu = q, dt_regs = regs\<rparr> =
     difftest_loop ask fo cfg \<lparr>dt_nemu = S m, dt_qemu = qemu_at ask q m, dt_regs = r\<rparr>"
  using assms(1,2)
proof (induction m)
  case 0
  then show ?case using assms(3) by auto
next
  case (Suc m)
  then obtain r where r: "\<forall>g < 32. r ! g = gpr (cpu (S m)) g" "difftest_loop ask fo cfg \<lparr>dt_nemu = S 0, dt_qemu = q, dt_regs = regs\<rparr> =
      difftest_loop ask fo cfg \<lparr>dt_nemu = S m, dt_qemu = qemu_at ask q m, dt_regs = r\<rparr>" by auto
  let ?r = "regs_of_reply (qemu_answer ask q m)"
  have run: "dbg_vaddr_read cfg (pc (cpu (S m))) 4 (S m) = Inr (w m, S m)" "cpu_exec fo cfg 1 (S m) = Inr ((), S (Suc m))"
    and step: "nemu_state (S (Suc m)) \<noteq> NEMU_END" "320 \<le> length (qemu_answer ask q m)" "agree_but_pending ?r (cpu (S (Suc m)))"
      "?r ! 36 = cp0 (cpu (S (Suc m))) (13, 0)"
    using Suc.prems by auto
  have g: "\<forall>g < 32. ?r ! g = gpr (cpu (S (Suc m))) g" "?r ! 37 = pc (cpu (S (Suc m)))" using step(3) by (simp_all add: agree_but_pending_def)
  have ex: "\<not> exempt (w m) (\<lambda>g. r ! g)" "\<not> exempt (w m) (\<lambda>g. ?r ! g)"
    using Suc.prems r(1) g(1) exempt_cong [of "\<lambda>g. r ! g" "gpr (cpu (S m))"] exempt_cong [of "\<lambda>g. ?r ! g" "gpr (cpu (S (Suc m)))"] by auto
  have "take_irqs ?r (S (Suc m)) = S (Suc m)" using regs_agree_take_irqs(2) [OF step(3)] step(4) set_cause_id by simp
  then have "difftest_round ask fo cfg \<lparr>dt_nemu = S m, dt_qemu = qemu_at ask q m, dt_regs = r\<rparr> =
      Inr (True, \<lparr>dt_nemu = S (Suc m), dt_qemu = qemu_at ask q (Suc m), dt_regs = ?r\<rparr>)"
    using round_plain(2) [OF run ex(1) step(1), of ask "qemu_at ask q m" ?r] step(2,3) ex(2) g(2) unfolding qemu_at_shift by simp
  then have "difftest_loop ask fo cfg \<lparr>dt_nemu = S m, dt_qemu = qemu_at ask q m, dt_regs = r\<rparr> =
      difftest_loop ask fo cfg \<lparr>dt_nemu = S (Suc m), dt_qemu = qemu_at ask q (Suc m), dt_regs = ?r\<rparr>"
    by (subst difftest_loop.simps) (simp del: qemu_at.simps)
  then show ?case using r(2) g(1) by (intro exI [of _ ?r]) simp
qed

text \<open>The last round before the next step, and the end of the test when the guest stops in it.\<close>

lemma difftest_reaches:
  assumes "\<forall>k \<le> m. dbg_vaddr_read cfg (pc (cpu (S k))) 4 (S k) = Inr (w k, S k) \<and> cpu_exec fo cfg 1 (S k) = Inr ((), S (Suc k)) \<and>
      \<not> exempt (w k) (gpr (cpu (S k)))"
    and "\<forall>k < m. nemu_state (S (Suc k)) \<noteq> NEMU_END \<and> \<not> exempt (w k) (gpr (cpu (S (Suc k)))) \<and> 320 \<le> length (qemu_answer ask q k) \<and>
      agree_but_pending (regs_of_reply (qemu_answer ask q k)) (cpu (S (Suc k))) \<and>
      regs_of_reply (qemu_answer ask q k) ! 36 = cp0 (cpu (S (Suc k))) (13, 0)"
    and "\<forall>g < 32. regs ! g = gpr (cpu (S 0)) g"
  obtains r where "difftest_loop ask fo cfg \<lparr>dt_nemu = S 0, dt_qemu = q, dt_regs = regs\<rparr> =
      difftest_loop ask fo cfg \<lparr>dt_nemu = S m, dt_qemu = qemu_at ask q m, dt_regs = r\<rparr>"
    and "dbg_vaddr_read cfg (pc (cpu (S m))) 4 (S m) = Inr (w m, S m)" and "cpu_exec fo cfg 1 (S m) = Inr ((), S (Suc m))"
    and "\<not> exempt (w m) (\<lambda>g. r ! g)"
proof -
  obtain r where r: "\<forall>g < 32. r ! g = gpr (cpu (S m)) g" "difftest_loop ask fo cfg \<lparr>dt_nemu = S 0, dt_qemu = q, dt_regs = regs\<rparr> =
      difftest_loop ask fo cfg \<lparr>dt_nemu = S m, dt_qemu = qemu_at ask q m, dt_regs = r\<rparr>"
    using difftest_in_step [of m cfg S w fo ask q regs] assms by auto
  then have "\<not> exempt (w m) (\<lambda>g. r ! g)" using assms(1) exempt_cong [of "\<lambda>g. r ! g" "gpr (cpu (S m))"] by auto
  then show ?thesis using that [OF r(2)] assms(1) by blast
qed

lemma difftest_passes:
  assumes "\<forall>k \<le> m. dbg_vaddr_read cfg (pc (cpu (S k))) 4 (S k) = Inr (w k, S k) \<and> cpu_exec fo cfg 1 (S k) = Inr ((), S (Suc k)) \<and>
      \<not> exempt (w k) (gpr (cpu (S k)))"
    and "\<forall>k < m. nemu_state (S (Suc k)) \<noteq> NEMU_END \<and> \<not> exempt (w k) (gpr (cpu (S (Suc k)))) \<and> 320 \<le> length (qemu_answer ask q k) \<and>
      agree_but_pending (regs_of_reply (qemu_answer ask q k)) (cpu (S (Suc k))) \<and>
      regs_of_reply (qemu_answer ask q k) ! 36 = cp0 (cpu (S (Suc k))) (13, 0)"
    and "\<forall>g < 32. regs ! g = gpr (cpu (S 0)) g"
    and "nemu_state (S (Suc m)) = NEMU_END"
  shows "\<exists>r. difftest_loop ask fo cfg \<lparr>dt_nemu = S 0, dt_qemu = q, dt_regs = regs\<rparr> =
     Some (Inr ((), \<lparr>dt_nemu = S (Suc m), dt_qemu = qemu_at ask q m, dt_regs = r\<rparr>))"
proof (rule difftest_reaches [OF assms(1-3)])
  fix r
  assume r: "difftest_loop ask fo cfg \<lparr>dt_nemu = S 0, dt_qemu = q, dt_regs = regs\<rparr> =
      difftest_loop ask fo cfg \<lparr>dt_nemu = S m, dt_qemu = qemu_at ask q m, dt_regs = r\<rparr>"
    and run: "dbg_vaddr_read cfg (pc (cpu (S m))) 4 (S m) = Inr (w m, S m)" "cpu_exec fo cfg 1 (S m) = Inr ((), S (Suc m))"
    "\<not> exempt (w m) (\<lambda>g. r ! g)"
  show ?thesis
    using round_plain(1) [OF run assms(4), of ask "qemu_at ask q m"] by (subst r, subst difftest_loop.simps) simp
qed

lemma finish_outcome:
  "\<exists>f z'. difftest_finish_qemu ask z = Inl (f, z') \<and> f \<in> {AssertFail, UndefinedBehaviour} \<and> dt_nemu z' = dt_nemu z"
  by (auto simp: difftest_finish_qemu_def dt_getregs_def qemu_getregs_def bind_r_def split: prod.split)


section \<open>A test of two instructions\<close>

text \<open>
  A machine without exceptions and interrupts, whose program is a \<^verbatim>\<open>nop\<close> and a word that is
  no instruction, which stops the emulator.
\<close>

definition bare_config :: config where
  "bare_config = mips32r1_defconfig\<lparr>CONFIG_EXCEPTION := False, CONFIG_INTR := False\<rparr>"

definition stop_prog :: "nat \<Rightarrow> u8" where
  "stop_prog k = (if 4 \<le> k \<and> k < 8 then 0xFF else 0)"

definition stop_machine :: nemu where
  "stop_machine = (rom_state 0)\<lparr>bram := stop_prog\<rparr>"

lemma bare_config [simp]:
  "\<not> CONFIG_EXCEPTION bare_config" "\<not> CONFIG_INTR bare_config" "\<not> CONFIG_MMU_CACHE bare_config"
  by (simp_all add: bare_config_def mips32r1_defconfig_def)

lemma stop_fetch:
  assumes "memory_regions s = memory_regions (rom_state 0)" and "bram s = stop_prog" and "a = 0xbfc00000 \<and> w = 0 \<or> a = 0xbfc00004 \<and> w = 0xFFFFFFFF"
  shows "\<exists>m. vaddr_read bare_config a 4 s = Inr (w, s\<lparr>mmu_cache := m\<rparr>)" and "dbg_vaddr_read bare_config a 4 s = Inr (w, s)"
proof -
  have ram: "bram_ram.in_ram bare_config a 4 s"
    using assms(1,3) by (auto simp: bram_ram.in_ram_def is_unmapped_def find_device_page ioremap_def)
       (simp_all add: rom_state_def bare_config_def mips32r1_defconfig_def)
  have w: "mem_read stop_prog (bram_ram.offset bare_config a) 4 = w"
    using assms(3) by (auto simp: ioremap_def bare_config_def mips32r1_defconfig_def stop_prog_def mem_read_4 mem_read32_def le32_def)
  show "\<exists>m. vaddr_read bare_config a 4 s = Inr (w, s\<lparr>mmu_cache := m\<rparr>)"
    using bram_ram.vaddr_read_in_ram [OF _ ram] assms(2) w by simp
  show "dbg_vaddr_read bare_config a 4 s = Inr (w, s)"
    using bram_ram.dbg_read_in_ram [OF ram] assms(2) w by simp
qed

lemma bare_step:
  assumes "vaddr_read bare_config (pc (cpu s)) 4 (set_gpr 0 0 (s\<lparr>nemu_state := NEMU_RUNNING\<rparr>)) = Inr (w, u)" and "exec_inst fo bare_config w u = Inr ((), t)"
    and "nemu_state s \<noteq> NEMU_END"
  shows "cpu_exec fo bare_config 1 s = Inr ((), if nemu_state t = NEMU_RUNNING then t\<lparr>nemu_state := NEMU_STOP\<rparr> else t)"
  using assms by (simp add: cpu_exec_def cpu_step_def exec_entry_def check_exception_def)

lemma stop_machine_runs:
  obtains t u where "cpu_exec fo bare_config 1 stop_machine = Inr ((), t)" and "pc (cpu t) = 0xbfc00004" and "nemu_state t = NEMU_STOP"
    and "memory_regions t = memory_regions (rom_state 0)" and "bram t = stop_prog"
    and "cpu_exec fo bare_config 1 t = Inr ((), u)" and "nemu_state u = NEMU_END"
proof -
  let ?s = "set_gpr 0 0 (stop_machine\<lparr>nemu_state := NEMU_RUNNING\<rparr>)"
  have s: "pc (cpu stop_machine) = 0xbfc00000" "nemu_state stop_machine = NEMU_STOP" "is_delayslot (cpu stop_machine) = False"
    by (simp_all add: stop_machine_def rom_state_def zero_cpu_def nemu_globals_def)
  obtain m where m: "vaddr_read bare_config 0xbfc00000 4 ?s = Inr (0, ?s\<lparr>mmu_cache := m\<rparr>)"
    using stop_fetch(1) [of ?s "0xbfc00000" 0] by (auto simp: stop_machine_def set_gpr_def on_cpu_def)
  have nop: "nop_w = 0" by (simp add: mk_R_def bf_set_def mask_eq_exp_minus_1)
  let ?t = "on_cpu (\<lambda>c. inst_end bare_config (c\<lparr>gpr := (gpr c)(0 := gpr c 0)\<rparr>)) (?s\<lparr>mmu_cache := m\<rparr>)"
  have "cpu_exec fo bare_config 1 stop_machine = Inr ((), ?t\<lparr>nemu_state := NEMU_STOP\<rparr>)"
    using bare_step [of stop_machine 0 "?s\<lparr>mmu_cache := m\<rparr>" fo ?t] m s exec_nop [of fo bare_config "?s\<lparr>mmu_cache := m\<rparr>"]
    unfolding nop by (simp add: set_gpr_def on_cpu_def)
  moreover define t where "t = ?t\<lparr>nemu_state := NEMU_STOP\<rparr>"
  ultimately have t: "cpu_exec fo bare_config 1 stop_machine = Inr ((), t)" by simp
  have p: "pc (cpu t) = 0xbfc00004" "nemu_state t = NEMU_STOP" "memory_regions t = memory_regions (rom_state 0)" "bram t = stop_prog"
    using s by (simp_all add: t_def inst_end_def set_gpr_def on_cpu_def stop_machine_def)
  let ?v = "set_gpr 0 0 (t\<lparr>nemu_state := NEMU_RUNNING\<rparr>)"
  have v: "memory_regions ?v = memory_regions (rom_state 0)" "bram ?v = stop_prog" using p by (simp_all add: set_gpr_def on_cpu_def)
  obtain m' where m': "vaddr_read bare_config 0xbfc00004 4 ?v = Inr (0xFFFFFFFF, ?v\<lparr>mmu_cache := m'\<rparr>)"
    using stop_fetch(1) [OF v, of "0xbfc00004" "0xFFFFFFFF"] by auto
  obtain m'' where m'': "vaddr_read bare_config 0xbfc00004 4 (?v\<lparr>mmu_cache := m'\<rparr>) = Inr (0xFFFFFFFF, ?v\<lparr>mmu_cache := m''\<rparr>)"
    using stop_fetch(1) [of "?v\<lparr>mmu_cache := m'\<rparr>" "0xbfc00004" "0xFFFFFFFF"] v by auto
  have "decoder_get_handler 0xFFFFFFFF = Some inv"
    by (simp add: decoder_get_handler_def inst_op_def bf_get_def table_get_def opcode_table_def)
  then obtain u where "exec_inst fo bare_config 0xFFFFFFFF (?v\<lparr>mmu_cache := m'\<rparr>) = Inr ((), u)" "nemu_state u = NEMU_END"
    using m'' p(1) by (simp add: exec_inst_def exec_inv_def fin_def finish_handler_def)
  then have "cpu_exec fo bare_config 1 t = Inr ((), u)" "nemu_state u = NEMU_END"
    using bare_step [of t "0xFFFFFFFF" "?v\<lparr>mmu_cache := m'\<rparr>" fo u] m' p by simp_all
  then show ?thesis using that [OF t p] by blast
qed

text \<open>Against a QEMU that reports the registers of the emulator after the first instruction the test passes.\<close>

lemma not_exempt_words: "\<not> exempt 0 g" "\<not> exempt 0xFFFFFFFF g"
  by (simp_all add: exempt_def uncached_access_def inst_op_def bf_get_def)

lemma regs_of_agrees: "agree_but_pending (regs_of c) c" "regs_of c ! 36 = cp0 c (13, 0)" "g < 32 \<Longrightarrow> regs_of c ! g = gpr c g"
  by (simp_all add: regs_of_def agree_but_pending_def nth_append)

lemma fixed_peer_answer:
  assumes "length regs = 40"
  shows "320 \<le> length (qemu_answer (fixed_peer regs) q k)" and "regs_of_reply (qemu_answer (fixed_peer regs) q k) = regs"
  using assms regs_roundtrip [of regs "[]"] length_setregs_msg [of regs] by (simp_all add: qemu_answer_def fixed_peer_def)

lemma stop_machine_trace:
  obtains S w r where "S (0 :: nat) = stop_machine" and "nemu_state (S 1) = NEMU_STOP" and "nemu_state (S 2) = NEMU_END" and "r = regs_of (cpu (S 1))"
    and "\<forall>k \<le> 1. dbg_vaddr_read bare_config (pc (cpu (S k))) 4 (S k) = Inr (w k, S k) \<and>
      cpu_exec no_float bare_config 1 (S k) = Inr ((), S (Suc k)) \<and> \<not> exempt (w k) (gpr (cpu (S k)))"
    and "\<forall>k < 1. nemu_state (S (Suc k)) \<noteq> NEMU_END \<and> \<not> exempt (w k) (gpr (cpu (S (Suc k)))) \<and>
      320 \<le> length (qemu_answer (fixed_peer r) () k) \<and> agree_but_pending (regs_of_reply (qemu_answer (fixed_peer r) () k)) (cpu (S (Suc k))) \<and>
      regs_of_reply (qemu_answer (fixed_peer r) () k) ! 36 = cp0 (cpu (S (Suc k))) (13, 0)"
    and "\<forall>g < 32. regs_of (cpu stop_machine) ! g = gpr (cpu (S 0)) g" and "w 0 = 0"
proof -
  obtain t u where tu: "cpu_exec no_float bare_config 1 stop_machine = Inr ((), t)" "pc (cpu t) = 0xbfc00004" "nemu_state t = NEMU_STOP"
    "memory_regions t = memory_regions (rom_state 0)" "bram t = stop_prog" "cpu_exec no_float bare_config 1 t = Inr ((), u)" "nemu_state u = NEMU_END"
    by (rule stop_machine_runs)
  define S where "S = (\<lambda>k :: nat. if k = 0 then stop_machine else if k = 1 then t else u)"
  define w where "w = (\<lambda>k :: nat. if k = 0 then 0 else 0xFFFFFFFF :: u32)"
  have "dbg_vaddr_read bare_config (pc (cpu stop_machine)) 4 stop_machine = Inr (0, stop_machine)"
    "dbg_vaddr_read bare_config (pc (cpu t)) 4 t = Inr (0xFFFFFFFF, t)"
    using stop_fetch(2) [of stop_machine "0xbfc00000" 0] stop_fetch(2) [of t "0xbfc00004" "0xFFFFFFFF"] tu by (simp_all add: stop_machine_def)
  then have run: "\<forall>k \<le> 1. dbg_vaddr_read bare_config (pc (cpu (S k))) 4 (S k) = Inr (w k, S k) \<and>
      cpu_exec no_float bare_config 1 (S k) = Inr ((), S (Suc k)) \<and> \<not> exempt (w k) (gpr (cpu (S k)))"
    using tu(1,6) by (auto simp: S_def w_def not_exempt_words le_Suc_eq)
  show ?thesis
    by (rule that [OF _ _ _ refl run])
       (use tu(3,7) in \<open>simp_all add: S_def w_def not_exempt_words fixed_peer_answer regs_of regs_of_agrees\<close>)
qed



end
