(* ===== verification/Kernel_Debug.thy ===== *)
theory Kernel_Debug
  imports Boot Gdb_Memory
begin

text \<open>
  Help for debugging a kernel, \<^verbatim>\<open>src/monitor/kernel-debug.c\<close>: printing strings, argument vectors and
  system calls of the guest, and comparing the memory with the file the kernel was loaded from. What is
  printed is the result of a function; the numbers are those of \<^verbatim>\<open>include/utils/syscalls.h\<close>.
\<close>

section \<open>Formats\<close>

definition hex_char :: "nat \<Rightarrow> char" where
  "hex_char d = (if d > 9 then char_of (87 + d) else char_of (48 + d))"

text \<open>The conversions \<^verbatim>\<open>%08x\<close>, \<^verbatim>\<open>%02x\<close> of a number without sign, and \<^verbatim>\<open>%d\<close>.\<close>

definition pr_08x :: "u32 \<Rightarrow> string" where
  "pr_08x w = map (\<lambda>k. hex_char (unat (bf_get (4 * k) 4 w))) [7, 6, 5, 4, 3, 2, 1, 0]"

definition pr_02x :: "u32 \<Rightarrow> string" where
  "pr_02x w = (if w < 0x100 then drop 6 (pr_08x w) else dropWhile (\<lambda>c. c = CHR ''0'') (pr_08x w))"

fun pr_nat :: "nat \<Rightarrow> string" where
  "pr_nat n = (if n < 10 then [char_of (48 + n)] else pr_nat (n div 10) @ [char_of (48 + n mod 10)])"

declare pr_nat.simps [simp del]

definition pr_d :: "u32 \<Rightarrow> string" where
  "pr_d w = (if sint w < 0 then CHR ''-'' # pr_nat (nat (- sint w)) else pr_nat (nat (sint w)))"

section \<open>Strings of the guest\<close>

text \<open>
  A character is printed as itself or, when it is not printable, as a hexadecimal escape of the
  \<^verbatim>\<open>char\<close>, which is signed.
\<close>

definition pr_char :: "u8 \<Rightarrow> string" where
  "pr_char ch = (if 32 \<le> ch \<and> ch \<le> 126 then [char_of (unat ch)] else [CHR 0x5C, CHR ''x''] @ pr_02x (scast ch))"

fun dump_chars :: "config \<Rightarrow> u32 \<Rightarrow> nat \<Rightarrow> nemu \<Rightarrow> string res" where
  "dump_chars cfg addr 0 s = Inr ([], s)"
| "dump_chars cfg addr (Suc n) s =
     bind_r (dbg_vaddr_read cfg addr 1 s)
       (\<lambda>v s. let ch = ucast v :: u8
              in if ch = 0 then Inr ([], s)
                 else bind_r (dump_chars cfg (addr + 1) n s) (\<lambda>txt s. Inr (pr_char ch @ txt, s)))"

definition dump_string :: "config \<Rightarrow> u32 \<Rightarrow> u32 \<Rightarrow> nemu \<Rightarrow> string res" where
  "dump_string cfg addr limit s =
     (if addr = 0 then Inr (''0x0@'' @ [CHR 0x22, CHR 0x22], s)
      else bind_r (dump_chars cfg addr (unat limit) s)
             (\<lambda>txt s. Inr (''0x'' @ pr_08x addr @ ''@'' @ [CHR 0x22] @ txt @ [CHR 0x22], s)))"

fun dump_args :: "config \<Rightarrow> u32 \<Rightarrow> u32 \<Rightarrow> nat \<Rightarrow> nemu \<Rightarrow> string res" where
  "dump_args cfg addr limit 0 s = Inr ([], s)"
| "dump_args cfg addr limit (Suc n) s =
     bind_r (dbg_vaddr_read cfg addr 4 s)
       (\<lambda>argp s. if argp = 0 then Inr ([], s)
                 else bind_r (dump_string cfg argp limit s)
                        (\<lambda>t s. bind_r (dump_args cfg (addr + 4) limit n s) (\<lambda>txt s. Inr (t @ '', '' @ txt, s))))"

definition dump_argv :: "config \<Rightarrow> u32 \<Rightarrow> u32 \<Rightarrow> nemu \<Rightarrow> string res" where
  "dump_argv cfg addr limit s =
     (if addr = 0 then Inr ([], s)
      else bind_r (dump_args cfg addr limit (unat limit) s) (\<lambda>txt s. Inr (''{'' @ txt @ ''}'', s)))"

section \<open>System calls\<close>

text \<open>The calls that are printed without their arguments.\<close>

definition syscall_names_a :: "(nat \<times> string) list" where
  "syscall_names_a = [
     (4024, ''getuid''), (4049, ''geteuid''), (4020, ''getpid''), (4002, ''fork''), (4120, ''clone''),
     (4220, ''fcntl64''), (4066, ''setsid'')]"

definition syscall_names_b :: "(nat \<times> string) list" where
  "syscall_names_b = [
     (4000, ''syscall''), (4001, ''exit''), (4008, ''creat''), (4009, ''link''), (4010, ''unlink''),
     (4012, ''chdir''), (4013, ''time''), (4015, ''chmod''), (4016, ''lchown''), (4017, ''break''),
     (4018, ''unused18''), (4019, ''lseek''), (4022, ''umount''), (4023, ''setuid''), (4025, ''stime''),
     (4026, ''ptrace''), (4027, ''alarm''), (4028, ''unused28''), (4029, ''pause''), (4030, ''utime''),
     (4031, ''stty''), (4032, ''gtty''), (4033, ''access''), (4034, ''nice''), (4035, ''ftime''), (4036, ''sync''),
     (4037, ''kill''), (4038, ''rename''), (4040, ''rmdir''), (4042, ''pipe''), (4043, ''times''), (4044, ''prof''),
     (4046, ''setgid''), (4047, ''getgid''), (4048, ''signal''), (4050, ''getegid''), (4051, ''acct''),
     (4052, ''umount2''), (4053, ''lock''), (4055, ''fcntl''), (4056, ''mpx''), (4057, ''setpgid''),
     (4058, ''ulimit''), (4059, ''unused59''), (4060, ''umask''), (4061, ''chroot''), (4062, ''ustat''),
     (4064, ''getppid''), (4065, ''getpgrp''), (4067, ''sigaction''), (4068, ''sgetmask''), (4069, ''ssetmask''),
     (4070, ''setreuid''), (4071, ''setregid''), (4072, ''sigsuspend''), (4073, ''sigpending''),
     (4074, ''sethostname''), (4075, ''setrlimit''), (4076, ''getrlimit''), (4077, ''getrusage''),
     (4078, ''gettimeofday''), (4079, ''settimeofday''), (4080, ''getgroups''), (4081, ''setgroups''),
     (4082, ''reserved82''), (4083, ''symlink''), (4084, ''unused84''), (4086, ''uselib''), (4087, ''swapon''),
     (4088, ''reboot''), (4089, ''readdir''), (4090, ''mmap''), (4091, ''munmap''), (4092, ''truncate''),
     (4093, ''ftruncate''), (4094, ''fchmod''), (4095, ''fchown''), (4096, ''getpriority''), (4097, ''setpriority''),
     (4098, ''profil''), (4099, ''statfs''), (4100, ''fstatfs''), (4101, ''ioperm''), (4102, ''socketcall''),
     (4103, ''syslog''), (4104, ''setitimer''), (4105, ''getitimer''), (4109, ''unused109''), (4110, ''iopl''),
     (4111, ''vhangup''), (4112, ''idle''), (4113, ''vm86''), (4114, ''wait4''), (4115, ''swapoff''),
     (4116, ''sysinfo''), (4117, ''ipc''), (4118, ''fsync''), (4119, ''sigreturn''), (4121, ''setdomainname''),
     (4123, ''modify_ldt''), (4124, ''adjtimex''), (4125, ''mprotect''), (4126, ''sigprocmask''),
     (4127, ''create_module''), (4128, ''init_module''), (4129, ''delete_module''), (4130, ''get_kernel_syms''),
     (4131, ''quotactl''), (4132, ''getpgid''), (4133, ''fchdir''), (4134, ''bdflush''), (4135, ''sysfs''),
     (4136, ''personality''), (4137, ''afs_syscall''), (4138, ''setfsuid''), (4139, ''setfsgid''),
     (4140, ''_llseek''), (4141, ''getdents''), (4142, ''_newselect''), (4143, ''flock''), (4144, ''msync''),
     (4145, ''readv''), (4146, ''writev''), (4147, ''cacheflush''), (4148, ''cachectl''), (4149, ''sysmips''),
     (4150, ''unused150''), (4151, ''getsid''), (4152, ''fdatasync''), (4153, ''_sysctl''), (4154, ''mlock''),
     (4155, ''munlock''), (4156, ''mlockall'')]"

definition syscall_names_c :: "(nat \<times> string) list" where
  "syscall_names_c = [
     (4157, ''munlockall''), (4158, ''sched_setparam''), (4159, ''sched_getparam''), (4160, ''sched_setscheduler''),
     (4161, ''sched_getscheduler''), (4162, ''sched_yield''), (4163, ''sched_get_priority_max''),
     (4164, ''sched_get_priority_min''), (4165, ''sched_rr_get_interval''), (4166, ''nanosleep''),
     (4167, ''mremap''), (4168, ''accept''), (4169, ''bind''), (4170, ''connect''), (4171, ''getpeername''),
     (4172, ''getsockname''), (4173, ''getsockopt''), (4174, ''listen''), (4175, ''recv''), (4176, ''recvfrom''),
     (4177, ''recvmsg''), (4178, ''send''), (4179, ''sendmsg''), (4180, ''sendto''), (4181, ''setsockopt''),
     (4182, ''shutdown''), (4183, ''socket''), (4184, ''socketpair''), (4185, ''setresuid''), (4186, ''getresuid''),
     (4187, ''query_module''), (4188, ''poll''), (4189, ''nfsservctl''), (4190, ''setresgid''),
     (4191, ''getresgid''), (4192, ''prctl''), (4193, ''rt_sigreturn''), (4194, ''rt_sigaction''),
     (4195, ''rt_sigprocmask''), (4196, ''rt_sigpending''), (4197, ''rt_sigtimedwait''), (4198, ''rt_sigqueueinfo''),
     (4199, ''rt_sigsuspend''), (4200, ''pread64''), (4201, ''pwrite64''), (4202, ''chown''), (4203, ''getcwd''),
     (4204, ''capget''), (4205, ''capset''), (4206, ''sigaltstack''), (4207, ''sendfile''), (4208, ''getpmsg''),
     (4209, ''putpmsg''), (4210, ''mmap2''), (4211, ''truncate64''), (4212, ''ftruncate64''), (4213, ''stat64''),
     (4214, ''lstat64''), (4215, ''fstat64''), (4216, ''pivot_root''), (4217, ''mincore''), (4218, ''madvise''),
     (4219, ''getdents64''), (4221, ''reserved221''), (4222, ''gettid''), (4223, ''readahead''),
     (4224, ''setxattr''), (4225, ''lsetxattr''), (4226, ''fsetxattr''), (4227, ''getxattr''), (4228, ''lgetxattr''),
     (4229, ''fgetxattr''), (4230, ''listxattr''), (4231, ''llistxattr''), (4232, ''flistxattr''),
     (4233, ''removexattr''), (4234, ''lremovexattr''), (4235, ''fremovexattr''), (4236, ''tkill''),
     (4237, ''sendfile64''), (4238, ''futex''), (4239, ''sched_setaffinity''), (4240, ''sched_getaffinity''),
     (4241, ''io_setup''), (4242, ''io_destroy''), (4243, ''io_getevents''), (4244, ''io_submit''),
     (4245, ''io_cancel''), (4246, ''exit_group''), (4247, ''lookup_dcookie''), (4248, ''epoll_create''),
     (4249, ''epoll_ctl''), (4250, ''epoll_wait''), (4251, ''remap_file_pages''), (4252, ''set_tid_address''),
     (4253, ''restart_syscall''), (4254, ''fadvise64''), (4255, ''statfs64''), (4256, ''fstatfs64''),
     (4257, ''timer_create''), (4258, ''timer_settime''), (4259, ''timer_gettime''), (4260, ''timer_getoverrun''),
     (4261, ''timer_delete''), (4262, ''clock_settime''), (4263, ''clock_gettime''), (4264, ''clock_getres''),
     (4265, ''clock_nanosleep''), (4266, ''tgkill''), (4267, ''utimes''), (4268, ''mbind''),
     (4269, ''get_mempolicy''), (4270, ''set_mempolicy''), (4271, ''mq_open''), (4272, ''mq_unlink''),
     (4273, ''mq_timedsend''), (4274, ''mq_timedreceive''), (4275, ''mq_notify''), (4276, ''mq_getsetattr''),
     (4277, ''vserver''), (4278, ''waitid''), (4280, ''add_key''), (4281, ''request_key''), (4282, ''keyctl''),
     (4283, ''set_thread_area''), (4284, ''inotify_init''), (4285, ''inotify_add_watch''),
     (4286, ''inotify_rm_watch''), (4287, ''migrate_pages''), (4288, ''openat'')]"

definition syscall_names_d :: "(nat \<times> string) list" where
  "syscall_names_d = [
     (4289, ''mkdirat''), (4290, ''mknodat''), (4291, ''fchownat''), (4292, ''futimesat''), (4293, ''fstatat64''),
     (4294, ''unlinkat''), (4295, ''renameat''), (4296, ''linkat''), (4297, ''symlinkat''), (4298, ''readlinkat''),
     (4299, ''fchmodat''), (4300, ''faccessat''), (4301, ''pselect6''), (4302, ''ppoll''), (4303, ''unshare''),
     (4304, ''splice''), (4305, ''sync_file_range''), (4306, ''tee''), (4307, ''vmsplice''), (4308, ''move_pages''),
     (4309, ''set_robust_list''), (4310, ''get_robust_list''), (4311, ''kexec_load''), (4312, ''getcpu''),
     (4313, ''epoll_pwait''), (4314, ''ioprio_set''), (4315, ''ioprio_get''), (4316, ''utimensat''),
     (4317, ''signalfd''), (4318, ''timerfd''), (4319, ''eventfd''), (4320, ''fallocate''),
     (4321, ''timerfd_create''), (4322, ''timerfd_gettime''), (4323, ''timerfd_settime''), (4324, ''signalfd4''),
     (4325, ''eventfd2''), (4326, ''epoll_create1''), (4327, ''dup3''), (4328, ''pipe2''), (4329, ''inotify_init1''),
     (4330, ''preadv''), (4331, ''pwritev''), (4332, ''rt_tgsigqueueinfo''), (4333, ''perf_event_open''),
     (4334, ''accept4''), (4335, ''recvmmsg''), (4336, ''fanotify_init''), (4337, ''fanotify_mark''),
     (4338, ''prlimit64''), (4339, ''name_to_handle_at''), (4340, ''open_by_handle_at''), (4341, ''clock_adjtime''),
     (4342, ''syncfs''), (4343, ''sendmmsg''), (4344, ''setns''), (4345, ''process_vm_readv''),
     (4346, ''process_vm_writev''), (4347, ''kcmp''), (4348, ''finit_module''), (4349, ''sched_setattr''),
     (4350, ''sched_getattr''), (4351, ''renameat2''), (4352, ''seccomp''), (4353, ''getrandom''),
     (4354, ''memfd_create''), (4355, ''bpf''), (4356, ''execveat''), (4357, ''userfaultfd''),
     (4358, ''membarrier''), (4359, ''mlock2''), (4360, ''copy_file_range''), (4361, ''preadv2''),
     (4362, ''pwritev2''), (4363, ''pkey_mprotect''), (4364, ''pkey_alloc''), (4365, ''pkey_free''),
     (4366, ''statx'')]"


definition syscall_names :: "(nat \<times> string) list" where
  "syscall_names = syscall_names_a @ syscall_names_b @ syscall_names_c @ syscall_names_d"

definition nl :: string where "nl = [CHR 0x0A]"

text \<open>Text around a string of the guest.\<close>

definition with_string :: "string \<Rightarrow> (nemu \<Rightarrow> string res) \<Rightarrow> string \<Rightarrow> nemu \<Rightarrow> string res" where
  "with_string before f after s = bind_r (f s) (\<lambda>t s. Inr (before @ t @ after, s))"

definition dump_syscall :: "config \<Rightarrow> u32 \<Rightarrow> u32 \<Rightarrow> u32 \<Rightarrow> u32 \<Rightarrow> nemu \<Rightarrow> string res" where
  "dump_syscall cfg v0 a0 a1 a2 s =
     (let name = dump_string cfg a0 40; x1 = ''0x'' @ pr_08x a1
      in if v0 = 4003 then Inr (''read('' @ pr_d a0 @ '', '' @ x1 @ '', '' @ pr_d a2 @ '')'' @ nl, s)
         else if v0 = 4004 then with_string (''write('' @ pr_d a0 @ '', '') (dump_string cfg a1 a2) ('', '' @ pr_d a2 @ '')'' @ nl) s
         else if v0 = 4005 then with_string ''open('' name ('', '' @ pr_d a1 @ '')'' @ nl) s
         else if v0 = 4006 then Inr (''close('' @ pr_d a0 @ '')'' @ nl, s)
         else if v0 = 4122 then Inr (''uname(0x'' @ pr_08x a0 @ '')'' @ nl, s)
         else if v0 = 4045 then Inr (''brk(0x'' @ pr_08x a0 @ '')'' @ nl, s)
         else if v0 = 4085 then with_string ''readlink('' name ('', '' @ x1 @ '', '' @ pr_d a2 @ '')'' @ nl) s
         else if v0 = 4039 then with_string ''mkdir('' name ('', '' @ pr_d a1 @ '')'' @ nl) s
         else if v0 = 4014 then with_string ''mknod('' name ('', '' @ pr_d a1 @ '', ...)'' @ nl) s
         else if v0 = 4021 then
           bind_r (name s) (\<lambda>t. with_string (''mount('' @ t @ '', '') (dump_string cfg a1 40) ('')'' @ nl))
         else if v0 = 4011 then
           bind_r (name s)
             (\<lambda>t s. bind_r (dump_argv cfg a1 40 s)
                (\<lambda>u. with_string (''execve('' @ t @ '', '' @ u @ '', '') (dump_argv cfg a2 40) ('')'' @ nl)))
         else if v0 = 4106 then with_string ''stat('' name ('', '' @ x1 @ '')'' @ nl) s
         else if v0 = 4107 then with_string ''lstat('' name ('', '' @ x1 @ '')'' @ nl) s
         else if v0 = 4108 then Inr (''fstat('' @ pr_d a0 @ '', '' @ x1 @ '')'' @ nl, s)
         else if v0 = 4007 then Inr (''waitpid('' @ pr_d a0 @ '', '' @ x1 @ '', '' @ pr_d a2 @ '')'' @ nl, s)
         else if v0 = 4063 then Inr (''dup2('' @ pr_d a0 @ '', '' @ pr_d a1 @ '')'' @ nl, s)
         else if v0 = 4041 then Inr (''dup('' @ pr_d a0 @ '')'' @ nl, s)
         else if v0 = 4054 then Inr (''ioctl('' @ pr_d a0 @ '', '' @ pr_d a1 @ '', ...)'' @ nl, s)
         else case map_of syscall_names (unat v0) of
                Some f \<Rightarrow> Inr (f @ ''()'' @ nl, s)
              | None \<Rightarrow> Inr (''syscall('' @ pr_d v0 @ '')'' @ nl, s))"

section \<open>Comparing with the file\<close>

text \<open>
  The addresses at which memory and file differ, of the sections that are loaded from the file. Whole words are
  compared, also at the end of a section whose length is no multiple of four.
\<close>

abbreviation (input) SHT_PROGBITS :: u32 where "SHT_PROGBITS \<equiv> 1"
abbreviation (input) SHF_ALLOC :: u32 where "SHF_ALLOC \<equiv> 2"

fun ram_size :: "ram \<Rightarrow> nat" where
  "ram_size Ram_ddr = 0x10000000"
| "ram_size Ram_bram = 0x100000"

fun check_words :: "host_ptr \<Rightarrow> u8 list \<Rightarrow> u32 \<Rightarrow> nat \<Rightarrow> nat list \<Rightarrow> nemu \<Rightarrow> u32 list res" where
  "check_words ptr buf addr off [] s = Inr ([], s)"
| "check_words ptr buf addr off (i # is) s =
     (if snd ptr + i + 4 > ram_size (fst ptr) \<or> off + i + 4 > length buf then Inl (UndefinedBehaviour, s)
      else bind_r (check_words ptr buf addr off is s)
             (\<lambda>bad s. Inr ((if mem_read32 (ram_bytes (fst ptr) s) (snd ptr + i) \<noteq> rd32 buf (off + i)
                            then [addr + of_nat i] else []) @ bad, s)))"

text \<open>The offsets \<^verbatim>\<open>0, 4, ...\<close> below a size.\<close>

definition word_offsets :: "nat \<Rightarrow> nat list" where
  "word_offsets sz = map (\<lambda>k. 4 * k) [0 ..< (sz + 3) div 4]"

definition check_section :: "config \<Rightarrow> u8 list \<Rightarrow> nat \<Rightarrow> nemu \<Rightarrow> u32 list res" where
  "check_section cfg buf i s =
     (let e_shentsize = unat (rd16 buf 46); k = i * e_shentsize + unat (rd32 buf 32)
      in if 2 ^ 31 \<le> i * e_shentsize \<or> length buf < k + 40 then Inl (UndefinedBehaviour, s)
         else if rd32 buf (k + 4) \<noteq> SHT_PROGBITS then Inr ([], s)
         else if rd32 buf (k + 8) AND SHF_ALLOC = 0 then Inr ([], s)
         else bind_r (vaddr_map cfg (rd32 buf (k + 12)) (rd32 buf (k + 20)) s)
                (\<lambda>ptr. check_words ptr buf (rd32 buf (k + 12)) (unat (rd32 buf (k + 16))) (word_offsets (unat (rd32 buf (k + 20))))))"

fun check_sections :: "config \<Rightarrow> u8 list \<Rightarrow> nat list \<Rightarrow> nemu \<Rightarrow> u32 list res" where
  "check_sections cfg buf [] s = Inr ([], s)"
| "check_sections cfg buf (i # is) s =
     bind_r (check_section cfg buf i s) (\<lambda>bad s. bind_r (check_sections cfg buf is s) (\<lambda>more s. Inr (bad @ more, s)))"

definition check_kernel_image :: "config \<Rightarrow> host_os \<Rightarrow> string \<Rightarrow> monitor \<Rightarrow> (u32 list, monitor) outcome" where
  "check_kernel_image cfg os img m =
     bind_r (host_call (read_file os img) m)
       (\<lambda>r m. case r of
                None \<Rightarrow> Inl (AssertFail, m)
              | Some buf \<Rightarrow>
                  if length buf < 52 then Inl (UndefinedBehaviour, m)
                  else if rd32 buf 0 \<noteq> 0x464c457f then Inl (AssertFail, m)
                  else in_nemu (check_sections cfg buf [0 ..< unat (rd16 buf 48)]) m)"


section \<open>Names of system calls\<close>

lemma syscall_names_ok:
  "distinct (map fst syscall_names)"
  "list_all (\<lambda>(n, _). 4000 \<le> n \<and> n \<le> 4366 \<and> n \<notin> {4003, 4004, 4005, 4006, 4122, 4045, 4085, 4039, 4014, 4021, 4011, 4106, 4107,
     4108, 4007, 4063, 4041, 4054}) syscall_names"
  "length syscall_names = 348"
  by (simp_all add: syscall_names_def syscall_names_a_def syscall_names_b_def syscall_names_c_def syscall_names_d_def)

lemma dump_syscall_name:
  assumes "(n, f) \<in> set syscall_names"
  shows "dump_syscall cfg (of_nat n) a0 a1 a2 s = Inr (f @ ''()'' @ nl, s)"
proof -
  have n: "4000 \<le> n" "n \<le> 4366" "n \<notin> {4003, 4004, 4005, 4006, 4122, 4045, 4085, 4039, 4014, 4021, 4011, 4106, 4107,
     4108, 4007, 4063, 4041, 4054}"
    using assms syscall_names_ok(2) by (auto simp: list_all_iff)
  have u: "unat (of_nat n :: u32) = n" using n(2) by (intro unat_of_nat_u32) simp
  have eq: "(of_nat n :: u32) = w \<longleftrightarrow> n = unat w" for w using u by (metis word_unat_eqI)
  have "map_of syscall_names n = Some f" using assms syscall_names_ok(1) by simp
  then show ?thesis using n(3) u by (simp add: dump_syscall_def Let_def eq)
qed


section \<open>Strings in memory\<close>

text \<open>A larger step from an address of DDR memory.\<close>

lemma ddr_shift:
  assumes "is_unmapped a" and "unat (ioremap a) + k < 0x10000000"
  shows "is_unmapped (a + of_nat k)" and "unat (ioremap (a + of_nat k)) = unat (ioremap a) + k"
proof -
  have k: "unat (of_nat k :: u32) = k" using assms(2) by (intro unat_of_nat_u32) simp
  have *: "unat a mod 2 ^ 29 + k < 2 ^ 28" "4 * 2 ^ 29 \<le> unat a" "unat a < 6 * 2 ^ 29"
    using assms by (auto simp: unat_ioremap unmapped_bounds)
  have u: "unat (a + of_nat k) = unat a + k" using unat_add_small [of a "of_nat k"] * k by simp
  have "(unat a + k) mod 2 ^ 29 = unat a mod 2 ^ 29 + k"
    using *(1) by (simp add: mod_add_left_eq [symmetric, of "unat a"] del: mod_add_left_eq)
  then show "unat (ioremap (a + of_nat k)) = unat (ioremap a) + k" by (simp add: unat_ioremap u)
  obtain q r where qr: "unat a = q * 0x20000000 + r" "unat a mod 2 ^ 29 = r"
    using div_mult_mod_eq [of "unat a" "0x20000000"] by (metis power_29)
  then have "q \<le> 5" "r + k < 0x10000000" using * by simp_all
  then have "unat a + k < 6 * 2 ^ 29" using qr(1) by simp
  then show "is_unmapped (a + of_nat k)" using * by (simp add: unmapped_bounds u)
qed

lemma dbg_read_ddr:
  assumes "board s" and "is_unmapped a" and "1 \<le> len" and "len \<le> 4" and "unat (ioremap a) + len \<le> 0x10000000"
  shows "dbg_vaddr_read mips32r1_defconfig a len s = Inr (mem_read (ddr s) (unat (ioremap a)) len, s)"
  using ddr_ram.dbg_read_in_ram [OF in_ddr [OF assms(1-3,5)] assms(3,4)] by simp

lemma ucast_mem_read_1: "(ucast (mem_read m a (Suc 0)) :: u8) = m a"
  by (rule bit_eqI) (auto simp: bit_simps bit_mem_read dest: bit_imp_le_length)

text \<open>The string at an address: its bytes before the first zero, at most \<open>n\<close> of them.\<close>

definition guest_string :: "(nat \<Rightarrow> u8) \<Rightarrow> nat \<Rightarrow> nat \<Rightarrow> u8 list" where
  "guest_string m a n = takeWhile (\<lambda>b. b \<noteq> 0) (map m [a ..< a + n])"

lemma guest_string_Suc: "guest_string m a (Suc n) = (if m a = 0 then [] else m a # guest_string m (Suc a) n)"
proof -
  have "[a ..< a + Suc n] = a # [Suc a ..< Suc a + n]" by (subst upt_conv_Cons) simp_all
  then show ?thesis by (simp add: guest_string_def del: upt_Suc)
qed

lemma dump_chars_ddr:
  assumes "board s" and "is_unmapped a" and "unat (ioremap a) + n \<le> 0x10000000"
  shows "dump_chars mips32r1_defconfig a n s = Inr (concat (map pr_char (guest_string (ddr s) (unat (ioremap a)) n)), s)"
  using assms(2,3)
proof (induction n arbitrary: a)
  case (Suc n)
  let ?p = "unat (ioremap a)"
  have rd: "dbg_vaddr_read mips32r1_defconfig a 1 s = Inr (mem_read (ddr s) ?p 1, s)"
    using dbg_read_ddr [OF assms(1) Suc.prems(1), of 1] Suc.prems(2) by simp
  have rec: "dump_chars mips32r1_defconfig (a + 1) n s = Inr (concat (map pr_char (guest_string (ddr s) (Suc ?p) n)), s)" if "n \<noteq> 0"
    using Suc.IH [of "a + 1"] ddr_shift [of a 1] Suc.prems that by simp
  show ?case
    using rd rec by (cases "n = 0") (simp_all add: guest_string_Suc ucast_mem_read_1 Let_def, simp add: guest_string_def)
qed (simp add: guest_string_def)


text \<open>
  The trace of system calls shows the guest's strings. For a string in DDR memory the trace prints its
  address and, in quotation marks, the bytes before the first zero, at most as many as the limit, each one as
  itself or escaped; the write call is printed with its buffer in this form. The calls without arguments of
  their own are printed with their name, and memory is not touched.
\<close>

theorem dump_syscall_text:
  assumes "board s" and "is_unmapped a" and "unat (ioremap a) + unat n \<le> 0x10000000"
  shows "dump_string mips32r1_defconfig a n s =
       Inr (''0x'' @ pr_08x a @ ''@'' @ [CHR 0x22] @ concat (map pr_char (guest_string (ddr s) (unat (ioremap a)) (unat n))) @ [CHR 0x22], s) \<and>
     dump_syscall mips32r1_defconfig 4004 fd a n s =
       Inr (''write('' @ pr_d fd @ '', 0x'' @ pr_08x a @ ''@'' @ [CHR 0x22] @
         concat (map pr_char (guest_string (ddr s) (unat (ioremap a)) (unat n))) @ [CHR 0x22] @ '', '' @ pr_d n @ '')'' @ nl, s) \<and>
     (\<forall>(k, name) \<in> set syscall_names. dump_syscall mips32r1_defconfig (of_nat k) a0 a1 a2 s = Inr (name @ ''()'' @ nl, s))"
proof -
  have "a \<noteq> 0" using assms(2) by (auto simp: is_unmapped_def)
  then have str: "dump_string mips32r1_defconfig a n s =
       Inr (''0x'' @ pr_08x a @ ''@'' @ [CHR 0x22] @ concat (map pr_char (guest_string (ddr s) (unat (ioremap a)) (unat n))) @ [CHR 0x22], s)"
    using dump_chars_ddr [OF assms] by (simp add: dump_string_def)
  moreover have "dump_syscall mips32r1_defconfig 4004 fd a n s =
       Inr (''write('' @ pr_d fd @ '', 0x'' @ pr_08x a @ ''@'' @ [CHR 0x22] @
         concat (map pr_char (guest_string (ddr s) (unat (ioremap a)) (unat n))) @ [CHR 0x22] @ '', '' @ pr_d n @ '')'' @ nl, s)"
    using str by (simp add: dump_syscall_def Let_def with_string_def)
  ultimately show ?thesis using dump_syscall_name by blast
qed

theorem dump_syscall_text_witness:
  "\<exists>s. dump_syscall mips32r1_defconfig 4004 1 0x80001000 5 s =
     Inr (''write(1, 0x80001000@'' @ [CHR 0x22] @ ''hi'' @ [CHR 0x22] @ '', 5)'' @ nl, s) \<and>
     dump_syscall mips32r1_defconfig 4020 0 0 0 s = Inr (''getpid()'' @ nl, s)"
proof -
  obtain t where t: "board t" "cpu t = zero_cpu" by (rule board_exists)
  let ?s = "t\<lparr>ddr := mem_write_block (\<lambda>_. 0) 0x1000 [0x68, 0x69]\<rparr>"
  have b: "board ?s" using t(1) by (simp add: board_def find_device_def)
  have g: "guest_string (mem_write_block (\<lambda>_. 0) 0x1000 [0x68, 0x69]) 0x1000 5 = [0x68, 0x69]"
    by (simp add: guest_string_def mem_write_block_def upt_rec)
  have p: "pr_d 1 = ''1''" "pr_d 5 = ''5''" "pr_08x 0x80001000 = ''80001000''" "pr_char 0x68 = ''h''" "pr_char 0x69 = ''i''"
    by (simp_all add: pr_d_def pr_nat.simps pr_08x_def hex_char_def bf_get_def pr_char_def char_of_def bit_Suc_0_iff)
  have "(4020, ''getpid'') \<in> set syscall_names" by (simp add: syscall_names_def syscall_names_a_def)
  then show ?thesis
    using dump_syscall_text [OF b, of "0x80001000" 5 1 0 0 0] g p
    by (intro exI [of _ ?s]) (auto simp: is_unmapped_def ioremap_def)
qed


section \<open>Memory and file\<close>

text \<open>The headers of the sections, and those whose contents are compared.\<close>

definition shdr_off :: "u8 list \<Rightarrow> nat \<Rightarrow> nat" where
  "shdr_off buf i = i * unat (rd16 buf 46) + unat (rd32 buf 32)"

definition checked :: "u8 list \<Rightarrow> nat \<Rightarrow> bool" where
  "checked buf i \<longleftrightarrow> rd32 buf (shdr_off buf i + 4) = SHT_PROGBITS \<and> rd32 buf (shdr_off buf i + 8) AND SHF_ALLOC \<noteq> 0"

abbreviation (input) sec_addr :: "u8 list \<Rightarrow> nat \<Rightarrow> u32" where "sec_addr buf i \<equiv> rd32 buf (shdr_off buf i + 12)"
abbreviation (input) sec_offset :: "u8 list \<Rightarrow> nat \<Rightarrow> nat" where "sec_offset buf i \<equiv> unat (rd32 buf (shdr_off buf i + 16))"
abbreviation (input) sec_size :: "u8 list \<Rightarrow> nat \<Rightarrow> nat" where "sec_size buf i \<equiv> unat (rd32 buf (shdr_off buf i + 20))"

text \<open>The size of a section in whole words.\<close>

definition sec_span :: "u8 list \<Rightarrow> nat \<Rightarrow> nat" where
  "sec_span buf i = 4 * ((sec_size buf i + 3) div 4)"

definition section_ok :: "u8 list \<Rightarrow> nat \<Rightarrow> bool" where
  "section_ok buf i \<longleftrightarrow> shdr_off buf i + 40 \<le> length buf \<and>
     (checked buf i \<longrightarrow> sec_offset buf i + sec_span buf i \<le> length buf \<and> is_unmapped (sec_addr buf i) \<and>
        unat (ioremap (sec_addr buf i)) < 0x10000000 \<and> unat (ioremap (sec_addr buf i)) + sec_span buf i \<le> 0x10000000)"

definition section_diffs :: "u8 list \<Rightarrow> nat \<Rightarrow> nemu \<Rightarrow> u32 list" where
  "section_diffs buf i s =
     (if checked buf i
      then map (\<lambda>k. sec_addr buf i + of_nat k)
             (filter (\<lambda>k. mem_read32 (ddr s) (unat (ioremap (sec_addr buf i)) + k) \<noteq> rd32 buf (sec_offset buf i + k)) (word_offsets (sec_size buf i)))
      else [])"

lemma check_words_filter:
  assumes "list_all (\<lambda>k. p + k + 4 \<le> 0x10000000 \<and> off + k + 4 \<le> length buf) ks"
  shows "check_words (Ram_ddr, p) buf addr off ks s =
     Inr (map (\<lambda>k. addr + of_nat k) (filter (\<lambda>k. mem_read32 (ddr s) (p + k) \<noteq> rd32 buf (off + k)) ks), s)"
  using assms by (induction ks) auto

lemma word_offsets_span: "list_all (\<lambda>k. k + 4 \<le> sec_span buf i) (word_offsets (sec_size buf i))"
  by (auto simp: word_offsets_def sec_span_def list_all_iff)

lemma check_section_diffs:
  assumes "board s" and "length buf < 2 ^ 31" and "section_ok buf i"
  shows "check_section mips32r1_defconfig buf i s = Inr (section_diffs buf i s, s)"
proof -
  let ?k = "i * unat (rd16 buf 46)"
  have ok: "shdr_off buf i + 40 \<le> length buf" using assms(3) by (simp add: section_ok_def)
  then have k: "?k < 2 ^ 31" using assms(2) by (simp add: shdr_off_def)
  have head: "check_section mips32r1_defconfig buf i s =
      (if checked buf i then bind_r (vaddr_map mips32r1_defconfig (sec_addr buf i) (rd32 buf (shdr_off buf i + 20)) s)
         (\<lambda>ptr. check_words ptr buf (sec_addr buf i) (sec_offset buf i) (word_offsets (sec_size buf i))) else Inr ([], s))"
    using k ok by (simp add: check_section_def shdr_off_def Let_def checked_def)
  show ?thesis
  proof (cases "checked buf i")
    case True
    have a: "is_unmapped (sec_addr buf i)" "unat (ioremap (sec_addr buf i)) < 0x10000000"
      "unat (ioremap (sec_addr buf i)) + sec_span buf i \<le> 0x10000000" "sec_offset buf i + sec_span buf i \<le> length buf"
      using assms(3) True by (simp_all add: section_ok_def)
    have "sec_size buf i \<le> sec_span buf i" unfolding sec_span_def by linarith
    then have "vaddr_map mips32r1_defconfig (sec_addr buf i) (rd32 buf (shdr_off buf i + 20)) s = Inr ((Ram_ddr, unat (ioremap (sec_addr buf i))), s)"
      using map_ddr [OF assms(1) a(1,2)] a(3) by simp
    moreover have "list_all (\<lambda>k. unat (ioremap (sec_addr buf i)) + k + 4 \<le> 0x10000000 \<and> sec_offset buf i + k + 4 \<le> length buf)
        (word_offsets (sec_size buf i))"
      using word_offsets_span [of buf i] a(3,4) by (fastforce simp: list_all_iff)
    ultimately show ?thesis using head True check_words_filter by (simp add: section_diffs_def)
  qed (use head in \<open>simp add: section_diffs_def\<close>)
qed


lemma check_sections_diffs:
  assumes "board s" and "length buf < 2 ^ 31" and "list_all (section_ok buf) is"
  shows "check_sections mips32r1_defconfig buf is s = Inr (concat (map (\<lambda>i. section_diffs buf i s) is), s)"
  using assms(3) by (induction "is") (simp_all add: check_section_diffs [OF assms(1,2)])

text \<open>A section that is part of a segment, and memory that holds the segments of the file.\<close>

definition section_in :: "u8 list \<Rightarrow> nat \<Rightarrow> Elf32_Phdr \<Rightarrow> bool" where
  "section_in buf i ph \<longleftrightarrow> p_type ph = PT_LOAD \<and> unat (p_offset ph) \<le> sec_offset buf i \<and>
     sec_offset buf i + sec_span buf i \<le> unat (p_offset ph) + unat (p_filesz ph) \<and>
     sec_addr buf i = p_vaddr ph + of_nat (sec_offset buf i - unat (p_offset ph))"

definition holds_segments :: "u8 list \<Rightarrow> nemu \<Rightarrow> bool" where
  "holds_segments buf s \<longleftrightarrow> (\<forall>ph \<in> set (elf_headers buf). p_type ph = PT_LOAD \<longrightarrow>
     (\<forall>k < unat (p_filesz ph). ddr s (unat (ioremap (p_vaddr ph)) + k) = buf ! (unat (p_offset ph) + k)))"

lemma loaded_word:
  assumes "seg_ok buf ph" and "section_in buf i ph" and "k + 4 \<le> sec_span buf i"
    and "\<forall>j < unat (p_filesz ph). ddr s (unat (ioremap (p_vaddr ph)) + j) = buf ! (unat (p_offset ph) + j)"
  shows "mem_read32 (ddr s) (unat (ioremap (sec_addr buf i)) + k) = rd32 buf (sec_offset buf i + k)"
proof -
  let ?d = "sec_offset buf i - unat (p_offset ph)"
  have seg: "is_unmapped (p_vaddr ph)" "unat (ioremap (p_vaddr ph)) + unat (p_memsz ph) \<le> 0x10000000"
    "unat (p_filesz ph) \<le> unat (p_memsz ph)"
    using assms(1,2) by (simp_all add: seg_ok_def section_in_def word_le_nat_alt)
  have d: "sec_offset buf i = unat (p_offset ph) + ?d" "?d + sec_span buf i \<le> unat (p_filesz ph)"
    using assms(2) by (auto simp: section_in_def)
  have "unat (ioremap (sec_addr buf i)) = unat (ioremap (p_vaddr ph)) + ?d"
    using ddr_shift(2) [OF seg(1), of ?d] seg(2,3) d(2) assms(2,3) by (simp add: section_in_def)
  moreover have byte: "ddr s (unat (ioremap (p_vaddr ph)) + ?d + k + j) = buf ! (sec_offset buf i + k + j)" if "j < 4" for j
    using assms(4) [rule_format, of "?d + k + j"] d assms(3) that by (simp add: add.assoc)
  ultimately show ?thesis
    using byte [of 0] byte [of 1] byte [of 2] byte [of 3] by (simp add: mem_read32_def rd32_def)
qed

lemma no_diffs:
  assumes "elf_ok buf" and "holds_segments buf s" and "checked buf i \<Longrightarrow> \<exists>ph \<in> set (elf_headers buf). section_in buf i ph"
  shows "section_diffs buf i s = []"
proof (cases "checked buf i")
  case True
  then obtain ph where ph: "ph \<in> set (elf_headers buf)" "section_in buf i ph" using assms(3) by blast
  have "seg_ok buf ph" using ph(1) assms(1) by (auto simp: elf_headers_def elf_ok_def list_all_iff)
  moreover have "\<forall>j < unat (p_filesz ph). ddr s (unat (ioremap (p_vaddr ph)) + j) = buf ! (unat (p_offset ph) + j)"
    using assms(2) ph by (auto simp: holds_segments_def section_in_def)
  ultimately have "mem_read32 (ddr s) (unat (ioremap (sec_addr buf i)) + k) = rd32 buf (sec_offset buf i + k)"
    if "k \<in> set (word_offsets (sec_size buf i))" for k
    using loaded_word [OF _ ph(2)] word_offsets_span [of buf i] that by (auto simp: list_all_iff)
  then show ?thesis by (simp add: section_diffs_def)
qed (simp add: section_diffs_def)

text \<open>
  C40: comparing the memory with the file. When the sections of the kernel file lie in DDR memory, the
  comparison prints exactly the addresses of the words of the allocated program sections at which memory and
  file differ, and changes nothing; right after loading, when the memory holds the segments and every such
  section is part of a segment, it prints nothing.
\<close>

theorem kernel_image_check:
  assumes "board (mon_nemu m)" and "read_file os img = Some (Some buf)" and "elf_ok buf"
    and "list_all (section_ok buf) [0 ..< unat (rd16 buf 48)]"
  shows "\<exists>bad. check_kernel_image mips32r1_defconfig os img m = Inr (bad, m) \<and>
     (\<forall>a. a \<in> set bad \<longleftrightarrow> (\<exists>i < unat (rd16 buf 48). checked buf i \<and> (\<exists>k \<in> set (word_offsets (sec_size buf i)).
        a = sec_addr buf i + of_nat k \<and>
        mem_read32 (ddr (mon_nemu m)) (unat (ioremap (sec_addr buf i)) + k) \<noteq> rd32 buf (sec_offset buf i + k)))) \<and>
     (holds_segments buf (mon_nemu m) \<and>
        (\<forall>i < unat (rd16 buf 48). checked buf i \<longrightarrow> (\<exists>ph \<in> set (elf_headers buf). section_in buf i ph)) \<longrightarrow> bad = [])"
proof -
  let ?n = "unat (rd16 buf 48)"
  let ?bad = "concat (map (\<lambda>i. section_diffs buf i (mon_nemu m)) [0 ..< ?n])"
  have len: "length buf < 2 ^ 31" "52 \<le> length buf" "rd32 buf 0 = 0x464c457f" using assms(3) by (simp_all add: elf_ok_def)
  have "check_kernel_image mips32r1_defconfig os img m = Inr (?bad, m)"
    using check_sections_diffs [OF assms(1) len(1) assms(4)] len(2,3) assms(2)
    by (simp add: check_kernel_image_def host_call_def in_nemu_def)
  moreover have "a \<in> set ?bad \<longleftrightarrow> (\<exists>i < ?n. checked buf i \<and> (\<exists>k \<in> set (word_offsets (sec_size buf i)).
        a = sec_addr buf i + of_nat k \<and>
        mem_read32 (ddr (mon_nemu m)) (unat (ioremap (sec_addr buf i)) + k) \<noteq> rd32 buf (sec_offset buf i + k)))" for a
    by (auto simp: section_diffs_def Bex_def split: if_splits)
  moreover have "?bad = []" if "holds_segments buf (mon_nemu m)"
      "\<forall>i < ?n. checked buf i \<longrightarrow> (\<exists>ph \<in> set (elf_headers buf). section_in buf i ph)"
    using no_diffs [OF assms(3) that(1)] that(2) by simp
  ultimately show ?thesis by blast
qed


text \<open>A kernel with one section, which is the part of its only segment that is in the file.\<close>

definition kernel_elf :: "u8 list" where
  "kernel_elf = [0x7f, 0x45, 0x4c, 0x46, 1, 1, 1, 0, 0, 0, 0, 0, 0, 0, 0, 0, 2, 0, 8, 0, 1, 0, 0, 0,
     0, 0x10, 0, 0x80, 52, 0, 0, 0, 88, 0, 0, 0, 0, 0, 0, 0, 52, 0, 32, 0, 1, 0, 40, 0, 1, 0, 0, 0,
     1, 0, 0, 0, 84, 0, 0, 0, 0, 0x10, 0, 0x80, 0, 0x10, 0, 0x80, 4, 0, 0, 0, 8, 0, 0, 0, 5, 0, 0, 0, 0, 0, 0, 0,
     0xff, 0xff, 0, 0x10,
     0, 0, 0, 0, 1, 0, 0, 0, 2, 0, 0, 0, 0, 0x10, 0, 0x80, 84, 0, 0, 0, 4, 0, 0, 0, 0, 0, 0, 0, 0, 0, 0, 0, 0, 0, 0, 0, 0, 0, 0, 0]"

lemma kernel_elf_words:
  "length kernel_elf = 128" "rd32 kernel_elf 0 = 0x464c457f" "rd32 kernel_elf 28 = 52" "rd32 kernel_elf 32 = 88"
  "rd16 kernel_elf 18 = 8" "rd16 kernel_elf 42 = 32" "rd16 kernel_elf 44 = 1" "rd16 kernel_elf 46 = 40" "rd16 kernel_elf 48 = 1"
  "kernel_elf ! 4 = 1" "kernel_elf ! 5 = 1" "rd32 kernel_elf 92 = 1" "rd32 kernel_elf 96 = 2" "rd32 kernel_elf 100 = 0x80001000"
  "rd32 kernel_elf 104 = 84" "rd32 kernel_elf 108 = 4"
  "phdr_at kernel_elf 52 = \<lparr>p_type = 1, p_offset = 84, p_vaddr = 0x80001000, p_filesz = 4, p_memsz = 8\<rparr>"
  by (simp_all add: kernel_elf_def rd32_def rd16_def le32_def phdr_at_def push_bit_eq_mult)

lemma kernel_elf_headers:
  "elf_headers kernel_elf = [\<lparr>p_type = 1, p_offset = 84, p_vaddr = 0x80001000, p_filesz = 4, p_memsz = 8\<rparr>]" "shdr_off kernel_elf 0 = 88"
  by (simp_all add: elf_headers_def elf_header_def kernel_elf_words shdr_off_def)

theorem kernel_image_check_witness:
  "\<exists>os m. check_kernel_image mips32r1_defconfig os ''vmlinux'' m = Inr ([], m) \<and> ddr (mon_nemu m) 0x1003 = 0x10"
proof -
  obtain s where s: "board s" "cpu s = zero_cpu" by (rule board_exists)
  let ?s = "s\<lparr>ddr := mem_write_block (ddr s) 0x1000 [0xff, 0xff, 0, 0x10]\<rparr>"
  let ?m = "monitor_globals\<lparr>mon_nemu := ?s\<rparr>"
  let ?os = "small_os\<lparr>os_lstat := (\<lambda>f. (False, length kernel_elf)), os_read := (\<lambda>f k p n. Some (take n (drop p kernel_elf)))\<rparr>"
  have b: "board (mon_nemu ?m)" using s(1) by (simp add: board_def find_device_def)
  have rd: "read_file ?os ''vmlinux'' = Some (Some kernel_elf)"
    using read_file_whole [of ?os "''vmlinux''" kernel_elf] by (simp add: small_os_def reads_whole_def kernel_elf_words)
  have ok: "elf_ok kernel_elf"
    by (simp add: elf_ok_def kernel_elf_words elf_header_def seg_ok_def is_unmapped_def ioremap_def)
  have sec: "list_all (section_ok kernel_elf) [0 ..< unat (rd16 kernel_elf 48)]"
    by (simp add: kernel_elf_words section_ok_def kernel_elf_headers sec_span_def is_unmapped_def ioremap_def)
  have mem: "holds_segments kernel_elf (mon_nemu ?m)"
  proof -
    have "mem_write_block (ddr s) 0x1000 [0xff, 0xff, 0, 0x10] (0x1000 + k) = kernel_elf ! (84 + k)" if "k < 4" for k
    proof -
      have "k = 0 \<or> k = 1 \<or> k = 2 \<or> k = 3" using that by linarith
      then show ?thesis by (elim disjE) (simp_all add: mem_write_block_def kernel_elf_def)
    qed
    then show ?thesis by (simp add: holds_segments_def kernel_elf_headers ioremap_def)
  qed
  have "section_in kernel_elf 0 \<lparr>p_type = 1, p_offset = 84, p_vaddr = 0x80001000, p_filesz = 4, p_memsz = 8\<rparr>"
    by (simp add: section_in_def kernel_elf_headers kernel_elf_words sec_span_def)
  then have "check_kernel_image mips32r1_defconfig ?os ''vmlinux'' ?m = Inr ([], ?m)"
    using kernel_image_check [OF b rd ok sec] mem by (auto simp: kernel_elf_words(9) kernel_elf_headers(1))
  then show ?thesis by (intro exI [of _ ?os] exI [of _ ?m]) (simp add: mem_write_block_def)
qed

end
