(* ===== verification/Rounding.thy ===== *)
theory Rounding
  imports Complex_Main Nemu_Prelude
begin

text \<open>
  What it means that a floating point result is correctly rounded, and the arithmetic behind the
  rounding routines, independent of the width of the format.

  The patterns of the non-negative values of a format with \<open>p\<close> fraction bits are the numbers \<open>0, 1, ...\<close> in
  the order of their values. \<open>fmag p n\<close> is the value of pattern \<open>n\<close> in units of the smallest
  positive value, so it is a natural number. The pattern of the infinity stands, as in IEEE 754, for the first value
  beyond the largest finite one.
\<close>

section \<open>Values of patterns and the nearest pattern\<close>

definition fmag :: "nat \<Rightarrow> nat \<Rightarrow> nat" where
  "fmag p n = (if n < 2 ^ p then n else (2 ^ p + n mod 2 ^ p) * 2 ^ (n div 2 ^ p - 1))"

definition nearest_even :: "nat \<Rightarrow> nat \<Rightarrow> real \<Rightarrow> nat \<Rightarrow> bool" where
  "nearest_even p infp x n \<longleftrightarrow> n \<le> infp \<and>
     (\<forall>m \<le> infp. \<bar>real (fmag p n) - x\<bar> \<le> \<bar>real (fmag p m) - x\<bar> \<and>
               (m \<noteq> n \<and> \<bar>real (fmag p n) - x\<bar> = \<bar>real (fmag p m) - x\<bar> \<longrightarrow> even n))"

lemma fmag_Suc: "fmag p (Suc n) = fmag p n + 2 ^ (n div 2 ^ p - 1)"
proof (cases "Suc n < 2 ^ p")
  case True
  then show ?thesis by (simp add: fmag_def)
next
  case big: False
  show ?thesis
  proof (cases "n < 2 ^ p")
    case True
    with big have "Suc n = 2 ^ p" by simp
    with True show ?thesis by (simp add: fmag_def)
  next
    case False
    let ?d = "n div 2 ^ p"
    have d: "?d \<ge> 1" using False by (simp add: Suc_leI div_greater_zero_iff)
    show ?thesis
    proof (cases "Suc (n mod 2 ^ p) = 2 ^ p")
      case True
      then have "Suc n mod 2 ^ p = 0" "Suc n div 2 ^ p = Suc ?d" by (simp_all add: mod_Suc div_Suc)
      moreover have "(2 :: nat) ^ p * 2 ^ ?d = (2 ^ p + n mod 2 ^ p) * 2 ^ (?d - 1) + 2 ^ (?d - 1)"
      proof -
        have "(2 ^ p + n mod 2 ^ p) * 2 ^ (?d - 1) + 2 ^ (?d - 1) = (2 ^ p + Suc (n mod 2 ^ p)) * 2 ^ (?d - 1)"
          by (simp add: algebra_simps)
        also have "\<dots> = 2 ^ p * (2 * 2 ^ (?d - 1))" using True by simp
        also have "2 * 2 ^ (?d - 1) = (2 :: nat) ^ ?d" using d by (cases ?d) simp_all
        finally show ?thesis by simp
      qed
      ultimately show ?thesis using False big by (simp add: fmag_def)
    next
      case other: False
      then have "Suc n mod 2 ^ p = Suc (n mod 2 ^ p)" "Suc n div 2 ^ p = ?d" by (simp_all add: mod_Suc div_Suc)
      then show ?thesis using False big by (simp add: fmag_def)
    qed
  qed
qed

lemma fmag_less: "m < n \<Longrightarrow> fmag p m < fmag p n"
  by (rule lift_Suc_mono_less [of "fmag p"]) (simp_all add: fmag_Suc)

lemma fmag_mono: "m \<le> n \<Longrightarrow> fmag p m \<le> fmag p n"
  by (cases "m = n") (simp_all add: fmag_less less_imp_le)

text \<open>It is enough to compare a pattern with its two neighbours.\<close>

lemma nearest_evenI:
  assumes infp: "n \<le> infp"
    and below: "\<And>m. n = Suc m \<Longrightarrow> real (fmag p m) + real (fmag p n) \<le> 2 * x \<and>
                  (real (fmag p m) + real (fmag p n) = 2 * x \<longrightarrow> even n)"
    and above: "n < infp \<Longrightarrow> 2 * x \<le> real (fmag p n) + real (fmag p (Suc n)) \<and>
                  (2 * x = real (fmag p n) + real (fmag p (Suc n)) \<longrightarrow> even n)"
  shows "nearest_even p infp x n"
  unfolding nearest_even_def
proof (intro conjI infp allI impI)
  fix m assume m: "m \<le> infp"
  consider "m = n" | "m < n" | "m > n" by linarith
  then have "\<bar>real (fmag p n) - x\<bar> \<le> \<bar>real (fmag p m) - x\<bar> \<and>
      (\<bar>real (fmag p n) - x\<bar> = \<bar>real (fmag p m) - x\<bar> \<and> m \<noteq> n \<longrightarrow> even n)"
  proof cases
    case 1
    then show ?thesis by simp
  next
    case 2
    then obtain k where k: "n = Suc k" "m \<le> k" by (metis less_Suc_eq_le not0_implies_Suc not_less_zero)
    have "real (fmag p m) \<le> real (fmag p k)" using fmag_mono [OF k(2)] by simp
    moreover have "real (fmag p m) < real (fmag p n)" using fmag_less [OF 2] by simp
    moreover note below [OF k(1)]
    ultimately show ?thesis by (auto simp: abs_if)
  next
    case 3
    then have "Suc n \<le> m" by simp
    then have "real (fmag p (Suc n)) \<le> real (fmag p m)" using fmag_mono by simp
    moreover have "real (fmag p n) < real (fmag p m)" using fmag_less [OF 3] by simp
    moreover note above [OF less_le_trans [OF 3 m]]
    ultimately show ?thesis by (auto simp: abs_if)
  qed
  then show "\<bar>real (fmag p n) - x\<bar> \<le> \<bar>real (fmag p m) - x\<bar>"
    and "m \<noteq> n \<and> \<bar>real (fmag p n) - x\<bar> = \<bar>real (fmag p m) - x\<bar> \<Longrightarrow> even n" by simp_all
qed

lemma nearest_even_exact: "n \<le> infp \<Longrightarrow> nearest_even p infp (real (fmag p n)) n"
  using fmag_less [of _ _ p]
  by (auto simp: nearest_even_def) (metis less_irrefl linorder_neqE_nat of_nat_eq_iff)

text \<open>A significand with its hidden bit, or the next power of two, and an exponent are added.\<close>

lemma fmag_scaled:
  assumes "2 ^ p \<le> s" and "s \<le> 2 ^ Suc p"
  shows "fmag p (e * 2 ^ p + s) = s * 2 ^ e"
proof (cases "s = 2 ^ Suc p")
  case True
  have "e * 2 ^ p + s = (e + 2) * 2 ^ p" using True by simp
  then have "(e * 2 ^ p + s) div 2 ^ p = e + 2" "(e * 2 ^ p + s) mod 2 ^ p = 0"
    by (simp_all del: add_mult_distrib)
  moreover have "\<not> e * 2 ^ p + s < 2 ^ p" using True by simp
  ultimately show ?thesis using True by (simp add: fmag_def)
next
  case False
  define t where "t = s - 2 ^ p"
  have t: "s = 2 ^ p + t" "t < 2 ^ p" using assms False by (simp_all add: t_def)
  have "e * 2 ^ p + s = (e + 1) * 2 ^ p + t" using t by simp
  then have "(e * 2 ^ p + s) div 2 ^ p = e + 1" "(e * 2 ^ p + s) mod 2 ^ p = t"
    using t(2) by simp_all
  moreover have "\<not> e * 2 ^ p + s < 2 ^ p" using t by simp
  ultimately show ?thesis using t(1) by (simp add: fmag_def)
qed

section \<open>Significands that stand for a real number\<close>

text \<open>
  A significand with guard bits stands for a real number when both lie alike to all multiples of \<open>2 ^ h\<close>:
  what the rounding decides is then the same.
\<close>

definition cell :: "nat \<Rightarrow> real \<Rightarrow> nat \<Rightarrow> bool" where
  "cell h y z \<longleftrightarrow> (\<forall>L :: int. (y < of_int (L * 2 ^ h) \<longleftrightarrow> int z < L * 2 ^ h) \<and>
                             (of_int (L * 2 ^ h) < y \<longleftrightarrow> L * 2 ^ h < int z))"

text \<open>A right shift that records lost bits in the last bit.\<close>

definition jam :: "nat \<Rightarrow> nat \<Rightarrow> nat" where
  "jam c z = (if z mod 2 ^ c = 0 then z div 2 ^ c else z div 2 ^ c div 2 * 2 + 1)"

lemma cell_exact: "cell h (real z) z"
proof -
  have "real z = of_int (int z)" by simp
  then show ?thesis unfolding cell_def by (simp only: of_int_less_iff) simp
qed

lemma cell_coarser:
  assumes "cell h y z" and "h \<le> h'"
  shows "cell h' y z"
proof -
  have "L * 2 ^ h' = (L * 2 ^ (h' - h)) * 2 ^ h" for L :: int
    using assms(2) by (simp add: mult.assoc flip: power_add)
  then show ?thesis using assms(1) unfolding cell_def by metis
qed

lemma cell_double:
  assumes "cell h y z"
  shows "cell (h + k) (y * 2 ^ k) (z * 2 ^ k)"
  using assms unfolding cell_def by (simp add: power_add flip: mult.assoc)

lemma cell_add:
  assumes "cell h y z"
  shows "cell h (real (M * 2 ^ h) + y) (M * 2 ^ h + z)"
  unfolding cell_def
proof
  fix L :: int
  have "(y < of_int ((L - int M) * 2 ^ h) \<longleftrightarrow> int z < (L - int M) * 2 ^ h) \<and>
        (of_int ((L - int M) * 2 ^ h) < y \<longleftrightarrow> (L - int M) * 2 ^ h < int z)"
    using assms unfolding cell_def by blast
  then show "(real (M * 2 ^ h) + y < of_int (L * 2 ^ h) \<longleftrightarrow> int (M * 2 ^ h + z) < L * 2 ^ h) \<and>
        (of_int (L * 2 ^ h) < real (M * 2 ^ h) + y \<longleftrightarrow> L * 2 ^ h < int (M * 2 ^ h + z))"
    by (simp add: algebra_simps)
qed

lemma cell_diff:
  assumes "cell h y z" and "z \<le> M * 2 ^ h"
  shows "cell h (real (M * 2 ^ h) - y) (M * 2 ^ h - z)"
  unfolding cell_def
proof
  fix L :: int
  have "(y < of_int ((int M - L) * 2 ^ h) \<longleftrightarrow> int z < (int M - L) * 2 ^ h) \<and>
        (of_int ((int M - L) * 2 ^ h) < y \<longleftrightarrow> (int M - L) * 2 ^ h < int z)"
    using assms unfolding cell_def by blast
  then show "(real (M * 2 ^ h) - y < of_int (L * 2 ^ h) \<longleftrightarrow> int (M * 2 ^ h - z) < L * 2 ^ h) \<and>
        (of_int (L * 2 ^ h) < real (M * 2 ^ h) - y \<longleftrightarrow> L * 2 ^ h < int (M * 2 ^ h - z))"
    using assms(2) by (auto simp: algebra_simps of_nat_diff)
qed

lemma jam_pos:
  assumes "even z'"
  shows "jam c z < z' \<longleftrightarrow> z < z' * 2 ^ c" and "z' < jam c z \<longleftrightarrow> z' * 2 ^ c < z"
proof -
  let ?q = "z div 2 ^ c" and ?r = "z mod 2 ^ c"
  obtain w where w: "z' = 2 * w" using assms by (rule evenE)
  have z: "z = ?q * 2 ^ c + ?r" by (rule div_mult_mod_eq [symmetric])
  have lt: "z < k * 2 ^ c \<longleftrightarrow> ?q < k" for k by (simp add: div_less_iff_less_mult)
  have gt: "k * 2 ^ c < z \<longleftrightarrow> k < ?q \<or> k = ?q \<and> ?r \<noteq> 0" for k
  proof -
    have "k * 2 ^ c \<le> z \<longleftrightarrow> k \<le> ?q" by (simp add: less_eq_div_iff_mult_less_eq)
    moreover have "k * 2 ^ c = z \<longleftrightarrow> k = ?q \<and> ?r = 0"
      by (metis add.right_neutral div_mult_self_is_m mod_mult_self2_is_0 pos2 z zero_less_power)
    ultimately show ?thesis by (auto simp: le_less)
  qed
  have odd: "Suc (q div 2 * 2) < 2 * w \<longleftrightarrow> q < 2 * w" "2 * w < Suc (q div 2 * 2) \<longleftrightarrow> 2 * w \<le> q" for q :: nat
    by presburger+
  show "jam c z < z' \<longleftrightarrow> z < z' * 2 ^ c" unfolding lt w jam_def by (simp add: odd)
  show "z' < jam c z \<longleftrightarrow> z' * 2 ^ c < z" unfolding gt w jam_def by (simp add: odd le_less)
qed

lemma cell_jam:
  assumes "cell (h + c) y z" and "h \<ge> 1"
  shows "cell h (y / 2 ^ c) (jam c z)"
  unfolding cell_def
proof
  fix L :: int
  have y: "y / 2 ^ c < of_int (L * 2 ^ h) \<longleftrightarrow> y < of_int (L * 2 ^ (h + c))"
    "of_int (L * 2 ^ h) < y / 2 ^ c \<longleftrightarrow> of_int (L * 2 ^ (h + c)) < y"
    by (simp_all add: divide_less_eq less_divide_eq power_add mult.assoc)
  have z: "(int (jam c z) < L * 2 ^ h \<longleftrightarrow> int z < L * 2 ^ (h + c)) \<and>
           (L * 2 ^ h < int (jam c z) \<longleftrightarrow> L * 2 ^ (h + c) < int z)"
  proof (cases "0 \<le> L")
    case True
    define k where "k = nat L * 2 ^ h"
    have k: "even k" "L * 2 ^ h = int k" "L * 2 ^ (h + c) = int (k * 2 ^ c)"
      using assms(2) True by (simp_all add: k_def power_add)
    show ?thesis unfolding k(2,3) of_nat_less_iff using jam_pos [OF k(1)] by simp
  next
    case False
    then have "L * 2 ^ h < 0" "L * 2 ^ (h + c) < 0" by (simp_all add: mult_neg_pos)
    then show ?thesis by (smt (verit) of_nat_0_le_iff)
  qed
  show "(y / 2 ^ c < of_int (L * 2 ^ h) \<longleftrightarrow> int (jam c z) < L * 2 ^ h) \<and>
        (of_int (L * 2 ^ h) < y / 2 ^ c \<longleftrightarrow> L * 2 ^ h < int (jam c z))"
    unfolding y using z assms(1) unfolding cell_def by simp
qed

section \<open>Rounding to the nearest, ties to even\<close>

definition half_even :: "nat \<Rightarrow> nat \<Rightarrow> nat" where
  "half_even g z =
     (let s = (z + 2 ^ (g - 1)) div 2 ^ g
      in if z mod 2 ^ g = 2 ^ (g - 1) then s div 2 * 2 else s)"

text \<open>A half unit of the result, \<open>H\<close>, divides the bounds between which the significand lies.\<close>

lemma half_even_bounds:
  assumes "g \<ge> 1" and "s = half_even g z"
  defines "H \<equiv> (2 :: nat) ^ (g - 1)"
  shows "2 * s * H \<le> z + H" and "z \<le> (2 * s + 1) * H"
    and "2 * s * H = z + H \<Longrightarrow> even s" and "z = (2 * s + 1) * H \<Longrightarrow> even s"
proof -
  have g: "(2 :: nat) ^ g = 2 * H" using assms(1) by (cases g) (simp_all add: H_def)
  define q r where "q = z div (2 * H)" and "r = z mod (2 * H)"
  have H: "H > 0" by (simp add: H_def)
  have z: "z = q * (2 * H) + r" by (simp only: q_def r_def div_mult_mod_eq)
  have r: "r < 2 * H" using H by (simp add: r_def)
  have s0: "(z + H) div (2 * H) = (if r < H then q else Suc q)"
  proof -
    have "z + H = (r + H) + q * (2 * H)" by (simp add: z)
    then have "(z + H) div (2 * H) = q + (r + H) div (2 * H)"
      using H by (simp only: div_mult_self1 mult_eq_0_iff) simp
    moreover have "(r + H) div (2 * H) = (if r < H then 0 else 1)"
      using r H by (auto simp: div_nat_eqI)
    ultimately show ?thesis by simp
  qed
  have s: "s = (if r = H then Suc q div 2 * 2 else if r < H then q else Suc q)"
    unfolding assms(2) half_even_def Let_def g H_def [symmetric] s0 by (simp add: r_def [symmetric])
  consider "r < H" "s = q" | "r > H" "s = Suc q" | "r = H" "even q" "s = q" | "r = H" "odd q" "s = Suc q"
    unfolding s by (cases r H rule: linorder_cases; cases "even q") (auto elim!: evenE oddE)
  then show "2 * s * H \<le> z + H" and "z \<le> (2 * s + 1) * H"
    and "2 * s * H = z + H \<Longrightarrow> even s" and "z = (2 * s + 1) * H \<Longrightarrow> even s"
    using r by (cases; simp add: z algebra_simps)+
qed

lemma round_cell:
  assumes "g \<ge> 1" and "cell (g - 1) y z" and "s = half_even g z"
  defines "H \<equiv> (2 :: real) ^ (g - 1)"
  shows "2 * real s * H \<le> y + H" and "y \<le> (2 * real s + 1) * H"
    and "2 * real s * H = y + H \<Longrightarrow> even s" and "y = (2 * real s + 1) * H \<Longrightarrow> even s"
proof -
  let ?h = "(2 :: nat) ^ (g - 1)"
  have lo: "(y < of_int ((2 * int s - 1) * 2 ^ (g - 1)) \<longleftrightarrow> int z < (2 * int s - 1) * 2 ^ (g - 1)) \<and>
      (of_int ((2 * int s - 1) * 2 ^ (g - 1)) < y \<longleftrightarrow> (2 * int s - 1) * 2 ^ (g - 1) < int z)"
    and hi: "(y < of_int ((2 * int s + 1) * 2 ^ (g - 1)) \<longleftrightarrow> int z < (2 * int s + 1) * 2 ^ (g - 1)) \<and>
      (of_int ((2 * int s + 1) * 2 ^ (g - 1)) < y \<longleftrightarrow> (2 * int s + 1) * 2 ^ (g - 1) < int z)"
    using assms(2) unfolding cell_def by blast+
  note b = half_even_bounds [OF assms(1,3)]
  have i: "int (2 * s * ?h) = 2 * int s * 2 ^ (g - 1)" "int (z + ?h) = int z + 2 ^ (g - 1)"
    "int ((2 * s + 1) * ?h) = (2 * int s + 1) * 2 ^ (g - 1)" by (simp_all add: algebra_simps)
  have b': "2 * int s * 2 ^ (g - 1) \<le> int z + 2 ^ (g - 1)" "int z \<le> (2 * int s + 1) * 2 ^ (g - 1)"
    "2 * int s * 2 ^ (g - 1) = int z + 2 ^ (g - 1) \<Longrightarrow> even s" "int z = (2 * int s + 1) * 2 ^ (g - 1) \<Longrightarrow> even s"
    using b unfolding i [symmetric] of_nat_le_iff of_nat_eq_iff by blast+
  have r: "of_int ((2 * int s - 1) * 2 ^ (g - 1)) = 2 * real s * H - H"
    "of_int ((2 * int s + 1) * 2 ^ (g - 1)) = (2 * real s + 1) * H"
    by (simp_all add: H_def algebra_simps)
  show "2 * real s * H \<le> y + H" using lo b'(1) unfolding r by (auto simp: algebra_simps)
  show "y \<le> (2 * real s + 1) * H" using hi b'(2) unfolding r by auto
  show "even s" if "2 * real s * H = y + H"
    using lo b'(3) that unfolding r by (auto simp: algebra_simps)
  show "even s" if "y = (2 * real s + 1) * H" using hi b'(4) that unfolding r by auto
qed

lemma fmag_low: "s \<le> 2 ^ Suc p \<Longrightarrow> fmag p s = s"
  using fmag_scaled [of p s 0] by (cases "s < 2 ^ p") (simp_all add: fmag_def)

lemma half_even_le:
  assumes "g \<ge> 1" and "z < 2 ^ (q + g)"
  shows "half_even g z \<le> 2 ^ q"
proof -
  let ?H = "(2 :: nat) ^ (g - 1)"
  have g: "(2 :: nat) ^ g = 2 * ?H" using assms(1) by (cases g) simp_all
  have "2 * half_even g z * ?H \<le> z + ?H" by (rule half_even_bounds(1) [OF assms(1) refl])
  also have "\<dots> < 2 ^ q * (2 * ?H) + ?H" using assms(2) by (simp add: power_add g)
  finally have "2 * half_even g z * ?H < (2 * 2 ^ q + 1) * ?H" by (simp add: algebra_simps)
  then have "2 * half_even g z < 2 * 2 ^ q + 1" by (simp only: mult_less_cancel2)
  then show ?thesis by simp
qed

lemma half_even_ge:
  assumes "g \<ge> 1" and "2 ^ (q + g) \<le> z"
  shows "2 ^ q \<le> half_even g z"
proof -
  let ?H = "(2 :: nat) ^ (g - 1)"
  have g: "(2 :: nat) ^ g = 2 * ?H" using assms(1) by (cases g) simp_all
  have "2 * 2 ^ q * ?H \<le> z" using assms(2) by (simp add: power_add g)
  also have "\<dots> \<le> (2 * half_even g z + 1) * ?H" by (rule half_even_bounds(2) [OF assms(1) refl])
  finally have "2 * 2 ^ q \<le> 2 * half_even g z + 1" by (simp only: mult_le_cancel2) simp
  then show ?thesis by presburger
qed

text \<open>Without an exponent: subnormal results and the lowest binade.\<close>

lemma nearest_low:
  assumes g: "g \<ge> 1" and y: "cell (g - 1) y z" and z: "z < 2 ^ (Suc p + g)" and s: "s = half_even g z"
    and infp: "s \<le> infp"
  shows "nearest_even p infp (y / 2 ^ g) s"
proof (rule nearest_evenI [OF infp])
  have sp: "s \<le> 2 ^ Suc p" unfolding s by (rule half_even_le [OF g z])
  have H: "2 ^ g = 2 * (2 :: real) ^ (g - 1)" using g by (cases g) simp_all
  note b = round_cell [OF g y s]
  have x: "2 * (y / 2 ^ g) = y / 2 ^ (g - 1)" by (simp add: H)
  have lo: "2 * real s \<le> y / 2 ^ (g - 1) + 1" "y / 2 ^ (g - 1) \<le> 2 * real s + 1"
    "2 * real s = y / 2 ^ (g - 1) + 1 \<Longrightarrow> even s" "y / 2 ^ (g - 1) = 2 * real s + 1 \<Longrightarrow> even s"
    using b by (simp_all add: field_simps)
  show "real (fmag p m) + real (fmag p s) \<le> 2 * (y / 2 ^ g) \<and>
      (real (fmag p m) + real (fmag p s) = 2 * (y / 2 ^ g) \<longrightarrow> even s)" if "s = Suc m" for m
    using that sp lo(1,3) unfolding x by (auto simp: fmag_low)
  have "real s + 1 \<le> real (fmag p (Suc s))" using fmag_less [of s "Suc s" p] sp by (simp add: fmag_low)
  then show "2 * (y / 2 ^ g) \<le> real (fmag p s) + real (fmag p (Suc s)) \<and>
      (2 * (y / 2 ^ g) = real (fmag p s) + real (fmag p (Suc s)) \<longrightarrow> even s)"
    using sp lo(2,4) unfolding x by (auto simp: fmag_low)
qed

lemma cell_ge:
  assumes y: "cell (g - 1) y z" and g: "g \<ge> 1" and z: "2 ^ (p + g) \<le> z"
  shows "2 ^ p \<le> y / 2 ^ g"
proof -
  have pg: "2 ^ Suc p * 2 ^ (g - 1) = (2 :: int) ^ (p + g)" "2 ^ Suc p * 2 ^ (g - 1) = (2 :: real) ^ (p + g)"
    using g by (cases g; simp add: power_add)+
  have "int (2 ^ (p + g)) \<le> int z" using z by (simp only: of_nat_le_iff)
  then have "\<not> int z < 2 ^ Suc p * 2 ^ (g - 1)" unfolding pg by simp
  then have "\<not> y < of_int (2 ^ Suc p * 2 ^ (g - 1))" using y unfolding cell_def by blast
  then have "2 ^ (p + g) \<le> y" using pg by simp
  then show ?thesis by (simp add: field_simps power_add)
qed

text \<open>With a normalized significand and an exponent.\<close>

lemma nearest_scaled:
  assumes g: "g \<ge> 1" and y: "cell (g - 1) y z" and z: "2 ^ (p + g) \<le> z" "z < 2 ^ (Suc p + g)"
    and s: "s = half_even g z" and infp: "e * 2 ^ p + s \<le> infp"
    and even: "even (2 ^ p * e)"
  shows "nearest_even p infp (y / 2 ^ g * 2 ^ e) (e * 2 ^ p + s)"
proof (rule nearest_evenI [OF infp])
  have sp: "2 ^ p \<le> s" "s \<le> 2 ^ Suc p"
    unfolding s by (rule half_even_ge [OF g z(1)], rule half_even_le [OF g z(2)])
  have H: "2 ^ g = 2 * (2 :: real) ^ (g - 1)" using g by (cases g) simp_all
  have n: "fmag p (e * 2 ^ p + s) = s * 2 ^ e" by (rule fmag_scaled [OF sp])
  have ev: "even (e * 2 ^ p + s) \<longleftrightarrow> even s" using even by (simp add: mult.commute)
  note b = round_cell [OF g y s]
  define x where "x = y / 2 ^ (g - 1)"
  have x: "2 * (y / 2 ^ g * 2 ^ e) = x * 2 ^ e" by (simp add: H x_def)
  have lo: "2 * real s \<le> x + 1" "x \<le> 2 * real s + 1" "2 * real s = x + 1 \<Longrightarrow> even s" "x = 2 * real s + 1 \<Longrightarrow> even s"
    using b by (simp_all add: field_simps x_def)
  show "real (fmag p m) + real (fmag p (e * 2 ^ p + s)) \<le> 2 * (y / 2 ^ g * 2 ^ e) \<and>
      (real (fmag p m) + real (fmag p (e * 2 ^ p + s)) = 2 * (y / 2 ^ g * 2 ^ e) \<longrightarrow> even (e * 2 ^ p + s))"
    if m: "e * 2 ^ p + s = Suc m" for m
  proof (cases "s = 2 ^ p")
    case True
    have "2 * real s \<le> x" using cell_ge [OF y g z(1)] by (simp add: True x_def H field_simps)
    then have "2 * real s * 2 ^ e \<le> x * 2 ^ e" by (rule mult_right_mono) simp
    moreover have "real (fmag p m) < real s * 2 ^ e"
      using fmag_less [of m "Suc m" p] n m by (metis lessI of_nat_less_iff of_nat_mult of_nat_numeral of_nat_power)
    ultimately have "real (fmag p m) + real (s * 2 ^ e) < x * 2 ^ e" unfolding of_nat_mult of_nat_power of_nat_numeral by linarith
    then show ?thesis unfolding x n by linarith
  next
    case False
    have s1: "1 \<le> s" using sp(1) by (meson le_trans one_le_numeral one_le_power)
    from False have "m = e * 2 ^ p + (s - 1)" "2 ^ p \<le> s - 1" "s - 1 \<le> 2 ^ Suc p" using m sp s1 by linarith+
    then have "fmag p m = (s - 1) * 2 ^ e" using fmag_scaled by simp
    then have "real (fmag p m) = (real s - 1) * 2 ^ e" using s1 by (simp add: of_nat_diff)
    then have "real (fmag p m) + real (fmag p (e * 2 ^ p + s)) = (2 * real s - 1) * 2 ^ e" unfolding n by (simp add: algebra_simps)
    then show ?thesis using lo(1,3) unfolding x ev by auto
  qed
  have "Suc (e * 2 ^ p + s) = e * 2 ^ p + Suc s" by simp
  have above: "(real s + 1) * 2 ^ e \<le> real (fmag p (Suc (e * 2 ^ p + s)))"
  proof -
    have "e + 1 \<le> (e * 2 ^ p + s) div 2 ^ p" using sp(1) by (simp add: less_eq_div_iff_mult_less_eq)
    then have "(2 :: nat) ^ e \<le> 2 ^ ((e * 2 ^ p + s) div 2 ^ p - 1)" by (intro power_increasing) simp_all
    then have "s * 2 ^ e + 2 ^ e \<le> fmag p (Suc (e * 2 ^ p + s))" unfolding fmag_Suc n by simp
    then have "real (s * 2 ^ e + 2 ^ e) \<le> real (fmag p (Suc (e * 2 ^ p + s)))" by (simp only: of_nat_le_iff)
    then show ?thesis by (simp add: algebra_simps)
  qed
  have d: "(real s + 1) * 2 ^ e = real s * 2 ^ e + 2 ^ e" "(2 * real s + 1) * 2 ^ e = 2 * (real s * 2 ^ e) + 2 ^ e"
    by (simp_all add: algebra_simps)
  have "x * 2 ^ e \<le> (2 * real s + 1) * 2 ^ e" using lo(2) by (rule mult_right_mono) simp
  moreover have "even s" if "x * 2 ^ e = (2 * real s + 1) * 2 ^ e" using that lo(4) by simp
  ultimately show "2 * (y / 2 ^ g * 2 ^ e) \<le> real (fmag p (e * 2 ^ p + s)) + real (fmag p (Suc (e * 2 ^ p + s))) \<and>
      (2 * (y / 2 ^ g * 2 ^ e) = real (fmag p (e * 2 ^ p + s)) + real (fmag p (Suc (e * 2 ^ p + s))) \<longrightarrow>
       even (e * 2 ^ p + s))"
    using above unfolding x ev n d of_nat_mult of_nat_power of_nat_numeral by auto
qed

text \<open>The rounding of the library, on numbers: \<open>E\<close> is the largest exponent that is packed.\<close>

definition round_pack :: "nat \<Rightarrow> nat \<Rightarrow> nat \<Rightarrow> int \<Rightarrow> nat \<Rightarrow> nat" where
  "round_pack p g E e z =
     (if int E < e then (E + 2) * 2 ^ p
      else if 0 \<le> e then nat e * 2 ^ p + half_even g z
      else half_even g (jam (nat (- e)) z))"

lemma jam_le: "jam (Suc c) z \<le> z"
proof -
  have "z div 2 ^ Suc c \<le> z div 2" by (simp add: div_le_mono2)
  then show ?thesis unfolding jam_def by (cases "z = 0") auto
qed

theorem round_pack_nearest:
  assumes g: "g \<ge> 2" and p: "p \<ge> 1" and y: "cell (g - 1) y z" and z: "2 ^ (p + g) \<le> z" "z < 2 ^ (Suc p + g)"
  shows "nearest_even p ((E + 2) * 2 ^ p) (y / 2 ^ g * 2 powi e) (round_pack p g E e z)"
proof -
  have g1: "g \<ge> 1" using g by simp
  have s: "half_even g z' \<le> 2 ^ Suc p" if "z' \<le> z" for z'
    by (rule half_even_le [OF g1]) (use that z(2) in simp)
  consider "int E < e" | "0 \<le> e" "e \<le> int E" | "e < 0" by linarith
  then show ?thesis
  proof cases
    case 1
    have "(E + 2) * 2 ^ p = E * 2 ^ p + 2 ^ Suc p" by simp
    then have top: "fmag p ((E + 2) * 2 ^ p) = 2 ^ Suc p * 2 ^ E"
      using fmag_scaled [of p "2 ^ Suc p" E] by (metis le_refl power_increasing_iff le_Suc_eq one_less_numeral_iff semiring_norm(76))
    have "2 ^ p \<le> y / 2 ^ g" by (rule cell_ge [OF y g1 z(1)])
    moreover have "(2 :: real) ^ Suc E \<le> 2 powi e"
      using 1 power_int_increasing [of "int (Suc E)" e "2 :: real"] unfolding power_int_of_nat by simp
    ultimately have "2 ^ p * 2 ^ Suc E \<le> y / 2 ^ g * 2 powi e"
      by (intro mult_mono) (simp_all add: order_trans [OF _ cell_ge [OF y g1 z(1)]])
    then have x: "real (fmag p ((E + 2) * 2 ^ p)) \<le> y / 2 ^ g * 2 powi e" unfolding top by simp
    have "nearest_even p ((E + 2) * 2 ^ p) (y / 2 ^ g * 2 powi e) ((E + 2) * 2 ^ p)"
    proof (rule nearest_evenI)
      fix m assume "(E + 2) * 2 ^ p = Suc m"
      then have "real (fmag p m) < real (fmag p ((E + 2) * 2 ^ p))" using fmag_less [of m "Suc m" p] by simp
      with x show "real (fmag p m) + real (fmag p ((E + 2) * 2 ^ p)) \<le> 2 * (y / 2 ^ g * 2 powi e) \<and>
        (real (fmag p m) + real (fmag p ((E + 2) * 2 ^ p)) = 2 * (y / 2 ^ g * 2 powi e) \<longrightarrow> even ((E + 2) * 2 ^ p))"
        by linarith
    qed simp_all
    then show ?thesis using 1 by (simp add: round_pack_def)
  next
    case 2
    have "nat e * 2 ^ p + half_even g z \<le> E * 2 ^ p + 2 ^ Suc p" using 2 s [OF order_refl] by (intro add_mono) simp_all
    also have "\<dots> = (E + 2) * 2 ^ p" by simp
    finally have le: "nat e * 2 ^ p + half_even g z \<le> (E + 2) * 2 ^ p" .
    have "nearest_even p ((E + 2) * 2 ^ p) (y / 2 ^ g * 2 ^ nat e) (nat e * 2 ^ p + half_even g z)"
      by (rule nearest_scaled [OF g1 y z refl le]) (use p in simp)
    moreover have "2 ^ nat e = (2 :: real) powi e" using 2 by (simp add: power_int_def)
    ultimately show ?thesis using 2 by (simp add: round_pack_def)
  next
    case 3
    define c where "c = nat (- e)"
    have c: "c > 0" "e = - int c" using 3 by (simp_all add: c_def)
    have z': "jam c z \<le> z" using c(1) jam_le by (cases c) simp_all
    have "cell (g - 1) (y / 2 ^ c) (jam c z)" by (rule cell_jam [OF cell_coarser [OF y]]) (use g in simp_all)
    then have "nearest_even p ((E + 2) * 2 ^ p) (y / 2 ^ c / 2 ^ g) (half_even g (jam c z))"
    proof (rule nearest_low [OF g1])
      show "jam c z < 2 ^ (Suc p + g)" using z' z(2) by simp
      have "2 ^ Suc p \<le> (E + 2) * 2 ^ p" by simp
      then show "half_even g (jam c z) \<le> (E + 2) * 2 ^ p" using s [OF z'] by linarith
    qed simp
    moreover have "y / 2 ^ c / 2 ^ g = y / 2 ^ g * 2 powi e" unfolding c(2) by (simp add: power_int_minus field_simps)
    ultimately show ?thesis using 3 by (simp add: round_pack_def c_def)
  qed
qed

section \<open>Sums, differences, products and quotients of significands\<close>

lemma jam_less: "z < 2 ^ Suc q \<Longrightarrow> jam d z < 2 ^ Suc q"
proof -
  assume "z < 2 ^ Suc q"
  also have "2 ^ Suc q * 1 \<le> (2 :: nat) ^ Suc q * 2 ^ d" by (intro mult_le_mono2) simp
  finally show ?thesis using jam_pos(1) [of "2 ^ Suc q" d z] by simp
qed

lemma cell_jam_exact: "cell 1 (real z / 2 ^ d) (jam d z)"
  by (rule cell_jam [OF cell_exact]) simp

text \<open>The larger operand has the hidden bit; the smaller one is shifted to its exponent.\<close>

lemma sum_nearest:
  assumes p: "p \<ge> 1" and w: "w \<ge> 2" and sa: "2 ^ p \<le> sa" "sa < 2 ^ Suc p" and sb: "sb < 2 ^ Suc p"
    and z: "z = sa * 2 ^ w + jam d (sb * 2 ^ w)"
  shows "nearest_even p ((E + 2) * 2 ^ p) ((real sa + real sb / 2 ^ d) * 2 powi (ea - 1))
           (if 2 ^ (p + w + 1) \<le> z then round_pack p (w + 1) E ea z else round_pack p (w + 1) E (ea - 1) (2 * z))"
    and "z < 2 ^ (p + w + 2)" and "2 ^ (p + w) \<le> z"
proof -
  let ?b = "sb * 2 ^ w"
  define y where "y = real (sa * 2 ^ w) + real ?b / 2 ^ d"
  have "?b < 2 ^ Suc (p + w)" using sb by (simp add: power_add)
  then have b: "jam d ?b < 2 ^ Suc (p + w)" by (rule jam_less)
  have a: "2 ^ (p + w) \<le> sa * 2 ^ w" "sa * 2 ^ w < 2 ^ Suc (p + w)" using sa by (simp_all add: power_add)
  have zb: "z < 2 ^ (p + w + 2)" "2 ^ (p + w) \<le> z" unfolding z using a b by simp_all
  then show "z < 2 ^ (p + w + 2)" "2 ^ (p + w) \<le> z" .
  have eq: "sa * 2 ^ w = (sa * 2 ^ (w - 1)) * 2 ^ 1" using w by (cases w) simp_all
  have c: "cell 1 y z" unfolding z y_def eq by (rule cell_add [OF cell_jam_exact])
  show "nearest_even p ((E + 2) * 2 ^ p) ((real sa + real sb / 2 ^ d) * 2 powi (ea - 1))
           (if 2 ^ (p + w + 1) \<le> z then round_pack p (w + 1) E ea z else round_pack p (w + 1) E (ea - 1) (2 * z))"
  proof (cases "2 ^ (p + w + 1) \<le> z")
    case True
    have "nearest_even p ((E + 2) * 2 ^ p) (y / 2 ^ (w + 1) * 2 powi ea) (round_pack p (w + 1) E ea z)"
      by (rule round_pack_nearest [OF _ p]) (use True w zb in \<open>simp_all add: cell_coarser [OF c]\<close>)
    moreover have "y / 2 ^ (w + 1) * 2 powi ea = (real sa + real sb / 2 ^ d) * 2 powi (ea - 1)"
      by (simp add: y_def power_int_diff field_simps)
    ultimately show ?thesis using True by simp
  next
    case False
    have "cell 2 (y * 2) (2 * z)" using cell_double [OF c, of 1] by (simp add: mult.commute numeral_2_eq_2)
    then have "nearest_even p ((E + 2) * 2 ^ p) (y * 2 / 2 ^ (w + 1) * 2 powi (ea - 1)) (round_pack p (w + 1) E (ea - 1) (2 * z))"
      by (intro round_pack_nearest [OF _ p]) (use False w zb in \<open>simp_all add: cell_coarser\<close>)
    moreover have "y * 2 / 2 ^ (w + 1) * 2 powi (ea - 1) = (real sa + real sb / 2 ^ d) * 2 powi (ea - 1)"
      by (simp add: y_def field_simps)
    ultimately show ?thesis using False by simp
  qed
qed

lemma jam_exact: "2 ^ d dvd z \<Longrightarrow> jam d z = z div 2 ^ d"
  by (simp add: jam_def dvd_imp_mod_0)

text \<open>A difference is normalized by a left shift; one that loses bits is shifted by at most one place.\<close>

lemma difference_nearest:
  assumes p: "p \<ge> 1" and g: "g \<ge> 3" and sa: "sa < 2 ^ Suc p"
    and sb: "sb < 2 ^ Suc p" and d: "d = 0 \<or> 2 ^ p \<le> sa" and z: "z = sa * 2 ^ g - jam d (sb * 2 ^ g)"
    and lt: "jam d (sb * 2 ^ g) < sa * 2 ^ g" and n: "2 ^ (p + g) \<le> z * 2 ^ k" "z * 2 ^ k < 2 ^ (Suc p + g)"
  shows "nearest_even p ((E + 2) * 2 ^ p) ((real sa - real sb / 2 ^ d) * 2 powi (ea - 1))
           (round_pack p g E (ea - 1 - int k) (z * 2 ^ k))"
proof -
  let ?b = "sb * 2 ^ g"
  define y where "y = real (sa * 2 ^ g) - real ?b / 2 ^ d"
  have "cell (g - 1) (y * 2 ^ k) (z * 2 ^ k)"
  proof (cases "d \<le> g")
    case True
    then have "2 ^ d dvd ?b" by (simp add: le_imp_power_dvd)
    then have "real ?b / 2 ^ d = real (jam d ?b)" by (simp add: jam_exact real_of_nat_div)
    then have "y = real z" unfolding y_def z using lt by (simp add: of_nat_diff)
    then show ?thesis using cell_exact [of "g - 1" "z * 2 ^ k"] by simp
  next
    case False
    with d have sa': "2 ^ p \<le> sa" by auto
    have eq: "sa * 2 ^ g = (sa * 2 ^ (g - 1)) * 2 ^ 1" using g by (cases g) simp_all
    have c: "cell 1 y z" unfolding z y_def eq
      by (rule cell_diff [OF cell_jam_exact]) (use lt in \<open>simp add: eq\<close>)
    have "?b < 2 ^ (p + 1) * 2 ^ g" using sb by simp
    also have "\<dots> \<le> 2 ^ (p + 1) * 2 ^ (d - 1)" using False by (intro mult_le_mono2 power_increasing) simp_all
    also have "\<dots> = 2 ^ p * 2 ^ d" using False by (cases d) simp_all
    finally have j: "jam d ?b < 2 ^ p" using jam_pos(1) [of "2 ^ p" d ?b] p by simp
    have pg: "2 ^ p * 4 \<le> (2 :: nat) ^ (p + g)"
      using power_increasing [of 2 g "2 :: nat"] g by (simp add: power_add)
    have "2 ^ (p + g) \<le> sa * 2 ^ g" using sa' by (simp add: power_add)
    then have zk: "2 ^ (p + g - 1) < z" using j pg g p unfolding z by (cases g) simp_all
    have "k \<le> 1"
    proof (rule ccontr)
      assume "\<not> k \<le> 1"
      then have "(4 :: nat) \<le> 2 ^ k" using power_increasing [of 2 k "2 :: nat"] by simp
      then have "2 ^ (p + g - 1) * 4 \<le> z * 2 ^ k" using zk by (intro mult_le_mono) simp_all
      then show False using n(2) g by (cases g) simp_all
    qed
    then show ?thesis by (intro cell_coarser [OF cell_double [OF c]]) (use g in simp)
  qed
  then have "nearest_even p ((E + 2) * 2 ^ p) (y * 2 ^ k / 2 ^ g * 2 powi (ea - 1 - int k)) (round_pack p g E (ea - 1 - int k) (z * 2 ^ k))"
    by (intro round_pack_nearest [OF _ p]) (use g n in simp_all)
  moreover have "y * 2 ^ k / 2 ^ g * 2 powi (ea - 1 - int k) = (real sa - real sb / 2 ^ d) * 2 powi (ea - 1)"
    by (simp add: y_def power_int_diff power_int_add field_simps)
  ultimately show ?thesis by simp
qed

text \<open>
  A product of two normalized significands, or a quotient, is in one of two binades: the first case
  keeps its significand, the second doubles it.
\<close>

lemma binade_nearest:
  assumes p: "p \<ge> 1" and g: "g \<ge> 3" and c: "cell (g - 2) y z" and z: "2 ^ (p + g - 1) \<le> z" "z < 2 ^ (Suc p + g)"
  shows "nearest_even p ((E + 2) * 2 ^ p) (y / 2 ^ g * 2 powi e)
           (if 2 ^ (p + g) \<le> z then round_pack p g E e z else round_pack p g E (e - 1) (2 * z))"
proof (cases "2 ^ (p + g) \<le> z")
  case True
  have "nearest_even p ((E + 2) * 2 ^ p) (y / 2 ^ g * 2 powi e) (round_pack p g E e z)"
    by (rule round_pack_nearest [OF _ p]) (use True g z in \<open>simp_all add: cell_coarser [OF c]\<close>)
  then show ?thesis using True by simp
next
  case False
  have "Suc (g - 2) = g - 1" using g by simp
  then have "cell (g - 1) (y * 2) (2 * z)" using cell_double [OF c, of 1] by (simp add: mult.commute)
  moreover have "2 ^ (p + g) \<le> 2 * z" using z(1) g by (cases g) simp_all
  ultimately have "nearest_even p ((E + 2) * 2 ^ p) (y * 2 / 2 ^ g * 2 powi (e - 1)) (round_pack p g E (e - 1) (2 * z))"
    using False g by (intro round_pack_nearest [OF _ p]) simp_all
  moreover have "y * 2 / 2 ^ g * 2 powi (e - 1) = y / 2 ^ g * 2 powi e" by (simp add: power_int_diff)
  ultimately show ?thesis using False by (simp only: if_False)
qed

text \<open>A number and a significand strictly between the same two multiples.\<close>

lemma cell_between:
  assumes y: "of_int (k * 2 ^ h) < y" "y < of_int ((k + 1) * 2 ^ h)" and z: "k * 2 ^ h < int z" "int z < (k + 1) * 2 ^ h"
  shows "cell h y z"
  unfolding cell_def
proof
  fix L :: int
  consider "L \<le> k" | "k + 1 \<le> L" by linarith
  then show "(y < of_int (L * 2 ^ h) \<longleftrightarrow> int z < L * 2 ^ h) \<and> (of_int (L * 2 ^ h) < y \<longleftrightarrow> L * 2 ^ h < int z)"
  proof cases
    case 1
    then have "L * 2 ^ h \<le> k * 2 ^ h" by simp
    moreover from this have "real_of_int (L * 2 ^ h) \<le> of_int (k * 2 ^ h)" by (rule of_int_le_iff [THEN iffD2])
    ultimately show ?thesis using y z by linarith
  next
    case 2
    then have "(k + 1) * 2 ^ h \<le> L * 2 ^ h" by simp
    moreover from this have "real_of_int ((k + 1) * 2 ^ h) \<le> of_int (L * 2 ^ h)" by (rule of_int_le_iff [THEN iffD2])
    ultimately show ?thesis using y z by linarith
  qed
qed

text \<open>An approximation from above of an integer part stands for the number when it is not too close above a multiple.\<close>

lemma cell_approx:
  assumes y: "real q \<le> y" "y < real q + 1" and z: "q \<le> z" "z \<le> q + j" and m: "j < z mod 2 ^ h"
  shows "cell h y z"
proof (rule cell_between)
  let ?k = "z div 2 ^ h" and ?m = "z mod 2 ^ h"
  have z': "z = ?k * 2 ^ h + ?m" by (rule div_mult_mod_eq [symmetric])
  have k: "?k * 2 ^ h < q" using z(2) m z' by linarith
  have lt: "z < (?k + 1) * 2 ^ h" using z' by (metis add_mult_distrib mod_less_divisor nat_1 nat_add_left_cancel_less nat_mult_1 pos2 zero_less_power)
  have i: "int ?k * 2 ^ h = int (?k * 2 ^ h)" "(int ?k + 1) * 2 ^ h = int ((?k + 1) * 2 ^ h)" by (simp_all add: algebra_simps)
  show "int ?k * 2 ^ h < int z" "int z < (int ?k + 1) * 2 ^ h" unfolding i of_nat_less_iff using k z(1) lt by linarith+
  have "real (?k * 2 ^ h) < real q" using k by (simp only: of_nat_less_iff)
  then show "of_int (int ?k * 2 ^ h) < y" unfolding i using y(1) by simp
  have "real q + 1 \<le> real ((?k + 1) * 2 ^ h)" using lt z(1) by (simp only: of_nat_Suc [symmetric] of_nat_le_iff Suc_le_eq add.commute)
  then show "y < of_int ((int ?k + 1) * 2 ^ h)" unfolding i using y(2) by simp
qed

text \<open>An integer quotient with a last bit that tells a remainder.\<close>

lemma cell_quotient:
  assumes "b > 0"
  shows "cell 1 (real a / real b) (if b dvd a then a div b else a div b div 2 * 2 + 1)"
  unfolding cell_def
proof
  fix L :: int
  let ?q = "a div b"
  have lt: "real a / real b < of_int k \<longleftrightarrow> int ?q < k" for k :: int
    using floor_less_iff [of "real a / real b" k] by (simp add: floor_divide_of_nat_eq)
  have gt: "of_int k < real a / real b \<longleftrightarrow> k < int ?q \<or> k = int ?q \<and> \<not> b dvd a" for k :: int
  proof -
    have "of_int k = real a / real b \<longleftrightarrow> k = int ?q \<and> b dvd a"
    proof
      assume k: "of_int k = real a / real b"
      then have "of_int (k * int b) = real a" using assms by (simp add: field_simps)
      then have "k * int b = int a" by (metis of_int_eq_iff of_int_of_nat_eq)
      then show "k = int ?q \<and> b dvd a"
        using assms by (metis dvd_triv_right int_dvd_int_iff nonzero_mult_div_cancel_right of_nat_0_less_iff order_less_irrefl zdiv_int)
    next
      assume "k = int ?q \<and> b dvd a"
      then show "of_int k = real a / real b" by (simp add: real_of_nat_div)
    qed
    moreover have "of_int k < real a / real b \<or> of_int k = real a / real b \<longleftrightarrow> k \<le> int ?q"
      using lt [of k] by auto
    ultimately show ?thesis by auto
  qed
  have i: "int (q div 2 * 2 + 1) = int q div 2 * 2 + 1" for q by (simp add: zdiv_int)
  have odd: "k div 2 * 2 + 1 < L * 2 \<longleftrightarrow> k < L * 2" "L * 2 < k div 2 * 2 + 1 \<longleftrightarrow> L * 2 \<le> k" for k :: int
    by presburger+
  show "(real a / real b < of_int (L * 2 ^ 1) \<longleftrightarrow> int (if b dvd a then ?q else ?q div 2 * 2 + 1) < L * 2 ^ 1) \<and>
        (of_int (L * 2 ^ 1) < real a / real b \<longleftrightarrow> L * 2 ^ 1 < int (if b dvd a then ?q else ?q div 2 * 2 + 1))"
    unfolding lt gt power_one_right by (cases "b dvd a") (simp_all only: if_True if_False i odd, auto)
qed

end
