(* ===== verification/Softfloat_Words.thy ===== *)
theory Softfloat_Words
  imports Softfloat Rounding
begin

text \<open>
  The word operations of the floating point library as operations on the numbers that the words hold:
  shifts that jam, leading zeros, packing and rounding.
\<close>

section \<open>Words of any width\<close>

lemma unat_eq_of_nat: "(w :: 'a :: len word) = of_nat n \<Longrightarrow> n < 2 ^ LENGTH('a) \<Longrightarrow> unat w = n"
  by (simp add: unsigned_of_nat take_bit_nat_eq_self)

lemma unat_push_bit_less:
  assumes "unat (a :: 'a :: len word) * 2 ^ n < 2 ^ LENGTH('a)"
  shows "unat (push_bit n a) = unat a * 2 ^ n"
  using assms unfolding unsigned_push_bit_eq by (simp add: push_bit_eq_mult [where 'a = nat] take_bit_nat_eq_self)

lemma unat_drop_bit_div: "unat (drop_bit n a) = unat a div 2 ^ n"
  unfolding unat_drop_bit_eq by (rule drop_bit_eq_div)

lemma unat_add_less:
  assumes "unat (a :: 'a :: len word) + unat b < 2 ^ LENGTH('a)"
  shows "unat (a + b) = unat a + unat b"
  using assms by (simp add: unat_word_ariths(1))

lemma unat_two_power: "n < LENGTH('a) \<Longrightarrow> unat ((2 :: 'a :: len word) ^ n) = 2 ^ n"
  using unsigned_of_nat [of "2 ^ n", where ?'a = nat and ?'b = 'a] by (simp add: take_bit_nat_eq_self)

lemma unat_diff_eq: "unat x = n \<Longrightarrow> unat y = m \<Longrightarrow> m \<le> n \<Longrightarrow> unat (x - y :: 'a :: len word) = n - m"
  by (simp add: unat_sub word_le_nat_alt)

lemma unat_or_power:
  assumes "unat (x :: 'a :: len word) < 2 ^ n" and "n < LENGTH('a)"
  shows "unat (x OR 2 ^ n) = 2 ^ n + unat x"
proof -
  have "take_bit n x = x" by (rule word_unat_eqI) (simp add: unsigned_take_bit_eq take_bit_nat_eq_self assms(1))
  then have "\<not> bit x n" by (metis bit_take_bit_iff less_irrefl)
  then have "x OR 2 ^ n = x + 2 ^ n" by (subst disjunctive_add_eq_or) (auto intro!: bit_word_eqI simp: bit_and_iff bit_exp_iff)
  moreover have "unat x + unat ((2 :: 'a word) ^ n) < 2 ^ LENGTH('a)"
  proof -
    have "unat x + 2 ^ n < 2 ^ Suc n" using assms(1) by simp
    also have "\<dots> \<le> 2 ^ LENGTH('a)" using assms(2) by (intro power_increasing) simp_all
    finally show ?thesis using assms(2) by (simp add: unat_two_power)
  qed
  ultimately show ?thesis using assms(2) by (simp add: unat_add_less unat_two_power)
qed

lemma or_leading:
  assumes "2 ^ n \<le> unat (x :: 'a :: len word)" and "unat x < 2 ^ Suc n"
  shows "x OR 2 ^ n = x"
proof -
  have "unat x div 2 ^ n = 1" using assms by (intro div_nat_eqI) simp_all
  then have "bit (unat x) n" by (simp add: bit_iff_odd)
  then have "bit x n" by (simp add: bit_unsigned_iff)
  then show ?thesis by (intro bit_word_eqI) (auto simp: bit_or_iff bit_exp_iff)
qed

lemma push_bit_word_zero_iff:
  assumes "c < LENGTH('a)"
  shows "push_bit (LENGTH('a) - c) (a :: 'a :: len word) = 0 \<longleftrightarrow> unat a mod 2 ^ c = 0"
proof -
  have "push_bit (LENGTH('a) - c) a = 0 \<longleftrightarrow> unat (push_bit (LENGTH('a) - c) a) = 0" by (simp only: unat_eq_zero)
  also have "\<dots> \<longleftrightarrow> unat a mod 2 ^ c = 0"
    using assms unfolding unsigned_push_bit_eq take_bit_push_bit
    by (simp add: push_bit_eq_mult [where 'a = nat] take_bit_eq_mod [where 'a = nat])
  finally show ?thesis .
qed

lemma jam_odd: "q + of_bool (even q) = q div 2 * 2 + 1" for q :: nat
  by (cases "even q") (simp_all, presburger)

lemma unat_jam_word:
  assumes "0 < c" "c < LENGTH('a)"
  shows "unat (drop_bit c (a :: 'a :: len word) OR of_bool (push_bit (LENGTH('a) - c) a \<noteq> 0)) = jam c (unat a)"
proof (cases "unat a mod 2 ^ c = 0")
  case True
  then show ?thesis
    using push_bit_word_zero_iff [OF assms(2)] by (simp add: jam_def unat_drop_bit_div)
next
  case False
  then have "unat (drop_bit c a OR of_bool (push_bit (LENGTH('a) - c) a \<noteq> 0)) = (unat a div 2 ^ c) OR 1"
    using push_bit_word_zero_iff [OF assms(2)] by (simp add: unsigned_or_eq unat_drop_bit_div)
  also have "\<dots> = unat a div 2 ^ c div 2 * 2 + 1" unfolding or_one_eq by (rule jam_odd)
  finally show ?thesis using False by (simp add: jam_def)
qed

lemma jam_0: "jam 0 z = z"
  by (simp add: jam_def)

lemma jam_all:
  assumes "z < 2 ^ n" "n \<le> c"
  shows "jam c z = of_bool (z \<noteq> 0)"
proof -
  have "z < 2 ^ c" using assms by (meson le_less_trans less_le_trans one_le_numeral power_increasing)
  then show ?thesis by (simp add: jam_def)
qed

lemma unat_shift32RightJamming: "unat (shift32RightJamming a (int c)) = jam c (unat a)"
proof -
  have "nat (- int c mod 32) = 32 - c" if "0 < c" "c < 32"
  proof -
    have "- int c mod 32 = (- int c + 32) mod 32" by simp
    also have "\<dots> = 32 - int c" using that by (subst mod_pos_pos_trivial) simp_all
    finally have "- int c mod 32 = 32 - int c" .
    then show ?thesis using that by simp
  qed
  then show ?thesis
    using unat_jam_word [of c a] jam_all [OF unat_u32_less, of c a]
    by (cases "c = 0"; cases "c < 32") (simp_all add: shift32RightJamming_def jam_0 unat_gt_0)
qed

lemma unat_u64_less: "unat (w :: u64) < 2 ^ 64"
proof -
  have "unat w < 2 ^ LENGTH(64)" by (rule unsigned_less)
  then show ?thesis by simp
qed

lemma unat_shift64RightJamming: "unat (shift64RightJamming a (int c)) = jam c (unat a)"
proof -
  have "nat (- int c mod 64) = 64 - c" if "0 < c" "c < 64"
  proof -
    have "- int c mod 64 = (- int c + 64) mod 64" by simp
    also have "\<dots> = 64 - int c" using that by (subst mod_pos_pos_trivial) simp_all
    finally have "- int c mod 64 = 64 - int c" .
    then show ?thesis using that by simp
  qed
  then show ?thesis
    using unat_jam_word [of c a] jam_all [OF unat_u64_less, of c a]
    by (cases "c = 0"; cases "c < 64") (simp_all add: shift64RightJamming_def jam_0 unat_gt_0)
qed

lemma unat_clear_bit0: "unat (x AND NOT 1 :: 'a :: len word) = unat x div 2 * 2"
proof -
  have "x AND NOT 1 = push_bit 1 (drop_bit 1 x)"
    by (rule bit_word_eqI) (auto simp: bit_push_bit_iff bit_drop_bit_eq bit_and_iff bit_not_iff bit_1_iff simp del: push_bit_of_1 push_bit_Suc)
  moreover have "unat (drop_bit 1 x) * 2 ^ 1 < 2 ^ LENGTH('a)"
  proof -
    have "unat x div 2 * 2 \<le> unat x" by simp
    also have "unat x < 2 ^ LENGTH('a)" by (rule unsigned_less)
    finally show ?thesis by (simp add: unat_drop_bit_div)
  qed
  ultimately show ?thesis using unat_push_bit_less [of "drop_bit 1 x" 1]
    by (simp add: unat_drop_bit_div)
qed

lemma xor_eq_0_word: "(a :: 'a :: len word) XOR b = 0 \<longleftrightarrow> a = b"
proof
  assume "a XOR b = 0"
  then have "bit a n = bit b n" for n using bit_xor_iff [of a b n] by auto
  then show "a = b" by (intro bit_eqI) simp
qed simp

lemma unat_half_even:
  assumes "0 < g" "g < LENGTH('a)" and z: "unat (z :: 'a :: len word) + 2 ^ (g - 1) < 2 ^ LENGTH('a)"
  shows "unat (drop_bit g (z + 2 ^ (g - 1)) AND NOT (of_bool (z AND mask g XOR 2 ^ (g - 1) = 0))) = half_even g (unat z)"
proof -
  have h: "unat ((2 :: 'a word) ^ (g - 1)) = 2 ^ (g - 1)" using assms(2) by (simp add: unat_two_power)
  have t: "z AND mask g XOR 2 ^ (g - 1) = 0 \<longleftrightarrow> unat z mod 2 ^ g = 2 ^ (g - 1)"
  proof -
    have "z AND mask g XOR 2 ^ (g - 1) = 0 \<longleftrightarrow> take_bit g z = 2 ^ (g - 1)"
      by (simp only: take_bit_eq_mask xor_eq_0_word)
    also have "\<dots> \<longleftrightarrow> unat (take_bit g z) = unat ((2 :: 'a word) ^ (g - 1))" by (rule word_unat_eq_iff)
    finally show ?thesis unfolding h unsigned_take_bit_eq take_bit_eq_mod [where 'a = nat] .
  qed
  have s: "unat (drop_bit g (z + 2 ^ (g - 1))) = (unat z + 2 ^ (g - 1)) div 2 ^ g"
    using z unat_add_less [of z "2 ^ (g - 1)"] unfolding unat_drop_bit_div h by simp
  show ?thesis
    unfolding half_even_def Let_def t s [symmetric] unat_clear_bit0 [symmetric]
    by (cases "unat z mod 2 ^ g = 2 ^ (g - 1)") simp_all
qed

section \<open>Leading zeros\<close>

text \<open>The highest set bit of a word lies below its leading zeros.\<close>

lemma leading_zeros_bounds:
  assumes "a \<noteq> (0 :: 'a :: len word)"
  defines "k \<equiv> builtin_clz_word a"
  shows "k < LENGTH('a)" and "2 ^ (LENGTH('a) - Suc k) \<le> unat a" and "unat a < 2 ^ (LENGTH('a) - k)"
proof -
  let ?xs = "rev [0 ..< LENGTH('a)]"
  have nth: "?xs ! i = LENGTH('a) - Suc i" if "i < LENGTH('a)" for i using that by (simp add: rev_nth)
  have ex: "\<exists>i \<in> set ?xs. bit a i"
  proof (rule ccontr)
    assume "\<not> (\<exists>i \<in> set ?xs. bit a i)"
    then have "a = 0" by (intro bit_word_eqI) simp
    with assms(1) show False by simp
  qed
  have "k \<noteq> length ?xs"
  proof
    assume "k = length ?xs"
    then have "takeWhile (\<lambda>i. \<not> bit a i) ?xs = ?xs"
      unfolding k_def builtin_clz_word_def by (metis takeWhile_eq_take take_all order_refl)
    with ex show False by (metis takeWhile_eq_all_conv)
  qed
  moreover have "k \<le> length ?xs" unfolding k_def builtin_clz_word_def by (rule length_takeWhile_le)
  ultimately show k: "k < LENGTH('a)" by simp
  have top: "bit a (LENGTH('a) - Suc k)"
    using nth_length_takeWhile [of "\<lambda>i. \<not> bit a i" ?xs] k nth [OF k] unfolding k_def builtin_clz_word_def by simp
  have zero: "\<not> bit a n" if "LENGTH('a) - k \<le> n" for n
  proof (cases "n < LENGTH('a)")
    case True
    then have i: "LENGTH('a) - Suc n < k" using that k by simp
    then have "\<not> bit a (?xs ! (LENGTH('a) - Suc n))"
      unfolding k_def builtin_clz_word_def using set_takeWhileD [of _ "\<lambda>i. \<not> bit a i" ?xs] takeWhile_nth nth_mem by metis
    then show ?thesis using True nth [of "LENGTH('a) - Suc n"] by simp
  next
    case False
    then show ?thesis by (simp add: bit_word.rep_eq)
  qed
  have "take_bit (LENGTH('a) - k) a = a" by (rule bit_word_eqI) (use zero not_less in \<open>auto simp: bit_take_bit_iff\<close>)
  then have "take_bit (LENGTH('a) - k) (unat a) = unat a" by (simp flip: unsigned_take_bit_eq)
  then show "unat a < 2 ^ (LENGTH('a) - k)" by (simp only: take_bit_nat_eq_self_iff)
  have "bit (unat a) (LENGTH('a) - Suc k)" using top by (simp add: bit_unsigned_iff)
  then have "odd (unat a div 2 ^ (LENGTH('a) - Suc k))" by (simp add: bit_iff_odd)
  then have "unat a div 2 ^ (LENGTH('a) - Suc k) \<noteq> 0" by (intro notI) simp
  then show "2 ^ (LENGTH('a) - Suc k) \<le> unat a" by (simp add: div_eq_0_iff)
qed

lemma and_mask_unat: "unat ((w :: 'a :: len word) AND mask n) = unat w mod 2 ^ n"
  unfolding take_bit_eq_mask [symmetric] unsigned_take_bit_eq by (rule take_bit_eq_mod)

lemma and_mask_zero: "(w :: 'a :: len word) AND mask n = 0 \<longleftrightarrow> unat w mod 2 ^ n = 0"
proof -
  have "w AND mask n = 0 \<longleftrightarrow> unat (take_bit n w) = 0" unfolding take_bit_eq_mask by (simp only: unat_0_iff)
  then show ?thesis by (simp only: unsigned_take_bit_eq take_bit_eq_mod [where 'a = nat])
qed

lemma real_of_nat_div_bounds:
  assumes "b > 0"
  shows "real (a div b) \<le> real a / real b" and "real a / real b < real (a div b) + 1"
  using floor_divide_of_nat_eq [of a b, where ?'a = real] floor_correct [of "real a / real b"] by simp_all

section \<open>Signs\<close>

lemma sint_neg_iff: "sint (a :: 'a :: len word) < 0 \<longleftrightarrow> bit a (LENGTH('a) - Suc 0)"
  by (simp add: sint_uint signed_take_bit_negative_iff bit_uint_iff)

lemma top_bit_iff: "bit (a :: 'a :: len word) (LENGTH('a) - Suc 0) \<longleftrightarrow> 2 ^ (LENGTH('a) - Suc 0) \<le> unat a"
proof -
  let ?t = "LENGTH('a) - Suc 0"
  have a: "unat a < 2 * 2 ^ ?t" using unsigned_less [of a] by (metis One_nat_def Suc_pred len_gt_0 power_Suc)
  have "bit a ?t \<longleftrightarrow> odd (unat a div 2 ^ ?t)" by (simp flip: bit_iff_odd add: bit_unsigned_iff)
  moreover have "unat a div 2 ^ ?t < 2" using a by (simp add: div_less_iff_less_mult)
  moreover have "unat a div 2 ^ ?t = 0 \<longleftrightarrow> unat a < 2 ^ ?t" by (simp add: div_eq_0_iff)
  ultimately show ?thesis by (cases "unat a div 2 ^ ?t = 0") (auto simp: less_2_cases_iff not_less)
qed

lemma sint_neg32: "sint (a :: u32) < 0 \<longleftrightarrow> 2 ^ 31 \<le> unat a"
  using top_bit_iff [of a] by (simp add: sint_neg_iff)

lemma sint_neg64: "sint (a :: u64) < 0 \<longleftrightarrow> 2 ^ 63 \<le> unat a"
  using top_bit_iff [of a] by (simp add: sint_neg_iff)

section \<open>Multi-word arithmetic\<close>

lemma add_carry: "unat (x + y) + 2 ^ LENGTH('a) * of_bool (x + y < y) = unat x + unat (y :: 'a :: len word)"
proof (cases "unat x + unat y < 2 ^ LENGTH('a)")
  case True
  then show ?thesis by (simp add: unat_add_less word_less_nat_alt)
next
  case False
  then have "unat (x + y) = unat x + unat y - 2 ^ LENGTH('a)" by (simp add: unat_plus_if')
  moreover have "unat x < 2 ^ LENGTH('a)" by (rule unsigned_less)
  ultimately have "unat (x + y) < unat y" "unat (x + y) + 2 ^ LENGTH('a) = unat x + unat y" using False by linarith+
  then show ?thesis by (simp add: word_less_nat_alt)
qed

lemma unat_halves: "unat (ucast (a :: u64) :: u32) = unat a mod 2 ^ 32" "unat (ucast (drop_bit 32 a) :: u32) = unat a div 2 ^ 32"
proof -
  show "unat (ucast a :: u32) = unat a mod 2 ^ 32" by (simp add: unsigned_ucast_eq take_bit_eq_mod [where 'a = nat])
  have "unat a div 2 ^ 32 < 2 ^ 32" using unat_u64_less [of a] by (simp add: div_less_iff_less_mult)
  then show "unat (ucast (drop_bit 32 a) :: u32) = unat a div 2 ^ 32"
    by (simp add: unsigned_ucast_eq unat_drop_bit_div take_bit_nat_eq_self)
qed

lemma unat_mul32: "unat (ucast (a :: u32) * ucast (b :: u32) :: u64) = unat a * unat b"
proof -
  have "unat a * unat b < 2 ^ 32 * 2 ^ 32" by (intro mult_strict_mono unat_u32_less) simp_all
  moreover have "unat (ucast a :: u64) = unat a" "unat (ucast b :: u64) = unat b"
    by (simp_all add: unsigned_ucast_eq take_bit_nat_eq_self less_trans [OF unat_u32_less])
  ultimately show ?thesis by (simp add: unat_word_ariths(2))
qed

lemma mul64To128:
  assumes "mul64To128 a b = (z0, z1)"
  shows "unat z0 * 2 ^ 64 + unat z1 = unat a * unat b"
proof -
  define al ah bl bh where "al = (ucast a :: u32)" and "ah = (ucast (drop_bit 32 a) :: u32)"
    and "bl = (ucast b :: u32)" and "bh = (ucast (drop_bit 32 b) :: u32)"
  define ma mb where "ma = (ucast al * ucast bh :: u64)" and "mb = (ucast ah * ucast bl :: u64)"
  define m where "m = ma + mb"
  define lo where "lo = (ucast al * ucast bl :: u64)"
  define ms where "ms = push_bit 32 m"
  define H where "H = unat ah * unat bh + (2 ^ 32 * of_bool (m < mb) + unat m div 2 ^ 32) + of_bool (lo + ms < ms)"
  have z: "z1 = lo + ms" "z0 = ucast ah * ucast bh + (push_bit 32 (of_bool (m < mb)) + drop_bit 32 m) + of_bool (lo + ms < ms)"
    using assms unfolding mul64To128_def Let_def al_def [symmetric] ah_def [symmetric] bl_def [symmetric] bh_def [symmetric]
      ma_def [symmetric] mb_def [symmetric] m_def [symmetric] lo_def [symmetric] ms_def [symmetric] by (auto simp only: prod.inject)
  have ab: "unat a = unat ah * 2 ^ 32 + unat al" "unat b = unat bh * 2 ^ 32 + unat bl"
    unfolding al_def ah_def bl_def bh_def unat_halves(2) by (simp_all only: unat_halves(1) div_mult_mod_eq)
  have M: "unat m + 2 ^ 64 * of_bool (m < mb) = unat al * unat bh + unat ah * unat bl"
    using add_carry [of ma mb] unfolding m_def [symmetric] by (simp add: ma_def mb_def unat_mul32)
  have ms: "unat ms = unat m mod 2 ^ 32 * 2 ^ 32"
    unfolding ms_def unsigned_push_bit_eq take_bit_push_bit
    by (simp add: push_bit_eq_mult [where 'a = nat] take_bit_eq_mod [where 'a = nat])
  have L: "unat z1 + 2 ^ 64 * of_bool (lo + ms < ms) = unat al * unat bl + unat m mod 2 ^ 32 * 2 ^ 32"
    using add_carry [of lo ms] unfolding z(1) ms by (simp add: lo_def unat_mul32)
  have m_split: "unat m div 2 ^ 32 * 2 ^ 32 * 2 ^ 32 + unat m mod 2 ^ 32 * 2 ^ 32 = unat m * 2 ^ 32"
    by (simp only: distrib_right [symmetric] div_mult_mod_eq)
  have "H * 2 ^ 64 + unat z1 = (unat ah * unat bh + 2 ^ 32 * of_bool (m < mb)) * 2 ^ 64 +
      (unat m div 2 ^ 32 * 2 ^ 32) * 2 ^ 32 + (unat z1 + 2 ^ 64 * of_bool (lo + ms < ms))"
    unfolding H_def by (simp add: algebra_simps)
  also have "\<dots> = unat ah * unat bh * 2 ^ 64 + (unat m + 2 ^ 64 * of_bool (m < mb)) * 2 ^ 32 + unat al * unat bl"
    unfolding L using m_split by (simp add: algebra_simps)
  also have "\<dots> = unat a * unat b" unfolding M ab by (simp add: algebra_simps)
  finally have H: "H * 2 ^ 64 + unat z1 = unat a * unat b" .
  have "unat a * unat b < 2 ^ 64 * 2 ^ 64" by (intro mult_strict_mono unat_u64_less) simp_all
  with H have "H < 2 ^ 64" by simp
  moreover have "z0 = of_nat H"
  proof -
    have "(of_nat (unat ah * unat bh) :: u64) = ucast ah * ucast bh" by (simp add: of_nat_unat)
    moreover have "(of_nat (unat m div 2 ^ 32) :: u64) = drop_bit 32 m"
      unfolding unat_drop_bit_div [symmetric] by (rule word_nat_cases [of "drop_bit 32 m"]) simp
    ultimately show ?thesis unfolding z(2) H_def by (simp add: push_bit_eq_mult)
  qed
  ultimately show ?thesis using H unat_eq_of_nat [of z0 H] by simp
qed

section \<open>The status of the handlers\<close>

lemma zero_status_simps [simp]:
  "float_rounding_mode zero_status = float_round_nearest_even" "flush_to_zero zero_status = False"
  "flush_inputs_to_zero zero_status = False" "default_nan_mode zero_status = False"
  by (simp_all add: zero_status_def)

section \<open>Rounding to integers\<close>

text \<open>The nearest integer, ties to even.\<close>

definition nearest_int :: "real \<Rightarrow> int \<Rightarrow> bool" where
  "nearest_int x n \<longleftrightarrow> \<bar>x - of_int n\<bar> \<le> 1 / 2 \<and> (\<bar>x - of_int n\<bar> = 1 / 2 \<longrightarrow> even n)"

text \<open>The representable integer next to a number.\<close>

definition clamp32 :: "int \<Rightarrow> int" where
  "clamp32 n = max (- (2 ^ 31)) (min (2 ^ 31 - 1) n)"

lemma nearest_int_half_even:
  assumes "g \<ge> 1" and "cell (g - 1) y z"
  shows "nearest_int (y / 2 ^ g) (int (half_even g z))"
proof -
  have H: "2 ^ g = 2 * (2 :: real) ^ (g - 1)" using assms(1) by (cases g) simp_all
  define x where "x = y / 2 ^ (g - 1)"
  have x: "y / 2 ^ g = x / 2" by (simp add: x_def H)
  have "2 * real (half_even g z) \<le> x + 1" "x \<le> 2 * real (half_even g z) + 1"
    "2 * real (half_even g z) = x + 1 \<Longrightarrow> even (half_even g z)" "x = 2 * real (half_even g z) + 1 \<Longrightarrow> even (half_even g z)"
    using round_cell [OF assms refl] by (simp_all add: x_def field_simps)
  then show ?thesis unfolding nearest_int_def x by (auto simp: abs_if)
qed

lemma nearest_int_minus: "nearest_int x n \<Longrightarrow> nearest_int (- x) (- n)"
  by (simp add: nearest_int_def abs_minus_commute)

lemma sint_u32: "sint (w :: u32) = (if unat w < 2 ^ 31 then int (unat w) else int (unat w) - 2 ^ 32)"
proof -
  have "uint w < 2 ^ LENGTH(32)" by (rule uint_bounded)
  then have t: "take_bit 32 (uint w) = uint w" by (simp add: take_bit_int_eq_self)
  have "sint w = int (unat w) - of_bool (bit w 31) * 2 ^ 32"
    using signed_take_bit_eq_take_bit_minus [of 31 "uint w"] t by (simp add: sint_uint bit_uint_iff mult.commute)
  then show ?thesis using sint_neg32 [of w] sint_neg_iff [of w] by (auto simp: not_less)
qed

lemma unat_negate: "(w :: u32) \<noteq> 0 \<Longrightarrow> unat (- w) = 2 ^ 32 - unat w"
proof -
  assume "w \<noteq> 0"
  then have "0 < unat w" by (simp only: unat_gt_0 simp_thms)
  moreover have "unat w < 2 ^ 32" by (rule unat_u32_less)
  moreover have "- w = of_nat (2 ^ 32 - unat w)" using \<open>unat w < 2 ^ 32\<close> by (simp add: of_nat_diff)
  ultimately show ?thesis using unat_eq_of_nat [of "- w" "2 ^ 32 - unat w"] by simp
qed

lemma packInt32:
  assumes "unat absZ < 2 ^ 63"
  defines "n \<equiv> half_even 7 (unat absZ)"
  shows "if s \<and> n mod 2 ^ 32 = 2 ^ 31 then roundAndPackInt32 s absZ zero_status = Inl UndefinedBehaviour
         else \<exists>r. roundAndPackInt32 s absZ zero_status = Inr r \<and> sint (fst r) = clamp32 (if s then - int n else int n)"
proof -
  define v where "v = drop_bit 7 (absZ + 0x40) AND NOT (of_bool ((absZ AND 0x7F) XOR 0x40 = (0 :: u64)))"
  have v: "unat v = n" using unat_half_even [of 7 absZ] assms(1) by (simp add: v_def n_def mask_eq_exp_minus_1)
  have hi: "drop_bit 32 v \<noteq> 0 \<longleftrightarrow> 2 ^ 32 \<le> n"
    unfolding unat_0_iff [symmetric] unat_drop_bit_div v by (simp add: div_eq_0_iff not_less)
  have lo: "unat (ucast v :: u32) = n mod 2 ^ 32" using v by (simp add: unsigned_ucast_eq take_bit_eq_mod [where 'a = nat])
  have ub: "ucast v = (0x80000000 :: u32) \<longleftrightarrow> n mod 2 ^ 32 = 2 ^ 31" unfolding word_unat_eq_iff lo by simp
  define z where "z = (if s then - (ucast v :: u32) else ucast v)"
  define r where "r = (if drop_bit 32 v \<noteq> 0 \<or> z \<noteq> 0 \<and> (sint z < 0) \<noteq> s then (if s then 0x80000000 else 0x7FFFFFFF) else z)"
  have code: "if s \<and> n mod 2 ^ 32 = 2 ^ 31 then roundAndPackInt32 s absZ zero_status = Inl UndefinedBehaviour
      else \<exists>st. roundAndPackInt32 s absZ zero_status = Inr (r, st)"
    unfolding roundAndPackInt32_def Let_def z_def v_def r_def ub [symmetric] by (simp add: round_increment_def)
  have c: "sint (0x80000000 :: u32) = - (2 ^ 31)" "sint (0x7FFFFFFF :: u32) = 2 ^ 31 - 1" by (simp_all add: sint_u32)
  have "sint r = clamp32 (if s then - int n else int n)"
  proof (cases "2 ^ 32 \<le> n")
    case True
    then show ?thesis unfolding r_def using c hi by (simp add: clamp32_def)
  next
    case False
    then have zu: "unat z = (if s \<and> n \<noteq> 0 then 2 ^ 32 - n else n)"
      using lo unat_negate [of "ucast v"] unat_0_iff [of "ucast v :: u32"] by (cases "n = 0") (auto simp: z_def)
    show ?thesis
    proof (cases "n = 0")
      case True
      then have "z = 0" using zu unat_0_iff [of z] by simp
      then show ?thesis unfolding r_def using True hi by (simp add: clamp32_def)
    next
      case nz: False
      then have "z \<noteq> 0" using zu False unat_0_iff [of z] by (cases s) auto
      moreover have "sint z = (if s then (if n \<le> 2 ^ 31 then - int n else 2 ^ 32 - int n) else (if n < 2 ^ 31 then int n else int n - 2 ^ 32))"
        unfolding sint_u32 [of z] zu using nz False by (auto simp: of_nat_diff)
      ultimately show ?thesis unfolding r_def using nz hi False c
        by (auto simp: clamp32_def min_def max_def)
    qed
  qed
  with code show ?thesis by (auto split: if_splits)
qed

text \<open>
  What a conversion of \<open>x\<close> returns: the nearest integer, or the nearest representable one. The
  negative integers from \<open>- (2 ^ 31)\<close> downwards may meet the undefined negation, and that one does.
\<close>

definition converts32 :: "real \<Rightarrow> fault + u32 \<times> float_status \<Rightarrow> bool" where
  "converts32 x res \<longleftrightarrow> (\<exists>n. nearest_int x n \<and>
     (if n = - (2 ^ 31) then res = Inl UndefinedBehaviour
      else (\<exists>r. res = Inr r \<and> sint (fst r) = clamp32 n) \<or> n < - (2 ^ 31) \<and> res = Inl UndefinedBehaviour))"

lemma packInt32_cell:
  assumes "unat w < 2 ^ 63" and "cell 6 y (unat w)"
  shows "converts32 ((if s then - y else y) / 2 ^ 7) (roundAndPackInt32 s w zero_status)"
proof -
  define n where "n = half_even 7 (unat w)"
  have "nearest_int (y / 2 ^ 7) (int n)" using nearest_int_half_even [of 7 y "unat w"] assms(2) by (simp add: n_def)
  then have near: "nearest_int ((if s then - y else y) / 2 ^ 7) (if s then - int n else int n)" using nearest_int_minus by fastforce
  have ge: "2 ^ 31 \<le> n" if "n mod 2 ^ 32 = 2 ^ 31" using mod_less_eq_dividend [of n "2 ^ 32"] that by simp
  have eq: "(if s then - int n else int n) = - (2 ^ 31) \<longleftrightarrow> s \<and> n = 2 ^ 31" by (cases s) simp_all
  show ?thesis unfolding converts32_def
    by (rule exI [of _ "if s then - int n else int n"])
      (use packInt32 [OF assms(1), of s, folded n_def] near ge in \<open>auto simp: eq split: if_splits\<close>)
qed

lemma packInt32_large:
  assumes "unat w < 2 ^ 63" and "2 ^ 52 \<le> unat w" and "unat w \<le> v"
  shows "converts32 ((if s then - real v else real v) / 2 ^ 7) (roundAndPackInt32 s w zero_status)"
proof -
  define n m where "n = half_even 7 (unat w)" and "m = half_even 7 v"
  have "nearest_int (real v / 2 ^ 7) (int m)" using nearest_int_half_even [of 7 "real v" v] cell_exact by (simp add: m_def)
  then have near: "nearest_int ((if s then - real v else real v) / 2 ^ 7) (if s then - int m else int m)" using nearest_int_minus by fastforce
  have ge: "2 ^ 45 \<le> m" "2 ^ 45 \<le> n" unfolding m_def n_def by (rule half_even_ge; use assms in simp)+
  then have "clamp32 (if s then - int m else int m) = clamp32 (if s then - int n else int n)" by (cases s) (simp_all add: clamp32_def)
  moreover have "(if s then - int m else int m) \<noteq> - (2 ^ 31)" "s \<Longrightarrow> (if s then - int m else int m) < - (2 ^ 31)" using ge(1) by (cases s; simp)+
  ultimately show ?thesis unfolding converts32_def
    by (intro exI [of _ "if s then - int m else int m"])
      (use packInt32 [OF assms(1), of s, folded n_def] near in \<open>simp only: if_False, auto split: if_splits\<close>)
qed

text \<open>
  The shift of the conversions: a significand \<open>w\<close> with the exponent \<open>e\<close> stands for
  \<open>w * 2 powi (e - c)\<close> in units of 1/128.
\<close>

lemma packInt32_shift:
  assumes e: "0 \<le> e" "e \<noteq> 0 \<Longrightarrow> 2 ^ 52 \<le> unat w" and w: "unat w < 2 ^ 56" and c: "70 \<le> c"
  defines "z \<equiv> (if 0 < c - e then shift64RightJamming w (c - e) else w)"
  shows "converts32 ((if s then - (real (unat w) * 2 powi (max e 1 - c)) else real (unat w) * 2 powi (max e 1 - c)) / 2 ^ 7)
           (roundAndPackInt32 s z zero_status)"
proof (cases "e < c")
  case True
  define d where "d = nat (c - e)"
  have d: "c - e = int d" using True by (simp add: d_def)
  have z: "unat z = jam d (unat w)" using True unat_shift64RightJamming [of w d] by (simp add: z_def d jam_0)
  have zl: "unat z < 2 ^ 63" unfolding z using jam_less [of "unat w" 62 d] w by simp
  have "cell 6 (real (unat w) * 2 powi (max e 1 - c)) (unat z)"
  proof (cases "e = 0")
    case False
    then have "max e 1 - c = - int d" using e(1) d by simp
    then have "real (unat w) * 2 powi (max e 1 - c) = real (unat w) / 2 ^ d" by (simp add: power_int_minus divide_inverse)
    then show ?thesis using cell_coarser [OF cell_jam_exact [of "unat w" d], of 6] unfolding z by simp
  next
    case zero: True
    then have m: "max e 1 - c = - int (d - 1)" "70 \<le> d" using c d by simp_all
    have v: "real (unat w) * 2 powi (max e 1 - c) = real (unat w) / 2 ^ (d - 1)"
      unfolding m(1) by (simp add: power_int_minus divide_inverse)
    have j: "jam d (unat w) = of_bool (unat w \<noteq> 0)" using jam_all [OF w, of d] m(2) by simp
    show ?thesis
    proof (cases "unat w = 0")
      case True
      then show ?thesis unfolding v z j using cell_exact [of 6 0] by simp
    next
      case False
      have "real (unat w) < 2 ^ 56" using of_nat_less_iff [of "unat w" "2 ^ 56", where 'a = real] w by simp
      also have "(2 :: real) ^ 56 \<le> 2 ^ (d - 1)" using m(2) by (intro power_increasing) simp_all
      finally have "real (unat w) / 2 ^ (d - 1) < 1" by simp
      moreover have "0 < real (unat w) / 2 ^ (d - 1)" by (rule divide_pos_pos) (use False in \<open>simp_all only: of_nat_0_less_iff neq0_conv, simp_all\<close>)
      ultimately have "0 < real (unat w) / 2 ^ (d - 1)" "real (unat w) / 2 ^ (d - 1) < 64" by linarith+
      then have "cell 6 (real (unat w) / 2 ^ (d - 1)) 1" by (intro cell_between [of 0]) (simp_all only: mult_zero_left of_int_0 add_0 mult_1_left, simp_all)
      then show ?thesis unfolding v z j using False by simp
    qed
  qed
  then show ?thesis by (rule packInt32_cell [OF zl])
next
  case False
  define k where "k = nat (e - c)"
  have k: "max e 1 - c = int k" using False c by (simp add: k_def)
  have z: "z = w" using False by (simp add: z_def)
  have v: "real (unat w) * 2 powi (max e 1 - c) = real (unat w * 2 ^ k)" unfolding k by simp
  have "e \<noteq> 0" using False c by simp
  show ?thesis unfolding z v by (rule packInt32_large) (use e(2) [OF \<open>e \<noteq> 0\<close>] w in simp_all)
qed

end
