(* ===== verification/Softfloat_Quotient.thy ===== *)
theory Softfloat_Quotient
  imports Softfloat_Words
begin

text \<open>
  The estimate of a quotient of 128 bits by 64 bits, \<^verbatim>\<open>estimateDiv128To64\<close>: it returns, and
  what it returns is the quotient or larger than it by at most two. Pairs of words are read as signed
  numbers of 128 bits.
\<close>

section \<open>Pairs of words as signed numbers\<close>

definition pair128 :: "u64 \<times> u64 \<Rightarrow> int" where
  "pair128 r = uint (fst r) * 2 ^ 64 + uint (snd r)"

definition holds128 :: "u64 \<times> u64 \<Rightarrow> int \<Rightarrow> bool" where
  "holds128 r R \<longleftrightarrow> pair128 r = R mod 2 ^ 128 \<and> - (2 ^ 127) \<le> R \<and> R < 2 ^ 127"

lemma uint_u64: "0 \<le> uint (w :: u64)" "uint w < 2 ^ 64"
  using uint_lt2p [of w] by simp_all

lemma pair128_range: "0 \<le> pair128 r" "pair128 r < 2 ^ 128"
  using uint_u64 [of "fst r"] uint_u64 [of "snd r"] by (simp_all add: pair128_def)

lemma split_mod128:
  assumes "0 \<le> l" and "l < 2 ^ 64"
  shows "h mod 2 ^ 64 * 2 ^ 64 + l = (h * 2 ^ 64 + l) mod (2 ^ 128 :: int)"
proof -
  have "(l + 2 ^ 64 * h) mod (2 ^ 64 * 2 ^ 64) = 2 ^ 64 * ((l + 2 ^ 64 * h) div 2 ^ 64 mod 2 ^ 64) + (l + 2 ^ 64 * h) mod 2 ^ 64"
    by (rule zmod_zmult2_eq) simp
  moreover have "(l + 2 ^ 64 * h) div 2 ^ 64 = h" "(l + 2 ^ 64 * h) mod 2 ^ 64 = l"
    using assms by (simp_all only: div_mult_self2 mod_mult_self2) simp_all
  ultimately show ?thesis by (simp add: mult.commute add.commute)
qed

lemma pair128_words:
  assumes "uint z0 = (h :: int) mod 2 ^ 64"
  shows "pair128 (z0, z1) = (h * 2 ^ 64 + uint z1) mod 2 ^ 128"
  unfolding pair128_def fst_conv snd_conv assms by (rule split_mod128) (rule uint_u64)+

lemma pair128_add: "pair128 (add128 a0 a1 b0 b1) = (pair128 (a0, a1) + pair128 (b0, b1)) mod 2 ^ 128"
proof -
  let ?c = "of_bool (a1 + b1 < a1)" and ?z = "a0 + b0 + of_bool (a1 + b1 < a1) :: u64"
  have lo: "uint (a1 + b1) = uint a1 + uint b1 - 2 ^ 64 * ?c"
    using uint_u64 [of a1] uint_u64 [of b1] by (simp add: uint_plus_if' word_less_def)
  have "uint ?z = (uint a0 + uint b0 + ?c) mod 2 ^ 64" by (simp add: uint_word_ariths(1) mod_simps)
  from pair128_words [OF this, of "a1 + b1"]
  have "pair128 (add128 a0 a1 b0 b1) = ((uint a0 + uint b0 + ?c) * 2 ^ 64 + uint (a1 + b1)) mod 2 ^ 128"
    by (simp only: add128_def Let_def)
  then show ?thesis unfolding lo pair128_def by (simp add: algebra_simps)
qed

lemma pair128_sub: "pair128 (sub128 a0 a1 b0 b1) = (pair128 (a0, a1) - pair128 (b0, b1)) mod 2 ^ 128"
proof -
  let ?c = "of_bool (a1 < b1)" and ?z = "a0 - b0 - of_bool (a1 < b1) :: u64"
  have lo: "uint (a1 - b1) = uint a1 - uint b1 + 2 ^ 64 * ?c"
    using uint_u64 [of a1] uint_u64 [of b1] by (simp add: uint_sub_if' word_less_def)
  have "uint ?z = (uint a0 - uint b0 - ?c) mod 2 ^ 64" by (simp add: uint_word_ariths(2) mod_simps)
  from pair128_words [OF this, of "a1 - b1"]
  have "pair128 (sub128 a0 a1 b0 b1) = ((uint a0 - uint b0 - ?c) * 2 ^ 64 + uint (a1 - b1)) mod 2 ^ 128"
    by (simp only: sub128_def)
  then show ?thesis unfolding lo pair128_def by (simp add: algebra_simps)
qed

lemma pair128_mul: "pair128 (mul64To128 a b) = uint a * uint b"
proof -
  obtain z0 z1 where z: "mul64To128 a b = (z0, z1)" by force
  have "int (unat z0 * 2 ^ 64 + unat z1) = int (unat a * unat b)" using mul64To128 [OF z] by (simp only:)
  then show ?thesis unfolding z pair128_def by simp
qed

text \<open>Signed numbers that are in range.\<close>

lemma top_bit128: "0 \<le> y \<Longrightarrow> y < 2 ^ 64 \<Longrightarrow> 2 ^ 63 \<le> x \<longleftrightarrow> 2 ^ 127 \<le> x * 2 ^ 64 + y" for x y :: int
  by (cases "2 ^ 63 \<le> x") simp_all

lemma holds128_neg: "holds128 r R \<Longrightarrow> sint (fst r) < 0 \<longleftrightarrow> R < 0"
proof -
  assume r: "holds128 r R"
  have "sint (fst r) < 0 \<longleftrightarrow> 2 ^ 63 \<le> uint (fst r)" 
    unfolding sint_neg64 unat_eq_nat_uint using le_nat_iff [OF uint_u64(1), of "2 ^ 63" "fst r"] by simp
  also have "\<dots> \<longleftrightarrow> 2 ^ 127 \<le> pair128 r" unfolding pair128_def by (rule top_bit128) (rule uint_u64)+
  also have "\<dots> \<longleftrightarrow> R < 0"
  proof (cases "R < 0")
    case True
    have "R mod 2 ^ 128 = (R + 2 ^ 128) mod 2 ^ 128" by simp
    also have "\<dots> = R + 2 ^ 128" using r True by (subst mod_pos_pos_trivial) (simp_all add: holds128_def)
    finally show ?thesis using r True by (simp add: holds128_def)
  next
    case False
    then have "R mod 2 ^ 128 = R" using r by (subst mod_pos_pos_trivial) (simp_all add: holds128_def)
    then show ?thesis using r False by (simp add: holds128_def)
  qed
  finally show ?thesis .
qed

lemma holds128_nonneg: "holds128 r R \<Longrightarrow> 0 \<le> R \<Longrightarrow> pair128 r = R"
proof -
  assume r: "holds128 r R" "0 \<le> R"
  then have "R < 2 ^ 128" by (simp add: holds128_def)
  then show ?thesis using r by (simp add: holds128_def mod_pos_pos_trivial)
qed

lemma holds128_add:
  assumes "holds128 r R" and "pair128 s = S" and "R < 0" and "S < 2 ^ 127"
  shows "holds128 (add128 (fst r) (snd r) (fst s) (snd s)) (R + S)"
  using assms pair128_range(1) [of s] unfolding holds128_def by (simp add: pair128_add mod_simps)

lemma holds128_sub:
  assumes "pair128 a = A" and "pair128 b = B" and "- (2 ^ 127) \<le> A - B" and "A - B < 2 ^ 127"
  shows "holds128 (sub128 (fst a) (snd a) (fst b) (snd b)) (A - B)"
  using assms unfolding holds128_def by (simp add: pair128_sub)

section \<open>The loops\<close>

lemma step128_less: "uint (b :: u64) * 2 ^ 32 < 2 ^ 127" "uint b < 2 ^ 127"
  using uint_u64 [of b] by simp_all

lemma pair128_shifted: "pair128 (drop_bit 32 b, push_bit 32 b) = uint b * 2 ^ 32"
proof -
  have "uint (push_bit 32 b) = uint b mod 2 ^ 32 * 2 ^ 32"
    unfolding unsigned_push_bit_eq take_bit_push_bit
    by (simp add: push_bit_eq_mult [where 'a = int] take_bit_eq_mod [where 'a = int])
  moreover have "uint (drop_bit 32 b) = uint b div 2 ^ 32"
  proof -
    have "int (unat (drop_bit 32 b)) = int (unat b div 2 ^ 32)" by (simp only: unat_drop_bit_div)
    then show ?thesis by (simp add: zdiv_int)
  qed
  ultimately have "pair128 (drop_bit 32 b, push_bit 32 b) = uint b div 2 ^ 32 * 2 ^ 64 + uint b mod 2 ^ 32 * 2 ^ 32"
    by (simp only: pair128_def fst_conv snd_conv)
  also have "\<dots> = (uint b div 2 ^ 32 * 2 ^ 32 + uint b mod 2 ^ 32) * 2 ^ 32" by (simp only: distrib_right mult.assoc) simp
  finally show ?thesis by (simp only: div_mult_mod_eq)
qed

text \<open>The loop takes back units of the upper half until the remainder is not negative.\<close>

lemma estimateDiv_loop:
  assumes "holds128 r R" and "- (int n * (uint b * 2 ^ 32)) \<le> R" and "R < uint b * 2 ^ 32"
  shows "\<exists>k r'. estimateDiv_loop b (drop_bit 32 b) z r = Some (z - of_nat k * 0x100000000, r') \<and>
           pair128 r' = R + int k * (uint b * 2 ^ 32) \<and> 0 \<le> pair128 r' \<and> pair128 r' < uint b * 2 ^ 32"
  using assms
proof (induction n arbitrary: R z r)
  case 0
  then have "\<not> sint (fst r) < 0" by (simp add: holds128_neg)
  then have "estimateDiv_loop b (drop_bit 32 b) z r = Some (z, r)" by (subst estimateDiv_loop.simps) simp
  then show ?case using 0 holds128_nonneg [of r R] by (intro exI [of _ 0] exI [of _ r]) simp
next
  case (Suc n)
  show ?case
  proof (cases "R < 0")
    case False
    then have "\<not> sint (fst r) < 0" using Suc.prems(1) by (simp add: holds128_neg)
    then have "estimateDiv_loop b (drop_bit 32 b) z r = Some (z, r)" by (subst estimateDiv_loop.simps) simp
    then show ?thesis using False Suc.prems holds128_nonneg [of r R] by (intro exI [of _ 0] exI [of _ r]) simp
  next
    case True
    let ?r = "add128 (fst r) (snd r) (drop_bit 32 b) (push_bit 32 b)"
    have "holds128 ?r (R + uint b * 2 ^ 32)"
      using holds128_add [OF Suc.prems(1) pair128_shifted True step128_less(1)] by simp
    moreover have "- (int n * (uint b * 2 ^ 32)) \<le> R + uint b * 2 ^ 32"
      using Suc.prems(2) by (simp add: algebra_simps)
    moreover have "R + uint b * 2 ^ 32 < uint b * 2 ^ 32" using True by simp
    ultimately obtain k r' where
      k: "estimateDiv_loop b (drop_bit 32 b) (z - 0x100000000) ?r = Some (z - 0x100000000 - of_nat k * 0x100000000, r')"
        "pair128 r' = R + uint b * 2 ^ 32 + int k * (uint b * 2 ^ 32)" "0 \<le> pair128 r'" "pair128 r' < uint b * 2 ^ 32"
      using Suc.IH by blast
    have "estimateDiv_loop b (drop_bit 32 b) z r = estimateDiv_loop b (drop_bit 32 b) (z - 0x100000000) ?r"
      using True Suc.prems(1) by (subst estimateDiv_loop.simps) (simp add: holds128_neg)
    then show ?thesis using k by (intro exI [of _ "Suc k"] exI [of _ r']) (simp add: algebra_simps)
  qed
qed

lemma div64_loop:
  assumes "holds128 r R" and "- (int n * uint b) \<le> R" and "R < uint b"
  shows "\<exists>k r'. div64_loop b z r = Some (z - of_nat k, r') \<and>
           pair128 r' = R + int k * uint b \<and> 0 \<le> pair128 r' \<and> pair128 r' < uint b"
  using assms
proof (induction n arbitrary: R z r)
  case 0
  then have "\<not> sint (fst r) < 0" by (simp add: holds128_neg)
  then have "div64_loop b z r = Some (z, r)" by (subst div64_loop.simps) simp
  then show ?case using 0 holds128_nonneg [of r R] by (intro exI [of _ 0] exI [of _ r]) simp
next
  case (Suc n)
  show ?case
  proof (cases "R < 0")
    case False
    then have "\<not> sint (fst r) < 0" using Suc.prems(1) by (simp add: holds128_neg)
    then have "div64_loop b z r = Some (z, r)" by (subst div64_loop.simps) simp
    then show ?thesis using False Suc.prems holds128_nonneg [of r R] by (intro exI [of _ 0] exI [of _ r]) simp
  next
    case True
    let ?r = "add128 (fst r) (snd r) 0 b"
    have "pair128 (0, b) = uint b" by (simp add: pair128_def)
    from holds128_add [OF Suc.prems(1) this True step128_less(2)]
    have "holds128 ?r (R + uint b)" by simp
    moreover have "- (int n * uint b) \<le> R + uint b" using Suc.prems(2) by (simp add: algebra_simps)
    moreover have "R + uint b < uint b" using True by simp
    ultimately obtain k r' where
      k: "div64_loop b (z - 1) ?r = Some (z - 1 - of_nat k, r')"
        "pair128 r' = R + uint b + int k * uint b" "0 \<le> pair128 r'" "pair128 r' < uint b"
      using Suc.IH by blast
    have "div64_loop b z r = div64_loop b (z - 1) ?r"
      using True Suc.prems(1) by (subst div64_loop.simps) (simp add: holds128_neg)
    then show ?thesis using k by (intro exI [of _ "Suc k"] exI [of _ r']) (simp add: algebra_simps)
  qed
qed

section \<open>The estimate\<close>

text \<open>A digit of the quotient, estimated with the upper half of the divisor.\<close>

lemma digit_estimate:
  fixes X b :: nat
  assumes b: "2 ^ 63 \<le> b" "b < 2 ^ 64" and X: "X < b * 2 ^ 32"
  defines "t \<equiv> X div 2 ^ 32" and "c \<equiv> b div 2 ^ 32"
  defines "d \<equiv> (if c * 2 ^ 32 \<le> t then 2 ^ 32 - 1 else t div c)"
  shows "X div b \<le> d" and "d \<le> X div b + 2" and "d < 2 ^ 32" and "2 ^ 31 \<le> c" and "c < 2 ^ 32"
proof -
  let ?q = "X div b"
  show c: "2 ^ 31 \<le> c" "c < 2 ^ 32" using b unfolding c_def by (simp_all add: less_eq_div_iff_mult_less_eq div_less_iff_less_mult)
  have qb: "?q * b \<le> X" by simp
  have q: "?q < 2 ^ 32" using X by (simp add: div_less_iff_less_mult mult.commute)
  show d: "d < 2 ^ 32"
  proof (cases "c * 2 ^ 32 \<le> t")
    case False
    then have "t div c < 2 ^ 32" using c by (simp add: div_less_iff_less_mult mult.commute)
    then show ?thesis using False by (simp add: d_def)
  qed (simp add: d_def)
  have dc: "d * c \<le> t"
  proof (cases "c * 2 ^ 32 \<le> t")
    case True
    then have "d * c \<le> c * 2 ^ 32" by (simp add: d_def mult.commute)
    then show ?thesis using True by linarith
  qed (simp add: d_def)
  have cb: "c * 2 ^ 32 \<le> b" "b < (c + 1) * 2 ^ 32" unfolding c_def by (simp_all add: dividend_less_div_times [THEN order.strict_trans2])
  have tX: "t * 2 ^ 32 \<le> X" "X < (t + 1) * 2 ^ 32" unfolding t_def by (simp_all add: dividend_less_div_times [THEN order.strict_trans2])
  show "?q \<le> d"
  proof (cases "c * 2 ^ 32 \<le> t")
    case True
    then show ?thesis using q by (simp add: d_def)
  next
    case False
    have "?q * (c * 2 ^ 32) \<le> ?q * b" using cb(1) by (rule mult_le_mono2)
    then have "?q * c * 2 ^ 32 < (t + 1) * 2 ^ 32" unfolding mult.assoc using qb tX(2) by linarith
    then have "?q * c < t + 1" by (simp only: mult_less_cancel2)
    then have "?q * c \<le> t" by simp
    then have "?q \<le> t div c" using c(1) by (simp add: less_eq_div_iff_mult_less_eq)
    then show ?thesis using False by (simp add: d_def)
  qed
  have "d * b \<le> d * ((c + 1) * 2 ^ 32)" using cb(2) by simp
  also have "\<dots> = d * c * 2 ^ 32 + d * 2 ^ 32" by (simp add: algebra_simps)
  also have "\<dots> \<le> t * 2 ^ 32 + 2 ^ 64" using dc d by simp
  also have "\<dots> \<le> X + 2 * b" using tX(1) b(1) by simp
  also have "X < (?q + 1) * b" using dividend_less_div_times [of b X] b by simp
  finally have "d * b < (?q + 1) * b + 2 * b" by simp
  then have "d * b < (?q + 3) * b" by (simp add: algebra_simps)
  then have "d < ?q + 3" by simp
  then show "d \<le> ?q + 2" by simp
qed

lemma or_halves:
  assumes x: "unat (x :: u64) = m * 2 ^ 32" and y: "unat (y :: u64) < 2 ^ 32"
  shows "unat (x OR y) = m * 2 ^ 32 + unat y"
proof -
  have "take_bit 32 y = y" by (rule word_unat_eqI) (use y in \<open>simp add: unsigned_take_bit_eq take_bit_nat_eq_self\<close>)
  then have hi: "\<not> bit y n" if "32 \<le> n" for n using that by (metis bit_take_bit_iff not_less)
  have "take_bit 32 x = 0" unfolding unat_0_iff [symmetric] unsigned_take_bit_eq x by (simp add: take_bit_eq_mod)
  then have lo: "\<not> bit x n" if "n < 32" for n using that bit_take_bit_iff [of 32 x n] by simp
  have "x AND y = 0" by (rule bit_word_eqI) (use hi lo not_less in \<open>auto simp: bit_and_iff\<close>)
  then have "x OR y = x + y" by (simp add: disjunctive_add_eq_or)
  moreover have "unat x + unat y < 2 ^ 64"
  proof -
    have "m * 2 ^ 32 < 2 ^ 32 * 2 ^ 32" using unat_u64_less [of x] by (simp add: x)
    then have "m + 1 \<le> 2 ^ 32" by simp
    then have "(m + 1) * 2 ^ 32 \<le> 2 ^ 32 * 2 ^ 32" by (rule mult_le_mono1)
    then show ?thesis using y by (simp add: x)
  qed
  ultimately show ?thesis by (simp add: unat_add_less x)
qed

lemma quotient_digits:
  fixes A b :: nat
  shows "A div b = (A div 2 ^ 32 div b) * 2 ^ 32 + A mod (b * 2 ^ 32) div b"
proof -
  have "A = (A div 2 ^ 32 div b) * 2 ^ 32 * b + A mod (b * 2 ^ 32)"
  proof -
    have "A div 2 ^ 32 div b = A div (b * 2 ^ 32)" by (simp add: mult.commute flip: div_mult2_eq)
    then show ?thesis using div_mult_mod_eq [of A "b * 2 ^ 32"] by (metis mult.assoc mult.commute)
  qed
  then have "A div b = ((A div 2 ^ 32 div b) * 2 ^ 32 * b + A mod (b * 2 ^ 32)) div b" by simp
  then show ?thesis by (cases "b = 0") simp_all
qed

text \<open>
  For a normalized divisor larger than the upper half of the dividend the call returns, and the
  result is at least the quotient and exceeds it by at most two.
\<close>

lemma estimateDiv128To64:
  fixes a0 a1 b :: u64
  assumes b: "2 ^ 63 \<le> unat b" and lt: "unat a0 < unat b"
  defines "q \<equiv> (unat a0 * 2 ^ 64 + unat a1) div unat b"
  obtains z where "estimateDiv128To64 a0 a1 b = Inr z" and "q \<le> unat z" and "unat z \<le> q + 2"
proof -
  define A where "A = unat a0 * 2 ^ 64 + unat a1"
  define B where "B = unat b"
  have B: "2 ^ 63 \<le> B" "B < 2 ^ 64" using b unat_u64_less [of b] by (simp_all add: B_def)
  have a1: "unat a1 < 2 ^ 64" by (rule unat_u64_less)
  have A: "A div 2 ^ 64 = unat a0" "A < B * 2 ^ 64" using a1 lt by (simp_all add: A_def B_def)
  define t where "t = A div 2 ^ 32"
  have t: "t < B * 2 ^ 32" "t div 2 ^ 32 = unat a0"
    using A unfolding t_def by (simp_all add: div_less_iff_less_mult flip: div_mult2_eq)
  define d where "d = (if B div 2 ^ 32 * 2 ^ 32 \<le> unat a0 then 2 ^ 32 - 1 else unat a0 div (B div 2 ^ 32))"
  note dd = digit_estimate [OF B t(1), unfolded t(2), folded d_def]
  define Q where "Q = t div B"
  have Q: "Q \<le> d" "d \<le> Q + 2" "d < 2 ^ 32" using dd by (simp_all add: Q_def)
  let ?b0 = "drop_bit 32 b"
  have b0: "unat ?b0 = B div 2 ^ 32" by (simp add: unat_drop_bit_div B_def)
  have pb0: "unat (push_bit 32 ?b0) = B div 2 ^ 32 * 2 ^ 32"
    by (subst unat_push_bit_less) (use dd(5) in \<open>simp_all add: b0\<close>)
  have nz: "?b0 \<noteq> 0" using dd(4) b0 by (auto simp flip: unat_0_iff)
  have le: "push_bit 32 ?b0 \<le> v \<longleftrightarrow> B div 2 ^ 32 * 2 ^ 32 \<le> unat v" for v
    unfolding word_le_nat_alt pb0 ..
  define z where "z = (if push_bit 32 ?b0 \<le> a0 then 0xFFFFFFFF00000000 else push_bit 32 (a0 div ?b0))"
  have z: "unat z = d * 2 ^ 32"
  proof (cases "B div 2 ^ 32 * 2 ^ 32 \<le> unat a0")
    case True
    then show ?thesis by (simp add: z_def le d_def)
  next
    case False
    then have "unat (a0 div ?b0) = d" by (simp add: unat_div b0 d_def)
    then show ?thesis using False Q(3) by (simp add: z_def le unat_push_bit_less)
  qed
  have AQ: "Q * (B * 2 ^ 32) \<le> A" "A < (Q + 1) * (B * 2 ^ 32)"
  proof -
    have "Q = A div (B * 2 ^ 32)" by (simp add: Q_def t_def div_mult2_eq [symmetric] mult.commute)
    then show "Q * (B * 2 ^ 32) \<le> A" "A < (Q + 1) * (B * 2 ^ 32)"
      using dividend_less_div_times [of "B * 2 ^ 32" A] B(1) by simp_all
  qed
  define S where "S = int B * 2 ^ 32"
  have iAQ: "int Q * S \<le> int A" "int A < (int Q + 1) * S"
  proof -
    have "int (Q * (B * 2 ^ 32)) \<le> int A" "int A < int ((Q + 1) * (B * 2 ^ 32))"
      using AQ by (simp_all only: of_nat_le_iff of_nat_less_iff)
    then show "int Q * S \<le> int A" "int A < (int Q + 1) * S" by (simp_all add: S_def algebra_simps)
  qed
  have S: "0 < S" "S < 2 ^ 96" using B by (simp_all add: S_def)
  define R where "R = int A - int d * S"
  have R: "- (int 2 * S) \<le> R" "R < S"
  proof -
    have "int d * S \<le> (int Q + 2) * S" "int Q * S \<le> int d * S" using Q S(1) by (simp_all add: mult_right_mono)
    moreover have "(int Q + 2) * S = int Q * S + 2 * S" "(int Q + 1) * S = int Q * S + S" by (simp_all add: algebra_simps)
    ultimately show "- (int 2 * S) \<le> R" "R < S" using iAQ unfolding R_def by linarith+
  qed
  let ?prod128 = "mul64To128 b z"
  have ub: "uint b = int B" by (simp add: B_def)
  have uz: "uint z = int d * 2 ^ 32"
  proof -
    have "int (unat z) = int (d * 2 ^ 32)" by (simp only: z)
    then show ?thesis by simp
  qed
  have "holds128 (sub128 a0 a1 (fst ?prod128) (snd ?prod128)) R"
  proof -
    have "pair128 (a0, a1) = int A" by (simp add: pair128_def A_def)
    moreover have "pair128 ?prod128 = int d * S" unfolding pair128_mul ub uz S_def by simp
    ultimately show ?thesis
      using holds128_sub [of "(a0, a1)" "int A" ?prod128 "int d * S"] R S unfolding R_def by simp
  qed
  then obtain k r where loop: "estimateDiv_loop b ?b0 z (sub128 a0 a1 (fst ?prod128) (snd ?prod128)) = Some (z - of_nat k * 0x100000000, r)"
    and r: "pair128 r = R + int k * S" "0 \<le> pair128 r" "pair128 r < S"
    using estimateDiv_loop [of _ R 2 b z] R unfolding ub S_def by blast
  have kQ: "int d - int k = int Q"
  proof -
    have "int A = (int d - int k) * S + pair128 r" unfolding r(1) R_def by (simp add: algebra_simps)
    then have "(int d - int k) * S < (int Q + 1) * S" "int Q * S < (int d - int k + 1) * S" using iAQ r(2,3) by (simp_all add: algebra_simps)
    then have "int d - int k < int Q + 1" "int Q < int d - int k + 1" using S(1) by (simp_all only: mult_less_cancel_right)
    then show ?thesis by linarith
  qed
  define M where "M = A mod (B * 2 ^ 32)"
  have rM: "pair128 r = int M"
  proof -
    have "pair128 r = int A - int Q * S" unfolding r(1) R_def kQ [symmetric] by (simp add: algebra_simps)
    moreover have "M = A - Q * (B * 2 ^ 32)"
      unfolding M_def Q_def t_def by (simp add: minus_div_mult_eq_mod [symmetric] div_mult2_eq mult.commute [of B])
    ultimately show ?thesis using AQ(1) by (simp add: of_nat_diff S_def)
  qed
  have zq: "unat (z - of_nat k * 0x100000000) = Q * 2 ^ 32"
  proof -
    have "z = of_nat (unat z)" by simp
    then have "z - of_nat k * 0x100000000 = of_nat (d * 2 ^ 32) - of_nat (k * 2 ^ 32)" unfolding z by simp
    also have "\<dots> = of_nat (d * 2 ^ 32 - k * 2 ^ 32)" by (rule of_nat_diff [symmetric]) (use kQ in simp)
    also have "d * 2 ^ 32 - k * 2 ^ 32 = Q * 2 ^ 32" using kQ by (simp flip: diff_mult_distrib)
    finally show ?thesis by (rule unat_eq_of_nat) (use Q in simp)
  qed
  obtain r0 r1 where rr: "r = (r0, r1)" by force
  have M: "unat r0 * 2 ^ 64 + unat r1 = M"
  proof -
    have "int (unat r0 * 2 ^ 64 + unat r1) = int M" using rM by (simp add: rr pair128_def)
    then show ?thesis by (simp only: of_nat_eq_iff)
  qed
  have MB: "M < B * 2 ^ 32" using B(1) by (simp add: M_def)
  have r1: "unat r1 < 2 ^ 64" by (rule unat_u64_less)
  have r0: "unat r0 < 2 ^ 32"
  proof -
    have "unat r0 * 2 ^ 64 < 2 ^ 32 * 2 ^ 64" using M MB B(2) by simp
    then show ?thesis by simp
  qed
  define v where "v = push_bit 32 r0 OR drop_bit 32 r1"
  have v: "unat v = M div 2 ^ 32"
  proof -
    have "unat (push_bit 32 r0) = unat r0 * 2 ^ 32" by (rule unat_push_bit_less) (use r0 in simp)
    moreover have "unat (drop_bit 32 r1) < 2 ^ 32" using r1 by (simp add: unat_drop_bit_div div_less_iff_less_mult)
    ultimately have "unat v = unat r0 * 2 ^ 32 + unat r1 div 2 ^ 32" unfolding v_def using or_halves by (simp add: unat_drop_bit_div)
    moreover have "(unat r0 * 2 ^ 64 + unat r1) div 2 ^ 32 = unat r0 * 2 ^ 32 + unat r1 div 2 ^ 32"
      using div_mult_self3 [of "2 ^ 32" "unat r0 * 2 ^ 32" "unat r1"] by simp
    ultimately show ?thesis using M by simp
  qed
  define e where "e = (if push_bit 32 ?b0 \<le> v then 0xFFFFFFFF else v div ?b0)"
  define c where "c = (if B div 2 ^ 32 * 2 ^ 32 \<le> M div 2 ^ 32 then 2 ^ 32 - 1 else M div 2 ^ 32 div (B div 2 ^ 32))"
  have e: "unat e = c" unfolding e_def le v c_def by (simp add: unat_div v b0)
  note cc = digit_estimate [OF B MB, folded c_def]
  have "estimateDiv128To64 a0 a1 b = Inr ((z - of_nat k * 0x100000000) OR e)"
  proof -
    have "\<not> b \<le> a0" using lt by (simp add: word_le_nat_alt)
    then show ?thesis
      unfolding estimateDiv128To64_def Let_def z_def [symmetric] loop rr e_def v_def using nz by simp
  qed
  moreover have "unat ((z - of_nat k * 0x100000000) OR e) = Q * 2 ^ 32 + c"
    using or_halves [OF zq, of e] cc(3) e by simp
  moreover have "q = Q * 2 ^ 32 + M div B"
    unfolding q_def A_def [symmetric] B_def [symmetric] Q_def t_def M_def by (rule quotient_digits)
  ultimately show ?thesis using that cc(1,2) by simp
qed

end
