(* ===== verification/Softfloat_Root.thy ===== *)
theory Softfloat_Root
  imports Softfloat_Quotient
begin

text \<open>
  The estimate of a square root of \<^verbatim>\<open>softfloat-macros.h\<close>: a table gives the first guess and two
  steps of Newton's method follow. The estimate is the root, cut to an integer, or larger by at most one.
\<close>

section \<open>Newton's method\<close>

lemma newton_step:
  fixes z s :: real
  assumes "z > 0"
  shows "(z + s\<^sup>2 / z) / 2 = s + (z - s)\<^sup>2 / (2 * z)"
  using assms by (simp add: power2_eq_square field_simps)

lemma newton_bounds:
  fixes z s d :: real
  assumes "0 < z0" and "z0 \<le> z" and "\<bar>z - s\<bar> \<le> d" and "d\<^sup>2 \<le> 2 * z0 * e"
  shows "s \<le> (z + s\<^sup>2 / z) / 2" and "(z + s\<^sup>2 / z) / 2 \<le> s + e"
proof -
  have "(z - s)\<^sup>2 \<le> d\<^sup>2" using assms(3) by (rule power2_le_iff_abs_le [THEN iffD2, rotated]) (use assms(3) in linarith)
  also have "\<dots> \<le> 2 * z0 * e" by (rule assms(4))
  also have "\<dots> \<le> 2 * z * e"
  proof -
    have "0 \<le> 2 * z0 * e" using assms(4) zero_le_power2 [of d] by linarith
    then have "0 \<le> e" using assms(1) by (simp add: zero_le_mult_iff)
    then show ?thesis using assms(2) by (intro mult_right_mono) simp_all
  qed
  finally have "(z - s)\<^sup>2 / (2 * z) \<le> e" using assms(1,2) by (simp add: divide_le_eq mult.commute)
  moreover have "0 \<le> (z - s)\<^sup>2 / (2 * z)" using assms(1,2) by simp
  moreover have "(z + s\<^sup>2 / z) / 2 = s + (z - s)\<^sup>2 / (2 * z)" by (rule newton_step) (use assms in linarith)
  ultimately show "s \<le> (z + s\<^sup>2 / z) / 2" and "(z + s\<^sup>2 / z) / 2 \<le> s + e" by simp_all
qed

section \<open>The tables\<close>

text \<open>
  In one of the sixteen segments of the table, the guess \<open>c + v\<close> for the argument \<open>T + v\<close> (in units of \<open>p\<close>) is within
  \<open>K\<close> of the root. The conditions at the two ends are enough.
\<close>

definition segment_ok :: "int \<Rightarrow> int \<Rightarrow> int \<Rightarrow> int \<Rightarrow> bool" where
  "segment_ok c T K p \<longleftrightarrow>
     (c - K)\<^sup>2 \<le> T * p \<and> (c + 1023 - K)\<^sup>2 \<le> (T + 1023) * p \<and>
     (T + 1) * p \<le> (c + K)\<^sup>2 \<and> (T + 1024) * p \<le> (c + K)\<^sup>2 + 2 * (c + K) * 1023"

lemma segment_root:
  assumes s: "segment_ok c T K p" and v: "0 \<le> v" "v \<le> 1023"
  shows "(c + v - K)\<^sup>2 \<le> (T + v) * p" and "(T + v + 1) * p \<le> (c + v + K)\<^sup>2"
proof -
  have m: "0 \<le> v * (1023 - v)" "0 \<le> v * v" using v by simp_all
  have "0 \<le> (1023 - v) * (T * p - (c - K)\<^sup>2)" "0 \<le> v * ((T + 1023) * p - (c + 1023 - K)\<^sup>2)"
    using s v by (simp_all add: segment_ok_def)
  then have "1023 * (c + v - K)\<^sup>2 \<le> 1023 * ((T + v) * p)" using m(1) by (simp add: power2_eq_square algebra_simps)
  then show "(c + v - K)\<^sup>2 \<le> (T + v) * p" by simp
  have "0 \<le> (1023 - v) * ((c + K)\<^sup>2 - (T + 1) * p)" "0 \<le> v * ((c + K)\<^sup>2 + 2 * (c + K) * 1023 - (T + 1024) * p)"
    using s v by (simp_all add: segment_ok_def)
  then have "1023 * ((T + v + 1) * p) \<le> 1023 * ((c + K)\<^sup>2 + 2 * (c + K) * v)" by (simp add: algebra_simps)
  moreover have "(c + v + K)\<^sup>2 = (c + K)\<^sup>2 + 2 * (c + K) * v + v * v" by (simp add: power2_eq_square algebra_simps)
  ultimately show "(T + v + 1) * p \<le> (c + v + K)\<^sup>2" using m(2) by (simp only: mult_le_cancel_left) linarith
qed

definition table_ok :: "u32 \<Rightarrow> u32 list \<Rightarrow> int \<Rightarrow> int \<Rightarrow> bool" where
  "table_ok b adj K p \<longleftrightarrow>
     list_all (\<lambda>i. adj ! i \<le> b \<and> segment_ok (uint b + (16 + int i) * 1024 - uint (adj ! i)) ((16 + int i) * 1024) K p) [0 ..< 16]"

lemma tables_ok: "table_ok 0x4000 sqrtOddAdjustments 148 0x10000" "table_ok 0x8000 sqrtEvenAdjustments 209 0x20000"
  by code_simp+

lemma table_start:
  assumes t: "table_ok b adj K p" and K: "0 \<le> K" "K \<le> 1000" and b: "0x4000 \<le> b" "b \<le> 0x8000" and p: "p > 0"
    and a: "2 ^ 31 \<le> unat a" and B: "int B div p = int (unat a div 2 ^ 17)"
  defines "z \<equiv> b + drop_bit 17 a - adj ! unat (drop_bit 27 a AND 15)"
  shows "\<bar>real (unat z) - sqrt (real B)\<bar> \<le> of_int K"
proof -
  define i v where "i = unat (drop_bit 27 a AND 15)" and "v = unat a div 2 ^ 17 mod 1024"
  have "unat a < 2 ^ 32" by (rule unat_u32_less)
  then have q: "16 \<le> unat a div 2 ^ 27" "unat a div 2 ^ 27 < 32"
    using a by (simp_all add: less_eq_div_iff_mult_less_eq div_less_iff_less_mult)
  have "unat (drop_bit 27 a AND mask 4) = unat a div 2 ^ 27 mod 2 ^ 4" unfolding and_mask_unat unat_drop_bit_div ..
  then have i: "i = unat a div 2 ^ 27 - 16" using q by (simp add: i_def mask_eq_exp_minus_1 le_mod_geq)
  have i16: "i < 16" using i q by linarith
  have "unat a div 2 ^ 17 = unat a div 2 ^ 17 div 1024 * 1024 + v" unfolding v_def by (rule div_mult_mod_eq [symmetric])
  also have "unat a div 2 ^ 17 div 1024 = 16 + i" using i q by (simp add: div_mult2_eq [symmetric])
  finally have tv: "unat a div 2 ^ 17 = (16 + i) * 1024 + v" .
  have v: "v \<le> 1023" unfolding v_def using mod_less_divisor [of 1024 "unat a div 2 ^ 17"] by linarith
  let ?c = "uint b + (16 + int i) * 1024 - uint (adj ! i)" and ?T = "(16 + int i) * 1024"
  have ok: "adj ! i \<le> b" "segment_ok ?c ?T K p"
    using t i16 unfolding table_ok_def list_all_iff by auto
  have ub: "unat (adj ! i) \<le> unat b" "unat b \<le> 0x8000" "unat b \<ge> 0x4000" using ok(1) b by (simp_all add: word_le_nat_alt)
  have d: "unat (drop_bit 17 a) = (16 + i) * 1024 + v" unfolding unat_drop_bit_div by (rule tv)
  have s: "unat (b + drop_bit 17 a) = unat b + ((16 + i) * 1024 + v)"
    unfolding d [symmetric] by (rule unat_add_less) (use ub d i16 v in simp)
  have "unat z = unat b + ((16 + i) * 1024 + v) - unat (adj ! i)"
    unfolding z_def i_def [symmetric] by (rule unat_diff_eq [OF s refl]) (use ub in simp)
  then have "int (unat z) = int (unat b) + ((16 + int i) * 1024 + int v) - int (unat (adj ! i))" using ub by simp
  then have z: "int (unat z) = ?c + int v" by simp
  have r: "(?c + int v - K)\<^sup>2 \<le> (?T + int v) * p" "(?T + int v + 1) * p \<le> (?c + int v + K)\<^sup>2"
    using segment_root [OF ok(2), of "int v"] v by simp_all
  have "int B div p * p \<le> int B" "int B < (int B div p + 1) * p"
    using p by (simp_all add: minus_mod_eq_div_mult [symmetric] distrib_right)
  moreover have "int B div p = ?T + int v" unfolding B tv by simp
  ultimately have "(?T + int v) * p \<le> int B" "int B < (?T + int v + 1) * p" by simp_all
  note le = order_trans [OF r(1) this(1)] order_trans [OF less_imp_le [OF this(2)] r(2)]
  have "(int (unat z) - K)\<^sup>2 \<le> int B" "int B \<le> (int (unat z) + K)\<^sup>2" unfolding z by (rule le)+
  then have "real_of_int ((int (unat z) - K)\<^sup>2) \<le> real_of_int (int B)" "real_of_int (int B) \<le> real_of_int ((int (unat z) + K)\<^sup>2)"
    by (simp_all only: of_int_le_iff)
  then have "(real (unat z) - of_int K)\<^sup>2 \<le> real B" "real B \<le> (real (unat z) + of_int K)\<^sup>2" by simp_all
  then have "real (unat z) - of_int K \<le> sqrt (real B)" "sqrt (real B) \<le> real (unat z) + of_int K"
    using K by (simp_all only: real_le_rsqrt real_le_lsqrt of_nat_0_le_iff add_nonneg_nonneg of_int_0_le_iff)
  then show ?thesis by linarith
qed

section \<open>The estimate\<close>

text \<open>The last step, on integers.\<close>

lemma last_step:
  assumes z: "even z" "2 ^ 30 \<le> z" "\<bar>real z - s\<bar> \<le> 0x8000" and s: "s\<^sup>2 = real B * 2 ^ 32"
  shows "s - 1 < real (B * 2 ^ 31 div z + z div 2)" and "real (B * 2 ^ 31 div z + z div 2) \<le> s + 1"
proof -
  have zp: "(2 :: real) ^ 30 \<le> real z" using of_nat_le_iff [of "2 ^ 30" z, where 'a = real] z(2) by simp
  have n: "s \<le> (real z + s\<^sup>2 / real z) / 2" "(real z + s\<^sup>2 / real z) / 2 \<le> s + 1"
    using newton_bounds [of "2 ^ 30" "real z" s "0x8000" 1] zp z(3) by simp_all
  have h: "real (z div 2) = real z / 2" using z(1) by (simp add: real_of_nat_div)
  have "z > 0" using z(2) by (cases z) simp_all
  note d = real_of_nat_div_bounds [OF this, of "B * 2 ^ 31"]
  have "real (B * 2 ^ 31) / real z = s\<^sup>2 / real z / 2" unfolding s by simp
  then show "s - 1 < real (B * 2 ^ 31 div z + z div 2)" "real (B * 2 ^ 31 div z + z div 2) \<le> s + 1"
    using n d h by simp_all
qed

text \<open>The first step, with a quotient that is cut.\<close>

lemma first_step:
  assumes K: "\<bar>real z0 - sqrt B\<bar> \<le> K" and m: "0 < m" "m \<le> real z0" "K\<^sup>2 * 2 ^ 16 \<le> 2 * m * 0x7FFE" and B: "0 \<le> B"
    and q: "B / real z0 - 1 < q" "q \<le> B / real z0 + 1 / 2 ^ 15"
  shows "\<bar>(real z0 + q) * 2 ^ 15 - sqrt (B * 2 ^ 32)\<bar> \<le> 0x8000"
proof -
  define s where "s = sqrt B * 2 ^ 16"
  have root: "sqrt (B * 2 ^ 32) = s"
    using real_sqrt_abs [of "2 ^ 16"] by (simp add: s_def real_sqrt_mult)
  have z0: "0 < real z0" using m by linarith
  have "real z0 * 2 ^ 16 - s = (real z0 - sqrt B) * 2 ^ 16" by (simp add: s_def left_diff_distrib)
  then have "\<bar>real z0 * 2 ^ 16 - s\<bar> = \<bar>real z0 - sqrt B\<bar> * 2 ^ 16" by (simp only: abs_mult) simp
  then have "\<bar>real z0 * 2 ^ 16 - s\<bar> \<le> K * 2 ^ 16" using K by simp
  moreover have "(K * 2 ^ 16)\<^sup>2 \<le> 2 * (m * 2 ^ 16) * 0x7FFE" using m(3) by (simp add: power2_eq_square)
  ultimately have n: "s \<le> (real z0 * 2 ^ 16 + s\<^sup>2 / (real z0 * 2 ^ 16)) / 2" "(real z0 * 2 ^ 16 + s\<^sup>2 / (real z0 * 2 ^ 16)) / 2 \<le> s + 0x7FFE"
    using newton_bounds [of "m * 2 ^ 16" "real z0 * 2 ^ 16" s "K * 2 ^ 16" "0x7FFE"] m by simp_all
  have "s\<^sup>2 = B * 2 ^ 32" using B by (simp add: s_def power_mult_distrib)
  then have e: "(real z0 * 2 ^ 16 + s\<^sup>2 / (real z0 * 2 ^ 16)) / 2 = (real z0 + B / real z0) * 2 ^ 15"
    using z0 by (simp add: field_simps)
  define r where "r = B / real z0"
  have "(real z0 + r) * 2 ^ 15 - 2 ^ 15 < (real z0 + q) * 2 ^ 15" "(real z0 + q) * 2 ^ 15 \<le> (real z0 + r) * 2 ^ 15 + 1"
    using q unfolding r_def [symmetric] by simp_all
  then show ?thesis unfolding root using n unfolding e r_def [symmetric] by (simp add: abs_le_iff)
qed

lemma unat_finish:
  assumes "Z = unat z" and "0 < Z" and "unat b * 2 ^ 31 div Z + Z div 2 < 2 ^ 32"
  shows "unat (ucast (push_bit 31 (ucast (b :: u32) :: u64) div ucast (z :: u32)) + drop_bit 1 z :: u32) = unat b * 2 ^ 31 div Z + Z div 2"
proof -
  have u: "unat (ucast b :: u64) = unat b" "unat (ucast z :: u64) = Z"
    using assms(1) by (simp_all add: unsigned_ucast_eq take_bit_nat_eq_self less_trans [OF unat_u32_less])
  have "unat (push_bit 31 (ucast b :: u64)) = unat b * 2 ^ 31"
    using unat_push_bit_less [of "ucast b :: u64" 31] unat_u32_less [of b] unfolding u by simp
  then have d: "unat (push_bit 31 (ucast b :: u64) div ucast z) = unat b * 2 ^ 31 div Z" unfolding unat_div u by simp
  have "unat b * 2 ^ 31 div Z < 2 ^ 32" using assms(3) by linarith
  then have "unat (ucast (push_bit 31 (ucast b :: u64) div ucast z) :: u32) = unat b * 2 ^ 31 div Z"
    by (simp add: unsigned_ucast_eq d take_bit_nat_eq_self)
  moreover have "unat (drop_bit 1 z) = Z div 2" unfolding unat_drop_bit_div assms(1) by simp
  ultimately show ?thesis using unat_add_less [of "ucast (push_bit 31 (ucast b :: u64) div ucast z) :: u32" "drop_bit 1 z"] assms(3) by simp
qed

lemma half_quotient:
  assumes "2 ^ 14 \<le> y"
  shows "real (a div 2) / real y - 1 < real (a div y) / 2" and "real (a div y) / 2 \<le> real (a div 2) / real y + 1 / 2 ^ 15"
proof -
  have y: "(2 :: real) ^ 14 \<le> real y" using of_nat_le_iff [of "2 ^ 14" y, where 'a = real] assms by simp
  have "2 * (a div 2) \<le> a" "a \<le> 2 * (a div 2) + 1" by presburger+
  then have "real (2 * (a div 2)) \<le> real a" "real a \<le> real (2 * (a div 2) + 1)" by (simp_all only: of_nat_le_iff)
  then have "real (2 * (a div 2)) / real y \<le> real a / real y" "real a / real y \<le> real (2 * (a div 2) + 1) / real y"
    by (intro divide_right_mono; simp)+
  then have "2 * (real (a div 2) / real y) \<le> real a / real y" "real a / real y \<le> 2 * (real (a div 2) / real y) + 1 / real y"
    by (simp_all add: add_divide_distrib)
  moreover have "1 / real y \<le> 1 / 2 ^ 14" using y by (intro divide_left_mono) simp_all
  moreover have "y > 0" using assms by (cases y) simp_all
  note real_of_nat_div_bounds [OF this, of a]
  moreover have "(1 :: real) / 2 ^ 14 = 2 * (1 / 2 ^ 15)" "1 / 2 ^ 15 < (1 :: real)" by simp_all
  ultimately show "real (a div 2) / real y - 1 < real (a div y) / 2" and "real (a div y) / 2 \<le> real (a div 2) / real y + 1 / 2 ^ 15"
    by linarith+
qed

lemma root_scaled:
  assumes "0 \<le> B" and "l \<le> sqrt B" and "sqrt B \<le> h"
  shows "(sqrt (B * 2 ^ 32))\<^sup>2 = B * 2 ^ 32" and "l * 2 ^ 16 \<le> sqrt (B * 2 ^ 32)" and "sqrt (B * 2 ^ 32) \<le> h * 2 ^ 16"
proof -
  have "sqrt (B * 2 ^ 32) = sqrt B * 2 ^ 16" using real_sqrt_abs [of "2 ^ 16"] by (simp add: real_sqrt_mult)
  then show "l * 2 ^ 16 \<le> sqrt (B * 2 ^ 32)" "sqrt (B * 2 ^ 32) \<le> h * 2 ^ 16" using assms by simp_all
  show "(sqrt (B * 2 ^ 32))\<^sup>2 = B * 2 ^ 32" using assms(1) by simp
qed

lemma estimate_odd:
  assumes a: "2 ^ 31 \<le> unat a" and e: "e AND 1 \<noteq> 0"
  defines "B \<equiv> unat a div 2"
  shows "\<exists>w. estimateSqrt32 e a = Inr w \<and> sqrt (real B * 2 ^ 32) - 1 < real (unat w) \<and> real (unat w) \<le> sqrt (real B * 2 ^ 32) + 1"
proof -
  define z0 where "z0 = 0x4000 + drop_bit 17 a - sqrtOddAdjustments ! unat (drop_bit 27 a AND 15)"
  define q where "q = unat a div unat z0"
  define s where "s = sqrt (real B * 2 ^ 32)"
  have al: "unat a < 2 ^ 32" by (rule unat_u32_less)
  have "int B div 0x10000 = int (unat a div 2 ^ 17)" unfolding B_def by (simp add: div_mult2_eq [symmetric] flip: zdiv_int)
  then have k: "\<bar>real (unat z0) - sqrt (real B)\<bar> \<le> 148"
    using table_start [OF tables_ok(1), of a B] a by (simp add: z0_def)
  have "32768 ^ 2 \<le> B" "B \<le> 46341 ^ 2" using a al by (simp_all add: B_def)
  then have "real (32768 ^ 2) \<le> real B" "real B \<le> real (46341 ^ 2)" by (simp_all only: of_nat_le_iff)
  then have rB: "32768 \<le> sqrt (real B)" "sqrt (real B) \<le> 46341" by (simp_all add: real_le_rsqrt real_le_lsqrt)
  then have zr: "real 32620 \<le> real (unat z0)" "real (unat z0) \<le> real 46489" using k by simp_all
  then have zb: "32620 \<le> unat z0" "unat z0 \<le> 46489" by (simp_all only: of_nat_le_iff)
  have ql: "q < 131672" unfolding q_def using al zb(1) by (simp add: div_less_iff_less_mult)
  have s: "s\<^sup>2 = real B * 2 ^ 32" "2 ^ 31 \<le> s" "s \<le> 46341 * 2 ^ 16"
    using root_scaled [OF of_nat_0_le_iff rB] by (simp_all add: s_def)
  define z where "z = push_bit 14 (a div z0) + push_bit 15 z0"
  have "unat (push_bit 14 (a div z0)) = q * 2 ^ 14" "unat (push_bit 15 z0) = unat z0 * 2 ^ 15"
    using unat_push_bit_less [of "a div z0" 14] unat_push_bit_less [of z0 15] ql zb(2) by (simp_all add: unat_div q_def)
  then have z: "unat z = q * 2 ^ 14 + unat z0 * 2 ^ 15"
    using unat_add_less [of "push_bit 14 (a div z0)" "push_bit 15 z0"] ql zb(2) by (simp add: z_def)
  have "\<bar>(real (unat z0) + real q / 2) * 2 ^ 15 - s\<bar> \<le> 0x8000"
    unfolding s_def
  proof (rule first_step [OF k, of 32620])
    show "real B / real (unat z0) - 1 < real q / 2" "real q / 2 \<le> real B / real (unat z0) + 1 / 2 ^ 15"
      unfolding B_def q_def by (rule half_quotient; use zb(1) in simp)+
  qed (use zr in simp_all)
  then have zs: "\<bar>real (unat z) - s\<bar> \<le> 0x8000" unfolding z by (simp add: algebra_simps)
  then have "real (2 ^ 30) \<le> real (unat z)" using s(2) by simp
  then have z30: "2 ^ 30 \<le> unat z" by (simp only: of_nat_le_iff)
  have ev: "even (unat z)" unfolding z by simp
  note l = last_step [OF ev z30 zs s(1)]
  have "real (B * 2 ^ 31 div unat z + unat z div 2) < real (2 ^ 32)" using l(2) s(3) by simp
  then have "B * 2 ^ 31 div unat z + unat z div 2 < 2 ^ 32" by (simp only: of_nat_less_iff)
  moreover have "unat (drop_bit 1 a) = B" unfolding unat_drop_bit_div B_def by simp
  ultimately have w: "unat (ucast (push_bit 31 (ucast (drop_bit 1 a) :: u64) div ucast z) + drop_bit 1 z :: u32) = B * 2 ^ 31 div unat z + unat z div 2"
    using unat_finish [of "unat z" z "drop_bit 1 a"] z30 by simp
  have "z0 \<noteq> 0" "z \<noteq> 0" using zb(1) z30 by auto
  then have "estimateSqrt32 e a = Inr (ucast (push_bit 31 (ucast (drop_bit 1 a) :: u64) div ucast z) + drop_bit 1 z)"
    using e by (simp add: estimateSqrt32_def udiv32_def z_def z0_def Let_def)
  then show ?thesis using l unfolding w [symmetric] s_def by blast
qed

text \<open>Close below \<open>2 ^ 32\<close> the mean of the argument and \<open>2 ^ 32\<close> is good enough.\<close>

lemma mean_root:
  fixes u :: real
  assumes "46340 \<le> u" and "u \<le> 2 ^ 16" and "u * 2 ^ 16 - 0x8000 \<le> u\<^sup>2"
  shows "u * 2 ^ 16 \<le> (u\<^sup>2 + 2 ^ 32) / 2" and "(u\<^sup>2 + 2 ^ 32) / 2 \<le> u * 2 ^ 16 + 1"
proof -
  define d where "d = 2 ^ 16 - u"
  have u: "u = 2 ^ 16 - d" and d: "0 \<le> d" using assms(2) by (simp_all add: d_def)
  have m: "(u\<^sup>2 + 2 ^ 32) / 2 = u * 2 ^ 16 + d\<^sup>2 / 2" unfolding u by (simp add: power2_eq_square field_simps)
  have "46340 * d \<le> u * d" using assms(1) d by (rule mult_right_mono)
  also have "\<dots> \<le> 0x8000" using assms(3) unfolding d_def by (simp add: power2_eq_square algebra_simps)
  finally have "d \<le> 1" by simp
  then have "d\<^sup>2 \<le> 1" using d by (simp add: power_le_one)
  then show "u * 2 ^ 16 \<le> (u\<^sup>2 + 2 ^ 32) / 2" "(u\<^sup>2 + 2 ^ 32) / 2 \<le> u * 2 ^ 16 + 1" unfolding m by simp_all
qed

lemma unat_half_signed:
  assumes "2 ^ 31 \<le> unat (a :: u32)"
  shows "unat (signed_drop_bit 1 a) = unat a div 2 + 2 ^ 31"
proof -
  have "signed_drop_bit 1 a = drop_bit 1 a OR 2 ^ 31"
  proof (rule bit_word_eqI)
    fix n assume n: "n < LENGTH(32)"
    have "bit a 31" using assms top_bit_iff [of a] by simp
    moreover have "bit ((2 :: u32) ^ 31) n \<longleftrightarrow> n = 31" using n by (simp only: bit_exp_iff) auto
    ultimately show "bit (signed_drop_bit 1 a) n \<longleftrightarrow> bit (drop_bit 1 a OR 2 ^ 31) n"
      using n bit_imp_le_length [of a "Suc n"] by (auto simp: bit_signed_drop_bit_iff bit_or_iff bit_drop_bit_eq)
  qed
  moreover have "unat (drop_bit 1 a) < 2 ^ 31" using unat_u32_less [of a] unfolding unat_drop_bit_div by simp
  ultimately show ?thesis using unat_or_power [of "drop_bit 1 a" 31] by (simp add: unat_drop_bit_div)
qed

lemma estimate_even:
  assumes a: "2 ^ 31 \<le> unat a" and e: "e AND 1 = 0"
  defines "B \<equiv> unat a"
  shows "\<exists>w. estimateSqrt32 e a = Inr w \<and> sqrt (real B * 2 ^ 32) - 1 < real (unat w) \<and> real (unat w) \<le> sqrt (real B * 2 ^ 32) + 1"
proof -
  define z0 where "z0 = 0x8000 + drop_bit 17 a - sqrtEvenAdjustments ! unat (drop_bit 27 a AND 15)"
  define q where "q = B div unat z0"
  define s where "s = sqrt (real B * 2 ^ 32)"
  have al: "B < 2 ^ 32" unfolding B_def by (rule unat_u32_less)
  have "int B div 0x20000 = int (unat a div 2 ^ 17)" unfolding B_def zdiv_int by simp
  then have k: "\<bar>real (unat z0) - sqrt (real B)\<bar> \<le> 209"
    using table_start [OF tables_ok(2), of a B] a by (simp add: z0_def)
  have "46340 ^ 2 \<le> B" "B \<le> 65536 ^ 2" using a al by (simp_all add: B_def)
  then have "real (46340 ^ 2) \<le> real B" "real B \<le> real (65536 ^ 2)" by (simp_all only: of_nat_le_iff)
  then have rB: "46340 \<le> sqrt (real B)" "sqrt (real B) \<le> 65536" by (simp_all add: real_le_rsqrt real_le_lsqrt)
  then have zr: "real 46131 \<le> real (unat z0)" "real (unat z0) \<le> real 65745" using k by simp_all
  then have zb: "46131 \<le> unat z0" "unat z0 \<le> 65745" by (simp_all only: of_nat_le_iff)
  have ql: "q < 93105" unfolding q_def using al zb(1) by (simp add: div_less_iff_less_mult)
  have s: "s\<^sup>2 = real B * 2 ^ 32" "46340 * 2 ^ 16 \<le> s" "s \<le> 2 ^ 32" "s = sqrt (real B) * 2 ^ 16"
    using root_scaled [OF of_nat_0_le_iff rB] root_scaled [OF of_nat_0_le_iff order_refl order_refl, of B] by (simp_all add: s_def)
  have c: "unat (a div z0 + z0) = unat z0 + q"
    using unat_add_less [of "a div z0" z0] ql zb(2) by (simp add: unat_div q_def B_def)
  have f: "\<bar>(real (unat z0) + real q) * 2 ^ 15 - s\<bar> \<le> 0x8000"
    unfolding s_def
  proof (rule first_step [OF k, of 46131])
    show "real B / real (unat z0) - 1 < real q" "real q \<le> real B / real (unat z0) + 1 / 2 ^ 15"
      unfolding q_def using real_of_nat_div_bounds [of "unat z0" B] zb(1) by simp_all
  qed (use zr in simp_all)
  define z where "z = (if 0x20000 \<le> a div z0 + z0 then 0xFFFF8000 else push_bit 15 (a div z0 + z0))"
  have z: "unat z = (if 0x20000 \<le> unat z0 + q then 0xFFFF8000 else (unat z0 + q) * 2 ^ 15)"
    using unat_push_bit_less [of "a div z0 + z0" 15] by (auto simp: z_def c word_le_nat_alt)
  have zs: "\<bar>real (unat z) - s\<bar> \<le> 0x8000"
  proof (cases "0x20000 \<le> unat z0 + q")
    case True
    then have "real 0x20000 \<le> real (unat z0 + q)" by (simp only: of_nat_le_iff)
    then have "2 ^ 32 \<le> (real (unat z0) + real q) * 2 ^ 15" by simp
    moreover have "real (unat z) = 2 ^ 32 - 0x8000" using True unfolding z by simp
    ultimately show ?thesis using f s(3) by linarith
  next
    case False
    then have "real (unat z) = (real (unat z0) + real q) * 2 ^ 15" unfolding z by simp
    then show ?thesis using f by (simp only:)
  qed
  then have "real (2 ^ 30) \<le> real (unat z)" using s(2) by simp
  then have z30: "2 ^ 30 \<le> unat z" by (simp only: of_nat_le_iff)
  have ev: "even (unat z)" unfolding z by simp
  have nz: "z0 \<noteq> 0" "z \<noteq> 0" using zb(1) z30 by auto
  have code: "estimateSqrt32 e a = (if z \<le> a then Inr (signed_drop_bit 1 a)
      else Inr (ucast (push_bit 31 (ucast a :: u64) div ucast z) + drop_bit 1 z))"
    using e nz unfolding estimateSqrt32_def Let_def z0_def [symmetric] by (simp add: udiv32_def flip: z_def)
  show ?thesis
  proof (cases "z \<le> a")
    case True
    then have est: "estimateSqrt32 e a = Inr (signed_drop_bit 1 a)"
      unfolding code by (simp only: if_True)
    moreover have "unat z \<le> B" using True by (simp add: word_le_nat_alt B_def)
    then have "real (unat z) \<le> real B" by (simp only: of_nat_le_iff)
    then have "sqrt (real B) * 2 ^ 16 - 0x8000 \<le> (sqrt (real B))\<^sup>2" using zs unfolding s(4) [symmetric] by (simp add: abs_le_iff)
    note m = mean_root [OF rB(1) _ this]
    have "s \<le> (real B + 2 ^ 32) / 2" "(real B + 2 ^ 32) / 2 \<le> s + 1" using m rB(2) by (simp_all add: s(4))
    moreover have w: "unat (signed_drop_bit 1 a) = B div 2 + 2 ^ 31" using unat_half_signed [OF a] by (simp add: B_def)
    moreover have "2 * (B div 2) \<le> B" "B \<le> 2 * (B div 2) + 1" by presburger+
    then have "real (2 * (B div 2)) \<le> real B" "real B \<le> real (2 * (B div 2) + 1)" by (simp_all only: of_nat_le_iff)
    ultimately have "s - 1 < real (B div 2 + 2 ^ 31)" "real (B div 2 + 2 ^ 31) \<le> s + 1" by simp_all
    then show ?thesis using est unfolding w [symmetric] s_def by blast
  next
    case False
    note l = last_step [OF ev z30 zs s(1)]
    have "B < unat z" using False by (simp add: word_le_nat_alt B_def)
    then have "B * 2 ^ 31 div unat z < 2 ^ 31" by (simp add: div_less_iff_less_mult)
    moreover have "unat z div 2 < 2 ^ 31" using unat_u32_less [of z] by simp
    ultimately have w: "unat (ucast (push_bit 31 (ucast a :: u64) div ucast z) + drop_bit 1 z :: u32) = B * 2 ^ 31 div unat z + unat z div 2"
      using unat_finish [of "unat z" z a] z30 by (simp add: B_def)
    have "estimateSqrt32 e a = Inr (ucast (push_bit 31 (ucast a :: u64) div ucast z) + drop_bit 1 z)"
      using False unfolding code by (simp only: if_False)
    then show ?thesis using l unfolding w [symmetric] s_def by blast
  qed
qed

theorem estimateSqrt32_root:
  fixes e :: int
  assumes "2 ^ 31 \<le> unat a"
  defines "s \<equiv> sqrt (real (if e AND 1 = 0 then unat a else unat a div 2) * 2 ^ 32)"
  obtains w where "estimateSqrt32 e a = Inr w" and "s - 1 < real (unat w)" and "real (unat w) \<le> s + 1" and "2 ^ 31 \<le> unat w"
proof -
  obtain w where w: "estimateSqrt32 e a = Inr w" "s - 1 < real (unat w)" "real (unat w) \<le> s + 1"
    using estimate_even [OF assms(1)] estimate_odd [OF assms(1)] unfolding s_def by (cases "e AND 1 = 0") auto
  have "2 ^ 30 * 2 ^ 32 \<le> real (if e AND 1 = 0 then unat a else unat a div 2) * 2 ^ 32"
  proof -
    have "2 ^ 30 \<le> (if e AND 1 = 0 then unat a else unat a div 2)" using assms(1) by (cases "e AND 1 = 0") auto
    then have "real (2 ^ 30) \<le> real (if e AND 1 = 0 then unat a else unat a div 2)" by (simp only: of_nat_le_iff)
    then show ?thesis by simp
  qed
  then have "2 ^ 31 \<le> s" unfolding s_def by (intro real_le_rsqrt) simp
  then have "real (2 ^ 31 - 1) < real (unat w)" using w(2) by simp
  then have "2 ^ 31 - 1 < unat w" by (simp only: of_nat_less_iff)
  then show ?thesis using w that by simp
qed

section \<open>The loops of corrections\<close>

lemma double_or_one: "unat (w :: u64) < 2 ^ 63 \<Longrightarrow> push_bit 1 w OR 1 = 2 * w + 1"
proof -
  assume "unat w < 2 ^ 63"
  have "push_bit 1 w OR 1 = push_bit 1 w + 1"
    by (subst disjunctive_add_eq_or) (auto intro!: bit_word_eqI simp: bit_and_iff bit_push_bit_iff bit_1_iff simp del: push_bit_Suc)
  then show ?thesis by (simp add: push_bit_eq_mult mult.commute)
qed

lemma pred_square: "N - (Z - 1)\<^sup>2 = N - Z\<^sup>2 + (2 * (Z - 1) + 1)" for N Z :: int
  by (simp add: power2_eq_square algebra_simps)

lemma above_root:
  assumes "Z = Q + Suc k" and "N < (Q + 1)\<^sup>2"
  shows "int N - (int Z)\<^sup>2 < 0"
proof -
  have "(Q + 1)\<^sup>2 \<le> Z\<^sup>2" using assms(1) by (intro power_mono) simp_all
  with assms(2) have "int N < int (Z\<^sup>2)" by (simp only: of_nat_less_iff)
  then show ?thesis by simp
qed

text \<open>From a candidate that is too large by \<open>k\<close> the loop reaches the root.\<close>

lemma sint_of_int64: "- (2 ^ 63) \<le> R \<Longrightarrow> R < 2 ^ 63 \<Longrightarrow> sint (word_of_int R :: u64) = R"
  by (simp add: signed_of_int signed_take_bit_int_eq_self)

lemma sqrt32_loop:
  assumes "unat z = Q + k" and "r = word_of_int (int N - (int (unat z))\<^sup>2)" and N: "Q\<^sup>2 \<le> N" "N < (Q + 1)\<^sup>2"
    and "- (2 ^ 62) \<le> int N - (int (unat z))\<^sup>2"
  shows "\<exists>z' r'. sqrt32_loop z r = Some (z', r') \<and> unat z' = Q \<and> (r' = 0 \<longleftrightarrow> N = Q\<^sup>2)"
  using assms(1,2,5)
proof (induction k arbitrary: z r)
  case 0
  let ?R = "int N - (int Q)\<^sup>2"
  have Q: "int Q < 2 ^ 32" using unat_u32_less [of z] 0(1) by simp
  have "(int Q)\<^sup>2 \<le> int N" "int N < (int Q + 1)\<^sup>2"
    using N of_nat_le_iff [of "Q\<^sup>2" N, where 'a = int] of_nat_less_iff [of N "(Q + 1)\<^sup>2", where 'a = int] by (simp_all add: add.commute)
  then have R: "0 \<le> ?R" "?R < 2 ^ 63" using Q by (simp_all add: power2_eq_square algebra_simps)
  then have s: "sint (word_of_int ?R :: u64) = ?R" by (intro sint_of_int64) linarith+
  have "?R = 0 \<longleftrightarrow> N = Q\<^sup>2" by (simp flip: of_nat_power)
  moreover have "word_of_int ?R = (0 :: u64) \<longleftrightarrow> ?R = 0" using s by (metis sint_0 word_of_int_0)
  ultimately show ?case using 0 s R(1) by (subst sqrt32_loop.simps) auto
next
  case (Suc k)
  let ?R = "int N - (int (unat z))\<^sup>2"
  have ul: "unat z < 2 ^ 32" by (rule unat_u32_less)
  have p: "unat (z - 1) = Q + k" using Suc.prems(1) unat_diff_eq [of z "Q + Suc k" 1 1] by simp
  have i: "int (unat (z - 1)) = int (unat z) - 1" using Suc.prems(1) p by simp
  have neg: "?R < 0" by (rule above_root [OF Suc.prems(1) N(2)])
  then have s: "sint r < 0" unfolding Suc.prems(2) using Suc.prems(3) by (subst sint_of_int64) simp_all
  have "unat (ucast (z - 1) :: u64) = unat (z - 1)"
    by (simp add: unsigned_ucast_eq take_bit_nat_eq_self less_trans [OF unat_u32_less])
  moreover from this have "push_bit 1 (ucast (z - 1) :: u64) OR 1 = 2 * ucast (z - 1) + 1"
    using unat_u32_less [of "z - 1"] by (intro double_or_one) simp
  ultimately have "push_bit 1 (ucast (z - 1) :: u64) OR 1 = word_of_int (2 * (int (unat (z - 1))) + 1)"
    by (simp add: uint_nat [symmetric])
  then have r: "r + (push_bit 1 (ucast (z - 1)) OR 1) = word_of_int (int N - (int (unat (z - 1)))\<^sup>2)"
    unfolding i pred_square Suc.prems(2) by simp
  have b: "- (2 ^ 62) \<le> int N - (int (unat (z - 1)))\<^sup>2" unfolding i pred_square using Suc.prems(1,3) by simp
  show ?case using Suc.IH [OF p r b] s by (subst sqrt32_loop.simps) simp
qed

lemma sqrt64_loop:
  assumes "unat z = Q + k" and "holds128 r (int N - (int (unat z))\<^sup>2)" and N: "Q\<^sup>2 \<le> N" "N < (Q + 1)\<^sup>2" and "unat z < 2 ^ 63"
  shows "\<exists>z' r'. sqrt64_loop z (push_bit 1 z) r = Some (z', r') \<and> unat z' = Q \<and> (fst r' OR snd r' = 0 \<longleftrightarrow> N = Q\<^sup>2)"
  using assms(1,2,5)
proof (induction k arbitrary: z r)
  case 0
  let ?R = "int N - (int Q)\<^sup>2"
  have R: "0 \<le> ?R" using of_nat_le_iff [of "Q\<^sup>2" N, where 'a = int] N(1) by simp
  have h: "holds128 r ?R" using 0 by simp
  have "?R = 0 \<longleftrightarrow> N = Q\<^sup>2" by (simp flip: of_nat_power)
  moreover have "pair128 r = ?R" by (rule holds128_nonneg [OF h R])
  moreover have "fst r OR snd r = 0 \<longleftrightarrow> pair128 r = 0"
    using uint_u64 [of "fst r"] uint_u64 [of "snd r"] by (auto simp: pair128_def or_eq_0_iff add_nonneg_eq_0_iff unsigned_eq_0_iff)
  ultimately show ?case using 0 holds128_neg [OF h] R by (subst sqrt64_loop.simps) auto
next
  case (Suc k)
  let ?R = "int N - (int (unat z))\<^sup>2"
  have p: "unat (z - 1) = Q + k" using Suc.prems(1) unat_diff_eq [of z "Q + Suc k" 1 1] by simp
  have i: "int (unat (z - 1)) = int (unat z) - 1" using Suc.prems(1) p by simp
  have neg: "?R < 0" by (rule above_root [OF Suc.prems(1) N(2)])
  have less: "unat (z - 1) < 2 ^ 63" using Suc.prems(1,3) p by simp
  have d: "push_bit 1 z - 2 = push_bit 1 (z - 1)" by (simp add: push_bit_eq_mult algebra_simps)
  have m: "pair128 (drop_bit 63 (z - 1), push_bit 1 (z - 1) OR 1) = 2 * int (unat (z - 1)) + 1"
  proof -
    have "unat (drop_bit 63 (z - 1)) = 0" unfolding unat_drop_bit_div using less by simp
    moreover have "unat (2 * (z - 1) + 1) = 2 * unat (z - 1) + 1" by (rule unat_eq_of_nat) (use less in simp_all)
    ultimately have "int (unat (drop_bit 63 (z - 1))) * 2 ^ 64 + int (unat (push_bit 1 (z - 1) OR 1)) = 2 * int (unat (z - 1)) + 1"
      unfolding double_or_one [OF less] by simp
    then show ?thesis unfolding pair128_def fst_conv snd_conv uint_nat .
  qed
  have "2 * int (unat (z - 1)) + 1 < 2 ^ 127" using uint_u64(2) [of "z - 1"] by simp
  from holds128_add [OF Suc.prems(2) m neg this]
  have h: "holds128 (add128 (fst r) (snd r) (drop_bit 63 (z - 1)) (push_bit 1 (z - 1) OR 1)) (int N - (int (unat (z - 1)))\<^sup>2)"
    unfolding i pred_square by simp
  show ?case using Suc.IH [OF p h less] holds128_neg [OF Suc.prems(2)] neg unfolding d [symmetric] by (subst sqrt64_loop.simps) simp
qed

section \<open>Integer parts\<close>

lemma integer_root:
  obtains Q where "real Q \<le> sqrt (real N)" and "sqrt (real N) < real Q + 1" and "Q\<^sup>2 \<le> N" and "N < (Q + 1)\<^sup>2"
    and "sqrt (real N) = real Q \<longleftrightarrow> N = Q\<^sup>2"
proof -
  define Q where "Q = nat \<lfloor>sqrt (real N)\<rfloor>"
  have q: "real Q \<le> sqrt (real N)" "sqrt (real N) < real Q + 1"
    unfolding Q_def by (simp_all add: of_nat_nat)
  have s: "(sqrt (real N))\<^sup>2 = real N" by simp
  have "(real Q)\<^sup>2 \<le> (sqrt (real N))\<^sup>2" using q(1) by (intro power_mono) simp_all
  then have "real (Q\<^sup>2) \<le> real N" by simp
  then have le: "Q\<^sup>2 \<le> N" by (simp only: of_nat_le_iff)
  have "(sqrt (real N))\<^sup>2 < (real Q + 1)\<^sup>2" using q(2) by (intro power_strict_mono) simp_all
  then have "real N < real ((Q + 1)\<^sup>2)" by (simp add: add.commute)
  then have lt: "N < (Q + 1)\<^sup>2" by (simp only: of_nat_less_iff)
  have "sqrt (real N) = real Q \<longleftrightarrow> real N = real (Q\<^sup>2)"
    by (metis abs_of_nat of_nat_power real_sqrt_abs s)
  then have "sqrt (real N) = real Q \<longleftrightarrow> N = Q\<^sup>2" by (simp only: of_nat_eq_iff)
  with q le lt show ?thesis by (rule that)
qed

text \<open>An integer part with a last bit that tells a rest.\<close>

lemma cell_floor:
  assumes "real Q \<le> y" and "y < real Q + 1"
  shows "cell 1 y (if y = real Q then Q else Q div 2 * 2 + 1)"
proof (cases "y = real Q")
  case True
  then show ?thesis by (simp add: cell_exact)
next
  case False
  have b: "int Q div 2 * 2 \<le> int Q" "int Q + 1 \<le> (int Q div 2 + 1) * 2" by presburger+
  then have "of_int (int Q div 2 * 2) \<le> real Q" "real Q + 1 \<le> of_int ((int Q div 2 + 1) * 2)"
    using of_int_le_iff [of "int Q div 2 * 2" "int Q", where 'a = real] of_int_le_iff [of "int Q + 1" "(int Q div 2 + 1) * 2", where 'a = real]
    by (simp_all only: of_int_add of_int_of_nat_eq of_int_1)
  then have "cell 1 y (Q div 2 * 2 + 1)"
    using assms False by (intro cell_between [of "int Q div 2"]) (simp_all add: zdiv_int)
  then show ?thesis using False by simp
qed

lemma unat_or_rest: "unat (w OR of_bool c) = (if c then unat w div 2 * 2 + 1 else unat w)" for w :: "'a :: len word"
  by (cases c) (simp_all add: unsigned_or_eq or_Suc_0_eq jam_odd [simplified])

lemma integer_estimate:
  assumes "real Q \<le> s" and "s < real Q + 1" and "s - 1 < real w" and "real w \<le> s + 1"
  shows "Q \<le> w" and "w \<le> Q + 1"
proof -
  have "real Q < real (w + 1)" "real w < real (Q + 2)" using assms by simp_all
  then have "Q < w + 1" "w < Q + 2" by (simp_all only: of_nat_less_iff)
  then show "Q \<le> w" "w \<le> Q + 1" by simp_all
qed

end
