(* ===== verification/Softfloat_Single.thy ===== *)
theory Softfloat_Single
  imports Softfloat_Root
begin

text \<open>
  The single precision routines are correctly rounded: what they return for finite operands is the
  value nearest to the exact result, ties to the even pattern, and an infinity where the exact
  result is beyond the largest finite value by half a unit or more.
\<close>

section \<open>Patterns and values\<close>

definition f32_mag :: "u32 \<Rightarrow> nat" where
  "f32_mag a = unat (a AND 0x7FFFFFFF)"

definition f32_value :: "u32 \<Rightarrow> real" where
  "f32_value a = (if extractFloat32Sign a then - 1 else 1) * real (fmag 23 (f32_mag a)) / 2 ^ 149"

definition f32_finite :: "u32 \<Rightarrow> bool" where
  "f32_finite a \<longleftrightarrow> extractFloat32Exp a \<noteq> 0xFF"

text \<open>The pattern \<open>r\<close> is the rounded \<open>x\<close>; a zero has the sign \<open>neg\<close>.\<close>

definition rounds32 :: "real \<Rightarrow> bool \<Rightarrow> u32 \<Rightarrow> bool" where
  "rounds32 x neg r \<longleftrightarrow> nearest_even 23 0x7F800000 (\<bar>x\<bar> * 2 ^ 149) (f32_mag r) \<and>
     (extractFloat32Sign r \<longleftrightarrow> (if x = 0 then neg else x < 0))"

lemma f32_mag_mod: "f32_mag a = unat a mod 2 ^ 31"
proof -
  have "a AND 0x7FFFFFFF = take_bit 31 a" by (simp add: take_bit_eq_mask mask_eq_exp_minus_1)
  then show ?thesis unfolding f32_mag_def by (simp only: unsigned_take_bit_eq take_bit_eq_mod [where 'a = nat])
qed

lemma frac32: "unat (extractFloat32Frac a) = unat a mod 2 ^ 23"
proof -
  have "a AND 0x007FFFFF = take_bit 23 a" by (simp add: take_bit_eq_mask mask_eq_exp_minus_1)
  then show ?thesis unfolding extractFloat32Frac_def
    by (simp only: unsigned_take_bit_eq take_bit_eq_mod [where 'a = nat])
qed

lemma exp32: "extractFloat32Exp a = int (unat a div 2 ^ 23 mod 2 ^ 8)"
proof -
  have "drop_bit 23 a AND 0xFF = take_bit 8 (drop_bit 23 a)" by (simp add: take_bit_eq_mask mask_eq_exp_minus_1)
  then have "unat (drop_bit 23 a AND 0xFF) = unat a div 2 ^ 23 mod 2 ^ 8"
    by (simp only: unsigned_take_bit_eq take_bit_eq_mod [where 'a = nat] unat_drop_bit_div)
  then show ?thesis unfolding extractFloat32Exp_def uint_nat by simp
qed

lemma sign32: "extractFloat32Sign a \<longleftrightarrow> 2 ^ 31 \<le> unat a"
proof -
  have "extractFloat32Sign a \<longleftrightarrow> unat (drop_bit 31 a) \<noteq> 0" by (simp add: extractFloat32Sign_def unat_0_iff)
  then show ?thesis unfolding unat_drop_bit_div by (simp add: div_eq_0_iff not_less)
qed

lemma mag_split32: "f32_mag a = nat (extractFloat32Exp a) * 2 ^ 23 + unat (extractFloat32Frac a)"
proof -
  have "unat a mod (2 ^ 23 * 2 ^ 8) = 2 ^ 23 * (unat a div 2 ^ 23 mod 2 ^ 8) + unat a mod 2 ^ 23"
    by (rule mod_mult2_eq)
  then show ?thesis unfolding f32_mag_mod frac32 exp32 by simp
qed

lemma sign_mag32:
  assumes "unat r = of_bool s * 2 ^ 31 + n" and "n < 2 ^ 31"
  shows "f32_mag r = n" and "extractFloat32Sign r = s"
  using assms by (cases s; simp add: f32_mag_mod sign32)+

lemma word_sign_mag32: "unat a = of_bool (extractFloat32Sign a) * 2 ^ 31 + f32_mag a"
proof -
  have "unat a < 2 ^ 32" by (rule unat_u32_less)
  then show ?thesis unfolding f32_mag_mod sign32 by (cases "2 ^ 31 \<le> unat a") (simp_all add: le_mod_geq)
qed

text \<open>The significand with its hidden bit, and the exponent that belongs to it.\<close>

definition sig32 :: "u32 \<Rightarrow> nat" where
  "sig32 a = (if extractFloat32Exp a = 0 then 0 else 2 ^ 23) + unat (extractFloat32Frac a)"

lemma sig_bounds32:
  "sig32 a < 2 ^ Suc 23" "extractFloat32Exp a \<noteq> 0 \<Longrightarrow> 2 ^ 23 \<le> sig32 a" "unat (extractFloat32Frac a) < 2 ^ 23"
  "extractFloat32Exp a \<ge> 0" "extractFloat32Exp a \<le> 0xFF"
proof -
  have f: "unat (extractFloat32Frac a) < 2 ^ 23" unfolding frac32 by simp
  then show "sig32 a < 2 ^ Suc 23" "unat (extractFloat32Frac a) < 2 ^ 23" by (simp_all add: sig32_def)
  show "extractFloat32Exp a \<noteq> 0 \<Longrightarrow> 2 ^ 23 \<le> sig32 a" by (simp add: sig32_def)
  show "extractFloat32Exp a \<ge> 0" "extractFloat32Exp a \<le> 0xFF" unfolding exp32 by simp_all
qed

lemma fmag_sig32: "fmag 23 (f32_mag a) = sig32 a * 2 ^ nat (max (extractFloat32Exp a) 1 - 1)"
proof (cases "extractFloat32Exp a = 0")
  case True
  then show ?thesis using sig_bounds32(3) [of a] by (simp add: mag_split32 sig32_def fmag_def)
next
  case False
  define k where "k = nat (extractFloat32Exp a - 1)"
  have e: "extractFloat32Exp a = int (Suc k)" using False sig_bounds32(4) [of a] by (simp add: k_def)
  have m: "f32_mag a = k * 2 ^ 23 + sig32 a" unfolding mag_split32 sig32_def e by simp
  have "fmag 23 (k * 2 ^ 23 + sig32 a) = sig32 a * 2 ^ k"
    by (rule fmag_scaled) (use sig_bounds32(1,2) [of a] False in simp_all)
  then show ?thesis by (simp add: m e)
qed

section \<open>Rounding and packing\<close>

lemma unat_packFloat32:
  assumes "k * 2 ^ 23 + unat z < 2 ^ 31"
  shows "unat (packFloat32 s (int k) z) = of_bool s * 2 ^ 31 + (k * 2 ^ 23 + unat z)"
proof -
  have "packFloat32 s (int k) z = of_nat (of_bool s * 2 ^ 31 + (k * 2 ^ 23 + unat z))"
    by (cases s) (simp_all add: packFloat32_def push_bit_eq_mult)
  moreover have "of_bool s * 2 ^ 31 + (k * 2 ^ 23 + unat z) < 2 ^ 32" using assms by (cases s) simp_all
  ultimately show ?thesis by (intro unat_eq_of_nat) simp_all
qed

lemma unat_round32:
  assumes "unat z < 2 ^ 31"
  shows "unat (drop_bit 7 (z + 0x40) AND NOT (of_bool ((z AND 0x7F) XOR 0x40 = (0 :: u32)))) = half_even 7 (unat z)"
  using unat_half_even [of 7 z] assms by (simp add: mask_eq_exp_minus_1)

lemma half_even_top32:
  assumes "2 ^ 31 - 2 ^ 6 \<le> z" and "z < 2 ^ 31"
  shows "half_even 7 z = 2 ^ 24"
proof -
  let ?s = "half_even 7 z"
  have le: "?s \<le> 2 ^ 24" by (rule half_even_le) (use assms in simp_all)
  have b: "z \<le> (2 * ?s + 1) * 2 ^ 6" "z = (2 * ?s + 1) * 2 ^ 6 \<Longrightarrow> even ?s"
    using half_even_bounds(2,4) [of 7 ?s z] by simp_all
  show ?thesis
  proof (cases "?s = 2 ^ 24 - 1")
    case True
    then have "z = (2 * ?s + 1) * 2 ^ 6" using b(1) assms by simp
    with b(2) True show ?thesis by simp
  qed (use b(1) le assms in simp)
qed

lemma roundAndPack32:
  assumes z: "2 ^ 30 \<le> unat z" "unat z < 2 ^ 31" and e: "- 60000 < e" "e < 60000"
  shows "unat (fst (roundAndPackFloat32 s e z zero_status)) = of_bool s * 2 ^ 31 + round_pack 23 7 0xFD e (unat z)"
    and "round_pack 23 7 0xFD e (unat z) \<le> 0x7F800000"
proof -
  have le: "half_even 7 m \<le> 2 ^ 24" if "m < 2 ^ 31" for m by (rule half_even_le) (use that in simp_all)
  consider "0xFD < e" | "0 \<le> e" "e \<le> 0xFD" | "e < 0" by linarith
  then have "unat (fst (roundAndPackFloat32 s e z zero_status)) = of_bool s * 2 ^ 31 + round_pack 23 7 0xFD e (unat z) \<and>
      round_pack 23 7 0xFD e (unat z) \<le> 0x7F800000"
  proof cases
    case 1
    then have "fst (roundAndPackFloat32 s e z zero_status) = packFloat32 s (int 0xFF) 0"
      using e by (simp add: roundAndPackFloat32_def round_increment_def)
    then show ?thesis using 1 unat_packFloat32 [of "0xFF" 0 s] by (simp add: round_pack_def)
  next
    case 2
    define k where "k = nat e"
    have k: "e = int k" "k \<le> 0xFD" using 2 by (simp_all add: k_def)
    have rp: "round_pack 23 7 0xFD e (unat z) = k * 2 ^ 23 + half_even 7 (unat z)" using k by (simp add: round_pack_def)
    have neg: "sint (z + 0x40) < 0 \<longleftrightarrow> 2 ^ 31 \<le> unat z + 0x40"
      using z(2) unat_add_less [of z "0x40"] by (simp add: sint_neg32)
    show ?thesis
    proof (cases "k = 0xFD \<and> 2 ^ 31 \<le> unat z + 0x40")
      case True
      then have "fst (roundAndPackFloat32 s e z zero_status) = packFloat32 s (int 0xFF) 0"
        using k neg by (simp add: roundAndPackFloat32_def round_increment_def)
      moreover have "half_even 7 (unat z) = 2 ^ 24" by (rule half_even_top32) (use True z(2) in simp_all)
      ultimately show ?thesis using True unat_packFloat32 [of "0xFF" 0 s] by (simp add: rp)
    next
      case False
      let ?r = "drop_bit 7 (z + 0x40) AND NOT (of_bool ((z AND 0x7F) XOR 0x40 = (0 :: u32)))"
      have r: "unat ?r = half_even 7 (unat z)" by (rule unat_round32 [OF z(2)])
      have ge: "2 ^ 23 \<le> half_even 7 (unat z)" by (rule half_even_ge) (use z in simp_all)
      have nz: "?r \<noteq> 0"
      proof
        assume "?r = 0"
        then have "half_even 7 (unat z) = 0" unfolding r [symmetric] by (simp only: unsigned_0)
        with ge show False by simp
      qed
      have "fst (roundAndPackFloat32 s e z zero_status) = packFloat32 s (int k) ?r"
        using False k neg nz by (auto simp: roundAndPackFloat32_def round_increment_def Let_def)
      moreover have "k * 2 ^ 23 + half_even 7 (unat z) \<le> 0x7F800000"
        using add_mono [OF mult_le_mono1 [OF k(2), of "2 ^ 23"] le [OF z(2)]] by simp
      ultimately show ?thesis using unat_packFloat32 [of k ?r s] unfolding rp r by simp
    qed
  next
    case 3
    define c where "c = nat (- e)"
    have c: "e = - int c" "c > 0" using 3 by (simp_all add: c_def)
    let ?z = "shift32RightJamming z (int c)"
    let ?r = "drop_bit 7 (?z + 0x40) AND NOT (of_bool ((?z AND 0x7F) XOR 0x40 = (0 :: u32)))"
    have z': "unat ?z = jam c (unat z)" "jam c (unat z) < 2 ^ 31"
      using z(2) jam_less [of "unat z" 30 c] by (simp_all add: unat_shift32RightJamming)
    have r: "unat ?r = half_even 7 (jam c (unat z))" using unat_round32 [of ?z] z' by simp
    have edge: "0xFD \<le> e mod 0x10000"
    proof -
      have "e mod 0x10000 = (e + 0x10000) mod 0x10000" by simp
      also have "\<dots> = e + 0x10000" using e(1) 3 by (subst mod_pos_pos_trivial) simp_all
      finally show ?thesis using e(1) by simp
    qed
    then have "fst (roundAndPackFloat32 s e z zero_status) = packFloat32 s (int 0) ?r"
      using 3 c by (simp add: roundAndPackFloat32_def round_increment_def Let_def)
    moreover have "half_even 7 (jam c (unat z)) \<le> 2 ^ 24" by (rule le [OF z'(2)])
    moreover have "round_pack 23 7 0xFD e (unat z) = half_even 7 (jam c (unat z))"
      using 3 by (simp add: round_pack_def c_def)
    ultimately show ?thesis using unat_packFloat32 [of 0 ?r s] unfolding r by simp
  qed
  then show "unat (fst (roundAndPackFloat32 s e z zero_status)) = of_bool s * 2 ^ 31 + round_pack 23 7 0xFD e (unat z)"
    and "round_pack 23 7 0xFD e (unat z) \<le> 0x7F800000" by simp_all
qed

lemma rounds32_pack:
  assumes "unat r = of_bool s * 2 ^ 31 + n" and "n \<le> 0x7F800000" and "nearest_even 23 0x7F800000 (\<bar>x\<bar> * 2 ^ 149) n"
    and "s \<longleftrightarrow> (if x = 0 then neg else x < 0)"
  shows "rounds32 x neg r"
  using sign_mag32 [OF assms(1)] assms(2-4) by (simp add: rounds32_def)

lemma inf32: "(0xFD + 2) * 2 ^ 23 = (0x7F800000 :: nat)"
  by simp

section \<open>Addition and subtraction\<close>

lemma hidden_add32:
  "unat (push_bit 6 (extractFloat32Frac a)) = unat (extractFloat32Frac a) * 2 ^ 6"
  "unat (push_bit 7 (extractFloat32Frac a)) = unat (extractFloat32Frac a) * 2 ^ 7"
  "unat (push_bit 6 (extractFloat32Frac a) OR 0x20000000) = (2 ^ 23 + unat (extractFloat32Frac a)) * 2 ^ 6"
  "unat (push_bit 7 (extractFloat32Frac a) OR 0x40000000) = (2 ^ 23 + unat (extractFloat32Frac a)) * 2 ^ 7"
proof -
  have f: "unat (extractFloat32Frac a) < 2 ^ 23" by (rule sig_bounds32)
  show s: "unat (push_bit 6 (extractFloat32Frac a)) = unat (extractFloat32Frac a) * 2 ^ 6"
    and g: "unat (push_bit 7 (extractFloat32Frac a)) = unat (extractFloat32Frac a) * 2 ^ 7"
    by (rule unat_push_bit_less, use f in simp)+
  show "unat (push_bit 6 (extractFloat32Frac a) OR 0x20000000) = (2 ^ 23 + unat (extractFloat32Frac a)) * 2 ^ 6"
    using unat_or_power [of "push_bit 6 (extractFloat32Frac a)" 29] f unfolding s by simp
  show "unat (push_bit 7 (extractFloat32Frac a) OR 0x40000000) = (2 ^ 23 + unat (extractFloat32Frac a)) * 2 ^ 7"
    using unat_or_power [of "push_bit 7 (extractFloat32Frac a)" 30] f unfolding g by simp
qed

lemma addFloat32_finish_pack:
  assumes x: "unat x < 2 ^ 29" and T: "T = 2 ^ 29 + unat x + unat y" "T < 2 ^ 31" and e: "- 50000 < e" "e < 50000"
  shows "unat (fst (addFloat32_finish s e x y zero_status)) = of_bool s * 2 ^ 31 +
           (if 2 ^ 30 \<le> T then round_pack 23 7 0xFD e T else round_pack 23 7 0xFD (e - 1) (2 * T))" (is ?pack)
    and "(if 2 ^ 30 \<le> T then round_pack 23 7 0xFD e T else round_pack 23 7 0xFD (e - 1) (2 * T)) \<le> 0x7F800000" (is ?le)
proof -
  have a: "unat (x OR 0x20000000) = 2 ^ 29 + unat x" using unat_or_power [of x 29] x by simp
  then have z: "unat ((x OR 0x20000000) + y) = T" using T by (subst unat_add_less) simp_all
  then have z2: "unat (push_bit 1 ((x OR 0x20000000) + y)) = 2 * T" using T(2) by (subst unat_push_bit_less) simp_all
  have neg: "sint (push_bit 1 ((x OR 0x20000000) + y)) < 0 \<longleftrightarrow> 2 ^ 30 \<le> T" unfolding sint_neg32 z2 by simp
  have lo: "2 ^ 29 \<le> T" using T(1) by simp
  have "?pack \<and> ?le"
  proof (cases "2 ^ 30 \<le> T")
    case True
    then have "addFloat32_finish s e x y zero_status = roundAndPackFloat32 s e ((x OR 0x20000000) + y) zero_status"
      using neg by (simp only: addFloat32_finish_def Let_def if_True) simp
    then show ?thesis using roundAndPack32(1) [of "(x OR 0x20000000) + y" e s] roundAndPack32(2) [of "(x OR 0x20000000) + y" e] True z T(2) e by simp
  next
    case False
    then have "addFloat32_finish s e x y zero_status = roundAndPackFloat32 s (e - 1) (push_bit 1 ((x OR 0x20000000) + y)) zero_status"
      using neg by (simp only: addFloat32_finish_def Let_def if_False)
    then show ?thesis using roundAndPack32(1) [of "push_bit 1 ((x OR 0x20000000) + y)" "e - 1" s] roundAndPack32(2) [of "push_bit 1 ((x OR 0x20000000) + y)" "e - 1"] False z2 lo e by simp
  qed
  then show ?pack ?le by simp_all
qed

text \<open>The operand with the larger exponent, and the other one shifted by the distance.\<close>

lemma aligned32:
  assumes "extractFloat32Exp b < extractFloat32Exp a"
  defines "d \<equiv> nat (extractFloat32Exp a - max (extractFloat32Exp b) 1)"
  shows "real (fmag 23 (f32_mag a)) = real (sig32 a) * 2 powi (extractFloat32Exp a - 1)"
    and "real (fmag 23 (f32_mag b)) = real (sig32 b) / 2 ^ d * 2 powi (extractFloat32Exp a - 1)"
    and "sig32 a = 2 ^ 23 + unat (extractFloat32Frac a)"
proof -
  let ?ea = "extractFloat32Exp a" and ?eb = "extractFloat32Exp b"
  have e: "?ea \<ge> 1" "?eb \<ge> 0" using assms(1) sig_bounds32(4) [of b] by linarith+
  then show "sig32 a = 2 ^ 23 + unat (extractFloat32Frac a)" by (simp add: sig32_def)
  have a: "nat (max ?ea 1 - 1) = nat (?ea - 1)" using e(1) by (simp add: max_def)
  have pa: "2 powi (?ea - 1) = (2 :: real) ^ nat (?ea - 1)" using e(1) by (simp add: power_int_def)
  then show "real (fmag 23 (f32_mag a)) = real (sig32 a) * 2 powi (?ea - 1)" by (simp add: fmag_sig32 a)
  have "nat (?ea - 1) = d + nat (max ?eb 1 - 1)" using assms(1) e unfolding d_def by linarith
  then show "real (fmag 23 (f32_mag b)) = real (sig32 b) / 2 ^ d * 2 powi (?ea - 1)"
    unfolding pa by (simp add: fmag_sig32 power_add)
qed

lemma mag_less32:
  assumes "extractFloat32Exp b < extractFloat32Exp a"
  shows "f32_mag b < f32_mag a"
proof -
  have "Suc (nat (extractFloat32Exp b)) \<le> nat (extractFloat32Exp a)" using assms sig_bounds32(4) [of b] by linarith
  then have "Suc (nat (extractFloat32Exp b)) * 2 ^ 23 \<le> nat (extractFloat32Exp a) * 2 ^ 23" by (rule mult_le_mono1)
  then show ?thesis using sig_bounds32(3) [of b] unfolding mag_split32 by simp
qed

lemma shifted32:
  assumes "extractFloat32Exp b < extractFloat32Exp a"
  defines "d \<equiv> nat (extractFloat32Exp a - max (extractFloat32Exp b) 1)"
  shows "unat (shift32RightJamming
            (if extractFloat32Exp b = 0 then push_bit 6 (extractFloat32Frac b) else push_bit 6 (extractFloat32Frac b) OR 0x20000000)
            (if extractFloat32Exp b = 0 then extractFloat32Exp a - extractFloat32Exp b - 1 else extractFloat32Exp a - extractFloat32Exp b))
          = jam d (sig32 b * 2 ^ 6)"
    and "unat (shift32RightJamming
            (if extractFloat32Exp b = 0 then push_bit 7 (extractFloat32Frac b) else push_bit 7 (extractFloat32Frac b) OR 0x40000000)
            (if extractFloat32Exp b = 0 then extractFloat32Exp a - extractFloat32Exp b - 1 else extractFloat32Exp a - extractFloat32Exp b))
          = jam d (sig32 b * 2 ^ 7)"
proof -
  have "(if extractFloat32Exp b = 0 then extractFloat32Exp a - extractFloat32Exp b - 1 else extractFloat32Exp a - extractFloat32Exp b) = int d"
    using assms(1) sig_bounds32(4) [of b] by (auto simp: d_def)
  then show "unat (shift32RightJamming
            (if extractFloat32Exp b = 0 then push_bit 6 (extractFloat32Frac b) else push_bit 6 (extractFloat32Frac b) OR 0x20000000)
            (if extractFloat32Exp b = 0 then extractFloat32Exp a - extractFloat32Exp b - 1 else extractFloat32Exp a - extractFloat32Exp b))
          = jam d (sig32 b * 2 ^ 6)"
    and "unat (shift32RightJamming
            (if extractFloat32Exp b = 0 then push_bit 7 (extractFloat32Frac b) else push_bit 7 (extractFloat32Frac b) OR 0x40000000)
            (if extractFloat32Exp b = 0 then extractFloat32Exp a - extractFloat32Exp b - 1 else extractFloat32Exp a - extractFloat32Exp b))
          = jam d (sig32 b * 2 ^ 7)"
    by (simp_all only: unat_shift32RightJamming) (simp_all add: hidden_add32 sig32_def)
qed

text \<open>A shifted operand is less than the half of the leading bit.\<close>

lemma shifted_less32:
  assumes "extractFloat32Exp b < extractFloat32Exp a"
  defines "d \<equiv> nat (extractFloat32Exp a - max (extractFloat32Exp b) 1)"
  shows "jam d (sig32 b * 2 ^ 6) < 2 ^ 29" and "jam d (sig32 b * 2 ^ 7) < 2 ^ 30"
proof -
  have "sig32 b < 2 ^ 23 * 2 ^ d"
  proof (cases "extractFloat32Exp b = 0")
    case True
    then have "sig32 b < 2 ^ 23 * 1" using sig_bounds32(3) [of b] by (simp add: sig32_def)
    also have "\<dots> \<le> 2 ^ 23 * 2 ^ d" by (intro mult_le_mono2) simp
    finally show ?thesis .
  next
    case False
    then have "d \<ge> 1" using assms(1) sig_bounds32(4) [of b] by (auto simp: d_def)
    then have "(2 :: nat) ^ 1 \<le> 2 ^ d" by (intro power_increasing) simp_all
    then have "2 ^ 23 * 2 \<le> (2 :: nat) ^ 23 * 2 ^ d" by simp
    then show ?thesis using sig_bounds32(1) [of b] by simp
  qed
  then show "jam d (sig32 b * 2 ^ 6) < 2 ^ 29" "jam d (sig32 b * 2 ^ 7) < 2 ^ 30"
    by (simp_all add: jam_pos(1) [of "2 ^ 29", simplified] jam_pos(1) [of "2 ^ 30", simplified])
qed

lemma sum_value32:
  fixes s :: bool
  assumes lt: "extractFloat32Exp b < extractFloat32Exp a" and x: "unat x < 2 ^ 29"
    and T: "2 ^ 29 + unat x + unat y =
      sig32 a * 2 ^ 6 + jam (nat (extractFloat32Exp a - max (extractFloat32Exp b) 1)) (sig32 b * 2 ^ 6)"
  defines "r \<equiv> fst (addFloat32_finish s (extractFloat32Exp a) x y zero_status)"
  shows "nearest_even 23 0x7F800000 (real (fmag 23 (f32_mag a)) + real (fmag 23 (f32_mag b))) (f32_mag r) \<and>
         extractFloat32Sign r = s"
proof -
  let ?d = "nat (extractFloat32Exp a - max (extractFloat32Exp b) 1)" and ?e = "extractFloat32Exp a"
  define t where "t = sig32 a * 2 ^ 6 + jam ?d (sig32 b * 2 ^ 6)"
  define n where "n = (if 2 ^ 30 \<le> t then round_pack 23 7 0xFD ?e t else round_pack 23 7 0xFD (?e - 1) (2 * t))"
  have sa: "2 ^ 23 \<le> sig32 a" "sig32 a < 2 ^ Suc 23" "sig32 b < 2 ^ Suc 23"
    using lt sig_bounds32(1,2) [of a] sig_bounds32(1,4) [of b] by linarith+
  note near = sum_nearest [OF _ _ sa, of 6 t ?d, OF _ _ t_def]
  have t: "t < 2 ^ 31" "2 ^ 29 \<le> t" using near(2,3) by simp_all
  have e: "- 50000 < ?e" "?e < 50000" using sig_bounds32(4,5) [of a] by linarith+
  have T': "t = 2 ^ 29 + unat x + unat y" using T by (simp only: t_def)
  have r: "unat r = of_bool s * 2 ^ 31 + n" "n \<le> 0x7F800000"
    unfolding r_def n_def by (rule addFloat32_finish_pack [OF x T' t(1) e])+
  have "nearest_even 23 0x7F800000 ((real (sig32 a) + real (sig32 b) / 2 ^ ?d) * 2 powi (?e - 1)) n"
    using near(1) [where E = "0xFD" and ea = ?e] unfolding n_def inf32 by (cases "2 ^ 30 \<le> t") simp_all
  then show ?thesis
    using sign_mag32 [OF r(1)] r(2) aligned32(1,2) [OF lt] by (simp add: distrib_right)
qed

lemma addSigs32:
  fixes s :: bool
  assumes fin: "f32_finite a" "f32_finite b"
  defines "r \<equiv> fst (addFloat32Sigs a b s zero_status)"
  shows "nearest_even 23 0x7F800000 (real (fmag 23 (f32_mag a)) + real (fmag 23 (f32_mag b))) (f32_mag r) \<and>
         extractFloat32Sign r = s"
proof -
  let ?ea = "extractFloat32Exp a" and ?eb = "extractFloat32Exp b"
  let ?fa = "extractFloat32Frac a" and ?fb = "extractFloat32Frac b"
  have nf: "?ea \<noteq> 0xFF" "?eb \<noteq> 0xFF" using fin by (simp_all add: f32_finite_def)
  have fa: "unat ?fa < 2 ^ 23" and fb: "unat ?fb < 2 ^ 23" by (rule sig_bounds32)+
  consider "?eb < ?ea" | "?ea < ?eb" | "?ea = ?eb" "?ea = 0" | "?ea = ?eb" "?ea \<noteq> 0" by linarith
  then show ?thesis
  proof cases
    case 1
    let ?y = "shift32RightJamming (if ?eb = 0 then push_bit 6 ?fb else push_bit 6 ?fb OR 0x20000000) (if ?eb = 0 then ?ea - ?eb - 1 else ?ea - ?eb)"
    have "r = fst (addFloat32_finish s ?ea (push_bit 6 ?fa) ?y zero_status)"
      unfolding r_def addFloat32Sigs_def using 1 nf by (simp add: Let_def)
    moreover have "2 ^ 29 + unat (push_bit 6 ?fa) + unat ?y = sig32 a * 2 ^ 6 + jam (nat (?ea - max ?eb 1)) (sig32 b * 2 ^ 6)"
      unfolding shifted32(1) [OF 1] hidden_add32 aligned32(3) [OF 1] by simp
    moreover have "unat (push_bit 6 ?fa) < 2 ^ 29" unfolding hidden_add32 using fa by simp
    ultimately show ?thesis using sum_value32 [OF 1, of "push_bit 6 ?fa" ?y s] by simp
  next
    case 2
    let ?x = "shift32RightJamming (if ?ea = 0 then push_bit 6 ?fa else push_bit 6 ?fa OR 0x20000000) (if ?ea = 0 then ?eb - ?ea - 1 else ?eb - ?ea)"
    have "- (if ?ea = 0 then ?ea - ?eb + 1 else ?ea - ?eb) = (if ?ea = 0 then ?eb - ?ea - 1 else ?eb - ?ea)" by simp
    then have "r = fst (addFloat32_finish s ?eb ?x (push_bit 6 ?fb) zero_status)"
      unfolding r_def addFloat32Sigs_def using 2 nf by (simp only: Let_def) simp
    moreover have "2 ^ 29 + unat ?x + unat (push_bit 6 ?fb) = sig32 b * 2 ^ 6 + jam (nat (?eb - max ?ea 1)) (sig32 a * 2 ^ 6)"
      unfolding shifted32(1) [OF 2] hidden_add32 aligned32(3) [OF 2] by simp
    moreover have "unat ?x < 2 ^ 29" unfolding shifted32(1) [OF 2] by (rule shifted_less32 [OF 2])
    ultimately show ?thesis using sum_value32 [OF 2, of ?x "push_bit 6 ?fb" s] by (simp add: add.commute)
  next
    case 3
    let ?n = "unat ?fa + unat ?fb"
    have "unat (push_bit 6 ?fa + push_bit 6 ?fb) = ?n * 2 ^ 6"
      using fa fb by (subst unat_add_less) (simp_all add: hidden_add32)
    then have d: "unat (drop_bit 6 (push_bit 6 ?fa + push_bit 6 ?fb)) = ?n" by (simp add: unat_drop_bit_div)
    have "r = packFloat32 s (int 0) (drop_bit 6 (push_bit 6 ?fa + push_bit 6 ?fb))"
      unfolding r_def addFloat32Sigs_def using 3 by (simp add: Let_def)
    then have r: "unat r = of_bool s * 2 ^ 31 + ?n" using unat_packFloat32 [of 0 _ s] d fa fb by simp
    have "fmag 23 ?n = ?n" "fmag 23 (unat ?fa) = unat ?fa" "fmag 23 (unat ?fb) = unat ?fb"
      by (rule fmag_low, use fa fb in simp)+
    then have "nearest_even 23 0x7F800000 (real (fmag 23 (f32_mag a)) + real (fmag 23 (f32_mag b))) ?n"
      using nearest_even_exact [of ?n "0x7F800000" 23] 3 fa fb by (simp add: mag_split32)
    then show ?thesis using sign_mag32 [OF r] fa fb by simp
  next
    case 4
    let ?z = "0x40000000 + push_bit 6 ?fa + push_bit 6 ?fb"
    have z: "unat ?z = (sig32 a + sig32 b) * 2 ^ 6"
    proof -
      have "unat (0x40000000 + push_bit 6 ?fa) = 0x40000000 + unat ?fa * 2 ^ 6"
        using fa by (subst unat_add_less) (simp_all add: hidden_add32)
      then have "unat ?z = 0x40000000 + unat ?fa * 2 ^ 6 + unat ?fb * 2 ^ 6"
        using fa fb by (subst unat_add_less) (simp_all add: hidden_add32)
      then show ?thesis using 4 by (simp add: sig32_def)
    qed
    have sb: "2 ^ 23 \<le> sig32 a" "sig32 a < 2 ^ Suc 23" "2 ^ 23 \<le> sig32 b" "sig32 b < 2 ^ Suc 23"
      using sig_bounds32(1,2) [of a] sig_bounds32(1,2) [of b] 4 by simp_all
    have zb: "2 ^ 30 \<le> unat ?z" "unat ?z < 2 ^ 31" unfolding z using sb by simp_all
    have e: "- 60000 < ?ea" "?ea < 60000" using sig_bounds32(4,5) [of a] by linarith+
    have "r = fst (roundAndPackFloat32 s ?ea ?z zero_status)"
      unfolding r_def addFloat32Sigs_def using 4 nf by (simp add: Let_def)
    then have r: "unat r = of_bool s * 2 ^ 31 + round_pack 23 7 0xFD ?ea (unat ?z)"
      using roundAndPack32(1) [OF zb e] by simp
    have eq: "real (unat ?z) / 2 ^ 7 * 2 powi ?ea = real (fmag 23 (f32_mag a)) + real (fmag 23 (f32_mag b))"
    proof -
      have "nat (max ?ea 1 - 1) = nat (?ea - 1)" "2 powi ?ea = 2 * (2 :: real) ^ nat (?ea - 1)"
        using 4 sig_bounds32(4) [of a] by (simp_all add: max_def power_int_def nat_diff_distrib flip: power_Suc)
      then show ?thesis unfolding z fmag_sig32 4(1) [symmetric] by (simp add: algebra_simps)
    qed
    have "nearest_even 23 0x7F800000 (real (fmag 23 (f32_mag a)) + real (fmag 23 (f32_mag b))) (round_pack 23 7 0xFD ?ea (unat ?z))"
      using round_pack_nearest [OF _ _ cell_exact, of 7 23 "unat ?z" "0xFD" ?ea] zb unfolding inf32 eq by simp
    then show ?thesis using sign_mag32 [OF r] roundAndPack32(2) [OF zb e] by simp
  qed
qed

lemma normalizeRoundAndPack32:
  assumes z: "0 < unat z" "unat z < 2 ^ 31" and e: "- 50000 < e" "e < 50000"
  obtains k where "2 ^ 30 \<le> unat z * 2 ^ k" and "unat z * 2 ^ k < 2 ^ 31"
    and "unat (fst (normalizeRoundAndPackFloat32 s e z zero_status)) =
           of_bool s * 2 ^ 31 + round_pack 23 7 0xFD (e - int k) (unat z * 2 ^ k)"
    and "round_pack 23 7 0xFD (e - int k) (unat z * 2 ^ k) \<le> 0x7F800000"
proof -
  let ?c = "builtin_clz_word z"
  have nz: "z \<noteq> 0" using z(1) by auto
  note lz = leading_zeros_bounds [OF nz, simplified]
  have c: "?c \<noteq> 0"
  proof
    assume "?c = 0"
    then have "2 ^ 31 \<le> unat z" using lz(2) by simp
    with z(2) show False by simp
  qed
  define k where "k = ?c - 1"
  have k: "?c = Suc k" "k < 31" using c lz(1) by (simp_all add: k_def)
  have "2 ^ (30 - k) * 2 ^ k \<le> unat z * 2 ^ k" "unat z * 2 ^ k < 2 ^ (31 - k) * 2 ^ k"
    using lz(2,3) unfolding k(1) by simp_all
  moreover have "2 ^ (30 - k) * 2 ^ k = (2 :: nat) ^ 30" "2 ^ (31 - k) * 2 ^ k = (2 :: nat) ^ 31"
    using k(2) by (simp_all flip: power_add)
  ultimately have b: "2 ^ 30 \<le> unat z * 2 ^ k" "unat z * 2 ^ k < 2 ^ 31" by simp_all
  have p: "unat (push_bit k z) = unat z * 2 ^ k" by (rule unat_push_bit_less) (use b(2) in simp)
  have "normalizeRoundAndPackFloat32 s e z zero_status = roundAndPackFloat32 s (e - int k) (push_bit k z) zero_status"
    using nz by (simp add: normalizeRoundAndPackFloat32_def countLeadingZeros32_def k(1))
  then show ?thesis
    using that [OF b] roundAndPack32 [of "push_bit k z" "e - int k", unfolded p] b e k(2) by simp
qed

lemma difference_value32:
  assumes z: "unat z = ma * 2 ^ 7 - jam d (mb * 2 ^ 7)" and lt: "jam d (mb * 2 ^ 7) < ma * 2 ^ 7"
    and m: "ma < 2 ^ 24" "mb < 2 ^ 24" and d: "d = 0 \<or> 2 ^ 23 \<le> ma" and e: "- 40000 < e" "e < 40000"
  shows "nearest_even 23 0x7F800000 ((real ma - real mb / 2 ^ d) * 2 powi (e - 1))
           (f32_mag (fst (normalizeRoundAndPackFloat32 s (e - 1) z zero_status))) \<and>
         extractFloat32Sign (fst (normalizeRoundAndPackFloat32 s (e - 1) z zero_status)) = s"
proof -
  have "0 < unat z" "unat z < 2 ^ 31" using z lt m(1) by simp_all
  then obtain k where k: "2 ^ 30 \<le> unat z * 2 ^ k" "unat z * 2 ^ k < 2 ^ 31"
    and r: "unat (fst (normalizeRoundAndPackFloat32 s (e - 1) z zero_status)) =
           of_bool s * 2 ^ 31 + round_pack 23 7 0xFD (e - 1 - int k) (unat z * 2 ^ k)"
    and le: "round_pack 23 7 0xFD (e - 1 - int k) (unat z * 2 ^ k) \<le> 0x7F800000"
    by (rule normalizeRoundAndPack32 [of z "e - 1" s]) (use e in simp_all)
  have "nearest_even 23 0x7F800000 ((real ma - real mb / 2 ^ d) * 2 powi (e - 1)) (round_pack 23 7 0xFD (e - 1 - int k) (unat z * 2 ^ k))"
    using difference_nearest [OF _ _ _ _ d z lt, of k "0xFD" e] k m unfolding inf32 by simp
  then show ?thesis using sign_mag32 [OF r] le by simp
qed

lemma subSigs32:
  fixes s :: bool
  assumes fin: "f32_finite a" "f32_finite b"
  defines "r \<equiv> fst (subFloat32Sigs a b s zero_status)" and "A \<equiv> fmag 23 (f32_mag a)" and "B \<equiv> fmag 23 (f32_mag b)"
  shows "nearest_even 23 0x7F800000 \<bar>real A - real B\<bar> (f32_mag r) \<and>
         extractFloat32Sign r = (if A = B then False else if B < A then s else \<not> s)"
proof -
  let ?ea = "extractFloat32Exp a" and ?eb = "extractFloat32Exp b"
  let ?fa = "extractFloat32Frac a" and ?fb = "extractFloat32Frac b"
  have nf: "?ea \<noteq> 0xFF" "?eb \<noteq> 0xFF" using fin by (simp_all add: f32_finite_def)
  have fa: "unat ?fa < 2 ^ 23" and fb: "unat ?fb < 2 ^ 23" by (rule sig_bounds32)+
  have e: "- 40000 < ?ea" "?ea < 40000" "- 40000 < ?eb" "?eb < 40000"
    using sig_bounds32(4,5) [of a] sig_bounds32(4,5) [of b] by linarith+
  consider "?eb < ?ea" | "?ea < ?eb" | "?ea = ?eb" by linarith
  then show ?thesis
  proof cases
    case 1
    let ?y = "shift32RightJamming (if ?eb = 0 then push_bit 7 ?fb else push_bit 7 ?fb OR 0x40000000) (if ?eb = 0 then ?ea - ?eb - 1 else ?ea - ?eb)"
    let ?d = "nat (?ea - max ?eb 1)"
    have r: "r = fst (normalizeRoundAndPackFloat32 s (?ea - 1) ((push_bit 7 ?fa OR 0x40000000) - ?y) zero_status)"
      unfolding r_def subFloat32Sigs_def using 1 nf by (simp add: Let_def)
    have sa: "2 ^ 23 \<le> sig32 a" using aligned32(3) [OF 1] by simp
    have lt: "jam ?d (sig32 b * 2 ^ 7) < sig32 a * 2 ^ 7" using shifted_less32(2) [OF 1] sa by simp
    have "unat (push_bit 7 ?fa OR 0x40000000) = sig32 a * 2 ^ 7" unfolding hidden_add32 aligned32(3) [OF 1] ..
    then have "unat ((push_bit 7 ?fa OR 0x40000000) - ?y) = sig32 a * 2 ^ 7 - jam ?d (sig32 b * 2 ^ 7)"
      by (rule unat_diff_eq [OF _ shifted32(2) [OF 1]]) (use lt in simp)
    note v = difference_value32 [OF this lt _ _ _ e(1,2), of s, folded r]
    have "nearest_even 23 0x7F800000 (real A - real B) (f32_mag r) \<and> extractFloat32Sign r = s"
      using v sig_bounds32(1) [of a] sig_bounds32(1) [of b] sa unfolding A_def B_def aligned32(1,2) [OF 1] left_diff_distrib [symmetric] by simp
    moreover have "B < A"
    proof -
      have "fmag 23 (f32_mag b) < fmag 23 (f32_mag a)" by (rule fmag_less, rule mag_less32 [OF 1])
      then show ?thesis by (simp add: A_def B_def)
    qed
    ultimately show ?thesis by simp
  next
    case 2
    let ?x = "shift32RightJamming (if ?ea = 0 then push_bit 7 ?fa else push_bit 7 ?fa OR 0x40000000) (if ?ea = 0 then ?eb - ?ea - 1 else ?eb - ?ea)"
    let ?d = "nat (?eb - max ?ea 1)"
    have "- (if ?ea = 0 then ?ea - ?eb + 1 else ?ea - ?eb) = (if ?ea = 0 then ?eb - ?ea - 1 else ?eb - ?ea)" by simp
    then have r: "r = fst (normalizeRoundAndPackFloat32 (\<not> s) (?eb - 1) ((push_bit 7 ?fb OR 0x40000000) - ?x) zero_status)"
      unfolding r_def subFloat32Sigs_def using 2 nf by (simp only: Let_def) simp
    have sb: "2 ^ 23 \<le> sig32 b" using aligned32(3) [OF 2] by simp
    have lt: "jam ?d (sig32 a * 2 ^ 7) < sig32 b * 2 ^ 7" using shifted_less32(2) [OF 2] sb by simp
    have "unat (push_bit 7 ?fb OR 0x40000000) = sig32 b * 2 ^ 7" unfolding hidden_add32 aligned32(3) [OF 2] ..
    then have "unat ((push_bit 7 ?fb OR 0x40000000) - ?x) = sig32 b * 2 ^ 7 - jam ?d (sig32 a * 2 ^ 7)"
      by (rule unat_diff_eq [OF _ shifted32(2) [OF 2]]) (use lt in simp)
    note v = difference_value32 [OF this lt _ _ _ e(3,4), of "\<not> s", folded r]
    have "nearest_even 23 0x7F800000 (real B - real A) (f32_mag r) \<and> extractFloat32Sign r = (\<not> s)"
      using v sig_bounds32(1) [of a] sig_bounds32(1) [of b] sb unfolding A_def B_def aligned32(1,2) [OF 2] left_diff_distrib [symmetric] by simp
    moreover have "A < B"
    proof -
      have "fmag 23 (f32_mag a) < fmag 23 (f32_mag b)" by (rule fmag_less, rule mag_less32 [OF 2])
      then show ?thesis by (simp add: A_def B_def)
    qed
    ultimately show ?thesis by simp
  next
    case 3
    define e0 where "e0 = (if ?ea = 0 then 1 else ?ea)"
    have e0: "max ?ea 1 = e0" "- 40000 < e0" "e0 < 40000" using e sig_bounds32(4) [of a] by (auto simp: e0_def max_def)
    have AB: "A = sig32 a * 2 ^ nat (e0 - 1)" "B = sig32 b * 2 ^ nat (e0 - 1)"
      unfolding A_def B_def fmag_sig32 using 3 e0(1) by simp_all
    have ord: "B < A \<longleftrightarrow> unat ?fb < unat ?fa" "A < B \<longleftrightarrow> unat ?fa < unat ?fb"
      unfolding AB using 3 by (simp_all add: sig32_def)
    have p: "2 powi (e0 - 1) = (2 :: real) ^ nat (e0 - 1)" using e0(1) by (simp add: power_int_def)
    have dif: "real A - real B = (real (unat ?fa) - real (unat ?fb) / 2 ^ 0) * 2 powi (e0 - 1)"
      unfolding AB p using 3 by (simp add: sig32_def algebra_simps)
    have w: "push_bit 7 ?fb < push_bit 7 ?fa \<longleftrightarrow> unat ?fb < unat ?fa" "push_bit 7 ?fa < push_bit 7 ?fb \<longleftrightarrow> unat ?fa < unat ?fb"
      by (simp_all only: word_less_nat_alt hidden_add32) simp_all
    have def_r: "r = fst (if unat ?fb < unat ?fa then normalizeRoundAndPackFloat32 s (e0 - 1) (push_bit 7 ?fa - push_bit 7 ?fb) zero_status
        else if unat ?fa < unat ?fb then normalizeRoundAndPackFloat32 (\<not> s) (e0 - 1) (push_bit 7 ?fb - push_bit 7 ?fa) zero_status
        else (packFloat32 False 0 0, zero_status))"
      unfolding r_def subFloat32Sigs_def using 3 nf e0_def by (simp add: Let_def w)
    consider "unat ?fb < unat ?fa" | "unat ?fa < unat ?fb" | "unat ?fa = unat ?fb" by linarith
    then show ?thesis
    proof cases
      case 1
      then have r: "r = fst (normalizeRoundAndPackFloat32 s (e0 - 1) (push_bit 7 ?fa - push_bit 7 ?fb) zero_status)"
        using def_r by simp
      have "unat (push_bit 7 ?fa - push_bit 7 ?fb) = unat ?fa * 2 ^ 7 - jam 0 (unat ?fb * 2 ^ 7)"
        unfolding jam_0 by (rule unat_diff_eq [OF hidden_add32(2) hidden_add32(2)]) (use 1 in simp)
      from difference_value32 [OF this _ _ _ _ e0(2,3), of s, folded r dif] show ?thesis
        using 1 fa fb ord by (simp add: jam_0)
    next
      case 2
      then have r: "r = fst (normalizeRoundAndPackFloat32 (\<not> s) (e0 - 1) (push_bit 7 ?fb - push_bit 7 ?fa) zero_status)"
        using def_r by simp
      have "unat (push_bit 7 ?fb - push_bit 7 ?fa) = unat ?fb * 2 ^ 7 - jam 0 (unat ?fa * 2 ^ 7)"
        unfolding jam_0 by (rule unat_diff_eq [OF hidden_add32(2) hidden_add32(2)]) (use 2 in simp)
      note v = difference_value32 [OF this _ _ _ _ e0(2,3), of "\<not> s", folded r]
      have "\<bar>real A - real B\<bar> = (real (unat ?fb) - real (unat ?fa) / 2 ^ 0) * 2 powi (e0 - 1)"
      proof -
        have "real A < real B" using 2 ord by simp
        then have "\<bar>real A - real B\<bar> = - (real A - real B)" by simp
        then show ?thesis unfolding dif by (simp add: algebra_simps)
      qed
      with v show ?thesis using 2 fa fb ord by (simp add: jam_0)
    next
      case 3
      then have r: "r = packFloat32 False (int 0) 0" using def_r by simp
      then have "unat r = of_bool False * 2 ^ 31 + 0" using unat_packFloat32 [of 0 0 False] by simp
      note sm = sign_mag32 [OF this]
      have "A = B" using 3 ord by auto
      then show ?thesis using sm nearest_even_exact [of 0 "0x7F800000" 23] by (simp add: fmag_def)
    qed
  qed
qed

lemma value_neg32: "f32_value a = (if extractFloat32Sign a then - real (fmag 23 (f32_mag a)) else real (fmag 23 (f32_mag a))) / 2 ^ 149"
  by (simp add: f32_value_def)

text \<open>A sum or a difference of magnitudes with a sign is rounded when its magnitude is.\<close>

lemma rounds32I:
  assumes "nearest_even 23 0x7F800000 \<bar>t\<bar> (f32_mag r)" and "extractFloat32Sign r \<longleftrightarrow> (if t = 0 then neg else t < 0)"
  shows "rounds32 (t / 2 ^ 149) neg r"
proof -
  have "\<bar>t / 2 ^ 149\<bar> * 2 ^ 149 = \<bar>t\<bar>" "t / 2 ^ 149 = 0 \<longleftrightarrow> t = 0" "t / 2 ^ 149 < 0 \<longleftrightarrow> t < 0"
    by (simp_all add: divide_less_0_iff)
  with assms show ?thesis unfolding rounds32_def by simp
qed

lemma rounds32_signed:
  assumes "0 < t" and "nearest_even 23 0x7F800000 t (f32_mag r)" and "extractFloat32Sign r = s"
  shows "rounds32 ((if s then - t else t) / 2 ^ 149) neg r"
  by (rule rounds32I) (use assms in \<open>cases s; simp\<close>)+

lemma add_rounds32:
  assumes fin: "f32_finite a" "f32_finite b"
  shows "rounds32 (f32_value a + f32_value b) (extractFloat32Sign a \<and> extractFloat32Sign b)
           (fst (float32_add a b zero_status))"
proof -
  let ?A = "fmag 23 (f32_mag a)" and ?B = "fmag 23 (f32_mag b)"
  let ?s = "extractFloat32Sign a" and ?t = "extractFloat32Sign b"
  note ad = addSigs32 [OF fin, of ?s] and su = subSigs32 [OF fin, of ?s]
  have r: "fst (float32_add a b zero_status) =
      fst (if ?s = ?t then addFloat32Sigs a b ?s zero_status else subFloat32Sigs a b ?s zero_status)"
    by (simp add: float32_add_def float32_squash_input_denormal_def)
  show ?thesis unfolding value_neg32 add_divide_distrib [symmetric] r
    by (rule rounds32I) (cases ?s; cases ?t; use ad su in \<open>auto simp: abs_minus_commute add.commute\<close>)+
qed

lemma sub_rounds32:
  assumes fin: "f32_finite a" "f32_finite b"
  shows "rounds32 (f32_value a - f32_value b) (extractFloat32Sign a \<and> \<not> extractFloat32Sign b)
           (fst (float32_sub a b zero_status))"
proof -
  let ?A = "fmag 23 (f32_mag a)" and ?B = "fmag 23 (f32_mag b)"
  let ?s = "extractFloat32Sign a" and ?t = "extractFloat32Sign b"
  note ad = addSigs32 [OF fin, of ?s] and su = subSigs32 [OF fin, of ?s]
  have r: "fst (float32_sub a b zero_status) =
      fst (if ?s = ?t then subFloat32Sigs a b ?s zero_status else addFloat32Sigs a b ?s zero_status)"
    by (simp add: float32_sub_def float32_squash_input_denormal_def)
  show ?thesis unfolding value_neg32 diff_divide_distrib [symmetric] r
    by (rule rounds32I) (cases ?s; cases ?t; use ad su in \<open>auto simp: abs_minus_commute add.commute\<close>)+
qed

section \<open>Multiplication\<close>

text \<open>A non-zero operand is normalized to a significand with its hidden bit and an exponent.\<close>

lemma normal_operand32:
  assumes "f32_finite a" and nz: "\<not> (extractFloat32Exp a = 0 \<and> extractFloat32Frac a = 0)"
  obtains e f m where "normal32 (extractFloat32Exp a) (extractFloat32Frac a) = (e, f)" and "unat (f OR 0x00800000) = m"
    and "2 ^ 23 \<le> m" and "m < 2 ^ 24" and "real (fmag 23 (f32_mag a)) = real m * 2 powi (e - 1)"
    and "- 100 < e" and "e < 0xFF"
proof (cases "extractFloat32Exp a = 0")
  case False
  have e: "0 < extractFloat32Exp a" "extractFloat32Exp a < 0xFF"
    using False sig_bounds32(4,5) [of a] assms(1) by (simp_all add: f32_finite_def)
  have "unat (extractFloat32Frac a OR 0x00800000) = sig32 a"
    using unat_or_power [of "extractFloat32Frac a" 23] sig_bounds32(3) [of a] False by (simp add: sig32_def)
  moreover have "real (fmag 23 (f32_mag a)) = real (sig32 a) * 2 powi (extractFloat32Exp a - 1)"
    using e by (simp add: fmag_sig32 power_int_def max_def)
  ultimately show ?thesis
    using that [of "extractFloat32Exp a" "extractFloat32Frac a" "sig32 a"] False e sig_bounds32(1,2) [of a]
    by (simp add: normal32_def)
next
  case True
  let ?f = "extractFloat32Frac a" and ?c = "builtin_clz_word (extractFloat32Frac a)"
  have f: "?f \<noteq> 0" using True nz by simp
  note lz = leading_zeros_bounds [OF f, simplified]
  have fb: "unat ?f < 2 ^ 23" by (rule sig_bounds32)
  have c: "8 < ?c"
  proof (rule ccontr)
    assume "\<not> 8 < ?c"
    then have "(2 :: nat) ^ 23 \<le> 2 ^ (31 - ?c)" by (intro power_increasing) simp_all
    also have "\<dots> \<le> unat ?f" using lz(2) by simp
    finally show False using fb by simp
  qed
  define k where "k = ?c - 8"
  have k: "?c = k + 8" "0 < k" "k \<le> 23" using c lz(1) by (simp_all add: k_def)
  have "2 ^ (23 - k) * 2 ^ k \<le> unat ?f * 2 ^ k" "unat ?f * 2 ^ k < 2 ^ (24 - k) * 2 ^ k"
    using lz(2,3) unfolding k(1) by simp_all
  moreover have "2 ^ (23 - k) * 2 ^ k = (2 :: nat) ^ 23" "2 ^ (24 - k) * 2 ^ k = (2 :: nat) ^ 24"
    using k(3) by (simp_all flip: power_add)
  ultimately have b: "2 ^ 23 \<le> unat ?f * 2 ^ k" "unat ?f * 2 ^ k < 2 ^ 24" by simp_all
  have p: "unat (push_bit k ?f) = unat ?f * 2 ^ k" by (rule unat_push_bit_less) (use b(2) in simp)
  have "push_bit k ?f OR 0x00800000 = push_bit k ?f" using or_leading [of 23 "push_bit k ?f"] b p by simp
  then have u: "unat (push_bit k ?f OR 0x00800000) = unat ?f * 2 ^ k" using p by (simp only:)
  have "normal32 (extractFloat32Exp a) ?f = (1 - int k, push_bit k ?f)"
    using True f by (simp add: normal32_def normalizeFloat32Subnormal_def countLeadingZeros32_def k(1))
  moreover have "real (fmag 23 (f32_mag a)) = real (unat ?f * 2 ^ k) * 2 powi (1 - int k - 1)"
    using True fb by (simp add: mag_split32 fmag_def power_int_minus field_simps)
  ultimately show ?thesis using that [of "1 - int k" "push_bit k ?f" "unat ?f * 2 ^ k"] u b k by simp
qed

lemma finite_zero32:
  "extractFloat32Exp a = 0 \<and> extractFloat32Frac a = 0 \<longleftrightarrow> fmag 23 (f32_mag a) = 0"
proof -
  have "fmag 23 (f32_mag a) = 0 \<longleftrightarrow> sig32 a = 0" by (simp add: fmag_sig32)
  also have "\<dots> \<longleftrightarrow> extractFloat32Exp a = 0 \<and> unat (extractFloat32Frac a) = 0" by (simp add: sig32_def)
  finally show ?thesis by (simp add: unat_0_iff)
qed

lemma product32:
  assumes m: "unat (fa OR 0x00800000) = ma" "unat (fb OR 0x00800000) = mb" and b: "ma < 2 ^ 24" "mb < 2 ^ 24"
  obtains z where "unat z = jam 32 (ma * mb * 2 ^ 15)"
    and "mulFloat32Sigs s ea fa eb fb st =
           (if 0 \<le> sint (push_bit 1 z) then roundAndPackFloat32 s (ea + eb - 0x7F - 1) (push_bit 1 z) st
            else roundAndPackFloat32 s (ea + eb - 0x7F) z st)"
proof -
  let ?a = "push_bit 7 (fa OR 0x00800000) :: u32" and ?b = "push_bit 8 (fb OR 0x00800000) :: u32"
  let ?z = "shift64RightJamming (ucast ?a * ucast ?b) 32"
  have "unat ?a = ma * 2 ^ 7" "unat ?b = mb * 2 ^ 8"
    by (subst unat_push_bit_less; use m b in simp)+
  then have p: "unat (ucast ?a * ucast ?b :: u64) = ma * mb * 2 ^ 15" unfolding unat_mul32 by simp
  have z: "unat ?z = jam 32 (ma * mb * 2 ^ 15)" using unat_shift64RightJamming [of _ 32] p by simp
  have "ma * mb < 2 ^ 24 * 2 ^ 24" using b by (intro mult_strict_mono) simp_all
  then have "jam 32 (ma * mb * 2 ^ 15) < 2 ^ 31" using jam_pos(1) [of "2 ^ 31" 32 "ma * mb * 2 ^ 15"] by simp
  then have "unat (ucast ?z :: u32) = jam 32 (ma * mb * 2 ^ 15)"
    using z by (simp add: unsigned_ucast_eq take_bit_nat_eq_self)
  then show ?thesis by (rule that) (simp add: mulFloat32Sigs_def Let_def)
qed

lemma mulSigs32:
  fixes s :: bool
  assumes m: "unat (fa OR 0x00800000) = ma" "unat (fb OR 0x00800000) = mb"
    and b: "2 ^ 23 \<le> ma" "ma < 2 ^ 24" "2 ^ 23 \<le> mb" "mb < 2 ^ 24"
    and e: "- 100 < ea" "ea < 0xFF" "- 100 < eb" "eb < 0xFF"
  defines "r \<equiv> fst (mulFloat32Sigs s ea fa eb fb zero_status)"
  shows "nearest_even 23 0x7F800000 (real ma * 2 powi (ea - 1) * (real mb * 2 powi (eb - 1)) / 2 ^ 149) (f32_mag r)"
    and "extractFloat32Sign r = s"
proof -
  let ?p = "ma * mb * 2 ^ 15" and ?e = "ea + eb - 0x7F"
  obtain z where z: "unat z = jam 32 ?p" and
    def_r: "mulFloat32Sigs s ea fa eb fb zero_status =
           (if 0 \<le> sint (push_bit 1 z) then roundAndPackFloat32 s (?e - 1) (push_bit 1 z) zero_status
            else roundAndPackFloat32 s ?e z zero_status)"
    using product32 [OF m b(2,4), of s ea eb zero_status] by blast
  have "2 ^ 23 * 2 ^ 23 \<le> ma * mb" "ma * mb < 2 ^ 24 * 2 ^ 24"
    using b by (intro mult_mono mult_strict_mono; simp)+
  then have zb: "2 ^ 29 \<le> jam 32 ?p" "jam 32 ?p < 2 ^ 31"
    using jam_pos(1) [of "2 ^ 29" 32 ?p] jam_pos(1) [of "2 ^ 31" 32 ?p] by simp_all
  have z2: "unat (push_bit 1 z) = 2 * jam 32 ?p" using zb(2) z by (subst unat_push_bit_less) simp_all
  have neg: "0 \<le> sint (push_bit 1 z) \<longleftrightarrow> \<not> 2 ^ 30 \<le> jam 32 ?p"
    using sint_neg32 [of "push_bit 1 z"] unfolding z2 by auto
  define n where "n = (if 2 ^ 30 \<le> jam 32 ?p then round_pack 23 7 0xFD ?e (jam 32 ?p) else round_pack 23 7 0xFD (?e - 1) (2 * jam 32 ?p))"
  have r: "unat r = of_bool s * 2 ^ 31 + n \<and> n \<le> 0x7F800000"
  proof (cases "2 ^ 30 \<le> jam 32 ?p")
    case True
    then have "r = fst (roundAndPackFloat32 s ?e z zero_status)" unfolding r_def def_r neg by simp
    then show ?thesis using roundAndPack32(1) [of z ?e s] roundAndPack32(2) [of z ?e] True zb e unfolding z n_def by simp
  next
    case False
    then have "r = fst (roundAndPackFloat32 s (?e - 1) (push_bit 1 z) zero_status)" unfolding r_def def_r neg by simp
    then show ?thesis using roundAndPack32(1) [of "push_bit 1 z" "?e - 1" s] roundAndPack32(2) [of "push_bit 1 z" "?e - 1"] False zb e
      unfolding z2 n_def by simp
  qed
  have eq: "real ?p / 2 ^ 32 / 2 ^ 7 * 2 powi ?e = real ma * 2 powi (ea - 1) * (real mb * 2 powi (eb - 1)) / 2 ^ 149"
    by (simp add: power_int_diff power_int_add)
  have "nearest_even 23 0x7F800000 (real ?p / 2 ^ 32 / 2 ^ 7 * 2 powi ?e) n"
    using binade_nearest [OF _ _ cell_coarser [OF cell_jam_exact, of "7 - 2"], of 23 32 ?p "0xFD" ?e] zb
    unfolding inf32 n_def by (cases "2 ^ 30 \<le> jam 32 ?p") simp_all
  then have "nearest_even 23 0x7F800000 (real ma * 2 powi (ea - 1) * (real mb * 2 powi (eb - 1)) / 2 ^ 149) n" unfolding eq .
  then show "nearest_even 23 0x7F800000 (real ma * 2 powi (ea - 1) * (real mb * 2 powi (eb - 1)) / 2 ^ 149) (f32_mag r)"
    and "extractFloat32Sign r = s"
    using r sign_mag32 [of r s n] by simp_all
qed

lemma rounds32_signed_zero: "rounds32 0 s (packFloat32 s 0 0)"
proof -
  have "unat (packFloat32 s (int 0) 0) = of_bool s * 2 ^ 31 + 0" using unat_packFloat32 [of 0 0 s] by simp
  then show ?thesis using rounds32_pack [of "packFloat32 s 0 0" s 0 0 s] nearest_even_exact [of 0 "0x7F800000" 23]
    by (simp add: fmag_def)
qed

lemma mul_rounds32:
  assumes fin: "f32_finite a" "f32_finite b"
  shows "rounds32 (f32_value a * f32_value b) (extractFloat32Sign a \<noteq> extractFloat32Sign b)
           (fst (float32_mul a b zero_status))"
proof -
  let ?A = "fmag 23 (f32_mag a)" and ?B = "fmag 23 (f32_mag b)"
  let ?s = "extractFloat32Sign a \<noteq> extractFloat32Sign b"
  have nf: "extractFloat32Exp a \<noteq> 0xFF" "extractFloat32Exp b \<noteq> 0xFF" using fin by (simp_all add: f32_finite_def)
  have v: "f32_value a * f32_value b = (if ?s then - (real ?A * real ?B / 2 ^ 149) else real ?A * real ?B / 2 ^ 149) / 2 ^ 149"
    by (simp add: value_neg32)
  show ?thesis
  proof (cases "?A = 0 \<or> ?B = 0")
    case True
    then have "fst (float32_mul a b zero_status) = packFloat32 ?s 0 0"
      using nf by (auto simp: float32_mul_def float32_squash_input_denormal_def Let_def finite_zero32)
    moreover have "f32_value a * f32_value b = 0" using True unfolding v by auto
    ultimately show ?thesis using rounds32_signed_zero [of ?s] by (simp only:)
  next
    case False
    then have nz: "\<not> (extractFloat32Exp a = 0 \<and> extractFloat32Frac a = 0)" "\<not> (extractFloat32Exp b = 0 \<and> extractFloat32Frac b = 0)"
      unfolding finite_zero32 by simp_all
    obtain ea fa ma where a: "normal32 (extractFloat32Exp a) (extractFloat32Frac a) = (ea, fa)" "unat (fa OR 0x00800000) = ma"
      "2 ^ 23 \<le> ma" "ma < 2 ^ 24" "real ?A = real ma * 2 powi (ea - 1)" "- 100 < ea" "ea < 0xFF"
      by (rule normal_operand32 [OF fin(1) nz(1)])
    obtain eb fb mb where b: "normal32 (extractFloat32Exp b) (extractFloat32Frac b) = (eb, fb)" "unat (fb OR 0x00800000) = mb"
      "2 ^ 23 \<le> mb" "mb < 2 ^ 24" "real ?B = real mb * 2 powi (eb - 1)" "- 100 < eb" "eb < 0xFF"
      by (rule normal_operand32 [OF fin(2) nz(2)])
    let ?r = "fst (mulFloat32Sigs ?s ea fa eb fb zero_status)"
    have r: "fst (float32_mul a b zero_status) = ?r"
      using nf nz a(1) b(1) by (auto simp: float32_mul_def float32_squash_input_denormal_def Let_def)
    have m: "nearest_even 23 0x7F800000 (real ?A * real ?B / 2 ^ 149) (f32_mag ?r)" "extractFloat32Sign ?r = ?s"
      unfolding a(5) b(5) by (rule mulSigs32 [OF a(2) b(2) a(3,4) b(3,4) a(6,7) b(6,7)])+
    have "0 < real ?A * real ?B / 2 ^ 149" using False by simp
    then show ?thesis unfolding v r by (rule rounds32_signed [OF _ m])
  qed
qed

section \<open>Division\<close>

lemma quotient32:
  assumes m: "unat (fa OR 0x00800000) = ma" "unat (fb OR 0x00800000) = mb"
    and b: "2 ^ 23 \<le> ma" "ma < 2 ^ 24" "2 ^ 23 \<le> mb" "mb < 2 ^ 24"
  obtains z e y where "divFloat32Sigs s ea fa eb fb st = roundAndPackFloat32 s e z st"
    and "2 ^ 30 \<le> unat z" and "unat z < 2 ^ 31" and "cell 6 y (unat z)"
    and "y / 2 ^ 7 * 2 powi e = real ma / real mb * 2 powi (ea - eb) * 2 ^ 149"
    and "e = ea - eb + 0x7D \<or> e = ea - eb + 0x7E"
proof -
  define av bv where "av = (push_bit 7 (fa OR 0x00800000) :: u32)" and "bv = (push_bit 8 (fb OR 0x00800000) :: u32)"
  have a: "unat av = ma * 2 ^ 7" and bb: "unat bv = mb * 2 ^ 8"
    unfolding av_def bv_def by (subst unat_push_bit_less; use m b in simp)+
  have aa: "unat (av + av) = ma * 2 ^ 8" using a b by (subst unat_add_less) simp_all
  define k where "k = (if mb \<le> ma then 6 else 7 :: nat)"
  define e where "e = (if mb \<le> ma then ea - eb + 0x7D + 1 else ea - eb + 0x7D)"
  define n where "n = (if mb \<le> ma then drop_bit 1 av else av)"
  have sh: "bv \<le> av + av \<longleftrightarrow> mb \<le> ma" unfolding word_le_nat_alt aa bb by simp
  have n: "unat n = ma * 2 ^ k" unfolding n_def k_def by (simp add: unat_drop_bit_div a)
  define q where "q = ma * 2 ^ k * 2 ^ 32 div (mb * 2 ^ 8)"
  have small: "unat (ucast (v :: u32) :: u64) = unat v" for v
    by (simp add: unsigned_ucast_eq take_bit_nat_eq_self less_trans [OF unat_u32_less])
  have un: "unat (push_bit 32 (ucast n :: u64)) = ma * 2 ^ k * 2 ^ 32"
  proof -
    have "ma * 2 ^ k * 2 ^ 32 < 2 ^ 64" using b(2) by (simp add: k_def)
    then show ?thesis by (subst unat_push_bit_less) (simp_all add: small n)
  qed
  have qb: "2 ^ 30 \<le> q \<and> q < 2 ^ 31"
  proof (cases "mb \<le> ma")
    case True
    have "q = ma * 2 ^ 30 div mb" using True by (simp add: q_def k_def mult.commute)
    then show ?thesis using True b by (simp add: less_eq_div_iff_mult_less_eq div_less_iff_less_mult)
  next
    case False
    have "q = ma * 2 ^ 31 div mb" using False by (simp add: q_def k_def mult.commute)
    then show ?thesis using False b by (simp add: less_eq_div_iff_mult_less_eq div_less_iff_less_mult)
  qed
  define w where "w = (ucast (push_bit 32 (ucast n :: u64) div ucast bv) :: u32)"
  have w: "unat w = q"
  proof -
    have "unat (push_bit 32 (ucast n :: u64) div ucast bv) = q" unfolding unat_div un small bb q_def ..
    then show ?thesis unfolding w_def using qb by (simp add: unsigned_ucast_eq take_bit_nat_eq_self)
  qed
  define z where "z = (if w AND 0x3F = 0 then w OR of_bool (ucast bv * ucast w \<noteq> push_bit 32 (ucast n :: u64)) else w)"
  have f1: "divFloat32Sigs s ea fa eb fb st = roundAndPackFloat32 s e z st"
    unfolding divFloat32Sigs_def Let_def av_def [symmetric] bv_def [symmetric] sh n_def [symmetric] w_def [symmetric]
      e_def [symmetric] z_def [symmetric] ..
  have f2: "2 ^ 30 \<le> unat z \<and> unat z < 2 ^ 31 \<and> cell 6 (real (ma * 2 ^ k * 2 ^ 32) / real (mb * 2 ^ 8)) (unat z)"
  proof (cases "q mod 2 ^ 6 = 0")
    case True
    then have "w AND 0x3F = 0" using and_mask_zero [of w 6] by (simp add: w mask_eq_exp_minus_1)
    moreover have "ucast bv * ucast w = push_bit 32 (ucast n :: u64) \<longleftrightarrow> mb * 2 ^ 8 * q = ma * 2 ^ k * 2 ^ 32"
      unfolding word_unat_eq_iff un unat_mul32 bb w ..
    moreover have "mb * 2 ^ 8 * q = ma * 2 ^ k * 2 ^ 32 \<longleftrightarrow> mb * 2 ^ 8 dvd ma * 2 ^ k * 2 ^ 32"
      unfolding q_def by (metis dvd_mult_div_cancel dvd_triv_left)
    ultimately have "unat z = (if mb * 2 ^ 8 dvd ma * 2 ^ k * 2 ^ 32 then q else q div 2 * 2 + 1)"
      unfolding z_def by (simp add: w unsigned_or_eq or_Suc_0_eq jam_odd [simplified])
    moreover from this True qb have "2 ^ 30 \<le> unat z \<and> unat z < 2 ^ 31" by (auto split: if_splits)
    moreover have "mb * 2 ^ 8 > 0" using b by simp
    ultimately show ?thesis
      using cell_coarser [OF cell_quotient, of "mb * 2 ^ 8" 6 "ma * 2 ^ k * 2 ^ 32"] unfolding q_def by simp
  next
    case False
    then have "w AND 0x3F \<noteq> 0" using and_mask_zero [of w 6] by (simp add: w mask_eq_exp_minus_1)
    then have "unat z = q" unfolding z_def using w by simp
    moreover have "cell 6 (real (ma * 2 ^ k * 2 ^ 32) / real (mb * 2 ^ 8)) q"
      by (rule cell_approx [where j = 0 and q = q]) (use False b real_of_nat_div_bounds [of "mb * 2 ^ 8" "ma * 2 ^ k * 2 ^ 32"] in \<open>simp_all add: q_def\<close>)
    ultimately show ?thesis using qb by simp
  qed
  have f3: "real (ma * 2 ^ k * 2 ^ 32) / real (mb * 2 ^ 8) / 2 ^ 7 * 2 powi e = real ma / real mb * 2 powi (ea - eb) * 2 ^ 149"
    unfolding k_def e_def by (simp add: power_int_add)
  have f4: "e = ea - eb + 0x7D \<or> e = ea - eb + 0x7E" by (simp add: e_def)
  show ?thesis by (rule that [OF f1 _ _ _ f3 f4]) (use f2 in simp_all)
qed

lemma div_rounds32:
  assumes fin: "f32_finite a" "f32_finite b" and nz: "f32_value b \<noteq> 0"
  shows "rounds32 (f32_value a / f32_value b) (extractFloat32Sign a \<noteq> extractFloat32Sign b) (fst (float32_div a b zero_status))"
proof -
  let ?A = "fmag 23 (f32_mag a)" and ?B = "fmag 23 (f32_mag b)"
  let ?s = "extractFloat32Sign a \<noteq> extractFloat32Sign b"
  have nf: "extractFloat32Exp a \<noteq> 0xFF" "extractFloat32Exp b \<noteq> 0xFF" using fin by (simp_all add: f32_finite_def)
  have B: "?B \<noteq> 0" using nz by (auto simp: value_neg32 split: if_splits)
  then have bz: "\<not> (extractFloat32Exp b = 0 \<and> extractFloat32Frac b = 0)" unfolding finite_zero32 .
  have v: "f32_value a / f32_value b = (if ?s then - (real ?A / real ?B * 2 ^ 149) else real ?A / real ?B * 2 ^ 149) / 2 ^ 149"
    by (simp add: value_neg32)
  show ?thesis
  proof (cases "?A = 0")
    case True
    then have "float32_div a b zero_status = (packFloat32 ?s 0 0, zero_status)"
      using nf bz by (auto simp: float32_div_def float32_squash_input_denormal_def Let_def finite_zero32)
    moreover have "f32_value a / f32_value b = 0" using True unfolding v by auto
    ultimately show ?thesis using rounds32_signed_zero [of ?s] by (simp only: fst_conv)
  next
    case False
    then have az: "\<not> (extractFloat32Exp a = 0 \<and> extractFloat32Frac a = 0)" unfolding finite_zero32 .
    obtain ea fa ma where a: "normal32 (extractFloat32Exp a) (extractFloat32Frac a) = (ea, fa)" "unat (fa OR 0x00800000) = ma"
      "2 ^ 23 \<le> ma" "ma < 2 ^ 24" "real ?A = real ma * 2 powi (ea - 1)" "- 100 < ea" "ea < 0xFF"
      by (rule normal_operand32 [OF fin(1) az])
    obtain eb fb mb where b: "normal32 (extractFloat32Exp b) (extractFloat32Frac b) = (eb, fb)" "unat (fb OR 0x00800000) = mb"
      "2 ^ 23 \<le> mb" "mb < 2 ^ 24" "real ?B = real mb * 2 powi (eb - 1)" "- 100 < eb" "eb < 0xFF"
      by (rule normal_operand32 [OF fin(2) bz])
    obtain z e y where q: "divFloat32Sigs ?s ea fa eb fb zero_status = (roundAndPackFloat32 ?s e z zero_status)"
      and z: "2 ^ 30 \<le> unat z" "unat z < 2 ^ 31" and c: "cell 6 y (unat z)"
      and y: "y / 2 ^ 7 * 2 powi e = real ma / real mb * 2 powi (ea - eb) * 2 ^ 149"
      and e: "e = ea - eb + 0x7D \<or> e = ea - eb + 0x7E"
      by (rule quotient32 [OF a(2) b(2) a(3,4) b(3,4), of ?s ea eb zero_status])
    let ?r = "fst (roundAndPackFloat32 ?s e z zero_status)"
    have r: "float32_div a b zero_status = (roundAndPackFloat32 ?s e z zero_status)"
      using nf az bz a(1) b(1) q by (auto simp: float32_div_def float32_squash_input_denormal_def Let_def)
    have er: "- 60000 < e" "e < 60000" using e a(6,7) b(6,7) by auto
    have x: "real ?A / real ?B * 2 ^ 149 = y / 2 ^ 7 * 2 powi e"
      unfolding a(5) b(5) y using b(3) by (simp add: power_int_diff field_simps)
    have "nearest_even 23 0x7F800000 (y / 2 ^ 7 * 2 powi e) (round_pack 23 7 0xFD e (unat z))"
      using round_pack_nearest [of 7 23 y "unat z" "0xFD" e] z c unfolding inf32 by simp
    then have m: "nearest_even 23 0x7F800000 (real ?A / real ?B * 2 ^ 149) (f32_mag ?r)" "extractFloat32Sign ?r = ?s"
      unfolding x using sign_mag32 [OF roundAndPack32(1) [OF z er]] roundAndPack32(2) [OF z er] by simp_all
    have "0 < real ?A / real ?B * 2 ^ 149" using False B by simp
    then have "rounds32 (f32_value a / f32_value b) ?s ?r" unfolding v by (rule rounds32_signed [OF _ m])
    then show ?thesis unfolding r by simp
  qed
qed

section \<open>Conversion to integers\<close>

lemma to_int32_rounds32:
  assumes "f32_finite a"
  shows "converts32 (f32_value a) (float32_to_int32 a zero_status)"
proof -
  let ?e = "extractFloat32Exp a" and ?s = "extractFloat32Sign a"
  define f where "f = (if ?e \<noteq> 0 then extractFloat32Frac a OR 0x00800000 else extractFloat32Frac a)"
  define w where "w = (push_bit 32 (ucast f) :: u64)"
  have f: "unat f = sig32 a"
    using unat_or_power [of "extractFloat32Frac a" 23] sig_bounds32(3) [of a] by (simp add: f_def sig32_def)
  have w: "unat w = sig32 a * 2 ^ 32"
    using unat_push_bit_less [of "ucast f :: u64" 32] sig_bounds32(1) [of a] f
    by (simp add: w_def unsigned_ucast_eq take_bit_nat_eq_self)
  have e: "0 \<le> ?e" "?e \<noteq> 0 \<Longrightarrow> 2 ^ 52 \<le> unat w" and wl: "unat w < 2 ^ 56"
    using sig_bounds32 [of a] unfolding w by simp_all
  have r: "float32_to_int32 a zero_status =
      roundAndPackInt32 ?s (if 0 < 0xAF - ?e then shift64RightJamming w (0xAF - ?e) else w) zero_status"
    using assms by (simp add: float32_to_int32_def float32_squash_input_denormal_def f32_finite_def Let_def w_def f_def)
  have v: "f32_value a = (if ?s then - (real (unat w) * 2 powi (max ?e 1 - 0xAF)) else real (unat w) * 2 powi (max ?e 1 - 0xAF)) / 2 ^ 7"
  proof -
    define k where "k = nat (max ?e 1 - 1)"
    have "max ?e 1 - 0xAF = int k - int (0xAF - 1)" by (simp add: k_def max_def)
    then have k: "(2 :: real) powi (max ?e 1 - 0xAF) = 2 ^ k / 2 ^ (0xAF - 1)" by (simp only: power_int_diff zero_neq_numeral [symmetric] simp_thms power_int_of_nat)
    have "real (unat w) * 2 powi (max ?e 1 - 0xAF) / 2 ^ 7 = real (sig32 a * 2 ^ k) / 2 ^ 149"
      unfolding k w by simp
    then show ?thesis unfolding value_neg32 fmag_sig32 k_def by simp
  qed
  show ?thesis unfolding r v by (rule packInt32_shift [OF e wl]) simp_all
qed

section \<open>Square roots\<close>

lemma jam_half: "2 ^ 31 \<le> z \<Longrightarrow> z < 2 ^ 32 \<Longrightarrow> 2 ^ 30 \<le> jam 1 z \<and> jam 1 z < 2 ^ 31"
  using jam_pos(1) [of "2 ^ 30" 1 z] jam_pos(1) [of "2 ^ 31" 1 z] by (simp add: not_less [symmetric])

lemma root32:
  fixes e :: int
  assumes m: "unat (f OR 0x00800000) = m" and b: "2 ^ 23 \<le> m" "m < 2 ^ 24"
  defines "B \<equiv> (if e AND 1 = 0 then m * 2 ^ 8 else m * 2 ^ 7)"
  obtains z where "sqrtFloat32Sig e f st = Inr (roundAndPackFloat32 False ((e - 0x7F) div 2 + 0x7E) z st)"
    and "2 ^ 30 \<le> unat z" and "unat z < 2 ^ 31" and "cell 6 (sqrt (real (B * 2 ^ 32)) / 2 ^ 1) (unat z)"
proof -
  define a where "a = (push_bit 8 (f OR 0x00800000) :: u32)"
  have a: "unat a = m * 2 ^ 8" unfolding a_def by (subst unat_push_bit_less) (use m b in simp_all)
  define a' where "a' = drop_bit (nat (e AND 1)) a"
  have odd: "e AND 1 = 0 \<or> e AND 1 = 1" by (simp add: and_one_eq mod_2_eq_odd)
  then have a': "unat a' = B" unfolding a'_def unat_drop_bit_div a B_def by auto
  have Ba: "(if e AND 1 = 0 then unat a else unat a div 2) = B" unfolding a B_def by simp
  obtain Q where Q: "real Q \<le> sqrt (real (B * 2 ^ 32))" "sqrt (real (B * 2 ^ 32)) < real Q + 1" "Q\<^sup>2 \<le> B * 2 ^ 32" "B * 2 ^ 32 < (Q + 1)\<^sup>2"
    "sqrt (real (B * 2 ^ 32)) = real Q \<longleftrightarrow> B * 2 ^ 32 = Q\<^sup>2" by (rule integer_root)
  have "(2 ^ 31)\<^sup>2 \<le> B * 2 ^ 32" "B * 2 ^ 32 < (2 ^ 32 - 127)\<^sup>2" using b by (simp_all add: B_def)
  then have sq: "(2 ^ 31)\<^sup>2 < (Q + 1)\<^sup>2" "Q\<^sup>2 < (2 ^ 32 - 127)\<^sup>2" using Q(3,4) by linarith+
  have "2 ^ 31 < Q + 1" by (rule power_less_imp_less_base [OF sq(1)]) simp
  moreover have "Q < 2 ^ 32 - 127" by (rule power_less_imp_less_base [OF sq(2)]) simp
  ultimately have Qb: "2 ^ 31 \<le> Q" "Q < 2 ^ 32 - 127" by simp_all
  have "2 ^ 31 \<le> unat a" using b by (simp add: a)
  then obtain w where est: "estimateSqrt32 e a = Inr w" and w: "sqrt (real B * 2 ^ 32) - 1 < real (unat w)" "real (unat w) \<le> sqrt (real B * 2 ^ 32) + 1"
    by (rule estimateSqrt32_root [of a e, unfolded Ba])
  have wQ: "Q \<le> unat w" "unat w \<le> Q + 1"
    using integer_estimate [OF Q(1,2), of "unat w"] w by simp_all
  define z where "z = w + 2"
  have z: "unat z = unat w + 2" unfolding z_def using unat_add_less [of w 2] wQ Qb by simp
  have ge: "\<not> z < 2" using z wQ Qb by (simp add: word_less_nat_alt)
  show ?thesis
  proof (cases "z AND 0x7F \<le> 5")
    case False
    then have "5 < unat z mod 2 ^ 7" using and_mask_unat [of z 7] by (simp add: word_le_nat_alt mask_eq_exp_minus_1)
    then have "cell (6 + 1) (sqrt (real (B * 2 ^ 32))) (unat z)"
      using cell_approx [OF Q(1,2), of "unat z" 5 7] z wQ by simp
    then have "cell 6 (sqrt (real (B * 2 ^ 32)) / 2 ^ 1) (jam 1 (unat z))" by (rule cell_jam) simp
    moreover have "unat (shift32RightJamming z 1) = jam 1 (unat z)" using unat_shift32RightJamming [of z 1] by simp
    moreover have "sqrtFloat32Sig e f st = Inr (roundAndPackFloat32 False ((e - 0x7F) div 2 + 0x7E) (shift32RightJamming z 1) st)"
      unfolding sqrtFloat32Sig_def Let_def a_def [symmetric] est sum.case z_def [symmetric] using False by simp
    ultimately show ?thesis using that [of "shift32RightJamming z 1"] jam_half [of "unat z"] z wQ Qb by simp
  next
    case True
    define r where "r = push_bit 32 (ucast a' :: u64) - ucast z * ucast z"
    have r: "r = word_of_int (int (B * 2 ^ 32) - (int (unat z))\<^sup>2)"
    proof -
      define Z where "Z = unat z"
      have "(of_nat (unat a') :: u64) = ucast a'" "(of_nat (unat z) :: u64) = ucast z" by (simp_all only: of_nat_unat)
      then have "(ucast a' :: u64) = of_nat B" "(ucast z :: u64) = of_nat Z" by (simp_all only: a' Z_def)
      then show ?thesis unfolding r_def Z_def [symmetric] by (simp add: push_bit_eq_mult power2_eq_square)
    qed
    have zk: "unat z = Q + (unat z - Q)" using z wQ by simp
    have "- (2 ^ 62) \<le> int (B * 2 ^ 32) - (int (unat z))\<^sup>2"
    proof -
      have "(unat z)\<^sup>2 \<le> (Q + 3)\<^sup>2" using z wQ by (intro power_mono) simp_all
      also have "\<dots> = Q\<^sup>2 + (6 * Q + 9)" by (simp add: power2_eq_square algebra_simps)
      finally have "(unat z)\<^sup>2 \<le> B * 2 ^ 32 + 2 ^ 62" using Q(3) Qb(2) by simp
      then have "int ((unat z)\<^sup>2) \<le> int (B * 2 ^ 32 + 2 ^ 62)" by (simp only: of_nat_le_iff)
      then show ?thesis by (simp only: of_nat_power of_nat_add of_nat_numeral)
    qed
    then obtain z' r' where loop: "sqrt32_loop z r = Some (z', r')" "unat z' = Q" "r' = 0 \<longleftrightarrow> B * 2 ^ 32 = Q\<^sup>2"
      using sqrt32_loop [OF zk r Q(3,4)] by auto
    let ?z = "z' OR of_bool (r' \<noteq> 0)"
    have zq: "unat ?z = (if sqrt (real (B * 2 ^ 32)) = real Q then Q else Q div 2 * 2 + 1)"
      unfolding unat_or_rest loop(2) Q(5) loop(3) [symmetric] by simp
    have "cell (6 + 1) (sqrt (real (B * 2 ^ 32))) (unat ?z)"
      unfolding zq by (rule cell_coarser [OF cell_floor [OF Q(1,2)]]) simp
    then have "cell 6 (sqrt (real (B * 2 ^ 32)) / 2 ^ 1) (jam 1 (unat ?z))" by (rule cell_jam) simp
    moreover have "unat (shift32RightJamming ?z 1) = jam 1 (unat ?z)" using unat_shift32RightJamming [of ?z 1] by simp
    moreover have "2 ^ 31 \<le> unat ?z" "unat ?z < 2 ^ 32" using Qb unat_u32_less unfolding zq by auto
    moreover have "sqrtFloat32Sig e f st = Inr (roundAndPackFloat32 False ((e - 0x7F) div 2 + 0x7E) (shift32RightJamming ?z 1) st)"
      unfolding sqrtFloat32Sig_def Let_def a_def [symmetric] est sum.case z_def [symmetric] a'_def [symmetric] r_def [symmetric] loop(1)
      using True ge by simp
    ultimately show ?thesis using that [of "shift32RightJamming ?z 1"] jam_half [of "unat ?z"] by simp
  qed
qed

lemma root_scale32:
  fixes e :: int
  assumes B: "B = (if e AND 1 = 0 then m * 2 ^ 8 else m * 2 ^ 7)"
  shows "(sqrt (real (B * 2 ^ 32)) / 2 ^ 1 / 2 ^ 7 * 2 powi ((e - 0x7F) div 2 + 0x7E))\<^sup>2 = real m * 2 powi (e - 1) * 2 ^ 149"
proof -
  have s: "(sqrt (real (B * 2 ^ 32)))\<^sup>2 = real B * 2 ^ 32" by simp
  have p: "((2 :: real) powi k)\<^sup>2 = 2 powi (2 * k)" for k
    unfolding power2_eq_square mult_2 by (rule power_int_add [symmetric]) simp
  consider n where "e = 2 * n" | n where "e = 2 * n + 1" by (metis evenE oddE)
  then show ?thesis
  proof cases
    case 1
    then have k: "2 * ((e - 0x7F) div 2 + 0x7E) = e + 0x7C" by presburger
    have b: "B = m * 2 ^ 8" using 1 B by (simp add: and_one_eq)
    show ?thesis unfolding power_mult_distrib power_divide s p k b by (simp add: power_int_add power_int_diff)
  next
    case 2
    then have k: "2 * ((e - 0x7F) div 2 + 0x7E) = e + 0x7D" by presburger
    have b: "B = m * 2 ^ 7" using 2 B by (simp add: and_one_eq)
    show ?thesis unfolding power_mult_distrib power_divide s p k b by (simp add: power_int_add power_int_diff)
  qed
qed

lemma sqrt_rounds32:
  assumes fin: "f32_finite a" and pos: "0 \<le> f32_value a"
  shows "\<exists>r. float32_sqrt a zero_status = Inr r \<and> rounds32 (sqrt (f32_value a)) (extractFloat32Sign a) (fst r)"
proof -
  let ?A = "fmag 23 (f32_mag a)" and ?s = "extractFloat32Sign a"
  have nf: "extractFloat32Exp a \<noteq> 0xFF" using fin by (simp add: f32_finite_def)
  show ?thesis
  proof (cases "?A = 0")
    case True
    then have z: "extractFloat32Exp a = 0" "extractFloat32Frac a = 0" unfolding finite_zero32 [symmetric] by simp_all
    have m: "f32_mag a = 0" unfolding mag_split32 z by simp
    have u: "unat a = of_bool ?s * 2 ^ 31" using word_sign_mag32 [of a] m by simp
    have "float32_sqrt a zero_status = Inr (a, zero_status)"
    proof (cases ?s)
      case False
      then have "a = 0" using u by (simp add: unat_eq_zero)
      then show ?thesis using nf z False by (simp add: float32_sqrt_def float32_squash_input_denormal_def Let_def)
    qed (use nf z in \<open>simp add: float32_sqrt_def float32_squash_input_denormal_def Let_def\<close>)
    moreover have "f32_value a = 0" using True by (simp add: f32_value_def)
    ultimately show ?thesis using rounds32_pack [of a ?s 0 0 ?s] nearest_even_exact [of 0 "0x7F800000" 23] u by (simp add: fmag_def)
  next
    case False
    then have az: "\<not> (extractFloat32Exp a = 0 \<and> extractFloat32Frac a = 0)" unfolding finite_zero32 .
    have s: "\<not> ?s" using pos False by (auto simp: value_neg32 zero_le_divide_iff)
    obtain e f m where a: "normal32 (extractFloat32Exp a) (extractFloat32Frac a) = (e, f)" "unat (f OR 0x00800000) = m"
      "2 ^ 23 \<le> m" "m < 2 ^ 24" "real ?A = real m * 2 powi (e - 1)" "- 100 < e" "e < 0xFF"
      by (rule normal_operand32 [OF fin az])
    define k where "k = (e - 0x7F) div 2 + 0x7E"
    define B where "B = (if e AND 1 = 0 then m * 2 ^ 8 else m * 2 ^ 7)"
    define y where "y = sqrt (real (B * 2 ^ 32)) / 2 ^ 1"
    obtain z where q: "sqrtFloat32Sig e f zero_status = Inr (roundAndPackFloat32 False k z zero_status)"
      and z: "2 ^ 30 \<le> unat z" "unat z < 2 ^ 31" and c: "cell 6 y (unat z)"
      unfolding k_def y_def B_def by (rule root32 [OF a(2-4), of e zero_status])
    let ?r = "fst (roundAndPackFloat32 False k z zero_status)"
    have r: "float32_sqrt a zero_status = Inr (roundAndPackFloat32 False k z zero_status)"
      using nf az s a(1) q by (auto simp: float32_sqrt_def float32_squash_input_denormal_def Let_def)
    have er: "- 60000 < k" "k < 60000" using a(6,7) by (simp_all add: k_def)
    have "(y / 2 ^ 7 * 2 powi k)\<^sup>2 = real ?A * 2 ^ 149"
      using root_scale32 [OF B_def] unfolding a(5) y_def k_def by simp
    then have "y / 2 ^ 7 * 2 powi k = sqrt (real ?A * 2 ^ 149)"
      by (intro real_sqrt_unique [symmetric]) (simp_all add: y_def)
    then have x: "nearest_even 23 0x7F800000 (sqrt (real ?A * 2 ^ 149)) (round_pack 23 7 0xFD k (unat z))"
      using round_pack_nearest [of 7 23 y "unat z" "0xFD" k] z c unfolding inf32 by simp
    have m: "nearest_even 23 0x7F800000 (sqrt (real ?A * 2 ^ 149)) (f32_mag ?r)" "extractFloat32Sign ?r = False"
      using x sign_mag32 [OF roundAndPack32(1) [OF z er]] roundAndPack32(2) [OF z er] by simp_all
    have v: "sqrt (f32_value a) = (if False then - sqrt (real ?A * 2 ^ 149) else sqrt (real ?A * 2 ^ 149)) / 2 ^ 149"
    proof -
      have "f32_value a = real ?A * 2 ^ 149 / (2 ^ 149)\<^sup>2" using s by (simp add: value_neg32 power2_eq_square)
      then have "sqrt (f32_value a) = sqrt (real ?A * 2 ^ 149) / sqrt ((2 ^ 149)\<^sup>2)" by (simp only: real_sqrt_divide)
      then show ?thesis by (simp only: real_sqrt_abs if_False) simp
    qed
    have "0 < sqrt (real ?A * 2 ^ 149)" using False by simp
    then have "rounds32 (sqrt (f32_value a)) ?s ?r" unfolding v by (rule rounds32_signed [OF _ m])
    then show ?thesis unfolding r by auto
  qed
qed

end
