(* ===== verification/Softfloat_Double.thy ===== *)
theory Softfloat_Double
  imports Softfloat_Root
begin

text \<open>
  The double precision routines are correctly rounded: what they return for finite operands is the
  value nearest to the exact result, ties to the even pattern, and an infinity where the exact
  result is beyond the largest finite value by half a unit or more.
\<close>

section \<open>Patterns and values\<close>

definition f64_mag :: "u64 \<Rightarrow> nat" where
  "f64_mag a = unat (a AND 0x7FFFFFFFFFFFFFFF)"

definition f64_value :: "u64 \<Rightarrow> real" where
  "f64_value a = (if extractFloat64Sign a then - 1 else 1) * real (fmag 52 (f64_mag a)) / 2 ^ 1074"

definition f64_finite :: "u64 \<Rightarrow> bool" where
  "f64_finite a \<longleftrightarrow> extractFloat64Exp a \<noteq> 0x7FF"

text \<open>The pattern \<open>r\<close> is the rounded \<open>x\<close>; a zero has the sign \<open>neg\<close>.\<close>

definition rounds64 :: "real \<Rightarrow> bool \<Rightarrow> u64 \<Rightarrow> bool" where
  "rounds64 x neg r \<longleftrightarrow> nearest_even 52 0x7FF0000000000000 (\<bar>x\<bar> * 2 ^ 1074) (f64_mag r) \<and>
     (extractFloat64Sign r \<longleftrightarrow> (if x = 0 then neg else x < 0))"

lemma f64_mag_mod: "f64_mag a = unat a mod 2 ^ 63"
proof -
  have "a AND 0x7FFFFFFFFFFFFFFF = take_bit 63 a" by (simp add: take_bit_eq_mask mask_eq_exp_minus_1)
  then show ?thesis unfolding f64_mag_def by (simp only: unsigned_take_bit_eq take_bit_eq_mod [where 'a = nat])
qed

lemma frac64: "unat (extractFloat64Frac a) = unat a mod 2 ^ 52"
proof -
  have "a AND 0x000FFFFFFFFFFFFF = take_bit 52 a" by (simp add: take_bit_eq_mask mask_eq_exp_minus_1)
  then show ?thesis unfolding extractFloat64Frac_def
    by (simp only: unsigned_take_bit_eq take_bit_eq_mod [where 'a = nat])
qed

lemma exp64: "extractFloat64Exp a = int (unat a div 2 ^ 52 mod 2 ^ 11)"
proof -
  have "drop_bit 52 a AND 0x7FF = take_bit 11 (drop_bit 52 a)" by (simp add: take_bit_eq_mask mask_eq_exp_minus_1)
  then have "unat (drop_bit 52 a AND 0x7FF) = unat a div 2 ^ 52 mod 2 ^ 11"
    by (simp only: unsigned_take_bit_eq take_bit_eq_mod [where 'a = nat] unat_drop_bit_div)
  then show ?thesis unfolding extractFloat64Exp_def uint_nat by simp
qed

lemma sign64: "extractFloat64Sign a \<longleftrightarrow> 2 ^ 63 \<le> unat a"
proof -
  have "extractFloat64Sign a \<longleftrightarrow> unat (drop_bit 63 a) \<noteq> 0" by (simp add: extractFloat64Sign_def unat_0_iff)
  then show ?thesis unfolding unat_drop_bit_div by (simp add: div_eq_0_iff not_less)
qed

lemma mag_split64: "f64_mag a = nat (extractFloat64Exp a) * 2 ^ 52 + unat (extractFloat64Frac a)"
proof -
  have "unat a mod (2 ^ 52 * 2 ^ 11) = 2 ^ 52 * (unat a div 2 ^ 52 mod 2 ^ 11) + unat a mod 2 ^ 52"
    by (rule mod_mult2_eq)
  then show ?thesis unfolding f64_mag_mod frac64 exp64 by simp
qed

lemma sign_mag64:
  assumes "unat r = of_bool s * 2 ^ 63 + n" and "n < 2 ^ 63"
  shows "f64_mag r = n" and "extractFloat64Sign r = s"
  using assms by (cases s; simp add: f64_mag_mod sign64)+

lemma word_sign_mag64: "unat a = of_bool (extractFloat64Sign a) * 2 ^ 63 + f64_mag a"
proof -
  have "unat a < 2 ^ 64" by (rule unat_u64_less)
  then show ?thesis unfolding f64_mag_mod sign64 by (cases "2 ^ 63 \<le> unat a") (simp_all add: le_mod_geq)
qed

text \<open>The significand with its hidden bit, and the exponent that belongs to it.\<close>

definition sig64 :: "u64 \<Rightarrow> nat" where
  "sig64 a = (if extractFloat64Exp a = 0 then 0 else 2 ^ 52) + unat (extractFloat64Frac a)"

lemma sig_bounds64:
  "sig64 a < 2 ^ Suc 52" "extractFloat64Exp a \<noteq> 0 \<Longrightarrow> 2 ^ 52 \<le> sig64 a" "unat (extractFloat64Frac a) < 2 ^ 52"
  "extractFloat64Exp a \<ge> 0" "extractFloat64Exp a \<le> 0x7FF"
proof -
  have f: "unat (extractFloat64Frac a) < 2 ^ 52" unfolding frac64 by simp
  then show "sig64 a < 2 ^ Suc 52" "unat (extractFloat64Frac a) < 2 ^ 52" by (simp_all add: sig64_def)
  show "extractFloat64Exp a \<noteq> 0 \<Longrightarrow> 2 ^ 52 \<le> sig64 a" by (simp add: sig64_def)
  show "extractFloat64Exp a \<ge> 0" "extractFloat64Exp a \<le> 0x7FF" unfolding exp64 by simp_all
qed

lemma fmag_sig64: "fmag 52 (f64_mag a) = sig64 a * 2 ^ nat (max (extractFloat64Exp a) 1 - 1)"
proof (cases "extractFloat64Exp a = 0")
  case True
  then show ?thesis using sig_bounds64(3) [of a] by (simp add: mag_split64 sig64_def fmag_def)
next
  case False
  define k where "k = nat (extractFloat64Exp a - 1)"
  have e: "extractFloat64Exp a = int (Suc k)" using False sig_bounds64(4) [of a] by (simp add: k_def)
  have m: "f64_mag a = k * 2 ^ 52 + sig64 a" unfolding mag_split64 sig64_def e by simp
  have "fmag 52 (k * 2 ^ 52 + sig64 a) = sig64 a * 2 ^ k"
    by (rule fmag_scaled) (use sig_bounds64(1,2) [of a] False in simp_all)
  then show ?thesis by (simp add: m e)
qed

section \<open>Rounding and packing\<close>

lemma unat_packFloat64:
  assumes "k * 2 ^ 52 + unat z < 2 ^ 63"
  shows "unat (packFloat64 s (int k) z) = of_bool s * 2 ^ 63 + (k * 2 ^ 52 + unat z)"
proof -
  have "packFloat64 s (int k) z = of_nat (of_bool s * 2 ^ 63 + (k * 2 ^ 52 + unat z))"
    by (cases s) (simp_all add: packFloat64_def push_bit_eq_mult)
  moreover have "of_bool s * 2 ^ 63 + (k * 2 ^ 52 + unat z) < 2 ^ 64" using assms by (cases s) simp_all
  ultimately show ?thesis by (intro unat_eq_of_nat) simp_all
qed

lemma unat_round64:
  assumes "unat z < 2 ^ 63"
  shows "unat (drop_bit 10 (z + 0x200) AND NOT (of_bool ((z AND 0x3FF) XOR 0x200 = (0 :: u64)))) = half_even 10 (unat z)"
  using unat_half_even [of 10 z] assms by (simp add: mask_eq_exp_minus_1)

lemma half_even_top64:
  assumes "2 ^ 63 - 2 ^ 9 \<le> z" and "z < 2 ^ 63"
  shows "half_even 10 z = 2 ^ 53"
proof -
  let ?s = "half_even 10 z"
  have le: "?s \<le> 2 ^ 53" by (rule half_even_le) (use assms in simp_all)
  have b: "z \<le> (2 * ?s + 1) * 2 ^ 9" "z = (2 * ?s + 1) * 2 ^ 9 \<Longrightarrow> even ?s"
    using half_even_bounds(2,4) [of 10 ?s z] by simp_all
  show ?thesis
  proof (cases "?s = 2 ^ 53 - 1")
    case True
    then have "z = (2 * ?s + 1) * 2 ^ 9" using b(1) assms by simp
    with b(2) True show ?thesis by simp
  qed (use b(1) le assms in simp)
qed

lemma roundAndPack64:
  assumes z: "2 ^ 62 \<le> unat z" "unat z < 2 ^ 63" and e: "- 60000 < e" "e < 60000"
  shows "unat (fst (roundAndPackFloat64 s e z zero_status)) = of_bool s * 2 ^ 63 + round_pack 52 10 0x7FD e (unat z)"
    and "round_pack 52 10 0x7FD e (unat z) \<le> 0x7FF0000000000000"
proof -
  have le: "half_even 10 m \<le> 2 ^ 53" if "m < 2 ^ 63" for m by (rule half_even_le) (use that in simp_all)
  consider "0x7FD < e" | "0 \<le> e" "e \<le> 0x7FD" | "e < 0" by linarith
  then have "unat (fst (roundAndPackFloat64 s e z zero_status)) = of_bool s * 2 ^ 63 + round_pack 52 10 0x7FD e (unat z) \<and>
      round_pack 52 10 0x7FD e (unat z) \<le> 0x7FF0000000000000"
  proof cases
    case 1
    then have "fst (roundAndPackFloat64 s e z zero_status) = packFloat64 s (int 0x7FF) 0"
      using e by (simp add: roundAndPackFloat64_def round_increment_def)
    then show ?thesis using 1 unat_packFloat64 [of "0x7FF" 0 s] by (simp add: round_pack_def)
  next
    case 2
    define k where "k = nat e"
    have k: "e = int k" "k \<le> 0x7FD" using 2 by (simp_all add: k_def)
    have rp: "round_pack 52 10 0x7FD e (unat z) = k * 2 ^ 52 + half_even 10 (unat z)" using k by (simp add: round_pack_def)
    have neg: "sint (z + 0x200) < 0 \<longleftrightarrow> 2 ^ 63 \<le> unat z + 0x200"
      using z(2) unat_add_less [of z "0x200"] by (simp add: sint_neg64)
    show ?thesis
    proof (cases "k = 0x7FD \<and> 2 ^ 63 \<le> unat z + 0x200")
      case True
      then have "fst (roundAndPackFloat64 s e z zero_status) = packFloat64 s (int 0x7FF) 0"
        using k neg by (simp add: roundAndPackFloat64_def round_increment_def)
      moreover have "half_even 10 (unat z) = 2 ^ 53" by (rule half_even_top64) (use True z(2) in simp_all)
      ultimately show ?thesis using True unat_packFloat64 [of "0x7FF" 0 s] by (simp add: rp)
    next
      case False
      let ?r = "drop_bit 10 (z + 0x200) AND NOT (of_bool ((z AND 0x3FF) XOR 0x200 = (0 :: u64)))"
      have r: "unat ?r = half_even 10 (unat z)" by (rule unat_round64 [OF z(2)])
      have ge: "2 ^ 52 \<le> half_even 10 (unat z)" by (rule half_even_ge) (use z in simp_all)
      have nz: "?r \<noteq> 0"
      proof
        assume "?r = 0"
        then have "half_even 10 (unat z) = 0" unfolding r [symmetric] by (simp only: unsigned_0)
        with ge show False by simp
      qed
      have "fst (roundAndPackFloat64 s e z zero_status) = packFloat64 s (int k) ?r"
        using False k neg nz by (auto simp: roundAndPackFloat64_def round_increment_def Let_def)
      moreover have "k * 2 ^ 52 + half_even 10 (unat z) \<le> 0x7FF0000000000000"
        using add_mono [OF mult_le_mono1 [OF k(2), of "2 ^ 52"] le [OF z(2)]] by simp
      ultimately show ?thesis using unat_packFloat64 [of k ?r s] unfolding rp r by simp
    qed
  next
    case 3
    define c where "c = nat (- e)"
    have c: "e = - int c" "c > 0" using 3 by (simp_all add: c_def)
    let ?z = "shift64RightJamming z (int c)"
    let ?r = "drop_bit 10 (?z + 0x200) AND NOT (of_bool ((?z AND 0x3FF) XOR 0x200 = (0 :: u64)))"
    have z': "unat ?z = jam c (unat z)" "jam c (unat z) < 2 ^ 63"
      using z(2) jam_less [of "unat z" 62 c] by (simp_all add: unat_shift64RightJamming)
    have r: "unat ?r = half_even 10 (jam c (unat z))" using unat_round64 [of ?z] z' by simp
    have edge: "0x7FD \<le> e mod 0x10000"
    proof -
      have "e mod 0x10000 = (e + 0x10000) mod 0x10000" by simp
      also have "\<dots> = e + 0x10000" using e(1) 3 by (subst mod_pos_pos_trivial) simp_all
      finally show ?thesis using e(1) by simp
    qed
    then have "fst (roundAndPackFloat64 s e z zero_status) = packFloat64 s (int 0) ?r"
      using 3 c by (simp add: roundAndPackFloat64_def round_increment_def Let_def)
    moreover have "half_even 10 (jam c (unat z)) \<le> 2 ^ 53" by (rule le [OF z'(2)])
    moreover have "round_pack 52 10 0x7FD e (unat z) = half_even 10 (jam c (unat z))"
      using 3 by (simp add: round_pack_def c_def)
    ultimately show ?thesis using unat_packFloat64 [of 0 ?r s] unfolding r by simp
  qed
  then show "unat (fst (roundAndPackFloat64 s e z zero_status)) = of_bool s * 2 ^ 63 + round_pack 52 10 0x7FD e (unat z)"
    and "round_pack 52 10 0x7FD e (unat z) \<le> 0x7FF0000000000000" by simp_all
qed

lemma rounds64_pack:
  assumes "unat r = of_bool s * 2 ^ 63 + n" and "n \<le> 0x7FF0000000000000" and "nearest_even 52 0x7FF0000000000000 (\<bar>x\<bar> * 2 ^ 1074) n"
    and "s \<longleftrightarrow> (if x = 0 then neg else x < 0)"
  shows "rounds64 x neg r"
  using sign_mag64 [OF assms(1)] assms(2-4) by (simp add: rounds64_def)

lemma inf64: "(0x7FD + 2) * 2 ^ 52 = (0x7FF0000000000000 :: nat)"
  by simp

section \<open>Addition and subtraction\<close>

lemma hidden_add64:
  "unat (push_bit 9 (extractFloat64Frac a)) = unat (extractFloat64Frac a) * 2 ^ 9"
  "unat (push_bit 10 (extractFloat64Frac a)) = unat (extractFloat64Frac a) * 2 ^ 10"
  "unat (push_bit 9 (extractFloat64Frac a) OR 0x2000000000000000) = (2 ^ 52 + unat (extractFloat64Frac a)) * 2 ^ 9"
  "unat (push_bit 10 (extractFloat64Frac a) OR 0x4000000000000000) = (2 ^ 52 + unat (extractFloat64Frac a)) * 2 ^ 10"
proof -
  have f: "unat (extractFloat64Frac a) < 2 ^ 52" by (rule sig_bounds64)
  show s: "unat (push_bit 9 (extractFloat64Frac a)) = unat (extractFloat64Frac a) * 2 ^ 9"
    and g: "unat (push_bit 10 (extractFloat64Frac a)) = unat (extractFloat64Frac a) * 2 ^ 10"
    by (rule unat_push_bit_less, use f in simp)+
  show "unat (push_bit 9 (extractFloat64Frac a) OR 0x2000000000000000) = (2 ^ 52 + unat (extractFloat64Frac a)) * 2 ^ 9"
    using unat_or_power [of "push_bit 9 (extractFloat64Frac a)" 61] f unfolding s by simp
  show "unat (push_bit 10 (extractFloat64Frac a) OR 0x4000000000000000) = (2 ^ 52 + unat (extractFloat64Frac a)) * 2 ^ 10"
    using unat_or_power [of "push_bit 10 (extractFloat64Frac a)" 62] f unfolding g by simp
qed

lemma addFloat64_finish_pack:
  assumes x: "unat x < 2 ^ 61" and T: "T = 2 ^ 61 + unat x + unat y" "T < 2 ^ 63" and e: "- 50000 < e" "e < 50000"
  shows "unat (fst (addFloat64_finish s e x y zero_status)) = of_bool s * 2 ^ 63 +
           (if 2 ^ 62 \<le> T then round_pack 52 10 0x7FD e T else round_pack 52 10 0x7FD (e - 1) (2 * T))" (is ?pack)
    and "(if 2 ^ 62 \<le> T then round_pack 52 10 0x7FD e T else round_pack 52 10 0x7FD (e - 1) (2 * T)) \<le> 0x7FF0000000000000" (is ?le)
proof -
  have a: "unat (x OR 0x2000000000000000) = 2 ^ 61 + unat x" using unat_or_power [of x 61] x by simp
  then have z: "unat ((x OR 0x2000000000000000) + y) = T" using T by (subst unat_add_less) simp_all
  then have z2: "unat (push_bit 1 ((x OR 0x2000000000000000) + y)) = 2 * T" using T(2) by (subst unat_push_bit_less) simp_all
  have neg: "sint (push_bit 1 ((x OR 0x2000000000000000) + y)) < 0 \<longleftrightarrow> 2 ^ 62 \<le> T" unfolding sint_neg64 z2 by simp
  have lo: "2 ^ 61 \<le> T" using T(1) by simp
  have "?pack \<and> ?le"
  proof (cases "2 ^ 62 \<le> T")
    case True
    then have "addFloat64_finish s e x y zero_status = roundAndPackFloat64 s e ((x OR 0x2000000000000000) + y) zero_status"
      using neg by (simp only: addFloat64_finish_def Let_def if_True) simp
    then show ?thesis using roundAndPack64(1) [of "(x OR 0x2000000000000000) + y" e s] roundAndPack64(2) [of "(x OR 0x2000000000000000) + y" e] True z T(2) e by simp
  next
    case False
    then have "addFloat64_finish s e x y zero_status = roundAndPackFloat64 s (e - 1) (push_bit 1 ((x OR 0x2000000000000000) + y)) zero_status"
      using neg by (simp only: addFloat64_finish_def Let_def if_False)
    then show ?thesis using roundAndPack64(1) [of "push_bit 1 ((x OR 0x2000000000000000) + y)" "e - 1" s] roundAndPack64(2) [of "push_bit 1 ((x OR 0x2000000000000000) + y)" "e - 1"] False z2 lo e by simp
  qed
  then show ?pack ?le by simp_all
qed

text \<open>The operand with the larger exponent, and the other one shifted by the distance.\<close>

lemma aligned64:
  assumes "extractFloat64Exp b < extractFloat64Exp a"
  defines "d \<equiv> nat (extractFloat64Exp a - max (extractFloat64Exp b) 1)"
  shows "real (fmag 52 (f64_mag a)) = real (sig64 a) * 2 powi (extractFloat64Exp a - 1)"
    and "real (fmag 52 (f64_mag b)) = real (sig64 b) / 2 ^ d * 2 powi (extractFloat64Exp a - 1)"
    and "sig64 a = 2 ^ 52 + unat (extractFloat64Frac a)"
proof -
  let ?ea = "extractFloat64Exp a" and ?eb = "extractFloat64Exp b"
  have e: "?ea \<ge> 1" "?eb \<ge> 0" using assms(1) sig_bounds64(4) [of b] by linarith+
  then show "sig64 a = 2 ^ 52 + unat (extractFloat64Frac a)" by (simp add: sig64_def)
  have a: "nat (max ?ea 1 - 1) = nat (?ea - 1)" using e(1) by (simp add: max_def)
  have pa: "2 powi (?ea - 1) = (2 :: real) ^ nat (?ea - 1)" using e(1) by (simp add: power_int_def)
  then show "real (fmag 52 (f64_mag a)) = real (sig64 a) * 2 powi (?ea - 1)" by (simp add: fmag_sig64 a)
  have "nat (?ea - 1) = d + nat (max ?eb 1 - 1)" using assms(1) e unfolding d_def by linarith
  then show "real (fmag 52 (f64_mag b)) = real (sig64 b) / 2 ^ d * 2 powi (?ea - 1)"
    unfolding pa by (simp add: fmag_sig64 power_add)
qed

lemma mag_less64:
  assumes "extractFloat64Exp b < extractFloat64Exp a"
  shows "f64_mag b < f64_mag a"
proof -
  have "Suc (nat (extractFloat64Exp b)) \<le> nat (extractFloat64Exp a)" using assms sig_bounds64(4) [of b] by linarith
  then have "Suc (nat (extractFloat64Exp b)) * 2 ^ 52 \<le> nat (extractFloat64Exp a) * 2 ^ 52" by (rule mult_le_mono1)
  then show ?thesis using sig_bounds64(3) [of b] unfolding mag_split64 by simp
qed

lemma shifted64:
  assumes "extractFloat64Exp b < extractFloat64Exp a"
  defines "d \<equiv> nat (extractFloat64Exp a - max (extractFloat64Exp b) 1)"
  shows "unat (shift64RightJamming
            (if extractFloat64Exp b = 0 then push_bit 9 (extractFloat64Frac b) else push_bit 9 (extractFloat64Frac b) OR 0x2000000000000000)
            (if extractFloat64Exp b = 0 then extractFloat64Exp a - extractFloat64Exp b - 1 else extractFloat64Exp a - extractFloat64Exp b))
          = jam d (sig64 b * 2 ^ 9)"
    and "unat (shift64RightJamming
            (if extractFloat64Exp b = 0 then push_bit 10 (extractFloat64Frac b) else push_bit 10 (extractFloat64Frac b) OR 0x4000000000000000)
            (if extractFloat64Exp b = 0 then extractFloat64Exp a - extractFloat64Exp b - 1 else extractFloat64Exp a - extractFloat64Exp b))
          = jam d (sig64 b * 2 ^ 10)"
proof -
  have "(if extractFloat64Exp b = 0 then extractFloat64Exp a - extractFloat64Exp b - 1 else extractFloat64Exp a - extractFloat64Exp b) = int d"
    using assms(1) sig_bounds64(4) [of b] by (auto simp: d_def)
  then show "unat (shift64RightJamming
            (if extractFloat64Exp b = 0 then push_bit 9 (extractFloat64Frac b) else push_bit 9 (extractFloat64Frac b) OR 0x2000000000000000)
            (if extractFloat64Exp b = 0 then extractFloat64Exp a - extractFloat64Exp b - 1 else extractFloat64Exp a - extractFloat64Exp b))
          = jam d (sig64 b * 2 ^ 9)"
    and "unat (shift64RightJamming
            (if extractFloat64Exp b = 0 then push_bit 10 (extractFloat64Frac b) else push_bit 10 (extractFloat64Frac b) OR 0x4000000000000000)
            (if extractFloat64Exp b = 0 then extractFloat64Exp a - extractFloat64Exp b - 1 else extractFloat64Exp a - extractFloat64Exp b))
          = jam d (sig64 b * 2 ^ 10)"
    by (simp_all only: unat_shift64RightJamming) (simp_all add: hidden_add64 sig64_def)
qed

text \<open>A shifted operand is less than the half of the leading bit.\<close>

lemma shifted_less64:
  assumes "extractFloat64Exp b < extractFloat64Exp a"
  defines "d \<equiv> nat (extractFloat64Exp a - max (extractFloat64Exp b) 1)"
  shows "jam d (sig64 b * 2 ^ 9) < 2 ^ 61" and "jam d (sig64 b * 2 ^ 10) < 2 ^ 62"
proof -
  have "sig64 b < 2 ^ 52 * 2 ^ d"
  proof (cases "extractFloat64Exp b = 0")
    case True
    then have "sig64 b < 2 ^ 52 * 1" using sig_bounds64(3) [of b] by (simp add: sig64_def)
    also have "\<dots> \<le> 2 ^ 52 * 2 ^ d" by (intro mult_le_mono2) simp
    finally show ?thesis .
  next
    case False
    then have "d \<ge> 1" using assms(1) sig_bounds64(4) [of b] by (auto simp: d_def)
    then have "(2 :: nat) ^ 1 \<le> 2 ^ d" by (intro power_increasing) simp_all
    then have "2 ^ 52 * 2 \<le> (2 :: nat) ^ 52 * 2 ^ d" by simp
    then show ?thesis using sig_bounds64(1) [of b] by simp
  qed
  then show "jam d (sig64 b * 2 ^ 9) < 2 ^ 61" "jam d (sig64 b * 2 ^ 10) < 2 ^ 62"
    by (simp_all add: jam_pos(1) [of "2 ^ 61", simplified] jam_pos(1) [of "2 ^ 62", simplified])
qed

lemma sum_value64:
  fixes s :: bool
  assumes lt: "extractFloat64Exp b < extractFloat64Exp a" and x: "unat x < 2 ^ 61"
    and T: "2 ^ 61 + unat x + unat y =
      sig64 a * 2 ^ 9 + jam (nat (extractFloat64Exp a - max (extractFloat64Exp b) 1)) (sig64 b * 2 ^ 9)"
  defines "r \<equiv> fst (addFloat64_finish s (extractFloat64Exp a) x y zero_status)"
  shows "nearest_even 52 0x7FF0000000000000 (real (fmag 52 (f64_mag a)) + real (fmag 52 (f64_mag b))) (f64_mag r) \<and>
         extractFloat64Sign r = s"
proof -
  let ?d = "nat (extractFloat64Exp a - max (extractFloat64Exp b) 1)" and ?e = "extractFloat64Exp a"
  define t where "t = sig64 a * 2 ^ 9 + jam ?d (sig64 b * 2 ^ 9)"
  define n where "n = (if 2 ^ 62 \<le> t then round_pack 52 10 0x7FD ?e t else round_pack 52 10 0x7FD (?e - 1) (2 * t))"
  have sa: "2 ^ 52 \<le> sig64 a" "sig64 a < 2 ^ Suc 52" "sig64 b < 2 ^ Suc 52"
    using lt sig_bounds64(1,2) [of a] sig_bounds64(1,4) [of b] by linarith+
  note near = sum_nearest [OF _ _ sa, of 9 t ?d, OF _ _ t_def]
  have t: "t < 2 ^ 63" "2 ^ 61 \<le> t" using near(2,3) by simp_all
  have e: "- 50000 < ?e" "?e < 50000" using sig_bounds64(4,5) [of a] by linarith+
  have T': "t = 2 ^ 61 + unat x + unat y" using T by (simp only: t_def)
  have r: "unat r = of_bool s * 2 ^ 63 + n" "n \<le> 0x7FF0000000000000"
    unfolding r_def n_def by (rule addFloat64_finish_pack [OF x T' t(1) e])+
  have "nearest_even 52 0x7FF0000000000000 ((real (sig64 a) + real (sig64 b) / 2 ^ ?d) * 2 powi (?e - 1)) n"
    using near(1) [where E = "0x7FD" and ea = ?e] unfolding n_def inf64 by (cases "2 ^ 62 \<le> t") simp_all
  then show ?thesis
    using sign_mag64 [OF r(1)] r(2) aligned64(1,2) [OF lt] by (simp add: distrib_right)
qed

lemma addSigs64:
  fixes s :: bool
  assumes fin: "f64_finite a" "f64_finite b"
  defines "r \<equiv> fst (addFloat64Sigs a b s zero_status)"
  shows "nearest_even 52 0x7FF0000000000000 (real (fmag 52 (f64_mag a)) + real (fmag 52 (f64_mag b))) (f64_mag r) \<and>
         extractFloat64Sign r = s"
proof -
  let ?ea = "extractFloat64Exp a" and ?eb = "extractFloat64Exp b"
  let ?fa = "extractFloat64Frac a" and ?fb = "extractFloat64Frac b"
  have nf: "?ea \<noteq> 0x7FF" "?eb \<noteq> 0x7FF" using fin by (simp_all add: f64_finite_def)
  have fa: "unat ?fa < 2 ^ 52" and fb: "unat ?fb < 2 ^ 52" by (rule sig_bounds64)+
  consider "?eb < ?ea" | "?ea < ?eb" | "?ea = ?eb" "?ea = 0" | "?ea = ?eb" "?ea \<noteq> 0" by linarith
  then show ?thesis
  proof cases
    case 1
    let ?y = "shift64RightJamming (if ?eb = 0 then push_bit 9 ?fb else push_bit 9 ?fb OR 0x2000000000000000) (if ?eb = 0 then ?ea - ?eb - 1 else ?ea - ?eb)"
    have "r = fst (addFloat64_finish s ?ea (push_bit 9 ?fa) ?y zero_status)"
      unfolding r_def addFloat64Sigs_def using 1 nf by (simp add: Let_def)
    moreover have "2 ^ 61 + unat (push_bit 9 ?fa) + unat ?y = sig64 a * 2 ^ 9 + jam (nat (?ea - max ?eb 1)) (sig64 b * 2 ^ 9)"
      unfolding shifted64(1) [OF 1] hidden_add64 aligned64(3) [OF 1] by simp
    moreover have "unat (push_bit 9 ?fa) < 2 ^ 61" unfolding hidden_add64 using fa by simp
    ultimately show ?thesis using sum_value64 [OF 1, of "push_bit 9 ?fa" ?y s] by simp
  next
    case 2
    let ?x = "shift64RightJamming (if ?ea = 0 then push_bit 9 ?fa else push_bit 9 ?fa OR 0x2000000000000000) (if ?ea = 0 then ?eb - ?ea - 1 else ?eb - ?ea)"
    have "- (if ?ea = 0 then ?ea - ?eb + 1 else ?ea - ?eb) = (if ?ea = 0 then ?eb - ?ea - 1 else ?eb - ?ea)" by simp
    then have "r = fst (addFloat64_finish s ?eb ?x (push_bit 9 ?fb) zero_status)"
      unfolding r_def addFloat64Sigs_def using 2 nf by (simp only: Let_def) simp
    moreover have "2 ^ 61 + unat ?x + unat (push_bit 9 ?fb) = sig64 b * 2 ^ 9 + jam (nat (?eb - max ?ea 1)) (sig64 a * 2 ^ 9)"
      unfolding shifted64(1) [OF 2] hidden_add64 aligned64(3) [OF 2] by simp
    moreover have "unat ?x < 2 ^ 61" unfolding shifted64(1) [OF 2] by (rule shifted_less64 [OF 2])
    ultimately show ?thesis using sum_value64 [OF 2, of ?x "push_bit 9 ?fb" s] by (simp add: add.commute)
  next
    case 3
    let ?n = "unat ?fa + unat ?fb"
    have "unat (push_bit 9 ?fa + push_bit 9 ?fb) = ?n * 2 ^ 9"
      using fa fb by (subst unat_add_less) (simp_all add: hidden_add64)
    then have d: "unat (drop_bit 9 (push_bit 9 ?fa + push_bit 9 ?fb)) = ?n" by (simp add: unat_drop_bit_div)
    have "r = packFloat64 s (int 0) (drop_bit 9 (push_bit 9 ?fa + push_bit 9 ?fb))"
      unfolding r_def addFloat64Sigs_def using 3 by (simp add: Let_def)
    then have r: "unat r = of_bool s * 2 ^ 63 + ?n" using unat_packFloat64 [of 0 _ s] d fa fb by simp
    have "fmag 52 ?n = ?n" "fmag 52 (unat ?fa) = unat ?fa" "fmag 52 (unat ?fb) = unat ?fb"
      by (rule fmag_low, use fa fb in simp)+
    then have "nearest_even 52 0x7FF0000000000000 (real (fmag 52 (f64_mag a)) + real (fmag 52 (f64_mag b))) ?n"
      using nearest_even_exact [of ?n "0x7FF0000000000000" 52] 3 fa fb by (simp add: mag_split64)
    then show ?thesis using sign_mag64 [OF r] fa fb by simp
  next
    case 4
    let ?z = "0x4000000000000000 + push_bit 9 ?fa + push_bit 9 ?fb"
    have z: "unat ?z = (sig64 a + sig64 b) * 2 ^ 9"
    proof -
      have "unat (0x4000000000000000 + push_bit 9 ?fa) = 0x4000000000000000 + unat ?fa * 2 ^ 9"
        using fa by (subst unat_add_less) (simp_all add: hidden_add64)
      then have "unat ?z = 0x4000000000000000 + unat ?fa * 2 ^ 9 + unat ?fb * 2 ^ 9"
        using fa fb by (subst unat_add_less) (simp_all add: hidden_add64)
      then show ?thesis using 4 by (simp add: sig64_def)
    qed
    have sb: "2 ^ 52 \<le> sig64 a" "sig64 a < 2 ^ Suc 52" "2 ^ 52 \<le> sig64 b" "sig64 b < 2 ^ Suc 52"
      using sig_bounds64(1,2) [of a] sig_bounds64(1,2) [of b] 4 by simp_all
    have zb: "2 ^ 62 \<le> unat ?z" "unat ?z < 2 ^ 63" unfolding z using sb by simp_all
    have e: "- 60000 < ?ea" "?ea < 60000" using sig_bounds64(4,5) [of a] by linarith+
    have "r = fst (roundAndPackFloat64 s ?ea ?z zero_status)"
      unfolding r_def addFloat64Sigs_def using 4 nf by (simp add: Let_def)
    then have r: "unat r = of_bool s * 2 ^ 63 + round_pack 52 10 0x7FD ?ea (unat ?z)"
      using roundAndPack64(1) [OF zb e] by simp
    have eq: "real (unat ?z) / 2 ^ 10 * 2 powi ?ea = real (fmag 52 (f64_mag a)) + real (fmag 52 (f64_mag b))"
    proof -
      have "nat (max ?ea 1 - 1) = nat (?ea - 1)" "2 powi ?ea = 2 * (2 :: real) ^ nat (?ea - 1)"
        using 4 sig_bounds64(4) [of a] by (simp_all add: max_def power_int_def nat_diff_distrib flip: power_Suc)
      then show ?thesis unfolding z fmag_sig64 4(1) [symmetric] by (simp add: algebra_simps)
    qed
    have "nearest_even 52 0x7FF0000000000000 (real (fmag 52 (f64_mag a)) + real (fmag 52 (f64_mag b))) (round_pack 52 10 0x7FD ?ea (unat ?z))"
      using round_pack_nearest [OF _ _ cell_exact, of 10 52 "unat ?z" "0x7FD" ?ea] zb unfolding inf64 eq by simp
    then show ?thesis using sign_mag64 [OF r] roundAndPack64(2) [OF zb e] by simp
  qed
qed

lemma normalizeRoundAndPack64:
  assumes z: "0 < unat z" "unat z < 2 ^ 63" and e: "- 50000 < e" "e < 50000"
  obtains k where "2 ^ 62 \<le> unat z * 2 ^ k" and "unat z * 2 ^ k < 2 ^ 63"
    and "unat (fst (normalizeRoundAndPackFloat64 s e z zero_status)) =
           of_bool s * 2 ^ 63 + round_pack 52 10 0x7FD (e - int k) (unat z * 2 ^ k)"
    and "round_pack 52 10 0x7FD (e - int k) (unat z * 2 ^ k) \<le> 0x7FF0000000000000"
proof -
  let ?c = "builtin_clz_word z"
  have nz: "z \<noteq> 0" using z(1) by auto
  note lz = leading_zeros_bounds [OF nz, simplified]
  have c: "?c \<noteq> 0"
  proof
    assume "?c = 0"
    then have "2 ^ 63 \<le> unat z" using lz(2) by simp
    with z(2) show False by simp
  qed
  define k where "k = ?c - 1"
  have k: "?c = Suc k" "k < 63" using c lz(1) by (simp_all add: k_def)
  have "2 ^ (62 - k) * 2 ^ k \<le> unat z * 2 ^ k" "unat z * 2 ^ k < 2 ^ (63 - k) * 2 ^ k"
    using lz(2,3) unfolding k(1) by simp_all
  moreover have "2 ^ (62 - k) * 2 ^ k = (2 :: nat) ^ 62" "2 ^ (63 - k) * 2 ^ k = (2 :: nat) ^ 63"
    using k(2) by (simp_all flip: power_add)
  ultimately have b: "2 ^ 62 \<le> unat z * 2 ^ k" "unat z * 2 ^ k < 2 ^ 63" by simp_all
  have p: "unat (push_bit k z) = unat z * 2 ^ k" by (rule unat_push_bit_less) (use b(2) in simp)
  have "normalizeRoundAndPackFloat64 s e z zero_status = roundAndPackFloat64 s (e - int k) (push_bit k z) zero_status"
    using nz by (simp add: normalizeRoundAndPackFloat64_def countLeadingZeros64_def k(1))
  then show ?thesis
    using that [OF b] roundAndPack64 [of "push_bit k z" "e - int k", unfolded p] b e k(2) by simp
qed

lemma difference_value64:
  assumes z: "unat z = ma * 2 ^ 10 - jam d (mb * 2 ^ 10)" and lt: "jam d (mb * 2 ^ 10) < ma * 2 ^ 10"
    and m: "ma < 2 ^ 53" "mb < 2 ^ 53" and d: "d = 0 \<or> 2 ^ 52 \<le> ma" and e: "- 40000 < e" "e < 40000"
  shows "nearest_even 52 0x7FF0000000000000 ((real ma - real mb / 2 ^ d) * 2 powi (e - 1))
           (f64_mag (fst (normalizeRoundAndPackFloat64 s (e - 1) z zero_status))) \<and>
         extractFloat64Sign (fst (normalizeRoundAndPackFloat64 s (e - 1) z zero_status)) = s"
proof -
  have "0 < unat z" "unat z < 2 ^ 63" using z lt m(1) by simp_all
  then obtain k where k: "2 ^ 62 \<le> unat z * 2 ^ k" "unat z * 2 ^ k < 2 ^ 63"
    and r: "unat (fst (normalizeRoundAndPackFloat64 s (e - 1) z zero_status)) =
           of_bool s * 2 ^ 63 + round_pack 52 10 0x7FD (e - 1 - int k) (unat z * 2 ^ k)"
    and le: "round_pack 52 10 0x7FD (e - 1 - int k) (unat z * 2 ^ k) \<le> 0x7FF0000000000000"
    by (rule normalizeRoundAndPack64 [of z "e - 1" s]) (use e in simp_all)
  have "nearest_even 52 0x7FF0000000000000 ((real ma - real mb / 2 ^ d) * 2 powi (e - 1)) (round_pack 52 10 0x7FD (e - 1 - int k) (unat z * 2 ^ k))"
    using difference_nearest [OF _ _ _ _ d z lt, of k "0x7FD" e] k m unfolding inf64 by simp
  then show ?thesis using sign_mag64 [OF r] le by simp
qed

lemma subSigs64:
  fixes s :: bool
  assumes fin: "f64_finite a" "f64_finite b"
  defines "r \<equiv> fst (subFloat64Sigs a b s zero_status)" and "A \<equiv> fmag 52 (f64_mag a)" and "B \<equiv> fmag 52 (f64_mag b)"
  shows "nearest_even 52 0x7FF0000000000000 \<bar>real A - real B\<bar> (f64_mag r) \<and>
         extractFloat64Sign r = (if A = B then False else if B < A then s else \<not> s)"
proof -
  let ?ea = "extractFloat64Exp a" and ?eb = "extractFloat64Exp b"
  let ?fa = "extractFloat64Frac a" and ?fb = "extractFloat64Frac b"
  have nf: "?ea \<noteq> 0x7FF" "?eb \<noteq> 0x7FF" using fin by (simp_all add: f64_finite_def)
  have fa: "unat ?fa < 2 ^ 52" and fb: "unat ?fb < 2 ^ 52" by (rule sig_bounds64)+
  have e: "- 40000 < ?ea" "?ea < 40000" "- 40000 < ?eb" "?eb < 40000"
    using sig_bounds64(4,5) [of a] sig_bounds64(4,5) [of b] by linarith+
  consider "?eb < ?ea" | "?ea < ?eb" | "?ea = ?eb" by linarith
  then show ?thesis
  proof cases
    case 1
    let ?y = "shift64RightJamming (if ?eb = 0 then push_bit 10 ?fb else push_bit 10 ?fb OR 0x4000000000000000) (if ?eb = 0 then ?ea - ?eb - 1 else ?ea - ?eb)"
    let ?d = "nat (?ea - max ?eb 1)"
    have r: "r = fst (normalizeRoundAndPackFloat64 s (?ea - 1) ((push_bit 10 ?fa OR 0x4000000000000000) - ?y) zero_status)"
      unfolding r_def subFloat64Sigs_def using 1 nf by (simp add: Let_def)
    have sa: "2 ^ 52 \<le> sig64 a" using aligned64(3) [OF 1] by simp
    have lt: "jam ?d (sig64 b * 2 ^ 10) < sig64 a * 2 ^ 10" using shifted_less64(2) [OF 1] sa by simp
    have "unat (push_bit 10 ?fa OR 0x4000000000000000) = sig64 a * 2 ^ 10" unfolding hidden_add64 aligned64(3) [OF 1] ..
    then have "unat ((push_bit 10 ?fa OR 0x4000000000000000) - ?y) = sig64 a * 2 ^ 10 - jam ?d (sig64 b * 2 ^ 10)"
      by (rule unat_diff_eq [OF _ shifted64(2) [OF 1]]) (use lt in simp)
    note v = difference_value64 [OF this lt _ _ _ e(1,2), of s, folded r]
    have "nearest_even 52 0x7FF0000000000000 (real A - real B) (f64_mag r) \<and> extractFloat64Sign r = s"
      using v sig_bounds64(1) [of a] sig_bounds64(1) [of b] sa unfolding A_def B_def aligned64(1,2) [OF 1] left_diff_distrib [symmetric] by simp
    moreover have "B < A"
    proof -
      have "fmag 52 (f64_mag b) < fmag 52 (f64_mag a)" by (rule fmag_less, rule mag_less64 [OF 1])
      then show ?thesis by (simp add: A_def B_def)
    qed
    ultimately show ?thesis by simp
  next
    case 2
    let ?x = "shift64RightJamming (if ?ea = 0 then push_bit 10 ?fa else push_bit 10 ?fa OR 0x4000000000000000) (if ?ea = 0 then ?eb - ?ea - 1 else ?eb - ?ea)"
    let ?d = "nat (?eb - max ?ea 1)"
    have "- (if ?ea = 0 then ?ea - ?eb + 1 else ?ea - ?eb) = (if ?ea = 0 then ?eb - ?ea - 1 else ?eb - ?ea)" by simp
    then have r: "r = fst (normalizeRoundAndPackFloat64 (\<not> s) (?eb - 1) ((push_bit 10 ?fb OR 0x4000000000000000) - ?x) zero_status)"
      unfolding r_def subFloat64Sigs_def using 2 nf by (simp only: Let_def) simp
    have sb: "2 ^ 52 \<le> sig64 b" using aligned64(3) [OF 2] by simp
    have lt: "jam ?d (sig64 a * 2 ^ 10) < sig64 b * 2 ^ 10" using shifted_less64(2) [OF 2] sb by simp
    have "unat (push_bit 10 ?fb OR 0x4000000000000000) = sig64 b * 2 ^ 10" unfolding hidden_add64 aligned64(3) [OF 2] ..
    then have "unat ((push_bit 10 ?fb OR 0x4000000000000000) - ?x) = sig64 b * 2 ^ 10 - jam ?d (sig64 a * 2 ^ 10)"
      by (rule unat_diff_eq [OF _ shifted64(2) [OF 2]]) (use lt in simp)
    note v = difference_value64 [OF this lt _ _ _ e(3,4), of "\<not> s", folded r]
    have "nearest_even 52 0x7FF0000000000000 (real B - real A) (f64_mag r) \<and> extractFloat64Sign r = (\<not> s)"
      using v sig_bounds64(1) [of a] sig_bounds64(1) [of b] sb unfolding A_def B_def aligned64(1,2) [OF 2] left_diff_distrib [symmetric] by simp
    moreover have "A < B"
    proof -
      have "fmag 52 (f64_mag a) < fmag 52 (f64_mag b)" by (rule fmag_less, rule mag_less64 [OF 2])
      then show ?thesis by (simp add: A_def B_def)
    qed
    ultimately show ?thesis by simp
  next
    case 3
    define e0 where "e0 = (if ?ea = 0 then 1 else ?ea)"
    have e0: "max ?ea 1 = e0" "- 40000 < e0" "e0 < 40000" using e sig_bounds64(4) [of a] by (auto simp: e0_def max_def)
    have AB: "A = sig64 a * 2 ^ nat (e0 - 1)" "B = sig64 b * 2 ^ nat (e0 - 1)"
      unfolding A_def B_def fmag_sig64 using 3 e0(1) by simp_all
    have ord: "B < A \<longleftrightarrow> unat ?fb < unat ?fa" "A < B \<longleftrightarrow> unat ?fa < unat ?fb"
      unfolding AB using 3 by (simp_all add: sig64_def)
    have p: "2 powi (e0 - 1) = (2 :: real) ^ nat (e0 - 1)" using e0(1) by (simp add: power_int_def)
    have dif: "real A - real B = (real (unat ?fa) - real (unat ?fb) / 2 ^ 0) * 2 powi (e0 - 1)"
      unfolding AB p using 3 by (simp add: sig64_def algebra_simps)
    have w: "push_bit 10 ?fb < push_bit 10 ?fa \<longleftrightarrow> unat ?fb < unat ?fa" "push_bit 10 ?fa < push_bit 10 ?fb \<longleftrightarrow> unat ?fa < unat ?fb"
      by (simp_all only: word_less_nat_alt hidden_add64) simp_all
    have def_r: "r = fst (if unat ?fb < unat ?fa then normalizeRoundAndPackFloat64 s (e0 - 1) (push_bit 10 ?fa - push_bit 10 ?fb) zero_status
        else if unat ?fa < unat ?fb then normalizeRoundAndPackFloat64 (\<not> s) (e0 - 1) (push_bit 10 ?fb - push_bit 10 ?fa) zero_status
        else (packFloat64 False 0 0, zero_status))"
      unfolding r_def subFloat64Sigs_def using 3 nf e0_def by (simp add: Let_def w)
    consider "unat ?fb < unat ?fa" | "unat ?fa < unat ?fb" | "unat ?fa = unat ?fb" by linarith
    then show ?thesis
    proof cases
      case 1
      then have r: "r = fst (normalizeRoundAndPackFloat64 s (e0 - 1) (push_bit 10 ?fa - push_bit 10 ?fb) zero_status)"
        using def_r by simp
      have "unat (push_bit 10 ?fa - push_bit 10 ?fb) = unat ?fa * 2 ^ 10 - jam 0 (unat ?fb * 2 ^ 10)"
        unfolding jam_0 by (rule unat_diff_eq [OF hidden_add64(2) hidden_add64(2)]) (use 1 in simp)
      from difference_value64 [OF this _ _ _ _ e0(2,3), of s, folded r dif] show ?thesis
        using 1 fa fb ord by (simp add: jam_0)
    next
      case 2
      then have r: "r = fst (normalizeRoundAndPackFloat64 (\<not> s) (e0 - 1) (push_bit 10 ?fb - push_bit 10 ?fa) zero_status)"
        using def_r by simp
      have "unat (push_bit 10 ?fb - push_bit 10 ?fa) = unat ?fb * 2 ^ 10 - jam 0 (unat ?fa * 2 ^ 10)"
        unfolding jam_0 by (rule unat_diff_eq [OF hidden_add64(2) hidden_add64(2)]) (use 2 in simp)
      note v = difference_value64 [OF this _ _ _ _ e0(2,3), of "\<not> s", folded r]
      have "\<bar>real A - real B\<bar> = (real (unat ?fb) - real (unat ?fa) / 2 ^ 0) * 2 powi (e0 - 1)"
      proof -
        have "real A < real B" using 2 ord by simp
        then have "\<bar>real A - real B\<bar> = - (real A - real B)" by simp
        then show ?thesis unfolding dif by (simp add: algebra_simps)
      qed
      with v show ?thesis using 2 fa fb ord by (simp add: jam_0)
    next
      case 3
      then have r: "r = packFloat64 False (int 0) 0" using def_r by simp
      then have "unat r = of_bool False * 2 ^ 63 + 0" using unat_packFloat64 [of 0 0 False] by simp
      note sm = sign_mag64 [OF this]
      have "A = B" using 3 ord by auto
      then show ?thesis using sm nearest_even_exact [of 0 "0x7FF0000000000000" 52] by (simp add: fmag_def)
    qed
  qed
qed

lemma value_neg64: "f64_value a = (if extractFloat64Sign a then - real (fmag 52 (f64_mag a)) else real (fmag 52 (f64_mag a))) / 2 ^ 1074"
  by (simp add: f64_value_def)

text \<open>A sum or a difference of magnitudes with a sign is rounded when its magnitude is.\<close>

lemma rounds64I:
  assumes "nearest_even 52 0x7FF0000000000000 \<bar>t\<bar> (f64_mag r)" and "extractFloat64Sign r \<longleftrightarrow> (if t = 0 then neg else t < 0)"
  shows "rounds64 (t / 2 ^ 1074) neg r"
proof -
  have "\<bar>t / 2 ^ 1074\<bar> * 2 ^ 1074 = \<bar>t\<bar>" "t / 2 ^ 1074 = 0 \<longleftrightarrow> t = 0" "t / 2 ^ 1074 < 0 \<longleftrightarrow> t < 0"
    by (simp_all add: divide_less_0_iff)
  with assms show ?thesis unfolding rounds64_def by simp
qed

lemma rounds64_signed:
  assumes "0 < t" and "nearest_even 52 0x7FF0000000000000 t (f64_mag r)" and "extractFloat64Sign r = s"
  shows "rounds64 ((if s then - t else t) / 2 ^ 1074) neg r"
  by (rule rounds64I) (use assms in \<open>cases s; simp\<close>)+

lemma add_rounds64:
  assumes fin: "f64_finite a" "f64_finite b"
  shows "rounds64 (f64_value a + f64_value b) (extractFloat64Sign a \<and> extractFloat64Sign b)
           (fst (float64_add a b zero_status))"
proof -
  let ?A = "fmag 52 (f64_mag a)" and ?B = "fmag 52 (f64_mag b)"
  let ?s = "extractFloat64Sign a" and ?t = "extractFloat64Sign b"
  note ad = addSigs64 [OF fin, of ?s] and su = subSigs64 [OF fin, of ?s]
  have r: "fst (float64_add a b zero_status) =
      fst (if ?s = ?t then addFloat64Sigs a b ?s zero_status else subFloat64Sigs a b ?s zero_status)"
    by (simp add: float64_add_def float64_squash_input_denormal_def)
  show ?thesis unfolding value_neg64 add_divide_distrib [symmetric] r
    by (rule rounds64I) (cases ?s; cases ?t; use ad su in \<open>auto simp: abs_minus_commute add.commute\<close>)+
qed

lemma sub_rounds64:
  assumes fin: "f64_finite a" "f64_finite b"
  shows "rounds64 (f64_value a - f64_value b) (extractFloat64Sign a \<and> \<not> extractFloat64Sign b)
           (fst (float64_sub a b zero_status))"
proof -
  let ?A = "fmag 52 (f64_mag a)" and ?B = "fmag 52 (f64_mag b)"
  let ?s = "extractFloat64Sign a" and ?t = "extractFloat64Sign b"
  note ad = addSigs64 [OF fin, of ?s] and su = subSigs64 [OF fin, of ?s]
  have r: "fst (float64_sub a b zero_status) =
      fst (if ?s = ?t then subFloat64Sigs a b ?s zero_status else addFloat64Sigs a b ?s zero_status)"
    by (simp add: float64_sub_def float64_squash_input_denormal_def)
  show ?thesis unfolding value_neg64 diff_divide_distrib [symmetric] r
    by (rule rounds64I) (cases ?s; cases ?t; use ad su in \<open>auto simp: abs_minus_commute add.commute\<close>)+
qed

section \<open>Multiplication\<close>

text \<open>A non-zero operand is normalized to a significand with its hidden bit and an exponent.\<close>

lemma normal_operand64:
  assumes "f64_finite a" and nz: "\<not> (extractFloat64Exp a = 0 \<and> extractFloat64Frac a = 0)"
  obtains e f m where "normal64 (extractFloat64Exp a) (extractFloat64Frac a) = (e, f)" and "unat (f OR 0x0010000000000000) = m"
    and "2 ^ 52 \<le> m" and "m < 2 ^ 53" and "real (fmag 52 (f64_mag a)) = real m * 2 powi (e - 1)"
    and "- 100 < e" and "e < 0x7FF"
proof (cases "extractFloat64Exp a = 0")
  case False
  have e: "0 < extractFloat64Exp a" "extractFloat64Exp a < 0x7FF"
    using False sig_bounds64(4,5) [of a] assms(1) by (simp_all add: f64_finite_def)
  have "unat (extractFloat64Frac a OR 0x0010000000000000) = sig64 a"
    using unat_or_power [of "extractFloat64Frac a" 52] sig_bounds64(3) [of a] False by (simp add: sig64_def)
  moreover have "real (fmag 52 (f64_mag a)) = real (sig64 a) * 2 powi (extractFloat64Exp a - 1)"
    using e by (simp add: fmag_sig64 power_int_def max_def)
  ultimately show ?thesis
    using that [of "extractFloat64Exp a" "extractFloat64Frac a" "sig64 a"] False e sig_bounds64(1,2) [of a]
    by (simp add: normal64_def)
next
  case True
  let ?f = "extractFloat64Frac a" and ?c = "builtin_clz_word (extractFloat64Frac a)"
  have f: "?f \<noteq> 0" using True nz by simp
  note lz = leading_zeros_bounds [OF f, simplified]
  have fb: "unat ?f < 2 ^ 52" by (rule sig_bounds64)
  have c: "11 < ?c"
  proof (rule ccontr)
    assume "\<not> 11 < ?c"
    then have "(2 :: nat) ^ 52 \<le> 2 ^ (63 - ?c)" by (intro power_increasing) simp_all
    also have "\<dots> \<le> unat ?f" using lz(2) by simp
    finally show False using fb by simp
  qed
  define k where "k = ?c - 11"
  have k: "?c = k + 11" "0 < k" "k \<le> 52" using c lz(1) by (simp_all add: k_def)
  have "2 ^ (52 - k) * 2 ^ k \<le> unat ?f * 2 ^ k" "unat ?f * 2 ^ k < 2 ^ (53 - k) * 2 ^ k"
    using lz(2,3) unfolding k(1) by simp_all
  moreover have "2 ^ (52 - k) * 2 ^ k = (2 :: nat) ^ 52" "2 ^ (53 - k) * 2 ^ k = (2 :: nat) ^ 53"
    using k(3) by (simp_all flip: power_add)
  ultimately have b: "2 ^ 52 \<le> unat ?f * 2 ^ k" "unat ?f * 2 ^ k < 2 ^ 53" by simp_all
  have p: "unat (push_bit k ?f) = unat ?f * 2 ^ k" by (rule unat_push_bit_less) (use b(2) in simp)
  have "push_bit k ?f OR 0x0010000000000000 = push_bit k ?f" using or_leading [of 52 "push_bit k ?f"] b p by simp
  then have u: "unat (push_bit k ?f OR 0x0010000000000000) = unat ?f * 2 ^ k" using p by (simp only:)
  have "normal64 (extractFloat64Exp a) ?f = (1 - int k, push_bit k ?f)"
    using True f by (simp add: normal64_def normalizeFloat64Subnormal_def countLeadingZeros64_def k(1))
  moreover have "real (fmag 52 (f64_mag a)) = real (unat ?f * 2 ^ k) * 2 powi (1 - int k - 1)"
    using True fb by (simp add: mag_split64 fmag_def power_int_minus field_simps)
  ultimately show ?thesis using that [of "1 - int k" "push_bit k ?f" "unat ?f * 2 ^ k"] u b k by simp
qed

lemma finite_zero64:
  "extractFloat64Exp a = 0 \<and> extractFloat64Frac a = 0 \<longleftrightarrow> fmag 52 (f64_mag a) = 0"
proof -
  have "fmag 52 (f64_mag a) = 0 \<longleftrightarrow> sig64 a = 0" by (simp add: fmag_sig64)
  also have "\<dots> \<longleftrightarrow> extractFloat64Exp a = 0 \<and> unat (extractFloat64Frac a) = 0" by (simp add: sig64_def)
  finally show ?thesis by (simp add: unat_0_iff)
qed

lemma product64:
  assumes m: "unat (fa OR 0x0010000000000000) = ma" "unat (fb OR 0x0010000000000000) = mb" and b: "ma < 2 ^ 53" "mb < 2 ^ 53"
  obtains z where "unat z = jam 64 (ma * mb * 2 ^ 21)"
    and "mulFloat64Sigs s ea fa eb fb st =
           (if 0 \<le> sint (push_bit 1 z) then roundAndPackFloat64 s (ea + eb - 0x3FF - 1) (push_bit 1 z) st
            else roundAndPackFloat64 s (ea + eb - 0x3FF) z st)"
proof -
  let ?a = "push_bit 10 (fa OR 0x0010000000000000) :: u64" and ?b = "push_bit 11 (fb OR 0x0010000000000000) :: u64"
  obtain z0 z1 where z: "mul64To128 ?a ?b = (z0, z1)" by force
  have "unat ?a = ma * 2 ^ 10" "unat ?b = mb * 2 ^ 11"
    by (subst unat_push_bit_less; use m b in simp)+
  then have p: "unat z0 * 2 ^ 64 + unat z1 = ma * mb * 2 ^ 21" using mul64To128 [OF z] by simp
  have "unat z1 < 2 ^ 64" by (rule unat_u64_less)
  then have q: "ma * mb * 2 ^ 21 div 2 ^ 64 = unat z0" "ma * mb * 2 ^ 21 mod 2 ^ 64 = unat z1"
    unfolding p [symmetric] by simp_all
  have "unat (z0 OR of_bool (z1 \<noteq> 0)) = jam 64 (ma * mb * 2 ^ 21)"
  proof (cases "z1 = 0")
    case True
    then show ?thesis unfolding jam_def q by simp
  next
    case False
    then have "unat z1 \<noteq> 0" by (simp add: unat_0_iff)
    moreover have "unat (z0 OR 1) = unat z0 + of_bool (even (unat z0))" by (simp add: unsigned_or_eq or_Suc_0_eq)
    ultimately show ?thesis unfolding jam_def q using False jam_odd [of "unat z0"] by simp
  qed
  then show ?thesis by (rule that) (simp only: mulFloat64Sigs_def Let_def z prod.case)
qed

lemma mulSigs64:
  fixes s :: bool
  assumes m: "unat (fa OR 0x0010000000000000) = ma" "unat (fb OR 0x0010000000000000) = mb"
    and b: "2 ^ 52 \<le> ma" "ma < 2 ^ 53" "2 ^ 52 \<le> mb" "mb < 2 ^ 53"
    and e: "- 100 < ea" "ea < 0x7FF" "- 100 < eb" "eb < 0x7FF"
  defines "r \<equiv> fst (mulFloat64Sigs s ea fa eb fb zero_status)"
  shows "nearest_even 52 0x7FF0000000000000 (real ma * 2 powi (ea - 1) * (real mb * 2 powi (eb - 1)) / 2 ^ 1074) (f64_mag r)"
    and "extractFloat64Sign r = s"
proof -
  let ?p = "ma * mb * 2 ^ 21" and ?e = "ea + eb - 0x3FF"
  obtain z where z: "unat z = jam 64 ?p" and
    def_r: "mulFloat64Sigs s ea fa eb fb zero_status =
           (if 0 \<le> sint (push_bit 1 z) then roundAndPackFloat64 s (?e - 1) (push_bit 1 z) zero_status
            else roundAndPackFloat64 s ?e z zero_status)"
    using product64 [OF m b(2,4), of s ea eb zero_status] by blast
  have "2 ^ 52 * 2 ^ 52 \<le> ma * mb" "ma * mb < 2 ^ 53 * 2 ^ 53"
    using b by (intro mult_mono mult_strict_mono; simp)+
  then have zb: "2 ^ 61 \<le> jam 64 ?p" "jam 64 ?p < 2 ^ 63"
    using jam_pos(1) [of "2 ^ 61" 64 ?p] jam_pos(1) [of "2 ^ 63" 64 ?p] by simp_all
  have z2: "unat (push_bit 1 z) = 2 * jam 64 ?p" using zb(2) z by (subst unat_push_bit_less) simp_all
  have neg: "0 \<le> sint (push_bit 1 z) \<longleftrightarrow> \<not> 2 ^ 62 \<le> jam 64 ?p"
    using sint_neg64 [of "push_bit 1 z"] unfolding z2 by auto
  define n where "n = (if 2 ^ 62 \<le> jam 64 ?p then round_pack 52 10 0x7FD ?e (jam 64 ?p) else round_pack 52 10 0x7FD (?e - 1) (2 * jam 64 ?p))"
  have r: "unat r = of_bool s * 2 ^ 63 + n \<and> n \<le> 0x7FF0000000000000"
  proof (cases "2 ^ 62 \<le> jam 64 ?p")
    case True
    then have "r = fst (roundAndPackFloat64 s ?e z zero_status)" unfolding r_def def_r neg by simp
    then show ?thesis using roundAndPack64(1) [of z ?e s] roundAndPack64(2) [of z ?e] True zb e unfolding z n_def by simp
  next
    case False
    then have "r = fst (roundAndPackFloat64 s (?e - 1) (push_bit 1 z) zero_status)" unfolding r_def def_r neg by simp
    then show ?thesis using roundAndPack64(1) [of "push_bit 1 z" "?e - 1" s] roundAndPack64(2) [of "push_bit 1 z" "?e - 1"] False zb e
      unfolding z2 n_def by simp
  qed
  have eq: "real ?p / 2 ^ 64 / 2 ^ 10 * 2 powi ?e = real ma * 2 powi (ea - 1) * (real mb * 2 powi (eb - 1)) / 2 ^ 1074"
    by (simp add: power_int_diff power_int_add)
  have "nearest_even 52 0x7FF0000000000000 (real ?p / 2 ^ 64 / 2 ^ 10 * 2 powi ?e) n"
    using binade_nearest [OF _ _ cell_coarser [OF cell_jam_exact, of "10 - 2"], of 52 64 ?p "0x7FD" ?e] zb
    unfolding inf64 n_def by (cases "2 ^ 62 \<le> jam 64 ?p") simp_all
  then have "nearest_even 52 0x7FF0000000000000 (real ma * 2 powi (ea - 1) * (real mb * 2 powi (eb - 1)) / 2 ^ 1074) n" unfolding eq .
  then show "nearest_even 52 0x7FF0000000000000 (real ma * 2 powi (ea - 1) * (real mb * 2 powi (eb - 1)) / 2 ^ 1074) (f64_mag r)"
    and "extractFloat64Sign r = s"
    using r sign_mag64 [of r s n] by simp_all
qed

lemma rounds64_signed_zero: "rounds64 0 s (packFloat64 s 0 0)"
proof -
  have "unat (packFloat64 s (int 0) 0) = of_bool s * 2 ^ 63 + 0" using unat_packFloat64 [of 0 0 s] by simp
  then show ?thesis using rounds64_pack [of "packFloat64 s 0 0" s 0 0 s] nearest_even_exact [of 0 "0x7FF0000000000000" 52]
    by (simp add: fmag_def)
qed

lemma mul_rounds64:
  assumes fin: "f64_finite a" "f64_finite b"
  shows "rounds64 (f64_value a * f64_value b) (extractFloat64Sign a \<noteq> extractFloat64Sign b)
           (fst (float64_mul a b zero_status))"
proof -
  let ?A = "fmag 52 (f64_mag a)" and ?B = "fmag 52 (f64_mag b)"
  let ?s = "extractFloat64Sign a \<noteq> extractFloat64Sign b"
  have nf: "extractFloat64Exp a \<noteq> 0x7FF" "extractFloat64Exp b \<noteq> 0x7FF" using fin by (simp_all add: f64_finite_def)
  have v: "f64_value a * f64_value b = (if ?s then - (real ?A * real ?B / 2 ^ 1074) else real ?A * real ?B / 2 ^ 1074) / 2 ^ 1074"
    by (simp add: value_neg64)
  show ?thesis
  proof (cases "?A = 0 \<or> ?B = 0")
    case True
    then have "fst (float64_mul a b zero_status) = packFloat64 ?s 0 0"
      using nf by (auto simp: float64_mul_def float64_squash_input_denormal_def Let_def finite_zero64)
    moreover have "f64_value a * f64_value b = 0" using True unfolding v by auto
    ultimately show ?thesis using rounds64_signed_zero [of ?s] by (simp only:)
  next
    case False
    then have nz: "\<not> (extractFloat64Exp a = 0 \<and> extractFloat64Frac a = 0)" "\<not> (extractFloat64Exp b = 0 \<and> extractFloat64Frac b = 0)"
      unfolding finite_zero64 by simp_all
    obtain ea fa ma where a: "normal64 (extractFloat64Exp a) (extractFloat64Frac a) = (ea, fa)" "unat (fa OR 0x0010000000000000) = ma"
      "2 ^ 52 \<le> ma" "ma < 2 ^ 53" "real ?A = real ma * 2 powi (ea - 1)" "- 100 < ea" "ea < 0x7FF"
      by (rule normal_operand64 [OF fin(1) nz(1)])
    obtain eb fb mb where b: "normal64 (extractFloat64Exp b) (extractFloat64Frac b) = (eb, fb)" "unat (fb OR 0x0010000000000000) = mb"
      "2 ^ 52 \<le> mb" "mb < 2 ^ 53" "real ?B = real mb * 2 powi (eb - 1)" "- 100 < eb" "eb < 0x7FF"
      by (rule normal_operand64 [OF fin(2) nz(2)])
    let ?r = "fst (mulFloat64Sigs ?s ea fa eb fb zero_status)"
    have r: "fst (float64_mul a b zero_status) = ?r"
      using nf nz a(1) b(1) by (auto simp: float64_mul_def float64_squash_input_denormal_def Let_def)
    have m: "nearest_even 52 0x7FF0000000000000 (real ?A * real ?B / 2 ^ 1074) (f64_mag ?r)" "extractFloat64Sign ?r = ?s"
      unfolding a(5) b(5) by (rule mulSigs64 [OF a(2) b(2) a(3,4) b(3,4) a(6,7) b(6,7)])+
    have "0 < real ?A * real ?B / 2 ^ 1074" using False by simp
    then show ?thesis unfolding v r by (rule rounds64_signed [OF _ m])
  qed
qed

section \<open>Division\<close>

text \<open>The correction loop turns the estimate into the quotient and a remainder.\<close>

lemma corrected_quotient:
  assumes b: "0 < unat b" and z: "unat n * 2 ^ 64 div unat b \<le> unat z" "unat z \<le> unat n * 2 ^ 64 div unat b + 2"
  defines "q \<equiv> unat n * 2 ^ 64 div unat b" and "t \<equiv> mul64To128 b z"
  shows "\<exists>w r0 r1. div64_loop b z (sub128 n 0 (fst t) (snd t)) = Some (w, r0, r1) \<and> unat w = q \<and>
           (r1 = 0 \<longleftrightarrow> unat b dvd unat n * 2 ^ 64)"
proof -
  let ?A = "int (unat n * 2 ^ 64)" and ?B = "int (unat b)"
  define R where "R = ?A - int (unat z) * ?B"
  have "0 < ?B" using b by (simp only: of_nat_0_less_iff)
  then have B: "0 < ?B" "?B < 2 ^ 64" "uint b = ?B" using uint_u64 [of b] by simp_all
  have q: "int q * ?B \<le> ?A" "?A < (int q + 1) * ?B"
  proof -
    have "q * unat b \<le> unat n * 2 ^ 64" "unat n * 2 ^ 64 < (q + 1) * unat b"
      using dividend_less_div_times [of "unat b" "unat n * 2 ^ 64"] b by (simp_all add: q_def)
    then have "int (q * unat b) \<le> ?A" "?A < int ((q + 1) * unat b)" by (simp_all only: of_nat_le_iff of_nat_less_iff)
    then show "int q * ?B \<le> ?A" "?A < (int q + 1) * ?B" by (simp_all add: algebra_simps)
  qed
  have R: "- (int 2 * ?B) \<le> R" "R < ?B"
  proof -
    have "int (unat z) * ?B \<le> (int q + 2) * ?B" "int q * ?B \<le> int (unat z) * ?B"
    proof -
      have "int (unat z) \<le> int (q + 2)" "int q \<le> int (unat z)" using z unfolding q_def by (simp_all only: of_nat_le_iff)
      then have "int (unat z) \<le> int q + 2" "int q \<le> int (unat z)" by (simp_all only: of_nat_add of_nat_numeral)
      then show "int (unat z) * ?B \<le> (int q + 2) * ?B" "int q * ?B \<le> int (unat z) * ?B"
        using B(1) by (simp_all only: mult_right_mono order_less_imp_le)
    qed
    moreover have "(int q + 2) * ?B = int q * ?B + 2 * ?B" "(int q + 1) * ?B = int q * ?B + ?B" by (simp_all add: algebra_simps)
    ultimately show "- (int 2 * ?B) \<le> R" "R < ?B" using q unfolding R_def by linarith+
  qed
  have "holds128 (sub128 n 0 (fst t) (snd t)) R"
  proof -
    have "pair128 (n, 0) = ?A" by (simp add: pair128_def)
    moreover have "pair128 t = int (unat z) * ?B" unfolding t_def pair128_mul by (simp add: mult.commute)
    ultimately show ?thesis
      using holds128_sub [of "(n, 0)" ?A t "int (unat z) * ?B"] R B(2) unfolding R_def by simp
  qed
  then obtain k r where loop: "div64_loop b z (sub128 n 0 (fst t) (snd t)) = Some (z - of_nat k, r)"
    and r: "pair128 r = R + int k * ?B" "0 \<le> pair128 r" "pair128 r < ?B"
    using div64_loop [of _ R 2 b z] R unfolding B(3) by blast
  have kq: "int (unat z) - int k = int q"
  proof -
    have "?A = (int (unat z) - int k) * ?B + pair128 r" unfolding r(1) R_def by (simp only: algebra_simps)
    then have "(int (unat z) - int k) * ?B < (int q + 1) * ?B" "int q * ?B < (int (unat z) - int k) * ?B + ?B" using q r(2,3) by linarith+
    moreover have "(int (unat z) - int k) * ?B + ?B = (int (unat z) - int k + 1) * ?B" by (simp only: algebra_simps)
    ultimately have "int (unat z) - int k < int q + 1" "int q < int (unat z) - int k + 1"
      using B(1) by (simp_all only: mult_less_cancel_right)
    then show ?thesis by linarith
  qed
  have w: "unat (z - of_nat k) = q"
  proof -
    have "z - of_nat k = of_nat (unat z) - of_nat k" by simp
    also have "\<dots> = of_nat (unat z - k)" by (rule of_nat_diff [symmetric]) (use kq in linarith)
    also have "unat z - k = q" using kq by linarith
    finally show ?thesis by (rule unat_eq_of_nat) (use z(1) unat_u64_less [of z] in \<open>simp add: q_def\<close>)
  qed
  obtain r0 r1 where rr: "r = (r0, r1)" by force
  have r0: "uint r0 = 0"
  proof -
    have "uint r0 * 2 ^ 64 < 1 * 2 ^ 64" using r(3) B(2) uint_u64(1) [of r1] unfolding rr pair128_def fst_conv snd_conv by linarith
    then have "uint r0 < 1" by simp
    then show ?thesis using uint_u64(1) [of r0] by linarith
  qed
  have "pair128 r = int (unat n * 2 ^ 64 mod unat b)"
  proof -
    have "pair128 r = ?A - int q * ?B" unfolding r(1) R_def kq [symmetric] by (simp only: algebra_simps)
    also have "\<dots> = int (unat n * 2 ^ 64 - q * unat b)"
    proof -
      have "q * unat b \<le> unat n * 2 ^ 64" by (simp add: q_def)
      then show ?thesis by (simp only: of_nat_diff of_nat_mult)
    qed
    finally show ?thesis unfolding q_def minus_div_mult_eq_mod .
  qed
  then have "uint r1 = int (unat n * 2 ^ 64 mod unat b)" by (simp add: rr pair128_def r0)
  then have "r1 = 0 \<longleftrightarrow> unat n * 2 ^ 64 mod unat b = 0" by (metis of_nat_eq_0_iff uint_0_iff)
  then show ?thesis using loop w unfolding rr by (auto simp: dvd_eq_mod_eq_0)
qed

lemma quotient64:
  assumes m: "unat (fa OR 0x0010000000000000) = ma" "unat (fb OR 0x0010000000000000) = mb"
    and b: "2 ^ 52 \<le> ma" "ma < 2 ^ 53" "2 ^ 52 \<le> mb" "mb < 2 ^ 53"
  obtains z e y where "divFloat64Sigs s ea fa eb fb st = Inr (roundAndPackFloat64 s e z st)"
    and "2 ^ 62 \<le> unat z" and "unat z < 2 ^ 63" and "cell 9 y (unat z)"
    and "y / 2 ^ 10 * 2 powi e = real ma / real mb * 2 powi (ea - eb) * 2 ^ 1074"
    and "e = ea - eb + 0x3FD \<or> e = ea - eb + 0x3FE"
proof -
  define av bv where "av = (push_bit 10 (fa OR 0x0010000000000000) :: u64)" and "bv = (push_bit 11 (fb OR 0x0010000000000000) :: u64)"
  have a: "unat av = ma * 2 ^ 10" and bb: "unat bv = mb * 2 ^ 11"
    unfolding av_def bv_def by (subst unat_push_bit_less; use m b in simp)+
  have aa: "unat (av + av) = ma * 2 ^ 11" using a b by (subst unat_add_less) simp_all
  define k where "k = (if mb \<le> ma then 9 else 10 :: nat)"
  define e where "e = (if mb \<le> ma then ea - eb + 0x3FD + 1 else ea - eb + 0x3FD)"
  define n where "n = (if mb \<le> ma then drop_bit 1 av else av)"
  have sh: "bv \<le> av + av \<longleftrightarrow> mb \<le> ma" unfolding word_le_nat_alt aa bb by simp
  have n: "unat n = ma * 2 ^ k" unfolding n_def k_def by (simp add: unat_drop_bit_div a)
  define q where "q = unat n * 2 ^ 64 div unat bv"
  have qb: "2 ^ 62 \<le> q \<and> q < 2 ^ 63"
  proof (cases "mb \<le> ma")
    case True
    have "q = ma * 2 ^ 62 div mb" using True by (simp add: q_def n bb k_def mult.commute)
    then show ?thesis using True b by (simp add: less_eq_div_iff_mult_less_eq div_less_iff_less_mult)
  next
    case False
    have "q = ma * 2 ^ 63 div mb" using False by (simp add: q_def n bb k_def mult.commute)
    then show ?thesis using False b by (simp add: less_eq_div_iff_mult_less_eq div_less_iff_less_mult)
  qed
  have "2 ^ 63 \<le> unat bv" using b(3) by (simp add: bb)
  moreover have "unat n < unat bv" using b by (simp add: n bb k_def)
  ultimately obtain z0 where est: "estimateDiv128To64 n 0 bv = Inr z0" and z0: "q \<le> unat z0" "unat z0 \<le> q + 2"
    unfolding q_def by (rule estimateDiv128To64 [of bv n 0]) simp
  have y: "real q \<le> real (unat n * 2 ^ 64) / real (unat bv)" "real (unat n * 2 ^ 64) / real (unat bv) < real q + 1"
    unfolding q_def by (rule real_of_nat_div_bounds, use b bb in simp)+
  have "\<exists>z. divFloat64Sigs s ea fa eb fb st = Inr (roundAndPackFloat64 s e z st) \<and> 2 ^ 62 \<le> unat z \<and> unat z < 2 ^ 63 \<and>
      cell 9 (real (unat n * 2 ^ 64) / real (unat bv)) (unat z)"
  proof (cases "z0 AND 0x1FF \<le> 2")
    case False
    then have "2 < unat z0 mod 2 ^ 9" using and_mask_unat [of z0 9] by (simp add: word_le_nat_alt mask_eq_exp_minus_1)
    then have "cell 9 (real (unat n * 2 ^ 64) / real (unat bv)) (unat z0)"
      by (rule cell_approx [OF y z0])
    moreover have "unat z0 < 2 ^ 63"
    proof (rule ccontr)
      assume "\<not> unat z0 < 2 ^ 63"
      then have "unat z0 = 2 ^ 63 \<or> unat z0 = 2 ^ 63 + 1" using qb z0 by auto
      then have "unat z0 mod 2 ^ 9 \<le> 1" by auto
      with \<open>2 < unat z0 mod 2 ^ 9\<close> show False by simp
    qed
    moreover have "divFloat64Sigs s ea fa eb fb st = Inr (roundAndPackFloat64 s e z0 st)"
      unfolding divFloat64Sigs_def Let_def av_def [symmetric] bv_def [symmetric] sh n_def [symmetric] e_def [symmetric] est
      using False by simp
    ultimately show ?thesis using qb z0 by (intro exI [of _ z0]) auto
  next
    case True
    obtain w r0 r1 where loop: "div64_loop bv z0 (sub128 n 0 (fst (mul64To128 bv z0)) (snd (mul64To128 bv z0))) = Some (w, r0, r1)"
      and w: "unat w = q" and r1: "r1 = 0 \<longleftrightarrow> unat bv dvd unat n * 2 ^ 64"
      using corrected_quotient [of bv n z0] z0 b bb unfolding q_def by auto
    let ?z = "w OR of_bool (r1 \<noteq> 0)"
    have zq: "unat ?z = (if unat bv dvd unat n * 2 ^ 64 then q else q div 2 * 2 + 1)"
      unfolding r1 using w by (simp add: unsigned_or_eq or_Suc_0_eq jam_odd [simplified])
    have "2 ^ 61 \<le> q div 2" "q div 2 < 2 ^ 62"
      using qb by (simp_all add: less_eq_div_iff_mult_less_eq div_less_iff_less_mult)
    then have "2 ^ 62 \<le> unat ?z \<and> unat ?z < 2 ^ 63" unfolding zq using qb by simp
    moreover have "cell 9 (real (unat n * 2 ^ 64) / real (unat bv)) (unat ?z)"
      unfolding zq q_def by (rule cell_coarser [OF cell_quotient]) (use b bb in simp_all)
    moreover have "divFloat64Sigs s ea fa eb fb st = Inr (roundAndPackFloat64 s e ?z st)"
      unfolding divFloat64Sigs_def Let_def av_def [symmetric] bv_def [symmetric] sh n_def [symmetric] e_def [symmetric] est
      using True loop by simp
    ultimately show ?thesis by blast
  qed
  then obtain z where f: "divFloat64Sigs s ea fa eb fb st = Inr (roundAndPackFloat64 s e z st)" "2 ^ 62 \<le> unat z" "unat z < 2 ^ 63"
      "cell 9 (real (unat n * 2 ^ 64) / real (unat bv)) (unat z)" by blast
  have f3: "real (unat n * 2 ^ 64) / real (unat bv) / 2 ^ 10 * 2 powi e = real ma / real mb * 2 powi (ea - eb) * 2 ^ 1074"
    unfolding n bb k_def e_def by (simp add: power_int_add)
  have f4: "e = ea - eb + 0x3FD \<or> e = ea - eb + 0x3FE" by (simp add: e_def)
  show ?thesis by (rule that [OF f f3 f4])
qed

lemma div_rounds64:
  assumes fin: "f64_finite a" "f64_finite b" and nz: "f64_value b \<noteq> 0"
  shows "\<exists>r. float64_div a b zero_status = Inr r \<and> rounds64 (f64_value a / f64_value b) (extractFloat64Sign a \<noteq> extractFloat64Sign b) (fst r)"
proof -
  let ?A = "fmag 52 (f64_mag a)" and ?B = "fmag 52 (f64_mag b)"
  let ?s = "extractFloat64Sign a \<noteq> extractFloat64Sign b"
  have nf: "extractFloat64Exp a \<noteq> 0x7FF" "extractFloat64Exp b \<noteq> 0x7FF" using fin by (simp_all add: f64_finite_def)
  have B: "?B \<noteq> 0" using nz by (auto simp: value_neg64 split: if_splits)
  then have bz: "\<not> (extractFloat64Exp b = 0 \<and> extractFloat64Frac b = 0)" unfolding finite_zero64 .
  have v: "f64_value a / f64_value b = (if ?s then - (real ?A / real ?B * 2 ^ 1074) else real ?A / real ?B * 2 ^ 1074) / 2 ^ 1074"
    by (simp add: value_neg64)
  show ?thesis
  proof (cases "?A = 0")
    case True
    then have "float64_div a b zero_status = Inr (packFloat64 ?s 0 0, zero_status)"
      using nf bz by (auto simp: float64_div_def float64_squash_input_denormal_def Let_def finite_zero64)
    moreover have "f64_value a / f64_value b = 0" using True unfolding v by auto
    ultimately show ?thesis using rounds64_signed_zero [of ?s] by (auto simp only: fst_conv)
  next
    case False
    then have az: "\<not> (extractFloat64Exp a = 0 \<and> extractFloat64Frac a = 0)" unfolding finite_zero64 .
    obtain ea fa ma where a: "normal64 (extractFloat64Exp a) (extractFloat64Frac a) = (ea, fa)" "unat (fa OR 0x0010000000000000) = ma"
      "2 ^ 52 \<le> ma" "ma < 2 ^ 53" "real ?A = real ma * 2 powi (ea - 1)" "- 100 < ea" "ea < 0x7FF"
      by (rule normal_operand64 [OF fin(1) az])
    obtain eb fb mb where b: "normal64 (extractFloat64Exp b) (extractFloat64Frac b) = (eb, fb)" "unat (fb OR 0x0010000000000000) = mb"
      "2 ^ 52 \<le> mb" "mb < 2 ^ 53" "real ?B = real mb * 2 powi (eb - 1)" "- 100 < eb" "eb < 0x7FF"
      by (rule normal_operand64 [OF fin(2) bz])
    obtain z e y where q: "divFloat64Sigs ?s ea fa eb fb zero_status = Inr (roundAndPackFloat64 ?s e z zero_status)"
      and z: "2 ^ 62 \<le> unat z" "unat z < 2 ^ 63" and c: "cell 9 y (unat z)"
      and y: "y / 2 ^ 10 * 2 powi e = real ma / real mb * 2 powi (ea - eb) * 2 ^ 1074"
      and e: "e = ea - eb + 0x3FD \<or> e = ea - eb + 0x3FE"
      by (rule quotient64 [OF a(2) b(2) a(3,4) b(3,4), of ?s ea eb zero_status])
    let ?r = "fst (roundAndPackFloat64 ?s e z zero_status)"
    have r: "float64_div a b zero_status = Inr (roundAndPackFloat64 ?s e z zero_status)"
      using nf az bz a(1) b(1) q by (auto simp: float64_div_def float64_squash_input_denormal_def Let_def)
    have er: "- 60000 < e" "e < 60000" using e a(6,7) b(6,7) by auto
    have x: "real ?A / real ?B * 2 ^ 1074 = y / 2 ^ 10 * 2 powi e"
      unfolding a(5) b(5) y using b(3) by (simp add: power_int_diff field_simps)
    have "nearest_even 52 0x7FF0000000000000 (y / 2 ^ 10 * 2 powi e) (round_pack 52 10 0x7FD e (unat z))"
      using round_pack_nearest [of 10 52 y "unat z" "0x7FD" e] z c unfolding inf64 by simp
    then have m: "nearest_even 52 0x7FF0000000000000 (real ?A / real ?B * 2 ^ 1074) (f64_mag ?r)" "extractFloat64Sign ?r = ?s"
      unfolding x using sign_mag64 [OF roundAndPack64(1) [OF z er]] roundAndPack64(2) [OF z er] by simp_all
    have "0 < real ?A / real ?B * 2 ^ 1074" using False B by simp
    then have "rounds64 (f64_value a / f64_value b) ?s ?r" unfolding v by (rule rounds64_signed [OF _ m])
    then show ?thesis unfolding r by auto
  qed
qed

section \<open>Conversion to integers\<close>

lemma to_int32_rounds64:
  assumes "f64_finite a"
  shows "converts32 (f64_value a) (float64_to_int32 a zero_status)"
proof -
  let ?e = "extractFloat64Exp a" and ?s = "extractFloat64Sign a"
  define f where "f = (if ?e \<noteq> 0 then extractFloat64Frac a OR 0x0010000000000000 else extractFloat64Frac a)"
  define w where "w = (f :: u64)"
  have f: "unat f = sig64 a"
    using unat_or_power [of "extractFloat64Frac a" 52] sig_bounds64(3) [of a] by (simp add: f_def sig64_def)
  have w: "unat w = sig64 a * 2 ^ 0"
    using f by (simp add: w_def)
  have e: "0 \<le> ?e" "?e \<noteq> 0 \<Longrightarrow> 2 ^ 52 \<le> unat w" and wl: "unat w < 2 ^ 56"
    using sig_bounds64 [of a] unfolding w by simp_all
  have r: "float64_to_int32 a zero_status =
      roundAndPackInt32 ?s (if 0 < 0x42C - ?e then shift64RightJamming w (0x42C - ?e) else w) zero_status"
    using assms by (simp add: float64_to_int32_def float64_squash_input_denormal_def f64_finite_def Let_def w_def f_def)
  have v: "f64_value a = (if ?s then - (real (unat w) * 2 powi (max ?e 1 - 0x42C)) else real (unat w) * 2 powi (max ?e 1 - 0x42C)) / 2 ^ 7"
  proof -
    define k where "k = nat (max ?e 1 - 1)"
    have "max ?e 1 - 0x42C = int k - int (0x42C - 1)" by (simp add: k_def max_def)
    then have k: "(2 :: real) powi (max ?e 1 - 0x42C) = 2 ^ k / 2 ^ (0x42C - 1)" by (simp only: power_int_diff zero_neq_numeral [symmetric] simp_thms power_int_of_nat)
    have "real (unat w) * 2 powi (max ?e 1 - 0x42C) / 2 ^ 7 = real (sig64 a * 2 ^ k) / 2 ^ 1074"
      unfolding k w by simp
    then show ?thesis unfolding value_neg64 fmag_sig64 k_def by simp
  qed
  show ?thesis unfolding r v by (rule packInt32_shift [OF e wl]) simp_all
qed

section \<open>Square roots\<close>

text \<open>The estimate of the upper half of the root, from the upper half of the significand.\<close>

lemma upper_root:
  fixes e :: int
  assumes b: "2 ^ 52 \<le> m" "m < 2 ^ 53"
  defines "B \<equiv> (if e AND 1 = 0 then m * 2 ^ 9 else m * 2 ^ 8)"
  shows "\<exists>w. estimateSqrt32 e (of_nat (m div 2 ^ 21)) = Inr w \<and> 2 ^ 31 \<le> unat w \<and> \<bar>real (unat w) - sqrt (real (4 * B))\<bar> \<le> 2"
proof -
  define H where "H = (if e AND 1 = 0 then m div 2 ^ 21 else m div 2 ^ 21 div 2)"
  define s where "s = sqrt (real H * 2 ^ 32)"
  have a: "unat (of_nat (m div 2 ^ 21) :: u32) = m div 2 ^ 21" using b by (intro unat_eq_of_nat) (simp_all add: div_less_iff_less_mult)
  have "2 ^ 31 \<le> m div 2 ^ 21" using b(1) by (simp add: less_eq_div_iff_mult_less_eq)
  then obtain w where w: "estimateSqrt32 e (of_nat (m div 2 ^ 21)) = Inr w" "s - 1 < real (unat w)" "real (unat w) \<le> s + 1" "2 ^ 31 \<le> unat w"
    by (rule estimateSqrt32_root [of "of_nat (m div 2 ^ 21)" e, unfolded a, folded H_def, folded s_def])
  have "H * 2 ^ 32 \<le> 4 * B \<and> 4 * B < H * 2 ^ 32 + 2 ^ 32"
  proof (cases "e AND 1 = 0")
    case True
    have "m div 2 ^ 21 * 2 ^ 21 \<le> m" "m < m div 2 ^ 21 * 2 ^ 21 + 2 ^ 21" by (simp_all add: dividend_less_div_times)
    then show ?thesis using True by (simp add: H_def B_def)
  next
    case False
    have "m div 2 ^ 22 * 2 ^ 22 \<le> m" "m < m div 2 ^ 22 * 2 ^ 22 + 2 ^ 22" by (simp_all add: dividend_less_div_times)
    then show ?thesis using False by (simp add: H_def B_def div_mult2_eq [symmetric])
  qed
  then have "real (H * 2 ^ 32) \<le> real (4 * B)" "real (4 * B) < real (H * 2 ^ 32 + 2 ^ 32)" by (simp_all only: of_nat_le_iff of_nat_less_iff)
  then have d: "real H * 2 ^ 32 \<le> real (4 * B)" "real (4 * B) < real H * 2 ^ 32 + 2 ^ 32" by simp_all
  have s2: "s\<^sup>2 = real H * 2 ^ 32" by (simp add: s_def)
  have "2 ^ 30 \<le> H" using b(1) by (simp add: H_def less_eq_div_iff_mult_less_eq)
  then have "real (2 ^ 30) \<le> real H" by (simp only: of_nat_le_iff)
  then have s31: "2 ^ 31 \<le> s" unfolding s_def by (intro real_le_rsqrt) simp
  have "s \<le> sqrt (real (4 * B))" unfolding s_def using d(1) by (rule real_sqrt_le_mono)
  moreover have "sqrt (real (4 * B)) \<le> s + 1"
  proof (rule real_le_lsqrt)
    have "(s + 1)\<^sup>2 = s\<^sup>2 + 2 * s + 1" by (simp add: power2_eq_square algebra_simps)
    then show "real (4 * B) \<le> (s + 1)\<^sup>2" using d(2) s2 s31 by simp
  qed (use s31 in simp_all)
  ultimately have "\<bar>real (unat w) - sqrt (real (4 * B))\<bar> \<le> 2" using w(2,3) by linarith
  then show ?thesis using w(1,4) by blast
qed

text \<open>Newton's step from the upper half.\<close>

lemma lower_root:
  assumes w: "2 ^ 31 \<le> w" "\<bar>real w - sqrt (real (4 * B))\<bar> \<le> 2"
    and q: "z0 \<ge> B * 2 ^ 64 div (w * 2 ^ 32)" "z0 \<le> B * 2 ^ 64 div (w * 2 ^ 32) + 2"
    and Q: "real Q \<le> sqrt (real (B * 2 ^ 64))" "sqrt (real (B * 2 ^ 64)) < real Q + 1"
  shows "Q \<le> z0 + w * 2 ^ 30" and "z0 + w * 2 ^ 30 \<le> Q + 4"
proof -
  define s x where "s = sqrt (real (B * 2 ^ 64))" and "x = real w * 2 ^ 31"
  define d where "d = B * 2 ^ 64 div (w * 2 ^ 32)"
  have "real (2 ^ 31) \<le> real w" using w(1) by (simp only: of_nat_le_iff)
  then have x: "2 ^ 62 \<le> x" by (simp add: x_def)
  have "s = sqrt (real (4 * B) * (2 ^ 31)\<^sup>2)" unfolding s_def by simp
  then have "s = sqrt (real (4 * B)) * 2 ^ 31" by (simp only: real_sqrt_mult real_sqrt_abs) simp
  then have "x - s = (real w - sqrt (real (4 * B))) * 2 ^ 31" by (simp add: x_def left_diff_distrib)
  then have "\<bar>x - s\<bar> = \<bar>real w - sqrt (real (4 * B))\<bar> * 2 ^ 31" by (simp only: abs_mult) simp
  then have "\<bar>x - s\<bar> \<le> 2 ^ 32" using w(2) by simp
  then have n: "s \<le> (x + s\<^sup>2 / x) / 2" "(x + s\<^sup>2 / x) / 2 \<le> s + 2"
    using newton_bounds [of "2 ^ 62" x s "2 ^ 32" 2] x by simp_all
  have "0 < w * 2 ^ 32" using w(1) by simp
  note db = real_of_nat_div_bounds [OF this, of "B * 2 ^ 64", folded d_def]
  define t where "t = s\<^sup>2 / x"
  have "s\<^sup>2 = real (B * 2 ^ 64)" by (simp add: s_def)
  then have q: "real (B * 2 ^ 64) / real (w * 2 ^ 32) = t / 2" by (simp add: t_def x_def)
  have "real d \<le> real z0" "real z0 \<le> real d + 2" using assms(3,4) unfolding d_def [symmetric] by simp_all
  note le = this(1,2)
  have zr: "real (z0 + w * 2 ^ 30) = real z0 + x / 2" by (simp add: x_def)
  have "s - 1 < real (z0 + w * 2 ^ 30)" unfolding zr using le(1) db(2) [unfolded q] n(1) [folded t_def] by (simp add: add_divide_distrib)
  moreover have "real (z0 + w * 2 ^ 30) \<le> s + 4" unfolding zr using le(2) db(1) [unfolded q] n(2) [folded t_def] by (simp add: add_divide_distrib)
  ultimately have "real Q < real (z0 + w * 2 ^ 30 + 1)" "real (z0 + w * 2 ^ 30) < real (Q + 5)"
    using Q unfolding s_def [symmetric] by simp_all
  then have "Q < z0 + w * 2 ^ 30 + 1" "z0 + w * 2 ^ 30 < Q + 5" by (simp_all only: of_nat_less_iff)
  then show "Q \<le> z0 + w * 2 ^ 30" and "z0 + w * 2 ^ 30 \<le> Q + 4" by simp_all
qed

lemma root64:
  fixes e :: int
  assumes m: "unat (f OR 0x0010000000000000) = m" and b: "2 ^ 52 \<le> m" "m < 2 ^ 53"
  defines "B \<equiv> (if e AND 1 = 0 then m * 2 ^ 9 else m * 2 ^ 8)"
  obtains z where "sqrtFloat64Sig e f st = Inr (roundAndPackFloat64 False ((e - 0x3FF) div 2 + 0x3FE) z st)"
    and "2 ^ 62 \<le> unat z" and "unat z < 2 ^ 63" and "cell 9 (sqrt (real (B * 2 ^ 64)) / 2 ^ 0) (unat z)"
proof -
  define g where "g = (f OR 0x0010000000000000 :: u64)"
  define a where "a = push_bit (nat (9 - (e AND 1))) g"
  have odd: "e AND 1 = 0 \<or> e AND 1 = 1" by (simp add: and_one_eq mod_2_eq_odd)
  have g: "unat g = m" using m by (simp add: g_def)
  have a: "unat a = B"
    unfolding a_def B_def using odd b by (auto simp: g unat_push_bit_less)
  have u: "(ucast (drop_bit 21 g) :: u32) = of_nat (m div 2 ^ 21)"
    unfolding g [symmetric] unat_drop_bit_div [symmetric] by (simp only: of_nat_unat)
  obtain w where est: "estimateSqrt32 e (of_nat (m div 2 ^ 21)) = Inr w" and w: "2 ^ 31 \<le> unat w" "\<bar>real (unat w) - sqrt (real (4 * B))\<bar> \<le> 2"
    using upper_root [OF b, of e] unfolding B_def by blast
  obtain Q where Q: "real Q \<le> sqrt (real (B * 2 ^ 64))" "sqrt (real (B * 2 ^ 64)) < real Q + 1" "Q\<^sup>2 \<le> B * 2 ^ 64" "B * 2 ^ 64 < (Q + 1)\<^sup>2"
    "sqrt (real (B * 2 ^ 64)) = real Q \<longleftrightarrow> B * 2 ^ 64 = Q\<^sup>2" by (rule integer_root)
  have "(2 ^ 62)\<^sup>2 \<le> B * 2 ^ 64" "B * 2 ^ 64 < (2 ^ 63 - 500)\<^sup>2" using b by (simp_all add: B_def)
  then have sq: "(2 ^ 62)\<^sup>2 < (Q + 1)\<^sup>2" "Q\<^sup>2 < (2 ^ 63 - 500)\<^sup>2" using Q(3,4) by linarith+
  have "2 ^ 62 < Q + 1" by (rule power_less_imp_less_base [OF sq(1)]) simp
  moreover have "Q < 2 ^ 63 - 500" by (rule power_less_imp_less_base [OF sq(2)]) simp
  ultimately have Qb: "2 ^ 62 \<le> Q" "Q < 2 ^ 63 - 500" by simp_all
  have uw: "unat (ucast w :: u64) = unat w" by (simp add: unsigned_ucast_eq take_bit_nat_eq_self less_trans [OF unat_u32_less])
  have w32: "unat (push_bit 32 (ucast w :: u64)) = unat w * 2 ^ 32" "unat (push_bit 30 (ucast w :: u64)) = unat w * 2 ^ 30"
    using unat_push_bit_less [of "ucast w :: u64" 32] unat_push_bit_less [of "ucast w :: u64" 30] unat_u32_less [of w] by (simp_all add: uw)
  have "2 ^ 63 \<le> unat (push_bit 32 (ucast w :: u64))" "unat a < unat (push_bit 32 (ucast w :: u64))"
    unfolding w32 a using w(1) b by (simp_all add: B_def)
  then obtain z0 where div: "estimateDiv128To64 a 0 (push_bit 32 (ucast w)) = Inr z0"
    and z0: "B * 2 ^ 64 div (unat w * 2 ^ 32) \<le> unat z0" "unat z0 \<le> B * 2 ^ 64 div (unat w * 2 ^ 32) + 2"
    by (rule estimateDiv128To64 [of "push_bit 32 (ucast w)" a 0]) (simp add: w32 a)
  note zQ = lower_root [OF w z0 Q(1,2)]
  define z where "z = z0 + push_bit 30 (ucast w)"
  have z: "unat z = unat z0 + unat w * 2 ^ 30"
    unfolding z_def w32 [symmetric] by (rule unat_add_less) (use zQ Qb in \<open>simp add: w32\<close>)
  have code: "sqrtFloat64Sig e f st = (if z AND 0x1FF \<le> 5 then
      (case sqrt64_loop z (push_bit 1 z) (sub128 a 0 (fst (mul64To128 z z)) (snd (mul64To128 z z))) of
         None \<Rightarrow> Inl Hang
       | Some (z, r0, r1) \<Rightarrow> Inr (roundAndPackFloat64 False ((e - 0x3FF) div 2 + 0x3FE) (z OR of_bool (r0 OR r1 \<noteq> 0)) st))
      else Inr (roundAndPackFloat64 False ((e - 0x3FF) div 2 + 0x3FE) z st))"
    unfolding sqrtFloat64Sig_def Let_def g_def [symmetric] u est sum.case a_def [symmetric] div z_def [symmetric] ..
  show ?thesis
  proof (cases "z AND 0x1FF \<le> 5")
    case False
    then have "5 < unat z mod 2 ^ 9" using and_mask_unat [of z 9] by (simp add: word_le_nat_alt mask_eq_exp_minus_1)
    then have "cell 9 (sqrt (real (B * 2 ^ 64))) (unat z)"
      using cell_approx [OF Q(1,2), of "unat z" 5 9] z zQ by simp
    then show ?thesis using False code z zQ Qb by (intro that [of z]) simp_all
  next
    case True
    have pa: "pair128 (a, 0) = int (B * 2 ^ 64)" unfolding pair128_def fst_conv snd_conv uint_nat a by simp
    have pz: "pair128 (mul64To128 z z) = (int (unat z))\<^sup>2" unfolding pair128_mul uint_nat power2_eq_square ..
    have "(unat z)\<^sup>2 \<le> (2 ^ 63)\<^sup>2" using z zQ Qb by (intro power_mono) simp_all
    then have l: "int ((unat z)\<^sup>2) \<le> int ((2 ^ 63)\<^sup>2)" by (simp only: of_nat_le_iff)
    have c: "int (B * 2 ^ 64) < 2 ^ 127" using b by (simp add: B_def)
    have r: "- (2 ^ 127) \<le> int (B * 2 ^ 64) - (int (unat z))\<^sup>2" "int (B * 2 ^ 64) - (int (unat z))\<^sup>2 < 2 ^ 127"
      using l le_less_trans [OF diff_left_mono [OF zero_le_power2 [of "int (unat z)"]], of "int (B * 2 ^ 64)"] c by simp_all
    have h: "holds128 (sub128 a 0 (fst (mul64To128 z z)) (snd (mul64To128 z z))) (int (B * 2 ^ 64) - (int (unat z))\<^sup>2)"
      using holds128_sub [OF pa pz r] by (simp only: fst_conv snd_conv)
    have zk: "unat z = Q + (unat z - Q)" using z zQ by simp
    have z63: "unat z < 2 ^ 63" using z zQ Qb by simp
    obtain z' r' where loop: "sqrt64_loop z (push_bit 1 z) (sub128 a 0 (fst (mul64To128 z z)) (snd (mul64To128 z z))) = Some (z', r')"
      "unat z' = Q" "fst r' OR snd r' = 0 \<longleftrightarrow> B * 2 ^ 64 = Q\<^sup>2"
      using sqrt64_loop [OF zk h Q(3,4) z63] by auto
    let ?z = "z' OR of_bool (fst r' OR snd r' \<noteq> 0)"
    have zq: "unat ?z = (if sqrt (real (B * 2 ^ 64)) = real Q then Q else Q div 2 * 2 + 1)"
      unfolding unat_or_rest loop(2) Q(5) loop(3) [symmetric] by simp
    have "cell 9 (sqrt (real (B * 2 ^ 64))) (unat ?z)"
      unfolding zq by (rule cell_coarser [OF cell_floor [OF Q(1,2)]]) simp
    moreover have "2 ^ 62 \<le> unat ?z" "unat ?z < 2 ^ 63" using Qb unfolding zq by auto
    moreover have "sqrtFloat64Sig e f st = Inr (roundAndPackFloat64 False ((e - 0x3FF) div 2 + 0x3FE) ?z st)"
      unfolding code loop(1) using True by (cases r') simp
    ultimately show ?thesis by (intro that [of ?z]) simp_all
  qed
qed

lemma root_scale64:
  fixes e :: int
  assumes B: "B = (if e AND 1 = 0 then m * 2 ^ 9 else m * 2 ^ 8)"
  shows "(sqrt (real (B * 2 ^ 64)) / 2 ^ 0 / 2 ^ 10 * 2 powi ((e - 0x3FF) div 2 + 0x3FE))\<^sup>2 = real m * 2 powi (e - 1) * 2 ^ 1074"
proof -
  have s: "(sqrt (real (B * 2 ^ 64)))\<^sup>2 = real B * 2 ^ 64" by simp
  have p: "((2 :: real) powi k)\<^sup>2 = 2 powi (2 * k)" for k
    unfolding power2_eq_square mult_2 by (rule power_int_add [symmetric]) simp
  consider n where "e = 2 * n" | n where "e = 2 * n + 1" by (metis evenE oddE)
  then show ?thesis
  proof cases
    case 1
    then have k: "2 * ((e - 0x3FF) div 2 + 0x3FE) = e + 0x3FC" by presburger
    have b: "B = m * 2 ^ 9" using 1 B by (simp add: and_one_eq)
    show ?thesis unfolding power_mult_distrib power_divide s p k b by (simp add: power_int_add power_int_diff)
  next
    case 2
    then have k: "2 * ((e - 0x3FF) div 2 + 0x3FE) = e + 0x3FD" by presburger
    have b: "B = m * 2 ^ 8" using 2 B by (simp add: and_one_eq)
    show ?thesis unfolding power_mult_distrib power_divide s p k b by (simp add: power_int_add power_int_diff)
  qed
qed

lemma sqrt_rounds64:
  assumes fin: "f64_finite a" and pos: "0 \<le> f64_value a"
  shows "\<exists>r. float64_sqrt a zero_status = Inr r \<and> rounds64 (sqrt (f64_value a)) (extractFloat64Sign a) (fst r)"
proof -
  let ?A = "fmag 52 (f64_mag a)" and ?s = "extractFloat64Sign a"
  have nf: "extractFloat64Exp a \<noteq> 0x7FF" using fin by (simp add: f64_finite_def)
  show ?thesis
  proof (cases "?A = 0")
    case True
    then have z: "extractFloat64Exp a = 0" "extractFloat64Frac a = 0" unfolding finite_zero64 [symmetric] by simp_all
    have m: "f64_mag a = 0" unfolding mag_split64 z by simp
    have u: "unat a = of_bool ?s * 2 ^ 63" using word_sign_mag64 [of a] m by simp
    have "float64_sqrt a zero_status = Inr (a, zero_status)"
    proof (cases ?s)
      case False
      then have "a = 0" using u by (simp add: unat_eq_zero)
      then show ?thesis using nf z False by (simp add: float64_sqrt_def float64_squash_input_denormal_def Let_def)
    qed (use nf z in \<open>simp add: float64_sqrt_def float64_squash_input_denormal_def Let_def\<close>)
    moreover have "f64_value a = 0" using True by (simp add: f64_value_def)
    ultimately show ?thesis using rounds64_pack [of a ?s 0 0 ?s] nearest_even_exact [of 0 "0x7FF0000000000000" 52] u by (simp add: fmag_def)
  next
    case False
    then have az: "\<not> (extractFloat64Exp a = 0 \<and> extractFloat64Frac a = 0)" unfolding finite_zero64 .
    have s: "\<not> ?s" using pos False by (auto simp: value_neg64 zero_le_divide_iff)
    obtain e f m where a: "normal64 (extractFloat64Exp a) (extractFloat64Frac a) = (e, f)" "unat (f OR 0x0010000000000000) = m"
      "2 ^ 52 \<le> m" "m < 2 ^ 53" "real ?A = real m * 2 powi (e - 1)" "- 100 < e" "e < 0x7FF"
      by (rule normal_operand64 [OF fin az])
    define k where "k = (e - 0x3FF) div 2 + 0x3FE"
    define B where "B = (if e AND 1 = 0 then m * 2 ^ 9 else m * 2 ^ 8)"
    define y where "y = sqrt (real (B * 2 ^ 64)) / 2 ^ 0"
    obtain z where q: "sqrtFloat64Sig e f zero_status = Inr (roundAndPackFloat64 False k z zero_status)"
      and z: "2 ^ 62 \<le> unat z" "unat z < 2 ^ 63" and c: "cell 9 y (unat z)"
      unfolding k_def y_def B_def by (rule root64 [OF a(2-4), of e zero_status])
    let ?r = "fst (roundAndPackFloat64 False k z zero_status)"
    have r: "float64_sqrt a zero_status = Inr (roundAndPackFloat64 False k z zero_status)"
      using nf az s a(1) q by (auto simp: float64_sqrt_def float64_squash_input_denormal_def Let_def)
    have er: "- 60000 < k" "k < 60000" using a(6,7) by (simp_all add: k_def)
    have "(y / 2 ^ 10 * 2 powi k)\<^sup>2 = real ?A * 2 ^ 1074"
      using root_scale64 [OF B_def] unfolding a(5) y_def k_def by simp
    then have "y / 2 ^ 10 * 2 powi k = sqrt (real ?A * 2 ^ 1074)"
      by (intro real_sqrt_unique [symmetric]) (simp_all add: y_def)
    then have x: "nearest_even 52 0x7FF0000000000000 (sqrt (real ?A * 2 ^ 1074)) (round_pack 52 10 0x7FD k (unat z))"
      using round_pack_nearest [of 10 52 y "unat z" "0x7FD" k] z c unfolding inf64 by simp
    have m: "nearest_even 52 0x7FF0000000000000 (sqrt (real ?A * 2 ^ 1074)) (f64_mag ?r)" "extractFloat64Sign ?r = False"
      using x sign_mag64 [OF roundAndPack64(1) [OF z er]] roundAndPack64(2) [OF z er] by simp_all
    have v: "sqrt (f64_value a) = (if False then - sqrt (real ?A * 2 ^ 1074) else sqrt (real ?A * 2 ^ 1074)) / 2 ^ 1074"
    proof -
      have "f64_value a = real ?A * 2 ^ 1074 / (2 ^ 1074)\<^sup>2" using s by (simp add: value_neg64 power2_eq_square)
      then have "sqrt (f64_value a) = sqrt (real ?A * 2 ^ 1074) / sqrt ((2 ^ 1074)\<^sup>2)" by (simp only: real_sqrt_divide)
      then show ?thesis by (simp only: real_sqrt_abs if_False) simp
    qed
    have "0 < sqrt (real ?A * 2 ^ 1074)" using False by simp
    then have "rounds64 (sqrt (f64_value a)) ?s ?r" unfolding v by (rule rounds64_signed [OF _ m])
    then show ?thesis unfolding r by auto
  qed
qed

end
