(* ===== verification/Float_Correct.thy ===== *)
theory Float_Correct
  imports Decode Softfloat_Single Softfloat_Double
begin

text \<open>
  What the arithmetic handlers of the floating point unit leave in their destination registers: for finite
  operands the correctly rounded result, in single and in double precision. Division and square root end
  for all operands, so their loops of corrections terminate.
\<close>

section \<open>Results of handlers\<close>

text \<open>A handler ends with the rounded \<open>x\<close> in its destination and changes nothing else.\<close>

definition result32 :: "handler \<Rightarrow> config \<Rightarrow> u32 \<Rightarrow> nemu \<Rightarrow> real \<Rightarrow> bool \<Rightarrow> bool" where
  "result32 h cfg i s x neg \<longleftrightarrow> (\<exists>r. h cfg i s = fin (set_fpr (inst_fd i) r s) \<and> rounds32 x neg r)"

definition result64 :: "handler \<Rightarrow> config \<Rightarrow> u32 \<Rightarrow> nemu \<Rightarrow> real \<Rightarrow> bool \<Rightarrow> bool" where
  "result64 h cfg i s x neg \<longleftrightarrow> (\<exists>r. h cfg i s = fin (set_fpr64 (inst_fd i div 2) r s) \<and> rounds64 x neg r)"

lemma fp_result_Inl: "fp_result (Inl f) put s = Inl (f, s)"
  by (simp add: fp_result_def)

lemma fp_result_Inr: "r = Inr v \<Longrightarrow> fp_result r put s = fin (put (fst v) s)"
  by (cases v) (simp add: fp_result_def)

text \<open>Registers and values for the examples.\<close>

definition fp_regs :: "u32 \<Rightarrow> u32 \<Rightarrow> nemu" where
  "fp_regs v1 v3 = set_fpr 3 v3 (set_fpr 1 v1 (nemu_globals MODE_BATCH (\<lambda>_. 0) 0))"

lemma fp_regs_simps:
  "fpr32i (cpu (fp_regs v1 v3)) 1 = v1" "fpr32i (cpu (fp_regs v1 v3)) 3 = v3"
  "fpr64i (cpu (fp_regs v1 v3)) 0 = L64_make v1 0" "fpr64i (cpu (fp_regs v1 v3)) 1 = L64_make v3 0"
  by (simp_all add: fp_regs_def fpr64i_def set_fpr_def nemu_globals_def zero_cpu_def)

lemmas f32_examples = f32_finite_def f32_value_def f32_mag_def fmag_def extractFloat32Exp_def extractFloat32Sign_def
lemmas f64_examples = f64_finite_def f64_value_def f64_mag_def fmag_def extractFloat64Exp_def extractFloat64Sign_def L64_make_def

lemma fp_inst_fields:
  "inst_fs 0x46030803 = 1" "inst_ft 0x46030803 = 3" "inst_fs 0x46230803 = 1" "inst_ft 0x46230803 = 3" "inst_fs 0x46000804 = 1"
  by (simp_all add: inst_fs_def inst_ft_def bf_get_def)

section \<open>Rounded results\<close>

text \<open>
  C10: For finite operands, \<^verbatim>\<open>add.s\<close>, \<^verbatim>\<open>sub.s\<close>, \<^verbatim>\<open>mul.s\<close> and, for a divisor that is not zero,
  \<^verbatim>\<open>div.s\<close> write to their destination the single precision value nearest to the exact sum,
  difference, product or quotient of the values of their operands, ties to the even pattern (an infinity beyond the
  largest finite value), with the sign of IEEE 754 for a zero, and change nothing else.
\<close>

theorem single_arithmetic_rounded:
  assumes "a = fpr32i (cpu s) (inst_fs i)" and "b = fpr32i (cpu s) (inst_ft i)" and "f32_finite a" and "f32_finite b"
  shows "result32 exec_add_s cfg i s (f32_value a + f32_value b) (extractFloat32Sign a \<and> extractFloat32Sign b) \<and>
         result32 exec_sub_s cfg i s (f32_value a - f32_value b) (extractFloat32Sign a \<and> \<not> extractFloat32Sign b) \<and>
         result32 exec_mul_s cfg i s (f32_value a * f32_value b) (extractFloat32Sign a \<noteq> extractFloat32Sign b) \<and>
         (f32_value b \<noteq> 0 \<longrightarrow>
            result32 exec_div_s cfg i s (f32_value a / f32_value b) (extractFloat32Sign a \<noteq> extractFloat32Sign b))"
  using assms add_rounds32 [of a b] sub_rounds32 [of a b] mul_rounds32 [of a b] div_rounds32 [of a b]
  by (auto simp: result32_def exec_add_s_def exec_sub_s_def exec_mul_s_def exec_div_s_def fp_s2_def)

theorem single_arithmetic_rounded_witness:
  "result32 exec_add_s mips32r1_defconfig 0x46030803 (fp_regs 0x3f800000 0x40400000) 4 False \<and>
   result32 exec_div_s mips32r1_defconfig 0x46030803 (fp_regs 0x3f800000 0x40400000) (1 / 3) False"
proof -
  have v: "f32_finite 0x3f800000" "f32_finite 0x40400000" "f32_value 0x3f800000 = 1" "f32_value 0x40400000 = 3"
    "\<not> extractFloat32Sign 0x3f800000" "\<not> extractFloat32Sign 0x40400000" by (simp_all add: f32_examples)
  show ?thesis
    using single_arithmetic_rounded [OF refl refl, of "fp_regs 0x3f800000 0x40400000" "0x46030803" mips32r1_defconfig]
    unfolding fp_inst_fields fp_regs_simps by (simp add: v)
qed

text \<open>
  C11: The same in double precision; in particular \<^verbatim>\<open>div.d\<close> ends, although its estimate of the
  quotient is corrected in loops.
\<close>

theorem double_arithmetic_rounded:
  assumes "a = fpr64i (cpu s) (inst_fs i div 2)" and "b = fpr64i (cpu s) (inst_ft i div 2)" and "f64_finite a" and "f64_finite b"
  shows "result64 exec_add_d cfg i s (f64_value a + f64_value b) (extractFloat64Sign a \<and> extractFloat64Sign b) \<and>
         result64 exec_sub_d cfg i s (f64_value a - f64_value b) (extractFloat64Sign a \<and> \<not> extractFloat64Sign b) \<and>
         result64 exec_mul_d cfg i s (f64_value a * f64_value b) (extractFloat64Sign a \<noteq> extractFloat64Sign b) \<and>
         (f64_value b \<noteq> 0 \<longrightarrow>
            result64 exec_div_d cfg i s (f64_value a / f64_value b) (extractFloat64Sign a \<noteq> extractFloat64Sign b))"
  using assms add_rounds64 [of a b] sub_rounds64 [of a b] mul_rounds64 [of a b] div_rounds64 [of a b]
  by (auto simp: result64_def exec_add_d_def exec_sub_d_def exec_mul_d_def exec_div_d_def fp_d2_def fp_result_Inr) blast

theorem double_arithmetic_rounded_witness:
  "result64 exec_add_d mips32r1_defconfig 0x46230803 (fp_regs 0x3ff00000 0x40080000) 4 False \<and>
   result64 exec_div_d mips32r1_defconfig 0x46230803 (fp_regs 0x3ff00000 0x40080000) (1 / 3) False"
proof -
  have v: "f64_finite (L64_make 0x3ff00000 0)" "f64_finite (L64_make 0x40080000 0)"
    "f64_value (L64_make 0x3ff00000 0) = 1" "f64_value (L64_make 0x40080000 0) = 3"
    "\<not> extractFloat64Sign (L64_make 0x3ff00000 0)" "\<not> extractFloat64Sign (L64_make 0x40080000 0)"
    by (simp_all add: f64_examples)
  have d: "(1 :: nat) div 2 = 0" "(3 :: nat) div 2 = 1" by simp_all
  show ?thesis
    using double_arithmetic_rounded [OF refl refl, of "fp_regs 0x3ff00000 0x40080000" "0x46230803" mips32r1_defconfig]
    unfolding fp_inst_fields d fp_regs_simps by (simp add: v)
qed

text \<open>
  C12: For a finite operand that is not less than zero, \<^verbatim>\<open>sqrt.s\<close> ends and writes
  the single precision value nearest to the square root, ties to even, and so does \<^verbatim>\<open>sqrt.d\<close>
  in double precision, each with a condition on its own operand alone; the root of a zero is that zero.
\<close>

theorem square_root_rounded:
  "(f32_finite (fpr32i (cpu s) (inst_fs i)) \<and> 0 \<le> f32_value (fpr32i (cpu s) (inst_fs i)) \<longrightarrow>
     result32 exec_sqrt_s cfg i s (sqrt (f32_value (fpr32i (cpu s) (inst_fs i)))) (extractFloat32Sign (fpr32i (cpu s) (inst_fs i)))) \<and>
   (f64_finite (fpr64i (cpu s) (inst_fs i div 2)) \<and> 0 \<le> f64_value (fpr64i (cpu s) (inst_fs i div 2)) \<longrightarrow>
     result64 exec_sqrt_d cfg i s (sqrt (f64_value (fpr64i (cpu s) (inst_fs i div 2)))) (extractFloat64Sign (fpr64i (cpu s) (inst_fs i div 2))))"
  using sqrt_rounds32 [of "fpr32i (cpu s) (inst_fs i)"] sqrt_rounds64 [of "fpr64i (cpu s) (inst_fs i div 2)"]
  by (auto simp: result32_def result64_def exec_sqrt_s_def exec_sqrt_d_def fp_result_Inr) blast+

theorem square_root_rounded_witness:
  "result32 exec_sqrt_s mips32r1_defconfig 0x46000804 (fp_regs 0x40100000 0) (sqrt (9 / 4)) False \<and>
   result64 exec_sqrt_d mips32r1_defconfig 0x46000804 (fp_regs 0x40100000 0) (sqrt 4) False"
proof -
  have v: "f32_finite 0x40100000" "f64_finite (L64_make 0x40100000 0)"
    "f32_value 0x40100000 = 9 / 4" "f64_value (L64_make 0x40100000 0) = 4"
    "\<not> extractFloat32Sign 0x40100000" "\<not> extractFloat64Sign (L64_make 0x40100000 0)"
    by (simp_all add: f32_examples f64_examples)
  have d: "(1 :: nat) div 2 = 0" by simp
  show ?thesis
    using square_root_rounded [of "fp_regs 0x40100000 0" "0x46000804" mips32r1_defconfig]
    unfolding fp_inst_fields d fp_regs_simps by (simp add: v)
qed

text \<open>
  C14: \<^verbatim>\<open>trunc.w.s\<close> and \<^verbatim>\<open>trunc.w.d\<close> write the integer nearest to a finite operand, ties to even, or the nearest
  representable one when that one does not fit: they round, where the architecture asks them to truncate. An operand that rounds to
  \<open>- (2 ^ 31)\<close>, which is representable, meets an undefined negation in the library, and operands
  below it may.
\<close>

theorem trunc_rounds_to_nearest:
  assumes "x = f32_value (fpr32i (cpu s) (inst_fs i)) \<and> f32_finite (fpr32i (cpu s) (inst_fs i)) \<and> h = exec_trunc_w_s \<or>
           x = f64_value (fpr64i (cpu s) (inst_fs i div 2)) \<and> f64_finite (fpr64i (cpu s) (inst_fs i div 2)) \<and> h = exec_trunc_w_d"
  shows "\<exists>n. nearest_int x n \<and>
     (if n = - (2 ^ 31) then h cfg i s = Inl (UndefinedBehaviour, s)
      else (\<exists>r. h cfg i s = fin (set_fpr (inst_fd i) r s) \<and> sint r = clamp32 n) \<or>
           n < - (2 ^ 31) \<and> h cfg i s = Inl (UndefinedBehaviour, s))"
proof -
  have "\<exists>res. converts32 x res \<and> h cfg i s = fp_result res (set_fpr (inst_fd i)) s"
    using assms to_int32_rounds32 [of "fpr32i (cpu s) (inst_fs i)"] to_int32_rounds64 [of "fpr64i (cpu s) (inst_fs i div 2)"]
    by (auto simp: exec_trunc_w_s_def exec_trunc_w_d_def)
  then obtain res n where "nearest_int x n" "h cfg i s = fp_result res (set_fpr (inst_fd i)) s"
    and "if n = - (2 ^ 31) then res = Inl UndefinedBehaviour
      else (\<exists>r. res = Inr r \<and> sint (fst r) = clamp32 n) \<or> n < - (2 ^ 31) \<and> res = Inl UndefinedBehaviour"
    unfolding converts32_def by blast
  then show ?thesis by (intro exI [of _ n]) (auto simp: fp_result_Inr fp_result_Inl split: if_splits)
qed

theorem trunc_rounds_to_nearest_witness:
  "(\<exists>r. exec_trunc_w_d mips32r1_defconfig 0x46000804 (fp_regs 0x3ff80000 0) = fin (set_fpr 0 r (fp_regs 0x3ff80000 0)) \<and> sint r = 2) \<and>
   exec_trunc_w_d mips32r1_defconfig 0x46000804 (fp_regs 0xc1e00000 0) = Inl (UndefinedBehaviour, fp_regs 0xc1e00000 0)"
proof -
  have v: "f64_finite (L64_make 0x3ff80000 0)" "f64_value (L64_make 0x3ff80000 0) = 3 / 2"
    "f64_finite (L64_make 0xc1e00000 0)" "f64_value (L64_make 0xc1e00000 0) = - (2 ^ 31)"
    by (simp_all add: f64_examples)
  have d: "(1 :: nat) div 2 = 0" "inst_fd 0x46000804 = 0" by (simp_all add: inst_fd_def bf_get_def)
  have n: "n = 2" if "nearest_int (3 / 2) n" for n
  proof -
    have "real_of_int n \<le> 2" "1 \<le> real_of_int n" using that unfolding nearest_int_def by linarith+
    then have "n = 1 \<or> n = 2" by fastforce
    then show ?thesis using that by (auto simp: nearest_int_def)
  qed
  have m: "n = - (2 ^ 31)" if "nearest_int (- (2 ^ 31)) n" for n
  proof -
    have "real_of_int n < - (2 ^ 31) + 1" "- (2 ^ 31) - 1 < real_of_int n" using that unfolding nearest_int_def by linarith+
    then show ?thesis by simp
  qed
  obtain k where k: "nearest_int (3 / 2) k" "if k = - (2 ^ 31) then exec_trunc_w_d mips32r1_defconfig 0x46000804 (fp_regs 0x3ff80000 0) = Inl (UndefinedBehaviour, fp_regs 0x3ff80000 0)
      else (\<exists>r. exec_trunc_w_d mips32r1_defconfig 0x46000804 (fp_regs 0x3ff80000 0) = fin (set_fpr 0 r (fp_regs 0x3ff80000 0)) \<and> sint r = clamp32 k) \<or>
           k < - (2 ^ 31) \<and> exec_trunc_w_d mips32r1_defconfig 0x46000804 (fp_regs 0x3ff80000 0) = Inl (UndefinedBehaviour, fp_regs 0x3ff80000 0)"
    using trunc_rounds_to_nearest [of "3 / 2" "fp_regs 0x3ff80000 0" "0x46000804" exec_trunc_w_d mips32r1_defconfig]
    unfolding fp_inst_fields d fp_regs_simps by (auto simp only: v)
  have "\<exists>r. exec_trunc_w_d mips32r1_defconfig 0x46000804 (fp_regs 0x3ff80000 0) = fin (set_fpr 0 r (fp_regs 0x3ff80000 0)) \<and> sint r = 2"
    using k(2) unfolding n [OF k(1)] by (simp add: clamp32_def)
  moreover have "exec_trunc_w_d mips32r1_defconfig 0x46000804 (fp_regs 0xc1e00000 0) = Inl (UndefinedBehaviour, fp_regs 0xc1e00000 0)"
    using trunc_rounds_to_nearest [of "- (2 ^ 31)" "fp_regs 0xc1e00000 0" "0x46000804" exec_trunc_w_d mips32r1_defconfig] m
    unfolding fp_inst_fields d fp_regs_simps by (auto simp: v)
  ultimately show ?thesis ..
qed

section \<open>All operands\<close>

lemma float64_div_returns: "\<exists>r. float64_div a b zero_status = Inr r"
proof (cases "f64_finite a \<and> f64_finite b \<and> f64_value b \<noteq> 0")
  case True
  then show ?thesis using div_rounds64 [of a b] by blast
next
  case False
  then have "extractFloat64Exp a = 0x7FF \<or> extractFloat64Exp b = 0x7FF \<or> extractFloat64Exp b = 0 \<and> extractFloat64Frac b = 0"
    using finite_zero64 [of b] by (auto simp: f64_finite_def value_neg64 split: if_splits)
  then show ?thesis by (auto simp: float64_div_def float64_squash_input_denormal_def Let_def)
qed

lemma float32_sqrt_returns: "\<exists>r. float32_sqrt a zero_status = Inr r"
proof (cases "f32_finite a \<and> 0 \<le> f32_value a")
  case True
  then show ?thesis using sqrt_rounds32 [of a] by blast
next
  case False
  then have "extractFloat32Exp a = 0xFF \<or> extractFloat32Sign a" by (auto simp: f32_finite_def f32_value_def)
  then show ?thesis by (auto simp: float32_sqrt_def float32_squash_input_denormal_def Let_def)
qed

lemma float64_sqrt_returns: "\<exists>r. float64_sqrt a zero_status = Inr r"
proof (cases "f64_finite a \<and> 0 \<le> f64_value a")
  case True
  then show ?thesis using sqrt_rounds64 [of a] by blast
next
  case False
  then have "extractFloat64Exp a = 0x7FF \<or> extractFloat64Sign a" by (auto simp: f64_finite_def f64_value_def)
  then show ?thesis by (auto simp: float64_sqrt_def float64_squash_input_denormal_def Let_def)
qed

lemma roundAndPackInt32_returns:
  "(\<exists>r. roundAndPackInt32 z a st = Inr r) \<or> roundAndPackInt32 z a st = Inl UndefinedBehaviour"
  by (simp add: roundAndPackInt32_def Let_def)

lemma to_int32_returns:
  "(\<exists>r. float32_to_int32 a st = Inr r) \<or> float32_to_int32 a st = Inl UndefinedBehaviour"
  "(\<exists>r. float64_to_int32 b st = Inr r) \<or> float64_to_int32 b st = Inl UndefinedBehaviour"
  unfolding float32_to_int32_def float64_to_int32_def Let_def prod.case_eq_if by (rule roundAndPackInt32_returns)+

text \<open>C's conversion to an integer is the truncated value, where it is defined.\<close>

definition truncated :: "real \<Rightarrow> int" where
  "truncated x = (if 0 \<le> x then \<lfloor>x\<rfloor> else \<lceil>x\<rceil>)"

lemma trunc_i32_value:
  assumes "x = (if neg then - real m else real m) / 2 ^ q"
  shows "trunc_i32 neg m q =
     (if - (2 ^ 31) - 1 < x \<and> x < 2 ^ 31 then Inr (word_of_int (truncated x)) else Inl UndefinedBehaviour)"
proof -
  define k where "k = int (m div 2 ^ q)"
  define y where "y = real m / 2 ^ q"
  have "\<lfloor>real m / real (2 ^ q)\<rfloor> = k" unfolding k_def by (rule floor_divide_of_nat_eq)
  then have y: "\<lfloor>y\<rfloor> = k" "0 \<le> y" "x = (if neg then - y else y)" using assms by (simp_all add: y_def)
  have t: "truncated x = (if neg then - k else k)"
    using y by (cases "y = 0") (auto simp: truncated_def ceiling_minus)
  have "- (2 ^ 31) \<le> truncated x \<longleftrightarrow> - (2 ^ 31) - 1 < x" "truncated x < 2 ^ 31 \<longleftrightarrow> x < 2 ^ 31"
    by (auto simp: truncated_def less_ceiling_iff le_floor_iff ceiling_less_iff floor_less_iff le_ceiling_iff)
  then show ?thesis unfolding trunc_i32_def Let_def t [symmetric] k_def [symmetric] by simp
qed

lemma cast_i32_value:
  "f32_finite a \<Longrightarrow> f32_cast_i32 a =
     (if - (2 ^ 31) - 1 < f32_value a \<and> f32_value a < 2 ^ 31 then Inr (word_of_int (truncated (f32_value a))) else Inl UndefinedBehaviour)"
  "f64_finite b \<Longrightarrow> f64_cast_i32 b =
     (if - (2 ^ 31) - 1 < f64_value b \<and> f64_value b < 2 ^ 31 then Inr (word_of_int (truncated (f64_value b))) else Inl UndefinedBehaviour)"
  "\<not> f32_finite a \<Longrightarrow> f32_cast_i32 a = Inl UndefinedBehaviour" "\<not> f64_finite b \<Longrightarrow> f64_cast_i32 b = Inl UndefinedBehaviour"
proof -
  assume fin: "f32_finite a"
  have "f32_cast_i32 a = trunc_i32 (extractFloat32Sign a) (fmag 23 (f32_mag a)) 149"
    using fin sig_bounds32(4) [of a] unfolding fmag_sig32 by (auto simp: f32_cast_i32_def f32_finite_def sig32_def Let_def max_def)
  then show "f32_cast_i32 a = (if - (2 ^ 31) - 1 < f32_value a \<and> f32_value a < 2 ^ 31 then Inr (word_of_int (truncated (f32_value a))) else Inl UndefinedBehaviour)"
    using trunc_i32_value [OF value_neg32] by simp
next
  assume fin: "f64_finite b"
  have "f64_cast_i32 b = trunc_i32 (extractFloat64Sign b) (fmag 52 (f64_mag b)) 1074"
    using fin sig_bounds64(4) [of b] unfolding fmag_sig64 by (auto simp: f64_cast_i32_def f64_finite_def sig64_def Let_def max_def)
  then show "f64_cast_i32 b = (if - (2 ^ 31) - 1 < f64_value b \<and> f64_value b < 2 ^ 31 then Inr (word_of_int (truncated (f64_value b))) else Inl UndefinedBehaviour)"
    using trunc_i32_value [OF value_neg64] by simp
qed (simp_all add: f32_cast_i32_def f64_cast_i32_def f32_finite_def f64_finite_def Let_def)

lemma cvt_w_value:
  "exec_cvt_w_s cfg i s =
     (let a = fpr32i (cpu s) (inst_fs i)
      in if f32_finite a \<and> - (2 ^ 31) - 1 < f32_value a \<and> f32_value a < 2 ^ 31
         then fin (set_fpr (inst_fd i) (word_of_int (truncated (f32_value a))) s) else Inl (UndefinedBehaviour, s))"
  "exec_cvt_w_d cfg i s =
     (let b = fpr64i (cpu s) (inst_fs i div 2)
      in if f64_finite b \<and> - (2 ^ 31) - 1 < f64_value b \<and> f64_value b < 2 ^ 31
         then fin (set_fpr (inst_fd i) (word_of_int (truncated (f64_value b))) s) else Inl (UndefinedBehaviour, s))"
  by (cases "f32_finite (fpr32i (cpu s) (inst_fs i))"; simp add: exec_cvt_w_s_def cast_i32_value Let_def)
     (cases "f64_finite (fpr64i (cpu s) (inst_fs i div 2))"; simp add: exec_cvt_w_d_def cast_i32_value Let_def)

text \<open>
  C13: Every arithmetic instruction of the floating point unit ends, whatever its operands (not-a-numbers,
  infinities and zero divisors too): no loop of the software floating point library runs forever and no
  division by zero happens inside it. Only the four conversions to integers, \<^verbatim>\<open>trunc.w\<close> and \<^verbatim>\<open>cvt.w\<close> in
  both formats, can stop in undefined behaviour. \<^verbatim>\<open>cvt.w\<close> does so exactly when its operand is not finite or
  its integral part does not fit in 32 bits; otherwise it writes the operand truncated towards zero.
\<close>

theorem float_arithmetic_ends:
  "((\<exists>t. goto_float_arith fo l cfg i s = fin t) \<or>
    l \<in> {L_trunc_w_s, L_trunc_w_d, L_cvt_w_s, L_cvt_w_d} \<and> goto_float_arith fo l cfg i s = Inl (UndefinedBehaviour, s)) \<and>
   goto_float_arith fo L_cvt_w_s cfg i s =
     (let x = f32_value (fpr32i (cpu s) (inst_fs i))
      in if f32_finite (fpr32i (cpu s) (inst_fs i)) \<and> - (2 ^ 31) - 1 < x \<and> x < 2 ^ 31
         then fin (set_fpr (inst_fd i) (word_of_int (if 0 \<le> x then \<lfloor>x\<rfloor> else \<lceil>x\<rceil>)) s) else Inl (UndefinedBehaviour, s)) \<and>
   goto_float_arith fo L_cvt_w_d cfg i s =
     (let x = f64_value (fpr64i (cpu s) (inst_fs i div 2))
      in if f64_finite (fpr64i (cpu s) (inst_fs i div 2)) \<and> - (2 ^ 31) - 1 < x \<and> x < 2 ^ 31
         then fin (set_fpr (inst_fd i) (word_of_int (if 0 \<le> x then \<lfloor>x\<rfloor> else \<lceil>x\<rceil>)) s) else Inl (UndefinedBehaviour, s))"
proof -
  have "\<exists>t. fp_result (float64_div a b zero_status) put s = fin t" for a b put
    using float64_div_returns [of a b] by (auto simp: fp_result_Inr)
  moreover have "\<exists>t. fp_result (float32_sqrt a zero_status) put s = fin t" for a put
    using float32_sqrt_returns [of a] by (auto simp: fp_result_Inr)
  moreover have "\<exists>t. fp_result (float64_sqrt a zero_status) put s = fin t" for a put
    using float64_sqrt_returns [of a] by (auto simp: fp_result_Inr)
  moreover have "(\<exists>t. fp_result (float32_to_int32 a zero_status) put s = fin t) \<or>
      fp_result (float32_to_int32 a zero_status) put s = Inl (UndefinedBehaviour, s)" for a put
    using to_int32_returns(1) [of a zero_status] by (auto simp: fp_result_Inr fp_result_Inl)
  moreover have "(\<exists>t. fp_result (float64_to_int32 a zero_status) put s = fin t) \<or>
      fp_result (float64_to_int32 a zero_status) put s = Inl (UndefinedBehaviour, s)" for a put
    using to_int32_returns(2) [of a zero_status] by (auto simp: fp_result_Inr fp_result_Inl)
  ultimately have "(\<exists>t. goto_float_arith fo l cfg i s = fin t) \<or>
      l \<in> {L_trunc_w_s, L_trunc_w_d, L_cvt_w_s, L_cvt_w_d} \<and> goto_float_arith fo l cfg i s = Inl (UndefinedBehaviour, s)"
    by (cases l; simp add: exec_add_s_def exec_add_d_def exec_sub_s_def exec_sub_d_def exec_mul_s_def exec_mul_d_def
        exec_div_s_def exec_div_d_def exec_sqrt_s_def exec_sqrt_d_def exec_abs_s_def exec_abs_d_def exec_mov_s_def exec_mov_d_def
        exec_neg_s_def exec_neg_d_def exec_trunc_w_s_def exec_trunc_w_d_def exec_cvt_d_s_def exec_cvt_s_d_def
        cvt_w_value exec_cvt_s_w_def exec_cvt_d_w_def fp_s1_def fp_s2_def fp_d1_def fp_d2_def fin_def Let_def)
  then show ?thesis by (simp add: cvt_w_value truncated_def Let_def)
qed

end
