(* ===== verification/Spec2Isabelle.thy ===== *)
theory Spec2Isabelle
  imports Mmu_Cache Decode_Cache Profile Disk Keyboard Vga Ethernet Difftest Kernel_Debug Float_Correct
begin

text \<open>
  \<^bold>\<open>NEMU-MIPS32: a verified model of the emulator.\<close>

  The program is an emulator of a MIPS32 computer: a processor with coprocessor 0, a TLB and a
  floating point unit, memories and devices on a bus of 4 KB regions, and a loop that fetches,
  decodes and executes. This development translates it from the C sources under
  \<^verbatim>\<open>src/\<close> and proves what makes it correct.

  \<^bold>\<open>How the parts work together.\<close> \<^verbatim>\<open>init_mmio\<close> enters the registered devices into
  the table of regions, \<^verbatim>\<open>init_cpu\<close> resets the processor and stores the command line.
  \<^verbatim>\<open>cpu_exec\<close> repeats: fetch through \<^verbatim>\<open>vaddr_read\<close> (segment, TLB, region
  table, device), decode through twelve tables of labels, run the handler, finish the instruction
  (the delay slot), and take a pending exception or interrupt. Handlers reach memory and devices
  through \<^verbatim>\<open>vaddr_read\<close> and \<^verbatim>\<open>vaddr_write\<close>, and raise exceptions through
  \<^verbatim>\<open>raise_exception\<close>. Devices raise interrupt lines through \<^verbatim>\<open>nemu_set_irq\<close>.

  \<^bold>\<open>State.\<close> All C globals are fields of one record \<open>nemu\<close> (theory \<open>Nemu_State\<close>): the
  processor \<open>CPU_state\<close>, the TLB, the cached translations, the table of regions, the two memories,
  the UART, the SPI controller with its flash memory, the run state, and what the code asks of the host (random numbers, the time, standard
  output). The compile-time options are the record \<open>config\<close>, an argument of the operations, so the
  theorems cover the builds that their hypotheses admit; \<open>mips32r1_defconfig\<close> is
  \<^verbatim>\<open>configs/mips32r1_defconfig\<close>. Bit-fields are slices of words, \<^verbatim>\<open>uint32_t\<close> is
  \<open>32 word\<close>, so arithmetic wraps around as in C.

  \<^bold>\<open>Outcomes.\<close> A fallible operation returns \<open>Inl (fault, state)\<close> or \<open>Inr (value, state)\<close>. The
  faults are the ways the C code ends: \<^verbatim>\<open>panic\<close>, a failed assertion, \<^verbatim>\<open>CPUAssert\<close>
  (caught by \<^verbatim>\<open>setjmp\<close> in GDB mode), a regular exit, waiting forever, and behaviour that C leaves
  undefined.

  \<^bold>\<open>Theories\<close>, in the order of the imports:
  \<^item> \<open>Nemu_Prelude\<close>: words, outcomes and their sequencing, bit-fields, bytes.
  \<^item> \<open>Fifo\<close>: \<^verbatim>\<open>include/utils/fifo.h\<close>; the locale \<open>bounded_queue\<close> is what clients rely
    on, the ring buffer is an instance of it.
  \<^item> \<open>Flash\<close> and \<open>Flash_Correct\<close>: \<^verbatim>\<open>dev/flash.c\<close> and what it promises; the flash memory is a state
    machine over its own record, its backing file a list of bytes.
  \<^item> \<open>Nemu_State\<close>: the records, from \<^verbatim>\<open>reg.h\<close>, \<^verbatim>\<open>mmu.h\<close>, \<^verbatim>\<open>device.h\<close>,
    \<^verbatim>\<open>monitor.h\<close>, with the lemmas on independent fields.
  \<^item> \<open>Ram\<close>: \<^verbatim>\<open>dev/ddr.c\<close>, \<^verbatim>\<open>dev/bram.c\<close>; locale \<open>byte_memory\<close>, interpreted for both.
  \<^item> \<open>Cpu_Exception\<close>: \<^verbatim>\<open>raise_exception\<close>, \<^verbatim>\<open>nemu_set_irq\<close>,
    \<^verbatim>\<open>check_intrs\<close> of \<^verbatim>\<open>cpu/cpu.c\<close>.
  \<^item> \<open>Tlb\<close>: \<^verbatim>\<open>cpu/mmu.c\<close>.
  \<^item> \<open>Uart\<close>: \<^verbatim>\<open>dev/xlnx-ulite.c\<close>, a client of \<open>bounded_queue\<close>.
  \<^item> \<open>Spi\<close>: \<^verbatim>\<open>dev/xlnx-spi.c\<close>, a client of \<open>bounded_queue\<close> and of the flash memory.
  \<^item> \<open>Bus\<close>: the small devices, the device structures, \<^verbatim>\<open>cpu/memory.c\<close>,
    \<^verbatim>\<open>dev/register.c\<close>.
  \<^item> \<open>Vmem\<close>: \<^verbatim>\<open>include/cpu/memory.h\<close>, \<^verbatim>\<open>cpu/mmu-cache.h\<close>, the accesses of
    \<^verbatim>\<open>cpu/cpu.c\<close>; the locale \<open>ram_device\<close> extends \<open>byte_memory\<close> by the device structure and
    is interpreted for both memories.
  \<^item> \<open>Exec_Common\<close>, \<open>Exec_Arith\<close>, \<open>Exec_Mdu\<close>, \<open>Exec_Branch\<close>, \<open>Exec_Memory\<close>, \<open>Exec_System\<close>,
    \<open>Exec_Float\<close>: the handlers of \<^verbatim>\<open>cpu/exec/*.h\<close>, one definition \<open>exec_name\<close> per label
    \<^verbatim>\<open>name\<close>; a handler also returns whether it falls into \<^verbatim>\<open>inst_end\<close> or jumps to
    \<^verbatim>\<open>exit\<close>.
  \<^item> \<open>Softfloat\<close>: the routines of \<^verbatim>\<open>utils/softfloat.c\<close> and \<^verbatim>\<open>include/softfloat/*.h\<close> that the
    handlers of \<^verbatim>\<open>float.h\<close> call. \<open>Rounding\<close>: what a correctly rounded result is, for any width;
    \<open>Softfloat_Words\<close>: the word operations as operations on numbers; \<open>Softfloat_Quotient\<close> and
    \<open>Softfloat_Root\<close>: the estimates of quotients and of square roots with their loops of corrections;
    \<open>Softfloat_Single\<close>, \<open>Softfloat_Double\<close> and \<open>Float_Correct\<close>: the operations and the handlers.
  \<^item> \<open>Decode\<close>: \<^verbatim>\<open>cpu/exec/exec-handlers.h\<close> and \<^verbatim>\<open>decoder_get_handler\<close>.
  \<^item> \<open>Cpu\<close>: \<^verbatim>\<open>init_cpu\<close>, \<^verbatim>\<open>cpu_exec\<close>, \<^verbatim>\<open>cpu/exec/exec.h\<close>, and the step
    relation \<open>machine_step\<close> of the machine with its host.
  \<^item> \<open>Invariants\<close>: what every handler keeps, and the invariant of reachable states.
  \<^item> \<open>Machine\<close>: the effect of whole instructions and steps, the board of the default
    configuration, start-up, register 0, composition of runs.
  \<^item> \<open>Mmu_Cache\<close>: the accesses under \<^verbatim>\<open>CONFIG_MMU_CACHE\<close> against those without it.
  \<^item> \<open>Decode_Cache\<close>: \<^verbatim>\<open>cpu/decode-cache.h\<close>, \<^verbatim>\<open>include/cpu/decode.h\<close>, \<^verbatim>\<open>decoder_set_state\<close>.
  \<^item> \<open>Gdb_Proto\<close>: \<^verbatim>\<open>utils/gdbstub/gdb-proto.c\<close>, the packets of the debugger's protocol over two streams
    of bytes.
  \<^item> \<open>Gdb_Server\<close>: \<^verbatim>\<open>utils/gdbstub/gdb-server.c\<close>, the commands on the record \<open>gdb_server\<close> (the emulator,
    the breakpoints, the buffer of memory reads) and the loop that serves them; \<open>Gdb_Correct\<close> and
    \<open>Gdb_Memory\<close>: sessions, breakpoints, memory accesses and continuing.
  \<^item> \<open>Hash_Table\<close>: \<^verbatim>\<open>utils/hash.c\<close>; the locale \<open>binding_stacks\<close> is what its clients rely on.
  \<^item> \<open>Elfsym\<close>: \<^verbatim>\<open>utils/elfsym.c\<close>, the symbols of an ELF file given as bytes.
  \<^item> \<open>Traces\<close>: \<^verbatim>\<open>monitor/iq.c\<close> and \<^verbatim>\<open>monitor/frame.c\<close>, both interpretations of the locale
    \<open>ring_log\<close>, and their reports.
  \<^item> \<open>Profile\<close>: \<^verbatim>\<open>monitor/elfperf.c\<close> and \<^verbatim>\<open>monitor/instr-perf.c\<close>, clients of the hash table.
  \<^item> \<open>Keyboard\<close>, \<open>Vga\<close>, \<open>Disk\<close>, \<open>Ethernet\<close>: the devices that the default configuration leaves out,
    each on a record of its own (\<^verbatim>\<open>dev/nemu-kbd.c\<close> with \<^verbatim>\<open>utils/sdlkey.c\<close>,
    \<^verbatim>\<open>dev/nemu-vga.c\<close>, \<^verbatim>\<open>dev/nemu-vga-ctrl.c\<close>, \<^verbatim>\<open>dev/nemu-disk.c\<close>, and
    \<^verbatim>\<open>dev/xlnx-elite.c\<close> with \<^verbatim>\<open>utils/vnet/net.c\<close> and \<^verbatim>\<open>utils/vnet/pcap.c\<close>).
  \<^item> \<open>Host_File\<close>: \<^verbatim>\<open>utils/file.c\<close>, with the loops \<^verbatim>\<open>write_s\<close> and \<^verbatim>\<open>read_s\<close>; the calls of the operating system are the fields of \<open>host_os\<close>.
  \<^item> \<open>Monitor\<close>: \<^verbatim>\<open>monitor/monitor.c\<close>, \<^verbatim>\<open>main.c\<close>, \<^verbatim>\<open>monitor/napis.c\<close> on the record \<open>monitor\<close>:
    options, loading of an image or an ELF file, the choice of the mode. \<open>Boot\<close>: the four instructions
    of the boot ROM run, and the loaded program is where they jump to.
  \<^item> \<open>Difftest\<close>: \<^verbatim>\<open>monitor/difftest.c\<close> and \<^verbatim>\<open>utils/qemu.c\<close>; the other emulator is a function from its state
    and a request packet to its next state and its answer.
  \<^item> \<open>Kernel_Debug\<close>: \<^verbatim>\<open>monitor/kernel-debug.c\<close>: the text of system calls and the comparison of the
    memory with a kernel image.

  \<^bold>\<open>What the theorems show.\<close> Refinement of the ring buffer to a bounded queue; order of received
  characters; the refill protocol of the TLB, from the exception of the first access to the translation of the second, and the agreement of
  write, probe and read for any page mask; exact
  arithmetic with the overflow, division and rotation cases that fail; bit-field instructions;
  correctly rounded floating point arithmetic, square roots included, that ends for all operands, and the
  conversions to integers that C leaves undefined;
  totality of the decoder; exception entry, system call and return, interrupts and the timer; delay
  slots and likely branches; memory seen through both segments and unaligned loads; the address map
  after initialisation and the state after start-up; independence of runs from register 0 and the
  composition of runs; an invariant of all reachable states; the cached translations do not change what
  an access does, and an instruction that was decoded once keeps every operand that its handler reads (floating point
  arithmetic and moves on its conditions apart). For the flash memory: no byte breaks it
  but an erase beyond its end, programming and reading back, erasing, and the backing file over a
  restart; the SPI controller hands over every queued byte in order. For the debugger: packets are
  understood and delivered over a disturbed line, a session refines the sequence of its commands,
  up to 32 breakpoints leave the program's memory as it was, memory reads back, a continued program stops at a
  breakpoint. For the tools around the processor: the hash table refines stacks of values, an ELF file
  reads back, cached answers of the symbol table are those of the search, the traces report what
  happened last, the profilers count. For the start: the command line sets what it names, a
  program loaded from an ELF file is in memory and its entry point is reached, the file loops transfer all bytes.
  For differential testing: a run that ends without a report agreed after every round with what the other emulator
  answered, with the registers and rounds that are exempt spelled out; the first difference of two machines in step ends the process; the
  check of a kernel image reports exactly the words that differ. For the other devices: key codes arrive in order, a pixel is
  a block of four, the disk reads back what was written, frames go out and come in whole. Some
  properties state where the code fails: page masks, the erase, division and rotation
  cases that C leaves undefined, truncation that rounds, long memory reads of the debugger.

  \<^bold>\<open>Loops and bounds.\<close> The loop of \<^verbatim>\<open>cpu_exec\<close> counts its argument down, so \<open>cpu_loop\<close>
  recurses on that number and needs no fuel. The loop of \<^verbatim>\<open>realize_device\<close> has a wrapping
  counter; its termination measure is the number of free regions. The loop of \<^verbatim>\<open>clo\<close> ends
  because the tested bit is shifted out, the loop of \<^verbatim>\<open>spi_flush_txfifo\<close> because each round
  takes a byte from the queue, the loops of the network because each takes a packet, the walk around a
  ring because it meets its start again, the loops of the debugger's protocol because each round takes bytes
  from the stream, and where the stream has ended the loop that goes on without end is the fault
  \<open>Hang\<close>. The four loops of corrections of the floating point library are partial functions, proved to
  return for every operand they are called with. No definition uses fuel.

  \<^bold>\<open>Parameters.\<close> The conversions between the two formats and from integers that the handlers leave to the host's floating point
  unit are the fields of \<open>float_ops\<close>; no theorem assumes anything about them. The casts to integers are modelled: they
  truncate, and are undefined out of range. Comparisons of
  floating point registers are those of IEEE 754.

  \<^bold>\<open>Simplifications.\<close> Messages of the emulator are not recorded, only what the guest prints. Signals
  of the host are delivered between instructions. Reads and writes of the disk's file by the host are complete, as the code
  assumes by ignoring their results; a response of the debugger's server to a peer that is gone is repeated without end, where
  the host may end the process with a signal. A memory is a function from offsets to bytes: the
  four-byte load that C makes at the last bytes of an array reads on in that function and masks the
  surplus, where C reads past the array. The counters of the performance options, the instruction
  log, the call trace and the dump of system calls are left out.

  \<^bold>\<open>Not modelled\<close>: the bridge between two debuggers, which only forwards packets between processes; the loop of the processor running from kept
  decoded instructions, which no default build does (a likely branch that is not taken and an exception then leave the chain behind); the parts of \<^verbatim>\<open>softfloat.c\<close> without a caller (other widths, fused operations,
  exponentials, conversions); terminals, sockets and windows of the host; and the
  configuration tool \<^verbatim>\<open>kconfig\<close>, which is not part of the program.
\<close>

lemma reset_state_regs:
  "gpr (cpu reset_state) = (\<lambda>_. 0)" "pc (cpu reset_state) = 0" "\<not> is_delayslot (cpu reset_state)"
  "\<not> has_exception (cpu reset_state)" "cp0 (cpu reset_state) = (\<lambda>_. 0)"
  by (simp_all add: nemu_globals_def zero_cpu_def)

lemma zero_cpu_simps [simp]:
  "gpr zero_cpu = (\<lambda>_. 0)" "cp0 zero_cpu = (\<lambda>_. 0)" "pc zero_cpu = 0" "\<not> is_delayslot zero_cpu"
  "\<not> has_exception zero_cpu" "cp0_get (r, k, n) zero_cpu = 0" "cpu reset_state = zero_cpu"
  by (simp_all add: zero_cpu_def cp0_get.simps bf_get_def nemu_globals_def)

section \<open>Control flow\<close>

text \<open>
  C2: a branch takes effect after its delay slot. Executing \<^verbatim>\<open>beq\<close> and then the instruction
  in its delay slot, here an addition to any register, performs the addition and continues at the
  branch target when the compared registers were equal before the branch, and behind the delay slot
  otherwise; the addition cannot influence the decision.
\<close>

theorem branch_delay_slot:
  assumes "CONFIG_DELAYSLOT cfg" and "rs < 32" and "rt < 32" and "rs' < 32" and "rt' < 32" and "rd' < 32"
  shows "\<exists>t. bind_r (exec_inst fo cfg (beq_w rs rt imm) s) (\<lambda>_. exec_inst fo cfg (addu_w rd' rs' rt')) = Inr ((), t) \<and>
     gpr (cpu t) = (gpr (cpu s))(rd' := gpr (cpu s) rs' + gpr (cpu s) rt') \<and>
     pc (cpu t) = (if gpr (cpu s) rs = gpr (cpu s) rt then pc (cpu s) + push_bit 2 (scast imm) + 4 else pc (cpu s) + 8) \<and>
     \<not> is_delayslot (cpu t)"
  using assms by (simp add: exec_beq exec_addu inst_end_def set_gpr_def)

theorem branch_delay_slot_witness:
  "\<exists>t. bind_r (exec_inst no_float mips32r1_defconfig (beq_w 8 9 3) reset_state)
        (\<lambda>_. exec_inst no_float mips32r1_defconfig (addu_w 8 9 10)) = Inr ((), t) \<and> pc (cpu t) = 16"
  using branch_delay_slot [OF defconfig_flags(4), of 8 9 9 10 8 no_float 3 reset_state] by (auto simp: reset_state_regs)

text \<open>
  A likely branch that is not taken cancels its delay slot: execution goes on behind it at once.
  A likely branch that is taken executes it and then continues at the target.
\<close>

theorem likely_branch:
  assumes "CONFIG_DELAYSLOT cfg" and "rs < 32" and "rt < 32" and "\<not> is_delayslot (cpu s)"
  shows "\<exists>t. exec_inst fo cfg (beql_w rs rt imm) s = Inr ((), t) \<and> gpr (cpu t) = gpr (cpu s) \<and>
     (if gpr (cpu s) rs = gpr (cpu s) rt
      then is_delayslot (cpu t) \<and> pc (cpu t) = pc (cpu s) + 4 \<and>
           br_target (cpu t) = pc (cpu s) + push_bit 2 (scast imm) + 4
      else \<not> is_delayslot (cpu t) \<and> pc (cpu t) = pc (cpu s) + 8)"
  using assms by (auto simp: exec_beql inst_end_def)

theorem likely_branch_witness:
  "\<exists>t. exec_inst no_float mips32r1_defconfig (beql_w 8 9 3) (set_gpr 8 1 reset_state) = Inr ((), t) \<and> pc (cpu t) = 8"
  using likely_branch [OF defconfig_flags(4), of 8 9 "set_gpr 8 1 reset_state" no_float 3]
  by (auto simp: reset_state_regs)

section \<open>Exceptions and interrupts\<close>

text \<open>
  C1: a system call and the return from it. A step that fetches \<^verbatim>\<open>syscall\<close> outside an exception
  enters the handler at the general vector with the cause recorded, the exception level set and EPC
  at the instruction, or at the branch before it when it is in a delay slot. A later step that
  fetches \<^verbatim>\<open>eret\<close> with EPC and Status as the exception left them returns to that address with the
  exception level cleared. No exception stays pending.
\<close>

theorem syscall_eret:
  assumes "CONFIG_EXCEPTION cfg" and "cp0_get status_EXL (cpu s) = 0" and "cp0_get status_ERL (cpu s) = 0"
    and "fetches cfg s syscall_w s'"
  shows "\<exists>t. cpu_step fo cfg s = Inr ((), t) \<and>
     pc (cpu t) = vector_of cfg EXC_SYSCALL 0 (cpu s) \<and> cp0 (cpu t) cp0_epc = restart_pc cfg (cpu s) \<and>
     cp0_get status_EXL (cpu t) = 1 \<and> cp0_get cause_ExcCode (cpu t) = EXC_SYSCALL \<and> \<not> has_exception (cpu t) \<and>
     (\<forall>u u'. fetches cfg u eret_w u' \<and> cp0 (cpu u) (12, 0) = cp0 (cpu t) (12, 0) \<and>
        cp0 (cpu u) cp0_epc = cp0 (cpu t) cp0_epc \<longrightarrow>
        (\<exists>v. cpu_step fo cfg u = Inr ((), v) \<and> pc (cpu v) = restart_pc cfg (cpu s) \<and>
           cp0_get status_EXL (cpu v) = 0 \<and> \<not> has_exception (cpu v)))"
proof -
  obtain t where t: "cpu_step fo cfg s = Inr ((), t)"
    and cpu_t: "cpu t = (inst_end cfg (enter_exception cfg EXC_SYSCALL 0 (cpu (set_gpr 0 0 s))))
           \<lparr>has_exception := False,
            pc := br_target (inst_end cfg (enter_exception cfg EXC_SYSCALL 0 (cpu (set_gpr 0 0 s))))\<rparr>"
    by (rule cpu_step_syscall [OF assms(1,4)])
  have ret: "\<exists>v. cpu_step fo cfg u = Inr ((), v) \<and> pc (cpu v) = restart_pc cfg (cpu s) \<and>
      cp0_get status_EXL (cpu v) = 0 \<and> \<not> has_exception (cpu v)"
    if u: "fetches cfg u eret_w u'" "cp0 (cpu u) (12, 0) = cp0 (cpu t) (12, 0)"
      "cp0 (cpu u) cp0_epc = cp0 (cpu t) cp0_epc" for u u'
  proof -
    obtain v where v: "cpu_step fo cfg u = Inr ((), v)"
      and cpu_v: "cpu v = (inst_end cfg (leave_exception (cpu (set_gpr 0 0 u))))
           \<lparr>has_exception := False, pc := br_target (inst_end cfg (leave_exception (cpu (set_gpr 0 0 u))))\<rparr>"
      by (rule cpu_step_eret [OF assms(1) u(1)])
    have "cp0_get status_ERL (cpu u) = cp0_get status_ERL (cpu t)" using u(2) by (simp add: cp0_get.simps)
    also have "\<dots> = 0" using assms(3) by (simp add: cpu_t)
    finally have erl: "cp0_get status_ERL (cpu u) = 0" .
    have "cp0 (cpu u) cp0_epc = restart_pc cfg (cpu s)"
      using u(3) assms(2) by (simp add: cpu_t enter_exception_epc)
    then show ?thesis using v erl by (simp add: cpu_v leave_exception_def Let_def)
  qed
  show ?thesis
    using t ret assms(2) by (auto simp: cpu_t enter_exception_epc)
qed

theorem syscall_eret_witness:
  "\<exists>t. cpu_step no_float mips32r1_defconfig (rom_state syscall_w) = Inr ((), t) \<and>
     pc (cpu t) = 0x80000180 \<and> cp0 (cpu t) cp0_epc = 0xbfc00000"
proof -
  obtain u where "fetches mips32r1_defconfig (rom_state syscall_w) syscall_w u" using rom_state_fetches by blast
  then show ?thesis
    using syscall_eret [OF defconfig_flags(3), of "rom_state syscall_w" u no_float]
    by (auto simp: vector_of_def restart_pc_def)
qed

text \<open>
  C5: when an interrupt is taken. At the end of an instruction that raised no exception, after the
  timer has advanced, an interrupt is taken exactly when interrupts are enabled outside exception and
  error level and some pending line is not masked; then the processor continues at the interrupt
  vector, EPC is where to resume and the exception level is set. Otherwise it goes on where it was.
\<close>

theorem interrupt_taken_iff:
  assumes "CONFIG_EXCEPTION cfg \<or> CONFIG_INTR cfg" and "\<not> has_exception (cpu s)" and "c = tick cfg (cpu s)"
  shows "\<exists>t. check_exception cfg s = Inr ((), t) \<and> \<not> has_exception (cpu t) \<and>
     (if intr_enabled c \<and> (\<exists>k < 8. irq_pending k c \<and> bit (cp0_get status_IM c) k)
      then pc (cpu t) = vector_of cfg EXC_INTR 0 c \<and> cp0 (cpu t) cp0_epc = restart_pc cfg c \<and>
           cp0_get status_EXL (cpu t) = 1 \<and> cp0_get cause_ExcCode (cpu t) = EXC_INTR
      else cpu t = c)"
proof -
  have "has_exception c = has_exception (cpu s)" using assms(3) by (simp add: tick_def Let_def)
  moreover have "intr_enabled c \<Longrightarrow> cp0_get status_EXL c = 0" by (simp add: intr_enabled_def)
  ultimately show ?thesis
    using check_exception_intr [OF assms(1,2)] assms(2,3) intr_unmasked_def [of c]
    by (auto simp: enter_exception_epc)
qed

theorem interrupt_taken_iff_witness:
  "\<exists>t. check_exception mips32r1_defconfig
        (on_cpu (\<lambda>c. cpr_set cp0_compare 9 (cpr_set (13, 0) 0x1000 (cpr_set (12, 0) 0xFF01 c))) reset_state) = Inr ((), t) \<and>
     pc (cpu t) = 0x80000180 \<and> cp0_get cause_ExcCode (cpu t) = EXC_INTR"
proof -
  let ?s = "on_cpu (\<lambda>c. cpr_set cp0_compare 9 (cpr_set (13, 0) 0x1000 (cpr_set (12, 0) 0xFF01 c))) reset_state"
  let ?c = "tick mips32r1_defconfig (cpu ?s)"
  have c: "?c = cpr_set cp0_count 1 (cpu ?s)" by (simp add: tick_def Let_def)
  have "intr_enabled ?c \<and> irq_pending 4 ?c \<and> bit (cp0_get status_IM ?c) 4 \<and>
      vector_of mips32r1_defconfig EXC_INTR 0 ?c = 0x80000180"
    unfolding c by (simp add: intr_enabled_def irq_pending_def vector_of_def bf_get_def bit_simps)
  then have "intr_enabled ?c \<and> (\<exists>k<8. irq_pending k ?c \<and> bit (cp0_get status_IM ?c) k)"
    "vector_of mips32r1_defconfig EXC_INTR 0 ?c = 0x80000180" by (auto intro!: exI [of _ 4])
  then show ?thesis using interrupt_taken_iff [of mips32r1_defconfig ?s ?c] by (simp del: cp0_get_cpr_set) auto
qed

text \<open>
  The timer. The check after an instruction without an exception advances Count by one; interrupt line 7 is
  raised when Count then equals Compare and is left alone otherwise, like the other lines. Writing
  Compare with \<^verbatim>\<open>mtc0\<close> sets it and drops line 7, and no other.
\<close>

theorem timer_interrupt:
  assumes "CONFIG_INTR cfg" and "inst_rd i = CP0_COMPARE" and "inst_sel i = 0"
  shows "(\<exists>t. check_intrs cfg s = Inr ((), t) \<and> cp0 (cpu t) cp0_count = cp0 (cpu s) cp0_count + 1 \<and>
        (\<forall>k. irq_pending k (cpu t) \<longleftrightarrow>
           irq_pending k (cpu s) \<or> k = 7 \<and> cp0 (cpu s) cp0_count + 1 = cp0 (cpu s) cp0_compare)) \<and>
     (\<exists>t. exec_mtc0 cfg i s = fin t \<and> cp0 (cpu t) cp0_compare = GR_TV i s \<and>
        (\<forall>k. irq_pending k (cpu t) \<longleftrightarrow> k \<noteq> 7 \<and> irq_pending k (cpu s)))"
proof -
  have b7: "bit (128 :: u32) k \<longleftrightarrow> k = 7" for k
    using bit_push_bit_iff [of 7 "1 :: u32" k] by (auto simp: push_bit_eq_mult bit_1_iff)
  have tick: "irq_pending k (tick cfg c) \<longleftrightarrow> irq_pending k c \<or> k = 7 \<and> cp0 c cp0_count + 1 = cp0 c cp0_compare" for k c
    using assms(1) irq_pending_bound [of k c] b7 [of k]
    by (auto simp: tick_def Let_def irq_pending_set_IP bit_or_iff irq_pending_def [symmetric])
  have "cp0 (tick cfg c) cp0_count = cp0 c cp0_count + 1" for c using assms(1) by (simp add: tick_def Let_def)
  moreover have "irq_pending k (enter_exception cfg EXC_INTR 0 c) = irq_pending k c" for k c
    by (simp add: irq_pending_def)
  moreover obtain t where "nemu_set_irq 7 False (on_cpu (cpr_set cp0_compare (GR_TV i s)) s) = Inr ((), t)"
    "\<And>k. irq_pending k (cpu t) \<longleftrightarrow> (if k = 7 then False else irq_pending k (cpu s))"
    "cp0 (cpu t) cp0_compare = GR_TV i s"
    using nemu_set_irq_pending [of 7 False "on_cpu (cpr_set cp0_compare (GR_TV i s)) s"]
    by (auto simp: nemu_set_irq_def Let_def irq_pending_def)
  ultimately show ?thesis using assms(2,3) tick by (auto simp: exec_mtc0_def check_intrs_eq)
qed

theorem timer_interrupt_witness:
  "\<exists>t. exec_mtc0 mips32r1_defconfig 0x40895800 (on_cpu (cpr_set (13, 0) 0x9000) reset_state) = fin t \<and>
     irq_pending 4 (cpu t) \<and> \<not> irq_pending 7 (cpu t)"
proof -
  have "inst_rd 0x40895800 = CP0_COMPARE" "inst_sel 0x40895800 = 0"
    by (simp_all add: inst_rd_def inst_sel_def bf_get_def)
  moreover have "irq_pending 4 (cpr_set (13, 0) 0x9000 zero_cpu)"
    by (simp add: irq_pending_def bf_get_def bit_simps)
  ultimately show ?thesis
    using timer_interrupt [OF defconfig_flags(5), of "0x40895800" "on_cpu (cpr_set (13, 0) 0x9000) reset_state"] by auto
qed

section \<open>Memory\<close>

text \<open>
  C8: memory is one, whichever segment it is seen through. On the board of the default configuration
  a word that \<^verbatim>\<open>sw\<close> stores at an aligned address of the DDR memory is what \<^verbatim>\<open>lw\<close>
  then loads through any address of the same physical word, cached or uncached.
\<close>

theorem store_load_alias:
  assumes "board s" and "\<not> has_exception (cpu s)" and "rs < 32" and "rt < 32" and "rs' < 32" and "rt' < 32"
    and "ddr_word (gpr (cpu s) rs + scast imm)" and "is_unmapped (gpr (cpu s) rs' + scast imm')"
    and "ioremap (gpr (cpu s) rs + scast imm) = ioremap (gpr (cpu s) rs' + scast imm')"
    and "(gpr (cpu s) rs + scast imm) AND 3 = 0"
  shows "\<exists>t. bind_r (exec_inst fo mips32r1_defconfig (sw_w rt rs imm) s)
       (\<lambda>_. exec_inst fo mips32r1_defconfig (lw_w rt' rs' imm')) = Inr ((), t) \<and>
     gpr (cpu t) rt' = gpr (cpu s) rt"
proof -
  let ?a = "gpr (cpu s) rs + scast imm" and ?b = "gpr (cpu s) rs' + scast imm'"
  have "ddr_ram.in_ram mips32r1_defconfig ?a 4 s" "ddr_ram.in_ram mips32r1_defconfig ?b 4 s"
    using in_ddr [of s _ 4] assms by (simp_all add: ddr_word_def)
  moreover have "?b AND 3 = 0" using assms(9,10) by (rule ioremap_aligned)
  ultimately show ?thesis
    using ddr_ram.sw_then_lw [OF defconfig_flags(1) assms(3-6,2) refl assms(10)] assms(9) by blast
qed

theorem store_load_alias_witness:
  "\<exists>s t. bind_r (exec_inst no_float mips32r1_defconfig (sw_w 4 2 8) s)
       (\<lambda>_. exec_inst no_float mips32r1_defconfig (lw_w 5 3 (- 4))) = Inr ((), t) \<and> gpr (cpu t) 5 = 0xCAFE"
proof -
  obtain t where "board t" "cpu t = zero_cpu" by (rule board_exists)
  then show ?thesis
    using store_load_alias [of "set_gpr 4 0xCAFE (set_gpr 3 0xA0000010 (set_gpr 2 0x80000004 t))" 2 4 3 5 8 "- 4" no_float]
    by (simp add: ddr_word_def is_unmapped_def ioremap_def) blast
qed

text \<open>
  C9: a word at any address. \<^verbatim>\<open>lwr\<close> at an address of the DDR memory and \<^verbatim>\<open>lwl\<close> three
  bytes further on together load the word that starts there, aligned or not, whatever the register
  held before.
\<close>

theorem unaligned_load:
  assumes "board s" and "\<not> has_exception (cpu s)" and "rs < 32" and "rt < 32" and "rs \<noteq> rt"
    and "ddr_word (gpr (cpu s) rs + scast imm)" and "scast imm' = (scast imm + 3 :: u32)"
  shows "\<exists>t. bind_r (exec_inst fo mips32r1_defconfig (lwr_w rt rs imm) s)
       (\<lambda>_. exec_inst fo mips32r1_defconfig (lwl_w rt rs imm')) = Inr ((), t) \<and>
     gpr (cpu t) rt = mem_read32 (ddr s) (unat (ioremap (gpr (cpu s) rs + scast imm)))"
  using lwr_then_lwl [OF assms(1,6,3-5,2) refl] assms(7) by (simp add: add.assoc)

theorem unaligned_load_witness:
  "\<exists>s t. bind_r (exec_inst no_float mips32r1_defconfig (lwr_w 4 2 1) s)
       (\<lambda>_. exec_inst no_float mips32r1_defconfig (lwl_w 4 2 4)) = Inr ((), t) \<and> gpr (cpu t) 4 = 0x55443322"
proof -
  obtain t where t: "board t" "cpu t = zero_cpu" by (rule board_exists)
  let ?s = "set_gpr 2 0x80000000 (t\<lparr>ddr := mem_write (mem_write (\<lambda>_. 0) 0 4 0x44332211) 4 4 0x88776655\<rparr>)"
  have "board ?s" using t(1) by (simp add: board_def find_device_def set_gpr_def)
  moreover have "mem_read32 (ddr ?s) 1 = 0x55443322"
    by (simp add: mem_read32_def mem_write_def byte_of_def le32_def set_gpr_def)
  ultimately show ?thesis
    using unaligned_load [of ?s 2 4 1 4 no_float] t
    by (simp add: ddr_word_def is_unmapped_def ioremap_def) blast
qed

section \<open>Runs\<close>

text \<open>
  C22: register 0. Whatever an instruction or the start-up code left in it, a run of any length goes
  the same way: it fails with the same failure or ends, in states that agree on everything but
  possibly that slot of the register file, which every fetch sets to zero first.
\<close>

theorem register_zero:
  "forget_zero (cpu_loop fo cfg n (set_gpr 0 v s)) = forget_zero (cpu_loop fo cfg n s)"
  by (rule cpu_loop_zero)

text \<open>
  C23: stepping is running. A debugger that runs \<open>m\<close> and then \<open>n\<close> instructions gets the machine that
  it would get from \<open>m + n\<close> at once, failures included, unless the guest or the user stopped the
  first run.
\<close>

theorem step_then_continue:
  assumes "unat m + unat n < 2 ^ 64"
    and "\<And>t. cpu_loop fo cfg (unat m) (s\<lparr>nemu_state := NEMU_RUNNING\<rparr>) = Inr ((), t) \<Longrightarrow> nemu_state t \<noteq> NEMU_STOP"
  shows "bind_r (cpu_exec fo cfg m s) (\<lambda>_. cpu_exec fo cfg n) = cpu_exec fo cfg (m + n) s"
  using assms by (rule cpu_exec_compose)

theorem step_then_continue_witness:
  "bind_r (cpu_exec no_float mips32r1_defconfig 1 (on_cpu (\<lambda>c. c\<lparr>pc := 2\<rparr>) reset_state))
       (\<lambda>_. cpu_exec no_float mips32r1_defconfig 2) =
     cpu_exec no_float mips32r1_defconfig 3 (on_cpu (\<lambda>c. c\<lparr>pc := 2\<rparr>) reset_state)"
proof -
  let ?s = "on_cpu (\<lambda>c. c\<lparr>pc := 2\<rparr>) reset_state"
  have "nemu_state t = NEMU_RUNNING"
    if "cpu_loop no_float mips32r1_defconfig (Suc 0) (?s\<lparr>nemu_state := NEMU_RUNNING\<rparr>) = Inr ((), t)" for t
    using that cpu_step_unaligned [OF defconfig_flags(3), of "?s\<lparr>nemu_state := NEMU_RUNNING\<rparr>" no_float]
    by (auto simp: on_cpu_def)
  then show ?thesis
    using step_then_continue [of 1 2 no_float mips32r1_defconfig ?s] by fastforce
qed

end
